(* ===== verification/Go_Base.thy ===== *)
theory Go_Base
  imports Main "HOL-Library.AList"
begin

text \<open>
  Prelude of the development: the part of Go and of its standard library that the modelled
  packages use, as executable HOL functions, and the generic lemmas on them.
  A Go string is a sequence of bytes, which is exactly a HOL \<^typ>\<open>string\<close> (a list of 8-bit
  characters). An index that Go reports as \<open>-1\<close> is \<^const>\<open>None\<close>. A Go map is an association
  list with distinct keys: the order of the list stands for the order in which \<open>range\<close> happens
  to visit the keys, so results that depend on it are only stated up to that order.
  Times are integer nanoseconds since the Unix epoch, durations integer nanoseconds.
\<close>

named_theorems go_simps "rewrite rules for the Go string and map functions"

section \<open>Package strings\<close>

definition has_prefix :: "string \<Rightarrow> string \<Rightarrow> bool" where
  "has_prefix s p \<longleftrightarrow> take (length p) s = p"

definition has_suffix :: "string \<Rightarrow> string \<Rightarrow> bool" where
  "has_suffix s p \<longleftrightarrow> length p \<le> length s \<and> drop (length s - length p) s = p"

definition trim_prefix :: "string \<Rightarrow> string \<Rightarrow> string" where
  "trim_prefix s p = (if has_prefix s p then drop (length p) s else s)"

definition trim_suffix :: "string \<Rightarrow> string \<Rightarrow> string" where
  "trim_suffix s p = (if has_suffix s p then take (length s - length p) s else s)"

text \<open>\<open>strings.TrimRight\<close>, \<open>TrimLeft\<close> and \<open>Trim\<close> with a cutset of ASCII bytes.\<close>

definition trim_left_set :: "string \<Rightarrow> string \<Rightarrow> string" where
  "trim_left_set s cs = dropWhile (\<lambda>c. c \<in> set cs) s"

definition trim_right_set :: "string \<Rightarrow> string \<Rightarrow> string" where
  "trim_right_set s cs = rev (dropWhile (\<lambda>c. c \<in> set cs) (rev s))"

definition trim_set :: "string \<Rightarrow> string \<Rightarrow> string" where
  "trim_set s cs = trim_right_set (trim_left_set s cs) cs"

fun index_byte :: "string \<Rightarrow> char \<Rightarrow> nat option" where
  "index_byte [] c = None"
| "index_byte (x # xs) c = (if x = c then Some 0 else map_option Suc (index_byte xs c))"

definition last_index_byte :: "string \<Rightarrow> char \<Rightarrow> nat option" where
  "last_index_byte s c = map_option (\<lambda>i. length s - 1 - i) (index_byte (rev s) c)"

text \<open>\<open>strings.Cut\<close> at a one-byte separator: before, after, found.\<close>

definition cut_byte :: "string \<Rightarrow> char \<Rightarrow> string \<times> string \<times> bool" where
  "cut_byte s c = (case index_byte s c of
      None \<Rightarrow> (s, [], False)
    | Some i \<Rightarrow> (take i s, drop (Suc i) s, True))"

text \<open>\<open>strings.Split\<close> at a one-byte separator (never the empty list) and \<open>strings.Join\<close>.\<close>

fun split_byte :: "string \<Rightarrow> char \<Rightarrow> string list" where
  "split_byte [] c = [[]]"
| "split_byte (x # xs) c =
     (if x = c then [] # split_byte xs c
      else (case split_byte xs c of [] \<Rightarrow> [[x]] | y # ys \<Rightarrow> (x # y) # ys))"

fun join_byte :: "string list \<Rightarrow> char \<Rightarrow> string" where
  "join_byte [] c = []"
| "join_byte [x] c = x"
| "join_byte (x # y # ys) c = x @ c # join_byte (y # ys) c"

fun contains_str :: "string \<Rightarrow> string \<Rightarrow> bool" where
  "contains_str [] p \<longleftrightarrow> p = []"
| "contains_str (x # xs) p \<longleftrightarrow> has_prefix (x # xs) p \<or> contains_str xs p"

text \<open>
  The byte sequences that \<open>strings.TrimSpace\<close> removes: the six ASCII space characters and the
  UTF-8 encodings of the other code points for which \<open>unicode.IsSpace\<close> holds (U+0085, U+00A0,
  U+1680, U+2000 to U+200A, U+2028, U+2029, U+202F, U+205F, U+3000).
\<close>

definition byte :: "int \<Rightarrow> char" where
  "byte n = char_of n"

definition space_seqs :: "string list" where
  "space_seqs =
     map (\<lambda>n. [byte n]) [9, 10, 11, 12, 13, 32] @
     [[byte 194, byte 133], [byte 194, byte 160], [byte 225, byte 154, byte 128]] @
     map (\<lambda>n. [byte 226, byte 128, byte n])
       [128, 129, 130, 131, 132, 133, 134, 135, 136, 137, 138, 168, 169, 175] @
     [[byte 226, byte 129, byte 159], [byte 227, byte 128, byte 128]]"

fun strip_one :: "string list \<Rightarrow> string \<Rightarrow> string option" where
  "strip_one [] s = None"
| "strip_one (q # qs) s =
     (if q \<noteq> [] \<and> has_prefix s q then Some (drop (length q) s) else strip_one qs s)"

lemma strip_one_shorter: "strip_one qs s = Some t \<Longrightarrow> length t < length s"
proof (induction qs)
  case (Cons q qs)
  show ?case
  proof (cases "q \<noteq> [] \<and> has_prefix s q")
    case True
    then have "q \<noteq> []" and "take (length q) s = q" by (auto simp: has_prefix_def)
    then have q: "0 < length q" "length q \<le> length s"
      by (auto, metis nat_le_linear take_all)
    from Cons.prems True have "t = drop (length q) s" by simp
    then have "length t = length s - length q" by simp
    with q show ?thesis by linarith
  next
    case False
    with Cons show ?thesis by auto
  qed
qed simp

function strip_all :: "string list \<Rightarrow> string \<Rightarrow> string" where
  "strip_all qs s = (case strip_one qs s of None \<Rightarrow> s | Some t \<Rightarrow> strip_all qs t)"
  by pat_completeness auto
termination
  by (relation "measure (\<lambda>(qs, s). length s)") (auto dest: strip_one_shorter)

declare strip_all.simps [simp del]

definition trim_space :: "string \<Rightarrow> string" where
  "trim_space s = rev (strip_all (map rev space_seqs) (rev (strip_all space_seqs s)))"

text \<open>
  \<open>strings.ToLower\<close>, as far as a comparison of the result with an ASCII literal can see it: the
  ASCII letters, and the two code points outside ASCII whose lower case is an ASCII letter
  (U+212A KELVIN SIGN to \<open>k\<close>, U+0130 to \<open>i\<close>). Every other non-ASCII code point has a non-ASCII
  lower case and cannot make such a comparison succeed.
\<close>

definition lower_char :: "char \<Rightarrow> char" where
  "lower_char c = (let n = of_char c :: int in if 65 \<le> n \<and> n \<le> 90 then byte (n + 32) else c)"

definition upper_char :: "char \<Rightarrow> char" where
  "upper_char c = (let n = of_char c :: int in if 97 \<le> n \<and> n \<le> 122 then byte (n - 32) else c)"

function to_lower :: "string \<Rightarrow> string" where
  "to_lower s = (case s of [] \<Rightarrow> []
     | c # cs \<Rightarrow>
         if has_prefix s [byte 226, byte 132, byte 170] then CHR ''k'' # to_lower (drop 3 s)
         else if has_prefix s [byte 196, byte 176] then CHR ''i'' # to_lower (drop 2 s)
         else lower_char c # to_lower cs)"
  by pat_completeness auto
termination
  by (relation "measure length") auto

declare to_lower.simps [simp del]

text \<open>
  \<open>strings.EqualFold\<close> against a literal without the letters k and s (the only ASCII letters that
  fold with a code point outside ASCII): equality up to ASCII case.
\<close>

definition equal_fold :: "string \<Rightarrow> string \<Rightarrow> bool" where
  "equal_fold s t \<longleftrightarrow> map lower_char s = map lower_char t"

section \<open>Package strconv, integers at their width\<close>

definition wrap64 :: "int \<Rightarrow> int" where
  "wrap64 x = (x + 2 ^ 63) mod 2 ^ 64 - 2 ^ 63"

definition is_digit :: "char \<Rightarrow> bool" where
  "is_digit c \<longleftrightarrow> 48 \<le> (of_char c :: int) \<and> (of_char c :: int) \<le> 57"

definition dec_val :: "string \<Rightarrow> int" where
  "dec_val s = foldl (\<lambda>a c. 10 * a + (of_char c - 48)) 0 s"

text \<open>\<open>strconv.ParseInt(s, 10, 64)\<close>: an optional sign, at least one digit, in range.\<close>

definition parse_int64 :: "string \<Rightarrow> int option" where
  "parse_int64 s =
     (let (neg, ds) = (case s of
            [] \<Rightarrow> (False, [])
          | c # cs \<Rightarrow> if c = CHR ''-'' then (True, cs)
                     else if c = CHR ''+'' then (False, cs) else (False, s))
      in if ds = [] \<or> \<not> list_all is_digit ds then None
         else let n = (if neg then - dec_val ds else dec_val ds)
              in if - (2 ^ 63) \<le> n \<and> n < 2 ^ 63 then Some n else None)"

function pos_to_dec :: "int \<Rightarrow> string" where
  "pos_to_dec n = (if n < 10 then [byte (48 + n)] else pos_to_dec (n div 10) @ [byte (48 + n mod 10)])"
  by pat_completeness auto
termination
  by (relation "measure nat") auto

declare pos_to_dec.simps [simp del]

definition int_to_dec :: "int \<Rightarrow> string" where
  "int_to_dec i = (if i < 0 then CHR ''-'' # pos_to_dec (- i) else pos_to_dec i)"

definition zero_pad :: "nat \<Rightarrow> string \<Rightarrow> string" where
  "zero_pad w s = replicate (w - length s) (CHR ''0'') @ s"

text \<open>Integer division of Go truncates towards zero.\<close>

definition go_div :: "int \<Rightarrow> int \<Rightarrow> int" where
  "go_div a b = sgn a * sgn b * (\<bar>a\<bar> div \<bar>b\<bar>)"

section \<open>Package time\<close>

abbreviation second :: int where
  "second \<equiv> 1000000000"

definition unix_to_internal :: int where
  "unix_to_internal = 62135596800"

text \<open>\<open>time.Unix(s, 0)\<close>: the seconds since year 1 are an \<open>int64\<close>, so a huge argument wraps.\<close>

definition time_unix :: "int \<Rightarrow> int" where
  "time_unix s = (wrap64 (s + unix_to_internal) - unix_to_internal) * second"

text \<open>\<open>UnixNano\<close> is an \<open>int64\<close>; \<open>UnixMilli\<close> floors (the stored nanoseconds are non-negative).\<close>

definition unix_nano :: "int \<Rightarrow> int" where
  "unix_nano t = wrap64 t"

definition unix_milli :: "int \<Rightarrow> int" where
  "unix_milli t = t div 1000000"

text \<open>\<open>time.Time{}\<close>, the first of January of year 1.\<close>

definition zeroTime :: int where
  "zeroTime = - unix_to_internal * 1000000000"

text \<open>The proleptic Gregorian date of a day counted from 1970-01-01.\<close>

definition civil_date :: "int \<Rightarrow> int \<times> int \<times> int" where
  "civil_date day =
     (let z = day + 719468;
          era = z div 146097;
          doe = z - era * 146097;
          yoe = (doe - doe div 1460 + doe div 36524 - doe div 146096) div 365;
          doy = doe - (365 * yoe + yoe div 4 - yoe div 100);
          mp = (5 * doy + 2) div 153;
          d = doy - (153 * mp + 2) div 5 + 1;
          m = (if mp < 10 then mp + 3 else mp - 9);
          y = yoe + era * 400 + (if m \<le> 2 then 1 else 0)
      in (y, m, d))"

definition day_names :: "string list" where
  "day_names = [''Sun'', ''Mon'', ''Tue'', ''Wed'', ''Thu'', ''Fri'', ''Sat'']"

definition month_names :: "string list" where
  "month_names = [''Jan'', ''Feb'', ''Mar'', ''Apr'', ''May'', ''Jun'', ''Jul'', ''Aug'', ''Sep'',
     ''Oct'', ''Nov'', ''Dec'']"

definition two_digits :: "int \<Rightarrow> string" where
  "two_digits i = zero_pad 2 (int_to_dec i)"

definition year_digits :: "int \<Rightarrow> string" where
  "year_digits y = (if y < 0 then CHR ''-'' # zero_pad 4 (int_to_dec (- y)) else zero_pad 4 (int_to_dec y))"

text \<open>\<open>t.UTC().Format("Mon, 02 Jan 2006 15:04:05 GMT")\<close>.\<close>

definition http_time :: "int \<Rightarrow> string" where
  "http_time t =
     (let s = t div second; day = s div 86400; r = s mod 86400;
          (y, m, d) = civil_date day
      in day_names ! nat ((day + 4) mod 7) @ '', '' @ two_digits d @ '' '' @
         month_names ! nat (m - 1) @ '' '' @ year_digits y @ '' '' @
         two_digits (r div 3600) @ '':'' @ two_digits (r div 60 mod 60) @ '':'' @
         two_digits (r mod 60) @ '' GMT'')"

section \<open>Package unicode/utf8\<close>

definition in_rng :: "int \<Rightarrow> int \<Rightarrow> int \<Rightarrow> bool" where
  "in_rng lo hi n \<longleftrightarrow> lo \<le> n \<and> n \<le> hi"

text \<open>
  One step of \<open>utf8.DecodeRune\<close>: the code point and its width, or \<^const>\<open>None\<close> for an invalid
  byte (Go: \<open>RuneError\<close> of width 1). The ranges are Go's acceptance ranges, so overlong forms and
  surrogates are refused.
\<close>

definition utf8_second :: "int \<Rightarrow> int \<Rightarrow> bool" where
  "utf8_second b0 b1 \<longleftrightarrow>
     (if b0 = 224 then in_rng 160 191 b1 else if b0 = 237 then in_rng 128 159 b1
      else if b0 = 240 then in_rng 144 191 b1 else if b0 = 244 then in_rng 128 143 b1
      else in_rng 128 191 b1)"

definition decode_rune :: "string \<Rightarrow> (int \<times> nat) option" where
  "decode_rune s = (case map (of_char :: char \<Rightarrow> int) (take 4 s) of
      [] \<Rightarrow> None
    | b0 # bs \<Rightarrow>
        if b0 < 128 then Some (b0, 1)
        else if in_rng 194 223 b0 then
          (case bs of b1 # _ \<Rightarrow>
             if utf8_second b0 b1 then Some ((b0 - 192) * 64 + (b1 - 128), 2) else None
           | _ \<Rightarrow> None)
        else if in_rng 224 239 b0 then
          (case bs of b1 # b2 # _ \<Rightarrow>
             if utf8_second b0 b1 \<and> in_rng 128 191 b2
             then Some ((b0 - 224) * 4096 + (b1 - 128) * 64 + (b2 - 128), 3) else None
           | _ \<Rightarrow> None)
        else if in_rng 240 244 b0 then
          (case bs of b1 # b2 # b3 # _ \<Rightarrow>
             if utf8_second b0 b1 \<and> in_rng 128 191 b2 \<and> in_rng 128 191 b3
             then Some ((b0 - 240) * 262144 + (b1 - 128) * 4096 + (b2 - 128) * 64 + (b3 - 128), 4)
             else None
           | _ \<Rightarrow> None)
        else None)"

lemma decode_rune_width: "decode_rune s = Some (r, w) \<Longrightarrow> 0 < w \<and> s \<noteq> []"
  by (cases s) (auto simp: decode_rune_def split: if_splits list.splits)

function utf8_valid :: "string \<Rightarrow> bool" where
  "utf8_valid s = (if s = [] then True
     else case decode_rune s of None \<Rightarrow> False | Some (r, w) \<Rightarrow> utf8_valid (drop w s))"
  by pat_completeness auto
termination
  by (relation "measure length") (auto dest: decode_rune_width)

declare utf8_valid.simps [simp del]

section \<open>encoding/xml.EscapeText and net/url.PathEscape\<close>

definition rune_error :: string where
  "rune_error = [byte 239, byte 191, byte 189]"

definition xml_char_ok :: "int \<Rightarrow> bool" where
  "xml_char_ok r \<longleftrightarrow> r = 9 \<or> r = 10 \<or> r = 13 \<or> in_rng 32 55295 r \<or> in_rng 57344 65533 r
     \<or> in_rng 65536 1114111 r"

definition xml_escape_rune :: "int \<Rightarrow> string \<Rightarrow> string" where
  "xml_escape_rune r raw =
     (if r = 34 then ''&#34;'' else if r = 39 then ''&#39;'' else if r = 38 then ''&amp;''
      else if r = 60 then ''&lt;'' else if r = 62 then ''&gt;''
      else if r = 9 then ''&#x9;'' else if r = 10 then ''&#xA;'' else if r = 13 then ''&#xD;''
      else if xml_char_ok r then raw else rune_error)"

function xml_escape_text :: "string \<Rightarrow> string" where
  "xml_escape_text s = (if s = [] then []
     else case decode_rune s of
         None \<Rightarrow> rune_error @ xml_escape_text (drop 1 s)
       | Some (r, w) \<Rightarrow> xml_escape_rune r (take w s) @ xml_escape_text (drop w s))"
  by pat_completeness auto
termination
  by (relation "measure length") (auto dest: decode_rune_width)

declare xml_escape_text.simps [simp del]

definition hex_upper :: "int \<Rightarrow> char" where
  "hex_upper n = (if n < 10 then byte (48 + n) else byte (55 + n))"

definition path_segment_plain :: "int \<Rightarrow> bool" where
  "path_segment_plain n \<longleftrightarrow> in_rng 97 122 n \<or> in_rng 65 90 n \<or> in_rng 48 57 n
     \<or> n \<in> set [45, 95, 46, 126] \<or> n \<in> set [36, 38, 43, 58, 61, 64]"

definition path_escape :: "string \<Rightarrow> string" where
  "path_escape s = concat (map (\<lambda>c. let n = of_char c :: int in
      if path_segment_plain n then [c]
      else [CHR ''%'', hex_upper (n div 16), hex_upper (n mod 16)]) s)"

section \<open>Package path\<close>

fun clean_segs :: "bool \<Rightarrow> string list \<Rightarrow> string list \<Rightarrow> string list" where
  "clean_segs rooted [] out = rev out"
| "clean_segs rooted (seg # segs) out =
     (if seg = [] \<or> seg = ''.'' then clean_segs rooted segs out
      else if seg = ''..'' then
        (case out of
           [] \<Rightarrow> clean_segs rooted segs (if rooted then [] else [''..''])
         | y # ys \<Rightarrow> clean_segs rooted segs (if y = ''..'' then ''..'' # y # ys else ys))
      else clean_segs rooted segs (seg # out))"

definition path_clean :: "string \<Rightarrow> string" where
  "path_clean p =
     (if p = [] then ''.''
      else let rooted = (hd p = CHR ''/'');
               body = join_byte (clean_segs rooted (split_byte p (CHR ''/'')) []) (CHR ''/'')
           in if rooted then CHR ''/'' # body else if body = [] then ''.'' else body)"

definition path_dir :: "string \<Rightarrow> string" where
  "path_dir p = path_clean (case last_index_byte p (CHR ''/'') of None \<Rightarrow> [] | Some i \<Rightarrow> take (Suc i) p)"

definition path_base :: "string \<Rightarrow> string" where
  "path_base p =
     (if p = [] then ''.''
      else let q = trim_right_set p ''/'';
               b = (case last_index_byte q (CHR ''/'') of None \<Rightarrow> q | Some i \<Rightarrow> drop (Suc i) q)
           in if b = [] then ''/'' else b)"

section \<open>Lemmas on the string functions\<close>

text \<open>A printable ASCII character other than the space: no white space sequence starts or ends with it.\<close>

definition graph_char :: "char \<Rightarrow> bool" where
  "graph_char c \<longleftrightarrow> 33 \<le> (of_char c :: int) \<and> (of_char c :: int) \<le> 126"

lemma has_prefix_iff: "has_prefix s p \<longleftrightarrow> (\<exists>t. s = p @ t)"
  unfolding has_prefix_def by (metis append_eq_conv_conj append_take_drop_id)

lemma has_prefix_Nil [simp, go_simps]: "has_prefix s []"
  by (simp add: has_prefix_def)

lemma has_prefix_append [simp, go_simps]: "has_prefix (p @ t) p"
  by (simp add: has_prefix_iff)

lemma has_prefix_Cons [simp, go_simps]: "has_prefix (x # xs) (y # ys) \<longleftrightarrow> x = y \<and> has_prefix xs ys"
  by (auto simp: has_prefix_iff)

lemma has_prefix_Nil_left [simp, go_simps]: "has_prefix [] p \<longleftrightarrow> p = []"
  by (simp add: has_prefix_iff)

lemma has_prefix_trans: "has_prefix a b \<Longrightarrow> has_prefix b c \<Longrightarrow> has_prefix a c"
  by (auto simp: has_prefix_iff)

lemma has_prefix_appendI: "has_prefix (a @ b) (a @ c) \<longleftrightarrow> has_prefix b c"
  by (auto simp: has_prefix_iff)

lemma has_prefix_linear:
  assumes "has_prefix s p" and "has_prefix s q" shows "has_prefix p q \<or> has_prefix q p"
  using assms unfolding has_prefix_iff by (metis append_eq_append_conv2)

lemma trim_prefix_append [simp, go_simps]: "trim_prefix (p @ t) p = t"
  by (simp add: trim_prefix_def)

lemma trim_prefix_decomp: "has_prefix s p \<Longrightarrow> p @ trim_prefix s p = s"
  by (auto simp: has_prefix_iff)

lemma index_byte_None [simp, go_simps]: "index_byte s c = None \<longleftrightarrow> c \<notin> set s"
  by (induction s) auto

lemma index_byte_absent [simp, go_simps]: "c \<notin> set s \<Longrightarrow> index_byte s c = None"
  by simp

lemma index_byte_Some:
  "index_byte s c = Some i \<longleftrightarrow> (i < length s \<and> s ! i = c \<and> c \<notin> set (take i s))"
proof (induction s arbitrary: i)
  case (Cons x xs)
  show ?case by (cases i) (auto simp: Cons)
qed simp

lemma index_byte_less: "index_byte s c = Some i \<Longrightarrow> i < length s"
  by (simp add: index_byte_Some)

lemma index_byte_append: "c \<notin> set a \<Longrightarrow> index_byte (a @ c # b) c = Some (length a)"
  by (induction a) auto

lemma index_byte_decomp:
  assumes "index_byte s c = Some i"
  shows "s = take i s @ c # drop (Suc i) s" and "c \<notin> set (take i s)"
  using assms by (auto simp: index_byte_Some id_take_nth_drop)

lemma cut_byte_append: "c \<notin> set a \<Longrightarrow> cut_byte (a @ c # b) c = (a, b, True)"
  by (simp add: cut_byte_def index_byte_append)

lemma split_byte_no_sep: "c \<notin> set s \<Longrightarrow> split_byte s c = [s]"
  by (induction s) auto

lemma split_byte_not_Nil [simp, go_simps]: "split_byte s c \<noteq> []"
  by (induction s) (auto split: list.splits)

lemma split_byte_append: "c \<notin> set a \<Longrightarrow> split_byte (a @ c # b) c = a # split_byte b c"
  by (induction a) auto

lemma split_byte_pieces: "x \<in> set (split_byte s c) \<Longrightarrow> c \<notin> set x"
  by (induction s arbitrary: x) (auto split: if_splits list.splits)

lemma join_split: "join_byte (split_byte s c) c = s"
proof (induction s)
  case (Cons x xs)
  obtain y ys where "split_byte xs c = y # ys" using split_byte_not_Nil by (metis list.exhaust)
  with Cons show ?case by (cases ys) auto
qed simp

lemma split_join:
  "xs \<noteq> [] \<Longrightarrow> \<forall>x \<in> set xs. c \<notin> set x \<Longrightarrow> split_byte (join_byte xs c) c = xs"
  by (induction xs c rule: join_byte.induct) (auto simp: split_byte_no_sep split_byte_append)

lemma has_suffix_iff: "has_suffix s p \<longleftrightarrow> (\<exists>t. s = t @ p)"
proof
  assume "has_suffix s p"
  then have "s = take (length s - length p) s @ p"
    unfolding has_suffix_def by (metis append_take_drop_id)
  then show "\<exists>t. s = t @ p" by blast
qed (auto simp: has_suffix_def)

lemma trim_suffix_append [simp, go_simps]: "trim_suffix (t @ p) p = t"
  by (auto simp: trim_suffix_def has_suffix_iff)

lemma trim_right_set_idem:
  "trim_right_set s cs = s" if "s = [] \<or> last s \<notin> set cs"
  using that by (cases s rule: rev_cases) (auto simp: trim_right_set_def)

lemma trim_right_set_last:
  "trim_right_set s cs = [] \<or> last (trim_right_set s cs) \<notin> set cs"
proof (cases "dropWhile (\<lambda>c. c \<in> set cs) (rev s)")
  case Nil
  then show ?thesis by (simp add: trim_right_set_def)
next
  case (Cons a list)
  then have "a \<notin> set cs" by (metis dropWhile_eq_Cons_conv)
  with Cons show ?thesis by (simp add: trim_right_set_def)
qed

section \<open>Numbers, spaces and case\<close>

lemma of_char_byte [simp]: "0 \<le> n \<Longrightarrow> n < 256 \<Longrightarrow> (of_char (byte n) :: int) = n"
  by (simp add: byte_def)

lemma dec_val_snoc: "dec_val (ds @ [c]) = 10 * dec_val ds + (of_char c - 48)"
  by (simp add: dec_val_def)

lemma pos_to_dec_props:
  assumes "0 \<le> n"
  shows "dec_val (pos_to_dec n) = n \<and> list_all is_digit (pos_to_dec n) \<and> pos_to_dec n \<noteq> []"
  using assms
proof (induction n rule: pos_to_dec.induct)
  case (1 n)
  show ?case
  proof (cases "n < 10")
    case True
    with 1 show ?thesis by (simp add: pos_to_dec.simps [of n] dec_val_def is_digit_def)
  next
    case False
    with 1 show ?thesis
      by (simp add: pos_to_dec.simps [of n] dec_val_snoc is_digit_def)
  qed
qed

lemma is_digit_sign: "is_digit c \<Longrightarrow> c \<noteq> CHR ''-'' \<and> c \<noteq> CHR ''+''"
  by (auto simp: is_digit_def)

lemma parse_int64_dec:
  assumes "0 \<le> n" and "n < 2 ^ 63"
  shows "parse_int64 (int_to_dec n) = Some n"
proof -
  obtain d ds where d: "pos_to_dec n = d # ds" using pos_to_dec_props [OF assms(1)] by (cases "pos_to_dec n") auto
  have "is_digit d" using pos_to_dec_props [OF assms(1)] d by simp
  with d is_digit_sign [OF this] assms pos_to_dec_props [OF assms(1)] show ?thesis
    by (simp add: parse_int64_def int_to_dec_def)
qed


lemma strip_one_None: "\<forall>q \<in> set qs. q \<noteq> [] \<longrightarrow> hd q \<noteq> hd s \<Longrightarrow> strip_one qs s = None"
proof (induction qs)
  case (Cons q qs)
  have "\<not> (q \<noteq> [] \<and> has_prefix s q)"
    using Cons.prems by (cases q; cases s) auto
  with Cons show ?case by auto
qed simp

lemma space_seqs_ends: "\<forall>q \<in> set space_seqs. \<not> graph_char (hd q) \<and> \<not> graph_char (last q) \<and> q \<noteq> []"
  by code_simp

lemma trim_space_id:
  assumes "graph_char (hd s)" and "graph_char (last s)"
  shows "trim_space s = s"
proof (cases "s = []")
  case True
  have "strip_one space_seqs [] = None" "strip_one (map rev space_seqs) [] = None" by code_simp+
  with True show ?thesis by (simp add: trim_space_def strip_all.simps [of _ "[]"])
next
  case False
  have "strip_one space_seqs s = None"
    by (rule strip_one_None) (use assms space_seqs_ends in metis)
  then have 1: "strip_all space_seqs s = s" by (simp add: strip_all.simps [of _ s])
  have "hd (rev s) = last s" using False by (simp add: hd_rev)
  moreover have "\<forall>q \<in> set (map rev space_seqs). q \<noteq> [] \<longrightarrow> \<not> graph_char (hd q)"
    using space_seqs_ends by (auto simp: hd_rev)
  ultimately have "strip_one (map rev space_seqs) (rev s) = None"
    using assms(2) by (intro strip_one_None) metis
  then have "strip_all (map rev space_seqs) (rev s) = rev s" by (simp add: strip_all.simps [of _ "rev s"])
  with 1 show ?thesis by (simp add: trim_space_def)
qed

lemma to_lower_Cons: "(of_char c :: int) < 128 \<Longrightarrow> to_lower (c # cs) = lower_char c # to_lower cs"
  by (subst to_lower.simps) (auto simp: byte_def)

lemma wrap64_id: "- (2 ^ 63) \<le> x \<Longrightarrow> x < 2 ^ 63 \<Longrightarrow> wrap64 x = x"
  by (simp add: wrap64_def)

lemma wrap64_range: "- (2 ^ 63) \<le> wrap64 x \<and> wrap64 x < 2 ^ 63"
proof -
  have "0 \<le> (x + 2 ^ 63) mod 2 ^ 64" "(x + 2 ^ 63) mod 2 ^ 64 < (2 ^ 64 :: int)" by simp_all
  then show ?thesis by (simp add: wrap64_def)
qed

section \<open>Absolute paths as lists of segments\<close>

text \<open>
  An absolute path without empty, \<open>.\<close> or \<open>..\<close> segments is the print of its segment list. The
  prefix test that the code uses for "below this directory" is then the prefix order on
  segment lists.
\<close>

definition plain_seg :: "string \<Rightarrow> bool" where
  "plain_seg s \<longleftrightarrow> s \<noteq> [] \<and> s \<noteq> ''.'' \<and> s \<noteq> ''..'' \<and> CHR ''/'' \<notin> set s"

definition mkpath :: "string list \<Rightarrow> string" where
  "mkpath segs = concat (map (\<lambda>s. CHR ''/'' # s) segs)"

definition clean_path :: "string \<Rightarrow> bool" where
  "clean_path p \<longleftrightarrow> (case split_byte p (CHR ''/'') of
      [] \<Rightarrow> False
    | x # segs \<Rightarrow> x = [] \<and> segs \<noteq> [] \<and> list_all plain_seg segs)"

lemma mkpath_simps [simp, go_simps]:
  "mkpath [] = []" "mkpath (x # xs) = CHR ''/'' # x @ mkpath xs"
  by (auto simp: mkpath_def)

lemma mkpath_append [simp, go_simps]: "mkpath (xs @ ys) = mkpath xs @ mkpath ys"
  by (simp add: mkpath_def)

lemma split_mkpath:
  "\<forall>x \<in> set segs. CHR ''/'' \<notin> set x \<Longrightarrow> split_byte (mkpath segs) (CHR ''/'') = [] # segs"
proof (induction segs)
  case (Cons x xs)
  then show ?case
    by (cases xs) (auto simp: split_byte_no_sep split_byte_append)
qed simp

lemma join_segs_mkpath: "segs \<noteq> [] \<Longrightarrow> CHR ''/'' # join_byte segs (CHR ''/'') = mkpath segs"
  by (induction segs "CHR ''/''" rule: join_byte.induct) auto

lemma clean_path_iff: "clean_path p \<longleftrightarrow> (\<exists>segs. segs \<noteq> [] \<and> list_all plain_seg segs \<and> p = mkpath segs)"
proof
  assume "clean_path p"
  then obtain segs where s: "split_byte p (CHR ''/'') = [] # segs" "segs \<noteq> []" "list_all plain_seg segs"
    by (auto simp: clean_path_def split: list.splits)
  have "p = join_byte ([] # segs) (CHR ''/'')" using join_split [of p] s(1) by metis
  also have "\<dots> = CHR ''/'' # join_byte segs (CHR ''/'')" using s(2) by (cases segs) auto
  also have "\<dots> = mkpath segs" using s(2) by (rule join_segs_mkpath)
  finally show "\<exists>segs. segs \<noteq> [] \<and> list_all plain_seg segs \<and> p = mkpath segs" using s by blast
next
  assume "\<exists>segs. segs \<noteq> [] \<and> list_all plain_seg segs \<and> p = mkpath segs"
  then obtain segs where s: "segs \<noteq> []" "list_all plain_seg segs" "p = mkpath segs" by blast
  then have "\<forall>x \<in> set segs. CHR ''/'' \<notin> set x" by (auto simp: list_all_iff plain_seg_def)
  with s show "clean_path p" by (simp add: clean_path_def split_mkpath)
qed

lemma clean_pathE:
  assumes "clean_path p"
  obtains segs s where "list_all plain_seg (segs @ [s])" and "p = mkpath (segs @ [s])"
  using assms unfolding clean_path_iff by (metis rev_exhaust)

lemma mkpath_inject:
  "\<forall>x \<in> set xs \<union> set ys. CHR ''/'' \<notin> set x \<Longrightarrow> mkpath xs = mkpath ys \<longleftrightarrow> xs = ys"
  by (metis Un_iff list.inject split_mkpath)

lemma plain_no_slash: "list_all plain_seg xs \<Longrightarrow> \<forall>x \<in> set xs. CHR ''/'' \<notin> set x"
  by (auto simp: list_all_iff plain_seg_def)

lemma mkpath_below:
  assumes "\<forall>x \<in> set ps \<union> set qs. CHR ''/'' \<notin> set x"
  shows "has_prefix (mkpath qs) (mkpath ps @ ''/'') \<longleftrightarrow> (\<exists>r. r \<noteq> [] \<and> qs = ps @ r)"
  using assms
proof (induction ps arbitrary: qs)
  case Nil
  then show ?case by (cases qs) auto
next
  case (Cons p ps)
  show ?case
  proof (cases qs)
    case Nil
    then show ?thesis by simp
  next
    case (Cons q qs')
    have noslash: "CHR ''/'' \<notin> set p" "CHR ''/'' \<notin> set q" using Cons.prems Cons by auto
    have "has_prefix (q @ mkpath qs') (p @ mkpath ps @ ''/'')
        \<longleftrightarrow> q = p \<and> has_prefix (mkpath qs') (mkpath ps @ ''/'')"
    proof (cases "q = p")
      case True
      then show ?thesis by (simp add: has_prefix_appendI)
    next
      case False
      have starts: "\<exists>t. mkpath ps @ ''/'' = CHR ''/'' # t" by (cases ps) auto
      then obtain t where t: "mkpath ps @ ''/'' = CHR ''/'' # t" by blast
      have "\<not> has_prefix (q @ mkpath qs') (p @ mkpath ps @ ''/'')"
      proof
        assume "has_prefix (q @ mkpath qs') (p @ mkpath ps @ ''/'')"
        then obtain u where u: "q @ mkpath qs' = p @ CHR ''/'' # (t @ u)"
          using t by (auto simp: has_prefix_iff)
        then have "split_byte (q @ mkpath qs') (CHR ''/'') = p # split_byte (t @ u) (CHR ''/'')"
          using noslash(1) by (simp add: split_byte_append)
        moreover have "\<exists>w. split_byte (q @ mkpath qs') (CHR ''/'') = q # w"
          using noslash(2) by (cases qs') (auto simp: split_byte_no_sep split_byte_append)
        ultimately show False using False by auto
      qed
      with False show ?thesis by simp
    qed
    with Cons Cons.IH [of qs'] Cons.prems show ?thesis by auto
  qed
qed

lemma clean_segs_plain: "list_all plain_seg segs \<Longrightarrow> clean_segs r segs out = rev out @ segs"
  by (induction segs arbitrary: out) (auto simp: plain_seg_def)

lemma last_index_mkpath:
  assumes "CHR ''/'' \<notin> set s"
  shows "last_index_byte (a @ CHR ''/'' # s) (CHR ''/'') = Some (length a)"
proof -
  have "rev (a @ CHR ''/'' # s) = rev s @ CHR ''/'' # rev a" by simp
  then have "index_byte (rev (a @ CHR ''/'' # s)) (CHR ''/'') = Some (length s)"
    using assms by (simp add: index_byte_append)
  then show ?thesis by (simp add: last_index_byte_def)
qed

lemma split_byte_snoc_sep: "split_byte (s @ [c]) c = split_byte s c @ [[]]"
  by (induction s) (auto split: list.splits)

lemma clean_segs_append:
  "list_all plain_seg xs \<Longrightarrow> clean_segs r (xs @ ys) out = clean_segs r ys (rev xs @ out)"
  by (induction xs arbitrary: out) (auto simp: plain_seg_def)

lemma path_dir_mkpath:
  assumes "list_all plain_seg (segs @ [s])"
  shows "path_dir (mkpath (segs @ [s])) = (if segs = [] then ''/'' else mkpath segs)"
proof -
  have ns: "CHR ''/'' \<notin> set s" and pl: "list_all plain_seg segs"
    using assms by (auto simp: plain_seg_def)
  have "path_dir (mkpath (segs @ [s])) = path_clean (mkpath segs @ ''/'')"
    using last_index_mkpath [OF ns, of "mkpath segs"] by (simp add: path_dir_def)
  also have "\<dots> = (if segs = [] then ''/'' else mkpath segs)"
  proof (cases segs)
    case Nil
    then show ?thesis by (simp add: path_clean_def)
  next
    case (Cons x xs)
    have "split_byte (mkpath segs @ ''/'') (CHR ''/'') = ([] # segs) @ [[]]"
      using split_mkpath [OF plain_no_slash [OF pl]] by (simp only: split_byte_snoc_sep)
    then have "clean_segs True (split_byte (mkpath segs @ ''/'') (CHR ''/'')) [] = segs"
      using pl by (simp add: clean_segs_append)
    then show ?thesis using Cons by (simp add: path_clean_def join_segs_mkpath)
  qed
  finally show ?thesis .
qed

section \<open>The order of clean paths\<close>

definition below :: "string \<Rightarrow> string \<Rightarrow> bool" where
  "below p q \<longleftrightarrow> has_prefix q (p @ ''/'')"

lemma clean_path_mkpath: "segs \<noteq> [] \<Longrightarrow> list_all plain_seg segs \<Longrightarrow> clean_path (mkpath segs)"
  unfolding clean_path_iff by blast

lemma below_mkpath:
  assumes "list_all plain_seg ps" and "list_all plain_seg qs"
  shows "below (mkpath ps) (mkpath qs) \<longleftrightarrow> (\<exists>r. r \<noteq> [] \<and> qs = ps @ r)"
  unfolding below_def using assms by (intro mkpath_below) (auto dest: plain_no_slash)

lemma mkpath_eq_iff:
  "list_all plain_seg ps \<Longrightarrow> list_all plain_seg qs \<Longrightarrow> mkpath ps = mkpath qs \<longleftrightarrow> ps = qs"
  by (intro mkpath_inject) (auto dest: plain_no_slash)

lemma below_irrefl [simp]: "\<not> below p p"
  by (auto simp: below_def has_prefix_iff)

lemma below_append: "below p q \<longleftrightarrow> (\<exists>r. q = p @ CHR ''/'' # r)"
  by (auto simp: below_def has_prefix_iff)

lemma below_length: "below p q \<Longrightarrow> length p < length q"
  by (auto simp: below_append)

lemma below_trans: "below p q \<Longrightarrow> below q r \<Longrightarrow> below p r"
  by (auto simp: below_append)

lemma below_linear: "below p r \<Longrightarrow> below q r \<Longrightarrow> p = q \<or> below p q \<or> below q p"
proof -
  assume "below p r" "below q r"
  then have "has_prefix (p @ ''/'') (q @ ''/'') \<or> has_prefix (q @ ''/'') (p @ ''/'')"
    unfolding below_def by (rule has_prefix_linear)
  moreover have "has_prefix (a @ ''/'') (b @ ''/'') \<Longrightarrow> a = b \<or> below b a" for a b
  proof -
    assume "has_prefix (a @ ''/'') (b @ ''/'')"
    then obtain t where t: "a @ ''/'' = b @ ''/'' @ t" by (auto simp: has_prefix_iff)
    show ?thesis
    proof (cases t rule: rev_cases)
      case Nil
      with t show ?thesis by simp
    next
      case (snoc ys y)
      with t have "a = b @ CHR ''/'' # ys" by simp
      then show ?thesis by (auto simp: below_append)
    qed
  qed
  ultimately show ?thesis by blast
qed

lemma path_dir_clean:
  assumes "clean_path q" and "path_dir q \<noteq> ''/''"
  shows "clean_path (path_dir q)" and "below (path_dir q) q"
proof -
  obtain segs s where q: "list_all plain_seg (segs @ [s])" "q = mkpath (segs @ [s])"
    using assms(1) by (rule clean_pathE)
  then have "segs \<noteq> []" and d: "path_dir q = mkpath segs"
    using assms(2) path_dir_mkpath [OF q(1)] by (auto split: if_splits)
  then show "clean_path (path_dir q)" using q by (simp add: clean_path_mkpath)
  have "below (mkpath segs) (mkpath (segs @ [s]))" using q(1) by (subst below_mkpath) auto
  then show "below (path_dir q) q" using d q(2) by metis
qed

lemma below_path_dir:
  assumes "clean_path p" and "clean_path q" and "below p q"
  shows "path_dir q = p \<or> below p (path_dir q)" and "path_dir q \<noteq> ''/''"
proof -
  obtain ps where p: "ps \<noteq> []" "list_all plain_seg ps" "p = mkpath ps"
    using assms(1) unfolding clean_path_iff by blast
  obtain segs s where q: "list_all plain_seg (segs @ [s])" "q = mkpath (segs @ [s])"
    using assms(2) by (rule clean_pathE)
  obtain r where r: "r \<noteq> []" "segs @ [s] = ps @ r"
    using assms(3) p q below_mkpath [of ps "segs @ [s]"] by auto
  then obtain r' where r': "segs = ps @ r'" by (cases r rule: rev_cases) auto
  then have d: "path_dir q = mkpath segs" using path_dir_mkpath [OF q(1)] p q(2) by simp
  show "path_dir q = p \<or> below p (path_dir q)"
    unfolding d p(3) using r' p q(1) by (subst below_mkpath) auto
  show "path_dir q \<noteq> ''/''" unfolding d using r' p by (cases ps) (auto simp: plain_seg_def)
qed

lemma below_path_dirI:
  assumes "clean_path q" and "path_dir q \<noteq> ''/''" and "path_dir q = p \<or> below p (path_dir q)"
  shows "below p q"
  using assms path_dir_clean below_trans by blast

text \<open>Moving a path from below one directory to below another.\<close>

definition rebase :: "string \<Rightarrow> string \<Rightarrow> string \<Rightarrow> string" where
  "rebase src dst q = dst @ drop (length src) q"

lemma rebase_self [simp]: "rebase src dst src = dst"
  by (simp add: rebase_def)

lemma rebase_below: "below src q \<Longrightarrow> below dst (rebase src dst q)"
  by (auto simp: below_append rebase_def)

lemma rebase_inverse: "q = src \<or> below src q \<Longrightarrow> rebase dst src (rebase src dst q) = q"
  by (auto simp: below_append rebase_def)

lemma rebase_clean:
  assumes "clean_path src" and "clean_path dst" and "clean_path q" and "below src q"
  shows "clean_path (rebase src dst q)"
    and "path_dir (rebase src dst q) = rebase src dst (path_dir q)"
proof -
  obtain ss where s: "ss \<noteq> []" "list_all plain_seg ss" "src = mkpath ss"
    using assms(1) unfolding clean_path_iff by blast
  obtain ds where d: "ds \<noteq> []" "list_all plain_seg ds" "dst = mkpath ds"
    using assms(2) unfolding clean_path_iff by blast
  obtain segs x where q: "list_all plain_seg (segs @ [x])" "q = mkpath (segs @ [x])"
    using assms(3) by (rule clean_pathE)
  obtain r where r: "segs = ss @ r"
    using assms(4) s q below_mkpath [of ss "segs @ [x]"]
    by (auto simp: append_eq_append_conv2 Cons_eq_append_conv)
  have reb: "rebase src dst q = mkpath ((ds @ r) @ [x])" using r q s d by (simp add: rebase_def)
  have pl: "list_all plain_seg ((ds @ r) @ [x])" using d q r by simp
  show "clean_path (rebase src dst q)" unfolding reb using pl by (intro clean_path_mkpath) simp_all
  have "path_dir q = mkpath segs" using path_dir_mkpath [OF q(1)] q(2) r s(1) by simp
  moreover have "path_dir (rebase src dst q) = mkpath (ds @ r)"
    unfolding reb using path_dir_mkpath [OF pl] d(1) by simp
  ultimately show "path_dir (rebase src dst q) = rebase src dst (path_dir q)"
    using r s d by (simp add: rebase_def)
qed

section \<open>Association lists as Go maps\<close>

type_synonym 'v gomap = "(string \<times> 'v) list"

definition distinct_keys :: "('k \<times> 'v) list \<Rightarrow> bool" where
  "distinct_keys m \<longleftrightarrow> distinct (map fst m)"

lemma map_of_filter_key [simp, go_simps]:
  "map_of (filter (\<lambda>kv. P (fst kv)) m) k = (if P k then map_of m k else None)"
  by (induction m) auto

lemma map_of_filter_not_prefix [simp, go_simps]:
  "map_of (filter (\<lambda>kv. \<not> has_prefix (fst kv) pre) m) k = (if has_prefix k pre then None else map_of m k)"
  using map_of_filter_key [of "\<lambda>k. \<not> has_prefix k pre" m k] by simp

lemma distinct_keys_filter [simp]: "distinct_keys m \<Longrightarrow> distinct_keys (filter P m)"
  unfolding distinct_keys_def by (induction m) (auto simp: image_iff)

lemma distinct_keys_update [simp]: "distinct_keys m \<Longrightarrow> distinct_keys (AList.update k v m)"
  by (simp add: distinct_keys_def distinct_update)

lemma distinct_keys_delete [simp]: "distinct_keys m \<Longrightarrow> distinct_keys (AList.delete k m)"
  by (simp add: distinct_keys_def distinct_delete)

lemma distinct_keys_Nil [simp]: "distinct_keys []"
  by (simp add: distinct_keys_def)

lemmas gomap_simps = update_conv' delete_conv' map_of_filter_key

section \<open>Lists of rows\<close>

text \<open>A table is a list of rows; a key finds at most one of them.\<close>

lemma find_map_same:
  assumes "\<And>x. P (f x) = P x"
  shows "find P (map f xs) = map_option f (find P xs)"
  using assms by (induction xs) auto

lemma find_snoc: "find P (xs @ [y]) = (case find P xs of Some x \<Rightarrow> Some x | None \<Rightarrow> if P y then Some y else None)"
  by (induction xs) auto

lemma find_filter_key:
  assumes "distinct (map k xs)"
  shows "find (\<lambda>x. k x = a) (filter Q xs) = Option.bind (find (\<lambda>x. k x = a) xs) (\<lambda>x. if Q x then Some x else None)"
  using assms
proof (induction xs)
  case (Cons x xs)
  have "find (\<lambda>y. k y = k x) (filter Q xs) = None"
    using Cons.prems by (auto simp: find_None_iff image_iff)
  with Cons show ?case by auto
qed simp

lemma find_SomeD: "find P xs = Some x \<Longrightarrow> x \<in> set xs \<and> P x"
  by (induction xs) (auto split: if_splits)

lemma find_key:
  assumes "distinct (map k xs)"
  shows "find (\<lambda>x. k x = a) xs = Some x \<longleftrightarrow> x \<in> set xs \<and> k x = a"
  using assms by (induction xs) (auto simp: image_iff)

end
