(* ===== verification/Webdav_Types.thy ===== *)
theory Webdav_Types
  imports Go_Base
begin

text \<open>
  The data that the WebDAV packages exchange (\<^verbatim>\<open>src/internal/webdav/fs.go\<close>,
  \<^verbatim>\<open>davutil.go\<close>, \<^verbatim>\<open>etag.go\<close>): the error values, the entry of a resource, lock requests,
  property patches, the permission bits and the derived strings \<open>oc:permissions\<close>, \<open>oc:fileid\<close>
  and the ETag. The hash function SHA-1 with hexadecimal output is the parameter \<open>sha1hex\<close>.
\<close>

named_theorems dav_simps "unfolding rules for the WebDAV data definitions"

section \<open>Errors and results\<close>

text \<open>
  The sentinel errors of \<^verbatim>\<open>fs.go\<close>. \<open>ErrOther\<close> is any other error value (I/O, random source),
  and \<open>Panic\<close> is not an error value but a run-time panic (nil dereference) of the operation.
\<close>

datatype fs_error =
    ErrNotFound | ErrNotDir | ErrIsDir | ErrForbidden | ErrParentMissing | ErrExists
  | ErrLocked | ErrBadRequest | ErrPrecondition | ErrConflict | ErrMethodNotAllowed
  | ErrUnsupportedMedia | ErrNotImplemented | ErrOther string | Panic

type_synonym 'a result = "fs_error + 'a"

section \<open>Entries\<close>

record CustomProp =
  cpNS :: string
  cpName :: string
  cpValue :: string

record Entry =
  ePath :: string
  eIsDir :: bool
  eSize :: int
  eETag :: string
  eModTime :: int
  eNumericID :: int
  ePermissions :: int
  eShareable :: bool
  eMounted :: bool
  eShared :: bool
  eContentType :: string
  eChecksum :: string
  eTrashOriginal :: string
  eTrashDeleted :: int
  eFavorite :: int
  eLockToken :: string
  eLockOwner :: string
  eLockTimeout :: int
  eDisplayName :: string
  eIsCalendar :: bool
  eIsPrincipal :: bool
  eCTag :: string
  eCalendarColor :: string
  eCalendarOrder :: int
  eCalendarEnabled :: bool
  eCalendarDescription :: string
  eCalendarData :: string
  eShareAccess :: string
  eOwnerPrincipal :: string
  eCalendarUserAddress :: string
  eCurrentUserPrincipal :: string
  eCalendarHomeSet :: string
  eIsAddressbook :: bool
  eAddressbookHomeSet :: string
  eAddressData :: string
  eStatus :: int
  eExtraProps :: "CustomProp list"

text \<open>The zero value of the struct.\<close>

definition zeroEntry :: Entry where
  "zeroEntry = \<lparr>ePath = [], eIsDir = False, eSize = 0, eETag = [], eModTime = 0, eNumericID = 0,
     ePermissions = 0, eShareable = False, eMounted = False, eShared = False, eContentType = [],
     eChecksum = [], eTrashOriginal = [], eTrashDeleted = 0, eFavorite = 0, eLockToken = [],
     eLockOwner = [], eLockTimeout = 0, eDisplayName = [], eIsCalendar = False,
     eIsPrincipal = False, eCTag = [], eCalendarColor = [], eCalendarOrder = 0,
     eCalendarEnabled = False, eCalendarDescription = [], eCalendarData = [], eShareAccess = [],
     eOwnerPrincipal = [], eCalendarUserAddress = [], eCurrentUserPrincipal = [],
     eCalendarHomeSet = [], eIsAddressbook = False, eAddressbookHomeSet = [], eAddressData = [],
     eStatus = 0, eExtraProps = []\<rparr>"

record CollectionMeta =
  cmDestination :: string
  cmTotalLength :: int

record PropPatchOp =
  ppRemove :: bool
  ppSpace :: string
  ppName :: string
  ppValue :: string

record PropPatchResult =
  prSpace :: string
  prName :: string
  prStatus :: int

record LockRequest =
  lrRefresh :: bool
  lrOwner :: string
  lrTimeout :: int
  lrToken :: string
  lrDepthInfinity :: bool

record LockInfo =
  liToken :: string
  liOwner :: string
  liTimeout :: int
  liPath :: string
  liDepthInfinity :: bool

record ReportRequest =
  rqName :: string
  rqBody :: string

section \<open>Permission bits and derived strings\<close>

definition PermRead :: int where "PermRead = 1"
definition PermUpdate :: int where "PermUpdate = 2"
definition PermCreate :: int where "PermCreate = 4"
definition PermDelete :: int where "PermDelete = 8"
definition PermShare :: int where "PermShare = 16"
definition PermAll :: int where "PermAll = 31"

lemmas perm_defs = PermRead_def PermUpdate_def PermCreate_def PermDelete_def PermShare_def PermAll_def

text \<open>\<open>perms & bit != 0\<close> on Go's \<open>int\<close> (two's complement), for a single bit.\<close>

definition has_perm :: "int \<Rightarrow> int \<Rightarrow> bool" where
  "has_perm perms b \<longleftrightarrow> and perms b \<noteq> 0"

definition PermissionString :: "int \<Rightarrow> bool \<Rightarrow> bool \<Rightarrow> bool \<Rightarrow> bool \<Rightarrow> string" where
  "PermissionString perms isDir isShareable isMounted isShared =
     (if isShared then ''S'' else []) @
     (if isShareable \<and> has_perm perms PermShare then ''R'' else []) @
     (if isMounted then ''M'' else []) @
     (if has_perm perms PermRead then ''G'' else []) @
     (if has_perm perms PermDelete then ''D'' else []) @
     (if has_perm perms PermUpdate then ''NV'' else []) @
     (if isDir then (if has_perm perms PermCreate then ''CK'' else [])
      else (if has_perm perms PermUpdate then ''W'' else []))"

definition FileID :: "int \<Rightarrow> string \<Rightarrow> string" where
  "FileID numericID instanceID = zero_pad 8 (int_to_dec numericID) @ instanceID"

definition ComputeETag :: "(string \<Rightarrow> string) \<Rightarrow> int \<Rightarrow> int \<Rightarrow> string \<Rightarrow> string" where
  "ComputeETag sha1hex sz mtime path =
     sha1hex (int_to_dec sz @ CHR 0x00 # int_to_dec (unix_nano mtime) @ CHR 0x00 # path)"

end
