(* ===== verification/Webdav_Cond.thy ===== *)
theory Webdav_Cond
  imports Webdav_Types
begin

text \<open>
  Conditional writes (\<^verbatim>\<open>src/internal/webdav/cond.go\<close>) and the header syntax of lock tokens
  (\<^verbatim>\<open>src/internal/webdav/lock.go\<close>): the scanners of the \<open>If\<close>, \<open>If-Match\<close> and \<open>If-None-Match\<close>
  headers, the evaluation of the preconditions, the extraction of lock tokens and the
  \<open>Timeout\<close> header. The scanners are the index loops of the source, as recursion on the rest of
  the header; each is shown to invert a printer of the header syntax.
\<close>

section \<open>cond.go\<close>

record WriteCond =
  IfETags :: "string list"
  IfMatch :: "string list"
  IfNoneMatch :: "string list"

definition listStartsWithNot :: "string \<Rightarrow> bool" where
  "listStartsWithNot l =
     (let t = trim_space l in
      if length t < 3 \<or> \<not> equal_fold (take 3 t) ''not'' then False
      else if length t = 3 then True
      else t ! 3 \<in> set [CHR '' '', CHR 0x09, CHR ''<'', CHR ''['', CHR 0x22, CHR ''(''])"

function quotedTokens :: "string \<Rightarrow> string list" where
  "quotedTokens s = (case index_byte s (CHR 0x22) of
      None \<Rightarrow> []
    | Some q \<Rightarrow> (let rest = drop (Suc q) s in
        case index_byte rest (CHR 0x22) of
          None \<Rightarrow> []
        | Some e \<Rightarrow> take e rest # quotedTokens (drop (Suc e) rest)))"
  by pat_completeness auto
termination
  by (relation "measure length") (auto dest!: index_byte_less)

function bracketETags :: "string \<Rightarrow> string list" where
  "bracketETags s = (case index_byte s (CHR ''['') of
      None \<Rightarrow> []
    | Some op \<Rightarrow> (let rest = drop (Suc op) s in
        case index_byte rest (CHR '']'') of
          None \<Rightarrow> quotedTokens rest
        | Some e \<Rightarrow> quotedTokens (take e rest) @ bracketETags (drop (Suc e) rest)))"
  by pat_completeness auto
termination
  by (relation "measure length") (auto dest!: index_byte_less)

definition listETags :: "string \<Rightarrow> string list" where
  "listETags l = (if listStartsWithNot l then [] else bracketETags l)"

function ParseIfETags :: "string \<Rightarrow> string list" where
  "ParseIfETags h = (case index_byte h (CHR ''('') of
      None \<Rightarrow> []
    | Some op \<Rightarrow> (let rest = drop (Suc op) h in
        case index_byte rest (CHR '')'') of
          None \<Rightarrow> listETags rest
        | Some e \<Rightarrow> listETags (take e rest) @ ParseIfETags (drop (Suc e) rest)))"
  by pat_completeness auto
termination
  by (relation "measure length") (auto dest!: index_byte_less)

declare quotedTokens.simps [simp del] bracketETags.simps [simp del] ParseIfETags.simps [simp del]

definition splitETagList :: "string \<Rightarrow> string list" where
  "splitETagList h =
     (if trim_space h = [] then []
      else filter (\<lambda>v. v \<noteq> [])
        (map (\<lambda>raw. trim_set (trim_prefix (trim_space raw) ''W/'') [CHR 0x22])
           (split_byte h (CHR '',''))))"

text \<open>\<open>Evaluate\<close> returns the first failed rule; a nil receiver is \<^const>\<open>None\<close>.\<close>

definition Evaluate :: "WriteCond option \<Rightarrow> bool \<Rightarrow> string \<Rightarrow> fs_error option" where
  "Evaluate c exists etag = (case c of
      None \<Rightarrow> None
    | Some c \<Rightarrow>
        if IfETags c \<noteq> [] \<and> (\<not> exists \<or> etag \<notin> set (IfETags c)) then Some ErrPrecondition
        else if ''*'' \<in> set (IfMatch c) \<and> \<not> exists then Some ErrPrecondition
        else if IfMatch c \<noteq> [] \<and> ''*'' \<notin> set (IfMatch c) \<and> (\<not> exists \<or> etag \<notin> set (IfMatch c))
          then Some ErrPrecondition
        else if ''*'' \<in> set (IfNoneMatch c) \<and> exists then Some ErrPrecondition
        else if IfNoneMatch c \<noteq> [] \<and> exists \<and> etag \<in> set (IfNoneMatch c) then Some ErrPrecondition
        else None)"

section \<open>lock.go: header syntax\<close>

definition defaultLockTimeout :: int where
  "defaultLockTimeout = 1800 * second"

definition maxLockTimeout :: int where
  "maxLockTimeout = 86400 * second"

definition parseTimeoutHeader :: "string \<Rightarrow> int" where
  "parseTimeoutHeader v0 =
     (let v = trim_space v0 in
      if v = [] \<or> equal_fold v ''Infinite'' then defaultLockTimeout
      else let first = trim_space (fst (cut_byte v (CHR '',''))) in
        if equal_fold first ''Infinite'' then defaultLockTimeout
        else if \<not> has_prefix (to_lower first) ''second-'' then defaultLockTimeout
        else (case parse_int64 (drop 7 first) of
            None \<Rightarrow> defaultLockTimeout
          | Some n \<Rightarrow> if n \<le> 0 then defaultLockTimeout
              else let d = wrap64 (n * second) in
                if d > maxLockTimeout then maxLockTimeout else d))"

definition timeoutHeaderValue :: "int \<Rightarrow> string" where
  "timeoutHeaderValue d =
     (let sec = go_div d second; sec = (if sec < 0 then 0 else sec) in ''Second-'' @ int_to_dec sec)"

definition StripLockToken :: "string \<Rightarrow> string" where
  "StripLockToken v = trim_space (trim_suffix (trim_prefix (trim_space v) ''<'') ''>'')"

function ExtractLockTokens :: "string \<Rightarrow> string list" where
  "ExtractLockTokens h = (case index_byte h (CHR ''<'') of
      None \<Rightarrow> []
    | Some st \<Rightarrow> (let rest = drop st h in
        case index_byte rest (CHR ''>'') of
          None \<Rightarrow> []
        | Some e \<Rightarrow>
            (let tok = trim_space (drop 1 (take e rest)); tl' = drop (Suc e) rest
             in (if has_prefix tok ''opaquelocktoken:'' then [tok] else []) @ ExtractLockTokens tl')))"
  by pat_completeness auto
termination
  by (relation "measure length") (auto dest!: index_byte_less)

declare ExtractLockTokens.simps [simp del]

definition lockHeaderHasToken :: "string \<Rightarrow> string \<Rightarrow> bool" where
  "lockHeaderHasToken header token0 =
     (let token = StripLockToken token0 in
      if token = [] then False
      else if token \<in> set (ExtractLockTokens header) then True
      else StripLockToken header = token)"

section \<open>Scanner lemmas\<close>

text \<open>One round of each scanner loop.\<close>

lemma quotedTokens_token:
  "CHR 0x22 \<notin> set a \<Longrightarrow> CHR 0x22 \<notin> set t \<Longrightarrow>
    quotedTokens (a @ CHR 0x22 # t @ CHR 0x22 # rest) = t # quotedTokens rest"
  by (subst quotedTokens.simps) (simp add: index_byte_append)

lemma quotedTokens_none: "CHR 0x22 \<notin> set s \<Longrightarrow> quotedTokens s = []"
  by (subst quotedTokens.simps) simp

lemma bracketETags_span:
  "CHR ''['' \<notin> set a \<Longrightarrow> CHR '']'' \<notin> set t \<Longrightarrow>
    bracketETags (a @ CHR ''['' # t @ CHR '']'' # rest) = quotedTokens t @ bracketETags rest"
  by (subst bracketETags.simps) (simp add: index_byte_append)

lemma bracketETags_none: "CHR ''['' \<notin> set s \<Longrightarrow> bracketETags s = []"
  by (subst bracketETags.simps) simp

lemma ParseIfETags_list:
  "CHR ''('' \<notin> set a \<Longrightarrow> CHR '')'' \<notin> set t \<Longrightarrow>
    ParseIfETags (a @ CHR ''('' # t @ CHR '')'' # rest) = listETags t @ ParseIfETags rest"
  by (subst ParseIfETags.simps) (simp add: index_byte_append)

lemma ParseIfETags_none: "CHR ''('' \<notin> set s \<Longrightarrow> ParseIfETags s = []"
  by (subst ParseIfETags.simps) simp

lemma ParseIfETags_skip: "c \<noteq> CHR ''('' \<Longrightarrow> ParseIfETags (c # s) = ParseIfETags s"
  by (subst (1 2) ParseIfETags.simps) (simp split: option.split)

lemma ExtractLockTokens_token:
  assumes "CHR ''<'' \<notin> set a" and "CHR ''>'' \<notin> set t"
  shows "ExtractLockTokens (a @ CHR ''<'' # t @ CHR ''>'' # rest) =
    (if has_prefix (trim_space t) ''opaquelocktoken:'' then [trim_space t] else []) @ ExtractLockTokens rest"
proof -
  have "index_byte (CHR ''<'' # t @ CHR ''>'' # rest) (CHR ''>'') = Some (Suc (length t))"
    using index_byte_append [of "CHR ''>''" "CHR ''<'' # t" rest] assms(2) by simp
  then show ?thesis
    using assms(1) by (subst ExtractLockTokens.simps) (simp add: index_byte_append)
qed

lemma ExtractLockTokens_none: "CHR ''<'' \<notin> set s \<Longrightarrow> ExtractLockTokens s = []"
  by (subst ExtractLockTokens.simps) simp

section \<open>Printing an If header\<close>

text \<open>
  The \<open>If\<close> header that a client sends for lock tokens and entity tags of this server: one
  parenthesised list per pair, the token in angle brackets and the tag in square brackets.
  Tokens and tags are hexadecimal (\<open>randomLockToken\<close>, \<open>ComputeETag\<close>).
\<close>

definition hex_string :: "string \<Rightarrow> bool" where
  "hex_string s \<longleftrightarrow> s \<noteq> [] \<and> list_all (\<lambda>c. c \<in> set ''0123456789abcdef'') s"

definition printIfList :: "string \<times> string \<Rightarrow> string" where
  "printIfList te = (case te of (t, e) \<Rightarrow>
     ''(<opaquelocktoken:'' @ t @ ''> ['' @ CHR 0x22 # e @ CHR 0x22 # '']) '')"

definition printIf :: "(string \<times> string) list \<Rightarrow> string" where
  "printIf ps = concat (map printIfList ps)"

lemma hex_string_chars:
  "hex_string s \<Longrightarrow> c \<in> set s \<Longrightarrow> c \<in> set ''0123456789abcdef''"
  by (auto simp: hex_string_def list_all_iff)

lemma hex_string_avoids:
  assumes "hex_string s" and "c \<notin> set ''0123456789abcdef''" shows "c \<notin> set s"
  using assms hex_string_chars by blast

lemma hex_string_last_graph: "hex_string s \<Longrightarrow> graph_char (last s)"
proof -
  assume h: "hex_string s"
  have "\<forall>c \<in> set ''0123456789abcdef''. graph_char c" by code_simp
  with h show ?thesis by (metis hex_string_chars hex_string_def last_in_set)
qed

lemma listETags_printed:
  assumes "hex_string t" and "hex_string e"
  shows "listETags (''<opaquelocktoken:'' @ t @ ''> ['' @ CHR 0x22 # e @ CHR 0x22 # '']'') = [e]"
proof -
  let ?b = "''<opaquelocktoken:'' @ t @ ''> ['' @ CHR 0x22 # e @ CHR 0x22 # '']''"
  have q: "CHR 0x22 \<notin> set e" "CHR 0x22 \<notin> set ''''"
    using hex_string_avoids [OF assms(2)] by (auto simp: byte_def)
  have "trim_space ?b = ?b" by (rule trim_space_id) (simp_all add: graph_char_def)
  then have "\<not> listStartsWithNot ?b" by (simp add: listStartsWithNot_def equal_fold_def lower_char_def byte_def)
  moreover have "bracketETags ?b = quotedTokens (CHR 0x22 # e @ [CHR 0x22]) @ bracketETags ''''"
    using bracketETags_span [of "''<opaquelocktoken:'' @ t @ ''> ''" "CHR 0x22 # e @ [CHR 0x22]" "''''"]
      hex_string_avoids [OF assms(1)] hex_string_avoids [OF assms(2)]
    by (simp add: byte_def)
  moreover have "quotedTokens (CHR 0x22 # e @ [CHR 0x22]) = [e]"
    using quotedTokens_token [of "''''" e "''''"] q by (simp add: quotedTokens_none)
  ultimately show ?thesis by (simp add: listETags_def bracketETags_none)
qed

lemma ParseIfETags_printIf:
  "\<forall>(t, e) \<in> set ps. hex_string t \<and> hex_string e \<Longrightarrow> ParseIfETags (printIf ps) = map snd ps"
proof (induction ps)
  case Nil
  then show ?case by (simp add: printIf_def ParseIfETags_none)
next
  case (Cons p ps)
  obtain t e where p: "p = (t, e)" by (cases p)
  let ?b = "''<opaquelocktoken:'' @ t @ ''> ['' @ CHR 0x22 # e @ CHR 0x22 # '']''"
  have h: "hex_string t" "hex_string e" using Cons.prems p by auto
  have nb: "CHR '')'' \<notin> set ?b"
    using hex_string_avoids [OF h(1)] hex_string_avoids [OF h(2)] by (simp add: byte_def)
  have "printIf (p # ps) = CHR ''('' # ?b @ CHR '')'' # CHR '' '' # printIf ps"
    by (simp add: p printIf_def printIfList_def)
  then show ?case
    using ParseIfETags_list [OF _ nb, of "''''"] listETags_printed [OF h] Cons p
    by (simp add: ParseIfETags_skip)
qed

lemma trim_space_token: "hex_string t \<Longrightarrow> trim_space (''opaquelocktoken:'' @ t) = ''opaquelocktoken:'' @ t"
  using hex_string_last_graph [of t]
  by (intro trim_space_id) (auto simp: graph_char_def hex_string_def)

lemma ExtractLockTokens_printIf:
  "CHR ''<'' \<notin> set x \<Longrightarrow> \<forall>(t, e) \<in> set ps. hex_string t \<and> hex_string e \<Longrightarrow>
    ExtractLockTokens (x @ printIf ps) = map (\<lambda>(t, e). ''opaquelocktoken:'' @ t) ps"
proof (induction ps arbitrary: x)
  case Nil
  then show ?case by (simp add: printIf_def ExtractLockTokens_none)
next
  case (Cons p ps)
  obtain t e where p: "p = (t, e)" by (cases p)
  have h: "hex_string t" "hex_string e" using Cons.prems p by auto
  have nt: "CHR ''>'' \<notin> set (''opaquelocktoken:'' @ t)" using hex_string_avoids [OF h(1)] by simp
  let ?y = "'' ['' @ CHR 0x22 # e @ CHR 0x22 # '']) ''"
  have "CHR ''<'' \<notin> set ?y" using hex_string_avoids [OF h(2)] by simp
  then have IH: "ExtractLockTokens (?y @ printIf ps) = map (\<lambda>(t, e). ''opaquelocktoken:'' @ t) ps"
    by (rule Cons.IH) (use Cons.prems in simp)
  have "x @ printIf (p # ps) =
      (x @ ''('') @ CHR ''<'' # (''opaquelocktoken:'' @ t) @ CHR ''>'' # (?y @ printIf ps)"
    by (simp add: p printIf_def printIfList_def)
  then show ?case
    using ExtractLockTokens_token [OF _ nt, of "x @ ''(''" "?y @ printIf ps"] Cons.prems
      trim_space_token [OF h(1)] IH
    by (simp add: p)
qed


section \<open>Timeouts\<close>

lemma parseTimeoutHeader_seconds:
  assumes "0 < n" and "n < 2 ^ 63"
  shows "parseTimeoutHeader (''Second-'' @ int_to_dec n) =
    (let d = wrap64 (n * second) in if d > maxLockTimeout then maxLockTimeout else d)"
proof -
  let ?v = "''Second-'' @ int_to_dec n"
  have digits: "list_all is_digit (int_to_dec n)" "int_to_dec n \<noteq> []"
    using pos_to_dec_props [of n] assms by (simp_all add: int_to_dec_def)
  then have "is_digit (last (int_to_dec n))" by (simp add: list_all_iff)
  then have t: "trim_space ?v = ?v"
    using digits(2) by (intro trim_space_id) (simp_all add: graph_char_def is_digit_def)
  have nc: "CHR '','' \<notin> set ?v" using digits(1) by (auto simp: list_all_iff is_digit_def)
  then have "cut_byte ?v (CHR '','') = (?v, [], False)" by (simp add: cut_byte_def)
  moreover have "\<not> equal_fold ?v ''Infinite''"
    by (simp add: equal_fold_def lower_char_def byte_def)
  moreover have "has_prefix (to_lower ?v) ''second-''"
    by (simp add: to_lower_Cons lower_char_def byte_def char_of_def)
  moreover have "parse_int64 (drop 7 ?v) = Some n" using parse_int64_dec [of n] assms by simp
  ultimately show ?thesis using t assms by (simp add: parseTimeoutHeader_def Let_def)
qed

lemma parseTimeoutHeader_le_max: "parseTimeoutHeader v \<le> maxLockTimeout"
  by (auto simp: parseTimeoutHeader_def defaultLockTimeout_def maxLockTimeout_def Let_def
      split: option.splits)

text \<open>
  The \<open>Timeout\<close> header of the server's own lock responses is understood by the server: for
  every lock duration of whole seconds between one second and the one-day maximum, parsing the
  printed header gives back the duration.
\<close>

theorem timeout_header_roundtrip:
  assumes "0 < n" and "n \<le> 86400"
  shows "parseTimeoutHeader (timeoutHeaderValue (n * second)) = n * second"
proof -
  have "timeoutHeaderValue (n * second) = ''Second-'' @ int_to_dec n"
    using assms by (simp add: timeoutHeaderValue_def go_div_def Let_def)
  moreover have "wrap64 (n * second) = n * second"
    using assms by (intro wrap64_id) simp_all
  ultimately show ?thesis
    using parseTimeoutHeader_seconds [of n] assms by (simp add: Let_def maxLockTimeout_def)
qed

theorem timeout_header_roundtrip_witness:
  "parseTimeoutHeader (timeoutHeaderValue (3600 * second)) = 3600 * second"
  by (rule timeout_header_roundtrip) simp_all

text \<open>
  C33. A requested timeout of more than a day is capped at a day only as long as the conversion to
  nanoseconds does not overflow: every request of up to 9223372036 seconds is granted as the
  minimum of the request and the maximum, but 18446744074 seconds wrap around to a lock of
  0.29 seconds.
\<close>

theorem timeout_cap_and_overflow:
  "(\<forall>n. 0 < n \<and> n \<le> 9223372036 \<longrightarrow>
      parseTimeoutHeader (''Second-'' @ int_to_dec n) = min (n * second) maxLockTimeout)
   \<and> parseTimeoutHeader (''Second-'' @ int_to_dec 18446744074) = 290448384"
proof (intro conjI allI impI)
  fix n :: int assume n: "0 < n \<and> n \<le> 9223372036"
  then have "wrap64 (n * second) = n * second" by (intro wrap64_id) simp_all
  with n parseTimeoutHeader_seconds [of n]
  show "parseTimeoutHeader (''Second-'' @ int_to_dec n) = min (n * second) maxLockTimeout"
    by (simp add: Let_def min_def)
next
  have "wrap64 (18446744074 * second) = 290448384" by (simp add: wrap64_def)
  then show "parseTimeoutHeader (''Second-'' @ int_to_dec 18446744074) = 290448384"
    using parseTimeoutHeader_seconds [of 18446744074] by (simp add: Let_def maxLockTimeout_def)
qed

theorem timeout_cap_and_overflow_witness:
  "parseTimeoutHeader (''Second-'' @ int_to_dec 100000) = min (100000 * second) maxLockTimeout"
  using timeout_cap_and_overflow by simp

section \<open>Preconditions\<close>

text \<open>
  The meaning of the three conditional headers (RFC 9110, RFC 4918): a tag of the \<open>If\<close> state
  lists must be current, \<open>If-Match\<close> must name the current tag or any existing resource, and
  \<open>If-None-Match\<close> must not.
\<close>

definition cond_holds :: "WriteCond \<Rightarrow> string option \<Rightarrow> bool" where
  "cond_holds c cur \<longleftrightarrow>
     (IfETags c = [] \<or> (\<exists>e. cur = Some e \<and> e \<in> set (IfETags c))) \<and>
     (IfMatch c = [] \<or> (\<exists>e. cur = Some e \<and> (''*'' \<in> set (IfMatch c) \<or> e \<in> set (IfMatch c)))) \<and>
     (IfNoneMatch c = [] \<or>
       \<not> (\<exists>e. cur = Some e \<and> (''*'' \<in> set (IfNoneMatch c) \<or> e \<in> set (IfNoneMatch c))))"

lemma Evaluate_None_iff:
  "Evaluate (Some c) ex etag = None \<longleftrightarrow> cond_holds c (if ex then Some etag else None)"
  by (auto simp: Evaluate_def cond_holds_def)

lemma Evaluate_range: "Evaluate c ex etag \<in> {None, Some ErrPrecondition}"
  by (auto simp: Evaluate_def split: option.splits)

text \<open>
  \<open>WriteCond.Evaluate\<close> decides the conditional headers: it passes exactly when the specification
  of the three headers holds of the current entity tag (none for a missing resource), and every
  failure is \<open>ErrPrecondition\<close>.
\<close>

theorem evaluate_correct:
  "Evaluate (Some c) ex etag =
     (if cond_holds c (if ex then Some etag else None) then None else Some ErrPrecondition)"
  using Evaluate_None_iff [of c ex etag] Evaluate_range [of "Some c" ex etag] by auto

text \<open>
  C3. The \<open>If\<close> header is read back completely: from the header that lists any number of lock token
  and entity tag pairs of this server, \<open>ParseIfETags\<close> extracts exactly the tags and
  \<open>ExtractLockTokens\<close> exactly the tokens, in order.
\<close>

theorem if_header_roundtrip:
  assumes "\<forall>(t, e) \<in> set ps. hex_string t \<and> hex_string e"
  shows "ParseIfETags (printIf ps) = map snd ps
    \<and> ExtractLockTokens (printIf ps) = map (\<lambda>(t, e). ''opaquelocktoken:'' @ t) ps"
  using ParseIfETags_printIf [OF assms] ExtractLockTokens_printIf [OF _ assms, of "''''"] by simp

theorem if_header_roundtrip_witness:
  "ParseIfETags (printIf [(''0a'', ''ff''), (''1b'', ''02'')]) = [''ff'', ''02'']"
  using if_header_roundtrip [of "[(''0a'', ''ff''), (''1b'', ''02'')]"]
  by (simp add: hex_string_def)

end
