(* ===== verification/Webdav_MemFS.thy ===== *)
theory Webdav_MemFS
  imports Webdav_Cond
begin

text \<open>
  The in-memory file system (\<^verbatim>\<open>src/internal/webdav/fs.go\<close>) and its lock manager
  (\<^verbatim>\<open>src/internal/webdav/lock.go\<close>). The state is one record; every method of
  \<open>InMemoryFS\<close> is a function from the state to the new state and a result. A method that holds
  the mutex for its whole body is one function; \<open>Write\<close> releases it between its parent check
  and its commit, so these two halves are separate functions (\<open>writeCheck\<close>,
  \<open>writeCommit\<close>). The clock is a field of the state, read by the methods and advanced only by
  the environment. SHA-1 is the parameter \<open>sha1hex\<close>, the random source a result passed in.
\<close>

section \<open>State\<close>

record memLock =
  mlToken :: string
  mlOwner :: string
  mlTimeout :: int
  mlCreated :: int
  mlDepthInfinity :: bool

record fileNode =
  fnEntry :: Entry
  fnData :: "string option"

record userTree =
  utRoot :: Entry
  utFiles :: "fileNode gomap"

record InMemoryFS =
  fsUsers :: "userTree gomap"
  fsClock :: int
  fsNextID :: int
  fsLocks :: "memLock gomap gomap"

definition NewInMemoryFS :: "int \<Rightarrow> InMemoryFS" where
  "NewInMemoryFS clock = \<lparr>fsUsers = [], fsClock = clock, fsNextID = 1, fsLocks = []\<rparr>"

definition allocID :: "InMemoryFS \<Rightarrow> int \<times> InMemoryFS" where
  "allocID fs = (fsNextID fs, fs\<lparr>fsNextID := (fsNextID fs + 1) mod 2 ^ 64\<rparr>)"

definition newRoot :: "int \<Rightarrow> int \<Rightarrow> Entry" where
  "newRoot now i = zeroEntry\<lparr>ePath := ''/'', eIsDir := True,
     eETag := ''00000000000000000000000000000000'', eModTime := now, eNumericID := i,
     ePermissions := PermAll, eShareable := True, eContentType := ''httpd/unix-directory''\<rparr>"

definition ensureUser :: "InMemoryFS \<Rightarrow> string \<Rightarrow> InMemoryFS \<times> userTree" where
  "ensureUser fs user = (case map_of (fsUsers fs) user of
      Some t \<Rightarrow> (fs, t)
    | None \<Rightarrow>
        let (i, fs1) = allocID fs;
            t = \<lparr>utRoot = newRoot (fsClock fs) i, utFiles = []\<rparr>
        in (fs1\<lparr>fsUsers := AList.update user t (fsUsers fs1)\<rparr>, t))"

text \<open>Writing through the tree pointer.\<close>

definition putTree :: "InMemoryFS \<Rightarrow> string \<Rightarrow> userTree \<Rightarrow> InMemoryFS" where
  "putTree fs user t = fs\<lparr>fsUsers := AList.update user t (fsUsers fs)\<rparr>"

definition putFiles :: "InMemoryFS \<Rightarrow> string \<Rightarrow> userTree \<Rightarrow> fileNode gomap \<Rightarrow> InMemoryFS" where
  "putFiles fs user t files = putTree fs user (t\<lparr>utFiles := files\<rparr>)"

definition normalizePath :: "string \<Rightarrow> string" where
  "normalizePath p0 =
     (if p0 = [] then ''/''
      else let p = (if \<not> has_prefix p0 ''/'' then CHR ''/'' # p0 else p0) in
        if length p > 1 then
          (let q = trim_right_set p ''/'' in if q = [] then ''/'' else q)
        else p)"

section \<open>Locks (lock.go)\<close>

definition memLockLocked :: "InMemoryFS \<Rightarrow> string \<Rightarrow> string \<Rightarrow> memLock option" where
  "memLockLocked fs user p = (case map_of (fsLocks fs) user of
      None \<Rightarrow> None | Some m \<Rightarrow> map_of m p)"

definition updLocks :: "InMemoryFS \<Rightarrow> string \<Rightarrow> (memLock gomap \<Rightarrow> memLock gomap) \<Rightarrow> InMemoryFS" where
  "updLocks fs user f = (case map_of (fsLocks fs) user of
      None \<Rightarrow> fs
    | Some m \<Rightarrow> fs\<lparr>fsLocks := AList.update user (f m) (fsLocks fs)\<rparr>)"

definition expireMemLockLocked :: "InMemoryFS \<Rightarrow> string \<Rightarrow> string \<Rightarrow> int \<Rightarrow> InMemoryFS" where
  "expireMemLockLocked fs user p now = (case memLockLocked fs user p of
      None \<Rightarrow> fs
    | Some lk \<Rightarrow> if \<not> mlTimeout lk > now then updLocks fs user (AList.delete p) else fs)"

definition applyMemLockLocked :: "InMemoryFS \<Rightarrow> string \<Rightarrow> string \<Rightarrow> Entry \<Rightarrow> Entry" where
  "applyMemLockLocked fs user p e = (case memLockLocked fs user p of
      None \<Rightarrow> e\<lparr>eLockToken := [], eLockOwner := [], eLockTimeout := 0\<rparr>
    | Some lk \<Rightarrow>
        if \<not> mlTimeout lk > fsClock fs
        then e\<lparr>eLockToken := [], eLockOwner := [], eLockTimeout := 0\<rparr>
        else e\<lparr>eLockToken := mlToken lk, eLockOwner := mlOwner lk,
               eLockTimeout := mlTimeout lk - fsClock fs\<rparr>)"

definition deleteMemLocksLocked :: "InMemoryFS \<Rightarrow> string \<Rightarrow> string \<Rightarrow> InMemoryFS" where
  "deleteMemLocksLocked fs user p =
     updLocks fs user (\<lambda>m.
       let m1 = AList.delete p m; prefix = (if p = ''/'' then ''/'' else p @ ''/'') in
       filter (\<lambda>kv. \<not> ((p \<noteq> ''/'' \<and> has_prefix (fst kv) prefix) \<or> (p = ''/'' \<and> fst kv \<noteq> ''/''))) m1)"

text \<open>The key a lock moves to, if the rename concerns it.\<close>

definition renameKey :: "string \<Rightarrow> string \<Rightarrow> string \<Rightarrow> string option" where
  "renameKey src dst fp =
     (if fp = src then Some dst
      else if has_prefix fp (src @ ''/'') then Some (dst @ trim_prefix fp src)
      else None)"

definition renameMemLocksLocked :: "InMemoryFS \<Rightarrow> string \<Rightarrow> string \<Rightarrow> string \<Rightarrow> InMemoryFS" where
  "renameMemLocksLocked fs user src dst =
     updLocks fs user (\<lambda>m.
       let moves = filter (\<lambda>kv. renameKey src dst (fst kv) \<noteq> None) m;
           kept = filter (\<lambda>kv. renameKey src dst (fst kv) = None) m
       in fold (\<lambda>kv acc. AList.update (the (renameKey src dst (fst kv))) (snd kv) acc) moves kept)"

definition memLockInfo :: "string \<Rightarrow> memLock \<Rightarrow> int \<Rightarrow> LockInfo" where
  "memLockInfo path lk now =
     (let rem = mlTimeout lk - now; rem = (if rem < 0 then 0 else rem)
      in \<lparr>liToken = mlToken lk, liOwner = mlOwner lk, liTimeout = rem, liPath = path,
          liDepthInfinity = mlDepthInfinity lk\<rparr>)"

definition parentPath :: "string \<Rightarrow> string" where
  "parentPath p0 =
     (let p = trim_suffix p0 ''/'' in
      if p = [] \<or> p = ''/'' then ''/''
      else case last_index_byte p (CHR ''/'') of
          None \<Rightarrow> ''/''
        | Some i \<Rightarrow> if i = 0 then ''/'' else take i p)"

section \<open>Reading\<close>

definition Stat :: "InMemoryFS \<Rightarrow> string \<Rightarrow> string \<Rightarrow> InMemoryFS \<times> Entry result" where
  "Stat fs0 user p =
     (let (fs, t) = ensureUser fs0 user; np = normalizePath p in
      if np = ''/'' then
        (let e = applyMemLockLocked fs user ''/'' (utRoot t)
         in (putTree fs user (t\<lparr>utRoot := e\<rparr>), Inr e))
      else case map_of (utFiles t) np of
          Some f \<Rightarrow>
            (let e = applyMemLockLocked fs user np (fnEntry f)
             in (putFiles fs user t (AList.update np (f\<lparr>fnEntry := e\<rparr>) (utFiles t)), Inr e))
        | None \<Rightarrow> (fs, Inl ErrNotFound))"

definition refreshChildren ::
  "InMemoryFS \<Rightarrow> string \<Rightarrow> string \<Rightarrow> fileNode gomap \<Rightarrow> fileNode gomap" where
  "refreshChildren fs user np files =
     map (\<lambda>(fp, f). (fp, if path_dir fp = np
            then f\<lparr>fnEntry := applyMemLockLocked fs user fp (fnEntry f)\<rparr> else f)) files"

definition List :: "InMemoryFS \<Rightarrow> string \<Rightarrow> string \<Rightarrow> InMemoryFS \<times> Entry list result" where
  "List fs0 user p =
     (let (fs, t) = ensureUser fs0 user; np = normalizePath p;
          listing = (let files = refreshChildren fs user np (utFiles t) in
            (putFiles fs user t files,
             Inr (map (\<lambda>kv. fnEntry (snd kv)) (filter (\<lambda>kv. path_dir (fst kv) = np) files))))
      in if np \<noteq> ''/'' then
           (case map_of (utFiles t) np of
              None \<Rightarrow> (fs, Inl ErrNotFound)
            | Some f \<Rightarrow> if \<not> eIsDir (fnEntry f) then (fs, Inl ErrNotDir) else listing)
         else listing)"

definition Read :: "InMemoryFS \<Rightarrow> string \<Rightarrow> string \<Rightarrow> InMemoryFS \<times> (string \<times> Entry) result" where
  "Read fs0 user p =
     (let (fs, t) = ensureUser fs0 user; np = normalizePath p in
      if np = ''/'' then (fs, Inl ErrIsDir)
      else case map_of (utFiles t) np of
          None \<Rightarrow> (fs, Inl ErrNotFound)
        | Some f \<Rightarrow> if eIsDir (fnEntry f) then (fs, Inl ErrIsDir)
            else (fs, Inr (case fnData f of None \<Rightarrow> [] | Some d \<Rightarrow> d, fnEntry f)))"

section \<open>Writing\<close>

text \<open>The parent check shared by \<open>Mkdir\<close>, \<open>Move\<close> and \<open>Copy\<close>.\<close>

definition parentError :: "fileNode gomap \<Rightarrow> string \<Rightarrow> fs_error option" where
  "parentError files parent =
     (if parent \<noteq> ''/'' then
        (case map_of files parent of
           None \<Rightarrow> Some ErrParentMissing
         | Some pf \<Rightarrow> if \<not> eIsDir (fnEntry pf) then Some ErrNotDir else None)
      else None)"

definition Mkdir ::
  "(string \<Rightarrow> string) \<Rightarrow> InMemoryFS \<Rightarrow> string \<Rightarrow> string \<Rightarrow> InMemoryFS \<times> Entry result" where
  "Mkdir sha1hex fs0 user p =
     (let (fs, t) = ensureUser fs0 user; np = normalizePath p in
      if np = ''/'' then (fs, Inl ErrExists)
      else if map_of (utFiles t) np \<noteq> None then (fs, Inl ErrExists)
      else case parentError (utFiles t) (path_dir np) of
          Some err \<Rightarrow> (fs, Inl err)
        | None \<Rightarrow>
            (let (i, fs1) = allocID fs; mt = fsClock fs;
                 e = zeroEntry\<lparr>ePath := np, eIsDir := True, eModTime := mt, eNumericID := i,
                       ePermissions := PermAll, eShareable := True,
                       eContentType := ''httpd/unix-directory'',
                       eETag := ComputeETag sha1hex 0 mt np\<rparr>
             in (putFiles fs1 user t (AList.update np \<lparr>fnEntry = e, fnData = None\<rparr> (utFiles t)), Inr e)))"

text \<open>Deleting a node, with everything below it when it is a directory.\<close>

definition dropNode :: "fileNode \<Rightarrow> string \<Rightarrow> fileNode gomap \<Rightarrow> fileNode gomap" where
  "dropNode node np files =
     AList.delete np
       (if eIsDir (fnEntry node) then filter (\<lambda>kv. \<not> has_prefix (fst kv) (np @ ''/'')) files
        else files)"

definition Remove :: "InMemoryFS \<Rightarrow> string \<Rightarrow> string \<Rightarrow> InMemoryFS \<times> unit result" where
  "Remove fs0 user p =
     (let (fs, t) = ensureUser fs0 user; np = normalizePath p in
      if np = ''/'' then (fs, Inl ErrForbidden)
      else case map_of (utFiles t) np of
          None \<Rightarrow> (fs, Inl ErrNotFound)
        | Some target \<Rightarrow>
            (deleteMemLocksLocked (putFiles fs user t (dropNode target np (utFiles t))) user np,
             Inr ()))"

text \<open>
  \<open>moveOne\<close> dereferences the node it finds under the old path: for a missing node the code panics,
  which the second component \<^const>\<open>False\<close> reports.
\<close>

definition moveOne ::
  "(string \<Rightarrow> string) \<Rightarrow> int \<Rightarrow> string \<Rightarrow> string \<Rightarrow> fileNode gomap \<Rightarrow> fileNode gomap \<times> bool" where
  "moveOne sha1hex mt oldPath newPath files = (case map_of files oldPath of
      None \<Rightarrow> (files, False)
    | Some node \<Rightarrow>
        (let e = (fnEntry node)\<lparr>ePath := newPath, eModTime := mt,
                   eETag := ComputeETag sha1hex (eSize (fnEntry node)) mt newPath\<rparr>
         in (AList.update newPath (node\<lparr>fnEntry := e\<rparr>) (AList.delete oldPath files), True)))"

fun moveAll ::
  "(string \<Rightarrow> string) \<Rightarrow> int \<Rightarrow> (string \<times> string) list \<Rightarrow> fileNode gomap \<Rightarrow> fileNode gomap \<times> bool" where
  "moveAll sha1hex mt [] files = (files, True)"
| "moveAll sha1hex mt ((old, new) # rest) files =
     (case moveOne sha1hex mt old new files of
        (files', True) \<Rightarrow> moveAll sha1hex mt rest files'
      | (files', False) \<Rightarrow> (files', False))"

text \<open>The moves of a directory: itself, then its descendants in the order of the map.\<close>

definition childMoves :: "string \<Rightarrow> string \<Rightarrow> fileNode gomap \<Rightarrow> (string \<times> string) list" where
  "childMoves src dst files =
     map (\<lambda>fp. (fp, (dst @ ''/'') @ trim_prefix fp (src @ ''/'')))
       (filter (\<lambda>fp. has_prefix fp (src @ ''/'')) (map fst files))"

definition overwriteDst ::
  "bool \<Rightarrow> string \<Rightarrow> fileNode gomap \<Rightarrow> fs_error + (fileNode gomap \<times> bool)" where
  "overwriteDst overwrite dst files = (case map_of files dst of
      None \<Rightarrow> Inr (files, True)
    | Some existing \<Rightarrow>
        if \<not> overwrite then Inl ErrExists else Inr (dropNode existing dst files, False))"

text \<open>The checks that \<open>Move\<close> and \<open>Copy\<close> make before they change anything.\<close>

definition transferError ::
  "fileNode gomap \<Rightarrow> string \<Rightarrow> string \<Rightarrow> fs_error + fileNode" where
  "transferError files src dst = (case map_of files src of
      None \<Rightarrow> Inl ErrNotFound
    | Some srcNode \<Rightarrow>
        if eIsDir (fnEntry srcNode) \<and> has_prefix (dst @ ''/'') (src @ ''/'') then Inl ErrForbidden
        else case parentError files (path_dir dst) of Some err \<Rightarrow> Inl err | None \<Rightarrow> Inr srcNode)"

definition Move ::
  "(string \<Rightarrow> string) \<Rightarrow> InMemoryFS \<Rightarrow> string \<Rightarrow> string \<Rightarrow> string \<Rightarrow> string \<Rightarrow> bool
    \<Rightarrow> InMemoryFS \<times> (Entry \<times> bool) result" where
  "Move sha1hex fs0 srcUser srcPath dstUser dstPath overwrite =
     (if srcUser \<noteq> dstUser then (fs0, Inl ErrForbidden)
      else let (fs, t) = ensureUser fs0 srcUser;
               src = normalizePath srcPath; dst = normalizePath dstPath in
        if src = ''/'' \<or> dst = ''/'' then (fs, Inl ErrForbidden)
        else if src = dst then (fs, Inl ErrForbidden)
        else case transferError (utFiles t) src dst of
            Inl err \<Rightarrow> (fs, Inl err)
          | Inr srcNode \<Rightarrow>
              (case overwriteDst overwrite dst (utFiles t) of
                 Inl err \<Rightarrow> (fs, Inl err)
               | Inr (files, created) \<Rightarrow>
                   (let mt = fsClock fs;
                        moves = (src, dst) # (if eIsDir (fnEntry srcNode) then childMoves src dst files else []);
                        (files', ok) = moveAll sha1hex mt moves files;
                        fs1 = putFiles fs srcUser t files'
                    in if \<not> ok then (fs1, Inl Panic)
                       else let fs2 = renameMemLocksLocked fs1 srcUser src dst in
                         case map_of files' dst of
                           None \<Rightarrow> (fs2, Inl Panic)
                         | Some n \<Rightarrow> (fs2, Inr (fnEntry n, created)))))"

definition cloneOne ::
  "(string \<Rightarrow> string) \<Rightarrow> int \<Rightarrow> string \<Rightarrow> string \<Rightarrow> int \<times> fileNode gomap
    \<Rightarrow> (int \<times> fileNode gomap) \<times> bool" where
  "cloneOne sha1hex mt srcFP dstFP st = (case st of (nextID, files) \<Rightarrow>
     (case map_of files srcFP of
        None \<Rightarrow> ((nextID, files), False)
      | Some orig \<Rightarrow>
          (let e = (fnEntry orig)\<lparr>ePath := dstFP, eNumericID := nextID, eModTime := mt,
                     eETag := ComputeETag sha1hex (eSize (fnEntry orig)) mt dstFP\<rparr>
           in (((nextID + 1) mod 2 ^ 64,
                AList.update dstFP \<lparr>fnEntry = e, fnData = fnData orig\<rparr> files), True))))"

fun cloneAll ::
  "(string \<Rightarrow> string) \<Rightarrow> int \<Rightarrow> (string \<times> string) list \<Rightarrow> int \<times> fileNode gomap
    \<Rightarrow> (int \<times> fileNode gomap) \<times> bool" where
  "cloneAll sha1hex mt [] st = (st, True)"
| "cloneAll sha1hex mt ((src, dst) # rest) st =
     (case cloneOne sha1hex mt src dst st of
        (st', True) \<Rightarrow> cloneAll sha1hex mt rest st'
      | (st', False) \<Rightarrow> (st', False))"

definition Copy ::
  "(string \<Rightarrow> string) \<Rightarrow> InMemoryFS \<Rightarrow> string \<Rightarrow> string \<Rightarrow> string \<Rightarrow> string \<Rightarrow> bool \<Rightarrow> bool
    \<Rightarrow> InMemoryFS \<times> (Entry \<times> bool) result" where
  "Copy sha1hex fs0 srcUser srcPath dstUser dstPath overwrite depthInfinity =
     (if srcUser \<noteq> dstUser then (fs0, Inl ErrForbidden)
      else let (fs, t) = ensureUser fs0 srcUser;
               src = normalizePath srcPath; dst = normalizePath dstPath in
        if src = ''/'' \<or> dst = ''/'' then (fs, Inl ErrForbidden)
        else if src = dst then (fs, Inl ErrForbidden)
        else case transferError (utFiles t) src dst of
            Inl err \<Rightarrow> (fs, Inl err)
          | Inr srcNode \<Rightarrow>
              (case overwriteDst overwrite dst (utFiles t) of
                 Inl err \<Rightarrow> (fs, Inl err)
               | Inr (files, created) \<Rightarrow>
                   (let mt = fsClock fs;
                        (st1, ok1) = cloneOne sha1hex mt src dst (fsNextID fs, files);
                        clones = (if ok1 \<and> eIsDir (fnEntry srcNode) \<and> depthInfinity
                                  then childMoves src dst (snd st1) else []);
                        (st2, ok2) = cloneAll sha1hex mt clones st1;
                        fs1 = putFiles (fs\<lparr>fsNextID := fst st2\<rparr>) srcUser t (snd st2)
                    in if \<not> (ok1 \<and> ok2) then (fs1, Inl Panic)
                       else case map_of (snd st2) dst of
                           None \<Rightarrow> (fs1, Inl Panic)
                         | Some n \<Rightarrow> (fs1, Inr (fnEntry n, created)))))"

definition writeCheck :: "InMemoryFS \<Rightarrow> string \<Rightarrow> string \<Rightarrow> InMemoryFS \<times> unit result" where
  "writeCheck fs0 user p =
     (let (fs, t) = ensureUser fs0 user; np = normalizePath p; parent = path_dir np in
      if np = ''/'' then (fs, Inl ErrIsDir)
      else if parent \<noteq> ''/'' \<and> map_of (utFiles t) parent = None then (fs, Inl ErrParentMissing)
      else (fs, Inr ()))"

definition writeCommit ::
  "(string \<Rightarrow> string) \<Rightarrow> InMemoryFS \<Rightarrow> string \<Rightarrow> string \<Rightarrow> string \<Rightarrow> int option
    \<Rightarrow> InMemoryFS \<times> (Entry \<times> bool) result" where
  "writeCommit sha1hex fs0 user p body mtime =
     (let (fs, t) = ensureUser fs0 user; np = normalizePath p;
          mt = (case mtime of None \<Rightarrow> fsClock fs | Some m \<Rightarrow> m);
          existing = map_of (utFiles t) np in
      if (case existing of Some x \<Rightarrow> eIsDir (fnEntry x) | None \<Rightarrow> False) then (fs, Inl ErrIsDir)
      else
        (let (i, fs1) = (case existing of Some x \<Rightarrow> (eNumericID (fnEntry x), fs) | None \<Rightarrow> allocID fs);
             e = zeroEntry\<lparr>ePath := np, eIsDir := False, eSize := int (length body), eModTime := mt,
                   eNumericID := i, ePermissions := PermAll, eShareable := True,
                   eContentType := ''application/octet-stream'',
                   eETag := ComputeETag sha1hex (int (length body)) mt np,
                   eFavorite := (case existing of Some x \<Rightarrow> eFavorite (fnEntry x) | None \<Rightarrow> 0)\<rparr>
         in (putFiles fs1 user t (AList.update np \<lparr>fnEntry = e, fnData = Some body\<rparr> (utFiles t)),
             Inr (e, existing = None))))"

text \<open>\<open>Write\<close> without interference: check, read the body (which may fail), commit.\<close>

definition Write ::
  "(string \<Rightarrow> string) \<Rightarrow> InMemoryFS \<Rightarrow> string \<Rightarrow> string \<Rightarrow> string result \<Rightarrow> int option
    \<Rightarrow> InMemoryFS \<times> (Entry \<times> bool) result" where
  "Write sha1hex fs0 user p r mtime = (case writeCheck fs0 user p of
      (fs, Inl err) \<Rightarrow> (fs, Inl err)
    | (fs, Inr _) \<Rightarrow> (case r of
          Inl err \<Rightarrow> (fs, Inl err)
        | Inr body \<Rightarrow> writeCommit sha1hex fs user p body mtime))"

definition patchFavorite :: "PropPatchOp \<Rightarrow> int \<Rightarrow> int \<times> PropPatchResult" where
  "patchFavorite op fav =
     (let res = (\<lambda>st. \<lparr>prSpace = ppSpace op, prName = ppName op, prStatus = st\<rparr>) in
      if ppName op \<noteq> ''favorite'' \<or> (ppSpace op \<noteq> [] \<and> ppSpace op \<noteq> ''http://owncloud.org/ns'')
      then (fav, res 403)
      else if ppRemove op then (0, res 200)
      else let val = trim_space (ppValue op) in
        if val \<noteq> ''0'' \<and> val \<noteq> ''1'' then (fav, res 403)
        else if val = ''1'' then (1, res 200) else (0, res 200))"

fun patchFavorites :: "PropPatchOp list \<Rightarrow> int \<Rightarrow> int \<times> PropPatchResult list" where
  "patchFavorites [] fav = (fav, [])"
| "patchFavorites (op # ops) fav =
     (let (fav1, r) = patchFavorite op fav; (fav2, rs) = patchFavorites ops fav1 in (fav2, r # rs))"

definition PatchProps ::
  "InMemoryFS \<Rightarrow> string \<Rightarrow> string \<Rightarrow> PropPatchOp list \<Rightarrow> InMemoryFS \<times> PropPatchResult list result" where
  "PatchProps fs0 user p ops =
     (let (fs, t) = ensureUser fs0 user; np = normalizePath p in
      if np = ''/'' then
        (let (fav, out) = patchFavorites ops (eFavorite (utRoot t))
         in (putTree fs user (t\<lparr>utRoot := (utRoot t)\<lparr>eFavorite := fav\<rparr>\<rparr>), Inr out))
      else case map_of (utFiles t) np of
          None \<Rightarrow> (fs, Inl ErrNotFound)
        | Some f \<Rightarrow>
            (let (fav, out) = patchFavorites ops (eFavorite (fnEntry f))
             in (putFiles fs user t
                   (AList.update np (f\<lparr>fnEntry := (fnEntry f)\<lparr>eFavorite := fav\<rparr>\<rparr>) (utFiles t)),
                 Inr out)))"

section \<open>LOCK, UNLOCK and the lock check\<close>

definition randomLockToken :: "string result \<Rightarrow> string result" where
  "randomLockToken rnd = (case rnd of
      Inl err \<Rightarrow> Inl err | Inr hex \<Rightarrow> Inr (''opaquelocktoken:'' @ hex))"

definition clampTimeout :: "int \<Rightarrow> int" where
  "clampTimeout t0 =
     (let t = (if t0 \<le> 0 then defaultLockTimeout else t0)
      in if t > maxLockTimeout then maxLockTimeout else t)"

definition putLock :: "InMemoryFS \<Rightarrow> string \<Rightarrow> string \<Rightarrow> memLock \<Rightarrow> InMemoryFS" where
  "putLock fs user np lk =
     fs\<lparr>fsLocks := AList.update user
          (AList.update np lk (case map_of (fsLocks fs) user of None \<Rightarrow> [] | Some m \<Rightarrow> m)) (fsLocks fs)\<rparr>"

definition Lock ::
  "InMemoryFS \<Rightarrow> string \<Rightarrow> string \<Rightarrow> LockRequest \<Rightarrow> string result \<Rightarrow> InMemoryFS \<times> LockInfo result" where
  "Lock fs0 user p req rnd =
     (let np = normalizePath p in
      case Stat fs0 user np of
        (fs1, Inl err) \<Rightarrow> (fs1, Inl err)
      | (fs1, Inr _) \<Rightarrow>
          (let timeout = clampTimeout (lrTimeout req);
               now = fsClock fs1;
               fs = expireMemLockLocked fs1 user np now in
           case memLockLocked fs user np of
             Some existing \<Rightarrow>
               if lockHeaderHasToken (lrToken req) (mlToken existing) then
                 (let lk = existing\<lparr>mlTimeout := now + timeout\<rparr>
                  in (putLock fs user np lk, Inr (memLockInfo np lk now)))
               else (fs, Inl ErrLocked)
           | None \<Rightarrow>
               if lrRefresh req then (fs, Inl ErrPrecondition)
               else (case randomLockToken rnd of
                   Inl err \<Rightarrow> (fs, Inl err)
                 | Inr token \<Rightarrow>
                     (let lk = \<lparr>mlToken = token, mlOwner = lrOwner req, mlTimeout = now + timeout,
                                mlCreated = now, mlDepthInfinity = lrDepthInfinity req\<rparr>
                      in (putLock fs user np lk, Inr (memLockInfo np lk now))))))"

definition Unlock :: "InMemoryFS \<Rightarrow> string \<Rightarrow> string \<Rightarrow> string \<Rightarrow> InMemoryFS \<times> unit result" where
  "Unlock fs0 user p token =
     (let np = normalizePath p in
      case Stat fs0 user np of
        (fs1, Inl err) \<Rightarrow> (fs1, Inl err)
      | (fs1, Inr _) \<Rightarrow>
          (let fs = expireMemLockLocked fs1 user np (fsClock fs1) in
           case memLockLocked fs user np of
             None \<Rightarrow> (fs, Inl ErrConflict)
           | Some existing \<Rightarrow>
               if mlToken existing \<noteq> StripLockToken token then (fs, Inl ErrConflict)
               else (updLocks fs user (AList.delete np), Inr ())))"

lemma trim_suffix_length: "length (trim_suffix s p) \<le> length s"
  by (simp add: trim_suffix_def)

lemma last_index_less: "last_index_byte s c = Some i \<Longrightarrow> i < length s"
  by (auto simp: last_index_byte_def dest: index_byte_less)

lemma parentPath_shorter:
  "parentPath p \<noteq> ''/'' \<Longrightarrow> length (parentPath p) < length p"
  using trim_suffix_length [of p "''/''"]
  by (auto simp: parentPath_def Let_def dest!: last_index_less split: option.splits if_splits)

function checkLockUp ::
  "InMemoryFS \<Rightarrow> string \<Rightarrow> string \<Rightarrow> string \<Rightarrow> string \<Rightarrow> InMemoryFS \<times> unit result" where
  "checkLockUp fs0 user np ifHeader cur =
     (let fs = expireMemLockLocked fs0 user cur (fsClock fs0);
          covering = (case memLockLocked fs user cur of
              Some lk \<Rightarrow> if cur = np \<or> mlDepthInfinity lk then Some lk else None
            | None \<Rightarrow> None)
      in case covering of
           Some lk \<Rightarrow> if lockHeaderHasToken ifHeader (mlToken lk) then (fs, Inr ()) else (fs, Inl ErrLocked)
         | None \<Rightarrow> if cur = ''/'' then (fs, Inr ())
             else checkLockUp fs user np ifHeader (parentPath cur))"
  by pat_completeness auto
termination
proof (relation "measure (\<lambda>(fs, user, np, h, cur). if cur = ''/'' then 0 else Suc (length cur))")
  fix fs0 user np ifHeader cur fs covering
  assume "cur \<noteq> ''/''"
  then show "((fs, user, np, ifHeader, parentPath cur), fs0, user, np, ifHeader, cur)
      \<in> measure (\<lambda>(fs, user, np, h, cur). if cur = ''/'' then 0 else Suc (length cur))"
    using parentPath_shorter [of cur] by auto
qed simp

declare checkLockUp.simps [simp del]

definition CheckLock :: "InMemoryFS \<Rightarrow> string \<Rightarrow> string \<Rightarrow> string \<Rightarrow> InMemoryFS \<times> unit result" where
  "CheckLock fs user p ifHeader =
     (let np = normalizePath p in checkLockUp fs user np ifHeader np)"

end
