(* ===== verification/Webdav_Xml.thy ===== *)
theory Webdav_Xml
  imports Webdav_MemFS
begin

text \<open>
  XML bodies of the WebDAV handlers: the multistatus writers of
  \<^verbatim>\<open>src/internal/webdav/propfind.go\<close>, \<^verbatim>\<open>proppatch.go\<close>, \<^verbatim>\<open>report.go\<close> and \<^verbatim>\<open>lock.go\<close>, as string
  functions (a buffer write is an append), and the request parsers, as functions on the token
  stream that \<open>xml.Decoder\<close> delivers. The tokenizer itself is a parameter of the handlers; a
  syntax error of the input is the token \<open>XmlError\<close>, the end of the list is \<open>io.EOF\<close>.
\<close>

section \<open>Token streams\<close>

datatype xmltok =
    StartElement string string  \<comment> \<open>name space and local name\<close>
  | EndElement string
  | CharData string
  | OtherTok
  | XmlError

text \<open>
  \<open>dec.DecodeElement(&s, &start)\<close> for a string target, after the start tag: the character data
  directly inside the element, nested elements skipped; \<^const>\<open>None\<close> is an error (syntax error or end
  of input before the matching end tag).
\<close>

fun decodeString :: "nat \<Rightarrow> string \<Rightarrow> xmltok list \<Rightarrow> (string \<times> xmltok list) option" where
  "decodeString d acc [] = None"
| "decodeString d acc (XmlError # ts) = None"
| "decodeString d acc (StartElement sp n # ts) = decodeString (Suc d) acc ts"
| "decodeString 0 acc (EndElement n # ts) = Some (acc, ts)"
| "decodeString (Suc d) acc (EndElement n # ts) = decodeString d acc ts"
| "decodeString d acc (CharData s # ts) = decodeString d (if d = 0 then acc @ s else acc) ts"
| "decodeString d acc (OtherTok # ts) = decodeString d acc ts"

lemma decodeString_shorter: "decodeString d acc ts = Some (s, ts') \<Longrightarrow> length ts' < length ts"
  by (induction d acc ts rule: decodeString.induct) auto

section \<open>LOCK bodies\<close>

record parsedLockInfo =
  pliOwner :: string
  pliShared :: bool

function parseLockTokens ::
  "xmltok list \<Rightarrow> parsedLockInfo \<Rightarrow> bool \<times> bool \<times> bool \<Rightarrow> parsedLockInfo result" where
  "parseLockTokens ts info saw = (case saw of (sawLock, sawScope, sawType) \<Rightarrow>
     (case ts of
        [] \<Rightarrow> if \<not> sawLock \<or> \<not> sawScope \<or> \<not> sawType then Inl ErrBadRequest else Inr info
      | XmlError # _ \<Rightarrow> Inl ErrBadRequest
      | StartElement sp local # rest \<Rightarrow>
          (let name = to_lower local in
           if name = ''lockinfo'' then parseLockTokens rest info (True, sawScope, sawType)
           else if name = ''exclusive'' then
             parseLockTokens rest (info\<lparr>pliShared := False\<rparr>) (sawLock, True, sawType)
           else if name = ''shared'' then
             parseLockTokens rest (info\<lparr>pliShared := True\<rparr>) (sawLock, True, sawType)
           else if name = ''write'' then parseLockTokens rest info (sawLock, sawScope, True)
           else if name = ''owner'' then
             (case decodeString 0 [] rest of
                None \<Rightarrow> Inl ErrBadRequest
              | Some (owner, rest') \<Rightarrow>
                  parseLockTokens rest' (info\<lparr>pliOwner := trim_space owner\<rparr>) saw)
           else parseLockTokens rest info saw)
      | _ # rest \<Rightarrow> parseLockTokens rest info saw))"
  by pat_completeness auto
termination
  by (relation "measure (\<lambda>(ts, _, _). length ts)") (auto dest: decodeString_shorter)

declare parseLockTokens.simps [simp del]

definition parseLockInfo :: "xmltok list \<Rightarrow> parsedLockInfo result" where
  "parseLockInfo ts = parseLockTokens ts \<lparr>pliOwner = [], pliShared = False\<rparr> (False, False, False)"

section \<open>PROPPATCH, REPORT and MKCALENDAR bodies\<close>

record patchState =
  psUpdate :: bool
  psSet :: bool
  psRemove :: bool
  psProp :: bool

function parsePatchTokens ::
  "xmltok list \<Rightarrow> patchState \<Rightarrow> PropPatchOp list \<Rightarrow> PropPatchOp list option" where
  "parsePatchTokens ts st ops = (case ts of
      [] \<Rightarrow> if ops = [] then None else Some ops
    | XmlError # _ \<Rightarrow> None
    | StartElement space local # rest \<Rightarrow>
        if local = ''propertyupdate'' then parsePatchTokens rest (st\<lparr>psUpdate := True\<rparr>) ops
        else if local = ''set'' then
          parsePatchTokens rest (if psUpdate st then st\<lparr>psSet := True\<rparr> else st) ops
        else if local = ''remove'' then
          parsePatchTokens rest (if psUpdate st then st\<lparr>psRemove := True\<rparr> else st) ops
        else if local = ''prop'' then
          parsePatchTokens rest (if psSet st \<or> psRemove st then st\<lparr>psProp := True\<rparr> else st) ops
        else if psProp st \<and> (psSet st \<or> psRemove st) then
          (case decodeString 0 [] rest of
             None \<Rightarrow> None
           | Some (inner, rest') \<Rightarrow>
               parsePatchTokens rest' st
                 (ops @ [\<lparr>ppRemove = psRemove st, ppSpace = space, ppName = local,
                          ppValue = trim_space inner\<rparr>]))
        else parsePatchTokens rest st ops
    | EndElement local # rest \<Rightarrow>
        parsePatchTokens rest
          (if local = ''propertyupdate'' then st\<lparr>psUpdate := False\<rparr>
           else if local = ''set'' then st\<lparr>psSet := False\<rparr>
           else if local = ''remove'' then st\<lparr>psRemove := False\<rparr>
           else if local = ''prop'' then st\<lparr>psProp := False\<rparr>
           else st) ops
    | _ # rest \<Rightarrow> parsePatchTokens rest st ops)"
  by pat_completeness auto
termination
  by (relation "measure (\<lambda>(ts, _, _). length ts)") (auto dest: decodeString_shorter)

declare parsePatchTokens.simps [simp del]

definition parsePropPatch :: "xmltok list \<Rightarrow> PropPatchOp list option" where
  "parsePropPatch ts =
     parsePatchTokens ts \<lparr>psUpdate = False, psSet = False, psRemove = False, psProp = False\<rparr> []"

definition reportNames :: "string list" where
  "reportNames = [''calendar-query'', ''calendar-multiget'', ''addressbook-query'',
     ''addressbook-multiget'', ''free-busy-query'']"

fun reportName :: "xmltok list \<Rightarrow> string" where
  "reportName [] = []"
| "reportName (XmlError # ts) = []"
| "reportName (StartElement sp local # ts) = (if local \<in> set reportNames then local else reportName ts)"
| "reportName (t # ts) = reportName ts"

function parseMKCalTokens ::
  "xmltok list \<Rightarrow> bool \<Rightarrow> bool \<Rightarrow> string gomap \<Rightarrow> string gomap option" where
  "parseMKCalTokens ts inSet inProp props = (case ts of
      [] \<Rightarrow> Some props
    | XmlError # _ \<Rightarrow> None
    | StartElement sp local # rest \<Rightarrow>
        if local = ''set'' then parseMKCalTokens rest True inProp props
        else if local = ''prop'' then parseMKCalTokens rest inSet (if inSet then True else inProp) props
        else if inProp then
          (case decodeString 0 [] rest of
             None \<Rightarrow> None
           | Some (inner, rest') \<Rightarrow>
               parseMKCalTokens rest' inSet inProp (AList.update local (trim_space inner) props))
        else parseMKCalTokens rest inSet inProp props
    | EndElement local # rest \<Rightarrow>
        if local = ''set'' then parseMKCalTokens rest False inProp props
        else if local = ''prop'' then parseMKCalTokens rest inSet False props
        else parseMKCalTokens rest inSet inProp props
    | _ # rest \<Rightarrow> parseMKCalTokens rest inSet inProp props)"
  by pat_completeness auto
termination
  by (relation "measure (\<lambda>(ts, _, _, _). length ts)") (auto dest: decodeString_shorter)

declare parseMKCalTokens.simps [simp del]

definition parseMKCalendar :: "xmltok list \<Rightarrow> string gomap option" where
  "parseMKCalendar ts = parseMKCalTokens ts False False []"

section \<open>Multistatus writers\<close>

text \<open>A Go raw string literal with double quotes: the quote is written as a back quote in the model's
  literals and replaced here.\<close>

definition quoted :: "string \<Rightarrow> string" where
  "quoted s = map (\<lambda>c. if c = CHR 0x60 then CHR 0x22 else c) s"

definition xmlHeader :: string where
  "xmlHeader = quoted ''<?xml version=`1.0`?>'' @ [CHR 0x0A]"

definition multistatusNS :: string where
  "multistatusNS = quoted ''<d:multistatus xmlns:d=`DAV:` xmlns:s=`http://sabredav.org/ns` xmlns:oc=`http://owncloud.org/ns` xmlns:nc=`http://nextcloud.org/ns`>''"

record PropfindContext =
  BaseHref :: string
  InstanceID :: string
  OwnerID :: string
  OwnerDisplayName :: string
  EmitQuota :: bool
  QuotaUsed :: int
  QuotaAvailable :: int
  EmitFavorite :: bool
  EmitLocks :: bool
  CalDAV :: bool
  CardDAV :: bool

definition xmlEscape :: "string \<Rightarrow> string" where
  "xmlEscape s = xml_escape_text s"

definition multistatusOpen :: "bool \<Rightarrow> bool \<Rightarrow> string" where
  "multistatusOpen caldav carddav =
     (if \<not> caldav \<and> \<not> carddav then multistatusNS
      else quoted ''<d:multistatus xmlns:d=`DAV:` xmlns:s=`http://sabredav.org/ns` xmlns:oc=`http://owncloud.org/ns` xmlns:nc=`http://nextcloud.org/ns`'' @
        (if caldav then quoted '' xmlns:cal=`urn:ietf:params:xml:ns:caldav` xmlns:cs=`http://calendarserver.org/ns/` xmlns:apple=`http://apple.com/ns/ical/`'' else []) @
        (if carddav then quoted '' xmlns:card=`urn:ietf:params:xml:ns:carddav`'' @
           (if \<not> caldav then quoted '' xmlns:cs=`http://calendarserver.org/ns/`'' else []) else []) @ ''>'')"

definition buildHref :: "string \<Rightarrow> Entry \<Rightarrow> string" where
  "buildHref base e =
     (let p = ePath e in
      if p = [] \<or> p = ''/'' then
        (if eIsDir e \<and> \<not> has_suffix base ''/'' then base @ ''/'' else base)
      else
        (let segs = map path_escape (split_byte (trim_set p ''/'') (CHR ''/''));
             out = trim_right_set base ''/'' @ ''/'' @ join_byte segs (CHR ''/'')
         in if eIsDir e \<and> \<not> has_suffix out ''/'' then out @ ''/'' else out))"

text \<open>\<open><tag>escaped text</tag>\<close> and \<open><tag>number</tag>\<close>.\<close>

definition elem :: "string \<Rightarrow> string \<Rightarrow> string" where
  "elem tag content = ''<'' @ tag @ ''>'' @ content @ ''</'' @ tag @ ''>''"

definition optElem :: "string \<Rightarrow> string \<Rightarrow> string" where
  "optElem tag s = (if s \<noteq> [] then elem tag (xmlEscape s) else [])"

definition optHref :: "string \<Rightarrow> string \<Rightarrow> string" where
  "optHref tag s = (if s \<noteq> [] then elem tag (elem ''d:href'' (xmlEscape s)) else [])"

definition writeLockDiscovery :: "LockInfo option \<Rightarrow> string \<Rightarrow> string" where
  "writeLockDiscovery info href = (case info of
      None \<Rightarrow> ''<d:lockdiscovery/>''
    | Some info \<Rightarrow>
        if liToken info = [] then ''<d:lockdiscovery/>''
        else ''<d:lockdiscovery><d:activelock>'' @
          ''<d:locktype><d:write/></d:locktype>'' @
          ''<d:lockscope><d:exclusive/></d:lockscope>'' @
          (if liDepthInfinity info then ''<d:depth>infinity</d:depth>'' else ''<d:depth>0</d:depth>'') @
          elem ''d:owner'' (xmlEscape (liOwner info)) @
          elem ''d:timeout'' (timeoutHeaderValue (liTimeout info)) @
          elem ''d:locktoken'' (elem ''d:href'' (xmlEscape (liToken info))) @
          (if href \<noteq> [] then elem ''d:lockroot'' (elem ''d:href'' (xmlEscape href)) else []) @
          ''</d:activelock></d:lockdiscovery>'')"

definition writeLockProp :: "LockInfo \<Rightarrow> string \<Rightarrow> string" where
  "writeLockProp info href =
     xmlHeader @ quoted ''<d:prop xmlns:d=`DAV:`>'' @ writeLockDiscovery (Some info) href @ ''</d:prop>''"

definition writeSupportedLock :: string where
  "writeSupportedLock = ''<d:supportedlock><d:lockentry><d:lockscope><d:exclusive/></d:lockscope><d:locktype><d:write/></d:locktype></d:lockentry></d:supportedlock>''"

definition writeShareProps :: "Entry \<Rightarrow> string" where
  "writeShareProps e =
     (if eShareAccess e \<noteq> [] then ''<d:share-access><d:'' @ xmlEscape (eShareAccess e) @ ''/></d:share-access>'' else []) @
     optHref ''nc:owner-principal'' (eOwnerPrincipal e)"

definition writeExtraProps :: "CustomProp list \<Rightarrow> string" where
  "writeExtraProps props = concat (map (\<lambda>p.
     if cpNS p = [] \<or> cpName p = [] then []
     else ''<x:'' @ cpName p @ quoted '' xmlns:x=`'' @ xmlEscape (cpNS p) @ quoted ''`>'' @
          xmlEscape (cpValue p) @ ''</x:'' @ cpName p @ ''>'') props)"

definition resourceType :: "Entry \<Rightarrow> string" where
  "resourceType e =
     (if eIsPrincipal e then ''<d:resourcetype><d:principal/><d:collection/></d:resourcetype>''
      else if eIsCalendar e then ''<d:resourcetype><d:collection/><cal:calendar/></d:resourcetype>''
      else if eIsAddressbook e then ''<d:resourcetype><d:collection/><card:addressbook/></d:resourcetype>''
      else if eIsDir e then ''<d:resourcetype><d:collection/></d:resourcetype>''
      else ''<d:resourcetype/>'')"

definition syncProps :: "Entry \<Rightarrow> string" where
  "syncProps e =
     ''<cs:getctag>&quot;'' @ xmlEscape (eCTag e) @ ''&quot;</cs:getctag>'' @
     ''<d:sync-token>https://nextcloud-go/sync/'' @ xmlEscape (eCTag e) @ ''</d:sync-token>''"

definition calendarProps :: "Entry \<Rightarrow> string" where
  "calendarProps e =
     (if eCTag e \<noteq> [] then syncProps e else []) @
     quoted ''<cal:supported-calendar-component-set><cal:comp name=`VEVENT`/><cal:comp name=`VTODO`/></cal:supported-calendar-component-set>'' @
     writeShareProps e @
     optElem ''apple:calendar-color'' (eCalendarColor e) @
     elem ''apple:calendar-order'' (int_to_dec (eCalendarOrder e)) @
     elem ''oc:calendar-enabled'' (if eCalendarEnabled e then ''1'' else ''0'') @
     optElem ''cal:calendar-description'' (eCalendarDescription e)"

definition writeProps :: "PropfindContext \<Rightarrow> Entry \<Rightarrow> string" where
  "writeProps ctx e =
     resourceType e @
     ''<d:getetag>&quot;'' @ xmlEscape (eETag e) @ ''&quot;</d:getetag>'' @
     (if \<not> eIsDir e then
        elem ''d:getcontentlength'' (int_to_dec (eSize e)) @
        elem ''d:getcontenttype''
          (xmlEscape (if eContentType e = [] then ''application/octet-stream'' else eContentType e))
      else []) @
     elem ''d:getlastmodified'' (http_time (eModTime e)) @
     (if EmitLocks ctx then
        writeSupportedLock @
        (if eLockToken e \<noteq> [] then
           writeLockDiscovery (Some \<lparr>liToken = eLockToken e, liOwner = eLockOwner e,
             liTimeout = eLockTimeout e, liPath = ePath e, liDepthInfinity = False\<rparr>) []
         else ''<d:lockdiscovery/>'')
      else []) @
     elem ''oc:id'' (FileID (eNumericID e) (InstanceID ctx)) @
     elem ''oc:fileid'' (FileID (eNumericID e) (InstanceID ctx)) @
     elem ''oc:permissions''
       (PermissionString (ePermissions e) (eIsDir e) (eShareable e) (eMounted e) (eShared e)) @
     (if EmitFavorite ctx then elem ''oc:favorite'' (if eFavorite e = 1 then ''1'' else ''0'') else []) @
     (if eIsDir e then elem ''oc:size'' (int_to_dec (eSize e)) else []) @
     (if eChecksum e \<noteq> [] then elem ''oc:checksums'' (elem ''oc:checksum'' (xmlEscape (eChecksum e))) else []) @
     optElem ''oc:trashbin-original-location'' (eTrashOriginal e) @
     (if eTrashDeleted e > 0 then elem ''oc:trashbin-deletion-time'' (int_to_dec (eTrashDeleted e)) else []) @
     elem ''oc:owner-id'' (xmlEscape (OwnerID ctx)) @
     elem ''oc:owner-display-name'' (xmlEscape (OwnerDisplayName ctx)) @
     ''<nc:is-encrypted>false</nc:is-encrypted>'' @
     ''<nc:mount-type></nc:mount-type>'' @
     (if EmitQuota ctx \<and> (ePath e = [] \<or> ePath e = ''/'') then
        elem ''d:quota-used-bytes'' (int_to_dec (QuotaUsed ctx)) @
        elem ''d:quota-available-bytes'' (int_to_dec (QuotaAvailable ctx))
      else []) @
     optElem ''d:displayname'' (eDisplayName e) @
     optHref ''d:current-user-principal'' (eCurrentUserPrincipal e) @
     optHref ''cal:calendar-home-set'' (eCalendarHomeSet e) @
     optHref ''card:addressbook-home-set'' (eAddressbookHomeSet e) @
     optHref ''cal:calendar-user-address-set'' (eCalendarUserAddress e) @
     (if eIsCalendar e then calendarProps e else []) @
     (if eIsAddressbook e \<and> eCTag e \<noteq> [] then syncProps e else []) @
     (if eIsAddressbook e then writeShareProps e else []) @
     writeExtraProps (eExtraProps e)"

definition writeResponse :: "PropfindContext \<Rightarrow> Entry \<Rightarrow> string" where
  "writeResponse ctx e =
     ''<d:response>'' @ elem ''d:href'' (xmlEscape (buildHref (BaseHref ctx) e)) @
     ''<d:propstat><d:prop>'' @ writeProps ctx e @ ''</d:prop>'' @
     ''<d:status>HTTP/1.1 200 OK</d:status></d:propstat></d:response>''"

definition WriteMultistatus :: "PropfindContext \<Rightarrow> Entry list \<Rightarrow> string" where
  "WriteMultistatus ctx entries =
     xmlHeader @ multistatusOpen (CalDAV ctx) (CardDAV ctx) @
     concat (map (writeResponse ctx) entries) @ ''</d:multistatus>'' @ [CHR 0x0A]"

definition writeReportResponse :: "PropfindContext \<Rightarrow> Entry \<Rightarrow> string" where
  "writeReportResponse ctx e =
     ''<d:response>'' @ elem ''d:href'' (xmlEscape (buildHref (BaseHref ctx) e)) @
     (if eStatus e = 404 then
        ''<d:propstat><d:prop/><d:status>HTTP/1.1 404 Not Found</d:status></d:propstat></d:response>''
      else ''<d:propstat><d:prop>'' @
        ''<d:getetag>&quot;'' @ xmlEscape (eETag e) @ ''&quot;</d:getetag>'' @
        optElem ''cal:calendar-data'' (eCalendarData e) @
        optElem ''card:address-data'' (eAddressData e) @
        ''</d:prop><d:status>HTTP/1.1 200 OK</d:status></d:propstat></d:response>'')"

definition WriteReportMultistatus :: "PropfindContext \<Rightarrow> Entry list \<Rightarrow> string" where
  "WriteReportMultistatus ctx entries =
     xmlHeader @ multistatusOpen (CalDAV ctx) (CardDAV ctx) @
     concat (map (writeReportResponse ctx) entries) @ ''</d:multistatus>'' @ [CHR 0x0A]"

definition emptyPropXML :: "string \<Rightarrow> string \<Rightarrow> string" where
  "emptyPropXML space name =
     (let local = xmlEscape name in
      if space = ''http://owncloud.org/ns'' then ''<oc:'' @ local @ ''/>''
      else if space = ''http://nextcloud.org/ns'' then ''<nc:'' @ local @ ''/>''
      else if space = ''http://apple.com/ns/ical/'' then ''<apple:'' @ local @ ''/>''
      else if space = ''urn:ietf:params:xml:ns:caldav'' then ''<cal:'' @ local @ ''/>''
      else if space = [] \<or> space = ''DAV:'' then ''<d:'' @ local @ ''/>''
      else ''<x:'' @ local @ quoted '' xmlns:x=`'' @ xmlEscape space @ quoted ''`/>'')"

text \<open>\<open>http.StatusText\<close>.\<close>

definition statusTexts :: "(int \<times> string) list" where
  "statusTexts = [(100, ''Continue''), (101, ''Switching Protocols''), (102, ''Processing''),
     (103, ''Early Hints''), (200, ''OK''), (201, ''Created''), (202, ''Accepted''),
     (203, ''Non-Authoritative Information''), (204, ''No Content''), (205, ''Reset Content''),
     (206, ''Partial Content''), (207, ''Multi-Status''), (208, ''Already Reported''), (226, ''IM Used''),
     (300, ''Multiple Choices''), (301, ''Moved Permanently''), (302, ''Found''), (303, ''See Other''),
     (304, ''Not Modified''), (305, ''Use Proxy''), (307, ''Temporary Redirect''),
     (308, ''Permanent Redirect''), (400, ''Bad Request''), (401, ''Unauthorized''),
     (402, ''Payment Required''), (403, ''Forbidden''), (404, ''Not Found''),
     (405, ''Method Not Allowed''), (406, ''Not Acceptable''), (407, ''Proxy Authentication Required''),
     (408, ''Request Timeout''), (409, ''Conflict''), (410, ''Gone''), (411, ''Length Required''),
     (412, ''Precondition Failed''), (413, ''Request Entity Too Large''), (414, ''Request URI Too Long''),
     (415, ''Unsupported Media Type''), (416, ''Requested Range Not Satisfiable''),
     (417, ''Expectation Failed''), (418, ''I'' @ [CHR 0x27] @ ''m a teapot''), (421, ''Misdirected Request''),
     (422, ''Unprocessable Entity''), (423, ''Locked''), (424, ''Failed Dependency''), (425, ''Too Early''),
     (426, ''Upgrade Required''), (428, ''Precondition Required''), (429, ''Too Many Requests''),
     (431, ''Request Header Fields Too Large''), (451, ''Unavailable For Legal Reasons''),
     (500, ''Internal Server Error''), (501, ''Not Implemented''), (502, ''Bad Gateway''),
     (503, ''Service Unavailable''), (504, ''Gateway Timeout''), (505, ''HTTP Version Not Supported''),
     (506, ''Variant Also Negotiates''), (507, ''Insufficient Storage''), (508, ''Loop Detected''),
     (510, ''Not Extended''), (511, ''Network Authentication Required'')]"

definition statusText :: "int \<Rightarrow> string" where
  "statusText st = (case map_of statusTexts st of None \<Rightarrow> [] | Some s \<Rightarrow> s)"

text \<open>The statuses in the order of their first occurrence.\<close>

fun statusOrder :: "int list \<Rightarrow> int list \<Rightarrow> int list" where
  "statusOrder seen [] = []"
| "statusOrder seen (s # ss) =
     (if s \<in> set seen then statusOrder seen ss else s # statusOrder (s # seen) ss)"

definition writePropPatchMultistatus :: "string \<Rightarrow> PropPatchResult list \<Rightarrow> string" where
  "writePropPatchMultistatus href results =
     xmlHeader @ multistatusNS @ ''<d:response>'' @ elem ''d:href'' (xmlEscape href) @
     concat (map (\<lambda>st.
       ''<d:propstat><d:prop>'' @
       concat (map (\<lambda>r. emptyPropXML (prSpace r) (prName r)) (filter (\<lambda>r. prStatus r = st) results)) @
       ''</d:prop>'' @
       ''<d:status>HTTP/1.1 '' @ int_to_dec st @ '' '' @ statusText st @ ''</d:status>'' @
       ''</d:propstat>'') (statusOrder [] (map prStatus results))) @
     ''</d:response>'' @ ''</d:multistatus>'' @ [CHR 0x0A]"

section \<open>Multistatus reader\<close>

text \<open>\<open>url.Parse\<close> (only its path is used), \<open>url.PathUnescape\<close> and \<open>http.ParseTime\<close> are parameters.\<close>

record urlFuns =
  urlPath :: "string \<Rightarrow> string option"
  pathUnescape :: "string \<Rightarrow> string option"
  parseHTTPTime :: "string \<Rightarrow> int option"

definition hrefToPath :: "urlFuns \<Rightarrow> string \<Rightarrow> string" where
  "hrefToPath uf href0 =
     (let href = trim_space href0 in
      if href = [] then ''/''
      else
        (let p0 = (case urlPath uf href of Some up \<Rightarrow> if up \<noteq> [] then up else href | None \<Rightarrow> href);
             p1 = (case pathUnescape uf p0 of Some q \<Rightarrow> q | None \<Rightarrow> p0);
             p = trim_right_set p1 ''/'' in
         if p = [] then ''/''
         else
           (let base = (case last_index_byte p (CHR ''/'') of None \<Rightarrow> p | Some i \<Rightarrow> drop (Suc i) p) in
            if base = [] \<or> base = ''webdav'' then ''/'' else CHR ''/'' # base)))"

text \<open>Storing the text of a known property element into the current entry.\<close>

definition setMultistatusProp :: "urlFuns \<Rightarrow> string \<Rightarrow> string \<Rightarrow> Entry \<Rightarrow> Entry" where
  "setMultistatusProp uf local s e =
     (if local = ''getcontentlength'' then
        (case parse_int64 (trim_space s) of Some n \<Rightarrow> e\<lparr>eSize := n\<rparr> | None \<Rightarrow> e)
      else if local = ''getetag'' then e\<lparr>eETag := trim_set s [CHR 0x22, CHR 0x27]\<rparr>
      else if local = ''getcontenttype'' then e\<lparr>eContentType := trim_space s\<rparr>
      else (case parseHTTPTime uf (trim_space s) of Some t \<Rightarrow> e\<lparr>eModTime := t\<rparr> | None \<Rightarrow> e))"

function parseMultiTokens ::
  "urlFuns \<Rightarrow> xmltok list \<Rightarrow> Entry option \<Rightarrow> bool \<Rightarrow> Entry list \<Rightarrow> Entry list option" where
  "parseMultiTokens uf ts cur inRes out = (case ts of
      [] \<Rightarrow> Some out
    | XmlError # _ \<Rightarrow> None
    | StartElement sp local0 # rest \<Rightarrow>
        (let local = to_lower local0 in
         if local = ''response'' then parseMultiTokens uf rest (Some zeroEntry) inRes out
         else if local = ''href'' then
           (let c = (case cur of None \<Rightarrow> zeroEntry | Some c \<Rightarrow> c) in
            case decodeString 0 [] rest of
              None \<Rightarrow> None
            | Some (href, rest') \<Rightarrow>
                parseMultiTokens uf rest' (Some (c\<lparr>ePath := hrefToPath uf href\<rparr>)) inRes out)
         else if local = ''resourcetype'' then parseMultiTokens uf rest cur True out
         else if local = ''collection'' then
           parseMultiTokens uf rest (if inRes then map_option (\<lambda>c. c\<lparr>eIsDir := True\<rparr>) cur else cur) inRes out
         else if local \<in> set [''getcontentlength'', ''getetag'', ''getcontenttype'', ''getlastmodified''] then
           (case cur of
              None \<Rightarrow> parseMultiTokens uf rest cur inRes out
            | Some c \<Rightarrow>
                (case decodeString 0 [] rest of
                   None \<Rightarrow> None
                 | Some (s, rest') \<Rightarrow>
                     parseMultiTokens uf rest' (Some (setMultistatusProp uf local s c)) inRes out))
         else parseMultiTokens uf rest cur inRes out)
    | EndElement local0 # rest \<Rightarrow>
        (let local = to_lower local0 in
         if local = ''response'' then
           (case cur of
              None \<Rightarrow> parseMultiTokens uf rest None inRes out
            | Some c \<Rightarrow> parseMultiTokens uf rest None inRes (out @ [c]))
         else if local = ''resourcetype'' then parseMultiTokens uf rest cur False out
         else parseMultiTokens uf rest cur inRes out)
    | _ # rest \<Rightarrow> parseMultiTokens uf rest cur inRes out)"
  by pat_completeness auto
termination
  by (relation "measure (\<lambda>(_, ts, _, _, _). length ts)") (auto dest: decodeString_shorter)

declare parseMultiTokens.simps [simp del]

definition ParseMultistatus :: "urlFuns \<Rightarrow> xmltok list \<Rightarrow> Entry list option" where
  "ParseMultistatus uf ts = parseMultiTokens uf ts None False []"

section \<open>Escaping\<close>

lemma xml_escape_rune_safe:
  assumes "c \<in> set (xml_escape_rune r raw)" and "c = CHR ''<'' \<or> c = CHR ''>'' \<or> c = CHR 0x22 \<or> c = CHR 0x27"
  shows "c \<in> set raw \<and> xml_char_ok r \<and> r \<notin> {34, 39, 38, 60, 62}"
  using assms by (auto simp: xml_escape_rune_def rune_error_def byte_def char_of_def split: if_splits)

end
