(* ===== verification/Webdav_Handler.thy ===== *)
theory Webdav_Handler
  imports Webdav_Xml
begin

text \<open>
  The HTTP handler of the WebDAV package (\<^verbatim>\<open>src/internal/webdav/handler.go\<close>,
  \<^verbatim>\<open>lock.go\<close>, \<^verbatim>\<open>proppatch.go\<close>, \<^verbatim>\<open>report.go\<close>, \<^verbatim>\<open>webdavroot.go\<close>, \<^verbatim>\<open>middleware.go\<close>). The file system
  behind it is the interface \<open>FS\<close> of \<^verbatim>\<open>fs.go\<close>: a record of operations on an arbitrary state;
  an interface that a file system may or may not implement (a Go type assertion) is an optional
  field. A handler is a function from the request and the state to the new state and the
  outcome: the response, or a panic that reaches \<open>net/http\<close>. \<open>url.Parse\<close> and the XML tokenizer
  are fields of the environment record.
\<close>

section \<open>Interfaces of fs.go and cond.go\<close>

record 's LockFS =
  lfLock :: "'s \<Rightarrow> string \<Rightarrow> string \<Rightarrow> LockRequest \<Rightarrow> 's \<times> LockInfo result"
  lfUnlock :: "'s \<Rightarrow> string \<Rightarrow> string \<Rightarrow> string \<Rightarrow> 's \<times> unit result"
  lfCheckLock :: "'s \<Rightarrow> string \<Rightarrow> string \<Rightarrow> string \<Rightarrow> 's \<times> unit result"

text \<open>
  A reader passed to \<open>Write\<close> is the result of reading it to its end. \<open>Read\<close> returns the content
  that its reader delivers. \<open>Move\<close> and \<open>Copy\<close> may return a nil entry.
\<close>

record 's FS =
  fsStat :: "'s \<Rightarrow> string \<Rightarrow> string \<Rightarrow> 's \<times> Entry result"
  fsList :: "'s \<Rightarrow> string \<Rightarrow> string \<Rightarrow> 's \<times> Entry list result"
  fsRead :: "'s \<Rightarrow> string \<Rightarrow> string \<Rightarrow> 's \<times> (string \<times> Entry) result"
  fsWrite :: "'s \<Rightarrow> string \<Rightarrow> string \<Rightarrow> string result \<Rightarrow> int option \<Rightarrow> 's \<times> (Entry \<times> bool) result"
  fsMkdir :: "'s \<Rightarrow> string \<Rightarrow> string \<Rightarrow> 's \<times> Entry result"
  fsRemove :: "'s \<Rightarrow> string \<Rightarrow> string \<Rightarrow> 's \<times> unit result"
  fsMove :: "'s \<Rightarrow> string \<Rightarrow> string \<Rightarrow> string \<Rightarrow> string \<Rightarrow> bool \<Rightarrow> 's \<times> (Entry option \<times> bool) result"
  fsCopy :: "'s \<Rightarrow> string \<Rightarrow> string \<Rightarrow> string \<Rightarrow> string \<Rightarrow> bool \<Rightarrow> bool \<Rightarrow> 's \<times> (Entry option \<times> bool) result"
  asLockFS :: "'s LockFS option"
  asPropPatchFS :: "('s \<Rightarrow> string \<Rightarrow> string \<Rightarrow> PropPatchOp list \<Rightarrow> 's \<times> PropPatchResult list result) option"
  asCondWriteFS :: "('s \<Rightarrow> string \<Rightarrow> string \<Rightarrow> string result \<Rightarrow> int option \<Rightarrow> WriteCond
                      \<Rightarrow> 's \<times> (Entry \<times> bool) result) option"
  asMetaMkdirFS :: "('s \<Rightarrow> string \<Rightarrow> string \<Rightarrow> CollectionMeta \<Rightarrow> 's \<times> Entry result) option"
  asReportFS :: "('s \<Rightarrow> string \<Rightarrow> string \<Rightarrow> ReportRequest \<Rightarrow> 's \<times> Entry list result) option"
  asRawReportFS :: "('s \<Rightarrow> string \<Rightarrow> string \<Rightarrow> ReportRequest \<Rightarrow> 's \<times> (string \<times> string \<times> bool) result) option"
  asShareFS :: "('s \<Rightarrow> string \<Rightarrow> string \<Rightarrow> string \<Rightarrow> 's \<times> unit result) option"
  asCalendarMkdirFS :: "('s \<Rightarrow> string \<Rightarrow> string \<Rightarrow> string gomap \<Rightarrow> 's \<times> Entry result) option"

section \<open>Requests and responses\<close>

text \<open>
  The body is the byte sequence that the connection delivers and the error, if any, that ends
  it. \<open>reqHeader\<close> holds the header values as \<open>Header.Get\<close> finds them; \<open>reqUser\<close> is the user id of
  the principal in the request's context.
\<close>

record Request =
  reqMethod :: string
  reqURLPath :: string
  reqHeader :: "string gomap"
  reqContentLength :: int
  reqBody :: string
  reqBodyErr :: "fs_error option"
  reqUser :: "string option"

record Response =
  rsStatus :: int
  rsHeader :: "string gomap"
  rsBody :: string

datatype outcome = Responded Response | Panicked

definition headerGet :: "Request \<Rightarrow> string \<Rightarrow> string" where
  "headerGet r k = (case map_of (reqHeader r) k of None \<Rightarrow> [] | Some v \<Rightarrow> v)"

text \<open>\<open>io.LimitReader(body, n)\<close> read to its end: the error is only met when the limit is not.\<close>

definition readLimited :: "int \<Rightarrow> Request \<Rightarrow> string result" where
  "readLimited n r =
     (if int (length (reqBody r)) < n
      then (case reqBodyErr r of None \<Rightarrow> Inr (reqBody r) | Some e \<Rightarrow> Inl e)
      else Inr (take (nat n) (reqBody r)))"

definition readBody :: "Request \<Rightarrow> string result" where
  "readBody r = (case reqBodyErr r of None \<Rightarrow> Inr (reqBody r) | Some e \<Rightarrow> Inl e)"

definition bodyLimit :: int where "bodyLimit = 1048576"

text \<open>\<open>http.Error\<close> and \<open>http.NotFound\<close>.\<close>

definition httpError :: "string gomap \<Rightarrow> string \<Rightarrow> int \<Rightarrow> outcome" where
  "httpError hdrs msg code = Responded \<lparr>rsStatus = code,
     rsHeader = AList.update ''X-Content-Type-Options'' ''nosniff''
       (AList.update ''Content-Type'' ''text/plain; charset=utf-8'' hdrs),
     rsBody = msg @ [CHR 0x0A]\<rparr>"

definition httpNotFound :: outcome where
  "httpNotFound = httpError [] ''404 page not found'' 404"

definition reply :: "int \<Rightarrow> string gomap \<Rightarrow> string \<Rightarrow> outcome" where
  "reply code hdrs body = Responded \<lparr>rsStatus = code, rsHeader = hdrs, rsBody = body\<rparr>"

record 's Handler =
  hPrefix :: string
  hFS :: "'s FS"
  hInstanceID :: string
  hOwnerUID :: "(Request \<Rightarrow> string) option"
  hOwnerName :: "(string \<Rightarrow> string) option"
  hQuota :: "('s \<Rightarrow> string \<Rightarrow> int \<times> int \<times> bool) option"
  hFilesPrefix :: string
  hAssemble :: "('s \<Rightarrow> string \<Rightarrow> string \<Rightarrow> string \<Rightarrow> string \<Rightarrow> bool \<Rightarrow> int option \<Rightarrow> string \<Rightarrow> string
                  \<Rightarrow> 's \<times> (Entry option \<times> bool) result) option"
  hRestore :: "('s \<Rightarrow> string \<Rightarrow> string \<Rightarrow> string \<Rightarrow> string \<Rightarrow> bool \<Rightarrow> 's \<times> (Entry option \<times> bool) result) option"
  hRestoreVersion :: "('s \<Rightarrow> string \<Rightarrow> string \<Rightarrow> string \<Rightarrow> string \<Rightarrow> 's \<times> (Entry option \<times> bool) result) option"
  hDAVHeader :: string
  hAllow :: string

text \<open>\<open>url.Parse\<close> (the path of the parsed URL, \<^const>\<open>None\<close> for an error) and the XML tokenizer.\<close>

record Env =
  envUrlPath :: "string \<Rightarrow> string option"
  envTokens :: "string \<Rightarrow> xmltok list"

definition bodyTokens :: "Env \<Rightarrow> Request \<Rightarrow> xmltok list" where
  "bodyTokens env r = envTokens env (reqBody r) @ (case reqBodyErr r of None \<Rightarrow> [] | Some _ \<Rightarrow> [XmlError])"

definition davCompliance :: string where
  "davCompliance = ''1, 2, 3, extended-mkcol''"

definition allowedMethods :: string where
  "allowedMethods = ''OPTIONS, GET, HEAD, PROPFIND, PUT, MKCOL, DELETE, MOVE, COPY, PROPPATCH, LOCK, UNLOCK''"

definition contentTypeXML :: string where
  "contentTypeXML = ''application/xml; charset=utf-8''"

text \<open>\<^const>\<open>None\<close> is \<open>ErrInvalidPrefix\<close>.\<close>

definition NewHandler :: "string \<Rightarrow> 's FS \<Rightarrow> string \<Rightarrow> 's Handler option" where
  "NewHandler prefix fs instanceID =
     (if prefix = [] \<or> hd prefix \<noteq> CHR ''/'' then None
      else Some \<lparr>hPrefix = (if \<not> has_suffix prefix ''/'' then prefix @ ''/'' else prefix), hFS = fs,
             hInstanceID = instanceID, hOwnerUID = None, hOwnerName = None, hQuota = None,
             hFilesPrefix = [], hAssemble = None, hRestore = None, hRestoreVersion = None,
             hDAVHeader = [], hAllow = []\<rparr>)"

section \<open>Paths and authorisation\<close>

definition parseUserPath :: "string \<Rightarrow> (string \<times> string) option" where
  "parseUserPath rest =
     (if rest = [] then None
      else case index_byte rest (CHR ''/'') of
          None \<Rightarrow> Some (rest, ''/'')
        | Some i \<Rightarrow>
            (let user = take i rest; sub = drop i rest in
             if user = [] then None else Some (user, if sub = [] then ''/'' else sub)))"

definition parsePath :: "'s Handler \<Rightarrow> string \<Rightarrow> (string \<times> string) option" where
  "parsePath h p =
     (if \<not> has_prefix p (hPrefix h) then None else parseUserPath (trim_prefix p (hPrefix h)))"

definition parseOwnerPath :: "'s Handler \<Rightarrow> string \<Rightarrow> string \<Rightarrow> (string \<times> string) option" where
  "parseOwnerPath h p user =
     (if user = [] \<or> \<not> has_prefix p (hPrefix h) then None
      else let rest = trim_prefix p (hPrefix h) in
        if rest = [] then Some (user, ''/'')
        else let rest1 = (if \<not> has_prefix rest ''/'' then CHR ''/'' # rest else rest);
                 rest2 = (if length rest1 > 1 then
                            (let t = trim_suffix rest1 ''/'' in if t = [] then ''/'' else t)
                          else rest1)
             in Some (user, rest2))"

definition requestPath :: "'s Handler \<Rightarrow> Request \<Rightarrow> (string \<times> string) option" where
  "requestPath h r = (case hOwnerUID h of
      Some owner \<Rightarrow>
        if reqURLPath r = trim_suffix (hPrefix h) ''/'' then Some (owner r, ''/'')
        else parseOwnerPath h (reqURLPath r) (owner r)
    | None \<Rightarrow> parsePath h (reqURLPath r))"

definition writeWebDAVUnauthorized :: outcome where
  "writeWebDAVUnauthorized = reply 401
     [(''WWW-Authenticate'', quoted ''Basic realm=`Authorisation Required`''), (''Content-Length'', ''0'')] []"

definition authorizePath :: "'s Handler \<Rightarrow> Request \<Rightarrow> outcome + string \<times> string" where
  "authorizePath h r =
     (if (case hOwnerUID h of Some owner \<Rightarrow> owner r = [] | None \<Rightarrow> False)
      then Inl writeWebDAVUnauthorized
      else case requestPath h r of
          None \<Rightarrow> Inl httpNotFound
        | Some (user, sub) \<Rightarrow>
            if reqUser r \<noteq> Some user then Inl (httpError [] ''Forbidden'' 403) else Inr (user, sub))"

definition hrefPrefix :: "'s Handler \<Rightarrow> string \<Rightarrow> string" where
  "hrefPrefix h user = (if hOwnerUID h \<noteq> None then hPrefix h else hPrefix h @ user)"

definition ownerDisplayName :: "'s Handler \<Rightarrow> string \<Rightarrow> string" where
  "ownerDisplayName h uid = (case hOwnerName h of
      None \<Rightarrow> uid | Some f \<Rightarrow> if f uid \<noteq> [] then f uid else uid)"

definition normalizeDepth :: "string \<Rightarrow> string" where
  "normalizeDepth d =
     (if d = ''0'' then ''0'' else if d = ''1'' then ''1''
      else if d = ''infinity'' \<or> d = [] then ''1'' else ''1'')"

section \<open>Error responses\<close>

definition writeFSError :: "fs_error \<Rightarrow> outcome" where
  "writeFSError err = (case err of
      ErrNotFound \<Rightarrow> httpError [] ''Not Found'' 404
    | ErrForbidden \<Rightarrow> httpError [] ''Forbidden'' 403
    | ErrLocked \<Rightarrow> httpError [] ''Locked'' 423
    | ErrPrecondition \<Rightarrow> httpError [] ''Precondition Failed'' 412
    | ErrBadRequest \<Rightarrow> httpError [] ''Bad Request'' 400
    | ErrExists \<Rightarrow> httpError [] ''Method Not Allowed'' 405
    | ErrMethodNotAllowed \<Rightarrow> httpError [] ''Method Not Allowed'' 405
    | ErrUnsupportedMedia \<Rightarrow> httpError [] ''Unsupported Media Type'' 415
    | ErrNotImplemented \<Rightarrow> httpError [] ''Not Implemented'' 501
    | ErrConflict \<Rightarrow> httpError [] ''Conflict'' 409
    | ErrNotDir \<Rightarrow> httpError [] ''Conflict'' 409
    | ErrIsDir \<Rightarrow> httpError [] ''Conflict'' 409
    | ErrParentMissing \<Rightarrow> httpError [] ''Conflict'' 409
    | ErrOther _ \<Rightarrow> httpError [] ''Internal Server Error'' 500
    | Panic \<Rightarrow> Panicked)"

definition writeMoveCopyErr :: "fs_error \<Rightarrow> outcome" where
  "writeMoveCopyErr err =
     (if err = ErrExists \<or> err = ErrPrecondition then httpError [] ''Precondition Failed'' 412
      else writeFSError err)"

definition davHeader :: "'s Handler \<Rightarrow> string" where
  "davHeader h = (if hDAVHeader h \<noteq> [] then hDAVHeader h else davCompliance)"

definition allowHeader :: "'s Handler \<Rightarrow> string" where
  "allowHeader h = (if hAllow h \<noteq> [] then hAllow h else allowedMethods)"

definition methodNotAllowed :: "'s Handler \<Rightarrow> outcome" where
  "methodNotAllowed h = httpError [(''Allow'', allowHeader h)] ''Method Not Allowed'' 405"

definition options :: "'s Handler \<Rightarrow> outcome" where
  "options h = reply 200 [(''DAV'', davHeader h), (''Allow'', allowHeader h), (''MS-Author-Via'', ''DAV'')] []"

text \<open>\<^const>\<open>None\<close>: the request may go on; otherwise the response has been written.\<close>

definition checkLock :: "'s Handler \<Rightarrow> Request \<Rightarrow> string \<Rightarrow> string \<Rightarrow> 's \<Rightarrow> 's \<times> outcome option" where
  "checkLock h r user p s = (case asLockFS (hFS h) of
      None \<Rightarrow> (s, None)
    | Some lf \<Rightarrow> (case lfCheckLock lf s user p (headerGet r ''If'') of
          (s', Inl err) \<Rightarrow> (s', Some (writeFSError err))
        | (s', Inr _) \<Rightarrow> (s', None)))"

section \<open>PROPFIND, GET and HEAD\<close>

definition emitFavorite :: "'s Handler \<Rightarrow> bool" where
  "emitFavorite h = (let p = to_lower (hPrefix h) in
     contains_str p ''/dav/files/'' \<or> contains_str p ''/webdav/'')"

definition emitLocks :: "'s Handler \<Rightarrow> bool" where
  "emitLocks h = emitFavorite h"

definition emitCalDAV :: "'s Handler \<Rightarrow> bool" where
  "emitCalDAV h = (let p = to_lower (hPrefix h) in
     contains_str p ''/dav/calendars/'' \<or> contains_str p ''/dav/principals/'' \<or> p = ''/remote.php/dav/'')"

definition emitCardDAV :: "'s Handler \<Rightarrow> bool" where
  "emitCardDAV h = (let p = to_lower (hPrefix h) in
     contains_str p ''/dav/addressbooks/'' \<or> contains_str p ''/dav/principals/'' \<or> p = ''/remote.php/dav/'')"

definition propfindBase :: "'s Handler \<Rightarrow> string \<Rightarrow> string \<Rightarrow> Entry \<Rightarrow> string" where
  "propfindBase h user sub root =
     (let base = (if eIsDir root \<and> sub \<noteq> ''/'' \<and> sub \<noteq> []
                  then hrefPrefix h user @ trim_suffix sub ''/'' else hrefPrefix h user)
      in if eIsDir root \<and> \<not> has_suffix base ''/'' then base @ ''/'' else base)"

definition propfindContext :: "'s Handler \<Rightarrow> string \<Rightarrow> string \<Rightarrow> Entry \<Rightarrow> 's \<Rightarrow> PropfindContext" where
  "propfindContext h user sub root s =
     (let plain = \<not> emitCalDAV h \<and> \<not> emitCardDAV h;
          emitQuota = (sub = ''/'' \<and> eIsDir root \<and> plain);
          (used, available) = (case hQuota h of
             Some q \<Rightarrow> if emitQuota then (case q s user of (u, a, unlimited) \<Rightarrow> (u, if unlimited then -3 else a))
                       else (0, -3)
           | None \<Rightarrow> (0, -3))
      in \<lparr>BaseHref = propfindBase h user sub root, InstanceID = hInstanceID h, OwnerID = user,
          OwnerDisplayName = ownerDisplayName h user, EmitQuota = emitQuota, QuotaUsed = used,
          QuotaAvailable = available, EmitFavorite = emitFavorite h \<and> plain,
          EmitLocks = emitLocks h \<and> plain, CalDAV = emitCalDAV h, CardDAV = emitCardDAV h\<rparr>)"

definition propfind :: "'s Handler \<Rightarrow> Request \<Rightarrow> 's \<Rightarrow> 's \<times> outcome" where
  "propfind h r s0 = (case authorizePath h r of
      Inl out \<Rightarrow> (s0, out)
    | Inr (user, sub) \<Rightarrow>
        (let depth = normalizeDepth (headerGet r ''Depth'') in
         case fsStat (hFS h) s0 user sub of
           (s1, Inl err) \<Rightarrow> (s1, writeFSError err)
         | (s1, Inr root) \<Rightarrow>
             (let (s2, children) = (if depth \<noteq> ''0'' \<and> eIsDir root then fsList (hFS h) s1 user sub
                                    else (s1, Inr []))
              in case children of
                   Inl err \<Rightarrow> (s2, writeFSError err)
                 | Inr cs \<Rightarrow> (s2, reply 207 [(''Content-Type'', contentTypeXML)]
                     (WriteMultistatus (propfindContext h user sub root s2) (root # cs))))))"

definition etagValue :: "Entry \<Rightarrow> string" where
  "etagValue e = quoted ''`'' @ eETag e @ quoted ''`''"

definition get :: "'s Handler \<Rightarrow> Request \<Rightarrow> bool \<Rightarrow> 's \<Rightarrow> 's \<times> outcome" where
  "get h r writeBody s0 = (case authorizePath h r of
      Inl out \<Rightarrow> (s0, out)
    | Inr (user, sub) \<Rightarrow> (case fsRead (hFS h) s0 user sub of
          (s1, Inl err) \<Rightarrow> (s1, writeFSError err)
        | (s1, Inr (content, entry)) \<Rightarrow>
            (s1, reply 200
              [(''Content-Type'', eContentType entry), (''Content-Length'', int_to_dec (eSize entry)),
               (''Last-Modified'', http_time (eModTime entry)), (''ETag'', etagValue entry),
               (''OC-ETag'', etagValue entry), (''OC-FileId'', FileID (eNumericID entry) (hInstanceID h))]
              (if writeBody then content else []))))"

section \<open>PUT\<close>

definition mtimeOf :: "Request \<Rightarrow> int option" where
  "mtimeOf r = (let v = headerGet r ''X-OC-Mtime'' in
     if v \<noteq> [] then map_option time_unix (parse_int64 v) else None)"

definition condOf :: "Request \<Rightarrow> WriteCond option" where
  "condOf r =
     (let c = \<lparr>IfETags = ParseIfETags (headerGet r ''If''),
               IfMatch = splitETagList (headerGet r ''If-Match''),
               IfNoneMatch = splitETagList (headerGet r ''If-None-Match'')\<rparr>
      in if IfETags c = [] \<and> IfMatch c = [] \<and> IfNoneMatch c = [] then None else Some c)"

definition writeCondLegacy ::
  "'s Handler \<Rightarrow> string \<Rightarrow> string \<Rightarrow> string result \<Rightarrow> int option \<Rightarrow> WriteCond \<Rightarrow> 's \<Rightarrow> 's \<times> (Entry \<times> bool) result" where
  "writeCondLegacy h user sub body mtime cond s0 = (case fsStat (hFS h) s0 user sub of
      (s1, Inl err) \<Rightarrow>
        if err \<noteq> ErrNotFound then (s1, Inl err)
        else (case Evaluate (Some cond) False [] of
            Some e \<Rightarrow> (s1, Inl e) | None \<Rightarrow> fsWrite (hFS h) s1 user sub body mtime)
    | (s1, Inr existing) \<Rightarrow>
        (case Evaluate (Some cond) True (eETag existing) of
            Some e \<Rightarrow> (s1, Inl e) | None \<Rightarrow> fsWrite (hFS h) s1 user sub body mtime))"

definition putBody :: "Request \<Rightarrow> string result" where
  "putBody r = (if reqContentLength r \<ge> 0 then readLimited (reqContentLength r) r else readBody r)"

definition putWrite :: "'s Handler \<Rightarrow> Request \<Rightarrow> string \<Rightarrow> string \<Rightarrow> 's \<Rightarrow> 's \<times> (Entry \<times> bool) result" where
  "putWrite h r user sub s = (case condOf r of
      None \<Rightarrow> fsWrite (hFS h) s user sub (putBody r) (mtimeOf r)
    | Some cond \<Rightarrow> (case asCondWriteFS (hFS h) of
          Some writeIf \<Rightarrow> writeIf s user sub (putBody r) (mtimeOf r) cond
        | None \<Rightarrow> writeCondLegacy h user sub (putBody r) (mtimeOf r) cond s))"

definition put :: "'s Handler \<Rightarrow> Request \<Rightarrow> 's \<Rightarrow> 's \<times> outcome" where
  "put h r s0 = (case authorizePath h r of
      Inl out \<Rightarrow> (s0, out)
    | Inr (user, sub) \<Rightarrow> (case checkLock h r user sub s0 of
          (s1, Some out) \<Rightarrow> (s1, out)
        | (s1, None) \<Rightarrow>
            if headerGet r ''OC-Chunked'' \<noteq> [] then (s1, httpError [] ''Not Implemented'' 501)
            else (case putWrite h r user sub s1 of
                (s2, Inl err) \<Rightarrow> (s2, writeFSError err)
              | (s2, Inr (entry, created)) \<Rightarrow>
                  (s2, reply (if created then 201 else 204)
                    ([(''ETag'', etagValue entry), (''OC-ETag'', etagValue entry),
                      (''OC-FileId'', FileID (eNumericID entry) (hInstanceID h)),
                      (''Last-Modified'', http_time (eModTime entry)), (''Content-Length'', ''0'')] @
                     (if mtimeOf r \<noteq> None then [(''X-OC-Mtime'', ''accepted'')] else [])) []))))"

section \<open>Destinations\<close>

definition filesPrefix :: "'s Handler \<Rightarrow> string" where
  "filesPrefix h =
     (let p = (if hFilesPrefix h = [] then ''/remote.php/dav/files/'' else hFilesPrefix h)
      in if \<not> has_suffix p ''/'' then p @ ''/'' else p)"

text \<open>The common first steps of the destination parsers; \<open>Inl\<close> is the error text.\<close>

definition destinationPath :: "Env \<Rightarrow> string \<Rightarrow> string + string" where
  "destinationPath env raw =
     (if raw = [] then Inl ''missing Destination''
      else case envUrlPath env raw of
          None \<Rightarrow> Inl ''invalid Destination''
        | Some p \<Rightarrow> if p = [] then Inl ''invalid Destination path'' else Inr p)"

definition parseFilesDestination :: "Env \<Rightarrow> 's Handler \<Rightarrow> string \<Rightarrow> string + string \<times> string" where
  "parseFilesDestination env h raw = (case destinationPath env raw of
      Inl e \<Rightarrow> Inl e
    | Inr p \<Rightarrow>
        if \<not> has_prefix p (filesPrefix h) then Inl ''destination outside DAV namespace''
        else (case parseUserPath (trim_prefix p (filesPrefix h)) of
            None \<Rightarrow> Inl ''invalid Destination path'' | Some us \<Rightarrow> Inr us))"

definition parseDestination :: "Env \<Rightarrow> 's Handler \<Rightarrow> Request \<Rightarrow> string + string \<times> string" where
  "parseDestination env h r = (case destinationPath env (headerGet r ''Destination'') of
      Inl e \<Rightarrow> Inl e
    | Inr p \<Rightarrow>
        if \<not> has_prefix p (hPrefix h) then Inl ''destination outside DAV namespace''
        else (case (case hOwnerUID h of Some owner \<Rightarrow> parseOwnerPath h p (owner r) | None \<Rightarrow> parsePath h p) of
            None \<Rightarrow> Inl ''invalid Destination path'' | Some us \<Rightarrow> Inr us))"

definition inRestore :: "string \<Rightarrow> bool" where
  "inRestore sub = (let np = normalizePath sub in np = ''/restore'' \<or> has_prefix (np @ ''/'') ''/restore/'')"

definition parseVersionRestoreDestination :: "Env \<Rightarrow> 's Handler \<Rightarrow> Request \<Rightarrow> string + string" where
  "parseVersionRestoreDestination env h r = (case destinationPath env (headerGet r ''Destination'') of
      Inl e \<Rightarrow> Inl e
    | Inr p \<Rightarrow>
        if \<not> has_prefix p (hPrefix h) then Inl ''destination outside DAV namespace''
        else (case parsePath h p of
            None \<Rightarrow> Inl ''invalid Destination path''
          | Some (user, sub) \<Rightarrow>
              if inRestore sub then Inr user else Inl ''destination outside restore namespace''))"

definition parseRestoreDestination :: "Env \<Rightarrow> 's Handler \<Rightarrow> Request \<Rightarrow> string + string \<times> string \<times> bool" where
  "parseRestoreDestination env h r =
     (let raw = headerGet r ''Destination'' in
      case destinationPath env raw of
        Inl e \<Rightarrow> Inl e
      | Inr p \<Rightarrow>
          if has_prefix p (filesPrefix h) then
            (case parseFilesDestination env h raw of
               Inl e \<Rightarrow> Inl e | Inr (user, destPath) \<Rightarrow> Inr (user, destPath, False))
          else if has_prefix p (hPrefix h) then
            (case parsePath h p of
               None \<Rightarrow> Inl ''invalid Destination path''
             | Some (user, sub) \<Rightarrow>
                 if inRestore sub then Inr (user, [], True)
                 else Inl ''destination outside restore namespace'')
          else Inl ''destination outside DAV namespace'')"

definition assembleTransferID :: "string \<Rightarrow> string option" where
  "assembleTransferID sub =
     (let np = normalizePath sub in
      if path_base np \<noteq> ''.file'' then None
      else let tid = trim_prefix (path_dir np) ''/'' in
        if tid = [] \<or> contains_str tid ''/'' then None else Some tid)"

definition parseVersionSource :: "string \<Rightarrow> (string \<times> string) option" where
  "parseVersionSource sub =
     (let (coll, rest, found) = cut_byte (trim_prefix (normalizePath sub) ''/'') (CHR ''/'') in
      if \<not> found \<or> coll \<noteq> ''versions'' then None
      else let (fileID, revision, found2) = cut_byte rest (CHR ''/'') in
        if \<not> found2 \<or> fileID = [] \<or> revision = [] \<or> contains_str revision ''/'' then None else Some (fileID, revision))"

definition restoreLocationID :: "string \<Rightarrow> string option" where
  "restoreLocationID sub =
     (let (coll, loc, ok) = cut_byte (trim_prefix (normalizePath sub) ''/'') (CHR ''/'') in
      if \<not> ok \<or> loc = [] \<or> contains_str loc ''/'' then None
      else if coll \<noteq> ''trash'' \<and> coll \<noteq> ''restore'' then None else Some loc)"

definition parseOverwrite :: "Request \<Rightarrow> bool" where
  "parseOverwrite r =
     (let v = map upper_char (trim_space (headerGet r ''Overwrite'')) in if v = [] then True else v = ''T'')"

section \<open>MKCOL and DELETE\<close>

definition mkcolMeta :: "Env \<Rightarrow> 's Handler \<Rightarrow> Request \<Rightarrow> CollectionMeta" where
  "mkcolMeta env h r =
     \<lparr>cmDestination = (let raw = headerGet r ''Destination'' in
        if raw \<noteq> [] then (case parseFilesDestination env h raw of Inl _ \<Rightarrow> [] | Inr (_, dest) \<Rightarrow> dest) else []),
      cmTotalLength = (let v = headerGet r ''OC-Total-Length'' in
        if v \<noteq> [] then (case parse_int64 v of Some n \<Rightarrow> n | None \<Rightarrow> 0) else 0)\<rparr>"

definition createdHeaders :: "'s Handler \<Rightarrow> Entry \<Rightarrow> string gomap" where
  "createdHeaders h entry =
     [(''OC-ETag'', etagValue entry), (''OC-FileId'', FileID (eNumericID entry) (hInstanceID h)),
      (''Content-Length'', ''0'')]"

definition mkcol :: "Env \<Rightarrow> 's Handler \<Rightarrow> Request \<Rightarrow> 's \<Rightarrow> 's \<times> outcome" where
  "mkcol env h r s0 = (case authorizePath h r of
      Inl out \<Rightarrow> (s0, out)
    | Inr (user, sub) \<Rightarrow>
        if reqContentLength r > 0 then (s0, httpError [] ''Unsupported Media Type'' 415)
        else if sub = ''/'' then (s0, httpError [] ''Method Not Allowed'' 405)
        else (case checkLock h r user sub s0 of
            (s1, Some out) \<Rightarrow> (s1, out)
          | (s1, None) \<Rightarrow>
              (case (case asMetaMkdirFS (hFS h) of
                       Some mkdirMeta \<Rightarrow> mkdirMeta s1 user sub (mkcolMeta env h r)
                     | None \<Rightarrow> fsMkdir (hFS h) s1 user sub) of
                 (s2, Inl err) \<Rightarrow> (s2, writeFSError err)
               | (s2, Inr entry) \<Rightarrow> (s2, reply 201 (createdHeaders h entry) []))))"

definition delete :: "'s Handler \<Rightarrow> Request \<Rightarrow> 's \<Rightarrow> 's \<times> outcome" where
  "delete h r s0 = (case authorizePath h r of
      Inl out \<Rightarrow> (s0, out)
    | Inr (user, sub) \<Rightarrow>
        if sub = ''/'' then (s0, httpError [] ''Forbidden'' 403)
        else (case checkLock h r user sub s0 of
            (s1, Some out) \<Rightarrow> (s1, out)
          | (s1, None) \<Rightarrow> (case fsRemove (hFS h) s1 user sub of
                (s2, Inl err) \<Rightarrow> (s2, writeFSError err)
              | (s2, Inr _) \<Rightarrow> (s2, reply 204 [(''Content-Length'', ''0'')] []))))"

section \<open>MOVE and COPY\<close>

definition emitMoveCopyHeaders :: "string \<Rightarrow> Entry option \<Rightarrow> string gomap" where
  "emitMoveCopyHeaders instanceID entry = (case entry of
      None \<Rightarrow> [(''Content-Length'', ''0'')]
    | Some e \<Rightarrow>
        [(''OC-ETag'', etagValue e), (''OC-FileId'', FileID (eNumericID e) instanceID),
         (''Last-Modified'', http_time (eModTime e)), (''Content-Length'', ''0'')])"

text \<open>The end of every branch: the error, or 201 / 204 with the headers of the entry.\<close>

definition moveCopyReply :: "'s Handler \<Rightarrow> 's \<times> (Entry option \<times> bool) result \<Rightarrow> 's \<times> outcome" where
  "moveCopyReply h res = (case res of
      (s, Inl err) \<Rightarrow> (s, writeMoveCopyErr err)
    | (s, Inr (entry, created)) \<Rightarrow>
        (s, reply (if created then 201 else 204) (emitMoveCopyHeaders (hInstanceID h) entry) []))"

text \<open>The three special sources of MOVE: a version, a trash item, a chunked upload.\<close>

definition restoreVersionMove ::
  "Env \<Rightarrow> 's Handler \<Rightarrow> Request \<Rightarrow> string \<Rightarrow> string \<Rightarrow> 's \<Rightarrow> ('s \<times> outcome) option" where
  "restoreVersionMove env h r srcUser srcSub s = (case hRestoreVersion h of
      None \<Rightarrow> None
    | Some restoreVersion \<Rightarrow> (case parseVersionSource srcSub of
          None \<Rightarrow> None
        | Some (fileID, revision) \<Rightarrow> Some (case parseVersionRestoreDestination env h r of
              Inl e \<Rightarrow> (s, httpError [] e 400)
            | Inr dstUser \<Rightarrow>
                if dstUser \<noteq> srcUser then (s, httpError [] ''Bad Gateway'' 502)
                else moveCopyReply h (restoreVersion s srcUser fileID revision dstUser))))"

definition restoreMove ::
  "Env \<Rightarrow> 's Handler \<Rightarrow> Request \<Rightarrow> string \<Rightarrow> string \<Rightarrow> 's \<Rightarrow> ('s \<times> outcome) option" where
  "restoreMove env h r srcUser srcSub s = (case hRestore h of
      None \<Rightarrow> None
    | Some restore \<Rightarrow> (case restoreLocationID srcSub of
          None \<Rightarrow> None
        | Some loc \<Rightarrow> Some (case parseRestoreDestination env h r of
              Inl e \<Rightarrow> (s, httpError [] e 400)
            | Inr (dstUser, dstSub, useOriginal) \<Rightarrow>
                if dstUser \<noteq> srcUser then (s, httpError [] ''Bad Gateway'' 502)
                else moveCopyReply h
                  (restore s srcUser loc dstUser (if useOriginal then [] else dstSub) (parseOverwrite r)))))"

definition assembleMove ::
  "Env \<Rightarrow> 's Handler \<Rightarrow> Request \<Rightarrow> string \<Rightarrow> string \<Rightarrow> 's \<Rightarrow> ('s \<times> outcome) option" where
  "assembleMove env h r srcUser srcSub s = (case hAssemble h of
      None \<Rightarrow> None
    | Some assemble \<Rightarrow> (case assembleTransferID srcSub of
          None \<Rightarrow> None
        | Some tid \<Rightarrow> Some (case parseFilesDestination env h (headerGet r ''Destination'') of
              Inl e \<Rightarrow> (s, httpError [] e 400)
            | Inr (dstUser, dstSub) \<Rightarrow>
                if dstUser \<noteq> srcUser then (s, httpError [] ''Bad Gateway'' 502)
                else moveCopyReply h
                  (assemble s srcUser tid dstUser dstSub (parseOverwrite r) (mtimeOf r)
                    (headerGet r ''OC-Checksum'') (headerGet r ''If'')))))"

text \<open>The destination is only lock-checked when it exists.\<close>

definition checkDestination ::
  "'s Handler \<Rightarrow> Request \<Rightarrow> string \<Rightarrow> string \<Rightarrow> 's \<Rightarrow> 's \<times> outcome option" where
  "checkDestination h r dstUser dstSub s0 = (case fsStat (hFS h) s0 dstUser dstSub of
      (s1, Inr _) \<Rightarrow> checkLock h r dstUser dstSub s1
    | (s1, Inl err) \<Rightarrow> (s1, if err \<noteq> ErrNotFound then Some (writeFSError err) else None))"

definition plainMoveOrCopy ::
  "Env \<Rightarrow> 's Handler \<Rightarrow> Request \<Rightarrow> bool \<Rightarrow> string \<Rightarrow> string \<Rightarrow> 's \<Rightarrow> 's \<times> outcome" where
  "plainMoveOrCopy env h r isCopy srcUser srcSub s0 = (case parseDestination env h r of
      Inl e \<Rightarrow> (s0, httpError [] e 400)
    | Inr (dstUser, dstSub) \<Rightarrow>
        if dstSub = ''/'' then (s0, httpError [] ''Forbidden'' 403)
        else if dstUser \<noteq> srcUser then (s0, httpError [] ''Bad Gateway'' 502)
        else (case (if \<not> isCopy then checkLock h r srcUser srcSub s0 else (s0, None)) of
            (s1, Some out) \<Rightarrow> (s1, out)
          | (s1, None) \<Rightarrow> (case checkDestination h r dstUser dstSub s1 of
                (s2, Some out) \<Rightarrow> (s2, out)
              | (s2, None) \<Rightarrow>
                  if isCopy then
                    (let depth = headerGet r ''Depth'' in
                     moveCopyReply h (fsCopy (hFS h) s2 srcUser srcSub dstUser dstSub (parseOverwrite r)
                       (depth = [] \<or> depth = ''infinity'')))
                  else moveCopyReply h (fsMove (hFS h) s2 srcUser srcSub dstUser dstSub (parseOverwrite r)))))"

definition moveOrCopy :: "Env \<Rightarrow> 's Handler \<Rightarrow> Request \<Rightarrow> bool \<Rightarrow> 's \<Rightarrow> 's \<times> outcome" where
  "moveOrCopy env h r isCopy s0 = (case authorizePath h r of
      Inl out \<Rightarrow> (s0, out)
    | Inr (srcUser, srcSub) \<Rightarrow>
        if srcSub = ''/'' then (s0, httpError [] ''Forbidden'' 403)
        else if isCopy then plainMoveOrCopy env h r isCopy srcUser srcSub s0
        else (case restoreVersionMove env h r srcUser srcSub s0 of
            Some res \<Rightarrow> res
          | None \<Rightarrow> (case restoreMove env h r srcUser srcSub s0 of
                Some res \<Rightarrow> res
              | None \<Rightarrow> (case assembleMove env h r srcUser srcSub s0 of
                    Some res \<Rightarrow> res
                  | None \<Rightarrow> plainMoveOrCopy env h r isCopy srcUser srcSub s0))))"

section \<open>PROPPATCH, LOCK and UNLOCK\<close>

definition proppatch :: "Env \<Rightarrow> 's Handler \<Rightarrow> Request \<Rightarrow> 's \<Rightarrow> 's \<times> outcome" where
  "proppatch env h r s0 = (case authorizePath h r of
      Inl out \<Rightarrow> (s0, out)
    | Inr (user, sub) \<Rightarrow> (case parsePropPatch (bodyTokens env r) of
          None \<Rightarrow> (s0, httpError [] ''Bad Request'' 400)
        | Some ops \<Rightarrow>
            if ops = [] then (s0, httpError [] ''Bad Request'' 400)
            else (case checkLock h r user sub s0 of
                (s1, Some out) \<Rightarrow> (s1, out)
              | (s1, None) \<Rightarrow> (case asPropPatchFS (hFS h) of
                    None \<Rightarrow> (s1, methodNotAllowed h)
                  | Some patchProps \<Rightarrow> (case patchProps s1 user sub ops of
                        (s2, Inl err) \<Rightarrow> (s2, writeFSError err)
                      | (s2, Inr results) \<Rightarrow>
                          (let href = hrefPrefix h user @ trim_suffix sub ''/'';
                               href' = (if has_suffix sub ''/'' \<and> \<not> has_suffix href ''/'' then href @ ''/'' else href)
                           in (s2, reply 207 [(''Content-Type'', contentTypeXML)]
                                 (writePropPatchMultistatus href' results))))))))"

definition lockRootHref :: "'s Handler \<Rightarrow> string \<Rightarrow> string \<Rightarrow> string" where
  "lockRootHref h user p =
     (let base = hrefPrefix h user; np = normalizePath p in
      if np = ''/'' then (if \<not> has_suffix base ''/'' then base @ ''/'' else base)
      else trim_right_set base ''/'' @ np)"

text \<open>The lock request of a LOCK body; \<open>Inl\<close> is the response of a refused body.\<close>

definition lockRequest :: "Env \<Rightarrow> Request \<Rightarrow> string \<Rightarrow> string \<Rightarrow> outcome + LockRequest" where
  "lockRequest env r depth body =
     (let ifHeader = headerGet r ''If'';
          req = \<lparr>lrRefresh = False, lrOwner = [], lrTimeout = parseTimeoutHeader (headerGet r ''Timeout''),
                 lrToken = ifHeader, lrDepthInfinity = equal_fold depth ''infinity''\<rparr>
      in if trim_space body = [] then
           (if ExtractLockTokens ifHeader = [] then Inl (httpError [] ''Bad Request'' 400)
            else Inr (req\<lparr>lrRefresh := True\<rparr>))
         else (case parseLockInfo (envTokens env body) of
             Inl _ \<Rightarrow> Inl (writeFSError ErrBadRequest)
           | Inr parsed \<Rightarrow>
               if pliShared parsed then Inl (writeFSError ErrForbidden)
               else Inr (req\<lparr>lrOwner := pliOwner parsed\<rparr>)))"

definition lock :: "Env \<Rightarrow> 's Handler \<Rightarrow> Request \<Rightarrow> 's \<Rightarrow> 's \<times> outcome" where
  "lock env h r s0 = (case authorizePath h r of
      Inl out \<Rightarrow> (s0, out)
    | Inr (user, sub) \<Rightarrow> (case asLockFS (hFS h) of
          None \<Rightarrow> (s0, methodNotAllowed h)
        | Some lf \<Rightarrow>
            (let depth = trim_space (headerGet r ''Depth'') in
             if depth \<noteq> [] \<and> depth \<noteq> ''0'' \<and> \<not> equal_fold depth ''infinity''
             then (s0, httpError [] ''Bad Request'' 400)
             else (case readLimited bodyLimit r of
                 Inl _ \<Rightarrow> (s0, httpError [] ''Bad Request'' 400)
               | Inr body \<Rightarrow> (case lockRequest env r depth body of
                     Inl out \<Rightarrow> (s0, out)
                   | Inr req \<Rightarrow> (case lfLock lf s0 user sub req of
                         (s1, Inl err) \<Rightarrow> (s1, writeFSError err)
                       | (s1, Inr info) \<Rightarrow>
                           (s1, reply 200
                             [(''Content-Type'', contentTypeXML),
                              (''Lock-Token'', ''<'' @ liToken info @ ''>''),
                              (''Timeout'', timeoutHeaderValue (liTimeout info))]
                             (writeLockProp info (lockRootHref h user (liPath info))))))))))"

definition unlock :: "'s Handler \<Rightarrow> Request \<Rightarrow> 's \<Rightarrow> 's \<times> outcome" where
  "unlock h r s0 = (case authorizePath h r of
      Inl out \<Rightarrow> (s0, out)
    | Inr (user, sub) \<Rightarrow> (case asLockFS (hFS h) of
          None \<Rightarrow> (s0, methodNotAllowed h)
        | Some lf \<Rightarrow>
            (let raw = headerGet r ''Lock-Token'' in
             if trim_space raw = [] then (s0, httpError [] ''Bad Request'' 400)
             else (case lfUnlock lf s0 user sub (StripLockToken raw) of
                 (s1, Inl err) \<Rightarrow> (s1, writeFSError err)
               | (s1, Inr _) \<Rightarrow> (s1, reply 204 [(''Content-Length'', ''0'')] [])))))"

section \<open>REPORT, MKCALENDAR and POST\<close>

definition reportReply :: "'s Handler \<Rightarrow> string \<Rightarrow> Entry list \<Rightarrow> outcome" where
  "reportReply h user entries =
     (let base = hrefPrefix h user; base' = (if \<not> has_suffix base ''/'' then base @ ''/'' else base)
      in reply 207 [(''Content-Type'', contentTypeXML)]
           (WriteReportMultistatus
             \<lparr>BaseHref = base', InstanceID = hInstanceID h, OwnerID = user,
              OwnerDisplayName = ownerDisplayName h user, EmitQuota = False, QuotaUsed = 0,
              QuotaAvailable = 0, EmitFavorite = False, EmitLocks = False, CalDAV = emitCalDAV h,
              CardDAV = emitCardDAV h\<rparr> entries))"

definition rawReport ::
  "'s Handler \<Rightarrow> string \<Rightarrow> string \<Rightarrow> ReportRequest \<Rightarrow> 's \<Rightarrow> 's \<times> outcome option" where
  "rawReport h user sub req s = (case asRawReportFS (hFS h) of
      None \<Rightarrow> (s, None)
    | Some raw \<Rightarrow> (case raw s user sub req of
          (s1, Inl err) \<Rightarrow> (s1, Some (writeFSError err))
        | (s1, Inr (rawBody, contentType, handled)) \<Rightarrow>
            (s1, if handled then Some (reply 200 [(''Content-Type'', contentType)] rawBody) else None)))"

definition report :: "Env \<Rightarrow> 's Handler \<Rightarrow> Request \<Rightarrow> 's \<Rightarrow> 's \<times> outcome" where
  "report env h r s0 = (case authorizePath h r of
      Inl out \<Rightarrow> (s0, out)
    | Inr (user, sub) \<Rightarrow> (case asReportFS (hFS h) of
          None \<Rightarrow> (s0, methodNotAllowed h)
        | Some rep \<Rightarrow> (case readLimited bodyLimit r of
              Inl _ \<Rightarrow> (s0, httpError [] ''Bad Request'' 400)
            | Inr body \<Rightarrow>
                (let name = reportName (envTokens env body); req = \<lparr>rqName = name, rqBody = body\<rparr> in
                 if name = [] then (s0, httpError [] ''Bad Request'' 400)
                 else (case rawReport h user sub req s0 of
                     (s1, Some out) \<Rightarrow> (s1, out)
                   | (s1, None) \<Rightarrow> (case rep s1 user sub req of
                         (s2, Inl err) \<Rightarrow> (s2, writeFSError err)
                       | (s2, Inr entries) \<Rightarrow> (s2, reportReply h user entries)))))))"

definition mkcalendar :: "Env \<Rightarrow> 's Handler \<Rightarrow> Request \<Rightarrow> 's \<Rightarrow> 's \<times> outcome" where
  "mkcalendar env h r s0 = (case authorizePath h r of
      Inl out \<Rightarrow> (s0, out)
    | Inr (user, sub) \<Rightarrow> (case asCalendarMkdirFS (hFS h) of
          None \<Rightarrow> (s0, methodNotAllowed h)
        | Some mk \<Rightarrow> (case parseMKCalendar (bodyTokens env r) of
              None \<Rightarrow> (s0, httpError [] ''Bad Request'' 400)
            | Some props \<Rightarrow> (case mk s0 user sub props of
                  (s1, Inl err) \<Rightarrow> (s1, writeFSError err)
                | (s1, Inr entry) \<Rightarrow> (s1, reply 201 (createdHeaders h entry) [])))))"

definition postShare :: "'s Handler \<Rightarrow> Request \<Rightarrow> 's \<Rightarrow> 's \<times> outcome" where
  "postShare h r s0 = (case authorizePath h r of
      Inl out \<Rightarrow> (s0, out)
    | Inr (user, sub) \<Rightarrow> (case asShareFS (hFS h) of
          None \<Rightarrow> (s0, methodNotAllowed h)
        | Some share \<Rightarrow> (case readLimited bodyLimit r of
              Inl _ \<Rightarrow> (s0, httpError [] ''Bad Request'' 400)
            | Inr body \<Rightarrow> (case share s0 user sub body of
                  (s1, Inl err) \<Rightarrow> (s1, writeFSError err)
                | (s1, Inr _) \<Rightarrow> (s1, reply 200 [(''Content-Length'', ''0'')] [])))))"

section \<open>Dispatch\<close>

definition ServeHTTP :: "Env \<Rightarrow> 's Handler \<Rightarrow> Request \<Rightarrow> 's \<Rightarrow> 's \<times> outcome" where
  "ServeHTTP env h r s =
     (let m = reqMethod r in
      if m = ''OPTIONS'' then (s, options h)
      else if m = ''PROPFIND'' then propfind h r s
      else if m = ''GET'' then get h r True s
      else if m = ''HEAD'' then get h r False s
      else if m = ''PUT'' then put h r s
      else if m = ''MKCOL'' then mkcol env h r s
      else if m = ''DELETE'' then delete h r s
      else if m = ''MOVE'' then moveOrCopy env h r False s
      else if m = ''COPY'' then moveOrCopy env h r True s
      else if m = ''PROPPATCH'' then proppatch env h r s
      else if m = ''LOCK'' then lock env h r s
      else if m = ''UNLOCK'' then unlock h r s
      else if m = ''REPORT'' then report env h r s
      else if m = ''MKCALENDAR'' then mkcalendar env h r s
      else if m = ''POST'' then postShare h r s
      else (s, methodNotAllowed h))"

end
