(* ===== verification/Webdav_MemTree.thy ===== *)
theory Webdav_MemTree
  imports Webdav_MemFS
begin

text \<open>
  The file tree of \<open>InMemoryFS\<close>. The abstract view of a user's files is a partial map from paths
  to nodes; the tree invariant says that every path is clean, is recorded in its entry and has
  a directory as its parent. The theorems give the effect of \<open>Mkdir\<close>, \<open>Write\<close>, \<open>Remove\<close>, \<open>Move\<close>
  and \<open>Copy\<close> on that map, show which of them keep the invariant, and pin down the inputs on
  which \<open>Move\<close> panics and \<open>Write\<close> breaks the tree.
\<close>

section \<open>Abstract view\<close>

type_synonym ftree = "string \<rightharpoonup> fileNode"

definition treeOf :: "InMemoryFS \<Rightarrow> string \<Rightarrow> ftree" where
  "treeOf fs user = (case map_of (fsUsers fs) user of None \<Rightarrow> Map.empty | Some t \<Rightarrow> map_of (utFiles t))"

definition isDirAt :: "ftree \<Rightarrow> string \<Rightarrow> bool" where
  "isDirAt tr p \<longleftrightarrow> p = ''/'' \<or> (\<exists>n. tr p = Some n \<and> eIsDir (fnEntry n))"

definition tree_ok :: "ftree \<Rightarrow> bool" where
  "tree_ok tr \<longleftrightarrow> (\<forall>p n. tr p = Some n \<longrightarrow>
     clean_path p \<and> ePath (fnEntry n) = p \<and> isDirAt tr (path_dir p))"

text \<open>Structural invariant of the state: the association lists are maps.\<close>

definition fs_keys_ok :: "InMemoryFS \<Rightarrow> bool" where
  "fs_keys_ok fs \<longleftrightarrow> distinct_keys (fsUsers fs) \<and> distinct_keys (fsLocks fs)
     \<and> (\<forall>u t. map_of (fsUsers fs) u = Some t \<longrightarrow> distinct_keys (utFiles t))
     \<and> (\<forall>u m. map_of (fsLocks fs) u = Some m \<longrightarrow> distinct_keys m)"

lemma tree_okD:
  assumes "tree_ok tr" and "tr p = Some n"
  shows "clean_path p" and "ePath (fnEntry n) = p" and "isDirAt tr (path_dir p)"
  using assms by (auto simp: tree_ok_def)

lemma normalizePath_clean:
  assumes "clean_path p" shows "normalizePath p = p" and "p \<noteq> ''/''"
proof -
  obtain segs s where q: "list_all plain_seg (segs @ [s])" "p = mkpath (segs @ [s])"
    using assms by (rule clean_pathE)
  have s: "s \<noteq> []" "last s \<noteq> CHR ''/''" using q(1) by (auto simp: plain_seg_def dest: last_in_set)
  then have "last p \<noteq> CHR ''/''" using q(2) by simp
  then have tr: "trim_right_set p ''/'' = p" by (intro trim_right_set_idem) simp
  have pre: "has_prefix p ''/''" using q(2) by (cases segs) auto
  then show "normalizePath p = p" using tr by (auto simp: normalizePath_def Let_def)
  show "p \<noteq> ''/''" using \<open>last p \<noteq> CHR ''/''\<close> by auto
qed

lemma ensureUser_view:
  assumes "ensureUser fs u = (fs', t)"
  shows "map_of (fsUsers fs') u = Some t" and "map_of (utFiles t) = treeOf fs u"
    and "treeOf fs' v = treeOf fs v" and "fsClock fs' = fsClock fs" and "fsLocks fs' = fsLocks fs"
    and "fs_keys_ok fs \<Longrightarrow> fs_keys_ok fs'" and "fs_keys_ok fs \<Longrightarrow> distinct_keys (utFiles t)"
  using assms
  by (auto simp: ensureUser_def allocID_def treeOf_def fs_keys_ok_def update_conv' Let_def
      split: option.splits if_splits)

lemma treeOf_putTree: "treeOf (putTree fs u t) v = (if v = u then map_of (utFiles t) else treeOf fs v)"
  by (simp add: putTree_def treeOf_def update_conv')

lemma treeOf_putFiles [simp]:
  "treeOf (putFiles fs u t files) v = (if v = u then map_of files else treeOf fs v)"
  by (simp add: putFiles_def treeOf_putTree)

lemma treeOf_updLocks [simp]: "treeOf (updLocks fs u f) v = treeOf fs v"
  by (simp add: updLocks_def treeOf_def split: option.splits)

lemma treeOf_lock_ops [simp]:
  "treeOf (deleteMemLocksLocked fs u p) v = treeOf fs v"
  "treeOf (renameMemLocksLocked fs u src dst) v = treeOf fs v"
  "treeOf (expireMemLockLocked fs u p now) v = treeOf fs v"
  by (simp_all add: deleteMemLocksLocked_def renameMemLocksLocked_def expireMemLockLocked_def
      split: option.splits)

lemma treeOf_putLock [simp]: "treeOf (putLock fs u p lk) v = treeOf fs v"
  by (simp add: putLock_def treeOf_def)

lemma treeOf_allocID [simp]: "treeOf (snd (allocID fs)) v = treeOf fs v"
  by (simp add: allocID_def treeOf_def)

lemma treeOf_nextID [simp]: "treeOf (fs\<lparr>fsNextID := i\<rparr>) v = treeOf fs v"
  by (simp add: treeOf_def)

text \<open>The same facts on whole states, for goals about every user.\<close>

lemma treeOf_funs:
  "treeOf (putFiles fs u t files) = (treeOf fs)(u := map_of files)"
  "treeOf (snd (allocID fs)) = treeOf fs"
  "map_of (fsUsers (putFiles fs u t files)) u = Some (t\<lparr>utFiles := files\<rparr>)"
  by (rule ext, simp)+ (simp add: putFiles_def putTree_def update_conv')

section \<open>Ancestors\<close>

lemma isDirAt_root [simp]: "isDirAt tr ''/''"
  by (simp add: isDirAt_def)

lemma tree_ok_ancestor:
  assumes "tree_ok tr" and "clean_path p" and "below p q" and "tr q = Some n"
  shows "\<exists>m. tr p = Some m \<and> eIsDir (fnEntry m)"
  using assms(3,4)
proof (induction "length q" arbitrary: q n rule: less_induct)
  case less
  have q: "clean_path q" and dir: "isDirAt tr (path_dir q)"
    using tree_okD [OF assms(1) less.prems(2)] by auto
  have up: "path_dir q = p \<or> below p (path_dir q)" and nr: "path_dir q \<noteq> ''/''"
    using below_path_dir [OF assms(2) q less.prems(1)] by auto
  then obtain m where m: "tr (path_dir q) = Some m" "eIsDir (fnEntry m)"
    using dir by (auto simp: isDirAt_def)
  have "length (path_dir q) < length q"
    using path_dir_clean(2) [OF q nr] by (rule below_length)
  with up m less.hyps show ?case by blast
qed

lemma parentError_None: "parentError files p = None \<longleftrightarrow> isDirAt (map_of files) p"
  by (auto simp: parentError_def isDirAt_def split: option.splits)

lemma parentError_Some: "parentError files p = Some err \<Longrightarrow> \<not> isDirAt (map_of files) p"
  using parentError_None [of files p] by auto

section \<open>Mkdir and Write\<close>

lemma tree_ok_insert:
  assumes "tree_ok tr" and "clean_path p" and "ePath (fnEntry n) = p" and "isDirAt tr (path_dir p)"
    and "\<And>q. isDirAt tr q \<Longrightarrow> isDirAt (tr(p \<mapsto> n)) q"
  shows "tree_ok (tr(p \<mapsto> n))"
  using assms by (auto simp: tree_ok_def split: if_splits)

lemma Mkdir_ok_iff:
  assumes "clean_path p" and "Mkdir sha fs u p = (fs', r)"
  shows "(\<exists>e. r = Inr e) \<longleftrightarrow> treeOf fs u p = None \<and> isDirAt (treeOf fs u) (path_dir p)"
  using assms
  by (auto simp: Mkdir_def normalizePath_clean Let_def parentError_None ensureUser_view(2)
      dest!: parentError_Some split: prod.splits option.splits if_splits)

lemma Mkdir_effect:
  assumes "clean_path p" and "Mkdir sha fs u p = (fs', Inr e)"
  shows "treeOf fs' v = (if v = u then (treeOf fs u)(p \<mapsto> \<lparr>fnEntry = e, fnData = None\<rparr>) else treeOf fs v)"
    and "ePath e = p" and "eIsDir e"
  using assms
  by (auto simp: Mkdir_def normalizePath_clean Let_def ensureUser_view allocID_def update_conv'
      split: prod.splits option.splits if_splits)

lemma Mkdir_error:
  assumes "clean_path p" and "Mkdir sha fs u p = (fs', Inl err)"
  shows "treeOf fs' v = treeOf fs v" and "err \<in> {ErrExists, ErrParentMissing, ErrNotDir}"
  using assms
  by (auto simp: Mkdir_def normalizePath_clean Let_def ensureUser_view parentError_def allocID_def
      split: prod.splits option.splits if_splits)

text \<open>
  \<open>Mkdir\<close> creates exactly one empty collection: it succeeds exactly when the path is free and its
  parent is a directory, then adds only that path to the caller's tree and keeps the tree
  invariant; otherwise no tree changes.
\<close>

theorem mkdir_correct:
  assumes "clean_path p" and "tree_ok (treeOf fs u)"
  shows "case Mkdir sha fs u p of
     (fs', Inr e) \<Rightarrow> treeOf fs u p = None \<and> isDirAt (treeOf fs u) (path_dir p) \<and> eIsDir e
        \<and> treeOf fs' = (treeOf fs)(u := (treeOf fs u)(p \<mapsto> \<lparr>fnEntry = e, fnData = None\<rparr>))
        \<and> tree_ok (treeOf fs' u)
   | (fs', Inl err) \<Rightarrow> treeOf fs' = treeOf fs
        \<and> \<not> (treeOf fs u p = None \<and> isDirAt (treeOf fs u) (path_dir p))"
proof -
  obtain fs' r where m: "Mkdir sha fs u p = (fs', r)" by (cases "Mkdir sha fs u p")
  show ?thesis
  proof (cases r)
    case (Inl err)
    then show ?thesis using m assms Mkdir_ok_iff [OF assms(1) m] Mkdir_error(1) [of p sha fs u fs' err]
      by (auto simp: fun_eq_iff)
  next
    case (Inr e)
    note eff = Mkdir_effect [OF assms(1) m [unfolded Inr]]
    have free: "treeOf fs u p = None" "isDirAt (treeOf fs u) (path_dir p)"
      using Mkdir_ok_iff [OF assms(1) m] Inr by auto
    have "tree_ok ((treeOf fs u)(p \<mapsto> \<lparr>fnEntry = e, fnData = None\<rparr>))"
      using assms free eff(2,3) by (intro tree_ok_insert) (auto simp: isDirAt_def)
    moreover have "treeOf fs' = (treeOf fs)(u := (treeOf fs u)(p \<mapsto> \<lparr>fnEntry = e, fnData = None\<rparr>))"
      by (rule ext) (simp add: eff(1))
    ultimately show ?thesis using m Inr free eff(3) by simp
  qed
qed

theorem mkdir_correct_witness:
  "\<exists>fs' e. Mkdir (\<lambda>s. s) (NewInMemoryFS 0) ''u'' ''/a'' = (fs', Inr e) \<and> tree_ok (treeOf fs' ''u'')"
proof -
  have "clean_path ''/a''" and ok: "tree_ok (treeOf (NewInMemoryFS 0) ''u'')"
    by (simp_all add: clean_path_def plain_seg_def NewInMemoryFS_def treeOf_def tree_ok_def)
  obtain fs' r where m: "Mkdir (\<lambda>s. s) (NewInMemoryFS 0) ''u'' ''/a'' = (fs', r)" by (cases "Mkdir (\<lambda>s. s) (NewInMemoryFS 0) ''u'' ''/a''")
  have "path_dir ''/a'' = ''/''" by code_simp
  then have "\<exists>e. r = Inr e"
    using Mkdir_ok_iff [OF \<open>clean_path ''/a''\<close> m] by (simp add: NewInMemoryFS_def treeOf_def isDirAt_def)
  then show ?thesis using mkdir_correct [OF \<open>clean_path ''/a''\<close> ok, of "\<lambda>s. s"] m by auto
qed

lemma ensureUser_known: "map_of (fsUsers fs) u = Some t \<Longrightarrow> ensureUser fs u = (fs, t)"
  by (simp add: ensureUser_def)


text \<open>\<open>Write\<close> on a clean path, with the tree of the user named.\<close>

lemma Write_unfold:
  assumes "clean_path p" and "ensureUser fs u = (fs1, t)"
  shows "Write sha fs u p (Inr body) mtime =
    (if path_dir p \<noteq> ''/'' \<and> map_of (utFiles t) (path_dir p) = None then (fs1, Inl ErrParentMissing)
     else writeCommit sha fs1 u p body mtime)"
  using assms by (simp add: Write_def writeCheck_def normalizePath_clean Let_def)

lemma writeCommit_effect:
  assumes "clean_path p" and "map_of (fsUsers fs) u = Some t"
    and "writeCommit sha fs u p body mtime = (fs', r)"
  shows "case map_of (utFiles t) p of
      Some n \<Rightarrow> if eIsDir (fnEntry n) then r = Inl ErrIsDir \<and> fs' = fs
        else (\<exists>e. r = Inr (e, False) \<and> ePath e = p \<and> \<not> eIsDir e \<and> eSize e = int (length body)
          \<and> eNumericID e = eNumericID (fnEntry n)
          \<and> fs' = putFiles fs u t (AList.update p \<lparr>fnEntry = e, fnData = Some body\<rparr> (utFiles t)))
    | None \<Rightarrow> (\<exists>e. r = Inr (e, True) \<and> ePath e = p \<and> \<not> eIsDir e \<and> eSize e = int (length body)
          \<and> fs' = putFiles (snd (allocID fs)) u t (AList.update p \<lparr>fnEntry = e, fnData = Some body\<rparr> (utFiles t)))"
  using assms
  by (auto simp: writeCommit_def normalizePath_clean ensureUser_known allocID_def Let_def
      split: option.splits if_splits)

text \<open>The effect of \<open>Write\<close> on the trees, on every branch.\<close>

lemma Write_effect:
  assumes "clean_path p" and "Write sha fs u p (Inr body) mtime = (fs', r)"
  shows "case r of
      Inl err \<Rightarrow> treeOf fs' = treeOf fs
        \<and> (path_dir p \<noteq> ''/'' \<and> treeOf fs u (path_dir p) = None
           \<or> (\<exists>n. treeOf fs u p = Some n \<and> eIsDir (fnEntry n)))
    | Inr (e, created) \<Rightarrow>
        treeOf fs' = (treeOf fs)(u := (treeOf fs u)(p \<mapsto> \<lparr>fnEntry = e, fnData = Some body\<rparr>))
        \<and> map_of (fsUsers fs') u \<noteq> None \<and> ePath e = p \<and> \<not> eIsDir e
        \<and> (path_dir p = ''/'' \<or> treeOf fs u (path_dir p) \<noteq> None)
        \<and> (case treeOf fs u p of None \<Rightarrow> created
           | Some n \<Rightarrow> \<not> created \<and> \<not> eIsDir (fnEntry n) \<and> eNumericID e = eNumericID (fnEntry n))"
proof -
  obtain fs1 t where e: "ensureUser fs u = (fs1, t)" by (cases "ensureUser fs u")
  note v = ensureUser_view [OF e]
  have tr: "treeOf fs1 = treeOf fs" using v(3) by blast
  show ?thesis
  proof (cases "path_dir p \<noteq> ''/'' \<and> map_of (utFiles t) (path_dir p) = None")
    case True
    then have "fs' = fs1 \<and> r = Inl ErrParentMissing" using assms e by (auto simp: Write_unfold)
    with True show ?thesis by (simp add: v(2) tr)
  next
    case False
    then have "writeCommit sha fs1 u p body mtime = (fs', r)" using assms e by (auto simp: Write_unfold)
    from writeCommit_effect [OF assms(1) v(1) this] False show ?thesis
      by (auto simp: v(2) tr update_conv' treeOf_funs split: option.splits if_splits)
  qed
qed

lemma Read_written:
  assumes "clean_path p" and "map_of (fsUsers fs) u \<noteq> None"
    and "treeOf fs u p = Some \<lparr>fnEntry = e, fnData = Some body\<rparr>" and "\<not> eIsDir e"
  shows "Read fs u p = (fs, Inr (body, e))"
  using assms
  by (auto simp: Read_def normalizePath_clean treeOf_def ensureUser_known)

definition prune :: "string \<Rightarrow> ftree \<Rightarrow> ftree" where
  "prune p tr = (\<lambda>q. if q = p \<or> below p q then None else tr q)"

lemma isDirAt_prune: "isDirAt (prune p tr) q \<longleftrightarrow> q = ''/'' \<or> isDirAt tr q \<and> q \<noteq> p \<and> \<not> below p q"
  by (auto simp: isDirAt_def prune_def)

lemma tree_ok_prune: 
  assumes "tree_ok tr" and "clean_path p" shows "tree_ok (prune p tr)"
  unfolding tree_ok_def
proof (intro allI impI)
  fix q n assume "prune p tr q = Some n"
  then have q: "tr q = Some n" "q \<noteq> p" "\<not> below p q" by (auto simp: prune_def split: if_splits)
  note ok = tree_okD [OF assms(1) q(1)]
  have "isDirAt (prune p tr) (path_dir q)"
  proof (cases "path_dir q = ''/''")
    case False
    then have "path_dir q \<noteq> p \<and> \<not> below p (path_dir q)"
      using below_path_dirI [OF ok(1) False] q(3) by blast
    with ok(3) show ?thesis by (simp add: isDirAt_prune)
  qed simp
  with ok show "clean_path q \<and> ePath (fnEntry n) = q \<and> isDirAt (prune p tr) (path_dir q)" by simp
qed

lemma dropNode_prune:
  assumes "tree_ok (map_of files)" and "map_of files p = Some node"
  shows "map_of (dropNode node p files) = prune p (map_of files)"
proof
  fix q
  have leaf: "\<not> eIsDir (fnEntry node) \<Longrightarrow> below p q \<Longrightarrow> map_of files q = None"
    using tree_ok_ancestor [OF assms(1) tree_okD(1) [OF assms]] assms(2) by (cases "map_of files q") fastforce+
  show "map_of (dropNode node p files) q = prune p (map_of files) q"
    using leaf by (auto simp: dropNode_def prune_def delete_conv' below_def)
qed

lemma Remove_effect:
  assumes "clean_path p" and "tree_ok (treeOf fs u)" and "Remove fs u p = (fs', Inr ())"
  shows "treeOf fs' v = (if v = u then prune p (treeOf fs u) else treeOf fs v)"
    and "treeOf fs u p \<noteq> None"
proof -
  obtain fs1 t where e: "ensureUser fs u = (fs1, t)" by (cases "ensureUser fs u")
  note v = ensureUser_view [OF e]
  from assms(3) e obtain n where n: "map_of (utFiles t) p = Some n"
    and fs': "fs' = deleteMemLocksLocked (putFiles fs1 u t (dropNode n p (utFiles t))) u p"
    using normalizePath_clean [OF assms(1)]
    by (auto simp: Remove_def split: option.splits)
  show "treeOf fs u p \<noteq> None" using n v(2) by simp
  have "tree_ok (map_of (utFiles t))" using assms(2) v(2) by simp
  from dropNode_prune [OF this n] show "treeOf fs' v = (if v = u then prune p (treeOf fs u) else treeOf fs v)"
    using v by (simp add: fs')
qed

lemma Remove_error:
  assumes "clean_path p" and "Remove fs u p = (fs', Inl err)"
  shows "treeOf fs' v = treeOf fs v" and "treeOf fs u p = None" and "err = ErrNotFound"
  using assms
  by (auto simp: Remove_def normalizePath_clean Let_def ensureUser_view
      split: prod.splits option.splits if_splits)


section \<open>Move\<close>

text \<open>What \<open>moveOne\<close> writes into the node it moves.\<close>

definition retarget :: "(string \<Rightarrow> string) \<Rightarrow> int \<Rightarrow> string \<Rightarrow> fileNode \<Rightarrow> fileNode" where
  "retarget sha mt p n = n\<lparr>fnEntry := (fnEntry n)\<lparr>ePath := p, eModTime := mt,
     eETag := ComputeETag sha (eSize (fnEntry n)) mt p\<rparr>\<rparr>"

lemma retarget_simps [simp]:
  "ePath (fnEntry (retarget sha mt p n)) = p" "eIsDir (fnEntry (retarget sha mt p n)) = eIsDir (fnEntry n)"
  "fnData (retarget sha mt p n) = fnData n"
  "eNumericID (fnEntry (retarget sha mt p n)) = eNumericID (fnEntry n)"
  by (simp_all add: retarget_def)

lemma moveOne_effect:
  assumes "map_of files old = Some n"
  shows "moveOne sha mt old new files = (AList.update new (retarget sha mt new n) (AList.delete old files), True)"
  using assms by (simp add: moveOne_def retarget_def)

text \<open>The closed form of a sequence of moves between disjoint sets of paths.\<close>

lemma moveAll_effect:
  assumes "distinct (map fst ms)" and "distinct (map snd ms)" and "set (map fst ms) \<inter> set (map snd ms) = {}"
    and "\<forall>m \<in> set ms. map_of files (fst m) \<noteq> None"
  shows "snd (moveAll sha mt ms files) \<and> map_of (fst (moveAll sha mt ms files)) q =
    (case map_of (map prod.swap ms) q of
       Some old \<Rightarrow> map_option (retarget sha mt q) (map_of files old)
     | None \<Rightarrow> if q \<in> set (map fst ms) then None else map_of files q)"
  using assms
proof (induction ms arbitrary: files)
  case (Cons m ms)
  obtain old new where m: "m = (old, new)" by (cases m)
  obtain n where n: "map_of files old = Some n" using Cons.prems(4) m by auto
  let ?f1 = "AList.update new (retarget sha mt new n) (AList.delete old files)"
  have d: "old \<notin> set (map fst ms)" "new \<notin> set (map snd ms)" "new \<notin> set (map fst ms)" "old \<noteq> new"
    "old \<notin> set (map snd ms)"
    using Cons.prems m by auto
  have f1: "map_of ?f1 x = (if x = new then Some (retarget sha mt new n) else if x = old then None else map_of files x)" for x
    by (simp add: update_conv' delete_conv')
  have "\<forall>m \<in> set ms. map_of ?f1 (fst m) \<noteq> None"
    using Cons.prems(4) d by (force simp: f1)
  then have IH: "snd (moveAll sha mt ms ?f1) \<and> map_of (fst (moveAll sha mt ms ?f1)) q =
    (case map_of (map prod.swap ms) q of
       Some o' \<Rightarrow> map_option (retarget sha mt q) (map_of ?f1 o')
     | None \<Rightarrow> if q \<in> set (map fst ms) then None else map_of ?f1 q)"
    using Cons.IH Cons.prems by simp
  have run: "moveAll sha mt (m # ms) files = moveAll sha mt ms ?f1"
    by (simp add: m moveOne_effect [OF n])
  show ?case
  proof (cases "map_of (map prod.swap ms) q")
    case None
    then show ?thesis using IH d m n unfolding run by (auto simp: f1)
  next
    case (Some o')
    then have "(o', q) \<in> set ms" by (auto dest!: map_of_SomeD)
    then have "o' \<noteq> old" "o' \<noteq> new" "q \<noteq> new" using d by (force simp: image_iff)+
    then show ?thesis using IH m Some unfolding run by (simp add: f1)
  qed
qed simp

text \<open>The moves of a subtree, as a relation between old and new paths.\<close>

definition subtreeMoves :: "string \<Rightarrow> string \<Rightarrow> fileNode gomap \<Rightarrow> (string \<times> string) list" where
  "subtreeMoves src dst files = (src, dst) # childMoves src dst files"

lemma childMoves_eq:
  "childMoves src dst files =
    map (\<lambda>q. (q, rebase src dst q)) (filter (below src) (map fst files))"
proof -
  have "dst @ CHR ''/'' # trim_prefix q (src @ ''/'') = rebase src dst q" if "below src q" for q
    using that by (auto simp: below_append rebase_def trim_prefix_def has_prefix_iff)
  then show ?thesis by (auto simp: childMoves_def below_def [symmetric])
qed

lemma rebase_inj: "inj_on (rebase src dst) {q. q = src \<or> below src q}"
  by (rule inj_on_inverseI [where g = "rebase dst src"]) (auto simp: rebase_inverse)

definition disjoint_paths :: "string \<Rightarrow> string \<Rightarrow> bool" where
  "disjoint_paths a b \<longleftrightarrow> a \<noteq> b \<and> \<not> below a b \<and> \<not> below b a"

lemma disjoint_subtrees:
  assumes "disjoint_paths a b" and "q = a \<or> below a q" and "q = b \<or> below b q"
  shows False
  using assms below_linear below_trans unfolding disjoint_paths_def by metis

lemma subtreeMoves_distinct:
  assumes "distinct_keys files"
  shows "distinct (map fst (subtreeMoves src dst files))" and "distinct (map snd (subtreeMoves src dst files))"
proof -
  have d: "distinct (filter (below src) (map fst files))" using assms by (simp add: distinct_keys_def)
  then show "distinct (map fst (subtreeMoves src dst files))"
    by (simp add: subtreeMoves_def childMoves_eq comp_def)
  have "inj_on (rebase src dst) (set (filter (below src) (map fst files)))"
    by (rule inj_on_subset [OF rebase_inj]) auto
  moreover have "dst \<notin> rebase src dst ` {q. below src q}" using rebase_below [of src _ dst] by force
  ultimately show "distinct (map snd (subtreeMoves src dst files))"
    using d by (auto simp: subtreeMoves_def childMoves_eq comp_def distinct_map)
qed

lemma subtreeMoves_disjoint:
  assumes "disjoint_paths src dst"
  shows "set (map fst (subtreeMoves src dst files)) \<inter> set (map snd (subtreeMoves src dst files)) = {}"
proof -
  have "x = src \<or> below src x" if "x \<in> set (map fst (subtreeMoves src dst files))" for x
    using that by (auto simp: subtreeMoves_def childMoves_eq)
  moreover have "x = dst \<or> below dst x" if "x \<in> set (map snd (subtreeMoves src dst files))" for x
    using that rebase_below by (auto simp: subtreeMoves_def childMoves_eq)
  ultimately show ?thesis using disjoint_subtrees [OF assms] by blast
qed

lemma map_of_subtree_swap:
  assumes "distinct_keys files" and "map_of files src \<noteq> None"
  shows "map_of (map prod.swap (subtreeMoves src dst files)) q =
    (if (q = dst \<or> below dst q) \<and> map_of files (rebase dst src q) \<noteq> None then Some (rebase dst src q) else None)"
proof -
  let ?ms = "subtreeMoves src dst files"
  have dist: "distinct (map fst (map prod.swap ?ms))"
    using subtreeMoves_distinct(2) [OF assms(1)] by (simp add: comp_def)
  have mem: "(q, x) \<in> set (map prod.swap ?ms) \<longleftrightarrow>
      (q = dst \<or> below dst q) \<and> x = rebase dst src q \<and> map_of files x \<noteq> None" for x
  proof
    assume "(q, x) \<in> set (map prod.swap ?ms)"
    then have "(x = src \<and> q = dst) \<or> (below src x \<and> x \<in> fst ` set files \<and> q = rebase src dst x)"
      by (auto simp: subtreeMoves_def childMoves_eq)
    then show "(q = dst \<or> below dst q) \<and> x = rebase dst src q \<and> map_of files x \<noteq> None"
      using assms(2) rebase_below rebase_inverse by (auto simp: map_of_eq_None_iff)
  next
    assume r: "(q = dst \<or> below dst q) \<and> x = rebase dst src q \<and> map_of files x \<noteq> None"
    then show "(q, x) \<in> set (map prod.swap ?ms)"
      using rebase_below [of dst q src] rebase_inverse [of q dst src]
      by (auto simp: subtreeMoves_def childMoves_eq map_of_eq_None_iff image_iff)
  qed
  show ?thesis using mem dist by (auto intro: map_of_is_SomeI simp: map_of_eq_None_iff)
qed


text \<open>The specification of a move on the tree map: the subtree of \<open>src\<close> replaces that of \<open>dst\<close>.\<close>

definition moveSpec :: "(string \<Rightarrow> string) \<Rightarrow> int \<Rightarrow> string \<Rightarrow> string \<Rightarrow> ftree \<Rightarrow> ftree" where
  "moveSpec sha mt src dst tr = (\<lambda>q.
     if q = dst \<or> below dst q then map_option (retarget sha mt q) (tr (rebase dst src q))
     else if q = src \<or> below src q then None else tr q)"

lemma moveAll_moveSpec:
  assumes "distinct_keys files" and "disjoint_paths src dst" and "map_of files src \<noteq> None"
    and "map_of files = prune dst tr"
  shows "\<exists>files'. moveAll sha mt (subtreeMoves src dst files) files = (files', True)
    \<and> map_of files' = moveSpec sha mt src dst tr"
proof -
  let ?ms = "subtreeMoves src dst files"
  have all: "\<forall>m \<in> set ?ms. map_of files (fst m) \<noteq> None"
    using assms(3) by (auto simp: subtreeMoves_def childMoves_eq map_of_eq_None_iff)
  have olds: "q \<in> set (map fst ?ms) \<longleftrightarrow> (q = src \<or> below src q) \<and> map_of files q \<noteq> None" for q
    using assms(3) by (auto simp: subtreeMoves_def childMoves_eq map_of_eq_None_iff)
  note eff = moveAll_effect [OF subtreeMoves_distinct [OF assms(1)] subtreeMoves_disjoint [OF assms(2)] all]
  have "map_of (fst (moveAll sha mt ?ms files)) q = moveSpec sha mt src dst tr q" for q
  proof (cases "q = dst \<or> below dst q")
    case True
    let ?o = "rebase dst src q"
    have o: "?o = src \<or> below src ?o" using True rebase_below by auto
    have nb: "\<not> (?o = dst \<or> below dst ?o)"
      using disjoint_subtrees [OF assms(2) o] by blast
    have q: "\<not> (q = src \<or> below src q)" using disjoint_subtrees [OF assms(2) _ True] by blast
    show ?thesis using eff [THEN conjunct2, of sha mt q] map_of_subtree_swap [OF assms(1,3), of dst q] True nb q olds
      by (auto simp: assms(4) moveSpec_def prune_def)
  next
    case False
    show ?thesis using eff [THEN conjunct2, of sha mt q] map_of_subtree_swap [OF assms(1,3), of dst q] False olds [of q]
      by (auto simp: assms(4) moveSpec_def prune_def)
  qed
  then have "map_of (fst (moveAll sha mt ?ms files)) = moveSpec sha mt src dst tr" by (rule ext)
  moreover have "moveAll sha mt ?ms files = (fst (moveAll sha mt ?ms files), True)"
    using eff [THEN conjunct1, of sha mt] by (cases "moveAll sha mt ?ms files") simp
  ultimately show ?thesis by blast
qed

lemma childMoves_leaf:
  assumes "\<forall>q. below src q \<longrightarrow> map_of files q = None" shows "childMoves src dst files = []"
proof -
  have "filter (below src) (map fst files) = []"
    using assms by (auto simp: filter_empty_conv map_of_eq_None_iff)
  then show ?thesis by (simp add: childMoves_eq)
qed

lemma prune_absent: "tree_ok tr \<Longrightarrow> clean_path p \<Longrightarrow> tr p = None \<Longrightarrow> prune p tr = tr"
  using tree_ok_ancestor by (fastforce simp: prune_def fun_eq_iff)

lemma distinct_keys_dropNode [simp]: "distinct_keys files \<Longrightarrow> distinct_keys (dropNode n p files)"
  by (simp add: dropNode_def)

lemma overwriteDst_prune:
  assumes "tree_ok (map_of files)" and "clean_path dst" and "overwriteDst ow dst files = Inr (files', created)"
    and "distinct_keys files"
  shows "map_of files' = prune dst (map_of files)" and "created \<longleftrightarrow> map_of files dst = None"
    and "distinct_keys files'" and "map_of files dst = None \<or> ow"
  using assms prune_absent [OF assms(1,2)] dropNode_prune [OF assms(1)]
  by (auto simp: overwriteDst_def split: option.splits if_splits)

lemma overwriteDst_ok: "map_of files dst = None \<or> ow \<Longrightarrow> \<exists>x. overwriteDst ow dst files = Inr x"
  by (auto simp: overwriteDst_def split: option.splits)

definition transfer_ok :: "ftree \<Rightarrow> string \<Rightarrow> string \<Rightarrow> bool \<Rightarrow> bool" where
  "transfer_ok tr src dst ow \<longleftrightarrow> tr src \<noteq> None \<and> disjoint_paths src dst
     \<and> isDirAt tr (path_dir dst) \<and> (tr dst = None \<or> ow)"

lemma covers_iff: "has_prefix (dst @ ''/'') (src @ ''/'') \<longleftrightarrow> dst = src \<or> below src dst"
proof
  assume h: "has_prefix (dst @ ''/'') (src @ ''/'')"
  then obtain t where t: "dst @ ''/'' = src @ ''/'' @ t" by (auto simp: has_prefix_iff)
  then show "dst = src \<or> below src dst" by (cases t rule: rev_cases) (auto simp: below_append)
qed (auto simp: below_append has_prefix_iff)

lemma transferError_Inr:
  "transferError files src dst = Inr n \<longleftrightarrow> map_of files src = Some n
    \<and> \<not> (eIsDir (fnEntry n) \<and> (dst = src \<or> below src dst)) \<and> isDirAt (map_of files) (path_dir dst)"
  by (auto simp: transferError_def covers_iff parentError_None dest: parentError_Some split: option.splits)

lemma Move_run:
  assumes "clean_path src" and "clean_path dst" and "tree_ok (treeOf fs u)" and "fs_keys_ok fs"
    and ok: "transfer_ok (treeOf fs u) src dst ow"
  shows "\<exists>fs' e. Move sha fs u src u dst ow = (fs', Inr (e, treeOf fs u dst = None))
    \<and> treeOf fs' = (treeOf fs)(u := moveSpec sha (fsClock fs) src dst (treeOf fs u))"
proof -
  obtain fs1 t where e: "ensureUser fs u = (fs1, t)" by (cases "ensureUser fs u")
  note v = ensureUser_view [OF e]
  let ?tr = "treeOf fs u" and ?sp = "moveSpec sha (fsClock fs) src dst (treeOf fs u)"
  have tk: "tree_ok (map_of (utFiles t))" "distinct_keys (utFiles t)" using v assms by simp_all
  obtain n where n: "?tr src = Some n" using ok by (auto simp: transfer_ok_def)
  have te: "transferError (utFiles t) src dst = Inr n"
    using ok n by (auto simp: transferError_Inr v(2) transfer_ok_def disjoint_paths_def)
  obtain f1 created where ow: "overwriteDst ow dst (utFiles t) = Inr (f1, created)"
    using overwriteDst_ok [of "utFiles t" dst ow] ok by (auto simp: v(2) transfer_ok_def)
  note ov = overwriteDst_prune [OF tk(1) assms(2) ow tk(2), unfolded v(2)]
  have dj: "disjoint_paths src dst" using ok by (simp add: transfer_ok_def)
  have src1: "map_of f1 src \<noteq> None" using ov(1) n dj by (simp add: prune_def disjoint_paths_def)
  have leaf: "childMoves src dst f1 = []" if "\<not> eIsDir (fnEntry n)"
    using that tree_ok_ancestor [OF assms(3,1)] n ov(1)
    by (intro childMoves_leaf) (auto simp: prune_def, metis not_Some_eq option.inject)
  have moves: "(src, dst) # (if eIsDir (fnEntry n) then childMoves src dst f1 else []) = subtreeMoves src dst f1"
    using leaf by (simp add: subtreeMoves_def)
  obtain f2 where f2: "moveAll sha (fsClock fs) (subtreeMoves src dst f1) f1 = (f2, True)" "map_of f2 = ?sp"
    using moveAll_moveSpec [OF ov(3) dj src1 ov(1)] by blast
  let ?fs' = "renameMemLocksLocked (putFiles fs1 u t f2) u src dst"
  have "?sp dst = Some (retarget sha (fsClock fs) dst n)" by (simp add: moveSpec_def n)
  then have "Move sha fs u src u dst ow = (?fs', Inr (fnEntry (retarget sha (fsClock fs) dst n), created))"
    using dj by (simp add: Move_def e te ow f2 [folded moves] v(4) normalizePath_clean assms(1,2)
        disjoint_paths_def del: moveAll.simps)
  moreover have "treeOf ?fs' = (treeOf fs)(u := ?sp)"
    by (rule ext) (simp add: v(3) f2(2))
  ultimately show ?thesis using ov(2) by auto
qed


text \<open>The checks of \<open>Move\<close> and \<open>Copy\<close>, with a source that survives the overwriting, are the precondition.\<close>

lemma transfer_okI:
  assumes "clean_path src" and "clean_path dst" and "tree_ok tr" and "distinct_keys files"
    and "map_of files = tr" and "src \<noteq> dst" and te: "transferError files src dst = Inr n"
    and ow: "overwriteDst ow dst files = Inr (f1, created)" and src: "map_of f1 src \<noteq> None"
  shows "transfer_ok tr src dst ow"
proof -
  note tr = te [unfolded transferError_Inr assms(5)]
  note ov = overwriteDst_prune [OF _ assms(2) ow assms(4), unfolded assms(5), OF assms(3)]
  have "\<not> below dst src" using src by (auto simp: ov(1) prune_def)
  moreover have "\<not> below src dst"
  proof
    assume b: "below src dst"
    have up: "path_dir dst = src \<or> below src (path_dir dst)" "path_dir dst \<noteq> ''/''"
      using below_path_dir [OF assms(1,2) b] by auto
    then obtain m where m: "tr (path_dir dst) = Some m" "eIsDir (fnEntry m)"
      using tr by (auto simp: isDirAt_def)
    then have "eIsDir (fnEntry n)" using up(1) tr tree_ok_ancestor [OF assms(3,1) _ m(1)] by auto
    then show False using tr b by blast
  qed
  ultimately show ?thesis using tr assms(6) ov(4) by (auto simp: transfer_ok_def disjoint_paths_def)
qed

lemma Move_Inr_ok:
  assumes "clean_path src" and "clean_path dst" and "tree_ok (treeOf fs u)" and "fs_keys_ok fs"
    and mv: "Move sha fs u src u dst ow = (fs', Inr x)"
  shows "transfer_ok (treeOf fs u) src dst ow"
proof -
  obtain fs1 t where e: "ensureUser fs u = (fs1, t)" by (cases "ensureUser fs u")
  note v = ensureUser_view [OF e]
  have tk: "distinct_keys (utFiles t)" using v assms by simp_all
  from mv obtain n f1 created where ne: "src \<noteq> dst" and te: "transferError (utFiles t) src dst = Inr n"
    and ow: "overwriteDst ow dst (utFiles t) = Inr (f1, created)"
    and mo: "snd (moveOne sha (fsClock fs1) src dst f1)"
    using normalizePath_clean [OF assms(1)] normalizePath_clean [OF assms(2)]
    by (auto simp: Move_def e Let_def split: sum.splits prod.splits if_splits bool.splits)
  have "map_of f1 src \<noteq> None" using mo by (auto simp: moveOne_def split: option.splits)
  then show ?thesis using transfer_okI [OF assms(1-3) tk v(2) ne te ow] by blast
qed

lemma parentError_neq_Panic: "parentError files p \<noteq> Some Panic"
  by (auto simp: parentError_def split: option.splits if_splits)

text \<open>A \<open>Move\<close> onto a collection above the source takes that collection away and panics; any other failure keeps all trees.\<close>

lemma Move_onto_ancestor:
  assumes "clean_path src" and "clean_path dst" and "tree_ok (treeOf fs u)" and "fs_keys_ok fs"
    and "treeOf fs u src = Some n" and "below dst src"
  shows "\<exists>fs'. Move sha fs u src u dst True = (fs', Inl Panic) \<and> treeOf fs' = (treeOf fs)(u := prune dst (treeOf fs u))"
proof -
  obtain fs1 t where e: "ensureUser fs u = (fs1, t)" by (cases "ensureUser fs u")
  note v = ensureUser_view [OF e]
  have tk: "tree_ok (map_of (utFiles t))" "distinct_keys (utFiles t)" using v assms by simp_all
  obtain d where d: "treeOf fs u dst = Some d" using tree_ok_ancestor [OF assms(3,2,6,5)] by blast
  have nb: "\<not> (dst = src \<or> below src dst)" using assms(6) below_trans below_irrefl by blast
  have te: "transferError (utFiles t) src dst = Inr n"
    using assms(5) nb tree_okD(3) [OF assms(3) d] by (simp add: transferError_Inr v(2))
  obtain f1 created where ow: "overwriteDst True dst (utFiles t) = Inr (f1, created)"
    using overwriteDst_ok [of "utFiles t" dst True] by auto
  note ov = overwriteDst_prune [OF tk(1) assms(2) ow tk(2), unfolded v(2)]
  have gone: "map_of f1 src = None" using assms(6) by (simp add: ov(1) prune_def)
  then have "Move sha fs u src u dst True = (putFiles fs1 u t f1, Inl Panic)"
    using nb by (auto simp: Move_def e te ow normalizePath_clean assms(1,2) moveOne_def)
  then show ?thesis using ov(1) v(3) by (simp add: fun_eq_iff)
qed

definition onto_ancestor :: "ftree \<Rightarrow> string \<Rightarrow> string \<Rightarrow> bool \<Rightarrow> bool" where
  "onto_ancestor tr src dst ow \<longleftrightarrow> tr src \<noteq> None \<and> below dst src \<and> ow"

lemma Move_fails:
  assumes "clean_path src" and "clean_path dst" and "tree_ok (treeOf fs u)" and "fs_keys_ok fs"
    and "\<not> transfer_ok (treeOf fs u) src dst ow" and "\<not> onto_ancestor (treeOf fs u) src dst ow"
  shows "\<exists>fs' err. Move sha fs u src u dst ow = (fs', Inl err) \<and> err \<noteq> Panic \<and> treeOf fs' = treeOf fs"
proof -
  obtain fs1 t where e: "ensureUser fs u = (fs1, t)" by (cases "ensureUser fs u")
  note v = ensureUser_view [OF e]
  have tk: "tree_ok (map_of (utFiles t))" "distinct_keys (utFiles t)" using v assms by simp_all
  have same: "treeOf fs1 = treeOf fs" using v(3) by (simp add: fun_eq_iff)
  show ?thesis
  proof (cases "src = dst")
    case True
    then show ?thesis using same by (simp add: Move_def e Let_def)
  next
    case ne: False
    show ?thesis
    proof (cases "transferError (utFiles t) src dst")
      case (Inl err)
      then have "err \<noteq> Panic" using parentError_neq_Panic by (auto simp: transferError_def split: option.splits if_splits)
      then show ?thesis using Inl ne same normalizePath_clean [OF assms(1)] normalizePath_clean [OF assms(2)]
        by (simp add: Move_def e Let_def)
    next
      case te: (Inr n)
      show ?thesis
      proof (cases "overwriteDst ow dst (utFiles t)")
        case (Inl err)
        then have "err = ErrExists" by (auto simp: overwriteDst_def split: option.splits if_splits)
        then show ?thesis using Inl te ne same normalizePath_clean [OF assms(1)] normalizePath_clean [OF assms(2)]
          by (simp add: Move_def e Let_def)
      next
        case (Inr x)
        obtain f1 created where ow: "overwriteDst ow dst (utFiles t) = Inr (f1, created)" using Inr by (cases x) simp
        note ov = overwriteDst_prune [OF tk(1) assms(2) ow tk(2), unfolded v(2)]
        have n: "treeOf fs u src = Some n" using te by (simp add: transferError_Inr v(2))
        have "map_of f1 src = None" using transfer_okI [OF assms(1-3) tk(2) v(2) ne te ow] assms(5) by blast
        then have "below dst src" using n ne by (auto simp: ov(1) prune_def split: if_splits)
        moreover from this obtain d where "treeOf fs u dst = Some d" using tree_ok_ancestor [OF assms(3,2) _ n] by blast
        ultimately show ?thesis using ov(4) n assms(6) by (simp add: onto_ancestor_def)
      qed
    qed
  qed
qed

lemma rebase_path_dir_dst:
  assumes "clean_path src" and "clean_path dst" and "clean_path q" and "below dst q"
  shows "path_dir (rebase dst src q) = rebase dst src (path_dir q)"
    and "path_dir q = dst \<or> below dst (path_dir q)"
  using rebase_clean(2) [OF assms(2,1,3,4)] below_path_dir(1) [OF assms(2,3,4)] by auto

lemma tree_ok_moveSpec:
  assumes "clean_path src" and "clean_path dst" and "tree_ok tr" and ok: "transfer_ok tr src dst ow"
  shows "tree_ok (moveSpec sha mt src dst tr)"
  unfolding tree_ok_def
proof (intro allI impI)
  let ?m = "moveSpec sha mt src dst tr"
  have dj: "disjoint_paths src dst" and par: "isDirAt tr (path_dir dst)"
    using ok by (auto simp: transfer_ok_def)
  have keep: "isDirAt ?m p" if "isDirAt tr p" "\<not> (p = dst \<or> below dst p)" "\<not> (p = src \<or> below src p)" for p
    using that by (auto simp: isDirAt_def moveSpec_def)
  fix q n assume q: "?m q = Some n"
  show "clean_path q \<and> ePath (fnEntry n) = q \<and> isDirAt ?m (path_dir q)"
  proof (cases "q = dst \<or> below dst q")
    case False
    then have tr: "tr q = Some n" "\<not> (q = src \<or> below src q)" using q by (auto simp: moveSpec_def split: if_splits)
    note okq = tree_okD [OF assms(3) tr(1)]
    have "isDirAt ?m (path_dir q)"
    proof (cases "path_dir q = ''/''")
      case nr: False
      show ?thesis
        using keep [OF okq(3)] below_path_dirI [OF okq(1) nr] False tr(2) by blast
    qed simp
    with okq show ?thesis by simp
  next
    case True
    let ?o = "rebase dst src q"
    obtain m where m: "tr ?o = Some m" "n = retarget sha mt q m"
      using q True by (auto simp: moveSpec_def)
    note oko = tree_okD [OF assms(3) m(1)]
    show ?thesis
    proof (cases "q = dst")
      case True
      have "path_dir dst = ''/'' \<or> \<not> (path_dir dst = dst \<or> below dst (path_dir dst))
          \<and> \<not> (path_dir dst = src \<or> below src (path_dir dst))"
        using below_path_dirI [OF assms(2), of dst] below_path_dirI [OF assms(2), of src] dj
        by (auto simp: disjoint_paths_def)
      then have "isDirAt ?m (path_dir dst)" using keep [OF par] by auto
      with True assms(2) m show ?thesis by simp
    next
      case False
      with True have b: "below dst q" by simp
      have bo: "below src ?o" using b by (rule rebase_below)
      have qe: "q = rebase src dst ?o" using rebase_inverse [of q dst src] b by simp
      have cq: "clean_path q" using rebase_clean(1) [OF assms(1,2) oko(1) bo] qe by simp
      have "path_dir ?o = rebase dst src (path_dir q)" "path_dir q = dst \<or> below dst (path_dir q)"
        using rebase_path_dir_dst [OF assms(1,2) cq b] by auto
      moreover obtain d where "tr (path_dir ?o) = Some d" "eIsDir (fnEntry d)"
        using oko(3) below_path_dir(2) [OF assms(1) oko(1) bo] by (auto simp: isDirAt_def)
      ultimately have "isDirAt ?m (path_dir q)" by (auto simp: isDirAt_def moveSpec_def)
      with cq m show ?thesis by simp
    qed
  qed
qed

section \<open>A small concrete tree\<close>

text \<open>An executable check of the invariant, and a state with a directory and a file for the witnesses.\<close>

definition tree_okb :: "fileNode gomap \<Rightarrow> bool" where
  "tree_okb files \<longleftrightarrow> list_all (\<lambda>(p, n). clean_path p \<and> ePath (fnEntry n) = p \<and>
     (path_dir p = ''/'' \<or> (case map_of files (path_dir p) of None \<Rightarrow> False | Some m \<Rightarrow> eIsDir (fnEntry m)))) files"

lemma tree_okb_sound: "tree_okb files \<Longrightarrow> tree_ok (map_of files)"
  unfolding tree_okb_def tree_ok_def isDirAt_def list_all_iff
  by (fastforce dest: map_of_SomeD split: option.splits)

definition demoNode :: "string \<Rightarrow> bool \<Rightarrow> int \<Rightarrow> fileNode" where
  "demoNode p d i = \<lparr>fnEntry = zeroEntry\<lparr>ePath := p, eIsDir := d, eNumericID := i\<rparr>,
     fnData = (if d then None else Some ''hi'')\<rparr>"

definition demoFiles :: "fileNode gomap" where
  "demoFiles = [(''/a'', demoNode ''/a'' True 2), (''/a/f'', demoNode ''/a/f'' False 3)]"

definition demoFS :: InMemoryFS where
  "demoFS = \<lparr>fsUsers = [(''u'', \<lparr>utRoot = newRoot 0 1, utFiles = demoFiles\<rparr>)], fsClock = 0,
     fsNextID = 4, fsLocks = []\<rparr>"

lemma demo_tree: "treeOf demoFS ''u'' = map_of demoFiles"
  by (simp add: treeOf_def demoFS_def)

lemma demo_ok: "tree_ok (treeOf demoFS ''u'')" and demo_keys: "fs_keys_ok demoFS"
proof -
  have "tree_okb demoFiles" by code_simp
  then show "tree_ok (treeOf demoFS ''u'')" by (simp add: demo_tree tree_okb_sound)
  show "fs_keys_ok demoFS" by (auto simp: fs_keys_ok_def demoFS_def distinct_keys_def demoFiles_def split: if_splits)
qed

lemma demo_clean: "clean_path ''/a''" "clean_path ''/a/f''" "clean_path ''/b''" "clean_path ''/a/g''"
  by (simp_all add: clean_path_def plain_seg_def)

section \<open>Main theorems on the tree\<close>

text \<open>
  C1. \<open>Move\<close> is a rename of a subtree: on a well-formed tree and clean paths it succeeds exactly when
  the source exists, neither path lies inside the other, the destination's parent is a
  directory and the destination is free or may be overwritten. It then carries every node at or
  below the source to the corresponding path below the destination with its data and file id,
  replaces what was at the destination, leaves all other paths and users alone, reports
  whether the destination was new, and the result is again a well-formed tree. A \<open>Move\<close> that fails changes no tree,
  with one exception: overwriting a collection that contains the source takes that collection away and panics.
\<close>

theorem move_correct:
  assumes "clean_path src" and "clean_path dst" and "tree_ok (treeOf fs u)" and "fs_keys_ok fs"
  shows "(\<exists>fs' e. Move sha fs u src u dst ow = (fs', Inr (e, treeOf fs u dst = None))
        \<and> treeOf fs' = (treeOf fs)(u := moveSpec sha (fsClock fs) src dst (treeOf fs u))
        \<and> tree_ok (treeOf fs' u)
        \<and> transfer_ok (treeOf fs u) src dst ow)
     \<or> (\<exists>fs' err. Move sha fs u src u dst ow = (fs', Inl err) \<and> \<not> transfer_ok (treeOf fs u) src dst ow
        \<and> (if onto_ancestor (treeOf fs u) src dst ow
           then err = Panic \<and> treeOf fs' = (treeOf fs)(u := prune dst (treeOf fs u))
           else err \<noteq> Panic \<and> treeOf fs' = treeOf fs))"
proof (cases "transfer_ok (treeOf fs u) src dst ow")
  case True
  with Move_run [OF assms True, of sha] tree_ok_moveSpec [OF assms(1-3) True] show ?thesis by fastforce
next
  case no: False
  show ?thesis
  proof (cases "onto_ancestor (treeOf fs u) src dst ow")
    case True
    then show ?thesis using no Move_onto_ancestor [OF assms, of _ sha] by (fastforce simp: onto_ancestor_def)
  next
    case False
    then show ?thesis using no Move_fails [OF assms no False, of sha] by simp
  qed
qed

theorem move_correct_witness:
  "(\<exists>fs' e. Move (\<lambda>s. s) demoFS ''u'' ''/a'' ''u'' ''/b'' False = (fs', Inr (e, True)) \<and> tree_ok (treeOf fs' ''u''))
   \<and> (\<exists>fs' err. Move (\<lambda>s. s) demoFS ''u'' ''/b'' ''u'' ''/a'' True = (fs', Inl err) \<and> err \<noteq> Panic \<and> treeOf fs' = treeOf demoFS)"
proof
  have "transfer_ok (treeOf demoFS ''u'') ''/a'' ''/b'' False"
  proof -
    have "path_dir ''/b'' = ''/''" by code_simp
    then show ?thesis
      by (simp add: transfer_ok_def demo_tree demoFiles_def disjoint_paths_def below_def)
  qed
  moreover have "treeOf demoFS ''u'' ''/b'' = None" by (simp add: demo_tree demoFiles_def)
  ultimately show "\<exists>fs' e. Move (\<lambda>s. s) demoFS ''u'' ''/a'' ''u'' ''/b'' False = (fs', Inr (e, True)) \<and> tree_ok (treeOf fs' ''u'')"
    using move_correct [OF demo_clean(1,3) demo_ok demo_keys, of "\<lambda>s. s" False] by auto
  have "treeOf demoFS ''u'' ''/b'' = None" by (simp add: demo_tree demoFiles_def)
  then show "\<exists>fs' err. Move (\<lambda>s. s) demoFS ''u'' ''/b'' ''u'' ''/a'' True = (fs', Inl err) \<and> err \<noteq> Panic \<and> treeOf fs' = treeOf demoFS"
    using move_correct [OF demo_clean(3,1) demo_ok demo_keys, of "\<lambda>s. s" True] by (auto simp: transfer_ok_def onto_ancestor_def)
qed

text \<open>
  Overwriting an ancestor destroys the tree: moving a resource onto one of the collections that
  contain it, with overwriting allowed, deletes that whole collection, the source included, and
  then panics on the missing source node.
\<close>

theorem move_onto_ancestor_panics:
  assumes "clean_path src" and "clean_path dst" and "tree_ok (treeOf fs u)" and "fs_keys_ok fs"
    and "treeOf fs u src \<noteq> None" and "below dst src"
  shows "\<exists>fs'. Move sha fs u src u dst True = (fs', Inl Panic)
    \<and> treeOf fs' u = prune dst (treeOf fs u) \<and> treeOf fs' u src = None"
  using Move_onto_ancestor [OF assms(1-4) _ assms(6), of _ sha] assms(5,6) by (auto simp: prune_def)

theorem move_onto_ancestor_panics_witness:
  "\<exists>fs'. Move (\<lambda>s. s) demoFS ''u'' ''/a/f'' ''u'' ''/a'' True = (fs', Inl Panic)"
proof -
  have "treeOf demoFS ''u'' ''/a/f'' \<noteq> None" "below ''/a'' ''/a/f''"
    by (simp_all add: demo_tree demoFiles_def below_def)
  then show ?thesis
    using move_onto_ancestor_panics [OF demo_clean(2,1) demo_ok demo_keys, of "\<lambda>s. s"] by blast
qed

text \<open>
  A written file reads back: writing a body to a clean path whose parent is a directory and that is
  not itself a directory succeeds, the next \<open>Read\<close> of that path returns exactly the body with
  the returned entry, no other path and no other user is touched, an overwritten file keeps its
  file id, and the tree stays well formed.
\<close>

theorem write_read_roundtrip:
  assumes "clean_path p" and "tree_ok (treeOf fs u)" and "isDirAt (treeOf fs u) (path_dir p)"
    and "\<not> isDirAt (treeOf fs u) p"
  shows "\<exists>fs' e created. Write sha fs u p (Inr body) mtime = (fs', Inr (e, created))
    \<and> Read fs' u p = (fs', Inr (body, e))
    \<and> treeOf fs' = (treeOf fs)(u := (treeOf fs u)(p \<mapsto> \<lparr>fnEntry = e, fnData = Some body\<rparr>))
    \<and> (\<forall>n. treeOf fs u p = Some n \<longrightarrow> \<not> created \<and> eNumericID e = eNumericID (fnEntry n))
    \<and> tree_ok (treeOf fs' u)"
proof -
  obtain fs' r where w: "Write sha fs u p (Inr body) mtime = (fs', r)" by (cases "Write sha fs u p (Inr body) mtime")
  note eff = Write_effect [OF assms(1) w]
  obtain e created where r: "r = Inr (e, created)"
    using eff assms(3,4) by (cases r) (auto simp: isDirAt_def)
  note eff = eff [unfolded r, simplified]
  have "tree_ok ((treeOf fs u)(p \<mapsto> \<lparr>fnEntry = e, fnData = Some body\<rparr>))"
    using assms eff by (intro tree_ok_insert) (auto simp: isDirAt_def)
  moreover have "Read fs' u p = (fs', Inr (body, e))"
    using eff by (intro Read_written [OF assms(1)]) auto
  ultimately show ?thesis using w r eff by (auto split: option.splits)
qed

theorem write_read_roundtrip_witness:
  "\<exists>fs' e created. Write (\<lambda>s. s) demoFS ''u'' ''/a/g'' (Inr ''data'') None = (fs', Inr (e, created))
     \<and> Read fs' ''u'' ''/a/g'' = (fs', Inr (''data'', e))"
proof -
  have "path_dir ''/a/g'' = ''/a''" by code_simp
  then have "isDirAt (treeOf demoFS ''u'') (path_dir ''/a/g'')" "\<not> isDirAt (treeOf demoFS ''u'') ''/a/g''"
    by (simp_all add: isDirAt_def demo_tree demoFiles_def demoNode_def)
  then show ?thesis
    using write_read_roundtrip [OF demo_clean(4) demo_ok, of "\<lambda>s. s" "''data''" None] by blast
qed

text \<open>
  \<open>Write\<close> does not check that the parent is a directory: below an existing plain file it creates a
  node whose parent is not a collection, so the tree is no longer well formed.
\<close>

theorem write_below_file_breaks_tree:
  assumes "clean_path p" and "path_dir p \<noteq> ''/''" and "treeOf fs u p = None"
    and "treeOf fs u (path_dir p) = Some n" and "\<not> eIsDir (fnEntry n)"
  shows "\<exists>fs' e. Write sha fs u p (Inr body) mtime = (fs', Inr (e, True)) \<and> \<not> tree_ok (treeOf fs' u)"
proof -
  obtain fs' r where w: "Write sha fs u p (Inr body) mtime = (fs', r)" by (cases "Write sha fs u p (Inr body) mtime")
  note eff = Write_effect [OF assms(1) w]
  obtain e created where r: "r = Inr (e, created)" using eff assms by (cases r) auto
  note eff = eff [unfolded r, simplified]
  have "path_dir p \<noteq> p" using assms(3,4) by auto
  then have "treeOf fs' u (path_dir p) = Some n" "treeOf fs' u p \<noteq> None" using eff assms by auto
  then have "\<not> tree_ok (treeOf fs' u)" using assms(2,5) by (fastforce simp: tree_ok_def isDirAt_def)
  then show ?thesis using w r eff assms(3) by auto
qed

theorem write_below_file_breaks_tree_witness:
  "\<exists>fs' e. Write (\<lambda>s. s) demoFS ''u'' ''/a/f/x'' (Inr '''') None = (fs', Inr (e, True))
     \<and> \<not> tree_ok (treeOf fs' ''u'')"
proof -
  have c: "clean_path ''/a/f/x''" by (simp add: clean_path_def plain_seg_def)
  have "path_dir ''/a/f/x'' = ''/a/f''" by code_simp
  then show ?thesis
    using write_below_file_breaks_tree [OF c, of demoFS "''u''" "demoNode ''/a/f'' False 3" "\<lambda>s. s" "''''" None]
    by (simp add: demo_tree demoFiles_def demoNode_def zeroEntry_def)
qed

text \<open>
  \<open>Remove\<close> deletes exactly a subtree: it succeeds exactly on existing paths, then the path and
  everything below it are gone and nothing else changes; the tree stays well formed. On a
  missing path it reports \<open>ErrNotFound\<close> and changes nothing.
\<close>

theorem remove_correct:
  assumes "clean_path p" and "tree_ok (treeOf fs u)"
  shows "case Remove fs u p of
      (fs', Inr _) \<Rightarrow> treeOf fs u p \<noteq> None \<and> treeOf fs' = (treeOf fs)(u := prune p (treeOf fs u))
        \<and> tree_ok (treeOf fs' u)
    | (fs', Inl err) \<Rightarrow> treeOf fs u p = None \<and> err = ErrNotFound \<and> treeOf fs' = treeOf fs"
proof -
  obtain fs' r where m: "Remove fs u p = (fs', r)" by (cases "Remove fs u p")
  show ?thesis
  proof (cases r)
    case (Inl err)
    note er = Remove_error [OF assms(1) m [unfolded Inl]]
    have "treeOf fs' = treeOf fs" by (rule ext) (rule er(1))
    with er(2,3) show ?thesis using m Inl by simp
  next
    case (Inr x)
    note ef = Remove_effect [OF assms m [unfolded Inr, simplified]]
    have "treeOf fs' = (treeOf fs)(u := prune p (treeOf fs u))" by (rule ext) (simp add: ef(1))
    with ef(2) tree_ok_prune [OF assms(2,1)] show ?thesis using m Inr by simp
  qed
qed

theorem remove_correct_witness:
  "case Remove demoFS ''u'' ''/a'' of
      (fs', Inr _) \<Rightarrow> tree_ok (treeOf fs' ''u'') | (fs', Inl err) \<Rightarrow> False"
  using remove_correct [OF demo_clean(1) demo_ok] 
  by (auto simp: demo_tree demoFiles_def split: prod.splits sum.splits)

end
