(* ===== verification/Webdav_MemLock.thy ===== *)
theory Webdav_MemLock
  imports Webdav_MemTree
begin

text \<open>
  The lock manager of \<open>InMemoryFS\<close>. The abstract view is the lock that is active on a path: stored
  and not yet expired at the state's clock. \<open>CheckLock\<close> is shown to decide by the nearest
  covering lock on the way to the root, \<open>Lock\<close> to be exclusive, and the expiry of locks to be
  invisible in the abstract view.
\<close>

section \<open>Active locks\<close>

definition activeLock :: "InMemoryFS \<Rightarrow> string \<Rightarrow> string \<Rightarrow> memLock option" where
  "activeLock fs u p = (case memLockLocked fs u p of
      None \<Rightarrow> None | Some lk \<Rightarrow> if mlTimeout lk > fsClock fs then Some lk else None)"

lemma memLock_updLocks:
  "memLockLocked (updLocks fs u f) v p =
    (case map_of (fsLocks fs) u of
       Some m \<Rightarrow> if v = u then map_of (f m) p else memLockLocked fs v p
     | None \<Rightarrow> memLockLocked fs v p)"
  by (auto simp: memLockLocked_def updLocks_def update_conv' split: option.splits)

lemma clock_lock_ops [simp]:
  "fsClock (updLocks fs u f) = fsClock fs" "fsClock (expireMemLockLocked fs u p now) = fsClock fs"
  "fsClock (putLock fs u p lk) = fsClock fs"
  by (auto simp: updLocks_def expireMemLockLocked_def putLock_def split: option.splits)

lemma memLock_expire:
  "memLockLocked (expireMemLockLocked fs u p now) v q =
    (if v = u \<and> q = p then (case memLockLocked fs u p of
       Some lk \<Rightarrow> if mlTimeout lk > now then Some lk else None | None \<Rightarrow> None)
     else memLockLocked fs v q)"
proof (cases "memLockLocked fs u p")
  case (Some lk)
  then obtain m where m: "map_of (fsLocks fs) u = Some m" by (auto simp: memLockLocked_def split: option.splits)
  then have "memLockLocked fs u x = map_of m x" for x by (simp add: memLockLocked_def)
  with Some m show ?thesis by (auto simp: expireMemLockLocked_def memLock_updLocks delete_conv')
qed (auto simp: expireMemLockLocked_def)

lemma memLock_delete:
  "memLockLocked (updLocks fs u (AList.delete p)) v q = (if v = u \<and> q = p then None else memLockLocked fs v q)"
  by (cases "map_of (fsLocks fs) u")
    (auto simp: memLock_updLocks delete_conv' memLockLocked_def [of fs u])

lemma memLock_expire_same:
  "memLockLocked (expireMemLockLocked fs u p (fsClock fs)) u p = activeLock fs u p"
  by (simp add: memLock_expire activeLock_def)

lemma activeLock_expire [simp]:
  "activeLock (expireMemLockLocked fs u p (fsClock fs)) v q = activeLock fs v q"
  by (auto simp: activeLock_def memLock_expire split: option.splits)

lemma memLock_putLock:
  "memLockLocked (putLock fs u p lk) v q = (if v = u \<and> q = p then Some lk else memLockLocked fs v q)"
  by (auto simp: memLockLocked_def putLock_def update_conv' split: option.splits)

lemma activeLock_putLock:
  "activeLock (putLock fs u p lk) v q =
    (if v = u \<and> q = p then (if mlTimeout lk > fsClock fs then Some lk else None) else activeLock fs v q)"
  by (simp add: activeLock_def memLock_putLock split: option.split)

lemma memLock_ensureUser:
  "ensureUser fs u = (fs', t) \<Longrightarrow> memLockLocked fs' v p = memLockLocked fs v p"
  by (simp add: memLockLocked_def ensureUser_view)

lemma Stat_locks:
  assumes "Stat fs u p = (fs', r)"
  shows "memLockLocked fs' v q = memLockLocked fs v q" and "fsClock fs' = fsClock fs"
    and "activeLock fs' v q = activeLock fs v q"
proof -
  have "fsLocks fs' = fsLocks fs \<and> fsClock fs' = fsClock fs"
    using assms ensureUser_view(4,5)
    by (auto simp: Stat_def Let_def putTree_def putFiles_def split: prod.splits option.splits if_splits)
  then show "memLockLocked fs' v q = memLockLocked fs v q" and "fsClock fs' = fsClock fs"
    and "activeLock fs' v q = activeLock fs v q"
    by (simp_all add: memLockLocked_def activeLock_def split: option.split)
qed

lemma Stat_tree:
  assumes "clean_path p" and "Stat fs u p = (fs', r)"
  shows "(\<exists>e. r = Inr e) \<longleftrightarrow> treeOf fs u p \<noteq> None" and "r = Inl err \<Longrightarrow> err = ErrNotFound"
  using assms ensureUser_view(2)
  by (auto simp: Stat_def Let_def normalizePath_clean split: prod.splits option.splits if_splits)

section \<open>The lock check\<close>

text \<open>The paths from a resource up to the root, in the order in which \<open>CheckLock\<close> visits them.\<close>

function lockChain :: "string \<Rightarrow> string list" where
  "lockChain cur = cur # (if cur = ''/'' then [] else lockChain (parentPath cur))"
  by pat_completeness auto
termination
proof (relation "measure (\<lambda>cur. if cur = ''/'' then 0 else Suc (length cur))")
  fix cur assume "cur \<noteq> ''/''"
  then show "(parentPath cur, cur) \<in> measure (\<lambda>cur. if cur = ''/'' then 0 else Suc (length cur))"
    using parentPath_shorter [of cur] by auto
qed simp

declare lockChain.simps [simp del]

definition covering :: "InMemoryFS \<Rightarrow> string \<Rightarrow> string \<Rightarrow> string \<Rightarrow> memLock option" where
  "covering fs u np p = (case activeLock fs u p of
      Some lk \<Rightarrow> if p = np \<or> mlDepthInfinity lk then Some lk else None | None \<Rightarrow> None)"

text \<open>The nearest covering lock of a resource.\<close>

fun nearest :: "(string \<Rightarrow> memLock option) \<Rightarrow> string list \<Rightarrow> memLock option" where
  "nearest f [] = None"
| "nearest f (p # ps) = (case f p of Some lk \<Rightarrow> Some lk | None \<Rightarrow> nearest f ps)"

definition guardOf :: "InMemoryFS \<Rightarrow> string \<Rightarrow> string \<Rightarrow> memLock option" where
  "guardOf fs u np = nearest (covering fs u np) (lockChain np)"

definition lockVerdict :: "string \<Rightarrow> memLock option \<Rightarrow> unit result" where
  "lockVerdict h g = (case g of
      None \<Rightarrow> Inr () | Some lk \<Rightarrow> if lockHeaderHasToken h (mlToken lk) then Inr () else Inl ErrLocked)"

lemma covering_expired:
  "(case memLockLocked (expireMemLockLocked fs u cur (fsClock fs)) u cur of
      Some lk \<Rightarrow> if cur = np \<or> mlDepthInfinity lk then Some lk else None | None \<Rightarrow> None) = covering fs u np cur"
  by (simp add: memLock_expire_same covering_def)

lemma checkLockUp_step:
  "checkLockUp fs u np h cur =
     (let fs1 = expireMemLockLocked fs u cur (fsClock fs) in
      case covering fs u np cur of
        Some lk \<Rightarrow> if lockHeaderHasToken h (mlToken lk) then (fs1, Inr ()) else (fs1, Inl ErrLocked)
      | None \<Rightarrow> if cur = ''/'' then (fs1, Inr ()) else checkLockUp fs1 u np h (parentPath cur))"
  by (subst checkLockUp.simps) (simp only: Let_def covering_expired)

lemma checkLockUp_correct:
  "snd (checkLockUp fs u np h cur) = lockVerdict h (nearest (covering fs u np) (lockChain cur))
   \<and> (\<forall>v q. activeLock (fst (checkLockUp fs u np h cur)) v q = activeLock fs v q)
   \<and> (\<forall>v. treeOf (fst (checkLockUp fs u np h cur)) v = treeOf fs v)
   \<and> fsClock (fst (checkLockUp fs u np h cur)) = fsClock fs"
proof (induction fs u np h cur rule: checkLockUp.induct)
  case (1 fs u np h cur)
  let ?fs = "expireMemLockLocked fs u cur (fsClock fs)"
  have same: "covering ?fs u np = covering fs u np" by (rule ext) (simp add: covering_def)
  show ?case
  proof (cases "covering fs u np cur")
    case (Some lk)
    then show ?thesis by (simp add: checkLockUp_step [of fs] lockChain.simps [of cur] lockVerdict_def)
  next
    case None
    show ?thesis
    proof (cases "cur = ''/''")
      case True
      with None show ?thesis
        by (simp add: checkLockUp_step [of fs] lockChain.simps [of "''/''"] lockVerdict_def)
    next
      case False
      have run: "checkLockUp fs u np h cur = checkLockUp ?fs u np h (parentPath cur)"
        using None False by (simp add: checkLockUp_step [of fs])
      have chain: "lockChain cur = cur # lockChain (parentPath cur)"
        using False by (simp add: lockChain.simps [of cur])
      show ?thesis
        using "1.IH" [OF refl refl] None False covering_expired [where fs = fs and u = u and cur = cur and np = np]
        unfolding run chain by (simp add: same)
    qed
  qed
qed

lemma CheckLock_guard:
  "snd (CheckLock fs u p h) = lockVerdict h (guardOf fs u (normalizePath p))"
  using checkLockUp_correct [of fs u "normalizePath p" h "normalizePath p"]
  by (simp add: CheckLock_def guardOf_def Let_def)

lemma CheckLock_frame:
  "activeLock (fst (CheckLock fs u p h)) v q = activeLock fs v q"
  "treeOf (fst (CheckLock fs u p h)) v = treeOf fs v"
  "fsClock (fst (CheckLock fs u p h)) = fsClock fs"
  using checkLockUp_correct [of fs u "normalizePath p" h "normalizePath p"]
  by (simp_all add: CheckLock_def Let_def)


section \<open>Taking and releasing locks\<close>

lemma clampTimeout_range: "0 < clampTimeout t \<and> clampTimeout t \<le> maxLockTimeout"
  by (auto simp: clampTimeout_def defaultLockTimeout_def maxLockTimeout_def Let_def)

text \<open>The outcome of \<open>Lock\<close> on every branch, in terms of the active lock.\<close>

lemma Lock_cases:
  assumes "clean_path p" and "Lock fs u p req rnd = (fs', r)"
  shows "fsClock fs' = fsClock fs \<and> (case r of
      Inl err \<Rightarrow> (\<forall>v q. activeLock fs' v q = activeLock fs v q)
        \<and> (treeOf fs u p = None \<and> err = ErrNotFound
           \<or> (case activeLock fs u p of
                Some lk \<Rightarrow> \<not> lockHeaderHasToken (lrToken req) (mlToken lk) \<and> err = ErrLocked
              | None \<Rightarrow> lrRefresh req \<and> err = ErrPrecondition \<or> rnd = Inl err))
    | Inr info \<Rightarrow> treeOf fs u p \<noteq> None
        \<and> (\<exists>lk. activeLock fs' u p = Some lk \<and> liToken info = mlToken lk
             \<and> mlTimeout lk = fsClock fs + clampTimeout (lrTimeout req)
             \<and> liTimeout info = clampTimeout (lrTimeout req)
             \<and> (\<forall>v q. \<not> (v = u \<and> q = p) \<longrightarrow> activeLock fs' v q = activeLock fs v q)
             \<and> (case activeLock fs u p of
                  Some old \<Rightarrow> lockHeaderHasToken (lrToken req) (mlToken old) \<and> mlToken lk = mlToken old
                     \<and> mlDepthInfinity lk = mlDepthInfinity old
                | None \<Rightarrow> \<not> lrRefresh req \<and> mlDepthInfinity lk = lrDepthInfinity req
                     \<and> (\<exists>hex. rnd = Inr hex \<and> mlToken lk = ''opaquelocktoken:'' @ hex))))"
proof -
  obtain fs1 s where st: "Stat fs u p = (fs1, s)" by (cases "Stat fs u p")
  note sl = Stat_locks [OF st] and np = normalizePath_clean(1) [OF assms(1)]
  note sr = Stat_tree [OF assms(1) st]
  let ?fs = "expireMemLockLocked fs1 u p (fsClock fs)"
  have act: "memLockLocked ?fs u p = activeLock fs u p" "\<And>v q. activeLock ?fs v q = activeLock fs v q"
    using memLock_expire_same [of fs1 u p] activeLock_expire [of fs1 u p] sl by simp_all
  show ?thesis
  proof (cases s)
    case (Inl err)
    then show ?thesis using assms(2) np st sl sr by (auto simp: Lock_def Let_def)
  next
    case (Inr e)
    then have ex: "treeOf fs u p \<noteq> None" using sr by auto
    show ?thesis
    proof (cases "activeLock fs u p")
      case None
      then show ?thesis
        using assms(2) np st sl Inr act ex clampTimeout_range [of "lrTimeout req"]
        by (auto simp: Lock_def Let_def randomLockToken_def activeLock_putLock memLockInfo_def
            split: sum.splits if_splits)
    next
      case (Some lk)
      then show ?thesis
        using assms(2) np st sl Inr act ex clampTimeout_range [of "lrTimeout req"]
        by (auto simp: Lock_def Let_def activeLock_putLock memLockInfo_def split: if_splits)
    qed
  qed
qed

lemma guardOf_self: "activeLock fs u p = Some lk \<Longrightarrow> guardOf fs u p = Some lk"
  by (simp add: guardOf_def lockChain.simps [of p] covering_def)

text \<open>
  Locks are exclusive: while a resource carries an active lock, a \<open>LOCK\<close> request without its token
  is refused with \<open>ErrLocked\<close> and leaves every active lock as it was; conversely every granted
  request either found the resource unlocked or presented the token, and the granted lock is
  active for the clamped timeout and guards the resource against every header that lacks its
  token.
\<close>

theorem lock_exclusive:
  assumes "clean_path p" and "Lock fs u p req rnd = (fs', r)"
  shows "(\<forall>lk. activeLock fs u p = Some lk \<and> \<not> lockHeaderHasToken (lrToken req) (mlToken lk)
            \<and> treeOf fs u p \<noteq> None \<longrightarrow> r = Inl ErrLocked \<and> activeLock fs' = activeLock fs)
    \<and> (\<forall>info. r = Inr info \<longrightarrow>
          (\<forall>lk. activeLock fs u p = Some lk \<longrightarrow> lockHeaderHasToken (lrToken req) (mlToken lk))
        \<and> 0 < liTimeout info \<and> liTimeout info \<le> maxLockTimeout
        \<and> (\<forall>h. snd (CheckLock fs' u p h) =
              (if lockHeaderHasToken h (liToken info) then Inr () else Inl ErrLocked)))"
proof (intro conjI allI impI)
  note lc = Lock_cases [OF assms]
  fix lk assume a: "activeLock fs u p = Some lk \<and> \<not> lockHeaderHasToken (lrToken req) (mlToken lk)
      \<and> treeOf fs u p \<noteq> None"
  with lc show "r = Inl ErrLocked" by (cases r) auto
  with lc show "activeLock fs' = activeLock fs" by (auto simp: fun_eq_iff)
next
  fix info assume r: "r = Inr info"
  then obtain lk where lk: "activeLock fs' u p = Some lk" "liToken info = mlToken lk"
    "liTimeout info = clampTimeout (lrTimeout req)"
    using Lock_cases [OF assms] by auto
  show "0 < liTimeout info" "liTimeout info \<le> maxLockTimeout"
    using lk(3) clampTimeout_range by auto
  show "snd (CheckLock fs' u p h) = (if lockHeaderHasToken h (liToken info) then Inr () else Inl ErrLocked)" for h
    using lk guardOf_self [OF lk(1)] normalizePath_clean(1) [OF assms(1)]
    by (simp add: CheckLock_guard lockVerdict_def)
  show "activeLock fs u p = Some lk \<Longrightarrow> lockHeaderHasToken (lrToken req) (mlToken lk)" for lk
    using Lock_cases [OF assms] r by auto
qed

definition demoLockReq :: "string \<Rightarrow> LockRequest" where
  "demoLockReq hdr = \<lparr>lrRefresh = False, lrOwner = ''o'', lrTimeout = 0, lrToken = hdr, lrDepthInfinity = True\<rparr>"

theorem lock_exclusive_witness:
  "\<exists>fs' info. Lock demoFS ''u'' ''/a'' (demoLockReq []) (Inr ''00'') = (fs', Inr info)
     \<and> snd (CheckLock fs' ''u'' ''/a'' []) = (if lockHeaderHasToken [] (liToken info) then Inr () else Inl ErrLocked)"
proof -
  obtain fs' r where l: "Lock demoFS ''u'' ''/a'' (demoLockReq []) (Inr ''00'') = (fs', r)"
    by (cases "Lock demoFS ''u'' ''/a'' (demoLockReq []) (Inr ''00'')")
  have "activeLock demoFS ''u'' ''/a'' = None" "treeOf demoFS ''u'' ''/a'' \<noteq> None"
    by (simp_all add: activeLock_def memLockLocked_def demoFS_def treeOf_def demoFiles_def)
  then obtain info where "r = Inr info"
    using Lock_cases [OF demo_clean(1) l] by (cases r) (auto simp: demoLockReq_def)
  then show ?thesis using lock_exclusive [OF demo_clean(1) l] l by blast
qed

section \<open>Locked collections\<close>

lemma parentPath_clean:
  assumes "clean_path q" shows "parentPath q = path_dir q"
proof -
  obtain segs s where q: "list_all plain_seg (segs @ [s])" "q = mkpath (segs @ [s])"
    using assms by (rule clean_pathE)
  have s: "s \<noteq> []" "last s \<noteq> CHR ''/''" "CHR ''/'' \<notin> set s"
    using q(1) by (auto simp: plain_seg_def dest: last_in_set)
  have eq: "q = mkpath segs @ CHR ''/'' # s" using q(2) by simp
  have "\<not> has_suffix q ''/''" using s eq by (auto simp: has_suffix_iff) (metis last.simps last_appendR list.simps(3) last_snoc)
  then have t: "trim_suffix q ''/'' = q" by (simp add: trim_suffix_def)
  have li: "last_index_byte q (CHR ''/'') = Some (length (mkpath segs))"
    unfolding eq using s(3) by (rule last_index_mkpath)
  have d: "path_dir q = (if segs = [] then ''/'' else mkpath segs)"
    using path_dir_mkpath [OF q(1)] q(2) by simp
  have "segs \<noteq> [] \<Longrightarrow> 0 < length (mkpath segs)" by (cases segs) auto
  moreover have "q \<noteq> []" "q \<noteq> ''/''" using eq normalizePath_clean(2) [OF assms] by auto
  ultimately show ?thesis using t li d eq by (auto simp: parentPath_def Let_def)
qed

lemma lockChain_below:
  assumes "clean_path p" and "clean_path q" and "below p q"
  shows "p \<in> set (lockChain q)"
  using assms(2,3)
proof (induction "length q" arbitrary: q rule: less_induct)
  case less
  have up: "path_dir q = p \<or> below p (path_dir q)" and nr: "path_dir q \<noteq> ''/''"
    using below_path_dir [OF assms(1) less.prems] by auto
  have pd: "clean_path (path_dir q)" "length (path_dir q) < length q"
    using path_dir_clean [OF less.prems(1) nr] below_length by auto
  have "p \<in> set (lockChain (path_dir q))"
    using up less.hyps [OF pd(2,1)] by (auto simp: lockChain.simps [of "path_dir q"])
  then show ?case
    using parentPath_clean [OF less.prems(1)] normalizePath_clean(2) [OF less.prems(1)]
    by (simp add: lockChain.simps [of q])
qed

lemma nearest_found:
  "p \<in> set ps \<Longrightarrow> f p \<noteq> None \<Longrightarrow> \<exists>p'. f p' \<noteq> None \<and> nearest f ps = f p'"
  by (induction ps) (auto split: option.splits)

lemma guardOf_below:
  assumes "clean_path p" and "clean_path q" and "below p q"
    and "activeLock fs u p = Some lk" and "mlDepthInfinity lk"
  shows "\<exists>p' lk'. activeLock fs u p' = Some lk' \<and> guardOf fs u q = Some lk'"
proof -
  have cov: "covering fs u q p \<noteq> None" using assms(4,5) by (simp add: covering_def)
  obtain p' where "guardOf fs u q = covering fs u q p'" "covering fs u q p' \<noteq> None"
    using nearest_found [OF lockChain_below [OF assms(1-3)], of "covering fs u q"] cov
    by (auto simp: guardOf_def)
  then show ?thesis by (auto simp: covering_def split: option.splits if_splits)
qed

text \<open>
  A depth-infinity lock protects the whole collection: for every resource below the locked
  collection, a request whose \<open>If\<close> header carries none of the tokens of the active locks of that
  user is refused by \<open>CheckLock\<close>.
\<close>

theorem collection_lock_protects:
  assumes "clean_path p" and "clean_path q" and "below p q"
    and "activeLock fs u p = Some lk" and "mlDepthInfinity lk"
    and "\<And>p' lk'. activeLock fs u p' = Some lk' \<Longrightarrow> \<not> lockHeaderHasToken h (mlToken lk')"
  shows "snd (CheckLock fs u q h) = Inl ErrLocked"
  using guardOf_below [OF assms(1-5)] assms(6) normalizePath_clean(1) [OF assms(2)]
  by (auto simp: CheckLock_guard lockVerdict_def)

definition demoLocked :: InMemoryFS where
  "demoLocked = putLock demoFS ''u'' ''/a''
     \<lparr>mlToken = ''opaquelocktoken:00'', mlOwner = ''o'', mlTimeout = 5, mlCreated = 0, mlDepthInfinity = True\<rparr>"

lemma demoLocked_active:
  "activeLock demoLocked ''u'' p = (if p = ''/a'' then Some \<lparr>mlToken = ''opaquelocktoken:00'', mlOwner = ''o'',
     mlTimeout = 5, mlCreated = 0, mlDepthInfinity = True\<rparr> else None)"
  by (simp add: demoLocked_def activeLock_putLock) (simp add: activeLock_def memLockLocked_def demoFS_def)

theorem collection_lock_protects_witness:
  "snd (CheckLock demoLocked ''u'' ''/a/f'' []) = Inl ErrLocked"
proof -
  have nt: "\<not> lockHeaderHasToken [] ''opaquelocktoken:00''" by code_simp
  show ?thesis
    by (rule collection_lock_protects [OF demo_clean(1,2)])
      (use nt in \<open>auto simp: below_def demoLocked_active split: if_splits\<close>)
qed

text \<open>
  \<open>Unlock\<close> needs the token: it succeeds exactly on an existing resource whose active lock has the
  presented token, and then removes that lock and no other; in every other case the active
  locks do not change.
\<close>

theorem unlock_correct:
  assumes "clean_path p" and "Unlock fs u p token = (fs', r)"
  shows "(r = Inr () \<longleftrightarrow> treeOf fs u p \<noteq> None \<and>
            (\<exists>lk. activeLock fs u p = Some lk \<and> mlToken lk = StripLockToken token))
    \<and> activeLock fs' v q = (if r = Inr () \<and> v = u \<and> q = p then None else activeLock fs v q)"
proof -
  obtain fs1 s where st: "Stat fs u p = (fs1, s)" by (cases "Stat fs u p")
  note sl = Stat_locks [OF st] and np = normalizePath_clean(1) [OF assms(1)]
  note sr = Stat_tree(1) [OF assms(1) st]
  let ?fs = "expireMemLockLocked fs1 u p (fsClock fs)"
  have act: "memLockLocked ?fs u p = activeLock fs u p" "\<And>v q. activeLock ?fs v q = activeLock fs v q"
    using memLock_expire_same [of fs1 u p] activeLock_expire [of fs1 u p] sl by simp_all
  have del: "activeLock (updLocks ?fs u (AList.delete p)) v q = (if v = u \<and> q = p then None else activeLock ?fs v q)" for v q
    by (auto simp: activeLock_def memLock_delete split: option.split)
  show ?thesis
  proof (cases s)
    case (Inl err)
    then show ?thesis using assms(2) np st sl sr by (auto simp: Unlock_def Let_def)
  next
    case (Inr e)
    then show ?thesis using assms(2) np st sl sr act del
      by (cases "activeLock fs u p") (auto simp: Unlock_def Let_def split: if_splits)
  qed
qed

theorem unlock_correct_witness:
  "activeLock (fst (Unlock demoLocked ''u'' ''/a'' ''<opaquelocktoken:00>'')) ''u'' ''/a'' = None"
proof -
  obtain fs' r where ul: "Unlock demoLocked ''u'' ''/a'' ''<opaquelocktoken:00>'' = (fs', r)"
    by (cases "Unlock demoLocked ''u'' ''/a'' ''<opaquelocktoken:00>''")
  have "StripLockToken ''<opaquelocktoken:00>'' = ''opaquelocktoken:00''" by code_simp
  moreover have "treeOf demoLocked ''u'' ''/a'' \<noteq> None"
    by (simp add: demoLocked_def demo_tree demoFiles_def)
  ultimately show ?thesis
    using unlock_correct [OF demo_clean(1) ul, of "''u''" "''/a''"] ul by (simp add: demoLocked_active)
qed

end
