(* ===== verification/Webdav_Service.thy ===== *)
theory Webdav_Service
  imports Webdav_Handler Webdav_MemLock
begin

text \<open>
  The contract between the WebDAV handler and the file system behind it, and its consequences
  for every request. The locale \<open>dav_service\<close> states what each operation of the \<open>FS\<close> interface
  and of its optional extensions promises about a view of the users' files; its lemmas say what
  \<open>ServeHTTP\<close> then guarantees. \<open>dav_locking\<close> adds the promise of \<open>LockFS\<close>. Both are interpreted on
  \<open>InMemoryFS\<close>.
\<close>

section \<open>Operation contracts\<close>

text \<open>An operation that changes no file at all.\<close>

definition pure_op :: "('s \<Rightarrow> string \<Rightarrow> 'f) \<Rightarrow> ('s \<Rightarrow> 's \<times> 'a) \<Rightarrow> bool" where
  "pure_op files f \<longleftrightarrow> (\<forall>s. files (fst (f s)) = files s)"

text \<open>
  An operation on behalf of user \<open>u\<close>: it changes no file of another user, and no file at all when
  it returns an error (a panic is not a return).
\<close>

definition tidy_op :: "('s \<Rightarrow> string \<Rightarrow> 'f) \<Rightarrow> string \<Rightarrow> ('s \<Rightarrow> 's \<times> 'a result) \<Rightarrow> bool" where
  "tidy_op files u f \<longleftrightarrow> (\<forall>s. (\<forall>v. v \<noteq> u \<longrightarrow> files (fst (f s)) v = files s v)
     \<and> (\<forall>e. snd (f s) = Inl e \<and> e \<noteq> Panic \<longrightarrow> files (fst (f s)) = files s))"

text \<open>The corresponding promise of a request handler.\<close>

definition tidy_serve :: "('s \<Rightarrow> string \<Rightarrow> 'f) \<Rightarrow> Request \<Rightarrow> 's \<Rightarrow> 's \<times> outcome \<Rightarrow> bool" where
  "tidy_serve files r s res \<longleftrightarrow>
     (\<forall>v. reqUser r \<noteq> Some v \<longrightarrow> files (fst res) v = files s v)
   \<and> (\<forall>resp. snd res = Responded resp \<and> 400 \<le> rsStatus resp \<longrightarrow> files (fst res) = files s)"

lemma pure_opD: "pure_op files f \<Longrightarrow> f s = (s', x) \<Longrightarrow> files s' = files s"
  by (auto simp: pure_op_def dest: spec [of _ s])

lemma tidy_op_other: "tidy_op files u f \<Longrightarrow> f s = (s', x) \<Longrightarrow> v \<noteq> u \<Longrightarrow> files s' v = files s v"
  by (auto simp: tidy_op_def dest: spec [of _ s])

lemma tidy_op_error: "tidy_op files u f \<Longrightarrow> f s = (s', Inl e) \<Longrightarrow> e \<noteq> Panic \<Longrightarrow> files s' = files s"
  by (auto simp: tidy_op_def dest: spec [of _ s])

lemma tidy_serve_pure: "files s' = files s \<Longrightarrow> tidy_serve files r s (s', out)"
  by (simp add: tidy_serve_def)

lemma writeFSError_status:
  "writeFSError e = Responded resp \<Longrightarrow> e \<noteq> Panic \<and> 400 \<le> rsStatus resp"
  "writeMoveCopyErr e = Responded resp \<Longrightarrow> e \<noteq> Panic \<and> 400 \<le> rsStatus resp"
  by (auto simp: writeFSError_def writeMoveCopyErr_def httpError_def split: fs_error.splits if_splits)

lemma writeFSError_total: "(\<exists>resp. writeFSError e = Responded resp) \<longleftrightarrow> e \<noteq> Panic"
  by (auto simp: writeFSError_def httpError_def split: fs_error.splits)

lemma authorizePath_user: "authorizePath h r = Inr (u, sub) \<Longrightarrow> reqUser r = Some u"
  by (auto simp: authorizePath_def split: if_splits option.splits prod.splits)

text \<open>
  Rules that follow the control flow of a handler. The current state agrees with the first one
  on the files until an operation of the user changes them, and that operation ends the request.
\<close>

lemma tidy_if:
  "(c \<Longrightarrow> tidy_serve files r s A) \<Longrightarrow> (\<not> c \<Longrightarrow> tidy_serve files r s B) \<Longrightarrow> tidy_serve files r s (if c then A else B)"
  by simp

lemma tidy_option:
  "(x = None \<Longrightarrow> tidy_serve files r s A) \<Longrightarrow> (\<And>y. x = Some y \<Longrightarrow> tidy_serve files r s (B y))
   \<Longrightarrow> tidy_serve files r s (case x of None \<Rightarrow> A | Some y \<Rightarrow> B y)"
  by (cases x) auto

lemma tidy_sum:
  "(\<And>e. x = Inl e \<Longrightarrow> tidy_serve files r s (A e)) \<Longrightarrow> (\<And>y. x = Inr y \<Longrightarrow> tidy_serve files r s (B y))
   \<Longrightarrow> tidy_serve files r s (case x of Inl e \<Rightarrow> A e | Inr y \<Rightarrow> B y)"
  by (cases x) auto

lemma tidy_auth:
  "(\<And>u p. reqUser r = Some u \<Longrightarrow> authorizePath h r = Inr (u, p) \<Longrightarrow> tidy_serve files r s (B u p))
   \<Longrightarrow> tidy_serve files r s (case authorizePath h r of Inl out \<Rightarrow> (s, out) | Inr (u, p) \<Rightarrow> B u p)"
  by (auto simp: tidy_serve_pure authorizePath_user split: sum.splits)

lemma tidy_stop:
  "(\<And>s2 y. x = (s2, y) \<Longrightarrow> files s2 = files s)
   \<Longrightarrow> (\<And>s2. x = (s2, None) \<Longrightarrow> files s2 = files s \<Longrightarrow> tidy_serve files r s (B s2))
   \<Longrightarrow> tidy_serve files r s (case x of (s2, Some out) \<Rightarrow> (s2, out) | (s2, None) \<Rightarrow> B s2)"
  by (cases x) (auto simp: tidy_serve_pure split: option.splits)

lemma tidy_read:
  assumes "pure_op files f" and "files s1 = files s"
    and "\<And>s2 y. f s1 = (s2, Inr y) \<Longrightarrow> files s2 = files s \<Longrightarrow> tidy_serve files r s (B s2 y)"
  shows "tidy_serve files r s (case f s1 of (s2, Inl err) \<Rightarrow> (s2, writeFSError err) | (s2, Inr y) \<Rightarrow> B s2 y)"
  using assms pure_opD [OF assms(1), of s1] by (auto intro: tidy_serve_pure split: prod.splits sum.splits)

lemma tidy_final:
  assumes "tidy_op files u f" and "files s1 = files s" and "reqUser r = Some u" and "f s1 = (s2, res)"
    and "\<And>e resp. res = Inl e \<Longrightarrow> out = Responded resp \<Longrightarrow> e \<noteq> Panic"
    and "\<And>y resp. res = Inr y \<Longrightarrow> out = Responded resp \<Longrightarrow> rsStatus resp < 400"
  shows "tidy_serve files r s (s2, out)"
proof -
  have "files s2 = files s" if "out = Responded resp" "400 \<le> rsStatus resp" for resp
    using assms(2,4,5,6) that tidy_op_error [OF assms(1), of s1 s2] by (cases res) fastforce+
  then show ?thesis using tidy_op_other [OF assms(1,4)] assms(2,3) by (auto simp: tidy_serve_def)
qed

lemma tidy_write:
  assumes "tidy_op files u f" and "files s1 = files s" and "reqUser r = Some u"
    and "\<And>y resp. B y = Responded resp \<Longrightarrow> rsStatus resp < 400"
  shows "tidy_serve files r s (case f s1 of (s2, Inl err) \<Rightarrow> (s2, writeFSError err) | (s2, Inr y) \<Rightarrow> (s2, B y))"
  by (auto split: prod.split sum.split intro!: tidy_final [OF assms(1-3)] dest: writeFSError_status assms(4))

lemma tidy_write_pair:
  assumes "tidy_op files u f" and "files s1 = files s" and "reqUser r = Some u"
    and "\<And>y z resp. B y z = Responded resp \<Longrightarrow> rsStatus resp < 400"
  shows "tidy_serve files r s
    (case f s1 of (s2, Inl err) \<Rightarrow> (s2, writeFSError err) | (s2, Inr (y, z)) \<Rightarrow> (s2, B y z))"
  by (auto split: prod.split sum.split intro!: tidy_final [OF assms(1-3)] dest: writeFSError_status assms(4))

lemma tidy_moveCopy:
  assumes "tidy_op files u f" and "files s1 = files s" and "reqUser r = Some u"
  shows "tidy_serve files r s (moveCopyReply h (f s1))"
  by (auto simp: moveCopyReply_def reply_def split: prod.split sum.split
      intro!: tidy_final [OF assms] dest: writeFSError_status)

lemma reply_status: "reply code hdrs body = Responded resp \<Longrightarrow> rsStatus resp = code"
  by (auto simp: reply_def)

section \<open>The service contract\<close>

locale dav_service =
  fixes h :: "'s Handler" and files :: "'s \<Rightarrow> string \<Rightarrow> 'f"
  assumes stat_ok: "pure_op files (\<lambda>s. fsStat (hFS h) s u p)"
    and list_ok: "pure_op files (\<lambda>s. fsList (hFS h) s u p)"
    and read_ok: "pure_op files (\<lambda>s. fsRead (hFS h) s u p)"
    and write_ok: "tidy_op files u (\<lambda>s. fsWrite (hFS h) s u p b mt)"
    and mkdir_ok: "tidy_op files u (\<lambda>s. fsMkdir (hFS h) s u p)"
    and remove_ok: "tidy_op files u (\<lambda>s. fsRemove (hFS h) s u p)"
    and move_ok: "tidy_op files u (\<lambda>s. fsMove (hFS h) s u p u q ow)"
    and copy_ok: "tidy_op files u (\<lambda>s. fsCopy (hFS h) s u p u q ow deep)"
    and lockfs_ok: "asLockFS (hFS h) = Some lf \<Longrightarrow> pure_op files (\<lambda>s. lfLock lf s u p req)"
      "asLockFS (hFS h) = Some lf \<Longrightarrow> pure_op files (\<lambda>s. lfUnlock lf s u p tok)"
      "asLockFS (hFS h) = Some lf \<Longrightarrow> pure_op files (\<lambda>s. lfCheckLock lf s u p hdr)"
    and patch_ok: "asPropPatchFS (hFS h) = Some pf \<Longrightarrow> tidy_op files u (\<lambda>s. pf s u p ops)"
    and condwrite_ok: "asCondWriteFS (hFS h) = Some cw \<Longrightarrow> tidy_op files u (\<lambda>s. cw s u p b mt c)"
    and metamkdir_ok: "asMetaMkdirFS (hFS h) = Some mm \<Longrightarrow> tidy_op files u (\<lambda>s. mm s u p meta)"
    and report_ok: "asReportFS (hFS h) = Some rf \<Longrightarrow> pure_op files (\<lambda>s. rf s u p rq)"
      "asRawReportFS (hFS h) = Some rr \<Longrightarrow> pure_op files (\<lambda>s. rr s u p rq)"
    and share_ok: "asShareFS (hFS h) = Some sf \<Longrightarrow> tidy_op files u (\<lambda>s. sf s u p bd)"
    and mkcal_ok: "asCalendarMkdirFS (hFS h) = Some mc \<Longrightarrow> tidy_op files u (\<lambda>s. mc s u p props)"
    and assemble_ok: "hAssemble h = Some af \<Longrightarrow> tidy_op files u (\<lambda>s. af s u tid u q ow mt ck ih)"
    and restore_ok: "hRestore h = Some rs \<Longrightarrow> tidy_op files u (\<lambda>s. rs s u loc u q ow)"
    and restoreVersion_ok: "hRestoreVersion h = Some rv \<Longrightarrow> tidy_op files u (\<lambda>s. rv s u fid revn u)"
begin

lemma checkLock_pure: "checkLock h r u p s = (s', x) \<Longrightarrow> files s' = files s"
  by (auto simp: checkLock_def dest: pure_opD [OF lockfs_ok(3)] split: option.splits prod.splits sum.splits)

lemma checkDestination_pure: "checkDestination h r u p s = (s', x) \<Longrightarrow> files s' = files s"
  using checkLock_pure pure_opD [OF stat_ok, of s u p]
  by (fastforce simp: checkDestination_def split: prod.splits sum.splits)

lemma propfind_tidy: "tidy_serve files r s (propfind h r s)"
  unfolding propfind_def Let_def
  apply (rule tidy_auth)
  apply (rule tidy_read [OF stat_ok refl])
  apply (auto intro!: tidy_serve_pure dest: pure_opD [OF list_ok] split: sum.splits prod.splits if_splits)
  done

lemma get_tidy: "tidy_serve files r s (get h r b s)"
  unfolding get_def by (intro tidy_auth tidy_read [OF read_ok refl]) (auto intro: tidy_serve_pure)

lemma lock_tidy: "tidy_serve files r s (lock env h r s)"
  unfolding lock_def Let_def
  by (rule tidy_auth | rule tidy_option | rule tidy_if | rule tidy_read [OF lockfs_ok(1) refl], assumption
      | rule tidy_serve_pure, simp | rule tidy_sum)+

lemma unlock_tidy: "tidy_serve files r s (unlock h r s)"
  unfolding unlock_def Let_def
  by (rule tidy_auth | rule tidy_option | rule tidy_if | rule tidy_read [OF lockfs_ok(2) refl], assumption
      | rule tidy_serve_pure, simp | rule tidy_sum)+

lemma rawReport_pure: "rawReport h u p rq s = (s', x) \<Longrightarrow> files s' = files s"
  by (cases "asRawReportFS (hFS h)")
    (auto simp: rawReport_def dest: pure_opD [OF report_ok(2)] split: prod.splits sum.splits)

lemma report_tidy: "tidy_serve files r s (report env h r s)"
  unfolding report_def Let_def
  by (rule tidy_auth | rule tidy_option | rule tidy_if | rule tidy_stop, erule rawReport_pure
      | rule tidy_read [OF report_ok(1)], assumption, assumption
      | rule tidy_serve_pure, simp; fail | rule tidy_sum)+

lemma postShare_tidy: "tidy_serve files r s (postShare h r s)"
  unfolding postShare_def
  by (rule tidy_auth | rule tidy_option | rule tidy_write [OF share_ok refl], assumption, assumption
      | drule reply_status, simp | rule tidy_serve_pure, simp; fail | rule tidy_sum)+

lemma mkcalendar_tidy: "tidy_serve files r s (mkcalendar env h r s)"
  unfolding mkcalendar_def
  by (rule tidy_auth | rule tidy_write [OF mkcal_ok refl], assumption, assumption
      | drule reply_status, simp | rule tidy_option | rule tidy_serve_pure, simp; fail)+

lemma delete_tidy: "tidy_serve files r s (delete h r s)"
  unfolding delete_def
  by (rule tidy_auth | rule tidy_if | rule tidy_stop, erule checkLock_pure
      | rule tidy_write [OF remove_ok], assumption, assumption
      | drule reply_status, simp | rule tidy_serve_pure, simp; fail)+

lemma writeCondLegacy_ok: "tidy_op files u (writeCondLegacy h u p b mt c)"
  unfolding tidy_op_def
proof (intro allI conjI impI)
  fix s
  obtain s1 st where st: "fsStat (hFS h) s u p = (s1, st)" by (cases "fsStat (hFS h) s u p")
  have s1: "files s1 = files s" using pure_opD [OF stat_ok st] .
  obtain s2 w where w: "fsWrite (hFS h) s1 u p b mt = (s2, w)" by (cases "fsWrite (hFS h) s1 u p b mt")
  have run: "writeCondLegacy h u p b mt c s = (s2, w) \<or> (\<exists>e. writeCondLegacy h u p b mt c s = (s1, Inl e))"
    using st w by (auto simp: writeCondLegacy_def split: sum.splits option.splits)
  show "files (fst (writeCondLegacy h u p b mt c s)) v = files s v" if "v \<noteq> u" for v
    using run tidy_op_other [OF write_ok w that] s1 by auto
  show "files (fst (writeCondLegacy h u p b mt c s)) = files s"
    if "snd (writeCondLegacy h u p b mt c s) = Inl e \<and> e \<noteq> Panic" for e
    using run that w tidy_op_error [OF write_ok, of s1 u p b mt s2 e] s1 by auto
qed

lemma putWrite_ok: "tidy_op files u (putWrite h r u p)"
  by (cases "condOf r"; cases "asCondWriteFS (hFS h)")
    (simp_all add: putWrite_def [abs_def] write_ok writeCondLegacy_ok condwrite_ok)

lemma put_tidy: "tidy_serve files r s (put h r s)"
  unfolding put_def
  by (rule tidy_auth | rule tidy_if | rule tidy_stop, erule checkLock_pure
      | rule tidy_write_pair [OF putWrite_ok], assumption, assumption
      | drule reply_status, simp split: if_splits | rule tidy_serve_pure, simp; fail)+

lemma mkdir_either_ok:
  "tidy_op files u (\<lambda>s. case asMetaMkdirFS (hFS h) of Some mm \<Rightarrow> mm s u p meta | None \<Rightarrow> fsMkdir (hFS h) s u p)"
  by (cases "asMetaMkdirFS (hFS h)") (simp_all add: mkdir_ok metamkdir_ok)

lemma mkcol_tidy: "tidy_serve files r s (mkcol env h r s)"
  unfolding mkcol_def
  by (rule tidy_auth | rule tidy_if | rule tidy_stop, erule checkLock_pure
      | rule tidy_write [OF mkdir_either_ok], assumption, assumption
      | drule reply_status, simp | rule tidy_serve_pure, simp; fail)+

lemma proppatch_tidy: "tidy_serve files r s (proppatch env h r s)"
  unfolding proppatch_def Let_def
  by (rule tidy_auth | rule tidy_if | rule tidy_stop, erule checkLock_pure
      | rule tidy_write [OF patch_ok], assumption, assumption, assumption
      | drule reply_status, simp | rule tidy_serve_pure, simp; fail | rule tidy_option)+

lemma restoreVersionMove_tidy:
  assumes "reqUser r = Some u" and "restoreVersionMove env h r u p s = Some res"
  shows "tidy_serve files r s res"
proof (cases "hRestoreVersion h")
  case (Some f)
  show ?thesis
    using assms(2) by (auto simp: restoreVersionMove_def Some intro!: tidy_serve_pure assms(1)
        tidy_moveCopy [OF restoreVersion_ok [OF Some]] split: option.splits sum.splits if_splits)
qed (use assms(2) in \<open>simp add: restoreVersionMove_def\<close>)

lemma restoreMove_tidy:
  assumes "reqUser r = Some u" and "restoreMove env h r u p s = Some res"
  shows "tidy_serve files r s res"
proof (cases "hRestore h")
  case (Some f)
  show ?thesis
    using assms(2) by (auto simp: restoreMove_def Some intro!: tidy_serve_pure assms(1)
        tidy_moveCopy [OF restore_ok [OF Some]] split: option.splits sum.splits if_splits)
qed (use assms(2) in \<open>simp add: restoreMove_def\<close>)

lemma assembleMove_tidy:
  assumes "reqUser r = Some u" and "assembleMove env h r u p s = Some res"
  shows "tidy_serve files r s res"
proof (cases "hAssemble h")
  case (Some f)
  show ?thesis
    using assms(2) by (auto simp: assembleMove_def Some intro!: tidy_serve_pure assms(1)
        tidy_moveCopy [OF assemble_ok [OF Some]] split: option.splits sum.splits if_splits)
qed (use assms(2) in \<open>simp add: assembleMove_def\<close>)

lemma plainMoveOrCopy_tidy:
  assumes "reqUser r = Some u"
  shows "tidy_serve files r s (plainMoveOrCopy env h r isCopy u p s)"
proof (cases "\<exists>q. parseDestination env h r = Inr (u, q) \<and> q \<noteq> ''/''")
  case True
  then obtain q where d: "parseDestination env h r = Inr (u, q)" "q \<noteq> ''/''" by blast
  show ?thesis
    by (simp add: plainMoveOrCopy_def d Let_def)
      (safe; (rule tidy_stop, erule checkLock_pure)?, rule tidy_stop;
        (auto dest!: checkDestination_pure intro!: tidy_moveCopy [OF copy_ok] tidy_moveCopy [OF move_ok] assms))
next
  case False
  then show ?thesis
    by (auto simp: plainMoveOrCopy_def intro!: tidy_serve_pure split: sum.splits)
qed

lemma moveOrCopy_tidy: "tidy_serve files r s (moveOrCopy env h r isCopy s)"
  unfolding moveOrCopy_def
  by (rule tidy_auth | rule tidy_if | rule plainMoveOrCopy_tidy, assumption
      | rule tidy_option | rule restoreVersionMove_tidy restoreMove_tidy assembleMove_tidy, assumption, assumption | rule tidy_serve_pure, simp; fail)+

theorem serve_tidy: "tidy_serve files r s (ServeHTTP env h r s)"
  unfolding ServeHTTP_def Let_def
  by (intro tidy_if propfind_tidy get_tidy put_tidy mkcol_tidy delete_tidy moveOrCopy_tidy proppatch_tidy
      lock_tidy unlock_tidy report_tidy mkcalendar_tidy postShare_tidy tidy_serve_pure refl)

end

section \<open>Locking\<close>

text \<open>
  \<open>guarded s u p hdr\<close> says that the resource is protected against a request with the \<open>If\<close> header
  \<open>hdr\<close>. The lemmas hold for handlers without the special MOVE sources.
\<close>

locale dav_locking = dav_service +
  fixes lf :: "'a LockFS" and guarded :: "'a \<Rightarrow> string \<Rightarrow> string \<Rightarrow> string \<Rightarrow> bool"
  assumes locking: "asLockFS (hFS h) = Some lf"
    and verdict: "snd (lfCheckLock lf s u p hdr) = (if guarded s u p hdr then Inl ErrLocked else Inr ())"
begin

lemma checkLock_guarded:
  assumes "guarded s u p (headerGet r ''If'')"
  shows "snd (checkLock h r u p s) = Some (httpError [] ''Locked'' 423)"
  using assms verdict [of s u p "headerGet r ''If''"]
  by (auto simp: checkLock_def locking writeFSError_def split: prod.splits sum.splits)

lemma checkLock_unguarded:
  assumes "\<not> guarded s u p (headerGet r ''If'')"
  shows "snd (checkLock h r u p s) = None"
  using assms verdict [of s u p "headerGet r ''If''"]
  by (auto simp: checkLock_def locking split: prod.splits sum.splits)

lemma locked_write:
  assumes "authorizePath h r = Inr (u, p)" and "guarded s u p (headerGet r ''If'')"
    and "reqMethod r = ''PUT'' \<or> reqMethod r = ''DELETE'' \<and> p \<noteq> ''/''"
  shows "snd (ServeHTTP env h r s) = httpError [] ''Locked'' 423"
  using assms checkLock_guarded [OF assms(2)]
  by (auto simp: ServeHTTP_def put_def delete_def split: prod.splits)

lemma locked_change:
  assumes "authorizePath h r = Inr (u, p)" and "guarded s u p (headerGet r ''If'')"
    and "hRestoreVersion h = None" and "hRestore h = None" and "hAssemble h = None"
    and "reqMethod r \<in> {''PUT'', ''DELETE'', ''MKCOL'', ''PROPPATCH'', ''MOVE''}"
  shows "\<exists>resp. snd (ServeHTTP env h r s) = Responded resp \<and> 400 \<le> rsStatus resp
    \<and> files (fst (ServeHTTP env h r s)) = files s"
proof -
  have "\<exists>resp. snd (ServeHTTP env h r s) = Responded resp \<and> 400 \<le> rsStatus resp"
    using assms checkLock_guarded [OF assms(2)]
    by (auto simp: ServeHTTP_def put_def delete_def mkcol_def proppatch_def moveOrCopy_def httpError_def
        restoreVersionMove_def restoreMove_def assembleMove_def plainMoveOrCopy_def
        split: prod.splits sum.splits option.splits)
  with serve_tidy [of r s env] show ?thesis by (auto simp: tidy_serve_def)
qed

end

section \<open>The in-memory file system behind the handler\<close>

definition memLockFS :: "string result \<Rightarrow> InMemoryFS LockFS" where
  "memLockFS rnd = \<lparr>lfLock = (\<lambda>fs u p req. Lock fs u p req rnd), lfUnlock = Unlock, lfCheckLock = CheckLock\<rparr>"

definition someEntry :: "'s \<times> (Entry \<times> bool) result \<Rightarrow> 's \<times> (Entry option \<times> bool) result" where
  "someEntry x = (case x of (s, Inl e) \<Rightarrow> (s, Inl e) | (s, Inr (e, created)) \<Rightarrow> (s, Inr (Some e, created)))"

text \<open>The methods of \<open>InMemoryFS\<close>: it implements \<open>FS\<close>, \<open>LockFS\<close> and \<open>PropPatchFS\<close>.\<close>

definition memFS :: "(string \<Rightarrow> string) \<Rightarrow> string result \<Rightarrow> InMemoryFS FS" where
  "memFS sha1hex rnd = \<lparr>fsStat = Stat, fsList = List, fsRead = Read, fsWrite = Write sha1hex,
     fsMkdir = Mkdir sha1hex, fsRemove = Remove,
     fsMove = (\<lambda>fs u p v q ow. someEntry (Move sha1hex fs u p v q ow)),
     fsCopy = (\<lambda>fs u p v q ow deep. someEntry (Copy sha1hex fs u p v q ow deep)),
     asLockFS = Some (memLockFS rnd), asPropPatchFS = Some PatchProps, asCondWriteFS = None,
     asMetaMkdirFS = None, asReportFS = None, asRawReportFS = None, asShareFS = None,
     asCalendarMkdirFS = None\<rparr>"

text \<open>A handler over it, with any configuration but without the hooks for uploads and trash.\<close>

definition memHandler ::
  "InMemoryFS Handler \<Rightarrow> (string \<Rightarrow> string) \<Rightarrow> string result \<Rightarrow> InMemoryFS Handler" where
  "memHandler cfg sha1hex rnd =
     cfg\<lparr>hFS := memFS sha1hex rnd, hAssemble := None, hRestore := None, hRestoreVersion := None\<rparr>"

lemma memHandler_sel [simp]:
  "hFS (memHandler cfg sha rnd) = memFS sha rnd" "hAssemble (memHandler cfg sha rnd) = None"
  "hRestore (memHandler cfg sha rnd) = None" "hRestoreVersion (memHandler cfg sha rnd) = None"
  "hPrefix (memHandler cfg sha rnd) = hPrefix cfg" "hOwnerUID (memHandler cfg sha rnd) = hOwnerUID cfg"
  "hInstanceID (memHandler cfg sha rnd) = hInstanceID cfg"
  by (simp_all add: memHandler_def)

lemma memFS_sel [simp]:
  "fsStat (memFS sha rnd) = Stat" "fsList (memFS sha rnd) = List" "fsRead (memFS sha rnd) = Read"
  "fsWrite (memFS sha rnd) = Write sha" "fsMkdir (memFS sha rnd) = Mkdir sha" "fsRemove (memFS sha rnd) = Remove"
  "fsMove (memFS sha rnd) fs u p v q ow = someEntry (Move sha fs u p v q ow)"
  "fsCopy (memFS sha rnd) fs u p v q ow deep = someEntry (Copy sha fs u p v q ow deep)"
  "asLockFS (memFS sha rnd) = Some (memLockFS rnd)" "asPropPatchFS (memFS sha rnd) = Some PatchProps"
  "asCondWriteFS (memFS sha rnd) = None" "asMetaMkdirFS (memFS sha rnd) = None"
  "asReportFS (memFS sha rnd) = None" "asRawReportFS (memFS sha rnd) = None"
  "asShareFS (memFS sha rnd) = None" "asCalendarMkdirFS (memFS sha rnd) = None"
  by (simp_all add: memFS_def)

text \<open>
  The view of a user's data: every node without the lock fields, which reads refresh, and the
  favourite flag of the root.
\<close>

definition bareNode :: "fileNode \<Rightarrow> fileNode" where
  "bareNode n = n\<lparr>fnEntry := (fnEntry n)\<lparr>eLockToken := [], eLockOwner := [], eLockTimeout := 0\<rparr>\<rparr>"

definition bareTree :: "userTree \<Rightarrow> int \<times> ftree" where
  "bareTree t = (eFavorite (utRoot t), \<lambda>p. map_option bareNode (map_of (utFiles t) p))"

definition dataOf :: "InMemoryFS \<Rightarrow> string \<Rightarrow> int \<times> ftree" where
  "dataOf fs u = (case map_of (fsUsers fs) u of None \<Rightarrow> (0, Map.empty) | Some t \<Rightarrow> bareTree t)"

lemma bareNode_lock [simp]:
  "bareNode (n\<lparr>fnEntry := applyMemLockLocked fs u p e\<rparr>) = bareNode (n\<lparr>fnEntry := e\<rparr>)"
  by (auto simp: bareNode_def applyMemLockLocked_def split: option.splits)

lemma favorite_lock [simp]: "eFavorite (applyMemLockLocked fs u p e) = eFavorite e"
  by (auto simp: applyMemLockLocked_def split: option.splits)

lemma dataOf_nextID [simp]: "dataOf (fs\<lparr>fsNextID := i\<rparr>) = dataOf fs"
  by (simp add: dataOf_def fun_eq_iff)

lemma dataOf_putTree: "dataOf (putTree fs u t) = (dataOf fs)(u := bareTree t)"
  by (auto simp: putTree_def dataOf_def update_conv' fun_eq_iff)

lemma bareTree_new: "bareTree \<lparr>utRoot = newRoot now i, utFiles = []\<rparr> = (0, Map.empty)"
  by (simp add: bareTree_def newRoot_def zeroEntry_def)

lemma dataOf_ensureUser:
  assumes "ensureUser fs u = (fs', t)"
  shows "dataOf fs' = dataOf fs" and "bareTree t = dataOf fs u"
proof -
  have "dataOf fs' = dataOf fs \<and> bareTree t = dataOf fs u"
  proof (cases "map_of (fsUsers fs) u")
    case None
    let ?t = "\<lparr>utRoot = newRoot (fsClock fs) (fsNextID fs), utFiles = []\<rparr>"
    have "fs' = putTree (fs\<lparr>fsNextID := (fsNextID fs + 1) mod 2 ^ 64\<rparr>) u ?t" "t = ?t"
      using assms None by (auto simp add: ensureUser_def allocID_def putTree_def Let_def)
    moreover have "dataOf fs u = (0, Map.empty)" using None by (simp add: dataOf_def)
    ultimately show ?thesis by (auto simp: dataOf_putTree bareTree_new fun_upd_idem)
  qed (use assms in \<open>simp add: ensureUser_def dataOf_def\<close>)
  then show "dataOf fs' = dataOf fs" and "bareTree t = dataOf fs u" by auto
qed

lemma dataOf_lock_ops [simp]:
  "dataOf (updLocks fs u f) = dataOf fs" "dataOf (putLock fs u p lk) = dataOf fs"
  "dataOf (expireMemLockLocked fs u p now) = dataOf fs" "dataOf (deleteMemLocksLocked fs u p) = dataOf fs"
  "dataOf (renameMemLocksLocked fs u p q) = dataOf fs"
  by (auto simp: dataOf_def updLocks_def putLock_def expireMemLockLocked_def deleteMemLocksLocked_def
      renameMemLocksLocked_def fun_eq_iff split: option.splits)

lemma dataOf_allocID: "allocID fs = (i, fs') \<Longrightarrow> dataOf fs' = dataOf fs"
  by (auto simp: allocID_def)

lemma bareTree_update:
  "bareTree (t\<lparr>utFiles := AList.update np n (utFiles t)\<rparr>) =
    (fst (bareTree t), (snd (bareTree t))(np \<mapsto> bareNode n))"
  by (auto simp: bareTree_def update_conv')

lemma bareTree_same:
  assumes "map_of (utFiles t) np = Some f" and "bareNode f' = bareNode f"
  shows "bareTree (t\<lparr>utFiles := AList.update np f' (utFiles t)\<rparr>) = bareTree t"
  using assms by (auto simp: bareTree_update) (auto simp: bareTree_def)

lemma map_of_refresh:
  "map_of (refreshChildren fs u np files) p = map_option (\<lambda>f. if path_dir p = np
     then f\<lparr>fnEntry := applyMemLockLocked fs u p (fnEntry f)\<rparr> else f) (map_of files p)"
  by (induction files) (auto simp: refreshChildren_def)

lemma bareTree_refresh: "bareTree (t\<lparr>utFiles := refreshChildren fs u np (utFiles t)\<rparr>) = bareTree t"
  by (auto simp: bareTree_def map_of_refresh option.map_comp fun_eq_iff comp_def intro!: option.map_cong)

lemma bareTree_root: "bareTree (t\<lparr>utRoot := applyMemLockLocked fs u p (utRoot t)\<rparr>) = bareTree t"
  by (simp add: bareTree_def)

text \<open>A write of the tree that \<open>ensureUser\<close> returned keeps the data when the bare tree is the same.\<close>

lemma dataOf_put_same:
  assumes "ensureUser fs u = (fs', t)"
  shows "bareTree t' = bareTree t \<Longrightarrow> dataOf (putTree fs' u t') = dataOf fs"
    and "bareTree (t\<lparr>utFiles := files\<rparr>) = bareTree t \<Longrightarrow> dataOf (putFiles fs' u t files) = dataOf fs"
  using dataOf_ensureUser [OF assms] by (simp_all add: dataOf_putTree putFiles_def fun_upd_idem)

lemma Stat_pure: "dataOf (fst (Stat fs u p)) = dataOf fs"
  by (auto simp: Stat_def Let_def dataOf_ensureUser bareTree_same dataOf_put_same bareTree_root split: prod.split option.split)

lemma List_pure: "dataOf (fst (List fs u p)) = dataOf fs"
  by (auto simp: List_def Let_def dataOf_ensureUser bareTree_refresh dataOf_put_same(2) split: prod.split option.split)

lemma Read_pure: "dataOf (fst (Read fs u p)) = dataOf fs"
  by (auto simp: Read_def Let_def dataOf_ensureUser split: prod.split option.split)

lemma Lock_pure: "dataOf (fst (Lock fs u p req rnd)) = dataOf fs"
  using Stat_pure [of fs u "normalizePath p"]
  by (auto simp: Lock_def Let_def split: prod.split sum.split option.split)

lemma Unlock_pure: "dataOf (fst (Unlock fs u p tok)) = dataOf fs"
  using Stat_pure [of fs u "normalizePath p"]
  by (auto simp: Unlock_def Let_def split: prod.split sum.split option.split)

lemma checkLockUp_pure: "dataOf (fst (checkLockUp fs u np h cur)) = dataOf fs"
  by (induction fs u np h cur rule: checkLockUp.induct)
    (subst checkLockUp.simps, auto simp: Let_def split: option.split)

lemma CheckLock_pure: "dataOf (fst (CheckLock fs u p h)) = dataOf fs"
  by (simp add: CheckLock_def checkLockUp_pure Let_def)

text \<open>Writes of the user's own tree keep the data of the others.\<close>

lemma dataOf_put_other:
  assumes "ensureUser fs u = (fs', t)" and "v \<noteq> u"
  shows "dataOf (putTree fs' u t') v = dataOf fs v" and "dataOf (putFiles fs' u t' files) v = dataOf fs v"
    and "dataOf (putFiles (fs'\<lparr>fsNextID := i\<rparr>) u t' files) v = dataOf fs v"
  using assms dataOf_ensureUser(1) [OF assms(1)] by (simp_all add: dataOf_putTree putFiles_def)

lemmas mem_tidy_simps = Let_def dataOf_ensureUser dataOf_put_other allocID_def

lemma Mkdir_tidy: "tidy_op dataOf u (\<lambda>fs. Mkdir sha fs u p)"
  unfolding tidy_op_def
  by (auto simp: Mkdir_def mem_tidy_simps split: prod.splits option.splits if_splits)

lemma Remove_tidy: "tidy_op dataOf u (\<lambda>fs. Remove fs u p)"
  unfolding tidy_op_def
  by (auto simp: Remove_def mem_tidy_simps split: prod.splits option.splits if_splits)

lemma PatchProps_tidy: "tidy_op dataOf u (\<lambda>fs. PatchProps fs u p ops)"
  unfolding tidy_op_def
  by (auto simp: PatchProps_def mem_tidy_simps split: prod.splits option.splits if_splits)

lemma writeCommit_tidy: "tidy_op dataOf u (\<lambda>fs. writeCommit sha fs u p b mt)"
  unfolding tidy_op_def
  by (auto simp: writeCommit_def mem_tidy_simps split: prod.splits option.splits if_splits)

lemma writeCheck_pure: "dataOf (fst (writeCheck fs u p)) = dataOf fs"
  by (auto simp: writeCheck_def mem_tidy_simps split: prod.split)

lemma Write_tidy: "tidy_op dataOf u (\<lambda>fs. Write sha fs u p b mt)"
  unfolding tidy_op_def
proof (intro allI)
  fix fs
  obtain fs1 c where c: "writeCheck fs u p = (fs1, c)" by (cases "writeCheck fs u p")
  have s: "dataOf fs1 = dataOf fs" using writeCheck_pure [of fs u p] c by simp
  have w: "fst (Write sha fs u p b mt) = fs1 \<or> (\<exists>body. Write sha fs u p b mt = writeCommit sha fs1 u p body mt)"
    using c by (auto simp: Write_def split: sum.splits)
  show "(\<forall>v. v \<noteq> u \<longrightarrow> dataOf (fst (Write sha fs u p b mt)) v = dataOf fs v)
    \<and> (\<forall>e. snd (Write sha fs u p b mt) = Inl e \<and> e \<noteq> Panic \<longrightarrow> dataOf (fst (Write sha fs u p b mt)) = dataOf fs)"
    using w s writeCommit_tidy [of u sha p _ mt] by (auto simp: tidy_op_def)
qed

lemma Move_tidy: "tidy_op dataOf u (\<lambda>fs. someEntry (Move sha fs u p u q ow))"
  unfolding tidy_op_def
  by (auto simp: someEntry_def Move_def mem_tidy_simps split: prod.splits sum.splits option.splits if_splits)

lemma Copy_tidy: "tidy_op dataOf u (\<lambda>fs. someEntry (Copy sha fs u p u q ow deep))"
  unfolding tidy_op_def
  by (auto simp: someEntry_def Copy_def mem_tidy_simps split: prod.splits sum.splits option.splits if_splits)

section \<open>Interpretation on InMemoryFS\<close>

definition memGuarded :: "InMemoryFS \<Rightarrow> string \<Rightarrow> string \<Rightarrow> string \<Rightarrow> bool" where
  "memGuarded fs u p hdr \<longleftrightarrow> (case guardOf fs u (normalizePath p) of
      None \<Rightarrow> False | Some lk \<Rightarrow> \<not> lockHeaderHasToken hdr (mlToken lk))"

interpretation mem: dav_service "memHandler cfg sha rnd" dataOf for cfg sha rnd
  by unfold_locales
    (auto simp: memLockFS_def Mkdir_tidy Remove_tidy Write_tidy Move_tidy Copy_tidy PatchProps_tidy
      pure_op_def Stat_pure List_pure Read_pure Lock_pure Unlock_pure CheckLock_pure)

interpretation memlock: dav_locking "memHandler cfg sha rnd" dataOf "memLockFS rnd" memGuarded for cfg sha rnd
  by unfold_locales
    (auto simp: memLockFS_def CheckLock_guard lockVerdict_def memGuarded_def split: option.split)

end
