(* ===== verification/Webdav_MemCopy.thy ===== *)
theory Webdav_MemCopy
  imports Webdav_MemTree
begin

text \<open>
  \<open>InMemoryFS.Copy\<close> (\<^verbatim>\<open>src/internal/webdav/fs.go\<close>): the copy of a subtree, deep or shallow, as a
  relation between the tree before and after. The file ids of the copies depend on the order
  in which the map is visited, so the copies are described up to their id.
\<close>

section \<open>Clones\<close>

definition cloned :: "(string \<Rightarrow> string) \<Rightarrow> int \<Rightarrow> string \<Rightarrow> fileNode \<Rightarrow> fileNode \<Rightarrow> bool" where
  "cloned sha mt p n m \<longleftrightarrow> (\<exists>i. m = \<lparr>fnEntry = (fnEntry n)\<lparr>ePath := p, eNumericID := i, eModTime := mt,
     eETag := ComputeETag sha (eSize (fnEntry n)) mt p\<rparr>, fnData = fnData n\<rparr>)"

lemma clonedD:
  assumes "cloned sha mt p n m"
  shows "ePath (fnEntry m) = p" and "eIsDir (fnEntry m) = eIsDir (fnEntry n)" and "fnData m = fnData n"
  using assms by (auto simp: cloned_def)

lemma cloneOne_effect:
  assumes "map_of files old = Some n"
  obtains m where "cloneOne sha mt old new (i, files) = (((i + 1) mod 2 ^ 64, AList.update new m files), True)"
    and "cloned sha mt new n m"
  using assms by (auto simp: cloneOne_def cloned_def Let_def)

text \<open>The closed form of a sequence of clones from existing paths to other paths.\<close>

lemma cloneAll_effect:
  assumes "distinct (map snd ms)" and "set (map fst ms) \<inter> set (map snd ms) = {}"
    and "\<forall>m \<in> set ms. map_of files (fst m) \<noteq> None"
  shows "\<exists>i' files'. cloneAll sha mt ms (i, files) = ((i', files'), True)
    \<and> (\<forall>q. case map_of (map prod.swap ms) q of
         Some old \<Rightarrow> rel_option (cloned sha mt q) (map_of files old) (map_of files' q)
       | None \<Rightarrow> map_of files' q = map_of files q)"
  using assms
proof (induction ms arbitrary: i files)
  case (Cons p ms)
  obtain old new where p: "p = (old, new)" by (cases p)
  obtain n where n: "map_of files old = Some n" using Cons.prems(3) p by auto
  obtain m where run: "cloneOne sha mt old new (i, files) = (((i + 1) mod 2 ^ 64, AList.update new m files), True)"
    and m: "cloned sha mt new n m" using cloneOne_effect [OF n] by blast
  let ?f1 = "AList.update new m files"
  have d: "new \<notin> set (map snd ms)" "new \<notin> set (map fst ms)" using Cons.prems p by auto
  have "\<forall>x \<in> set ms. map_of ?f1 (fst x) \<noteq> None" using Cons.prems(3) by (auto simp: update_conv')
  moreover have "distinct (map snd ms)" "set (map fst ms) \<inter> set (map snd ms) = {}" using Cons.prems by auto
  ultimately obtain i' files' where IH: "cloneAll sha mt ms ((i + 1) mod 2 ^ 64, ?f1) = ((i', files'), True)"
    "\<And>q. case map_of (map prod.swap ms) q of
         Some o' \<Rightarrow> rel_option (cloned sha mt q) (map_of ?f1 o') (map_of files' q)
       | None \<Rightarrow> map_of files' q = map_of ?f1 q"
    using Cons.IH [of ?f1 "(i + 1) mod 2 ^ 64"] by blast
  have "case map_of (map prod.swap (p # ms)) q of
         Some o' \<Rightarrow> rel_option (cloned sha mt q) (map_of files o') (map_of files' q)
       | None \<Rightarrow> map_of files' q = map_of files q" for q
  proof (cases "map_of (map prod.swap ms) q")
    case None
    then show ?thesis using IH(2) [of q] n m d p by (auto simp: update_conv')
  next
    case (Some o')
    then have "(o', q) \<in> set ms" by (auto dest!: map_of_SomeD)
    then have "o' \<noteq> new" "q \<noteq> new" using d by (force simp: image_iff)+
    then show ?thesis using IH(2) [of q] Some p by (simp add: update_conv')
  qed
  then show ?case using IH(1) run p by auto
qed simp

lemma childMoves_update: "\<not> below src dst \<Longrightarrow> childMoves src dst (AList.update dst m files) = childMoves src dst files"
proof -
  assume "\<not> below src dst"
  then have "filter (below src) (map fst (AList.update dst m files)) = filter (below src) (map fst files)"
    by (induction files) auto
  then show ?thesis by (simp add: childMoves_eq)
qed

section \<open>Copy\<close>

text \<open>The destination subtree after a copy; a shallow copy takes only the resource itself.\<close>

definition copyRel :: "(string \<Rightarrow> string) \<Rightarrow> int \<Rightarrow> bool \<Rightarrow> string \<Rightarrow> string \<Rightarrow> ftree \<Rightarrow> ftree \<Rightarrow> bool" where
  "copyRel sha mt deep src dst tr tr' \<longleftrightarrow> (\<forall>q.
     if q = dst \<or> deep \<and> below dst q then rel_option (cloned sha mt q) (tr (rebase dst src q)) (tr' q)
     else if below dst q then tr' q = None else tr' q = tr q)"

lemma cloneAll_copyRel:
  assumes "distinct_keys files" and "disjoint_paths src dst" and "map_of files src \<noteq> None"
    and "map_of files = prune dst tr"
    and "ms = (if deep then subtreeMoves src dst files else [(src, dst)])"
  shows "\<exists>i' files'. cloneAll sha mt ms (i, files) = ((i', files'), True)
    \<and> copyRel sha mt deep src dst tr (map_of files')"
proof -
  have sub: "set ms \<subseteq> set (subtreeMoves src dst files)" by (auto simp: assms(5) subtreeMoves_def)
  have "\<forall>m \<in> set (subtreeMoves src dst files). map_of files (fst m) \<noteq> None"
    using assms(3) by (auto simp: subtreeMoves_def childMoves_eq map_of_eq_None_iff)
  then have all: "\<forall>m \<in> set ms. map_of files (fst m) \<noteq> None" using sub by blast
  have dis: "distinct (map snd ms)" using subtreeMoves_distinct(2) [OF assms(1)] by (simp add: assms(5))
  have cap: "set (map fst ms) \<inter> set (map snd ms) = {}"
    using subtreeMoves_disjoint [OF assms(2), of files] image_mono [OF sub, of fst] image_mono [OF sub, of snd]
    by (simp only: set_map) blast
  obtain i' files' where run: "cloneAll sha mt ms (i, files) = ((i', files'), True)"
    and eff: "\<And>q. case map_of (map prod.swap ms) q of
         Some old \<Rightarrow> rel_option (cloned sha mt q) (map_of files old) (map_of files' q)
       | None \<Rightarrow> map_of files' q = map_of files q"
    using cloneAll_effect [OF dis cap all] by blast
  have sw: "map_of (map prod.swap ms) q = (if (q = dst \<or> deep \<and> below dst q) \<and> map_of files (rebase dst src q) \<noteq> None
      then Some (rebase dst src q) else None)" for q
    using map_of_subtree_swap [OF assms(1,3), of dst q] assms(3) by (auto simp: assms(5) rebase_self)
  have src_side: "map_of files (rebase dst src q) = tr (rebase dst src q)" if "q = dst \<or> below dst q" for q
    using that disjoint_subtrees [OF assms(2), of "rebase dst src q"] rebase_below [of dst q src]
    by (auto simp: assms(4) prune_def)
  have "copyRel sha mt deep src dst tr (map_of files')"
    unfolding copyRel_def
  proof (intro allI)
    fix q
    show "if q = dst \<or> deep \<and> below dst q then rel_option (cloned sha mt q) (tr (rebase dst src q)) (map_of files' q)
      else if below dst q then map_of files' q = None else map_of files' q = tr q"
    proof (cases "q = dst \<or> deep \<and> below dst q")
      case True
      then have "map_of files q = None" "tr (rebase dst src q) = map_of files (rebase dst src q)"
        using src_side [of q] by (auto simp: assms(4) prune_def)
      then show ?thesis using eff [of q] True by (cases "map_of files (rebase dst src q)") (auto simp: sw)
    next
      case False
      then have "map_of (map prod.swap ms) q = None" by (auto simp: sw)
      then have "map_of files' q = prune dst tr q" using eff [of q] by (simp add: assms(4))
      then show ?thesis using False by (auto simp: prune_def)
    qed
  qed
  with run show ?thesis by blast
qed

lemma Copy_run:
  assumes "clean_path src" and "clean_path dst" and "tree_ok (treeOf fs u)" and "fs_keys_ok fs"
    and ok: "transfer_ok (treeOf fs u) src dst ow"
  shows "\<exists>fs' e. Copy sha fs u src u dst ow deep = (fs', Inr (e, treeOf fs u dst = None))
    \<and> copyRel sha (fsClock fs) deep src dst (treeOf fs u) (treeOf fs' u)
    \<and> (\<forall>v. v \<noteq> u \<longrightarrow> treeOf fs' v = treeOf fs v)"
proof -
  obtain fs1 t where e: "ensureUser fs u = (fs1, t)" by (cases "ensureUser fs u")
  note v = ensureUser_view [OF e]
  let ?tr = "treeOf fs u"
  have tk: "tree_ok (map_of (utFiles t))" "distinct_keys (utFiles t)" using v assms by simp_all
  obtain n where n: "?tr src = Some n" using ok by (auto simp: transfer_ok_def)
  have te: "transferError (utFiles t) src dst = Inr n"
    using ok n by (auto simp: transferError_Inr v(2) transfer_ok_def disjoint_paths_def)
  obtain f1 created where ow: "overwriteDst ow dst (utFiles t) = Inr (f1, created)"
    using overwriteDst_ok [of "utFiles t" dst ow] ok by (auto simp: v(2) transfer_ok_def)
  note ov = overwriteDst_prune [OF tk(1) assms(2) ow tk(2), unfolded v(2)]
  have dj: "disjoint_paths src dst" using ok by (simp add: transfer_ok_def)
  have src1: "map_of f1 src = Some n" using ov(1) n dj by (simp add: prune_def disjoint_paths_def)
  have leaf: "childMoves src dst f1 = []" if "\<not> eIsDir (fnEntry n)"
    using that tree_ok_ancestor [OF assms(3,1)] n ov(1)
    by (intro childMoves_leaf) (auto simp: prune_def, metis not_Some_eq option.inject)
  let ?ms = "if deep then subtreeMoves src dst f1 else [(src, dst)]"
  obtain m where one: "cloneOne sha (fsClock fs) src dst (fsNextID fs1, f1)
      = (((fsNextID fs1 + 1) mod 2 ^ 64, AList.update dst m f1), True)"
    using cloneOne_effect [OF src1] by blast
  have kids: "(if eIsDir (fnEntry n) \<and> deep then childMoves src dst (snd (x :: int, AList.update dst m f1)) else [])
      = (if deep then childMoves src dst f1 else [])" for x
    using leaf childMoves_update [of src dst m f1] dj by (auto simp: disjoint_paths_def)
  obtain i' f2 where all: "cloneAll sha (fsClock fs) ?ms (fsNextID fs1, f1) = ((i', f2), True)"
    "copyRel sha (fsClock fs) deep src dst ?tr (map_of f2)"
    using cloneAll_copyRel [OF ov(3) dj _ ov(1) refl, of sha "fsClock fs" deep "fsNextID fs1"] src1 by auto
  have rest: "cloneAll sha (fsClock fs) (if deep then childMoves src dst f1 else [])
      ((fsNextID fs1 + 1) mod 2 ^ 64, AList.update dst m f1) = ((i', f2), True)"
    using all(1) one by (auto simp: subtreeMoves_def split: if_splits)
  have "\<exists>d. map_of f2 dst = Some d"
    using all(2) [unfolded copyRel_def, rule_format, of dst] n by (auto simp: rebase_self option_rel_Some1)
  then obtain d where d: "map_of f2 dst = Some d" ..
  let ?fs' = "putFiles (fs1\<lparr>fsNextID := i'\<rparr>) u t f2"
  have "Copy sha fs u src u dst ow deep = (?fs', Inr (fnEntry d, created))"
    using dj d by (simp add: Copy_def e te ow v(4) one normalizePath_clean assms(1,2) disjoint_paths_def
        Let_def kids rest [simplified] split del: if_split del: cloneAll.simps)
  then show ?thesis using all(2) ov(2) v(3) by auto
qed

lemma rel_option_SomeD: "rel_option R x (Some m) \<Longrightarrow> \<exists>n. x = Some n \<and> R n m"
  by (cases x) auto

lemma tree_ok_copyRel:
  assumes "clean_path src" and "clean_path dst" and "tree_ok tr" and ok: "transfer_ok tr src dst ow"
    and rel: "copyRel sha mt deep src dst tr tr'"
  shows "tree_ok tr'"
  unfolding tree_ok_def
proof (intro allI impI)
  note rel' = rel [unfolded copyRel_def, rule_format]
  have dj: "disjoint_paths src dst" and par: "isDirAt tr (path_dir dst)"
    using ok by (auto simp: transfer_ok_def)
  have keep: "isDirAt tr' p" if "isDirAt tr p" "\<not> (p = dst \<or> below dst p)" for p
    using that rel' [of p] by (auto simp: isDirAt_def)
  fix q m assume q: "tr' q = Some m"
  show "clean_path q \<and> ePath (fnEntry m) = q \<and> isDirAt tr' (path_dir q)"
  proof (cases "q = dst \<or> below dst q")
    case False
    then have tr: "tr q = Some m" using q rel' [of q] by auto
    note okq = tree_okD [OF assms(3) tr]
    have "isDirAt tr' (path_dir q)"
    proof (cases "path_dir q = ''/''")
      case nr: False
      show ?thesis using keep [OF okq(3)] below_path_dirI [OF okq(1) nr] False by blast
    qed simp
    with okq show ?thesis by simp
  next
    case True
    then have deep: "q = dst \<or> deep \<and> below dst q" using q rel' [of q] by (auto split: if_splits)
    let ?o = "rebase dst src q"
    obtain n where n: "tr ?o = Some n" "cloned sha mt q n m"
      using q deep rel' [of q] rel_option_SomeD by fastforce
    note oko = tree_okD [OF assms(3) n(1)]
    show ?thesis
    proof (cases "q = dst")
      case True
      have "path_dir dst = ''/'' \<or> \<not> (path_dir dst = dst \<or> below dst (path_dir dst))"
        using below_path_dirI [OF assms(2), of dst] by auto
      then have "isDirAt tr' (path_dir dst)" using keep [OF par] by auto
      with True assms(2) clonedD(1) [OF n(2)] show ?thesis by simp
    next
      case False
      with deep have b: "below dst q" "deep" by auto
      have bo: "below src ?o" using b(1) by (rule rebase_below)
      have qe: "q = rebase src dst ?o" using rebase_inverse [of q dst src] b by simp
      have cq: "clean_path q" using rebase_clean(1) [OF assms(1,2) oko(1) bo] qe by simp
      have up: "path_dir ?o = rebase dst src (path_dir q)" "path_dir q = dst \<or> below dst (path_dir q)"
        using rebase_path_dir_dst [OF assms(1,2) cq b(1)] by auto
      obtain d where d: "tr (path_dir ?o) = Some d" "eIsDir (fnEntry d)"
        using oko(3) below_path_dir(2) [OF assms(1) oko(1) bo] by (auto simp: isDirAt_def)
      have "rel_option (cloned sha mt (path_dir q)) (Some d) (tr' (path_dir q))"
        using rel' [of "path_dir q"] up d(1) b(2) by auto
      then have "isDirAt tr' (path_dir q)" using d(2) clonedD(2) by (fastforce simp: isDirAt_def option_rel_Some1)
      with cq clonedD(1) [OF n(2)] show ?thesis by simp
    qed
  qed
qed

text \<open>
  \<open>Copy\<close> duplicates a subtree: on a well-formed tree and clean paths, whenever the source exists,
  neither path lies inside the other, the destination's parent is a directory and the
  destination is free or may be overwritten, the copy succeeds. Afterwards the destination
  holds a clone of the source, with every node below it for a deep copy and nothing below it
  for a shallow one, with the same data and kind under its new path; the source and all other
  paths and users are untouched, and the tree is well formed.
\<close>

theorem copy_correct:
  assumes "clean_path src" and "clean_path dst" and "tree_ok (treeOf fs u)" and "fs_keys_ok fs"
    and "transfer_ok (treeOf fs u) src dst ow"
  shows "\<exists>fs' e. Copy sha fs u src u dst ow deep = (fs', Inr (e, treeOf fs u dst = None))
    \<and> copyRel sha (fsClock fs) deep src dst (treeOf fs u) (treeOf fs' u)
    \<and> (\<forall>v. v \<noteq> u \<longrightarrow> treeOf fs' v = treeOf fs v) \<and> tree_ok (treeOf fs' u)"
  using Copy_run [OF assms, of sha deep] tree_ok_copyRel [OF assms(1-3,5)] by blast

lemma demo_transfer: "transfer_ok (treeOf demoFS ''u'') ''/a'' ''/b'' False"
proof -
  have "path_dir ''/b'' = ''/''" by code_simp
  then show ?thesis
    by (simp add: transfer_ok_def demo_tree demoFiles_def disjoint_paths_def below_def)
qed

theorem copy_correct_witness:
  "\<exists>fs' e. Copy (\<lambda>s. s) demoFS ''u'' ''/a'' ''u'' ''/b'' False True = (fs', Inr (e, True))
     \<and> tree_ok (treeOf fs' ''u'')"
  using copy_correct [OF demo_clean(1,3) demo_ok demo_keys demo_transfer, of "\<lambda>s. s" True]
  by (auto simp: demo_tree demoFiles_def)

end
