(* ===== verification/Webdav_Requests.thy ===== *)
theory Webdav_Requests
  imports Webdav_Service Webdav_MemCopy
begin

text \<open>
  What a client of the WebDAV service observes, per request: who is served, that a failed request
  changes nothing, that locks are respected by the writing methods, that a PUT reads back, how
  conditional PUTs behave, and where MOVE and COPY do not look at locks. The properties rest on
  the interpretations of \<open>dav_service\<close> and \<open>dav_locking\<close>.
\<close>

section \<open>Who is served\<close>

lemma parseUserPath_Some:
  assumes "parseUserPath rest = Some (u, sub)"
  shows "u \<noteq> [] \<and> CHR ''/'' \<notin> set u \<and> (rest = u \<and> sub = ''/'' \<or> rest = u @ sub \<and> has_prefix sub ''/'')"
proof (cases "index_byte rest (CHR ''/'')")
  case (Some i)
  note d = index_byte_decomp [OF Some]
  have "drop i rest = CHR ''/'' # drop (Suc i) rest"
    using d(1) index_byte_less [OF Some] by (metis append_take_drop_id same_append_eq)
  then have "has_prefix (drop i rest) ''/''" by simp
  then show ?thesis using assms Some d(2) by (auto simp: parseUserPath_def Let_def split: if_splits)
qed (use assms in \<open>auto simp: parseUserPath_def split: if_splits\<close>)

lemma parseUserPath_own:
  assumes "u \<noteq> []" and "CHR ''/'' \<notin> set u"
  shows "parseUserPath u = Some (u, ''/'')"
    and "has_prefix sub ''/'' \<Longrightarrow> parseUserPath (u @ sub) = Some (u, sub)"
  using assms by (auto simp: parseUserPath_def has_prefix_iff index_byte_append)

text \<open>A request for the resource \<open>sub\<close> of user \<open>u\<close>, made by \<open>u\<close>, on a handler mounted per user.\<close>

definition own_request :: "'s Handler \<Rightarrow> string \<Rightarrow> string \<Rightarrow> Request \<Rightarrow> bool" where
  "own_request h u sub r \<longleftrightarrow> hOwnerUID h = None \<and> u \<noteq> [] \<and> CHR ''/'' \<notin> set u
     \<and> (reqURLPath r = hPrefix h @ u \<and> sub = ''/'' \<or> reqURLPath r = hPrefix h @ u @ sub \<and> has_prefix sub ''/'')
     \<and> reqUser r = Some u"

lemma authorizePath_own:
  assumes "hOwnerUID h = None"
  shows "authorizePath h r = Inr (u, sub) \<longleftrightarrow> own_request h u sub r"
proof
  assume a: "authorizePath h r = Inr (u, sub)"
  then have "parsePath h (reqURLPath r) = Some (u, sub)" "reqUser r = Some u"
    using assms by (auto simp: authorizePath_def requestPath_def split: option.splits if_splits)
  then show "own_request h u sub r"
    using assms parseUserPath_Some [of "trim_prefix (reqURLPath r) (hPrefix h)" u sub]
      trim_prefix_decomp [of "reqURLPath r" "hPrefix h"]
    by (auto simp: own_request_def parsePath_def split: if_splits)
next
  assume "own_request h u sub r"
  then show "authorizePath h r = Inr (u, sub)"
    by (auto simp: own_request_def authorizePath_def requestPath_def parsePath_def parseUserPath_own)
qed

lemma authorizePath_error:
  "authorizePath h r = Inl out \<Longrightarrow> \<exists>resp. out = Responded resp \<and> rsStatus resp \<in> {401, 403, 404}"
  by (auto simp: authorizePath_def writeWebDAVUnauthorized_def httpNotFound_def httpError_def reply_def
      split: if_splits option.splits)

lemma serve_unauthorised:
  assumes "authorizePath h r = Inl out" and "reqMethod r \<noteq> ''OPTIONS''"
  shows "ServeHTTP env h r s = (s, out) \<or> ServeHTTP env h r s = (s, methodNotAllowed h)"
  using assms
  by (simp add: ServeHTTP_def Let_def propfind_def get_def put_def mkcol_def delete_def moveOrCopy_def proppatch_def
      lock_def unlock_def report_def mkcalendar_def postShare_def)

text \<open>
  C5. Only the owner is served: on a handler mounted per user, whatever the file system behind it, every
  response below 400 other than to \<open>OPTIONS\<close> answers a request whose path names the
  authenticated user; any other request leaves the state exactly as it was and is answered with
  401, 403, 404 or 405.
\<close>

theorem serve_only_owner:
  assumes "hOwnerUID h = None" and "reqMethod r \<noteq> ''OPTIONS''" and "\<nexists>u sub. own_request h u sub r"
  shows "\<exists>resp. ServeHTTP env h r s = (s, Responded resp) \<and> rsStatus resp \<in> {401, 403, 404, 405}"
proof -
  obtain out where out: "authorizePath h r = Inl out"
    using assms(3) authorizePath_own [OF assms(1), of r] by (cases "authorizePath h r") force+
  then show ?thesis
    using serve_unauthorised [OF out assms(2), of env s] authorizePath_error [OF out]
    by (auto simp: methodNotAllowed_def httpError_def)
qed

definition demoHandler :: "InMemoryFS Handler" where
  "demoHandler = memHandler (the (NewHandler ''/dav/files'' (memFS (\<lambda>s. s) (Inr ''00'')) ''oc'')) (\<lambda>s. s) (Inr ''00'')"

definition demoEnv :: Env where
  "demoEnv = \<lparr>envUrlPath = Some, envTokens = (\<lambda>_. [])\<rparr>"

definition demoRequest :: "string \<Rightarrow> string \<Rightarrow> string \<Rightarrow> Request" where
  "demoRequest meth path user = \<lparr>reqMethod = meth, reqURLPath = path, reqHeader = [], reqContentLength = -1,
     reqBody = ''hi'', reqBodyErr = None, reqUser = Some user\<rparr>"

lemma demoHandler_sel:
  "hOwnerUID demoHandler = None" "hPrefix demoHandler = ''/dav/files/''"
  by (simp_all add: demoHandler_def NewHandler_def has_suffix_def)

lemma demo_own:
  "own_request demoHandler ''u'' ''/a/f'' (demoRequest meth ''/dav/files/u/a/f'' ''u'')"
  by (simp add: own_request_def demoHandler_sel demoRequest_def)

theorem serve_only_owner_witness:
  "\<exists>resp. ServeHTTP demoEnv demoHandler (demoRequest ''DELETE'' ''/dav/files/u/a/f'' ''v'') demoFS
     = (demoFS, Responded resp) \<and> rsStatus resp \<in> {401, 403, 404, 405}"
proof (rule serve_only_owner)
  show "\<nexists>u sub. own_request demoHandler u sub (demoRequest ''DELETE'' ''/dav/files/u/a/f'' ''v'')"
    by (auto simp: own_request_def demoHandler_sel demoRequest_def has_prefix_iff Cons_eq_append_conv)
qed (simp_all add: demoHandler_sel demoRequest_def)

section \<open>What a request changes\<close>

text \<open>
  C6. Tenant isolation, of the handler over the in-memory file system without hooks: whatever a request asks for, it changes no
  file, no directory and no property of any user but the authenticated one. The database-backed \<open>files.DAV\<close> is outside:
  there a write on an incoming share changes, as it should, the files of the owner.
\<close>

theorem dav_tenant_isolation:
  assumes "ServeHTTP env (memHandler cfg sha rnd) r fs = (fs', out)" and "reqUser r \<noteq> Some v"
  shows "dataOf fs' v = dataOf fs v"
  using mem.serve_tidy [of r fs env cfg sha rnd] assms by (simp add: tidy_serve_def)

theorem dav_tenant_isolation_witness:
  "dataOf (fst (ServeHTTP demoEnv demoHandler (demoRequest ''DELETE'' ''/dav/files/u/a/f'' ''u'') demoFS)) ''v''
    = dataOf demoFS ''v''"
proof -
  obtain fs' out where s: "ServeHTTP demoEnv demoHandler (demoRequest ''DELETE'' ''/dav/files/u/a/f'' ''u'') demoFS = (fs', out)"
    by (cases "ServeHTTP demoEnv demoHandler (demoRequest ''DELETE'' ''/dav/files/u/a/f'' ''u'') demoFS")
  then show ?thesis
    using dav_tenant_isolation [OF s [unfolded demoHandler_def], of "''v''"] by (simp add: demoRequest_def)
qed

text \<open>
  C7. Failures are atomic, in the handler over the in-memory file system without hooks: a request that is answered with an error
  status (400 or above) leaves the files, directories and properties of all users as they were. The database-backed
  \<open>files.DAV\<close> does not promise this: \<open>MKCOL\<close> on a file and a \<open>PUT\<close> whose body breaks lose content there.
\<close>

theorem dav_error_atomic:
  assumes "ServeHTTP env (memHandler cfg sha rnd) r fs = (fs', Responded resp)" and "400 \<le> rsStatus resp"
  shows "dataOf fs' = dataOf fs"
  using mem.serve_tidy [of r fs env cfg sha rnd] assms by (simp add: tidy_serve_def)

theorem dav_error_atomic_witness:
  "\<exists>fs' resp. ServeHTTP demoEnv demoHandler (demoRequest ''DELETE'' ''/dav/files/u/'' ''u'') demoFS
     = (fs', Responded resp) \<and> dataOf fs' = dataOf demoFS"
proof -
  let ?r = "demoRequest ''DELETE'' ''/dav/files/u/'' ''u''"
  have own: "own_request demoHandler ''u'' ''/'' ?r"
    by (simp add: own_request_def demoHandler_sel demoRequest_def)
  have s: "ServeHTTP demoEnv demoHandler ?r demoFS = (demoFS, httpError [] ''Forbidden'' 403)"
    using own [folded authorizePath_own [OF demoHandler_sel(1)]]
    by (simp add: ServeHTTP_def delete_def demoRequest_def)
  then show ?thesis
    using dav_error_atomic [OF s [unfolded demoHandler_def httpError_def]] by (simp add: httpError_def)
qed

section \<open>Locks\<close>

text \<open>
  C2. Locks are enforced, by the handler over the in-memory file system without hooks: while an active lock guards the
  path of a user's own request and the \<open>If\<close> header does not carry its token, \<open>PUT\<close> and \<open>DELETE\<close> are answered with
  423 Locked (a \<open>DELETE\<close> of the root with an error of its own), and \<open>MKCOL\<close>, \<open>PROPPATCH\<close> and \<open>MOVE\<close> of the resource
  with an error; no file of any user changes. The locks of the database-backed \<open>files.DAV\<close> are those of \<open>Files_LockLaws\<close>.
\<close>

theorem dav_lock_enforced:
  fixes cfg sha rnd
  defines "h \<equiv> memHandler cfg sha rnd"
  assumes "own_request h u p r" and "guardOf fs u (normalizePath p) = Some lk"
    and "\<not> lockHeaderHasToken (headerGet r ''If'') (mlToken lk)"
    and "reqMethod r \<in> {''PUT'', ''DELETE'', ''MKCOL'', ''PROPPATCH'', ''MOVE''}"
  shows "\<exists>fs' resp. ServeHTTP env h r fs = (fs', Responded resp) \<and> 400 \<le> rsStatus resp
      \<and> (reqMethod r = ''PUT'' \<or> reqMethod r = ''DELETE'' \<and> p \<noteq> ''/'' \<longrightarrow> rsStatus resp = 423)
      \<and> dataOf fs' = dataOf fs"
proof -
  have own: "authorizePath h r = Inr (u, p)"
    using assms(2) by (subst authorizePath_own) (auto simp: own_request_def)
  have g: "memGuarded fs u p (headerGet r ''If'')" using assms(3,4) by (simp add: memGuarded_def)
  obtain resp where resp: "snd (ServeHTTP env h r fs) = Responded resp" "400 \<le> rsStatus resp"
    "dataOf (fst (ServeHTTP env h r fs)) = dataOf fs"
    using memlock.locked_change [OF own [unfolded h_def] g _ _ _ assms(5), of env] unfolding h_def by auto
  have "rsStatus resp = 423" if "reqMethod r = ''PUT'' \<or> reqMethod r = ''DELETE'' \<and> p \<noteq> ''/''"
    using memlock.locked_write [OF own [unfolded h_def] g that, of env] resp(1) unfolding h_def httpError_def by auto
  with resp show ?thesis by (cases "ServeHTTP env h r fs") auto
qed

lemma demoLocked_guard:
  "guardOf demoLocked ''u'' ''/a/f'' = Some \<lparr>mlToken = ''opaquelocktoken:00'', mlOwner = ''o'',
     mlTimeout = 5, mlCreated = 0, mlDepthInfinity = True\<rparr>"
proof -
  have "lockChain ''/a/f'' = [''/a/f'', ''/a'', ''/'']" by code_simp
  then show ?thesis by (simp add: guardOf_def covering_def demoLocked_active)
qed

theorem dav_lock_enforced_witness:
  "\<exists>fs' resp. ServeHTTP demoEnv demoHandler (demoRequest ''PUT'' ''/dav/files/u/a/f'' ''u'') demoLocked
     = (fs', Responded resp) \<and> rsStatus resp = 423 \<and> dataOf fs' = dataOf demoLocked"
proof -
  let ?r = "demoRequest ''PUT'' ''/dav/files/u/a/f'' ''u''"
  have n: "normalizePath ''/a/f'' = ''/a/f''" by code_simp
  have t: "\<not> lockHeaderHasToken (headerGet ?r ''If'') ''opaquelocktoken:00''" by code_simp
  have "reqMethod ?r = ''PUT''" by (simp add: demoRequest_def)
  then show ?thesis
    using dav_lock_enforced [OF demo_own [of "''PUT''", unfolded demoHandler_def], of demoLocked _ demoEnv]
      demoLocked_guard t unfolding n demoHandler_def [symmetric] by auto
qed

section \<open>PUT and GET\<close>

lemma Write_size:
  "Write sha fs u p (Inr body) mt = (fs', Inr (e, created)) \<Longrightarrow> eSize e = int (length body)"
  by (auto simp: Write_def writeCommit_def Let_def split: prod.splits sum.splits if_splits)

lemma Write_errors:
  "Write sha fs u p (Inr body) mt = (fs', Inl err) \<Longrightarrow> err \<in> {ErrIsDir, ErrParentMissing}"
  by (auto simp: Write_def writeCommit_def writeCheck_def Let_def split: prod.splits sum.splits if_splits)

lemma own_authorize: "own_request h u p r \<Longrightarrow> authorizePath h r = Inr (u, p)"
  by (subst authorizePath_own) (auto simp: own_request_def)

lemma checkLock_mem:
  assumes "\<not> memGuarded fs u p (headerGet r ''If'')"
  shows "\<exists>fs1. checkLock (memHandler cfg sha rnd) r u p fs = (fs1, None) \<and> treeOf fs1 = treeOf fs
    \<and> fsClock fs1 = fsClock fs"
proof -
  let ?x = "checkLock (memHandler cfg sha rnd) r u p fs"
  have "fst ?x = fst (CheckLock fs u p (headerGet r ''If''))"
    by (auto simp: checkLock_def memLockFS_def split: prod.splits sum.splits)
  then have "treeOf (fst ?x) = treeOf fs" "fsClock (fst ?x) = fsClock fs" by (auto simp: CheckLock_frame)
  then show ?thesis using memlock.checkLock_unguarded [OF assms] by (metis prod.collapse)
qed

text \<open>
  C9. What was put is what is got: when the user puts a body at a path whose parent is a directory and
  that is not a directory itself, no lock stands against it and no precondition is given, the
  answer is 201 for a new resource and 204 for an old one, and the next \<open>GET\<close> returns 200 with
  exactly that body, its length and the entity tag that the \<open>PUT\<close> announced.
\<close>

theorem put_get_roundtrip:
  fixes cfg sha rnd
  defines "h \<equiv> memHandler cfg sha rnd"
  assumes put: "own_request h u p rp" "reqMethod rp = ''PUT''" "headerGet rp ''OC-Chunked'' = []"
      "condOf rp = None" "putBody rp = Inr body" "\<not> memGuarded fs u p (headerGet rp ''If'')"
    and get: "own_request h u p rg" "reqMethod rg = ''GET''"
    and path: "clean_path p" "isDirAt (treeOf fs u) (path_dir p)" "\<not> isDirAt (treeOf fs u) p"
  shows "\<exists>fs1 put_resp fs2 resp. ServeHTTP env h rp fs = (fs1, Responded put_resp)
    \<and> rsStatus put_resp = (if treeOf fs u p = None then 201 else 204)
    \<and> ServeHTTP env h rg fs1 = (fs2, Responded resp)
    \<and> rsStatus resp = 200 \<and> rsBody resp = body
    \<and> map_of (rsHeader resp) ''Content-Length'' = Some (int_to_dec (int (length body)))
    \<and> map_of (rsHeader resp) ''ETag'' = map_of (rsHeader put_resp) ''ETag''"
proof -
  obtain fs0 where lk: "checkLock h rp u p fs = (fs0, None)" "treeOf fs0 = treeOf fs"
    using checkLock_mem [OF put(6)] unfolding h_def by blast
  obtain fs1 res where w: "Write sha fs0 u p (Inr body) (mtimeOf rp) = (fs1, res)"
    by (cases "Write sha fs0 u p (Inr body) (mtimeOf rp)")
  note eff = Write_effect [OF path(1) w, unfolded lk(2)]
  obtain e created where res: "res = Inr (e, created)"
    using eff path(2,3) by (cases res) (auto simp: isDirAt_def)
  note eff = eff [unfolded res, simplified]
  have rd: "Read fs1 u p = (fs1, Inr (body, e))" using eff by (intro Read_written [OF path(1)]) auto
  have cr: "created \<longleftrightarrow> treeOf fs u p = None" using eff by (auto split: option.splits)
  have "ServeHTTP env h rp fs = (fs1, reply (if created then 201 else 204)
      ([(''ETag'', etagValue e), (''OC-ETag'', etagValue e), (''OC-FileId'', FileID (eNumericID e) (hInstanceID h)),
        (''Last-Modified'', http_time (eModTime e)), (''Content-Length'', ''0'')] @
       (if mtimeOf rp \<noteq> None then [(''X-OC-Mtime'', ''accepted'')] else [])) [])"
    using put w res lk by (simp add: ServeHTTP_def put_def own_authorize putWrite_def h_def)
  moreover have "ServeHTTP env h rg fs1 = (fs1, reply 200
      [(''Content-Type'', eContentType e), (''Content-Length'', int_to_dec (eSize e)),
       (''Last-Modified'', http_time (eModTime e)), (''ETag'', etagValue e), (''OC-ETag'', etagValue e),
       (''OC-FileId'', FileID (eNumericID e) (hInstanceID h))] body)"
    using get rd by (simp add: ServeHTTP_def get_def own_authorize h_def)
  ultimately show ?thesis using cr Write_size [OF w [unfolded res]] by (simp add: reply_def)
qed

lemma demo_unlocked: "\<not> memGuarded demoFS ''u'' p hdr"
proof -
  have n: "nearest (covering demoFS ''u'' np) ps = None" for np ps
    by (induction ps) (auto simp: covering_def activeLock_def memLockLocked_def demoFS_def)
  show ?thesis by (simp add: memGuarded_def guardOf_def n)
qed

theorem put_get_roundtrip_witness:
  "\<exists>fs1 put_resp fs2 resp.
     ServeHTTP demoEnv demoHandler (demoRequest ''PUT'' ''/dav/files/u/a/f'' ''u'') demoFS = (fs1, Responded put_resp)
   \<and> ServeHTTP demoEnv demoHandler (demoRequest ''GET'' ''/dav/files/u/a/f'' ''u'') fs1 = (fs2, Responded resp)
   \<and> rsBody resp = ''hi''"
proof -
  let ?r = "\<lambda>meth. demoRequest meth ''/dav/files/u/a/f'' ''u''"
  have c: "condOf (?r ''PUT'') = None" "headerGet (?r ''PUT'') ''OC-Chunked'' = []" "putBody (?r ''PUT'') = Inr ''hi''"
    by code_simp+
  have "path_dir ''/a/f'' = ''/a''" by code_simp
  then have d: "isDirAt (treeOf demoFS ''u'') (path_dir ''/a/f'')" "\<not> isDirAt (treeOf demoFS ''u'') ''/a/f''"
    by (simp_all add: isDirAt_def demo_tree demoFiles_def demoNode_def zeroEntry_def)
  show ?thesis
    using put_get_roundtrip [OF demo_own [of "''PUT''", unfolded demoHandler_def] _ c(2,1,3) demo_unlocked
        demo_own [of "''GET''", unfolded demoHandler_def] _ demo_clean(2) d, of demoEnv, folded demoHandler_def]
    by (auto simp: demoRequest_def)
qed

section \<open>Conditional PUT\<close>

lemma Stat_entry:
  assumes "clean_path p"
  shows "case treeOf fs u p of
      None \<Rightarrow> Stat fs u p = (fst (ensureUser fs u), Inl ErrNotFound)
    | Some n \<Rightarrow> \<exists>fs' e. Stat fs u p = (fs', Inr e) \<and> eETag e = eETag (fnEntry n)"
proof -
  obtain fs1 t where e: "ensureUser fs u = (fs1, t)" by (cases "ensureUser fs u")
  have "eETag (applyMemLockLocked fs1 u p x) = eETag x" for x
    by (auto simp: applyMemLockLocked_def split: option.split)
  then show ?thesis using normalizePath_clean [OF assms] ensureUser_view(2) [OF e]
    by (auto simp: Stat_def e Let_def split: option.split)
qed

lemma writeCond_mem:
  fixes cfg sha rnd fs u p
  defines "h \<equiv> memHandler cfg sha rnd" and "tag \<equiv> map_option (\<lambda>n. eETag (fnEntry n)) (treeOf fs u p)"
  assumes clean: "clean_path p"
  shows "if cond_holds c tag
    then \<exists>fs1. writeCondLegacy h u p b mt c fs = Write sha fs1 u p b mt
    else snd (writeCondLegacy h u p b mt c fs) = Inl ErrPrecondition"
proof (cases "treeOf fs u p")
  case None
  then show ?thesis using Stat_entry [OF clean, of fs u] Evaluate_None_iff [of c False "[]"]
      Evaluate_range [of "Some c" False "[]"]
    by (auto simp: writeCondLegacy_def h_def tag_def split: option.splits)
next
  case (Some n)
  then obtain fs' e where s: "Stat fs u p = (fs', Inr e)" "eETag e = eETag (fnEntry n)"
    using Stat_entry [OF clean, of fs u] by auto
  show ?thesis using s Some Evaluate_None_iff [of c True "eETag e"] Evaluate_range [of "Some c" True "eETag e"]
    by (auto simp: writeCondLegacy_def h_def tag_def split: option.splits)
qed

lemma put_outcome:
  assumes "authorizePath h r = Inr (u, p)" and "reqMethod r = ''PUT''" and "headerGet r ''OC-Chunked'' = []"
    and "checkLock h r u p s = (s1, None)"
  shows "case putWrite h r u p s1 of
      (s2, Inl err) \<Rightarrow> ServeHTTP env h r s = (s2, writeFSError err)
    | (s2, Inr _) \<Rightarrow> \<exists>resp. ServeHTTP env h r s = (s2, Responded resp) \<and> rsStatus resp \<in> {201, 204}"
  using assms by (auto simp: ServeHTTP_def put_def reply_def split: prod.splits sum.splits)

text \<open>
  C10. Conditional writes protect against lost updates, in the handler over the in-memory file system: a \<open>PUT\<close> of a user on
  an own path with precondition headers, a readable body and no \<open>OC-Chunked\<close> header, against which
  no lock stands, is answered 412 Precondition Failed exactly when the headers do not hold of
  the current entity tag of the resource (none when it is missing), and then nothing changes.
\<close>

theorem put_conditional:
  fixes cfg sha rnd
  defines "h \<equiv> memHandler cfg sha rnd"
  assumes put: "own_request h u p r" "reqMethod r = ''PUT''" "headerGet r ''OC-Chunked'' = []"
      "condOf r = Some c" "putBody r = Inr body" "\<not> memGuarded fs u p (headerGet r ''If'')"
    and path: "clean_path p"
  shows "let holds = cond_holds c (map_option (\<lambda>n. eETag (fnEntry n)) (treeOf fs u p)) in
    (snd (ServeHTTP env h r fs) = httpError [] ''Precondition Failed'' 412 \<longleftrightarrow> \<not> holds)
    \<and> (\<not> holds \<longrightarrow> dataOf (fst (ServeHTTP env h r fs)) = dataOf fs)"
proof -
  let ?holds = "cond_holds c (map_option (\<lambda>n. eETag (fnEntry n)) (treeOf fs u p))"
  obtain fs0 where lk: "checkLock h r u p fs = (fs0, None)" "treeOf fs0 = treeOf fs"
    using checkLock_mem [OF put(6)] unfolding h_def by blast
  have run: "case writeCondLegacy h u p (Inr body) (mtimeOf r) c fs0 of
      (s2, Inl err) \<Rightarrow> ServeHTTP env h r fs = (s2, writeFSError err)
    | (s2, Inr _) \<Rightarrow> \<exists>resp. ServeHTTP env h r fs = (s2, Responded resp) \<and> rsStatus resp \<in> {201, 204}"
    using put_outcome [OF own_authorize [OF put(1)] put(2,3) lk(1), of env] put(4,5) by (simp add: putWrite_def h_def)
  note wc = writeCond_mem [OF path, of c fs0 u cfg sha rnd "Inr body" "mtimeOf r", folded h_def, unfolded lk(2)]
  have iff: "snd (ServeHTTP env h r fs) = httpError [] ''Precondition Failed'' 412 \<longleftrightarrow> \<not> ?holds"
  proof (cases ?holds)
    case True
    then obtain fs1 where w: "writeCondLegacy h u p (Inr body) (mtimeOf r) c fs0 = Write sha fs1 u p (Inr body) (mtimeOf r)"
      using wc by auto
    have "snd (ServeHTTP env h r fs) \<noteq> httpError [] ''Precondition Failed'' 412"
      using Write_errors [of sha fs1 u p body "mtimeOf r"]
        run unfolding w by (auto simp: writeFSError_def httpError_def split: prod.splits sum.splits)
    with True show ?thesis by simp
  next
    case False
    then show ?thesis using wc
      by (cases "writeCondLegacy h u p (Inr body) (mtimeOf r) c fs0") (use run in \<open>auto simp: writeFSError_def\<close>)
  qed
  have "dataOf (fst (ServeHTTP env h r fs)) = dataOf fs" if "\<not> ?holds"
    using mem.serve_tidy [of r fs env cfg sha rnd, folded h_def] iff that
    by (simp add: tidy_serve_def httpError_def)
  with iff show ?thesis by (simp add: Let_def)
qed

definition demoCondPut :: Request where
  "demoCondPut = (demoRequest ''PUT'' ''/dav/files/u/a/f'' ''u'')\<lparr>reqHeader := [(''If-Match'', ''abc'')]\<rparr>"

theorem put_conditional_witness:
  "snd (ServeHTTP demoEnv demoHandler demoCondPut demoFS) = httpError [] ''Precondition Failed'' 412"
proof -
  have c: "condOf demoCondPut = Some \<lparr>IfETags = [], IfMatch = [''abc''], IfNoneMatch = []\<rparr>"
    "headerGet demoCondPut ''OC-Chunked'' = []" "putBody demoCondPut = Inr ''hi''"
    by code_simp+
  have own: "own_request demoHandler ''u'' ''/a/f'' demoCondPut"
    using demo_own [of "''PUT''"] by (simp add: own_request_def demoCondPut_def)
  have "eETag (fnEntry (demoNode ''/a/f'' False 3)) = []" by (simp add: demoNode_def zeroEntry_def)
  then show ?thesis
    using put_conditional [OF own [unfolded demoHandler_def] _ c(2,1,3) demo_unlocked demo_clean(2),
        of demoEnv, folded demoHandler_def]
    by (auto simp: demoCondPut_def demoRequest_def Let_def demo_tree demoFiles_def cond_holds_def)
qed

section \<open>Locks and the destination of COPY\<close>

lemma below_clean_guard:
  assumes "clean_path coll" and "clean_path dst" and "below coll dst" and "activeLock fs u coll = Some lk"
    and "mlDepthInfinity lk"
    and "\<And>p' lk'. activeLock fs u p' = Some lk' \<Longrightarrow> \<not> lockHeaderHasToken hdr (mlToken lk')"
  shows "memGuarded fs u dst hdr"
  using guardOf_below [OF assms(1-5)] assms(6) normalizePath_clean(1) [OF assms(2)]
  by (auto simp: memGuarded_def)

text \<open>
  \<open>COPY\<close> writes into a locked collection: the handler checks the lock of the destination only when
  the destination already exists. A copy to a free path inside a collection that another client
  has locked with depth infinity is therefore answered 201 and creates the resource, although a
  request that presents none of the lock tokens is one the lock stands against (a \<open>PUT\<close> to the
  same path is refused with 423).
\<close>

theorem copy_into_locked_collection:
  fixes cfg sha rnd
  defines "h \<equiv> memHandler cfg sha rnd"
  assumes req: "own_request h u src r" "reqMethod r = ''COPY''" "parseDestination env h r = Inr (u, dst)"
    and path: "clean_path src" "clean_path dst"
    and tree: "tree_ok (treeOf fs u)" "fs_keys_ok fs" "transfer_ok (treeOf fs u) src dst (parseOverwrite r)"
      "treeOf fs u dst = None"
    and locked: "clean_path coll" "below coll dst" "activeLock fs u coll = Some lk" "mlDepthInfinity lk"
      "\<And>p' lk'. activeLock fs u p' = Some lk' \<Longrightarrow> \<not> lockHeaderHasToken (headerGet r ''If'') (mlToken lk')"
  shows "memGuarded fs u dst (headerGet r ''If'')
    \<and> (\<exists>fs' resp. ServeHTTP env h r fs = (fs', Responded resp) \<and> rsStatus resp = 201 \<and> treeOf fs' u dst \<noteq> None)"
proof
  show "memGuarded fs u dst (headerGet r ''If'')"
    using below_clean_guard [OF locked(1) path(2) locked(2-4)] locked(5) by blast
  let ?deep = "headerGet r ''Depth'' = [] \<or> headerGet r ''Depth'' = ''infinity''"
  obtain fs1 t where e: "ensureUser fs u = (fs1, t)" by (cases "ensureUser fs u")
  note v = ensureUser_view [OF e]
  have st: "Stat fs u dst = (fs1, Inl ErrNotFound)"
    using Stat_entry [OF path(2), of fs u] tree(4) e by simp
  obtain fs' x where c: "Copy sha fs1 u src u dst (parseOverwrite r) ?deep = (fs', Inr (x, True))"
    "copyRel sha (fsClock fs1) ?deep src dst (treeOf fs u) (treeOf fs' u)"
    using Copy_run [OF path, of fs1 u "parseOverwrite r" sha ?deep] v(3,6) tree by auto
  have ne: "src \<noteq> ''/''" "dst \<noteq> ''/''" using normalizePath_clean(2) path by auto
  have "ServeHTTP env h r fs = (fs', reply 201 (emitMoveCopyHeaders (hInstanceID h) (Some x)) [])"
    using req st c(1) ne
    by (simp add: ServeHTTP_def moveOrCopy_def own_authorize plainMoveOrCopy_def checkDestination_def h_def
        moveCopyReply_def someEntry_def Let_def)
  moreover have "treeOf fs' u dst \<noteq> None"
    using c(2) [unfolded copyRel_def, rule_format, of dst] tree(3)
    by (auto simp: transfer_ok_def option_rel_Some1)
  ultimately show "\<exists>fs' resp. ServeHTTP env h r fs = (fs', Responded resp) \<and> rsStatus resp = 201
      \<and> treeOf fs' u dst \<noteq> None"
    by (simp add: reply_def)
qed

definition demoCopy :: Request where
  "demoCopy = (demoRequest ''COPY'' ''/dav/files/u/a/f'' ''u'')\<lparr>reqHeader := [(''Destination'', ''/dav/files/u/a/g'')]\<rparr>"

theorem copy_into_locked_collection_witness:
  "memGuarded demoLocked ''u'' ''/a/g'' [] \<and> (\<exists>fs' resp. ServeHTTP demoEnv demoHandler demoCopy demoLocked
     = (fs', Responded resp) \<and> rsStatus resp = 201 \<and> treeOf fs' ''u'' ''/a/g'' \<noteq> None)"
proof -
  have own: "own_request demoHandler ''u'' ''/a/f'' demoCopy"
    using demo_own [of "''COPY''"] by (simp add: own_request_def demoCopy_def)
  have d: "parseDestination demoEnv demoHandler demoCopy = Inr (''u'', ''/a/g'')" "parseOverwrite demoCopy = True"
    "headerGet demoCopy ''If'' = []" by code_simp+
  have t: "treeOf demoLocked = treeOf demoFS" by (auto simp: demoLocked_def fun_eq_iff)
  have k: "fs_keys_ok demoLocked" using demo_keys
    by (auto simp: fs_keys_ok_def demoLocked_def putLock_def demoFS_def distinct_keys_def split: if_splits)
  have "path_dir ''/a/g'' = ''/a''" by code_simp
  then have ok: "transfer_ok (treeOf demoLocked ''u'') ''/a/f'' ''/a/g'' (parseOverwrite demoCopy)"
    by (simp add: t transfer_ok_def demo_tree demoFiles_def disjoint_paths_def below_def isDirAt_def demoNode_def)
  have nt: "\<not> lockHeaderHasToken [] ''opaquelocktoken:00''" by code_simp
  have m: "reqMethod demoCopy = ''COPY''" by (simp add: demoCopy_def demoRequest_def)
  have "memGuarded demoLocked ''u'' ''/a/g'' (headerGet demoCopy ''If'') \<and> (\<exists>fs' resp. ServeHTTP demoEnv demoHandler demoCopy demoLocked
     = (fs', Responded resp) \<and> rsStatus resp = 201 \<and> treeOf fs' ''u'' ''/a/g'' \<noteq> None)"
    unfolding demoHandler_def
    by (rule copy_into_locked_collection [OF own [unfolded demoHandler_def] _ d(1) [unfolded demoHandler_def]
          demo_clean(2,4) _ k ok _ demo_clean(1)])
      (use nt demo_ok in \<open>auto simp: m t demo_tree demoFiles_def below_def demoLocked_active d(3)
        split: if_splits\<close>)
  then show ?thesis by (simp add: d(3))
qed

section \<open>Hrefs of PROPFIND\<close>

lemma has_suffix_slash: "s \<noteq> [] \<Longrightarrow> has_suffix s ''/'' \<longleftrightarrow> last s = CHR ''/''"
  by (metis append_butlast_last_id has_suffix_iff last_snoc)

lemma hex_upper_not_slash: "0 \<le> n \<Longrightarrow> n < 16 \<Longrightarrow> hex_upper n \<noteq> CHR ''/''"
proof
  assume n: "0 \<le> n" "n < 16" and h: "hex_upper n = CHR ''/''"
  have "of_char (hex_upper n) = (if n < 10 then 48 + n else 55 + n)"
    using n by (simp add: hex_upper_def byte_def)
  with h n show False by (simp split: if_splits)
qed

lemma path_escape_no_slash: "CHR ''/'' \<notin> set (path_escape s)"
proof -
  have "CHR ''/'' \<notin> set (let n = of_char c :: int in if path_segment_plain n then [c]
      else [CHR ''%'', hex_upper (n div 16), hex_upper (n mod 16)])" for c :: char
  proof -
    have "0 \<le> (of_char c :: int)" "(of_char c :: int) < 256" by (auto simp: of_char_def intro: horner_sum_bound)
    then have "hex_upper (of_char c div 16) \<noteq> CHR ''/''" "hex_upper (of_char c mod 16) \<noteq> CHR ''/''"
      using hex_upper_not_slash by auto
    then show ?thesis by (auto simp: Let_def path_segment_plain_def in_rng_def)
  qed
  then show ?thesis by (simp add: path_escape_def)
qed

lemma path_escape_not_Nil: "s \<noteq> [] \<Longrightarrow> path_escape s \<noteq> []"
  by (cases s) (auto simp: path_escape_def Let_def)

lemma buildHref_mkpath:
  assumes "list_all plain_seg segs" and "segs \<noteq> []" and "ePath e = mkpath segs"
  shows "buildHref base e = trim_right_set base ''/'' @ mkpath (map path_escape segs) @ (if eIsDir e then ''/'' else [])"
proof -
  obtain s0 ss where segs: "segs = s0 # ss" using assms(2) by (cases segs) auto
  obtain l where l: "segs = butlast segs @ [l]" "l = last segs" using assms(2) by auto
  have pl: "plain_seg l" using assms(1,2) l(2) by (simp add: list_all_iff)
  have ns: "\<forall>x \<in> set segs. CHR ''/'' \<notin> set x" using plain_no_slash [OF assms(1)] .
  let ?body = "s0 @ mkpath ss"
  have p: "mkpath segs = CHR ''/'' # ?body" by (simp add: segs)
  have s0: "s0 \<noteq> []" "CHR ''/'' \<notin> set s0" using assms(1) ns by (auto simp: segs plain_seg_def)
  have "trim_left_set (CHR ''/'' # ?body) ''/'' = ?body"
    using s0 by (cases s0) (auto simp: trim_left_set_def)
  moreover have "last ?body \<noteq> CHR ''/''"
  proof -
    have "last (mkpath segs) = last l" using pl unfolding l(1) [symmetric]
      by (subst l(1)) (simp add: plain_seg_def)
    moreover have "last l \<noteq> CHR ''/''" using pl by (auto simp: plain_seg_def dest: last_in_set)
    ultimately show ?thesis using p s0(1) by auto
  qed
  then have "trim_right_set ?body ''/'' = ?body" by (intro trim_right_set_idem) simp
  ultimately have tr: "trim_set (mkpath segs) ''/'' = ?body" by (simp add: trim_set_def p)
  have "split_byte (mkpath segs) (CHR ''/'') = [] # segs" using ns by (rule split_mkpath)
  then have sp: "split_byte ?body (CHR ''/'') = segs" by (simp add: p)
  have jn: "''/'' @ join_byte (map path_escape segs) (CHR ''/'') = mkpath (map path_escape segs)"
    using join_segs_mkpath [of "map path_escape segs"] assms(2) by simp
  let ?out = "trim_right_set base ''/'' @ mkpath (map path_escape segs)"
  have "last ?out = last (path_escape l)"
    using path_escape_not_Nil [of l] pl by (subst l(1)) (simp add: plain_seg_def)
  then have "last ?out \<noteq> CHR ''/''"
    using path_escape_no_slash [of l] path_escape_not_Nil [of l] pl by (metis last_in_set plain_seg_def)
  then have suf: "\<not> has_suffix ?out ''/''" by (auto simp: has_suffix_iff)
  have "ePath e \<noteq> []" "ePath e \<noteq> ''/''" using assms(3) s0 by (auto simp: segs)
  then show ?thesis using suf jn unfolding buildHref_def assms(3) tr Let_def sp by (auto simp: assms(3))
qed

text \<open>
  \<open>PROPFIND\<close> on a sub-collection doubles its path: for the resource itself the reported href of a
  plain file is the mount prefix, the user and the escaped path, as it should be, but for a
  directory other than the root the path appears twice, so a client that follows the href does
  not reach the resource.
\<close>

theorem propfind_href:
  assumes "hOwnerUID h = None" and "hPrefix h = pre @ ''/''" and "u \<noteq> []" and "CHR ''/'' \<notin> set u"
    and "list_all plain_seg segs" and "segs \<noteq> []" and "ePath root = mkpath segs"
  shows "buildHref (propfindBase h u (mkpath segs) root) root =
    (if eIsDir root then hPrefix h @ u @ mkpath segs @ mkpath (map path_escape segs) @ ''/''
     else hPrefix h @ u @ mkpath (map path_escape segs))"
proof -
  obtain s0 ss where segs: "segs = s0 # ss" using assms(6) by (cases segs) auto
  have c: "clean_path (mkpath segs)" using assms(5,6) clean_path_iff by blast
  note np = normalizePath_clean(2) [OF c]
  have lastp: "last (mkpath segs) \<noteq> CHR ''/''" "mkpath segs \<noteq> []"
    using assms(5,6) by (cases segs rule: rev_cases; auto simp: plain_seg_def dest: last_in_set)+
  then have ts: "trim_suffix (mkpath segs) ''/'' = mkpath segs" "\<not> has_suffix (hPrefix h @ u @ mkpath segs) ''/''"
    by (auto simp: trim_suffix_def has_suffix_slash)
  have base: "propfindBase h u (mkpath segs) root =
      (if eIsDir root then hPrefix h @ u @ mkpath segs @ ''/'' else hPrefix h @ u)"
    using np lastp ts by (auto simp: propfindBase_def hrefPrefix_def assms(1) Let_def)
  have tru: "trim_right_set (hPrefix h @ u) ''/'' = hPrefix h @ u"
    using assms(3,4) by (intro trim_right_set_idem) (auto dest: last_in_set)
  have "trim_right_set (hPrefix h @ u @ mkpath segs) ''/'' = hPrefix h @ u @ mkpath segs"
    using lastp by (intro trim_right_set_idem) auto
  then have trd: "trim_right_set (hPrefix h @ u @ mkpath segs @ ''/'') ''/'' = hPrefix h @ u @ mkpath segs"
    by (simp add: trim_right_set_def)
  show ?thesis unfolding buildHref_mkpath [OF assms(5-7)] base using tru trd by auto
qed

theorem propfind_href_witness:
  "buildHref (propfindBase demoHandler ''u'' ''/a'' (fnEntry (demoNode ''/a'' True 2))) (fnEntry (demoNode ''/a'' True 2))
     = ''/dav/files/u/a/a/''"
proof -
  have "path_escape ''a'' = ''a''" by code_simp
  then show ?thesis
    using propfind_href [of demoHandler "''/dav/files''" "''u''" "[''a'']" "fnEntry (demoNode ''/a'' True 2)"]
    by (simp add: demoHandler_sel plain_seg_def demoNode_def zeroEntry_def)
qed

end
