(* ===== verification/Webdav_MemRun.thy ===== *)
theory Webdav_MemRun
  imports Webdav_MemCopy Webdav_Service
begin

text \<open>
  Runs of \<open>InMemoryFS\<close>: a step relation with one rule per method, and the invariant of every state
  that a sequence of calls can reach. A second relation splits \<open>Write\<close> at the point where the
  code releases its mutex and shows the interleaving that breaks the tree.
\<close>

section \<open>Preservation of the map structure\<close>

lemma keys_putTree: "fs_keys_ok fs \<Longrightarrow> distinct_keys (utFiles t) \<Longrightarrow> fs_keys_ok (putTree fs u t)"
  by (auto simp: fs_keys_ok_def putTree_def update_conv' split: if_splits)

lemma keys_putFiles: "fs_keys_ok fs \<Longrightarrow> distinct_keys files \<Longrightarrow> fs_keys_ok (putFiles fs u t files)"
  by (simp add: putFiles_def keys_putTree)

lemma keys_nextID [simp]: "fs_keys_ok (fs\<lparr>fsNextID := i\<rparr>) \<longleftrightarrow> fs_keys_ok fs"
  by (simp add: fs_keys_ok_def)

lemma keys_clock [simp]: "fs_keys_ok (fs\<lparr>fsClock := i\<rparr>) \<longleftrightarrow> fs_keys_ok fs"
  by (simp add: fs_keys_ok_def)

lemma keys_updLocks:
  assumes "fs_keys_ok fs" and "\<And>m. distinct_keys m \<Longrightarrow> distinct_keys (f m)"
  shows "fs_keys_ok (updLocks fs u f)"
  using assms by (auto simp: fs_keys_ok_def updLocks_def update_conv' split: option.splits if_splits)

lemma keys_putLock: "fs_keys_ok fs \<Longrightarrow> fs_keys_ok (putLock fs u p lk)"
  by (auto simp: fs_keys_ok_def putLock_def update_conv' split: option.splits if_splits)

lemma keys_expire: "fs_keys_ok fs \<Longrightarrow> fs_keys_ok (expireMemLockLocked fs u p now)"
  by (auto simp: expireMemLockLocked_def intro!: keys_updLocks split: option.splits)

lemma distinct_keys_fold_update:
  "distinct_keys m \<Longrightarrow> distinct_keys (fold (\<lambda>kv acc. AList.update (g kv) (snd kv) acc) ms m)"
  by (induction ms arbitrary: m) auto

lemma keys_rename: "fs_keys_ok fs \<Longrightarrow> fs_keys_ok (renameMemLocksLocked fs u p q)"
  unfolding renameMemLocksLocked_def Let_def
  by (rule keys_updLocks) (auto intro!: distinct_keys_fold_update)

lemma keys_deleteLocks: "fs_keys_ok fs \<Longrightarrow> fs_keys_ok (deleteMemLocksLocked fs u p)"
  by (auto simp: deleteMemLocksLocked_def Let_def intro!: keys_updLocks)

lemma distinct_keys_moveAll: "distinct_keys files \<Longrightarrow> distinct_keys (fst (moveAll sha mt ms files))"
  by (induction sha mt ms files rule: moveAll.induct)
    (auto simp: moveOne_def Let_def split: prod.splits option.splits bool.splits)

lemma distinct_keys_cloneOne: "distinct_keys (snd st) \<Longrightarrow> distinct_keys (snd (fst (cloneOne sha mt p q st)))"
  by (auto simp: cloneOne_def Let_def split: prod.splits option.splits)

lemma distinct_keys_cloneAll: "distinct_keys (snd st) \<Longrightarrow> distinct_keys (snd (fst (cloneAll sha mt ms st)))"
proof (induction sha mt ms st rule: cloneAll.induct)
  case (2 sha mt p q rest st)
  then show ?case using distinct_keys_cloneOne [of st sha mt p q]
    by (auto split: prod.splits bool.splits)
qed simp

lemma distinct_keys_refresh: "distinct_keys files \<Longrightarrow> distinct_keys (refreshChildren fs u np files)"
  by (simp add: refreshChildren_def distinct_keys_def comp_def case_prod_unfold)

lemma keys_ensure:
  assumes "fs_keys_ok fs" and "ensureUser fs u = (fs1, t)"
  shows "fs_keys_ok fs1" and "distinct_keys (utFiles t)"
  using assms ensureUser_view(6,7) by blast+

lemmas keys_intros = keys_putTree keys_putFiles keys_updLocks keys_putLock keys_expire keys_rename keys_deleteLocks
  distinct_keys_refresh

lemma keys_overwrite:
  "distinct_keys files \<Longrightarrow> overwriteDst ow dst files = Inr (files', c) \<Longrightarrow> distinct_keys files'"
  by (auto simp: overwriteDst_def split: option.splits if_splits)

lemma keys_Stat: "fs_keys_ok fs \<Longrightarrow> fs_keys_ok (fst (Stat fs u p))"
  by (auto simp: Stat_def Let_def dest: keys_ensure intro!: keys_intros split: prod.split option.split)

lemma keys_List: "fs_keys_ok fs \<Longrightarrow> fs_keys_ok (fst (List fs u p))"
  by (auto simp: List_def Let_def dest: keys_ensure intro!: keys_intros split: prod.split option.split)

lemma keys_Read: "fs_keys_ok fs \<Longrightarrow> fs_keys_ok (fst (Read fs u p))"
  by (auto simp: Read_def Let_def dest: keys_ensure split: prod.split option.split)

lemma keys_Mkdir: "fs_keys_ok fs \<Longrightarrow> fs_keys_ok (fst (Mkdir sha fs u p))"
  by (auto simp: Mkdir_def Let_def allocID_def dest: keys_ensure intro!: keys_intros split: prod.split option.split)

lemma keys_Remove: "fs_keys_ok fs \<Longrightarrow> fs_keys_ok (fst (Remove fs u p))"
  by (auto simp: Remove_def Let_def dest: keys_ensure intro!: keys_intros split: prod.split option.split)

lemma keys_PatchProps: "fs_keys_ok fs \<Longrightarrow> fs_keys_ok (fst (PatchProps fs u p ops))"
  by (auto simp: PatchProps_def Let_def dest: keys_ensure intro!: keys_intros split: prod.split option.split)

lemma keys_writeCheck: "fs_keys_ok fs \<Longrightarrow> fs_keys_ok (fst (writeCheck fs u p))"
  by (auto simp: writeCheck_def Let_def dest: keys_ensure split: prod.split option.split)

lemma keys_writeCommit: "fs_keys_ok fs \<Longrightarrow> fs_keys_ok (fst (writeCommit sha fs u p b mt))"
  by (auto simp: writeCommit_def Let_def allocID_def dest: keys_ensure intro!: keys_intros split: prod.split option.split)

lemma keys_Write: "fs_keys_ok fs \<Longrightarrow> fs_keys_ok (fst (Write sha fs u p b mt))"
  using keys_writeCheck [of fs u p] keys_writeCommit
  by (auto simp: Write_def split: prod.split sum.split)

lemma moveAll_keys: "distinct_keys files \<Longrightarrow> moveAll sha mt ms files = (files', ok) \<Longrightarrow> distinct_keys files'"
  using distinct_keys_moveAll [of files sha mt ms] by simp

lemma cloneOne_keys: "distinct_keys files \<Longrightarrow> cloneOne sha mt p q (i, files) = (st, ok) \<Longrightarrow> distinct_keys (snd st)"
  using distinct_keys_cloneOne [of "(i, files)" sha mt p q] by simp

lemma cloneAll_keys: "distinct_keys (snd st) \<Longrightarrow> cloneAll sha mt ms st = (st', ok) \<Longrightarrow> distinct_keys (snd st')"
  using distinct_keys_cloneAll [of st sha mt ms] by simp

lemma keys_Move: "fs_keys_ok fs \<Longrightarrow> fs_keys_ok (fst (Move sha fs u p v q ow))"
  by (auto simp: Move_def Let_def simp del: moveAll.simps
      dest: keys_ensure keys_overwrite moveAll_keys
      intro!: keys_putFiles keys_rename split: prod.split option.split sum.split)

lemma keys_Copy: 
  assumes "fs_keys_ok fs"
  shows "fs_keys_ok (fst (Copy sha fs u p u q ow deep))"
proof -
  obtain fs1 t where e: "ensureUser fs u = (fs1, t)" by (cases "ensureUser fs u")
  let ?src = "normalizePath p" and ?dst = "normalizePath q"
  note k = keys_ensure [OF assms e]
  show ?thesis
  proof (cases "?src \<noteq> ''/'' \<and> ?dst \<noteq> ''/'' \<and> ?src \<noteq> ?dst
      \<and> (\<exists>n f1 c. transferError (utFiles t) ?src ?dst = Inr n \<and> overwriteDst ow ?dst (utFiles t) = Inr (f1, c))")
    case False
    then have "fst (Copy sha fs u p u q ow deep) \<in> {fs, fs1}"
      by (cases "transferError (utFiles t) ?src ?dst"; cases "overwriteDst ow ?dst (utFiles t)") (auto simp: Copy_def e Let_def)
    with k(1) assms show ?thesis by auto
  next
    case True
    then obtain n f1 c where te: "transferError (utFiles t) ?src ?dst = Inr n"
      and ow: "overwriteDst ow ?dst (utFiles t) = Inr (f1, c)" by blast
    obtain st1 ok1 where one: "cloneOne sha (fsClock fs1) ?src ?dst (fsNextID fs1, f1) = (st1, ok1)"
      by (cases "cloneOne sha (fsClock fs1) ?src ?dst (fsNextID fs1, f1)")
    let ?ms = "if ok1 \<and> eIsDir (fnEntry n) \<and> deep then childMoves ?src ?dst (snd st1) else []"
    obtain st2 ok2 where all: "cloneAll sha (fsClock fs1) ?ms st1 = (st2, ok2)"
      by (cases "cloneAll sha (fsClock fs1) ?ms st1")
    have "fst (Copy sha fs u p u q ow deep) = putFiles (fs1\<lparr>fsNextID := fst st2\<rparr>) u t (snd st2)"
      using True by (simp add: Copy_def e te ow one all Let_def split del: if_split) (simp split: option.split)
    then show ?thesis
      using k cloneAll_keys [OF cloneOne_keys [OF keys_overwrite [OF k(2) ow] one] all]
      by (simp add: keys_putFiles)
  qed
qed

lemma keys_Lock: "fs_keys_ok fs \<Longrightarrow> fs_keys_ok (fst (Lock fs u p req rnd))"
  using keys_Stat [of fs u "normalizePath p"]
  by (auto simp: Lock_def Let_def intro!: keys_putLock keys_expire split: prod.split option.split sum.split)

lemma keys_Unlock: "fs_keys_ok fs \<Longrightarrow> fs_keys_ok (fst (Unlock fs u p tok))"
  using keys_Stat [of fs u "normalizePath p"]
  by (auto simp: Unlock_def Let_def intro!: keys_updLocks keys_expire split: prod.split option.split sum.split)

lemma keys_checkLockUp: "fs_keys_ok fs \<Longrightarrow> fs_keys_ok (fst (checkLockUp fs u np hdr cur))"
  by (induction fs u np hdr cur rule: checkLockUp.induct)
    (subst checkLockUp.simps, auto simp: Let_def keys_expire split: option.split)

lemma keys_CheckLock: "fs_keys_ok fs \<Longrightarrow> fs_keys_ok (fst (CheckLock fs u p hdr))"
  by (simp add: CheckLock_def Let_def keys_checkLockUp)

section \<open>Preservation of the tree\<close>

definition shape :: "fileNode \<Rightarrow> string \<times> bool" where
  "shape n = (ePath (fnEntry n), eIsDir (fnEntry n))"

lemma shape_bare: "shape (bareNode n) = shape n"
  by (simp add: shape_def bareNode_def)

lemma tree_ok_shape:
  assumes "\<And>p. map_option shape (tr p) = map_option shape (tr' p)" and "tree_ok tr"
  shows "tree_ok tr'"
proof -
  have "\<exists>m. tr p = Some m \<and> shape m = shape n" if "tr' p = Some n" for p n
    using that assms(1) [of p] by auto
  moreover have "isDirAt tr' p" if "isDirAt tr p" for p
    using that assms(1) [of p] by (cases "tr' p") (auto simp: isDirAt_def shape_def)
  ultimately show ?thesis using assms(2) unfolding tree_ok_def shape_def by (metis prod.inject)
qed

lemma tree_ok_data:
  assumes "dataOf fs' u = dataOf fs u" and "tree_ok (treeOf fs u)"
  shows "tree_ok (treeOf fs' u)"
proof (rule tree_ok_shape [OF _ assms(2)])
  have "map_option shape (treeOf g u p) = map_option shape (snd (dataOf g u) p)" for g p
    by (auto simp: treeOf_def dataOf_def bareTree_def shape_bare option.map_comp comp_def split: option.split)
  then show "map_option shape (treeOf fs u p) = map_option shape (treeOf fs' u p)" for p
    using assms(1) by simp
qed

lemma Copy_Inr_ok:
  assumes "clean_path src" and "clean_path dst" and "tree_ok (treeOf fs u)" and "fs_keys_ok fs"
    and cp: "Copy sha fs u src u dst ow deep = (fs', Inr x)"
  shows "transfer_ok (treeOf fs u) src dst ow"
proof -
  obtain fs1 t where e: "ensureUser fs u = (fs1, t)" by (cases "ensureUser fs u")
  note v = ensureUser_view [OF e]
  have tk: "tree_ok (map_of (utFiles t))" "distinct_keys (utFiles t)" using v assms by simp_all
  from cp obtain n f1 created where ne: "src \<noteq> dst" and te: "transferError (utFiles t) src dst = Inr n"
    and ow: "overwriteDst ow dst (utFiles t) = Inr (f1, created)"
    and mo: "snd (cloneOne sha (fsClock fs1) src dst (fsNextID fs1, f1))"
    using normalizePath_clean [OF assms(1)] normalizePath_clean [OF assms(2)]
    by (auto simp: Copy_def e Let_def split: sum.splits prod.splits if_splits)
  have "map_of f1 src \<noteq> None" using mo by (auto simp: cloneOne_def split: option.splits)
  then show ?thesis using transfer_okI [OF assms(1-3) tk(2) v(2) ne te ow] by blast
qed

lemma PatchProps_tree:
  assumes "tree_ok (treeOf fs v)"
  shows "tree_ok (treeOf (fst (PatchProps fs u p ops)) v)"
proof (rule tree_ok_shape [OF _ assms])
  obtain fs1 t where e: "ensureUser fs u = (fs1, t)" by (cases "ensureUser fs u")
  show "map_option shape (treeOf fs v q) = map_option shape (treeOf (fst (PatchProps fs u p ops)) v q)" for q
    using ensureUser_view(2,3) [OF e]
    by (auto simp: PatchProps_def e Let_def treeOf_putTree update_conv' shape_def split: prod.split option.split)
qed

lemma mkdir_tree:
  assumes "clean_path p" and m: "Mkdir sha fs u p = (fs', r)" and "\<And>v. tree_ok (treeOf fs v)"
  shows "tree_ok (treeOf fs' v)"
proof (cases r)
  case (Inl e)
  then show ?thesis using Mkdir_error(1) [OF assms(1), of sha fs u fs' e v] m assms(3) by simp
next
  case (Inr e)
  note eff = Mkdir_effect [OF assms(1) m [unfolded Inr]]
  have "treeOf fs u p = None" "isDirAt (treeOf fs u) (path_dir p)" using Mkdir_ok_iff [OF assms(1) m] Inr by auto
  then have "tree_ok ((treeOf fs u)(p \<mapsto> \<lparr>fnEntry = e, fnData = None\<rparr>))"
    using assms eff(2,3) by (intro tree_ok_insert) (auto simp: isDirAt_def)
  then show ?thesis using eff(1) [of v] assms(3) by simp
qed

lemma remove_tree:
  assumes "clean_path p" and m: "Remove fs u p = (fs', r)" and "\<And>v. tree_ok (treeOf fs v)"
  shows "tree_ok (treeOf fs' v)"
proof (cases r)
  case (Inl e)
  then show ?thesis using Remove_error(1) [OF assms(1), of fs u fs' e v] m assms(3) by simp
next
  case (Inr e)
  then show ?thesis
    using Remove_effect(1) [OF assms(1) assms(3) m [unfolded Inr, simplified], of v]
      tree_ok_prune [OF assms(3) assms(1)] assms(3) by simp
qed

lemma Write_tree:
  assumes "clean_path p" and "isDirAt (treeOf fs u) (path_dir p)" and "tree_ok (treeOf fs v)"
  shows "tree_ok (treeOf (fst (Write sha fs u p (Inr body) mt)) v)"
proof (cases "Write sha fs u p (Inr body) mt")
  case (Pair fs' r)
  note eff = Write_effect [OF assms(1) Pair]
  show ?thesis
  proof (cases r)
    case (Inl err)
    with eff Pair assms(3) show ?thesis by simp
  next
    case (Inr x)
    obtain e c where x: "x = (e, c)" by (cases x)
    note eff = eff [unfolded Inr x, simplified]
    have "tree_ok ((treeOf fs u)(p \<mapsto> \<lparr>fnEntry = e, fnData = Some body\<rparr>))" if "v = u"
      using assms eff that by (intro tree_ok_insert) (auto simp: isDirAt_def split: option.splits)
    with eff Pair assms(3) show ?thesis by auto
  qed
qed

section \<open>Runs\<close>

text \<open>
  One call of a method, or the passing of time. The paths of the calls that create nodes are
  clean, a \<open>Write\<close> goes below a directory, and a call that panics is not a step.
\<close>

inductive mem_step :: "(string \<Rightarrow> string) \<Rightarrow> InMemoryFS \<Rightarrow> InMemoryFS \<Rightarrow> bool" for sha where
  stat: "Stat fs u p = (fs', r) \<Longrightarrow> mem_step sha fs fs'"
| list: "List fs u p = (fs', r) \<Longrightarrow> mem_step sha fs fs'"
| read: "Read fs u p = (fs', r) \<Longrightarrow> mem_step sha fs fs'"
| mkdir: "clean_path p \<Longrightarrow> Mkdir sha fs u p = (fs', r) \<Longrightarrow> mem_step sha fs fs'"
| remove: "clean_path p \<Longrightarrow> Remove fs u p = (fs', r) \<Longrightarrow> mem_step sha fs fs'"
| move: "clean_path p \<Longrightarrow> clean_path q \<Longrightarrow> Move sha fs u p u q ow = (fs', r) \<Longrightarrow> r \<noteq> Inl Panic \<Longrightarrow> mem_step sha fs fs'"
| copy: "clean_path p \<Longrightarrow> clean_path q \<Longrightarrow> Copy sha fs u p u q ow deep = (fs', r) \<Longrightarrow> r \<noteq> Inl Panic \<Longrightarrow> mem_step sha fs fs'"
| write': "clean_path p \<Longrightarrow> isDirAt (treeOf fs u) (path_dir p) \<Longrightarrow> Write sha fs u p (Inr b) mt = (fs', r) \<Longrightarrow> mem_step sha fs fs'"
| patch: "PatchProps fs u p ops = (fs', r) \<Longrightarrow> mem_step sha fs fs'"
| lock: "Lock fs u p req rnd = (fs', r) \<Longrightarrow> mem_step sha fs fs'"
| unlock: "Unlock fs u p tok = (fs', r) \<Longrightarrow> mem_step sha fs fs'"
| check: "CheckLock fs u p hdr = (fs', r) \<Longrightarrow> mem_step sha fs fs'"
| tick: "fsClock fs \<le> now \<Longrightarrow> mem_step sha fs (fs\<lparr>fsClock := now\<rparr>)"

inductive mem_reach :: "(string \<Rightarrow> string) \<Rightarrow> InMemoryFS \<Rightarrow> bool" for sha where
  start: "mem_reach sha (NewInMemoryFS now)"
| step: "mem_reach sha fs \<Longrightarrow> mem_step sha fs fs' \<Longrightarrow> mem_reach sha fs'"

definition mem_inv :: "InMemoryFS \<Rightarrow> bool" where
  "mem_inv fs \<longleftrightarrow> fs_keys_ok fs \<and> (\<forall>u. tree_ok (treeOf fs u))"

lemma mem_inv_keys: "mem_inv fs \<Longrightarrow> fs_keys_ok fs"
  by (simp add: mem_inv_def)

lemma mem_inv_pure:
  assumes "mem_inv fs" and "x = (fs', r)" and "fs_keys_ok (fst x)" and "dataOf (fst x) = dataOf fs"
  shows "mem_inv fs'"
  using assms by (auto simp: mem_inv_def intro: tree_ok_data)

lemma mem_inv_move:
  assumes "mem_inv fs" and "clean_path p" and "clean_path q" and mv: "Move sha fs u p u q ow = (fs', r)"
    and "r \<noteq> Inl Panic"
  shows "tree_ok (treeOf fs' v)"
proof (cases r)
  case (Inl e)
  then have "dataOf fs' = dataOf fs"
    using mem.move_ok [of u "undefined" sha undefined p q ow] mv assms(5)
    by (auto simp: tidy_op_def someEntry_def dest: spec [of _ fs])
  then show ?thesis using assms(1) by (auto simp: mem_inv_def intro: tree_ok_data)
next
  case (Inr x)
  have ok: "tree_ok (treeOf fs u)" "fs_keys_ok fs" using assms(1) by (auto simp: mem_inv_def)
  note tok = Move_Inr_ok [OF assms(2,3) ok mv [unfolded Inr]]
  show ?thesis
    using Move_run [OF assms(2,3) ok tok, of sha] mv tree_ok_moveSpec [OF assms(2,3) ok(1) tok, of sha] assms(1)
    by (auto simp: mem_inv_def)
qed

lemma mem_inv_copy:
  assumes "mem_inv fs" and "clean_path p" and "clean_path q" and cp: "Copy sha fs u p u q ow deep = (fs', r)"
    and "r \<noteq> Inl Panic"
  shows "tree_ok (treeOf fs' v)"
proof (cases r)
  case (Inl e)
  then have "dataOf fs' = dataOf fs"
    using mem.copy_ok [of u "undefined" sha undefined p q ow deep] cp assms(5)
    by (auto simp: tidy_op_def someEntry_def dest: spec [of _ fs])
  then show ?thesis using assms(1) by (auto simp: mem_inv_def intro: tree_ok_data)
next
  case (Inr x)
  have ok: "tree_ok (treeOf fs u)" "fs_keys_ok fs" using assms(1) by (auto simp: mem_inv_def)
  note tok = Copy_Inr_ok [OF assms(2,3) ok cp [unfolded Inr]]
  show ?thesis
    using Copy_run [OF assms(2,3) ok tok, of sha deep] cp tree_ok_copyRel [OF assms(2,3) ok(1) tok] assms(1)
    by (cases "v = u") (auto simp: mem_inv_def)
qed

lemma mem_inv_step: "mem_step sha fs fs' \<Longrightarrow> mem_inv fs \<Longrightarrow> mem_inv fs'"
proof (induction rule: mem_step.induct)
  case (mkdir p fs u fs' r)
  then have "tree_ok (treeOf fs' v)" for v
    using mkdir_tree [OF mkdir(1,2)] by (auto simp: mem_inv_def)
  with mkdir keys_Mkdir [of fs sha u p] show ?case by (simp add: mem_inv_def)
next
  case (remove p fs u fs' r)
  then have "tree_ok (treeOf fs' v)" for v
    using remove_tree [OF remove(1,2)] by (auto simp: mem_inv_def)
  with remove keys_Remove [of fs u p] show ?case by (simp add: mem_inv_def)
next
  case (move p q fs u ow fs' r)
  then show ?case using keys_Move [of fs sha u p u q ow] mem_inv_move [of fs p q sha u ow fs' r]
    by (simp add: mem_inv_def)
next
  case (copy p q fs u ow deep fs' r)
  then show ?case using keys_Copy [of fs sha u p q ow deep] mem_inv_copy [of fs p q sha u ow deep fs' r]
    by (simp add: mem_inv_def)
next
  case (write' p fs u b mt fs' r)
  then show ?case using keys_Write [of fs sha u p "Inr b" mt] Write_tree [of p fs u _ sha b mt]
    by (auto simp: mem_inv_def)
next
  case (patch fs u p ops fs' r)
  then show ?case using keys_PatchProps [of fs u p ops] PatchProps_tree [of fs _ u p ops]
    by (auto simp: mem_inv_def)
next
  case (tick fs now)
  then show ?case by (simp add: mem_inv_def treeOf_def)
next
  case (stat fs u p fs' r)
  show ?case by (rule mem_inv_pure [OF stat(2,1)]) (simp_all add: keys_Stat Stat_pure mem_inv_keys [OF stat(2)])
next
  case (list fs u p fs' r)
  show ?case by (rule mem_inv_pure [OF list(2,1)]) (simp_all add: keys_List List_pure mem_inv_keys [OF list(2)])
next
  case (read fs u p fs' r)
  show ?case by (rule mem_inv_pure [OF read(2,1)]) (simp_all add: keys_Read Read_pure mem_inv_keys [OF read(2)])
next
  case (lock fs u p req rnd fs' r)
  show ?case by (rule mem_inv_pure [OF lock(2,1)]) (simp_all add: keys_Lock Lock_pure mem_inv_keys [OF lock(2)])
next
  case (unlock fs u p tok fs' r)
  show ?case by (rule mem_inv_pure [OF unlock(2,1)]) (simp_all add: keys_Unlock Unlock_pure mem_inv_keys [OF unlock(2)])
next
  case (check fs u p hdr fs' r)
  show ?case by (rule mem_inv_pure [OF check(2,1)]) (simp_all add: keys_CheckLock CheckLock_pure mem_inv_keys [OF check(2)])
qed

text \<open>
  C8. The file tree stays well formed: in every state that a new file system reaches by any sequence of
  its methods, with clean paths, writes below directories and no panic, every node of every user
  has a clean path, records that path in its entry and lies below a directory, and the maps have
  distinct keys.
\<close>

theorem mem_reach_invariant:
  assumes "mem_reach sha fs"
  shows "fs_keys_ok fs \<and> (\<forall>u. tree_ok (treeOf fs u))"
proof -
  from assms have "mem_inv fs"
  proof (induction rule: mem_reach.induct)
    case (start now)
    show ?case by (simp add: mem_inv_def NewInMemoryFS_def fs_keys_ok_def treeOf_def tree_ok_def)
  qed (rule mem_inv_step)
  then show ?thesis by (simp add: mem_inv_def)
qed

theorem mem_reach_invariant_witness:
  "tree_ok (treeOf (fst (Mkdir (\<lambda>s. s) (NewInMemoryFS 0) ''u'' ''/a'')) ''u'')"
proof -
  obtain fs' r where m: "Mkdir (\<lambda>s. s) (NewInMemoryFS 0) ''u'' ''/a'' = (fs', r)"
    by (cases "Mkdir (\<lambda>s. s) (NewInMemoryFS 0) ''u'' ''/a''")
  have "mem_reach (\<lambda>s. s) fs'"
    by (rule mem_reach.step [OF mem_reach.start mem_step.mkdir [OF demo_clean(1) m]])
  then show ?thesis using mem_reach_invariant [of "\<lambda>s. s" fs'] m by simp
qed

section \<open>The window inside Write\<close>

lemma writeCheck_ok:
  assumes "clean_path p" and "isDirAt (treeOf fs u) (path_dir p)"
  shows "\<exists>fs1. writeCheck fs u p = (fs1, Inr ()) \<and> treeOf fs1 = treeOf fs"
proof -
  obtain fs1 t where e: "ensureUser fs u = (fs1, t)" by (cases "ensureUser fs u")
  note v = ensureUser_view [OF e]
  show ?thesis using assms v(2,3) normalizePath_clean [OF assms(1)]
    by (auto simp: writeCheck_def e Let_def isDirAt_def fun_eq_iff)
qed

lemma writeCommit_new:
  assumes "clean_path p" and "treeOf fs u p = None"
  shows "\<exists>fs' e. writeCommit sha fs u p body mt = (fs', Inr (e, True))
    \<and> treeOf fs' u = (treeOf fs u)(p \<mapsto> \<lparr>fnEntry = e, fnData = Some body\<rparr>)"
proof -
  obtain fs1 t where e: "ensureUser fs u = (fs1, t)" by (cases "ensureUser fs u")
  note v = ensureUser_view [OF e]
  show ?thesis using assms v(2) normalizePath_clean [OF assms(1)]
    by (auto simp: writeCommit_def e Let_def allocID_def update_conv' fun_eq_iff)
qed

text \<open>
  The parent check of \<open>Write\<close> is not atomic with its commit: the mutex is released while the body is
  read, so when another client removes the parent collection in between, both calls succeed and
  the file is left below a collection that no longer exists, outside the reach of any listing.
\<close>

theorem write_race_orphans_file:
  assumes "clean_path p" and "tree_ok (treeOf fs u)" and "path_dir p \<noteq> ''/''"
    and "isDirAt (treeOf fs u) (path_dir p)"
  shows "\<exists>fs1 fs2 fs3 e. writeCheck fs u p = (fs1, Inr ())
    \<and> Remove fs1 u (path_dir p) = (fs2, Inr ())
    \<and> writeCommit sha fs2 u p body mt = (fs3, Inr (e, True))
    \<and> treeOf fs3 u p \<noteq> None \<and> treeOf fs3 u (path_dir p) = None \<and> \<not> tree_ok (treeOf fs3 u)"
proof -
  obtain fs1 where c: "writeCheck fs u p = (fs1, Inr ())" "treeOf fs1 = treeOf fs"
    using writeCheck_ok [OF assms(1,4)] by blast
  have pc: "clean_path (path_dir p)" "below (path_dir p) p" using path_dir_clean [OF assms(1,3)] by auto
  obtain fs2 r where rm: "Remove fs1 u (path_dir p) = (fs2, r)" by (cases "Remove fs1 u (path_dir p)")
  have r: "r = Inr ()"
    using Remove_error(2) [OF pc(1), of fs1 u fs2] rm assms(3,4) c(2) by (cases r) (auto simp: isDirAt_def)
  have t2: "treeOf fs2 u = prune (path_dir p) (treeOf fs u)"
    using Remove_effect(1) [OF pc(1) _ rm [unfolded r], of u] assms(2) c(2) by simp
  then have "treeOf fs2 u p = None" using pc(2) by (simp add: prune_def)
  then obtain fs3 e where w: "writeCommit sha fs2 u p body mt = (fs3, Inr (e, True))"
    "treeOf fs3 u = (treeOf fs2 u)(p \<mapsto> \<lparr>fnEntry = e, fnData = Some body\<rparr>)"
    using writeCommit_new [OF assms(1)] by blast
  have ne: "path_dir p \<noteq> p" using pc(2) below_irrefl by metis
  then have gone: "treeOf fs3 u (path_dir p) = None" "treeOf fs3 u p \<noteq> None" using w(2) t2 by (auto simp: prune_def)
  then have "\<not> tree_ok (treeOf fs3 u)" using assms(3) by (fastforce simp: tree_ok_def isDirAt_def)
  with c rm r w gone show ?thesis by auto
qed

theorem write_race_orphans_file_witness:
  "\<exists>fs1 fs2 fs3 e. writeCheck demoFS ''u'' ''/a/g'' = (fs1, Inr ()) \<and> Remove fs1 ''u'' ''/a'' = (fs2, Inr ())
     \<and> writeCommit (\<lambda>s. s) fs2 ''u'' ''/a/g'' ''x'' None = (fs3, Inr (e, True)) \<and> \<not> tree_ok (treeOf fs3 ''u'')"
proof -
  have d: "path_dir ''/a/g'' = ''/a''" by code_simp
  then have "isDirAt (treeOf demoFS ''u'') (path_dir ''/a/g'')"
    by (simp add: isDirAt_def demo_tree demoFiles_def demoNode_def)
  then show ?thesis
    using write_race_orphans_file [OF demo_clean(4) demo_ok, of "\<lambda>s. s" "''x''" None] by (auto simp: d)
qed

end
