(* ===== verification/Files_Path.thy ===== *)
theory Files_Path
  imports Webdav_Types "HOL-Library.Word" "HOL-Library.List_Lexorder" "HOL-Library.Char_ord" "HOL-Library.Multiset"
begin

text \<open>
  Paths, fingerprints and errors of the files package (\<^verbatim>\<open>src/internal/files/path.go\<close>,
  \<^verbatim>\<open>errors.go\<close>, \<^verbatim>\<open>file.go\<close>, the key hash of \<^verbatim>\<open>condwrite.go\<close> and the error mapping of \<^verbatim>\<open>dav.go\<close>).
  \<open>NormalizePath\<close> is the gate through which every client path reaches the database and the
  storage backend; it is shown to let only clean paths pass. SHA-1 is the parameter \<open>sha1hex\<close>.
\<close>

section \<open>Errors\<close>

text \<open>The sentinel errors of \<^verbatim>\<open>errors.go\<close>, the key lock of the encryption package, and any other error.\<close>

datatype files_error =
    FErrNotFound | FErrExists | FErrParentMissing | FErrNotDir | FErrIsDir | FErrInvalidPath
  | FErrForbidden | FErrETagConflict | FErrNameBudget | FErrKeyLocked | FErrOther string

type_synonym 'a files_result = "files_error + 'a"

definition errText :: "files_error \<Rightarrow> string" where
  "errText err = (case err of
      FErrNotFound \<Rightarrow> ''files: not found''
    | FErrExists \<Rightarrow> ''files: already exists''
    | FErrParentMissing \<Rightarrow> ''files: parent missing''
    | FErrNotDir \<Rightarrow> ''files: not a directory''
    | FErrIsDir \<Rightarrow> ''files: is a directory''
    | FErrInvalidPath \<Rightarrow> ''files: invalid path''
    | FErrForbidden \<Rightarrow> ''files: forbidden''
    | FErrETagConflict \<Rightarrow> ''files: etag conflict''
    | FErrNameBudget \<Rightarrow> ''files: name length budget exceeded''
    | FErrKeyLocked \<Rightarrow> ''encrypt: key locked''
    | FErrOther s \<Rightarrow> s)"

text \<open>
  \<open>keyLockedError\<close> answers \<open>errors.Is(err, webdav.ErrForbidden)\<close>; any other error passes through, and
  none of them is a sentinel of the webdav package.
\<close>

definition mapKeyLocked :: "files_error \<Rightarrow> fs_error" where
  "mapKeyLocked err = (if err = FErrKeyLocked then ErrForbidden else ErrOther (errText err))"

definition mapMeta :: "files_error \<Rightarrow> fs_error" where
  "mapMeta err = (case err of
      FErrNotFound \<Rightarrow> ErrNotFound
    | FErrExists \<Rightarrow> ErrExists
    | FErrParentMissing \<Rightarrow> ErrParentMissing
    | FErrNotDir \<Rightarrow> ErrNotDir
    | FErrIsDir \<Rightarrow> ErrIsDir
    | FErrForbidden \<Rightarrow> ErrForbidden
    | FErrETagConflict \<Rightarrow> ErrPrecondition
    | FErrNameBudget \<Rightarrow> ErrBadRequest
    | _ \<Rightarrow> mapKeyLocked err)"

section \<open>Names and paths\<close>

definition maxTransferIDLen :: int where "maxTransferIDLen = 64"

text \<open>
  The loop runs over code points; the admitted ones are ASCII, so a byte outside ASCII refuses the
  name whether or not it belongs to a valid code point.
\<close>

definition transferIDChar :: "char \<Rightarrow> bool" where
  "transferIDChar c = (let r = of_char c :: int in
     in_rng 97 122 r \<or> in_rng 65 90 r \<or> in_rng 48 57 r \<or> r = 95 \<or> r = 45)"

definition ValidTransferID :: "string \<Rightarrow> bool" where
  "ValidTransferID tid \<longleftrightarrow>
     (if tid = [] \<or> int (length tid) > maxTransferIDLen then False else list_all transferIDChar tid)"

text \<open>The first half of \<open>NormalizePath\<close>: back slashes, the leading slash, trailing slashes.\<close>

definition slashes :: "char \<Rightarrow> char" where
  "slashes c = (if c = CHR 0x5C then CHR ''/'' else c)"

definition leadSlash :: "string \<Rightarrow> string" where
  "leadSlash p0 =
     (let p1 = map slashes p0; p2 = (if p1 = [] then ''/'' else p1)
      in if \<not> has_prefix p2 ''/'' then CHR ''/'' # p2 else p2)"

definition slashedPath :: "string \<Rightarrow> string" where
  "slashedPath p0 =
     (let p = leadSlash p0 in
      if length p > 1 then (let q = trim_right_set p ''/'' in if q = [] then ''/'' else q) else p)"

definition NormalizePath :: "string \<Rightarrow> string files_result" where
  "NormalizePath p0 =
     (if CHR 0x00 \<in> set p0 \<or> \<not> utf8_valid p0 then Inl FErrInvalidPath
      else
        (let p = slashedPath p0 in
         if p = ''/'' then Inr ''/''
         else
           (let out = tl (split_byte p (CHR ''/'')) in
            if list_ex (\<lambda>seg. seg = [] \<or> seg = ''.'' \<or> seg = ''..'') out then Inl FErrInvalidPath
            else if out = [] then Inr ''/''
            else Inr (CHR ''/'' # join_byte out (CHR ''/'')))))"

definition storageKey :: "string \<Rightarrow> string \<Rightarrow> string result" where
  "storageKey uid rel = (case NormalizePath rel of
      Inl _ \<Rightarrow> Inl ErrForbidden
    | Inr np \<Rightarrow> (let rest = trim_prefix np ''/'' in
        if rest = [] then Inr uid else Inr (uid @ ''/'' @ rest)))"

section \<open>Fingerprints\<close>

record File =
  fID :: int
  fUserID :: int
  fParentID :: "int option"
  fName :: string
  fPath :: string
  fIsDir :: bool
  fSize :: int
  fMtime :: int
  fETag :: string
  fChecksum :: string
  fMIME :: string
  fPermissions :: int
  fKeyUUID :: "string option"
  fNameScheme :: int

definition ComputeFileETag :: "(string \<Rightarrow> string) \<Rightarrow> int \<Rightarrow> int \<Rightarrow> int \<Rightarrow> string" where
  "ComputeFileETag sha1hex i mtime sz =
     sha1hex (int_to_dec i @ CHR 0x00 # int_to_dec (unix_nano mtime) @ CHR 0x00 # int_to_dec sz)"

text \<open>\<open>sort.Slice\<close> by path, compared byte-wise; the paths of the children of a directory are distinct.\<close>

definition ComputeDirETag :: "(string \<Rightarrow> string) \<Rightarrow> File list \<Rightarrow> string" where
  "ComputeDirETag sha1hex children =
     sha1hex (concat (map (\<lambda>c. fETag c @ [CHR 0x00]) (sort_key fPath children)))"

definition fnv32a :: "string \<Rightarrow> 32 word" where
  "fnv32a s = fold (\<lambda>c h. (xor h (of_int (of_char c))) * 16777619) s 2166136261"

definition writeStripe :: "string \<Rightarrow> nat" where
  "writeStripe key = unat (fnv32a key mod 256)"

section \<open>What passes the gate\<close>

lemma trim_right_slash_last:
  assumes "trim_right_set p ''/'' \<noteq> []" shows "last (trim_right_set p ''/'') \<noteq> CHR ''/''"
  using trim_right_set_last [of p "''/''"] assms by auto

lemma split_hd_prefix: "has_prefix p ''/'' \<Longrightarrow> \<exists>segs. split_byte p (CHR ''/'') = [] # segs"
  by (cases p) auto

lemma NormalizePath_result:
  assumes "NormalizePath p = Inr q"
  shows "q = ''/'' \<or> clean_path q"
proof -
  have ok: "clean_path (CHR ''/'' # join_byte out (CHR ''/''))"
    if "out \<noteq> []" "out = tl (split_byte r (CHR ''/''))" "\<not> list_ex (\<lambda>seg. seg = [] \<or> seg = ''.'' \<or> seg = ''..'') out" for out r
  proof -
    have "CHR ''/'' \<notin> set x" if "x \<in> set out" for x
      using that \<open>out = _\<close> split_byte_pieces [of x r "CHR ''/''"] by (metis list.set_sel(2) split_byte_not_Nil)
    then have "list_all plain_seg out" using that(3) by (auto simp: list_all_iff list_ex_iff plain_seg_def)
    then show ?thesis using that(1) by (auto simp: clean_path_iff join_segs_mkpath)
  qed
  show ?thesis using assms
    by (auto simp: NormalizePath_def Let_def split: if_splits intro!: ok)
qed

lemma NormalizePath_clean:
  assumes "clean_path q" and "utf8_valid q" and "CHR 0x00 \<notin> set q" and "CHR 0x5C \<notin> set q"
  shows "NormalizePath q = Inr q"
proof -
  obtain segs s where q: "list_all plain_seg (segs @ [s])" "q = mkpath (segs @ [s])"
    using assms(1) by (rule clean_pathE)
  have s: "s \<noteq> []" "last s \<noteq> CHR ''/''" using q(1) by (auto simp: plain_seg_def dest: last_in_set)
  then have l: "last q \<noteq> CHR ''/''" using q(2) by simp
  then have tr: "trim_right_set q ''/'' = q" by (intro trim_right_set_idem) simp
  have pre: "has_prefix q ''/''" "q \<noteq> []" using q(2) by (cases segs; auto)+
  have ne: "q \<noteq> ''/''" using l by auto
  have m: "map slashes q = q"
    using assms(4) by (induction q) (auto simp: slashes_def)
  have sl: "slashedPath q = q" using pre tr by (auto simp: slashedPath_def leadSlash_def m Let_def)
  have sp: "split_byte q (CHR ''/'') = [] # (segs @ [s])"
    unfolding q(2) by (rule split_mkpath) (rule plain_no_slash [OF q(1)])
  have nx: "\<not> list_ex (\<lambda>seg. seg = [] \<or> seg = ''.'' \<or> seg = ''..'') (segs @ [s])"
    using q(1) by (auto simp: list_ex_iff list_all_iff plain_seg_def)
  have jn: "CHR ''/'' # join_byte (segs @ [s]) (CHR ''/'') = q"
    using join_segs_mkpath [of "segs @ [s]"] q(2) by simp
  show ?thesis unfolding NormalizePath_def Let_def sl
    using assms(2,3) ne nx jn by (simp add: sp del: list_ex_append)
qed

section \<open>UTF-8 validity\<close>

lemma of_char_range: "0 \<le> (of_char c :: int)" "(of_char c :: int) < 256"
  by (auto simp: of_char_def intro: horner_sum_bound)

text \<open>A code point never reaches over an ASCII byte.\<close>

lemma decode_rune_append_ascii:
  assumes "a \<noteq> []" and "b = [] \<or> (of_char (hd b) :: int) < 128" and "decode_rune (a @ b) = Some (r, w)"
  shows "decode_rune a = Some (r, w) \<and> w \<le> length a"
proof -
  obtain a0 a' where a: "a = a0 # a'" using assms(1) by (cases a) auto
  consider (zero) "a' = []" | (one) a1 where "a' = [a1]" | (two) a1 a2 where "a' = [a1, a2]"
    | (more) a1 a2 a3 a'' where "a' = a1 # a2 # a3 # a''"
    by (metis list.exhaust)
  note len = this
  show ?thesis
  proof (cases b)
    case Nil
    show ?thesis using len
      by cases (use assms(3) in \<open>auto simp: a Nil decode_rune_def split: if_splits\<close>)
  next
    case (Cons b0 b')
    then have b0: "(of_char b0 :: int) < 128" using assms(2) by simp
    then have n: "\<not> utf8_second x (of_char b0)" "\<not> in_rng 128 191 (of_char b0)" for x
      by (auto simp: utf8_second_def in_rng_def)
    show ?thesis using len
      by cases (use assms(3) n in \<open>auto simp: a Cons decode_rune_def split: if_splits list.splits\<close>)
  qed
qed

lemma utf8_valid_prefix:
  assumes "utf8_valid (a @ b)" and "b = [] \<or> (of_char (hd b) :: int) < 128"
  shows "utf8_valid a"
  using assms(1)
proof (induction "length a" arbitrary: a rule: less_induct)
  case less
  show ?case
  proof (cases "a = []")
    case False
    obtain r w where d: "decode_rune (a @ b) = Some (r, w)" and v: "utf8_valid (drop w (a @ b))"
      using less.prems False by (subst (asm) utf8_valid.simps) (auto split: option.splits)
    note da = decode_rune_append_ascii [OF False assms(2) d]
    have w: "0 < w" using decode_rune_width [OF d] by simp
    have "utf8_valid (drop w a)" using less.hyps [of "drop w a"] v da w False by simp
    then show ?thesis using da by (subst utf8_valid.simps) simp
  qed (simp add: utf8_valid.simps)
qed

lemma utf8_valid_Cons_ascii: "(of_char c :: int) < 128 \<Longrightarrow> utf8_valid (c # s) = utf8_valid s"
  by (subst utf8_valid.simps) (simp add: decode_rune_def)

lemma decode_rune_map:
  assumes "\<And>c. (of_char (f c) :: int) < 128 \<longleftrightarrow> (of_char c :: int) < 128"
    and "\<And>c. \<not> (of_char c :: int) < 128 \<Longrightarrow> f c = c"
  shows "map_option snd (decode_rune (map f s)) = map_option snd (decode_rune s)"
proof -
  have second: "utf8_second x (of_char (f c)) = utf8_second x (of_char c)"
    "in_rng 128 191 (of_char (f c)) = in_rng 128 191 (of_char c)" for x c
    using assms(1,2) [of c] by (cases "(of_char c :: int) < 128"; auto simp: utf8_second_def in_rng_def)+
  show ?thesis
  proof (cases s)
    case (Cons c cs)
    show ?thesis
    proof (cases "(of_char c :: int) < 128")
      case True
      then show ?thesis using assms(1) by (simp add: Cons decode_rune_def)
    next
      case False
      note fc = assms(2) [OF False]
      consider "cs = []" | c1 where "cs = [c1]" | c1 c2 where "cs = [c1, c2]" | c1 c2 c3 c' where "cs = c1 # c2 # c3 # c'"
        by (metis list.exhaust)
      then show ?thesis
        by cases (auto simp: Cons decode_rune_def fc second)
    qed
  qed (simp add: decode_rune_def)
qed

lemma utf8_valid_map:
  assumes "\<And>c. (of_char (f c) :: int) < 128 \<longleftrightarrow> (of_char c :: int) < 128"
    and "\<And>c. \<not> (of_char c :: int) < 128 \<Longrightarrow> f c = c"
  shows "utf8_valid (map f s) = utf8_valid s"
proof (induction s rule: utf8_valid.induct)
  case (1 s)
  have d: "map_option snd (decode_rune (map f s)) = map_option snd (decode_rune s)"
    by (rule decode_rune_map) (use assms in auto)
  show ?case
  proof (cases "decode_rune s")
    case None
    then have "decode_rune (map f s) = None" using d by simp
    with None show ?thesis by (simp add: utf8_valid.simps [of s] utf8_valid.simps [of "map f s"])
  next
    case (Some rw)
    obtain r w where rw: "rw = (r, w)" by (cases rw)
    obtain r' where "decode_rune (map f s) = Some (r', w)" using d Some rw by auto
    moreover have "s \<noteq> [] \<Longrightarrow> utf8_valid (map f (drop w s)) = utf8_valid (drop w s)"
      using "1.IH" [OF _ Some rw [symmetric]] by simp
    ultimately show ?thesis using Some rw
      by (simp add: utf8_valid.simps [of s] utf8_valid.simps [of "map f s"] drop_map)
  qed
qed

section \<open>Main theorems\<close>

lemma slashes_ascii:
  "(of_char (slashes c) :: int) < 128 \<longleftrightarrow> (of_char c :: int) < 128"
  "\<not> (of_char c :: int) < 128 \<Longrightarrow> slashes c = c"
  by (auto simp: slashes_def)

lemma leadSlash_prefix: "has_prefix (leadSlash p) ''/''"
  by (auto simp: leadSlash_def Let_def)

lemma trim_right_replicate: "\<exists>k. r = trim_right_set r ''/'' @ replicate k (CHR ''/'')"
proof -
  have "r = trim_right_set r ''/'' @ rev (takeWhile (\<lambda>c. c \<in> set ''/'') (rev r))"
    unfolding trim_right_set_def by (metis rev_append rev_rev_ident takeWhile_dropWhile_id)
  moreover have "rev (takeWhile (\<lambda>c. c \<in> set ''/'') (rev r)) = replicate (length (takeWhile (\<lambda>c. c \<in> set ''/'') (rev r))) (CHR ''/'')"
    by (rule replicate_eqI) (auto dest: set_takeWhileD)
  ultimately show ?thesis by metis
qed

lemma slashedPath_decomp:
  "has_prefix (slashedPath p) ''/'' \<and> (slashedPath p = ''/'' \<or> (\<exists>k. leadSlash p = slashedPath p @ replicate k (CHR ''/'')))"
proof -
  obtain k where k: "leadSlash p = trim_right_set (leadSlash p) ''/'' @ replicate k (CHR ''/'')"
    using trim_right_replicate by blast
  show ?thesis
  proof (cases "length (leadSlash p) > 1 \<and> trim_right_set (leadSlash p) ''/'' \<noteq> []")
    case True
    then have "slashedPath p = trim_right_set (leadSlash p) ''/''" by (simp add: slashedPath_def Let_def)
    moreover have "has_prefix (trim_right_set (leadSlash p) ''/'') ''/''"
      using leadSlash_prefix [of p] True k by (cases "trim_right_set (leadSlash p) ''/''") (auto simp: has_prefix_iff)
    ultimately show ?thesis using k by auto
  next
    case False
    then have "slashedPath p = ''/'' \<or> slashedPath p = leadSlash p" by (auto simp: slashedPath_def Let_def)
    then show ?thesis using leadSlash_prefix [of p] by (metis append_Nil2 has_prefix_Cons has_prefix_Nil replicate_0)
  qed
qed

lemma NormalizePath_slashed:
  assumes "NormalizePath p = Inr q" shows "q = slashedPath p"
proof (cases "slashedPath p = ''/''")
  case False
  obtain segs where sp: "split_byte (slashedPath p) (CHR ''/'') = [] # segs"
    using split_hd_prefix slashedPath_decomp by blast
  have j: "join_byte ([] # segs) (CHR ''/'') = slashedPath p" using join_split [of "slashedPath p" "CHR ''/''"] sp by simp
  have ne: "segs \<noteq> []" using j slashedPath_decomp [of p] by auto
  then have "CHR ''/'' # join_byte segs (CHR ''/'') = slashedPath p" using j by (cases segs) auto
  then show ?thesis using assms False ne sp by (auto simp: NormalizePath_def Let_def split: if_splits)
qed (use assms in \<open>auto simp: NormalizePath_def Let_def split: if_splits\<close>)

lemma NormalizePath_utf8:
  assumes "NormalizePath p = Inr q"
  shows "utf8_valid q" and "CHR 0x00 \<notin> set q" and "CHR 0x5C \<notin> set q"
proof -
  have p: "utf8_valid p" "CHR 0x00 \<notin> set p" using assms by (auto simp: NormalizePath_def split: if_splits)
  have m: "utf8_valid (map slashes p)" using p(1) utf8_valid_map [of slashes p] slashes_ascii by blast
  have one: "utf8_valid ''/''" by code_simp
  have l: "utf8_valid (leadSlash p)" using m one by (auto simp: leadSlash_def Let_def utf8_valid_Cons_ascii)
  have ls: "set (leadSlash p) \<subseteq> insert (CHR ''/'') (slashes ` set p)" by (auto simp: leadSlash_def Let_def)
  have nz: "CHR 0x00 \<notin> set (leadSlash p)" "CHR 0x5C \<notin> set (leadSlash p)"
    using ls p(2) by (auto simp: slashes_def split: if_splits)
  have q: "q = ''/'' \<or> (\<exists>k. leadSlash p = q @ replicate k (CHR ''/''))"
    using NormalizePath_slashed [OF assms] slashedPath_decomp [of p] by auto
  have h: "replicate k (CHR ''/'') = [] \<or> (of_char (hd (replicate k (CHR ''/''))) :: int) < 128" for k by (cases k) auto
  show "utf8_valid q" using q one utf8_valid_prefix [OF _ h] l by metis
  show "CHR 0x00 \<notin> set q" "CHR 0x5C \<notin> set q" using q nz by auto
qed

lemma NormalizePath_fixed:
  assumes "NormalizePath p = Inr q" shows "NormalizePath q = Inr q"
proof -
  have "NormalizePath ''/'' = Inr ''/''" by code_simp
  then show ?thesis
    using NormalizePath_result [OF assms] NormalizePath_clean [of q] NormalizePath_utf8 [OF assms] by auto
qed

text \<open>
  C4. \<open>NormalizePath\<close> is a gate against path traversal: whatever the client sends, a path that passes is
  either the root or consists of non-empty segments none of which is \<open>.\<close> or \<open>..\<close>, and it is a
  fixed point, so later normalisations cannot change it.
\<close>

theorem normalize_path_gate:
  assumes "NormalizePath p = Inr q"
  shows "(q = ''/'' \<or> clean_path q) \<and> NormalizePath q = Inr q"
  using NormalizePath_result [OF assms] NormalizePath_fixed [OF assms] by simp

theorem normalize_path_gate_witness:
  "NormalizePath (''docs'' @ CHR 0x5C # ''a/'') = Inr ''/docs/a'' \<and> clean_path ''/docs/a'' \<and> NormalizePath ''/x/../y'' = Inl FErrInvalidPath"
proof -
  have n: "NormalizePath (''docs'' @ CHR 0x5C # ''a/'') = Inr ''/docs/a''" "NormalizePath ''/x/../y'' = Inl FErrInvalidPath" by code_simp+
  show ?thesis using normalize_path_gate [OF n(1)] n by simp
qed

text \<open>
  Storage keys stay inside the user's home: the backend key of any client path is the user id itself
  or the user id followed by a clean path below it, and two paths share a key only when they
  normalise to the same path.
\<close>

theorem storage_key_confined:
  assumes "storageKey uid rel = Inr k"
  shows "(k = uid \<or> (\<exists>p. clean_path p \<and> k = uid @ p))
    \<and> (\<forall>rel'. storageKey uid rel' = Inr k \<longrightarrow> NormalizePath rel' = NormalizePath rel)"
proof -
  have key: "(np = ''/'' \<and> k' = uid) \<or> (clean_path np \<and> k' = uid @ np)"
    if "NormalizePath r = Inr np" "storageKey uid r = Inr k'" for r np k'
  proof (cases "np = ''/''")
    case False
    then have c: "clean_path np" using NormalizePath_result [OF that(1)] by simp
    then obtain t where "np = CHR ''/'' # t" "t \<noteq> []" using False
      by (auto simp: clean_path_iff) (metis list.exhaust mkpath_simps(2))
    with that c show ?thesis using trim_prefix_append [of "''/''" t] by (auto simp: storageKey_def)
  qed (use that trim_prefix_append [of "''/''" "[]"] in \<open>simp add: storageKey_def\<close>)
  obtain np where np: "NormalizePath rel = Inr np" using assms by (auto simp: storageKey_def split: sum.splits)
  note k = key [OF np assms]
  have "NormalizePath rel' = NormalizePath rel" if r: "storageKey uid rel' = Inr k" for rel'
  proof -
    obtain np' where np': "NormalizePath rel' = Inr np'" using r by (auto simp: storageKey_def split: sum.splits)
    have "\<not> clean_path []" by (simp add: clean_path_def)
    then show ?thesis using key [OF np' r] k np np' by auto
  qed
  with k show ?thesis by auto
qed

theorem storage_key_confined_witness:
  "storageKey ''alice'' ''/docs//'' = Inr ''alice/docs'' \<and> (\<exists>p. clean_path p \<and> ''alice/docs'' = ''alice'' @ p)"
proof -
  have k: "storageKey ''alice'' ''/docs//'' = Inr ''alice/docs''" by code_simp
  show ?thesis using storage_key_confined [OF k] k by simp
qed

lemma sort_key_mset:
  assumes "mset xs = mset ys" and "distinct (map f xs)"
  shows "sort_key f xs = sort_key f ys"
proof (rule properties_for_sort_key)
  show "mset (sort_key f ys) = mset xs" using assms(1) by simp
  show "sorted (map f (sort_key f ys))" by simp
  fix k assume "k \<in> set (sort_key f ys)"
  have d: "distinct (map f ys)" using assms by (metis mset_map mset_eq_imp_distinct_iff)
  have one: "filter (\<lambda>x. f k = f x) zs = [k]" if "distinct (map f zs)" "k \<in> set zs" for zs
    using that by (induction zs) (auto simp: filter_empty_conv image_iff)
  have "distinct (map f (sort_key f ys))" using d by (metis mset_map mset_sort mset_eq_imp_distinct_iff)
  moreover have "k \<in> set ys" "k \<in> set xs" using \<open>k \<in> _\<close> assms(1) by (auto dest: mset_eq_setD)
  ultimately show "filter (\<lambda>x. f k = f x) (sort_key f ys) = filter (\<lambda>x. f k = f x) xs"
    using one [of "sort_key f ys"] one [of xs] assms(2) by simp
qed

text \<open>
  The entity tag of a directory does not depend on the order in which the database returns its
  children.
\<close>

theorem dir_etag_order_independent:
  assumes "mset cs = mset cs'" and "distinct (map fPath cs)"
  shows "ComputeDirETag sha1hex cs = ComputeDirETag sha1hex cs'"
  using sort_key_mset [OF assms] by (simp add: ComputeDirETag_def)

definition demoFile :: "string \<Rightarrow> string \<Rightarrow> File" where
  "demoFile p tag = \<lparr>fID = 1, fUserID = 1, fParentID = None, fName = p, fPath = p, fIsDir = False, fSize = 0,
     fMtime = 0, fETag = tag, fChecksum = [], fMIME = [], fPermissions = 0, fKeyUUID = None, fNameScheme = 0\<rparr>"

theorem dir_etag_order_independent_witness:
  "ComputeDirETag (\<lambda>s. s) [demoFile ''/b'' ''2'', demoFile ''/a'' ''1''] = ComputeDirETag (\<lambda>s. s) [demoFile ''/a'' ''1'', demoFile ''/b'' ''2'']"
  by (rule dir_etag_order_independent) (auto simp: demoFile_def)

end
