(* ===== verification/Files_LockStore.thy ===== *)
theory Files_LockStore
  imports Files_Path Webdav_Cond
begin

text \<open>
  The lock table of the files package (\<^verbatim>\<open>src/internal/files/lockstore.go\<close>). The interface
  \<open>LockStore\<close> is a record of operations on a store state and a locale with their laws; \<open>SQLLockStore\<close>
  is modelled on the table \<open>file_locks\<close> (its migration fixes the keys: an ascending id, one
  row per user and path, one row per token) and shown to satisfy the laws. A database that
  cannot be reached makes every statement fail with its error text. The operator \<open>LIKE\<close> is the
  parameter \<open>like\<close>, pattern first. Reading the row that a statement has just inserted, and the
  foreign key on the user, always succeed.
\<close>

section \<open>Interface\<close>

record FileLock =
  flID :: int
  flUserID :: int
  flPath :: string
  flToken :: string
  flOwner :: string
  flTimeoutMs :: int
  flCreatedMs :: int

record 'd LockStore =
  lsGetByPath :: "'d \<Rightarrow> int \<Rightarrow> string \<Rightarrow> FileLock files_result"
  lsGetByToken :: "'d \<Rightarrow> string \<Rightarrow> FileLock files_result"
  lsInsert :: "'d \<Rightarrow> FileLock \<Rightarrow> 'd \<times> FileLock files_result"
  lsUpdateTimeout :: "'d \<Rightarrow> int \<Rightarrow> int \<Rightarrow> 'd \<times> unit files_result"
  lsDelete :: "'d \<Rightarrow> int \<Rightarrow> 'd \<times> unit files_result"
  lsDeleteByPath :: "'d \<Rightarrow> int \<Rightarrow> string \<Rightarrow> 'd \<times> unit files_result"
  lsRenamePath :: "'d \<Rightarrow> int \<Rightarrow> string \<Rightarrow> string \<Rightarrow> 'd \<times> unit files_result"
  lsDeleteExpired :: "'d \<Rightarrow> int \<Rightarrow> 'd \<times> unit files_result"

section \<open>SQLLockStore\<close>

record lockTable =
  ltRows :: "FileLock list"
  ltSeq :: int
  ltDown :: "string option"

text \<open>The prefix that \<open>fmt.Errorf\<close> puts before a database error.\<close>

definition dbError :: "string \<Rightarrow> string \<Rightarrow> files_error" where
  "dbError op e = FErrOther (op @ '': '' @ e)"

definition sqlGetByPath :: "lockTable \<Rightarrow> int \<Rightarrow> string \<Rightarrow> FileLock files_result" where
  "sqlGetByPath d userID filePath =
     (if userID = 0 then Inl FErrNotFound
      else case NormalizePath filePath of
          Inl err \<Rightarrow> Inl err
        | Inr np \<Rightarrow> (case ltDown d of
              Some e \<Rightarrow> Inl (dbError ''files: lock get path'' e)
            | None \<Rightarrow> (case find (\<lambda>l. flUserID l = userID \<and> flPath l = np) (ltRows d) of
                  None \<Rightarrow> Inl FErrNotFound | Some l \<Rightarrow> Inr l)))"

definition sqlGetByToken :: "lockTable \<Rightarrow> string \<Rightarrow> FileLock files_result" where
  "sqlGetByToken d token =
     (if token = [] then Inl FErrNotFound
      else case ltDown d of
          Some e \<Rightarrow> Inl (dbError ''files: lock get token'' e)
        | None \<Rightarrow> (case find (\<lambda>l. flToken l = token) (ltRows d) of
              None \<Rightarrow> Inl FErrNotFound | Some l \<Rightarrow> Inr l))"

definition sqlInsert :: "lockTable \<Rightarrow> FileLock \<Rightarrow> lockTable \<times> FileLock files_result" where
  "sqlInsert d l0 =
     (if flUserID l0 = 0 \<or> flToken l0 = [] then (d, Inl (FErrOther ''files: invalid file lock''))
      else case NormalizePath (flPath l0) of
          Inl err \<Rightarrow> (d, Inl err)
        | Inr np \<Rightarrow> (case ltDown d of
              Some e \<Rightarrow> (d, Inl (dbError ''files: lock insert'' e))
            | None \<Rightarrow>
                if list_ex (\<lambda>r. flUserID r = flUserID l0 \<and> flPath r = np \<or> flToken r = flToken l0) (ltRows d)
                then (d, Inl FErrExists)
                else
                  (let i = ltSeq d + 1; row = l0\<lparr>flID := i, flPath := np\<rparr>;
                       d' = d\<lparr>ltRows := ltRows d @ [row], ltSeq := i\<rparr>
                   in (d', sqlGetByPath d' (flUserID l0) np))))"

definition sqlUpdateTimeout :: "lockTable \<Rightarrow> int \<Rightarrow> int \<Rightarrow> lockTable \<times> unit files_result" where
  "sqlUpdateTimeout d i timeoutMs =
     (if i = 0 then (d, Inl (FErrOther ''files: invalid lock id''))
      else case ltDown d of
          Some e \<Rightarrow> (d, Inl (dbError ''files: lock update timeout'' e))
        | None \<Rightarrow> (d\<lparr>ltRows := map (\<lambda>l. if flID l = i then l\<lparr>flTimeoutMs := timeoutMs\<rparr> else l) (ltRows d)\<rparr>, Inr ()))"

definition sqlDelete :: "lockTable \<Rightarrow> int \<Rightarrow> lockTable \<times> unit files_result" where
  "sqlDelete d i =
     (if i = 0 then (d, Inr ())
      else case ltDown d of
          Some e \<Rightarrow> (d, Inl (dbError ''files: lock delete'' e))
        | None \<Rightarrow> (d\<lparr>ltRows := filter (\<lambda>l. flID l \<noteq> i) (ltRows d)\<rparr>, Inr ()))"

definition likeBelow :: "string \<Rightarrow> string" where
  "likeBelow np = (if np = ''/'' then ''/%'' else np @ ''/%'')"

definition inPrefix :: "(string \<Rightarrow> string \<Rightarrow> bool) \<Rightarrow> int \<Rightarrow> string \<Rightarrow> FileLock \<Rightarrow> bool" where
  "inPrefix like userID np l \<longleftrightarrow> flUserID l = userID \<and> (flPath l = np \<or> like (likeBelow np) (flPath l))"

definition sqlListByPrefix ::
  "(string \<Rightarrow> string \<Rightarrow> bool) \<Rightarrow> lockTable \<Rightarrow> int \<Rightarrow> string \<Rightarrow> FileLock list files_result" where
  "sqlListByPrefix like d userID filePath = (case NormalizePath filePath of
      Inl err \<Rightarrow> Inl err
    | Inr np \<Rightarrow> (case ltDown d of
          Some e \<Rightarrow> Inl (dbError ''files: lock list prefix'' e)
        | None \<Rightarrow> Inr (sort_key flPath (filter (inPrefix like userID np) (ltRows d)))))"

definition sqlDeleteExpired :: "lockTable \<Rightarrow> int \<Rightarrow> lockTable \<times> unit files_result" where
  "sqlDeleteExpired d nowMs = (case ltDown d of
      Some e \<Rightarrow> (d, Inl (dbError ''files: lock expire'' e))
    | None \<Rightarrow> (d\<lparr>ltRows := filter (\<lambda>l. \<not> (flTimeoutMs l > 0 \<and> flTimeoutMs l \<le> nowMs)) (ltRows d)\<rparr>, Inr ()))"

definition sqlDeleteByPath ::
  "(string \<Rightarrow> string \<Rightarrow> bool) \<Rightarrow> lockTable \<Rightarrow> int \<Rightarrow> string \<Rightarrow> lockTable \<times> unit files_result" where
  "sqlDeleteByPath like d userID filePath = (case NormalizePath filePath of
      Inl err \<Rightarrow> (d, Inl err)
    | Inr np \<Rightarrow> (case ltDown d of
          Some e \<Rightarrow> (d, Inl (dbError ''files: lock delete path'' e))
        | None \<Rightarrow> (d\<lparr>ltRows := filter (\<lambda>l. \<not> inPrefix like userID np l) (ltRows d)\<rparr>, Inr ())))"

text \<open>
  One \<open>UPDATE\<close> per row, outside a transaction: an update that meets another row of the new path
  fails on the unique key, and the rows before it stay renamed.
\<close>

fun renameRows :: "string \<Rightarrow> string \<Rightarrow> FileLock list \<Rightarrow> lockTable \<Rightarrow> lockTable \<times> unit files_result" where
  "renameRows src dst [] d = (d, Inr ())"
| "renameRows src dst (it # items) d =
     (let old = flPath it; next = (if old = src then dst else dst @ trim_prefix old src) in
      if list_ex (\<lambda>r. flID r \<noteq> flID it \<and> flUserID r = flUserID it \<and> flPath r = next) (ltRows d)
      then (d, Inl (dbError ''files: lock rename'' ''unique constraint''))
      else renameRows src dst items
        (d\<lparr>ltRows := map (\<lambda>r. if flID r = flID it then r\<lparr>flPath := next\<rparr> else r) (ltRows d)\<rparr>))"

definition sqlRenamePath ::
  "(string \<Rightarrow> string \<Rightarrow> bool) \<Rightarrow> lockTable \<Rightarrow> int \<Rightarrow> string \<Rightarrow> string \<Rightarrow> lockTable \<times> unit files_result" where
  "sqlRenamePath like d userID srcPath dstPath = (case NormalizePath srcPath of
      Inl err \<Rightarrow> (d, Inl err)
    | Inr src \<Rightarrow> (case NormalizePath dstPath of
          Inl err \<Rightarrow> (d, Inl err)
        | Inr dst \<Rightarrow> (case sqlListByPrefix like d userID src of
              Inl err \<Rightarrow> (d, Inl err)
            | Inr items \<Rightarrow> renameRows src dst items d)))"

definition NewSQLLockStore :: "(string \<Rightarrow> string \<Rightarrow> bool) \<Rightarrow> lockTable LockStore" where
  "NewSQLLockStore like = \<lparr>lsGetByPath = sqlGetByPath, lsGetByToken = sqlGetByToken, lsInsert = sqlInsert,
     lsUpdateTimeout = sqlUpdateTimeout, lsDelete = sqlDelete, lsDeleteByPath = sqlDeleteByPath like,
     lsRenamePath = sqlRenamePath like, lsDeleteExpired = sqlDeleteExpired\<rparr>"

section \<open>The contract of a lock store\<close>

text \<open>
  \<open>row d u p\<close> is the lock of user \<open>u\<close> on the normalised path \<open>p\<close>. The laws hold in the states that
  satisfy \<open>inv\<close> (a reachable database with consistent keys).
\<close>

abbreviation npath :: "string \<Rightarrow> bool" where
  "npath p \<equiv> NormalizePath p = Inr p"

locale lock_store =
  fixes ls :: "'d LockStore" and inv :: "'d \<Rightarrow> bool" and row :: "'d \<Rightarrow> int \<Rightarrow> string \<Rightarrow> FileLock option"
  assumes get: "inv d \<Longrightarrow> u \<noteq> 0 \<Longrightarrow> npath p \<Longrightarrow>
      lsGetByPath ls d u p = (case row d u p of None \<Rightarrow> Inl FErrNotFound | Some l \<Rightarrow> Inr l)"
    and update: "inv d \<Longrightarrow> row d u p = Some l \<Longrightarrow>
      \<exists>d'. lsUpdateTimeout ls d (flID l) t = (d', Inr ()) \<and> inv d'
        \<and> (\<forall>v q. row d' v q = (if v = u \<and> q = p then Some (l\<lparr>flTimeoutMs := t\<rparr>) else row d v q))"
    and delete: "inv d \<Longrightarrow> row d u p = Some l \<Longrightarrow>
      \<exists>d'. lsDelete ls d (flID l) = (d', Inr ()) \<and> inv d'
        \<and> (\<forall>v q. row d' v q = (if v = u \<and> q = p then None else row d v q))"
    and insert: "inv d \<Longrightarrow> flUserID l \<noteq> 0 \<Longrightarrow> flToken l \<noteq> [] \<Longrightarrow> npath (flPath l) \<Longrightarrow>
      if (\<exists>r. row d (flUserID l) (flPath l) = Some r) \<or> (\<exists>v q r. row d v q = Some r \<and> flToken r = flToken l)
      then lsInsert ls d l = (d, Inl FErrExists)
      else \<exists>d' i. lsInsert ls d l = (d', Inr (l\<lparr>flID := i\<rparr>)) \<and> inv d'
        \<and> (\<forall>v q. row d' v q = (if v = flUserID l \<and> q = flPath l then Some (l\<lparr>flID := i\<rparr>) else row d v q))"

section \<open>SQLLockStore satisfies it\<close>

definition sqlInv :: "lockTable \<Rightarrow> bool" where
  "sqlInv d \<longleftrightarrow> ltDown d = None \<and> distinct (map flID (ltRows d))
     \<and> distinct (map (\<lambda>l. (flUserID l, flPath l)) (ltRows d))
     \<and> (\<forall>l \<in> set (ltRows d). 0 < flID l \<and> flID l \<le> ltSeq d) \<and> 0 \<le> ltSeq d"

definition sqlRow :: "lockTable \<Rightarrow> int \<Rightarrow> string \<Rightarrow> FileLock option" where
  "sqlRow d u p = find (\<lambda>l. flUserID l = u \<and> flPath l = p) (ltRows d)"

definition lockKey :: "FileLock \<Rightarrow> int \<times> string" where
  "lockKey l = (flUserID l, flPath l)"

lemma sqlRow_find: "sqlRow d u p = find (\<lambda>l. lockKey l = (u, p)) (ltRows d)"
  by (simp add: sqlRow_def lockKey_def)

lemma lockKey_upd [simp]: "lockKey (l\<lparr>flTimeoutMs := t\<rparr>) = lockKey l" "lockKey (l\<lparr>flID := i\<rparr>) = lockKey l"
  by (simp_all add: lockKey_def)

lemma sqlInv_keys: "sqlInv d \<Longrightarrow> distinct (map lockKey (ltRows d))"
  by (simp add: sqlInv_def lockKey_def [abs_def])

lemma sqlRow_Some:
  assumes "sqlInv d"
  shows "sqlRow d u p = Some l \<longleftrightarrow> l \<in> set (ltRows d) \<and> lockKey l = (u, p)"
  using find_key [OF sqlInv_keys [OF assms]] by (simp add: sqlRow_find)

lemma sqlInv_id:
  assumes "sqlInv d" and "l \<in> set (ltRows d)" and "r \<in> set (ltRows d)" and "flID r = flID l"
  shows "r = l"
proof -
  have "inj_on flID (set (ltRows d))" using assms(1) by (simp add: sqlInv_def distinct_map)
  from inj_onD [OF this assms(4,3,2)] show ?thesis .
qed

definition setTimeout :: "int \<Rightarrow> int \<Rightarrow> FileLock \<Rightarrow> FileLock" where
  "setTimeout i t r = (if flID r = i then r\<lparr>flTimeoutMs := t\<rparr> else r)"

lemma sql_update:
  assumes i: "sqlInv d" and r: "sqlRow d u p = Some l"
    and d1: "d1 = d\<lparr>ltRows := map (setTimeout (flID l) t) (ltRows d)\<rparr>"
  shows "sqlInv d1" and "sqlRow d1 v q = (if v = u \<and> q = p then Some (l\<lparr>flTimeoutMs := t\<rparr>) else sqlRow d v q)"
proof -
  have same: "flID (setTimeout j t r) = flID r" "lockKey (setTimeout j t r) = lockKey r"
    "flUserID (setTimeout j t r) = flUserID r" "flPath (setTimeout j t r) = flPath r" for j r
    by (simp_all add: setTimeout_def)
  show "sqlInv d1" using i by (simp add: sqlInv_def d1 comp_def same)
  have one: "map_option (setTimeout (flID l) t) (sqlRow d v q)
      = (if v = u \<and> q = p then Some (l\<lparr>flTimeoutMs := t\<rparr>) else sqlRow d v q)"
  proof (cases "sqlRow d v q")
    case (Some x)
    have "flID x = flID l \<longleftrightarrow> x = l"
      using sqlInv_id [OF i] Some r sqlRow_Some [OF i] by blast
    moreover have "x = l \<longleftrightarrow> v = u \<and> q = p"
      using Some r sqlRow_Some [OF i] by (metis option.inject prod.inject)
    ultimately show ?thesis using Some by (auto simp: setTimeout_def)
  qed (use r in auto)
  show "sqlRow d1 v q = (if v = u \<and> q = p then Some (l\<lparr>flTimeoutMs := t\<rparr>) else sqlRow d v q)"
    unfolding one [symmetric] by (simp add: sqlRow_find d1 find_map_same same)
qed

lemma sql_delete:
  assumes i: "sqlInv d" and r: "sqlRow d u p = Some l"
  defines "d2 \<equiv> d\<lparr>ltRows := filter (\<lambda>r. flID r \<noteq> flID l) (ltRows d)\<rparr>"
  shows "sqlInv d2" and "sqlRow d2 v q = (if v = u \<and> q = p then None else sqlRow d v q)"
proof -
  show "sqlInv d2" using i by (auto simp: sqlInv_def d2_def distinct_map_filter)
  have "sqlRow d2 v q = Option.bind (sqlRow d v q) (\<lambda>x. if flID x \<noteq> flID l then Some x else None)"
    by (simp add: sqlRow_find d2_def find_filter_key [OF sqlInv_keys [OF i]])
  also have "\<dots> = (if v = u \<and> q = p then None else sqlRow d v q)"
  proof (cases "sqlRow d v q")
    case (Some x)
    have "flID x = flID l \<longleftrightarrow> x = l"
      using sqlInv_id [OF i] Some r sqlRow_Some [OF i] by blast
    moreover have "x = l \<longleftrightarrow> v = u \<and> q = p"
      using Some r sqlRow_Some [OF i] by (metis option.inject prod.inject)
    ultimately show ?thesis using Some by auto
  qed simp
  finally show "sqlRow d2 v q = (if v = u \<and> q = p then None else sqlRow d v q)" .
qed

lemma sql_insert:
  assumes i: "sqlInv d" and new: "sqlRow d (flUserID l) (flPath l) = None"
  defines "l' \<equiv> l\<lparr>flID := ltSeq d + 1\<rparr>"
  defines "d3 \<equiv> d\<lparr>ltRows := ltRows d @ [l'], ltSeq := ltSeq d + 1\<rparr>"
  shows "sqlInv d3" and "sqlRow d3 v q = (if v = flUserID l \<and> q = flPath l then Some l' else sqlRow d v q)"
proof -
  have fresh: "lockKey r \<noteq> lockKey l" if "r \<in> set (ltRows d)" for r
    using new that by (auto simp: sqlRow_find find_None_iff lockKey_def)
  have "distinct (map lockKey (ltRows d3))"
    using sqlInv_keys [OF i] fresh by (fastforce simp: d3_def l'_def)
  moreover have "distinct (map flID (ltRows d3)) \<and> (\<forall>l \<in> set (ltRows d3). 0 < flID l \<and> flID l \<le> ltSeq d3)"
    using i by (force simp: sqlInv_def d3_def l'_def)
  ultimately show "sqlInv d3" using i by (simp add: sqlInv_def d3_def lockKey_def [abs_def])
  show "sqlRow d3 v q = (if v = flUserID l \<and> q = flPath l then Some l' else sqlRow d v q)"
    using new by (auto simp: sqlRow_find d3_def find_snoc l'_def lockKey_def split: option.split)
qed

lemma sql_insert_result:
  assumes i: "sqlInv d" and l: "flUserID l \<noteq> 0" "flToken l \<noteq> []" "npath (flPath l)"
  shows "if (\<exists>r. sqlRow d (flUserID l) (flPath l) = Some r) \<or> (\<exists>v q r. sqlRow d v q = Some r \<and> flToken r = flToken l)
    then sqlInsert d l = (d, Inl FErrExists)
    else \<exists>d' i. sqlInsert d l = (d', Inr (l\<lparr>flID := i\<rparr>)) \<and> sqlInv d'
      \<and> (\<forall>v q. sqlRow d' v q = (if v = flUserID l \<and> q = flPath l then Some (l\<lparr>flID := i\<rparr>) else sqlRow d v q))"
proof -
  have down: "ltDown d = None" using i by (simp add: sqlInv_def)
  let ?dup = "list_ex (\<lambda>r. flUserID r = flUserID l \<and> flPath r = flPath l \<or> flToken r = flToken l) (ltRows d)"
  have dup: "(\<exists>r. sqlRow d (flUserID l) (flPath l) = Some r) \<or> (\<exists>v q r. sqlRow d v q = Some r \<and> flToken r = flToken l)
    \<longleftrightarrow> ?dup"
    unfolding sqlRow_Some [OF i] by (auto simp: list_ex_iff lockKey_def)
  show ?thesis
  proof (cases ?dup)
    case True
    then have "sqlInsert d l = (d, Inl FErrExists)" using l down by (simp add: sqlInsert_def)
    with True show ?thesis unfolding dup by simp
  next
    case False
    then have new: "sqlRow d (flUserID l) (flPath l) = None" unfolding dup [symmetric] by auto
    let ?row = "l\<lparr>flID := ltSeq d + 1\<rparr>"
    let ?d' = "d\<lparr>ltRows := ltRows d @ [?row], ltSeq := ltSeq d + 1\<rparr>"
    have row: "l\<lparr>flID := ltSeq d + 1, flPath := flPath l\<rparr> = ?row" by simp
    have "sqlRow ?d' (flUserID l) (flPath l) = Some ?row" using sql_insert(2) [OF i new] by simp
    then have "sqlGetByPath ?d' (flUserID l) (flPath l) = Inr ?row"
      using l down by (simp add: sqlGetByPath_def sqlRow_def)
    then have "sqlInsert d l = (?d', Inr ?row)"
      using False l down by (simp add: sqlInsert_def row Let_def)
    with sql_insert [OF i new] False show ?thesis unfolding dup by auto
  qed
qed

lemma sqlRow_id_pos:
  assumes "sqlInv d" and "sqlRow d u p = Some l"
  shows "flID l \<noteq> 0"
  using assms sqlRow_Some by (force simp: sqlInv_def)

interpretation sql: lock_store "NewSQLLockStore like" sqlInv sqlRow for like
proof
  fix d u p l t
  assume i: "sqlInv d"
  have down: "ltDown d = None" using i by (simp add: sqlInv_def)
  show "u \<noteq> 0 \<Longrightarrow> npath p \<Longrightarrow> lsGetByPath (NewSQLLockStore like) d u p =
      (case sqlRow d u p of None \<Rightarrow> Inl FErrNotFound | Some l \<Rightarrow> Inr l)"
    using down by (simp add: NewSQLLockStore_def sqlGetByPath_def sqlRow_def)
  assume r: "sqlRow d u p = Some l"
  show "\<exists>d'. lsUpdateTimeout (NewSQLLockStore like) d (flID l) t = (d', Inr ()) \<and> sqlInv d'
      \<and> (\<forall>v q. sqlRow d' v q = (if v = u \<and> q = p then Some (l\<lparr>flTimeoutMs := t\<rparr>) else sqlRow d v q))"
    using sql_update [OF i r refl] down sqlRow_id_pos [OF i r]
    by (simp add: NewSQLLockStore_def sqlUpdateTimeout_def setTimeout_def [abs_def])
  show "\<exists>d'. lsDelete (NewSQLLockStore like) d (flID l) = (d', Inr ()) \<and> sqlInv d'
      \<and> (\<forall>v q. sqlRow d' v q = (if v = u \<and> q = p then None else sqlRow d v q))"
    using sql_delete [OF i r] down sqlRow_id_pos [OF i r]
    by (simp add: NewSQLLockStore_def sqlDelete_def)
qed (use sql_insert_result in \<open>simp add: NewSQLLockStore_def\<close>)

section \<open>Patterns\<close>

text \<open>
  What the SQL standard says of \<open>LIKE\<close> without \<open>ESCAPE\<close>: a percent sign stands for any sequence and
  an underscore for any single character. Some databases compare letters more loosely, so the
  property below asks of \<open>like\<close> only that it accepts what the standard accepts.
\<close>

fun likeMatch :: "string \<Rightarrow> string \<Rightarrow> bool" where
  "likeMatch [] s \<longleftrightarrow> s = []"
| "likeMatch (c # pat) s \<longleftrightarrow>
     (if c = CHR ''%'' then likeMatch pat s \<or> (case s of [] \<Rightarrow> False | _ # s' \<Rightarrow> likeMatch (c # pat) s')
      else case s of [] \<Rightarrow> False | x # s' \<Rightarrow> (c = CHR ''_'' \<or> c = x) \<and> likeMatch pat s')"

lemma likeMatch_any: "likeMatch ''%'' s"
  by (induction s) auto

lemma likeMatch_literal: "likeMatch pat s \<Longrightarrow> likeMatch (a @ pat) (a @ s)"
  by (induction a) (auto split: list.split)

text \<open>
  Deleting a path with an underscore drops locks of other resources: \<open>DeleteByPath\<close> puts the path into a
  \<open>LIKE\<close> pattern without escaping it, so the locks of everything below any sibling whose name
  differs only in the place of the underscore are deleted as well.
\<close>

theorem delete_by_path_wildcard:
  assumes "\<And>pat s. likeMatch pat s \<Longrightarrow> like pat s"
    and "NormalizePath p = Inr (a @ CHR ''_'' # b)" and "ltDown d = None"
  shows "\<exists>d'. sqlDeleteByPath like d u p = (d', Inr ())
    \<and> (\<forall>l \<in> set (ltRows d'). \<not> (flUserID l = u \<and> flPath l = a @ c # b @ ''/'' @ x))"
proof -
  have "likeMatch (a @ CHR ''_'' # b @ ''/'' @ ''%'') (a @ c # b @ ''/'' @ x)"
    using likeMatch_literal [of "CHR ''_'' # b @ ''/'' @ ''%''" "c # b @ ''/'' @ x" a]
      likeMatch_literal [OF likeMatch_any, of "b @ ''/''" x] by simp
  moreover have "likeBelow (a @ CHR ''_'' # b) = a @ CHR ''_'' # b @ ''/%''" by (cases a) (auto simp: likeBelow_def)
  ultimately have "inPrefix like u (a @ CHR ''_'' # b) l" if "flUserID l = u" "flPath l = a @ c # b @ ''/'' @ x" for l
    using that assms(1) by (simp add: inPrefix_def)
  then show ?thesis using assms(2,3) by (auto simp: sqlDeleteByPath_def)
qed

theorem delete_by_path_wildcard_witness:
  "\<exists>d'. sqlDeleteByPath likeMatch \<lparr>ltRows = [\<lparr>flID = 1, flUserID = 7, flPath = ''/axb/f'', flToken = ''t'', flOwner = [],
       flTimeoutMs = 5, flCreatedMs = 0\<rparr>], ltSeq = 1, ltDown = None\<rparr> 7 ''/a_b'' = (d', Inr ()) \<and> ltRows d' = []"
proof -
  let ?d = "\<lparr>ltRows = [\<lparr>flID = 1, flUserID = 7, flPath = ''/axb/f'', flToken = ''t'', flOwner = [],
       flTimeoutMs = 5, flCreatedMs = 0\<rparr>], ltSeq = 1, ltDown = None\<rparr>"
  have n: "NormalizePath ''/a_b'' = Inr (''/a'' @ CHR ''_'' # ''b'')" by code_simp
  obtain d' where d: "sqlDeleteByPath likeMatch ?d 7 ''/a_b'' = (d', Inr ())"
      "\<forall>l \<in> set (ltRows d'). \<not> (flUserID l = 7 \<and> flPath l = ''/a'' @ CHR ''x'' # ''b'' @ ''/'' @ ''f'')"
    using delete_by_path_wildcard [of likeMatch, OF _ n, of ?d 7 "CHR ''x''" "''f''"] by auto
  then have "ltRows d' = filter (\<lambda>l. \<not> inPrefix likeMatch 7 (''/a'' @ CHR ''_'' # ''b'') l) (ltRows ?d)"
    unfolding sqlDeleteByPath_def n by (auto simp del: filter.simps)
  then have "set (ltRows d') \<subseteq> set (ltRows ?d)" by (simp only: filter_is_subset)
  then show ?thesis using d by (cases "ltRows d'") auto
qed

end
