(* ===== verification/Files_Lock.thy ===== *)
theory Files_Lock
  imports Files_LockStore Webdav_MemLock
begin

text \<open>
  Write locks of the database-backed file system (\<^verbatim>\<open>src/internal/files/lock.go\<close>, \<^verbatim>\<open>wopilock.go\<close>,
  and the parts of \<^verbatim>\<open>dav.go\<close> and \<^verbatim>\<open>incoming.go\<close> that they call). The state of the operations is the
  state of the lock store; every operation takes the adapter, a record with the stores that it
  only reads. What \<open>resolveUser\<close> does beyond its guard (the user row, the root row, the home
  directory), the remote shares and the shares of encrypted trees are fields of that record.
  Times are nanoseconds since the epoch, as in the other theories; a row holds milliseconds.
\<close>

section \<open>The adapter\<close>

record IncomingMount =
  imOwnerUID :: string
  imOwnerPath :: string
  imOwnerCipherPath :: string
  imMount :: string
  imPermissions :: int
  imItemType :: string
  imRemote :: bool
  imRemoteOrigin :: string
  imRemoteToken :: string

record 'd DAV =
  dLocks :: "'d LockStore option"
  dUser :: "string \<Rightarrow> int result"
  dMetaByPath :: "int \<Rightarrow> string \<Rightarrow> File files_result"
  dMetaByID :: "(int \<Rightarrow> File files_result) option"
  dProps :: "(int \<Rightarrow> string \<Rightarrow> string \<Rightarrow> string \<Rightarrow> string option) option"
  dLiveProps :: "(string \<Rightarrow> string \<Rightarrow> CustomProp list) option"
  dIncoming :: "(string \<Rightarrow> IncomingMount list files_result) option"
  dNewToken :: "string option"
  dRandom :: "string result"
  dNow :: int
  dStatRemote :: "string \<Rightarrow> IncomingMount \<Rightarrow> Entry result"
  dStatCipher :: "'d \<Rightarrow> string \<Rightarrow> IncomingMount \<Rightarrow> 'd \<times> Entry result"
  dCheckCipher :: "'d \<Rightarrow> IncomingMount \<Rightarrow> string \<Rightarrow> string \<Rightarrow> 'd \<times> unit result"

text \<open>An error that the adapter passes on unmapped: no sentinel of the webdav package.\<close>

definition rawErr :: "files_error \<Rightarrow> fs_error" where
  "rawErr e = ErrOther (errText e)"

definition resolveUser :: "'d DAV \<Rightarrow> string \<Rightarrow> int result" where
  "resolveUser dav uid =
     (if uid = [] \<or> CHR ''/'' \<in> set uid \<or> uid = ''..'' then Inl ErrForbidden else dUser dav uid)"

definition lookupIncoming :: "'d DAV \<Rightarrow> string \<Rightarrow> string \<Rightarrow> (IncomingMount \<times> string) result" where
  "lookupIncoming dav user p = (case dIncoming dav of
      None \<Rightarrow> Inl ErrNotFound
    | Some listIncoming \<Rightarrow> (case NormalizePath p of
        Inl err \<Rightarrow> Inl (mapMeta err)
      | Inr np \<Rightarrow> (case listIncoming user of
          Inl err \<Rightarrow> Inl (mapKeyLocked err)
        | Inr mounts \<Rightarrow>
            (case find (\<lambda>m. np = imMount m \<or> imItemType m = ''folder'' \<and> has_prefix np (imMount m @ ''/'')) mounts of
               None \<Rightarrow> Inl ErrNotFound
             | Some m \<Rightarrow> Inr (m, if np = imMount m then imOwnerPath m
                                  else imOwnerPath m @ trim_prefix np (imMount m))))))"

definition incomingEntry :: "Entry \<Rightarrow> string \<Rightarrow> int \<Rightarrow> Entry" where
  "incomingEntry e requestPath perms =
     e\<lparr>ePath := requestPath, ePermissions := perms, eShareable := False, eShared := True\<rparr>"

section \<open>Tokens and expiry\<close>

definition stripLockToken :: "string \<Rightarrow> string" where
  "stripLockToken v0 = (let v = trim_space v0; v = trim_prefix v ''<''; v = trim_suffix v ''>'' in trim_space v)"

lemma stripLockToken_eq [simp]: "stripLockToken = StripLockToken"
  by (simp add: fun_eq_iff stripLockToken_def StripLockToken_def Let_def)

definition lockTokenMatches :: "string \<Rightarrow> string \<Rightarrow> bool" where
  "lockTokenMatches stored provided \<longleftrightarrow> stored \<noteq> [] \<and> stored = stripLockToken provided"

definition parentFilePath :: "string \<Rightarrow> string" where
  "parentFilePath p0 =
     (let p = trim_suffix p0 ''/'' in
      if p = [] \<or> p = ''/'' then ''/''
      else case last_index_byte p (CHR ''/'') of
          None \<Rightarrow> ''/''
        | Some i \<Rightarrow> if i \<le> 0 then ''/'' else take i p)"

lemma parentFilePath_eq [simp]: "parentFilePath = parentPath"
  by (auto simp: fun_eq_iff parentFilePath_def parentPath_def Let_def split: option.split)

definition newLockToken :: "'d DAV \<Rightarrow> string result" where
  "newLockToken dav = (case dNewToken dav of
      Some t \<Rightarrow> Inr t
    | None \<Rightarrow> (case dRandom dav of Inl err \<Rightarrow> Inl err | Inr hex \<Rightarrow> Inr (''opaquelocktoken:'' @ hex)))"

definition expireLock :: "'d LockStore \<Rightarrow> 'd \<Rightarrow> FileLock \<Rightarrow> int \<Rightarrow> 'd \<times> bool files_result" where
  "expireLock ls d l now =
     (if flTimeoutMs l > unix_milli now then (d, Inr False)
      else case lsDelete ls d (flID l) of
          (d', Inl err) \<Rightarrow> (d', Inl err)
        | (d', Inr _) \<Rightarrow> (d', Inr True))"

definition remaining :: "FileLock \<Rightarrow> int \<Rightarrow> int" where
  "remaining l now = (let rem = flTimeoutMs l * 1000000 - now in if rem < 0 then 0 else rem)"

definition lockInfoFromRow :: "FileLock \<Rightarrow> int \<Rightarrow> LockInfo" where
  "lockInfoFromRow l now =
     \<lparr>liToken = flToken l, liOwner = flOwner l, liTimeout = remaining l now, liPath = flPath l,
      liDepthInfinity = False\<rparr>"

section \<open>The lock on the way to the root\<close>

text \<open>The loop variable \<open>cur\<close> climbs by \<open>parentFilePath\<close> until it is the root.\<close>

function applyLockUp :: "'d LockStore \<Rightarrow> int \<Rightarrow> int \<Rightarrow> 'd \<Rightarrow> Entry \<Rightarrow> string \<Rightarrow> 'd \<times> Entry" where
  "applyLockUp ls now userID d e cur =
     (let (d1, found) = (case lsGetByPath ls d userID cur of
            Inl _ \<Rightarrow> (d, None)
          | Inr lk \<Rightarrow> (case expireLock ls d lk now of
              (d1, Inr False) \<Rightarrow> (d1, Some lk)
            | (d1, _) \<Rightarrow> (d1, None)))
      in case found of
           Some lk \<Rightarrow> (d1, e\<lparr>eLockToken := flToken lk, eLockOwner := flOwner lk, eLockTimeout := remaining lk now\<rparr>)
         | None \<Rightarrow> if cur = ''/'' then (d1, e) else applyLockUp ls now userID d1 e (parentFilePath cur))"
  by pat_completeness auto
termination
  by (relation "measure (\<lambda>(ls, now, userID, d, e, cur). if cur = ''/'' then 0 else Suc (length cur))")
    (auto simp: parentPath_shorter)

definition applyLock :: "'d DAV \<Rightarrow> 'd \<Rightarrow> int \<Rightarrow> string \<Rightarrow> Entry \<Rightarrow> 'd \<times> Entry" where
  "applyLock dav d userID p e = (case dLocks dav of
      None \<Rightarrow> (d, e) | Some ls \<Rightarrow> applyLockUp ls (dNow dav) userID d e p)"

function checkLockOwnedUp :: "'d LockStore \<Rightarrow> int \<Rightarrow> int \<Rightarrow> string \<Rightarrow> 'd \<Rightarrow> string \<Rightarrow> 'd \<times> unit result" where
  "checkLockOwnedUp ls now userID ifHeader d cur =
     (case lsGetByPath ls d userID cur of
        Inl err \<Rightarrow>
          if err \<noteq> FErrNotFound then (d, Inl (mapMeta err))
          else if cur = ''/'' then (d, Inr ())
          else checkLockOwnedUp ls now userID ifHeader d (parentFilePath cur)
      | Inr existing \<Rightarrow>
          (case expireLock ls d existing now of
             (d1, Inl err) \<Rightarrow> (d1, Inl (rawErr err))
           | (d1, Inr expired) \<Rightarrow>
               if \<not> expired then
                 (if lockHeaderHasToken ifHeader (flToken existing) then (d1, Inr ()) else (d1, Inl ErrLocked))
               else if cur = ''/'' then (d1, Inr ())
               else checkLockOwnedUp ls now userID ifHeader d1 (parentFilePath cur)))"
  by pat_completeness auto
termination
  by (relation "measure (\<lambda>(ls, now, userID, h, d, cur). if cur = ''/'' then 0 else Suc (length cur))")
    (auto simp: parentPath_shorter)

declare applyLockUp.simps [simp del] checkLockOwnedUp.simps [simp del]

definition checkLockOwned :: "'d DAV \<Rightarrow> 'd \<Rightarrow> string \<Rightarrow> string \<Rightarrow> string \<Rightarrow> 'd \<times> unit result" where
  "checkLockOwned dav d user p ifHeader = (case dLocks dav of
      None \<Rightarrow> (d, Inr ())
    | Some ls \<Rightarrow> (case resolveUser dav user of
        Inl err \<Rightarrow> (d, Inl err)
      | Inr uid \<Rightarrow> (case NormalizePath p of
          Inl err \<Rightarrow> (d, Inl (mapMeta err))
        | Inr np \<Rightarrow> checkLockOwnedUp ls (dNow dav) uid ifHeader d np)))"

text \<open>
  An incoming share is checked in the owner's name. In \<open>lookupIncoming\<close> the only error that is
  \<open>ErrForbidden\<close> is that of a locked key (\<open>mapKeyLocked\<close>), which is what the callers test for.
\<close>

definition davCheckLock :: "'d DAV \<Rightarrow> 'd \<Rightarrow> string \<Rightarrow> string \<Rightarrow> string \<Rightarrow> 'd \<times> unit result" where
  "davCheckLock dav d user p ifHeader = (case lookupIncoming dav user p of
      Inr (m, ownerPath) \<Rightarrow>
        if imRemote m then (d, Inr ())
        else if imOwnerCipherPath m \<noteq> [] then dCheckCipher dav d m p ifHeader
        else checkLockOwned dav d (imOwnerUID m) ownerPath ifHeader
    | Inl err \<Rightarrow> if err = ErrForbidden then (d, Inl err) else checkLockOwned dav d user p ifHeader)"

section \<open>Stat\<close>

definition favoriteValue :: "'d DAV \<Rightarrow> int \<Rightarrow> string \<Rightarrow> int" where
  "favoriteValue dav userID p = (case dProps dav of
      None \<Rightarrow> 0
    | Some getProp \<Rightarrow> if getProp userID p ''http://owncloud.org/ns'' ''favorite'' = Some ''1'' then 1 else 0)"

definition toEntryBare :: "'d DAV \<Rightarrow> int \<Rightarrow> File \<Rightarrow> Entry" where
  "toEntryBare dav userID f = zeroEntry\<lparr>ePath := fPath f, eIsDir := fIsDir f, eSize := fSize f, eETag := fETag f,
     eModTime := fMtime f, eNumericID := (if fID f > 0 then fID f else 0), ePermissions := fPermissions f,
     eShareable := True, eContentType := fMIME f, eChecksum := fChecksum f,
     eFavorite := favoriteValue dav userID (fPath f)\<rparr>"

definition toEntry :: "'d DAV \<Rightarrow> 'd \<Rightarrow> int \<Rightarrow> File \<Rightarrow> 'd \<times> Entry" where
  "toEntry dav d userID f = applyLock dav d userID (fPath f) (toEntryBare dav userID f)"

definition statOwned :: "'d DAV \<Rightarrow> 'd \<Rightarrow> string \<Rightarrow> string \<Rightarrow> 'd \<times> Entry result" where
  "statOwned dav d user p = (case resolveUser dav user of
      Inl err \<Rightarrow> (d, Inl err)
    | Inr uid \<Rightarrow> (case dMetaByPath dav uid p of
        Inl err \<Rightarrow> (d, Inl (mapMeta err))
      | Inr f \<Rightarrow> (let (d', e) = toEntry dav d uid f in (d', Inr e))))"

definition statMaybeIncoming :: "'d DAV \<Rightarrow> 'd \<Rightarrow> string \<Rightarrow> string \<Rightarrow> 'd \<times> Entry result" where
  "statMaybeIncoming dav d user p = (case statOwned dav d user p of
      (d1, Inr e) \<Rightarrow> (d1, Inr e)
    | (d1, Inl err) \<Rightarrow>
        if err \<noteq> ErrNotFound then (d1, Inl err)
        else (case NormalizePath p of
          Inl nerr \<Rightarrow> (d1, Inl (mapMeta nerr))
        | Inr np \<Rightarrow> (case lookupIncoming dav user np of
            Inl ierr \<Rightarrow> (d1, Inl ierr)
          | Inr (m, ownerPath) \<Rightarrow>
              if imRemote m then (d1, dStatRemote dav np m)
              else if imOwnerCipherPath m \<noteq> [] then dStatCipher dav d1 np m
              else (case statOwned dav d1 (imOwnerUID m) ownerPath of
                  (d2, Inl err) \<Rightarrow> (d2, Inl err)
                | (d2, Inr e) \<Rightarrow> (d2, Inr (incomingEntry e np (imPermissions m)))))))"

definition attachLiveProps :: "'d DAV \<Rightarrow> string \<Rightarrow> Entry \<Rightarrow> Entry" where
  "attachLiveProps dav user e = (case dLiveProps dav of
      None \<Rightarrow> e
    | Some propsFor \<Rightarrow> (let props = propsFor user (ePath e) in if props = [] then e else e\<lparr>eExtraProps := props\<rparr>))"

definition davStat :: "'d DAV \<Rightarrow> 'd \<Rightarrow> string \<Rightarrow> string \<Rightarrow> 'd \<times> Entry result" where
  "davStat dav d user p = (case statMaybeIncoming dav d user p of
      (d1, Inl err) \<Rightarrow> (d1, Inl err)
    | (d1, Inr e) \<Rightarrow> (d1, Inr (attachLiveProps dav user e)))"

section \<open>Lock and Unlock\<close>

text \<open>
  \<open>Lock\<close>, \<open>Unlock\<close> and their WOPI twins begin alike: the store, the user, the path and the
  resource.
\<close>

definition lockTarget :: "'d DAV \<Rightarrow> 'd \<Rightarrow> string \<Rightarrow> string \<Rightarrow> 'd \<times> ('d LockStore \<times> int \<times> string) result" where
  "lockTarget dav d user p = (case dLocks dav of
      None \<Rightarrow> (d, Inl ErrForbidden)
    | Some ls \<Rightarrow> (case resolveUser dav user of
        Inl err \<Rightarrow> (d, Inl err)
      | Inr uid \<Rightarrow> (case NormalizePath p of
          Inl err \<Rightarrow> (d, Inl (mapMeta err))
        | Inr np \<Rightarrow> (case davStat dav d user np of
            (d1, Inl err) \<Rightarrow> (d1, Inl err)
          | (d1, Inr _) \<Rightarrow> (d1, Inr (ls, uid, np))))))"

text \<open>The lock of a path, after its expiry was dealt with.\<close>

definition currentLock :: "'d LockStore \<Rightarrow> 'd \<Rightarrow> int \<Rightarrow> string \<Rightarrow> int \<Rightarrow> 'd \<times> FileLock option result" where
  "currentLock ls d uid np now = (case lsGetByPath ls d uid np of
      Inl err \<Rightarrow> if err \<noteq> FErrNotFound then (d, Inl (mapMeta err)) else (d, Inr None)
    | Inr existing \<Rightarrow> (case expireLock ls d existing now of
        (d1, Inl err) \<Rightarrow> (d1, Inl (rawErr err))
      | (d1, Inr expired) \<Rightarrow> (d1, Inr (if expired then None else Some existing))))"

definition refreshLock :: "'d LockStore \<Rightarrow> 'd \<Rightarrow> FileLock \<Rightarrow> int \<Rightarrow> int \<Rightarrow> 'd \<times> LockInfo result" where
  "refreshLock ls d existing now timeout =
     (let expiry = unix_milli (now + timeout) in
      case lsUpdateTimeout ls d (flID existing) expiry of
        (d1, Inl err) \<Rightarrow> (d1, Inl (rawErr err))
      | (d1, Inr _) \<Rightarrow> (d1, Inr (lockInfoFromRow (existing\<lparr>flTimeoutMs := expiry\<rparr>) now)))"

definition insertLock ::
  "'d LockStore \<Rightarrow> 'd \<Rightarrow> int \<Rightarrow> string \<Rightarrow> string \<Rightarrow> string \<Rightarrow> int \<Rightarrow> int \<Rightarrow> 'd \<times> LockInfo result" where
  "insertLock ls d uid np token owner now timeout =
     (case lsInsert ls d \<lparr>flID = 0, flUserID = uid, flPath = np, flToken = token, flOwner = owner,
          flTimeoutMs = unix_milli (now + timeout), flCreatedMs = unix_milli now\<rparr> of
        (d1, Inl err) \<Rightarrow> (d1, Inl (if err = FErrExists then ErrLocked else mapMeta err))
      | (d1, Inr row) \<Rightarrow> (d1, Inr (lockInfoFromRow row now)))"

definition davLock :: "'d DAV \<Rightarrow> 'd \<Rightarrow> string \<Rightarrow> string \<Rightarrow> LockRequest \<Rightarrow> 'd \<times> LockInfo result" where
  "davLock dav d user p req = (case lockTarget dav d user p of
      (d1, Inl err) \<Rightarrow> (d1, Inl err)
    | (d1, Inr (ls, uid, np)) \<Rightarrow>
        (let timeout = clampTimeout (lrTimeout req); now = dNow dav in
         case currentLock ls d1 uid np now of
           (d2, Inl err) \<Rightarrow> (d2, Inl err)
         | (d2, Inr (Some existing)) \<Rightarrow>
             if lockHeaderHasToken (lrToken req) (flToken existing) then refreshLock ls d2 existing now timeout
             else (d2, Inl ErrLocked)
         | (d2, Inr None) \<Rightarrow>
             if lrRefresh req then (d2, Inl ErrPrecondition)
             else (case newLockToken dav of
                 Inl err \<Rightarrow> (d2, Inl err)
               | Inr token \<Rightarrow> (case insertLock ls d2 uid np token (lrOwner req) now timeout of
                   (d3, Inl err) \<Rightarrow> (d3, Inl err)
                 | (d3, Inr info) \<Rightarrow> (d3, Inr (info\<lparr>liDepthInfinity := lrDepthInfinity req\<rparr>))))))"

text \<open>The end of \<open>Unlock\<close>: the lock must be there, live and match.\<close>

definition releaseLock :: "'d LockStore \<Rightarrow> 'd \<Rightarrow> int \<Rightarrow> string \<Rightarrow> int \<Rightarrow> (string \<Rightarrow> bool) \<Rightarrow> 'd \<times> unit result" where
  "releaseLock ls d uid np now matches = (case currentLock ls d uid np now of
      (d2, Inl err) \<Rightarrow> (d2, Inl err)
    | (d2, Inr None) \<Rightarrow> (d2, Inl ErrConflict)
    | (d2, Inr (Some existing)) \<Rightarrow>
        if \<not> matches (flToken existing) then (d2, Inl ErrConflict)
        else (case lsDelete ls d2 (flID existing) of
            (d3, Inl err) \<Rightarrow> (d3, Inl (rawErr err))
          | (d3, Inr _) \<Rightarrow> (d3, Inr ())))"

definition davUnlock :: "'d DAV \<Rightarrow> 'd \<Rightarrow> string \<Rightarrow> string \<Rightarrow> string \<Rightarrow> 'd \<times> unit result" where
  "davUnlock dav d user p token0 = (case lockTarget dav d user p of
      (d1, Inl err) \<Rightarrow> (d1, Inl err)
    | (d1, Inr (ls, uid, np)) \<Rightarrow>
        (let token = stripLockToken token0 in
         if token = [] then (d1, Inl ErrBadRequest)
         else releaseLock ls d1 uid np (dNow dav) (\<lambda>stored. lockTokenMatches stored token)))"

definition ownedFile :: "'d DAV \<Rightarrow> string \<Rightarrow> int \<Rightarrow> File result" where
  "ownedFile dav uid fileID = (case resolveUser dav uid of
      Inl err \<Rightarrow> Inl err
    | Inr u \<Rightarrow> (case dMetaByID dav of
        None \<Rightarrow> Inl ErrNotFound
      | Some getByID \<Rightarrow>
          if fileID = 0 then Inl ErrNotFound
          else (case getByID fileID of
              Inl err \<Rightarrow> Inl (mapMeta err)
            | Inr f \<Rightarrow> if fUserID f \<noteq> u then Inl ErrNotFound else Inr f)))"

definition LockByFileID :: "'d DAV \<Rightarrow> 'd \<Rightarrow> string \<Rightarrow> int \<Rightarrow> LockRequest \<Rightarrow> 'd \<times> LockInfo result" where
  "LockByFileID dav d uid fileID req = (case ownedFile dav uid fileID of
      Inl err \<Rightarrow> (d, Inl err) | Inr f \<Rightarrow> davLock dav d uid (fPath f) req)"

definition UnlockByFileID :: "'d DAV \<Rightarrow> 'd \<Rightarrow> string \<Rightarrow> int \<Rightarrow> string \<Rightarrow> 'd \<times> unit result" where
  "UnlockByFileID dav d uid fileID token = (case ownedFile dav uid fileID of
      Inl err \<Rightarrow> (d, Inl err) | Inr f \<Rightarrow> davUnlock dav d uid (fPath f) token)"

section \<open>WOPI locks\<close>

definition wopiLockTarget :: "'d DAV \<Rightarrow> string \<Rightarrow> string \<Rightarrow> (string \<times> string) result" where
  "wopiLockTarget dav user p = (case lookupIncoming dav user p of
      Inr (m, ownerPath) \<Rightarrow> if imRemote m then Inl ErrNotImplemented else Inr (imOwnerUID m, ownerPath)
    | Inl err \<Rightarrow> if err = ErrForbidden then Inl err else Inr (user, p))"

definition lockOwnedWithToken :: "'d DAV \<Rightarrow> 'd \<Rightarrow> string \<Rightarrow> string \<Rightarrow> string \<Rightarrow> int \<Rightarrow> 'd \<times> LockInfo result" where
  "lockOwnedWithToken dav d user p token timeout0 = (case lockTarget dav d user p of
      (d1, Inl err) \<Rightarrow> (d1, Inl err)
    | (d1, Inr (ls, uid, np)) \<Rightarrow>
        (let timeout = clampTimeout timeout0; now = dNow dav in
         case currentLock ls d1 uid np now of
           (d2, Inl err) \<Rightarrow> (d2, Inl err)
         | (d2, Inr (Some existing)) \<Rightarrow>
             if flToken existing = token then refreshLock ls d2 existing now timeout else (d2, Inl ErrLocked)
         | (d2, Inr None) \<Rightarrow> insertLock ls d2 uid np token [] now timeout))"

definition unlockOwnedWithToken :: "'d DAV \<Rightarrow> 'd \<Rightarrow> string \<Rightarrow> string \<Rightarrow> string \<Rightarrow> 'd \<times> unit result" where
  "unlockOwnedWithToken dav d user p token = (case lockTarget dav d user p of
      (d1, Inl err) \<Rightarrow> (d1, Inl err)
    | (d1, Inr (ls, uid, np)) \<Rightarrow> releaseLock ls d1 uid np (dNow dav) (\<lambda>stored. stored = token))"

definition LockWithToken :: "'d DAV \<Rightarrow> 'd \<Rightarrow> string \<Rightarrow> string \<Rightarrow> string \<Rightarrow> int \<Rightarrow> 'd \<times> LockInfo result" where
  "LockWithToken dav d user p token timeout =
     (if token = [] then (d, Inl ErrBadRequest)
      else case wopiLockTarget dav user p of
          Inl err \<Rightarrow> (d, Inl err)
        | Inr (owner, ownerPath) \<Rightarrow> lockOwnedWithToken dav d owner ownerPath token timeout)"

definition UnlockWithToken :: "'d DAV \<Rightarrow> 'd \<Rightarrow> string \<Rightarrow> string \<Rightarrow> string \<Rightarrow> 'd \<times> unit result" where
  "UnlockWithToken dav d user p token =
     (if token = [] then (d, Inl ErrBadRequest)
      else case wopiLockTarget dav user p of
          Inl err \<Rightarrow> (d, Inl err)
        | Inr (owner, ownerPath) \<Rightarrow> unlockOwnedWithToken dav d owner ownerPath token)"

definition LockTokenAt :: "'d DAV \<Rightarrow> 'd \<Rightarrow> string \<Rightarrow> string \<Rightarrow> 'd \<times> string option result" where
  "LockTokenAt dav d user p = (case dLocks dav of
      None \<Rightarrow> (d, Inr None)
    | Some ls \<Rightarrow> (case wopiLockTarget dav user p of
        Inl err \<Rightarrow> (d, Inl err)
      | Inr (owner, ownerPath) \<Rightarrow> (case resolveUser dav owner of
          Inl err \<Rightarrow> (d, Inl err)
        | Inr uid \<Rightarrow> (case NormalizePath ownerPath of
            Inl err \<Rightarrow> (d, Inl (mapMeta err))
          | Inr np \<Rightarrow> (case currentLock ls d uid np (dNow dav) of
              (d1, Inl err) \<Rightarrow> (d1, Inl err)
            | (d1, Inr l) \<Rightarrow> (d1, Inr (map_option flToken l)))))))"

end
