(* ===== verification/Files_LockLaws.thy ===== *)
theory Files_LockLaws
  imports Files_Lock
begin

text \<open>
  The write locks of the files package satisfy their contract. The lemmas are proved once, over any
  lock store with the laws of \<open>lock_store\<close>, and the properties are their instances at
  \<open>SQLLockStore\<close>: exclusion, the reach of a lock, the locks of shared resources, and the locks that
  an office client takes through WOPI.
\<close>

section \<open>Live locks\<close>

text \<open>
  The abstract view of a lock store at a time: the rows that have not expired. Expiry is invisible
  in it, so the operations are described by what they do to the live locks.
\<close>

definition liveRow :: "('d \<Rightarrow> int \<Rightarrow> string \<Rightarrow> FileLock option) \<Rightarrow> int \<Rightarrow> 'd \<Rightarrow> int \<Rightarrow> string \<Rightarrow> FileLock option" where
  "liveRow row now d u p = (case row d u p of
      None \<Rightarrow> None | Some l \<Rightarrow> if flTimeoutMs l > unix_milli now then Some l else None)"

text \<open>The nearest live lock on the way from a path to the root, and the verdict it gives.\<close>

fun nearestLock :: "(string \<Rightarrow> FileLock option) \<Rightarrow> string list \<Rightarrow> FileLock option" where
  "nearestLock f [] = None"
| "nearestLock f (p # ps) = (case f p of Some l \<Rightarrow> Some l | None \<Rightarrow> nearestLock f ps)"

definition fileVerdict :: "string \<Rightarrow> FileLock option \<Rightarrow> unit result" where
  "fileVerdict h g = (case g of
      None \<Rightarrow> Inr () | Some l \<Rightarrow> if lockHeaderHasToken h (flToken l) then Inr () else Inl ErrLocked)"

lemma npath_parent:
  assumes "npath p" shows "npath (parentPath p)"
proof (cases "p = ''/''")
  case True
  then show ?thesis using assms by (simp add: parentPath_def trim_suffix_def)
next
  case False
  then have c: "clean_path p" using NormalizePath_result [OF assms] by simp
  obtain segs s where q: "list_all plain_seg (segs @ [s])" "p = mkpath (segs @ [s])"
    using c by (rule clean_pathE)
  have eq: "p = mkpath segs @ CHR ''/'' # s" using q(2) by simp
  note ok = NormalizePath_utf8 [OF assms]
  have d: "parentPath p = (if segs = [] then ''/'' else mkpath segs)"
    using path_dir_mkpath [OF q(1)] q(2) parentPath_clean [OF c] by simp
  show ?thesis
  proof (cases "segs = []")
    case True
    then show ?thesis using d by simp code_simp
  next
    case False
    have "utf8_valid (mkpath segs)" using ok(1) unfolding eq by (rule utf8_valid_prefix) simp
    moreover have "clean_path (mkpath segs)" using False q(1) by (auto simp: clean_path_iff)
    ultimately show ?thesis using d False ok(2,3) eq by (auto intro: NormalizePath_clean)
  qed
qed

text \<open>A state in which the same locks are live.\<close>

definition keepsLive ::
  "('d \<Rightarrow> bool) \<Rightarrow> ('d \<Rightarrow> int \<Rightarrow> string \<Rightarrow> FileLock option) \<Rightarrow> int \<Rightarrow> 'd \<Rightarrow> 'd \<Rightarrow> bool" where
  "keepsLive okd row now d d' \<longleftrightarrow> okd d' \<and> liveRow row now d' = liveRow row now d"

text \<open>
  What the operations rely on in the rest of the adapter: user ids are not 0, file rows have
  normalised paths, minted tokens are not empty, and the code for shares of encrypted trees, which
  looks at the same lock table, removes only expired locks.
\<close>

definition davOK ::
  "('d \<Rightarrow> bool) \<Rightarrow> ('d \<Rightarrow> int \<Rightarrow> string \<Rightarrow> FileLock option) \<Rightarrow> 'd DAV \<Rightarrow> bool" where
  "davOK okd row dav \<longleftrightarrow> (\<forall>uid i. dUser dav uid = Inr i \<longrightarrow> i \<noteq> 0)
     \<and> (\<forall>i p f. dMetaByPath dav i p = Inr f \<longrightarrow> npath (fPath f)) \<and> dNewToken dav \<noteq> Some []
     \<and> (\<forall>d np m. okd d \<longrightarrow> keepsLive okd row (dNow dav) d (fst (dStatCipher dav d np m)))"

text \<open>A state in which one lock is live that was not, or was refreshed, and the others are as before.\<close>

definition granted :: "('d \<Rightarrow> bool) \<Rightarrow> ('d \<Rightarrow> int \<Rightarrow> string \<Rightarrow> FileLock option) \<Rightarrow> int \<Rightarrow> 'd \<Rightarrow> int \<Rightarrow> string \<Rightarrow> string \<Rightarrow> 'd \<Rightarrow> bool" where
  "granted okd row now d u p tok d' \<longleftrightarrow> okd d' \<and> (\<exists>l. flToken l = tok
     \<and> (\<forall>v q. liveRow row now d' v q = (if v = u \<and> q = p then Some l else liveRow row now d v q)))"

lemma resolveUser_nonzero: "davOK okd row dav \<Longrightarrow> resolveUser dav uid = Inr i \<Longrightarrow> i \<noteq> 0"
  by (auto simp: davOK_def resolveUser_def split: if_splits)

lemma newLockToken_nonempty: "davOK okd row dav \<Longrightarrow> newLockToken dav = Inr t \<Longrightarrow> t \<noteq> []"
  by (auto simp: davOK_def newLockToken_def split: option.splits sum.splits)

lemma unix_milli_grows: "1000000 \<le> t \<Longrightarrow> unix_milli now < unix_milli (now + t)"
proof -
  assume t: "1000000 \<le> t"
  have "now div 1000000 < (now + 1000000) div (1000000::int)" by simp
  also have "\<dots> \<le> (now + t) div 1000000" using t by (intro zdiv_mono1) auto
  finally show ?thesis by (simp add: unix_milli_def)
qed

text \<open>A timeout that lasts: the default, or at least the millisecond that a row can tell.\<close>

definition longEnough :: "int \<Rightarrow> bool" where
  "longEnough t \<longleftrightarrow> t \<le> 0 \<or> 1000000 \<le> t"

lemma clampTimeout_long: "longEnough t \<Longrightarrow> 1000000 \<le> clampTimeout t"
  by (auto simp: longEnough_def clampTimeout_def Let_def defaultLockTimeout_def maxLockTimeout_def)

context lock_store
begin

abbreviation keeps :: "int \<Rightarrow> 'd \<Rightarrow> 'd \<Rightarrow> bool" where
  "keeps \<equiv> keepsLive inv row"

lemmas keeps_def = keepsLive_def

lemma keeps_refl: "inv d \<Longrightarrow> keeps now d d"
  by (simp add: keeps_def)

lemma keeps_trans: "keeps now d d1 \<Longrightarrow> keeps now d1 d2 \<Longrightarrow> keeps now d d2"
  by (simp add: keeps_def)

lemma expireLock_live:
  assumes i: "inv d" and r: "row d u p = Some l"
  obtains d' where "expireLock ls d l now = (d', Inr (liveRow row now d u p = None))" and "keeps now d d'"
    and "row d' u p = liveRow row now d u p"
proof (cases "flTimeoutMs l > unix_milli now")
  case True
  show thesis
    by (rule that [of d]) (use True i r in \<open>simp_all add: expireLock_def liveRow_def keeps_def\<close>)
next
  case False
  obtain d' where d': "lsDelete ls d (flID l) = (d', Inr ())" "inv d'"
      "\<And>v q. row d' v q = (if v = u \<and> q = p then None else row d v q)"
    using delete [OF i r] by auto
  show thesis
    by (rule that [of d'])
      (use False r d' in \<open>auto simp: expireLock_def liveRow_def keeps_def fun_eq_iff\<close>)
qed

lemma currentLock_live:
  assumes i: "inv d" and u: "u \<noteq> 0" "npath p"
  obtains d' where "currentLock ls d u p now = (d', Inr (liveRow row now d u p))" and "keeps now d d'"
    and "row d' u p = liveRow row now d u p"
proof (cases "row d u p")
  case None
  show thesis
    by (rule that [of d]) (use None get [OF i u] i in \<open>simp_all add: currentLock_def liveRow_def keeps_def\<close>)
next
  case (Some l)
  obtain d' where d': "expireLock ls d l now = (d', Inr (liveRow row now d u p = None))" "keeps now d d'"
      "row d' u p = liveRow row now d u p"
    using expireLock_live [OF i Some] by blast
  show thesis
    by (rule that [of d'])
      (use d' get [OF i u] Some in \<open>auto simp: currentLock_def liveRow_def split: if_splits\<close>)
qed

lemma checkLockOwnedUp_step:
  assumes i: "inv d" and u: "u \<noteq> 0" "npath cur"
  obtains d' where "keeps now d d'" and "checkLockOwnedUp ls now u h d cur =
    (case liveRow row now d u cur of
       Some l \<Rightarrow> (d', fileVerdict h (Some l))
     | None \<Rightarrow> if cur = ''/'' then (d', Inr ()) else checkLockOwnedUp ls now u h d' (parentPath cur))"
proof (cases "row d u cur")
  case None
  show thesis
    by (rule that [of d], rule keeps_refl [OF i])
      (use None get [OF i u] in \<open>simp add: checkLockOwnedUp.simps [of _ _ _ _ _ cur] liveRow_def\<close>)
next
  case (Some l)
  obtain d' where d': "expireLock ls d l now = (d', Inr (liveRow row now d u cur = None))" "keeps now d d'"
    using expireLock_live [OF i Some] by blast
  have "liveRow row now d u cur \<noteq> None \<Longrightarrow> liveRow row now d u cur = Some l"
    using Some by (auto simp: liveRow_def split: if_splits)
  then show thesis
    by (intro that [OF d'(2)], subst checkLockOwnedUp.simps)
      (use d' get [OF i u] Some in \<open>auto simp: fileVerdict_def split: option.splits\<close>)
qed

text \<open>The check decides by the nearest live lock, whatever its depth, and changes no live lock.\<close>

lemma checkLockOwnedUp_correct:
  assumes "inv d" and "u \<noteq> 0" and "npath cur"
  shows "snd (checkLockOwnedUp ls now u h d cur) = fileVerdict h (nearestLock (liveRow row now d u) (lockChain cur))
    \<and> keeps now d (fst (checkLockOwnedUp ls now u h d cur))"
  using assms(1,3)
proof (induction cur arbitrary: d rule: lockChain.induct)
  case (1 cur)
  obtain d' where d': "keeps now d d'" "checkLockOwnedUp ls now u h d cur =
      (case liveRow row now d u cur of
         Some l \<Rightarrow> (d', fileVerdict h (Some l))
       | None \<Rightarrow> if cur = ''/'' then (d', Inr ()) else checkLockOwnedUp ls now u h d' (parentPath cur))"
    using checkLockOwnedUp_step [OF "1.prems"(1) assms(2) "1.prems"(2)] by blast
  have up: "cur \<noteq> ''/'' \<Longrightarrow> snd (checkLockOwnedUp ls now u h d' (parentPath cur))
        = fileVerdict h (nearestLock (liveRow row now d u) (lockChain (parentPath cur)))
      \<and> keeps now d (fst (checkLockOwnedUp ls now u h d' (parentPath cur)))"
    using "1.IH" [of d'] d'(1) npath_parent [OF "1.prems"(2)] by (auto simp: keeps_def)
  show ?case
    using d' up by (auto simp: lockChain.simps [of cur] fileVerdict_def [of _ None] split: option.split)
qed

lemma applyLockUp_keeps:
  assumes "inv d" and "u \<noteq> 0" and "npath cur"
  shows "keeps now d (fst (applyLockUp ls now u d e cur))"
  using assms(1,3)
proof (induction cur arbitrary: d rule: lockChain.induct)
  case (1 cur)
  have up: "cur \<noteq> ''/'' \<Longrightarrow> keeps now d d' \<Longrightarrow> keeps now d (fst (applyLockUp ls now u d' e (parentPath cur)))" for d'
    using "1.IH" [of d'] npath_parent [OF "1.prems"(2)] by (auto simp: keeps_def)
  show ?case
  proof (cases "row d u cur")
    case None
    then show ?thesis using up [OF _ keeps_refl [OF "1.prems"(1)]] keeps_refl [OF "1.prems"(1)]
      by (subst applyLockUp.simps) (simp add: get [OF "1.prems"(1) assms(2) "1.prems"(2)])
  next
    case (Some l)
    obtain d' where d': "expireLock ls d l now = (d', Inr (liveRow row now d u cur = None))" "keeps now d d'"
      using expireLock_live [OF "1.prems"(1) Some] by blast
    show ?thesis using up [OF _ d'(2)] d' Some
      by (subst applyLockUp.simps)
        (auto simp: get [OF "1.prems"(1) assms(2) "1.prems"(2)] split: bool.split)
  qed
qed

lemma statOwned_keeps:
  assumes "davOK inv row dav" and "dLocks dav = Some ls" and "inv d"
  shows "keeps (dNow dav) d (fst (statOwned dav d user p))"
  using assms resolveUser_nonzero [OF assms(1)] applyLockUp_keeps [OF assms(3)] keeps_refl [OF assms(3)]
  by (auto simp: statOwned_def toEntry_def applyLock_def davOK_def split: sum.split prod.split)
    (metis fst_conv)+

lemma davStat_keeps:
  assumes "davOK inv row dav" and "dLocks dav = Some ls" and "inv d"
  shows "keeps (dNow dav) d (fst (davStat dav d user p))"
proof -
  obtain d1 r where so: "statOwned dav d user p = (d1, r)" by (cases "statOwned dav d user p")
  then have k: "keeps (dNow dav) d d1" using statOwned_keeps [OF assms, of user p] by simp
  then have i: "inv d1" by (simp add: keeps_def)
  have c: "keeps (dNow dav) d (fst (dStatCipher dav d1 np m))" for np m
    using assms(1) i k keeps_trans by (auto simp: davOK_def)
  have o: "keeps (dNow dav) d (fst (statOwned dav d1 v q))" for v q
    using statOwned_keeps [OF assms(1,2) i] k keeps_trans by blast
  have "keeps (dNow dav) d (fst (statMaybeIncoming dav d user p))"
    using so k c o by (auto simp: statMaybeIncoming_def split: sum.split prod.split) (metis fst_conv)+
  then show ?thesis by (auto simp: davStat_def split: sum.split prod.split)
qed

lemma lockTarget_cases:
  assumes "davOK inv row dav" and "dLocks dav = Some ls" and "inv d" and "lockTarget dav d user p = (d1, r)"
  shows "keeps (dNow dav) d d1" and "r = Inr (ls', uid, np) \<Longrightarrow> ls' = ls \<and> resolveUser dav user = Inr uid
    \<and> NormalizePath p = Inr np \<and> uid \<noteq> 0 \<and> npath np"
proof -
  have "keeps (dNow dav) d (fst (lockTarget dav d user p))"
    using davStat_keeps [OF assms(1-3)] keeps_refl [OF assms(3)] assms(2)
    by (auto simp: lockTarget_def split: sum.split prod.split) (metis fst_conv)+
  then show "keeps (dNow dav) d d1" using assms(4) by simp
  show "ls' = ls \<and> resolveUser dav user = Inr uid \<and> NormalizePath p = Inr np \<and> uid \<noteq> 0 \<and> npath np"
    if "r = Inr (ls', uid, np)"
    using that assms(2,4) resolveUser_nonzero [OF assms(1)] NormalizePath_fixed
    by (auto simp: lockTarget_def split: sum.splits prod.splits)
qed

section \<open>Granting and releasing\<close>

lemma refreshLock_live:
  assumes "keeps now d d2" and "row d2 u p = Some l" and "1000000 \<le> t"
  obtains d' info where "refreshLock ls d2 l now t = (d', Inr info)" and "liToken info = flToken l"
    and "granted inv row now d u p (flToken l) d'"
proof -
  have i: "inv d2" and live: "liveRow row now d = liveRow row now d2" using assms(1) by (simp_all add: keeps_def)
  obtain d' where d': "lsUpdateTimeout ls d2 (flID l) (unix_milli (now + t)) = (d', Inr ())" "inv d'"
      "\<And>v q. row d' v q = (if v = u \<and> q = p then Some (l\<lparr>flTimeoutMs := unix_milli (now + t)\<rparr>) else row d2 v q)"
    using update [OF i assms(2)] by blast
  have g: "granted inv row now d u p (flToken l) d'"
    unfolding granted_def live
    using d'(2,3) unix_milli_grows [OF assms(3)]
    by (intro conjI exI [of _ "l\<lparr>flTimeoutMs := unix_milli (now + t)\<rparr>"]) (simp_all add: liveRow_def)
  show thesis
    by (rule that [OF _ _ g], use d' in \<open>simp add: refreshLock_def Let_def\<close>) (simp add: lockInfoFromRow_def)
qed

lemma insertLock_live:
  assumes "keeps now d d2" and "u \<noteq> 0" and "npath p" and "row d2 u p = None" and "tok \<noteq> []" and "1000000 \<le> t"
  obtains (taken) "insertLock ls d2 u p tok own now t = (d2, Inl ErrLocked)" and "\<exists>v q r. row d2 v q = Some r \<and> flToken r = tok"
  | (fresh) d' info where "insertLock ls d2 u p tok own now t = (d', Inr info)" and "liToken info = tok"
    and "granted inv row now d u p tok d'" and "\<nexists>v q r. row d2 v q = Some r \<and> flToken r = tok"
proof -
  have i: "inv d2" and live: "liveRow row now d = liveRow row now d2" using assms(1) by (simp_all add: keeps_def)
  define l where "l = \<lparr>flID = 0, flUserID = u, flPath = p, flToken = tok, flOwner = own,
      flTimeoutMs = unix_milli (now + t), flCreatedMs = unix_milli now\<rparr>"
  have l: "flUserID l = u" "flPath l = p" "flToken l = tok" "flTimeoutMs (l\<lparr>flID := i\<rparr>) > unix_milli now" for i
    using unix_milli_grows [OF assms(6)] by (simp_all add: l_def)
  note ins = insert [of d2 l, unfolded l(1-3), OF i assms(2,5,3)]
  show thesis
  proof (cases "\<exists>v q r. row d2 v q = Some r \<and> flToken r = tok")
    case True
    then have "lsInsert ls d2 l = (d2, Inl FErrExists)" using ins by simp
    then show thesis using taken True by (simp add: insertLock_def l_def)
  next
    case False
    then have c: "\<not> ((\<exists>r. row d2 u p = Some r) \<or> (\<exists>v q r. row d2 v q = Some r \<and> flToken r = tok))"
      using assms(4) by simp
    obtain d' j where d': "lsInsert ls d2 l = (d', Inr (l\<lparr>flID := j\<rparr>))" "inv d'"
        "\<And>v q. row d' v q = (if v = u \<and> q = p then Some (l\<lparr>flID := j\<rparr>) else row d2 v q)"
      using ins unfolding if_not_P [OF c] by blast
    have g: "granted inv row now d u p tok d'"
      unfolding granted_def live using d'(2,3) l(3,4)
      by (intro conjI exI [of _ "l\<lparr>flID := j\<rparr>"]) (simp_all add: liveRow_def)
    show thesis
      by (rule fresh [OF _ _ g False], use d'(1) in \<open>simp add: insertLock_def l_def\<close>) (simp add: lockInfoFromRow_def)
  qed
qed

lemma releaseLock_live:
  assumes "inv d" and "u \<noteq> 0" and "npath p"
  obtains d' where "releaseLock ls d u p now m = (d', case liveRow row now d u p of
        Some l \<Rightarrow> if m (flToken l) then Inr () else Inl ErrConflict | None \<Rightarrow> Inl ErrConflict)"
    and "inv d'" and "\<And>v q. liveRow row now d' v q =
      (if v = u \<and> q = p \<and> (\<exists>l. liveRow row now d u p = Some l \<and> m (flToken l)) then None else liveRow row now d v q)"
proof -
  obtain d1 where d1: "currentLock ls d u p now = (d1, Inr (liveRow row now d u p))" "keeps now d d1"
      "row d1 u p = liveRow row now d u p"
    using currentLock_live [OF assms] by blast
  show thesis
  proof (cases "\<exists>l. liveRow row now d u p = Some l \<and> m (flToken l)")
    case True
    then obtain l where l: "liveRow row now d u p = Some l" "m (flToken l)" by blast
    obtain d2 where d2: "lsDelete ls d1 (flID l) = (d2, Inr ())" "inv d2"
        "\<And>v q. row d2 v q = (if v = u \<and> q = p then None else row d1 v q)"
      using delete [of d1 u p l] d1(2,3) l(1) by (auto simp: keeps_def)
    have k: "liveRow row now d1 = liveRow row now d" using d1(2) by (simp add: keeps_def)
    have v: "liveRow row now d2 v q = (if v = u \<and> q = p then None else liveRow row now d v q)" for v q
      unfolding k [symmetric] using d2(3) by (simp add: liveRow_def)
    show thesis
      by (rule that [of d2]) (use d1 l d2 v in \<open>simp_all add: releaseLock_def\<close>)
  next
    case False
    show thesis
      by (rule that [of d1]) (use d1 False in \<open>auto simp: releaseLock_def keeps_def split: option.splits\<close>)
  qed
qed

lemma checkLockOwned_correct:
  assumes "davOK inv row dav" and "dLocks dav = Some ls" and "inv d"
    and "resolveUser dav user = Inr u" and "NormalizePath p = Inr np"
  shows "snd (checkLockOwned dav d user p h) = fileVerdict h (nearestLock (liveRow row (dNow dav) d u) (lockChain np))"
    and "keeps (dNow dav) d (fst (checkLockOwned dav d user p h))"
  using assms checkLockOwnedUp_correct [OF assms(3) resolveUser_nonzero [OF assms(1,4)] NormalizePath_fixed [OF assms(5)], of "dNow dav" h]
  by (simp_all add: checkLockOwned_def)

lemma lockTarget_current:
  assumes "davOK inv row dav" and "dLocks dav = Some ls" and "inv d" and "lockTarget dav d user p = (d1, Inr x)"
  obtains u np d2 where "x = (ls, u, np)" and "resolveUser dav user = Inr u" and "NormalizePath p = Inr np"
    and "u \<noteq> 0" and "npath np" and "inv d1" and "keeps (dNow dav) d d1"
    and "currentLock ls d1 u np (dNow dav) = (d2, Inr (liveRow row (dNow dav) d u np))"
    and "keeps (dNow dav) d d2" and "row d2 u np = liveRow row (dNow dav) d u np"
proof -
  let ?now = "dNow dav"
  obtain ls' u np where x: "x = (ls', u, np)" by (cases x)
  note un = lockTarget_cases(2) [OF assms, of ls' u np]
  note k1 = lockTarget_cases(1) [OF assms]
  have i1: "inv d1" and live1: "liveRow row ?now d1 = liveRow row ?now d" using k1 by (simp_all add: keeps_def)
  have u: "u \<noteq> 0" "npath np" using un x by auto
  obtain d2 where d2: "currentLock ls d1 u np ?now = (d2, Inr (liveRow row ?now d u np))" "keeps ?now d1 d2"
      "row d2 u np = liveRow row ?now d u np"
    using currentLock_live [OF i1 u, of ?now] unfolding live1 by blast
  show thesis
    by (rule that [OF _ _ _ u i1 k1 d2(1) keeps_trans [OF k1 d2(2)] d2(3)]) (use un x in auto)
qed

lemma davLock_cases:
  assumes ok: "davOK inv row dav" "dLocks dav = Some ls" "inv d" and l: "davLock dav d user p req = (d', r)"
    and t: "longEnough (lrTimeout req)"
  shows "case r of
      Inl err \<Rightarrow> keeps (dNow dav) d d'
    | Inr info \<Rightarrow> \<exists>u np. resolveUser dav user = Inr u \<and> NormalizePath p = Inr np
        \<and> granted inv row (dNow dav) d u np (liToken info) d'
        \<and> (\<forall>old. liveRow row (dNow dav) d u np = Some old \<longrightarrow> lockHeaderHasToken (lrToken req) (flToken old))"
proof (cases "lockTarget dav d user p")
  case (Pair d1 tg)
  show ?thesis
  proof (cases tg)
    case (Inl err)
    then show ?thesis using l Pair lockTarget_cases(1) [OF ok Pair] by (auto simp: davLock_def)
  next
    case (Inr x)
    obtain u np d2 where x: "x = (ls, u, np)" and un: "resolveUser dav user = Inr u" "NormalizePath p = Inr np"
        "u \<noteq> 0" "npath np"
      and d2: "currentLock ls d1 u np (dNow dav) = (d2, Inr (liveRow row (dNow dav) d u np))"
        "keeps (dNow dav) d d2" "row d2 u np = liveRow row (dNow dav) d u np"
      using lockTarget_current [OF ok] Pair Inr by metis
    note dl = l [unfolded davLock_def, simplified Pair Inr x, simplified, simplified d2(1) Let_def]
    show ?thesis
    proof (cases "liveRow row (dNow dav) d u np")
      case None
      show ?thesis
      proof (cases "newLockToken dav")
        case (Inr tok)
        have rn: "row d2 u np = None" using d2(3) None by simp
        show ?thesis
          using dl None Inr d2(2) un
          by (cases rule: insertLock_live [OF d2(2) un(3,4) rn newLockToken_nonempty [OF ok(1) Inr] clampTimeout_long [OF t],
              of "lrOwner req"]) (auto split: if_splits)
      qed (use dl None d2(2) in \<open>auto split: if_splits\<close>)
    next
      case (Some old)
      then have ro: "row d2 u np = Some old" using d2(3) by simp
      obtain d3 info where "refreshLock ls d2 old (dNow dav) (clampTimeout (lrTimeout req)) = (d3, Inr info)"
          "liToken info = flToken old" "granted inv row (dNow dav) d u np (flToken old) d3"
        using refreshLock_live [OF d2(2) ro clampTimeout_long [OF t]] by blast
      then show ?thesis using dl Some d2(2) un by (auto split: if_splits)
    qed
  qed
qed

lemma davLock_live:
  assumes "davOK inv row dav" and "dLocks dav = Some ls" and "inv d" and "davLock dav d user p req = (d', Inr info)"
    and "longEnough (lrTimeout req)" and "resolveUser dav user = Inr u" and "NormalizePath p = Inr np"
  obtains l where "flToken l = liToken info" and "inv d'" and "\<And>v q. liveRow row (dNow dav) d' v q =
      (if v = u \<and> q = np then Some l else liveRow row (dNow dav) d v q)"
  using davLock_cases [OF assms(1-5)] assms(6,7) by (auto simp: granted_def)

lemma lockOwnedWithToken_cases:
  assumes ok: "davOK inv row dav" "dLocks dav = Some ls" "inv d"
    and l: "lockOwnedWithToken dav d user p tok t = (d', r)" and t: "longEnough t" and tok: "tok \<noteq> []"
  shows "case r of
      Inl err \<Rightarrow> keeps (dNow dav) d d'
    | Inr info \<Rightarrow> \<exists>u np. resolveUser dav user = Inr u \<and> NormalizePath p = Inr np
        \<and> granted inv row (dNow dav) d u np tok d'
        \<and> (\<forall>old. liveRow row (dNow dav) d u np = Some old \<longrightarrow> flToken old = tok)"
proof (cases "lockTarget dav d user p")
  case (Pair d1 tg)
  show ?thesis
  proof (cases tg)
    case (Inl err)
    then show ?thesis using l Pair lockTarget_cases(1) [OF ok Pair] by (auto simp: lockOwnedWithToken_def)
  next
    case (Inr x)
    obtain u np d2 where x: "x = (ls, u, np)" and un: "resolveUser dav user = Inr u" "NormalizePath p = Inr np"
        "u \<noteq> 0" "npath np"
      and d2: "currentLock ls d1 u np (dNow dav) = (d2, Inr (liveRow row (dNow dav) d u np))"
        "keeps (dNow dav) d d2" "row d2 u np = liveRow row (dNow dav) d u np"
      using lockTarget_current [OF ok] Pair Inr by metis
    note dl = l [unfolded lockOwnedWithToken_def, simplified Pair Inr x, simplified, simplified d2(1) Let_def]
    show ?thesis
    proof (cases "liveRow row (dNow dav) d u np")
      case None
      have rn: "row d2 u np = None" using d2(3) None by simp
      show ?thesis
        using dl None d2(2) un
        by (cases rule: insertLock_live [OF d2(2) un(3,4) rn tok clampTimeout_long [OF t], of "[]"]) auto
    next
      case (Some old)
      then have ro: "row d2 u np = Some old" using d2(3) by simp
      obtain d3 info where "refreshLock ls d2 old (dNow dav) (clampTimeout t) = (d3, Inr info)"
          "liToken info = flToken old" "granted inv row (dNow dav) d u np (flToken old) d3"
        using refreshLock_live [OF d2(2) ro clampTimeout_long [OF t]] by blast
      then show ?thesis using dl Some d2(2) un by (auto split: if_splits)
    qed
  qed
qed

lemma lockOwnedWithToken_refused:
  assumes ok: "davOK inv row dav" "dLocks dav = Some ls" "inv d" and "snd (lockTarget dav d user p) = Inr (ls, u, np)"
    and "liveRow row (dNow dav) d u np = Some old" and "flToken old \<noteq> tok"
  shows "snd (lockOwnedWithToken dav d user p tok t) = Inl ErrLocked"
proof -
  obtain d1 where lt: "lockTarget dav d user p = (d1, Inr (ls, u, np))" using assms(4) by (cases "lockTarget dav d user p") auto
  obtain d2 where "currentLock ls d1 u np (dNow dav) = (d2, Inr (liveRow row (dNow dav) d u np))"
    by (rule lockTarget_current [OF ok lt]) auto
  then show ?thesis using lt assms(5,6) by (simp add: lockOwnedWithToken_def Let_def)
qed

lemma lockOwnedWithToken_clash:
  assumes ok: "davOK inv row dav" "dLocks dav = Some ls" "inv d" and lt: "snd (lockTarget dav d user p) = Inr (ls, u, np)"
    and free: "liveRow row (dNow dav) d u np = None" and other: "liveRow row (dNow dav) d v q = Some r" "flToken r = tok"
    and "tok \<noteq> []" and "longEnough t"
  shows "snd (lockOwnedWithToken dav d user p tok t) = Inl ErrLocked"
proof -
  obtain d1 where lt: "lockTarget dav d user p = (d1, Inr (ls, u, np))" using lt by (cases "lockTarget dav d user p") auto
  obtain d2 where d2: "currentLock ls d1 u np (dNow dav) = (d2, Inr None)" "keeps (dNow dav) d d2" "row d2 u np = None"
    and un: "u \<noteq> 0" "npath np"
    by (rule lockTarget_current [OF ok lt]) (use free in auto)
  have "liveRow row (dNow dav) d2 v q = Some r" using d2(2) other(1) by (simp add: keeps_def)
  then have "row d2 v q = Some r" by (auto simp: liveRow_def split: option.splits if_splits)
  then have "insertLock ls d2 u np tok [] (dNow dav) (clampTimeout t) = (d2, Inl ErrLocked)"
    using other(2)
    by (cases rule: insertLock_live [OF d2(2) un d2(3) \<open>tok \<noteq> []\<close> clampTimeout_long [OF \<open>longEnough t\<close>], of "[]"]) auto
  then show ?thesis using lt d2(1) by (simp add: lockOwnedWithToken_def Let_def)
qed

lemma LockTokenAt_live:
  assumes "davOK inv row dav" and "dLocks dav = Some ls" and "inv d" and "wopiLockTarget dav user p = Inr (ow, op)"
    and "resolveUser dav ow = Inr u" and "NormalizePath op = Inr np"
  shows "snd (LockTokenAt dav d user p) = Inr (map_option flToken (liveRow row (dNow dav) d u np))"
proof -
  obtain d' where "currentLock ls d u np (dNow dav) = (d', Inr (liveRow row (dNow dav) d u np))"
    using currentLock_live [OF assms(3) resolveUser_nonzero [OF assms(1,5)] NormalizePath_fixed [OF assms(6)]] by blast
  then show ?thesis using assms by (simp add: LockTokenAt_def)
qed

lemma davUnlock_cases:
  assumes ok: "davOK inv row dav" "dLocks dav = Some ls" "inv d" and "davUnlock dav d user p token = (d', r)"
    and "resolveUser dav user = Inr u" and "NormalizePath p = Inr np"
  shows "inv d' \<and> (\<forall>v q. liveRow row (dNow dav) d' v q =
      (if r = Inr () \<and> v = u \<and> q = np then None else liveRow row (dNow dav) d v q))
    \<and> (r = Inr () \<longrightarrow> (\<exists>l. liveRow row (dNow dav) d u np = Some l
          \<and> lockTokenMatches (flToken l) (StripLockToken token)))"
proof (cases "lockTarget dav d user p")
  case (Pair d1 tg)
  show ?thesis
  proof (cases tg)
    case (Inl err)
    then show ?thesis using assms(4) Pair lockTarget_cases(1) [OF ok Pair] by (auto simp: davUnlock_def keeps_def)
  next
    case (Inr x)
    have lt: "lockTarget dav d user p = (d1, Inr (ls, u, np))"
      by (rule lockTarget_current [OF ok Pair [unfolded Inr]]) (use Pair Inr assms(5,6) in auto)
    then have un: "u \<noteq> 0" "npath np" and k: "keeps (dNow dav) d d1"
      using lockTarget_cases [OF ok lt] by auto
    then have i: "inv d1" and live: "liveRow row (dNow dav) d1 = liveRow row (dNow dav) d" by (simp_all add: keeps_def)
    show ?thesis
    proof (cases "StripLockToken token = []")
      case True
      then show ?thesis using assms(4) lt i live by (auto simp: davUnlock_def Let_def)
    next
      case False
      obtain d2 where "releaseLock ls d1 u np (dNow dav) (\<lambda>s. lockTokenMatches s (StripLockToken token)) =
          (d2, case liveRow row (dNow dav) d u np of
            Some l \<Rightarrow> if lockTokenMatches (flToken l) (StripLockToken token) then Inr () else Inl ErrConflict
          | None \<Rightarrow> Inl ErrConflict)" "inv d2"
          "\<And>v q. liveRow row (dNow dav) d2 v q = (if v = u \<and> q = np \<and> (\<exists>l. liveRow row (dNow dav) d u np = Some l
             \<and> lockTokenMatches (flToken l) (StripLockToken token)) then None else liveRow row (dNow dav) d v q)"
        using releaseLock_live [OF i un, of "dNow dav" "\<lambda>s. lockTokenMatches s (StripLockToken token)"]
        unfolding live by blast
      then show ?thesis using assms(4) lt False
        by (auto simp: davUnlock_def Let_def lockTokenMatches_def split: option.splits if_splits)
    qed
  qed
qed

end

section \<open>Properties\<close>

text \<open>
  A small world for the witnesses: Alice (id 1) owns the folder \<open>/docs\<close> with the file \<open>f\<close>, which Bob
  (id 2) sees at \<open>/shared\<close>.
\<close>

definition demoShare :: IncomingMount where
  "demoShare = \<lparr>imOwnerUID = ''alice'', imOwnerPath = ''/docs'', imOwnerCipherPath = [], imMount = ''/shared'',
     imPermissions = 31, imItemType = ''folder'', imRemote = False, imRemoteOrigin = [], imRemoteToken = []\<rparr>"

definition demoDAV :: "(string \<Rightarrow> string \<Rightarrow> bool) \<Rightarrow> lockTable DAV" where
  "demoDAV like = \<lparr>dLocks = Some (NewSQLLockStore like),
     dUser = (\<lambda>u. if u = ''alice'' then Inr 1 else if u = ''bob'' then Inr 2 else Inl ErrForbidden),
     dMetaByPath = (\<lambda>u p. if u = 1 \<and> p = ''/docs'' then Inr (demoFile ''/docs'' ''e1'')
       else if u = 1 \<and> p = ''/docs/f'' then Inr (demoFile ''/docs/f'' ''e2'') else Inl FErrNotFound),
     dMetaByID = None, dProps = None, dLiveProps = None,
     dIncoming = Some (\<lambda>u. Inr (if u = ''bob'' then [demoShare] else [])),
     dNewToken = Some ''opaquelocktoken:00'', dRandom = Inr ''11'', dNow = 0,
     dStatRemote = (\<lambda>p m. Inl ErrNotFound), dStatCipher = (\<lambda>d p m. (d, Inl ErrNotFound)),
     dCheckCipher = (\<lambda>d m p h. (d, Inr ()))\<rparr>"

definition demoRow :: "int \<Rightarrow> string \<Rightarrow> string \<Rightarrow> FileLock" where
  "demoRow u p t = \<lparr>flID = 1, flUserID = u, flPath = p, flToken = t, flOwner = [], flTimeoutMs = 5, flCreatedMs = 0\<rparr>"

definition demoTable :: "FileLock list \<Rightarrow> lockTable" where
  "demoTable rows = \<lparr>ltRows = rows, ltSeq = 1, ltDown = None\<rparr>"

definition demoLike :: "string \<Rightarrow> string \<Rightarrow> bool" where
  "demoLike pat s = False"

definition demoReq :: LockRequest where
  "demoReq = \<lparr>lrRefresh = False, lrOwner = [], lrTimeout = 0, lrToken = [], lrDepthInfinity = False\<rparr>"

lemma demoDAV_ok: "davOK sqlInv sqlRow (demoDAV like)" "dLocks (demoDAV like) = Some (NewSQLLockStore like)"
  "sqlInv (demoTable [])" "sqlInv (demoTable [demoRow u p t])" "longEnough (lrTimeout demoReq)"
proof -
  have n: "npath ''/docs''" "npath ''/docs/f''" by code_simp+
  show "davOK sqlInv sqlRow (demoDAV like)"
    using n by (auto simp: davOK_def demoDAV_def keepsLive_def demoFile_def split: if_splits)
qed (simp_all add: demoDAV_def sqlInv_def demoTable_def demoRow_def longEnough_def demoReq_def)

lemma demo_paths:
  "resolveUser (demoDAV like) ''alice'' = Inr 1" "resolveUser (demoDAV like) ''bob'' = Inr 2"
  "NormalizePath ''/docs/f'' = Inr ''/docs/f''" "NormalizePath ''/shared/f'' = Inr ''/shared/f''"
  "lookupIncoming (demoDAV like) ''bob'' ''/shared/f'' = Inr (demoShare, ''/docs/f'')"
proof -
  show n: "NormalizePath ''/docs/f'' = Inr ''/docs/f''" "NormalizePath ''/shared/f'' = Inr ''/shared/f''" by code_simp+
  show "lookupIncoming (demoDAV like) ''bob'' ''/shared/f'' = Inr (demoShare, ''/docs/f'')"
    using n by (simp add: lookupIncoming_def demoDAV_def demoShare_def trim_prefix_def)
qed (simp_all add: resolveUser_def demoDAV_def)

lemma demo_chain: "lockChain ''/docs/f'' = [''/docs/f'', ''/docs'', ''/'']"
proof -
  have "parentPath ''/docs/f'' = ''/docs''" "parentPath ''/docs'' = ''/''" by code_simp+
  then show ?thesis by (simp add: lockChain.simps)
qed

text \<open>
  C35. A lock reaches as far as its collection: the database-backed check decides by the nearest
  live lock on the way from the resource to the root, and it changes no live lock. The depth of
  the lock is not stored, so a lock of depth 0 on a collection stands against the content of
  everything below it.
\<close>

theorem file_lock_guard:
  assumes "davOK sqlInv sqlRow dav" and "dLocks dav = Some (NewSQLLockStore like)" and "sqlInv d"
    and "resolveUser dav user = Inr u" and "NormalizePath p = Inr np"
  shows "snd (checkLockOwned dav d user p h)
        = fileVerdict h (nearestLock (liveRow sqlRow (dNow dav) d u) (lockChain np))
    \<and> sqlInv (fst (checkLockOwned dav d user p h))
    \<and> liveRow sqlRow (dNow dav) (fst (checkLockOwned dav d user p h)) = liveRow sqlRow (dNow dav) d"
  using sql.checkLockOwned_correct [OF assms] by (simp add: keepsLive_def)

theorem file_lock_guard_witness:
  "snd (checkLockOwned (demoDAV demoLike) (demoTable [demoRow 1 ''/docs'' ''t'']) ''alice'' ''/docs/f'' []) = Inl ErrLocked"
proof -
  have "\<not> lockHeaderHasToken [] ''t''" by code_simp
  then show ?thesis
    using file_lock_guard [OF demoDAV_ok(1,2,4) demo_paths(1,3), of demoLike 1 "''/docs''" "''t''" "[]"]
    by (simp add: demo_chain liveRow_def sqlRow_def demoTable_def demoRow_def unix_milli_def fileVerdict_def demoDAV_def)
qed

text \<open>
  C34. File locks are exclusive on their path: a \<open>LOCK\<close> that is granted found no live lock on exactly that path of the caller's
  own tree, or was given the token of the one there (locks on the directories above are not consulted), and makes exactly that lock
  live; from then on \<open>checkLockOwned\<close> of the same caller and path refuses every header that lacks the token. A \<open>LOCK\<close> that fails
  changes no live lock. A lock on a path of an incoming share is recorded under the sharee and stands against nobody else.
\<close>

theorem file_lock_exclusive:
  assumes "davOK sqlInv sqlRow dav" and "dLocks dav = Some (NewSQLLockStore like)" and "sqlInv d"
    and "davLock dav d user p req = (d', r)" and "longEnough (lrTimeout req)"
  shows "case r of
      Inl err \<Rightarrow> sqlInv d' \<and> liveRow sqlRow (dNow dav) d' = liveRow sqlRow (dNow dav) d
    | Inr info \<Rightarrow> \<exists>u np l. resolveUser dav user = Inr u \<and> NormalizePath p = Inr np \<and> flToken l = liToken info
        \<and> (\<forall>old. liveRow sqlRow (dNow dav) d u np = Some old \<longrightarrow> lockHeaderHasToken (lrToken req) (flToken old))
        \<and> (\<forall>v q. liveRow sqlRow (dNow dav) d' v q = (if v = u \<and> q = np then Some l else liveRow sqlRow (dNow dav) d v q))
        \<and> (\<forall>h. snd (checkLockOwned dav d' user p h) =
              (if lockHeaderHasToken h (liToken info) then Inr () else Inl ErrLocked))"
proof (cases r)
  case (Inl err)
  then show ?thesis using sql.davLock_cases [OF assms] by (simp add: keepsLive_def)
next
  case (Inr info)
  then obtain u np l where un: "resolveUser dav user = Inr u" "NormalizePath p = Inr np" and tok: "flToken l = liToken info"
    and old: "\<forall>old. liveRow sqlRow (dNow dav) d u np = Some old \<longrightarrow> lockHeaderHasToken (lrToken req) (flToken old)"
    and i: "sqlInv d'" and live: "\<forall>v q. liveRow sqlRow (dNow dav) d' v q =
          (if v = u \<and> q = np then Some l else liveRow sqlRow (dNow dav) d v q)"
    using sql.davLock_cases [OF assms] by (auto simp: granted_def)
  have near: "nearestLock (liveRow sqlRow (dNow dav) d' u) (lockChain np) = Some l"
    using live by (simp add: lockChain.simps [of np])
  have "snd (checkLockOwned dav d' user p h) = (if lockHeaderHasToken h (liToken info) then Inr () else Inl ErrLocked)" for h
    using sql.checkLockOwned_correct(1) [OF assms(1,2) i un, of h] near tok by (simp add: fileVerdict_def)
  then show ?thesis using Inr un tok old live by auto
qed

theorem file_lock_exclusive_witness:
  "\<exists>d' info. davLock (demoDAV demoLike) (demoTable []) ''alice'' ''/docs/f'' demoReq = (d', Inr info)
     \<and> snd (checkLockOwned (demoDAV demoLike) d' ''alice'' ''/docs/f'' []) =
         (if lockHeaderHasToken [] (liToken info) then Inr () else Inl ErrLocked)"
proof -
  have "\<not> isl (snd (davLock (demoDAV demoLike) (demoTable []) ''alice'' ''/docs/f'' demoReq))" by code_simp
  then obtain d' info where l: "davLock (demoDAV demoLike) (demoTable []) ''alice'' ''/docs/f'' demoReq = (d', Inr info)"
    by (metis prod.collapse sum.collapse(2))
  from file_lock_exclusive [OF demoDAV_ok(1-3) l demoDAV_ok(5)] l show ?thesis by auto
qed

text \<open>
  The lock of a sharee protects nothing: \<open>LOCK\<close> on a resource of an incoming share stores the lock
  under the sharee's own id and path, but the check of every later request looks under the
  owner's. When the owner's resource was free, the sharee's lock is granted and afterwards a
  request with any \<open>If\<close> header, of the sharee or of the owner, passes the check.
\<close>

theorem sharee_lock_not_enforced:
  assumes "davOK sqlInv sqlRow dav" and "dLocks dav = Some (NewSQLLockStore like)" and "sqlInv d"
    and "davLock dav d user p req = (d', Inr info)" and "longEnough (lrTimeout req)"
    and "lookupIncoming dav user p = Inr (m, op)" and "\<not> imRemote m" and "imOwnerCipherPath m = []"
    and "resolveUser dav (imOwnerUID m) = Inr ow" and "NormalizePath op = Inr np"
    and "resolveUser dav user \<noteq> Inr ow"
    and "nearestLock (liveRow sqlRow (dNow dav) d ow) (lockChain np) = None"
  shows "snd (davCheckLock dav d' user p h) = Inr () \<and> snd (checkLockOwned dav d' (imOwnerUID m) op h) = Inr ()"
proof -
  obtain u nu where un: "resolveUser dav user = Inr u" "NormalizePath p = Inr nu"
    using sql.davLock_cases [OF assms(1-5)] by auto
  obtain l where i: "sqlInv d'" and live: "\<And>v q. liveRow sqlRow (dNow dav) d' v q =
      (if v = u \<and> q = nu then Some l else liveRow sqlRow (dNow dav) d v q)"
    using sql.davLock_live [OF assms(1-5) un] by blast
  have "liveRow sqlRow (dNow dav) d' ow = liveRow sqlRow (dNow dav) d ow"
    using live un(1) assms(11) by (auto simp: fun_eq_iff)
  then have "snd (checkLockOwned dav d' (imOwnerUID m) op h) = Inr ()"
    using sql.checkLockOwned_correct(1) [OF assms(1,2) i assms(9,10), of h] assms(12) by (simp add: fileVerdict_def)
  then show ?thesis using assms(6-8) by (simp add: davCheckLock_def)
qed

theorem sharee_lock_not_enforced_witness:
  "\<exists>d' info. davLock (demoDAV demoLike) (demoTable []) ''bob'' ''/shared/f'' demoReq = (d', Inr info)
     \<and> snd (davCheckLock (demoDAV demoLike) d' ''bob'' ''/shared/f'' []) = Inr ()"
proof -
  have "\<not> isl (snd (davLock (demoDAV demoLike) (demoTable []) ''bob'' ''/shared/f'' demoReq))" by code_simp
  then obtain d' info where l: "davLock (demoDAV demoLike) (demoTable []) ''bob'' ''/shared/f'' demoReq = (d', Inr info)"
    by (metis prod.collapse sum.collapse(2))
  have "nearestLock (liveRow sqlRow (dNow (demoDAV demoLike)) (demoTable []) 1) (lockChain ''/docs/f'') = None"
    by (simp add: demo_chain liveRow_def sqlRow_def demoTable_def)
  with sharee_lock_not_enforced [OF demoDAV_ok(1-3) l demoDAV_ok(5) demo_paths(5), of 1 "''/docs/f''" "[]"] demo_paths l
  show ?thesis by (simp add: demoShare_def)
qed

text \<open>
  Owner and sharee contend for one WOPI lock: a lock taken through an incoming share is granted on the
  owner's resource when that was free or carried the same token; from then on both of them read
  back exactly that token, and a lock with another token on the owner's resource is refused.
\<close>

theorem wopi_lock_contention:
  assumes "davOK sqlInv sqlRow dav" and "dLocks dav = Some (NewSQLLockStore like)" and "sqlInv d"
    and "LockWithToken dav d user p tok t = (d', Inr info)" and "longEnough t"
    and "wopiLockTarget dav user p = Inr (own, op)"
    and "snd (lockTarget dav d' own op) = Inr (NewSQLLockStore like, u, np)"
  shows "snd (LockTokenAt dav d' user p) = Inr (Some tok)
    \<and> (\<forall>old. liveRow sqlRow (dNow dav) d u np = Some old \<longrightarrow> flToken old = tok)
    \<and> (wopiLockTarget dav own op = Inr (own, op) \<longrightarrow> snd (LockTokenAt dav d' own op) = Inr (Some tok)
         \<and> (\<forall>tok'. tok' \<noteq> tok \<and> tok' \<noteq> [] \<longrightarrow> snd (LockWithToken dav d' own op tok' t') = Inl ErrLocked))"
proof -
  have tok: "tok \<noteq> []" and lo: "lockOwnedWithToken dav d own op tok t = (d', Inr info)"
    using assms(4,6) by (auto simp: LockWithToken_def split: if_splits)
  obtain v nq l where un: "resolveUser dav own = Inr v" "NormalizePath op = Inr nq" and i: "sqlInv d'"
    and live: "\<And>w q. liveRow sqlRow (dNow dav) d' w q = (if w = v \<and> q = nq then Some l else liveRow sqlRow (dNow dav) d w q)"
    and l: "flToken l = tok" and old: "\<forall>old. liveRow sqlRow (dNow dav) d v nq = Some old \<longrightarrow> flToken old = tok"
    using sql.lockOwnedWithToken_cases [OF assms(1-3) lo assms(5) tok] by (auto simp: granted_def)
  obtain d1 where lt: "lockTarget dav d' own op = (d1, Inr (NewSQLLockStore like, u, np))"
    using assms(7) by (cases "lockTarget dav d' own op") auto
  have eq: "v = u" "nq = np" using sql.lockTarget_cases(2) [OF assms(1,2) i lt refl] un by auto
  have at: "snd (LockTokenAt dav d' w q) = Inr (Some tok)" if "wopiLockTarget dav w q = Inr (own, op)" for w q
    using sql.LockTokenAt_live [OF assms(1,2) i that un] live l by simp
  have "snd (LockWithToken dav d' own op tok' t') = Inl ErrLocked"
    if "wopiLockTarget dav own op = Inr (own, op)" "tok' \<noteq> tok \<and> tok' \<noteq> []" for tok'
    using sql.lockOwnedWithToken_refused [OF assms(1,2) i assms(7), of l tok' t'] that live l eq
    by (auto simp: LockWithToken_def)
  then show ?thesis using at assms(6) old eq by blast
qed

theorem wopi_lock_contention_witness:
  "\<exists>d' info. LockWithToken (demoDAV demoLike) (demoTable []) ''bob'' ''/shared/f'' ''w'' 0 = (d', Inr info)
     \<and> snd (LockTokenAt (demoDAV demoLike) d' ''bob'' ''/shared/f'') = Inr (Some ''w'')"
proof -
  let ?x = "LockWithToken (demoDAV demoLike) (demoTable []) ''bob'' ''/shared/f'' ''w'' 0"
  have "\<not> isl (snd ?x)" and r: "\<not> isl (snd (lockTarget (demoDAV demoLike) (fst ?x) ''alice'' ''/docs/f''))" by code_simp+
  then obtain d' info where l: "?x = (d', Inr info)" by (metis prod.collapse sum.collapse(2))
  from r have "\<not> isl (snd (lockTarget (demoDAV demoLike) d' ''alice'' ''/docs/f''))" by (simp add: l)
  then obtain d1 x where lt: "lockTarget (demoDAV demoLike) d' ''alice'' ''/docs/f'' = (d1, Inr x)"
    by (metis prod.collapse sum.collapse(2))
  have "x = (NewSQLLockStore demoLike, 1, ''/docs/f'')"
    using lt demo_paths by (auto simp: lockTarget_def demoDAV_ok split: sum.splits prod.splits)
  then have s: "snd (lockTarget (demoDAV demoLike) d' ''alice'' ''/docs/f'') = Inr (NewSQLLockStore demoLike, 1, ''/docs/f'')"
    using lt by simp
  have w: "wopiLockTarget (demoDAV demoLike) ''bob'' ''/shared/f'' = Inr (''alice'', ''/docs/f'')"
    using demo_paths by (simp add: wopiLockTarget_def demoShare_def)
  have long: "longEnough 0" by (simp add: longEnough_def)
  from wopi_lock_contention [OF demoDAV_ok(1-3) l long w s] l show ?thesis by auto
qed

text \<open>
  A WOPI lock id can be used only once: lock ids are chosen by the office client, but the table keeps
  tokens unique over all users and paths. A lock with an id that is live anywhere else is
  refused with \<open>ErrLocked\<close> although the resource itself carries no live lock.
\<close>

theorem wopi_lock_id_clash:
  assumes "davOK sqlInv sqlRow dav" and "dLocks dav = Some (NewSQLLockStore like)" and "sqlInv d"
    and "wopiLockTarget dav user p = Inr (own, op)"
    and "snd (lockTarget dav d own op) = Inr (NewSQLLockStore like, u, np)"
    and "liveRow sqlRow (dNow dav) d u np = None" and "liveRow sqlRow (dNow dav) d v q = Some r"
    and "flToken r \<noteq> []" and "longEnough t"
  shows "snd (LockWithToken dav d user p (flToken r) t) = Inl ErrLocked"
  using sql.lockOwnedWithToken_clash [OF assms(1-3,5-7) refl assms(8,9)] assms(4,8)
  by (simp add: LockWithToken_def)

theorem wopi_lock_id_clash_witness:
  "snd (LockWithToken (demoDAV demoLike) (demoTable [demoRow 2 ''/x'' ''w'']) ''alice'' ''/docs/f'' ''w'' 0) = Inl ErrLocked"
proof -
  let ?d = "demoTable [demoRow 2 ''/x'' ''w'']"
  have "\<not> isl (snd (lockTarget (demoDAV demoLike) ?d ''alice'' ''/docs/f''))" by code_simp
  then obtain d1 x where lt: "lockTarget (demoDAV demoLike) ?d ''alice'' ''/docs/f'' = (d1, Inr x)"
    by (metis prod.collapse sum.collapse(2))
  have "x = (NewSQLLockStore demoLike, 1, ''/docs/f'')"
    using lt demo_paths by (auto simp: lockTarget_def demoDAV_ok split: sum.splits prod.splits)
  then have s: "snd (lockTarget (demoDAV demoLike) ?d ''alice'' ''/docs/f'') = Inr (NewSQLLockStore demoLike, 1, ''/docs/f'')"
    using lt by simp
  have w: "wopiLockTarget (demoDAV demoLike) ''alice'' ''/docs/f'' = Inr (''alice'', ''/docs/f'')"
    using demo_paths by (simp add: wopiLockTarget_def lookupIncoming_def demoDAV_def)
  have l: "liveRow sqlRow (dNow (demoDAV demoLike)) ?d 1 ''/docs/f'' = None"
    "liveRow sqlRow (dNow (demoDAV demoLike)) ?d 2 ''/x'' = Some (demoRow 2 ''/x'' ''w'')"
    by (simp_all add: liveRow_def sqlRow_def demoTable_def demoRow_def demoDAV_def unix_milli_def)
  have t: "flToken (demoRow 2 ''/x'' ''w'') = ''w''" "longEnough 0" by (simp_all add: demoRow_def longEnough_def)
  show ?thesis using wopi_lock_id_clash [OF demoDAV_ok(1,2,4) w s l, of 0] t by simp
qed

end
