(* ===== verification/Files_Store.thy ===== *)
theory Files_Store
  imports Files_LockStore
begin

text \<open>
  The file cache (\<^verbatim>\<open>src/internal/files/sqlstore.go\<close>): the table \<open>files\<close> with the operations of \<open>SQLStore\<close>. Its
  migration fixes the keys: an ascending id, one row per user and path, and a reference to the parent row
  with \<open>ON DELETE CASCADE\<close>. A row is a \<open>File\<close> whose time is cut to milliseconds, as the column keeps
  it. A database that cannot be reached makes every statement fail with its error text; the foreign keys on the
  user and on the parent, whose row has just been read, hold. The operators \<open>LIKE\<close> and \<open>LIKE .. ESCAPE\<close>
  are parameters, pattern first. \<open>RecalcAncestors\<close> follows the parent references until it meets a row without
  one; it is a partial function, whose value is \<^const>\<open>None\<close> when it runs for ever.
\<close>

section \<open>Rows\<close>

record fileTable =
  fcRows :: "File list"
  fcNext :: int
  fcDown :: "string option"

definition msTrunc :: "int \<Rightarrow> int" where
  "msTrunc t = unix_milli t * 1000000"

definition keyColumn :: "string option \<Rightarrow> string option" where
  "keyColumn k = (case k of Some [] \<Rightarrow> None | _ \<Rightarrow> k)"

definition scanOne :: "fileTable \<Rightarrow> (File \<Rightarrow> bool) \<Rightarrow> File files_result" where
  "scanOne d P = (case fcDown d of
      Some e \<Rightarrow> Inl (FErrOther e)
    | None \<Rightarrow> (case find P (fcRows d) of None \<Rightarrow> Inl FErrNotFound | Some f \<Rightarrow> Inr f))"

definition fcGetByPath :: "fileTable \<Rightarrow> int \<Rightarrow> string \<Rightarrow> File files_result" where
  "fcGetByPath d userID p = (case NormalizePath p of
      Inl e \<Rightarrow> Inl e
    | Inr np \<Rightarrow> scanOne d (\<lambda>f. fUserID f = userID \<and> fPath f = np))"

definition fcGetByID :: "fileTable \<Rightarrow> int \<Rightarrow> File files_result" where
  "fcGetByID d i = (if i = 0 then Inl FErrNotFound else scanOne d (\<lambda>f. fID f = i))"

definition fcListChildren :: "fileTable \<Rightarrow> int \<Rightarrow> int \<Rightarrow> File list files_result" where
  "fcListChildren d userID parentID = (case fcDown d of
      Some e \<Rightarrow> Inl (dbError ''files: list'' e)
    | None \<Rightarrow> Inr (sort_key fPath (filter (\<lambda>f. fUserID f = userID \<and> fParentID f = Some parentID) (fcRows d))))"

section \<open>Updates\<close>

text \<open>The columns of \<open>updateMetaStmt\<close>: all but the id, the user and the name scheme.\<close>

definition updateMetaStmt :: "File \<Rightarrow> File \<Rightarrow> File" where
  "updateMetaStmt f r = f\<lparr>fID := fID r, fUserID := fUserID r, fNameScheme := fNameScheme r,
     fMtime := msTrunc (fMtime f), fKeyUUID := keyColumn (fKeyUUID f)\<rparr>"

text \<open>The statement with its condition: the number of rows it changed, unless the key on user and path refuses it.\<close>

definition execUpdate :: "fileTable \<Rightarrow> File \<Rightarrow> (File \<Rightarrow> bool) \<Rightarrow> fileTable \<times> nat files_result" where
  "execUpdate d f P = (case fcDown d of
      Some e \<Rightarrow> (d, Inl (dbError ''files: update'' e))
    | None \<Rightarrow>
        if list_ex (\<lambda>r. P r \<and> list_ex (\<lambda>s. fID s \<noteq> fID r \<and> fUserID s = fUserID r \<and> fPath s = fPath f) (fcRows d)) (fcRows d)
        then (d, Inl (dbError ''files: update'' ''unique constraint''))
        else (d\<lparr>fcRows := map (\<lambda>r. if P r then updateMetaStmt f r else r) (fcRows d)\<rparr>, Inr (length (filter P (fcRows d)))))"

definition UpdateMeta :: "fileTable \<Rightarrow> File \<Rightarrow> fileTable \<times> unit files_result" where
  "UpdateMeta d f =
     (if fID f = 0 then (d, Inl (FErrOther ''files: invalid file''))
      else case execUpdate d f (\<lambda>r. fID r = fID f) of
          (d', Inl e) \<Rightarrow> (d', Inl e)
        | (d', Inr _) \<Rightarrow> (d', Inr ()))"

definition UpdateMetaIfETag :: "fileTable \<Rightarrow> File \<Rightarrow> string \<Rightarrow> fileTable \<times> unit files_result" where
  "UpdateMetaIfETag d f expectETag =
     (if fID f = 0 then (d, Inl (FErrOther ''files: invalid file''))
      else case execUpdate d f (\<lambda>r. fID r = fID f \<and> fETag r = expectETag) of
          (d', Inl e) \<Rightarrow> (d', Inl e)
        | (d', Inr n) \<Rightarrow> (d', if n = 0 then Inl FErrETagConflict else Inr ()))"

definition SetKeyUUIDIfNull :: "fileTable \<Rightarrow> int \<Rightarrow> string \<Rightarrow> fileTable \<times> bool files_result" where
  "SetKeyUUIDIfNull d fileID keyUUID = (case fcDown d of
      Some e \<Rightarrow> (d, Inl (dbError ''files: set key uuid'' e))
    | None \<Rightarrow>
        (let hit = (\<lambda>r. fID r = fileID \<and> fKeyUUID r = None)
         in (d\<lparr>fcRows := map (\<lambda>r. if hit r then r\<lparr>fKeyUUID := Some keyUUID\<rparr> else r) (fcRows d)\<rparr>,
             Inr (length (filter hit (fcRows d)) = 1))))"

section \<open>Insertion\<close>

definition parentDir :: "string \<Rightarrow> string" where
  "parentDir np = (if path_dir np = ''.'' then ''/'' else path_dir np)"

text \<open>Name and parent of the new row.\<close>

definition placeFile :: "fileTable \<Rightarrow> File \<Rightarrow> File files_result" where
  "placeFile d f =
     (if fPath f = ''/'' then Inr (f\<lparr>fName := [], fParentID := None, fIsDir := True\<rparr>)
      else case fcGetByPath d (fUserID f) (parentDir (fPath f)) of
          Inl e \<Rightarrow> Inl (if e = FErrNotFound then FErrParentMissing else e)
        | Inr parent \<Rightarrow>
            if \<not> fIsDir parent then Inl FErrNotDir
            else Inr (f\<lparr>fName := (if fName f = [] then path_base (fPath f) else fName f), fParentID := Some (fID parent)\<rparr>))"

definition fileDefaults :: "(string \<Rightarrow> string) \<Rightarrow> int \<Rightarrow> File \<Rightarrow> File" where
  "fileDefaults sha1hex now f = f\<lparr>
     fMtime := (if fMtime f = zeroTime then now else fMtime f),
     fMIME := (if fMIME f \<noteq> [] then fMIME f else if fIsDir f then ''httpd/unix-directory'' else ''application/octet-stream''),
     fETag := (if fETag f \<noteq> [] then fETag f else if fIsDir f then ComputeDirETag sha1hex [] else ''pending'')\<rparr>"

definition fileInsert :: "(string \<Rightarrow> string) \<Rightarrow> int \<Rightarrow> fileTable \<Rightarrow> File \<Rightarrow> fileTable \<times> File files_result" where
  "fileInsert sha1hex now d f0 =
     (if fUserID f0 = 0 then (d, Inl (FErrOther ''files: invalid file''))
      else case NormalizePath (fPath f0) of
          Inl e \<Rightarrow> (d, Inl e)
        | Inr np \<Rightarrow> (case placeFile d (f0\<lparr>fPath := np\<rparr>) of
            Inl e \<Rightarrow> (d, Inl e)
          | Inr f1 \<Rightarrow> (case fcDown d of
              Some e \<Rightarrow> (d, Inl (dbError ''files: insert'' e))
            | None \<Rightarrow>
                (let f = fileDefaults sha1hex now f1;
                     row = f\<lparr>fID := fcNext d, fMtime := msTrunc (fMtime f), fKeyUUID := keyColumn (fKeyUUID f)\<rparr> in
                 if list_ex (\<lambda>r. fUserID r = fUserID f \<and> fPath r = fPath f) (fcRows d) then (d, Inl FErrExists)
                 else
                   (let d1 = d\<lparr>fcRows := fcRows d @ [row], fcNext := fcNext d + 1\<rparr> in
                    case fcGetByPath d1 (fUserID f) (fPath f) of
                      Inl e \<Rightarrow> (d1, Inl e)
                    | Inr got \<Rightarrow>
                        if fIsDir got then (d1, Inr got)
                        else
                          (let got' = got\<lparr>fETag := ComputeFileETag sha1hex (fID got) (fMtime got) (fSize got)\<rparr> in
                           case UpdateMeta d1 got' of
                             (d2, Inl e) \<Rightarrow> (d2, Inl e)
                           | (d2, Inr _) \<Rightarrow> (d2, Inr got')))))))"

definition EnsureRoot :: "(string \<Rightarrow> string) \<Rightarrow> int \<Rightarrow> fileTable \<Rightarrow> int \<Rightarrow> fileTable \<times> File files_result" where
  "EnsureRoot sha1hex now d userID = (case fcGetByPath d userID ''/'' of
      Inr f \<Rightarrow> (d, Inr f)
    | Inl e \<Rightarrow>
        if e \<noteq> FErrNotFound then (d, Inl e)
        else
          (let root = \<lparr>fID = 0, fUserID = userID, fParentID = None, fName = [], fPath = ''/'', fIsDir = True, fSize = 0,
                       fMtime = now, fETag = ComputeDirETag sha1hex [], fChecksum = [], fMIME = ''httpd/unix-directory'',
                       fPermissions = 31, fKeyUUID = None, fNameScheme = 0\<rparr> in
           case fileInsert sha1hex now d root of
             (d', Inr f) \<Rightarrow> (d', Inr f)
           | (d', Inl e) \<Rightarrow> if e = FErrExists then (d', fcGetByPath d' userID ''/'') else (d', Inl e)))"

section \<open>Deletion and renaming of subtrees\<close>

text \<open>
  \<open>ON DELETE CASCADE\<close>: a row goes with the row it refers to. The chain of references of a row has at most
  as many members as the table has rows.
\<close>

fun refersTo :: "nat \<Rightarrow> File list \<Rightarrow> int \<Rightarrow> File \<Rightarrow> bool" where
  "refersTo 0 rows i r \<longleftrightarrow> False"
| "refersTo (Suc n) rows i r \<longleftrightarrow> (case fParentID r of
      None \<Rightarrow> False
    | Some p \<Rightarrow> p = i \<or> (case find (\<lambda>s. fID s = p) rows of None \<Rightarrow> False | Some s \<Rightarrow> refersTo n rows i s))"

definition deleteCascade :: "int \<Rightarrow> File list \<Rightarrow> File list" where
  "deleteCascade i rows = filter (\<lambda>r. fID r \<noteq> i \<and> \<not> refersTo (length rows) rows i r) rows"

definition DeleteSubtree :: "fileTable \<Rightarrow> int \<Rightarrow> string \<Rightarrow> fileTable \<times> unit files_result" where
  "DeleteSubtree d userID p = (case NormalizePath p of
      Inl e \<Rightarrow> (d, Inl e)
    | Inr np \<Rightarrow>
        if np = ''/'' then (d, Inl FErrForbidden)
        else case fcGetByPath d userID np of
            Inl e \<Rightarrow> (d, Inl e)
          | Inr f \<Rightarrow> (d\<lparr>fcRows := deleteCascade (fID f) (fcRows d)\<rparr>, Inr ()))"

text \<open>The new version of a row of the batch; \<^const>\<open>None\<close> for a row that the pattern matched by accident.\<close>

definition movedRow :: "(string \<Rightarrow> string) \<Rightarrow> int \<Rightarrow> string \<Rightarrow> string \<Rightarrow> int \<Rightarrow> File \<Rightarrow> File option" where
  "movedRow sha1hex now src dst dstParent f =
     (let stamp = (\<lambda>f. let f' = f\<lparr>fMtime := now\<rparr>
            in if fIsDir f' then f' else f'\<lparr>fETag := ComputeFileETag sha1hex (fID f') (fMtime f') (fSize f')\<rparr>) in
      if fPath f = src then Some (stamp (f\<lparr>fPath := dst, fName := path_base dst, fParentID := Some dstParent\<rparr>))
      else if has_prefix (fPath f) (src @ ''/'') then Some (stamp (f\<lparr>fPath := (dst @ ''/'') @ trim_prefix (fPath f) (src @ ''/'')\<rparr>))
      else None)"

fun renameBatch :: "(string \<Rightarrow> string) \<Rightarrow> int \<Rightarrow> string \<Rightarrow> string \<Rightarrow> int \<Rightarrow> File list \<Rightarrow> fileTable \<Rightarrow> fileTable \<times> unit files_result" where
  "renameBatch sha1hex now src dst dstParent [] d = (d, Inr ())"
| "renameBatch sha1hex now src dst dstParent (f # batch) d = (case movedRow sha1hex now src dst dstParent f of
      None \<Rightarrow> renameBatch sha1hex now src dst dstParent batch d
    | Some f' \<Rightarrow> (case UpdateMeta d f' of
          (d', Inl e) \<Rightarrow> (d', Inl e)
        | (d', Inr _) \<Rightarrow> renameBatch sha1hex now src dst dstParent batch d'))"

definition RenameSubtree ::
  "(string \<Rightarrow> string) \<Rightarrow> (string \<Rightarrow> string \<Rightarrow> bool) \<Rightarrow> int \<Rightarrow> fileTable \<Rightarrow> int \<Rightarrow> string \<Rightarrow> string \<Rightarrow> int \<Rightarrow> fileTable \<times> unit files_result" where
  "RenameSubtree sha1hex like clock d userID srcPath dstPath now0 = (case NormalizePath srcPath of
      Inl e \<Rightarrow> (d, Inl e)
    | Inr src \<Rightarrow> (case NormalizePath dstPath of
        Inl e \<Rightarrow> (d, Inl e)
      | Inr dst \<Rightarrow>
          if src = ''/'' \<or> dst = ''/'' then (d, Inl FErrForbidden)
          else case fcGetByPath d userID src of
              Inl e \<Rightarrow> (d, Inl e)
            | Inr node \<Rightarrow> (case fcGetByPath d userID dst of
                Inr x \<Rightarrow> (d, Inl FErrExists)
              | Inl e \<Rightarrow>
                  if e \<noteq> FErrNotFound then (d, Inl e)
                  else case fcGetByPath d userID (parentDir dst) of
                      Inl e \<Rightarrow> (d, Inl (if e = FErrNotFound then FErrParentMissing else e))
                    | Inr parent \<Rightarrow>
                        if \<not> fIsDir parent then (d, Inl FErrNotDir)
                        else renameBatch sha1hex (if now0 = zeroTime then clock else now0) src dst (fID parent)
                          (filter (\<lambda>f. fUserID f = userID \<and> (fPath f = src \<or> like (src @ ''/%'') (fPath f))) (fcRows d)) d)))"

section \<open>Queries\<close>

definition searchByNameMax :: int where "searchByNameMax = 20"

text \<open>The loop over the runes of the term; an invalid byte is written as the replacement character.\<close>

function likeRunes :: "string \<Rightarrow> string" where
  "likeRunes s = (if s = [] then [] else case decode_rune s of
      None \<Rightarrow> [CHR 0xEF, CHR 0xBF, CHR 0xBD] @ likeRunes (tl s)
    | Some (r, w) \<Rightarrow> (if r \<in> set [0x5C, 0x25, 0x5F] then [CHR 0x5C] else []) @ take w s @ likeRunes (drop w s))"
  by pat_completeness auto
termination by (relation "measure length") (auto dest: decode_rune_width)

definition likeContains :: "string \<Rightarrow> string" where
  "likeContains term = ''%'' @ likeRunes term @ ''%''"

definition SearchByName ::
  "(string \<Rightarrow> string \<Rightarrow> bool) \<Rightarrow> fileTable \<Rightarrow> int \<Rightarrow> string \<Rightarrow> int \<Rightarrow> File list files_result" where
  "SearchByName likeEscape d userID term0 limit =
     (let term = trim_space term0 in
      if userID = 0 \<or> term = [] then Inr []
      else case fcDown d of
          Some e \<Rightarrow> Inl (dbError ''files: search'' e)
        | None \<Rightarrow>
            Inr (take (nat (if limit \<le> 0 \<or> limit > searchByNameMax then searchByNameMax else limit))
              (sort_key fName (sort_key fID (filter (\<lambda>f. fUserID f = userID \<and> fPath f \<noteq> ''/''
                 \<and> likeEscape (likeContains term) (fName f)) (fcRows d))))))"

definition ListAllByUser :: "fileTable \<Rightarrow> int \<Rightarrow> File list files_result" where
  "ListAllByUser d userID = (case fcDown d of
      Some e \<Rightarrow> Inl (dbError ''files: list all'' e)
    | None \<Rightarrow> Inr (sort_key fID (filter (\<lambda>f. fUserID f = userID) (fcRows d))))"

definition ListSealedSubtree :: "(string \<Rightarrow> string \<Rightarrow> bool) \<Rightarrow> fileTable \<Rightarrow> int \<Rightarrow> string \<Rightarrow> File list files_result" where
  "ListSealedSubtree like d userID p = (case NormalizePath p of
      Inl e \<Rightarrow> Inl e
    | Inr np \<Rightarrow> (case fcDown d of
          Some e \<Rightarrow> Inl (dbError ''files: list sealed subtree'' e)
        | None \<Rightarrow> Inr (sort_key fPath (filter (\<lambda>f. fUserID f = userID \<and> (fPath f = np \<or> like (likeBelow np) (fPath f))
            \<and> fKeyUUID f \<noteq> None) (fcRows d)))))"

text \<open>A sum that is not an \<open>int64\<close> is an error of the statement or of the scan.\<close>

definition Usage :: "fileTable \<Rightarrow> int \<Rightarrow> int files_result" where
  "Usage d userID = (case fcDown d of
      Some e \<Rightarrow> Inl (dbError ''files: usage'' e)
    | None \<Rightarrow>
        (let n = sum_list (map fSize (filter (\<lambda>f. fUserID f = userID \<and> \<not> fIsDir f) (fcRows d)))
         in if - (2 ^ 63) \<le> n \<and> n < 2 ^ 63 then Inr n else Inl (dbError ''files: usage'' ''integer overflow'')))"

section \<open>Sizes and entity tags of the ancestors\<close>

text \<open>The directory row that the loop writes: the sum of the sizes is an \<open>int64\<close>.\<close>

definition recalcRow :: "(string \<Rightarrow> string) \<Rightarrow> int \<Rightarrow> File list \<Rightarrow> File \<Rightarrow> File" where
  "recalcRow sha1hex now children f = f\<lparr>
     fSize := foldl (\<lambda>n c. wrap64 (n + fSize c)) 0 children,
     fETag := ComputeDirETag sha1hex children,
     fMtime := (if now \<noteq> zeroTime then now else fMtime f)\<rparr>"

partial_function (option) recalcLoop ::
  "(string \<Rightarrow> string) \<Rightarrow> int \<Rightarrow> int \<Rightarrow> int \<Rightarrow> fileTable \<Rightarrow> (fileTable \<times> unit files_result) option" where
  "recalcLoop sha1hex userID now i d = (case fcGetByID d i of
      Inl e \<Rightarrow> Some (d, Inl e)
    | Inr f \<Rightarrow>
        if fUserID f \<noteq> userID then Some (d, Inl FErrForbidden)
        else (case fcListChildren d userID (fID f) of
            Inl e \<Rightarrow> Some (d, Inl e)
          | Inr children \<Rightarrow> (case UpdateMeta d (recalcRow sha1hex now children f) of
                (d', Inl e) \<Rightarrow> Some (d', Inl e)
              | (d', Inr _) \<Rightarrow> (case fParentID f of
                    None \<Rightarrow> Some (d', Inr ())
                  | Some p \<Rightarrow> recalcLoop sha1hex userID now p d'))))"

definition RecalcAncestors ::
  "(string \<Rightarrow> string) \<Rightarrow> int \<Rightarrow> fileTable \<Rightarrow> int \<Rightarrow> int option \<Rightarrow> int \<Rightarrow> (fileTable \<times> unit files_result) option" where
  "RecalcAncestors sha1hex clock d userID startParent now = (case startParent of
      Some i \<Rightarrow> recalcLoop sha1hex userID now i d
    | None \<Rightarrow> (case EnsureRoot sha1hex clock d userID of
          (d', Inl e) \<Rightarrow> Some (d', Inl e)
        | (d', Inr root) \<Rightarrow> recalcLoop sha1hex userID now (fID root) d'))"

end
