(* ===== verification/Files_StoreLaws.thy ===== *)
theory Files_StoreLaws
  imports Files_Store
begin

text \<open>
  What the file cache guarantees: the rows of a user form a tree, \<open>RecalcAncestors\<close> ends and restores the sizes of the
  directories, and the size of the root is the usage.
\<close>

section \<open>The tree of rows\<close>

definition parentOK :: "File list \<Rightarrow> File \<Rightarrow> bool" where
  "parentOK rows f \<longleftrightarrow> (if fPath f = ''/'' then fParentID f = None \<and> fIsDir f
     else list_ex (\<lambda>p. fParentID f = Some (fID p) \<and> fUserID p = fUserID f \<and> fPath p = path_dir (fPath f) \<and> fIsDir p) rows)"

definition fileKey :: "File \<Rightarrow> int \<times> string" where
  "fileKey f = (fUserID f, fPath f)"

definition fileInv :: "fileTable \<Rightarrow> bool" where
  "fileInv d \<longleftrightarrow> fcDown d = None \<and> distinct (map fID (fcRows d)) \<and> distinct (map fileKey (fcRows d))
     \<and> list_all (\<lambda>f. 0 < fID f \<and> fID f < fcNext d \<and> NormalizePath (fPath f) = Inr (fPath f)
         \<and> fKeyUUID f \<noteq> Some [] \<and> parentOK (fcRows d) f) (fcRows d)"

text \<open>The part of a row on which the tree depends.\<close>

definition skeleton :: "File \<Rightarrow> File" where
  "skeleton f = f\<lparr>fSize := 0, fETag := [], fMtime := 0\<rparr>"

lemma skeleton_sel:
  assumes "skeleton g = skeleton f"
  shows "fID g = fID f" "fUserID g = fUserID f" "fPath g = fPath f" "fParentID g = fParentID f" "fIsDir g = fIsDir f"
    "fKeyUUID g = fKeyUUID f"
proof -
  have "P (skeleton g) = P (skeleton f)" for P :: "File \<Rightarrow> 'a" using assms by simp
  from this [of fID] this [of fUserID] this [of fPath] this [of fParentID] this [of fIsDir] this [of fKeyUUID]
  show "fID g = fID f" "fUserID g = fUserID f" "fPath g = fPath f" "fParentID g = fParentID f" "fIsDir g = fIsDir f"
    "fKeyUUID g = fKeyUUID f"
    by (simp_all add: skeleton_def)
qed

lemma fileInvD:
  assumes "fileInv d"
  shows "fcDown d = None" and "distinct (map fID (fcRows d))" and "distinct (map fileKey (fcRows d))"
    and "f \<in> set (fcRows d) \<Longrightarrow> 0 < fID f \<and> fID f < fcNext d \<and> NormalizePath (fPath f) = Inr (fPath f)
      \<and> fKeyUUID f \<noteq> Some [] \<and> parentOK (fcRows d) f"
  using assms by (auto simp: fileInv_def list_all_iff)

lemma fileInvI:
  assumes "fcDown d = None" and "distinct (map fID (fcRows d))" and "distinct (map fileKey (fcRows d))"
    and "\<And>f. f \<in> set (fcRows d) \<Longrightarrow> 0 < fID f \<and> fID f < fcNext d \<and> NormalizePath (fPath f) = Inr (fPath f)
      \<and> fKeyUUID f \<noteq> Some [] \<and> parentOK (fcRows d) f"
  shows "fileInv d"
  using assms by (simp add: fileInv_def list_all_iff)

lemma parentOK_map:
  assumes "\<And>r. r \<in> set rows \<Longrightarrow> skeleton (g r) = skeleton r" and "skeleton f' = skeleton f" and "parentOK rows f"
  shows "parentOK (map g rows) f'"
proof (cases "fPath f = ''/''")
  case True
  then show ?thesis using assms(3) skeleton_sel [OF assms(2)] by (simp add: parentOK_def)
next
  case False
  then obtain p where "p \<in> set rows" "fParentID f = Some (fID p)" "fUserID p = fUserID f" "fPath p = path_dir (fPath f)" "fIsDir p"
    using assms(3) by (auto simp: parentOK_def list_ex_iff)
  then show ?thesis using False skeleton_sel [OF assms(2)] skeleton_sel [OF assms(1) [of p]]
    by (auto simp: parentOK_def list_ex_iff intro!: bexI [of _ p])
qed

lemma fileInv_map:
  assumes i: "fileInv d" and g: "\<And>r. r \<in> set (fcRows d) \<Longrightarrow> skeleton (g r) = skeleton r"
  shows "fileInv (d\<lparr>fcRows := map g (fcRows d)\<rparr>)"
proof -
  let ?d = "d\<lparr>fcRows := map g (fcRows d)\<rparr>"
  have k: "map fID (fcRows ?d) = map fID (fcRows d)" "map fileKey (fcRows ?d) = map fileKey (fcRows d)"
    using skeleton_sel [OF g] by (simp_all add: fileKey_def)
  show ?thesis
  proof (rule fileInvI)
    show "distinct (map fID (fcRows ?d))" "distinct (map fileKey (fcRows ?d))" unfolding k using fileInvD(2,3) [OF i] .
    show "0 < fID f' \<and> fID f' < fcNext ?d \<and> NormalizePath (fPath f') = Inr (fPath f') \<and> fKeyUUID f' \<noteq> Some []
      \<and> parentOK (fcRows ?d) f'" if f': "f' \<in> set (fcRows ?d)" for f'
    proof -
      obtain f where f: "f \<in> set (fcRows d)" "f' = g f" using f' by auto
      show ?thesis using fileInvD(4) [OF i f(1)] skeleton_sel [OF g [OF f(1)]] parentOK_map [OF g g [OF f(1)]] f(2) by simp
    qed
  qed (simp add: fileInvD(1) [OF i])
qed

lemma fileRow_id:
  assumes "fileInv d" and "f \<in> set (fcRows d)" shows "fcGetByID d (fID f) = Inr f"
proof -
  have "find (\<lambda>x. fID x = fID f) (fcRows d) = Some f" using find_key [OF fileInvD(2) [OF assms(1)]] assms(2) by blast
  then show ?thesis using fileInvD(1) [OF assms(1)] fileInvD(4) [OF assms] by (simp add: fcGetByID_def scanOne_def)
qed

lemma fileRow_eq:
  "fileInv d \<Longrightarrow> f \<in> set (fcRows d) \<Longrightarrow> g \<in> set (fcRows d) \<Longrightarrow> fID f = fID g \<or> fileKey f = fileKey g \<Longrightarrow> f = g"
  using fileInvD(2,3) [of d] by (auto simp: distinct_map inj_on_def)

lemma normal_path: "NormalizePath p = Inr p \<Longrightarrow> p = ''/'' \<or> clean_path p"
  using NormalizePath_result by blast

lemma path_dir_shorter: "clean_path p \<Longrightarrow> length (path_dir p) < length p"
proof -
  assume c: "clean_path p"
  then obtain segs s where p: "list_all plain_seg (segs @ [s])" "p = mkpath (segs @ [s])" by (rule clean_pathE)
  then have "s \<noteq> []" by (simp add: plain_seg_def)
  then show ?thesis using p path_dir_mkpath [OF p(1)] by (cases s) (auto simp: mkpath_def)
qed

lemma fileParent:
  assumes i: "fileInv d" and f: "f \<in> set (fcRows d)"
  shows "fPath f = ''/'' \<Longrightarrow> fParentID f = None \<and> fIsDir f"
    and "fPath f \<noteq> ''/'' \<Longrightarrow> clean_path (fPath f) \<and> (\<exists>p \<in> set (fcRows d). fParentID f = Some (fID p) \<and> fUserID p = fUserID f
      \<and> fPath p = path_dir (fPath f) \<and> fIsDir p \<and> length (fPath p) < length (fPath f))"
proof -
  note r = fileInvD(4) [OF i f]
  show "fPath f = ''/'' \<Longrightarrow> fParentID f = None \<and> fIsDir f" using r by (simp add: parentOK_def)
  assume n: "fPath f \<noteq> ''/''"
  then have c: "clean_path (fPath f)" using r normal_path by blast
  obtain p where "p \<in> set (fcRows d)" "fParentID f = Some (fID p)" "fUserID p = fUserID f" "fPath p = path_dir (fPath f)" "fIsDir p"
    using r n by (auto simp: parentOK_def list_ex_iff)
  then show "clean_path (fPath f) \<and> (\<exists>p \<in> set (fcRows d). fParentID f = Some (fID p) \<and> fUserID p = fUserID f
      \<and> fPath p = path_dir (fPath f) \<and> fIsDir p \<and> length (fPath p) < length (fPath f))"
    using c path_dir_shorter [OF c] by auto
qed

section \<open>Sizes\<close>

definition childrenOf :: "fileTable \<Rightarrow> File \<Rightarrow> File set" where
  "childrenOf d f = {c \<in> set (fcRows d). fUserID c = fUserID f \<and> fParentID c = Some (fID f)}"

text \<open>The size of a directory is the sum of the sizes of its members, as an \<open>int64\<close>.\<close>

definition sizeOK :: "fileTable \<Rightarrow> File \<Rightarrow> bool" where
  "sizeOK d f \<longleftrightarrow> fSize f = wrap64 (\<Sum>c \<in> childrenOf d f. fSize c)"

lemma wrap64_add: "wrap64 (wrap64 x + y) = wrap64 (x + y)"
  unfolding wrap64_def by (simp add: mod_simps algebra_simps)

lemma foldl_wrap64: "wrap64 n = n \<Longrightarrow> foldl (\<lambda>n c. wrap64 (n + fSize c)) n cs = wrap64 (n + sum_list (map fSize cs))"
proof (induction cs arbitrary: n)
  case (Cons c cs)
  have "wrap64 (wrap64 (n + fSize c)) = wrap64 (n + fSize c)" using wrap64_add [of "n + fSize c" 0] by simp
  then show ?case using Cons.IH [of "wrap64 (n + fSize c)"] wrap64_add [of "n + fSize c"] by (simp add: add.assoc)
qed simp

lemma wrap64_0: "wrap64 0 = 0"
  by (simp add: wrap64_id)

lemma listChildren_sum:
  assumes "fileInv d"
  shows "\<exists>cs. fcListChildren d (fUserID f) (fID f) = Inr cs \<and> set cs = childrenOf d f
    \<and> foldl (\<lambda>n c. wrap64 (n + fSize c)) 0 cs = wrap64 (\<Sum>c \<in> childrenOf d f. fSize c)"
proof -
  let ?cs = "sort_key fPath (filter (\<lambda>c. fUserID c = fUserID f \<and> fParentID c = Some (fID f)) (fcRows d))"
  have "distinct ?cs" using fileInvD(2) [OF assms] by (simp add: distinct_map)
  moreover have "set ?cs = childrenOf d f" by (auto simp: childrenOf_def)
  ultimately have "sum_list (map fSize ?cs) = (\<Sum>c \<in> childrenOf d f. fSize c)"
    using sum_list_distinct_conv_sum_set [of ?cs fSize] by simp
  then show ?thesis using fileInvD(1) [OF assms] foldl_wrap64 [OF wrap64_0, of ?cs] \<open>set ?cs = childrenOf d f\<close>
    by (simp add: fcListChildren_def)
qed

definition putRow :: "File \<Rightarrow> fileTable \<Rightarrow> fileTable" where
  "putRow g d = d\<lparr>fcRows := map (\<lambda>r. if fID r = fID g then updateMetaStmt g r else r) (fcRows d)\<rparr>"

lemma UpdateMeta_same_path:
  assumes i: "fileInv d" and f: "f \<in> set (fcRows d)" and g: "fID g = fID f" "fPath g = fPath f"
  shows "UpdateMeta d g = (putRow g d, Inr ())"
proof -
  have "\<not> (fUserID s = fUserID r \<and> fPath s = fPath g)" if "r \<in> set (fcRows d)" "fID r = fID g" "s \<in> set (fcRows d)" "fID s \<noteq> fID r" for r s
    using fileRow_eq [OF i that(1) f] fileRow_eq [OF i that(3) f] that g by (auto simp: fileKey_def)
  then have "\<not> list_ex (\<lambda>r. fID r = fID g \<and> list_ex (\<lambda>s. fID s \<noteq> fID r \<and> fUserID s = fUserID r \<and> fPath s = fPath g) (fcRows d)) (fcRows d)"
    by (auto simp: list_ex_iff)
  then show ?thesis using fileInvD(1) [OF i] fileInvD(4) [OF i f] g by (simp add: UpdateMeta_def execUpdate_def putRow_def)
qed

lemma fileInv_not_own_child: "fileInv d \<Longrightarrow> f \<in> set (fcRows d) \<Longrightarrow> f \<notin> childrenOf d f"
proof
  assume i: "fileInv d" and f: "f \<in> set (fcRows d)" and c: "f \<in> childrenOf d f"
  then have "fPath f \<noteq> ''/''" using fileParent(1) [OF i f] by (auto simp: childrenOf_def)
  then obtain p where p: "p \<in> set (fcRows d)" "fParentID f = Some (fID p)" "length (fPath p) < length (fPath f)"
    using fileParent(2) [OF i f] by blast
  have "fID f = fID p" using c p(2) by (simp add: childrenOf_def)
  then have "f = p" by (intro fileRow_eq [OF i f p(1)] disjI1)
  then show False using p(3) by simp
qed

text \<open>The change of the size, entity tag and time of one row.\<close>

definition setStat :: "File \<Rightarrow> File \<Rightarrow> File \<Rightarrow> File" where
  "setStat f g r = (if fID r = fID f then g else r)"

lemma setStat_skeleton:
  assumes "fileInv d" and "f \<in> set (fcRows d)" and "skeleton g = skeleton f" and "r \<in> set (fcRows d)"
  shows "skeleton (setStat f g r) = skeleton r"
  using fileRow_eq [OF assms(1,4,2)] assms(3) by (auto simp: setStat_def)

lemma childrenOf_setStat:
  assumes i: "fileInv d" and f: "f \<in> set (fcRows d)" and g: "skeleton g = skeleton f" and h: "h \<in> set (fcRows d)"
  shows "childrenOf (d\<lparr>fcRows := map (setStat f g) (fcRows d)\<rparr>) (setStat f g h) = setStat f g ` childrenOf d h"
  using skeleton_sel [OF setStat_skeleton [OF i f g]] h by (auto simp: childrenOf_def)

lemma sizeOK_setStat:
  assumes i: "fileInv d" and f: "f \<in> set (fcRows d)" and g: "skeleton g = skeleton f" and h: "h \<in> set (fcRows d)" "f \<notin> childrenOf d h"
  shows "(\<Sum>c \<in> childrenOf (d\<lparr>fcRows := map (setStat f g) (fcRows d)\<rparr>) (setStat f g h). fSize c) = (\<Sum>c \<in> childrenOf d h. fSize c)"
proof -
  have sub: "childrenOf d h \<subseteq> set (fcRows d)" by (auto simp: childrenOf_def)
  have "setStat f g c = c" if "c \<in> childrenOf d h" for c
    using that h(2) sub fileRow_eq [OF i _ f] by (auto simp: setStat_def)
  then have "setStat f g ` childrenOf d h = childrenOf d h" by force
  then show ?thesis unfolding childrenOf_setStat [OF i f g h(1)] by simp
qed

text \<open>One turn of the loop: only the row of the directory changes, and its size is right then.\<close>

lemma recalc_turn:
  assumes i: "fileInv d" and f: "f \<in> set (fcRows d)"
  shows "\<exists>cs g. fcListChildren d (fUserID f) (fID f) = Inr cs \<and> skeleton g = skeleton f
    \<and> UpdateMeta d (recalcRow sha now cs f) = (d\<lparr>fcRows := map (setStat f g) (fcRows d)\<rparr>, Inr ())
    \<and> fSize g = wrap64 (\<Sum>c \<in> childrenOf d f. fSize c)"
proof -
  obtain cs where cs: "fcListChildren d (fUserID f) (fID f) = Inr cs"
    "foldl (\<lambda>n c. wrap64 (n + fSize c)) 0 cs = wrap64 (\<Sum>c \<in> childrenOf d f. fSize c)"
    using listChildren_sum [OF i] by blast
  let ?g = "updateMetaStmt (recalcRow sha now cs f) f"
  have k: "keyColumn (fKeyUUID f) = fKeyUUID f"
    using fileInvD(4) [OF i f] by (auto simp: keyColumn_def split: option.splits list.splits)
  have g: "skeleton ?g = skeleton f" by (simp add: skeleton_def updateMetaStmt_def recalcRow_def k)
  have "(if fID r = fID f then updateMetaStmt (recalcRow sha now cs f) r else r) = setStat f ?g r" if "r \<in> set (fcRows d)" for r
    using fileRow_eq [OF i that f] by (auto simp: setStat_def)
  then have m: "map (\<lambda>r. if fID r = fID f then updateMetaStmt (recalcRow sha now cs f) r else r) (fcRows d) = map (setStat f ?g) (fcRows d)"
    by (rule map_cong [OF refl])
  have "fID (recalcRow sha now cs f) = fID f" by (simp add: recalcRow_def)
  then have "putRow (recalcRow sha now cs f) d = d\<lparr>fcRows := map (setStat f ?g) (fcRows d)\<rparr>" using m by (simp add: putRow_def)
  moreover have "fSize ?g = wrap64 (\<Sum>c \<in> childrenOf d f. fSize c)" using cs(2) by (simp add: updateMetaStmt_def recalcRow_def)
  ultimately show ?thesis using cs(1) g UpdateMeta_same_path [OF i f, of "recalcRow sha now cs f"] by (auto simp: recalcRow_def)
qed

section \<open>The loop over the ancestors\<close>

text \<open>The path of an ancestor, or the path itself.\<close>

definition onWay :: "string \<Rightarrow> string \<Rightarrow> bool" where
  "onWay q p \<longleftrightarrow> q = p \<or> q = ''/'' \<or> below q p"

text \<open>What the loop may change: size, entity tag and time of directories of the user.\<close>

definition recalced :: "int \<Rightarrow> File \<Rightarrow> File \<Rightarrow> bool" where
  "recalced u r r' \<longleftrightarrow> skeleton r' = skeleton r \<and> (\<not> fIsDir r \<or> fUserID r \<noteq> u \<longrightarrow> r' = r)"

definition dirSizesOK :: "fileTable \<Rightarrow> int \<Rightarrow> (string \<Rightarrow> bool) \<Rightarrow> bool" where
  "dirSizesOK d u except \<longleftrightarrow> (\<forall>g \<in> set (fcRows d). fIsDir g \<and> fUserID g = u \<and> \<not> except (fPath g) \<longrightarrow> sizeOK d g)"

lemma onWay_parent:
  assumes "clean_path p" and "q = ''/'' \<or> clean_path q" and "onWay q p" and "q \<noteq> p"
  shows "onWay q (path_dir p)"
  using assms below_path_dir(1) [of q p] by (auto simp: onWay_def)

lemma recalced_trans:
  assumes "recalced u r r1" and "recalced u r1 r2" shows "recalced u r r2"
  using assms skeleton_sel(2,5) [of r1 r] by (auto simp: recalced_def)

lemma recalced_setStat:
  assumes "fileInv d" and "f \<in> set (fcRows d)" and "skeleton g = skeleton f" and "fIsDir f" and "fUserID f = u"
  shows "list_all2 (recalced u) (fcRows d) (map (setStat f g) (fcRows d))"
proof -
  have "recalced u r (setStat f g r)" if "r \<in> set (fcRows d)" for r
    using setStat_skeleton [OF assms(1-3) that] fileRow_eq [OF assms(1) that assms(2)] assms(4,5)
    by (auto simp: recalced_def setStat_def)
  then show ?thesis by (simp add: list_all2_map2 list_all2_same)
qed

lemma dirSizes_turn:
  assumes i: "fileInv d" and f: "f \<in> set (fcRows d)" "fIsDir f" and g: "skeleton g = skeleton f" "fSize g = wrap64 (\<Sum>c \<in> childrenOf d f. fSize c)"
    and ok: "dirSizesOK d (fUserID f) (\<lambda>q. onWay q (fPath f))"
  shows "dirSizesOK (d\<lparr>fcRows := map (setStat f g) (fcRows d)\<rparr>) (fUserID f)
    (\<lambda>q. fPath f \<noteq> ''/'' \<and> onWay q (path_dir (fPath f)))"
  unfolding dirSizesOK_def
proof (intro ballI impI, elim conjE)
  let ?d = "d\<lparr>fcRows := map (setStat f g) (fcRows d)\<rparr>"
  fix h' assume h': "h' \<in> set (fcRows ?d)" "fIsDir h'" "fUserID h' = fUserID f"
    and way: "\<not> (fPath f \<noteq> ''/'' \<and> onWay (fPath h') (path_dir (fPath f)))"
  obtain h where h: "h \<in> set (fcRows d)" "h' = setStat f g h" using h'(1) by auto
  note sk = skeleton_sel [OF setStat_skeleton [OF i f(1) g(1) h(1)], folded h(2)]
  show "sizeOK ?d h'"
  proof (cases "h = f")
    case True
    then show ?thesis using sizeOK_setStat [OF i f(1) g(1) f(1) fileInv_not_own_child [OF i f(1)]] h(2) g(2)
      by (simp add: sizeOK_def setStat_def)
  next
    case False
    then have ne: "fPath h \<noteq> fPath f" and same: "h' = h"
      using fileRow_eq [OF i h(1) f(1)] h'(3) sk h(2) by (auto simp: fileKey_def setStat_def)
    have hp: "fPath h = ''/'' \<or> clean_path (fPath h)" using fileInvD(4) [OF i h(1)] normal_path by blast
    have nway: "\<not> onWay (fPath h) (fPath f) \<and> f \<notin> childrenOf d h"
    proof (cases "fPath f = ''/''")
      case True
      then show ?thesis using ne hp fileParent(1) [OF i f(1) True]
        by (auto simp: onWay_def below_append childrenOf_def Cons_eq_append_conv clean_path_def)
    next
      case False
      then obtain p where p: "clean_path (fPath f)" "p \<in> set (fcRows d)" "fParentID f = Some (fID p)" "fPath p = path_dir (fPath f)"
        using fileParent(2) [OF i f(1)] by blast
      have "f \<notin> childrenOf d h"
      proof
        assume "f \<in> childrenOf d h"
        then have "fID h = fID p" using p(3) by (simp add: childrenOf_def)
        then have "h = p" by (intro fileRow_eq [OF i h(1) p(2)] disjI1)
        then show False using way False p(4) same by (simp add: onWay_def)
      qed
      then show ?thesis using onWay_parent [OF p(1) hp _ ne] way False same by auto
    qed
    then have "sizeOK d h" using ok h(1) h'(2,3) same by (auto simp: dirSizesOK_def)
    then show ?thesis using sizeOK_setStat [OF i f(1) g(1) h(1)] nway h(2) same by (simp add: sizeOK_def)
  qed
qed

lemma recalcLoop_ok:
  assumes "fileInv d" and "f \<in> set (fcRows d)" and "fIsDir f" and "dirSizesOK d (fUserID f) (\<lambda>q. onWay q (fPath f))"
  shows "\<exists>d'. recalcLoop sha (fUserID f) now (fID f) d = Some (d', Inr ()) \<and> fileInv d'
    \<and> list_all2 (recalced (fUserID f)) (fcRows d) (fcRows d') \<and> dirSizesOK d' (fUserID f) (\<lambda>q. False)"
  using assms
proof (induction "length (fPath f)" arbitrary: d f rule: less_induct)
  case less
  note i = less.prems(1) and f = less.prems(2)
  obtain cs g where t: "fcListChildren d (fUserID f) (fID f) = Inr cs" "skeleton g = skeleton f"
    "UpdateMeta d (recalcRow sha now cs f) = (d\<lparr>fcRows := map (setStat f g) (fcRows d)\<rparr>, Inr ())"
    "fSize g = wrap64 (\<Sum>c \<in> childrenOf d f. fSize c)"
    using recalc_turn [OF i f] by blast
  let ?d = "d\<lparr>fcRows := map (setStat f g) (fcRows d)\<rparr>"
  have i1: "fileInv ?d" by (rule fileInv_map [OF i setStat_skeleton [OF i f t(2)]])
  have rc: "list_all2 (recalced (fUserID f)) (fcRows d) (fcRows ?d)" using recalced_setStat [OF i f t(2) less.prems(3)] by simp
  note ok = dirSizes_turn [OF i f less.prems(3) t(2,4) less.prems(4)]
  show ?case
  proof (cases "fPath f = ''/''")
    case True
    then show ?thesis using t(1,3) i1 rc ok fileRow_id [OF i f] fileParent(1) [OF i f]
      by (subst recalcLoop.simps) simp
  next
    case False
    obtain p where p: "p \<in> set (fcRows d)" "fParentID f = Some (fID p)" "fUserID p = fUserID f" "fPath p = path_dir (fPath f)" "fIsDir p"
      "length (fPath p) < length (fPath f)"
      using fileParent(2) [OF i f False] by blast
    have "fID p \<noteq> fID f" using p(6) fileRow_eq [OF i p(1) f] by auto
    then have "p \<in> set (fcRows ?d)" using p(1) by (force simp: setStat_def)
    then obtain d' where d': "recalcLoop sha (fUserID f) now (fID p) ?d = Some (d', Inr ())" "fileInv d'"
      "list_all2 (recalced (fUserID f)) (fcRows ?d) (fcRows d')" "dirSizesOK d' (fUserID f) (\<lambda>q. False)"
      using less.hyps [OF p(6) i1 _ p(5)] ok False p(3,4) by auto
    have "list_all2 (recalced (fUserID f)) (fcRows d) (fcRows d')"
      by (rule list_all2_trans [OF _ rc d'(3)]) (rule recalced_trans)
    then show ?thesis using t(1,3) d' fileRow_id [OF i f] p(2) by (subst recalcLoop.simps) simp
  qed
qed

section \<open>The root and the usage\<close>

lemma wrap64_mod: "wrap64 x mod 2 ^ 64 = x mod 2 ^ 64"
  unfolding wrap64_def by (simp add: mod_simps)

lemma wrap64_cong: "x mod 2 ^ 64 = y mod 2 ^ 64 \<Longrightarrow> wrap64 x = wrap64 y"
  unfolding wrap64_def by (metis mod_add_left_eq)

lemma mod_add_cancel: "(a + x) mod m = (b + x) mod m \<Longrightarrow> a mod m = b mod (m :: int)"
  by (simp add: mod_eq_dvd_iff)

lemma children_sum:
  fixes u :: int and d :: fileTable
  assumes i: "fileInv d"
  defines "D \<equiv> {r \<in> set (fcRows d). fUserID r = u \<and> fIsDir r}"
    and "N \<equiv> {r \<in> set (fcRows d). fUserID r = u \<and> fPath r \<noteq> ''/''}"
  shows "(\<Sum>g \<in> D. \<Sum>c \<in> childrenOf d g. fSize c) = (\<Sum>c \<in> N. fSize c)"
proof -
  have inj: "inj_on fID D" using fileInvD(2) [OF i] by (auto simp: distinct_map inj_on_def D_def)
  have par: "\<exists>p \<in> D. fParentID c = Some (fID p)" if "c \<in> N" for c
    using fileParent(2) [OF i, of c] that by (auto simp: D_def N_def)
  have ch: "childrenOf d g = {c \<in> N. the (fParentID c) = fID g}" if "g \<in> D" for g
    using par fileParent(1) [OF i] that by (force simp: childrenOf_def D_def N_def)
  have "(\<Sum>g \<in> D. \<Sum>c \<in> childrenOf d g. fSize c) = (\<Sum>g \<in> D. \<Sum>c \<in> {c \<in> N. the (fParentID c) = fID g}. fSize c)"
    by (rule sum.cong [OF refl]) (simp add: ch)
  also have "\<dots> = (\<Sum>y \<in> fID ` D. \<Sum>c \<in> {c \<in> N. the (fParentID c) = y}. fSize c)" by (simp add: sum.reindex [OF inj])
  also have "\<dots> = (\<Sum>c \<in> N. fSize c)" by (rule sum.group) (use par in \<open>force simp: N_def D_def\<close>)+
  finally show ?thesis .
qed

lemma root_size_usage:
  assumes i: "fileInv d" and ok: "dirSizesOK d u (\<lambda>q. False)" and root: "root \<in> set (fcRows d)" "fUserID root = u" "fPath root = ''/''"
    and use: "Usage d u = Inr n"
  shows "fSize root = n"
proof -
  let ?R = "set (fcRows d)"
  let ?D = "{r \<in> ?R. fUserID r = u \<and> fIsDir r}" and ?N = "{r \<in> ?R. fUserID r = u \<and> fPath r \<noteq> ''/''}"
  let ?F = "{r \<in> ?R. fUserID r = u \<and> \<not> fIsDir r}"
  have one: "r = root" if "r \<in> ?R" "fUserID r = u" "fPath r = ''/''" for r
    using fileRow_eq [OF i that(1) root(1)] that root by (simp add: fileKey_def)
  have rD: "root \<in> ?D" using root fileParent(1) [OF i root(1,3)] by simp
  have N: "?N = ?F \<union> (?D - {root})" using one fileParent(1) [OF i] root by blast
  have "(\<Sum>c \<in> ?N. fSize c) = (\<Sum>c \<in> ?F. fSize c) + (\<Sum>c \<in> ?D - {root}. fSize c)"
    unfolding N by (rule sum.union_disjoint) auto
  moreover have "(\<Sum>c \<in> ?D. fSize c) = fSize root + (\<Sum>c \<in> ?D - {root}. fSize c)" by (rule sum.remove [OF _ rD]) simp
  moreover have "(\<Sum>g \<in> ?D. fSize g) mod 2 ^ 64 = (\<Sum>g \<in> ?D. \<Sum>c \<in> childrenOf d g. fSize c) mod 2 ^ 64"
  proof -
    have "fSize g mod 2 ^ 64 = (\<Sum>c \<in> childrenOf d g. fSize c) mod 2 ^ 64" if "g \<in> ?D" for g
      using ok that wrap64_mod by (auto simp: dirSizesOK_def sizeOK_def)
    then have "(\<Sum>g \<in> ?D. fSize g mod 2 ^ 64) = (\<Sum>g \<in> ?D. (\<Sum>c \<in> childrenOf d g. fSize c) mod 2 ^ 64)"
      by (intro sum.cong refl)
    then show ?thesis using mod_sum_eq [of fSize "2 ^ 64" ?D] mod_sum_eq [of "\<lambda>g. \<Sum>c \<in> childrenOf d g. fSize c" "2 ^ 64" ?D] by simp
  qed
  ultimately have "(fSize root + (\<Sum>c \<in> ?D - {root}. fSize c)) mod 2 ^ 64 = ((\<Sum>c \<in> ?F. fSize c) + (\<Sum>c \<in> ?D - {root}. fSize c)) mod 2 ^ 64"
    using children_sum [OF i, of u] by argo
  then have m: "fSize root mod 2 ^ 64 = (\<Sum>c \<in> ?F. fSize c) mod 2 ^ 64" by (rule mod_add_cancel)
  have "sizeOK d root" using ok root fileParent(1) [OF i root(1,3)] by (auto simp: dirSizesOK_def)
  then have "wrap64 (fSize root) = fSize root" using wrap64_add [of _ 0] by (simp add: sizeOK_def)
  then have "fSize root = wrap64 (\<Sum>c \<in> ?F. fSize c)" using wrap64_cong [OF m] by simp
  moreover have "sum_list (map fSize (filter (\<lambda>f. fUserID f = u \<and> \<not> fIsDir f) (fcRows d))) = (\<Sum>c \<in> ?F. fSize c)"
    using sum_list_distinct_conv_sum_set [of "filter (\<lambda>f. fUserID f = u \<and> \<not> fIsDir f) (fcRows d)" fSize] fileInvD(2) [OF i]
    by (simp add: distinct_map)
  ultimately show ?thesis using fileInvD(1) [OF i] use wrap64_id [of n] by (simp add: Usage_def Let_def split: if_splits)
qed

lemma recalced_usage:
  assumes "list_all2 (recalced u) (fcRows d) (fcRows d')" and "fcDown d = fcDown d'"
  shows "Usage d' v = Usage d v"
proof -
  have "map fSize (filter (\<lambda>f. fUserID f = v \<and> \<not> fIsDir f) (fcRows d')) = map fSize (filter (\<lambda>f. fUserID f = v \<and> \<not> fIsDir f) (fcRows d))"
    using assms(1) by (induction rule: list_all2_induct) (auto simp: recalced_def dest: skeleton_sel)
  then show ?thesis using assms(2) by (auto simp: Usage_def Let_def split: option.split)
qed

text \<open>
  C32. After the members of a directory have changed, \<open>RecalcAncestors\<close> called on that directory ends and restores the file cache: when the
  sizes of all directories that are not on the way from it to the root are right, then every directory of the user
  has the sum of the sizes of its members afterwards, the size of the root is the usage of the user,
  and only sizes, entity tags and times of directories of this user have changed.
\<close>

theorem recalc_restores_sizes:
  assumes "fileInv d" and "f \<in> set (fcRows d)" and "fIsDir f" and "dirSizesOK d (fUserID f) (\<lambda>q. onWay q (fPath f))"
  shows "\<exists>d'. RecalcAncestors sha clock d (fUserID f) (Some (fID f)) now = Some (d', Inr ()) \<and> fileInv d'
    \<and> list_all2 (recalced (fUserID f)) (fcRows d) (fcRows d') \<and> dirSizesOK d' (fUserID f) (\<lambda>q. False)
    \<and> (\<forall>root \<in> set (fcRows d'). fUserID root = fUserID f \<and> fPath root = ''/'' \<longrightarrow>
        (\<forall>n. Usage d (fUserID f) = Inr n \<longrightarrow> fSize root = n))"
proof -
  obtain d' where d': "recalcLoop sha (fUserID f) now (fID f) d = Some (d', Inr ())" "fileInv d'"
    "list_all2 (recalced (fUserID f)) (fcRows d) (fcRows d')" "dirSizesOK d' (fUserID f) (\<lambda>q. False)"
    using recalcLoop_ok [OF assms] by blast
  have "Usage d' (fUserID f) = Usage d (fUserID f)"
    using recalced_usage [OF d'(3)] fileInvD(1) [OF assms(1)] fileInvD(1) [OF d'(2)] by simp
  then show ?thesis using d' root_size_usage [OF d'(2,4)] by (auto simp: RecalcAncestors_def)
qed

definition demoRow :: "int \<Rightarrow> int option \<Rightarrow> string \<Rightarrow> bool \<Rightarrow> int \<Rightarrow> File" where
  "demoRow i parent p isDir sz = \<lparr>fID = i, fUserID = 1, fParentID = parent, fName = path_base p, fPath = p, fIsDir = isDir, fSize = sz,
     fMtime = 0, fETag = ''e'', fChecksum = [], fMIME = [], fPermissions = 31, fKeyUUID = None, fNameScheme = 0\<rparr>"

definition demoTable :: fileTable where
  "demoTable = \<lparr>fcRows = [demoRow 1 None ''/'' True 0, demoRow 2 (Some 1) ''/a'' True 0, demoRow 3 (Some 2) ''/a/x'' False 7,
     demoRow 4 (Some 1) ''/b'' True 0], fcNext = 5, fcDown = None\<rparr>"

lemma demoTable_inv: "fileInv demoTable"
  by code_simp

theorem recalc_restores_sizes_witness:
  "\<exists>d'. RecalcAncestors (\<lambda>s. s) 9 demoTable 1 (Some 2) 5 = Some (d', Inr ()) \<and> dirSizesOK d' 1 (\<lambda>q. False)"
proof -
  let ?f = "demoRow 2 (Some 1) ''/a'' True 0"
  have f: "?f \<in> set (fcRows demoTable)" "fIsDir ?f" "fUserID ?f = 1" "fID ?f = 2" "fPath ?f = ''/a''" by (simp_all add: demoTable_def demoRow_def)
  have "childrenOf demoTable (demoRow 4 (Some 1) ''/b'' True 0) = {}" by (auto simp: childrenOf_def demoTable_def demoRow_def)
  then have "sizeOK demoTable (demoRow 4 (Some 1) ''/b'' True 0)" by (simp add: sizeOK_def wrap64_0) (simp add: demoRow_def)
  then have "dirSizesOK demoTable (fUserID ?f) (\<lambda>q. onWay q (fPath ?f))"
    by (auto simp: dirSizesOK_def demoTable_def demoRow_def onWay_def)
  then show ?thesis using recalc_restores_sizes [OF demoTable_inv f(1,2)] f(3,4) by (metis f(3,4))
qed

end
