(* ===== verification/Files_StoreMove.thy ===== *)
theory Files_StoreMove
  imports Files_StoreLaws
begin

text \<open>
  Renaming in the file cache: the batch of updates of \<open>RenameSubtree\<close> moves exactly the subtree and keeps the tree of rows,
  unless the destination lies inside the subtree; then a row becomes its own parent and the loop over the
  ancestors does not end.
\<close>

section \<open>Paths of moved rows\<close>

lemma decode_rune_append:
  assumes "decode_rune a = Some (r, w)"
  shows "decode_rune (a @ b) = Some (r, w) \<and> w \<le> length a"
proof -
  consider "a = []" | (one) a0 where "a = [a0]" | (two) a0 a1 where "a = [a0, a1]" | (three) a0 a1 a2 where "a = [a0, a1, a2]"
    | (more) a0 a1 a2 a3 a' where "a = a0 # a1 # a2 # a3 # a'"
    by (metis list.exhaust)
  then show ?thesis using assms
    by cases (auto simp: decode_rune_def Let_def split: if_splits)
qed

lemma utf8_valid_append_iff:
  assumes "utf8_valid a"
  shows "utf8_valid (a @ b) = utf8_valid b"
  using assms
proof (induction "length a" arbitrary: a rule: less_induct)
  case less
  show ?case
  proof (cases "a = []")
    case False
    obtain r w where d: "decode_rune a = Some (r, w)" and v: "utf8_valid (drop w a)"
      using less.prems False by (subst (asm) utf8_valid.simps) (auto split: option.splits)
    note da = decode_rune_append [OF d, of b]
    have w: "0 < w" using decode_rune_width [OF d] by simp
    have "utf8_valid (drop w a @ b) = utf8_valid b" using less.hyps [of "drop w a"] v w False by simp
    then show ?thesis using da False by (subst utf8_valid.simps) simp
  qed simp
qed

lemma NormalizePath_rebase:
  assumes "NormalizePath src = Inr src" and "NormalizePath dst = Inr dst" and "NormalizePath q = Inr q"
    and "src \<noteq> ''/''" and "dst \<noteq> ''/''" and "below src q"
  shows "NormalizePath (rebase src dst q) = Inr (rebase src dst q)"
proof (rule NormalizePath_clean)
  have sd: "clean_path src" "clean_path dst" using assms(1,2,4,5) NormalizePath_result by auto
  then have "src \<noteq> []" by (auto simp: clean_path_def)
  then have "q \<noteq> ''/''" using below_length [OF assms(6)] by (cases src) auto
  then have c: "clean_path src" "clean_path dst" "clean_path q" using sd assms(3) NormalizePath_result by auto
  show "clean_path (rebase src dst q)" by (rule rebase_clean(1) [OF c assms(6)])
  obtain t where t: "q = src @ CHR ''/'' # t" using assms(6) by (auto simp: below_append)
  have r: "rebase src dst q = dst @ CHR ''/'' # t" by (simp add: t rebase_def)
  note u = NormalizePath_utf8 [OF assms(1)] and v = NormalizePath_utf8 [OF assms(2)] and x = NormalizePath_utf8 [OF assms(3)]
  show "utf8_valid (rebase src dst q)" unfolding r utf8_valid_append_iff [OF v(1)]
    using x(1) utf8_valid_append_iff [OF u(1)] by (simp add: t)
  show "CHR 0x00 \<notin> set (rebase src dst q)" "CHR 0x5C \<notin> set (rebase src dst q)"
    unfolding r using v(2,3) x(2,3) unfolding t by auto
qed

section \<open>Rows below a directory\<close>

lemma clean_not_root: "clean_path p \<Longrightarrow> p \<noteq> ''/'' \<and> p \<noteq> []"
  by (auto simp: clean_path_def plain_seg_def)

lemma below_not_root: "clean_path p \<Longrightarrow> below p q \<Longrightarrow> q \<noteq> ''/''"
  using below_length [of p q] clean_not_root [of p] by (cases p) auto

lemma fcGetByPath_row:
  assumes i: "fileInv d" and f: "f \<in> set (fcRows d)"
  shows "fcGetByPath d (fUserID f) (fPath f) = Inr f"
proof -
  have "(\<lambda>g. fUserID g = fUserID f \<and> fPath g = fPath f) = (\<lambda>g. fileKey g = fileKey f)" by (auto simp: fileKey_def)
  then have "find (\<lambda>g. fUserID g = fUserID f \<and> fPath g = fPath f) (fcRows d) = Some f"
    using find_key [OF fileInvD(3) [OF i]] f by auto
  then show ?thesis using fileInvD(1) [OF i] fileInvD(4) [OF i f] by (simp add: fcGetByPath_def scanOne_def)
qed

lemma fcGetByPath_none:
  assumes "fileInv d" and "npath p" and "\<not> (\<exists>f \<in> set (fcRows d). fUserID f = u \<and> fPath f = p)"
  shows "fcGetByPath d u p = Inl FErrNotFound"
proof -
  have "find (\<lambda>g. fUserID g = u \<and> fPath g = p) (fcRows d) = None" using assms(3) by (simp add: find_None_iff)
  then show ?thesis using fileInvD(1) [OF assms(1)] assms(2) by (simp add: fcGetByPath_def scanOne_def)
qed

text \<open>The ancestors of a row have rows.\<close>

lemma ancestor_row:
  assumes "fileInv d" and "f \<in> set (fcRows d)" and "clean_path q" and "below q (fPath f)"
  shows "\<exists>p \<in> set (fcRows d). fUserID p = fUserID f \<and> fPath p = q"
  using assms(2,4)
proof (induction "length (fPath f)" arbitrary: f rule: less_induct)
  case less
  have "fPath f \<noteq> ''/''" using below_not_root [OF assms(3) less.prems(2)] .
  then obtain p where c: "clean_path (fPath f)" and p: "p \<in> set (fcRows d)" "fUserID p = fUserID f" "fPath p = path_dir (fPath f)"
    "length (fPath p) < length (fPath f)"
    using fileParent(2) [OF assms(1) less.prems(1)] by blast
  show ?case using below_path_dir(1) [OF assms(3) c less.prems(2)] less.hyps [OF p(4,1)] p by auto
qed

section \<open>The batch of updates\<close>

definition movedTo :: "(string \<Rightarrow> string) \<Rightarrow> int \<Rightarrow> string \<Rightarrow> string \<Rightarrow> int \<Rightarrow> File \<Rightarrow> File" where
  "movedTo sha now src dst pid r = updateMetaStmt (the (movedRow sha now src dst pid r)) r"

definition inSubtree :: "int \<Rightarrow> string \<Rightarrow> File \<Rightarrow> bool" where
  "inSubtree u src r \<longleftrightarrow> fUserID r = u \<and> (fPath r = src \<or> below src (fPath r))"

lemma movedRow_None: "movedRow sha now src dst pid r = None \<longleftrightarrow> \<not> (fPath r = src \<or> below src (fPath r))"
  by (auto simp: movedRow_def Let_def below_def)

lemma movedRow_sel:
  assumes "movedRow sha now src dst pid r = Some r'"
  shows "fID r' = fID r" "fUserID r' = fUserID r" "fPath r' = rebase src dst (fPath r)" "fIsDir r' = fIsDir r"
    "fKeyUUID r' = fKeyUUID r" "fParentID r' = (if fPath r = src then Some pid else fParentID r)" "fSize r' = fSize r" "fMtime r' = now"
  using assms by (auto simp: movedRow_def Let_def rebase_def has_prefix_iff trim_prefix_def split: if_splits)

lemma movedTo_sel:
  assumes "fPath r = src \<or> below src (fPath r)"
  shows "fID (movedTo sha now src dst pid r) = fID r" "fUserID (movedTo sha now src dst pid r) = fUserID r"
    "fPath (movedTo sha now src dst pid r) = rebase src dst (fPath r)" "fIsDir (movedTo sha now src dst pid r) = fIsDir r"
    "fKeyUUID (movedTo sha now src dst pid r) = keyColumn (fKeyUUID r)"
    "fParentID (movedTo sha now src dst pid r) = (if fPath r = src then Some pid else fParentID r)"
    "fSize (movedTo sha now src dst pid r) = fSize r" "fMtime (movedTo sha now src dst pid r) = msTrunc now"
proof -
  obtain r' where "movedRow sha now src dst pid r = Some r'" using assms movedRow_None by (metis option.exhaust)
  with movedRow_sel [OF this] show "fID (movedTo sha now src dst pid r) = fID r"
    "fUserID (movedTo sha now src dst pid r) = fUserID r"
    "fPath (movedTo sha now src dst pid r) = rebase src dst (fPath r)" "fIsDir (movedTo sha now src dst pid r) = fIsDir r"
    "fKeyUUID (movedTo sha now src dst pid r) = keyColumn (fKeyUUID r)"
    "fParentID (movedTo sha now src dst pid r) = (if fPath r = src then Some pid else fParentID r)"
    "fSize (movedTo sha now src dst pid r) = fSize r" "fMtime (movedTo sha now src dst pid r) = msTrunc now"
    by (simp_all add: movedTo_def updateMetaStmt_def)
qed

text \<open>The table after the rows with the given ids have moved.\<close>

definition movedTable :: "(string \<Rightarrow> string) \<Rightarrow> int \<Rightarrow> string \<Rightarrow> string \<Rightarrow> int \<Rightarrow> int set \<Rightarrow> fileTable \<Rightarrow> fileTable" where
  "movedTable sha now src dst pid X d = d\<lparr>fcRows := map (\<lambda>r. if fID r \<in> X then movedTo sha now src dst pid r else r) (fcRows d)\<rparr>"

lemma UpdateMeta_moved:
  assumes i: "fileInv d" and r: "r \<in> set (fcRows d)" "inSubtree u src r" "movedRow sha now src dst pid r = Some r'"
    and X: "X \<subseteq> fID ` {s \<in> set (fcRows d). inSubtree u src s}" "fID r \<notin> X"
    and free: "\<And>s. s \<in> set (fcRows d) \<Longrightarrow> fUserID s = u \<Longrightarrow> fPath s \<noteq> dst \<and> \<not> below dst (fPath s)"
  shows "UpdateMeta (movedTable sha now src dst pid X d) r' = (movedTable sha now src dst pid (insert (fID r) X) d, Inr ())"
proof -
  let ?mv = "movedTo sha now src dst pid" and ?T = "\<lambda>X. movedTable sha now src dst pid X d"
  note sel = movedRow_sel [OF r(3)]
  have rp: "fPath r = src \<or> below src (fPath r)" using r(2) by (simp add: inSubtree_def)
  have dstp: "fPath r' = dst \<or> below dst (fPath r')" using rp rebase_below sel(3) by auto
  have sub: "inSubtree u src s" if s: "s \<in> set (fcRows d)" "fID s \<in> X" for s
  proof -
    obtain t where "t \<in> set (fcRows d)" "inSubtree u src t" "fID s = fID t" using X(1) s(2) by auto
    then show ?thesis using fileRow_eq [OF i s(1)] by metis
  qed
  have clash: "\<not> (fUserID s' = u \<and> fPath s' = fPath r')" if s': "s' \<in> set (fcRows (?T X))" "fID s' \<noteq> fID r" for s'
  proof -
    obtain s where s: "s \<in> set (fcRows d)" "s' = (if fID s \<in> X then ?mv s else s)" using s'(1) by (auto simp: movedTable_def)
    show ?thesis
    proof (cases "fID s \<in> X")
      case True
      then have sp: "fPath s = src \<or> below src (fPath s)" using sub [OF s(1)] by (simp add: inSubtree_def)
      then have "fPath s' = rebase src dst (fPath s)" "fID s' = fID s" "fUserID s' = fUserID s" using s(2) True movedTo_sel by simp_all
      moreover have "rebase src dst (fPath s) = rebase src dst (fPath r) \<Longrightarrow> fPath s = fPath r"
        using rebase_inverse [OF sp, of dst] rebase_inverse [OF rp, of dst] by metis
      moreover have "fID s = fID r" if "fPath s = fPath r" "fUserID s = u"
      proof -
        have "fileKey s = fileKey r" using that r(2) by (simp add: fileKey_def inSubtree_def)
        then have "s = r" by (intro fileRow_eq [OF i s(1) r(1)] disjI2)
        then show ?thesis by simp
      qed
      ultimately show ?thesis using s'(2) sel(3) by auto
    next
      case False
      then show ?thesis using s free [OF s(1)] dstp by auto
    qed
  qed
  have idm: "fID (if fID s \<in> X then ?mv s else s) = fID s" "fUserID (if fID s \<in> X then ?mv s else s) = fUserID s" if "s \<in> set (fcRows d)" for s
    using movedTo_sel(1,2) sub [OF that] by (auto simp: inSubtree_def)
  have one: "fUserID x = u" if x: "x \<in> set (fcRows (?T X))" "fID x = fID r" for x
  proof -
    obtain s where s: "s \<in> set (fcRows d)" "x = (if fID s \<in> X then ?mv s else s)" using x(1) by (auto simp: movedTable_def)
    have "fID s = fID r" using x(2) idm(1) [OF s(1)] s(2) by simp
    then have "s = r" by (intro fileRow_eq [OF i s(1) r(1)] disjI1)
    then show ?thesis using idm(2) [OF s(1)] s(2) r(2) by (simp add: inSubtree_def)
  qed
  have noclash: "\<not> list_ex (\<lambda>x. fID x = fID r' \<and> list_ex (\<lambda>s. fID s \<noteq> fID x \<and> fUserID s = fUserID x \<and> fPath s = fPath r') (fcRows (?T X))) (fcRows (?T X))"
    using clash one sel(1) by (fastforce simp: list_ex_iff)
  have upd: "(if fID (if fID s \<in> X then ?mv s else s) = fID r' then updateMetaStmt r' (if fID s \<in> X then ?mv s else s) else if fID s \<in> X then ?mv s else s)
      = (if fID s \<in> insert (fID r) X then ?mv s else s)" if s: "s \<in> set (fcRows d)" for s
  proof (cases "fID s = fID r")
    case True
    then have "s = r" by (intro fileRow_eq [OF i s r(1)] disjI1)
    then show ?thesis using X(2) sel(1) r(3) by (simp add: movedTo_def)
  next
    case False
    then show ?thesis using idm(1) [OF s] sel(1) by simp
  qed
  have "map (\<lambda>x. if fID x = fID r' then updateMetaStmt r' x else x) (fcRows (?T X)) = fcRows (?T (insert (fID r) X))"
    using upd by (simp add: movedTable_def)
  then show ?thesis using noclash fileInvD(1) [OF i] fileInvD(4) [OF i r(1)] sel(1)
    by (simp add: UpdateMeta_def execUpdate_def movedTable_def)
qed

lemma renameBatch_ok:
  assumes i: "fileInv d" and free: "\<And>s. s \<in> set (fcRows d) \<Longrightarrow> fUserID s = u \<Longrightarrow> fPath s \<noteq> dst \<and> \<not> below dst (fPath s)"
    and "set bs \<subseteq> {r \<in> set (fcRows d). fUserID r = u}" and "distinct (map fID bs)" and "X \<inter> fID ` set bs = {}"
    and "X \<subseteq> fID ` {s \<in> set (fcRows d). inSubtree u src s}"
  shows "renameBatch sha now src dst pid bs (movedTable sha now src dst pid X d)
    = (movedTable sha now src dst pid (X \<union> fID ` {b \<in> set bs. inSubtree u src b}) d, Inr ())"
  using assms(3-)
proof (induction bs arbitrary: X)
  case (Cons b bs)
  have b: "b \<in> set (fcRows d)" "fUserID b = u" using Cons.prems(1) by auto
  show ?case
  proof (cases "movedRow sha now src dst pid b")
    case None
    then have "{x \<in> set (b # bs). inSubtree u src x} = {x \<in> set bs. inSubtree u src x}" by (auto simp: movedRow_None inSubtree_def)
    then show ?thesis using None Cons.IH [of X] Cons.prems by simp
  next
    case (Some b')
    then have "movedRow sha now src dst pid b \<noteq> None" by simp
    then have sb: "inSubtree u src b" using b(2) by (simp add: movedRow_None inSubtree_def)
    have step: "UpdateMeta (movedTable sha now src dst pid X d) b' = (movedTable sha now src dst pid (insert (fID b) X) d, Inr ())"
      using UpdateMeta_moved [OF i b(1) sb Some Cons.prems(4) _ free] Cons.prems(3) by simp
    have "renameBatch sha now src dst pid bs (movedTable sha now src dst pid (insert (fID b) X) d)
      = (movedTable sha now src dst pid (insert (fID b) X \<union> fID ` {b \<in> set bs. inSubtree u src b}) d, Inr ())"
      using Cons.prems b sb by (intro Cons.IH) auto
    moreover have "insert (fID b) X \<union> fID ` {b \<in> set bs. inSubtree u src b} = X \<union> fID ` {x \<in> set (b # bs). inSubtree u src x}"
      using sb by auto
    ultimately show ?thesis using Some step by simp
  qed
qed simp


section \<open>Renaming\<close>

lemma movedTable_inSubtree:
  assumes "fileInv d"
  shows "fcRows (movedTable sha now src dst pid (fID ` {r \<in> set (fcRows d). inSubtree u src r}) d)
    = map (\<lambda>r. if inSubtree u src r then movedTo sha now src dst pid r else r) (fcRows d)"
proof -
  have "fID r \<in> fID ` {r \<in> set (fcRows d). inSubtree u src r} \<longleftrightarrow> inSubtree u src r" if r: "r \<in> set (fcRows d)" for r
  proof
    assume "fID r \<in> fID ` {r \<in> set (fcRows d). inSubtree u src r}"
    then obtain s where s: "s \<in> set (fcRows d)" "inSubtree u src s" "fID r = fID s" by auto
    then have "r = s" by (intro fileRow_eq [OF assms r s(1)] disjI1)
    then show "inSubtree u src r" using s(2) by simp
  qed (use r in auto)
  then show ?thesis by (simp add: movedTable_def)
qed

text \<open>A destination at which, and so below which, the user has no row.\<close>

lemma free_below:
  assumes "fileInv d" and "clean_path dst" and "\<not> (\<exists>f \<in> set (fcRows d). fUserID f = u \<and> fPath f = dst)"
    and "s \<in> set (fcRows d)" and "fUserID s = u"
  shows "fPath s \<noteq> dst \<and> \<not> below dst (fPath s)"
  using ancestor_row [OF assms(1,4,2)] assms(3-5) by auto

definition renamed :: "(string \<Rightarrow> string) \<Rightarrow> int \<Rightarrow> int \<Rightarrow> string \<Rightarrow> string \<Rightarrow> int \<Rightarrow> fileTable \<Rightarrow> fileTable" where
  "renamed sha now u src dst pid d = d\<lparr>fcRows := map (\<lambda>r. if inSubtree u src r then movedTo sha now src dst pid r else r) (fcRows d)\<rparr>"

lemma RenameSubtree_run:
  assumes i: "fileInv d" and src: "npath src" "src \<noteq> ''/''" "f \<in> set (fcRows d)" "fUserID f = u" "fPath f = src"
    and dst: "npath dst" "dst \<noteq> ''/''" "\<not> (\<exists>g \<in> set (fcRows d). fUserID g = u \<and> fPath g = dst)"
    and p: "p \<in> set (fcRows d)" "fUserID p = u" "fPath p = path_dir dst" "fIsDir p"
    and like: "\<forall>q. below src q \<longrightarrow> like (src @ ''/%'') q"
  shows "RenameSubtree sha like clock d u src dst now = (renamed sha (if now = zeroTime then clock else now) u src dst (fID p) d, Inr ())"
proof -
  let ?now = "if now = zeroTime then clock else now"
  let ?bs = "filter (\<lambda>f. fUserID f = u \<and> (fPath f = src \<or> like (src @ ''/%'') (fPath f))) (fcRows d)"
  let ?X = "fID ` {r \<in> set (fcRows d). inSubtree u src r}"
  have c: "clean_path dst" using dst normal_path by blast
  have pd: "parentDir dst = path_dir dst"
    using fileInvD(4) [OF i p(1)] p(3) normal_path [of "path_dir dst"] by (auto simp: parentDir_def clean_path_def)
  have "distinct (map fID ?bs)" using fileInvD(2) [OF i] by (auto simp: distinct_map inj_on_def)
  then have "renameBatch sha ?now src dst (fID p) ?bs (movedTable sha ?now src dst (fID p) {} d)
    = (movedTable sha ?now src dst (fID p) ({} \<union> fID ` {b \<in> set ?bs. inSubtree u src b}) d, Inr ())"
    by (intro renameBatch_ok [OF i free_below [OF i c dst(3)]]) auto
  also have "{b \<in> set ?bs. inSubtree u src b} = {r \<in> set (fcRows d). inSubtree u src r}" using like by (auto simp: inSubtree_def)
  also have "movedTable sha ?now src dst (fID p) ({} \<union> ?X) d = renamed sha ?now u src dst (fID p) d"
    using movedTable_inSubtree [OF i, of sha ?now src dst "fID p" u] by (simp add: renamed_def movedTable_def)
  finally have b: "renameBatch sha ?now src dst (fID p) ?bs d = (renamed sha ?now u src dst (fID p) d, Inr ())"
    by (simp add: movedTable_def)
  show ?thesis
    using src dst(1,2) p b fcGetByPath_row [OF i src(3)] fcGetByPath_none [OF i dst(1,3)] fcGetByPath_row [OF i p(1)] pd
    by (simp add: RenameSubtree_def)
qed


lemma renamed_row:
  assumes "r' \<in> set (fcRows (renamed sha now u src dst pid d))"
  obtains r where "r \<in> set (fcRows d)" "r' = (if inSubtree u src r then movedTo sha now src dst pid r else r)"
    "fID r' = fID r" "fUserID r' = fUserID r" "fIsDir r' = fIsDir r"
proof -
  obtain r where r: "r \<in> set (fcRows d)" "r' = (if inSubtree u src r then movedTo sha now src dst pid r else r)"
    using assms by (auto simp: renamed_def)
  then show ?thesis using that movedTo_sel [of r src] by (auto simp: inSubtree_def)
qed

lemma renamed_parentOK:
  assumes i: "fileInv d" and src: "clean_path src" and dst: "clean_path dst" "\<not> below src dst" "src \<noteq> dst"
    and p: "p \<in> set (fcRows d)" "fUserID p = u" "fPath p = path_dir dst" "fIsDir p"
    and r: "r \<in> set (fcRows d)"
  shows "parentOK (fcRows (renamed sha now u src dst (fID p) d)) (if inSubtree u src r then movedTo sha now src dst (fID p) r else r)"
proof -
  let ?mv = "\<lambda>r. if inSubtree u src r then movedTo sha now src dst (fID p) r else r"
  let ?rows = "fcRows (renamed sha now u src dst (fID p) d)"
  have rows: "?mv q \<in> set ?rows" if "q \<in> set (fcRows d)" for q using that by (auto simp: renamed_def)
  have nroot: "fPath q \<noteq> ''/''" if "inSubtree u src q" for q
    using that clean_not_root [OF src] below_not_root [OF src] by (auto simp: inSubtree_def)
  have pkeep: "\<not> inSubtree u src p"
    using nroot [of p] below_path_dirI [OF dst(1), of src] p(3) dst(2) by (auto simp: inSubtree_def)
  consider (top) "inSubtree u src r" "fPath r = src" | (inner) "inSubtree u src r" "below src (fPath r)"
    | (root) "\<not> inSubtree u src r" "fPath r = ''/''" | (other) "\<not> inSubtree u src r" "fPath r \<noteq> ''/''"
    unfolding inSubtree_def by blast
  then show ?thesis
  proof cases
    case top
    note sel = movedTo_sel [of r src sha now dst "fID p"]
    have "dst \<noteq> ''/''" using clean_not_root [OF dst(1)] by simp
    then show ?thesis using top sel p pkeep rows [OF p(1)]
      by (auto simp: parentOK_def list_ex_iff inSubtree_def intro!: bexI [of _ p])
  next
    case inner
    note sel = movedTo_sel [of r src sha now dst "fID p"]
    obtain q where c: "clean_path (fPath r)" and q: "q \<in> set (fcRows d)" "fParentID r = Some (fID q)" "fUserID q = fUserID r"
      "fPath q = path_dir (fPath r)" "fIsDir q"
      using fileParent(2) [OF i r nroot [OF inner(1)]] by blast
    have qs: "inSubtree u src q" using below_path_dir(1) [OF src c inner(2)] q inner by (auto simp: inSubtree_def)
    then have selq: "fID (?mv q) = fID q" "fUserID (?mv q) = fUserID q" "fPath (?mv q) = rebase src dst (path_dir (fPath r))" "fIsDir (?mv q)"
      using movedTo_sel [of q src] q by (simp_all add: inSubtree_def)
    note cl = rebase_clean [OF src dst(1) c inner(2)]
    have ne: "fPath r \<noteq> src" using inner(2) by auto
    have "rebase src dst (fPath r) \<noteq> ''/''" using clean_not_root [OF cl(1)] by simp
    then show ?thesis using inner sel q selq rows [OF q(1)] cl(2) ne
      by (auto simp: parentOK_def list_ex_iff intro!: bexI [of _ "?mv q"])
  next
    case root
    then show ?thesis using fileParent(1) [OF i r] by (simp add: parentOK_def)
  next
    case other
    obtain q where c: "clean_path (fPath r)" and q: "q \<in> set (fcRows d)" "fParentID r = Some (fID q)" "fUserID q = fUserID r"
      "fPath q = path_dir (fPath r)" "fIsDir q"
      using fileParent(2) [OF i r other(2)] by blast
    have "\<not> inSubtree u src q"
      using nroot [of q] below_path_dirI [OF c, of src] q other(1) by (auto simp: inSubtree_def)
    then show ?thesis using other q rows [OF q(1)] by (auto simp: parentOK_def list_ex_iff intro!: bexI [of _ q])
  qed
qed

lemma renamed_sel:
  "fID (if inSubtree u src r then movedTo sha now src dst pid r else r) = fID r"
  "fUserID (if inSubtree u src r then movedTo sha now src dst pid r else r) = fUserID r"
  "fPath (if inSubtree u src r then movedTo sha now src dst pid r else r) = (if inSubtree u src r then rebase src dst (fPath r) else fPath r)"
  using movedTo_sel(1-3) [of r src] by (auto simp: inSubtree_def)

lemma renamed_keys:
  assumes i: "fileInv d" and c: "clean_path dst" and free: "\<not> (\<exists>g \<in> set (fcRows d). fUserID g = u \<and> fPath g = dst)"
  shows "distinct (map fID (fcRows (renamed sha now u src dst pid d)))"
    and "distinct (map fileKey (fcRows (renamed sha now u src dst pid d)))"
proof -
  let ?d = "renamed sha now u src dst pid d"
  let ?mv = "\<lambda>r. if inSubtree u src r then movedTo sha now src dst pid r else r"
  note sel = renamed_sel [where u = u and src = src and sha = sha and now = now and dst = dst and pid = pid]
  have "map fID (fcRows ?d) = map fID (fcRows d)" using sel(1) by (simp add: renamed_def)
  then show "distinct (map fID (fcRows ?d))" using fileInvD(2) [OF i] by simp
  have "inj_on (\<lambda>r. fileKey (?mv r)) (set (fcRows d))"
  proof (rule inj_onI)
    fix r s assume r: "r \<in> set (fcRows d)" and s: "s \<in> set (fcRows d)" and e: "fileKey (?mv r) = fileKey (?mv s)"
    have moved: "fPath (?mv x) = dst \<or> below dst (fPath (?mv x))" if "inSubtree u src x" for x
      using sel(3) [where r = x] that rebase_below by (auto simp: inSubtree_def)
    have u: "fUserID r = fUserID s" and pe: "fPath (?mv r) = fPath (?mv s)" using e sel(2) unfolding fileKey_def by simp_all
    have "fPath r = fPath s"
    proof (cases "inSubtree u src r \<longleftrightarrow> inSubtree u src s")
      case True
      then show ?thesis using sel(3) [where r = r] sel(3) [where r = s] pe rebase_inverse [of _ src dst]
        by (cases "inSubtree u src r") (simp, metis inSubtree_def, simp)
    next
      case False
      then show ?thesis using moved [of r] moved [of s] pe u free_below [OF i c free r] free_below [OF i c free s]
        by (auto simp: inSubtree_def split: if_splits)
    qed
    then show "r = s" using u by (intro fileRow_eq [OF i r s] disjI2) (simp add: fileKey_def)
  qed
  then show "distinct (map fileKey (fcRows ?d))"
    using fileInvD(2) [OF i] by (simp add: renamed_def distinct_map comp_def inj_on_def)
qed

lemma renamed_npath:
  assumes "fileInv d" and "npath src" and "src \<noteq> ''/''" and "npath dst" and "dst \<noteq> ''/''" and "r \<in> set (fcRows d)"
  shows "npath (fPath (if inSubtree u src r then movedTo sha now src dst pid r else r))"
  using renamed_sel(3) [of u src r sha now dst pid] fileInvD(4) [OF assms(1,6)] NormalizePath_rebase [OF assms(2,4) _ assms(3,5), of "fPath r"] assms(4)
  by (auto simp: inSubtree_def)

lemma renamed_inv:
  assumes i: "fileInv d" and src: "npath src" "src \<noteq> ''/''"
    and dst: "npath dst" "dst \<noteq> ''/''" "src \<noteq> dst" "\<not> below src dst" "\<not> (\<exists>g \<in> set (fcRows d). fUserID g = u \<and> fPath g = dst)"
    and p: "p \<in> set (fcRows d)" "fUserID p = u" "fPath p = path_dir dst" "fIsDir p"
  shows "fileInv (renamed sha now u src dst (fID p) d)"
proof (rule fileInvI)
  let ?d = "renamed sha now u src dst (fID p) d"
  let ?mv = "\<lambda>r. if inSubtree u src r then movedTo sha now src dst (fID p) r else r"
  have c: "clean_path src" "clean_path dst" using src dst normal_path by auto
  show "fcDown ?d = None" using fileInvD(1) [OF i] by (simp add: renamed_def)
  show "distinct (map fID (fcRows ?d))" "distinct (map fileKey (fcRows ?d))" by (rule renamed_keys [OF i c(2) dst(5)])+
  fix f' assume "f' \<in> set (fcRows ?d)"
  then obtain r where r: "r \<in> set (fcRows d)" "f' = ?mv r" by (auto simp: renamed_def)
  note ri = fileInvD(4) [OF i r(1)]
  have "npath (fPath f')" using renamed_npath [OF i src dst(1,2) r(1)] r(2) by simp
  moreover have "fKeyUUID f' \<noteq> Some []"
    using r(2) ri movedTo_sel(5) [of r src] by (auto simp: inSubtree_def keyColumn_def split: option.splits list.splits)
  ultimately show "0 < fID f' \<and> fID f' < fcNext ?d \<and> npath (fPath f') \<and> fKeyUUID f' \<noteq> Some [] \<and> parentOK (fcRows ?d) f'"
    using ri renamed_sel(1) [of u src r sha now dst "fID p"] r(2) renamed_parentOK [OF i c(1) c(2) dst(4,3) p r(1)] by (simp add: renamed_def)
qed

text \<open>What happens to a row when the subtree of a user moves under the directory \<open>pid\<close> at a time.\<close>

definition movedAs :: "int \<Rightarrow> string \<Rightarrow> string \<Rightarrow> int \<Rightarrow> int \<Rightarrow> File \<Rightarrow> File \<Rightarrow> bool" where
  "movedAs u src dst pid t r r' \<longleftrightarrow> (if inSubtree u src r
     then fPath r' = rebase src dst (fPath r) \<and> fID r' = fID r \<and> fUserID r' = u \<and> fIsDir r' = fIsDir r \<and> fSize r' = fSize r
       \<and> fKeyUUID r' = fKeyUUID r \<and> fMtime r' = msTrunc t \<and> fParentID r' = (if fPath r = src then Some pid else fParentID r)
     else r' = r)"

lemma renamed_movedAs:
  assumes "fileInv d"
  shows "list_all2 (movedAs u src dst pid t) (fcRows d) (fcRows (renamed sha t u src dst pid d))"
proof -
  have "movedAs u src dst pid t r (if inSubtree u src r then movedTo sha t src dst pid r else r)" if "r \<in> set (fcRows d)" for r
  proof (cases "inSubtree u src r")
    case True
    have "keyColumn (fKeyUUID r) = fKeyUUID r"
      using fileInvD(4) [OF assms that] by (auto simp: keyColumn_def split: option.splits list.splits)
    moreover have "fPath r = src \<or> below src (fPath r)" "fUserID r = u" using True by (auto simp: inSubtree_def)
    ultimately show ?thesis using True movedTo_sel [of r src sha t dst pid] by (simp add: movedAs_def)
  qed (simp add: movedAs_def)
  then show ?thesis by (simp add: renamed_def list_all2_map2 list_all2_same)
qed

text \<open>
  C31. \<open>RenameSubtree\<close> to a free place in an existing directory outside the subtree succeeds and moves exactly the subtree: the rows of
  the user at and below the source take the place and the time, every other row of the table stays as it is, and
  the rows form a tree again (ids, keys and parent references included). The unique key never interrupts the
  batch of updates. The hypothesis on \<open>LIKE\<close> is that a pattern with a trailing \<open>%\<close> matches the paths below its prefix.
\<close>

theorem rename_subtree_correct:
  assumes "fileInv d" and "npath src" and "src \<noteq> ''/''" and "\<exists>f \<in> set (fcRows d). fUserID f = u \<and> fPath f = src"
    and "npath dst" and "dst \<noteq> ''/''" and "src \<noteq> dst" and "\<not> below src dst" and "\<not> (\<exists>g \<in> set (fcRows d). fUserID g = u \<and> fPath g = dst)"
    and "p \<in> set (fcRows d)" and "fUserID p = u" and "fPath p = path_dir dst" and "fIsDir p"
    and "\<forall>q. below src q \<longrightarrow> like (src @ ''/%'') q"
  shows "\<exists>d'. RenameSubtree sha like clock d u src dst now = (d', Inr ()) \<and> fileInv d'
    \<and> list_all2 (movedAs u src dst (fID p) (if now = zeroTime then clock else now)) (fcRows d) (fcRows d')"
proof -
  obtain f where f: "f \<in> set (fcRows d)" "fUserID f = u" "fPath f = src" using assms(4) by blast
  show ?thesis
    using RenameSubtree_run [where like = like, OF assms(1-3) f assms(5,6,9-14)] renamed_inv [OF assms(1-3,5-13)] renamed_movedAs [OF assms(1)] by blast
qed


theorem rename_subtree_correct_witness:
  "\<exists>d'. RenameSubtree (\<lambda>s. s) (\<lambda>pat q. has_prefix q (butlast pat)) 9 demoTable 1 ''/a'' ''/b/c'' 5 = (d', Inr ()) \<and> fileInv d'
    \<and> list_all2 (movedAs 1 ''/a'' ''/b/c'' 4 5) (fcRows demoTable) (fcRows d')"
proof -
  have n: "npath ''/a''" "npath ''/b/c''" "path_dir ''/b/c'' = ''/b''" "(5 :: int) \<noteq> zeroTime" by code_simp+
  have r: "set (fcRows demoTable) = {demoRow 1 None ''/'' True 0, demoRow 2 (Some 1) ''/a'' True 0, demoRow 3 (Some 2) ''/a/x'' False 7,
     demoRow 4 (Some 1) ''/b'' True 0}" by (simp add: demoTable_def)
  show ?thesis
    using rename_subtree_correct [OF demoTable_inv n(1) _ _ n(2), of 1 "demoRow 4 (Some 1) ''/b'' True 0"
      "\<lambda>pat q. has_prefix q (butlast pat)" "\<lambda>s. s" 9 5] n(3,4)
    by (simp add: r demoRow_def below_append has_prefix_iff butlast_append)
qed

section \<open>Renaming a directory into itself\<close>

text \<open>A table in which the row \<open>i\<close> of a user is its own parent.\<close>

definition ownParent :: "fileTable \<Rightarrow> int \<Rightarrow> int \<Rightarrow> bool" where
  "ownParent d u i \<longleftrightarrow> fcDown d = None \<and> distinct (map fID (fcRows d)) \<and> distinct (map fileKey (fcRows d)) \<and> i \<noteq> 0
     \<and> (\<exists>f \<in> set (fcRows d). fID f = i \<and> fUserID f = u \<and> fParentID f = Some i)"

lemma ownParent_turn:
  assumes "ownParent d u i" and "fcGetByID d i = Inr f"
  shows "fUserID f = u" "fParentID f = Some i" "\<exists>cs. fcListChildren d u (fID f) = Inr cs"
    "\<exists>d'. UpdateMeta d (recalcRow sha now cs f) = (d', Inr ()) \<and> ownParent d' u i"
proof -
  have d: "fcDown d = None" "distinct (map fID (fcRows d))" "distinct (map fileKey (fcRows d))" "i \<noteq> 0" using assms(1) by (auto simp: ownParent_def)
  obtain g where g: "g \<in> set (fcRows d)" "fID g = i" "fUserID g = u" "fParentID g = Some i" using assms(1) by (auto simp: ownParent_def)
  have "find (\<lambda>x. fID x = i) (fcRows d) = Some g" using find_key [OF d(2)] g by blast
  then have f: "f = g" using assms(2) d by (simp add: fcGetByID_def scanOne_def)
  show "fUserID f = u" "fParentID f = Some i" "\<exists>cs. fcListChildren d u (fID f) = Inr cs" using f g d(1) by (simp_all add: fcListChildren_def)
  let ?h = "recalcRow sha now cs f"
  have h: "fID ?h = i" "fPath ?h = fPath g" "fParentID ?h = Some i" using f g by (simp_all add: recalcRow_def)
  have ids: "r = g" if "r \<in> set (fcRows d)" "fID r = i" for r using that g d(2) by (auto simp: distinct_map inj_on_def)
  have keys: "fID s = i" if "s \<in> set (fcRows d)" "fUserID s = u" "fPath s = fPath g" for s
  proof -
    have "fileKey s = fileKey g" using that g by (simp add: fileKey_def)
    then have "s = g" using that(1) g(1) d(3) by (simp add: distinct_map inj_on_def)
    then show ?thesis using g by simp
  qed
  have no: "\<not> list_ex (\<lambda>r. fID r = fID ?h \<and> list_ex (\<lambda>s. fID s \<noteq> fID r \<and> fUserID s = fUserID r \<and> fPath s = fPath ?h) (fcRows d)) (fcRows d)"
    using ids keys h g(3) by (auto simp: list_ex_iff)
  let ?d = "d\<lparr>fcRows := map (\<lambda>r. if fID r = i then updateMetaStmt ?h r else r) (fcRows d)\<rparr>"
  have "UpdateMeta d ?h = (?d, Inr ())" using no d h(1) by (simp add: UpdateMeta_def execUpdate_def)
  moreover have "ownParent ?d u i"
  proof -
    have "map fID (fcRows ?d) = map fID (fcRows d)" by (simp add: updateMetaStmt_def)
    then have 1: "distinct (map fID (fcRows ?d))" using d(2) by argo
    have "map fileKey (fcRows ?d) = map fileKey (fcRows d)" using ids h(2) by (simp add: updateMetaStmt_def fileKey_def)
    then have 2: "distinct (map fileKey (fcRows ?d))" using d(3) by argo
    have "updateMetaStmt ?h g \<in> set (fcRows ?d)" using g by force
    moreover have "fID (updateMetaStmt ?h g) = i \<and> fUserID (updateMetaStmt ?h g) = u \<and> fParentID (updateMetaStmt ?h g) = Some i"
      using g h(3) by (simp add: updateMetaStmt_def)
    ultimately show ?thesis using 1 2 d(1,4) unfolding ownParent_def by (metis (no_types, lifting) fileTable.select_convs(3) fileTable.surjective fileTable.update_convs(1))
  qed
  ultimately show "\<exists>d'. UpdateMeta d ?h = (d', Inr ()) \<and> ownParent d' u i" by blast
qed

lemma ownParent_row:
  assumes "ownParent d u i" obtains f where "fcGetByID d i = Inr f"
proof -
  obtain g where g: "g \<in> set (fcRows d)" "fID g = i" using assms by (auto simp: ownParent_def)
  then have "find (\<lambda>x. fID x = i) (fcRows d) = Some g" using find_key [of fID "fcRows d"] assms by (auto simp: ownParent_def)
  then show ?thesis using that assms by (simp add: fcGetByID_def scanOne_def ownParent_def)
qed

lemma ownParent_diverges:
  assumes "ownParent d u i" shows "recalcLoop sha u now i d = None"
proof (rule ccontr)
  let ?P = "\<lambda>sha' u' now' i' d' y. sha' = sha \<and> u' = u \<and> now' = now \<and> i' = i \<longrightarrow> \<not> ownParent d' u i"
  assume "recalcLoop sha u now i d \<noteq> None"
  then obtain y where "recalcLoop sha u now i d = Some y" by blast
  then have "?P sha u now i d y"
  proof (rule recalcLoop.raw_induct [where P = ?P, rotated])
    fix loop sha' u' now' i' d' y
    assume IH: "\<And>sha' u' now' i' d' y. loop sha' u' now' i' d' = Some y \<Longrightarrow> ?P sha' u' now' i' d' y"
      and step: "(case fcGetByID d' i' of Inl e \<Rightarrow> Some (d', Inl e)
        | Inr f \<Rightarrow> if fUserID f \<noteq> u' then Some (d', Inl FErrForbidden)
          else (case fcListChildren d' u' (fID f) of Inl e \<Rightarrow> Some (d', Inl e)
            | Inr children \<Rightarrow> (case UpdateMeta d' (recalcRow sha' now' children f) of (d'', Inl e) \<Rightarrow> Some (d'', Inl e)
              | (d'', Inr _) \<Rightarrow> (case fParentID f of None \<Rightarrow> Some (d'', Inr ()) | Some p \<Rightarrow> loop sha' u' now' p d'')))) = Some y"
    show "?P sha' u' now' i' d' y"
    proof (intro impI notI, elim conjE)
      assume e: "sha' = sha" "u' = u" "now' = now" "i' = i" and o: "ownParent d' u i"
      obtain f where f: "fcGetByID d' i = Inr f" using ownParent_row [OF o] .
      obtain cs where cs: "fcListChildren d' u (fID f) = Inr cs" using ownParent_turn(3) [OF o f] by blast
      obtain d'' where d'': "UpdateMeta d' (recalcRow sha now cs f) = (d'', Inr ())" "ownParent d'' u i"
        using ownParent_turn(4) [OF o f] by blast
      have "loop sha u now i d'' = Some y" using step e f cs d''(1) ownParent_turn(1,2) [OF o f] by simp
      then show False using IH d''(2) by blast
    qed
  qed
  then show False using assms by simp
qed


text \<open>
  Renaming a directory to a free place directly inside itself succeeds and breaks the tree: the row
  becomes its own parent, and \<open>RecalcAncestors\<close>, which \<open>Move\<close> calls next on the parent of the moved row, never returns.
\<close>

theorem rename_into_itself_hangs:
  assumes i: "fileInv d" and f: "f \<in> set (fcRows d)" "fPath f \<noteq> ''/''" "fIsDir f"
    and dst: "npath dst" "path_dir dst = fPath f" "\<not> (\<exists>g \<in> set (fcRows d). fUserID g = fUserID f \<and> fPath g = dst)"
    and like: "\<forall>q. below (fPath f) q \<longrightarrow> like (fPath f @ ''/%'') q"
  shows "\<exists>d' r. RenameSubtree sha like clock d (fUserID f) (fPath f) dst now = (d', Inr ())
    \<and> fcGetByPath d' (fUserID f) dst = Inr r \<and> fID r = fID f \<and> fParentID r = Some (fID r)
    \<and> RecalcAncestors sha clock2 d' (fUserID f) (fParentID r) now2 = None"
proof -
  let ?now = "if now = zeroTime then clock else now"
  let ?d = "renamed sha ?now (fUserID f) (fPath f) dst (fID f) d" and ?r = "movedTo sha ?now (fPath f) dst (fID f) f"
  have src: "npath (fPath f)" using fileInvD(4) [OF i f(1)] by simp
  have "path_dir ''/'' = ''/''" by code_simp
  then have n: "dst \<noteq> ''/''" using dst(2) f(2) by metis
  then have c: "clean_path dst" using dst(1) normal_path by blast
  have run: "RenameSubtree sha like clock d (fUserID f) (fPath f) dst now = (?d, Inr ())"
    using RenameSubtree_run [where like = like, OF i src f(2,1) refl refl dst(1) n dst(3) f(1) refl dst(2) [symmetric] f(3)] like by blast
  have r: "?r \<in> set (fcRows ?d)" "fID ?r = fID f" "fUserID ?r = fUserID f" "fPath ?r = dst" "fParentID ?r = Some (fID f)"
    using f(1) movedTo_sel [of f "fPath f"] by (force simp: renamed_def inSubtree_def, simp_all)
  note keys = renamed_keys [OF i c dst(3), of sha ?now "fPath f" "fID f"]
  have down: "fcDown ?d = None" using fileInvD(1) [OF i] by (simp add: renamed_def)
  have own: "ownParent ?d (fUserID f) (fID f)" using keys down r fileInvD(4) [OF i f(1)] by (auto simp: ownParent_def)
  have "find (\<lambda>g. fileKey g = (fUserID f, dst)) (fcRows ?d) = Some ?r" using find_key [OF keys(2)] r by (auto simp: fileKey_def)
  moreover have "(\<lambda>g. fUserID g = fUserID f \<and> fPath g = dst) = (\<lambda>g. fileKey g = (fUserID f, dst))" by (auto simp: fileKey_def)
  ultimately have "fcGetByPath ?d (fUserID f) dst = Inr ?r" using dst(1) down by (simp add: fcGetByPath_def scanOne_def)
  then show ?thesis using run r(2,5) ownParent_diverges [OF own] by (auto simp: RecalcAncestors_def)
qed

theorem rename_into_itself_hangs_witness:
  "\<exists>d' r. RenameSubtree (\<lambda>s. s) (\<lambda>pat q. has_prefix q (butlast pat)) 9 demoTable 1 ''/b'' ''/b/c'' 5 = (d', Inr ())
    \<and> fcGetByPath d' 1 ''/b/c'' = Inr r \<and> RecalcAncestors (\<lambda>s. s) 9 d' 1 (fParentID r) 5 = None"
proof -
  let ?f = "demoRow 4 (Some 1) ''/b'' True 0"
  have n: "npath ''/b/c''" "path_dir ''/b/c'' = fPath ?f" by code_simp+
  have f: "?f \<in> set (fcRows demoTable)" "fUserID ?f = 1" "fPath ?f = ''/b''" "fIsDir ?f" by (simp_all add: demoTable_def demoRow_def)
  have "\<not> (\<exists>g \<in> set (fcRows demoTable). fUserID g = fUserID ?f \<and> fPath g = ''/b/c'')" by (simp add: demoTable_def demoRow_def)
  from rename_into_itself_hangs [OF demoTable_inv f(1) _ f(4) n this, of "\<lambda>pat q. has_prefix q (butlast pat)" "\<lambda>s. s" 9 5 9 5]
  show ?thesis by (auto simp: f(2,3) below_append has_prefix_iff butlast_append)
qed

end
