(* ===== verification/Files_StoreInsert.thy ===== *)
theory Files_StoreInsert
  imports Files_StoreMove
begin

text \<open>
  Insertion and overwrite in the file cache: \<open>Insert\<close> below an existing directory adds exactly one row and keeps the tree of rows,
  and which sizes of directories a new or a changed row leaves right.
\<close>

section \<open>Insertion\<close>

text \<open>The row that \<open>Insert\<close> stores for a file or directory below an existing directory.\<close>

definition insertedRow :: "(string \<Rightarrow> string) \<Rightarrow> int \<Rightarrow> fileTable \<Rightarrow> File \<Rightarrow> File \<Rightarrow> File" where
  "insertedRow sha now d p f0 =
     (let f = fileDefaults sha now (f0\<lparr>fName := (if fName f0 = [] then path_base (fPath f0) else fName f0), fParentID := Some (fID p)\<rparr>);
          row = f\<lparr>fID := fcNext d, fMtime := msTrunc (fMtime f), fKeyUUID := keyColumn (fKeyUUID f)\<rparr>
      in if fIsDir f0 then row else row\<lparr>fETag := ComputeFileETag sha (fID row) (fMtime row) (fSize row)\<rparr>)"

lemma insertedRow_sel:
  "fID (insertedRow sha now d p f0) = fcNext d" "fUserID (insertedRow sha now d p f0) = fUserID f0"
  "fPath (insertedRow sha now d p f0) = fPath f0" "fParentID (insertedRow sha now d p f0) = Some (fID p)"
  "fIsDir (insertedRow sha now d p f0) = fIsDir f0" "fSize (insertedRow sha now d p f0) = fSize f0"
  "fKeyUUID (insertedRow sha now d p f0) = keyColumn (fKeyUUID f0)" "fChecksum (insertedRow sha now d p f0) = fChecksum f0"
  by (auto simp: insertedRow_def fileDefaults_def Let_def)

lemma keyColumn_idem [simp]: "keyColumn (keyColumn k) = keyColumn k" "keyColumn k \<noteq> Some []"
  by (auto simp: keyColumn_def split: option.splits list.splits)

lemma msTrunc_idem [simp]: "msTrunc (msTrunc t) = msTrunc t"
  by (simp add: msTrunc_def unix_milli_def)

lemma fileInv_append:
  assumes i: "fileInv d" and p: "p \<in> set (fcRows d)" "fUserID p = fUserID r" "fPath p = path_dir (fPath r)" "fIsDir p"
    and r: "fID r = fcNext d" "fParentID r = Some (fID p)" "npath (fPath r)" "fPath r \<noteq> ''/''" "fKeyUUID r \<noteq> Some []"
    and free: "\<not> (\<exists>g \<in> set (fcRows d). fUserID g = fUserID r \<and> fPath g = fPath r)"
  shows "fileInv (d\<lparr>fcRows := fcRows d @ [r], fcNext := fcNext d + 1\<rparr>)"
proof (rule fileInvI)
  let ?d = "d\<lparr>fcRows := fcRows d @ [r], fcNext := fcNext d + 1\<rparr>"
  have nid: "fID g \<noteq> fcNext d" if "g \<in> set (fcRows d)" for g using fileInvD(4) [OF i that] by simp
  have npos: "0 < fcNext d" using fileInvD(4) [OF i p(1)] by simp
  show "fcDown ?d = None" using fileInvD(1) [OF i] by simp
  show "distinct (map fID (fcRows ?d))" using fileInvD(2) [OF i] r(1) nid by (fastforce simp: image_iff)
  show "distinct (map fileKey (fcRows ?d))" using fileInvD(3) [OF i] free by (auto simp: fileKey_def)
  fix f assume f: "f \<in> set (fcRows ?d)"
  show "0 < fID f \<and> fID f < fcNext ?d \<and> npath (fPath f) \<and> fKeyUUID f \<noteq> Some [] \<and> parentOK (fcRows ?d) f"
  proof (cases "f = r")
    case True
    then show ?thesis using r npos p by (auto simp: parentOK_def list_ex_iff)
  next
    case False
    then have "f \<in> set (fcRows d)" using f by simp
    from fileInvD(4) [OF i this] show ?thesis by (auto simp: parentOK_def)
  qed
qed

lemma parentDir_npath: "npath p \<Longrightarrow> p \<noteq> ''/'' \<Longrightarrow> npath (path_dir p) \<Longrightarrow> parentDir p = path_dir p"
  using normal_path [of "path_dir p"] by (auto simp: parentDir_def clean_path_def)

lemma fileInsert_ok:
  assumes i: "fileInv d" and p: "p \<in> set (fcRows d)" "fUserID p = fUserID f0" "fPath p = path_dir (fPath f0)" "fIsDir p"
    and f0: "fUserID f0 \<noteq> 0" "npath (fPath f0)" "fPath f0 \<noteq> ''/''"
    and free: "\<not> (\<exists>g \<in> set (fcRows d). fUserID g = fUserID f0 \<and> fPath g = fPath f0)"
  shows "fileInsert sha now d f0 = (d\<lparr>fcRows := fcRows d @ [insertedRow sha now d p f0], fcNext := fcNext d + 1\<rparr>, Inr (insertedRow sha now d p f0))"
    and "fileInv (d\<lparr>fcRows := fcRows d @ [insertedRow sha now d p f0], fcNext := fcNext d + 1\<rparr>)"
proof -
  let ?r = "insertedRow sha now d p f0"
  define f where "f = fileDefaults sha now (f0\<lparr>fName := (if fName f0 = [] then path_base (fPath f0) else fName f0), fParentID := Some (fID p)\<rparr>)"
  define row where "row = f\<lparr>fID := fcNext d, fMtime := msTrunc (fMtime f), fKeyUUID := keyColumn (fKeyUUID f)\<rparr>"
  define g where "g = row\<lparr>fETag := ComputeFileETag sha (fID row) (fMtime row) (fSize row)\<rparr>"
  let ?d1 = "d\<lparr>fcRows := fcRows d @ [row], fcNext := fcNext d + 1\<rparr>"
  have fsel: "fUserID f = fUserID f0" "fPath f = fPath f0" "fParentID f = Some (fID p)" "fIsDir f = fIsDir f0"
    by (simp_all add: f_def fileDefaults_def)
  have rowsel: "fID row = fcNext d" "fUserID row = fUserID f0" "fPath row = fPath f0" "fParentID row = Some (fID p)" "fIsDir row = fIsDir f0"
    "fKeyUUID row \<noteq> Some []" "fMtime row = msTrunc (fMtime row)" "keyColumn (fKeyUUID row) = fKeyUUID row"
    by (simp_all add: row_def fsel)
  have r: "?r = (if fIsDir f0 then row else g)" by (simp add: insertedRow_def f_def row_def g_def Let_def)
  have i1: "fileInv ?d1" by (rule fileInv_append [OF i p(1)]) (use p f0 free rowsel in simp_all)
  show "fileInv (d\<lparr>fcRows := fcRows d @ [?r], fcNext := fcNext d + 1\<rparr>)"
    by (rule fileInv_append [OF i p(1)]) (use p f0 free insertedRow_sel in simp_all)
  have par: "fcGetByPath d (fUserID f0) (parentDir (fPath f0)) = Inr p"
    using fcGetByPath_row [OF i p(1)] p parentDir_npath [OF f0(2,3)] fileInvD(4) [OF i p(1)] by simp
  have place: "placeFile d (f0\<lparr>fPath := fPath f0\<rparr>) = Inr (f0\<lparr>fName := (if fName f0 = [] then path_base (fPath f0) else fName f0), fParentID := Some (fID p)\<rparr>)"
    using par p(4) f0(3) by (simp add: placeFile_def)
  have nodup: "\<not> list_ex (\<lambda>r. fUserID r = fUserID f \<and> fPath r = fPath f) (fcRows d)" using free by (auto simp: list_ex_iff fsel)
  have got: "fcGetByPath ?d1 (fUserID f) (fPath f) = Inr row" using fcGetByPath_row [OF i1, of row] by (simp add: fsel rowsel)
  have upd: "UpdateMeta ?d1 g = (d\<lparr>fcRows := fcRows d @ [g], fcNext := fcNext d + 1\<rparr>, Inr ())"
  proof -
    have "fID s \<noteq> fcNext d" if "s \<in> set (fcRows d)" for s using fileInvD(4) [OF i that] by simp
    then have "map (\<lambda>s. if fID s = fcNext d then updateMetaStmt g s else s) (fcRows d) = fcRows d" by (simp add: map_idI)
    moreover have "updateMetaStmt g row = g" using rowsel(7,8) by (simp add: updateMetaStmt_def g_def)
    moreover have "UpdateMeta ?d1 g = (putRow g ?d1, Inr ())" by (rule UpdateMeta_same_path [OF i1, of row]) (simp_all add: g_def)
    moreover have "fID g = fcNext d" by (simp add: g_def rowsel(1))
    ultimately show ?thesis by (simp add: putRow_def rowsel(1))
  qed
  have "fileInsert sha now d f0 = (case fcGetByPath ?d1 (fUserID f) (fPath f) of
      Inl e \<Rightarrow> (?d1, Inl e)
    | Inr got \<Rightarrow> if fIsDir got then (?d1, Inr got)
        else let got' = got\<lparr>fETag := ComputeFileETag sha (fID got) (fMtime got) (fSize got)\<rparr> in
          case UpdateMeta ?d1 got' of (d2, Inl e) \<Rightarrow> (d2, Inl e) | (d2, Inr _) \<Rightarrow> (d2, Inr got'))"
    using f0(1,2) place fileInvD(1) [OF i] nodup
    by (simp add: fileInsert_def Let_def f_def [symmetric] row_def [symmetric] fsel)
  then show "fileInsert sha now d f0 = (d\<lparr>fcRows := fcRows d @ [?r], fcNext := fcNext d + 1\<rparr>, Inr ?r)"
    using got upd r rowsel(5) by (auto simp: Let_def g_def [symmetric])
qed

lemma fileInsert_exists:
  assumes i: "fileInv d" and g: "g \<in> set (fcRows d)" "fUserID g = fUserID f0" "fPath g = fPath f0" and u: "fUserID f0 \<noteq> 0" "fPath f0 \<noteq> ''/''"
  shows "fileInsert sha now d f0 = (d, Inl FErrExists)"
proof -
  obtain p where p: "p \<in> set (fcRows d)" "fUserID p = fUserID g" "fPath p = path_dir (fPath g)" "fIsDir p"
    using fileParent(2) [OF i g(1)] g(3) u(2) by auto
  have n: "npath (fPath f0)" using fileInvD(4) [OF i g(1)] g(3) by simp
  have par: "fcGetByPath d (fUserID f0) (parentDir (fPath f0)) = Inr p"
    using fcGetByPath_row [OF i p(1)] p g parentDir_npath [OF n u(2)] fileInvD(4) [OF i p(1)] by simp
  have ex: "list_ex (\<lambda>r. fUserID r = fUserID f0 \<and> fPath r = fPath f0) (fcRows d)" using g by (auto simp: list_ex_iff)
  show ?thesis using n u par p(4) ex fileInvD(1) [OF i] by (simp add: fileInsert_def placeFile_def fileDefaults_def Let_def)
qed

section \<open>Sizes after an insertion and after an overwrite\<close>

lemma dirSizes_insert:
  assumes i: "fileInv d" and ok: "dirSizesOK d (fUserID p) (\<lambda>q. False)" and p: "p \<in> set (fcRows d)"
    and r: "fID r = fcNext d" "fParentID r = Some (fID p)" "fUserID r = fUserID p" "fIsDir r \<longrightarrow> fSize r = 0"
  shows "dirSizesOK (d\<lparr>fcRows := fcRows d @ [r], fcNext := n\<rparr>) (fUserID p) (\<lambda>q. onWay q (fPath p))"
  unfolding dirSizesOK_def
proof (intro ballI impI, elim conjE)
  let ?d = "d\<lparr>fcRows := fcRows d @ [r], fcNext := n\<rparr>"
  have ids: "fID s \<noteq> fcNext d" if "s \<in> set (fcRows d)" for s using fileInvD(4) [OF i that] by simp
  have parents: "fParentID s \<noteq> Some (fcNext d)" if s: "s \<in> set (fcRows d)" for s
    using fileParent(1) [OF i s] fileParent(2) [OF i s] ids by (metis option.distinct(1) option.inject)
  fix g assume g: "g \<in> set (fcRows ?d)" "fIsDir g" "fUserID g = fUserID p" "\<not> onWay (fPath g) (fPath p)"
  show "sizeOK ?d g"
  proof (cases "g = r")
    case True
    have "childrenOf ?d r = {}" using parents ids [OF p] r(1,2) by (auto simp: childrenOf_def)
    then show ?thesis using True g(2) r(4) by (simp add: sizeOK_def wrap64_0)
  next
    case False
    then have m: "g \<in> set (fcRows d)" using g(1) by simp
    have "fID g \<noteq> fID p" using fileRow_eq [OF i m p] g(4) by (auto simp: onWay_def)
    then have "childrenOf ?d g = childrenOf d g" using r(2) by (auto simp: childrenOf_def)
    moreover have "sizeOK d g" using ok m g(2,3) by (auto simp: dirSizesOK_def)
    ultimately show ?thesis by (simp add: sizeOK_def)
  qed
qed

text \<open>The overwrite of one file row by one with the same id, user, path and parent.\<close>

definition sameNode :: "File \<Rightarrow> File \<Rightarrow> bool" where
  "sameNode g f \<longleftrightarrow> fID g = fID f \<and> fUserID g = fUserID f \<and> fPath g = fPath f \<and> fParentID g = fParentID f \<and> fIsDir g = fIsDir f"

lemma updateMetaStmt_same: "sameNode g f \<Longrightarrow> sameNode (updateMetaStmt g f) f"
  by (simp add: sameNode_def updateMetaStmt_def)

lemma putRow_rows:
  assumes i: "fileInv d" and f: "f \<in> set (fcRows d)" and g: "fID g = fID f"
  shows "putRow g d = d\<lparr>fcRows := map (setStat f (updateMetaStmt g f)) (fcRows d)\<rparr>"
proof -
  have "(if fID r = fID g then updateMetaStmt g r else r) = setStat f (updateMetaStmt g f) r" if r: "r \<in> set (fcRows d)" for r
  proof (cases "fID r = fID f")
    case True
    then have "r = f" by (intro fileRow_eq [OF i r f] disjI1)
    then show ?thesis using g by (simp add: setStat_def)
  qed (simp add: setStat_def g)
  then show ?thesis by (simp add: putRow_def)
qed

lemma setStat_same:
  assumes i: "fileInv d" and f: "f \<in> set (fcRows d)" and g: "sameNode g f" and r: "r \<in> set (fcRows d)"
  shows "sameNode (setStat f g r) r"
proof (cases "fID r = fID f")
  case True
  then have "r = f" by (intro fileRow_eq [OF i r f] disjI1)
  then show ?thesis using g by (simp add: setStat_def)
qed (simp add: setStat_def sameNode_def)

lemma fileInv_overwrite:
  assumes i: "fileInv d" and f: "f \<in> set (fcRows d)" and g: "sameNode g f" "fKeyUUID g \<noteq> Some []"
  shows "fileInv (d\<lparr>fcRows := map (setStat f g) (fcRows d)\<rparr>)"
proof (rule fileInvI)
  let ?d = "d\<lparr>fcRows := map (setStat f g) (fcRows d)\<rparr>"
  note s = setStat_same [OF i f g(1)]
  have k: "map fID (fcRows ?d) = map fID (fcRows d)" "map fileKey (fcRows ?d) = map fileKey (fcRows d)"
    using s by (simp_all add: sameNode_def fileKey_def)
  show "fcDown ?d = None" using fileInvD(1) [OF i] by simp
  show "distinct (map fID (fcRows ?d))" "distinct (map fileKey (fcRows ?d))" unfolding k using fileInvD(2,3) [OF i] .
  fix h' assume "h' \<in> set (fcRows ?d)"
  then obtain h where h: "h \<in> set (fcRows d)" "h' = setStat f g h" by auto
  note hi = fileInvD(4) [OF i h(1)] and sh = s [OF h(1), folded h(2)]
  have "parentOK (fcRows ?d) h'"
  proof (cases "fPath h = ''/''")
    case True
    then show ?thesis using hi sh by (simp add: parentOK_def sameNode_def)
  next
    case False
    then obtain p where p: "p \<in> set (fcRows d)" "fParentID h = Some (fID p)" "fUserID p = fUserID h" "fPath p = path_dir (fPath h)" "fIsDir p"
      using hi by (auto simp: parentOK_def list_ex_iff)
    then show ?thesis using False sh s [OF p(1)] by (auto simp: parentOK_def list_ex_iff sameNode_def intro!: bexI [of _ p])
  qed
  moreover have "fKeyUUID h' \<noteq> Some []" using hi g(2) h(2) by (simp add: setStat_def)
  ultimately show "0 < fID h' \<and> fID h' < fcNext ?d \<and> npath (fPath h') \<and> fKeyUUID h' \<noteq> Some [] \<and> parentOK (fcRows ?d) h'"
    using hi sh by (simp add: sameNode_def)
qed

lemma dirSizes_overwrite:
  assumes i: "fileInv d" and ok: "dirSizesOK d u (\<lambda>q. False)" and f: "f \<in> set (fcRows d)" "\<not> fIsDir f" and g: "sameNode g f"
    and p: "p \<in> set (fcRows d)" "fParentID f = Some (fID p)"
  shows "dirSizesOK (d\<lparr>fcRows := map (setStat f g) (fcRows d)\<rparr>) u (\<lambda>q. onWay q (fPath p))"
  unfolding dirSizesOK_def
proof (intro ballI impI, elim conjE)
  let ?d = "d\<lparr>fcRows := map (setStat f g) (fcRows d)\<rparr>"
  fix h' assume h': "h' \<in> set (fcRows ?d)" "fIsDir h'" "fUserID h' = u" "\<not> onWay (fPath h') (fPath p)"
  then obtain h where h: "h \<in> set (fcRows d)" "h' = setStat f g h" by auto
  have "fID h \<noteq> fID f"
  proof
    assume e: "fID h = fID f"
    then have "h' = g" using h(2) by (simp add: setStat_def)
    then show False using h'(2) f(2) g by (simp add: sameNode_def)
  qed
  then have hh: "h' = h" using h(2) by (simp add: setStat_def)
  have np: "fID h \<noteq> fID p" using fileRow_eq [OF i h(1) p(1)] h'(4) hh by (auto simp: onWay_def)
  then have fc: "f \<notin> childrenOf d h" using p(2) by (simp add: childrenOf_def)
  have "childrenOf ?d h = childrenOf d h"
  proof (intro equalityI subsetI)
    fix c assume c: "c \<in> childrenOf ?d h"
    then obtain c0 where c0: "c0 \<in> set (fcRows d)" "c = setStat f g c0" "fUserID c = fUserID h" "fParentID c = Some (fID h)"
      by (auto simp: childrenOf_def)
    show "c \<in> childrenOf d h"
    proof (cases "fID c0 = fID f")
      case True
      then have "fParentID c = fParentID f" using c0(2) g by (simp add: setStat_def sameNode_def)
      then show ?thesis using c0(4) p(2) np by simp
    next
      case False
      then show ?thesis using c0 by (simp add: setStat_def childrenOf_def)
    qed
  next
    fix c assume c: "c \<in> childrenOf d h"
    then have "fID c \<noteq> fID f" using fc fileRow_eq [OF i _ f(1), of c] by (auto simp: childrenOf_def)
    then have "setStat f g c = c" by (simp add: setStat_def)
    then show "c \<in> childrenOf ?d h" using c by (force simp: childrenOf_def)
  qed
  moreover have "sizeOK d h" using ok h(1) h' hh by (auto simp: dirSizesOK_def)
  ultimately show "sizeOK ?d h'" using hh by (simp add: sizeOK_def)
qed

end
