(* ===== verification/Files_StoreDelete.thy ===== *)
theory Files_StoreDelete
  imports Files_StoreInsert
begin

text \<open>
  Deleting from the file cache: the rows that \<open>DeleteSubtree\<close> drops, with those that the foreign key drops in turn, are exactly
  the subtree of the path; the tree invariant is kept, and the only directories whose size is now wrong are the ancestors.
\<close>

section \<open>The rows of a subtree\<close>

text \<open>The rows that go with a row are those below it: \<open>shorter\<close> bounds the number of references to follow.\<close>

definition shorter :: "File list \<Rightarrow> File \<Rightarrow> nat" where
  "shorter rows r = card {x \<in> set rows. length (fPath x) < length (fPath r)}"

lemma shorter_parent:
  assumes "p \<in> set rows" and "length (fPath p) < length (fPath r)" shows "shorter rows p < shorter rows r"
  unfolding shorter_def by (rule psubset_card_mono) (use assms in auto)

lemma shorter_le: "shorter rows r \<le> length rows"
  unfolding shorter_def by (rule order_trans [OF card_mono [of "set rows"] card_length]) auto

definition inTree :: "int \<Rightarrow> string \<Rightarrow> File \<Rightarrow> bool" where
  "inTree u p r \<longleftrightarrow> fUserID r = u \<and> (fPath r = p \<or> below p (fPath r))"

lemma findRow: "fileInv d \<Longrightarrow> p \<in> set (fcRows d) \<Longrightarrow> find (\<lambda>s. fID s = fID p) (fcRows d) = Some p"
  using find_key [OF fileInvD(2)] by blast

lemma refersTo_below:
  assumes i: "fileInv d" and f: "f \<in> set (fcRows d)" "fPath f \<noteq> ''/''" and r: "r \<in> set (fcRows d)" and t: "refersTo n (fcRows d) (fID f) r"
  shows "fUserID r = fUserID f \<and> below (fPath f) (fPath r)"
  using r t
proof (induction n arbitrary: r)
  case (Suc n)
  have cf: "clean_path (fPath f)" using fileParent(2) [OF i f] by blast
  have "fPath r \<noteq> ''/''" using fileParent(1) [OF i Suc.prems(1)] Suc.prems(2) by auto
  then obtain p where c: "clean_path (fPath r)" and p: "p \<in> set (fcRows d)" "fParentID r = Some (fID p)" "fUserID p = fUserID r" "fPath p = path_dir (fPath r)"
    using fileParent(2) [OF i Suc.prems(1)] by blast
  have "fID p = fID f \<or> refersTo n (fcRows d) (fID f) p" using Suc.prems(2) p(2) findRow [OF i p(1)] by simp
  then have "fUserID p = fUserID f \<and> (fPath p = fPath f \<or> below (fPath f) (fPath p))"
  proof
    assume "fID p = fID f"
    then have "p = f" by (intro fileRow_eq [OF i p(1) f(1)] disjI1)
    then show ?thesis by simp
  next
    assume "refersTo n (fcRows d) (fID f) p"
    then show ?thesis using Suc.IH [OF p(1)] by simp
  qed
  moreover have "path_dir (fPath r) \<noteq> ''/''"
    using calculation p(4) f(2) below_not_root [OF cf] by metis
  ultimately show ?case using below_path_dirI [OF c] p(3,4) by metis
qed simp

lemma below_refersTo:
  assumes i: "fileInv d" and f: "f \<in> set (fcRows d)" "fPath f \<noteq> ''/''" and r: "r \<in> set (fcRows d)" "fUserID r = fUserID f" "below (fPath f) (fPath r)"
    and n: "shorter (fcRows d) r \<le> n"
  shows "refersTo n (fcRows d) (fID f) r"
  using r n
proof (induction n arbitrary: r)
  case 0
  have "f \<in> {x \<in> set (fcRows d). length (fPath x) < length (fPath r)}" using f(1) below_length [OF 0(3)] by simp
  then show ?case using 0(4) by (auto simp: shorter_def)
next
  case (Suc n)
  have cf: "clean_path (fPath f)" using fileParent(2) [OF i f] by blast
  have "fPath r \<noteq> ''/''" using below_not_root [OF cf Suc.prems(3)] by simp
  then obtain p where c: "clean_path (fPath r)" and p: "p \<in> set (fcRows d)" "fParentID r = Some (fID p)" "fUserID p = fUserID r" "fPath p = path_dir (fPath r)"
      "length (fPath p) < length (fPath r)"
    using fileParent(2) [OF i Suc.prems(1)] by blast
  show ?case
  proof (cases "fPath p = fPath f")
    case True
    then have "p = f" by (intro fileRow_eq [OF i p(1) f(1)] disjI2) (simp add: fileKey_def p(3) Suc.prems(2))
    then show ?thesis using p(2) by simp
  next
    case False
    then have "below (fPath f) (fPath p)" using below_path_dir(1) [OF cf c Suc.prems(3)] p(4) by simp
    moreover have "shorter (fcRows d) p \<le> n" using shorter_parent [OF p(1,5)] Suc.prems(4) by simp
    ultimately show ?thesis using Suc.IH [OF p(1)] p(2,3) Suc.prems(2) findRow [OF i p(1)] by simp
  qed
qed

text \<open>\<open>ON DELETE CASCADE\<close> on a tree of rows: exactly the subtree goes.\<close>

lemma deleteCascade_tree:
  assumes i: "fileInv d" and f: "f \<in> set (fcRows d)" "fPath f \<noteq> ''/''"
  shows "deleteCascade (fID f) (fcRows d) = filter (\<lambda>r. \<not> inTree (fUserID f) (fPath f) r) (fcRows d)"
  unfolding deleteCascade_def
proof (rule filter_cong [OF refl])
  fix r assume r: "r \<in> set (fcRows d)"
  have "fID r = fID f \<longleftrightarrow> r = f" using fileRow_eq [OF i r f(1)] by blast
  moreover have "r = f \<longleftrightarrow> fUserID r = fUserID f \<and> fPath r = fPath f" using fileRow_eq [OF i r f(1)] unfolding fileKey_def by blast
  moreover have "refersTo (length (fcRows d)) (fcRows d) (fID f) r \<longleftrightarrow> fUserID r = fUserID f \<and> below (fPath f) (fPath r)"
    using refersTo_below [OF i f r] below_refersTo [OF i f r _ _ shorter_le] by blast
  ultimately show "(fID r \<noteq> fID f \<and> \<not> refersTo (length (fcRows d)) (fcRows d) (fID f) r) = (\<not> inTree (fUserID f) (fPath f) r)"
    by (auto simp: inTree_def)
qed

definition pruned :: "int \<Rightarrow> string \<Rightarrow> fileTable \<Rightarrow> fileTable" where
  "pruned u p d = d\<lparr>fcRows := filter (\<lambda>r. \<not> inTree u p r) (fcRows d)\<rparr>"

lemma DeleteSubtree_run:
  assumes i: "fileInv d" and f: "f \<in> set (fcRows d)" "fPath f \<noteq> ''/''"
  shows "DeleteSubtree d (fUserID f) (fPath f) = (pruned (fUserID f) (fPath f) d, Inr ())"
  using fcGetByPath_row [OF i f(1)] fileInvD(4) [OF i f(1)] f(2) deleteCascade_tree [OF i f] by (simp add: DeleteSubtree_def pruned_def)

text \<open>A row outside the subtree has its parent outside; the only row outside with a member inside is the parent of the root of the subtree.\<close>

lemma inTree_parent:
  assumes i: "fileInv d" and f: "f \<in> set (fcRows d)" "fPath f \<noteq> ''/''" and c: "c \<in> set (fcRows d)" "fParentID c = Some (fID g)" and g: "g \<in> set (fcRows d)"
  shows "inTree (fUserID f) (fPath f) g \<Longrightarrow> inTree (fUserID f) (fPath f) c"
    and "inTree (fUserID f) (fPath f) c \<Longrightarrow> \<not> inTree (fUserID f) (fPath f) g \<Longrightarrow> c = f"
proof -
  have cf: "clean_path (fPath f)" using fileParent(2) [OF i f] by blast
  have "fPath c \<noteq> ''/''" using fileParent(1) [OF i c(1)] c(2) by auto
  then obtain p where cc: "clean_path (fPath c)" and p: "p \<in> set (fcRows d)" "fParentID c = Some (fID p)" "fUserID p = fUserID c" "fPath p = path_dir (fPath c)"
    using fileParent(2) [OF i c(1)] by blast
  have "p = g" by (rule fileRow_eq [OF i p(1) g]) (use p(2) c(2) in simp)
  then have e: "fUserID g = fUserID c" "fPath g = path_dir (fPath c)" using p(3,4) by simp_all
  show "inTree (fUserID f) (fPath f) c" if "inTree (fUserID f) (fPath f) g"
    using that below_path_dirI [OF cc, of "fPath f"] below_not_root [OF cf, of "fPath g"] e f(2) by (auto simp: inTree_def)
  show "c = f" if "inTree (fUserID f) (fPath f) c" "\<not> inTree (fUserID f) (fPath f) g"
  proof -
    have "\<not> below (fPath f) (fPath c)" using that e below_path_dir(1) [OF cf cc] by (auto simp: inTree_def)
    then have "fPath c = fPath f" "fUserID c = fUserID f" using that(1) by (auto simp: inTree_def)
    then show ?thesis by (intro fileRow_eq [OF i c(1) f(1)] disjI2) (simp add: fileKey_def)
  qed
qed

lemma fileInv_pruned:
  assumes i: "fileInv d" and f: "f \<in> set (fcRows d)" "fPath f \<noteq> ''/''"
  shows "fileInv (pruned (fUserID f) (fPath f) d)"
proof (rule fileInvI)
  let ?d = "pruned (fUserID f) (fPath f) d"
  show "fcDown ?d = None" using fileInvD(1) [OF i] by (simp add: pruned_def)
  show "distinct (map fID (fcRows ?d))" "distinct (map fileKey (fcRows ?d))"
    using fileInvD(2,3) [OF i] by (auto simp: pruned_def distinct_map intro: inj_on_subset)
  fix r assume "r \<in> set (fcRows ?d)"
  then have r: "r \<in> set (fcRows d)" "\<not> inTree (fUserID f) (fPath f) r" by (auto simp: pruned_def)
  have "parentOK (fcRows ?d) r"
  proof (cases "fPath r = ''/''")
    case True then show ?thesis using fileParent(1) [OF i r(1)] by (simp add: parentOK_def)
  next
    case False
    then obtain p where p: "p \<in> set (fcRows d)" "fParentID r = Some (fID p)" "fUserID p = fUserID r" "fPath p = path_dir (fPath r)" "fIsDir p"
      using fileParent(2) [OF i r(1)] by blast
    then have "p \<in> set (fcRows ?d)" using inTree_parent(1) [OF i f r(1) p(2,1)] r(2) by (auto simp: pruned_def)
    then show ?thesis using False p by (auto simp: parentOK_def list_ex_iff)
  qed
  then show "0 < fID r \<and> fID r < fcNext ?d \<and> NormalizePath (fPath r) = Inr (fPath r) \<and> fKeyUUID r \<noteq> Some [] \<and> parentOK (fcRows ?d) r"
    using fileInvD(4) [OF i r(1)] by (simp add: pruned_def)
qed

lemma dirSizes_pruned:
  assumes i: "fileInv d" and ok: "dirSizesOK d u (\<lambda>q. False)" and f: "f \<in> set (fcRows d)" "fPath f \<noteq> ''/''" "fUserID f = u"
    and p: "p \<in> set (fcRows d)" "fParentID f = Some (fID p)"
  shows "dirSizesOK (pruned u (fPath f) d) u (\<lambda>q. onWay q (fPath p))"
  unfolding dirSizesOK_def
proof (intro ballI impI, elim conjE)
  let ?d = "pruned u (fPath f) d"
  fix g assume "g \<in> set (fcRows ?d)" "fIsDir g" "fUserID g = u" and w: "\<not> onWay (fPath g) (fPath p)"
  then have g: "g \<in> set (fcRows d)" "fIsDir g" "fUserID g = u" "\<not> inTree u (fPath f) g" by (auto simp: pruned_def)
  have "g \<noteq> p" using w by (auto simp: onWay_def)
  then have np: "fID g \<noteq> fID p" using fileRow_eq [OF i g(1) p(1)] by blast
  have "\<not> inTree u (fPath f) c" if c: "c \<in> set (fcRows d)" "fParentID c = Some (fID g)" for c
    using inTree_parent(2) [OF i f(1,2) c g(1)] g(4) p(2) c(2) np f(3) by auto
  then have "childrenOf ?d g = childrenOf d g" by (auto simp: childrenOf_def pruned_def)
  then show "sizeOK ?d g" using ok g by (auto simp: dirSizesOK_def sizeOK_def)
qed

end
