(* ===== verification/Storage_Local.thy ===== *)
theory Storage_Local
  imports Webdav_Types "HOL-Library.List_Lexorder" "HOL-Library.Char_ord"
begin

text \<open>
  Storage back ends: the interface \<open>Storage\<close> (\<^verbatim>\<open>src/internal/storage/storage.go\<close>) as a record of operations, and
  the back end on a local directory (\<^verbatim>\<open>src/internal/storage/localfs/localfs.go\<close>). The disk is the tree below the jail: a
  map from the segments of a path, relative to the jail, to a directory or the bytes of a file; the jail is
  the empty list. Nothing makes symbolic links there, so a path that exists is its own \<open>EvalSymlinks\<close>. System calls fail as
  POSIX and \<^verbatim>\<open>os.Rename\<close> say; quotas, limits on names and I/O errors are left out. The temporary file of a
  writer is not part of the state, since no other operation runs before its \<open>Close\<close>; what \<open>Close\<close> renames
  is all that was copied. Times of the disk are left out.
\<close>

section \<open>The interface\<close>

datatype storage_error =
  SErrNotFound | SErrExists | SErrNotEmpty | SErrIsDir | SErrNotDir | SErrInvalidPath | SErrOther string

type_synonym 'a storage_result = "storage_error + 'a"

record FileInfo =
  fiPath :: string
  fiSize :: int
  fiIsDir :: bool

text \<open>A writer is the key that \<open>Create\<close> was given; \<open>Close\<close> gets the bytes that were written to it.\<close>

record 's Storage =
  stStat :: "'s \<Rightarrow> string \<Rightarrow> FileInfo storage_result"
  stOpen :: "'s \<Rightarrow> string \<Rightarrow> string storage_result"
  stCreate :: "'s \<Rightarrow> string \<Rightarrow> 's \<times> unit storage_result"
  stClose :: "'s \<Rightarrow> string \<Rightarrow> string \<Rightarrow> 's \<times> unit storage_result"
  stDelete :: "'s \<Rightarrow> string \<Rightarrow> 's \<times> unit storage_result"
  stList :: "'s \<Rightarrow> string \<Rightarrow> FileInfo list storage_result"
  stRename :: "'s \<Rightarrow> string \<Rightarrow> string \<Rightarrow> 's \<times> unit storage_result"
  stMkdir :: "'s \<Rightarrow> string \<Rightarrow> 's \<times> unit storage_result"

definition mapStorage :: "storage_error \<Rightarrow> fs_error" where
  "mapStorage err = (case err of
      SErrNotFound \<Rightarrow> ErrNotFound
    | SErrExists \<Rightarrow> ErrExists
    | SErrNotDir \<Rightarrow> ErrNotDir
    | SErrIsDir \<Rightarrow> ErrIsDir
    | SErrInvalidPath \<Rightarrow> ErrForbidden
    | SErrNotEmpty \<Rightarrow> ErrOther ''storage: directory not empty''
    | SErrOther t \<Rightarrow> ErrOther t)"

section \<open>The disk\<close>

datatype dnode = DDir | DFile string

datatype errno = ENOENT | ENOTDIR | EEXIST | EINVAL

type_synonym disk = "(string list \<times> dnode) list"

definition errnoText :: "errno \<Rightarrow> string" where
  "errnoText e = (case e of ENOENT \<Rightarrow> ''no such file or directory'' | ENOTDIR \<Rightarrow> ''not a directory''
     | EEXIST \<Rightarrow> ''file exists'' | EINVAL \<Rightarrow> ''invalid argument'')"

text \<open>\<open>lstat\<close>: the walk from the jail.\<close>

fun walk :: "disk \<Rightarrow> string list \<Rightarrow> string list \<Rightarrow> errno + dnode" where
  "walk D pre [] = (case map_of D pre of None \<Rightarrow> Inl ENOENT | Some n \<Rightarrow> Inr n)"
| "walk D pre (s # rest) = (case map_of D pre of
      None \<Rightarrow> Inl ENOENT
    | Some (DFile _) \<Rightarrow> Inl ENOTDIR
    | Some DDir \<Rightarrow> walk D (pre @ [s]) rest)"

definition lstat :: "disk \<Rightarrow> string list \<Rightarrow> errno + dnode" where
  "lstat D segs = walk D [] segs"

definition readDir :: "disk \<Rightarrow> string list \<Rightarrow> string list" where
  "readDir D segs = sort (remdups (map last (filter (\<lambda>q. q \<noteq> [] \<and> butlast q = segs) (map fst D))))"

fun mkdirAll :: "disk \<Rightarrow> string list \<Rightarrow> string list \<Rightarrow> disk \<times> errno option" where
  "mkdirAll D pre rest = (case map_of D pre of
      Some (DFile _) \<Rightarrow> (D, Some ENOTDIR)
    | x \<Rightarrow> (let D' = (if x = None then AList.update pre DDir D else D)
           in case rest of [] \<Rightarrow> (D', None) | s # rest' \<Rightarrow> mkdirAll D' (pre @ [s]) rest'))"

definition atOrBelow :: "string list \<Rightarrow> string list \<Rightarrow> bool" where
  "atOrBelow a q \<longleftrightarrow> take (length a) q = a"

definition osRename :: "disk \<Rightarrow> string list \<Rightarrow> string list \<Rightarrow> disk \<times> errno option" where
  "osRename D from to = (case lstat D from of
      Inl e \<Rightarrow> (D, Some e)
    | Inr node \<Rightarrow> (case lstat D to of
        Inr DDir \<Rightarrow> (D, Some EEXIST)
      | Inr (DFile _) \<Rightarrow>
          if from = to then (D, None)
          else (case node of
              DDir \<Rightarrow> (D, Some ENOTDIR)
            | DFile c \<Rightarrow> (AList.update to (DFile c) (AList.delete from D), None))
      | Inl ENOENT \<Rightarrow>
          if atOrBelow from to then (D, Some EINVAL)
          else (map (\<lambda>(q, n). (if atOrBelow from q then to @ drop (length from) q else q, n)) D, None)
      | Inl e \<Rightarrow> (D, Some e)))"

section \<open>The back end\<close>

text \<open>
  The path below the jail. After the segments \<open>..\<close> are refused, \<open>Clean\<close> drops empty segments and \<open>.\<close> only, so
  the result is inside the jail.
\<close>

definition resolve :: "string \<Rightarrow> string list storage_result" where
  "resolve p =
     (if p = [] \<or> has_prefix p ''/'' then Inl SErrInvalidPath
      else let segs = split_byte p (CHR ''/'')
        in if ''..'' \<in> set segs then Inl SErrInvalidPath
           else Inr (filter (\<lambda>s. s \<noteq> [] \<and> s \<noteq> ''.'') segs))"

function confined :: "disk \<Rightarrow> string list \<Rightarrow> unit storage_result" where
  "confined D segs = (case lstat D segs of
      Inr _ \<Rightarrow> Inr ()
    | Inl ENOENT \<Rightarrow> if segs = [] then Inl SErrInvalidPath else confined D (butlast segs)
    | Inl _ \<Rightarrow> Inl SErrInvalidPath)"
  by pat_completeness auto
termination by (relation "measure (\<lambda>(D, segs). length segs)") auto

text \<open>The directory of a path; the directory of the jail itself is outside.\<close>

definition confinedDir :: "disk \<Rightarrow> string list \<Rightarrow> unit storage_result" where
  "confinedDir D segs = (if segs = [] then Inl SErrInvalidPath else confined D (butlast segs))"

definition mapExistErr :: "errno \<Rightarrow> storage_error" where
  "mapExistErr e = (if e = ENOENT then SErrNotFound else SErrOther (errnoText e))"

definition fileInfo :: "string \<Rightarrow> dnode \<Rightarrow> FileInfo" where
  "fileInfo p n = (case n of
      DDir \<Rightarrow> \<lparr>fiPath = p, fiSize = 0, fiIsDir = True\<rparr>
    | DFile c \<Rightarrow> \<lparr>fiPath = p, fiSize = int (length c), fiIsDir = False\<rparr>)"

definition lfStat :: "disk \<Rightarrow> string \<Rightarrow> FileInfo storage_result" where
  "lfStat D p = (case resolve p of
      Inl e \<Rightarrow> Inl e
    | Inr full \<Rightarrow> (case lstat D full of Inl e \<Rightarrow> Inl (mapExistErr e) | Inr n \<Rightarrow> Inr (fileInfo p n)))"

definition lfOpen :: "disk \<Rightarrow> string \<Rightarrow> string storage_result" where
  "lfOpen D p = (case resolve p of
      Inl e \<Rightarrow> Inl e
    | Inr full \<Rightarrow> (case confined D full of
        Inl e \<Rightarrow> Inl e
      | Inr _ \<Rightarrow> (case lstat D full of
          Inl e \<Rightarrow> Inl (mapExistErr e)
        | Inr DDir \<Rightarrow> Inl SErrIsDir
        | Inr (DFile c) \<Rightarrow> Inr c)))"

definition lfCreate :: "disk \<Rightarrow> string \<Rightarrow> disk \<times> unit storage_result" where
  "lfCreate D p = (case resolve p of
      Inl e \<Rightarrow> (D, Inl e)
    | Inr full \<Rightarrow> (case confinedDir D full of
        Inl e \<Rightarrow> (D, Inl e)
      | Inr _ \<Rightarrow> (case mkdirAll D [] (butlast full) of
          (D', Some e) \<Rightarrow> (D', Inl (SErrOther (''localfs: create dir: '' @ errnoText e)))
        | (D', None) \<Rightarrow> (D', Inr ()))))"

text \<open>\<open>atomicFile.Close\<close>: the temporary file with the bytes is renamed to the destination.\<close>

definition lfClose :: "disk \<Rightarrow> string \<Rightarrow> string \<Rightarrow> disk \<times> unit storage_result" where
  "lfClose D p content = (case resolve p of
      Inl e \<Rightarrow> (D, Inl e)
    | Inr full \<Rightarrow> (case lstat D full of
        Inr DDir \<Rightarrow> (D, Inl (SErrOther (errnoText EEXIST)))
      | _ \<Rightarrow> (AList.update full (DFile content) D, Inr ())))"

definition lfDelete :: "disk \<Rightarrow> string \<Rightarrow> disk \<times> unit storage_result" where
  "lfDelete D p = (case resolve p of
      Inl e \<Rightarrow> (D, Inl e)
    | Inr full \<Rightarrow> (case confined D full of
        Inl e \<Rightarrow> (D, Inl e)
      | Inr _ \<Rightarrow> (case lstat D full of
          Inl e \<Rightarrow> (D, Inl (mapExistErr e))
        | Inr n \<Rightarrow>
            if n = DDir \<and> readDir D full \<noteq> [] then (D, Inl SErrNotEmpty)
            else (AList.delete full D, Inr ()))))"

definition lfList :: "disk \<Rightarrow> string \<Rightarrow> FileInfo list storage_result" where
  "lfList D p = (case resolve p of
      Inl e \<Rightarrow> Inl e
    | Inr full \<Rightarrow> (case confined D full of
        Inl e \<Rightarrow> Inl e
      | Inr _ \<Rightarrow> (case lstat D full of
          Inl e \<Rightarrow> Inl (mapExistErr e)
        | Inr (DFile _) \<Rightarrow> Inl SErrNotDir
        | Inr DDir \<Rightarrow>
            Inr (map (\<lambda>name. fileInfo (path_clean (p @ ''/'' @ name)) (the (map_of D (full @ [name])))) (readDir D full)))))"

definition lfRename :: "disk \<Rightarrow> string \<Rightarrow> string \<Rightarrow> disk \<times> unit storage_result" where
  "lfRename D src dst = (case resolve src of
      Inl e \<Rightarrow> (D, Inl e)
    | Inr from \<Rightarrow> (case resolve dst of
        Inl e \<Rightarrow> (D, Inl e)
      | Inr to \<Rightarrow> (case confined D from of
          Inl e \<Rightarrow> (D, Inl e)
        | Inr _ \<Rightarrow> (case confinedDir D to of
            Inl e \<Rightarrow> (D, Inl e)
          | Inr _ \<Rightarrow> (case lstat D from of
              Inl e \<Rightarrow> (D, Inl (mapExistErr e))
            | Inr _ \<Rightarrow> (case mkdirAll D [] (butlast to) of
                (D', Some e) \<Rightarrow> (D', Inl (SErrOther (errnoText e)))
              | (D', None) \<Rightarrow> (case osRename D' from to of
                  (D'', Some e) \<Rightarrow> (D'', Inl (SErrOther (errnoText e)))
                | (D'', None) \<Rightarrow> (D'', Inr ()))))))))"

definition lfMkdir :: "disk \<Rightarrow> string \<Rightarrow> disk \<times> unit storage_result" where
  "lfMkdir D p = (case resolve p of
      Inl e \<Rightarrow> (D, Inl e)
    | Inr full \<Rightarrow> (case confinedDir D full of
        Inl e \<Rightarrow> (D, Inl e)
      | Inr _ \<Rightarrow> (case lstat D full of
          Inr _ \<Rightarrow> (D, Inl SErrExists)
        | Inl ENOENT \<Rightarrow> (case lstat D (butlast full) of
            Inr DDir \<Rightarrow> (AList.update full DDir D, Inr ())
          | _ \<Rightarrow> (D, Inl SErrNotFound))
        | Inl e \<Rightarrow> (D, Inl (SErrOther (errnoText e))))))"

definition localfs :: "disk Storage" where
  "localfs = \<lparr>stStat = lfStat, stOpen = lfOpen, stCreate = lfCreate, stClose = lfClose, stDelete = lfDelete,
     stList = lfList, stRename = lfRename, stMkdir = lfMkdir\<rparr>"

end
