(* ===== verification/Files_Dav.thy ===== *)
theory Files_Dav
  imports Files_Store Files_Lock Storage_Local
begin

text \<open>
  The operations of the database-backed file system (\<^verbatim>\<open>src/internal/files/dav.go\<close>, \<^verbatim>\<open>incoming.go\<close>, \<^verbatim>\<open>condwrite.go\<close>,
  \<^verbatim>\<open>activity.go\<close>) over the file cache, a storage back end and the other services of the adapter. The state
  holds the file cache, the storage, the lock table and, as one value, the state of the services that \<open>DAV\<close> only calls
  (properties, versions, shares, activity stream, event bus, remote shares). The configuration is the one without
  file name encryption: \<open>Meta\<close> is \<open>SQLStore\<close>, and \<open>DirKeys\<close>, \<open>Names\<close>, \<open>RawMeta\<close> and \<open>ShareResealer\<close> are nil, so \<open>checkNameBudget\<close>
  and \<open>shareKeyPath\<close> do nothing and shares of encrypted trees are refused. The writers of the storage seal under no
  per-file key, so that \<open>shareFileKey\<close> has nothing to do. An operation has one reading of the clock.
  The value of an operation is \<^const>\<open>None\<close> when it does not return.
\<close>

section \<open>Operations on the state\<close>

record ('s, 'd, 'h) davState =
  vMeta :: fileTable
  vStorage :: 's
  vLocks :: 'd
  vHooks :: 'h

type_synonym ('s, 'd, 'h, 'a) dav_op = "('s, 'd, 'h) davState \<Rightarrow> (('s, 'd, 'h) davState \<times> 'a result) option"

definition retOp :: "'a \<Rightarrow> ('s, 'd, 'h, 'a) dav_op" where
  "retOp x = (\<lambda>w. Some (w, Inr x))"

definition failOp :: "fs_error \<Rightarrow> ('s, 'd, 'h, 'a) dav_op" where
  "failOp e = (\<lambda>w. Some (w, Inl e))"

definition liftOp :: "'a result \<Rightarrow> ('s, 'd, 'h, 'a) dav_op" where
  "liftOp r = (\<lambda>w. Some (w, r))"

definition tryOp :: "('s, 'd, 'h, 'a) dav_op \<Rightarrow> ('a result \<Rightarrow> ('s, 'd, 'h, 'b) dav_op) \<Rightarrow> ('s, 'd, 'h, 'b) dav_op" where
  "tryOp m k = (\<lambda>w. case m w of None \<Rightarrow> None | Some (w', r) \<Rightarrow> k r w')"

definition thenOp :: "('s, 'd, 'h, 'a) dav_op \<Rightarrow> ('a \<Rightarrow> ('s, 'd, 'h, 'b) dav_op) \<Rightarrow> ('s, 'd, 'h, 'b) dav_op" where
  "thenOp m k = tryOp m (\<lambda>r. case r of Inl e \<Rightarrow> failOp e | Inr x \<Rightarrow> k x)"

text \<open>Calls of the file cache and of the storage; their results are values, to be inspected by the caller.\<close>

definition metaOp :: "(fileTable \<Rightarrow> fileTable \<times> 'a files_result) \<Rightarrow> ('s, 'd, 'h, 'a files_result) dav_op" where
  "metaOp f = (\<lambda>w. case f (vMeta w) of (d, r) \<Rightarrow> Some (w\<lparr>vMeta := d\<rparr>, Inr r))"

definition queryOp :: "(fileTable \<Rightarrow> 'a files_result) \<Rightarrow> ('s, 'd, 'h, 'a files_result) dav_op" where
  "queryOp f = metaOp (\<lambda>d. (d, f d))"

definition storeOp :: "('s \<Rightarrow> 's \<times> 'a storage_result) \<Rightarrow> ('s, 'd, 'h, 'a storage_result) dav_op" where
  "storeOp f = (\<lambda>w. case f (vStorage w) of (s, r) \<Rightarrow> Some (w\<lparr>vStorage := s\<rparr>, Inr r))"

definition hookOp :: "('h \<Rightarrow> 'h \<times> 'a result) \<Rightarrow> ('s, 'd, 'h, 'a) dav_op" where
  "hookOp f = (\<lambda>w. case f (vHooks w) of (h, r) \<Rightarrow> Some (w\<lparr>vHooks := h\<rparr>, r))"

definition mapped :: "('e \<Rightarrow> fs_error) \<Rightarrow> ('s, 'd, 'h, 'e + 'a) dav_op \<Rightarrow> ('s, 'd, 'h, 'a) dav_op" where
  "mapped f m = thenOp m (\<lambda>r. liftOp (map_sum f (\<lambda>x. x) r))"

section \<open>The adapter\<close>

record UserRow =
  usrID :: int
  usrQuotaBytes :: "int option"

datatype users_error = UErrNotFound | UErrOther string

record 'h PropertyStore =
  psGet :: "'h \<Rightarrow> int \<Rightarrow> string \<Rightarrow> string \<Rightarrow> string \<Rightarrow> string option"
  psSet :: "'h \<Rightarrow> int \<Rightarrow> string \<Rightarrow> string \<Rightarrow> string \<Rightarrow> string \<Rightarrow> 'h \<times> unit result"
  psRemove :: "'h \<Rightarrow> int \<Rightarrow> string \<Rightarrow> string \<Rightarrow> string \<Rightarrow> 'h \<times> unit result"
  psDeleteByPath :: "'h \<Rightarrow> int \<Rightarrow> string \<Rightarrow> 'h \<times> unit result"
  psRenamePath :: "'h \<Rightarrow> int \<Rightarrow> string \<Rightarrow> string \<Rightarrow> 'h \<times> unit result"
  psCopyPath :: "'h \<Rightarrow> int \<Rightarrow> string \<Rightarrow> string \<Rightarrow> 'h \<times> unit result"

record ('s, 'd, 'h) VersionService =
  vsSnapshot :: "string \<Rightarrow> File \<Rightarrow> ('s, 'd, 'h, unit) dav_op"
  vsDeleteByPath :: "string \<Rightarrow> string \<Rightarrow> ('s, 'd, 'h, unit) dav_op"
  vsRenamePath :: "string \<Rightarrow> string \<Rightarrow> string \<Rightarrow> ('s, 'd, 'h, unit) dav_op"

record 'h ShareStore =
  shDeleteByPath :: "'h \<Rightarrow> int \<Rightarrow> string \<Rightarrow> 'h \<times> unit result"
  shRenamePath :: "'h \<Rightarrow> int \<Rightarrow> string \<Rightarrow> string \<Rightarrow> 'h \<times> unit result"

record 'h RemoteFile =
  rfGet :: "'h \<Rightarrow> string \<Rightarrow> string \<Rightarrow> string \<Rightarrow> (string \<times> Entry) result"
  rfPropfind :: "'h \<Rightarrow> string \<Rightarrow> string \<Rightarrow> string \<Rightarrow> int \<Rightarrow> Entry list result"
  rfPut :: "'h \<Rightarrow> string \<Rightarrow> string \<Rightarrow> string \<Rightarrow> string \<times> string option \<Rightarrow> 'h \<times> Entry result"
  rfDelete :: "'h \<Rightarrow> string \<Rightarrow> string \<Rightarrow> string \<Rightarrow> 'h \<times> unit result"
  rfMkcol :: "'h \<Rightarrow> string \<Rightarrow> string \<Rightarrow> string \<Rightarrow> 'h \<times> unit result"

text \<open>The name material of an event of the activity stream: file id and name.\<close>

type_synonym activityName = "int \<times> string"

record ('s, 'd, 'h) davAdapter =
  aStorage :: "'s Storage"
  aUsers :: "string \<Rightarrow> users_error + UserRow"
  aNow :: int
  aSha1 :: "string \<Rightarrow> string"
  aSha256 :: "string \<Rightarrow> string"
  aLike :: "string \<Rightarrow> string \<Rightarrow> bool"
  aTrash :: "(string \<Rightarrow> string \<Rightarrow> ('s, 'd, 'h, unit) dav_op) option"
  aVersions :: "('s, 'd, 'h) VersionService option"
  aProps :: "'h PropertyStore option"
  aLocks :: "'d LockStore option"
  aShares :: "'h ShareStore option"
  aIncoming :: "('h \<Rightarrow> string \<Rightarrow> IncomingMount list files_result) option"
  aRemote :: "'h RemoteFile option"
  aLiveProps :: "('h \<Rightarrow> string \<Rightarrow> string \<Rightarrow> CustomProp list) option"
  aSetLiveProp :: "'h \<Rightarrow> string \<Rightarrow> string \<Rightarrow> string \<Rightarrow> string \<Rightarrow> string \<Rightarrow> 'h \<times> int option"
  aEvents :: "('h \<Rightarrow> string \<Rightarrow> string \<Rightarrow> int \<Rightarrow> bool \<Rightarrow> 'h) option"
  aActivity :: "('h \<Rightarrow> int \<Rightarrow> string \<Rightarrow> string \<Rightarrow> string \<Rightarrow> activityName \<Rightarrow> activityName option \<Rightarrow> 'h) option"

text \<open>What the lock operations of \<open>Files_Lock\<close> read of the adapter in a state.\<close>

definition lockView :: "('s, 'd, 'h) davAdapter \<Rightarrow> ('s, 'd, 'h) davState \<Rightarrow> 'd DAV" where
  "lockView a w = \<lparr>dLocks = aLocks a,
     dUser = (\<lambda>uid. case aUsers a uid of Inl UErrNotFound \<Rightarrow> Inl ErrForbidden | Inl (UErrOther t) \<Rightarrow> Inl (ErrOther t) | Inr u \<Rightarrow> Inr (usrID u)),
     dMetaByPath = fcGetByPath (vMeta w), dMetaByID = Some (fcGetByID (vMeta w)),
     dProps = map_option (\<lambda>ps. psGet ps (vHooks w)) (aProps a), dLiveProps = map_option (\<lambda>f. f (vHooks w)) (aLiveProps a),
     dIncoming = map_option (\<lambda>f. f (vHooks w)) (aIncoming a), dNewToken = None, dRandom = Inl ErrForbidden, dNow = aNow a,
     dStatRemote = (\<lambda>np m. Inl ErrNotImplemented), dStatCipher = (\<lambda>d np m. (d, Inl ErrNotImplemented)),
     dCheckCipher = (\<lambda>d m p h. (d, Inl ErrNotImplemented))\<rparr>"

definition entryOp :: "('s, 'd, 'h) davAdapter \<Rightarrow> int \<Rightarrow> File \<Rightarrow> ('s, 'd, 'h, Entry) dav_op" where
  "entryOp a u f = (\<lambda>w. case toEntry (lockView a w) (vLocks w) u f of (d, e) \<Rightarrow> Some (w\<lparr>vLocks := d\<rparr>, Inr e))"

definition incomingOp :: "('s, 'd, 'h) davAdapter \<Rightarrow> string \<Rightarrow> string \<Rightarrow> ('s, 'd, 'h, IncomingMount \<times> string) dav_op" where
  "incomingOp a user p = (\<lambda>w. Some (w, lookupIncoming (lockView a w) user p))"

text \<open>The error of every operation on a share of an encrypted tree in this configuration.\<close>

definition cipherMountSeams :: fs_error where
  "cipherMountSeams = ErrOther ''files: ciphertext share mount without the phase-3a name-translation wiring''"

section \<open>Users and homes\<close>

definition ensureHome :: "('s, 'd, 'h) davAdapter \<Rightarrow> string \<Rightarrow> ('s, 'd, 'h, unit) dav_op" where
  "ensureHome a uid = thenOp (storeOp (\<lambda>s. (s, stStat (aStorage a) s uid))) (\<lambda>r. case r of
      Inr _ \<Rightarrow> retOp ()
    | Inl e \<Rightarrow>
        if e \<noteq> SErrNotFound then failOp (mapStorage e)
        else thenOp (storeOp (\<lambda>s. stMkdir (aStorage a) s uid)) (\<lambda>r. case r of
            Inl e \<Rightarrow> if e \<noteq> SErrExists then failOp (mapStorage e) else retOp ()
          | Inr _ \<Rightarrow> retOp ()))"

definition usersErr :: "users_error \<Rightarrow> fs_error" where
  "usersErr e = (case e of UErrNotFound \<Rightarrow> ErrForbidden | UErrOther t \<Rightarrow> ErrOther t)"

definition davResolveUser :: "('s, 'd, 'h) davAdapter \<Rightarrow> string \<Rightarrow> ('s, 'd, 'h, UserRow) dav_op" where
  "davResolveUser a uid =
     (if uid = [] \<or> CHR ''/'' \<in> set uid \<or> uid = ''..'' then failOp ErrForbidden
      else case aUsers a uid of
          Inl e \<Rightarrow> failOp (usersErr e)
        | Inr u \<Rightarrow>
            thenOp (mapped rawErr (metaOp (\<lambda>d. EnsureRoot (aSha1 a) (aNow a) d (usrID u)))) (\<lambda>root.
            thenOp (ensureHome a uid) (\<lambda>_. retOp u)))"

definition davUsage :: "('s, 'd, 'h) davAdapter \<Rightarrow> string \<Rightarrow> ('s, 'd, 'h, int \<times> int option) dav_op" where
  "davUsage a user =
     thenOp (davResolveUser a user) (\<lambda>u.
     thenOp (mapped rawErr (queryOp (\<lambda>d. Usage d (usrID u)))) (\<lambda>n. retOp (n, usrQuotaBytes u)))"

definition getOp :: "int \<Rightarrow> string \<Rightarrow> ('s, 'd, 'h, File files_result) dav_op" where
  "getOp u p = queryOp (\<lambda>d. fcGetByPath d u p)"

definition recalcOp :: "('s, 'd, 'h) davAdapter \<Rightarrow> int \<Rightarrow> int option \<Rightarrow> int \<Rightarrow> ('s, 'd, 'h, unit) dav_op" where
  "recalcOp a u parent t = (\<lambda>w. case RecalcAncestors (aSha1 a) (aNow a) (vMeta w) u parent t of
      None \<Rightarrow> None
    | Some (d, r) \<Rightarrow> Some (w\<lparr>vMeta := d\<rparr>, map_sum rawErr (\<lambda>x. x) r))"

section \<open>The activity stream\<close>

text \<open>Scheme 0: the name is the plain one. A row that cannot be read skips the event.\<close>

definition captureActivityName :: "('s, 'd, 'h) davAdapter \<Rightarrow> bool \<Rightarrow> int \<Rightarrow> string \<Rightarrow> ('s, 'd, 'h) davState \<Rightarrow> activityName option" where
  "captureActivityName a muted owner p w =
     (if aActivity a = None \<or> owner = 0 \<or> muted then None
      else case fcGetByPath (vMeta w) owner p of Inl _ \<Rightarrow> None | Inr row \<Rightarrow> Some (fID row, fName row))"

definition emitActivity ::
  "('s, 'd, 'h) davAdapter \<Rightarrow> int \<Rightarrow> string \<Rightarrow> string \<Rightarrow> string \<Rightarrow> activityName \<Rightarrow> activityName option \<Rightarrow> ('s, 'd, 'h, unit) dav_op" where
  "emitActivity a owner actor typ template file old = (case aActivity a of
      None \<Rightarrow> retOp ()
    | Some ins \<Rightarrow> if owner = 0 then retOp () else hookOp (\<lambda>h. (ins h owner actor typ template file old, Inr ())))"

definition emitFileActivity ::
  "('s, 'd, 'h) davAdapter \<Rightarrow> bool \<Rightarrow> int \<Rightarrow> string \<Rightarrow> string \<Rightarrow> string \<Rightarrow> string \<Rightarrow> ('s, 'd, 'h, unit) dav_op" where
  "emitFileActivity a muted owner actor typ template p = (\<lambda>w. case captureActivityName a muted owner p w of
      None \<Rightarrow> Some (w, Inr ())
    | Some name \<Rightarrow> emitActivity a owner actor typ template name None w)"

section \<open>Reading\<close>

definition davStatOwned :: "('s, 'd, 'h) davAdapter \<Rightarrow> string \<Rightarrow> string \<Rightarrow> ('s, 'd, 'h, Entry) dav_op" where
  "davStatOwned a user p =
     thenOp (davResolveUser a user) (\<lambda>u.
     thenOp (mapped mapMeta (getOp (usrID u) p)) (entryOp a (usrID u)))"

primrec mapOp :: "('a \<Rightarrow> ('s, 'd, 'h, 'b) dav_op) \<Rightarrow> 'a list \<Rightarrow> ('s, 'd, 'h, 'b list) dav_op" where
  "mapOp f [] = retOp []"
| "mapOp f (x # xs) = thenOp (f x) (\<lambda>y. thenOp (mapOp f xs) (\<lambda>ys. retOp (y # ys)))"

definition davListOwned :: "('s, 'd, 'h) davAdapter \<Rightarrow> string \<Rightarrow> string \<Rightarrow> ('s, 'd, 'h, Entry list) dav_op" where
  "davListOwned a user p =
     thenOp (davResolveUser a user) (\<lambda>u.
     thenOp (mapped mapMeta (getOp (usrID u) p)) (\<lambda>dir.
     if \<not> fIsDir dir then failOp ErrNotDir
     else thenOp (mapped mapKeyLocked (queryOp (\<lambda>d. fcListChildren d (usrID u) (fID dir)))) (mapOp (entryOp a (usrID u)))))"

definition readOwned :: "('s, 'd, 'h) davAdapter \<Rightarrow> string \<Rightarrow> string \<Rightarrow> Entry \<Rightarrow> ('s, 'd, 'h, string \<times> Entry) dav_op" where
  "readOwned a user p e =
     (if eIsDir e then failOp ErrIsDir
      else thenOp (liftOp (storageKey user p)) (\<lambda>key.
        thenOp (mapped mapStorage (storeOp (\<lambda>s. (s, stOpen (aStorage a) s key)))) (\<lambda>rc. retOp (rc, e))))"

section \<open>Remote shares\<close>

definition applyRemoteMeta :: "IncomingMount \<Rightarrow> string \<Rightarrow> Entry \<Rightarrow> Entry" where
  "applyRemoteMeta m requestPath e = e\<lparr>ePath := requestPath, ePermissions := imPermissions m, eShareable := False,
     eMounted := True, eShared := True, eETag := (if eETag e = [] then ''ocm-remote'' else eETag e)\<rparr>"

definition remoteEntry :: "IncomingMount \<Rightarrow> string \<Rightarrow> Entry" where
  "remoteEntry m requestPath = applyRemoteMeta m requestPath (zeroEntry\<lparr>eIsDir := (imItemType m = ''folder''), eSize := 0, eETag := ''ocm-remote''\<rparr>)"

definition remoteRel :: "IncomingMount \<Rightarrow> string \<Rightarrow> string option" where
  "remoteRel m np =
     (if imItemType m = ''file'' then (if np \<noteq> imMount m then None else Some ''/'')
      else if np = imMount m then Some ''/''
      else if \<not> has_prefix np (imMount m @ ''/'') then None
      else Some (trim_prefix np (imMount m)))"

definition skipRemoteSelf :: "Entry \<Rightarrow> bool" where
  "skipRemoteSelf e \<longleftrightarrow> trim_set (ePath e) ''/'' = []"

text \<open>An entry without a time gets the clock.\<close>

definition remoteTime :: "('s, 'd, 'h) davAdapter \<Rightarrow> Entry \<Rightarrow> Entry" where
  "remoteTime a e = (if eModTime e = zeroTime then e\<lparr>eModTime := aNow a\<rparr> else e)"

text \<open>The guard of the remote operations: a client, an origin and a token.\<close>

definition remoteOf :: "('s, 'd, 'h) davAdapter \<Rightarrow> IncomingMount \<Rightarrow> 'h RemoteFile option" where
  "remoteOf a m = (if imRemoteOrigin m = [] \<or> imRemoteToken m = [] then None else aRemote a)"

definition permits :: "IncomingMount \<Rightarrow> int \<Rightarrow> bool" where
  "permits m need \<longleftrightarrow> has_perm (imPermissions m) need"

definition readRemote :: "('s, 'd, 'h) davAdapter \<Rightarrow> string \<Rightarrow> IncomingMount \<Rightarrow> ('s, 'd, 'h, string \<times> Entry) dav_op" where
  "readRemote a np m =
     (if imItemType m = ''folder'' \<and> np = imMount m then failOp ErrIsDir
      else case remoteOf a m of
          None \<Rightarrow> failOp ErrNotImplemented
        | Some rf \<Rightarrow> (case remoteRel m np of
            None \<Rightarrow> failOp ErrNotFound
          | Some rel \<Rightarrow>
              if \<not> permits m PermRead then failOp ErrForbidden
              else thenOp (hookOp (\<lambda>h. (h, rfGet rf h (imRemoteOrigin m) (imRemoteToken m) rel))) (\<lambda>(rc, ent).
                retOp (rc, (remoteTime a (applyRemoteMeta m np ent))\<lparr>eIsDir := False\<rparr>))))"

definition statRemote :: "('s, 'd, 'h) davAdapter \<Rightarrow> string \<Rightarrow> IncomingMount \<Rightarrow> ('s, 'd, 'h, Entry) dav_op" where
  "statRemote a np m =
     (if np = imMount m then retOp (remoteTime a (remoteEntry m ''/''))
      else case remoteOf a m of
          None \<Rightarrow> failOp ErrNotImplemented
        | Some rf \<Rightarrow> (case remoteRel m np of
            None \<Rightarrow> failOp ErrNotFound
          | Some rel \<Rightarrow>
              if \<not> permits m PermRead then failOp ErrForbidden
              else thenOp (hookOp (\<lambda>h. (h, rfPropfind rf h (imRemoteOrigin m) (imRemoteToken m) rel 0))) (\<lambda>ents. case ents of
                  [] \<Rightarrow> failOp ErrNotFound
                | e # _ \<Rightarrow> retOp (remoteTime a (applyRemoteMeta m (if eIsDir e then ''/'' else np) e)))))"

definition listRemote :: "('s, 'd, 'h) davAdapter \<Rightarrow> string \<Rightarrow> IncomingMount \<Rightarrow> ('s, 'd, 'h, Entry list) dav_op" where
  "listRemote a np m =
     (if imItemType m \<noteq> ''folder'' then failOp ErrNotDir
      else case remoteOf a m of
          None \<Rightarrow> failOp ErrNotImplemented
        | Some rf \<Rightarrow> (case remoteRel m np of
            None \<Rightarrow> failOp ErrNotFound
          | Some rel \<Rightarrow>
              if \<not> permits m PermRead then failOp ErrForbidden
              else thenOp (hookOp (\<lambda>h. (h, rfPropfind rf h (imRemoteOrigin m) (imRemoteToken m) rel 1))) (\<lambda>ents.
                retOp (map (\<lambda>e. remoteTime a (applyRemoteMeta m (''/'' @ path_base (ePath e)) e))
                  (filter (\<lambda>e. \<not> skipRemoteSelf e \<and> path_base (ePath e) \<notin> set ['''', ''.'', ''/'']) ents)))))"

section \<open>Own tree, incoming shares and remote shares\<close>

definition pathJoin :: "string \<Rightarrow> string \<Rightarrow> string" where
  "pathJoin x y = (if x = [] then (if y = [] then [] else path_clean y) else if y = [] then path_clean x else path_clean (x @ ''/'' @ y))"

definition davStatMaybeIncoming :: "('s, 'd, 'h) davAdapter \<Rightarrow> string \<Rightarrow> string \<Rightarrow> ('s, 'd, 'h, Entry) dav_op" where
  "davStatMaybeIncoming a user p = tryOp (davStatOwned a user p) (\<lambda>r. case r of
      Inr e \<Rightarrow> retOp e
    | Inl err \<Rightarrow>
        if err \<noteq> ErrNotFound then failOp err
        else case NormalizePath p of
            Inl e \<Rightarrow> failOp (mapMeta e)
          | Inr np \<Rightarrow> thenOp (incomingOp a user np) (\<lambda>(m, ownerPath).
              if imRemote m then statRemote a np m
              else if imOwnerCipherPath m \<noteq> [] then failOp cipherMountSeams
              else thenOp (davStatOwned a (imOwnerUID m) ownerPath) (\<lambda>e. retOp (incomingEntry e np (imPermissions m)))))"

definition liveOp :: "('s, 'd, 'h) davAdapter \<Rightarrow> string \<Rightarrow> Entry \<Rightarrow> ('s, 'd, 'h, Entry) dav_op" where
  "liveOp a user e = (\<lambda>w. Some (w, Inr (attachLiveProps (lockView a w) user e)))"

definition davStatOp :: "('s, 'd, 'h) davAdapter \<Rightarrow> string \<Rightarrow> string \<Rightarrow> ('s, 'd, 'h, Entry) dav_op" where
  "davStatOp a user p = thenOp (davStatMaybeIncoming a user p) (liveOp a user)"

text \<open>The loop over the mounts: names that are already taken hide a mount.\<close>

primrec mergeMounts ::
  "('s, 'd, 'h) davAdapter \<Rightarrow> string list \<Rightarrow> Entry list \<Rightarrow> IncomingMount list \<Rightarrow> ('s, 'd, 'h, Entry list) dav_op" where
  "mergeMounts a seen out [] = retOp out"
| "mergeMounts a seen out (m # ms) =
     (let name = path_base (imMount m) in
      if name = [] \<or> name = ''/'' \<or> name \<in> set seen then mergeMounts a seen out ms
      else if imRemote m then mergeMounts a (name # seen) (out @ [remoteEntry m (imMount m)]) ms
      else tryOp (if imOwnerCipherPath m \<noteq> [] then failOp cipherMountSeams else davStatOwned a (imOwnerUID m) (imOwnerPath m)) (\<lambda>r. case r of
          Inl err \<Rightarrow> if err = ErrNotFound then mergeMounts a seen out ms else failOp err
        | Inr ent \<Rightarrow> mergeMounts a (name # seen) (out @ [incomingEntry ent (imMount m) (imPermissions m)]) ms))"

definition mergeIncomingRoot :: "('s, 'd, 'h) davAdapter \<Rightarrow> string \<Rightarrow> Entry list \<Rightarrow> ('s, 'd, 'h, Entry list) dav_op" where
  "mergeIncomingRoot a user own = (case aIncoming a of
      None \<Rightarrow> retOp own
    | Some listIncoming \<Rightarrow> (\<lambda>w. case listIncoming (vHooks w) user of
          Inl e \<Rightarrow> Some (w, Inl (rawErr e))
        | Inr mounts \<Rightarrow> mergeMounts a (map (\<lambda>e. path_base (ePath e)) own) own mounts w))"

definition davListMaybeIncoming :: "('s, 'd, 'h) davAdapter \<Rightarrow> string \<Rightarrow> string \<Rightarrow> ('s, 'd, 'h, Entry list) dav_op" where
  "davListMaybeIncoming a user p = (case NormalizePath p of
      Inl e \<Rightarrow> failOp (mapMeta e)
    | Inr np \<Rightarrow> tryOp (davListOwned a user np) (\<lambda>r. case r of
        Inr out \<Rightarrow> if np = ''/'' then mergeIncomingRoot a user out else retOp out
      | Inl err \<Rightarrow>
          if err \<noteq> ErrNotFound then failOp err
          else thenOp (incomingOp a user np) (\<lambda>(m, ownerPath).
            if imRemote m then listRemote a np m
            else if imOwnerCipherPath m \<noteq> [] then failOp cipherMountSeams
            else thenOp (davListOwned a (imOwnerUID m) ownerPath) (\<lambda>children.
              retOp (map (\<lambda>c. incomingEntry c (pathJoin (imMount m) (trim_prefix (trim_prefix (ePath c) (imOwnerPath m)) ''/''))
                (imPermissions m)) children)))))"

definition davListOp :: "('s, 'd, 'h) davAdapter \<Rightarrow> string \<Rightarrow> string \<Rightarrow> ('s, 'd, 'h, Entry list) dav_op" where
  "davListOp a user p = thenOp (davListMaybeIncoming a user p) (mapOp (liveOp a user))"

definition davReadMaybeIncoming :: "('s, 'd, 'h) davAdapter \<Rightarrow> string \<Rightarrow> string \<Rightarrow> ('s, 'd, 'h, string \<times> Entry) dav_op" where
  "davReadMaybeIncoming a user p = (case NormalizePath p of
      Inl e \<Rightarrow> failOp (mapMeta e)
    | Inr np \<Rightarrow> tryOp (davStatOwned a user np) (\<lambda>r. case r of
        Inr e \<Rightarrow> readOwned a user np e
      | Inl err \<Rightarrow>
          if err \<noteq> ErrNotFound then failOp err
          else thenOp (incomingOp a user np) (\<lambda>(m, ownerPath).
            if imRemote m then readRemote a np m
            else if \<not> permits m PermRead then failOp ErrForbidden
            else if imOwnerCipherPath m \<noteq> [] then failOp cipherMountSeams
            else thenOp (davStatOwned a (imOwnerUID m) ownerPath) (\<lambda>e.
              thenOp (readOwned a (imOwnerUID m) ownerPath e) (\<lambda>(rc, _). retOp (rc, incomingEntry e np (imPermissions m)))))))"

definition davReadOp :: "('s, 'd, 'h) davAdapter \<Rightarrow> string \<Rightarrow> string \<Rightarrow> ('s, 'd, 'h, string \<times> Entry) dav_op" where
  "davReadOp a user p = thenOp (davReadMaybeIncoming a user p) (\<lambda>(rc, e). thenOp (liveOp a user e) (\<lambda>e. retOp (rc, e)))"

section \<open>Writing\<close>

text \<open>A reader is the bytes it delivers and the error that ends it, if any.\<close>

type_synonym reader = "string \<times> string option"

text \<open>\<open>errors.Join\<close> of a cause with a storage error: the sentinels of the webdav package that it matches are those of the cause.\<close>

definition storageText :: "storage_error \<Rightarrow> string" where
  "storageText e = (case e of
      SErrNotFound \<Rightarrow> ''storage: not found'' | SErrExists \<Rightarrow> ''storage: already exists''
    | SErrNotEmpty \<Rightarrow> ''storage: directory not empty'' | SErrIsDir \<Rightarrow> ''storage: is a directory''
    | SErrNotDir \<Rightarrow> ''storage: not a directory'' | SErrInvalidPath \<Rightarrow> ''storage: invalid path'' | SErrOther t \<Rightarrow> t)"

definition joinErr :: "fs_error \<Rightarrow> storage_error \<Rightarrow> fs_error" where
  "joinErr cause e = (case cause of ErrOther t \<Rightarrow> ErrOther (t @ CHR 0x0A # storageText e) | _ \<Rightarrow> cause)"

definition compensateDelete :: "('s, 'd, 'h) davAdapter \<Rightarrow> string \<Rightarrow> fs_error \<Rightarrow> ('s, 'd, 'h, 'a) dav_op" where
  "compensateDelete a key cause = thenOp (storeOp (\<lambda>s. stDelete (aStorage a) s key)) (\<lambda>r. case r of
      Inl e \<Rightarrow> failOp (if e \<noteq> SErrNotFound then joinErr cause e else cause)
    | Inr _ \<Rightarrow> failOp cause)"

definition snapshotOp :: "('s, 'd, 'h) davAdapter \<Rightarrow> bool \<Rightarrow> string \<Rightarrow> File option \<Rightarrow> ('s, 'd, 'h, unit) dav_op" where
  "snapshotOp a snapshot user existing = (case (existing, aVersions a) of
      (Some f, Some vs) \<Rightarrow>
        if snapshot then vsSnapshot vs user f else retOp ()
    | _ \<Rightarrow> retOp ())"

definition newFile :: "int \<Rightarrow> string \<Rightarrow> bool \<Rightarrow> int \<Rightarrow> int \<Rightarrow> string \<Rightarrow> string \<Rightarrow> File" where
  "newFile u np isDir sz mt checksum mime = \<lparr>fID = 0, fUserID = u, fParentID = None, fName = [], fPath = np, fIsDir = isDir,
     fSize = sz, fMtime = mt, fETag = [], fChecksum = checksum, fMIME = mime, fPermissions = PermAll, fKeyUUID = None, fNameScheme = 0\<rparr>"

text \<open>The row after the bytes are stored: a new one, or the old one with new size, time, checksum and entity tag.\<close>

definition writeRow ::
  "('s, 'd, 'h) davAdapter \<Rightarrow> int \<Rightarrow> string \<Rightarrow> string \<Rightarrow> int \<Rightarrow> WriteCond option \<Rightarrow> File option \<Rightarrow> ('s, 'd, 'h, File files_result) dav_op" where
  "writeRow a u np body mt cond existing =
     (let n = int (length body); checksum = ''SHA256:'' @ aSha256 a body in
      case existing of
        None \<Rightarrow> metaOp (\<lambda>d. fileInsert (aSha1 a) (aNow a) d (newFile u np False n mt checksum ''application/octet-stream''))
      | Some ex \<Rightarrow>
          (let ex' = ex\<lparr>fSize := n, fMtime := mt, fChecksum := checksum, fETag := ComputeFileETag (aSha1 a) (fID ex) mt n, fKeyUUID := None\<rparr> in
           thenOp (metaOp (\<lambda>d. if cond = None then UpdateMeta d ex' else UpdateMetaIfETag d ex' (fETag ex))) (\<lambda>r.
           retOp (map_sum (\<lambda>e. e) (\<lambda>_. ex') r))))"

text \<open>The end of \<open>write\<close>: ancestors, activity, entry.\<close>

definition writeTail ::
  "('s, 'd, 'h) davAdapter \<Rightarrow> bool \<Rightarrow> string \<Rightarrow> int \<Rightarrow> string \<Rightarrow> int \<Rightarrow> bool \<Rightarrow> File \<Rightarrow> ('s, 'd, 'h, Entry \<times> bool) dav_op" where
  "writeTail a muted actor u np mt created f =
     thenOp (recalcOp a u (fParentID f) mt) (\<lambda>_.
     thenOp (mapped mapMeta (getOp u np)) (\<lambda>got.
     thenOp (if created then emitFileActivity a muted u actor ''file_created'' ''{actor} created {file}'' np
       else emitFileActivity a muted u actor ''file_changed'' ''{actor} changed {file}'' np) (\<lambda>_.
     thenOp (entryOp a u got) (\<lambda>e. retOp (e, created)))))"

text \<open>The second half of \<open>write\<close>: storage, row, the rest.\<close>

definition writeStore ::
  "('s, 'd, 'h) davAdapter \<Rightarrow> bool \<Rightarrow> string \<Rightarrow> string \<Rightarrow> int \<Rightarrow> string \<Rightarrow> reader \<Rightarrow> int option \<Rightarrow> WriteCond option \<Rightarrow> File option
    \<Rightarrow> ('s, 'd, 'h, Entry \<times> bool) dav_op" where
  "writeStore a muted actor user u np r mtime cond existing =
     thenOp (liftOp (storageKey user np)) (\<lambda>key.
     thenOp (mapped mapStorage (storeOp (\<lambda>s. stCreate (aStorage a) s key))) (\<lambda>_.
     thenOp (storeOp (\<lambda>s. stClose (aStorage a) s key (fst r))) (\<lambda>closed.
     case (snd r, closed) of
       (Some copyErr, _) \<Rightarrow> compensateDelete a key (ErrOther copyErr)
     | (None, Inl closeErr) \<Rightarrow> compensateDelete a key (ErrOther (storageText closeErr))
     | (None, Inr _) \<Rightarrow>
         (let mt = (case mtime of None \<Rightarrow> aNow a | Some t \<Rightarrow> t) in
          thenOp (writeRow a u np (fst r) mt cond existing) (\<lambda>row. case row of
            Inl e \<Rightarrow> compensateDelete a key (mapMeta e)
          | Inr f \<Rightarrow> writeTail a muted actor u np mt (existing = None) f)))))"

definition davWrite ::
  "('s, 'd, 'h) davAdapter \<Rightarrow> bool \<Rightarrow> string \<Rightarrow> string \<Rightarrow> string \<Rightarrow> reader \<Rightarrow> int option \<Rightarrow> bool \<Rightarrow> WriteCond option
    \<Rightarrow> ('s, 'd, 'h, Entry \<times> bool) dav_op" where
  "davWrite a muted actor user p r mtime snapshot cond =
     thenOp (davResolveUser a user) (\<lambda>usr. case NormalizePath p of
         Inl e \<Rightarrow> failOp (mapMeta e)
       | Inr np \<Rightarrow>
           if np = ''/'' then failOp ErrIsDir
           else thenOp (mapped mapMeta (getOp (usrID usr) (parentDir np))) (\<lambda>parent.
             if \<not> fIsDir parent then failOp ErrNotDir
             else thenOp (getOp (usrID usr) np) (\<lambda>found. case found of
                 Inl err \<Rightarrow>
                   if err \<noteq> FErrNotFound then failOp (mapMeta err)
                   else (case Evaluate cond False [] of
                       Some e \<Rightarrow> failOp e
                     | None \<Rightarrow> writeStore a muted actor user (usrID usr) np r mtime cond None)
               | Inr existing \<Rightarrow>
                   if fIsDir existing then failOp ErrIsDir
                   else (case Evaluate cond True (fETag existing) of
                       Some e \<Rightarrow> failOp e
                     | None \<Rightarrow> thenOp (snapshotOp a snapshot user (Some existing)) (\<lambda>_.
                         writeStore a muted actor user (usrID usr) np r mtime cond (Some existing))))))"

definition writeRemote :: "('s, 'd, 'h) davAdapter \<Rightarrow> string \<Rightarrow> IncomingMount \<Rightarrow> reader \<Rightarrow> ('s, 'd, 'h, Entry \<times> bool) dav_op" where
  "writeRemote a np m r = (case remoteOf a m of
      None \<Rightarrow> failOp ErrNotImplemented
    | Some rf \<Rightarrow> (case remoteRel m np of
        None \<Rightarrow> failOp ErrIsDir
      | Some rel \<Rightarrow>
          if imItemType m = ''folder'' \<and> np = imMount m then failOp ErrIsDir
          else tryOp (statRemote a np m) (\<lambda>st.
            if (case st of Inl e \<Rightarrow> e \<noteq> ErrNotFound \<and> e \<noteq> ErrNotImplemented | Inr _ \<Rightarrow> False) then liftOp (map_sum (\<lambda>e. e) (\<lambda>e. (e, False)) st)
            else (let created = (st = Inl ErrNotFound) in
              if \<not> permits m (if created then PermCreate else PermUpdate) then failOp ErrForbidden
              else thenOp (hookOp (\<lambda>h. rfPut rf h (imRemoteOrigin m) (imRemoteToken m) rel r)) (\<lambda>ent.
                retOp (remoteTime a (applyRemoteMeta m np ent), created))))))"

text \<open>The permission that a write through a share needs, from the target in the owner's tree.\<close>

definition needOf :: "'a result \<Rightarrow> int result" where
  "needOf r = (case r of Inl e \<Rightarrow> if e = ErrNotFound then Inr PermCreate else Inl e | Inr _ \<Rightarrow> Inr PermUpdate)"

definition writeConditional ::
  "('s, 'd, 'h) davAdapter \<Rightarrow> bool \<Rightarrow> string \<Rightarrow> string \<Rightarrow> reader \<Rightarrow> int option \<Rightarrow> bool \<Rightarrow> WriteCond option
    \<Rightarrow> ('s, 'd, 'h, Entry \<times> bool) dav_op" where
  "writeConditional a muted user p r mtime snapshot cond = (case NormalizePath p of
      Inl e \<Rightarrow> failOp (mapMeta e)
    | Inr np \<Rightarrow> tryOp (davStatOwned a user np) (\<lambda>st. case st of
        Inr _ \<Rightarrow> davWrite a muted user user np r mtime snapshot cond
      | Inl serr \<Rightarrow>
          if serr \<noteq> ErrNotFound then failOp serr
          else tryOp (incomingOp a user np) (\<lambda>lk. case lk of
              Inl lerr \<Rightarrow> if lerr = ErrForbidden then failOp lerr else davWrite a muted user user np r mtime snapshot cond
            | Inr (m, ownerPath) \<Rightarrow>
                if imRemote m then writeRemote a np m r
                else if imOwnerCipherPath m \<noteq> [] then failOp cipherMountSeams
                else tryOp (davStatOwned a (imOwnerUID m) ownerPath) (\<lambda>ost. case needOf ost of
                    Inl e \<Rightarrow> failOp e
                  | Inr need \<Rightarrow>
                      if \<not> permits m need then failOp ErrForbidden
                      else thenOp (davWrite a muted user (imOwnerUID m) ownerPath r mtime snapshot cond) (\<lambda>(ent, created).
                        retOp (incomingEntry ent np (imPermissions m), created))))))"

definition emitUploaded :: "('s, 'd, 'h) davAdapter \<Rightarrow> string \<Rightarrow> Entry \<Rightarrow> bool \<Rightarrow> ('s, 'd, 'h, unit) dav_op" where
  "emitUploaded a user ent created = (case aEvents a of
      None \<Rightarrow> retOp ()
    | Some publish \<Rightarrow> hookOp (\<lambda>h. (publish h user (ePath ent) (eSize ent) created, Inr ())))"

definition davWriteIf ::
  "('s, 'd, 'h) davAdapter \<Rightarrow> bool \<Rightarrow> string \<Rightarrow> string \<Rightarrow> reader \<Rightarrow> int option \<Rightarrow> WriteCond option \<Rightarrow> ('s, 'd, 'h, Entry \<times> bool) dav_op" where
  "davWriteIf a muted user p r mtime cond =
     thenOp (writeConditional a muted user p r mtime True cond) (\<lambda>(ent, created).
     thenOp (emitUploaded a user ent created) (\<lambda>_. retOp (ent, created)))"

section \<open>Directories\<close>

definition mkdirOwned :: "('s, 'd, 'h) davAdapter \<Rightarrow> bool \<Rightarrow> string \<Rightarrow> string \<Rightarrow> string \<Rightarrow> ('s, 'd, 'h, Entry) dav_op" where
  "mkdirOwned a muted actor user p =
     thenOp (davResolveUser a user) (\<lambda>usr. case NormalizePath p of
         Inl e \<Rightarrow> failOp (mapMeta e)
       | Inr np \<Rightarrow>
           if np = ''/'' then failOp ErrExists
           else thenOp (liftOp (storageKey user np)) (\<lambda>key.
             thenOp (storeOp (\<lambda>s. stMkdir (aStorage a) s key)) (\<lambda>made.
             if (case made of Inl e \<Rightarrow> e \<noteq> SErrExists | Inr _ \<Rightarrow> False)
             then failOp (case made of Inl SErrNotFound \<Rightarrow> ErrParentMissing | Inl e \<Rightarrow> mapStorage e | Inr _ \<Rightarrow> ErrExists)
             else thenOp (metaOp (\<lambda>d. fileInsert (aSha1 a) (aNow a) d (newFile (usrID usr) np True 0 (aNow a) [] ''httpd/unix-directory''))) (\<lambda>ins.
               case ins of
                 Inl e \<Rightarrow> compensateDelete a key (mapMeta e)
               | Inr f \<Rightarrow>
                   thenOp (recalcOp a (usrID usr) (fParentID f) (aNow a)) (\<lambda>_.
                   thenOp (mapped mapMeta (getOp (usrID usr) np)) (\<lambda>got.
                   thenOp (emitFileActivity a muted (usrID usr) actor ''file_created'' ''{actor} created {file}'' np) (\<lambda>_.
                   entryOp a (usrID usr) got)))))))"

definition mkdirRemote :: "('s, 'd, 'h) davAdapter \<Rightarrow> string \<Rightarrow> IncomingMount \<Rightarrow> ('s, 'd, 'h, Entry) dav_op" where
  "mkdirRemote a np m = (case remoteOf a m of
      None \<Rightarrow> failOp ErrNotImplemented
    | Some rf \<Rightarrow>
        if np = imMount m then failOp ErrForbidden
        else (case remoteRel m np of
          None \<Rightarrow> failOp ErrNotFound
        | Some rel \<Rightarrow>
            if \<not> permits m PermCreate then failOp ErrForbidden
            else thenOp (hookOp (\<lambda>h. rfMkcol rf h (imRemoteOrigin m) (imRemoteToken m) rel)) (\<lambda>_.
              retOp (remoteTime a (applyRemoteMeta m np (zeroEntry\<lparr>eIsDir := True\<rparr>))))))"

definition davMkdir :: "('s, 'd, 'h) davAdapter \<Rightarrow> bool \<Rightarrow> string \<Rightarrow> string \<Rightarrow> ('s, 'd, 'h, Entry) dav_op" where
  "davMkdir a muted user p = (case NormalizePath p of
      Inl e \<Rightarrow> failOp (mapMeta e)
    | Inr np \<Rightarrow> tryOp (incomingOp a user np) (\<lambda>lk. case lk of
        Inl lerr \<Rightarrow> if lerr = ErrForbidden then failOp lerr else mkdirOwned a muted user user np
      | Inr (m, ownerPath) \<Rightarrow>
          if imRemote m then mkdirRemote a np m
          else if \<not> permits m PermCreate then failOp ErrForbidden
          else if imOwnerCipherPath m \<noteq> [] then failOp cipherMountSeams
          else thenOp (mkdirOwned a muted user (imOwnerUID m) ownerPath) (\<lambda>e. retOp (incomingEntry e np (imPermissions m)))))"

section \<open>Deletion\<close>

text \<open>
  \<open>collect\<close>: the rows below a directory in preorder. The recursion over the children is a list of rows to visit, with the
  children of a directory put in front of it.
\<close>

definition childRows :: "fileTable \<Rightarrow> int \<Rightarrow> File \<Rightarrow> File list files_result" where
  "childRows d u c = (if fIsDir c then fcListChildren d u (fID c) else Inr [])"

partial_function (option) collectFrom :: "fileTable \<Rightarrow> int \<Rightarrow> File list \<Rightarrow> File list \<Rightarrow> File list files_result option" where
  "collectFrom d u out todo =
     (if todo = [] then Some (Inr out)
      else case childRows d u (hd todo) of
          Inl e \<Rightarrow> Some (Inl e)
        | Inr cs \<Rightarrow> collectFrom d u (out @ [hd todo]) (cs @ tl todo))"

definition collect :: "fileTable \<Rightarrow> int \<Rightarrow> int \<Rightarrow> File list files_result option" where
  "collect d u parentID = (case fcListChildren d u parentID of Inl e \<Rightarrow> Some (Inl e) | Inr cs \<Rightarrow> collectFrom d u [] cs)"

text \<open>The loop over the nodes, deepest path first; nodes with paths of equal length stay in the order of \<open>collect\<close>.\<close>

primrec purgeNodes :: "('s, 'd, 'h) davAdapter \<Rightarrow> string \<Rightarrow> File list \<Rightarrow> ('s, 'd, 'h, unit) dav_op" where
  "purgeNodes a user [] = retOp ()"
| "purgeNodes a user (n # ns) =
     thenOp (liftOp (storageKey user (fPath n))) (\<lambda>key.
     thenOp (storeOp (\<lambda>s. stDelete (aStorage a) s key)) (\<lambda>r. case r of
         Inl e \<Rightarrow> if e \<noteq> SErrNotFound \<and> e \<noteq> SErrNotEmpty then failOp (mapStorage e) else purgeNodes a user ns
       | Inr _ \<Rightarrow> purgeNodes a user ns))"

definition versionsOp ::
  "('s, 'd, 'h) davAdapter \<Rightarrow> (('s, 'd, 'h) VersionService \<Rightarrow> ('s, 'd, 'h, unit) dav_op) \<Rightarrow> ('s, 'd, 'h, unit) dav_op" where
  "versionsOp a f = (case aVersions a of None \<Rightarrow> retOp () | Some vs \<Rightarrow> f vs)"

definition propsOp :: "('s, 'd, 'h) davAdapter \<Rightarrow> ('h PropertyStore \<Rightarrow> 'h \<Rightarrow> 'h \<times> unit result) \<Rightarrow> ('s, 'd, 'h, unit) dav_op" where
  "propsOp a f = (case aProps a of None \<Rightarrow> retOp () | Some ps \<Rightarrow> hookOp (f ps))"

definition locksOp :: "('s, 'd, 'h) davAdapter \<Rightarrow> ('d LockStore \<Rightarrow> 'd \<Rightarrow> 'd \<times> unit files_result) \<Rightarrow> ('s, 'd, 'h, unit) dav_op" where
  "locksOp a f = (case aLocks a of
      None \<Rightarrow> retOp ()
    | Some ls \<Rightarrow> (\<lambda>w. case f ls (vLocks w) of (d, r) \<Rightarrow> Some (w\<lparr>vLocks := d\<rparr>, map_sum rawErr (\<lambda>x. x) r)))"

definition sharesOp :: "('s, 'd, 'h) davAdapter \<Rightarrow> ('h ShareStore \<Rightarrow> 'h \<Rightarrow> 'h \<times> unit result) \<Rightarrow> ('s, 'd, 'h, unit) dav_op" where
  "sharesOp a f = (case aShares a of None \<Rightarrow> retOp () | Some ss \<Rightarrow> hookOp (f ss))"

definition collectOp :: "int \<Rightarrow> File \<Rightarrow> ('s, 'd, 'h, File list) dav_op" where
  "collectOp u f = (\<lambda>w. if \<not> fIsDir f then Some (w, Inr [f])
     else case collect (vMeta w) u (fID f) of
         None \<Rightarrow> None
       | Some r \<Rightarrow> Some (w, map_sum mapKeyLocked (\<lambda>desc. f # desc) r))"

definition Purge :: "('s, 'd, 'h) davAdapter \<Rightarrow> string \<Rightarrow> string \<Rightarrow> ('s, 'd, 'h, unit) dav_op" where
  "Purge a user p =
     thenOp (davResolveUser a user) (\<lambda>usr. case NormalizePath p of
         Inl e \<Rightarrow> failOp (mapMeta e)
       | Inr np \<Rightarrow>
           (let u = usrID usr in
            thenOp (mapped mapMeta (getOp u np)) (\<lambda>f.
            thenOp (collectOp u f) (\<lambda>nodes.
            thenOp (purgeNodes a user (sort_key (\<lambda>n. - int (length (fPath n))) nodes)) (\<lambda>_.
            thenOp (mapped mapMeta (metaOp (\<lambda>d. DeleteSubtree d u np))) (\<lambda>_.
            thenOp (versionsOp a (\<lambda>vs. vsDeleteByPath vs user np)) (\<lambda>_.
            thenOp (propsOp a (\<lambda>ps h. psDeleteByPath ps h u np)) (\<lambda>_.
            thenOp (locksOp a (\<lambda>ls d. lsDeleteByPath ls d u np)) (\<lambda>_.
            thenOp (sharesOp a (\<lambda>ss h. shDeleteByPath ss h u np)) (\<lambda>_.
            recalcOp a u (fParentID f) (aNow a)))))))))))"

definition removeOwned :: "('s, 'd, 'h) davAdapter \<Rightarrow> bool \<Rightarrow> string \<Rightarrow> string \<Rightarrow> string \<Rightarrow> ('s, 'd, 'h, unit) dav_op" where
  "removeOwned a muted actor user p = (case aTrash a of
      None \<Rightarrow> Purge a user p
    | Some moveToTrash \<Rightarrow> (\<lambda>w.
        (let owner = (case aUsers a user of Inl _ \<Rightarrow> 0 | Inr u \<Rightarrow> usrID u); name = captureActivityName a muted owner p w in
         thenOp (moveToTrash user p) (\<lambda>_. case name of
             None \<Rightarrow> retOp ()
           | Some n \<Rightarrow> emitActivity a owner actor ''file_deleted'' ''{actor} deleted {file}'' n None) w)))"

definition removeRemote :: "('s, 'd, 'h) davAdapter \<Rightarrow> string \<Rightarrow> IncomingMount \<Rightarrow> ('s, 'd, 'h, unit) dav_op" where
  "removeRemote a np m = (case remoteOf a m of
      None \<Rightarrow> failOp ErrNotImplemented
    | Some rf \<Rightarrow>
        if imItemType m = ''folder'' \<and> np = imMount m then failOp ErrForbidden
        else (case remoteRel m np of
          None \<Rightarrow> failOp ErrNotFound
        | Some rel \<Rightarrow>
            if \<not> permits m PermDelete then failOp ErrForbidden
            else hookOp (\<lambda>h. rfDelete rf h (imRemoteOrigin m) (imRemoteToken m) rel)))"

definition davRemove :: "('s, 'd, 'h) davAdapter \<Rightarrow> string \<Rightarrow> string \<Rightarrow> ('s, 'd, 'h, unit) dav_op" where
  "davRemove a user p = (case NormalizePath p of
      Inl e \<Rightarrow> failOp (mapMeta e)
    | Inr np \<Rightarrow> tryOp (davStatOwned a user np) (\<lambda>st. case st of
        Inr _ \<Rightarrow> removeOwned a False user user np
      | Inl serr \<Rightarrow>
          if serr \<noteq> ErrNotFound then failOp serr
          else tryOp (incomingOp a user np) (\<lambda>lk. case lk of
              Inl lerr \<Rightarrow> if lerr = ErrForbidden then failOp lerr else removeOwned a False user user np
            | Inr (m, ownerPath) \<Rightarrow>
                if imRemote m then removeRemote a np m
                else if \<not> permits m PermDelete then failOp ErrForbidden
                else if imOwnerCipherPath m \<noteq> [] then failOp cipherMountSeams
                else removeOwned a False user (imOwnerUID m) ownerPath)))"

section \<open>Moving\<close>

text \<open>Neither end of a move may lie in an incoming share.\<close>

definition notIncoming :: "('s, 'd, 'h) davAdapter \<Rightarrow> string \<Rightarrow> string \<Rightarrow> ('s, 'd, 'h, unit) dav_op" where
  "notIncoming a user p = tryOp (incomingOp a user p) (\<lambda>lk. case lk of
      Inr _ \<Rightarrow> failOp ErrForbidden | Inl e \<Rightarrow> if e = ErrForbidden then failOp e else retOp ())"

definition destinationOp :: "('s, 'd, 'h) davAdapter \<Rightarrow> string \<Rightarrow> int \<Rightarrow> string \<Rightarrow> bool \<Rightarrow> ('s, 'd, 'h, bool) dav_op" where
  "destinationOp a user u dst overwrite = thenOp (getOp u dst) (\<lambda>r. case r of
      Inl e \<Rightarrow> if e = FErrNotFound then retOp True else failOp (mapMeta e)
    | Inr _ \<Rightarrow> if \<not> overwrite then failOp ErrExists else thenOp (Purge a user dst) (\<lambda>_. retOp False))"

text \<open>Storage first, then the file cache; when the file cache refuses, the storage is renamed back.\<close>

definition renameBoth :: "('s, 'd, 'h) davAdapter \<Rightarrow> int \<Rightarrow> string \<Rightarrow> string \<Rightarrow> string \<Rightarrow> string \<Rightarrow> ('s, 'd, 'h, unit) dav_op" where
  "renameBoth a u src dst from to =
     thenOp (mapped mapStorage (storeOp (\<lambda>s. stRename (aStorage a) s from to))) (\<lambda>_.
     thenOp (metaOp (\<lambda>d. RenameSubtree (aSha1 a) (aLike a) (aNow a) d u src dst (aNow a))) (\<lambda>r. case r of
         Inr _ \<Rightarrow> retOp ()
       | Inl e \<Rightarrow> thenOp (storeOp (\<lambda>s. stRename (aStorage a) s to from)) (\<lambda>rb. case rb of
             Inl re \<Rightarrow> failOp (if re \<noteq> SErrNotFound then joinErr (mapMeta e) re else mapMeta e)
           | Inr _ \<Rightarrow> failOp (mapMeta e))))"

text \<open>The second half of \<open>Move\<close>: the stores in turn, both chains of ancestors, activity.\<close>

definition moveCommit ::
  "('s, 'd, 'h) davAdapter \<Rightarrow> string \<Rightarrow> int \<Rightarrow> string \<Rightarrow> string \<Rightarrow> File \<Rightarrow> activityName option \<Rightarrow> ('s, 'd, 'h, Entry) dav_op" where
  "moveCommit a user u src dst srcFile oldName =
     thenOp (liftOp (storageKey user src)) (\<lambda>from.
     thenOp (liftOp (storageKey user dst)) (\<lambda>to.
     thenOp (renameBoth a u src dst from to) (\<lambda>_.
     thenOp (versionsOp a (\<lambda>vs. vsRenamePath vs user src dst)) (\<lambda>_.
     thenOp (propsOp a (\<lambda>ps h. psRenamePath ps h u src dst)) (\<lambda>_.
     thenOp (locksOp a (\<lambda>ls d. lsRenamePath ls d u src dst)) (\<lambda>_.
     thenOp (sharesOp a (\<lambda>ss h. shRenamePath ss h u src dst)) (\<lambda>_.
     thenOp (mapped mapMeta (getOp u dst)) (\<lambda>moved.
     thenOp (recalcOp a u (fParentID srcFile) (aNow a)) (\<lambda>_.
     thenOp (recalcOp a u (fParentID moved) (aNow a)) (\<lambda>_.
     thenOp (mapped mapMeta (getOp u dst)) (\<lambda>got.
     thenOp (\<lambda>w. case (oldName, captureActivityName a False u dst w) of
         (Some old, Some new) \<Rightarrow> emitActivity a u user ''file_renamed'' ''{actor} renamed {oldfile} to {file}'' new (Some old) w
       | _ \<Rightarrow> Some (w, Inr ())) (\<lambda>_.
     entryOp a u got))))))))))))"

definition davMove :: "('s, 'd, 'h) davAdapter \<Rightarrow> string \<Rightarrow> string \<Rightarrow> string \<Rightarrow> string \<Rightarrow> bool \<Rightarrow> ('s, 'd, 'h, Entry \<times> bool) dav_op" where
  "davMove a srcUser srcPath dstUser dstPath overwrite =
     (if srcUser \<noteq> dstUser then failOp ErrForbidden
      else
        thenOp (notIncoming a srcUser srcPath) (\<lambda>_.
        thenOp (notIncoming a dstUser dstPath) (\<lambda>_.
        thenOp (davResolveUser a srcUser) (\<lambda>usr. case NormalizePath srcPath of
            Inl e \<Rightarrow> failOp (mapMeta e)
          | Inr src \<Rightarrow> (case NormalizePath dstPath of
              Inl e \<Rightarrow> failOp (mapMeta e)
            | Inr dst \<Rightarrow>
                thenOp (mapped mapMeta (getOp (usrID usr) src)) (\<lambda>srcFile.
                thenOp (destinationOp a srcUser (usrID usr) dst overwrite) (\<lambda>created w.
                thenOp (moveCommit a srcUser (usrID usr) src dst srcFile (captureActivityName a False (usrID usr) src w)) (\<lambda>e.
                retOp (e, created)) w)))))))"

section \<open>Copying\<close>

definition copyProps :: "('s, 'd, 'h) davAdapter \<Rightarrow> string \<Rightarrow> string \<Rightarrow> string \<Rightarrow> ('s, 'd, 'h, unit) dav_op" where
  "copyProps a uid src dst = (case aProps a of
      None \<Rightarrow> retOp ()
    | Some ps \<Rightarrow> thenOp (davResolveUser a uid) (\<lambda>usr. hookOp (\<lambda>h. psCopyPath ps h (usrID usr) src dst)))"

text \<open>One call of \<open>copyOne\<close> up to its recursive calls, whose arguments it returns.\<close>

definition copyStep :: "('s, 'd, 'h) davAdapter \<Rightarrow> string \<Rightarrow> string \<Rightarrow> string \<Rightarrow> bool \<Rightarrow> bool \<Rightarrow> ('s, 'd, 'h, (string \<times> string \<times> bool \<times> bool) list) dav_op" where
  "copyStep a uid src dst isDir deep =
     (if isDir then
        tryOp (davMkdir a True uid dst) (\<lambda>r.
        if (case r of Inl e \<Rightarrow> e \<noteq> ErrExists | Inr _ \<Rightarrow> False) then liftOp (map_sum (\<lambda>e. e) (\<lambda>_. []) r)
        else thenOp (copyProps a uid src dst) (\<lambda>_.
          if \<not> deep then retOp []
          else thenOp (davListOp a uid src) (\<lambda>children.
            retOp (map (\<lambda>c. (ePath c, pathJoin dst (path_base (ePath c)), eIsDir c, True)) children))))
      else
        thenOp (davReadOp a uid src) (\<lambda>(rc, _).
        thenOp (davWriteIf a True uid dst (rc, None) None None) (\<lambda>_.
        thenOp (copyProps a uid src dst) (\<lambda>_. retOp []))))"

partial_function (option) copyAll ::
  "('s, 'd, 'h) davAdapter \<Rightarrow> string \<Rightarrow> (string \<times> string \<times> bool \<times> bool) list \<Rightarrow> ('s, 'd, 'h) davState \<Rightarrow> (('s, 'd, 'h) davState \<times> unit result) option" where
  "copyAll a uid todo w =
     (if todo = [] then Some (w, Inr ())
      else case (case hd todo of (src, dst, isDir, deep) \<Rightarrow> copyStep a uid src dst isDir deep w) of
          None \<Rightarrow> None
        | Some (w', r) \<Rightarrow> (case r of Inl e \<Rightarrow> Some (w', Inl e) | Inr calls \<Rightarrow> copyAll a uid (calls @ tl todo) w'))"

definition davCopy :: "('s, 'd, 'h) davAdapter \<Rightarrow> string \<Rightarrow> string \<Rightarrow> string \<Rightarrow> string \<Rightarrow> bool \<Rightarrow> bool \<Rightarrow> ('s, 'd, 'h, Entry \<times> bool) dav_op" where
  "davCopy a srcUser srcPath dstUser dstPath overwrite depthInfinity =
     (if srcUser \<noteq> dstUser then failOp ErrForbidden
      else
        thenOp (davStatOp a srcUser srcPath) (\<lambda>srcEntry.
        tryOp (davStatOp a srcUser dstPath) (\<lambda>dstStat.
        if (case dstStat of Inl e \<Rightarrow> e \<noteq> ErrNotFound | Inr _ \<Rightarrow> False) then liftOp (map_sum (\<lambda>e. e) (\<lambda>e. (e, False)) dstStat)
        else let created = (dstStat = Inl ErrNotFound) in
        thenOp (if created then retOp () else if \<not> overwrite then failOp ErrExists else Purge a srcUser dstPath) (\<lambda>_.
        thenOp (copyAll a srcUser [(srcPath, dstPath, eIsDir srcEntry, depthInfinity)]) (\<lambda>_.
        thenOp (davStatOp a srcUser dstPath) (\<lambda>got.
        thenOp (case aUsers a srcUser of Inl _ \<Rightarrow> retOp ()
          | Inr usr \<Rightarrow> emitFileActivity a False (usrID usr) srcUser ''file_created'' ''{actor} created {file}'' dstPath) (\<lambda>_.
        retOp (got, created))))))))"

section \<open>Properties\<close>

definition davPropSpace :: "string \<Rightarrow> bool" where
  "davPropSpace space \<longleftrightarrow> trim_right_set space ''/'' \<in> set [''DAV:'', ''DAV'']"

definition isProtectedLiveProp :: "string \<Rightarrow> string \<Rightarrow> bool" where
  "isProtectedLiveProp space name \<longleftrightarrow>
     (if \<not> davPropSpace space \<and> space \<noteq> [] then False
      else name \<in> set [''getetag'', ''resourcetype'', ''getcontentlength'', ''getcontenttype'', ''quota-used-bytes'', ''quota-available-bytes''])"

definition isFavoriteProp :: "string \<Rightarrow> string \<Rightarrow> bool" where
  "isFavoriteProp space name \<longleftrightarrow> (if name \<noteq> ''favorite'' then False else space = [] \<or> space = ''http://owncloud.org/ns'')"

text \<open>One operation of \<open>PatchProps\<close>: the status of its result.\<close>

definition patchOne :: "('s, 'd, 'h) davAdapter \<Rightarrow> string \<Rightarrow> int \<Rightarrow> string \<Rightarrow> PropPatchOp \<Rightarrow> ('s, 'd, 'h, int) dav_op" where
  "patchOne a user u np op =
     thenOp (if aLiveProps a = None then retOp None
       else hookOp (\<lambda>h. case aSetLiveProp a h user np (ppSpace op) (ppName op) (if ppRemove op then [] else ppValue op) of (h', st) \<Rightarrow> (h', Inr st))) (\<lambda>live.
     case live of
       Some status \<Rightarrow> retOp status
     | None \<Rightarrow>
         if isProtectedLiveProp (ppSpace op) (ppName op) \<or> \<not> isFavoriteProp (ppSpace op) (ppName op) then retOp 403
         else (case aProps a of
             None \<Rightarrow> retOp 403
           | Some ps \<Rightarrow>
               if ppRemove op then thenOp (hookOp (\<lambda>h. psRemove ps h u np ''http://owncloud.org/ns'' ''favorite'')) (\<lambda>_. retOp 200)
               else (let val = trim_space (ppValue op) in
                 if val \<noteq> ''0'' \<and> val \<noteq> ''1'' then retOp 403
                 else thenOp (hookOp (\<lambda>h. psSet ps h u np ''http://owncloud.org/ns'' ''favorite'' val)) (\<lambda>_. retOp 200))))"

definition davPatchProps :: "('s, 'd, 'h) davAdapter \<Rightarrow> string \<Rightarrow> string \<Rightarrow> PropPatchOp list \<Rightarrow> ('s, 'd, 'h, PropPatchResult list) dav_op" where
  "davPatchProps a user p ops =
     thenOp (davResolveUser a user) (\<lambda>usr. case NormalizePath p of
         Inl e \<Rightarrow> failOp (mapMeta e)
       | Inr np \<Rightarrow> thenOp (mapped mapMeta (getOp (usrID usr) np)) (\<lambda>_.
           mapOp (\<lambda>op. thenOp (patchOne a user (usrID usr) np op) (\<lambda>st. retOp \<lparr>prSpace = ppSpace op, prName = ppName op, prStatus = st\<rparr>)) ops))"

section \<open>Rows for what is in the storage\<close>

text \<open>
  \<open>ingestFromStorage\<close> visits a path; for a directory it inserts the row, visits the children and then updates the ancestors.
  The visits that are left are a list.
\<close>

datatype ingestTask = Visit string | Leave int string

definition ingestStep :: "('s, 'd, 'h) davAdapter \<Rightarrow> string \<Rightarrow> ingestTask \<Rightarrow> ('s, 'd, 'h, ingestTask list) dav_op" where
  "ingestStep a user task = (case task of
      Leave u np \<Rightarrow> thenOp (mapped mapMeta (getOp u np)) (\<lambda>dir. thenOp (recalcOp a u (fParentID dir) (aNow a)) (\<lambda>_. retOp []))
    | Visit p \<Rightarrow>
        thenOp (davResolveUser a user) (\<lambda>usr. case NormalizePath p of
            Inl e \<Rightarrow> failOp (mapMeta e)
          | Inr np \<Rightarrow>
              thenOp (liftOp (storageKey user np)) (\<lambda>key.
              thenOp (mapped mapStorage (storeOp (\<lambda>s. (s, stStat (aStorage a) s key)))) (\<lambda>info.
              if fiIsDir info then
                thenOp (if np = ''/'' then retOp (Inl FErrExists)
                  else metaOp (\<lambda>d. fileInsert (aSha1 a) (aNow a) d (newFile (usrID usr) np True 0 (aNow a) [] ''httpd/unix-directory''))) (\<lambda>ins.
                case ins of
                  Inl e \<Rightarrow>
                    if e \<noteq> FErrExists then failOp (mapMeta e)
                    else thenOp (mapped mapStorage (storeOp (\<lambda>s. (s, stList (aStorage a) s key)))) (\<lambda>kids.
                      retOp (map (\<lambda>k. Visit (pathJoin np (path_base (fiPath k)))) (sort_key fiPath kids) @ [Leave (usrID usr) np]))
                | Inr _ \<Rightarrow> thenOp (mapped mapStorage (storeOp (\<lambda>s. (s, stList (aStorage a) s key)))) (\<lambda>kids.
                    retOp (map (\<lambda>k. Visit (pathJoin np (path_base (fiPath k)))) (sort_key fiPath kids) @ [Leave (usrID usr) np])))
              else
                thenOp (mapped mapMeta (metaOp (\<lambda>d. fileInsert (aSha1 a) (aNow a) d
                  (newFile (usrID usr) np False (fiSize info) (aNow a) [] ''application/octet-stream'')))) (\<lambda>f.
                thenOp (recalcOp a (usrID usr) (fParentID f) (aNow a)) (\<lambda>_. retOp []))))))"

partial_function (option) ingestAll ::
  "('s, 'd, 'h) davAdapter \<Rightarrow> string \<Rightarrow> ingestTask list \<Rightarrow> ('s, 'd, 'h) davState \<Rightarrow> (('s, 'd, 'h) davState \<times> unit result) option" where
  "ingestAll a user todo w =
     (if todo = [] then Some (w, Inr ())
      else case ingestStep a user (hd todo) w of
          None \<Rightarrow> None
        | Some (w', r) \<Rightarrow> (case r of Inl e \<Rightarrow> Some (w', Inl e) | Inr calls \<Rightarrow> ingestAll a user (calls @ tl todo) w'))"

definition ingestFromStorage :: "('s, 'd, 'h) davAdapter \<Rightarrow> string \<Rightarrow> string \<Rightarrow> ('s, 'd, 'h, unit) dav_op" where
  "ingestFromStorage a user p = ingestAll a user [Visit p]"

end
