(* ===== verification/Files_Props.thy ===== *)
theory Files_Props
  imports Files_Dav
begin

text \<open>
  The table of file properties (\<^verbatim>\<open>src/internal/files/propstore.go\<close>): \<open>SQLPropertyStore\<close> with its key on user, path, namespace
  and name, and the store as the DAV adapter calls it. \<open>LIKE\<close> is a parameter, pattern first.
\<close>

section \<open>Rows\<close>

record FileProperty =
  fpID :: int
  fpUserID :: int
  fpPath :: string
  fpNS :: string
  fpName :: string
  fpValue :: string

record propTable =
  ptRows :: "FileProperty list"
  ptNext :: int
  ptDown :: "string option"

definition propKey :: "FileProperty \<Rightarrow> int \<times> string \<times> string \<times> string" where
  "propKey p = (fpUserID p, fpPath p, fpNS p, fpName p)"

definition propGet :: "propTable \<Rightarrow> int \<Rightarrow> string \<Rightarrow> string \<Rightarrow> string \<Rightarrow> FileProperty files_result" where
  "propGet d userID filePath ns name =
     (if userID = 0 \<or> ns = [] \<or> name = [] then Inl FErrNotFound
      else case NormalizePath filePath of
          Inl e \<Rightarrow> Inl e
        | Inr np \<Rightarrow> (case ptDown d of
            Some e \<Rightarrow> Inl (dbError ''files: property get'' e)
          | None \<Rightarrow> (case find (\<lambda>p. propKey p = (userID, np, ns, name)) (ptRows d) of None \<Rightarrow> Inl FErrNotFound | Some p \<Rightarrow> Inr p)))"

definition propSet :: "propTable \<Rightarrow> FileProperty \<Rightarrow> propTable \<times> FileProperty files_result" where
  "propSet d p0 =
     (if fpUserID p0 = 0 \<or> fpNS p0 = [] \<or> fpName p0 = [] then (d, Inl (FErrOther ''files: invalid file property''))
      else case NormalizePath (fpPath p0) of
          Inl e \<Rightarrow> (d, Inl e)
        | Inr np \<Rightarrow>
            (let p = p0\<lparr>fpPath := np\<rparr> in
             case propGet d (fpUserID p) np (fpNS p) (fpName p) of
               Inr existing \<Rightarrow>
                 (d\<lparr>ptRows := map (\<lambda>r. if fpID r = fpID existing then r\<lparr>fpValue := fpValue p\<rparr> else r) (ptRows d)\<rparr>, Inr (p\<lparr>fpID := fpID existing\<rparr>))
             | Inl e \<Rightarrow>
                 if e \<noteq> FErrNotFound then (d, Inl e)
                 else
                   (let d1 = d\<lparr>ptRows := ptRows d @ [p\<lparr>fpID := ptNext d\<rparr>], ptNext := ptNext d + 1\<rparr>
                    in (d1, propGet d1 (fpUserID p) np (fpNS p) (fpName p)))))"

definition propRemove :: "propTable \<Rightarrow> int \<Rightarrow> string \<Rightarrow> string \<Rightarrow> string \<Rightarrow> propTable \<times> unit files_result" where
  "propRemove d userID filePath ns name = (case NormalizePath filePath of
      Inl e \<Rightarrow> (d, Inl e)
    | Inr np \<Rightarrow> (case ptDown d of
        Some e \<Rightarrow> (d, Inl (dbError ''files: property remove'' e))
      | None \<Rightarrow> (d\<lparr>ptRows := filter (\<lambda>p. propKey p \<noteq> (userID, np, ns, name)) (ptRows d)\<rparr>, Inr ())))"

definition propListByPath :: "propTable \<Rightarrow> int \<Rightarrow> string \<Rightarrow> FileProperty list files_result" where
  "propListByPath d userID filePath = (case NormalizePath filePath of
      Inl e \<Rightarrow> Inl e
    | Inr np \<Rightarrow> (case ptDown d of
        Some e \<Rightarrow> Inl (dbError ''files: property list'' e)
      | None \<Rightarrow> Inr (sort_key fpNS (sort_key fpName (filter (\<lambda>p. fpUserID p = userID \<and> fpPath p = np) (ptRows d))))))"

section \<open>Subtrees\<close>

definition propBelow :: "(string \<Rightarrow> string \<Rightarrow> bool) \<Rightarrow> int \<Rightarrow> string \<Rightarrow> FileProperty \<Rightarrow> bool" where
  "propBelow like userID np p \<longleftrightarrow> fpUserID p = userID \<and> (fpPath p = np \<or> like (likeBelow np) (fpPath p))"

definition propListByPrefix :: "(string \<Rightarrow> string \<Rightarrow> bool) \<Rightarrow> propTable \<Rightarrow> int \<Rightarrow> string \<Rightarrow> FileProperty list files_result" where
  "propListByPrefix like d userID filePath = (case NormalizePath filePath of
      Inl e \<Rightarrow> Inl e
    | Inr np \<Rightarrow> (case ptDown d of
        Some e \<Rightarrow> Inl (dbError ''files: property list prefix'' e)
      | None \<Rightarrow> Inr (sort_key fpPath (sort_key fpNS (sort_key fpName (filter (propBelow like userID np) (ptRows d)))))))"

definition propDeleteByPath :: "(string \<Rightarrow> string \<Rightarrow> bool) \<Rightarrow> propTable \<Rightarrow> int \<Rightarrow> string \<Rightarrow> propTable \<times> unit files_result" where
  "propDeleteByPath like d userID filePath = (case NormalizePath filePath of
      Inl e \<Rightarrow> (d, Inl e)
    | Inr np \<Rightarrow> (case ptDown d of
        Some e \<Rightarrow> (d, Inl (dbError ''files: property delete path'' e))
      | None \<Rightarrow> (d\<lparr>ptRows := filter (\<lambda>p. \<not> propBelow like userID np p) (ptRows d)\<rparr>, Inr ())))"

text \<open>The new path of a row; the key refuses an update onto a row of another id.\<close>

definition movedPath :: "string \<Rightarrow> string \<Rightarrow> string \<Rightarrow> string" where
  "movedPath src dst old = (if old = src then dst else dst @ trim_prefix old src)"

fun propRenameRows :: "string \<Rightarrow> string \<Rightarrow> FileProperty list \<Rightarrow> propTable \<Rightarrow> propTable \<times> unit files_result" where
  "propRenameRows src dst [] d = (d, Inr ())"
| "propRenameRows src dst (p # ps) d =
     (let p' = p\<lparr>fpPath := movedPath src dst (fpPath p)\<rparr> in
      if list_ex (\<lambda>r. fpID r \<noteq> fpID p \<and> propKey r = propKey p') (ptRows d) then (d, Inl (dbError ''files: property rename'' ''unique constraint''))
      else propRenameRows src dst ps (d\<lparr>ptRows := map (\<lambda>r. if fpID r = fpID p then r\<lparr>fpPath := fpPath p'\<rparr> else r) (ptRows d)\<rparr>))"

definition propRenamePath :: "(string \<Rightarrow> string \<Rightarrow> bool) \<Rightarrow> propTable \<Rightarrow> int \<Rightarrow> string \<Rightarrow> string \<Rightarrow> propTable \<times> unit files_result" where
  "propRenamePath like d userID srcPath dstPath = (case NormalizePath srcPath of
      Inl e \<Rightarrow> (d, Inl e)
    | Inr src \<Rightarrow> (case NormalizePath dstPath of
        Inl e \<Rightarrow> (d, Inl e)
      | Inr dst \<Rightarrow> (case propListByPrefix like d userID src of
          Inl e \<Rightarrow> (d, Inl e)
        | Inr items \<Rightarrow> propRenameRows src dst items d)))"

fun propCopyRows :: "string \<Rightarrow> FileProperty list \<Rightarrow> propTable \<Rightarrow> propTable \<times> unit files_result" where
  "propCopyRows dst [] d = (d, Inr ())"
| "propCopyRows dst (p # ps) d = (case propSet d (p\<lparr>fpID := 0, fpPath := dst\<rparr>) of
      (d', Inl e) \<Rightarrow> (d', Inl e)
    | (d', Inr _) \<Rightarrow> propCopyRows dst ps d')"

definition propCopyPath :: "propTable \<Rightarrow> int \<Rightarrow> string \<Rightarrow> string \<Rightarrow> propTable \<times> unit files_result" where
  "propCopyPath d userID srcPath dstPath = (case NormalizePath srcPath of
      Inl e \<Rightarrow> (d, Inl e)
    | Inr src \<Rightarrow> (case NormalizePath dstPath of
        Inl e \<Rightarrow> (d, Inl e)
      | Inr dst \<Rightarrow> (case propListByPath d userID src of
          Inl e \<Rightarrow> (d, Inl e)
        | Inr items \<Rightarrow> propCopyRows dst items d)))"

section \<open>The store of the adapter\<close>

text \<open>The table is a part of the state of the services, read by \<open>get\<close> and written by \<open>put\<close>. Errors reach the client as they are.\<close>

definition onPart :: "('h \<Rightarrow> 't) \<Rightarrow> ('t \<Rightarrow> 'h \<Rightarrow> 'h) \<Rightarrow> ('t \<Rightarrow> 't \<times> 'a files_result) \<Rightarrow> 'h \<Rightarrow> 'h \<times> 'a files_result" where
  "onPart get put f h = (case f (get h) of (t, r) \<Rightarrow> (put t h, r))"

definition unitErr :: "'h \<times> 'a files_result \<Rightarrow> 'h \<times> unit result" where
  "unitErr x = (fst x, map_sum rawErr (\<lambda>_. ()) (snd x))"

definition NewSQLPropertyStore :: "(string \<Rightarrow> string \<Rightarrow> bool) \<Rightarrow> ('h \<Rightarrow> propTable) \<Rightarrow> (propTable \<Rightarrow> 'h \<Rightarrow> 'h) \<Rightarrow> 'h PropertyStore" where
  "NewSQLPropertyStore like get put = \<lparr>
     psGet = (\<lambda>h u p ns n. case propGet (get h) u p ns n of Inl _ \<Rightarrow> None | Inr r \<Rightarrow> Some (fpValue r)),
     psSet = (\<lambda>h u p ns n v. unitErr (onPart get put (\<lambda>d. propSet d \<lparr>fpID = 0, fpUserID = u, fpPath = p, fpNS = ns, fpName = n, fpValue = v\<rparr>) h)),
     psRemove = (\<lambda>h u p ns n. unitErr (onPart get put (\<lambda>d. propRemove d u p ns n) h)),
     psDeleteByPath = (\<lambda>h u p. unitErr (onPart get put (\<lambda>d. propDeleteByPath like d u p) h)),
     psRenamePath = (\<lambda>h u src dst. unitErr (onPart get put (\<lambda>d. propRenamePath like d u src dst) h)),
     psCopyPath = (\<lambda>h u src dst. unitErr (onPart get put (\<lambda>d. propCopyPath d u src dst) h))\<rparr>"

end
