(* ===== verification/Files_Trash.thy ===== *)
theory Files_Trash
  imports Files_Props
begin

text \<open>
  The trash bin (\<^verbatim>\<open>src/internal/files/trash.go\<close>, \<^verbatim>\<open>trashstore.go\<close>): the table \<open>trash_items\<close> with the operations of
  \<open>SQLTrashStore\<close>, and the file system \<open>Trash\<close> over it, the storage and the DAV adapter. \<open>LocationNamer\<close> is nil, as without
  file name encryption. The table is a part of the state of the services.
\<close>

section \<open>Locations\<close>

definition containsAt :: "string \<Rightarrow> string \<Rightarrow> nat list" where
  "containsAt s t = filter (\<lambda>i. has_prefix (drop i s) t) [0..<Suc (length s)]"

definition ValidLocationID :: "string \<Rightarrow> bool" where
  "ValidLocationID loc \<longleftrightarrow>
     (if loc = [] \<or> length loc > 255 then False
      else if CHR ''/'' \<in> set loc \<or> CHR 0x5C \<in> set loc \<or> containsAt loc ''..'' \<noteq> [] then False
      else case containsAt loc ''.d'' of
          [] \<Rightarrow> False
        | i # is \<Rightarrow>
            (let k = last (i # is); rest = drop (k + 2) loc in
             if k = 0 \<or> k + 2 \<ge> length loc then False
             else is_digit (hd rest) \<and> list_all (\<lambda>c. is_digit c \<or> c = CHR ''-'') (tl rest)))"

definition trashStorageKey :: "string \<Rightarrow> string \<Rightarrow> string result" where
  "trashStorageKey uid loc = (if \<not> ValidLocationID loc then Inl ErrForbidden else Inr (''trash/'' @ uid @ ''/'' @ loc))"

definition splitTrashPath :: "string \<Rightarrow> (string \<times> string) result" where
  "splitTrashPath p = (case NormalizePath p of
      Inl _ \<Rightarrow> Inl ErrForbidden
    | Inr np \<Rightarrow>
        if np = ''/'' then Inr ([], [])
        else case cut_byte (trim_prefix np ''/'') (CHR ''/'') of
            (coll, loc, found) \<Rightarrow>
              if \<not> found then Inr (coll, [])
              else if coll \<noteq> ''trash'' \<and> coll \<noteq> ''restore'' then Inl ErrForbidden
              else if CHR ''/'' \<in> set loc then Inl ErrForbidden
              else Inr (coll, loc))"

definition makeLocationID :: "string \<Rightarrow> int \<Rightarrow> string" where
  "makeLocationID name ts =
     (let base = path_base name; b = (if base = [] \<or> base = ''.'' \<or> base = ''/'' then ''unnamed'' else base)
      in b @ ''.d'' @ int_to_dec (ts div 1000000000))"

section \<open>The table\<close>

record TrashItem =
  tiID :: int
  tiUserID :: int
  tiOriginalPath :: string
  tiLocationID :: string
  tiName :: string
  tiIsDir :: bool
  tiSize :: int
  tiDeleted :: int
  tiDeletedBy :: string

record trashTable =
  ttRows :: "TrashItem list"
  ttNext :: int
  ttDown :: "string option"

definition trashGet :: "trashTable \<Rightarrow> int \<Rightarrow> string \<Rightarrow> TrashItem files_result" where
  "trashGet d userID loc =
     (if userID = 0 \<or> loc = [] then Inl FErrNotFound
      else case ttDown d of
          Some e \<Rightarrow> Inl (dbError ''files: trash get'' e)
        | None \<Rightarrow> (case find (\<lambda>i. tiUserID i = userID \<and> tiLocationID i = loc) (ttRows d) of None \<Rightarrow> Inl FErrNotFound | Some i \<Rightarrow> Inr i))"

definition trashInsert :: "int \<Rightarrow> trashTable \<Rightarrow> TrashItem \<Rightarrow> trashTable \<times> TrashItem files_result" where
  "trashInsert now d item0 =
     (if tiUserID item0 = 0 \<or> tiLocationID item0 = [] then (d, Inl (FErrOther ''files: invalid trash item''))
      else if \<not> ValidLocationID (tiLocationID item0) then (d, Inl FErrInvalidPath)
      else
        (let item = item0\<lparr>tiName := (if tiName item0 = [] then path_base (tiOriginalPath item0) else tiName item0),
                tiDeleted := msTrunc (if tiDeleted item0 = zeroTime then now else tiDeleted item0)\<rparr> in
         case ttDown d of
           Some e \<Rightarrow> (d, Inl (dbError ''files: trash insert'' e))
         | None \<Rightarrow>
             if list_ex (\<lambda>i. tiUserID i = tiUserID item \<and> tiLocationID i = tiLocationID item) (ttRows d) then (d, Inl FErrExists)
             else
               (let d1 = d\<lparr>ttRows := ttRows d @ [item\<lparr>tiID := ttNext d\<rparr>], ttNext := ttNext d + 1\<rparr>
                in (d1, trashGet d1 (tiUserID item) (tiLocationID item)))))"

definition trashList :: "trashTable \<Rightarrow> int \<Rightarrow> TrashItem list files_result" where
  "trashList d userID = (case ttDown d of
      Some e \<Rightarrow> Inl (dbError ''files: trash list'' e)
    | None \<Rightarrow> Inr (sort_key tiLocationID (filter (\<lambda>i. tiUserID i = userID) (ttRows d))))"

definition trashDelete :: "trashTable \<Rightarrow> int \<Rightarrow> string \<Rightarrow> trashTable \<times> unit files_result" where
  "trashDelete d userID loc = (case ttDown d of
      Some e \<Rightarrow> (d, Inl (dbError ''files: trash delete'' e))
    | None \<Rightarrow>
        (let hit = (\<lambda>i. tiUserID i = userID \<and> tiLocationID i = loc)
         in if list_ex hit (ttRows d) then (d\<lparr>ttRows := filter (\<lambda>i. \<not> hit i) (ttRows d)\<rparr>, Inr ()) else (d, Inl FErrNotFound)))"

definition trashDeleteExpired :: "trashTable \<Rightarrow> int \<Rightarrow> int \<Rightarrow> trashTable \<times> nat files_result" where
  "trashDeleteExpired d userID before = (case ttDown d of
      Some e \<Rightarrow> (d, Inl (dbError ''files: trash expire'' e))
    | None \<Rightarrow>
        (let hit = (\<lambda>i. tiUserID i = userID \<and> unix_milli (tiDeleted i) \<le> unix_milli before)
         in (d\<lparr>ttRows := filter (\<lambda>i. \<not> hit i) (ttRows d)\<rparr>, Inr (length (filter hit (ttRows d))))))"

section \<open>The file system\<close>

text \<open>\<open>trPart\<close> and \<open>trPut\<close> read and write the table in the state of the services.\<close>

record ('s, 'd, 'h) Trash =
  trStorage :: "'s Storage"
  trPart :: "'h \<Rightarrow> trashTable"
  trPut :: "trashTable \<Rightarrow> 'h \<Rightarrow> 'h"
  trFiles :: "('s, 'd, 'h) davAdapter option"
  trUsers :: "string \<Rightarrow> users_error + UserRow"
  trNow :: int
  trRetention :: int

definition trashOp :: "('s, 'd, 'h) Trash \<Rightarrow> (trashTable \<Rightarrow> trashTable \<times> 'a files_result) \<Rightarrow> ('s, 'd, 'h, 'a files_result) dav_op" where
  "trashOp t f = hookOp (\<lambda>h. case onPart (trPart t) (trPut t) f h of (h', r) \<Rightarrow> (h', Inr r))"

definition trashQuery :: "('s, 'd, 'h) Trash \<Rightarrow> (trashTable \<Rightarrow> 'a files_result) \<Rightarrow> ('s, 'd, 'h, 'a files_result) dav_op" where
  "trashQuery t f = (\<lambda>w. Some (w, Inr (f (trPart t (vHooks w)))))"

definition serviceUser :: "(string \<Rightarrow> users_error + UserRow) \<Rightarrow> string \<Rightarrow> UserRow result" where
  "serviceUser users uid =
     (if uid = [] \<or> CHR ''/'' \<in> set uid \<or> uid = ''..'' then Inl ErrForbidden else map_sum usersErr (\<lambda>u. u) (users uid))"

definition retention :: "('s, 'd, 'h) Trash \<Rightarrow> int" where
  "retention t = (if trRetention t > 0 then trRetention t else 30 * 24 * 3600 * 1000000000)"

text \<open>The candidates of \<open>uniqueLocationIDWith\<close>, in turn.\<close>

definition suffixed :: "string \<Rightarrow> string list" where
  "suffixed base = map (\<lambda>i. if i = 0 then base else base @ ''-'' @ int_to_dec (int i)) [0..<1000]"

primrec probe :: "(string \<Rightarrow> 'a files_result) \<Rightarrow> string list \<Rightarrow> string result" where
  "probe get [] = Inl ErrExists"
| "probe get (loc # locs) = (case get loc of
      Inl e \<Rightarrow> if e = FErrNotFound then Inr loc else Inl (rawErr e)
    | Inr _ \<Rightarrow> probe get locs)"

definition uniqueLocationID :: "('s, 'd, 'h) Trash \<Rightarrow> int \<Rightarrow> string \<Rightarrow> int \<Rightarrow> ('s, 'd, 'h, string) dav_op" where
  "uniqueLocationID t userID name ts = (\<lambda>w. Some (w, probe (trashGet (trPart t (vHooks w)) userID) (suffixed (makeLocationID name ts))))"

definition ensureDirs :: "'s Storage \<Rightarrow> string \<Rightarrow> string \<Rightarrow> ('s, 'd, 'h, unit) dav_op" where
  "ensureDirs st area uid =
     thenOp (storeOp (\<lambda>s. stMkdir st s area)) (\<lambda>r.
     if (case r of Inl e \<Rightarrow> e \<noteq> SErrExists | Inr _ \<Rightarrow> False) then liftOp (map_sum mapStorage (\<lambda>x. x) r)
     else thenOp (storeOp (\<lambda>s. stMkdir st s (area @ ''/'' @ uid))) (\<lambda>r.
       if (case r of Inl e \<Rightarrow> e \<noteq> SErrExists | Inr _ \<Rightarrow> False) then liftOp (map_sum mapStorage (\<lambda>x. x) r) else retOp ()))"

definition itemEntry :: "(string \<Rightarrow> string) \<Rightarrow> int \<Rightarrow> TrashItem \<Rightarrow> string \<Rightarrow> Entry" where
  "itemEntry sha1 now item p =
     (let mt = (if tiDeleted item = zeroTime then now else tiDeleted item) in
      zeroEntry\<lparr>ePath := p, eIsDir := tiIsDir item, eSize := tiSize item, eModTime := mt,
        eNumericID := (if tiID item > 0 then tiID item else 0), ePermissions := PermRead + PermDelete, eShareable := False,
        eContentType := (if tiIsDir item then ''httpd/unix-directory'' else ''application/octet-stream''),
        eETag := ComputeETag sha1 (tiSize item) mt (tiLocationID item),
        eTrashOriginal := trim_prefix (tiOriginalPath item) ''/'', eTrashDeleted := tiDeleted item div 1000000000\<rparr>)"

definition collEntry :: "(string \<Rightarrow> string) \<Rightarrow> string \<Rightarrow> int \<Rightarrow> Entry" where
  "collEntry sha1 p mt = zeroEntry\<lparr>ePath := p, eIsDir := True, eModTime := mt, ePermissions := PermRead + PermDelete,
     eContentType := ''httpd/unix-directory'', eETag := ComputeETag sha1 0 mt p\<rparr>"

section \<open>Moving to the trash\<close>

text \<open>Storage first, then the row; when the row is refused, the storage is renamed back.\<close>

definition renameOr :: "'s Storage \<Rightarrow> string \<Rightarrow> string \<Rightarrow> fs_error \<Rightarrow> ('s, 'd, 'h, 'a) dav_op" where
  "renameOr st to from cause = thenOp (storeOp (\<lambda>s. stRename st s to from)) (\<lambda>rb. case rb of
      Inl e \<Rightarrow> failOp (if e \<noteq> SErrNotFound then joinErr cause e else cause)
    | Inr _ \<Rightarrow> failOp cause)"

definition trashCommit ::
  "('s, 'd, 'h) Trash \<Rightarrow> ('s, 'd, 'h) davAdapter \<Rightarrow> string \<Rightarrow> int \<Rightarrow> string \<Rightarrow> File \<Rightarrow> string \<Rightarrow> string \<Rightarrow> ('s, 'd, 'h, unit) dav_op" where
  "trashCommit t a user u np f loc deletedBy =
     thenOp (liftOp (storageKey user np)) (\<lambda>from.
     thenOp (liftOp (trashStorageKey user loc)) (\<lambda>to.
     thenOp (ensureDirs (trStorage t) ''trash'' user) (\<lambda>_.
     thenOp (mapped mapStorage (storeOp (\<lambda>s. stRename (trStorage t) s from to))) (\<lambda>_.
     thenOp (trashOp t (\<lambda>d. trashInsert (trNow t) d \<lparr>tiID = 0, tiUserID = u, tiOriginalPath = np, tiLocationID = loc, tiName = fName f,
        tiIsDir = fIsDir f, tiSize = fSize f, tiDeleted = trNow t, tiDeletedBy = deletedBy\<rparr>)) (\<lambda>ins. case ins of
       Inl e \<Rightarrow> renameOr (trStorage t) to from (mapMeta e)
     | Inr _ \<Rightarrow>
         thenOp (mapped mapMeta (metaOp (\<lambda>d. DeleteSubtree d u np))) (\<lambda>_.
         thenOp (locksOp a (\<lambda>ls d. lsDeleteByPath ls d u np)) (\<lambda>_.
         thenOp (sharesOp a (\<lambda>ss h. shDeleteByPath ss h u np)) (\<lambda>_.
         recalcOp a u (fParentID f) (trNow t)))))))))"

definition MoveToTrash :: "('s, 'd, 'h) Trash \<Rightarrow> string \<Rightarrow> string \<Rightarrow> string \<Rightarrow> ('s, 'd, 'h, unit) dav_op" where
  "MoveToTrash t user p deletedBy = (case trFiles t of
      None \<Rightarrow> failOp ErrForbidden
    | Some a \<Rightarrow> thenOp (liftOp (serviceUser (trUsers t) user)) (\<lambda>usr. case NormalizePath p of
          Inl e \<Rightarrow> failOp (mapMeta e)
        | Inr np \<Rightarrow>
            if np = ''/'' then failOp ErrForbidden
            else thenOp (mapped mapMeta (getOp (usrID usr) np)) (\<lambda>f.
              thenOp (uniqueLocationID t (usrID usr) (fName f) (trNow t)) (\<lambda>loc.
              trashCommit t a user (usrID usr) np f loc deletedBy))))"

section \<open>Restoring\<close>

definition restoreCommit ::
  "('s, 'd, 'h) Trash \<Rightarrow> ('s, 'd, 'h) davAdapter \<Rightarrow> string \<Rightarrow> int \<Rightarrow> string \<Rightarrow> string \<Rightarrow> string \<Rightarrow> ('s, 'd, 'h, Entry) dav_op" where
  "restoreCommit t a user u loc original dest =
     thenOp (liftOp (trashStorageKey user loc)) (\<lambda>from.
     thenOp (liftOp (storageKey user dest)) (\<lambda>to.
     thenOp (mapped mapStorage (storeOp (\<lambda>s. stRename (trStorage t) s from to))) (\<lambda>_.
     tryOp (ingestFromStorage a user dest) (\<lambda>r. case r of
       Inl e \<Rightarrow> renameOr (trStorage t) to from e
     | Inr _ \<Rightarrow>
         thenOp (if dest \<noteq> original then versionsOp a (\<lambda>vs. vsRenamePath vs user original dest) else retOp ()) (\<lambda>_.
         thenOp (if dest \<noteq> original then propsOp a (\<lambda>ps h. psRenamePath ps h u original dest) else retOp ()) (\<lambda>_.
         thenOp (trashOp t (\<lambda>d. trashDelete d u loc)) (\<lambda>del.
         if (case del of Inl e \<Rightarrow> e \<noteq> FErrNotFound | Inr _ \<Rightarrow> False) then liftOp (map_sum mapMeta (\<lambda>_. zeroEntry) del)
         else thenOp (davStatOp a user dest) (\<lambda>got.
           thenOp (emitFileActivity a False u user ''file_restored'' ''{actor} restored {file}'' dest) (\<lambda>_. retOp got)))))))))"

definition trashRestore ::
  "('s, 'd, 'h) Trash \<Rightarrow> string \<Rightarrow> string \<Rightarrow> string \<Rightarrow> string \<Rightarrow> bool \<Rightarrow> ('s, 'd, 'h, Entry \<times> bool) dav_op" where
  "trashRestore t user loc destUser destPath overwrite =
     (if user \<noteq> destUser then failOp ErrForbidden
      else case trFiles t of
          None \<Rightarrow> failOp ErrForbidden
        | Some a \<Rightarrow> thenOp (liftOp (serviceUser (trUsers t) user)) (\<lambda>usr.
            if \<not> ValidLocationID loc then failOp ErrForbidden
            else thenOp (mapped mapMeta (trashQuery t (\<lambda>d. trashGet d (usrID usr) loc))) (\<lambda>item.
              case NormalizePath (if destPath = [] then tiOriginalPath item else destPath) of
                Inl _ \<Rightarrow> failOp ErrBadRequest
              | Inr dest \<Rightarrow>
                  if dest = ''/'' then failOp ErrBadRequest
                  else tryOp (davStatOp a destUser dest) (\<lambda>st.
                    if (case st of Inl e \<Rightarrow> e \<noteq> ErrNotFound | Inr _ \<Rightarrow> False) then liftOp (map_sum (\<lambda>e. e) (\<lambda>e. (e, False)) st)
                    else (let exists = (case st of Inl _ \<Rightarrow> False | Inr _ \<Rightarrow> True) in
                      if exists \<and> \<not> overwrite then failOp ErrExists
                      else thenOp (if exists then Purge a destUser dest else retOp ()) (\<lambda>_.
                        thenOp (davStatOp a destUser (parentDir dest)) (\<lambda>_.
                        thenOp (restoreCommit t a user (usrID usr) loc (tiOriginalPath item) dest) (\<lambda>got.
                        retOp (got, \<not> exists)))))))))"

section \<open>Purging\<close>

text \<open>
  \<open>deleteStorageTree\<close>: a key is visited, then its members, then it is dropped. A key that is gone counts as deleted, for
  the recursive calls and for \<open>PurgeLocation\<close>. The keys that are left are a list.
\<close>

datatype treeTask = VisitKey string | DropKey string

definition treeStep :: "'s Storage \<Rightarrow> treeTask \<Rightarrow> 's \<Rightarrow> 's \<times> treeTask list storage_result" where
  "treeStep st task s = (case task of
      VisitKey key \<Rightarrow> (case stStat st s key of
          Inl e \<Rightarrow> (s, if e = SErrNotFound then Inr [] else Inl e)
        | Inr info \<Rightarrow>
            if \<not> fiIsDir info then (s, Inr [DropKey key])
            else (case stList st s key of
                Inl e \<Rightarrow> (s, if e = SErrNotFound then Inr [DropKey key] else Inl e)
              | Inr kids \<Rightarrow> (s, Inr (map (\<lambda>k. VisitKey (fiPath k)) (sort_key (\<lambda>k. - int (length (fiPath k))) kids) @ [DropKey key]))))
    | DropKey key \<Rightarrow> (case stDelete st s key of
          (s', Inl e) \<Rightarrow> (s', if e = SErrNotFound then Inr [] else Inl e)
        | (s', Inr _) \<Rightarrow> (s', Inr [])))"

partial_function (option) deleteTree :: "'s Storage \<Rightarrow> treeTask list \<Rightarrow> 's \<Rightarrow> ('s \<times> unit storage_result) option" where
  "deleteTree st todo s =
     (if todo = [] then Some (s, Inr ())
      else case treeStep st (hd todo) s of
          (s', Inl e) \<Rightarrow> Some (s', Inl e)
        | (s', Inr tasks) \<Rightarrow> deleteTree st (tasks @ tl todo) s')"

definition deleteStorageTree :: "'s Storage \<Rightarrow> string \<Rightarrow> ('s, 'd, 'h, unit) dav_op" where
  "deleteStorageTree st key = (\<lambda>w. case deleteTree st [VisitKey key] (vStorage w) of
      None \<Rightarrow> None
    | Some (s, r) \<Rightarrow> Some (w\<lparr>vStorage := s\<rparr>, map_sum mapStorage (\<lambda>x. x) r))"

definition filesOp :: "('s, 'd, 'h) Trash \<Rightarrow> (('s, 'd, 'h) davAdapter \<Rightarrow> ('s, 'd, 'h, unit) dav_op) \<Rightarrow> ('s, 'd, 'h, unit) dav_op" where
  "filesOp t f = (case trFiles t of None \<Rightarrow> retOp () | Some a \<Rightarrow> f a)"

definition PurgeLocation :: "('s, 'd, 'h) Trash \<Rightarrow> string \<Rightarrow> string \<Rightarrow> ('s, 'd, 'h, unit) dav_op" where
  "PurgeLocation t user loc =
     thenOp (liftOp (serviceUser (trUsers t) user)) (\<lambda>usr.
     if \<not> ValidLocationID loc then failOp ErrForbidden
     else thenOp (mapped mapMeta (trashQuery t (\<lambda>d. trashGet d (usrID usr) loc))) (\<lambda>item.
       thenOp (liftOp (trashStorageKey user loc)) (\<lambda>key.
       thenOp (deleteStorageTree (trStorage t) key) (\<lambda>_.
       thenOp (trashOp t (\<lambda>d. trashDelete d (usrID usr) loc)) (\<lambda>del.
       if (case del of Inl e \<Rightarrow> e \<noteq> FErrNotFound | Inr _ \<Rightarrow> False) then liftOp (map_sum mapMeta (\<lambda>x. x) del)
       else thenOp (filesOp t (\<lambda>a. versionsOp a (\<lambda>vs. vsDeleteByPath vs user (tiOriginalPath item)))) (\<lambda>_.
         thenOp (filesOp t (\<lambda>a. propsOp a (\<lambda>ps h. psDeleteByPath ps h (usrID usr) (tiOriginalPath item)))) (\<lambda>_.
         filesOp t (\<lambda>a. sharesOp a (\<lambda>ss h. shDeleteByPath ss h (usrID usr) (tiOriginalPath item))))))))))"

primrec expireItems :: "('s, 'd, 'h) Trash \<Rightarrow> string \<Rightarrow> TrashItem list \<Rightarrow> ('s, 'd, 'h, unit) dav_op" where
  "expireItems t user [] = retOp ()"
| "expireItems t user (i # items) =
     (if tiDeleted i > trNow t - retention t then expireItems t user items
      else tryOp (PurgeLocation t user (tiLocationID i)) (\<lambda>r.
        if (case r of Inl e \<Rightarrow> e \<noteq> ErrNotFound | Inr _ \<Rightarrow> False) then liftOp r else expireItems t user items))"

definition trashExpire :: "('s, 'd, 'h) Trash \<Rightarrow> string \<Rightarrow> int \<Rightarrow> ('s, 'd, 'h, unit) dav_op" where
  "trashExpire t user userID = thenOp (mapped mapMeta (trashQuery t (\<lambda>d. trashList d userID))) (expireItems t user)"

section \<open>The collection of the trash bin\<close>

definition trashStat :: "(string \<Rightarrow> string) \<Rightarrow> ('s, 'd, 'h) Trash \<Rightarrow> string \<Rightarrow> string \<Rightarrow> ('s, 'd, 'h, Entry) dav_op" where
  "trashStat sha1 t user p =
     thenOp (liftOp (serviceUser (trUsers t) user)) (\<lambda>usr.
     thenOp (liftOp (splitTrashPath p)) (\<lambda>(coll, loc).
     if coll = [] then retOp (collEntry sha1 ''/'' (trNow t))
     else if loc = [] then (if coll \<noteq> ''trash'' \<and> coll \<noteq> ''restore'' then failOp ErrForbidden else retOp (collEntry sha1 ''/'' (trNow t)))
     else thenOp (trashExpire t user (usrID usr)) (\<lambda>_.
       thenOp (mapped mapMeta (trashQuery t (\<lambda>d. trashGet d (usrID usr) loc))) (\<lambda>item.
       retOp (itemEntry sha1 (trNow t) item (''/'' @ loc))))))"

definition trashListDir :: "(string \<Rightarrow> string) \<Rightarrow> ('s, 'd, 'h) Trash \<Rightarrow> string \<Rightarrow> string \<Rightarrow> ('s, 'd, 'h, Entry list) dav_op" where
  "trashListDir sha1 t user p =
     thenOp (liftOp (serviceUser (trUsers t) user)) (\<lambda>usr.
     thenOp (liftOp (splitTrashPath p)) (\<lambda>(coll, loc).
     if loc \<noteq> [] then thenOp (trashStat sha1 t user p) (\<lambda>ent. if \<not> eIsDir ent then failOp ErrNotDir else retOp [])
     else if coll = [] then retOp [collEntry sha1 ''/trash'' (trNow t), collEntry sha1 ''/restore'' (trNow t)]
     else if coll = ''restore'' then retOp []
     else if coll \<noteq> ''trash'' then failOp ErrForbidden
     else thenOp (trashExpire t user (usrID usr)) (\<lambda>_.
       thenOp (mapped mapMeta (trashQuery t (\<lambda>d. trashList d (usrID usr)))) (\<lambda>items.
       retOp (map (\<lambda>i. itemEntry sha1 (trNow t) i (''/'' @ tiLocationID i)) items)))))"

definition trashRead :: "(string \<Rightarrow> string) \<Rightarrow> ('s, 'd, 'h) Trash \<Rightarrow> string \<Rightarrow> string \<Rightarrow> ('s, 'd, 'h, string \<times> Entry) dav_op" where
  "trashRead sha1 t user p =
     thenOp (trashStat sha1 t user p) (\<lambda>ent.
     if eIsDir ent then failOp ErrIsDir
     else thenOp (liftOp (splitTrashPath p)) (\<lambda>(_, loc).
       thenOp (liftOp (trashStorageKey user loc)) (\<lambda>key.
       thenOp (mapped mapStorage (storeOp (\<lambda>s. (s, stOpen (trStorage t) s key)))) (\<lambda>rc. retOp (rc, ent)))))"

definition trashRemove :: "('s, 'd, 'h) Trash \<Rightarrow> string \<Rightarrow> string \<Rightarrow> ('s, 'd, 'h, unit) dav_op" where
  "trashRemove t user p =
     thenOp (liftOp (splitTrashPath p)) (\<lambda>(_, loc). if loc = [] then failOp ErrForbidden else PurgeLocation t user loc)"

end
