(* ===== verification/Files_Versions.thy ===== *)
theory Files_Versions
  imports Files_Trash
begin

text \<open>
  Earlier versions of files (\<^verbatim>\<open>src/internal/files/versions.go\<close>, \<^verbatim>\<open>versionstore.go\<close>): the table \<open>file_versions\<close> with the
  operations of \<open>SQLVersionStore\<close>, and the file system \<open>Versions\<close> over it, the storage and the DAV adapter. The
  adapter calls \<open>Snapshot\<close>, \<open>DeleteByPath\<close> and \<open>RenamePath\<close> through the record \<open>VersionService\<close>.
\<close>

section \<open>The table\<close>

record FileVersion =
  fvID :: int
  fvUserID :: int
  fvPath :: string
  fvRevision :: string
  fvSize :: int
  fvChecksum :: string
  fvCreated :: int

record versionTable =
  vtRows :: "FileVersion list"
  vtNext :: int
  vtDown :: "string option"

definition ValidRevision :: "string \<Rightarrow> bool" where
  "ValidRevision rv \<longleftrightarrow>
     (if rv = [] \<or> length rv > 64 \<or> CHR ''/'' \<in> set rv \<or> CHR 0x5C \<in> set rv \<or> containsAt rv ''..'' \<noteq> [] then False
      else is_digit (hd rv) \<and> list_all (\<lambda>c. is_digit c \<or> c = CHR ''-'') (tl rv))"

definition verKey :: "FileVersion \<Rightarrow> int \<times> string \<times> string" where
  "verKey v = (fvUserID v, fvPath v, fvRevision v)"

definition verGet :: "versionTable \<Rightarrow> int \<Rightarrow> string \<Rightarrow> string \<Rightarrow> FileVersion files_result" where
  "verGet d userID filePath revision =
     (if userID = 0 \<or> filePath = [] \<or> revision = [] then Inl FErrNotFound
      else case NormalizePath filePath of
          Inl e \<Rightarrow> Inl e
        | Inr np \<Rightarrow> (case vtDown d of
            Some e \<Rightarrow> Inl (dbError ''files: version get'' e)
          | None \<Rightarrow> (case find (\<lambda>v. verKey v = (userID, np, revision)) (vtRows d) of None \<Rightarrow> Inl FErrNotFound | Some v \<Rightarrow> Inr v)))"

definition verInsert :: "int \<Rightarrow> versionTable \<Rightarrow> FileVersion \<Rightarrow> versionTable \<times> FileVersion files_result" where
  "verInsert now d v0 =
     (if fvUserID v0 = 0 \<or> fvPath v0 = [] \<or> fvRevision v0 = [] then (d, Inl (FErrOther ''files: invalid file version''))
      else if \<not> ValidRevision (fvRevision v0) then (d, Inl FErrInvalidPath)
      else case NormalizePath (fvPath v0) of
          Inl e \<Rightarrow> (d, Inl e)
        | Inr np \<Rightarrow>
            (let v = v0\<lparr>fvPath := np, fvCreated := msTrunc (if fvCreated v0 = zeroTime then now else fvCreated v0)\<rparr> in
             case vtDown d of
               Some e \<Rightarrow> (d, Inl (dbError ''files: version insert'' e))
             | None \<Rightarrow>
                 if list_ex (\<lambda>r. verKey r = verKey v) (vtRows d) then (d, Inl FErrExists)
                 else
                   (let d1 = d\<lparr>vtRows := vtRows d @ [v\<lparr>fvID := vtNext d\<rparr>], vtNext := vtNext d + 1\<rparr>
                    in (d1, verGet d1 (fvUserID v) (fvPath v) (fvRevision v)))))"

definition verListByPath :: "versionTable \<Rightarrow> int \<Rightarrow> string \<Rightarrow> FileVersion list files_result" where
  "verListByPath d userID filePath = (case NormalizePath filePath of
      Inl e \<Rightarrow> Inl e
    | Inr np \<Rightarrow> (case vtDown d of
        Some e \<Rightarrow> Inl (dbError ''files: version list'' e)
      | None \<Rightarrow> Inr (sort_key fvRevision (filter (\<lambda>v. fvUserID v = userID \<and> fvPath v = np) (vtRows d)))))"

definition verBelow :: "(string \<Rightarrow> string \<Rightarrow> bool) \<Rightarrow> int \<Rightarrow> string \<Rightarrow> FileVersion \<Rightarrow> bool" where
  "verBelow like userID np v \<longleftrightarrow> fvUserID v = userID \<and> (fvPath v = np \<or> like (likeBelow np) (fvPath v))"

definition verListByPrefix :: "(string \<Rightarrow> string \<Rightarrow> bool) \<Rightarrow> versionTable \<Rightarrow> int \<Rightarrow> string \<Rightarrow> FileVersion list files_result" where
  "verListByPrefix like d userID filePath = (case NormalizePath filePath of
      Inl e \<Rightarrow> Inl e
    | Inr np \<Rightarrow> (case vtDown d of
        Some e \<Rightarrow> Inl (dbError ''files: version list prefix'' e)
      | None \<Rightarrow> Inr (sort_key fvPath (sort_key fvRevision (filter (verBelow like userID np) (vtRows d))))))"

definition verDelete :: "versionTable \<Rightarrow> int \<Rightarrow> string \<Rightarrow> string \<Rightarrow> versionTable \<times> unit files_result" where
  "verDelete d userID filePath revision = (case NormalizePath filePath of
      Inl e \<Rightarrow> (d, Inl e)
    | Inr np \<Rightarrow> (case vtDown d of
        Some e \<Rightarrow> (d, Inl (dbError ''files: version delete'' e))
      | None \<Rightarrow>
          (let hit = (\<lambda>v. verKey v = (userID, np, revision))
           in if list_ex hit (vtRows d) then (d\<lparr>vtRows := filter (\<lambda>v. \<not> hit v) (vtRows d)\<rparr>, Inr ()) else (d, Inl FErrNotFound))))"

definition verDeleteByPath :: "(string \<Rightarrow> string \<Rightarrow> bool) \<Rightarrow> versionTable \<Rightarrow> int \<Rightarrow> string \<Rightarrow> versionTable \<times> FileVersion list files_result" where
  "verDeleteByPath like d userID filePath = (case verListByPrefix like d userID filePath of
      Inl e \<Rightarrow> (d, Inl e)
    | Inr items \<Rightarrow> (case NormalizePath filePath of
        Inl e \<Rightarrow> (d, Inl e)
      | Inr np \<Rightarrow> (d\<lparr>vtRows := filter (\<lambda>v. \<not> verBelow like userID np v) (vtRows d)\<rparr>, Inr items)))"

definition verDeleteExpired :: "versionTable \<Rightarrow> int \<Rightarrow> string \<Rightarrow> int \<Rightarrow> versionTable \<times> FileVersion list files_result" where
  "verDeleteExpired d userID filePath before = (case NormalizePath filePath of
      Inl e \<Rightarrow> (d, Inl e)
    | Inr np \<Rightarrow> (case vtDown d of
        Some e \<Rightarrow> (d, Inl (dbError ''files: version expire list'' e))
      | None \<Rightarrow>
          (let hit = (\<lambda>v. fvUserID v = userID \<and> fvPath v = np \<and> unix_milli (fvCreated v) \<le> unix_milli before); expired = filter hit (vtRows d)
           in if expired = [] then (d, Inr []) else (d\<lparr>vtRows := filter (\<lambda>v. \<not> hit v) (vtRows d)\<rparr>, Inr expired))))"

fun verRenameRows :: "string \<Rightarrow> string \<Rightarrow> FileVersion list \<Rightarrow> versionTable \<Rightarrow> versionTable \<times> unit files_result" where
  "verRenameRows src dst [] d = (d, Inr ())"
| "verRenameRows src dst (v # vs) d =
     (let v' = v\<lparr>fvPath := movedPath src dst (fvPath v)\<rparr> in
      if list_ex (\<lambda>r. fvID r \<noteq> fvID v \<and> verKey r = verKey v') (vtRows d) then (d, Inl (dbError ''files: version rename'' ''unique constraint''))
      else verRenameRows src dst vs (d\<lparr>vtRows := map (\<lambda>r. if fvID r = fvID v then r\<lparr>fvPath := fvPath v'\<rparr> else r) (vtRows d)\<rparr>))"

definition verRenamePath :: "(string \<Rightarrow> string \<Rightarrow> bool) \<Rightarrow> versionTable \<Rightarrow> int \<Rightarrow> string \<Rightarrow> string \<Rightarrow> versionTable \<times> unit files_result" where
  "verRenamePath like d userID srcPath dstPath = (case NormalizePath srcPath of
      Inl e \<Rightarrow> (d, Inl e)
    | Inr src \<Rightarrow> (case NormalizePath dstPath of
        Inl e \<Rightarrow> (d, Inl e)
      | Inr dst \<Rightarrow> (case verListByPrefix like d userID src of
          Inl e \<Rightarrow> (d, Inl e)
        | Inr items \<Rightarrow> verRenameRows src dst items d)))"

section \<open>Keys and paths\<close>

definition versionStorageKey :: "string \<Rightarrow> int \<Rightarrow> string" where
  "versionStorageKey uid i = ''versions/'' @ uid @ ''/'' @ int_to_dec i"

definition parseNumericFileID :: "string \<Rightarrow> int option" where
  "parseNumericFileID s =
     (let ds = takeWhile is_digit s in
      if ds = [] then None
      else case parse_int64 ds of None \<Rightarrow> None | Some n \<Rightarrow> if n \<le> 0 then None else Some n)"

definition splitVersionsPath :: "string \<Rightarrow> (string \<times> string \<times> string) result" where
  "splitVersionsPath p = (case NormalizePath p of
      Inl _ \<Rightarrow> Inl ErrForbidden
    | Inr np \<Rightarrow>
        if np = ''/'' then Inr ([], [], [])
        else
          (let parts = split_byte (trim_prefix np ''/'') (CHR ''/''); coll = hd parts in
           if coll \<noteq> ''versions'' \<and> coll \<noteq> ''restore'' then Inl ErrForbidden
           else if length parts = 1 then Inr (coll, [], [])
           else if coll = ''restore'' then Inr (coll, [], [])
           else if length parts > 3 then Inl ErrForbidden
           else Inr (coll, parts ! 1, if length parts = 3 then parts ! 2 else [])))"

section \<open>The file system\<close>

text \<open>\<open>veLike\<close> is the \<open>LIKE\<close> of the database; \<open>vePart\<close> and \<open>vePut\<close> read and write the table in the state of the services.\<close>

record ('s, 'd, 'h) Versions =
  veStorage :: "'s Storage"
  vePart :: "'h \<Rightarrow> versionTable"
  vePut :: "versionTable \<Rightarrow> 'h \<Rightarrow> 'h"
  veLike :: "string \<Rightarrow> string \<Rightarrow> bool"
  veUsers :: "string \<Rightarrow> users_error + UserRow"
  veNow :: int
  veRetention :: int

definition verOp :: "('s, 'd, 'h) Versions \<Rightarrow> (versionTable \<Rightarrow> versionTable \<times> 'a files_result) \<Rightarrow> ('s, 'd, 'h, 'a files_result) dav_op" where
  "verOp v f = hookOp (\<lambda>h. case onPart (vePart v) (vePut v) f h of (h', r) \<Rightarrow> (h', Inr r))"

definition verQuery :: "('s, 'd, 'h) Versions \<Rightarrow> (versionTable \<Rightarrow> 'a files_result) \<Rightarrow> ('s, 'd, 'h, 'a files_result) dav_op" where
  "verQuery v f = (\<lambda>w. Some (w, Inr (f (vePart v (vHooks w)))))"

definition verRetention :: "('s, 'd, 'h) Versions \<Rightarrow> int" where
  "verRetention v = (if veRetention v > 0 then veRetention v else 30 * 24 * 3600 * 1000000000)"

definition uniqueRevision :: "('s, 'd, 'h) Versions \<Rightarrow> int \<Rightarrow> string \<Rightarrow> int \<Rightarrow> ('s, 'd, 'h, string) dav_op" where
  "uniqueRevision v userID filePath ts =
     (\<lambda>w. Some (w, probe (verGet (vePart v (vHooks w)) userID filePath) (suffixed (int_to_dec (ts div 1000000000)))))"

definition fileForID :: "UserRow \<Rightarrow> string \<Rightarrow> ('s, 'd, 'h, File) dav_op" where
  "fileForID usr fileID = (case parseNumericFileID fileID of
      None \<Rightarrow> failOp ErrForbidden
    | Some i \<Rightarrow> thenOp (mapped mapMeta (queryOp (\<lambda>d. fcGetByID d i))) (\<lambda>f.
        if fUserID f \<noteq> usrID usr then failOp ErrForbidden else if fIsDir f then failOp ErrIsDir else retOp f))"

definition revEntry :: "(string \<Rightarrow> string) \<Rightarrow> int \<Rightarrow> FileVersion \<Rightarrow> string \<Rightarrow> Entry" where
  "revEntry sha1 now ver p =
     (let mt = (if fvCreated ver = zeroTime then now else fvCreated ver) in
      zeroEntry\<lparr>ePath := p, eIsDir := False, eSize := fvSize ver, eModTime := mt, eNumericID := (if fvID ver > 0 then fvID ver else 0),
        ePermissions := PermRead + PermDelete, eContentType := ''application/octet-stream'',
        eETag := ComputeETag sha1 (fvSize ver) mt (fvRevision ver), eChecksum := fvChecksum ver\<rparr>)"

text \<open>The stored bytes of versions whose rows are gone.\<close>

primrec dropVersions :: "('s, 'd, 'h) Versions \<Rightarrow> string \<Rightarrow> FileVersion list \<Rightarrow> ('s, 'd, 'h, unit) dav_op" where
  "dropVersions v uid [] = retOp ()"
| "dropVersions v uid (ver # vers) = thenOp (storeOp (\<lambda>s. stDelete (veStorage v) s (versionStorageKey uid (fvID ver)))) (\<lambda>r.
     if (case r of Inl e \<Rightarrow> e \<noteq> SErrNotFound | Inr _ \<Rightarrow> False) then liftOp (map_sum mapStorage (\<lambda>x. x) r) else dropVersions v uid vers)"

definition verExpire :: "('s, 'd, 'h) Versions \<Rightarrow> string \<Rightarrow> int \<Rightarrow> string \<Rightarrow> ('s, 'd, 'h, unit) dav_op" where
  "verExpire v uid userID filePath =
     thenOp (mapped mapMeta (verOp v (\<lambda>d. verDeleteExpired d userID filePath (veNow v - verRetention v)))) (dropVersions v uid)"

text \<open>A read of an opened file does not fail; a failing \<open>Close\<close> of the copy deletes it again.\<close>

definition copyToVersion :: "('s, 'd, 'h) Versions \<Rightarrow> string \<Rightarrow> FileVersion \<Rightarrow> string \<Rightarrow> ('s, 'd, 'h, unit) dav_op" where
  "copyToVersion v uid ver srcKey =
     thenOp (ensureDirs (veStorage v) ''versions'' uid) (\<lambda>_.
     thenOp (mapped mapStorage (storeOp (\<lambda>s. (s, stOpen (veStorage v) s srcKey)))) (\<lambda>content.
     let dst = versionStorageKey uid (fvID ver) in
     thenOp (mapped mapStorage (storeOp (\<lambda>s. stCreate (veStorage v) s dst))) (\<lambda>_.
     thenOp (storeOp (\<lambda>s. stClose (veStorage v) s dst content)) (\<lambda>r. case r of
         Inr _ \<Rightarrow> retOp ()
       | Inl e \<Rightarrow> thenOp (storeOp (\<lambda>s. stDelete (veStorage v) s dst)) (\<lambda>del.
           failOp (case del of Inl e2 \<Rightarrow> joinErr (ErrOther (storageText e)) e2 | Inr _ \<Rightarrow> ErrOther (storageText e)))))))"

definition joinFilesErr :: "fs_error \<Rightarrow> files_error \<Rightarrow> fs_error" where
  "joinFilesErr cause e = (case cause of ErrOther t \<Rightarrow> ErrOther (t @ CHR 0x0A # errText e) | _ \<Rightarrow> cause)"

definition Snapshot :: "('s, 'd, 'h) Versions \<Rightarrow> string \<Rightarrow> File \<Rightarrow> ('s, 'd, 'h, unit) dav_op" where
  "Snapshot v user f =
     (if fIsDir f then retOp ()
      else thenOp (liftOp (serviceUser (veUsers v) user)) (\<lambda>usr.
        if fUserID f \<noteq> usrID usr then failOp ErrForbidden
        else thenOp (uniqueRevision v (usrID usr) (fPath f) (fMtime f)) (\<lambda>rv.
          thenOp (liftOp (storageKey user (fPath f))) (\<lambda>from.
          thenOp (mapped mapMeta (verOp v (\<lambda>d. verInsert (veNow v) d \<lparr>fvID = 0, fvUserID = usrID usr, fvPath = fPath f, fvRevision = rv,
              fvSize = fSize f, fvChecksum = fChecksum f, fvCreated = veNow v\<rparr>))) (\<lambda>item.
          tryOp (copyToVersion v user item from) (\<lambda>r. case r of
              Inr _ \<Rightarrow> retOp ()
            | Inl e \<Rightarrow> thenOp (verOp v (\<lambda>d. verDelete d (usrID usr) (fPath f) rv)) (\<lambda>del.
                failOp (case del of Inl de \<Rightarrow> if de \<noteq> FErrNotFound then joinFilesErr e de else e | Inr _ \<Rightarrow> e))))))))"

definition verDeletePath :: "('s, 'd, 'h) Versions \<Rightarrow> string \<Rightarrow> string \<Rightarrow> ('s, 'd, 'h, unit) dav_op" where
  "verDeletePath v user p =
     thenOp (liftOp (serviceUser (veUsers v) user)) (\<lambda>usr.
     thenOp (mapped mapMeta (verOp v (\<lambda>d. verDeleteByPath (veLike v) d (usrID usr) p))) (dropVersions v user))"

definition verMovePath :: "('s, 'd, 'h) Versions \<Rightarrow> string \<Rightarrow> string \<Rightarrow> string \<Rightarrow> ('s, 'd, 'h, unit) dav_op" where
  "verMovePath v user src dst =
     thenOp (liftOp (serviceUser (veUsers v) user)) (\<lambda>usr. mapped mapMeta (verOp v (\<lambda>d. verRenamePath (veLike v) d (usrID usr) src dst)))"

definition versionService :: "('s, 'd, 'h) Versions \<Rightarrow> ('s, 'd, 'h) VersionService" where
  "versionService v = \<lparr>vsSnapshot = Snapshot v, vsDeleteByPath = verDeletePath v, vsRenamePath = verMovePath v\<rparr>"

section \<open>Restoring\<close>

text \<open>\<open>Files\<close> is the adapter \<open>a\<close>; \<^const>\<open>None\<close> is nil.\<close>

definition withFiles :: "('s, 'd, 'h) davAdapter option \<Rightarrow> (('s, 'd, 'h) davAdapter \<Rightarrow> ('s, 'd, 'h, 'a) dav_op) \<Rightarrow> ('s, 'd, 'h, 'a) dav_op" where
  "withFiles files f = (case files of None \<Rightarrow> failOp ErrForbidden | Some a \<Rightarrow> f a)"

definition RestoreVersion ::
  "('s, 'd, 'h) Versions \<Rightarrow> ('s, 'd, 'h) davAdapter option \<Rightarrow> string \<Rightarrow> string \<Rightarrow> string \<Rightarrow> string \<Rightarrow> ('s, 'd, 'h, Entry \<times> bool) dav_op" where
  "RestoreVersion v files user fileID revision destUser =
     (if user \<noteq> destUser then failOp ErrForbidden
      else withFiles files (\<lambda>a.
        if \<not> ValidRevision revision then failOp ErrForbidden
        else thenOp (liftOp (serviceUser (veUsers v) user)) (\<lambda>usr.
          thenOp (fileForID usr fileID) (\<lambda>f.
          thenOp (mapped mapMeta (verQuery v (\<lambda>d. verGet d (usrID usr) (fPath f) revision))) (\<lambda>ver.
          thenOp (mapped mapStorage (storeOp (\<lambda>s. (s, stOpen (veStorage v) s (versionStorageKey user (fvID ver)))))) (\<lambda>rc.
          writeConditional a False user (fPath f) (rc, None) None True None))))))"

definition RollbackLatest :: "('s, 'd, 'h) Versions \<Rightarrow> ('s, 'd, 'h) davAdapter \<Rightarrow> string \<Rightarrow> string \<Rightarrow> ('s, 'd, 'h, unit) dav_op" where
  "RollbackLatest v a user p =
     thenOp (liftOp (serviceUser (veUsers v) user)) (\<lambda>usr. case NormalizePath p of
         Inl e \<Rightarrow> failOp (mapMeta e)
       | Inr np \<Rightarrow> thenOp (mapped mapMeta (verQuery v (\<lambda>d. verListByPath d (usrID usr) np))) (\<lambda>items.
           case sort_key (\<lambda>i. - fvCreated i) items of
             [] \<Rightarrow> failOp (rawErr FErrNotFound)
           | latest # _ \<Rightarrow>
               (let key = versionStorageKey user (fvID latest) in
                thenOp (mapped mapStorage (storeOp (\<lambda>s. (s, stOpen (veStorage v) s key)))) (\<lambda>rc.
                thenOp (writeConditional a False user np (rc, None) None False None) (\<lambda>_.
                thenOp (storeOp (\<lambda>s. stDelete (veStorage v) s key)) (\<lambda>r.
                if (case r of Inl e \<Rightarrow> e \<noteq> SErrNotFound | Inr _ \<Rightarrow> False) then liftOp (map_sum mapStorage (\<lambda>x. x) r)
                else thenOp (verOp v (\<lambda>d. verDelete d (usrID usr) np (fvRevision latest))) (\<lambda>del.
                  if (case del of Inl e \<Rightarrow> e \<noteq> FErrNotFound | Inr _ \<Rightarrow> False) then liftOp (map_sum mapMeta (\<lambda>x. x) del) else retOp ())))))))"

section \<open>The collection of the versions\<close>

definition verStat :: "(string \<Rightarrow> string) \<Rightarrow> ('s, 'd, 'h) Versions \<Rightarrow> ('s, 'd, 'h) davAdapter option \<Rightarrow> string \<Rightarrow> string \<Rightarrow> ('s, 'd, 'h, Entry) dav_op" where
  "verStat sha1 v files user p =
     thenOp (liftOp (serviceUser (veUsers v) user)) (\<lambda>usr.
     thenOp (liftOp (splitVersionsPath p)) (\<lambda>(coll, fileID, rv).
     if coll = [] \<or> coll = ''restore'' \<or> fileID = [] then retOp (collEntry sha1 ''/'' (veNow v))
     else withFiles files (\<lambda>a.
       thenOp (fileForID usr fileID) (\<lambda>f.
       if rv = [] then retOp (collEntry sha1 ''/'' (veNow v))
       else thenOp (verExpire v user (usrID usr) (fPath f)) (\<lambda>_.
         thenOp (mapped mapMeta (verQuery v (\<lambda>d. verGet d (usrID usr) (fPath f) rv))) (\<lambda>ver.
         retOp (revEntry sha1 (veNow v) ver (''/'' @ rv))))))))"

definition verList :: "(string \<Rightarrow> string) \<Rightarrow> ('s, 'd, 'h) Versions \<Rightarrow> ('s, 'd, 'h) davAdapter option \<Rightarrow> string \<Rightarrow> string \<Rightarrow> ('s, 'd, 'h, Entry list) dav_op" where
  "verList sha1 v files user p =
     thenOp (liftOp (serviceUser (veUsers v) user)) (\<lambda>usr.
     thenOp (liftOp (splitVersionsPath p)) (\<lambda>(coll, fileID, rv).
     if rv \<noteq> [] then failOp ErrNotDir
     else if coll = [] then retOp [collEntry sha1 ''/versions'' (veNow v), collEntry sha1 ''/restore'' (veNow v)]
     else if coll = ''restore'' \<or> fileID = [] then retOp []
     else withFiles files (\<lambda>a.
       thenOp (fileForID usr fileID) (\<lambda>f.
       thenOp (verExpire v user (usrID usr) (fPath f)) (\<lambda>_.
       thenOp (mapped mapMeta (verQuery v (\<lambda>d. verListByPath d (usrID usr) (fPath f)))) (\<lambda>items.
       retOp (map (\<lambda>i. revEntry sha1 (veNow v) i (''/'' @ fvRevision i)) items)))))))"

definition verRead :: "(string \<Rightarrow> string) \<Rightarrow> ('s, 'd, 'h) Versions \<Rightarrow> ('s, 'd, 'h) davAdapter option \<Rightarrow> string \<Rightarrow> string \<Rightarrow> ('s, 'd, 'h, string \<times> Entry) dav_op" where
  "verRead sha1 v files user p =
     thenOp (verStat sha1 v files user p) (\<lambda>ent.
     if eIsDir ent then failOp ErrIsDir
     else thenOp (liftOp (splitVersionsPath p)) (\<lambda>(_, fileID, rv).
       thenOp (liftOp (serviceUser (veUsers v) user)) (\<lambda>usr.
       withFiles files (\<lambda>a.
       thenOp (fileForID usr fileID) (\<lambda>f.
       thenOp (mapped mapMeta (verQuery v (\<lambda>d. verGet d (usrID usr) (fPath f) rv))) (\<lambda>ver.
       thenOp (mapped mapStorage (storeOp (\<lambda>s. (s, stOpen (veStorage v) s (versionStorageKey user (fvID ver)))))) (\<lambda>rc.
       retOp (rc, ent))))))))"

definition verRemove :: "('s, 'd, 'h) Versions \<Rightarrow> ('s, 'd, 'h) davAdapter option \<Rightarrow> string \<Rightarrow> string \<Rightarrow> ('s, 'd, 'h, unit) dav_op" where
  "verRemove v files user p =
     thenOp (liftOp (splitVersionsPath p)) (\<lambda>(_, fileID, rv).
     if rv = [] then failOp ErrForbidden
     else thenOp (liftOp (serviceUser (veUsers v) user)) (\<lambda>usr.
       withFiles files (\<lambda>a.
       thenOp (fileForID usr fileID) (\<lambda>f.
       thenOp (mapped mapMeta (verQuery v (\<lambda>d. verGet d (usrID usr) (fPath f) rv))) (\<lambda>ver.
       thenOp (storeOp (\<lambda>s. stDelete (veStorage v) s (versionStorageKey user (fvID ver)))) (\<lambda>r.
       if (case r of Inl e \<Rightarrow> e \<noteq> SErrNotFound | Inr _ \<Rightarrow> False) then liftOp (map_sum mapStorage (\<lambda>x. x) r)
       else thenOp (verOp v (\<lambda>d. verDelete d (usrID usr) (fPath f) rv)) (\<lambda>del.
         if (case del of Inl e \<Rightarrow> e \<noteq> FErrNotFound | Inr _ \<Rightarrow> False) then liftOp (map_sum mapMeta (\<lambda>x. x) del) else retOp ())))))))"

end
