(* ===== verification/Storage_Laws.thy ===== *)
theory Storage_Laws
  imports Storage_Local
begin

text \<open>The view after a node, with all below it, was moved.\<close>

definition moveView :: "string list \<Rightarrow> string list \<Rightarrow> (string list \<Rightarrow> dnode option) \<Rightarrow> string list \<Rightarrow> dnode option" where
  "moveView p q v x = (if atOrBelow q x then v (p @ drop (length q) x) else if atOrBelow p x then None else v x)"

lemma atOrBelow_iff: "atOrBelow a x \<longleftrightarrow> (\<exists>y. x = a @ y)"
  unfolding atOrBelow_def by (metis append_eq_conv_conj append_take_drop_id)

lemma atOrBelow_append [simp]: "atOrBelow a (a @ y)"
  by (auto simp: atOrBelow_iff)

text \<open>
  The contract of a storage back end on keys of plain segments, as a locale: a view of the state as a tree of directories and
  files, and what every operation does to it. The back end on a local directory fulfils it.
\<close>

section \<open>Keys\<close>

definition joinKey :: "string list \<Rightarrow> string" where
  "joinKey segs = tl (mkpath segs)"

definition plainKey :: "string list \<Rightarrow> bool" where
  "plainKey segs \<longleftrightarrow> segs \<noteq> [] \<and> list_all plain_seg segs"

lemma resolve_joinKey:
  assumes "plainKey segs" shows "resolve (joinKey segs) = Inr segs"
proof -
  obtain x xs where s: "segs = x # xs" "plain_seg x" "list_all plain_seg xs" using assms by (cases segs) (auto simp: plainKey_def)
  have sp: "split_byte (mkpath segs) (CHR ''/'') = [] # segs" using assms plain_no_slash [of segs] by (intro split_mkpath) (simp add: plainKey_def)
  have "split_byte (mkpath segs) (CHR ''/'') = [] # split_byte (joinKey segs) (CHR ''/'')"
    using split_byte_append [of "CHR ''/''" "[]" "x @ mkpath xs"] s(1) by (simp add: joinKey_def)
  then have split: "split_byte (joinKey segs) (CHR ''/'') = segs" using sp by simp
  have "joinKey segs \<noteq> []" "\<not> has_prefix (joinKey segs) ''/''"
    using s by (auto simp: joinKey_def plain_seg_def neq_Nil_conv has_prefix_iff)
  moreover have "''..'' \<notin> set segs" "filter (\<lambda>s. s \<noteq> [] \<and> s \<noteq> ''.'') segs = segs"
    using assms by (auto simp: plainKey_def list_all_iff plain_seg_def)
  ultimately show ?thesis by (simp add: resolve_def split)
qed

section \<open>The contract\<close>

locale storage_laws =
  fixes st :: "'s Storage" and view :: "'s \<Rightarrow> string list \<Rightarrow> dnode option" and ok :: "'s \<Rightarrow> bool"
  assumes view_parent: "ok s \<Longrightarrow> view s segs = Some n \<Longrightarrow> segs \<noteq> [] \<Longrightarrow> view s (butlast segs) = Some DDir"
    and stat_found: "ok s \<Longrightarrow> plainKey segs \<Longrightarrow> view s segs = Some n \<Longrightarrow> stStat st s (joinKey segs) = Inr (fileInfo (joinKey segs) n)"
    and open_file: "ok s \<Longrightarrow> plainKey segs \<Longrightarrow> view s segs = Some (DFile c) \<Longrightarrow> stOpen st s (joinKey segs) = Inr c"
    and open_missing: "ok s \<Longrightarrow> plainKey segs \<Longrightarrow> view s (butlast segs) = Some DDir \<Longrightarrow> view s segs = None
      \<Longrightarrow> stOpen st s (joinKey segs) = Inl SErrNotFound"
    and create: "ok s \<Longrightarrow> plainKey segs \<Longrightarrow> view s (butlast segs) = Some DDir \<Longrightarrow>
      \<exists>s'. stCreate st s (joinKey segs) = (s', Inr ()) \<and> ok s' \<and> view s' = view s"
    and close_file: "ok s \<Longrightarrow> plainKey segs \<Longrightarrow> view s (butlast segs) = Some DDir \<Longrightarrow> view s segs \<noteq> Some DDir \<Longrightarrow>
      \<exists>s'. stClose st s (joinKey segs) c = (s', Inr ()) \<and> ok s' \<and> view s' = (view s)(segs \<mapsto> DFile c)"
    and delete_leaf: "ok s \<Longrightarrow> plainKey segs \<Longrightarrow> view s segs = Some n \<Longrightarrow> n \<noteq> DDir \<or> (\<forall>x. view s (segs @ [x]) = None) \<Longrightarrow>
      \<exists>s'. stDelete st s (joinKey segs) = (s', Inr ()) \<and> ok s' \<and> view s' = (view s)(segs := None)"
    and delete_missing: "ok s \<Longrightarrow> plainKey segs \<Longrightarrow> view s (butlast segs) = Some DDir \<Longrightarrow> view s segs = None \<Longrightarrow>
      stDelete st s (joinKey segs) = (s, Inl SErrNotFound)"
    and delete_full: "ok s \<Longrightarrow> plainKey segs \<Longrightarrow> view s segs = Some DDir \<Longrightarrow> view s (segs @ [x]) \<noteq> None \<Longrightarrow>
      stDelete st s (joinKey segs) = (s, Inl SErrNotEmpty)"
    and mkdir_new: "ok s \<Longrightarrow> plainKey segs \<Longrightarrow> view s (butlast segs) = Some DDir \<Longrightarrow> view s segs = None \<Longrightarrow>
      \<exists>s'. stMkdir st s (joinKey segs) = (s', Inr ()) \<and> ok s' \<and> view s' = (view s)(segs \<mapsto> DDir)"
    and mkdir_exists: "ok s \<Longrightarrow> plainKey segs \<Longrightarrow> view s segs = Some n \<Longrightarrow> stMkdir st s (joinKey segs) = (s, Inl SErrExists)"
    and rename_node: "ok s \<Longrightarrow> view s p = Some n \<Longrightarrow> plainKey p \<Longrightarrow> view s q = None \<Longrightarrow> plainKey q \<Longrightarrow> view s (butlast q) = Some DDir
      \<Longrightarrow> \<not> atOrBelow p q \<Longrightarrow> \<exists>s'. stRename st s (joinKey p) (joinKey q) = (s', Inr ()) \<and> ok s' \<and> view s' = moveView p q (view s)"

section \<open>The local directory\<close>

declare confined.simps [simp del]


definition diskOK :: "disk \<Rightarrow> bool" where
  "diskOK D \<longleftrightarrow> map_of D [] = Some DDir \<and> (\<forall>q n. map_of D q = Some n \<longrightarrow> q \<noteq> [] \<longrightarrow> map_of D (butlast q) = Some DDir)"

lemma disk_ancestor:
  assumes "diskOK D" and "map_of D (xs @ ys) = Some n" and "ys \<noteq> []"
  shows "map_of D xs = Some DDir"
  using assms(2,3)
proof (induction ys arbitrary: n rule: rev_induct)
  case (snoc y ys)
  have "map_of D (butlast (xs @ ys @ [y])) = Some DDir" using assms(1) snoc.prems(1) unfolding diskOK_def by blast
  then have "map_of D (xs @ ys) = Some DDir" by (simp add: butlast_append)
  then show ?case using snoc.IH by (cases "ys = []") auto
qed simp

lemma walk_found:
  assumes "diskOK D" and "map_of D (pre @ rest) = Some n" shows "walk D pre rest = Inr n"
  using assms(2)
proof (induction rest arbitrary: pre)
  case (Cons s rest)
  have "map_of D pre = Some DDir" using disk_ancestor [OF assms(1) Cons.prems] by simp
  then show ?case using Cons.IH [of "pre @ [s]"] Cons.prems by simp
qed simp

lemma lstat_found: "diskOK D \<Longrightarrow> map_of D segs = Some n \<Longrightarrow> lstat D segs = Inr n"
  using walk_found [of D "[]" segs n] by (simp add: lstat_def)

lemma walk_missing:
  assumes "diskOK D" and "map_of D (pre @ rest) = Some DDir" and "map_of D (pre @ rest @ [s]) = None"
  shows "walk D pre (rest @ [s]) = Inl ENOENT"
  using assms(2,3)
proof (induction rest arbitrary: pre)
  case (Cons x rest)
  have "map_of D pre = Some DDir" using disk_ancestor [OF assms(1) Cons.prems(1)] by simp
  then show ?case using Cons.IH [of "pre @ [x]"] Cons.prems by simp
qed simp

lemma lstat_missing:
  assumes "diskOK D" and "segs \<noteq> []" and "map_of D (butlast segs) = Some DDir" and "map_of D segs = None"
  shows "lstat D segs = Inl ENOENT"
  using walk_missing [of D "[]" "butlast segs" "last segs"] assms by (simp add: lstat_def)

lemma confined_found: "diskOK D \<Longrightarrow> map_of D segs = Some n \<Longrightarrow> confined D segs = Inr ()"
  by (subst confined.simps) (simp add: lstat_found)

lemma confined_missing:
  assumes "diskOK D" and "segs \<noteq> []" and "map_of D (butlast segs) = Some DDir" and "map_of D segs = None"
  shows "confined D segs = Inr ()"
  using confined_found [OF assms(1,3)] assms(2) by (subst confined.simps) (simp add: lstat_missing [OF assms])

lemma mkdirAll_found:
  assumes "diskOK D" and "map_of D (pre @ rest) = Some DDir" shows "mkdirAll D pre rest = (D, None)"
  using assms(2)
proof (induction rest arbitrary: pre)
  case (Cons s rest)
  have "map_of D pre = Some DDir" using disk_ancestor [OF assms(1) Cons.prems] by simp
  then show ?case using Cons.IH [of "pre @ [s]"] Cons.prems by simp
qed simp

lemma diskOK_update:
  assumes "diskOK D" and "segs \<noteq> []" and "map_of D (butlast segs) = Some DDir" and "map_of D segs \<noteq> Some DDir \<or> n = DDir"
  shows "diskOK (AList.update segs n D)"
proof -
  have "butlast segs \<noteq> segs" using assms(2) by (metis append_butlast_last_id append_self_conv not_Cons_self2)
  then show ?thesis using assms unfolding diskOK_def by (auto simp: update_conv')
qed

lemma readDir_Nil: "readDir D segs = [] \<longleftrightarrow> (\<forall>x. map_of D (segs @ [x]) = None)"
proof -
  have "readDir D segs = [] \<longleftrightarrow> (\<forall>q \<in> fst ` set D. \<not> (q \<noteq> [] \<and> butlast q = segs))"
    unfolding set_empty [symmetric] readDir_def by force
  also have "\<dots> \<longleftrightarrow> (\<forall>x. segs @ [x] \<notin> fst ` set D)" by (metis append_butlast_last_id butlast_snoc snoc_eq_iff_butlast)
  finally show ?thesis by (simp add: map_of_eq_None_iff)
qed

lemma diskOK_delete:
  assumes "diskOK D" and "segs \<noteq> []" and "map_of D segs = Some n" and "n \<noteq> DDir \<or> (\<forall>x. map_of D (segs @ [x]) = None)"
  shows "diskOK (AList.delete segs D)"
  unfolding diskOK_def
proof (intro conjI allI impI)
  show "map_of (AList.delete segs D) [] = Some DDir" using assms(1,2) by (simp add: diskOK_def delete_conv')
  fix q m assume q: "map_of (AList.delete segs D) q = Some m" "q \<noteq> []"
  then have m: "map_of D q = Some m" by (auto simp: delete_conv' split: if_splits)
  then have p: "map_of D (butlast q) = Some DDir" using assms(1) q(2) by (auto simp: diskOK_def)
  have "butlast q \<noteq> segs"
  proof
    assume e: "butlast q = segs"
    then have "q = segs @ [last q]" using q(2) append_butlast_last_id [of q] by simp
    then show False using assms(3,4) p m e by (metis option.distinct(1) option.inject)
  qed
  then show "map_of (AList.delete segs D) (butlast q) = Some DDir" using p by (simp add: delete_conv')
qed

lemmas lf_defs = localfs_def lfStat_def lfOpen_def lfCreate_def lfClose_def lfDelete_def lfMkdir_def confinedDir_def mapExistErr_def

lemma disk_below:
  assumes "diskOK D" and "map_of D q = None" and "atOrBelow q x" shows "map_of D x = None"
proof (rule ccontr)
  assume "map_of D x \<noteq> None"
  then obtain n y where "map_of D (q @ y) = Some n" using assms(3) by (auto simp: atOrBelow_iff)
  then show False using disk_ancestor [OF assms(1), of q y n] assms(2) by (cases "y = []") auto
qed

lemma map_of_rekey:
  assumes "inj_on g (insert x (fst ` set D))" shows "map_of (map (\<lambda>(k, v). (g k, v)) D) (g x) = map_of D x"
  using assms by (induction D) (auto simp: inj_on_def split: prod.splits)

lemma map_of_rekey_None:
  assumes "\<forall>k \<in> fst ` set D. g k \<noteq> y" shows "map_of (map (\<lambda>(k, v). (g k, v)) D) y = None"
  using assms by (force simp: map_of_eq_None_iff)

lemma rekey_view:
  assumes d: "diskOK D" and q: "map_of D q = None" and pq: "\<not> atOrBelow p q"
  shows "map_of (map (\<lambda>(x, n). (if atOrBelow p x then q @ drop (length p) x else x, n)) D) = moveView p q (map_of D)"
proof
  fix y
  let ?g = "\<lambda>x. if atOrBelow p x then q @ drop (length p) x else x"
  let ?D = "map (\<lambda>(x, n). (?g x, n)) D"
  have nk: "\<not> atOrBelow q k" if "k \<in> fst ` set D" for k
    using disk_below [OF d q, of k] that by (auto simp: map_of_eq_None_iff)
  have inj: "inj_on ?g {x. \<not> atOrBelow q x}" by (auto simp: inj_on_def atOrBelow_iff)
  have sub: "fst ` set D \<subseteq> {x. \<not> atOrBelow q x}" using nk by auto
  show "map_of ?D y = moveView p q (map_of D) y"
  proof (cases "atOrBelow q y")
    case True
    then obtain z where y: "y = q @ z" by (auto simp: atOrBelow_iff)
    show ?thesis
    proof (cases "atOrBelow q (p @ z)")
      case False
      have "inj_on ?g (insert (p @ z) (fst ` set D))" by (rule inj_on_subset [OF inj]) (use sub False in auto)
      from map_of_rekey [OF this] show ?thesis using True y by (simp add: moveView_def)
    next
      case t: True
      have "map_of D (p @ z) = None" using disk_below [OF d q t] .
      moreover have "\<forall>k \<in> fst ` set D. ?g k \<noteq> y"
      proof
        fix k assume k: "k \<in> fst ` set D"
        show "?g k \<noteq> y"
        proof
          assume g: "?g k = y"
          then have "atOrBelow p k" using nk [OF k] True by (auto split: if_splits)
          then have "k = p @ z" using g y by (auto simp: atOrBelow_iff)
          then show False using nk [OF k] t by simp
        qed
      qed
      ultimately show ?thesis using map_of_rekey_None True y by (simp add: moveView_def)
    qed
  next
    case False
    show ?thesis
    proof (cases "atOrBelow p y")
      case True
      have "\<forall>k \<in> fst ` set D. ?g k \<noteq> y" using False True by (auto simp: atOrBelow_iff) metis
      from map_of_rekey_None [OF this] show ?thesis using True False by (simp add: moveView_def)
    next
      case np: False
      have "inj_on ?g (insert y (fst ` set D))" by (rule inj_on_subset [OF inj]) (use sub False in auto)
      from map_of_rekey [OF this] show ?thesis using np False by (simp add: moveView_def)
    qed
  qed
qed

lemma diskOK_rekey:
  assumes d: "diskOK D" and p: "map_of D p = Some n" "p \<noteq> []" and q: "map_of D q = None" "q \<noteq> []" "map_of D (butlast q) = Some DDir" and pq: "\<not> atOrBelow p q"
  shows "diskOK (map (\<lambda>(x, n). (if atOrBelow p x then q @ drop (length p) x else x, n)) D)"
  unfolding diskOK_def rekey_view [OF d q(1) pq]
proof (intro conjI allI impI)
  show "moveView p q (map_of D) [] = Some DDir" using d p(2) q(2) by (simp add: moveView_def atOrBelow_def diskOK_def)
  fix y m assume y: "moveView p q (map_of D) y = Some m" "y \<noteq> []"
  have par: "map_of D x = Some k \<Longrightarrow> x \<noteq> [] \<Longrightarrow> map_of D (butlast x) = Some DDir" for x k using d by (auto simp: diskOK_def)
  show "moveView p q (map_of D) (butlast y) = Some DDir"
  proof (cases "atOrBelow q y")
    case True
    then obtain z where z: "y = q @ z" by (auto simp: atOrBelow_iff)
    show ?thesis
    proof (cases "z = []")
      case True
      have "\<not> atOrBelow q (butlast q)" using q(2) by (cases q rule: rev_cases) (auto simp: atOrBelow_iff)
      moreover have "\<not> atOrBelow p (butlast q)" using pq q(2) by (auto simp: atOrBelow_iff) (metis append_butlast_last_id append_assoc)
      ultimately show ?thesis using True z q(3) by (simp add: moveView_def)
    next
      case False
      then have "map_of D (p @ z) = Some m" using y z by (simp add: moveView_def)
      then have "map_of D (p @ butlast z) = Some DDir" using par [of "p @ z" m] False by (simp add: butlast_append)
      then show ?thesis using z False by (simp add: moveView_def butlast_append)
    qed
  next
    case nq: False
    then have np: "\<not> atOrBelow p y" and m: "map_of D y = Some m" using y by (auto simp: moveView_def split: if_splits)
    have "\<not> atOrBelow q (butlast y)" using nq y(2) by (auto simp: atOrBelow_iff) (metis append_butlast_last_id append_assoc)
    moreover have "\<not> atOrBelow p (butlast y)" using np y(2) by (auto simp: atOrBelow_iff) (metis append_butlast_last_id append_assoc)
    ultimately show ?thesis using par [OF m y(2)] by (simp add: moveView_def)
  qed
qed

lemma lfRename_ok:
  assumes d: "diskOK D" and p: "map_of D p = Some n" "plainKey p" and q: "map_of D q = None" "plainKey q" "map_of D (butlast q) = Some DDir" and pq: "\<not> atOrBelow p q"
  shows "\<exists>D'. stRename localfs D (joinKey p) (joinKey q) = (D', Inr ()) \<and> diskOK D' \<and> map_of D' = moveView p q (map_of D)"
proof -
  have ne: "p \<noteq> []" "q \<noteq> []" using p(2) q(2) by (auto simp: plainKey_def)
  have "lstat D q = Inl ENOENT" by (rule lstat_missing [OF d ne(2) q(3,1)])
  then have "osRename D p q = (map (\<lambda>(x, n). (if atOrBelow p x then q @ drop (length p) x else x, n)) D, None)"
    using lstat_found [OF d p(1)] pq by (simp add: osRename_def)
  moreover have "mkdirAll D [] (butlast q) = (D, None)" using mkdirAll_found [OF d, of "[]" "butlast q"] q(3) by simp
  ultimately have "stRename localfs D (joinKey p) (joinKey q) = (map (\<lambda>(x, n). (if atOrBelow p x then q @ drop (length p) x else x, n)) D, Inr ())"
    using resolve_joinKey p q ne lstat_found [OF d p(1)] confined_found [OF d] d
    by (simp add: localfs_def lfRename_def confinedDir_def del: mkdirAll.simps)
  then show ?thesis using diskOK_rekey [OF d p(1) ne(1) q(1) ne(2) q(3) pq] rekey_view [OF d q(1) pq] by auto
qed

interpretation lfs: storage_laws localfs map_of diskOK
proof (unfold_locales)
  fix D :: disk and segs n
  show "diskOK D \<Longrightarrow> map_of D segs = Some n \<Longrightarrow> segs \<noteq> [] \<Longrightarrow> map_of D (butlast segs) = Some DDir" by (auto simp: diskOK_def)
next
  fix D :: disk and segs n assume "diskOK D" "plainKey segs" "map_of D segs = Some n"
  then show "stStat localfs D (joinKey segs) = Inr (fileInfo (joinKey segs) n)" by (simp add: lf_defs resolve_joinKey lstat_found)
next
  fix D :: disk and segs c assume "diskOK D" "plainKey segs" "map_of D segs = Some (DFile c)"
  then show "stOpen localfs D (joinKey segs) = Inr c" by (simp add: lf_defs resolve_joinKey lstat_found confined_found)
next
  fix D :: disk and segs assume d: "diskOK D" "plainKey segs" "map_of D (butlast segs) = Some DDir" "map_of D segs = None"
  then have n: "segs \<noteq> []" by (simp add: plainKey_def)
  show "stOpen localfs D (joinKey segs) = Inl SErrNotFound" "stDelete localfs D (joinKey segs) = (D, Inl SErrNotFound)"
    using d by (simp_all add: lf_defs resolve_joinKey lstat_missing [OF d(1) n d(3,4)] confined_missing [OF d(1) n d(3,4)])
  have "diskOK (AList.update segs DDir D)" using diskOK_update [OF d(1) n d(3)] by simp
  then show "\<exists>D'. stMkdir localfs D (joinKey segs) = (D', Inr ()) \<and> diskOK D' \<and> map_of D' = (map_of D)(segs \<mapsto> DDir)"
    using d n by (simp add: lf_defs resolve_joinKey lstat_missing [OF d(1) n d(3,4)] lstat_found confined_found update_conv')
next
  fix D :: disk and segs assume d: "diskOK D" "plainKey segs" "map_of D (butlast segs) = Some DDir"
  then have n: "segs \<noteq> []" by (simp add: plainKey_def)
  show "\<exists>D'. stCreate localfs D (joinKey segs) = (D', Inr ()) \<and> diskOK D' \<and> map_of D' = map_of D"
    using d n mkdirAll_found [OF d(1), of "[]" "butlast segs"] by (simp add: lf_defs resolve_joinKey confined_found del: mkdirAll.simps)
next
  fix D :: disk and segs c assume d: "diskOK D" "plainKey segs" "map_of D (butlast segs) = Some DDir" "map_of D segs \<noteq> Some DDir"
  then have n: "segs \<noteq> []" by (simp add: plainKey_def)
  have "diskOK (AList.update segs (DFile c) D)" using diskOK_update [OF d(1) n d(3)] d(4) by simp
  moreover have "lstat D segs \<noteq> Inr DDir"
    using d n lstat_missing [OF d(1) n d(3)] lstat_found [OF d(1)] by (cases "map_of D segs") auto
  ultimately show "\<exists>D'. stClose localfs D (joinKey segs) c = (D', Inr ()) \<and> diskOK D' \<and> map_of D' = (map_of D)(segs \<mapsto> DFile c)"
    using d by (auto simp: lf_defs resolve_joinKey update_conv' split: sum.splits dnode.splits)
next
  fix D :: disk and segs n assume d: "diskOK D" "plainKey segs" "map_of D segs = Some n" "n \<noteq> DDir \<or> (\<forall>x. map_of D (segs @ [x]) = None)"
  then have ne: "segs \<noteq> []" by (simp add: plainKey_def)
  show "\<exists>D'. stDelete localfs D (joinKey segs) = (D', Inr ()) \<and> diskOK D' \<and> map_of D' = (map_of D)(segs := None)"
    using d diskOK_delete [OF d(1) ne d(3,4)] readDir_Nil [of D segs]
    by (simp add: lf_defs resolve_joinKey lstat_found confined_found delete_conv')
next
  fix D :: disk and segs x assume d: "diskOK D" "plainKey segs" "map_of D segs = Some DDir" "map_of D (segs @ [x]) \<noteq> None"
  then have "readDir D segs \<noteq> []" unfolding readDir_Nil by auto
  then show "stDelete localfs D (joinKey segs) = (D, Inl SErrNotEmpty)" using d by (simp add: lf_defs resolve_joinKey lstat_found confined_found)
next
  fix D :: disk and segs n assume d: "diskOK D" "plainKey segs" "map_of D segs = Some n"
  moreover have "confinedDir D segs = Inr ()"
    using d confined_found [OF d(1), of "butlast segs"] by (cases "segs = []") (auto simp: confinedDir_def diskOK_def plainKey_def)
  ultimately show "stMkdir localfs D (joinKey segs) = (D, Inl SErrExists)"
    by (simp add: localfs_def lfMkdir_def resolve_joinKey lstat_found)
next
  fix D :: disk and p q n assume "diskOK D" "map_of D p = Some n" "plainKey p" "map_of D q = None" "plainKey q" "map_of D (butlast q) = Some DDir" "\<not> atOrBelow p q"
  then show "\<exists>D'. stRename localfs D (joinKey p) (joinKey q) = (D', Inr ()) \<and> diskOK D' \<and> map_of D' = moveView p q (map_of D)" by (rule lfRename_ok)
qed

end
