(* ===== verification/Files_DavLaws.thy ===== *)
theory Files_DavLaws
  imports Files_Dav Files_StoreInsert Storage_Laws
begin

text \<open>
  The state in which the DAV adapter serves a user (\<open>davInv\<close>): the file cache is a tree with right directory sizes, and the
  storage holds at the key of every row a directory, or a file of the recorded size and checksum. The lemmas are proved for
  every storage that keeps the contract \<open>storage_laws\<close>: resolving the user, looking rows up, reading, and storing a new file.
\<close>

section \<open>Keys of paths\<close>

definition segsOf :: "string \<Rightarrow> string list" where
  "segsOf p = (if p = ''/'' then [] else tl (split_byte p (CHR ''/'')))"

lemma segsOf_mkpath: "segs \<noteq> [] \<Longrightarrow> list_all plain_seg segs \<Longrightarrow> segsOf (mkpath segs) = segs"
  using split_mkpath [of segs] plain_no_slash [of segs] clean_not_root [OF clean_path_mkpath [of segs]] by (simp add: segsOf_def)

lemma segsOf_clean: "clean_path p \<Longrightarrow> p = mkpath (segsOf p) \<and> segsOf p \<noteq> [] \<and> list_all plain_seg (segsOf p)"
  using segsOf_mkpath by (auto simp: clean_path_iff)

lemma segsOf_root [simp]: "segsOf ''/'' = []"
  by (simp add: segsOf_def)

lemma segsOf_plain: "npath p \<Longrightarrow> list_all plain_seg (segsOf p)"
  using normal_path [of p] segsOf_clean by fastforce

lemma segsOf_inj: "npath p \<Longrightarrow> npath q \<Longrightarrow> segsOf p = segsOf q \<Longrightarrow> p = q"
  using normal_path [of p] normal_path [of q] segsOf_clean [of p] segsOf_clean [of q] by (metis segsOf_root)

lemma segsOf_dir:
  assumes "clean_path p" shows "segsOf (path_dir p) = butlast (segsOf p)"
proof -
  obtain segs s where p: "list_all plain_seg (segs @ [s])" "p = mkpath (segs @ [s])" using assms by (rule clean_pathE)
  have "segsOf p = segs @ [s]" using p segsOf_mkpath [of "segs @ [s]"] by simp
  moreover have "segsOf (path_dir p) = segs"
    using path_dir_mkpath [OF p(1)] p segsOf_mkpath [of segs] by (cases "segs = []") simp_all
  ultimately show ?thesis by simp
qed

lemma storageKey_segs:
  assumes "plain_seg uid" and "npath p"
  shows "storageKey uid p = Inr (joinKey (uid # segsOf p))" and "plainKey (uid # segsOf p)"
proof -
  show "plainKey (uid # segsOf p)" using assms segsOf_plain by (simp add: plainKey_def)
  show "storageKey uid p = Inr (joinKey (uid # segsOf p))"
  proof (cases "p = ''/''")
    case True
    have "trim_prefix ''/'' ''/'' = []" using trim_prefix_append [of "''/''" "[]"] by simp
    then show ?thesis using True assms(2) by (simp add: storageKey_def joinKey_def)
  next
    case False
    then have c: "clean_path p" using assms(2) normal_path by blast
    obtain x xs where s: "segsOf p = x # xs" "plain_seg x" using segsOf_clean [OF c] by (cases "segsOf p") auto
    then have p: "p = CHR ''/'' # x @ mkpath xs" using segsOf_clean [OF c] by simp
    then have "trim_prefix p ''/'' = x @ mkpath xs" using trim_prefix_append [of "''/''" "x @ mkpath xs"] by simp
    then show ?thesis using assms(2) s by (simp add: storageKey_def joinKey_def plain_seg_def)
  qed
qed

section \<open>Agreement of the file cache and the storage\<close>

definition keyAt :: "string \<Rightarrow> string \<Rightarrow> string list" where
  "keyAt uid p = uid # segsOf p"

text \<open>What the storage holds for a row: a directory, or a file of the recorded size and, when one is recorded, checksum.\<close>

definition stored :: "(string \<Rightarrow> string) \<Rightarrow> File \<Rightarrow> dnode \<Rightarrow> bool" where
  "stored sha256 f n = (case n of
      DDir \<Rightarrow> fIsDir f
    | DFile c \<Rightarrow> \<not> fIsDir f \<and> fSize f = int (length c) \<and> (fChecksum f = [] \<or> fChecksum f = ''SHA256:'' @ sha256 c))"

definition agrees :: "(string \<Rightarrow> string) \<Rightarrow> (string list \<Rightarrow> dnode option) \<Rightarrow> string \<Rightarrow> int \<Rightarrow> File list \<Rightarrow> bool" where
  "agrees sha256 v uid u rows \<longleftrightarrow> (\<forall>f \<in> set rows. fUserID f = u \<longrightarrow> (\<exists>n. v (keyAt uid (fPath f)) = Some n \<and> stored sha256 f n))"

definition hasRoot :: "fileTable \<Rightarrow> int \<Rightarrow> bool" where
  "hasRoot d u \<longleftrightarrow> (\<exists>r \<in> set (fcRows d). fUserID r = u \<and> fPath r = ''/'')"

text \<open>A state in which the requests of a user are served: the tree of rows, the sizes, and the storage.\<close>

definition davInv ::
  "('s \<Rightarrow> string list \<Rightarrow> dnode option) \<Rightarrow> ('s \<Rightarrow> bool) \<Rightarrow> ('s, 'd, 'h) davAdapter \<Rightarrow> string \<Rightarrow> UserRow \<Rightarrow> ('s, 'd, 'h) davState \<Rightarrow> bool" where
  "davInv view ok a uid usr w \<longleftrightarrow> aUsers a uid = Inr usr \<and> plain_seg uid \<and> usrID usr \<noteq> 0 \<and> ok (vStorage w) \<and> fileInv (vMeta w)
     \<and> hasRoot (vMeta w) (usrID usr) \<and> dirSizesOK (vMeta w) (usrID usr) (\<lambda>q. False)
     \<and> agrees (aSha256 a) (view (vStorage w)) uid (usrID usr) (fcRows (vMeta w))"

lemma davInvD:
  assumes "davInv view ok a uid usr w"
  shows "aUsers a uid = Inr usr" "plain_seg uid" "usrID usr \<noteq> 0" "ok (vStorage w)" "fileInv (vMeta w)" "hasRoot (vMeta w) (usrID usr)"
    "dirSizesOK (vMeta w) (usrID usr) (\<lambda>q. False)" "agrees (aSha256 a) (view (vStorage w)) uid (usrID usr) (fcRows (vMeta w))"
  using assms by (auto simp: davInv_def)

lemmas op_defs = retOp_def failOp_def liftOp_def tryOp_def thenOp_def metaOp_def queryOp_def storeOp_def hookOp_def mapped_def getOp_def

lemma getOp_run: "getOp u p w = Some (w, Inr (fcGetByPath (vMeta w) u p))"
  by (simp add: op_defs)

lemma EnsureRoot_found:
  assumes "fileInv d" and "hasRoot d u" shows "\<exists>r. EnsureRoot sha now d u = (d, Inr r)"
proof -
  obtain r where r: "r \<in> set (fcRows d)" "fUserID r = u" "fPath r = ''/''" using assms(2) by (auto simp: hasRoot_def)
  then have "fcGetByPath d u ''/'' = Inr r" using fcGetByPath_row [OF assms(1) r(1)] by simp
  then show ?thesis by (simp add: EnsureRoot_def)
qed

lemma agreesD:
  assumes "agrees sha256 v uid u rows" and "f \<in> set rows" and "fUserID f = u"
  shows "fIsDir f \<Longrightarrow> v (keyAt uid (fPath f)) = Some DDir"
    and "\<not> fIsDir f \<Longrightarrow> \<exists>c. v (keyAt uid (fPath f)) = Some (DFile c) \<and> fSize f = int (length c) \<and> (fChecksum f = [] \<or> fChecksum f = ''SHA256:'' @ sha256 c)"
proof -
  obtain n where "v (keyAt uid (fPath f)) = Some n" "stored sha256 f n" using assms by (auto simp: agrees_def)
  then show "fIsDir f \<Longrightarrow> v (keyAt uid (fPath f)) = Some DDir"
    and "\<not> fIsDir f \<Longrightarrow> \<exists>c. v (keyAt uid (fPath f)) = Some (DFile c) \<and> fSize f = int (length c) \<and> (fChecksum f = [] \<or> fChecksum f = ''SHA256:'' @ sha256 c)"
    by (cases n; simp add: stored_def)+
qed

context storage_laws
begin

lemma resolveUser_run:
  assumes i: "davInv view ok a uid usr w" and s: "aStorage a = st"
  shows "davResolveUser a uid w = Some (w, Inr usr)"
proof -
  note d = davInvD [OF i]
  have g: "\<not> (uid = [] \<or> CHR ''/'' \<in> set uid \<or> uid = ''..'')" using d(2) by (auto simp: plain_seg_def)
  obtain r where r: "r \<in> set (fcRows (vMeta w))" "fUserID r = usrID usr" "fPath r = ''/''" using d(6) by (auto simp: hasRoot_def)
  have "view (vStorage w) [uid] = Some DDir"
    using agreesD(1) [OF d(8) r(1,2)] fileParent(1) [OF d(5) r(1,3)] r(3) by (simp add: keyAt_def)
  moreover have "plainKey [uid]" using d(2) by (simp add: plainKey_def)
  ultimately have "stStat st (vStorage w) uid = Inr (fileInfo (joinKey [uid]) DDir)"
    using stat_found [OF d(4), of "[uid]"] by (simp add: joinKey_def)
  moreover obtain root where "EnsureRoot (aSha1 a) (aNow a) (vMeta w) (usrID usr) = (vMeta w, Inr root)"
    using EnsureRoot_found [OF d(5,6)] by blast
  ultimately show ?thesis using g d(1) s by (simp add: davResolveUser_def ensureHome_def op_defs)
qed

text \<open>Making a directory where a file is: the file loses its bytes.\<close>

lemma mkdirOwned_over_file:
  assumes i: "davInv view ok a uid usr w" and s: "aStorage a = st"
    and f: "f \<in> set (fcRows (vMeta w))" "fUserID f = usrID usr" "\<not> fIsDir f"
  shows "\<exists>w'. mkdirOwned a muted actor uid (fPath f) w = Some (w', Inl ErrExists) \<and> vMeta w' = vMeta w \<and> ok (vStorage w')
    \<and> view (vStorage w') = (view (vStorage w))(keyAt uid (fPath f) := None)"
proof -
  note d = davInvD [OF i]
  have np: "npath (fPath f)" using fileInvD(4) [OF d(5) f(1)] by simp
  have nr: "fPath f \<noteq> ''/''" using fileParent(1) [OF d(5) f(1)] f(3) by auto
  note k = storageKey_segs [OF d(2) np]
  obtain c where c: "view (vStorage w) (uid # segsOf (fPath f)) = Some (DFile c)"
    using agreesD(2) [OF d(8) f(1,2,3)] by (auto simp: keyAt_def)
  have mk: "stMkdir st (vStorage w) (joinKey (uid # segsOf (fPath f))) = (vStorage w, Inl SErrExists)" by (rule mkdir_exists [OF d(4) k(2) c])
  obtain s' where del: "stDelete st (vStorage w) (joinKey (uid # segsOf (fPath f))) = (s', Inr ())" "ok s'"
    "view s' = (view (vStorage w))(uid # segsOf (fPath f) := None)"
    using delete_leaf [OF d(4) k(2) c] by auto
  let ?nf = "newFile (usrID usr) (fPath f) True 0 (aNow a) [] ''httpd/unix-directory''"
  have ins: "fileInsert (aSha1 a) (aNow a) (vMeta w) ?nf = (vMeta w, Inl FErrExists)"
    by (rule fileInsert_exists [OF d(5) f(1)]) (use f(2) d(3) nr in \<open>simp_all add: newFile_def\<close>)
  have "mkdirOwned a muted actor uid (fPath f) w = Some (w\<lparr>vStorage := s'\<rparr>, Inl ErrExists)"
    using resolveUser_run [OF i s] np nr k(1) mk del(1) ins s
    by (simp add: mkdirOwned_def op_defs compensateDelete_def mapMeta_def)
  then show ?thesis using del by (auto simp: keyAt_def)
qed

end

section \<open>What follows a change of the rows\<close>

lemma applyLockUp_entry:
  "ePath (snd (applyLockUp ls now u d e cur)) = ePath e \<and> eSize (snd (applyLockUp ls now u d e cur)) = eSize e
   \<and> eETag (snd (applyLockUp ls now u d e cur)) = eETag e \<and> eIsDir (snd (applyLockUp ls now u d e cur)) = eIsDir e"
proof (induction ls now u d e cur rule: applyLockUp.induct)
  case (1 ls now u d e cur)
  then show ?case by (subst (1 2 3 4) applyLockUp.simps) (auto simp: Let_def split: sum.splits prod.splits option.splits bool.splits)
qed

lemma applyLock_entry:
  "ePath (snd (applyLock dav d u p e)) = ePath e" "eSize (snd (applyLock dav d u p e)) = eSize e"
  "eETag (snd (applyLock dav d u p e)) = eETag e" "eIsDir (snd (applyLock dav d u p e)) = eIsDir e"
  by (simp_all add: applyLock_def applyLockUp_entry split: option.split)

lemma entryOp_run:
  "\<exists>d e. entryOp a u f w = Some (w\<lparr>vLocks := d\<rparr>, Inr e) \<and> ePath e = fPath f \<and> eSize e = fSize f \<and> eETag e = fETag f \<and> eIsDir e = fIsDir f"
proof -
  obtain d e where de: "toEntry (lockView a w) (vLocks w) u f = (d, e)" by fastforce
  then have e: "e = snd (applyLock (lockView a w) (vLocks w) u (fPath f) (toEntryBare (lockView a w) u f))" by (simp add: toEntry_def)
  have "ePath e = fPath f \<and> eSize e = fSize f \<and> eETag e = fETag f \<and> eIsDir e = fIsDir f"
    unfolding e applyLock_entry by (simp add: toEntryBare_def)
  then show ?thesis using de by (auto simp: entryOp_def)
qed

lemma emitFileActivity_run: "\<exists>h. emitFileActivity a muted owner actor typ template p w = Some (w\<lparr>vHooks := h\<rparr>, Inr ())"
  unfolding emitFileActivity_def emitActivity_def hookOp_def retOp_def
  by (auto split: option.split intro: exI [of _ "vHooks w"])

lemma recalc_run:
  assumes "fileInv d" and "p \<in> set (fcRows d)" and "fIsDir p" and "fUserID p = u" and "dirSizesOK d u (\<lambda>q. onWay q (fPath p))"
  shows "\<exists>d'. RecalcAncestors sha clock d u (Some (fID p)) t = Some (d', Inr ()) \<and> fileInv d'
    \<and> list_all2 (recalced u) (fcRows d) (fcRows d') \<and> dirSizesOK d' u (\<lambda>q. False)"
  using recalcLoop_ok [of d p sha t] assms by (simp add: RecalcAncestors_def)

lemma recalced_member:
  assumes "list_all2 (recalced u) rows rows'" and "r' \<in> set rows'"
  shows "\<exists>r \<in> set rows. recalced u r r'"
  using assms by (auto simp: list_all2_conv_all_nth in_set_conv_nth) (metis nth_mem)

lemma recalced_member2:
  assumes "list_all2 (recalced u) rows rows'" and "r \<in> set rows"
  shows "\<exists>r' \<in> set rows'. recalced u r r'"
  using assms by (auto simp: list_all2_conv_all_nth in_set_conv_nth) (metis nth_mem)

lemma stored_recalced:
  assumes "recalced u r r'" and "stored sha256 r n" shows "stored sha256 r' n"
proof (cases "fIsDir r")
  case True
  have "fIsDir r' = fIsDir r" using assms(1) skeleton_sel(5) [of r' r] by (simp add: recalced_def)
  then show ?thesis using True assms(2) by (cases n) (simp_all add: stored_def)
next
  case False
  then show ?thesis using assms by (simp add: recalced_def)
qed

lemma agrees_recalced:
  assumes "list_all2 (recalced u) rows rows'" and "agrees sha256 v uid x rows"
  shows "agrees sha256 v uid x rows'"
  unfolding agrees_def
proof (intro ballI impI)
  fix r' assume r': "r' \<in> set rows'" "fUserID r' = x"
  obtain r where r: "r \<in> set rows" "recalced u r r'" using recalced_member [OF assms(1) r'(1)] by blast
  have "fUserID r = x" "fPath r' = fPath r" using r(2) r'(2) skeleton_sel(2,3) [of r' r] by (auto simp: recalced_def)
  then obtain n where "v (keyAt uid (fPath r)) = Some n" "stored sha256 r n" using assms(2) r(1) by (auto simp: agrees_def)
  then show "\<exists>n. v (keyAt uid (fPath r')) = Some n \<and> stored sha256 r' n"
    using stored_recalced [OF r(2)] \<open>fPath r' = fPath r\<close> by auto
qed

lemma hasRoot_recalced:
  assumes "list_all2 (recalced u) (fcRows d) (fcRows d')" and "hasRoot d x" shows "hasRoot d' x"
proof -
  obtain r where r: "r \<in> set (fcRows d)" "fUserID r = x" "fPath r = ''/''" using assms(2) by (auto simp: hasRoot_def)
  obtain r' where r': "r' \<in> set (fcRows d')" "recalced u r r'" using recalced_member2 [OF assms(1) r(1)] by blast
  then show ?thesis using r skeleton_sel(2,3) [of r' r] by (auto simp: hasRoot_def recalced_def)
qed

lemma davInv_update [simp]:
  "davInv view ok a uid usr (w\<lparr>vHooks := h\<rparr>) = davInv view ok a uid usr w"
  "davInv view ok a uid usr (w\<lparr>vLocks := l\<rparr>) = davInv view ok a uid usr w"
  by (simp_all add: davInv_def)

text \<open>The rows agree with the storage again once the changed key has its row.\<close>

lemma agrees_put:
  assumes "\<And>f. f \<in> set rows \<Longrightarrow> fUserID f = u \<Longrightarrow> (fPath f = np \<and> stored sha256 f n) \<or> (fPath f \<noteq> np \<and> npath (fPath f) \<and> (\<exists>m. v (keyAt uid (fPath f)) = Some m \<and> stored sha256 f m))"
    and "npath np"
  shows "agrees sha256 (v(keyAt uid np \<mapsto> n)) uid u rows"
  unfolding agrees_def
proof (intro ballI impI)
  fix f assume f: "f \<in> set rows" "fUserID f = u"
  have "fPath f \<noteq> np \<Longrightarrow> npath (fPath f) \<Longrightarrow> keyAt uid (fPath f) \<noteq> keyAt uid np" using segsOf_inj [of "fPath f" np] assms(2) by (auto simp: keyAt_def)
  then show "\<exists>m. (v(keyAt uid np \<mapsto> n)) (keyAt uid (fPath f)) = Some m \<and> stored sha256 f m" using assms(1) [OF f] by auto
qed

section \<open>Writing\<close>

text \<open>The end of \<open>write\<close>, once the row is stored: ancestors, activity, entry.\<close>

lemma writeTail_run:
  assumes i: "fileInv d" and p: "p \<in> set (fcRows d)" "fIsDir p" "fUserID p = u" and ok: "dirSizesOK d u (\<lambda>q. onWay q (fPath p))"
    and r: "r \<in> set (fcRows d)" "fUserID r = u" "\<not> fIsDir r" "fPath r = np" and w: "vMeta w = d" and f: "fParentID f = Some (fID p)"
  shows "\<exists>d' h l e. writeTail a muted actor u np mt b f w = Some (w\<lparr>vMeta := d', vHooks := h, vLocks := l\<rparr>, Inr (e, b))
    \<and> fileInv d' \<and> list_all2 (recalced u) (fcRows d) (fcRows d') \<and> dirSizesOK d' u (\<lambda>q. False) \<and> r \<in> set (fcRows d')
    \<and> ePath e = np \<and> eSize e = fSize r \<and> eETag e = fETag r \<and> \<not> eIsDir e"
proof -
  obtain d' where d': "RecalcAncestors (aSha1 a) (aNow a) d u (Some (fID p)) mt = Some (d', Inr ())" "fileInv d'"
    "list_all2 (recalced u) (fcRows d) (fcRows d')" "dirSizesOK d' u (\<lambda>q. False)"
    using recalc_run [OF i p ok] by blast
  obtain r' where r': "r' \<in> set (fcRows d')" "recalced u r r'" using recalced_member2 [OF d'(3) r(1)] by blast
  then have m: "r \<in> set (fcRows d')" using r(3) by (simp add: recalced_def)
  have got: "fcGetByPath d' u np = Inr r" using fcGetByPath_row [OF d'(2) m] r(2,4) by simp
  let ?w1 = "w\<lparr>vMeta := d'\<rparr>" and ?emit = "\<lambda>typ t. emitFileActivity a muted u actor typ t np"
  obtain h where h: "(if b then ?emit ''file_created'' ''{actor} created {file}'' else ?emit ''file_changed'' ''{actor} changed {file}'') ?w1
    = Some (?w1\<lparr>vHooks := h\<rparr>, Inr ())"
    using emitFileActivity_run [of a muted u actor _ _ np ?w1] by (cases b) auto
  obtain l e where e: "entryOp a u r (?w1\<lparr>vHooks := h\<rparr>) = Some (?w1\<lparr>vHooks := h\<rparr>\<lparr>vLocks := l\<rparr>, Inr e)"
    "ePath e = fPath r" "eSize e = fSize r" "eETag e = fETag r" "eIsDir e = fIsDir r"
    using entryOp_run [of a u r "?w1\<lparr>vHooks := h\<rparr>"] by auto
  have "writeTail a muted actor u np mt b f w = Some (w\<lparr>vMeta := d', vHooks := h, vLocks := l\<rparr>, Inr (e, b))"
    using d'(1) w got h e(1) f by (simp add: writeTail_def recalcOp_def thenOp_def tryOp_def mapped_def getOp_run liftOp_def retOp_def failOp_def)
  then show ?thesis using d' m e(2-) r(3,4) by blast
qed

context storage_laws
begin

lemma put_bytes:
  assumes "ok s" and "plainKey segs" and "view s (butlast segs) = Some DDir" and "view s segs \<noteq> Some DDir"
  shows "\<exists>s1 s2. stCreate st s (joinKey segs) = (s1, Inr ()) \<and> stClose st s1 (joinKey segs) c = (s2, Inr ()) \<and> ok s2
    \<and> view s2 = (view s)(segs \<mapsto> DFile c)"
proof -
  obtain s1 where s1: "stCreate st s (joinKey segs) = (s1, Inr ())" "ok s1" "view s1 = view s" using create [OF assms(1-3)] by blast
  obtain s2 where "stClose st s1 (joinKey segs) c = (s2, Inr ())" "ok s2" "view s2 = (view s1)(segs \<mapsto> DFile c)"
    using close_file [OF s1(2) assms(2)] assms(3,4) s1(3) by metis
  then show ?thesis using s1 by auto
qed

text \<open>The place of a write: the directory row and what the storage has there.\<close>

lemma write_place:
  assumes i: "davInv view ok a uid usr w" and np: "npath np" "np \<noteq> ''/''"
    and p: "p \<in> set (fcRows (vMeta w))" "fUserID p = usrID usr" "fPath p = path_dir np" "fIsDir p"
  shows "storageKey uid np = Inr (joinKey (keyAt uid np))" "plainKey (keyAt uid np)" "view (vStorage w) (butlast (keyAt uid np)) = Some DDir"
    "fcGetByPath (vMeta w) (usrID usr) (parentDir np) = Inr p"
proof -
  note d = davInvD [OF i]
  show "storageKey uid np = Inr (joinKey (keyAt uid np))" "plainKey (keyAt uid np)"
    using storageKey_segs [OF d(2) np(1)] by (simp_all add: keyAt_def)
  have c: "clean_path np" using np normal_path by blast
  have "butlast (keyAt uid np) = keyAt uid (fPath p)" using segsOf_dir [OF c] segsOf_clean [OF c] p(3) by (simp add: keyAt_def)
  then show "view (vStorage w) (butlast (keyAt uid np)) = Some DDir" using agreesD(1) [OF d(8) p(1,2,4)] by simp
  show "fcGetByPath (vMeta w) (usrID usr) (parentDir np) = Inr p"
    using fcGetByPath_row [OF d(5) p(1)] p parentDir_npath [OF np] fileInvD(4) [OF d(5) p(1)] by simp
qed

lemma davInv_after:
  assumes i: "davInv view ok a uid usr w" and w': "ok s'" "fileInv d'" "list_all2 (recalced (usrID usr)) (fcRows d1) (fcRows d')"
    "dirSizesOK d' (usrID usr) (\<lambda>q. False)" "hasRoot d1 (usrID usr)" "agrees (aSha256 a) (view s') uid (usrID usr) (fcRows d1)"
  shows "davInv view ok a uid usr (w\<lparr>vStorage := s', vMeta := d', vHooks := h, vLocks := l\<rparr>)"
  using davInvD(1-3) [OF i] w' agrees_recalced [OF w'(3,6)] hasRoot_recalced [OF w'(3,5)] by (simp add: davInv_def)

lemma writeStore_new:
  assumes i: "davInv view ok a uid usr w" and s: "aStorage a = st" and np: "npath np" "np \<noteq> ''/''"
    and p: "p \<in> set (fcRows (vMeta w))" "fUserID p = usrID usr" "fPath p = path_dir np" "fIsDir p"
    and free: "\<not> (\<exists>g \<in> set (fcRows (vMeta w)). fUserID g = usrID usr \<and> fPath g = np)" and nd: "view (vStorage w) (keyAt uid np) \<noteq> Some DDir"
  shows "\<exists>w' e r. writeStore a muted actor uid (usrID usr) np (body, None) mtime cond None w = Some (w', Inr (e, True))
    \<and> davInv view ok a uid usr w' \<and> view (vStorage w') = (view (vStorage w))(keyAt uid np \<mapsto> DFile body)
    \<and> r \<in> set (fcRows (vMeta w')) \<and> fUserID r = usrID usr \<and> fPath r = np \<and> \<not> fIsDir r \<and> fSize r = int (length body)
    \<and> eETag e = fETag r \<and> ePath e = np \<and> eSize e = int (length body)"
proof -
  note d = davInvD [OF i] and pl = write_place [OF i np p]
  obtain s1 s2 where st2: "stCreate st (vStorage w) (joinKey (keyAt uid np)) = (s1, Inr ())"
    "stClose st s1 (joinKey (keyAt uid np)) body = (s2, Inr ())" "ok s2" "view s2 = (view (vStorage w))(keyAt uid np \<mapsto> DFile body)"
    using put_bytes [OF d(4) pl(2,3) nd] by blast
  define mt where "mt = (case mtime of None \<Rightarrow> aNow a | Some t \<Rightarrow> t)"
  define f0 where "f0 = newFile (usrID usr) np False (int (length body)) mt (''SHA256:'' @ aSha256 a body) ''application/octet-stream''"
  have f0s: "fUserID f0 = usrID usr" "fPath f0 = np" "fIsDir f0 = False" "fSize f0 = int (length body)" "fChecksum f0 = ''SHA256:'' @ aSha256 a body"
    by (simp_all add: f0_def newFile_def)
  define r where "r = insertedRow (aSha1 a) (aNow a) (vMeta w) p f0"
  note rs = insertedRow_sel [of "aSha1 a" "aNow a" "vMeta w" p f0, folded r_def]
  define d1 where "d1 = (vMeta w)\<lparr>fcRows := fcRows (vMeta w) @ [r], fcNext := fcNext (vMeta w) + 1\<rparr>"
  have ins: "fileInsert (aSha1 a) (aNow a) (vMeta w) f0 = (d1, Inr r)" and i1: "fileInv d1"
    unfolding d1_def r_def by (rule fileInsert_ok [OF d(5) p(1)]; use p f0s np d(3) free in simp)+
  have ok1: "dirSizesOK d1 (usrID usr) (\<lambda>q. onWay q (fPath p))"
    using dirSizes_insert [OF d(5) _ p(1), of r] d(7) p(2) rs f0s unfolding d1_def by simp
  have mem: "p \<in> set (fcRows d1)" "r \<in> set (fcRows d1)" using p(1) by (simp_all add: d1_def)
  let ?w1 = "w\<lparr>vStorage := s2, vMeta := d1\<rparr>"
  obtain d' h l e where t: "writeTail a muted actor (usrID usr) np mt True r ?w1 = Some (?w1\<lparr>vMeta := d', vHooks := h, vLocks := l\<rparr>, Inr (e, True))"
    "fileInv d'" "list_all2 (recalced (usrID usr)) (fcRows d1) (fcRows d')" "dirSizesOK d' (usrID usr) (\<lambda>q. False)" "r \<in> set (fcRows d')"
    "ePath e = np" "eSize e = fSize r" "eETag e = fETag r"
    using writeTail_run [OF i1 mem(1) p(4,2) ok1 mem(2), of np ?w1 r a muted actor mt True] rs f0s by auto
  have run: "writeStore a muted actor uid (usrID usr) np (body, None) mtime cond None w
    = Some (?w1\<lparr>vMeta := d', vHooks := h, vLocks := l\<rparr>, Inr (e, True))"
    using t(1) pl(1) st2(1,2) ins s
    by (simp add: writeStore_def writeRow_def Let_def thenOp_def tryOp_def mapped_def liftOp_def retOp_def failOp_def storeOp_def metaOp_def
      flip: mt_def) (simp add: f0_def)
  have ag: "agrees (aSha256 a) (view s2) uid (usrID usr) (fcRows d1)"
    unfolding st2(4)
  proof (rule agrees_put [OF _ np(1)])
    fix f assume f: "f \<in> set (fcRows d1)" "fUserID f = usrID usr"
    show "(fPath f = np \<and> stored (aSha256 a) f (DFile body)) \<or> (fPath f \<noteq> np \<and> npath (fPath f) \<and> (\<exists>m. view (vStorage w) (keyAt uid (fPath f)) = Some m \<and> stored (aSha256 a) f m))"
    proof (cases "f = r")
      case True
      then show ?thesis using rs f0s by (simp add: stored_def)
    next
      case False
      then have m: "f \<in> set (fcRows (vMeta w))" using f(1) by (simp add: d1_def)
      then show ?thesis using free f(2) d(8) fileInvD(4) [OF d(5) m] by (auto simp: agrees_def)
    qed
  qed
  have rt: "hasRoot d1 (usrID usr)" using d(6) by (auto simp: hasRoot_def d1_def)
  have "davInv view ok a uid usr (w\<lparr>vStorage := s2, vMeta := d', vHooks := h, vLocks := l\<rparr>)"
    by (rule davInv_after [OF i st2(3) t(2,3,4) rt ag])
  then show ?thesis using run st2(4) t(5-) rs f0s by (intro exI [of _ "w\<lparr>vStorage := s2, vMeta := d', vHooks := h, vLocks := l\<rparr>"] exI [of _ e] exI [of _ r]) simp
qed

end

end
