(* ===== verification/Files_DavWrite.thy ===== *)
theory Files_DavWrite
  imports Files_DavLaws
begin

text \<open>
  Writing and making directories through the DAV adapter: overwriting a file, what an interrupted overwrite and a directory
  made over a file leave behind, and the whole conditional write, first for every storage with the contract
  \<open>storage_laws\<close>, then for the local directory.
\<close>

lemma UpdateMetaIfETag_same:
  assumes i: "fileInv d" and f: "f \<in> set (fcRows d)" and g: "fID g = fID f" "fPath g = fPath f"
  shows "UpdateMetaIfETag d g (fETag f) = (putRow g d, Inr ())"
proof -
  have one: "fID r = fID g \<and> fETag r = fETag f \<longleftrightarrow> fID r = fID g" if r: "r \<in> set (fcRows d)" for r
  proof
    assume e: "fID r = fID g"
    then have "r = f" using g(1) by (intro fileRow_eq [OF i r f] disjI1) simp
    then show "fID r = fID g \<and> fETag r = fETag f" using e by simp
  qed simp
  let ?P = "\<lambda>r. fID r = fID g \<and> fETag r = fETag f"
  have "\<not> list_ex (\<lambda>r. ?P r \<and> list_ex (\<lambda>s. fID s \<noteq> fID r \<and> fUserID s = fUserID r \<and> fPath s = fPath g) (fcRows d)) (fcRows d)"
  proof
    assume "list_ex (\<lambda>r. ?P r \<and> list_ex (\<lambda>s. fID s \<noteq> fID r \<and> fUserID s = fUserID r \<and> fPath s = fPath g) (fcRows d)) (fcRows d)"
    then obtain r s where rs: "r \<in> set (fcRows d)" "fID r = fID g" "s \<in> set (fcRows d)" "fID s \<noteq> fID r" "fUserID s = fUserID r" "fPath s = fPath g"
      by (auto simp: list_ex_iff)
    have "r = f" using rs(2) g(1) by (intro fileRow_eq [OF i rs(1) f] disjI1) simp
    then have "s = f" using rs(5,6) g(2) by (intro fileRow_eq [OF i rs(3) f] disjI2) (simp add: fileKey_def)
    then show False using rs(4) \<open>r = f\<close> by simp
  qed
  moreover have "map (\<lambda>r. if ?P r then updateMetaStmt g r else r) (fcRows d) = map (\<lambda>r. if fID r = fID g then updateMetaStmt g r else r) (fcRows d)"
    using one by (intro map_cong refl) auto
  moreover have "filter ?P (fcRows d) \<noteq> []" using f g by (auto simp: filter_empty_conv)
  ultimately show ?thesis
    using fileInvD(1) [OF i] fileInvD(4) [OF i f] g(1) by (simp add: UpdateMetaIfETag_def execUpdate_def putRow_def)
qed

context storage_laws
begin

lemma writeStore_over:
  assumes i: "davInv view ok a uid usr w" and s: "aStorage a = st"
    and f: "f \<in> set (fcRows (vMeta w))" "fUserID f = usrID usr" "\<not> fIsDir f"
  shows "\<exists>w' e r. writeStore a muted actor uid (usrID usr) (fPath f) (body, None) mtime cond (Some f) w = Some (w', Inr (e, False))
    \<and> davInv view ok a uid usr w' \<and> view (vStorage w') = (view (vStorage w))(keyAt uid (fPath f) \<mapsto> DFile body)
    \<and> r \<in> set (fcRows (vMeta w')) \<and> fUserID r = usrID usr \<and> fPath r = fPath f \<and> \<not> fIsDir r \<and> fSize r = int (length body)
    \<and> eETag e = fETag r \<and> ePath e = fPath f \<and> eSize e = int (length body)"
proof -
  note d = davInvD [OF i]
  have np: "npath (fPath f)" using fileInvD(4) [OF d(5) f(1)] by simp
  have nr: "fPath f \<noteq> ''/''" using fileParent(1) [OF d(5) f(1)] f(3) by auto
  obtain p where p: "p \<in> set (fcRows (vMeta w))" "fParentID f = Some (fID p)" "fUserID p = usrID usr" "fPath p = path_dir (fPath f)" "fIsDir p"
    using fileParent(2) [OF d(5) f(1) nr] f(2) by auto
  note pl = write_place [OF i np nr p(1,3,4,5)]
  have nd: "view (vStorage w) (keyAt uid (fPath f)) \<noteq> Some DDir" using agreesD(2) [OF d(8) f(1,2,3)] by auto
  obtain s1 s2 where st2: "stCreate st (vStorage w) (joinKey (keyAt uid (fPath f))) = (s1, Inr ())"
    "stClose st s1 (joinKey (keyAt uid (fPath f))) body = (s2, Inr ())" "ok s2" "view s2 = (view (vStorage w))(keyAt uid (fPath f) \<mapsto> DFile body)"
    using put_bytes [OF d(4) pl(2,3) nd] by blast
  define mt where "mt = (case mtime of None \<Rightarrow> aNow a | Some t \<Rightarrow> t)"
  define g where "g = f\<lparr>fSize := int (length body), fMtime := mt, fChecksum := ''SHA256:'' @ aSha256 a body,
    fETag := ComputeFileETag (aSha1 a) (fID f) mt (int (length body)), fKeyUUID := None\<rparr>"
  define r where "r = updateMetaStmt g f"
  have gs: "sameNode g f" by (simp add: g_def sameNode_def)
  then have rsame: "sameNode r f" unfolding r_def by (rule updateMetaStmt_same)
  have rs: "fID r = fID f" "fUserID r = usrID usr" "fPath r = fPath f" "\<not> fIsDir r" "fParentID r = Some (fID p)" "fSize r = int (length body)"
    "fChecksum r = ''SHA256:'' @ aSha256 a body" "fKeyUUID r \<noteq> Some []"
    using rsame f p(2) by (simp_all add: sameNode_def r_def g_def updateMetaStmt_def)
  define d1 where "d1 = (vMeta w)\<lparr>fcRows := map (setStat f r) (fcRows (vMeta w))\<rparr>"
  have put: "putRow g (vMeta w) = d1" unfolding d1_def r_def by (rule putRow_rows [OF d(5) f(1)]) (simp add: g_def)
  have upd: "(if cond = None then UpdateMeta (vMeta w) g else UpdateMetaIfETag (vMeta w) g (fETag f)) = (d1, Inr ())"
    using UpdateMeta_same_path [OF d(5) f(1), of g] UpdateMetaIfETag_same [OF d(5) f(1), of g] put gs by (simp add: sameNode_def)
  have i1: "fileInv d1" unfolding d1_def by (rule fileInv_overwrite [OF d(5) f(1) rsame rs(8)])
  have ok1: "dirSizesOK d1 (usrID usr) (\<lambda>q. onWay q (fPath p))"
    unfolding d1_def by (rule dirSizes_overwrite [OF d(5,7) f(1,3) rsame p(1,2)])
  have mem: "r \<in> set (fcRows d1)" using f(1) by (force simp: d1_def setStat_def)
  have "fID p \<noteq> fID f"
  proof
    assume "fID p = fID f"
    then have "p = f" by (intro fileRow_eq [OF d(5) p(1) f(1)] disjI1)
    then show False using p(5) f(3) by simp
  qed
  then have pm: "p \<in> set (fcRows d1)" using p(1) by (force simp: d1_def setStat_def)
  have row: "writeRow a (usrID usr) (fPath f) body mt cond (Some f) (w\<lparr>vStorage := s2\<rparr>) = Some (w\<lparr>vStorage := s2, vMeta := d1\<rparr>, Inr (Inr g))"
    using upd unfolding g_def by (cases cond) (simp_all add: writeRow_def Let_def thenOp_def tryOp_def retOp_def metaOp_def)
  let ?w1 = "w\<lparr>vStorage := s2, vMeta := d1\<rparr>"
  obtain d' h l e where t: "writeTail a muted actor (usrID usr) (fPath f) mt False g ?w1 = Some (?w1\<lparr>vMeta := d', vHooks := h, vLocks := l\<rparr>, Inr (e, False))"
    "fileInv d'" "list_all2 (recalced (usrID usr)) (fcRows d1) (fcRows d')" "dirSizesOK d' (usrID usr) (\<lambda>q. False)" "r \<in> set (fcRows d')"
    "ePath e = fPath f" "eSize e = fSize r" "eETag e = fETag r"
    using writeTail_run [OF i1 pm p(5,3) ok1 mem, of "fPath f" ?w1 g a muted actor mt False] rs gs p(2) by (auto simp: sameNode_def)
  have run: "writeStore a muted actor uid (usrID usr) (fPath f) (body, None) mtime cond (Some f) w
    = Some (?w1\<lparr>vMeta := d', vHooks := h, vLocks := l\<rparr>, Inr (e, False))"
    using t(1) pl(1) st2(1,2) row s
    by (simp add: writeStore_def Let_def thenOp_def tryOp_def mapped_def liftOp_def failOp_def storeOp_def flip: mt_def)
  have ag: "agrees (aSha256 a) (view s2) uid (usrID usr) (fcRows d1)"
    unfolding st2(4)
  proof (rule agrees_put [OF _ np])
    fix h assume h: "h \<in> set (fcRows d1)" "fUserID h = usrID usr"
    then obtain h0 where h0: "h0 \<in> set (fcRows (vMeta w))" "h = setStat f r h0" by (auto simp: d1_def)
    show "(fPath h = fPath f \<and> stored (aSha256 a) h (DFile body)) \<or> (fPath h \<noteq> fPath f \<and> npath (fPath h) \<and> (\<exists>m. view (vStorage w) (keyAt uid (fPath h)) = Some m \<and> stored (aSha256 a) h m))"
    proof (cases "fID h0 = fID f")
      case True
      then show ?thesis using h0(2) rs by (simp add: setStat_def stored_def)
    next
      case False
      then have e: "h = h0" using h0(2) by (simp add: setStat_def)
      have "fPath h0 \<noteq> fPath f"
      proof
        assume "fPath h0 = fPath f"
        then have "h0 = f" using h(2) e f(2) by (intro fileRow_eq [OF d(5) h0(1) f(1)] disjI2) (simp add: fileKey_def)
        then show False using False by simp
      qed
      then show ?thesis using e h(2) h0(1) d(8) fileInvD(4) [OF d(5) h0(1)] by (auto simp: agrees_def)
    qed
  qed
  have rt: "hasRoot d1 (usrID usr)"
    using d(6) setStat_same [OF d(5) f(1) rsame] by (force simp: hasRoot_def d1_def sameNode_def)
  have "davInv view ok a uid usr (w\<lparr>vStorage := s2, vMeta := d', vHooks := h, vLocks := l\<rparr>)"
    by (rule davInv_after [OF i st2(3) t(2,3,4) rt ag])
  then show ?thesis using run st2(4) t(5-) rs by (intro exI [of _ "w\<lparr>vStorage := s2, vMeta := d', vHooks := h, vLocks := l\<rparr>"] exI [of _ e] exI [of _ r]) simp
qed

text \<open>A reader that fails in the middle of an overwrite: the bytes of the file are gone, the row stays.\<close>

lemma writeStore_interrupted:
  assumes i: "davInv view ok a uid usr w" and s: "aStorage a = st"
    and f: "f \<in> set (fcRows (vMeta w))" "fUserID f = usrID usr" "\<not> fIsDir f"
  shows "\<exists>w'. writeStore a muted actor uid (usrID usr) (fPath f) (part, Some err) mtime cond (Some f) w = Some (w', Inl (ErrOther err))
    \<and> vMeta w' = vMeta w \<and> ok (vStorage w') \<and> view (vStorage w') = (view (vStorage w))(keyAt uid (fPath f) := None)"
proof -
  note d = davInvD [OF i]
  have np: "npath (fPath f)" using fileInvD(4) [OF d(5) f(1)] by simp
  have nr: "fPath f \<noteq> ''/''" using fileParent(1) [OF d(5) f(1)] f(3) by auto
  obtain p where p: "p \<in> set (fcRows (vMeta w))" "fUserID p = usrID usr" "fPath p = path_dir (fPath f)" "fIsDir p"
    using fileParent(2) [OF d(5) f(1) nr] f(2) by auto
  note pl = write_place [OF i np nr p]
  have nd: "view (vStorage w) (keyAt uid (fPath f)) \<noteq> Some DDir" using agreesD(2) [OF d(8) f(1,2,3)] by auto
  obtain s1 s2 where st2: "stCreate st (vStorage w) (joinKey (keyAt uid (fPath f))) = (s1, Inr ())"
    "stClose st s1 (joinKey (keyAt uid (fPath f))) part = (s2, Inr ())" "ok s2" "view s2 = (view (vStorage w))(keyAt uid (fPath f) \<mapsto> DFile part)"
    using put_bytes [OF d(4) pl(2,3) nd] by blast
  obtain s3 where s3: "stDelete st s2 (joinKey (keyAt uid (fPath f))) = (s3, Inr ())" "ok s3" "view s3 = (view s2)(keyAt uid (fPath f) := None)"
    using delete_leaf [OF st2(3) pl(2)] st2(4) by auto
  have "writeStore a muted actor uid (usrID usr) (fPath f) (part, Some err) mtime cond (Some f) w = Some (w\<lparr>vStorage := s3\<rparr>, Inl (ErrOther err))"
    using pl(1) st2(1,2) s3(1) s
    by (simp add: writeStore_def compensateDelete_def thenOp_def tryOp_def mapped_def liftOp_def failOp_def storeOp_def)
  then show ?thesis using s3 st2(4) by auto
qed

lemma davWrite_step:
  assumes i: "davInv view ok a uid usr w" and s: "aStorage a = st"
    and f: "f \<in> set (fcRows (vMeta w))" "fUserID f = usrID usr" "\<not> fIsDir f" and c: "Evaluate cond True (fETag f) = None"
  shows "davWrite a muted actor uid (fPath f) r mtime snapshot cond w
    = thenOp (snapshotOp a snapshot uid (Some f)) (\<lambda>_. writeStore a muted actor uid (usrID usr) (fPath f) r mtime cond (Some f)) w"
proof -
  note d = davInvD [OF i]
  have np: "npath (fPath f)" using fileInvD(4) [OF d(5) f(1)] by simp
  have nr: "fPath f \<noteq> ''/''" using fileParent(1) [OF d(5) f(1)] f(3) by auto
  obtain p where p: "p \<in> set (fcRows (vMeta w))" "fUserID p = usrID usr" "fPath p = path_dir (fPath f)" "fIsDir p"
    using fileParent(2) [OF d(5) f(1) nr] f(2) by auto
  have par: "fcGetByPath (vMeta w) (usrID usr) (parentDir (fPath f)) = Inr p" by (rule write_place(4) [OF i np nr p])
  have "fcGetByPath (vMeta w) (usrID usr) (fPath f) = Inr f" using fcGetByPath_row [OF d(5) f(1)] f(2) by simp
  then show ?thesis using resolveUser_run [OF i s] np nr par p(4) f(3) c
    by (simp add: davWrite_def thenOp_def tryOp_def mapped_def getOp_run liftOp_def)
qed

lemma davWrite_existing:
  assumes "davInv view ok a uid usr w" and "aStorage a = st" and "f \<in> set (fcRows (vMeta w))" and "fUserID f = usrID usr" and "\<not> fIsDir f"
    and "Evaluate cond True (fETag f) = None" and "aVersions a = None \<or> \<not> snapshot"
  shows "davWrite a muted actor uid (fPath f) r mtime snapshot cond w = writeStore a muted actor uid (usrID usr) (fPath f) r mtime cond (Some f) w"
  using davWrite_step [OF assms(1-6)] assms(7) by (auto simp: snapshotOp_def retOp_def thenOp_def tryOp_def split: option.split)

lemma davWrite_new:
  assumes i: "davInv view ok a uid usr w" and s: "aStorage a = st" and np: "npath np" "np \<noteq> ''/''"
    and p: "p \<in> set (fcRows (vMeta w))" "fUserID p = usrID usr" "fPath p = path_dir np" "fIsDir p"
    and free: "\<not> (\<exists>g \<in> set (fcRows (vMeta w)). fUserID g = usrID usr \<and> fPath g = np)" and c: "Evaluate cond False [] = None"
  shows "davWrite a muted actor uid np r mtime snapshot cond w = writeStore a muted actor uid (usrID usr) np r mtime cond None w"
  using resolveUser_run [OF i s] np write_place(4) [OF i np p] p(4) fcGetByPath_none [OF davInvD(5) [OF i] np(1) free] c
  by (simp add: davWrite_def thenOp_def tryOp_def mapped_def getOp_run liftOp_def)

end

lemma butlast_neq: "xs \<noteq> [] \<Longrightarrow> butlast xs \<noteq> xs"
  by (metis append_butlast_last_id append_self_conv not_Cons_self2)

section \<open>Requests of a user without incoming shares\<close>

lemma incomingOp_none:
  assumes "aIncoming a = None" shows "incomingOp a user p w = Some (w, Inl ErrNotFound)"
  using assms by (simp add: incomingOp_def lookupIncoming_def lockView_def)

lemma liveOp_run: "\<exists>e'. liveOp a user e w = Some (w, Inr e') \<and> eETag e' = eETag e \<and> eSize e' = eSize e"
  by (auto simp: liveOp_def attachLiveProps_def Let_def split: option.split)

lemma emitUploaded_run: "\<exists>h. emitUploaded a user e c w = Some (w\<lparr>vHooks := h\<rparr>, Inr ())"
  by (auto simp: emitUploaded_def retOp_def hookOp_def split: option.split intro: exI [of _ "vHooks w"])

context storage_laws
begin

lemma statOwned_row:
  assumes i: "davInv view ok a uid usr w" and s: "aStorage a = st" and f: "f \<in> set (fcRows (vMeta w))" "fUserID f = usrID usr"
  shows "\<exists>l e. davStatOwned a uid (fPath f) w = Some (w\<lparr>vLocks := l\<rparr>, Inr e) \<and> eETag e = fETag f \<and> eIsDir e = fIsDir f \<and> eSize e = fSize f"
proof -
  obtain l e where e: "entryOp a (usrID usr) f w = Some (w\<lparr>vLocks := l\<rparr>, Inr e)" "eSize e = fSize f" "eETag e = fETag f" "eIsDir e = fIsDir f"
    using entryOp_run [of a "usrID usr" f w] by blast
  have "fcGetByPath (vMeta w) (usrID usr) (fPath f) = Inr f" using fcGetByPath_row [OF davInvD(5) [OF i] f(1)] f(2) by simp
  then show ?thesis using resolveUser_run [OF i s] e
    by (auto simp: davStatOwned_def thenOp_def tryOp_def mapped_def getOp_run liftOp_def)
qed

lemma statOwned_none:
  assumes i: "davInv view ok a uid usr w" and s: "aStorage a = st" and np: "npath np"
    and free: "\<not> (\<exists>g \<in> set (fcRows (vMeta w)). fUserID g = usrID usr \<and> fPath g = np)"
  shows "davStatOwned a uid np w = Some (w, Inl ErrNotFound)"
  using resolveUser_run [OF i s] fcGetByPath_none [OF davInvD(5) [OF i] np free]
  by (simp add: davStatOwned_def thenOp_def tryOp_def mapped_def getOp_run liftOp_def failOp_def mapMeta_def)

lemma read_file:
  assumes i: "davInv view ok a uid usr w" and s: "aStorage a = st" and f: "f \<in> set (fcRows (vMeta w))" "fUserID f = usrID usr" "\<not> fIsDir f"
    and c: "view (vStorage w) (keyAt uid (fPath f)) = Some (DFile c)"
  shows "\<exists>w' e. davReadOp a uid (fPath f) w = Some (w', Inr (c, e)) \<and> vMeta w' = vMeta w \<and> vStorage w' = vStorage w \<and> eETag e = fETag f \<and> eSize e = fSize f"
proof -
  note d = davInvD [OF i]
  have np: "npath (fPath f)" using fileInvD(4) [OF d(5) f(1)] by simp
  note k = storageKey_segs [OF d(2) np, folded keyAt_def]
  obtain l e where e: "davStatOwned a uid (fPath f) w = Some (w\<lparr>vLocks := l\<rparr>, Inr e)" "eETag e = fETag f" "eIsDir e = fIsDir f" "eSize e = fSize f"
    using statOwned_row [OF i s f(1,2)] by blast
  obtain e' where "liveOp a uid e (w\<lparr>vLocks := l\<rparr>) = Some (w\<lparr>vLocks := l\<rparr>, Inr e')" "eETag e' = eETag e" "eSize e' = eSize e"
    using liveOp_run [of a uid e] by blast
  then show ?thesis using np e f(3) k open_file [OF d(4) k(2) c] s
    by (simp add: davReadOp_def davReadMaybeIncoming_def readOwned_def thenOp_def tryOp_def mapped_def liftOp_def storeOp_def retOp_def)
qed

text \<open>A row whose bytes are gone: the resource is still listed but cannot be read.\<close>

lemma read_lost:
  assumes ok: "ok (vStorage w)" and u: "aUsers a uid = Inr usr" "plain_seg uid" and s: "aStorage a = st"
    and i: "fileInv (vMeta w)" and r: "hasRoot (vMeta w) (usrID usr)" and h: "view (vStorage w) [uid] = Some DDir"
    and f: "f \<in> set (fcRows (vMeta w))" "fUserID f = usrID usr" "\<not> fIsDir f"
    and c: "view (vStorage w) (keyAt uid (fPath f)) = None" "view (vStorage w) (butlast (keyAt uid (fPath f))) = Some DDir"
  shows "\<exists>w'. davReadOp a uid (fPath f) w = Some (w', Inl ErrNotFound)" "\<exists>w' e. davStatOwned a uid (fPath f) w = Some (w', Inr e) \<and> eSize e = fSize f"
proof -
  have np: "npath (fPath f)" using fileInvD(4) [OF i f(1)] by simp
  note k = storageKey_segs [OF u(2) np, folded keyAt_def]
  have g: "\<not> (uid = [] \<or> CHR ''/'' \<in> set uid \<or> uid = ''..'')" using u(2) by (auto simp: plain_seg_def)
  have "plainKey [uid]" using u(2) by (simp add: plainKey_def)
  then have home: "stStat st (vStorage w) uid = Inr (fileInfo (joinKey [uid]) DDir)" using stat_found [OF ok _ h] by (simp add: joinKey_def)
  obtain root where "EnsureRoot (aSha1 a) (aNow a) (vMeta w) (usrID usr) = (vMeta w, Inr root)" using EnsureRoot_found [OF i r] by blast
  then have res: "davResolveUser a uid w = Some (w, Inr usr)" using g u(1) s home by (simp add: davResolveUser_def ensureHome_def op_defs)
  obtain l e where e: "entryOp a (usrID usr) f w = Some (w\<lparr>vLocks := l\<rparr>, Inr e)" "eSize e = fSize f" "eIsDir e = fIsDir f"
    using entryOp_run [of a "usrID usr" f w] by blast
  have "fcGetByPath (vMeta w) (usrID usr) (fPath f) = Inr f" using fcGetByPath_row [OF i f(1)] f(2) by simp
  then have st: "davStatOwned a uid (fPath f) w = Some (w\<lparr>vLocks := l\<rparr>, Inr e)" using res e(1)
    by (simp add: davStatOwned_def thenOp_def tryOp_def mapped_def getOp_run liftOp_def)
  then show "\<exists>w' e. davStatOwned a uid (fPath f) w = Some (w', Inr e) \<and> eSize e = fSize f" using e(2) by blast
  show "\<exists>w'. davReadOp a uid (fPath f) w = Some (w', Inl ErrNotFound)"
    using np st e(3) f(3) k open_missing [OF ok k(2) c(2,1)] s
    by (simp add: davReadOp_def davReadMaybeIncoming_def readOwned_def thenOp_def tryOp_def mapped_def liftOp_def storeOp_def failOp_def mapStorage_def)
qed

lemma home_dir: "davInv view ok a uid usr w \<Longrightarrow> view (vStorage w) [uid] = Some DDir"
proof -
  assume i: "davInv view ok a uid usr w"
  note d = davInvD [OF i]
  obtain r where r: "r \<in> set (fcRows (vMeta w))" "fUserID r = usrID usr" "fPath r = ''/''" using d(6) by (auto simp: hasRoot_def)
  then show ?thesis using agreesD(1) [OF d(8) r(1,2)] fileParent(1) [OF d(5) r(1,3)] by (simp add: keyAt_def)
qed

text \<open>After the key of a file was removed from the storage the file is lost.\<close>

lemma lost_after:
  assumes i: "davInv view ok a uid usr w" and s: "aStorage a = st" and f: "f \<in> set (fcRows (vMeta w))" "fUserID f = usrID usr" "\<not> fIsDir f"
    and w': "vMeta w' = vMeta w" "ok (vStorage w')" "view (vStorage w') = (view (vStorage w))(keyAt uid (fPath f) := None)"
  shows "(\<exists>w2. davReadOp a uid (fPath f) w' = Some (w2, Inl ErrNotFound)) \<and> (\<exists>w2 e. davStatOwned a uid (fPath f) w' = Some (w2, Inr e) \<and> eSize e = fSize f)"
proof -
  note d = davInvD [OF i]
  have np: "npath (fPath f)" using fileInvD(4) [OF d(5) f(1)] by simp
  have nr: "fPath f \<noteq> ''/''" using fileParent(1) [OF d(5) f(1)] f(3) by auto
  have c: "clean_path (fPath f)" using np nr normal_path by blast
  obtain p where p: "p \<in> set (fcRows (vMeta w))" "fUserID p = usrID usr" "fPath p = path_dir (fPath f)" "fIsDir p"
    using fileParent(2) [OF d(5) f(1) nr] f(2) by auto
  have len: "butlast (keyAt uid (fPath f)) \<noteq> keyAt uid (fPath f)" "[uid] \<noteq> keyAt uid (fPath f)"
    using segsOf_clean [OF c] butlast_neq by (auto simp: keyAt_def)
  show ?thesis
    using read_lost [OF w'(2) d(1,2) s _ _ _ _ f(2,3)] w' d(5,6) home_dir [OF i] f(1) len write_place(3) [OF i np nr p] by simp
qed

end

context storage_laws
begin

lemma writeIf_existing:
  assumes i: "davInv view ok a uid usr w" and s: "aStorage a = st" and v: "aVersions a = None"
    and f: "f \<in> set (fcRows (vMeta w))" "fUserID f = usrID usr" "\<not> fIsDir f"
    and c: "Evaluate cond True (fETag f) = None"
  shows "\<exists>l. davWriteIf a muted uid (fPath f) r mtime cond w = thenOp (writeStore a muted uid uid (usrID usr) (fPath f) r mtime cond (Some f))
    (\<lambda>(ent, created). thenOp (emitUploaded a uid ent created) (\<lambda>_. retOp (ent, created))) (w\<lparr>vLocks := l\<rparr>)"
proof -
  obtain l e where e: "davStatOwned a uid (fPath f) w = Some (w\<lparr>vLocks := l\<rparr>, Inr e)" using statOwned_row [OF i s f(1,2)] by blast
  let ?w = "w\<lparr>vLocks := l\<rparr>"
  have np: "npath (fPath f)" using fileInvD(4) [OF davInvD(5) [OF i] f(1)] by simp
  have "davWrite a muted uid uid (fPath f) r mtime True cond ?w = writeStore a muted uid uid (usrID usr) (fPath f) r mtime cond (Some f) ?w"
    by (rule davWrite_existing [OF _ s]) (use i f c v in simp_all)
  then have "writeConditional a muted uid (fPath f) r mtime True cond w = writeStore a muted uid uid (usrID usr) (fPath f) r mtime cond (Some f) ?w"
    using np e by (simp add: writeConditional_def tryOp_def)
  then show ?thesis by (auto simp: davWriteIf_def thenOp_def tryOp_def)
qed

lemma writeIf_new:
  assumes i: "davInv view ok a uid usr w" and s: "aStorage a = st" and n: "aIncoming a = None" and np: "npath np" "np \<noteq> ''/''"
    and p: "p \<in> set (fcRows (vMeta w))" "fUserID p = usrID usr" "fPath p = path_dir np" "fIsDir p"
    and free: "\<not> (\<exists>g \<in> set (fcRows (vMeta w)). fUserID g = usrID usr \<and> fPath g = np)" and c: "Evaluate cond False [] = None"
  shows "davWriteIf a muted uid np r mtime cond w = thenOp (writeStore a muted uid uid (usrID usr) np r mtime cond None)
    (\<lambda>(ent, created). thenOp (emitUploaded a uid ent created) (\<lambda>_. retOp (ent, created))) w"
proof -
  have "writeConditional a muted uid np r mtime True cond w = writeStore a muted uid uid (usrID usr) np r mtime cond None w"
    using np(1) statOwned_none [OF i s np(1) free] incomingOp_none [OF n, of uid np w] davWrite_new [OF i s np p free c, of muted uid r mtime True]
    by (simp add: writeConditional_def tryOp_def)
  then show ?thesis by (simp add: davWriteIf_def thenOp_def tryOp_def)
qed

text \<open>A write of a whole body, new or over an existing file.\<close>

lemma write_correct:
  assumes i: "davInv view ok a uid usr w" and s: "aStorage a = st" and n: "aIncoming a = None" and v: "aVersions a = None"
    and np: "npath np" "np \<noteq> ''/''"
    and p: "\<exists>p \<in> set (fcRows (vMeta w)). fUserID p = usrID usr \<and> fPath p = path_dir np \<and> fIsDir p"
    and nd: "view (vStorage w) (keyAt uid np) \<noteq> Some DDir"
    and c: "\<And>f. f \<in> set (fcRows (vMeta w)) \<Longrightarrow> fUserID f = usrID usr \<Longrightarrow> fPath f = np \<Longrightarrow> Evaluate cond True (fETag f) = None"
    and c0: "\<not> (\<exists>f \<in> set (fcRows (vMeta w)). fUserID f = usrID usr \<and> fPath f = np) \<Longrightarrow> Evaluate cond False [] = None"
  shows "\<exists>w' e created. davWriteIf a muted uid np (body, None) mtime cond w = Some (w', Inr (e, created))
    \<and> (created \<longleftrightarrow> \<not> (\<exists>f \<in> set (fcRows (vMeta w)). fUserID f = usrID usr \<and> fPath f = np))
    \<and> davInv view ok a uid usr w' \<and> view (vStorage w') = (view (vStorage w))(keyAt uid np \<mapsto> DFile body)
    \<and> eSize e = int (length body)
    \<and> (\<exists>w2 e2. davReadOp a uid np w' = Some (w2, Inr (body, e2)) \<and> eETag e2 = eETag e)"
proof -
  have fin: ?thesis
    if run: "davWriteIf a muted uid np (body, None) mtime cond w = thenOp (writeStore a muted uid uid (usrID usr) np (body, None) mtime cond ex)
        (\<lambda>(ent, created). thenOp (emitUploaded a uid ent created) (\<lambda>_. retOp (ent, created))) w0"
      and store: "\<exists>w' e r. writeStore a muted uid uid (usrID usr) np (body, None) mtime cond ex w0 = Some (w', Inr (e, b))
        \<and> davInv view ok a uid usr w' \<and> view (vStorage w') = (view (vStorage w0))(keyAt uid np \<mapsto> DFile body)
        \<and> r \<in> set (fcRows (vMeta w')) \<and> fUserID r = usrID usr \<and> fPath r = np \<and> \<not> fIsDir r \<and> fSize r = int (length body)
        \<and> eETag e = fETag r \<and> ePath e = np \<and> eSize e = int (length body)"
      and w0: "vStorage w0 = vStorage w" and b: "b \<longleftrightarrow> \<not> (\<exists>f \<in> set (fcRows (vMeta w)). fUserID f = usrID usr \<and> fPath f = np)" for ex w0 b
  proof -
    obtain w1 e r where w1: "writeStore a muted uid uid (usrID usr) np (body, None) mtime cond ex w0 = Some (w1, Inr (e, b))"
      "davInv view ok a uid usr w1" "view (vStorage w1) = (view (vStorage w))(keyAt uid np \<mapsto> DFile body)"
      "r \<in> set (fcRows (vMeta w1))" "fUserID r = usrID usr" "fPath r = np" "\<not> fIsDir r" "eETag e = fETag r" "eSize e = int (length body)"
      using store w0 by auto
    obtain h where h: "emitUploaded a uid e b w1 = Some (w1\<lparr>vHooks := h\<rparr>, Inr ())" using emitUploaded_run [of a uid e b w1] by blast
    let ?w = "w1\<lparr>vHooks := h\<rparr>"
    have i2: "davInv view ok a uid usr ?w" using w1(2) by simp
    obtain w2 e2 where "davReadOp a uid np ?w = Some (w2, Inr (body, e2))" "eETag e2 = fETag r"
      using read_file [OF i2 s, of r body] w1 by auto
    then show ?thesis using run w1 h i2 b by (auto simp: thenOp_def tryOp_def retOp_def)
  qed
  show ?thesis
  proof (cases "\<exists>f \<in> set (fcRows (vMeta w)). fUserID f = usrID usr \<and> fPath f = np")
    case True
    then obtain f where f: "f \<in> set (fcRows (vMeta w))" "fUserID f = usrID usr" "fPath f = np" by blast
    have isf: "\<not> fIsDir f" using agreesD(1) [OF davInvD(8) [OF i] f(1,2)] nd f(3) by auto
    obtain l where l: "davWriteIf a muted uid (fPath f) (body, None) mtime cond w = thenOp (writeStore a muted uid uid (usrID usr) (fPath f) (body, None) mtime cond (Some f))
      (\<lambda>(ent, created). thenOp (emitUploaded a uid ent created) (\<lambda>_. retOp (ent, created))) (w\<lparr>vLocks := l\<rparr>)"
      using writeIf_existing [OF i s v f(1,2) isf c [OF f]] by blast
    have i2: "davInv view ok a uid usr (w\<lparr>vLocks := l\<rparr>)" and f2: "f \<in> set (fcRows (vMeta (w\<lparr>vLocks := l\<rparr>)))" "fUserID f = usrID usr"
      using i f(1,2) by simp_all
    show ?thesis
      by (rule fin [OF l [unfolded f(3)] writeStore_over [OF i2 s f2 isf, unfolded f(3)]]) (use True in simp_all)
  next
    case False
    obtain p where p: "p \<in> set (fcRows (vMeta w))" "fUserID p = usrID usr" "fPath p = path_dir np" "fIsDir p" using p by blast
    show ?thesis
      by (rule fin [OF writeIf_new [OF i s n np p False c0 [OF False]] writeStore_new [OF i s np p False nd] refl]) (use False in simp)
  qed
qed

lemma write_interrupted:
  assumes i: "davInv view ok a uid usr w" and s: "aStorage a = st" and v: "aVersions a = None"
    and f: "f \<in> set (fcRows (vMeta w))" "fUserID f = usrID usr" "\<not> fIsDir f"
  shows "\<exists>w'. davWriteIf a muted uid (fPath f) (part, Some err) mtime None w = Some (w', Inl (ErrOther err)) \<and> vMeta w' = vMeta w
    \<and> (\<exists>w2. davReadOp a uid (fPath f) w' = Some (w2, Inl ErrNotFound)) \<and> (\<exists>w2 e. davStatOwned a uid (fPath f) w' = Some (w2, Inr e) \<and> eSize e = fSize f)"
proof -
  obtain l where l: "davWriteIf a muted uid (fPath f) (part, Some err) mtime None w
    = thenOp (writeStore a muted uid uid (usrID usr) (fPath f) (part, Some err) mtime None (Some f))
      (\<lambda>(ent, created). thenOp (emitUploaded a uid ent created) (\<lambda>_. retOp (ent, created))) (w\<lparr>vLocks := l\<rparr>)"
    using writeIf_existing [OF i s v f, of None muted "(part, Some err)" mtime] by (auto simp: Evaluate_def)
  let ?w = "w\<lparr>vLocks := l\<rparr>"
  have i2: "davInv view ok a uid usr ?w" using i by simp
  obtain w' where w': "writeStore a muted uid uid (usrID usr) (fPath f) (part, Some err) mtime None (Some f) ?w = Some (w', Inl (ErrOther err))"
    "vMeta w' = vMeta ?w" "ok (vStorage w')" "view (vStorage w') = (view (vStorage ?w))(keyAt uid (fPath f) := None)"
    using writeStore_interrupted [OF i2 s, of f muted uid part err mtime None] f by auto
  have "davWriteIf a muted uid (fPath f) (part, Some err) mtime None w = Some (w', Inl (ErrOther err))"
    unfolding l using w'(1) by (simp add: thenOp_def tryOp_def failOp_def)
  then show ?thesis using lost_after [OF i2 s _ _ f(3) w'(2-)] f w'(2) by auto
qed

lemma mkdir_over_file:
  assumes i: "davInv view ok a uid usr w" and s: "aStorage a = st" and n: "aIncoming a = None"
    and f: "f \<in> set (fcRows (vMeta w))" "fUserID f = usrID usr" "\<not> fIsDir f"
  shows "\<exists>w'. davMkdir a muted uid (fPath f) w = Some (w', Inl ErrExists) \<and> vMeta w' = vMeta w
    \<and> (\<exists>w2. davReadOp a uid (fPath f) w' = Some (w2, Inl ErrNotFound)) \<and> (\<exists>w2 e. davStatOwned a uid (fPath f) w' = Some (w2, Inr e) \<and> eSize e = fSize f)"
proof -
  have np: "npath (fPath f)" using fileInvD(4) [OF davInvD(5) [OF i] f(1)] by simp
  obtain w' where w': "mkdirOwned a muted uid uid (fPath f) w = Some (w', Inl ErrExists)" "vMeta w' = vMeta w" "ok (vStorage w')"
    "view (vStorage w') = (view (vStorage w))(keyAt uid (fPath f) := None)"
    using mkdirOwned_over_file [OF i s f] by blast
  have "davMkdir a muted uid (fPath f) w = Some (w', Inl ErrExists)"
    using np incomingOp_none [OF n, of uid "fPath f" w] w'(1) by (simp add: davMkdir_def tryOp_def)
  then show ?thesis using lost_after [OF i s f w'(2-)] w'(2) by blast
qed

end

section \<open>The operations over a local directory\<close>

text \<open>
  C11. A write with \<open>davWriteIf\<close> of a whole body over a local directory, new or over an existing file, whose precondition
  holds: it answers whether the file was created, keeps the agreement of the file cache, the directory sizes and the disk,
  changes the disk at the file's key only, and a read of the path then returns exactly the body with the entity tag that the
  write answered.
\<close>

theorem dav_write_read:
  assumes "davInv map_of diskOK a uid usr w" and "aStorage a = localfs" and "aIncoming a = None" and "aVersions a = None"
    and "NormalizePath np = Inr np" and "np \<noteq> ''/''"
    and "\<exists>p \<in> set (fcRows (vMeta w)). fUserID p = usrID usr \<and> fPath p = path_dir np \<and> fIsDir p"
    and "map_of (vStorage w) (keyAt uid np) \<noteq> Some DDir"
    and "\<And>f. f \<in> set (fcRows (vMeta w)) \<Longrightarrow> fUserID f = usrID usr \<Longrightarrow> fPath f = np \<Longrightarrow> Evaluate cond True (fETag f) = None"
    and "\<not> (\<exists>f \<in> set (fcRows (vMeta w)). fUserID f = usrID usr \<and> fPath f = np) \<Longrightarrow> Evaluate cond False [] = None"
  shows "\<exists>w' e created. davWriteIf a muted uid np (body, None) mtime cond w = Some (w', Inr (e, created))
    \<and> (created \<longleftrightarrow> \<not> (\<exists>f \<in> set (fcRows (vMeta w)). fUserID f = usrID usr \<and> fPath f = np))
    \<and> davInv map_of diskOK a uid usr w' \<and> map_of (vStorage w') = (map_of (vStorage w))(keyAt uid np \<mapsto> DFile body)
    \<and> eSize e = int (length body)
    \<and> (\<exists>w2 e2. davReadOp a uid np w' = Some (w2, Inr (body, e2)) \<and> eETag e2 = eETag e)"
  using assms by (intro lfs.write_correct) auto

text \<open>A small server: one user, a root directory and one file in it.\<close>

definition demoAdapter :: "(disk, unit, unit) davAdapter" where
  "demoAdapter = \<lparr>aStorage = localfs, aUsers = (\<lambda>u. if u = ''alice'' then Inr \<lparr>usrID = 1, usrQuotaBytes = None\<rparr> else Inl UErrNotFound),
     aNow = 9, aSha1 = (\<lambda>s. s), aSha256 = (\<lambda>s. s), aLike = (\<lambda>s p. False), aTrash = None, aVersions = None, aProps = None,
     aLocks = None, aShares = None, aIncoming = None, aRemote = None, aLiveProps = None,
     aSetLiveProp = (\<lambda>h _ _ _ _ _. (h, None)), aEvents = None, aActivity = None\<rparr>"

definition demoState :: "(disk, unit, unit) davState" where
  "demoState = \<lparr>vMeta = \<lparr>fcRows = [demoRow 1 None ''/'' True 3, (demoRow 2 (Some 1) ''/x'' False 3)\<lparr>fChecksum := ''SHA256:abc''\<rparr>],
       fcNext = 3, fcDown = None\<rparr>,
     vStorage = [([], DDir), ([''alice''], DDir), ([''alice'', ''x''], DFile ''abc'')], vLocks = (), vHooks = ()\<rparr>"

abbreviation demoUser :: UserRow where
  "demoUser \<equiv> \<lparr>usrID = 1, usrQuotaBytes = None\<rparr>"

lemma demo_rows: "set (fcRows (vMeta demoState)) = {demoRow 1 None ''/'' True 3, (demoRow 2 (Some 1) ''/x'' False 3)\<lparr>fChecksum := ''SHA256:abc''\<rparr>}"
  by (simp add: demoState_def)

lemma demo_disk: "diskOK (vStorage demoState)"
  by (auto simp: demoState_def diskOK_def split: if_splits)

lemma demo_inv: "davInv map_of diskOK demoAdapter ''alice'' demoUser demoState"
proof -
  have "fileInv (vMeta demoState)" by code_simp
  moreover have "plain_seg ''alice''" by code_simp
  moreover have "hasRoot (vMeta demoState) 1" by (simp add: hasRoot_def demo_rows demoRow_def)
  moreover have "agrees (\<lambda>s. s) (map_of (vStorage demoState)) ''alice'' 1 (fcRows (vMeta demoState))"
  proof -
    have "map_of (vStorage demoState) (keyAt ''alice'' ''/x'') = Some (DFile ''abc'')" "map_of (vStorage demoState) (keyAt ''alice'' ''/'') = Some DDir"
      by code_simp+
    then show ?thesis by (simp add: agrees_def demo_rows) (simp add: demoRow_def stored_def)
  qed
  moreover have "dirSizesOK (vMeta demoState) 1 (\<lambda>q. False)"
  proof -
    have "childrenOf (vMeta demoState) (demoRow 1 None ''/'' True 3) = {(demoRow 2 (Some 1) ''/x'' False 3)\<lparr>fChecksum := ''SHA256:abc''\<rparr>}"
      by (auto simp: childrenOf_def demo_rows demoRow_def)
    then have "sizeOK (vMeta demoState) (demoRow 1 None ''/'' True 3)"
      by (simp add: sizeOK_def) (simp add: demoRow_def wrap64_def)
    then show ?thesis by (auto simp: dirSizesOK_def demo_rows demoRow_def)
  qed
  ultimately show ?thesis using demo_disk by (simp add: davInv_def demoAdapter_def)
qed

theorem dav_write_read_witness:
  "(\<exists>w' e. davWriteIf demoAdapter False ''alice'' ''/y'' (''hello'', None) None None demoState = Some (w', Inr (e, True))
     \<and> (\<exists>w2 e2. davReadOp demoAdapter ''alice'' ''/y'' w' = Some (w2, Inr (''hello'', e2))))
   \<and> (\<exists>w' e. davWriteIf demoAdapter False ''alice'' ''/x'' (''hello'', None) None None demoState = Some (w', Inr (e, False))
     \<and> (\<exists>w2 e2. davReadOp demoAdapter ''alice'' ''/x'' w' = Some (w2, Inr (''hello'', e2))))"
proof -
  have p: "path_dir ''/y'' = ''/''" "path_dir ''/x'' = ''/''" "NormalizePath ''/x'' = Inr ''/x''" "NormalizePath ''/y'' = Inr ''/y''"
    "map_of (vStorage demoState) (keyAt ''alice'' ''/x'') = Some (DFile ''abc'')" "map_of (vStorage demoState) (keyAt ''alice'' ''/y'') = None"
    by code_simp+
  have a: "aStorage demoAdapter = localfs" "aIncoming demoAdapter = None" "aVersions demoAdapter = None" by (simp_all add: demoAdapter_def)
  note ok = dav_write_read [OF demo_inv a, of _ None False _ None]
  have "\<exists>w' e. davWriteIf demoAdapter False ''alice'' ''/y'' (''hello'', None) None None demoState = Some (w', Inr (e, True))
     \<and> (\<exists>w2 e2. davReadOp demoAdapter ''alice'' ''/y'' w' = Some (w2, Inr (''hello'', e2)))"
    using ok [of "''/y''" "''hello''"] p by (auto simp: demo_rows demoRow_def Evaluate_def)
  moreover have "\<exists>w' e. davWriteIf demoAdapter False ''alice'' ''/x'' (''hello'', None) None None demoState = Some (w', Inr (e, False))
     \<and> (\<exists>w2 e2. davReadOp demoAdapter ''alice'' ''/x'' w' = Some (w2, Inr (''hello'', e2)))"
    using ok [of "''/x''" "''hello''"] p by (auto simp: demo_rows demoRow_def Evaluate_def)
  ultimately show ?thesis by blast
qed

text \<open>
  An upload over an existing file whose body breaks off (the client disconnects) answers the read error, keeps the row
  with the old size, and has lost the old content: a listing still shows the file and every read answers not found.
\<close>

theorem write_interrupted_loses_content:
  assumes "davInv map_of diskOK a uid usr w" and "aStorage a = localfs" and "aVersions a = None"
    and "f \<in> set (fcRows (vMeta w))" and "fUserID f = usrID usr" and "\<not> fIsDir f"
  shows "\<exists>w'. davWriteIf a muted uid (fPath f) (part, Some err) mtime None w = Some (w', Inl (ErrOther err)) \<and> vMeta w' = vMeta w
    \<and> (\<exists>w2. davReadOp a uid (fPath f) w' = Some (w2, Inl ErrNotFound))
    \<and> (\<exists>w2 e. davStatOwned a uid (fPath f) w' = Some (w2, Inr e) \<and> eSize e = fSize f)"
  using assms by (rule lfs.write_interrupted)

text \<open>
  Making a directory at the path of an existing file answers that it exists, and the file has lost its content: the row
  stays and every read answers not found.
\<close>

theorem mkdir_over_file_loses_content:
  assumes "davInv map_of diskOK a uid usr w" and "aStorage a = localfs" and "aIncoming a = None"
    and "f \<in> set (fcRows (vMeta w))" and "fUserID f = usrID usr" and "\<not> fIsDir f"
  shows "\<exists>w'. davMkdir a muted uid (fPath f) w = Some (w', Inl ErrExists) \<and> vMeta w' = vMeta w
    \<and> (\<exists>w2. davReadOp a uid (fPath f) w' = Some (w2, Inl ErrNotFound))
    \<and> (\<exists>w2 e. davStatOwned a uid (fPath f) w' = Some (w2, Inr e) \<and> eSize e = fSize f)"
  using assms by (rule lfs.mkdir_over_file)

theorem write_interrupted_loses_content_witness:
  "\<exists>w'. davWriteIf demoAdapter False ''alice'' ''/x'' (''he'', Some ''unexpected EOF'') None None demoState = Some (w', Inl (ErrOther ''unexpected EOF''))
     \<and> (\<exists>w2. davReadOp demoAdapter ''alice'' ''/x'' w' = Some (w2, Inl ErrNotFound))"
  using write_interrupted_loses_content [OF demo_inv, of "(demoRow 2 (Some 1) ''/x'' False 3)\<lparr>fChecksum := ''SHA256:abc''\<rparr>" False "''he''" "''unexpected EOF''" None]
  by (auto simp: demo_rows) (auto simp: demoAdapter_def demoRow_def)

theorem mkdir_over_file_loses_content_witness:
  "\<exists>w'. davMkdir demoAdapter False ''alice'' ''/x'' demoState = Some (w', Inl ErrExists)
     \<and> (\<exists>w2. davReadOp demoAdapter ''alice'' ''/x'' w' = Some (w2, Inl ErrNotFound))"
  using mkdir_over_file_loses_content [OF demo_inv, of "(demoRow 2 (Some 1) ''/x'' False 3)\<lparr>fChecksum := ''SHA256:abc''\<rparr>" False]
  by (auto simp: demo_rows) (auto simp: demoAdapter_def demoRow_def)

end
