(* ===== verification/Files_VersionLaws.thy ===== *)
theory Files_VersionLaws
  imports Files_Versions Files_DavWrite
begin

text \<open>
  What the versions service guarantees when the DAV adapter calls it: an overwrite keeps the old bytes as a version, a
  restore brings them back, and files with a time before 1970 cannot be overwritten. \<open>keeps\<close> describes what an operation leaves
  alone, with rules that follow its structure; the lemmas on the storage are proved for every storage with the contract
  \<open>storage_laws\<close>.
\<close>

section \<open>What operations keep\<close>

definition keeps :: "(('s, 'd, 'h) davState \<Rightarrow> bool) \<Rightarrow> ('s, 'd, 'h, 'a) dav_op \<Rightarrow> bool" where
  "keeps P m \<longleftrightarrow> (\<forall>w w' r. m w = Some (w', r) \<longrightarrow> P w \<longrightarrow> P w')"

named_theorems keeping

lemma keepsD: "keeps P m \<Longrightarrow> m w = Some (w', r) \<Longrightarrow> P w \<Longrightarrow> P w'"
  by (auto simp: keeps_def)

lemma keeps_basic [keeping]: "keeps P (retOp x)" "keeps P (failOp e)" "keeps P (liftOp r)"
  by (simp_all add: keeps_def retOp_def failOp_def liftOp_def)

lemma keeps_try [keeping]: "keeps P m \<Longrightarrow> (\<And>r. keeps P (k r)) \<Longrightarrow> keeps P (tryOp m k)"
  unfolding keeps_def tryOp_def by (auto split: option.splits) blast

lemma keeps_then [keeping]: "keeps P m \<Longrightarrow> (\<And>x. keeps P (k x)) \<Longrightarrow> keeps P (thenOp m k)"
  unfolding thenOp_def by (intro keeps_try) (auto split: sum.split intro: keeping)

lemma keeps_mapped [keeping]: "keeps P m \<Longrightarrow> keeps P (mapped f m)"
  unfolding mapped_def by (intro keeping)

lemma keeps_if [keeping]: "(b \<Longrightarrow> keeps P m) \<Longrightarrow> (\<not> b \<Longrightarrow> keeps P n) \<Longrightarrow> keeps P (if b then m else n)"
  by simp

lemma keeps_option [keeping]: "(x = None \<Longrightarrow> keeps P m) \<Longrightarrow> (\<And>y. x = Some y \<Longrightarrow> keeps P (f y)) \<Longrightarrow> keeps P (case x of None \<Rightarrow> m | Some y \<Rightarrow> f y)"
  by (cases x) auto

lemma keeps_sum [keeping]: "(\<And>y. x = Inl y \<Longrightarrow> keeps P (g y)) \<Longrightarrow> (\<And>y. x = Inr y \<Longrightarrow> keeps P (f y)) \<Longrightarrow> keeps P (case x of Inl y \<Rightarrow> g y | Inr y \<Rightarrow> f y)"
  by (cases x) auto

lemma keeps_prod [keeping]: "(\<And>y z. x = (y, z) \<Longrightarrow> keeps P (f y z)) \<Longrightarrow> keeps P (case x of (y, z) \<Rightarrow> f y z)"
  by (cases x) auto

text \<open>A part of the services that the activity stream and the event bus leave alone.\<close>

definition quietPart :: "('h \<Rightarrow> 't) \<Rightarrow> ('s, 'd, 'h) davAdapter \<Rightarrow> bool" where
  "quietPart part a \<longleftrightarrow> (\<forall>ins h owner actor typ template file old. aActivity a = Some ins \<longrightarrow> part (ins h owner actor typ template file old) = part h)
     \<and> (\<forall>pub h user p n c. aEvents a = Some pub \<longrightarrow> part (pub h user p n c) = part h)"

abbreviation partIs :: "('h \<Rightarrow> 't) \<Rightarrow> 't \<Rightarrow> ('s, 'd, 'h) davState \<Rightarrow> bool" where
  "partIs part t \<equiv> (\<lambda>w. part (vHooks w) = t)"

lemma keeps_part [keeping]:
  "keeps (partIs part t) (metaOp f)" "keeps (partIs part t) (queryOp g)" "keeps (partIs part t) (storeOp s)" "keeps (partIs part t) (getOp u p)"
  "keeps (partIs part t) (recalcOp a u q n)" "keeps (partIs part t) (entryOp a u fl)"
  by (auto simp: keeps_def metaOp_def queryOp_def storeOp_def getOp_def recalcOp_def entryOp_def split: prod.splits option.splits)

lemma keeps_activity [keeping]:
  assumes "quietPart part a"
  shows "keeps (partIs part t) (emitFileActivity a muted owner actor typ template p)" "keeps (partIs part t) (emitUploaded a user e c)"
  using assms
  by (auto simp: keeps_def quietPart_def emitFileActivity_def emitActivity_def emitUploaded_def hookOp_def retOp_def split: option.splits prod.splits if_splits)

lemma keeps_compensate [keeping]: "keeps (partIs part t) (compensateDelete a key cause)"
  unfolding compensateDelete_def by (intro keeping)

lemma keeps_writeStore [keeping]:
  assumes "quietPart part a"
  shows "keeps (partIs part t) (writeStore a muted actor user u np r mtime cond existing)"
  unfolding writeStore_def writeRow_def writeTail_def Let_def using assms by (intro keeping allI impI)

section \<open>Storage areas beside the homes\<close>

lemma dec_plain: "0 \<le> n \<Longrightarrow> plain_seg (int_to_dec n)"
  using pos_to_dec_props [of n] by (auto simp: int_to_dec_def plain_seg_def is_digit_def list_all_iff)

lemma area_key:
  assumes "plain_seg uid" and "plain_seg area" and "plain_seg x"
  shows "joinKey [area] = area" "joinKey [area, uid] = area @ ''/'' @ uid" "joinKey [area, uid, x] = area @ ''/'' @ uid @ ''/'' @ x"
    "plainKey [area]" "plainKey [area, uid]" "plainKey [area, uid, x]"
  using assms by (simp_all add: joinKey_def plainKey_def)

text \<open>Two directories of an area and what is below them are not part of the home of a user of another name.\<close>

definition areaOK :: "(string list \<Rightarrow> dnode option) \<Rightarrow> string \<Rightarrow> string \<Rightarrow> bool" where
  "areaOK v area uid \<longleftrightarrow> v [area] \<in> {None, Some DDir} \<and> v [area, uid] \<in> {None, Some DDir}"

lemma agrees_frame:
  assumes "agrees sha256 v uid u rows" and "\<And>q. hd q = uid \<Longrightarrow> v' q = v q"
  shows "agrees sha256 v' uid u rows"
  using assms by (auto simp: agrees_def keyAt_def)

context storage_laws
begin

lemma davInv_storage:
  assumes "davInv view ok a uid usr w" and "ok s" and "\<And>q. hd q = uid \<Longrightarrow> view s q = view (vStorage w) q"
  shows "davInv view ok a uid usr (w\<lparr>vStorage := s\<rparr>)"
  using assms(1,2) agrees_frame [OF _ assms(3)] by (auto simp: davInv_def)

lemma root_dir: "ok s \<Longrightarrow> view s [x] = Some n \<Longrightarrow> view s [] = Some DDir"
  using view_parent [of s "[x]" n] by simp

lemma mkdir_area:
  assumes "ok s" and "plainKey q" and "view s (butlast q) = Some DDir" and "view s q \<in> {None, Some DDir}"
  shows "\<exists>s' r. stMkdir st s (joinKey q) = (s', r) \<and> (r = Inr () \<or> r = Inl SErrExists) \<and> ok s' \<and> view s' = (view s)(q \<mapsto> DDir)"
proof (cases "view s q")
  case None then show ?thesis using mkdir_new [OF assms(1-3)] by auto
next
  case (Some n)
  then have "view s = (view s)(q \<mapsto> DDir)" using assms(4) by auto
  then show ?thesis using mkdir_exists [OF assms(1,2) Some] assms(1) by auto
qed

lemma ensureDirs_run:
  assumes "ok (vStorage w)" and "plain_seg uid" and "plain_seg area" and "areaOK (view (vStorage w)) area uid" and "view (vStorage w) [] = Some DDir"
  shows "\<exists>s. ensureDirs st area uid w = Some (w\<lparr>vStorage := s\<rparr>, Inr ()) \<and> ok s \<and> view s = (view (vStorage w))([area] \<mapsto> DDir, [area, uid] \<mapsto> DDir)"
proof -
  note k = area_key [OF assms(2,3,2)]
  obtain s1 r1 where s1: "stMkdir st (vStorage w) area = (s1, r1)" "r1 = Inr () \<or> r1 = Inl SErrExists" "ok s1" "view s1 = (view (vStorage w))([area] \<mapsto> DDir)"
    using mkdir_area [OF assms(1) k(4)] assms(4,5) k(1) by (auto simp: areaOK_def)
  obtain s2 r2 where s2: "stMkdir st s1 (area @ ''/'' @ uid) = (s2, r2)" "r2 = Inr () \<or> r2 = Inl SErrExists" "ok s2" "view s2 = (view s1)([area, uid] \<mapsto> DDir)"
    using mkdir_area [OF s1(3) k(5)] assms(4) s1(4) k(2) by (auto simp: areaOK_def)
  have "ensureDirs st area uid w = Some (w\<lparr>vStorage := s2\<rparr>, Inr ())"
    using s1(1,2) s2(1,2) by (auto simp: ensureDirs_def thenOp_def tryOp_def storeOp_def retOp_def)
  then show ?thesis using s2(3,4) s1(4) by auto
qed

end

section \<open>The versions of a user\<close>

definition verAt :: "string \<Rightarrow> int \<Rightarrow> string list" where
  "verAt uid i = [''versions'', uid, int_to_dec i]"

definition holdsVersion :: "(string \<Rightarrow> string) \<Rightarrow> (string list \<Rightarrow> dnode option) \<Rightarrow> string \<Rightarrow> FileVersion \<Rightarrow> bool" where
  "holdsVersion sha256 v uid r \<longleftrightarrow>
     (\<exists>c. v (verAt uid (fvID r)) = Some (DFile c) \<and> fvSize r = int (length c) \<and> (fvChecksum r = [] \<or> fvChecksum r = ''SHA256:'' @ sha256 c))"

definition versionsOK :: "(string \<Rightarrow> string) \<Rightarrow> (string list \<Rightarrow> dnode option) \<Rightarrow> string \<Rightarrow> int \<Rightarrow> versionTable \<Rightarrow> bool" where
  "versionsOK sha256 v uid u d \<longleftrightarrow> vtDown d = None \<and> 0 < vtNext d \<and> (\<forall>r \<in> set (vtRows d). 0 < fvID r \<and> fvID r < vtNext d \<and> ValidRevision (fvRevision r))
     \<and> areaOK v ''versions'' uid \<and> (\<forall>r \<in> set (vtRows d). fvUserID r = u \<longrightarrow> holdsVersion sha256 v uid r)
     \<and> (\<forall>n \<ge> vtNext d. v (verAt uid n) = None)"

text \<open>The services of the adapter with this versions service.\<close>

definition wiredVersions :: "('s, 'd, 'h) Versions \<Rightarrow> ('s, 'd, 'h) davAdapter \<Rightarrow> bool" where
  "wiredVersions v a \<longleftrightarrow> aVersions a = Some (versionService v) \<and> veStorage v = aStorage a \<and> veUsers v = aUsers a
     \<and> (\<forall>t h. vePart v (vePut v t h) = t) \<and> quietPart (vePart v) a"

lemma probe_free:
  assumes "\<exists>x \<in> set xs. get x = Inl FErrNotFound" and "\<forall>x \<in> set xs. \<forall>e. get x = Inl e \<longrightarrow> e = FErrNotFound"
  shows "\<exists>x \<in> set xs. probe get xs = Inr x \<and> get x = Inl FErrNotFound"
  using assms by (induction xs) (auto split: sum.split)

lemma suffixed_set: "x \<in> set (suffixed base) \<Longrightarrow> x = base \<or> (\<exists>i < 1000. 0 < i \<and> x = base @ ''-'' @ int_to_dec (int i))"
  by (auto simp: suffixed_def)

lemma pos_to_dec_digits: "0 \<le> n \<Longrightarrow> list_all is_digit (pos_to_dec n) \<and> pos_to_dec n \<noteq> []"
  using pos_to_dec_props by blast

lemma pos_to_dec_length: "0 \<le> n \<Longrightarrow> n < 10 ^ k \<Longrightarrow> 0 < k \<Longrightarrow> length (pos_to_dec n) \<le> k"
proof (induction n arbitrary: k rule: pos_to_dec.induct)
  case (1 n)
  show ?case
  proof (cases "n < 10")
    case True then show ?thesis using 1 by (subst pos_to_dec.simps) (simp add: Suc_leI)
  next
    case False
    then obtain j where k: "k = Suc j" "0 < j" using 1(3,4) by (cases k) (auto, metis gr0I power_0 mult.right_neutral)
    have "n div 10 < 10 ^ j" using 1(3) k by (simp add: div_less_iff_less_mult) 
    then show ?thesis using 1 False k by (subst pos_to_dec.simps) auto
  qed
qed

lemma containsAt_none: "CHR ''.'' \<notin> set s \<Longrightarrow> containsAt s (CHR ''.'' # t) = []"
proof -
  assume a: "CHR ''.'' \<notin> set s"
  have "\<not> has_prefix (drop i s) (CHR ''.'' # t)" for i
    using a in_set_dropD [of "CHR ''.''" i s] by (auto simp: has_prefix_iff)
  then show ?thesis by (simp add: containsAt_def)
qed

lemma digits_no:
  assumes "list_all is_digit s" shows "CHR ''.'' \<notin> set s" "CHR ''/'' \<notin> set s" "CHR 0x5C \<notin> set s"
  using assms by (auto simp: list_all_iff is_digit_def)

lemma ValidRevision_digits:
  assumes "list_all is_digit ds" and "ds \<noteq> []" and "list_all is_digit es" and "length ds + length es < 64"
  shows "ValidRevision ds" and "ValidRevision (ds @ ''-'' @ es)"
proof -
  have "CHR ''.'' \<notin> set (ds @ ''-'' @ es)" using digits_no(1) assms(1,3) by auto
  from containsAt_none [OF this] have c: "containsAt (ds @ ''-'' @ es) ''..'' = []" by simp
  show "ValidRevision ds"
    using assms containsAt_none [OF digits_no(1) [OF assms(1)], of "''.''"] digits_no(2,3) [OF assms(1)] by (cases ds) (auto simp: ValidRevision_def list_all_iff)
  show "ValidRevision (ds @ ''-'' @ es)"
    using assms c digits_no(2,3) [OF assms(1)] digits_no(2,3) [OF assms(3)] by (cases ds) (auto simp: ValidRevision_def list_all_iff)
qed

lemma ValidRevision_suffixed:
  assumes "0 \<le> n" and "n < 10 ^ 40" and "x \<in> set (suffixed (int_to_dec n))" shows "ValidRevision x"
proof -
  have d: "list_all is_digit (pos_to_dec n)" "pos_to_dec n \<noteq> []" "length (pos_to_dec n) \<le> 40"
    using pos_to_dec_digits [OF assms(1)] pos_to_dec_length [OF assms(1,2)] by simp_all
  have e: "list_all is_digit (pos_to_dec (int i))" "length (pos_to_dec (int i)) \<le> 3" if "i < 1000" for i
    using pos_to_dec_digits [of "int i"] pos_to_dec_length [of "int i" 3] that by simp_all
  from suffixed_set [OF assms(3)] show ?thesis
  proof
    assume "x = int_to_dec n" then show ?thesis using ValidRevision_digits(1) [OF d(1,2), of "[]"] d(3) assms(1) by (simp add: int_to_dec_def)
  next
    assume "\<exists>i < 1000. 0 < i \<and> x = int_to_dec n @ ''-'' @ int_to_dec (int i)"
    then obtain i where i: "i < 1000" "x = pos_to_dec n @ ''-'' @ pos_to_dec (int i)" using assms(1) by (auto simp: int_to_dec_def)
    have "length (pos_to_dec n) + length (pos_to_dec (int i)) < 64" using e(2) [OF i(1)] d(3) by linarith
    then show ?thesis unfolding i(2) by (rule ValidRevision_digits(2) [OF d(1,2) e(1) [OF i(1)]])
  qed
qed

lemma int_to_dec_inj: "0 \<le> m \<Longrightarrow> 0 \<le> n \<Longrightarrow> int_to_dec m = int_to_dec n \<Longrightarrow> m = n"
  using pos_to_dec_props [of m] pos_to_dec_props [of n] unfolding int_to_dec_def by (metis not_less)

section \<open>The table\<close>

lemma verGet_row:
  assumes "vtDown d = None" and "u \<noteq> 0" and "npath p" and "rv \<noteq> []"
  shows "verGet d u p rv = (case find (\<lambda>r. verKey r = (u, p, rv)) (vtRows d) of None \<Rightarrow> Inl FErrNotFound | Some r \<Rightarrow> Inr r)"
proof -
  have "p \<noteq> []" using assms(3) normal_path [of p] by (auto simp: clean_path_def)
  then show ?thesis using assms by (simp add: verGet_def)
qed

lemma verInsert_new:
  assumes "vtDown d = None" and "u \<noteq> 0" and "npath p" and "rv \<noteq> []" and "ValidRevision rv" and "verGet d u p rv = Inl FErrNotFound"
    and "fvUserID v0 = u" and "fvPath v0 = p" and "fvRevision v0 = rv"
  shows "\<exists>r. verInsert now d v0 = (d\<lparr>vtRows := vtRows d @ [r], vtNext := vtNext d + 1\<rparr>, Inr r)
    \<and> fvID r = vtNext d \<and> verKey r = (u, p, rv) \<and> fvSize r = fvSize v0 \<and> fvChecksum r = fvChecksum v0"
proof -
  have "p \<noteq> []" using assms(3) normal_path [of p] by (auto simp: clean_path_def)
  have f: "find (\<lambda>r. verKey r = (u, p, rv)) (vtRows d) = None" using assms(6) verGet_row [OF assms(1-4)] by (auto split: option.splits)
  then have n: "\<not> list_ex (\<lambda>r. verKey r = (u, p, rv)) (vtRows d)" by (auto simp: find_None_iff list_ex_iff)
  let ?r = "v0\<lparr>fvPath := p, fvCreated := msTrunc (if fvCreated v0 = zeroTime then now else fvCreated v0), fvID := vtNext d\<rparr>"
  let ?d = "d\<lparr>vtRows := vtRows d @ [?r], vtNext := vtNext d + 1\<rparr>"
  have k: "verKey ?r = (u, p, rv)" using assms(7-9) by (simp add: verKey_def)
  have "verGet ?d u p rv = Inr ?r" using verGet_row [of ?d, OF _ assms(2-4)] assms(1) find_snoc [of _ "vtRows d" ?r] f k by simp
  then have "verInsert now d v0 = (?d, Inr ?r)"
    using assms n k \<open>p \<noteq> []\<close> by (simp add: verInsert_def Let_def verKey_def)
  then show ?thesis using k by auto
qed

lemma verAt_key:
  assumes "plain_seg uid" and "0 \<le> i"
  shows "joinKey (verAt uid i) = versionStorageKey uid i" and "plainKey (verAt uid i)"
  using area_key(3,6) [OF assms(1), of "''versions''" "int_to_dec i"] dec_plain [OF assms(2)]
  by (simp_all add: verAt_def versionStorageKey_def plain_seg_def)

lemma verAt_inj: "0 \<le> i \<Longrightarrow> 0 \<le> j \<Longrightarrow> verAt uid i = verAt uid j \<longleftrightarrow> i = j"
  using int_to_dec_inj by (auto simp: verAt_def)

lemma versionsOK_frame:
  assumes "versionsOK sha256 v uid u d" and "\<And>q. hd q = ''versions'' \<Longrightarrow> v' q = v q" shows "versionsOK sha256 v' uid u d"
  using assms by (auto simp: versionsOK_def areaOK_def holdsVersion_def verAt_def)

lemma versionsOK_add:
  assumes i: "versionsOK sha256 v uid u d" and r: "fvID r = vtNext d" "fvSize r = int (length c)" "fvChecksum r = [] \<or> fvChecksum r = ''SHA256:'' @ sha256 c" "ValidRevision (fvRevision r)"
  shows "versionsOK sha256 (v([''versions''] \<mapsto> DDir, [''versions'', uid] \<mapsto> DDir, verAt uid (vtNext d) \<mapsto> DFile c)) uid u
    (d\<lparr>vtRows := vtRows d @ [r], vtNext := vtNext d + 1\<rparr>)"
proof -
  let ?v = "v([''versions''] \<mapsto> DDir, [''versions'', uid] \<mapsto> DDir, verAt uid (vtNext d) \<mapsto> DFile c)"
  have n: "0 < vtNext d" using i by (simp add: versionsOK_def)
  have v: "?v (verAt uid j) = (if j = vtNext d then Some (DFile c) else v (verAt uid j))" if "0 \<le> j" for j
    using verAt_inj [of j "vtNext d" uid] that n by (auto simp: verAt_def)
  have "areaOK ?v ''versions'' uid" by (simp add: areaOK_def verAt_def)
  moreover have "holdsVersion sha256 ?v uid x" if "x \<in> set (vtRows d @ [r])" "fvUserID x = u" for x
  proof (cases "x = r")
    case True then show ?thesis using v [of "vtNext d"] n r by (simp add: holdsVersion_def)
  next
    case False
    then have "x \<in> set (vtRows d)" using that(1) by simp
    then have "0 < fvID x" "fvID x < vtNext d" "holdsVersion sha256 v uid x" using i that(2) by (auto simp: versionsOK_def)
    then show ?thesis using v [of "fvID x"] by (simp add: holdsVersion_def)
  qed
  moreover have "?v (verAt uid j) = None" if "j \<ge> vtNext d + 1" for j using v [of j] that n i by (auto simp: versionsOK_def)
  ultimately show ?thesis using i n r(1,4) by (auto simp: versionsOK_def)
qed

abbreviation verTable :: "('s, 'd, 'h) Versions \<Rightarrow> ('s, 'd, 'h) davState \<Rightarrow> versionTable" where
  "verTable v w \<equiv> vePart v (vHooks w)"

context storage_laws
begin

text \<open>Copying a stored file into the area of the versions.\<close>

lemma copyToVersion_run:
  assumes i: "davInv view ok a uid usr w" and v: "veStorage v = st" and uid: "uid \<noteq> ''versions''"
    and ar: "areaOK (view (vStorage w)) ''versions'' uid" and n: "0 \<le> fvID r" and free: "view (vStorage w) (verAt uid (fvID r)) = None"
    and p: "npath p" and c: "view (vStorage w) (keyAt uid p) = Some (DFile c)"
  shows "\<exists>s. copyToVersion v uid r (joinKey (keyAt uid p)) w = Some (w\<lparr>vStorage := s\<rparr>, Inr ()) \<and> ok s
    \<and> view s = (view (vStorage w))([''versions''] \<mapsto> DDir, [''versions'', uid] \<mapsto> DDir, verAt uid (fvID r) \<mapsto> DFile c)"
proof -
  note d = davInvD [OF i]
  have home: "view (vStorage w) [uid] = Some DDir" by (rule home_dir [OF i])
  obtain s where s: "ensureDirs st ''versions'' uid w = Some (w\<lparr>vStorage := s\<rparr>, Inr ())" "ok s"
    "view s = (view (vStorage w))([''versions''] \<mapsto> DDir, [''versions'', uid] \<mapsto> DDir)"
    using ensureDirs_run [OF d(4,2) _ ar root_dir [OF d(4) home]] by (auto simp: plain_seg_def)
  have "view s (keyAt uid p) = Some (DFile c)" using c s(3) uid by (auto simp: keyAt_def)
  then have op: "stOpen st s (joinKey (keyAt uid p)) = Inr c"
    using open_file [OF s(2)] storageKey_segs(2) [OF d(2) p] by (simp add: keyAt_def)
  note k = verAt_key [OF d(2) n]
  have b: "view s (butlast (verAt uid (fvID r))) = Some DDir" "view s (verAt uid (fvID r)) \<noteq> Some DDir" using s(3) free by (simp_all add: verAt_def)
  obtain s1 where s1: "stCreate st s (versionStorageKey uid (fvID r)) = (s1, Inr ())" "ok s1" "view s1 = view s"
    using create [OF s(2) k(2) b(1)] k(1) by auto
  obtain s2 where s2: "stClose st s1 (versionStorageKey uid (fvID r)) c = (s2, Inr ())" "ok s2" "view s2 = (view s1)(verAt uid (fvID r) \<mapsto> DFile c)"
    using close_file [OF s1(2) k(2), of c] b s1(3) k(1) by auto
  have "copyToVersion v uid r (joinKey (keyAt uid p)) w = Some (w\<lparr>vStorage := s2\<rparr>, Inr ())"
    using s(1) op s1(1) s2(1) v by (simp add: copyToVersion_def Let_def op_defs)
  then show ?thesis using s2(2,3) s1(3) s(3) by auto
qed

lemma Snapshot_run:
  assumes i: "davInv view ok a uid usr w" and s: "aStorage a = st" and wi: "wiredVersions v a" and uid: "uid \<noteq> ''versions''"
    and ver: "versionsOK (aSha256 a) (view (vStorage w)) uid (usrID usr) (verTable v w)"
    and f: "f \<in> set (fcRows (vMeta w))" "fUserID f = usrID usr" "\<not> fIsDir f" and t: "0 \<le> fMtime f" "fMtime f < 10 ^ 40"
    and free: "\<exists>rv \<in> set (suffixed (int_to_dec (fMtime f div 1000000000))). verGet (verTable v w) (usrID usr) (fPath f) rv = Inl FErrNotFound"
    and c: "view (vStorage w) (keyAt uid (fPath f)) = Some (DFile c)"
  shows "\<exists>w' r. Snapshot v uid f w = Some (w', Inr ()) \<and> vMeta w' = vMeta w \<and> vLocks w' = vLocks w \<and> davInv view ok a uid usr w'
    \<and> versionsOK (aSha256 a) (view (vStorage w')) uid (usrID usr) (verTable v w')
    \<and> vtRows (verTable v w') = vtRows (verTable v w) @ [r] \<and> fvUserID r = usrID usr \<and> fvPath r = fPath f
    \<and> view (vStorage w') (verAt uid (fvID r)) = Some (DFile c)
    \<and> (\<forall>q. hd q \<noteq> ''versions'' \<longrightarrow> view (vStorage w') q = view (vStorage w) q)"
proof -
  note d = davInvD [OF i]
  have np: "npath (fPath f)" using fileInvD(4) [OF d(5) f(1)] by simp
  let ?d = "verTable v w" and ?xs = "suffixed (int_to_dec (fMtime f div 1000000000))"
  have down: "vtDown ?d = None" and n: "0 < vtNext ?d" and ar: "areaOK (view (vStorage w)) ''versions'' uid"
    and nx: "view (vStorage w) (verAt uid (vtNext ?d)) = None" using ver by (auto simp: versionsOK_def)
  have val: "ValidRevision x" if "x \<in> set ?xs" for x using ValidRevision_suffixed [OF _ _ that] t by simp
  have ne: "x \<noteq> []" if "x \<in> set ?xs" for x using val [OF that] by (auto simp: ValidRevision_def)
  have err: "\<forall>x \<in> set ?xs. \<forall>e. verGet ?d (usrID usr) (fPath f) x = Inl e \<longrightarrow> e = FErrNotFound"
    using verGet_row [OF down d(3) np] ne by (auto split: option.splits)
  obtain rv where rv: "rv \<in> set ?xs" "probe (verGet ?d (usrID usr) (fPath f)) ?xs = Inr rv" "verGet ?d (usrID usr) (fPath f) rv = Inl FErrNotFound"
    using probe_free [OF free err] by blast
  let ?v0 = "\<lparr>fvID = 0, fvUserID = usrID usr, fvPath = fPath f, fvRevision = rv, fvSize = fSize f, fvChecksum = fChecksum f, fvCreated = veNow v\<rparr>"
  obtain r where r: "verInsert (veNow v) ?d ?v0 = (?d\<lparr>vtRows := vtRows ?d @ [r], vtNext := vtNext ?d + 1\<rparr>, Inr r)"
      "fvID r = vtNext ?d" "verKey r = (usrID usr, fPath f, rv)" "fvSize r = fSize f" "fvChecksum r = fChecksum f"
    using verInsert_new [OF down d(3) np ne [OF rv(1)] val [OF rv(1)] rv(3), of ?v0 "veNow v"] by auto
  let ?d' = "?d\<lparr>vtRows := vtRows ?d @ [r], vtNext := vtNext ?d + 1\<rparr>"
  let ?w = "w\<lparr>vHooks := vePut v ?d' (vHooks w)\<rparr>"
  have lens: "vePart v (vePut v t h) = t" for t h using wi by (simp add: wiredVersions_def)
  have i2: "davInv view ok a uid usr ?w" using i by simp
  have vs: "veStorage v = st" using wi s by (simp add: wiredVersions_def)
  have cs: "fSize f = int (length c)" "fChecksum f = [] \<or> fChecksum f = ''SHA256:'' @ aSha256 a c" using agreesD(2) [OF d(8) f] c by auto
  obtain s' where s': "copyToVersion v uid r (joinKey (keyAt uid (fPath f))) ?w = Some (?w\<lparr>vStorage := s'\<rparr>, Inr ())" "ok s'"
    "view s' = (view (vStorage w))([''versions''] \<mapsto> DDir, [''versions'', uid] \<mapsto> DDir, verAt uid (vtNext ?d) \<mapsto> DFile c)"
    using copyToVersion_run [OF i2 vs uid, of r "fPath f" c] ar n nx np c r(2) by auto
  have usr: "serviceUser (veUsers v) uid = Inr usr"
    using d(1,2) wi by (auto simp: serviceUser_def wiredVersions_def plain_seg_def)
  have run: "Snapshot v uid f w = Some (?w\<lparr>vStorage := s'\<rparr>, Inr ())"
    using f usr rv(2) storageKey_segs(1) [OF d(2) np] s'(1) r(1)
    by (simp add: Snapshot_def uniqueRevision_def verOp_def onPart_def op_defs keyAt_def)
  have fr: "\<forall>q. hd q \<noteq> ''versions'' \<longrightarrow> view s' q = view (vStorage w) q" using s'(3) by (auto simp: verAt_def)
  have "davInv view ok a uid usr (?w\<lparr>vStorage := s'\<rparr>)" by (rule davInv_storage [OF i2 s'(2)]) (use fr uid in auto)
  moreover have "versionsOK (aSha256 a) (view s') uid (usrID usr) ?d'" unfolding s'(3) by (rule versionsOK_add [OF ver]) (use val [OF rv(1)] r(3) cs in \<open>simp_all add: r verKey_def\<close>)
  moreover have "view s' (verAt uid (fvID r)) = Some (DFile c)" using s'(3) r(2) by simp
  ultimately show ?thesis using run fr r(3) by (intro exI [of _ "?w\<lparr>vStorage := s'\<rparr>"] exI [of _ r]) (auto simp: lens verKey_def)
qed

end

context storage_laws
begin

text \<open>An overwrite with the versions service: the old bytes become a version, everything else as without it.\<close>

lemma writeCond_versioned:
  assumes i: "davInv view ok a uid usr w" and s: "aStorage a = st" and wi: "wiredVersions v a" and uid: "uid \<noteq> ''versions''"
    and ver: "versionsOK (aSha256 a) (view (vStorage w)) uid (usrID usr) (verTable v w)"
    and f: "f \<in> set (fcRows (vMeta w))" "fUserID f = usrID usr" "\<not> fIsDir f" and t: "0 \<le> fMtime f" "fMtime f < 10 ^ 40"
    and free: "\<exists>rv \<in> set (suffixed (int_to_dec (fMtime f div 1000000000))). verGet (verTable v w) (usrID usr) (fPath f) rv = Inl FErrNotFound"
    and old: "view (vStorage w) (keyAt uid (fPath f)) = Some (DFile c)" and cond: "Evaluate cond True (fETag f) = None"
  shows "\<exists>w' e r. writeConditional a muted uid (fPath f) (body, None) mtime True cond w = Some (w', Inr (e, False))
    \<and> davInv view ok a uid usr w' \<and> versionsOK (aSha256 a) (view (vStorage w')) uid (usrID usr) (verTable v w')
    \<and> view (vStorage w') (keyAt uid (fPath f)) = Some (DFile body)
    \<and> (\<exists>g \<in> set (fcRows (vMeta w')). fUserID g = usrID usr \<and> fPath g = fPath f \<and> \<not> fIsDir g)
    \<and> vtRows (verTable v w') = vtRows (verTable v w) @ [r] \<and> fvUserID r = usrID usr \<and> fvPath r = fPath f
    \<and> view (vStorage w') (verAt uid (fvID r)) = Some (DFile c)"
proof -
  note d = davInvD [OF i]
  have np: "npath (fPath f)" using fileInvD(4) [OF d(5) f(1)] by simp
  obtain l e where e: "davStatOwned a uid (fPath f) w = Some (w\<lparr>vLocks := l\<rparr>, Inr e)" using statOwned_row [OF i s f(1,2)] by blast
  let ?w = "w\<lparr>vLocks := l\<rparr>"
  have i1: "davInv view ok a uid usr ?w" using i by simp
  obtain w1 r where w1: "Snapshot v uid f ?w = Some (w1, Inr ())" "vMeta w1 = vMeta w" "davInv view ok a uid usr w1"
      "versionsOK (aSha256 a) (view (vStorage w1)) uid (usrID usr) (verTable v w1)"
      "vtRows (verTable v w1) = vtRows (verTable v w) @ [r]" "fvUserID r = usrID usr" "fvPath r = fPath f"
      "view (vStorage w1) (verAt uid (fvID r)) = Some (DFile c)"
    using Snapshot_run [OF i1 s wi uid, of f c] ver f t free old by auto
  obtain w2 e2 g where w2: "writeStore a muted uid uid (usrID usr) (fPath f) (body, None) mtime cond (Some f) w1 = Some (w2, Inr (e2, False))"
      "davInv view ok a uid usr w2" "view (vStorage w2) = (view (vStorage w1))(keyAt uid (fPath f) \<mapsto> DFile body)"
      "g \<in> set (fcRows (vMeta w2))" "fUserID g = usrID usr" "fPath g = fPath f" "\<not> fIsDir g"
    using writeStore_over [OF w1(3) s, of f muted uid body mtime cond] f w1(2) by auto
  have q: "quietPart (vePart v) a" "aVersions a = Some (versionService v)" using wi by (auto simp: wiredVersions_def)
  have tab: "verTable v w2 = verTable v w1" using keepsD [OF keeps_writeStore [OF q(1), of "verTable v w1"] w2(1)] by simp
  have fr: "view (vStorage w2) k = view (vStorage w1) k" if "hd k = ''versions''" for k using w2(3) uid that by (auto simp: keyAt_def)
  have "davWrite a muted uid uid (fPath f) (body, None) mtime True cond ?w = Some (w2, Inr (e2, False))"
    using davWrite_step [OF i1 s, of f cond muted uid "(body, None)" mtime True] f cond w1(1) w2(1) q(2)
    by (simp add: snapshotOp_def versionService_def thenOp_def tryOp_def)
  then have "writeConditional a muted uid (fPath f) (body, None) mtime True cond w = Some (w2, Inr (e2, False))"
    using np e by (simp add: writeConditional_def tryOp_def)
  moreover have "versionsOK (aSha256 a) (view (vStorage w2)) uid (usrID usr) (verTable v w2)"
    unfolding tab by (rule versionsOK_frame [OF w1(4) fr])
  moreover have "view (vStorage w2) (verAt uid (fvID r)) = Some (DFile c)" using fr [of "verAt uid (fvID r)"] w1(8) by (simp add: verAt_def)
  ultimately show ?thesis using w2(2-7) w1(5-7) tab by auto
qed

end

lemma has_minus: "n < 0 \<Longrightarrow> x \<in> set (suffixed (int_to_dec n)) \<Longrightarrow> hd x = CHR ''-'' \<and> x \<noteq> []"
  by (auto dest!: suffixed_set simp: int_to_dec_def)

lemma suffixed_Cons: "suffixed b = b # map (\<lambda>i. b @ ''-'' @ int_to_dec (int i)) [1..<1000]"
proof -
  have "[0..<1000] = 0 # [1..<1000]" by (simp only: upt_conv_Cons [of 0 1000, simplified] One_nat_def)
  then show ?thesis by (simp add: suffixed_def del: upt_rec_numeral upt_Suc)
qed

lemma not_ValidRevision: "hd x = CHR ''-'' \<Longrightarrow> \<not> ValidRevision x"
  by (simp add: ValidRevision_def is_digit_def)

context storage_laws
begin

lemma writeIf_versioned:
  assumes i: "davInv view ok a uid usr w" and s: "aStorage a = st" and wi: "wiredVersions v a" and uid: "uid \<noteq> ''versions''"
    and ver: "versionsOK (aSha256 a) (view (vStorage w)) uid (usrID usr) (verTable v w)"
    and f: "f \<in> set (fcRows (vMeta w))" "fUserID f = usrID usr" "\<not> fIsDir f" and t: "0 \<le> fMtime f" "fMtime f < 10 ^ 40"
    and free: "\<exists>rv \<in> set (suffixed (int_to_dec (fMtime f div 1000000000))). verGet (verTable v w) (usrID usr) (fPath f) rv = Inl FErrNotFound"
    and old: "view (vStorage w) (keyAt uid (fPath f)) = Some (DFile c)" and cond: "Evaluate cond True (fETag f) = None"
  shows "\<exists>w' e r. davWriteIf a muted uid (fPath f) (body, None) mtime cond w = Some (w', Inr (e, False))
    \<and> davInv view ok a uid usr w' \<and> versionsOK (aSha256 a) (view (vStorage w')) uid (usrID usr) (verTable v w')
    \<and> (\<exists>w2 e2. davReadOp a uid (fPath f) w' = Some (w2, Inr (body, e2)))
    \<and> vtRows (verTable v w') = vtRows (verTable v w) @ [r] \<and> fvUserID r = usrID usr \<and> fvPath r = fPath f
    \<and> view (vStorage w') (verAt uid (fvID r)) = Some (DFile c)"
proof -
  obtain w1 e r where w1: "writeConditional a muted uid (fPath f) (body, None) mtime True cond w = Some (w1, Inr (e, False))"
    "davInv view ok a uid usr w1" "versionsOK (aSha256 a) (view (vStorage w1)) uid (usrID usr) (verTable v w1)"
    "view (vStorage w1) (keyAt uid (fPath f)) = Some (DFile body)" "\<exists>g \<in> set (fcRows (vMeta w1)). fUserID g = usrID usr \<and> fPath g = fPath f \<and> \<not> fIsDir g"
    "vtRows (verTable v w1) = vtRows (verTable v w) @ [r]" "fvUserID r = usrID usr" "fvPath r = fPath f" "view (vStorage w1) (verAt uid (fvID r)) = Some (DFile c)"
    using writeCond_versioned [OF assms, of muted body mtime] by blast
  obtain h where h: "emitUploaded a uid e False w1 = Some (w1\<lparr>vHooks := h\<rparr>, Inr ())" using emitUploaded_run [of a uid e False w1] by blast
  have q: "quietPart (vePart v) a" using wi by (simp add: wiredVersions_def)
  have tab: "vePart v h = verTable v w1" using keepsD [OF keeps_activity(2) [OF q, of "verTable v w1"] h] by simp
  obtain g where g: "g \<in> set (fcRows (vMeta w1))" "fUserID g = usrID usr" "fPath g = fPath f" "\<not> fIsDir g" using w1(5) by blast
  have "davWriteIf a muted uid (fPath f) (body, None) mtime cond w = Some (w1\<lparr>vHooks := h\<rparr>, Inr (e, False))"
    using w1(1) h by (simp add: davWriteIf_def thenOp_def tryOp_def retOp_def)
  moreover have "\<exists>w2 e2. davReadOp a uid (fPath f) (w1\<lparr>vHooks := h\<rparr>) = Some (w2, Inr (body, e2))"
    using read_file [of a uid usr "w1\<lparr>vHooks := h\<rparr>" g body] w1(2,4) s g by auto
  ultimately show ?thesis using w1 tab by (intro exI [of _ "w1\<lparr>vHooks := h\<rparr>"] exI [of _ e] exI [of _ r]) simp
qed

text \<open>Restoring a version: the file has its bytes again, and the bytes it had are a new version.\<close>

lemma restore_versioned:
  assumes i: "davInv view ok a uid usr w" and s: "aStorage a = st" and wi: "wiredVersions v a" and uid: "uid \<noteq> ''versions''"
    and ver: "versionsOK (aSha256 a) (view (vStorage w)) uid (usrID usr) (verTable v w)"
    and f: "f \<in> set (fcRows (vMeta w))" "fUserID f = usrID usr" "\<not> fIsDir f" and t: "0 \<le> fMtime f" "fMtime f < 10 ^ 40"
    and free: "\<exists>rv \<in> set (suffixed (int_to_dec (fMtime f div 1000000000))). verGet (verTable v w) (usrID usr) (fPath f) rv = Inl FErrNotFound"
    and old: "view (vStorage w) (keyAt uid (fPath f)) = Some (DFile c)"
    and fid: "parseNumericFileID fid = Some (fID f)" and r: "verGet (verTable v w) (usrID usr) (fPath f) rv = Inr r" "ValidRevision rv" "fvUserID r = usrID usr"
      "r \<in> set (vtRows (verTable v w))" "view (vStorage w) (verAt uid (fvID r)) = Some (DFile b)"
  shows "\<exists>w' e x. RestoreVersion v (Some a) uid fid rv uid w = Some (w', Inr (e, False))
    \<and> davInv view ok a uid usr w' \<and> versionsOK (aSha256 a) (view (vStorage w')) uid (usrID usr) (verTable v w')
    \<and> (\<exists>w2 e2. davReadOp a uid (fPath f) w' = Some (w2, Inr (b, e2)))
    \<and> vtRows (verTable v w') = vtRows (verTable v w) @ [x] \<and> fvUserID x = usrID usr \<and> fvPath x = fPath f
    \<and> view (vStorage w') (verAt uid (fvID x)) = Some (DFile c)"
proof -
  note d = davInvD [OF i]
  obtain w1 e x where w1: "writeConditional a False uid (fPath f) (b, None) None True None w = Some (w1, Inr (e, False))"
    "davInv view ok a uid usr w1" "versionsOK (aSha256 a) (view (vStorage w1)) uid (usrID usr) (verTable v w1)"
    "view (vStorage w1) (keyAt uid (fPath f)) = Some (DFile b)" "\<exists>g \<in> set (fcRows (vMeta w1)). fUserID g = usrID usr \<and> fPath g = fPath f \<and> \<not> fIsDir g"
    "vtRows (verTable v w1) = vtRows (verTable v w) @ [x]" "fvUserID x = usrID usr" "fvPath x = fPath f" "view (vStorage w1) (verAt uid (fvID x)) = Some (DFile c)"
    using writeCond_versioned [OF i s wi uid ver f t free old, of None False b None] by (auto simp: Evaluate_def)
  obtain g where g: "g \<in> set (fcRows (vMeta w1))" "fUserID g = usrID usr" "fPath g = fPath f" "\<not> fIsDir g" using w1(5) by blast
  have usr: "serviceUser (veUsers v) uid = Inr usr" and vs: "veStorage v = st"
    using d(1,2) wi s by (auto simp: serviceUser_def wiredVersions_def plain_seg_def)
  have get: "fcGetByID (vMeta w) (fID f) = Inr f" by (rule fileRow_id [OF d(5) f(1)])
  have "0 \<le> fvID r" using ver r(4) by (auto simp: versionsOK_def)
  then have op: "stOpen st (vStorage w) (versionStorageKey uid (fvID r)) = Inr b"
    using open_file [OF d(4) _ r(5)] verAt_key [OF d(2)] by simp
  have "RestoreVersion v (Some a) uid fid rv uid w = Some (w1, Inr (e, False))"
    using w1(1) usr vs get op fid r(1,2) f(2,3)
    by (simp add: RestoreVersion_def withFiles_def fileForID_def verQuery_def op_defs)
  moreover have "\<exists>w2 e2. davReadOp a uid (fPath f) w1 = Some (w2, Inr (b, e2))" using read_file [OF w1(2) s g(1,2,4), of b] w1(4) g(3) by auto
  ultimately show ?thesis using w1 by blast
qed

text \<open>A file with a time before 1970 cannot be overwritten.\<close>

lemma write_old_mtime:
  assumes i: "davInv view ok a uid usr w" and s: "aStorage a = st" and wi: "wiredVersions v a"
    and ver: "versionsOK (aSha256 a) (view (vStorage w)) uid (usrID usr) (verTable v w)"
    and f: "f \<in> set (fcRows (vMeta w))" "fUserID f = usrID usr" "\<not> fIsDir f" and t: "fMtime f < 0" and cond: "Evaluate cond True (fETag f) = None"
  shows "\<exists>w'. davWriteIf a muted uid (fPath f) r mtime cond w = Some (w', Inl (ErrOther ''files: invalid path''))
    \<and> vMeta w' = vMeta w \<and> vStorage w' = vStorage w"
proof -
  note d = davInvD [OF i]
  have np: "npath (fPath f)" using fileInvD(4) [OF d(5) f(1)] by simp
  obtain l e where e: "davStatOwned a uid (fPath f) w = Some (w\<lparr>vLocks := l\<rparr>, Inr e)" using statOwned_row [OF i s f(1,2)] by blast
  let ?w = "w\<lparr>vLocks := l\<rparr>" and ?d = "verTable v w" and ?b = "int_to_dec (fMtime f div 1000000000)"
  have i1: "davInv view ok a uid usr ?w" using i by simp
  have n: "fMtime f div 1000000000 < 0" using t by simp
  note b = suffixed_Cons [of ?b]
  have hb: "hd ?b = CHR ''-''" "?b \<noteq> []" using has_minus [OF n, of ?b] b by simp_all
  have down: "vtDown ?d = None" using ver by (simp add: versionsOK_def)
  have "find (\<lambda>x. verKey x = (usrID usr, fPath f, ?b)) (vtRows ?d) = None"
    using ver not_ValidRevision [of ?b] hb by (auto simp: find_None_iff versionsOK_def verKey_def)
  then have "verGet ?d (usrID usr) (fPath f) ?b = Inl FErrNotFound" using verGet_row [OF down d(3) np] hb by simp
  then have pr: "probe (verGet ?d (usrID usr) (fPath f)) (suffixed ?b) = Inr ?b" unfolding b by simp
  have usr: "serviceUser (veUsers v) uid = Inr usr" using d(1,2) wi by (auto simp: serviceUser_def wiredVersions_def plain_seg_def)
  have p: "fPath f \<noteq> []" using np normal_path [of "fPath f"] by (auto simp: clean_path_def)
  have "Snapshot v uid f ?w = Some (?w\<lparr>vHooks := vePut v ?d (vHooks w)\<rparr>, Inl (ErrOther ''files: invalid path''))"
    using f usr pr storageKey_segs(1) [OF d(2) np] hb not_ValidRevision [of ?b] d(3) p
    by (simp add: Snapshot_def uniqueRevision_def verOp_def onPart_def op_defs verInsert_def mapMeta_def mapKeyLocked_def errText_def)
  then have "davWrite a muted uid uid (fPath f) r mtime True cond ?w = Some (?w\<lparr>vHooks := vePut v ?d (vHooks w)\<rparr>, Inl (ErrOther ''files: invalid path''))"
    using davWrite_step [OF i1 s, of f cond muted uid r mtime True] f cond wi
    by (simp add: snapshotOp_def versionService_def wiredVersions_def thenOp_def tryOp_def failOp_def)
  then show ?thesis using np e by (simp add: davWriteIf_def writeConditional_def thenOp_def tryOp_def failOp_def)
qed

end

section \<open>Versions over a local directory\<close>

text \<open>
  C13. An overwrite with the versions service over a local directory, when the precondition of the write holds: the write succeeds, the file has the new bytes, and the bytes
  it had before are stored as one new version of this path; every version in the table still has bytes of the recorded size and
  checksum, and file cache, directory sizes and disk still agree. This holds for a file with a time from 1970 on that has a
  free revision name, of a user who is not called \<open>versions\<close>.
\<close>

theorem overwrite_keeps_version:
  assumes "davInv map_of diskOK a uid usr w" and "aStorage a = localfs" and "wiredVersions v a" and "uid \<noteq> ''versions''"
    and "versionsOK (aSha256 a) (map_of (vStorage w)) uid (usrID usr) (verTable v w)"
    and "f \<in> set (fcRows (vMeta w))" and "fUserID f = usrID usr" and "\<not> fIsDir f" and "0 \<le> fMtime f" and "fMtime f < 10 ^ 40"
    and "\<exists>rv \<in> set (suffixed (int_to_dec (fMtime f div 1000000000))). verGet (verTable v w) (usrID usr) (fPath f) rv = Inl FErrNotFound"
    and "map_of (vStorage w) (keyAt uid (fPath f)) = Some (DFile c)" and "Evaluate cond True (fETag f) = None"
  shows "\<exists>w' e r. davWriteIf a muted uid (fPath f) (body, None) mtime cond w = Some (w', Inr (e, False))
    \<and> davInv map_of diskOK a uid usr w' \<and> versionsOK (aSha256 a) (map_of (vStorage w')) uid (usrID usr) (verTable v w')
    \<and> (\<exists>w2 e2. davReadOp a uid (fPath f) w' = Some (w2, Inr (body, e2)))
    \<and> vtRows (verTable v w') = vtRows (verTable v w) @ [r] \<and> fvUserID r = usrID usr \<and> fvPath r = fPath f
    \<and> map_of (vStorage w') (verAt uid (fvID r)) = Some (DFile c)"
  using assms by (rule lfs.writeIf_versioned)

text \<open>
  C14. Restoring a version through its file id, over a local directory: the file has exactly the bytes of that version again, the
  bytes it had are stored as a new version, and nothing that the tables promise is lost. This holds for a file with a time from
  1970 on that has a free revision name, of a user who is not called \<open>versions\<close>.
\<close>

theorem restore_version_correct:
  assumes "davInv map_of diskOK a uid usr w" and "aStorage a = localfs" and "wiredVersions v a" and "uid \<noteq> ''versions''"
    and "versionsOK (aSha256 a) (map_of (vStorage w)) uid (usrID usr) (verTable v w)"
    and "f \<in> set (fcRows (vMeta w))" and "fUserID f = usrID usr" and "\<not> fIsDir f" and "0 \<le> fMtime f" and "fMtime f < 10 ^ 40"
    and "\<exists>rv \<in> set (suffixed (int_to_dec (fMtime f div 1000000000))). verGet (verTable v w) (usrID usr) (fPath f) rv = Inl FErrNotFound"
    and "map_of (vStorage w) (keyAt uid (fPath f)) = Some (DFile c)"
    and "parseNumericFileID fid = Some (fID f)" and "verGet (verTable v w) (usrID usr) (fPath f) rv = Inr r" and "ValidRevision rv"
    and "fvUserID r = usrID usr" and "r \<in> set (vtRows (verTable v w))" and "map_of (vStorage w) (verAt uid (fvID r)) = Some (DFile b)"
  shows "\<exists>w' e x. RestoreVersion v (Some a) uid fid rv uid w = Some (w', Inr (e, False))
    \<and> davInv map_of diskOK a uid usr w' \<and> versionsOK (aSha256 a) (map_of (vStorage w')) uid (usrID usr) (verTable v w')
    \<and> (\<exists>w2 e2. davReadOp a uid (fPath f) w' = Some (w2, Inr (b, e2)))
    \<and> vtRows (verTable v w') = vtRows (verTable v w) @ [x] \<and> fvUserID x = usrID usr \<and> fvPath x = fPath f
    \<and> map_of (vStorage w') (verAt uid (fvID x)) = Some (DFile c)"
  using assms by (rule lfs.restore_versioned)

text \<open>
  A file whose time lies before 1970 (a client sets it with \<open>X-OC-Mtime\<close>) cannot be overwritten when versions are kept: the
  revision name is a negative number, which the version store refuses, so every such upload fails with an
  internal error and changes nothing.
\<close>

theorem old_mtime_blocks_overwrite:
  assumes "davInv map_of diskOK a uid usr w" and "aStorage a = localfs" and "wiredVersions v a"
    and "versionsOK (aSha256 a) (map_of (vStorage w)) uid (usrID usr) (verTable v w)"
    and "f \<in> set (fcRows (vMeta w))" and "fUserID f = usrID usr" and "\<not> fIsDir f" and "fMtime f < 0" and "Evaluate cond True (fETag f) = None"
  shows "\<exists>w'. davWriteIf a muted uid (fPath f) r mtime cond w = Some (w', Inl (ErrOther ''files: invalid path''))
    \<and> vMeta w' = vMeta w \<and> vStorage w' = vStorage w"
  using assms by (rule lfs.write_old_mtime)

text \<open>A server with one user, one file, one version of it.\<close>

definition demoMetaAt :: "string \<Rightarrow> int \<Rightarrow> fileTable" where
  "demoMetaAt p t = \<lparr>fcRows = [demoRow 1 None ''/'' True 3, (demoRow 2 (Some 1) p False 3)\<lparr>fChecksum := ''SHA256:abc'', fMtime := t\<rparr>],
     fcNext = 3, fcDown = None\<rparr>"

abbreviation demoFileAt :: "string \<Rightarrow> int \<Rightarrow> File" where
  "demoFileAt p t \<equiv> (demoRow 2 (Some 1) p False 3)\<lparr>fChecksum := ''SHA256:abc'', fMtime := t\<rparr>"

abbreviation demoMeta :: "int \<Rightarrow> fileTable" where
  "demoMeta t \<equiv> demoMetaAt ''/x'' t"

abbreviation demoFile :: "int \<Rightarrow> File" where
  "demoFile t \<equiv> demoFileAt ''/x'' t"

lemma demoMeta_rows: "set (fcRows (demoMetaAt p t)) = {demoRow 1 None ''/'' True 3, demoFileAt p t}"
  by (simp add: demoMetaAt_def)

lemma demoMetaAt_davInv:
  assumes "NormalizePath p = Inr p" and "path_dir p = ''/''" and "p \<noteq> ''/''" and "keyAt ''alice'' p = [''alice'', n]"
    and "vMeta w = demoMetaAt p t" and "diskOK (vStorage w)" and "map_of (vStorage w) [''alice''] = Some DDir"
    and "map_of (vStorage w) [''alice'', n] = Some (DFile ''abc'')" and "aUsers a ''alice'' = Inr demoUser" and "aSha256 a = (\<lambda>s. s)"
  shows "davInv map_of diskOK a ''alice'' demoUser w"
proof -
  have k: "keyAt ''alice'' ''/'' = [''alice'']" "plain_seg ''alice''" "NormalizePath ''/'' = Inr ''/''" by code_simp+
  have "fileInv (demoMetaAt p t)"
    using assms(1-3) k(3) by (simp add: fileInv_def demoMetaAt_def) (simp add: demoRow_def parentOK_def fileKey_def)
  moreover have "agrees (\<lambda>s. s) (map_of (vStorage w)) ''alice'' 1 (fcRows (demoMetaAt p t))"
    using assms(4,7,8) k(1) by (simp add: agrees_def demoMeta_rows) (simp add: demoRow_def stored_def)
  moreover have "hasRoot (demoMetaAt p t) 1" by (simp add: hasRoot_def demoMeta_rows demoRow_def)
  moreover have "dirSizesOK (demoMetaAt p t) 1 (\<lambda>q. False)"
  proof -
    have "childrenOf (demoMetaAt p t) (demoRow 1 None ''/'' True 3) = {demoFileAt p t}" by (auto simp: childrenOf_def demoMeta_rows demoRow_def)
    then have "sizeOK (demoMetaAt p t) (demoRow 1 None ''/'' True 3)" by (simp add: sizeOK_def) (simp add: demoRow_def wrap64_def)
    then show ?thesis by (auto simp: dirSizesOK_def demoMeta_rows demoRow_def)
  qed
  ultimately show ?thesis using assms(5-) k(2) by (simp add: davInv_def)
qed

lemma demoMeta_davInv:
  assumes "vMeta w = demoMeta t" and "diskOK (vStorage w)" and "map_of (vStorage w) [''alice''] = Some DDir"
    and "map_of (vStorage w) [''alice'', ''x''] = Some (DFile ''abc'')" and "aUsers a ''alice'' = Inr demoUser" and "aSha256 a = (\<lambda>s. s)"
  shows "davInv map_of diskOK a ''alice'' demoUser w"
  by (rule demoMetaAt_davInv [OF _ _ _ _ assms]) code_simp+

definition demoVersions :: "(disk, unit, versionTable) Versions" where
  "demoVersions = \<lparr>veStorage = localfs, vePart = (\<lambda>h. h), vePut = (\<lambda>t h. t), veLike = (\<lambda>s p. False),
     veUsers = (\<lambda>u. if u = ''alice'' then Inr demoUser else Inl UErrNotFound), veNow = 9000000000, veRetention = 0\<rparr>"

definition demoVerAdapter :: "(disk, unit, versionTable) davAdapter" where
  "demoVerAdapter = \<lparr>aStorage = localfs, aUsers = veUsers demoVersions, aNow = 9000000000, aSha1 = (\<lambda>s. s), aSha256 = (\<lambda>s. s), aLike = (\<lambda>s p. False),
     aTrash = None, aVersions = Some (versionService demoVersions), aProps = None, aLocks = None, aShares = None, aIncoming = None,
     aRemote = None, aLiveProps = None, aSetLiveProp = (\<lambda>h _ _ _ _ _. (h, None)), aEvents = None, aActivity = None\<rparr>"

abbreviation demoVersion :: FileVersion where
  "demoVersion \<equiv> \<lparr>fvID = 1, fvUserID = 1, fvPath = ''/x'', fvRevision = ''5'', fvSize = 3, fvChecksum = ''SHA256:old'', fvCreated = 8000000000\<rparr>"

definition demoVerState :: "int \<Rightarrow> (disk, unit, versionTable) davState" where
  "demoVerState t = \<lparr>vMeta = demoMeta t,
     vStorage = [([], DDir), ([''alice''], DDir), ([''alice'', ''x''], DFile ''abc''), ([''versions''], DDir), ([''versions'', ''alice''], DDir),
       ([''versions'', ''alice'', ''1''], DFile ''old'')],
     vLocks = (), vHooks = \<lparr>vtRows = [demoVersion], vtNext = 2, vtDown = None\<rparr>\<rparr>"

lemma demoVer_wired: "wiredVersions demoVersions demoVerAdapter" "aStorage demoVerAdapter = localfs" "aSha256 demoVerAdapter = (\<lambda>s. s)"
  by (simp_all add: wiredVersions_def demoVersions_def demoVerAdapter_def quietPart_def)

lemma demoVer_inv: "davInv map_of diskOK demoVerAdapter ''alice'' demoUser (demoVerState t)"
proof (rule demoMeta_davInv)
  show "diskOK (vStorage (demoVerState t))" by (auto simp: demoVerState_def diskOK_def split: if_splits)
qed (simp_all add: demoVerState_def demoVerAdapter_def demoVersions_def)

lemma demoVer_ok: "versionsOK (\<lambda>s. s) (map_of (vStorage (demoVerState t))) ''alice'' 1 (verTable demoVersions (demoVerState t))"
proof -
  have one: "int_to_dec 1 = ''1''" "ValidRevision ''5''" by code_simp+
  have "int_to_dec n \<noteq> ''1''" if "n \<ge> 2" for n using int_to_dec_inj [of n 1] one(1) that by auto
  then show ?thesis using one
    by (auto simp: versionsOK_def demoVerState_def demoVersions_def areaOK_def holdsVersion_def verAt_def)
qed

lemma demoVer_file:
  "demoFile t \<in> set (fcRows (vMeta (demoVerState t)))" "fUserID (demoFile t) = usrID demoUser" "\<not> fIsDir (demoFile t)" "fMtime (demoFile t) = t"
  "fPath (demoFile t) = ''/x''" "fID (demoFile t) = 2"
  by (simp_all add: demoVerState_def demoMeta_rows demoRow_def)

lemma demoVer_free:
  "\<exists>rv \<in> set (suffixed (int_to_dec (0 div 1000000000))). verGet (verTable demoVersions (demoVerState 0)) (usrID demoUser) ''/x'' rv = Inl FErrNotFound"
proof -
  have "int_to_dec 0 = ''0''" "verGet \<lparr>vtRows = [demoVersion], vtNext = 2, vtDown = None\<rparr> 1 ''/x'' ''0'' = Inl FErrNotFound" by code_simp+
  then show ?thesis using suffixed_Cons [of "''0''"] by (simp add: demoVersions_def demoVerState_def)
qed

lemma demoVer_content: "map_of (vStorage (demoVerState t)) (keyAt ''alice'' ''/x'') = Some (DFile ''abc'')"
proof -
  have "keyAt ''alice'' ''/x'' = [''alice'', ''x'']" by code_simp
  then show ?thesis by (simp add: demoVerState_def)
qed

theorem overwrite_keeps_version_witness:
  "\<exists>w' e r. davWriteIf demoVerAdapter False ''alice'' ''/x'' (''new'', None) None None (demoVerState 0) = Some (w', Inr (e, False))
     \<and> (\<exists>w2 e2. davReadOp demoVerAdapter ''alice'' ''/x'' w' = Some (w2, Inr (''new'', e2)))
     \<and> vtRows (vHooks w') = [demoVersion, r] \<and> map_of (vStorage w') (verAt ''alice'' (fvID r)) = Some (DFile ''abc'')"
proof -
  have "\<exists>w' e r. davWriteIf demoVerAdapter False ''alice'' ''/x'' (''new'', None) None None (demoVerState 0) = Some (w', Inr (e, False))
     \<and> (\<exists>w2 e2. davReadOp demoVerAdapter ''alice'' ''/x'' w' = Some (w2, Inr (''new'', e2)))
     \<and> vtRows (verTable demoVersions w') = vtRows (verTable demoVersions (demoVerState 0)) @ [r] \<and> map_of (vStorage w') (verAt ''alice'' (fvID r)) = Some (DFile ''abc'')"
    using overwrite_keeps_version [OF demoVer_inv demoVer_wired(2,1), of 0 "demoFile 0" "''abc''" None False "''new''" None]
      demoVer_ok [of 0] demoVer_file [of 0] demoVer_free demoVer_content [of 0] demoVer_wired(3) by (auto simp: Evaluate_def)
  then show ?thesis by (simp add: demoVersions_def demoVerState_def)
qed

theorem restore_version_correct_witness:
  "\<exists>w' e. RestoreVersion demoVersions (Some demoVerAdapter) ''alice'' ''2'' ''5'' ''alice'' (demoVerState 0) = Some (w', Inr (e, False))
     \<and> (\<exists>w2 e2. davReadOp demoVerAdapter ''alice'' ''/x'' w' = Some (w2, Inr (''old'', e2)))"
proof -
  have v: "verTable demoVersions (demoVerState 0) = \<lparr>vtRows = [demoVersion], vtNext = 2, vtDown = None\<rparr>" by (simp add: demoVersions_def demoVerState_def)
  have g: "verGet (verTable demoVersions (demoVerState 0)) (usrID demoUser) ''/x'' ''5'' = Inr demoVersion" unfolding v by code_simp
  have p: "parseNumericFileID ''2'' = Some 2" "ValidRevision ''5''" "int_to_dec 1 = ''1''" by code_simp+
  have b: "map_of (vStorage (demoVerState 0)) (verAt ''alice'' (fvID demoVersion)) = Some (DFile ''old'')" using p(3) by (simp add: demoVerState_def verAt_def)
  show ?thesis
    using restore_version_correct [OF demoVer_inv demoVer_wired(2,1), of 0 "demoFile 0" "''abc''" "''2''" "''5''" demoVersion "''old''"]
      demoVer_ok [of 0] demoVer_file [of 0] demoVer_free demoVer_content [of 0] demoVer_wired(3) g p b v by auto
qed

theorem old_mtime_blocks_overwrite_witness:
  "\<exists>w'. davWriteIf demoVerAdapter False ''alice'' ''/x'' (''new'', None) None None (demoVerState (- 1)) = Some (w', Inl (ErrOther ''files: invalid path''))"
  using old_mtime_blocks_overwrite [OF demoVer_inv demoVer_wired(2,1), of "- 1" "demoFile (- 1)" None False "(''new'', None)" None]
    demoVer_ok [of "- 1"] demoVer_file [of "- 1"] demoVer_wired(3) by (auto simp: Evaluate_def)

end
