(* ===== verification/Files_TrashLaws.thy ===== *)
theory Files_TrashLaws
  imports Files_StoreDelete Files_VersionLaws
begin

text \<open>
  What the trash bin guarantees: a file or a directory that is moved to it keeps its bytes under the location of a new row, while
  file cache, directory sizes and storage still agree; a restore brings the file back to its path. Names that the trash bin cannot take and
  a purge that reaches a newer file are shown as well.
\<close>

section \<open>Location ids\<close>

lemma containsAt_iff: "i \<in> set (containsAt s t) \<longleftrightarrow> i \<le> length s \<and> (\<exists>b. drop i s = t @ b)"
  by (auto simp: containsAt_def has_prefix_iff less_Suc_eq_le simp del: upt_Suc)

lemma containsAt_Nil: "containsAt s t = [] \<longleftrightarrow> (\<nexists>a b. s = a @ t @ b)"
proof
  assume c: "containsAt s t = []"
  show "\<nexists>a b. s = a @ t @ b"
  proof
    assume "\<exists>a b. s = a @ t @ b"
    then obtain a b where "s = a @ t @ b" by blast
    then have "length a \<in> set (containsAt s t)" by (auto simp: containsAt_iff)
    then show False using c by simp
  qed
next
  assume n: "\<nexists>a b. s = a @ t @ b"
  have "i \<notin> set (containsAt s t)" for i
  proof
    assume "i \<in> set (containsAt s t)"
    then obtain b where "drop i s = t @ b" by (auto simp: containsAt_iff)
    then have "s = take i s @ t @ b" by (metis append_take_drop_id)
    then show False using n by blast
  qed
  then show "containsAt s t = []" by (metis ex_in_conv set_empty)
qed

lemma no_dot_prefix: "c \<notin> set z \<Longrightarrow> \<not> has_prefix z (c # t)"
  by (auto simp: has_prefix_iff)

lemma containsAt_snoc:
  assumes "CHR ''.'' \<notin> set ys" and "y \<noteq> CHR ''.''" and "containsAt (xs @ [y]) ''..'' = []"
  shows "containsAt (xs @ [y] @ ys) ''..'' = []"
  unfolding containsAt_Nil
proof
  assume "\<exists>a b. xs @ [y] @ ys = a @ ''..'' @ b"
  then obtain a b where e: "(xs @ [y]) @ ys = (a @ ''..'') @ b" by auto
  obtain us where "(xs @ [y]) @ us = a @ ''..'' \<and> ys = us @ b \<or> xs @ [y] = (a @ ''..'') @ us \<and> us @ ys = b"
    using e unfolding append_eq_append_conv2 by blast
  then show False
  proof (elim disjE conjE)
    assume us: "(xs @ [y]) @ us = a @ ''..''" "ys = us @ b"
    show False
    proof (cases us rule: rev_cases)
      case Nil then show ?thesis using us(1) assms(2) by (auto dest: arg_cong [of _ _ last])
    next
      case (snoc vs v)
      then have "v = CHR ''.''" using us(1) by (auto dest: arg_cong [of _ _ last])
      then show ?thesis using us(2) snoc assms(1) by simp
    qed
  next
    assume "xs @ [y] = (a @ ''..'') @ us" "us @ ys = b"
    then have "\<exists>a b. xs @ [y] = a @ ''..'' @ b" by auto
    then show False using assms(3) by (simp add: containsAt_Nil)
  qed
qed

lemma last_dot_d:
  assumes "CHR ''.'' \<notin> set ys" shows "\<exists>i js. containsAt (xs @ ''.d'' @ ys) ''.d'' = i # js \<and> last (i # js) = length xs"
proof -
  let ?s = "xs @ ''.d'' @ ys" and ?k = "length xs"
  have "[0..<Suc (length ?s)] = [0..<?k] @ [?k] @ [Suc ?k..<Suc (length ?s)]"
    using upt_add_eq_append [of 0 ?k "length ys + 3"] upt_conv_Cons [of ?k "?k + (length ys + 3)"] by (simp del: upt_Suc add: add.commute [of 3] numeral_3_eq_3)
  moreover have "filter (\<lambda>i. has_prefix (drop i ?s) ''.d'') [Suc ?k..<Suc (length ?s)] = []"
  proof -
    have "\<not> has_prefix (drop i ?s) ''.d''" if "Suc ?k \<le> i" for i
    proof -
      define j where "j = i - Suc ?k"
      then have i: "i = Suc (?k + j)" using that by simp
      have "CHR ''.'' \<notin> set (drop i ?s)" using assms i in_set_dropD [of "CHR ''.''" j "CHR ''d'' # ys"] by auto
      then show ?thesis by (rule no_dot_prefix)
    qed
    then show ?thesis by (simp del: upt_Suc)
  qed
  ultimately have "containsAt ?s ''.d'' = filter (\<lambda>i. has_prefix (drop i ?s) ''.d'') [0..<?k] @ [?k]"
    unfolding containsAt_def by (simp del: upt_Suc add: has_prefix_iff)
  then show ?thesis by (metis append_is_Nil_conv last_snoc list.exhaust list.simps(3))
qed

text \<open>The names that the trash bin can take, and those that it cannot.\<close>

definition trashName :: "string \<Rightarrow> bool" where
  "trashName n \<longleftrightarrow> n \<noteq> [] \<and> length n \<le> 200 \<and> CHR ''/'' \<notin> set n \<and> CHR 0x5C \<notin> set n \<and> containsAt (n @ ''.d'') ''..'' = []"

lemma ValidLocationID_I:
  assumes n: "trashName n" and d: "list_all is_digit ds" "ds \<noteq> []" "length ds \<le> 40" and e: "ys = [] \<or> (\<exists>es. ys = CHR ''-'' # es \<and> list_all is_digit es \<and> length es \<le> 3)"
  shows "ValidLocationID (n @ ''.d'' @ ds @ ys)"
proof -
  have dy: "CHR ''.'' \<notin> set (ds @ ys)" "CHR ''/'' \<notin> set (ds @ ys)" "CHR 0x5C \<notin> set (ds @ ys)" "length ys \<le> 4"
    using digits_no [OF d(1)] e digits_no by auto
  have c: "containsAt (n @ ''.d'' @ ds @ ys) ''..'' = []" using containsAt_snoc [OF dy(1), of "CHR ''d''" "n @ ''.''"] n by (simp add: trashName_def)
  obtain i js where k: "containsAt (n @ ''.d'' @ ds @ ys) ''.d'' = i # js" "last (i # js) = length n" using last_dot_d [OF dy(1), of n] by blast
  obtain x xs where x: "ds = x # xs" using d(2) by (cases ds) auto
  have "list_all (\<lambda>c. is_digit c \<or> c = CHR ''-'') (xs @ ys)" "is_digit x" using d(1) e x by (auto simp: list_all_iff)
  then show ?thesis using n c k x dy d(3) by (auto simp: ValidLocationID_def trashName_def Let_def)
qed

lemma plain_path_base:
  assumes "n \<noteq> []" and "CHR ''/'' \<notin> set n" shows "path_base n = n"
proof -
  have "last n \<noteq> CHR ''/''" using assms last_in_set by metis
  then have "trim_right_set n ''/'' = n" using trim_right_set_idem [of n "''/''"] by simp
  then show ?thesis using assms by (simp add: path_base_def last_index_byte_def)
qed

lemma suffixed_valid:
  assumes n: "trashName n" and t: "0 \<le> ts" "ts < 10 ^ 40" and x: "x \<in> set (suffixed (makeLocationID n ts))"
  shows "ValidLocationID x"
proof -
  have nn: "n \<noteq> []" "CHR ''/'' \<notin> set n" "n \<noteq> ''.''" using n by (auto simp: trashName_def containsAt_def has_prefix_iff)
  have b: "path_base n = n" by (rule plain_path_base [OF nn(1,2)])
  let ?k = "ts div 1000000000"
  have k: "0 \<le> ?k" "?k < 10 ^ 40" using t by simp_all
  have ds: "list_all is_digit (pos_to_dec ?k)" "pos_to_dec ?k \<noteq> []" "length (pos_to_dec ?k) \<le> 40"
    using pos_to_dec_digits [OF k(1)] pos_to_dec_length [OF k] by simp_all
  have m: "makeLocationID n ts = n @ ''.d'' @ pos_to_dec ?k" using b nn k(1) by (auto simp: makeLocationID_def Let_def int_to_dec_def)
  from suffixed_set [OF x] show ?thesis
  proof
    assume "x = makeLocationID n ts" then show ?thesis using ValidLocationID_I [OF n ds, of "[]"] m by simp
  next
    assume "\<exists>i < 1000. 0 < i \<and> x = makeLocationID n ts @ ''-'' @ int_to_dec (int i)"
    then obtain i where i: "i < 1000" "x = n @ ''.d'' @ pos_to_dec ?k @ CHR ''-'' # pos_to_dec (int i)" using m by (auto simp: int_to_dec_def)
    have "list_all is_digit (pos_to_dec (int i))" "length (pos_to_dec (int i)) \<le> 3"
      using pos_to_dec_digits [of "int i"] pos_to_dec_length [of "int i" 3] i(1) by simp_all
    then show ?thesis unfolding i(2) by (intro ValidLocationID_I [OF n ds] disjI2) auto
  qed
qed

section \<open>The trash of a user\<close>

definition trashAt :: "string \<Rightarrow> string \<Rightarrow> string list" where
  "trashAt uid loc = [''trash'', uid, loc]"

definition trashOK :: "(string list \<Rightarrow> dnode option) \<Rightarrow> string \<Rightarrow> int \<Rightarrow> trashTable \<Rightarrow> bool" where
  "trashOK v uid u d \<longleftrightarrow> ttDown d = None \<and> areaOK v ''trash'' uid \<and> (\<forall>r \<in> set (ttRows d). ValidLocationID (tiLocationID r))
     \<and> (\<forall>loc. trashGet d u loc = Inl FErrNotFound \<longrightarrow> v (trashAt uid loc) = None)"

text \<open>The trash service over the adapter, with lock and share stores that answer.\<close>

definition wiredTrash :: "('s, 'd, 'h) Trash \<Rightarrow> ('s, 'd, 'h) davAdapter \<Rightarrow> bool" where
  "wiredTrash t a \<longleftrightarrow> trFiles t = Some a \<and> trStorage t = aStorage a \<and> trUsers t = aUsers a \<and> (\<forall>x h. trPart t (trPut t x h) = x)
     \<and> (\<forall>ls d u p. aLocks a = Some ls \<longrightarrow> (\<exists>d'. lsDeleteByPath ls d u p = (d', Inr ())))
     \<and> (\<forall>ss h u p. aShares a = Some ss \<longrightarrow> (\<exists>h'. shDeleteByPath ss h u p = (h', Inr ()) \<and> trPart t h' = trPart t h))"

abbreviation trTable :: "('s, 'd, 'h) Trash \<Rightarrow> ('s, 'd, 'h) davState \<Rightarrow> trashTable" where
  "trTable t w \<equiv> trPart t (vHooks w)"

lemma ValidLocationID_plain: "ValidLocationID loc \<Longrightarrow> plain_seg loc"
proof -
  assume v: "ValidLocationID loc"
  have "''.'' \<noteq> loc" using v by (auto simp: ValidLocationID_def containsAt_def has_prefix_iff split: list.splits if_splits)
  moreover have "''..'' \<noteq> loc" using v by (auto simp: ValidLocationID_def containsAt_def has_prefix_iff split: list.splits if_splits)
  ultimately show ?thesis using v by (auto simp: ValidLocationID_def plain_seg_def split: if_splits)
qed

lemma trashGet_row:
  assumes "ttDown d = None" and "u \<noteq> 0" and "loc \<noteq> []"
  shows "trashGet d u loc = (case find (\<lambda>i. tiUserID i = u \<and> tiLocationID i = loc) (ttRows d) of None \<Rightarrow> Inl FErrNotFound | Some i \<Rightarrow> Inr i)"
  using assms by (simp add: trashGet_def)

lemma trashInsert_new:
  assumes d: "ttDown d = None" and u: "u \<noteq> 0" and v: "ValidLocationID loc" and g: "trashGet d u loc = Inl FErrNotFound"
    and i: "tiUserID i0 = u" "tiLocationID i0 = loc" "tiName i0 \<noteq> []"
  shows "\<exists>r. trashInsert now d i0 = (d\<lparr>ttRows := ttRows d @ [r], ttNext := ttNext d + 1\<rparr>, Inr r) \<and> tiUserID r = u \<and> tiLocationID r = loc
    \<and> tiOriginalPath r = tiOriginalPath i0 \<and> trashGet (d\<lparr>ttRows := ttRows d @ [r], ttNext := ttNext d + 1\<rparr>) u loc = Inr r"
proof -
  have l: "loc \<noteq> []" using v by (auto simp: ValidLocationID_def)
  have f: "find (\<lambda>x. tiUserID x = u \<and> tiLocationID x = loc) (ttRows d) = None" using g trashGet_row [OF d u l] by (auto split: option.splits)
  then have n: "\<not> list_ex (\<lambda>x. tiUserID x = u \<and> tiLocationID x = loc) (ttRows d)" by (auto simp: find_None_iff list_ex_iff)
  let ?r = "i0\<lparr>tiName := tiName i0, tiDeleted := msTrunc (if tiDeleted i0 = zeroTime then now else tiDeleted i0), tiID := ttNext d\<rparr>"
  let ?d = "d\<lparr>ttRows := ttRows d @ [?r], ttNext := ttNext d + 1\<rparr>"
  have g': "trashGet ?d u loc = Inr ?r" using trashGet_row [of ?d, OF _ u l] d f find_snoc [of _ "ttRows d" ?r] i by simp
  then have "trashInsert now d i0 = (?d, Inr ?r)" using d u v n i l by (simp add: trashInsert_def Let_def)
  then show ?thesis using g' i by auto
qed

lemma trashGet_insert_other:
  assumes "ttDown d = None" and "tiUserID r = u" and "tiLocationID r = loc" and "trashGet (d\<lparr>ttRows := ttRows d @ [r], ttNext := n\<rparr>) u x = Inl FErrNotFound"
    and "u \<noteq> 0" and "loc \<noteq> []"
  shows "trashGet d u x = Inl FErrNotFound \<and> x \<noteq> loc"
  using assms find_snoc [of _ "ttRows d" r] by (auto simp: trashGet_def split: if_splits option.splits)

lemma keyAt_below:
  assumes "clean_path p" and "npath q" shows "atOrBelow (keyAt uid p) (keyAt uid q) \<longleftrightarrow> q = p \<or> below p q"
proof -
  note p = segsOf_clean [OF assms(1)]
  have k: "atOrBelow (keyAt uid p) (keyAt uid q) \<longleftrightarrow> (\<exists>z. segsOf q = segsOf p @ z)" by (auto simp: atOrBelow_iff keyAt_def)
  show ?thesis
  proof (cases "q = ''/''")
    case True
    then show ?thesis using k p clean_not_root [OF assms(1)] below_not_root [OF assms(1)] by auto
  next
    case False
    then have cq: "clean_path q" using normal_path [OF assms(2)] by blast
    note q = segsOf_clean [OF cq]
    have "below p q \<longleftrightarrow> (\<exists>z. z \<noteq> [] \<and> segsOf q = segsOf p @ z)"
      using p q below_mkpath [of "segsOf p" "segsOf q"] by auto
    moreover have "q = p \<longleftrightarrow> segsOf q = segsOf p" using p q by metis
    ultimately show ?thesis using k by (metis append_Nil2)
  qed
qed

lemma moveView_other: "\<not> atOrBelow q x \<Longrightarrow> \<not> atOrBelow p x \<Longrightarrow> moveView p q v x = v x"
  by (simp add: moveView_def)

lemma atOrBelow_hd: "a \<noteq> [] \<Longrightarrow> atOrBelow a x \<Longrightarrow> hd x = hd a"
  by (auto simp: atOrBelow_iff)

lemma agrees_pruned:
  assumes a: "agrees sha256 v uid u rows" and p: "clean_path p" and n: "\<And>r. r \<in> set rows \<Longrightarrow> npath (fPath r)"
    and q: "q \<noteq> []" "hd q \<noteq> uid" and v': "\<And>x. hd x = uid \<Longrightarrow> v1 x = v x"
  shows "agrees sha256 (moveView (keyAt uid p) q v1) uid u (filter (\<lambda>r. \<not> inTree u p r) rows)"
  unfolding agrees_def
proof (intro ballI impI)
  fix r assume r: "r \<in> set (filter (\<lambda>r. \<not> inTree u p r) rows)" "fUserID r = u"
  then have m: "r \<in> set rows" "\<not> (fPath r = p \<or> below p (fPath r))" by (auto simp: inTree_def)
  have "\<not> atOrBelow (keyAt uid p) (keyAt uid (fPath r))" using keyAt_below [OF p n [OF m(1)]] m(2) by simp
  moreover have "\<not> atOrBelow q (keyAt uid (fPath r))" using atOrBelow_hd [OF q(1), of "keyAt uid (fPath r)"] q(2) by (auto simp: keyAt_def)
  ultimately have "moveView (keyAt uid p) q v1 (keyAt uid (fPath r)) = v (keyAt uid (fPath r))" using moveView_other v' by (simp add: keyAt_def)
  then show "\<exists>m. moveView (keyAt uid p) q v1 (keyAt uid (fPath r)) = Some m \<and> stored sha256 r m" using a m(1) r(2) by (auto simp: agrees_def)
qed

lemma hasRoot_pruned: "clean_path p \<Longrightarrow> hasRoot d u \<Longrightarrow> hasRoot (pruned u p d) u"
  using clean_not_root [of p] below_not_root [of p "''/''"] by (auto simp: hasRoot_def pruned_def inTree_def)

lemma trashOK_added:
  assumes t: "trashOK v uid u d" and u: "u \<noteq> 0" and l: "ValidLocationID loc" and r: "tiUserID r = u" "tiLocationID r = loc"
    and p: "p \<noteq> []" "hd p \<noteq> ''trash''"
  shows "trashOK (moveView p (trashAt uid loc) (v([''trash''] \<mapsto> DDir, [''trash'', uid] \<mapsto> DDir))) uid u (d\<lparr>ttRows := ttRows d @ [r], ttNext := n\<rparr>)"
proof -
  let ?v = "moveView p (trashAt uid loc) (v([''trash''] \<mapsto> DDir, [''trash'', uid] \<mapsto> DDir))"
  have ln: "loc \<noteq> []" using l by (auto simp: ValidLocationID_def)
  have np: "\<not> atOrBelow p (''trash'' # x)" for x using atOrBelow_hd [OF p(1), of "''trash'' # x"] p(2) by auto
  have nt: "\<not> atOrBelow (trashAt uid loc) [''trash'']" "\<not> atOrBelow (trashAt uid loc) [''trash'', uid]"
    "\<And>x. atOrBelow (trashAt uid loc) (trashAt uid x) \<longleftrightarrow> x = loc" by (auto simp: atOrBelow_iff trashAt_def)
  have "areaOK ?v ''trash'' uid" using np nt by (auto simp: areaOK_def moveView_other)
  moreover have "?v (trashAt uid x) = None" if x: "trashGet (d\<lparr>ttRows := ttRows d @ [r], ttNext := n\<rparr>) u x = Inl FErrNotFound" for x
  proof -
    have "trashGet d u x = Inl FErrNotFound" "x \<noteq> loc"
      using trashGet_insert_other [OF _ r x u ln] t by (auto simp: trashOK_def)
    moreover have "\<not> atOrBelow p (trashAt uid x)" using np [of "[uid, x]"] by (simp add: trashAt_def)
    ultimately have "?v (trashAt uid x) = (v([''trash''] \<mapsto> DDir, [''trash'', uid] \<mapsto> DDir)) (trashAt uid x)" using nt(3) by (intro moveView_other) simp_all
    also have "\<dots> = v (trashAt uid x)" by (simp add: trashAt_def)
    finally show ?thesis using t \<open>trashGet d u x = Inl FErrNotFound\<close> by (simp add: trashOK_def)
  qed
  ultimately show ?thesis using t l r(2) by (auto simp: trashOK_def)
qed

lemma locksOp_run:
  assumes "\<And>ls d u p. aLocks a = Some ls \<Longrightarrow> \<exists>d'. lsDeleteByPath ls d u p = (d', Inr ())"
  shows "\<exists>l. locksOp a (\<lambda>ls d. lsDeleteByPath ls d u p) w = Some (w\<lparr>vLocks := l\<rparr>, Inr ())"
proof (cases "aLocks a")
  case None then show ?thesis by (intro exI [of _ "vLocks w"]) (simp add: locksOp_def retOp_def)
next
  case (Some ls)
  then obtain d' where "lsDeleteByPath ls (vLocks w) u p = (d', Inr ())" using assms by blast
  then show ?thesis using Some by (intro exI [of _ d']) (simp add: locksOp_def)
qed

lemma sharesOp_run:
  assumes "\<And>ss h u p. aShares a = Some ss \<Longrightarrow> \<exists>h'. shDeleteByPath ss h u p = (h', Inr ()) \<and> part h' = part h"
  shows "\<exists>h. sharesOp a (\<lambda>ss h. shDeleteByPath ss h u p) w = Some (w\<lparr>vHooks := h\<rparr>, Inr ()) \<and> part h = part (vHooks w)"
proof (cases "aShares a")
  case None then show ?thesis by (intro exI [of _ "vHooks w"]) (simp add: sharesOp_def retOp_def)
next
  case (Some ss)
  then obtain h' where "shDeleteByPath ss (vHooks w) u p = (h', Inr ())" "part h' = part (vHooks w)" using assms by blast
  then show ?thesis using Some by (intro exI [of _ h']) (simp add: sharesOp_def hookOp_def)
qed

context storage_laws
begin

text \<open>A node of the tree, with all below it, goes to the trash.\<close>

lemma MoveToTrash_run:
  assumes i: "davInv view ok a uid usr w" and s: "aStorage a = st" and wi: "wiredTrash t a" and uid: "uid \<noteq> ''trash''"
    and tr: "trashOK (view (vStorage w)) uid (usrID usr) (trTable t w)"
    and f: "f \<in> set (fcRows (vMeta w))" "fUserID f = usrID usr" "fPath f \<noteq> ''/''"
    and n: "trashName (fName f)" and now: "0 \<le> trNow t" "trNow t < 10 ^ 40"
    and free: "\<exists>x \<in> set (suffixed (makeLocationID (fName f) (trNow t))). trashGet (trTable t w) (usrID usr) x = Inl FErrNotFound"
  shows "\<exists>w' loc item. MoveToTrash t uid (fPath f) by w = Some (w', Inr ()) \<and> davInv view ok a uid usr w'
    \<and> trashOK (view (vStorage w')) uid (usrID usr) (trTable t w')
    \<and> ValidLocationID loc \<and> trashGet (trTable t w) (usrID usr) loc = Inl FErrNotFound
    \<and> trashGet (trTable t w') (usrID usr) loc = Inr item \<and> tiOriginalPath item = fPath f
    \<and> ttRows (trTable t w') = ttRows (trTable t w) @ [item] \<and> tiUserID item = usrID usr \<and> tiLocationID item = loc
    \<and> list_all2 (recalced (usrID usr)) (fcRows (pruned (usrID usr) (fPath f) (vMeta w))) (fcRows (vMeta w'))
    \<and> view (vStorage w') = moveView (keyAt uid (fPath f)) (trashAt uid loc) ((view (vStorage w))([''trash''] \<mapsto> DDir, [''trash'', uid] \<mapsto> DDir))"
proof -
  note d = davInvD [OF i]
  have np: "npath (fPath f)" using fileInvD(4) [OF d(5) f(1)] by simp
  have cp: "clean_path (fPath f)" using np f(3) normal_path by blast
  let ?u = "usrID usr" and ?p = "fPath f" and ?T = "trTable t w" and ?xs = "suffixed (makeLocationID (fName f) (trNow t))"
  have down: "ttDown ?T = None" using tr by (simp add: trashOK_def)
  have val: "ValidLocationID x" if "x \<in> set ?xs" for x by (rule suffixed_valid [OF n now that])
  have ne: "x \<noteq> []" if "x \<in> set ?xs" for x using val [OF that] by (auto simp: ValidLocationID_def)
  have "\<forall>x \<in> set ?xs. \<forall>e. trashGet ?T ?u x = Inl e \<longrightarrow> e = FErrNotFound" using trashGet_row [OF down d(3)] ne by (auto split: option.splits)
  from probe_free [OF free this] obtain loc where loc: "loc \<in> set ?xs" "probe (trashGet ?T ?u) ?xs = Inr loc" "trashGet ?T ?u loc = Inl FErrNotFound" by blast
  have vl: "ValidLocationID loc" by (rule val [OF loc(1)])
  have plt: "plain_seg ''trash''" by (simp add: plain_seg_def)
  note k = area_key [OF d(2) plt ValidLocationID_plain [OF vl]] and sk = storageKey_segs [OF d(2) np, folded keyAt_def]
  have home: "view (vStorage w) [uid] = Some DDir" by (rule home_dir [OF i])
  have ar: "areaOK (view (vStorage w)) ''trash'' uid" using tr by (simp add: trashOK_def)
  obtain s1 where s1: "ensureDirs st ''trash'' uid w = Some (w\<lparr>vStorage := s1\<rparr>, Inr ())" "ok s1"
    "view s1 = (view (vStorage w))([''trash''] \<mapsto> DDir, [''trash'', uid] \<mapsto> DDir)"
    using ensureDirs_run [OF d(4,2) plt ar root_dir [OF d(4) home]] by blast
  obtain m where m: "view (vStorage w) (keyAt uid ?p) = Some m" using d(8) f(1,2) by (auto simp: agrees_def)
  have "view s1 (keyAt uid ?p) = Some m" using m s1(3) uid by (auto simp: keyAt_def)
  moreover have "view s1 (trashAt uid loc) = None" using s1(3) tr loc(3) by (simp add: trashOK_def) (simp add: trashAt_def)
  moreover have "view s1 (butlast (trashAt uid loc)) = Some DDir" using s1(3) by (simp add: trashAt_def)
  moreover have "\<not> atOrBelow (keyAt uid ?p) (trashAt uid loc)" using atOrBelow_hd [of "keyAt uid ?p" "trashAt uid loc"] uid by (auto simp: keyAt_def trashAt_def)
  ultimately obtain s2 where s2: "stRename st s1 (joinKey (keyAt uid ?p)) (joinKey (trashAt uid loc)) = (s2, Inr ())" "ok s2"
    "view s2 = moveView (keyAt uid ?p) (trashAt uid loc) (view s1)"
    using rename_node [OF s1(2) _ sk(2)] k(6) by (metis trashAt_def)
  let ?i0 = "\<lparr>tiID = 0, tiUserID = ?u, tiOriginalPath = ?p, tiLocationID = loc, tiName = fName f, tiIsDir = fIsDir f, tiSize = fSize f, tiDeleted = trNow t, tiDeletedBy = by\<rparr>"
  have fn: "fName f \<noteq> []" using n by (simp add: trashName_def)
  obtain r where r: "trashInsert (trNow t) ?T ?i0 = (?T\<lparr>ttRows := ttRows ?T @ [r], ttNext := ttNext ?T + 1\<rparr>, Inr r)" "tiUserID r = ?u" "tiLocationID r = loc"
      "tiOriginalPath r = ?p" "trashGet (?T\<lparr>ttRows := ttRows ?T @ [r], ttNext := ttNext ?T + 1\<rparr>) ?u loc = Inr r"
    using trashInsert_new [OF down d(3) vl loc(3), of ?i0 "trNow t"] fn by auto
  let ?T' = "?T\<lparr>ttRows := ttRows ?T @ [r], ttNext := ttNext ?T + 1\<rparr>"
  let ?d1 = "pruned ?u ?p (vMeta w)"
  have lens: "trPart t (trPut t x h) = x" for x h using wi by (simp add: wiredTrash_def)
  let ?h1 = "trPut t ?T' (vHooks w)"
  let ?w1 = "w\<lparr>vStorage := s2, vHooks := ?h1, vMeta := ?d1\<rparr>"
  obtain l where l: "locksOp a (\<lambda>ls d. lsDeleteByPath ls d ?u ?p) ?w1 = Some (?w1\<lparr>vLocks := l\<rparr>, Inr ())" using locksOp_run [of a ?u ?p ?w1] wi by (auto simp: wiredTrash_def)
  let ?w2 = "?w1\<lparr>vLocks := l\<rparr>"
  obtain h where h: "sharesOp a (\<lambda>ss h. shDeleteByPath ss h ?u ?p) ?w2 = Some (?w2\<lparr>vHooks := h\<rparr>, Inr ())" "trPart t h = ?T'"
    using sharesOp_run [of a "trPart t" ?u ?p ?w2] wi lens by (auto simp: wiredTrash_def)
  have i1: "fileInv ?d1" using fileInv_pruned [OF d(5) f(1,3)] f(2) by simp
  obtain p where p: "p \<in> set (fcRows (vMeta w))" "fParentID f = Some (fID p)" "fUserID p = ?u" "fPath p = path_dir ?p" "fIsDir p" "length (fPath p) < length ?p"
    using fileParent(2) [OF d(5) f(1,3)] f(2) by auto
  have pk: "p \<in> set (fcRows ?d1)" using p(1,6) below_length [of ?p "fPath p"] by (auto simp: pruned_def inTree_def)
  have ds: "dirSizesOK ?d1 ?u (\<lambda>q. onWay q (fPath p))" by (rule dirSizes_pruned [OF d(5,7) f(1,3,2) p(1,2)])
  obtain d' where d': "RecalcAncestors (aSha1 a) (aNow a) ?d1 ?u (fParentID f) (trNow t) = Some (d', Inr ())" "fileInv d'"
      "list_all2 (recalced ?u) (fcRows ?d1) (fcRows d')" "dirSizesOK d' ?u (\<lambda>q. False)"
    using recalc_run [OF i1 pk p(5,3) ds, of "aSha1 a" "aNow a" "trNow t"] p(2) by auto
  have usr: "serviceUser (trUsers t) uid = Inr usr" and vs: "trStorage t = st" and fl: "trFiles t = Some a"
    using d(1,2) wi s by (auto simp: serviceUser_def wiredTrash_def plain_seg_def)
  have get: "fcGetByPath (vMeta w) ?u ?p = Inr f" using fcGetByPath_row [OF d(5) f(1)] f(2) by simp
  have del: "DeleteSubtree (vMeta w) ?u ?p = (?d1, Inr ())" using DeleteSubtree_run [OF d(5) f(1,3)] f(2) by simp
  have tk: "trashStorageKey uid loc = Inr (joinKey (trashAt uid loc))" using vl k(3) by (simp add: trashStorageKey_def trashAt_def)
  have "MoveToTrash t uid ?p by w = Some (?w2\<lparr>vHooks := h, vMeta := d'\<rparr>, Inr ())"
    using usr np f(3) fl get loc(2) sk(1) tk s1(1) s2(1) r(1) del l h(1) d'(1) vs
    by (simp add: MoveToTrash_def trashCommit_def uniqueLocationID_def trashOp_def onPart_def op_defs recalcOp_def)
  moreover have "davInv view ok a uid usr (w\<lparr>vStorage := s2, vMeta := d', vHooks := h, vLocks := l\<rparr>)"
  proof (rule davInv_after [OF i s2(2) d'(2,3,4) hasRoot_pruned [OF cp d(6)]])
    have fr: "view s1 x = view (vStorage w) x" if "hd x = uid" for x
    proof -
      have "x \<noteq> [''trash'']" "x \<noteq> [''trash'', uid]" using that uid by (auto dest: arg_cong [of _ _ hd])
      then show ?thesis using s1(3) by simp
    qed
    have pr: "fcRows ?d1 = filter (\<lambda>r. \<not> inTree ?u ?p r) (fcRows (vMeta w))" by (simp add: pruned_def)
    show "agrees (aSha256 a) (view s2) uid ?u (fcRows ?d1)"
      unfolding s2(3) pr
      by (rule agrees_pruned [OF d(8) cp]) (use fr fileInvD(4) [OF d(5)] uid in \<open>auto simp: trashAt_def\<close>)
  qed
  moreover have "trashOK (view s2) uid ?u ?T'"
    unfolding s2(3) s1(3) by (rule trashOK_added [OF tr d(3) vl r(2,3)]) (use uid in \<open>simp_all add: keyAt_def\<close>)
  ultimately show ?thesis using vl loc(3) r h(2) d'(3) s2(3) s1(3)
    by (intro exI [of _ "w\<lparr>vStorage := s2, vMeta := d', vHooks := h, vLocks := l\<rparr>"] exI [of _ loc] exI [of _ r]) simp
qed

end

section \<open>Restoring a file\<close>

lemma moveView_back:
  assumes "\<And>z. v (q @ z) = None" and "\<not> atOrBelow p q" and "\<not> atOrBelow q p"
  shows "moveView q p (moveView p q v) = v"
proof
  fix x
  have np: "\<not> atOrBelow p (q @ z)" if "\<not> atOrBelow q (q @ z)" for z using that by simp
  have nq: "\<not> atOrBelow q (p @ z)" for z
  proof
    assume "atOrBelow q (p @ z)"
    then obtain y where "p @ z = q @ y" by (auto simp: atOrBelow_iff)
    then have "(\<exists>us. p = q @ us) \<or> (\<exists>us. q = p @ us)" by (auto simp: append_eq_append_conv2)
    then show False using assms(2,3) by (auto simp: atOrBelow_iff)
  qed
  consider y where "x = p @ y" | y where "x = q @ y" "\<not> atOrBelow p x" | "\<not> atOrBelow p x" "\<not> atOrBelow q x" by (auto simp: atOrBelow_iff)
  then show "moveView q p (moveView p q v) x = v x"
  proof cases
    case (1 y) then show ?thesis by (simp add: moveView_def)
  next
    case (2 y) then show ?thesis using assms(1) by (simp add: moveView_def)
  qed (simp add: moveView_def)
qed

lemma trashDelete_last:
  assumes "ttDown d = None" and "tiUserID r = u" and "tiLocationID r = loc" and "trashGet d u loc = Inl FErrNotFound" and "u \<noteq> 0" and "loc \<noteq> []"
    and "ttRows d' = ttRows d @ [r]" and "ttDown d' = None"
  shows "trashDelete d' u loc = (d'\<lparr>ttRows := ttRows d\<rparr>, Inr ())"
proof -
  have "\<not> (\<exists>x \<in> set (ttRows d). tiUserID x = u \<and> tiLocationID x = loc)"
    using assms by (auto simp: trashGet_def find_None_iff split: option.splits)
  then have "filter (\<lambda>i. tiUserID i = u \<longrightarrow> tiLocationID i \<noteq> loc) (ttRows d) = ttRows d" by (intro filter_True) auto
  then show ?thesis using assms(2,3,7,8) by (simp add: trashDelete_def)
qed

context storage_laws
begin

lemma view_prefix: "ok s \<Longrightarrow> view s (p @ z) = Some n \<Longrightarrow> \<exists>m. view s p = Some m"
proof (induction z arbitrary: n rule: rev_induct)
  case (snoc x z)
  then show ?case using view_parent [of s "p @ z @ [x]" n] by (auto simp: butlast_append split: if_splits)
qed auto

lemma view_gone: "ok s \<Longrightarrow> view s p = None \<Longrightarrow> view s (p @ z) = None"
  using view_prefix [of s p z] by (cases "view s (p @ z)") auto

text \<open>Bytes that appear at a free path from another area of the storage.\<close>

lemma agrees_arrived:
  assumes "ok s" and "agrees sha256 (view s) uid u rows" and "view s (keyAt uid np) = None" and "q \<noteq> []" and "hd q \<noteq> uid"
  shows "agrees sha256 (moveView q (keyAt uid np) (view s)) uid u rows"
  unfolding agrees_def
proof (intro ballI impI)
  fix r assume r: "r \<in> set rows" "fUserID r = u"
  then obtain m where m: "view s (keyAt uid (fPath r)) = Some m" "stored sha256 r m" using assms(2) by (auto simp: agrees_def)
  have "\<not> atOrBelow (keyAt uid np) (keyAt uid (fPath r))" using m(1) view_gone [OF assms(1,3)] by (auto simp: atOrBelow_iff)
  moreover have "\<not> atOrBelow q (keyAt uid (fPath r))" using atOrBelow_hd [OF assms(4), of "keyAt uid (fPath r)"] assms(5) by (auto simp: keyAt_def)
  ultimately show "\<exists>m. moveView q (keyAt uid np) (view s) (keyAt uid (fPath r)) = Some m \<and> stored sha256 r m" using m moveView_other by auto
qed

lemma ingest_file:
  assumes i: "davInv view ok a uid usr w" and s: "aStorage a = st" and np: "npath np" "np \<noteq> ''/''"
    and p: "p \<in> set (fcRows (vMeta w))" "fUserID p = usrID usr" "fPath p = path_dir np" "fIsDir p"
    and free: "\<not> (\<exists>g \<in> set (fcRows (vMeta w)). fUserID g = usrID usr \<and> fPath g = np)" and c: "view (vStorage w) (keyAt uid np) = Some (DFile c)"
  shows "\<exists>d' r. ingestFromStorage a uid np w = Some (w\<lparr>vMeta := d'\<rparr>, Inr ()) \<and> davInv view ok a uid usr (w\<lparr>vMeta := d'\<rparr>)
    \<and> r \<in> set (fcRows d') \<and> fUserID r = usrID usr \<and> fPath r = np \<and> \<not> fIsDir r \<and> fSize r = int (length c)"
proof -
  note d = davInvD [OF i] and pl = write_place [OF i np p]
  have stt: "stStat st (vStorage w) (joinKey (keyAt uid np)) = Inr (fileInfo (joinKey (keyAt uid np)) (DFile c))" by (rule stat_found [OF d(4) pl(2) c])
  define f0 where "f0 = newFile (usrID usr) np False (int (length c)) (aNow a) [] ''application/octet-stream''"
  have f0s: "fUserID f0 = usrID usr" "fPath f0 = np" "fIsDir f0 = False" "fSize f0 = int (length c)" "fChecksum f0 = []"
    by (simp_all add: f0_def newFile_def)
  define r where "r = insertedRow (aSha1 a) (aNow a) (vMeta w) p f0"
  note rs = insertedRow_sel [of "aSha1 a" "aNow a" "vMeta w" p f0, folded r_def]
  define d1 where "d1 = (vMeta w)\<lparr>fcRows := fcRows (vMeta w) @ [r], fcNext := fcNext (vMeta w) + 1\<rparr>"
  have ins: "fileInsert (aSha1 a) (aNow a) (vMeta w) f0 = (d1, Inr r)" and i1: "fileInv d1"
    unfolding d1_def r_def by (rule fileInsert_ok [OF d(5) p(1)]; use p f0s np d(3) free in simp)+
  have ok1: "dirSizesOK d1 (usrID usr) (\<lambda>q. onWay q (fPath p))"
    using dirSizes_insert [OF d(5) _ p(1), of r] d(7) p(2) rs f0s unfolding d1_def by simp
  have mem: "p \<in> set (fcRows d1)" "r \<in> set (fcRows d1)" using p(1) by (simp_all add: d1_def)
  obtain d' where d': "RecalcAncestors (aSha1 a) (aNow a) d1 (usrID usr) (Some (fID p)) (aNow a) = Some (d', Inr ())" "fileInv d'"
      "list_all2 (recalced (usrID usr)) (fcRows d1) (fcRows d')" "dirSizesOK d' (usrID usr) (\<lambda>q. False)"
    using recalc_run [OF i1 mem(1) p(4,2) ok1, of "aSha1 a" "aNow a" "aNow a"] by blast
  obtain r' where "r' \<in> set (fcRows d')" "recalced (usrID usr) r r'" using recalced_member2 [OF d'(3) mem(2)] by blast
  then have m: "r \<in> set (fcRows d')" using rs f0s by (simp add: recalced_def)
  have fi: "fiIsDir (fileInfo k (DFile c)) = False" "fiSize (fileInfo k (DFile c)) = int (length c)" for k by (simp_all add: fileInfo_def)
  have stp: "ingestStep a uid (Visit np) w = Some (w\<lparr>vMeta := d'\<rparr>, Inr [])"
    using resolveUser_run [OF i s] np pl(1) stt ins d'(1) rs(4) s fi
    by (simp add: ingestStep_def thenOp_def tryOp_def mapped_def liftOp_def retOp_def failOp_def storeOp_def metaOp_def recalcOp_def flip: f0_def)
  have run: "ingestFromStorage a uid np w = Some (w\<lparr>vMeta := d'\<rparr>, Inr ())"
    unfolding ingestFromStorage_def by (subst ingestAll.simps) (simp add: stp ingestAll.simps)
  have "agrees (aSha256 a) (view (vStorage w)) uid (usrID usr) (fcRows d1)"
    using d(8) c rs f0s by (auto simp: agrees_def d1_def stored_def)
  moreover have "hasRoot d1 (usrID usr)" using d(6) by (auto simp: hasRoot_def d1_def)
  ultimately have "davInv view ok a uid usr (w\<lparr>vMeta := d'\<rparr>)"
    using davInv_after [OF i d(4) d'(2,3,4), where h = "vHooks w" and l = "vLocks w"] by simp
  then show ?thesis using run m rs f0s by (intro exI [of _ d'] exI [of _ r]) simp
qed

end

context storage_laws
begin

lemma statOp_row:
  assumes "davInv view ok a uid usr w" and "aStorage a = st" and "f \<in> set (fcRows (vMeta w))" and "fUserID f = usrID usr"
  shows "\<exists>l e. davStatOp a uid (fPath f) w = Some (w\<lparr>vLocks := l\<rparr>, Inr e) \<and> eSize e = fSize f"
proof -
  obtain l e where e: "davStatOwned a uid (fPath f) w = Some (w\<lparr>vLocks := l\<rparr>, Inr e)" "eSize e = fSize f" using statOwned_row [OF assms] by blast
  obtain e' where "liveOp a uid e (w\<lparr>vLocks := l\<rparr>) = Some (w\<lparr>vLocks := l\<rparr>, Inr e')" "eSize e' = eSize e" using liveOp_run [of a uid e] by blast
  then show ?thesis using e by (intro exI [of _ l] exI [of _ e']) (simp add: davStatOp_def davStatMaybeIncoming_def thenOp_def tryOp_def retOp_def)
qed

lemma statOp_none:
  assumes "davInv view ok a uid usr w" and "aStorage a = st" and "npath np" and "aIncoming a = None"
    and "\<not> (\<exists>g \<in> set (fcRows (vMeta w)). fUserID g = usrID usr \<and> fPath g = np)"
  shows "davStatOp a uid np w = Some (w, Inl ErrNotFound)"
  using statOwned_none [OF assms(1-3,5)] incomingOp_none [OF assms(4), of uid np w] assms(3)
  by (simp add: davStatOp_def davStatMaybeIncoming_def thenOp_def tryOp_def failOp_def)

lemma restore_file:
  assumes i: "davInv view ok a uid usr w" and s: "aStorage a = st" and wi: "wiredTrash t a" and q: "quietPart (trPart t) a" and inc: "aIncoming a = None"
    and uid: "uid \<noteq> ''trash''" and vl: "ValidLocationID loc"
    and it: "trashGet (trTable t w) (usrID usr) loc = Inr item" "tiOriginalPath item = np" "trashDelete (trTable t w) (usrID usr) loc = (T', Inr ())"
    and c: "view (vStorage w) (trashAt uid loc) = Some (DFile c)" "view (vStorage w) (keyAt uid np) = None"
    and np: "npath np" "np \<noteq> ''/''" and p: "p \<in> set (fcRows (vMeta w))" "fUserID p = usrID usr" "fPath p = path_dir np" "fIsDir p"
    and free: "\<not> (\<exists>g \<in> set (fcRows (vMeta w)). fUserID g = usrID usr \<and> fPath g = np)"
  shows "\<exists>w' e. trashRestore t uid loc uid [] ow w = Some (w', Inr (e, True)) \<and> davInv view ok a uid usr w' \<and> trTable t w' = T'
    \<and> view (vStorage w') = moveView (trashAt uid loc) (keyAt uid np) (view (vStorage w)) \<and> eSize e = int (length c)
    \<and> (\<exists>w2 e2. davReadOp a uid np w' = Some (w2, Inr (c, e2)))"
proof -
  note d = davInvD [OF i] and pl = write_place [OF i np p]
  have plt: "plain_seg ''trash''" by (simp add: plain_seg_def)
  note k = area_key [OF d(2) plt ValidLocationID_plain [OF vl], folded trashAt_def]
  have tq: "trashAt uid loc \<noteq> []" "hd (trashAt uid loc) \<noteq> uid" using uid by (auto simp: trashAt_def)
  have nb: "\<not> atOrBelow (trashAt uid loc) (keyAt uid np)" using atOrBelow_hd [OF tq(1), of "keyAt uid np"] tq(2) by (auto simp: keyAt_def)
  obtain l1 e1 where e1: "davStatOp a uid (fPath p) w = Some (w\<lparr>vLocks := l1\<rparr>, Inr e1)" using statOp_row [OF i s p(1,2)] by blast
  have pd: "parentDir np = fPath p" using parentDir_npath [OF np] p(3) fileInvD(4) [OF d(5) p(1)] by simp
  let ?w0 = "w\<lparr>vLocks := l1\<rparr>"
  obtain s1 where s1: "stRename st (vStorage w) (joinKey (trashAt uid loc)) (joinKey (keyAt uid np)) = (s1, Inr ())" "ok s1"
      "view s1 = moveView (trashAt uid loc) (keyAt uid np) (view (vStorage w))"
    using rename_node [OF d(4) c(1) k(6) c(2) pl(2,3) nb] by blast
  let ?w1 = "?w0\<lparr>vStorage := s1\<rparr>"
  have i1: "davInv view ok a uid usr ?w1" using d s1(2) agrees_arrived [OF d(4,8) c(2) tq] s1(3) by (simp add: davInv_def)
  have c1: "view (vStorage ?w1) (keyAt uid np) = Some (DFile c)" using s1(3) c(1) by (simp add: moveView_def atOrBelow_def)
  obtain d' r where r: "ingestFromStorage a uid np ?w1 = Some (?w1\<lparr>vMeta := d'\<rparr>, Inr ())" "davInv view ok a uid usr (?w1\<lparr>vMeta := d'\<rparr>)"
      "r \<in> set (fcRows d')" "fUserID r = usrID usr" "fPath r = np" "\<not> fIsDir r" "fSize r = int (length c)"
    using ingest_file [OF i1 s np, of p c] p free c1 by auto
  let ?h = "trPut t T' (vHooks w)"
  let ?w2 = "?w1\<lparr>vMeta := d', vHooks := ?h\<rparr>"
  have i2: "davInv view ok a uid usr ?w2" and rm: "r \<in> set (fcRows (vMeta ?w2))" using r(2,3) by simp_all
  obtain l2 e2 where e2: "davStatOp a uid np ?w2 = Some (?w2\<lparr>vLocks := l2\<rparr>, Inr e2)" "eSize e2 = int (length c)"
    using statOp_row [OF i2 s rm r(4)] r(5,7) by auto
  let ?w3 = "?w2\<lparr>vLocks := l2\<rparr>" and ?act = "emitFileActivity a False (usrID usr) uid ''file_restored'' ''{actor} restored {file}'' np"
  obtain h where h: "?act ?w3 = Some (?w3\<lparr>vHooks := h\<rparr>, Inr ())" using emitFileActivity_run [of a False "usrID usr" uid _ _ np ?w3] by blast
  let ?w4 = "?w3\<lparr>vHooks := h\<rparr>"
  have T': "trTable t ?w4 = T'"
    using keepsD [OF keeps_activity(1) [OF q] h, of T'] wi by (simp add: wiredTrash_def)
  have usr: "serviceUser (trUsers t) uid = Inr usr" and vs: "trStorage t = st" and fl: "trFiles t = Some a"
    using d(1,2) wi s by (auto simp: serviceUser_def wiredTrash_def plain_seg_def)
  have tk: "trashStorageKey uid loc = Inr (joinKey (trashAt uid loc))" using vl k(3) by (simp add: trashStorageKey_def)
  have "restoreCommit t a uid (usrID usr) loc np np ?w0 = Some (?w4, Inr e2)"
    using tk pl(1) vs s1(1) r(1) it(3) e2(1) h by (simp add: restoreCommit_def trashOp_def onPart_def op_defs)
  then have run: "trashRestore t uid loc uid [] ow w = Some (?w4, Inr (e2, True))"
    using fl usr vl it(1,2) np statOp_none [OF i s np(1) inc free] e1 pd
    by (simp add: trashRestore_def trashQuery_def op_defs)
  have i4: "davInv view ok a uid usr ?w4" and r4: "r \<in> set (fcRows (vMeta ?w4))" using r(2,3) by (simp_all add: davInv_def)
  have "\<exists>w2 e2. davReadOp a uid np ?w4 = Some (w2, Inr (c, e2))" using read_file [OF i4 s r4 r(4,6), of c] r(5) c1 by auto
  then show ?thesis using run i4 T' s1(3) e2(2) by (intro exI [of _ ?w4] exI [of _ e2]) simp
qed

end

lemma trashOK_ext:
  assumes "trashOK v uid u d" and "ttRows d' = ttRows d" and "ttDown d' = ttDown d" and "areaOK v' ''trash'' uid" and "\<And>loc. v' (trashAt uid loc) = v (trashAt uid loc)"
  shows "trashOK v' uid u d'"
  using assms by (simp add: trashOK_def trashGet_def)

context storage_laws
begin

lemma trash_and_back:
  assumes i: "davInv view ok a uid usr w" and s: "aStorage a = st" and wi: "wiredTrash t a" and q: "quietPart (trPart t) a" and inc: "aIncoming a = None"
    and uid: "uid \<noteq> ''trash''" and tr: "trashOK (view (vStorage w)) uid (usrID usr) (trTable t w)"
    and f: "f \<in> set (fcRows (vMeta w))" "fUserID f = usrID usr" "\<not> fIsDir f"
    and n: "trashName (fName f)" and now: "0 \<le> trNow t" "trNow t < 10 ^ 40"
    and free: "\<exists>x \<in> set (suffixed (makeLocationID (fName f) (trNow t))). trashGet (trTable t w) (usrID usr) x = Inl FErrNotFound"
    and c: "view (vStorage w) (keyAt uid (fPath f)) = Some (DFile c)"
  shows "\<exists>w1 loc item. MoveToTrash t uid (fPath f) by w = Some (w1, Inr ()) \<and> davInv view ok a uid usr w1 \<and> trashOK (view (vStorage w1)) uid (usrID usr) (trTable t w1)
    \<and> trashGet (trTable t w1) (usrID usr) loc = Inr item \<and> tiOriginalPath item = fPath f \<and> view (vStorage w1) (trashAt uid loc) = Some (DFile c)
    \<and> davStatOp a uid (fPath f) w1 = Some (w1, Inl ErrNotFound)
    \<and> (\<exists>w2 e. trashRestore t uid loc uid [] ow w1 = Some (w2, Inr (e, True)) \<and> davInv view ok a uid usr w2 \<and> trashOK (view (vStorage w2)) uid (usrID usr) (trTable t w2)
      \<and> ttRows (trTable t w2) = ttRows (trTable t w)
      \<and> view (vStorage w2) = (view (vStorage w))([''trash''] \<mapsto> DDir, [''trash'', uid] \<mapsto> DDir)
      \<and> (\<exists>w3 e2. davReadOp a uid (fPath f) w2 = Some (w3, Inr (c, e2))))"
proof -
  note d = davInvD [OF i]
  let ?u = "usrID usr" and ?np = "fPath f" and ?v = "(view (vStorage w))([''trash''] \<mapsto> DDir, [''trash'', uid] \<mapsto> DDir)"
  have np: "npath ?np" "?np \<noteq> ''/''" using fileInvD(4) [OF d(5) f(1)] fileParent(1) [OF d(5) f(1)] f(3) by auto
  obtain w1 loc item where m: "MoveToTrash t uid ?np by w = Some (w1, Inr ())" "davInv view ok a uid usr w1"
      "trashOK (view (vStorage w1)) uid ?u (trTable t w1)" "ValidLocationID loc" "trashGet (trTable t w) ?u loc = Inl FErrNotFound"
      "trashGet (trTable t w1) ?u loc = Inr item" "tiOriginalPath item = ?np" "ttRows (trTable t w1) = ttRows (trTable t w) @ [item]"
      "tiUserID item = ?u" "tiLocationID item = loc" "list_all2 (recalced ?u) (fcRows (pruned ?u ?np (vMeta w))) (fcRows (vMeta w1))"
      "view (vStorage w1) = moveView (keyAt uid ?np) (trashAt uid loc) ?v"
    using MoveToTrash_run [OF i s wi uid tr f(1,2) np(2) n now free] by blast
  note d1 = davInvD [OF m(2)]
  have ln: "loc \<noteq> []" using m(4) by (auto simp: ValidLocationID_def)
  have gone: "\<not> (\<exists>g \<in> set (fcRows (vMeta w1)). fUserID g = ?u \<and> fPath g = ?np)"
  proof
    assume "\<exists>g \<in> set (fcRows (vMeta w1)). fUserID g = ?u \<and> fPath g = ?np"
    then obtain g where g: "g \<in> set (fcRows (vMeta w1))" "fUserID g = ?u" "fPath g = ?np" by blast
    obtain g0 where "g0 \<in> set (fcRows (pruned ?u ?np (vMeta w)))" "recalced ?u g0 g" using recalced_member [OF m(11) g(1)] by blast
    then show False using g(2,3) skeleton_sel(2,3) [of g g0] by (auto simp: recalced_def pruned_def inTree_def)
  qed
  obtain p0 where p0: "p0 \<in> set (fcRows (vMeta w))" "fUserID p0 = ?u" "fPath p0 = path_dir ?np" "fIsDir p0" "length (fPath p0) < length ?np"
    using fileParent(2) [OF d(5) f(1) np(2)] f(2) by auto
  have "p0 \<in> set (fcRows (pruned ?u ?np (vMeta w)))" using p0(1,5) below_length [of ?np "fPath p0"] by (auto simp: pruned_def inTree_def)
  from recalced_member2 [OF m(11) this] obtain p where p: "p \<in> set (fcRows (vMeta w1))" "recalced ?u p0 p" by blast
  have ps: "fUserID p = ?u" "fPath p = path_dir ?np" "fIsDir p" using p(2) p0 skeleton_sel(2,3,5) [of p p0] by (auto simp: recalced_def)
  have hk: "hd (keyAt uid ?np) = uid" "keyAt uid ?np \<noteq> []" by (simp_all add: keyAt_def)
  have nb: "\<not> atOrBelow (keyAt uid ?np) (trashAt uid loc)" "\<not> atOrBelow (trashAt uid loc) (keyAt uid ?np)"
    using atOrBelow_hd [of "keyAt uid ?np" "trashAt uid loc"] atOrBelow_hd [of "trashAt uid loc" "keyAt uid ?np"] uid by (auto simp: keyAt_def trashAt_def)
  have kv: "?v (keyAt uid ?np) = Some (DFile c)" using c uid by (auto simp: keyAt_def)
  have ct: "view (vStorage w1) (trashAt uid loc) = Some (DFile c)" using kv by (simp add: m(12) moveView_def atOrBelow_def)
  have cn: "view (vStorage w1) (keyAt uid ?np) = None" using nb(2) by (simp add: m(12) moveView_def) (simp add: atOrBelow_def)
  have down: "ttDown (trTable t w1) = None" using m(3) by (simp add: trashOK_def)
  let ?T = "trTable t w1\<lparr>ttRows := ttRows (trTable t w)\<rparr>"
  have del: "trashDelete (trTable t w1) ?u loc = (?T, Inr ())"
    by (rule trashDelete_last [OF _ m(9,10,5) d(3) ln m(8) down]) (use tr in \<open>simp add: trashOK_def\<close>)
  obtain w2 e where r: "trashRestore t uid loc uid [] ow w1 = Some (w2, Inr (e, True))" "davInv view ok a uid usr w2" "trTable t w2 = ?T"
      "view (vStorage w2) = moveView (trashAt uid loc) (keyAt uid ?np) (view (vStorage w1))" "\<exists>w3 e2. davReadOp a uid ?np w2 = Some (w3, Inr (c, e2))"
    using restore_file [OF m(2) s wi q inc uid m(4,6,7) del ct cn np p(1) ps gone] by blast
  have "view (vStorage w) (trashAt uid loc @ z) = None" for z using view_gone [OF d(4)] tr m(5) by (simp add: trashOK_def)
  then have "?v (trashAt uid loc @ z) = None" for z by (simp add: trashAt_def)
  then have bk: "view (vStorage w2) = ?v" unfolding r(4) m(12) by (rule moveView_back [OF _ nb])
  have "trashOK (view (vStorage w2)) uid ?u (trTable t w2)"
    by (rule trashOK_ext [OF tr]) (use r(3) down tr bk in \<open>auto simp: areaOK_def trashAt_def trashOK_def\<close>)
  then show ?thesis using m(1-3,6,7) ct r bk statOp_none [OF m(2) s np(1) inc gone]
    by (intro exI [of _ w1] exI [of _ loc] exI [of _ item]) auto
qed

end

section \<open>Names that the trash bin cannot take\<close>

lemma makeLocationID_dots:
  assumes "n \<noteq> []" and "CHR ''/'' \<notin> set n" and "n \<noteq> ''.''" and "n @ ''.'' = x @ ''..'' @ y"
  shows "\<not> ValidLocationID (makeLocationID n ts)" and "makeLocationID n ts \<noteq> []"
proof -
  have m: "makeLocationID n ts = (n @ ''.'') @ ''d'' @ int_to_dec (ts div 1000000000)"
    using plain_path_base [OF assms(1,2)] assms(1-3) by (auto simp: makeLocationID_def Let_def)
  show "makeLocationID n ts \<noteq> []" unfolding m by simp
  have "makeLocationID n ts = x @ ''..'' @ (y @ ''d'' @ int_to_dec (ts div 1000000000))" unfolding m assms(4) by simp
  then have "containsAt (makeLocationID n ts) ''..'' \<noteq> []" unfolding containsAt_Nil by blast
  then show "\<not> ValidLocationID (makeLocationID n ts)" by (simp add: ValidLocationID_def)
qed

lemma suffixed_hd: "\<exists>xs. suffixed base = base # xs"
  using upt_conv_Cons [of 0 1000] by (auto simp: suffixed_def)

context storage_laws
begin

lemma trash_refuses:
  assumes i: "davInv view ok a uid usr w" and s: "aStorage a = st" and wi: "wiredTrash t a" and at: "aTrash a = Some (\<lambda>user p. MoveToTrash t user p user)"
    and tr: "trashOK (view (vStorage w)) uid (usrID usr) (trTable t w)"
    and f: "f \<in> set (fcRows (vMeta w))" "fUserID f = usrID usr" "fPath f \<noteq> ''/''"
    and n: "fName f \<noteq> []" "CHR ''/'' \<notin> set (fName f)" "fName f \<noteq> ''.''" "fName f @ ''.'' = x @ ''..'' @ y"
  shows "\<exists>w'. davRemove a uid (fPath f) w = Some (w', Inl ErrForbidden) \<and> vMeta w' = vMeta w \<and> vStorage w' = vStorage w \<and> vHooks w' = vHooks w"
proof -
  note d = davInvD [OF i] and bad = makeLocationID_dots [OF n, of "trNow t"]
  let ?b = "makeLocationID (fName f) (trNow t)" and ?T = "trTable t w"
  have np: "npath (fPath f)" using fileInvD(4) [OF d(5) f(1)] by simp
  obtain l e where e: "davStatOwned a uid (fPath f) w = Some (w\<lparr>vLocks := l\<rparr>, Inr e)" using statOwned_row [OF i s f(1,2)] by blast
  have down: "ttDown ?T = None" using tr by (simp add: trashOK_def)
  have "find (\<lambda>r. tiUserID r = usrID usr \<and> tiLocationID r = ?b) (ttRows ?T) = None"
    using tr bad(1) by (auto simp: find_None_iff trashOK_def)
  then have "trashGet ?T (usrID usr) ?b = Inl FErrNotFound" using trashGet_row [OF down d(3) bad(2)] by simp
  then have pr: "probe (trashGet ?T (usrID usr)) (suffixed ?b) = Inr ?b" using suffixed_hd [of ?b] by auto
  have get: "fcGetByPath (vMeta w) (usrID usr) (fPath f) = Inr f" using fcGetByPath_row [OF d(5) f(1)] f(2) by simp
  have usr: "serviceUser (trUsers t) uid = Inr usr" and fl: "trFiles t = Some a"
    using d(1,2) wi by (auto simp: serviceUser_def wiredTrash_def plain_seg_def)
  have "MoveToTrash t uid (fPath f) uid (w\<lparr>vLocks := l\<rparr>) = Some (w\<lparr>vLocks := l\<rparr>, Inl ErrForbidden)"
    using usr fl np f(3) get pr storageKey_segs(1) [OF d(2) np] bad(1)
    by (simp add: MoveToTrash_def trashCommit_def uniqueLocationID_def trashStorageKey_def op_defs)
  then show ?thesis using np e at by (simp add: davRemove_def removeOwned_def tryOp_def thenOp_def failOp_def Let_def)
qed

end

section \<open>Purging an item\<close>

text \<open>A property store in the state of the services beside the trash.\<close>

definition wiredProps :: "(string \<Rightarrow> string \<Rightarrow> bool) \<Rightarrow> ('h \<Rightarrow> propTable) \<Rightarrow> (propTable \<Rightarrow> 'h \<Rightarrow> 'h) \<Rightarrow> ('s, 'd, 'h) Trash \<Rightarrow> ('s, 'd, 'h) davAdapter \<Rightarrow> bool" where
  "wiredProps like get put t a \<longleftrightarrow> aProps a = Some (NewSQLPropertyStore like get put) \<and> (\<forall>x h. get (put x h) = x) \<and> (\<forall>x h. get (trPut t x h) = get h)"

lemma propDeleteByPath_run:
  assumes "ptDown d = None" and "npath np"
  shows "propDeleteByPath like d u np = (d\<lparr>ptRows := filter (\<lambda>p. \<not> propBelow like u np p) (ptRows d)\<rparr>, Inr ())"
  using assms by (simp add: propDeleteByPath_def)

lemma propGet_deleted:
  assumes "ptDown d = None" and "npath np"
  shows "propGet (d\<lparr>ptRows := filter (\<lambda>p. \<not> propBelow like u np p) (ptRows d)\<rparr>) u np ns nm = Inl FErrNotFound"
proof -
  have "find (\<lambda>p. propKey p = (u, np, ns, nm)) (filter (\<lambda>p. \<not> propBelow like u np p) (ptRows d)) = None"
    by (auto simp: find_None_iff propBelow_def propKey_def)
  then show ?thesis using assms by (simp add: propGet_def)
qed

context storage_laws
begin

lemma deleteTree_file:
  assumes "ok s" and "plainKey q" and "view s q = Some (DFile c)"
  shows "\<exists>s'. deleteTree st [VisitKey (joinKey q)] s = Some (s', Inr ()) \<and> ok s' \<and> view s' = (view s)(q := None)"
proof -
  obtain s' where s': "stDelete st s (joinKey q) = (s', Inr ())" "ok s'" "view s' = (view s)(q := None)" using delete_leaf [OF assms] by auto
  have "treeStep st (VisitKey (joinKey q)) s = (s, Inr [DropKey (joinKey q)])" using stat_found [OF assms] by (simp add: treeStep_def fileInfo_def)
  moreover have "treeStep st (DropKey (joinKey q)) s = (s', Inr [])" using s'(1) by (simp add: treeStep_def)
  ultimately have "deleteTree st [VisitKey (joinKey q)] s = Some (s', Inr ())" by (simp add: deleteTree.simps)
  then show ?thesis using s' by auto
qed

lemma purge_file:
  assumes i: "davInv view ok a uid usr w" and s: "aStorage a = st" and wi: "wiredTrash t a" "wiredProps like get put t a" and uid: "uid \<noteq> ''trash''"
    and a: "aVersions a = None" "aShares a = None" and p: "ptDown (get (vHooks w)) = None"
    and it: "ValidLocationID loc" "trashGet (trTable t w) (usrID usr) loc = Inr item" "ttDown (trTable t w) = None" "view (vStorage w) (trashAt uid loc) = Some (DFile b)"
    and f: "f \<in> set (fcRows (vMeta w))" "fUserID f = usrID usr" "\<not> fIsDir f" "fPath f = tiOriginalPath item" "view (vStorage w) (keyAt uid (fPath f)) = Some (DFile c)"
  shows "\<exists>w'. PurgeLocation t uid loc w = Some (w', Inr ()) \<and> davInv view ok a uid usr w' \<and> vMeta w' = vMeta w
    \<and> (\<exists>w2 e. davReadOp a uid (fPath f) w' = Some (w2, Inr (c, e)))
    \<and> (\<forall>ns nm. propGet (get (vHooks w')) (usrID usr) (fPath f) ns nm = Inl FErrNotFound)"
proof -
  note d = davInvD [OF i]
  have np: "npath (fPath f)" using fileInvD(4) [OF d(5) f(1)] by simp
  have plt: "plain_seg ''trash''" by (simp add: plain_seg_def)
  note k = area_key [OF d(2) plt ValidLocationID_plain [OF it(1)], folded trashAt_def]
  obtain s1 where s1: "deleteTree st [VisitKey (joinKey (trashAt uid loc))] (vStorage w) = Some (s1, Inr ())" "ok s1" "view s1 = (view (vStorage w))(trashAt uid loc := None)"
    using deleteTree_file [OF d(4) k(6) it(4)] by blast
  have hit: "\<exists>x \<in> set (ttRows (trTable t w)). tiUserID x = usrID usr \<and> tiLocationID x = loc"
    using it(2,3) by (auto simp: trashGet_def find_Some_iff split: if_splits option.splits)
  then obtain T where T: "trashDelete (trTable t w) (usrID usr) loc = (T, Inr ())" using it(3) by (auto simp: trashDelete_def list_ex_iff)
  let ?h1 = "trPut t T (vHooks w)"
  have g1: "get ?h1 = get (vHooks w)" using wi(2) by (simp add: wiredProps_def)
  let ?P = "get (vHooks w)\<lparr>ptRows := filter (\<lambda>x. \<not> propBelow like (usrID usr) (fPath f) x) (ptRows (get (vHooks w)))\<rparr>"
  let ?h2 = "put ?P ?h1"
  have g2: "get ?h2 = ?P" using wi(2) by (simp add: wiredProps_def)
  let ?w = "w\<lparr>vStorage := s1, vHooks := ?h2\<rparr>"
  have usr: "serviceUser (trUsers t) uid = Inr usr" and vs: "trStorage t = st" and fl: "trFiles t = Some a"
    using d(1,2) wi s by (auto simp: serviceUser_def wiredTrash_def plain_seg_def)
  have tk: "trashStorageKey uid loc = Inr (joinKey (trashAt uid loc))" using it(1) k(3) by (simp add: trashStorageKey_def)
  have props: "psDeleteByPath (NewSQLPropertyStore like get put) ?h1 (usrID usr) (fPath f) = (?h2, Inr ())"
    using propDeleteByPath_run [OF p np, of like] g1 by (simp add: NewSQLPropertyStore_def unitErr_def onPart_def)
  have run: "PurgeLocation t uid loc w = Some (?w, Inr ())"
    using usr it(1,2) vs fl tk s1(1) T a wi(2) props f(4)
    by (simp add: PurgeLocation_def trashQuery_def deleteStorageTree_def trashOp_def onPart_def filesOp_def versionsOp_def propsOp_def sharesOp_def wiredProps_def op_defs)
  have fr: "view s1 q = view (vStorage w) q" if "hd q = uid" for q 
  proof -
    have "q \<noteq> trashAt uid loc" using that uid by (auto simp: trashAt_def dest: arg_cong [of _ _ hd])
    then show ?thesis using s1(3) by simp
  qed
  have "davInv view ok a uid usr (w\<lparr>vStorage := s1\<rparr>)" by (rule davInv_storage [OF i s1(2) fr])
  then have iw: "davInv view ok a uid usr ?w" by simp
  have cw: "view (vStorage ?w) (keyAt uid (fPath f)) = Some (DFile c)" using fr [of "keyAt uid (fPath f)"] f(5) by (simp add: keyAt_def)
  have "\<exists>w2 e. davReadOp a uid (fPath f) ?w = Some (w2, Inr (c, e))" using read_file [OF iw s _ f(2,3) cw] f(1) by auto
  moreover have "propGet ?P (usrID usr) (fPath f) ns nm = Inl FErrNotFound" for ns nm by (rule propGet_deleted [OF p np])
  ultimately show ?thesis using run iw g2 by (intro exI [of _ ?w]) simp
qed

end

section \<open>The trash bin over a local directory\<close>

text \<open>
  C12. Deleting a file with the trash bin on and restoring it, over a local directory without incoming shares: after the deletion the path is gone from the
  file cache, the bytes are in the trash under a row that names the path, and directory sizes and disk agree; the restore answers that it
  created the file, the path has the same bytes again, the row is gone, and the disk is as it was, but for the two
  directories of the trash. This holds for a name that the trash bin takes (no two dots in a row, no dot at the end, at most 200 bytes)
  with a free location name, and a user who is not called \<open>trash\<close>.
\<close>

theorem trash_restore_roundtrip:
  assumes "davInv map_of diskOK a uid usr w" and "aStorage a = localfs" and "wiredTrash t a" and "quietPart (trPart t) a" and "aIncoming a = None"
    and "uid \<noteq> ''trash''" and "trashOK (map_of (vStorage w)) uid (usrID usr) (trTable t w)"
    and "f \<in> set (fcRows (vMeta w))" and "fUserID f = usrID usr" and "\<not> fIsDir f" and "trashName (fName f)" and "0 \<le> trNow t" and "trNow t < 10 ^ 40"
    and "\<exists>x \<in> set (suffixed (makeLocationID (fName f) (trNow t))). trashGet (trTable t w) (usrID usr) x = Inl FErrNotFound"
    and "map_of (vStorage w) (keyAt uid (fPath f)) = Some (DFile c)"
  shows "\<exists>w1 loc item. MoveToTrash t uid (fPath f) actor w = Some (w1, Inr ()) \<and> davInv map_of diskOK a uid usr w1
    \<and> trashOK (map_of (vStorage w1)) uid (usrID usr) (trTable t w1)
    \<and> trashGet (trTable t w1) (usrID usr) loc = Inr item \<and> tiOriginalPath item = fPath f \<and> map_of (vStorage w1) (trashAt uid loc) = Some (DFile c)
    \<and> davStatOp a uid (fPath f) w1 = Some (w1, Inl ErrNotFound)
    \<and> (\<exists>w2 e. trashRestore t uid loc uid [] overwrite w1 = Some (w2, Inr (e, True)) \<and> davInv map_of diskOK a uid usr w2
      \<and> trashOK (map_of (vStorage w2)) uid (usrID usr) (trTable t w2) \<and> ttRows (trTable t w2) = ttRows (trTable t w)
      \<and> map_of (vStorage w2) = (map_of (vStorage w))([''trash''] \<mapsto> DDir, [''trash'', uid] \<mapsto> DDir)
      \<and> (\<exists>w3 e2. davReadOp a uid (fPath f) w2 = Some (w3, Inr (c, e2))))"
  using assms by (rule lfs.trash_and_back)

text \<open>
  With the trash bin on, a file or directory whose name has two dots in a row or ends in a dot (\<open>a..b\<close>, \<open>Mr.\<close>) cannot be deleted: its
  location id, which is the name followed by \<open>.d\<close> and the time, contains two dots and is refused as invalid, so that every
  \<open>DELETE\<close> answers that it is forbidden and changes neither rows nor storage.
\<close>

theorem dots_undeletable:
  assumes "davInv map_of diskOK a uid usr w" and "aStorage a = localfs" and "wiredTrash t a" and "aTrash a = Some (\<lambda>user p. MoveToTrash t user p user)"
    and "trashOK (map_of (vStorage w)) uid (usrID usr) (trTable t w)"
    and "f \<in> set (fcRows (vMeta w))" and "fUserID f = usrID usr" and "fPath f \<noteq> ''/''"
    and "fName f \<noteq> []" and "CHR ''/'' \<notin> set (fName f)" and "fName f \<noteq> ''.''" and "fName f @ ''.'' = x @ ''..'' @ y"
  shows "\<exists>w'. davRemove a uid (fPath f) w = Some (w', Inl ErrForbidden) \<and> vMeta w' = vMeta w \<and> vStorage w' = vStorage w \<and> vHooks w' = vHooks w"
  using assms by (rule lfs.trash_refuses)

text \<open>
  Purging an item of the trash removes the properties of whatever file is at the original path now: after a file was deleted and
  another one was stored at its path, emptying the trash leaves the new file readable, but all of its properties (tags, favorite, custom
  properties) are gone.
\<close>

theorem purge_drops_live_properties:
  assumes "davInv map_of diskOK a uid usr w" and "aStorage a = localfs" and "wiredTrash t a" and "wiredProps like get put t a" and "uid \<noteq> ''trash''"
    and "aVersions a = None" and "aShares a = None" and "ptDown (get (vHooks w)) = None"
    and "ValidLocationID loc" and "trashGet (trTable t w) (usrID usr) loc = Inr item" and "ttDown (trTable t w) = None" and "map_of (vStorage w) (trashAt uid loc) = Some (DFile b)"
    and "f \<in> set (fcRows (vMeta w))" and "fUserID f = usrID usr" and "\<not> fIsDir f" and "fPath f = tiOriginalPath item" and "map_of (vStorage w) (keyAt uid (fPath f)) = Some (DFile c)"
  shows "\<exists>w'. PurgeLocation t uid loc w = Some (w', Inr ()) \<and> davInv map_of diskOK a uid usr w' \<and> vMeta w' = vMeta w
    \<and> (\<exists>w2 e. davReadOp a uid (fPath f) w' = Some (w2, Inr (c, e)))
    \<and> (\<forall>ns nm. propGet (get (vHooks w')) (usrID usr) (fPath f) ns nm = Inl FErrNotFound)"
  using assms by (rule lfs.purge_file)

definition demoTrash0 :: "(disk, unit, trashTable \<times> propTable) Trash" where
  "demoTrash0 = \<lparr>trStorage = localfs, trPart = fst, trPut = (\<lambda>x h. (x, snd h)), trFiles = None,
     trUsers = (\<lambda>u. if u = ''alice'' then Inr demoUser else Inl UErrNotFound), trNow = 7000000000, trRetention = 0\<rparr>"

definition demoTrashFiles :: "(disk, unit, trashTable \<times> propTable) davAdapter" where
  "demoTrashFiles = \<lparr>aStorage = localfs, aUsers = trUsers demoTrash0, aNow = 9000000000, aSha1 = (\<lambda>s. s), aSha256 = (\<lambda>s. s), aLike = (\<lambda>s p. False),
     aTrash = None, aVersions = None, aProps = Some (NewSQLPropertyStore (\<lambda>s p. False) snd (\<lambda>x h. (fst h, x))), aLocks = None, aShares = None,
     aIncoming = None, aRemote = None, aLiveProps = None, aSetLiveProp = (\<lambda>h _ _ _ _ _. (h, None)), aEvents = None, aActivity = None\<rparr>"

text \<open>Trash and adapter refer to each other; \<open>MoveToTrash\<close> does not use the trash of the adapter.\<close>

definition demoTrashAdapter :: "(disk, unit, trashTable \<times> propTable) davAdapter" where
  "demoTrashAdapter = demoTrashFiles\<lparr>aTrash := Some (\<lambda>user p. MoveToTrash (demoTrash0\<lparr>trFiles := Some demoTrashFiles\<rparr>) user p user)\<rparr>"

definition demoTrash :: "(disk, unit, trashTable \<times> propTable) Trash" where
  "demoTrash = demoTrash0\<lparr>trFiles := Some demoTrashAdapter\<rparr>"

lemma MoveToTrash_files:
  "MoveToTrash (t\<lparr>trFiles := Some (a\<lparr>aTrash := x\<rparr>)\<rparr>) user p by = MoveToTrash (t\<lparr>trFiles := Some a\<rparr>) user p by"
proof -
  have t: "trPart (t\<lparr>trFiles := y\<rparr>) = trPart t" "trPut (t\<lparr>trFiles := y\<rparr>) = trPut t" "trNow (t\<lparr>trFiles := y\<rparr>) = trNow t"
    "trStorage (t\<lparr>trFiles := y\<rparr>) = trStorage t" "trUsers (t\<lparr>trFiles := y\<rparr>) = trUsers t" "trFiles (t\<lparr>trFiles := y\<rparr>) = y" for y by simp_all
  have a: "aLocks (a\<lparr>aTrash := x\<rparr>) = aLocks a" "aShares (a\<lparr>aTrash := x\<rparr>) = aShares a" "aSha1 (a\<lparr>aTrash := x\<rparr>) = aSha1 a" "aNow (a\<lparr>aTrash := x\<rparr>) = aNow a" by simp_all
  show ?thesis unfolding MoveToTrash_def trashCommit_def recalcOp_def locksOp_def sharesOp_def trashOp_def uniqueLocationID_def t a option.case ..
qed

lemma demoTrash_sel:
  "aTrash demoTrashAdapter = Some (\<lambda>user p. MoveToTrash demoTrash user p user)" "wiredTrash demoTrash demoTrashAdapter" "quietPart fst demoTrashAdapter"
  "aStorage demoTrashAdapter = localfs" "aIncoming demoTrashAdapter = None" "aVersions demoTrashAdapter = None" "aShares demoTrashAdapter = None"
  "wiredProps (\<lambda>s p. False) snd (\<lambda>x h. (fst h, x)) demoTrash demoTrashAdapter" "trNow demoTrash = 7000000000" "trPart demoTrash = fst"
  "aUsers demoTrashAdapter ''alice'' = Inr demoUser" "aSha256 demoTrashAdapter = (\<lambda>s. s)"
  by (simp_all add: demoTrash_def demoTrashAdapter_def MoveToTrash_files)
    (simp_all add: demoTrashFiles_def demoTrash0_def wiredTrash_def quietPart_def wiredProps_def)

text \<open>One file at \<open>p\<close>, and an older file in the trash that was at \<open>/x\<close>.\<close>

abbreviation demoItem :: TrashItem where
  "demoItem \<equiv> \<lparr>tiID = 1, tiUserID = 1, tiOriginalPath = ''/x'', tiLocationID = ''x.d5'', tiName = ''x'', tiIsDir = False, tiSize = 3, tiDeleted = 5000000000,
     tiDeletedBy = ''alice''\<rparr>"

definition demoTrashState :: "string \<Rightarrow> (disk, unit, trashTable \<times> propTable) davState" where
  "demoTrashState n = \<lparr>vMeta = demoMetaAt (''/'' @ n) 0,
     vStorage = [([], DDir), ([''alice''], DDir), ([''alice'', n], DFile ''abc''), ([''trash''], DDir), ([''trash'', ''alice''], DDir), ([''trash'', ''alice'', ''x.d5''], DFile ''old'')],
     vLocks = (), vHooks = (\<lparr>ttRows = [demoItem], ttNext = 2, ttDown = None\<rparr>,
       \<lparr>ptRows = [\<lparr>fpID = 1, fpUserID = 1, fpPath = ''/x'', fpNS = ''oc'', fpName = ''favorite'', fpValue = ''1''\<rparr>], ptNext = 2, ptDown = None\<rparr>)\<rparr>"

lemma demoTrash_ok: "trashOK (map_of (vStorage (demoTrashState n))) ''alice'' 1 (trTable demoTrash (demoTrashState n))"
proof -
  have "ValidLocationID ''x.d5''" by code_simp
  then show ?thesis by (auto simp: trashOK_def demoTrashState_def demoTrash_sel areaOK_def trashAt_def trashGet_def split: if_splits)
qed

lemma demoTrash_inv:
  assumes "n = ''x'' \<or> n = ''x.''" shows "davInv map_of diskOK demoTrashAdapter ''alice'' demoUser (demoTrashState n)"
proof -
  have k: "NormalizePath ''/x'' = Inr ''/x''" "NormalizePath ''/x.'' = Inr ''/x.''" "path_dir ''/x'' = ''/''" "path_dir ''/x.'' = ''/''"
    "keyAt ''alice'' ''/x'' = [''alice'', ''x'']" "keyAt ''alice'' ''/x.'' = [''alice'', ''x.'']" by code_simp+
  have "diskOK (vStorage (demoTrashState n))" using assms by (auto simp: demoTrashState_def diskOK_def split: if_splits)
  then show ?thesis using assms k
    by (elim disjE) (rule demoMetaAt_davInv [of "''/'' @ n" n]; simp add: demoTrashState_def demoTrash_sel)+
qed

lemma demoTrash_file:
  "demoFileAt (''/'' @ n) 0 \<in> set (fcRows (vMeta (demoTrashState n)))" "fUserID (demoFileAt p 0) = usrID demoUser" "\<not> fIsDir (demoFileAt p 0)"
  "fPath (demoFileAt p 0) = p" "fName (demoFileAt p 0) = path_base p"
  by (simp_all add: demoTrashState_def demoMetaAt_def) (simp_all add: demoRow_def)

lemma demoTrash_content: "map_of (vStorage (demoTrashState ''x'')) (keyAt ''alice'' ''/x'') = Some (DFile ''abc'')"
proof -
  have "keyAt ''alice'' ''/x'' = [''alice'', ''x'']" by code_simp
  then show ?thesis by (simp add: demoTrashState_def)
qed

theorem trash_restore_roundtrip_witness:
  "\<exists>w1 loc w2 e w3 e2. MoveToTrash demoTrash ''alice'' ''/x'' ''alice'' (demoTrashState ''x'') = Some (w1, Inr ())
     \<and> davStatOp demoTrashAdapter ''alice'' ''/x'' w1 = Some (w1, Inl ErrNotFound)
     \<and> trashRestore demoTrash ''alice'' loc ''alice'' [] False w1 = Some (w2, Inr (e, True))
     \<and> davReadOp demoTrashAdapter ''alice'' ''/x'' w2 = Some (w3, Inr (''abc'', e2))"
proof -
  have b: "path_base ''/x'' = ''x''" "trashName ''x''" "makeLocationID ''x'' 7000000000 = ''x.d7''" by code_simp+
  have "trashGet (trTable demoTrash (demoTrashState ''x'')) (usrID demoUser) ''x.d7'' = Inl FErrNotFound" by (simp add: demoTrashState_def demoTrash_sel trashGet_def)
  then have fr: "\<exists>x \<in> set (suffixed (makeLocationID ''x'' 7000000000)). trashGet (trTable demoTrash (demoTrashState ''x'')) (usrID demoUser) x = Inl FErrNotFound"
    using suffixed_hd [of "''x.d7''"] b(3) by auto
  show ?thesis
    using trash_restore_roundtrip [OF demoTrash_inv demoTrash_sel(4,2), of "''x''" "demoFileAt ''/x'' 0" "''abc''" "''alice''" False]
      demoTrash_sel(3,5,9,10) demoTrash_ok [of "''x''"] demoTrash_file(1) [of "''x''"] demoTrash_file(2-) [of "''/x''"] b(1,2) fr demoTrash_content by auto blast
qed

theorem dots_undeletable_witness:
  "\<exists>w'. davRemove demoTrashAdapter ''alice'' ''/x.'' (demoTrashState ''x.'') = Some (w', Inl ErrForbidden) \<and> vStorage w' = vStorage (demoTrashState ''x.'')"
proof -
  have b: "path_base ''/x.'' = ''x.''" by code_simp
  show ?thesis
    using dots_undeletable [OF demoTrash_inv demoTrash_sel(4,2,1), of "''x.''" "demoFileAt ''/x.'' 0" "''x''" "[]"]
      demoTrash_ok [of "''x.''"] demoTrash_file(1) [of "''x.''"] demoTrash_file(2-) [of "''/x.''"] b by auto
qed

theorem purge_drops_live_properties_witness:
  "propGet (snd (vHooks (demoTrashState ''x''))) 1 ''/x'' ''oc'' ''favorite'' = Inr \<lparr>fpID = 1, fpUserID = 1, fpPath = ''/x'', fpNS = ''oc'', fpName = ''favorite'', fpValue = ''1''\<rparr>
   \<and> (\<exists>w'. PurgeLocation demoTrash ''alice'' ''x.d5'' (demoTrashState ''x'') = Some (w', Inr ())
     \<and> (\<exists>w2 e. davReadOp demoTrashAdapter ''alice'' ''/x'' w' = Some (w2, Inr (''abc'', e)))
     \<and> propGet (snd (vHooks w')) 1 ''/x'' ''oc'' ''favorite'' = Inl FErrNotFound)"
proof -
  have v: "ValidLocationID ''x.d5''" "NormalizePath ''/x'' = Inr ''/x''" by code_simp+
  have g: "trashGet (trTable demoTrash (demoTrashState ''x'')) (usrID demoUser) ''x.d5'' = Inr demoItem" by (simp add: demoTrashState_def demoTrash_sel trashGet_def)
  have m: "map_of (vStorage (demoTrashState ''x'')) (trashAt ''alice'' ''x.d5'') = Some (DFile ''old'')" by (simp add: demoTrashState_def trashAt_def)
  have t: "ttDown (trTable demoTrash (demoTrashState ''x'')) = None" "ptDown (snd (vHooks (demoTrashState ''x''))) = None" by (simp_all add: demoTrashState_def demoTrash_sel)
  have "propGet (snd (vHooks (demoTrashState ''x''))) 1 ''/x'' ''oc'' ''favorite'' = Inr \<lparr>fpID = 1, fpUserID = 1, fpPath = ''/x'', fpNS = ''oc'', fpName = ''favorite'', fpValue = ''1''\<rparr>"
    using v(2) by (simp add: demoTrashState_def propGet_def propKey_def)
  then show ?thesis
    using purge_drops_live_properties [OF demoTrash_inv demoTrash_sel(4,2,8) _ demoTrash_sel(6,7) t(2) v(1) g t(1) m, of "demoFileAt ''/x'' 0" "''abc''"]
      demoTrash_file(1) [of "''x''"] demoTrash_file(2-) [of "''/x''"] demoTrash_content by auto
qed

end
