(* ===== verification/Files_Uploads.thy ===== *)
theory Files_Uploads
  imports Files_Versions Files_Trash
begin

text \<open>
  Chunked uploads (\<^verbatim>\<open>src/internal/files/uploads.go\<close>, \<^verbatim>\<open>uploadstore.go\<close>): the table of upload sessions, the file system of the chunks, and
  \<open>Assemble\<close>, which concatenates them into a file. The table is a part of the state of the services.
\<close>

section \<open>Sessions\<close>

record UploadSession =
  usID :: int
  usUserID :: int
  usTransferID :: string
  usDestination :: string
  usTotalLength :: int
  usCreated :: int

record uploadTable =
  utRows :: "UploadSession list"
  utNext :: int
  utDown :: "string option"

definition upKey :: "int \<Rightarrow> string \<Rightarrow> UploadSession \<Rightarrow> bool" where
  "upKey user tid r \<longleftrightarrow> usUserID r = user \<and> usTransferID r = tid"

definition upGet :: "uploadTable \<Rightarrow> int \<Rightarrow> string \<Rightarrow> UploadSession files_result" where
  "upGet d user tid =
     (if user = 0 \<or> tid = [] then Inl FErrNotFound
      else case utDown d of
          Some e \<Rightarrow> Inl (dbError ''files: upload get'' e)
        | None \<Rightarrow> (case find (upKey user tid) (utRows d) of None \<Rightarrow> Inl FErrNotFound | Some r \<Rightarrow> Inr r))"

definition upCreate :: "int \<Rightarrow> uploadTable \<Rightarrow> UploadSession \<Rightarrow> uploadTable \<times> UploadSession files_result" where
  "upCreate now d s0 =
     (if usUserID s0 = 0 \<or> usTransferID s0 = [] then (d, Inl (FErrOther ''files: invalid upload session''))
      else if \<not> ValidTransferID (usTransferID s0) then (d, Inl FErrInvalidPath)
      else let s = s0\<lparr>usCreated := msTrunc (if usCreated s0 = zeroTime then now else usCreated s0)\<rparr> in
        case utDown d of
          Some e \<Rightarrow> (d, Inl (dbError ''files: upload create'' e))
        | None \<Rightarrow>
            if list_ex (upKey (usUserID s) (usTransferID s)) (utRows d) then (d, Inl FErrExists)
            else (let d1 = d\<lparr>utRows := utRows d @ [s\<lparr>usID := utNext d\<rparr>], utNext := utNext d + 1\<rparr> in (d1, upGet d1 (usUserID s) (usTransferID s))))"

definition upChange :: "string \<Rightarrow> uploadTable \<Rightarrow> int \<Rightarrow> string \<Rightarrow> (UploadSession list \<Rightarrow> UploadSession list) \<Rightarrow> uploadTable \<times> unit files_result" where
  "upChange op d user tid f = (case utDown d of
      Some e \<Rightarrow> (d, Inl (dbError op e))
    | None \<Rightarrow> if list_ex (upKey user tid) (utRows d) then (d\<lparr>utRows := f (utRows d)\<rparr>, Inr ()) else (d, Inl FErrNotFound))"

definition upUpdateDest :: "uploadTable \<Rightarrow> int \<Rightarrow> string \<Rightarrow> string \<Rightarrow> int \<Rightarrow> uploadTable \<times> unit files_result" where
  "upUpdateDest d user tid dest len =
     upChange ''files: upload update'' d user tid (map (\<lambda>r. if upKey user tid r then r\<lparr>usDestination := dest, usTotalLength := len\<rparr> else r))"

definition upDelete :: "uploadTable \<Rightarrow> int \<Rightarrow> string \<Rightarrow> uploadTable \<times> unit files_result" where
  "upDelete d user tid = upChange ''files: upload delete'' d user tid (filter (\<lambda>r. \<not> upKey user tid r))"

section \<open>Names of chunks\<close>

definition maxChunks :: int where "maxChunks = 10000"

definition splitUploadPath :: "string \<Rightarrow> (string \<times> string) result" where
  "splitUploadPath p = (case NormalizePath p of
      Inl _ \<Rightarrow> Inl ErrForbidden
    | Inr np \<Rightarrow>
        if np = ''/'' then Inr ([], [])
        else case cut_byte (trim_prefix np ''/'') (CHR ''/'') of
            (tid, rest, found) \<Rightarrow> if \<not> found then Inr (tid, []) else if CHR ''/'' \<in> set rest then Inl ErrForbidden else Inr (tid, rest))"

definition parseChunkName :: "string \<Rightarrow> int option" where
  "parseChunkName name =
     (if name = [] \<or> \<not> list_all is_digit name then None
      else case parse_int64 name of None \<Rightarrow> None | Some n \<Rightarrow> if n < 1 \<or> n > maxChunks then None else Some n)"

definition chunkStorageKey :: "string \<Rightarrow> string \<Rightarrow> string \<Rightarrow> string result" where
  "chunkStorageKey uid tid name =
     (if \<not> ValidTransferID tid then Inl ErrForbidden
      else if name = [] then Inr (''uploads/'' @ uid @ ''/'' @ tid)
      else if name \<noteq> ''.file'' \<and> parseChunkName name = None then Inl ErrForbidden
      else Inr (''uploads/'' @ uid @ ''/'' @ tid @ ''/'' @ name))"

section \<open>The file system of the chunks\<close>

text \<open>\<open>upRollback\<close> is \<open>RollbackLatest\<close> of the versions of the adapter \<open>upFiles\<close>, if it keeps any. The digests are hexadecimal.\<close>

record ('s, 'd, 'h) Uploads =
  upStorage :: "'s Storage"
  upPart :: "'h \<Rightarrow> uploadTable"
  upPut :: "uploadTable \<Rightarrow> 'h \<Rightarrow> 'h"
  upFiles :: "('s, 'd, 'h) davAdapter option"
  upRollback :: "(string \<Rightarrow> string \<Rightarrow> ('s, 'd, 'h, unit) dav_op) option"
  upUsers :: "string \<Rightarrow> users_error + UserRow"
  upNow :: int
  upSha1 :: "string \<Rightarrow> string"
  upSha256 :: "string \<Rightarrow> string"
  upMd5 :: "string \<Rightarrow> string"

definition upOp :: "('s, 'd, 'h) Uploads \<Rightarrow> (uploadTable \<Rightarrow> uploadTable \<times> 'a files_result) \<Rightarrow> ('s, 'd, 'h, 'a files_result) dav_op" where
  "upOp u f = hookOp (\<lambda>h. case onPart (upPart u) (upPut u) f h of (h', r) \<Rightarrow> (h', Inr r))"

definition upSession :: "('s, 'd, 'h) Uploads \<Rightarrow> int \<Rightarrow> string \<Rightarrow> ('s, 'd, 'h, UploadSession files_result) dav_op" where
  "upSession u user tid = (\<lambda>w. Some (w, Inr (upGet (upPart u (vHooks w)) user tid)))"

definition folderEntry :: "('s, 'd, 'h) Uploads \<Rightarrow> int \<Rightarrow> int \<Rightarrow> string \<Rightarrow> Entry" where
  "folderEntry u i mt p = zeroEntry\<lparr>ePath := p, eIsDir := True, eModTime := mt, eNumericID := i, ePermissions := PermAll, eShareable := False,
     eContentType := ''httpd/unix-directory'', eETag := ComputeETag (upSha1 u) 0 mt p\<rparr>"

definition sessionEntry :: "('s, 'd, 'h) Uploads \<Rightarrow> UploadSession \<Rightarrow> string \<Rightarrow> Entry" where
  "sessionEntry u s p = folderEntry u (if usID s > 0 then usID s else 0) (if usCreated s = zeroTime then upNow u else usCreated s) p"

definition chunkEntry :: "('s, 'd, 'h) Uploads \<Rightarrow> UploadSession \<Rightarrow> string \<Rightarrow> string \<Rightarrow> int \<Rightarrow> FileInfo \<Rightarrow> Entry" where
  "chunkEntry u s tid name n info = zeroEntry\<lparr>ePath := ''/'' @ tid @ ''/'' @ name, eSize := fiSize info, eModTime := upNow u,
     eNumericID := (if usID s > 0 then (usID s * (maxChunks + 1) + n) mod 2 ^ 64 else 0), ePermissions := PermAll,
     eContentType := ''application/octet-stream'', eETag := ComputeETag (upSha1 u) (fiSize info) (upNow u) name\<rparr>"

definition uploadStat :: "('s, 'd, 'h) Uploads \<Rightarrow> string \<Rightarrow> string \<Rightarrow> ('s, 'd, 'h, Entry) dav_op" where
  "uploadStat u user p =
     thenOp (liftOp (serviceUser (upUsers u) user)) (\<lambda>usr.
     thenOp (liftOp (splitUploadPath p)) (\<lambda>(tid, rest).
     if tid = [] then retOp (folderEntry u 0 (upNow u) ''/'')
     else thenOp (mapped mapMeta (upSession u (usrID usr) tid)) (\<lambda>s.
       if rest = [] then retOp (sessionEntry u s (''/'' @ tid))
       else if rest = ''.file'' then failOp ErrNotFound
       else case parseChunkName rest of
           None \<Rightarrow> failOp ErrForbidden
         | Some n \<Rightarrow>
             thenOp (liftOp (chunkStorageKey user tid rest)) (\<lambda>key.
             thenOp (mapped mapStorage (storeOp (\<lambda>st. (st, stStat (upStorage u) st key)))) (\<lambda>info.
             retOp (chunkEntry u s tid rest n info))))))"

definition uploadFolders :: "('s, 'd, 'h) Uploads \<Rightarrow> int \<Rightarrow> FileInfo list \<Rightarrow> ('s, 'd, 'h, Entry list) dav_op" where
  "uploadFolders u user infos = (\<lambda>w. Some (w, Inr (concat (map (\<lambda>i. let name = path_base (fiPath i) in
     if \<not> ValidTransferID name then []
     else case upGet (upPart u (vHooks w)) user name of Inl _ \<Rightarrow> [] | Inr s \<Rightarrow> [sessionEntry u s (''/'' @ name)]) infos))))"

definition chunkEntries :: "('s, 'd, 'h) Uploads \<Rightarrow> UploadSession \<Rightarrow> string \<Rightarrow> FileInfo list \<Rightarrow> Entry list" where
  "chunkEntries u s tid infos = sort_key ePath (concat (map (\<lambda>i. let name = path_base (fiPath i) in
     case parseChunkName name of None \<Rightarrow> [] | Some n \<Rightarrow> [chunkEntry u s tid name n i]) infos))"

text \<open>A listing of the storage; a key that is not there has no entries.\<close>

definition listKey :: "('s, 'd, 'h) Uploads \<Rightarrow> string \<Rightarrow> ('s, 'd, 'h, FileInfo list) dav_op" where
  "listKey u key = thenOp (storeOp (\<lambda>st. (st, stList (upStorage u) st key))) (\<lambda>r. case r of
      Inl e \<Rightarrow> if e = SErrNotFound then retOp [] else failOp (mapStorage e)
    | Inr infos \<Rightarrow> retOp infos)"

definition uploadList :: "('s, 'd, 'h) Uploads \<Rightarrow> string \<Rightarrow> string \<Rightarrow> ('s, 'd, 'h, Entry list) dav_op" where
  "uploadList u user p =
     thenOp (liftOp (serviceUser (upUsers u) user)) (\<lambda>usr.
     thenOp (liftOp (splitUploadPath p)) (\<lambda>(tid, rest).
     if rest \<noteq> [] then failOp ErrNotDir
     else if tid = [] then thenOp (listKey u (''uploads/'' @ user)) (uploadFolders u (usrID usr))
     else thenOp (mapped mapMeta (upSession u (usrID usr) tid)) (\<lambda>s.
       thenOp (liftOp (chunkStorageKey user tid [])) (\<lambda>key.
       thenOp (listKey u key) (\<lambda>infos. retOp (chunkEntries u s tid infos))))))"

definition uploadRead :: "('s, 'd, 'h) Uploads \<Rightarrow> string \<Rightarrow> string \<Rightarrow> ('s, 'd, 'h, string \<times> Entry) dav_op" where
  "uploadRead u user p =
     thenOp (uploadStat u user p) (\<lambda>ent.
     if eIsDir ent then failOp ErrIsDir
     else thenOp (liftOp (splitUploadPath p)) (\<lambda>(tid, rest).
       thenOp (liftOp (chunkStorageKey user tid rest)) (\<lambda>key.
       thenOp (mapped mapStorage (storeOp (\<lambda>st. (st, stOpen (upStorage u) st key)))) (\<lambda>rc. retOp (rc, ent)))))"

text \<open>A body that breaks off is committed by \<open>Close\<close> as far as it came; only then the error is answered.\<close>

definition uploadWrite :: "('s, 'd, 'h) Uploads \<Rightarrow> string \<Rightarrow> string \<Rightarrow> reader \<Rightarrow> int option \<Rightarrow> ('s, 'd, 'h, Entry \<times> bool) dav_op" where
  "uploadWrite u user p r mtime =
     thenOp (liftOp (serviceUser (upUsers u) user)) (\<lambda>usr.
     thenOp (liftOp (splitUploadPath p)) (\<lambda>(tid, rest).
     if rest = [] \<or> rest = ''.file'' \<or> parseChunkName rest = None then failOp ErrForbidden
     else thenOp (mapped mapMeta (upSession u (usrID usr) tid)) (\<lambda>_.
       thenOp (liftOp (chunkStorageKey user tid rest)) (\<lambda>key.
       thenOp (storeOp (\<lambda>st. (st, stStat (upStorage u) st key))) (\<lambda>stat.
       if (case stat of Inl e \<Rightarrow> e \<noteq> SErrNotFound | Inr _ \<Rightarrow> False) then failOp (case stat of Inl e \<Rightarrow> mapStorage e | Inr _ \<Rightarrow> ErrExists)
       else thenOp (mapped mapStorage (storeOp (\<lambda>st. stCreate (upStorage u) st key))) (\<lambda>_.
         thenOp (storeOp (\<lambda>st. stClose (upStorage u) st key (fst r))) (\<lambda>closed.
         case (snd r, closed) of
           (Some err, Inl ce) \<Rightarrow> failOp (joinErr (ErrOther err) ce)
         | (Some err, Inr _) \<Rightarrow> failOp (ErrOther err)
         | (None, Inl ce) \<Rightarrow> failOp (ErrOther (storageText ce))
         | (None, Inr _) \<Rightarrow> thenOp (uploadStat u user p) (\<lambda>ent.
             retOp ((case mtime of None \<Rightarrow> ent | Some t \<Rightarrow> ent\<lparr>eModTime := t\<rparr>), stat = Inl SErrNotFound)))))))))"

definition MkdirMeta :: "('s, 'd, 'h) Uploads \<Rightarrow> string \<Rightarrow> string \<Rightarrow> CollectionMeta \<Rightarrow> ('s, 'd, 'h, Entry) dav_op" where
  "MkdirMeta u user p meta =
     thenOp (liftOp (serviceUser (upUsers u) user)) (\<lambda>usr.
     thenOp (liftOp (splitUploadPath p)) (\<lambda>(tid, rest).
     if tid = [] \<or> rest \<noteq> [] \<or> \<not> ValidTransferID tid then failOp ErrForbidden
     else thenOp (liftOp (chunkStorageKey user tid [])) (\<lambda>key.
       thenOp (ensureDirs (upStorage u) ''uploads'' user) (\<lambda>_.
       thenOp (storeOp (\<lambda>st. stMkdir (upStorage u) st key)) (\<lambda>made.
       if (case made of Inl e \<Rightarrow> e \<noteq> SErrExists | Inr _ \<Rightarrow> False) then failOp (case made of Inl e \<Rightarrow> mapStorage e | Inr _ \<Rightarrow> ErrExists)
       else thenOp (mapped mapMeta (upOp u (\<lambda>d. upCreate (upNow u) d \<lparr>usID = 0, usUserID = usrID usr, usTransferID = tid,
           usDestination = cmDestination meta, usTotalLength = cmTotalLength meta, usCreated = upNow u\<rparr>))) (\<lambda>s.
         retOp (sessionEntry u s (''/'' @ tid))))))))"

definition uploadMkdir :: "('s, 'd, 'h) Uploads \<Rightarrow> string \<Rightarrow> string \<Rightarrow> ('s, 'd, 'h, Entry) dav_op" where
  "uploadMkdir u user p = MkdirMeta u user p \<lparr>cmDestination = [], cmTotalLength = 0\<rparr>"

text \<open>Deletion of a key that may be missing already.\<close>

definition dropKey :: "('s, 'd, 'h) Uploads \<Rightarrow> (storage_error \<Rightarrow> bool) \<Rightarrow> string \<Rightarrow> ('s, 'd, 'h, unit) dav_op" where
  "dropKey u fine key = thenOp (storeOp (\<lambda>st. stDelete (upStorage u) st key)) (\<lambda>r. case r of
      Inl e \<Rightarrow> if fine e then retOp () else failOp (mapStorage e)
    | Inr _ \<Rightarrow> retOp ())"

primrec dropKeys :: "('s, 'd, 'h) Uploads \<Rightarrow> string list \<Rightarrow> ('s, 'd, 'h, unit) dav_op" where
  "dropKeys u [] = retOp ()"
| "dropKeys u (k # ks) = thenOp (dropKey u (\<lambda>e. e = SErrNotFound) k) (\<lambda>_. dropKeys u ks)"

definition uploadRemove :: "('s, 'd, 'h) Uploads \<Rightarrow> string \<Rightarrow> string \<Rightarrow> ('s, 'd, 'h, unit) dav_op" where
  "uploadRemove u user p =
     thenOp (liftOp (serviceUser (upUsers u) user)) (\<lambda>usr.
     thenOp (liftOp (splitUploadPath p)) (\<lambda>(tid, rest).
     if tid = [] then failOp ErrForbidden
     else thenOp (mapped mapMeta (upSession u (usrID usr) tid)) (\<lambda>_.
       if rest \<noteq> [] then thenOp (liftOp (chunkStorageKey user tid rest)) (dropKey u (\<lambda>e. e = SErrNotFound))
       else thenOp (liftOp (chunkStorageKey user tid [])) (\<lambda>dir.
         thenOp (listKey u dir) (\<lambda>infos.
         thenOp (dropKeys u (map fiPath infos)) (\<lambda>_.
         thenOp (dropKey u (\<lambda>e. e = SErrNotFound \<or> e = SErrNotEmpty) dir) (\<lambda>_.
         thenOp (upOp u (\<lambda>d. upDelete d (usrID usr) tid)) (\<lambda>r.
         case r of Inl e \<Rightarrow> if e = FErrNotFound then retOp () else failOp (mapMeta e) | Inr _ \<Rightarrow> retOp ()))))))))"

section \<open>Assembly\<close>

definition orderedChunks :: "('s, 'd, 'h) Uploads \<Rightarrow> string \<Rightarrow> string \<Rightarrow> ('s, 'd, 'h, (int \<times> string \<times> int) list) dav_op" where
  "orderedChunks u user tid =
     thenOp (uploadList u user (''/'' @ tid)) (\<lambda>ents.
     retOp (sort_key fst (concat (map (\<lambda>e. let name = path_base (ePath e) in
       case parseChunkName name of None \<Rightarrow> [] | Some n \<Rightarrow> [(n, name, eSize e)]) ents))))"

text \<open>The chunks from number \<open>i\<close> on: they must be consecutive and all be opened.\<close>

fun openChunks :: "('s, 'd, 'h) Uploads \<Rightarrow> string \<Rightarrow> string \<Rightarrow> int \<Rightarrow> (int \<times> string \<times> int) list \<Rightarrow> ('s, 'd, 'h, string \<times> int) dav_op" where
  "openChunks u user tid i [] = retOp ([], 0)"
| "openChunks u user tid i ((n, name, sz) # chunks) =
     (if n \<noteq> i then failOp ErrBadRequest
      else thenOp (liftOp (chunkStorageKey user tid name)) (\<lambda>key.
        thenOp (mapped mapStorage (storeOp (\<lambda>st. (st, stOpen (upStorage u) st key)))) (\<lambda>content.
        thenOp (openChunks u user tid (i + 1) chunks) (\<lambda>(rest, total). retOp (content @ rest, wrap64 (sz + total))))))"

text \<open>\<open>strings.ToUpper\<close> as far as ASCII results matter: the long s is the only other character whose upper case is a letter of a name.\<close>

fun upperName :: "string \<Rightarrow> string" where
  "upperName [] = []"
| "upperName [c] = [upper_char c]"
| "upperName (c # d # s) = (if c = CHR 0xC5 \<and> d = CHR 0xBF then CHR ''S'' # upperName s else upper_char c # upperName (d # s))"

definition splitChecksum :: "string \<Rightarrow> (string \<times> string) option" where
  "splitChecksum v0 = (let v = trim_space v0 in
     if v = [] then None
     else case cut_byte v (CHR '':'') of (algo, hex, found) \<Rightarrow>
       if \<not> found \<or> algo = [] \<or> hex = [] then None else Some (upperName algo, to_lower hex))"

definition checksumHash :: "('s, 'd, 'h) Uploads \<Rightarrow> string \<Rightarrow> (string \<Rightarrow> string) option" where
  "checksumHash u algo =
     (if algo = ''SHA256'' then Some (upSha256 u) else if algo = ''SHA1'' then Some (upSha1 u) else if algo = ''MD5'' then Some (upMd5 u) else None)"

definition lockCheck :: "('s, 'd, 'h) davAdapter \<Rightarrow> string \<Rightarrow> string \<Rightarrow> string \<Rightarrow> ('s, 'd, 'h, unit) dav_op" where
  "lockCheck a user p ifHeader = (\<lambda>w. case davCheckLock (lockView a w) (vLocks w) user p ifHeader of (d, r) \<Rightarrow> Some (w\<lparr>vLocks := d\<rparr>, r))"

text \<open>What happens to the destination when the digest does not match. A failure of it is joined to \<open>ErrBadRequest\<close>, which the answer matches.\<close>

definition undoAssemble :: "('s, 'd, 'h) Uploads \<Rightarrow> ('s, 'd, 'h) davAdapter \<Rightarrow> string \<Rightarrow> string \<Rightarrow> ('s, 'd, 'h, 'a) dav_op" where
  "undoAssemble u a user dest =
     tryOp (case upRollback u of
         None \<Rightarrow> Purge a user dest
       | Some rollback \<Rightarrow> tryOp (rollback user dest) (\<lambda>r. if r = Inl (rawErr FErrNotFound) then Purge a user dest else liftOp r))
       (\<lambda>_. failOp ErrBadRequest)"

definition Assemble ::
  "('s, 'd, 'h) Uploads \<Rightarrow> bool \<Rightarrow> string \<Rightarrow> string \<Rightarrow> string \<Rightarrow> string \<Rightarrow> bool \<Rightarrow> int option \<Rightarrow> string \<Rightarrow> string \<Rightarrow> ('s, 'd, 'h, Entry \<times> bool) dav_op" where
  "Assemble u muted srcUser tid destUser destPath overwrite mtime checksum ifHeader = (case upFiles u of
      None \<Rightarrow> failOp ErrForbidden
    | Some a \<Rightarrow>
        if srcUser \<noteq> destUser then failOp ErrForbidden
        else thenOp (liftOp (serviceUser (upUsers u) srcUser)) (\<lambda>usr.
          if \<not> ValidTransferID tid then failOp ErrForbidden
          else thenOp (mapped mapMeta (upSession u (usrID usr) tid)) (\<lambda>s.
            case NormalizePath (if destPath = [] then usDestination s else destPath) of
              Inl _ \<Rightarrow> failOp ErrBadRequest
            | Inr dest \<Rightarrow>
                if dest = ''/'' then failOp ErrBadRequest
                else thenOp (lockCheck a destUser dest ifHeader) (\<lambda>_.
                  thenOp (if dest = usDestination s then retOp (Inr ()) else upOp u (\<lambda>d. upUpdateDest d (usrID usr) tid dest (usTotalLength s))) (\<lambda>upd.
                  if (case upd of Inl e \<Rightarrow> e \<noteq> FErrNotFound | Inr _ \<Rightarrow> False) then failOp (case upd of Inl e \<Rightarrow> mapMeta e | Inr _ \<Rightarrow> ErrExists)
                  else tryOp (davStatOp a destUser dest) (\<lambda>st.
                    if (case st of Inl e \<Rightarrow> e \<noteq> ErrNotFound | Inr _ \<Rightarrow> \<not> overwrite) then failOp (case st of Inl e \<Rightarrow> e | Inr _ \<Rightarrow> ErrExists)
                    else thenOp (orderedChunks u srcUser tid) (\<lambda>chunks.
                      if chunks = [] then failOp ErrBadRequest
                      else thenOp (openChunks u srcUser tid 1 chunks) (\<lambda>(body, total).
                        if usTotalLength s > 0 \<and> total \<noteq> usTotalLength s then failOp ErrBadRequest
                        else if (case splitChecksum checksum of None \<Rightarrow> False | Some (algo, _) \<Rightarrow> checksumHash u algo = None) then failOp ErrBadRequest
                        else thenOp (davWriteIf a muted destUser dest (body, None) mtime (Some \<lparr>IfETags = ParseIfETags ifHeader, IfMatch = [], IfNoneMatch = []\<rparr>)) (\<lambda>(entry, created).
                          if (case splitChecksum checksum of None \<Rightarrow> False | Some (algo, want) \<Rightarrow> \<not> equal_fold ((the (checksumHash u algo)) body) want)
                          then undoAssemble u a destUser dest
                          else thenOp (uploadRemove u srcUser (''/'' @ tid)) (\<lambda>_. retOp (entry, created)))))))))))"

end
