(* ===== verification/Files_UploadChunks.thy ===== *)
theory Files_UploadChunks
  imports Files_Uploads Files_TrashLaws "HOL-Library.Multiset"
begin

text \<open>
  The upload area of a user over a local directory: what the operations on a session and on its chunks do to the disk and to the table of
  sessions. \<open>uploadAt\<close> is a session with the chunks \<open>1, 2, \<dots>\<close> received so far.
\<close>

section \<open>The chunks on the disk\<close>

lemma ValidTransferID_plain: "ValidTransferID tid \<Longrightarrow> plain_seg tid"
  by (auto simp: ValidTransferID_def plain_seg_def transferIDChar_def list_all_iff in_rng_def Let_def split: if_splits)

lemma digits_plain: "s \<noteq> [] \<Longrightarrow> list_all is_digit s \<Longrightarrow> plain_seg s"
  by (auto simp: plain_seg_def is_digit_def list_all_iff)

lemma parseChunkName_plain: "parseChunkName x = Some n \<Longrightarrow> plain_seg x \<and> x \<noteq> ''.file'' \<and> 1 \<le> n"
  by (auto simp: parseChunkName_def intro: digits_plain split: if_splits option.splits) (auto simp: is_digit_def)

abbreviation chunkDir :: "string \<Rightarrow> string \<Rightarrow> string list" where
  "chunkDir uid tid \<equiv> [''uploads'', uid, tid]"

lemma uploads_plain: "plain_seg ''uploads''"
  by code_simp

lemma chunk_keys:
  assumes "plain_seg uid" and "ValidTransferID tid"
  shows "chunkStorageKey uid tid [] = Inr (joinKey (chunkDir uid tid))" "plainKey (chunkDir uid tid)"
    "parseChunkName x = Some n \<Longrightarrow> chunkStorageKey uid tid x = Inr (joinKey (chunkDir uid tid @ [x])) \<and> plainKey (chunkDir uid tid @ [x])"
  using assms ValidTransferID_plain [OF assms(2)] parseChunkName_plain [of x n] uploads_plain
  by (auto simp: chunkStorageKey_def joinKey_def plainKey_def plain_seg_def)

lemma set_readDir: "set (readDir D segs) = {x. map_of D (segs @ [x]) \<noteq> None}"
proof -
  have "x \<in> set (readDir D segs) \<longleftrightarrow> segs @ [x] \<in> fst ` set D" for x
    unfolding readDir_def by (auto simp: image_iff) (metis append_butlast_last_id fst_conv, metis butlast_snoc fst_conv last_snoc snoc_eq_iff_butlast)
  then show ?thesis by (auto simp: map_of_eq_None_iff)
qed

lemma distinct_readDir [simp]: "distinct (readDir D segs)"
  by (simp add: readDir_def)

lemma split_joinKey:
  assumes "plainKey segs" shows "split_byte (joinKey segs) (CHR ''/'') = segs"
proof -
  obtain x xs where s: "segs = x # xs" using assms by (cases segs) (auto simp: plainKey_def)
  have "split_byte (mkpath segs) (CHR ''/'') = [] # segs" using assms plain_no_slash [of segs] by (intro split_mkpath) (simp add: plainKey_def)
  moreover have "split_byte (mkpath segs) (CHR ''/'') = [] # split_byte (joinKey segs) (CHR ''/'')"
    using split_byte_append [of "CHR ''/''" "[]" "x @ mkpath xs"] s by (simp add: joinKey_def)
  ultimately show ?thesis by simp
qed

lemma path_clean_join:
  assumes "plainKey segs" shows "path_clean (joinKey segs) = joinKey segs"
proof -
  have c: "clean_segs False segs [] = segs" using clean_segs_plain [of segs False "[]"] assms by (simp add: plainKey_def)
  have j: "join_byte segs (CHR ''/'') = joinKey segs" using join_segs_mkpath [of segs] assms by (simp add: joinKey_def plainKey_def) (metis list.sel(3))
  have "joinKey segs \<noteq> [] \<and> hd (joinKey segs) \<noteq> CHR ''/''"
    using assms by (cases segs) (auto simp: joinKey_def plainKey_def plain_seg_def neq_Nil_conv)
  then show ?thesis using split_joinKey [OF assms] c j by (simp add: path_clean_def Let_def)
qed

lemma joinKey_snoc: "plainKey segs \<Longrightarrow> joinKey segs @ ''/'' @ x = joinKey (segs @ [x])"
  by (cases segs) (auto simp: joinKey_def plainKey_def)

lemma list_dir:
  assumes "diskOK D" and "plainKey segs" and "map_of D segs = Some DDir" and "\<And>x. map_of D (segs @ [x]) \<noteq> None \<Longrightarrow> plain_seg x"
  shows "stList localfs D (joinKey segs) = Inr (map (\<lambda>x. fileInfo (joinKey (segs @ [x])) (the (map_of D (segs @ [x])))) (readDir D segs))"
proof -
  have k: "path_clean (joinKey segs @ ''/'' @ x) = joinKey (segs @ [x])" if "x \<in> set (readDir D segs)" for x
  proof -
    have "plain_seg x" using that assms(4) by (simp add: set_readDir)
    then have "plainKey (segs @ [x])" using assms(2) by (simp add: plainKey_def)
    then show ?thesis using path_clean_join joinKey_snoc [OF assms(2)] by simp
  qed
  then have "map (\<lambda>x. fileInfo (path_clean (joinKey segs @ ''/'' @ x)) (the (map_of D (segs @ [x])))) (readDir D segs)
      = map (\<lambda>x. fileInfo (joinKey (segs @ [x])) (the (map_of D (segs @ [x])))) (readDir D segs)" by simp
  then show ?thesis using resolve_joinKey [OF assms(2)] confined_found [OF assms(1,3)] lstat_found [OF assms(1,3)]
    by (simp add: localfs_def lfList_def)
qed

lemma path_base_snoc: "plain_seg x \<Longrightarrow> path_base (p @ CHR ''/'' # x) = x"
proof -
  assume x: "plain_seg x"
  then have "last (p @ CHR ''/'' # x) \<noteq> CHR ''/''" by (auto simp: plain_seg_def) (metis last_in_set)
  then have "trim_right_set (p @ CHR ''/'' # x) ''/'' = p @ CHR ''/'' # x" using trim_right_set_idem [of "p @ CHR ''/'' # x" "''/''"] by simp
  then show ?thesis using x last_index_mkpath [of x p] by (simp add: path_base_def plain_seg_def)
qed

lemma transfer_npath:
  assumes "ValidTransferID tid" shows "npath (''/'' @ tid)"
proof -
  have a: "list_all (\<lambda>c. (of_char c :: int) < 128 \<and> c \<noteq> CHR 0x00 \<and> c \<noteq> CHR 0x5C) tid"
    using assms by (auto simp: ValidTransferID_def transferIDChar_def list_all_iff in_rng_def Let_def split: if_splits)
  then have "utf8_valid tid" by (induction tid) (auto simp: utf8_valid_Cons_ascii, subst utf8_valid.simps, simp)
  then have "utf8_valid (''/'' @ tid)" by (simp add: utf8_valid_Cons_ascii)
  moreover have "clean_path (''/'' @ tid)" using clean_path_mkpath [of "[tid]"] ValidTransferID_plain [OF assms] by simp
  ultimately show ?thesis using a by (intro NormalizePath_clean) (auto simp: list_all_iff)
qed

lemma splitUploadPath_transfer:
  assumes "ValidTransferID tid" shows "splitUploadPath (''/'' @ tid) = Inr (tid, [])"
proof -
  have "plain_seg tid" by (rule ValidTransferID_plain [OF assms])
  then have "CHR ''/'' \<notin> set tid" "tid \<noteq> []" by (auto simp: plain_seg_def)
  then show ?thesis using transfer_npath [OF assms] by (auto simp: splitUploadPath_def cut_byte_def trim_prefix_def has_prefix_def split: option.split dest: index_byte_less)
qed

section \<open>Listing and opening them\<close>

text \<open>The directory \<open>dir\<close> holds the chunks \<open>1, 2, \<dots>\<close> with the contents \<open>cs\<close> under the names \<open>names\<close>, and nothing else.\<close>

definition chunksOn :: "(string list \<Rightarrow> dnode option) \<Rightarrow> string list \<Rightarrow> string list \<Rightarrow> string list \<Rightarrow> bool" where
  "chunksOn v dir names cs \<longleftrightarrow> length names = length cs \<and> (\<forall>i < length cs. parseChunkName (names ! i) = Some (int i + 1) \<and> v (dir @ [names ! i]) = Some (DFile (cs ! i)))
     \<and> (\<forall>x. v (dir @ [x]) \<noteq> None \<longrightarrow> x \<in> set names)"

lemma chunksOn_names:
  assumes "chunksOn v dir names cs"
  shows "distinct names" "set names = {x. v (dir @ [x]) \<noteq> None}" "x \<in> set names \<Longrightarrow> \<exists>i < length cs. x = names ! i"
proof -
  have l: "length names = length cs" and p: "\<And>i. i < length cs \<Longrightarrow> parseChunkName (names ! i) = Some (int i + 1)" using assms by (auto simp: chunksOn_def)
  show "distinct names" unfolding distinct_conv_nth
  proof (intro allI impI notI)
    fix i j assume ij: "i < length names" "j < length names" "i \<noteq> j" "names ! i = names ! j"
    then show False using p [of i] p [of j] l by simp
  qed
  show e: "x \<in> set names \<Longrightarrow> \<exists>i < length cs. x = names ! i" for x using l by (auto simp: in_set_conv_nth)
  show "set names = {x. v (dir @ [x]) \<noteq> None}"
  proof (rule set_eqI)
    fix x
    show "x \<in> set names \<longleftrightarrow> x \<in> {x. v (dir @ [x]) \<noteq> None}"
      using e [of x] assms by (auto simp: chunksOn_def)
  qed
qed

lemma sort_key_unique:
  assumes "mset xs = mset ys" and "inj_on f (set ys)" and "sorted (map f ys)" shows "sort_key f xs = ys"
  using assms by (metis mset_eq_setD sort_key_inj_key_eq)

definition chunkList :: "string list \<Rightarrow> string list \<Rightarrow> (int \<times> string \<times> int) list" where
  "chunkList names cs = map (\<lambda>i. (int i + 1, names ! i, int (length (cs ! i)))) [0..<length cs]"

lemma chunkList_sorted: "inj_on fst (set (chunkList names cs))" "sorted (map fst (chunkList names cs))"
  by (auto simp: chunkList_def inj_on_def o_def sorted_iff_nth_mono)

lemma mset_concat_map:
  assumes "mset xs = mset ys" shows "mset (concat (map f xs)) = mset (concat (map f ys))"
proof -
  have "mset (concat (map f zs)) = sum_mset (image_mset (\<lambda>z. mset (f z)) (mset zs))" for zs by (induction zs) simp_all
  then show ?thesis using assms by metis
qed

lemma chunkEntries_list:
  assumes "plainKey dir" and c: "chunksOn (map_of D) dir names cs" and tid: "ValidTransferID tid"
  shows "sort_key fst (concat (map (\<lambda>e. let name = path_base (ePath e) in case parseChunkName name of None \<Rightarrow> [] | Some n \<Rightarrow> [(n, name, eSize e)])
      (chunkEntries u s tid (map (\<lambda>x. fileInfo (joinKey (dir @ [x])) (the (map_of D (dir @ [x])))) (readDir D dir))))) = chunkList names cs"
proof -
  let ?info = "\<lambda>x. fileInfo (joinKey (dir @ [x])) (the (map_of D (dir @ [x])))"
  let ?ent = "\<lambda>x. chunkEntry u s tid x (the (parseChunkName x)) (?info x)"
  let ?g = "\<lambda>e. let name = path_base (ePath e) in case parseChunkName name of None \<Rightarrow> [] | Some n \<Rightarrow> [(n, name, eSize e)]"
  let ?t = "\<lambda>x. (the (parseChunkName x), x, eSize (?ent x))"
  note n = chunksOn_names [OF c]
  have parse: "\<exists>k. parseChunkName x = Some k" and plain: "plain_seg x" if "x \<in> set names" for x
    using n(3) [OF that] c parseChunkName_plain by (auto simp: chunksOn_def)
  have base: "path_base (fiPath (?info x)) = x" if "x \<in> set names" for x
  proof -
    have "joinKey (dir @ [x]) = joinKey dir @ CHR ''/'' # x" using joinKey_snoc [OF assms(1), of x] by simp
    moreover have "fiPath (?info x) = joinKey (dir @ [x])" by (cases "the (map_of D (dir @ [x]))") (simp_all add: fileInfo_def)
    ultimately show ?thesis using path_base_snoc [OF plain [OF that]] by simp
  qed
  have r: "set (readDir D dir) = set names" using n(2) by (simp add: set_readDir)
  have cat: "concat (map (\<lambda>i. let name = path_base (fiPath i) in case parseChunkName name of None \<Rightarrow> [] | Some n \<Rightarrow> [chunkEntry u s tid name n i]) (map ?info xs)) = map ?ent xs"
    if "set xs \<subseteq> set names" for xs
    using that
  proof (induction xs)
    case (Cons x xs)
    then show ?case using base [of x] parse [of x] by auto
  qed simp
  have ents: "mset (chunkEntries u s tid (map ?info (readDir D dir))) = mset (map ?ent names)"
  proof -
    have "mset (readDir D dir) = mset names" using set_eq_iff_mset_eq_distinct [OF distinct_readDir n(1)] r by blast
    then have "mset (map ?ent (readDir D dir)) = mset (map ?ent names)" by (simp only: mset_map)
    then show ?thesis unfolding chunkEntries_def mset_sort using cat [of "readDir D dir"] r by simp
  qed
  have g: "?g (?ent x) = [?t x]" if "x \<in> set names" for x
    using parse [OF that] path_base_snoc [OF plain [OF that], of "''/'' @ tid"] by (auto simp: chunkEntry_def)
  have "mset (concat (map ?g (chunkEntries u s tid (map ?info (readDir D dir))))) = mset (concat (map ?g (map ?ent names)))"
    by (rule mset_concat_map [OF ents])
  also have "concat (map ?g (map ?ent names)) = map ?t names" using g by (induction names) auto
  also have "map ?t names = chunkList names cs"
    using c by (intro nth_equalityI) (auto simp: chunksOn_def chunkList_def chunkEntry_def fileInfo_def)
  finally show ?thesis by (intro sort_key_unique chunkList_sorted)
qed

section \<open>The operations on a session\<close>

definition wiredUploads :: "(disk, 'd, 'h) Uploads \<Rightarrow> string \<Rightarrow> UserRow \<Rightarrow> bool" where
  "wiredUploads u uid usr \<longleftrightarrow> upStorage u = localfs \<and> upUsers u uid = Inr usr \<and> plain_seg uid \<and> (\<forall>t h. upPart u (upPut u t h) = t)"

text \<open>A session of the user with its chunks on the disk.\<close>

definition uploadAt :: "(disk, 'd, 'h) Uploads \<Rightarrow> string \<Rightarrow> UserRow \<Rightarrow> string \<Rightarrow> UploadSession \<Rightarrow> string list \<Rightarrow> string list \<Rightarrow> (disk, 'd, 'h) davState \<Rightarrow> bool" where
  "uploadAt u uid usr tid s names cs w \<longleftrightarrow> diskOK (vStorage w) \<and> ValidTransferID tid \<and> upGet (upPart u (vHooks w)) (usrID usr) tid = Inr s
     \<and> map_of (vStorage w) (chunkDir uid tid) = Some DDir \<and> chunksOn (map_of (vStorage w)) (chunkDir uid tid) names cs"

lemma uploadAtD:
  assumes "uploadAt u uid usr tid s names cs w"
  shows "diskOK (vStorage w)" "ValidTransferID tid" "upGet (upPart u (vHooks w)) (usrID usr) tid = Inr s"
    "map_of (vStorage w) (chunkDir uid tid) = Some DDir" "chunksOn (map_of (vStorage w)) (chunkDir uid tid) names cs"
  using assms by (auto simp: uploadAt_def)

lemma service_user: "plain_seg uid \<Longrightarrow> users uid = Inr usr \<Longrightarrow> serviceUser users uid = Inr usr"
  by (auto simp: serviceUser_def plain_seg_def)

lemma chunks_plain: "chunksOn v dir names cs \<Longrightarrow> v (dir @ [x]) \<noteq> None \<Longrightarrow> plain_seg x"
  using chunksOn_names(3) [of v dir names cs x] parseChunkName_plain by (auto simp: chunksOn_def)

lemma listKey_run:
  assumes "wiredUploads u uid usr" and i: "uploadAt u uid usr tid s names cs w"
  shows "listKey u (joinKey (chunkDir uid tid)) w = Some (w, Inr (map (\<lambda>x. fileInfo (joinKey (chunkDir uid tid @ [x])) (the (map_of (vStorage w) (chunkDir uid tid @ [x]))))
    (readDir (vStorage w) (chunkDir uid tid))))"
proof -
  note d = uploadAtD [OF i]
  have "plain_seg uid" "upStorage u = localfs" using assms(1) by (auto simp: wiredUploads_def)
  then show ?thesis using list_dir [OF d(1) chunk_keys(2) d(4) chunks_plain [OF d(5)]] d(2)
    by (simp add: listKey_def thenOp_def tryOp_def storeOp_def retOp_def)
qed

lemma orderedChunks_run:
  assumes w: "wiredUploads u uid usr" and i: "uploadAt u uid usr tid s names cs w"
  shows "orderedChunks u uid tid w = Some (w, Inr (chunkList names cs))"
proof -
  note d = uploadAtD [OF i]
  have p: "plain_seg uid" "upUsers u uid = Inr usr" using w by (auto simp: wiredUploads_def)
  have t: "tid \<noteq> []" using ValidTransferID_plain [OF d(2)] by (simp add: plain_seg_def)
  show ?thesis
    using service_user [of uid "upUsers u" usr, OF p] splitUploadPath_transfer [OF d(2)] chunk_keys(1,2) [OF p(1) d(2)] d(3) t listKey_run [OF w i] chunkEntries_list [OF _ d(5,2)]
    by (simp add: orderedChunks_def uploadList_def thenOp_def tryOp_def liftOp_def mapped_def upSession_def retOp_def)
qed

lemma wrap64_total: "wrap64 (a + wrap64 b) = wrap64 (a + b)"
  by (simp add: wrap64_def mod_simps algebra_simps)

lemma openChunks_run:
  assumes w: "wiredUploads u uid usr" and i: "uploadAt u uid usr tid s names cs w"
  shows "openChunks u uid tid 1 (chunkList names cs) w = Some (w, Inr (concat cs, wrap64 (int (length (concat cs)))))"
proof -
  note d = uploadAtD [OF i]
  have p: "plain_seg uid" "upStorage u = localfs" using w by (auto simp: wiredUploads_def)
  have step: "k \<le> length cs \<Longrightarrow> openChunks u uid tid (int k + 1) (drop k (chunkList names cs)) w
      = Some (w, Inr (concat (drop k cs), wrap64 (int (length (concat (drop k cs))))))" for k
  proof (induction "length cs - k" arbitrary: k)
    case 0
    then show ?case by (simp add: chunkList_def retOp_def wrap64_def)
  next
    case (Suc m)
    then have k: "k < length cs" by simp
    then have "chunkList names cs = take k (chunkList names cs) @ (int k + 1, names ! k, int (length (cs ! k))) # drop (Suc k) (chunkList names cs)"
      using id_take_nth_drop [of k "chunkList names cs"] by (simp add: chunkList_def)
    then have l: "drop k (chunkList names cs) = (int k + 1, names ! k, int (length (cs ! k))) # drop (Suc k) (chunkList names cs)"
      using k by (simp add: Cons_nth_drop_Suc [symmetric] chunkList_def)
    have c: "parseChunkName (names ! k) = Some (int k + 1)" "map_of (vStorage w) (chunkDir uid tid @ [names ! k]) = Some (DFile (cs ! k))"
      using d(5) k by (auto simp: chunksOn_def)
    note key = chunk_keys(3) [OF p(1) d(2) c(1)]
    have "openChunks u uid tid (int (Suc k) + 1) (drop (Suc k) (chunkList names cs)) w = Some (w, Inr (concat (drop (Suc k) cs), wrap64 (int (length (concat (drop (Suc k) cs))))))"
      using Suc.hyps(1) [of "Suc k"] Suc.hyps(2) k by simp
    then show ?case
      using lfs.open_file [OF d(1) conjunct2 [OF key] c(2)] key p(2) Cons_nth_drop_Suc [OF k, symmetric]
      by (simp add: l thenOp_def tryOp_def liftOp_def mapped_def storeOp_def retOp_def wrap64_total algebra_simps)
  qed
  show ?thesis using step [of 0] by simp
qed

section \<open>Removing a session\<close>

lemma dropKey_file:
  assumes "upStorage u = localfs" and "diskOK (vStorage w)" and "plainKey q" and "map_of (vStorage w) q = Some n" and "n \<noteq> DDir \<or> (\<forall>x. map_of (vStorage w) (q @ [x]) = None)"
  shows "\<exists>D. dropKey u fine (joinKey q) w = Some (w\<lparr>vStorage := D\<rparr>, Inr ()) \<and> diskOK D \<and> map_of D = (map_of (vStorage w))(q := None)"
proof -
  obtain D where "stDelete localfs (vStorage w) (joinKey q) = (D, Inr ())" "diskOK D" "map_of D = (map_of (vStorage w))(q := None)"
    using lfs.delete_leaf [OF assms(2-5)] by blast
  then show ?thesis using assms(1) by (intro exI [of _ D]) (simp add: dropKey_def thenOp_def tryOp_def storeOp_def retOp_def)
qed

lemma dropKeys_run:
  assumes "upStorage u = localfs" and "diskOK (vStorage w)" and "distinct xs" and "\<And>x. x \<in> set xs \<Longrightarrow> plainKey (dir @ [x]) \<and> (\<exists>c. map_of (vStorage w) (dir @ [x]) = Some (DFile c))"
  shows "\<exists>D. dropKeys u (map (\<lambda>x. joinKey (dir @ [x])) xs) w = Some (w\<lparr>vStorage := D\<rparr>, Inr ()) \<and> diskOK D
    \<and> map_of D = (\<lambda>q. if q \<in> (\<lambda>x. dir @ [x]) ` set xs then None else map_of (vStorage w) q)"
  using assms(2-4)
proof (induction xs arbitrary: w)
  case Nil
  then show ?case by (intro exI [of _ "vStorage w"]) (simp add: retOp_def)
next
  case (Cons x xs)
  obtain c where c: "plainKey (dir @ [x])" "map_of (vStorage w) (dir @ [x]) = Some (DFile c)" using Cons.prems(3) by auto
  obtain D where D: "dropKey u (\<lambda>e. e = SErrNotFound) (joinKey (dir @ [x])) w = Some (w\<lparr>vStorage := D\<rparr>, Inr ())" "diskOK D"
      "map_of D = (map_of (vStorage w))(dir @ [x] := None)"
    using dropKey_file [OF assms(1) Cons.prems(1) c] by auto
  have "plainKey (dir @ [y]) \<and> (\<exists>c. map_of (vStorage (w\<lparr>vStorage := D\<rparr>)) (dir @ [y]) = Some (DFile c))" if "y \<in> set xs" for y
    using that Cons.prems(2,3) D(3) by auto
  then have "\<exists>D'. dropKeys u (map (\<lambda>x. joinKey (dir @ [x])) xs) (w\<lparr>vStorage := D\<rparr>) = Some (w\<lparr>vStorage := D'\<rparr>, Inr ()) \<and> diskOK D'
      \<and> map_of D' = (\<lambda>q. if q \<in> (\<lambda>x. dir @ [x]) ` set xs then None else map_of D q)"
    using Cons.IH [of "w\<lparr>vStorage := D\<rparr>"] D(2) Cons.prems(2) by (simp cong: if_cong)
  then obtain D' where "dropKeys u (map (\<lambda>x. joinKey (dir @ [x])) xs) (w\<lparr>vStorage := D\<rparr>) = Some (w\<lparr>vStorage := D'\<rparr>, Inr ())" "diskOK D'"
      "map_of D' = (\<lambda>q. if q \<in> (\<lambda>x. dir @ [x]) ` set xs then None else map_of D q)" by blast
  then show ?case using D by (intro exI [of _ D']) (auto simp: thenOp_def tryOp_def)
qed

lemma upGet_row: "upGet d user tid = Inr s \<Longrightarrow> utDown d = None \<and> list_ex (upKey user tid) (utRows d) \<and> user \<noteq> 0 \<and> tid \<noteq> []"
  by (auto simp: upGet_def find_Some_iff list_ex_iff split: if_splits option.splits)

lemma uploadRemove_run:
  assumes w: "wiredUploads u uid usr" and i: "uploadAt u uid usr tid s names cs w"
  shows "\<exists>w'. uploadRemove u uid (''/'' @ tid) w = Some (w', Inr ()) \<and> vMeta w' = vMeta w \<and> vLocks w' = vLocks w \<and> diskOK (vStorage w')
    \<and> map_of (vStorage w') = (\<lambda>q. if q = chunkDir uid tid \<or> (\<exists>x. q = chunkDir uid tid @ [x]) then None else map_of (vStorage w) q)
    \<and> upPart u (vHooks w') = (upPart u (vHooks w))\<lparr>utRows := filter (\<lambda>r. \<not> upKey (usrID usr) tid r) (utRows (upPart u (vHooks w)))\<rparr>"
proof -
  note d = uploadAtD [OF i]
  have p: "plain_seg uid" "upUsers u uid = Inr usr" "upStorage u = localfs" "\<And>t h. upPart u (upPut u t h) = t" using w by (auto simp: wiredUploads_def)
  let ?dir = "chunkDir uid tid"
  note n = chunksOn_names [OF d(5)]
  have files: "plainKey (?dir @ [x]) \<and> (\<exists>c. map_of (vStorage w) (?dir @ [x]) = Some (DFile c))" if "x \<in> set (readDir (vStorage w) ?dir)" for x
    using that n(2) n(3) [of x] d(5) chunk_keys(3) [OF p(1) d(2), of x] by (auto simp: set_readDir chunksOn_def)
  obtain D1 where D1: "dropKeys u (map (\<lambda>x. joinKey (?dir @ [x])) (readDir (vStorage w) ?dir)) w = Some (w\<lparr>vStorage := D1\<rparr>, Inr ())" "diskOK D1"
      "map_of D1 = (\<lambda>q. if q \<in> (\<lambda>x. ?dir @ [x]) ` set (readDir (vStorage w) ?dir) then None else map_of (vStorage w) q)"
    using dropKeys_run [OF p(3) d(1) distinct_readDir files] by blast
  have v1: "map_of D1 = (\<lambda>q. if \<exists>x. q = ?dir @ [x] then None else map_of (vStorage w) q)"
    unfolding D1(3) by (rule ext) (auto simp: set_readDir)
  obtain D2 where D2: "dropKey u (\<lambda>e. e = SErrNotFound \<or> e = SErrNotEmpty) (joinKey ?dir) (w\<lparr>vStorage := D1\<rparr>) = Some (w\<lparr>vStorage := D2\<rparr>, Inr ())" "diskOK D2"
      "map_of D2 = (map_of D1)(?dir := None)"
    using dropKey_file [OF p(3), of "w\<lparr>vStorage := D1\<rparr>" ?dir DDir] D1(2) v1 d(4) chunk_keys(2) [OF p(1) d(2)] by auto
  have paths: "map fiPath (map (\<lambda>x. fileInfo (joinKey (?dir @ [x])) (the (map_of (vStorage w) (?dir @ [x])))) xs) = map (\<lambda>x. joinKey (?dir @ [x])) xs" for xs
    by (auto simp: fileInfo_def split: dnode.split)
  define w' where "w' = w\<lparr>vStorage := D2, vHooks := upPut u ((upPart u (vHooks w))\<lparr>utRows := filter (\<lambda>r. \<not> upKey (usrID usr) tid r) (utRows (upPart u (vHooks w)))\<rparr>) (vHooks w)\<rparr>"
  have "uploadRemove u uid (''/'' @ tid) w = Some (w', Inr ())"
    using service_user [of uid "upUsers u" usr, OF p(1,2)] splitUploadPath_transfer [OF d(2)] chunk_keys(1) [OF p(1) d(2)] d(3) upGet_row [OF d(3)] listKey_run [OF w i] D1(1) D2(1) paths [of "readDir (vStorage w) ?dir"]
    by (simp add: uploadRemove_def thenOp_def tryOp_def liftOp_def mapped_def upSession_def retOp_def upOp_def hookOp_def onPart_def upDelete_def upChange_def w'_def del: map_map)
  then show ?thesis using D2(2,3) v1 p(4) by (intro exI [of _ w']) (auto simp: w'_def fun_eq_iff)
qed

section \<open>Opening a session and uploading chunks\<close>

lemma digit_ascii: "is_digit c \<Longrightarrow> (of_char c :: int) < 128 \<and> c \<noteq> CHR 0x00 \<and> c \<noteq> CHR 0x5C"
  by (auto simp: is_digit_def in_rng_def)

lemma splitUploadPath_chunk:
  assumes "ValidTransferID tid" and "parseChunkName x = Some n" shows "splitUploadPath (''/'' @ tid @ ''/'' @ x) = Inr (tid, x)"
proof -
  note t = ValidTransferID_plain [OF assms(1)] and x = conjunct1 [OF parseChunkName_plain [OF assms(2)]]
  have "list_all is_digit x" using assms(2) by (auto simp: parseChunkName_def split: if_splits)
  then have b: "list_all (\<lambda>c. (of_char c :: int) < 128 \<and> c \<noteq> CHR 0x00 \<and> c \<noteq> CHR 0x5C) x" by (auto simp: list_all_iff digit_ascii)
  have a: "list_all (\<lambda>c. (of_char c :: int) < 128 \<and> c \<noteq> CHR 0x00 \<and> c \<noteq> CHR 0x5C) tid"
    using assms(1) by (auto simp: ValidTransferID_def transferIDChar_def list_all_iff in_rng_def Let_def split: if_splits)
  let ?p = "''/'' @ tid @ ''/'' @ x"
  have all: "list_all (\<lambda>c. (of_char c :: int) < 128 \<and> c \<noteq> CHR 0x00 \<and> c \<noteq> CHR 0x5C) ?p" using a b by simp
  have u: "utf8_valid s" if "list_all (\<lambda>c. (of_char c :: int) < 128 \<and> c \<noteq> CHR 0x00 \<and> c \<noteq> CHR 0x5C) s" for s
    using that by (induction s) (auto simp: utf8_valid_Cons_ascii, subst utf8_valid.simps, simp)
  have "clean_path ?p" using clean_path_mkpath [of "[tid, x]"] t x by simp
  then have np: "npath ?p" using all u [OF all] by (intro NormalizePath_clean) (auto simp: list_all_iff)
  have "CHR ''/'' \<notin> set tid" "tid \<noteq> []" "CHR ''/'' \<notin> set x" "x \<noteq> []" using t x by (auto simp: plain_seg_def)
  moreover have "index_byte (tid @ CHR ''/'' # x) (CHR ''/'') = Some (length tid)" using calculation(1) by (induction tid) auto
  ultimately show ?thesis using np by (auto simp: splitUploadPath_def cut_byte_def trim_prefix_def has_prefix_def)
qed

lemma diskOK_stat_missing:
  assumes "diskOK D" and "plainKey segs" and "map_of D (butlast segs) = Some DDir" and "map_of D segs = None"
  shows "stStat localfs D (joinKey segs) = Inl SErrNotFound"
proof -
  have "segs \<noteq> []" using assms(2) by (simp add: plainKey_def)
  then show ?thesis using assms lstat_missing [OF assms(1) _ assms(3,4)] by (simp add: lf_defs resolve_joinKey)
qed

text \<open>A chunk, with the body as it came: stored as it is, and the error of a body that breaks off answered only then.\<close>

lemma uploadWrite_run:
  assumes w: "wiredUploads u uid usr" and i: "uploadAt u uid usr tid s names cs w"
    and x: "parseChunkName x = Some n" "x \<notin> set names"
  shows "\<exists>D. uploadWrite u uid (''/'' @ tid @ ''/'' @ x) (c, err) mtime w = (case err of
        Some e \<Rightarrow> Some (w\<lparr>vStorage := D\<rparr>, Inl (ErrOther e))
      | None \<Rightarrow> (let ent = chunkEntry u s tid x n (fileInfo (joinKey (chunkDir uid tid @ [x])) (DFile c)) in
          Some (w\<lparr>vStorage := D\<rparr>, Inr ((case mtime of None \<Rightarrow> ent | Some t \<Rightarrow> ent\<lparr>eModTime := t\<rparr>), True))))
    \<and> diskOK D \<and> map_of D = (map_of (vStorage w))(chunkDir uid tid @ [x] \<mapsto> DFile c)"
proof -
  note d = uploadAtD [OF i]
  have p: "plain_seg uid" "upUsers u uid = Inr usr" "upStorage u = localfs" using w by (auto simp: wiredUploads_def)
  let ?k = "chunkDir uid tid @ [x]"
  note k = conjunct1 [OF chunk_keys(3) [OF p(1) d(2) x(1)]] and pk = conjunct2 [OF chunk_keys(3) [OF p(1) d(2) x(1)]]
  note pl = parseChunkName_plain [OF x(1)]
  have no: "map_of (vStorage w) ?k = None" using d(5) x(2) by (auto simp: chunksOn_def)
  have dir: "map_of (vStorage w) (butlast ?k) = Some DDir" using d(4) by simp
  obtain D1 where D1: "stCreate localfs (vStorage w) (joinKey ?k) = (D1, Inr ())" "diskOK D1" "map_of D1 = map_of (vStorage w)"
    using lfs.create [OF d(1) pk dir] by blast
  obtain D2 where D2: "stClose localfs D1 (joinKey ?k) c = (D2, Inr ())" "diskOK D2" "map_of D2 = (map_of D1)(?k \<mapsto> DFile c)"
    using lfs.close_file [OF D1(2) pk, of c] dir no D1(3) by auto
  have after: "stStat localfs D2 (joinKey ?k) = Inr (fileInfo (joinKey ?k) (DFile c))" using lfs.stat_found [OF D2(2) pk] D2(3) by simp
  have ne: "tid \<noteq> []" "x \<noteq> []" using ValidTransferID_plain [OF d(2)] pl by (auto simp: plain_seg_def)
  have st: "stStat localfs (vStorage w) (joinKey ?k) = Inl SErrNotFound" by (rule diskOK_stat_missing [OF d(1) pk dir no])
  note su = service_user [of uid "upUsers u" usr, OF p(1,2)] and sp = splitUploadPath_chunk [OF d(2) x(1)]
  have ent: "uploadStat u uid (''/'' @ tid @ ''/'' @ x) (w\<lparr>vStorage := D2\<rparr>) = Some (w\<lparr>vStorage := D2\<rparr>, Inr (chunkEntry u s tid x n (fileInfo (joinKey ?k) (DFile c))))"
    using su sp d(3) ne pl x(1) k p(3) after
    by (simp add: uploadStat_def thenOp_def tryOp_def liftOp_def mapped_def upSession_def storeOp_def retOp_def)
  have "uploadWrite u uid (''/'' @ tid @ ''/'' @ x) (c, err) mtime w = (case err of
        Some e \<Rightarrow> Some (w\<lparr>vStorage := D2\<rparr>, Inl (ErrOther e))
      | None \<Rightarrow> (let ent = chunkEntry u s tid x n (fileInfo (joinKey ?k) (DFile c)) in
          Some (w\<lparr>vStorage := D2\<rparr>, Inr ((case mtime of None \<Rightarrow> ent | Some t \<Rightarrow> ent\<lparr>eModTime := t\<rparr>), True))))"
    using su sp d(3) ne pl x(1) k p(3) st D1(1) D2(1) ent
    by (cases err) (simp_all add: uploadWrite_def thenOp_def tryOp_def liftOp_def failOp_def mapped_def upSession_def storeOp_def retOp_def Let_def)
  then show ?thesis using D1(3) D2(2,3) by (intro exI [of _ D2]) simp
qed

text \<open>A client sends the chunks one after the other.\<close>

primrec sendChunks :: "('s, 'd, 'h) Uploads \<Rightarrow> string \<Rightarrow> string \<Rightarrow> (string \<times> string) list \<Rightarrow> ('s, 'd, 'h, unit) dav_op" where
  "sendChunks u user tid [] = retOp ()"
| "sendChunks u user tid (c # cs) =
     thenOp (uploadWrite u user (''/'' @ tid @ ''/'' @ fst c) (snd c, None) None) (\<lambda>_. sendChunks u user tid cs)"

lemma chunksOn_snoc:
  assumes "chunksOn v dir names cs" and "parseChunkName x = Some (int (length cs) + 1)"
  shows "x \<notin> set names" and "chunksOn (v(dir @ [x] \<mapsto> DFile c)) dir (names @ [x]) (cs @ [c])"
proof -
  have l: "length names = length cs" using assms(1) by (simp add: chunksOn_def)
  show x: "x \<notin> set names"
    using assms by (auto simp: chunksOn_def in_set_conv_nth)
  have "(v(dir @ [x] \<mapsto> DFile c)) (dir @ [y]) = v (dir @ [y])" if "y \<in> set names" for y using that x by auto
  then show "chunksOn (v(dir @ [x] \<mapsto> DFile c)) dir (names @ [x]) (cs @ [c])"
    using assms l by (auto simp: chunksOn_def nth_append less_Suc_eq)
qed

lemma uploadAt_snoc:
  assumes i: "uploadAt u uid usr tid s names cs w" and x: "parseChunkName x = Some (int (length cs) + 1)"
    and D: "diskOK D" "map_of D = (map_of (vStorage w))(chunkDir uid tid @ [x] \<mapsto> DFile c)"
  shows "uploadAt u uid usr tid s (names @ [x]) (cs @ [c]) (w\<lparr>vStorage := D\<rparr>)"
  using uploadAtD [OF i] chunksOn_snoc(2) [OF uploadAtD(5) [OF i] x, of c] D by (simp add: uploadAt_def)

lemma sendChunks_run:
  assumes w: "wiredUploads u uid usr"
  shows "uploadAt u uid usr tid s names cs w \<Longrightarrow> length xs = length ds \<Longrightarrow> (\<And>i. i < length ds \<Longrightarrow> parseChunkName (xs ! i) = Some (int (length cs + i) + 1))
    \<Longrightarrow> \<exists>D. sendChunks u uid tid (zip xs ds) w = Some (w\<lparr>vStorage := D\<rparr>, Inr ()) \<and> uploadAt u uid usr tid s (names @ xs) (cs @ ds) (w\<lparr>vStorage := D\<rparr>)
      \<and> (\<forall>q. (\<forall>x. q \<noteq> chunkDir uid tid @ [x]) \<longrightarrow> map_of D q = map_of (vStorage w) q)"
proof (induction ds arbitrary: xs names cs w)
  case Nil
  then show ?case by (intro exI [of _ "vStorage w"]) (simp add: retOp_def)
next
  case (Cons d ds)
  obtain x xs' where xs: "xs = x # xs'" "length xs' = length ds" using Cons.prems(2) by (cases xs) auto
  have x: "parseChunkName x = Some (int (length cs) + 1)" using Cons.prems(3) [of 0] xs by simp
  note f = chunksOn_snoc(1) [OF uploadAtD(5) [OF Cons.prems(1)] x]
  obtain D e where D: "uploadWrite u uid (''/'' @ tid @ ''/'' @ x) (d, None) None w = Some (w\<lparr>vStorage := D\<rparr>, Inr e)"
      "diskOK D" "map_of D = (map_of (vStorage w))(chunkDir uid tid @ [x] \<mapsto> DFile d)"
    using uploadWrite_run [OF w Cons.prems(1) x f, of d None None] by (auto simp: Let_def)
  have i: "uploadAt u uid usr tid s (names @ [x]) (cs @ [d]) (w\<lparr>vStorage := D\<rparr>)" by (rule uploadAt_snoc [OF Cons.prems(1) x D(2,3)])
  have n: "parseChunkName (xs' ! i) = Some (int (length (cs @ [d]) + i) + 1)" if "i < length ds" for i
    using Cons.prems(3) [of "Suc i"] xs(1) that by simp
  obtain D' where D': "sendChunks u uid tid (zip xs' ds) (w\<lparr>vStorage := D\<rparr>) = Some (w\<lparr>vStorage := D'\<rparr>, Inr ())"
      "uploadAt u uid usr tid s (names @ xs) (cs @ d # ds) (w\<lparr>vStorage := D'\<rparr>)"
      "\<And>q. (\<forall>x. q \<noteq> chunkDir uid tid @ [x]) \<Longrightarrow> map_of D' q = map_of D q"
    using Cons.IH [OF i xs(2) n] xs(1) by auto
  have "map_of D' q = map_of (vStorage w) q" if "\<forall>x. q \<noteq> chunkDir uid tid @ [x]" for q using D'(3) [OF that] D(3) that by auto
  then show ?case using D(1) D'(1,2) xs(1) by (intro exI [of _ D']) (auto simp: thenOp_def tryOp_def)
qed

text \<open>A new session.\<close>

definition freeSession :: "('s, 'd, 'h) Uploads \<Rightarrow> UserRow \<Rightarrow> string \<Rightarrow> ('s, 'd, 'h) davState \<Rightarrow> bool" where
  "freeSession u usr tid w \<longleftrightarrow> utDown (upPart u (vHooks w)) = None \<and> \<not> list_ex (upKey (usrID usr) tid) (utRows (upPart u (vHooks w))) \<and> usrID usr \<noteq> 0"

lemma upCreate_run:
  assumes "utDown d = None" and "\<not> list_ex (upKey u tid) (utRows d)" and "u \<noteq> 0" and "ValidTransferID tid"
    and "usUserID s = u" "usTransferID s = tid"
  shows "\<exists>T r. upCreate now d s = (T, Inr r) \<and> upGet T u tid = Inr r \<and> usDestination r = usDestination s \<and> usTotalLength r = usTotalLength s"
proof -
  define r where "r = s\<lparr>usCreated := msTrunc (if usCreated s = zeroTime then now else usCreated s), usID := utNext d\<rparr>"
  let ?T = "d\<lparr>utRows := utRows d @ [r], utNext := utNext d + 1\<rparr>"
  have t: "tid \<noteq> []" using ValidTransferID_plain [OF assms(4)] by (simp add: plain_seg_def)
  have "find P (xs @ [r]) = Some r" if "\<not> list_ex P xs" "P r" for P xs using that by (induction xs) auto
  then have f: "find (upKey u tid) (utRows d @ [r]) = Some r" using assms(2,5,6) by (simp add: r_def upKey_def)
  have "upGet ?T u tid = Inr r" using f assms(1,3) t by (simp add: upGet_def)
  then show ?thesis using assms t by (intro exI [of _ ?T] exI [of _ r]) (simp add: upCreate_def Let_def r_def)
qed

lemma MkdirMeta_run:
  assumes w: "wiredUploads u uid usr" and ok: "diskOK (vStorage w)" and t: "ValidTransferID tid" and f: "freeSession u usr tid w"
    and a: "areaOK (map_of (vStorage w)) ''uploads'' uid" and no: "map_of (vStorage w) (chunkDir uid tid) = None"
  shows "\<exists>w' e s. MkdirMeta u uid (''/'' @ tid) meta w = Some (w', Inr e) \<and> uploadAt u uid usr tid s [] [] w'
    \<and> usDestination s = cmDestination meta \<and> usTotalLength s = cmTotalLength meta \<and> vMeta w' = vMeta w \<and> vLocks w' = vLocks w
    \<and> map_of (vStorage w') = (map_of (vStorage w))([''uploads''] \<mapsto> DDir, [''uploads'', uid] \<mapsto> DDir, chunkDir uid tid \<mapsto> DDir)"
proof -
  have p: "plain_seg uid" "upUsers u uid = Inr usr" "upStorage u = localfs" "\<And>t h. upPart u (upPut u t h) = t" using w by (auto simp: wiredUploads_def)
  obtain D1 where D1: "ensureDirs localfs ''uploads'' uid w = Some (w\<lparr>vStorage := D1\<rparr>, Inr ())" "diskOK D1"
      "map_of D1 = (map_of (vStorage w))([''uploads''] \<mapsto> DDir, [''uploads'', uid] \<mapsto> DDir)"
    using lfs.ensureDirs_run [OF ok p(1) uploads_plain a] ok by (auto simp: diskOK_def)
  note k = chunk_keys(1,2) [OF p(1) t]
  obtain D2 where D2: "stMkdir localfs D1 (joinKey (chunkDir uid tid)) = (D2, Inr ())" "diskOK D2" "map_of D2 = (map_of D1)(chunkDir uid tid \<mapsto> DDir)"
    using lfs.mkdir_new [OF D1(2) k(2)] D1(3) no by auto
  have none: "map_of D2 (chunkDir uid tid @ [x]) = None" for x
  proof -
    have "map_of (vStorage w) (chunkDir uid tid @ [x]) = None"
      using lfs.view_parent [OF ok, of "chunkDir uid tid @ [x]"] no by (cases "map_of (vStorage w) (chunkDir uid tid @ [x])") auto
    then show ?thesis using D1(3) D2(3) by simp
  qed
  let ?s0 = "\<lparr>usID = 0, usUserID = usrID usr, usTransferID = tid, usDestination = cmDestination meta, usTotalLength = cmTotalLength meta, usCreated = upNow u\<rparr>"
  obtain T r where T: "upCreate (upNow u) (upPart u (vHooks w)) ?s0 = (T, Inr r)" "upGet T (usrID usr) tid = Inr r"
      "usDestination r = cmDestination meta" "usTotalLength r = cmTotalLength meta"
    using upCreate_run [of "upPart u (vHooks w)" "usrID usr" tid ?s0 "upNow u"] f t by (auto simp: freeSession_def)
  let ?w = "w\<lparr>vStorage := D2, vHooks := upPut u T (vHooks w)\<rparr>"
  have ne: "tid \<noteq> []" using ValidTransferID_plain [OF t] by (simp add: plain_seg_def)
  have "MkdirMeta u uid (''/'' @ tid) meta w = Some (?w, Inr (sessionEntry u r (''/'' @ tid)))"
    using service_user [of uid "upUsers u" usr, OF p(1,2)] splitUploadPath_transfer [OF t] ne t k p(3) D1(1) D2(1) T(1)
    by (simp add: MkdirMeta_def thenOp_def tryOp_def liftOp_def mapped_def storeOp_def retOp_def upOp_def hookOp_def onPart_def)
  moreover have "uploadAt u uid usr tid r [] [] ?w" using D2 T(2) p(4) t none by (simp add: uploadAt_def chunksOn_def)
  ultimately show ?thesis using T(3,4) D1(3) D2(3) by (intro exI [of _ ?w] exI [of _ "sessionEntry u r (''/'' @ tid)"] exI [of _ r]) simp
qed

end
