(* ===== verification/Files_UploadLaws.thy ===== *)
theory Files_UploadLaws
  imports Files_UploadChunks
begin

text \<open>
  Chunked uploads and the files of the user: \<open>Assemble\<close> writes the concatenation of the chunks through the adapter, \<open>Purge\<close> deletes a file for
  good, and the two together give what a client sees of an upload, right or wrong.
\<close>

section \<open>Assembling\<close>

lemma read_has_row:
  assumes i: "davInv map_of diskOK a uid usr w" and s: "aStorage a = localfs" and n: "aIncoming a = None" and np: "npath np"
    and r: "davReadOp a uid np w = Some (w2, Inr x)"
  shows "\<exists>g \<in> set (fcRows (vMeta w)). fUserID g = usrID usr \<and> fPath g = np"
proof (rule ccontr)
  assume free: "\<not> ?thesis"
  have "davReadMaybeIncoming a uid np w = Some (w, Inl ErrNotFound)"
    using lfs.statOwned_none [OF i s np free] incomingOp_none [OF n, of uid np w] np
    by (simp add: davReadMaybeIncoming_def tryOp_def thenOp_def failOp_def)
  then show False using r by (simp add: davReadOp_def thenOp_def tryOp_def failOp_def)
qed

lemma write_keeps_part:
  assumes i: "davInv map_of diskOK a uid usr w" and s: "aStorage a = localfs" and n: "aIncoming a = None" and v: "aVersions a = None" and q: "quietPart part a"
    and np: "npath np" "np \<noteq> ''/''" and p: "\<exists>p \<in> set (fcRows (vMeta w)). fUserID p = usrID usr \<and> fPath p = path_dir np \<and> fIsDir p"
    and nd: "map_of (vStorage w) (keyAt uid np) \<noteq> Some DDir"
    and c: "\<And>f. f \<in> set (fcRows (vMeta w)) \<Longrightarrow> fUserID f = usrID usr \<Longrightarrow> fPath f = np \<Longrightarrow> Evaluate cond True (fETag f) = None"
    and c0: "\<not> (\<exists>f \<in> set (fcRows (vMeta w)). fUserID f = usrID usr \<and> fPath f = np) \<Longrightarrow> Evaluate cond False [] = None"
    and run: "davWriteIf a muted uid np r mtime cond w = Some (w', x)"
  shows "part (vHooks w') = part (vHooks w)"
proof -
  have k: "keeps (partIs part t) (thenOp (writeStore a muted uid uid (usrID usr) np r mtime cond ex) (\<lambda>(ent, created). thenOp (emitUploaded a uid ent created) (\<lambda>_. retOp (ent, created))))" for t ex
    by (intro keeping q)
  show ?thesis
  proof (cases "\<exists>f \<in> set (fcRows (vMeta w)). fUserID f = usrID usr \<and> fPath f = np")
    case True
    then obtain f where f: "f \<in> set (fcRows (vMeta w))" "fUserID f = usrID usr" "fPath f = np" by blast
    have isf: "\<not> fIsDir f" using agreesD(1) [OF davInvD(8) [OF i] f(1,2)] nd f(3) by auto
    obtain l where "davWriteIf a muted uid np r mtime cond w = thenOp (writeStore a muted uid uid (usrID usr) np r mtime cond (Some f))
      (\<lambda>(ent, created). thenOp (emitUploaded a uid ent created) (\<lambda>_. retOp (ent, created))) (w\<lparr>vLocks := l\<rparr>)"
      using lfs.writeIf_existing [OF i s v f(1,2) isf c [OF f], of muted r mtime] f(3) by auto
    then show ?thesis using keepsD [OF k, of "Some f" "w\<lparr>vLocks := l\<rparr>" w' x] run by simp
  next
    case False
    obtain p where "p \<in> set (fcRows (vMeta w))" "fUserID p = usrID usr" "fPath p = path_dir np" "fIsDir p" using p by blast
    from lfs.writeIf_new [OF i s n np this False c0 [OF False], of muted r mtime] run show ?thesis using keepsD [OF k, of None w w' x] by simp
  qed
qed

text \<open>The destination is recorded in the session, when it is another one.\<close>

lemma updateDest_run:
  assumes w: "wiredUploads u uid usr" and i: "uploadAt u uid usr tid s names cs w"
  shows "\<exists>w' s'. (if dest = usDestination s then retOp (Inr ()) else upOp u (\<lambda>d. upUpdateDest d (usrID usr) tid dest (usTotalLength s))) w = Some (w', Inr (Inr ()))
    \<and> uploadAt u uid usr tid s' names cs w' \<and> vMeta w' = vMeta w \<and> vStorage w' = vStorage w \<and> vLocks w' = vLocks w"
proof (cases "dest = usDestination s")
  case True
  then show ?thesis using i by (auto simp: retOp_def)
next
  case False
  note d = uploadAtD [OF i]
  have p: "upPart u (upPut u t h) = t" for t h using w by (auto simp: wiredUploads_def)
  let ?f = "\<lambda>r. if upKey (usrID usr) tid r then r\<lparr>usDestination := dest, usTotalLength := usTotalLength s\<rparr> else r"
  let ?d = "upPart u (vHooks w)"
  note r = upGet_row [OF d(3)]
  have "list_ex (upKey (usrID usr) tid) (map ?f rows) = list_ex (upKey (usrID usr) tid) rows" for rows by (induction rows) (auto simp: upKey_def)
  then have "list_ex (upKey (usrID usr) tid) (map ?f (utRows ?d))" using r by blast
  then obtain s' where s': "find (upKey (usrID usr) tid) (map ?f (utRows ?d)) = Some s'"
    by (cases "find (upKey (usrID usr) tid) (map ?f (utRows ?d))") (auto simp: find_None_iff list_ex_iff)
  then have "upGet (?d\<lparr>utRows := map ?f (utRows ?d)\<rparr>) (usrID usr) tid = Inr s'" using r by (simp add: upGet_def)
  then show ?thesis using False d r p
    by (intro exI [of _ "w\<lparr>vHooks := upPut u (?d\<lparr>utRows := map ?f (utRows ?d)\<rparr>) (vHooks w)\<rparr>"] exI [of _ s'])
      (simp add: upOp_def hookOp_def onPart_def upUpdateDest_def upChange_def uploadAt_def)
qed

lemma uploadAt_frame:
  assumes "uploadAt u uid usr tid s names cs w" and "upPart u (vHooks w') = upPart u (vHooks w)" and "diskOK (vStorage w')"
    and "\<And>q. hd q = ''uploads'' \<Longrightarrow> map_of (vStorage w') q = map_of (vStorage w) q"
  shows "uploadAt u uid usr tid s names cs w'"
  using assms by (simp add: uploadAt_def chunksOn_def)

lemma statOp_either:
  assumes i: "davInv map_of diskOK a uid usr w" and s: "aStorage a = localfs" and n: "aIncoming a = None" and np: "npath np"
  shows "\<exists>l r. davStatOp a uid np w = Some (w\<lparr>vLocks := l\<rparr>, r)
    \<and> (if \<exists>g \<in> set (fcRows (vMeta w)). fUserID g = usrID usr \<and> fPath g = np then \<exists>e. r = Inr e else r = Inl ErrNotFound)"
proof (cases "\<exists>g \<in> set (fcRows (vMeta w)). fUserID g = usrID usr \<and> fPath g = np")
  case True
  then obtain f where f: "f \<in> set (fcRows (vMeta w))" "fUserID f = usrID usr" "fPath f = np" by blast
  then show ?thesis using lfs.statOp_row [OF i s f(1,2)] True by auto
next
  case False
  then show ?thesis using lfs.statOp_none [OF i s np n False] by (intro exI [of _ "vLocks w"] exI [of _ "Inl ErrNotFound"]) simp
qed

text \<open>A request to assemble whose conditions are met.\<close>

definition assemblable ::
  "(disk, 'd, 'h) Uploads \<Rightarrow> (disk, 'd, 'h) davAdapter \<Rightarrow> string \<Rightarrow> UserRow \<Rightarrow> string \<Rightarrow> UploadSession \<Rightarrow> string list \<Rightarrow> string list \<Rightarrow> (disk, 'd, 'h) davState \<Rightarrow> bool" where
  "assemblable u a uid usr tid s names cs w \<longleftrightarrow> davInv map_of diskOK a uid usr w \<and> aStorage a = localfs \<and> aIncoming a = None \<and> aVersions a = None
     \<and> wiredUploads u uid usr \<and> upFiles u = Some a \<and> quietPart (upPart u) a \<and> uid \<noteq> ''uploads''
     \<and> uploadAt u uid usr tid s names cs w \<and> cs \<noteq> [] \<and> (usTotalLength s \<le> 0 \<or> usTotalLength s = wrap64 (int (length (concat cs))))"

definition writableAt :: "UserRow \<Rightarrow> string \<Rightarrow> string \<Rightarrow> (disk, 'd, 'h) davState \<Rightarrow> bool" where
  "writableAt usr uid dest w \<longleftrightarrow> npath dest \<and> dest \<noteq> ''/'' \<and> (\<exists>p \<in> set (fcRows (vMeta w)). fUserID p = usrID usr \<and> fPath p = path_dir dest \<and> fIsDir p)
     \<and> map_of (vStorage w) (keyAt uid dest) \<noteq> Some DDir"

abbreviation occupied :: "UserRow \<Rightarrow> string \<Rightarrow> ('s, 'd, 'h) davState \<Rightarrow> bool" where
  "occupied usr dest w \<equiv> \<exists>g \<in> set (fcRows (vMeta w)). fUserID g = usrID usr \<and> fPath g = dest"

text \<open>The body is stored, whatever the checksum; what follows depends on it.\<close>

lemma assemble_stored:
  assumes c: "assemblable u a uid usr tid s names cs w" and dest: "NormalizePath (if destPath = [] then usDestination s else destPath) = Inr dest" "writableAt usr uid dest w"
    and free: "occupied usr dest w \<longrightarrow> overwrite" and lock: "lockCheck a uid dest ifHeader w = Some (w1, Inr ())" and cond: "ParseIfETags ifHeader = []"
    and sum: "case splitChecksum checksum of None \<Rightarrow> True | Some (algo, _) \<Rightarrow> checksumHash u algo \<noteq> None"
  shows "\<exists>w4 e s'. Assemble u muted uid tid uid destPath overwrite mtime checksum ifHeader w =
      (if (case splitChecksum checksum of None \<Rightarrow> False | Some (algo, want) \<Rightarrow> \<not> equal_fold ((the (checksumHash u algo)) (concat cs)) want)
       then undoAssemble u a uid dest else thenOp (uploadRemove u uid (''/'' @ tid)) (\<lambda>_. retOp (e, \<not> occupied usr dest w))) w4
    \<and> davInv map_of diskOK a uid usr w4 \<and> uploadAt u uid usr tid s' names cs w4
    \<and> map_of (vStorage w4) = (map_of (vStorage w))(keyAt uid dest \<mapsto> DFile (concat cs)) \<and> occupied usr dest w4"
proof -
  have a: "davInv map_of diskOK a uid usr w" "aStorage a = localfs" "aIncoming a = None" "aVersions a = None" "wiredUploads u uid usr" "upFiles u = Some a"
      "quietPart (upPart u) a" "uid \<noteq> ''uploads''" "uploadAt u uid usr tid s names cs w" "cs \<noteq> []" "usTotalLength s \<le> 0 \<or> usTotalLength s = wrap64 (int (length (concat cs)))"
    using c by (auto simp: assemblable_def)
  note d = uploadAtD [OF a(9)]
  have p: "plain_seg uid" "upUsers u uid = Inr usr" using a(5) by (auto simp: wiredUploads_def)
  have np: "npath dest" "dest \<noteq> ''/''" using dest(2) by (auto simp: writableAt_def)
  have l1: "vMeta w1 = vMeta w" "vStorage w1 = vStorage w" "vHooks w1 = vHooks w" using lock by (auto simp: lockCheck_def split: prod.splits)
  have u1: "uploadAt u uid usr tid s names cs w1" using a(9) l1 by (simp add: uploadAt_def)
  obtain w2 s2 where w2: "(if dest = usDestination s then retOp (Inr ()) else upOp u (\<lambda>d. upUpdateDest d (usrID usr) tid dest (usTotalLength s))) w1 = Some (w2, Inr (Inr ()))"
      "uploadAt u uid usr tid s2 names cs w2" "vMeta w2 = vMeta w" "vStorage w2 = vStorage w"
    using updateDest_run [OF a(5) u1, of dest] l1 by auto
  have i2: "davInv map_of diskOK a uid usr w2" using a(1) w2(3,4) by (simp add: davInv_def)
  obtain l r where st: "davStatOp a uid dest w2 = Some (w2\<lparr>vLocks := l\<rparr>, r)" "if occupied usr dest w2 then \<exists>e. r = Inr e else r = Inl ErrNotFound"
    using statOp_either [OF i2 a(2,3) np(1)] by blast
  define w3 where "w3 = w2\<lparr>vLocks := l\<rparr>"
  have i3: "davInv map_of diskOK a uid usr w3" and u3: "uploadAt u uid usr tid s2 names cs w3" using i2 w2(2) by (simp_all add: w3_def uploadAt_def)
  have w3: "vMeta w3 = vMeta w" "vStorage w3 = vStorage w" using w2(3,4) by (simp_all add: w3_def)
  have p3: "\<exists>p \<in> set (fcRows (vMeta w3)). fUserID p = usrID usr \<and> fPath p = path_dir dest \<and> fIsDir p" and nd: "map_of (vStorage w3) (keyAt uid dest) \<noteq> Some DDir"
    using dest(2) w3 by (auto simp: writableAt_def)
  let ?cond = "Some \<lparr>IfETags = ParseIfETags ifHeader, IfMatch = [], IfNoneMatch = []\<rparr>"
  have ev: "Evaluate ?cond b t = None" for b t using cond by (simp add: Evaluate_def)
  obtain w4 e created where w4: "davWriteIf a muted uid dest (concat cs, None) mtime ?cond w3 = Some (w4, Inr (e, created))" "created \<longleftrightarrow> \<not> occupied usr dest w3"
      "davInv map_of diskOK a uid usr w4" "map_of (vStorage w4) = (map_of (vStorage w3))(keyAt uid dest \<mapsto> DFile (concat cs))"
      "\<exists>w5 e2. davReadOp a uid dest w4 = Some (w5, Inr (concat cs, e2))"
    using lfs.write_correct [OF i3 a(2,3,4) np p3 nd ev ev, of muted "concat cs" mtime] by blast
  have h4: "upPart u (vHooks w4) = upPart u (vHooks w3)" by (rule write_keeps_part [OF i3 a(2,3,4,7) np p3 nd ev ev w4(1)])
  have u4: "uploadAt u uid usr tid s2 names cs w4"
    by (rule uploadAt_frame [OF u3 h4 davInvD(4) [OF w4(3)]]) (use w4(4) a(8) in \<open>auto simp: keyAt_def\<close>)
  have occ: "occupied usr dest w4" using w4(5) read_has_row [OF w4(3) a(2,3) np(1)] by blast
  have go: "\<not> (case r of Inl e \<Rightarrow> e \<noteq> ErrNotFound | Inr _ \<Rightarrow> \<not> overwrite)" using st(2) free w2(3) by (auto split: if_splits)
  have ne: "chunkList names cs \<noteq> []" using a(10) by (simp add: chunkList_def)
  have sum': "\<not> (case splitChecksum checksum of None \<Rightarrow> False | Some (algo, _) \<Rightarrow> checksumHash u algo = None)" using sum by (auto split: option.splits)
  have len: "\<not> (usTotalLength s > 0 \<and> wrap64 (int (length (concat cs))) \<noteq> usTotalLength s)" using a(11) by auto
  have "Assemble u muted uid tid uid destPath overwrite mtime checksum ifHeader w =
      (if (case splitChecksum checksum of None \<Rightarrow> False | Some (algo, want) \<Rightarrow> \<not> equal_fold ((the (checksumHash u algo)) (concat cs)) want)
       then undoAssemble u a uid dest else thenOp (uploadRemove u uid (''/'' @ tid)) (\<lambda>_. retOp (e, created))) w4"
    using a(6) service_user [of uid "upUsers u" usr, OF p] d(2,3) dest(1) np(2) lock w2(1) st(1) go ne sum'
      orderedChunks_run [OF a(5) u3] openChunks_run [OF a(5) u3] w4(1)
    by (simp add: len Assemble_def thenOp_def [of "liftOp _"] thenOp_def tryOp_def liftOp_def mapped_def upSession_def w3_def [symmetric])
  then show ?thesis using w4(2,3,4) u4 occ w3 by (intro exI [of _ w4] exI [of _ e] exI [of _ s2]) simp
qed

section \<open>Deleting a file for good\<close>

text \<open>The clean-ups of the stores that refer to the path answer no error; no versions are kept.\<close>

definition cleansUp :: "('s, 'd, 'h) davAdapter \<Rightarrow> bool" where
  "cleansUp a \<longleftrightarrow> aVersions a = None \<and> (\<forall>ls d u p. aLocks a = Some ls \<longrightarrow> (\<exists>d'. lsDeleteByPath ls d u p = (d', Inr ())))
     \<and> (\<forall>ps h u p. aProps a = Some ps \<longrightarrow> (\<exists>h'. psDeleteByPath ps h u p = (h', Inr ())))
     \<and> (\<forall>ss h u p. aShares a = Some ss \<longrightarrow> (\<exists>h'. shDeleteByPath ss h u p = (h', Inr ())))"

lemma propsOp_run:
  assumes "\<And>ps h u p. aProps a = Some ps \<Longrightarrow> \<exists>h'. psDeleteByPath ps h u p = (h', Inr ())"
  shows "\<exists>h. propsOp a (\<lambda>ps h. psDeleteByPath ps h u p) w = Some (w\<lparr>vHooks := h\<rparr>, Inr ())"
proof (cases "aProps a")
  case None then show ?thesis by (intro exI [of _ "vHooks w"]) (simp add: propsOp_def retOp_def)
next
  case (Some ps)
  then obtain h' where "psDeleteByPath ps (vHooks w) u p = (h', Inr ())" using assms by blast
  then show ?thesis using Some by (intro exI [of _ h']) (simp add: propsOp_def hookOp_def)
qed

context storage_laws
begin

lemma Purge_file:
  assumes i: "davInv view ok a uid usr w" and s: "aStorage a = st" and c: "cleansUp a"
    and f: "f \<in> set (fcRows (vMeta w))" "fUserID f = usrID usr" "fPath f \<noteq> ''/''" "\<not> fIsDir f"
  shows "\<exists>w'. Purge a uid (fPath f) w = Some (w', Inr ()) \<and> davInv view ok a uid usr w'
    \<and> view (vStorage w') = (view (vStorage w))(keyAt uid (fPath f) := None)
    \<and> list_all2 (recalced (usrID usr)) (fcRows (pruned (usrID usr) (fPath f) (vMeta w))) (fcRows (vMeta w'))"
proof -
  note d = davInvD [OF i]
  have np: "npath (fPath f)" using fileInvD(4) [OF d(5) f(1)] by simp
  have cp: "clean_path (fPath f)" using np f(3) normal_path by blast
  let ?u = "usrID usr" and ?p = "fPath f"
  let ?d1 = "pruned ?u ?p (vMeta w)"
  note sk = storageKey_segs [OF d(2) np, folded keyAt_def]
  obtain m where m: "view (vStorage w) (keyAt uid ?p) = Some m" "stored (aSha256 a) f m" using d(8) f(1,2) by (auto simp: agrees_def)
  then have "m \<noteq> DDir" using f(4) by (auto simp: stored_def split: dnode.splits)
  then obtain s' where s': "stDelete st (vStorage w) (joinKey (keyAt uid ?p)) = (s', Inr ())" "ok s'" "view s' = (view (vStorage w))(keyAt uid ?p := None)"
    using delete_leaf [OF d(4) sk(2) m(1)] by blast
  let ?w1 = "w\<lparr>vStorage := s', vMeta := ?d1\<rparr>"
  obtain h1 where h1: "propsOp a (\<lambda>ps h. psDeleteByPath ps h ?u ?p) ?w1 = Some (?w1\<lparr>vHooks := h1\<rparr>, Inr ())"
    using propsOp_run [of a ?u ?p ?w1] c by (auto simp: cleansUp_def)
  obtain l where l: "locksOp a (\<lambda>ls d. lsDeleteByPath ls d ?u ?p) (?w1\<lparr>vHooks := h1\<rparr>) = Some (?w1\<lparr>vHooks := h1, vLocks := l\<rparr>, Inr ())"
    using locksOp_run [of a ?u ?p "?w1\<lparr>vHooks := h1\<rparr>"] c by (auto simp: cleansUp_def)
  let ?w2 = "?w1\<lparr>vHooks := h1, vLocks := l\<rparr>"
  obtain h2 where h2: "sharesOp a (\<lambda>ss h. shDeleteByPath ss h ?u ?p) ?w2 = Some (?w2\<lparr>vHooks := h2\<rparr>, Inr ())"
    using sharesOp_run [of a "\<lambda>_. ()" ?u ?p ?w2] c by (auto simp: cleansUp_def)
  have i1: "fileInv ?d1" using fileInv_pruned [OF d(5) f(1,3)] f(2) by simp
  obtain p where p: "p \<in> set (fcRows (vMeta w))" "fParentID f = Some (fID p)" "fUserID p = ?u" "fPath p = path_dir ?p" "fIsDir p" "length (fPath p) < length ?p"
    using fileParent(2) [OF d(5) f(1,3)] f(2) by auto
  have pk: "p \<in> set (fcRows ?d1)" using p(1,6) below_length [of ?p "fPath p"] by (auto simp: pruned_def inTree_def)
  have ds: "dirSizesOK ?d1 ?u (\<lambda>q. onWay q (fPath p))" by (rule dirSizes_pruned [OF d(5,7) f(1,3,2) p(1,2)])
  obtain d' where d': "RecalcAncestors (aSha1 a) (aNow a) ?d1 ?u (fParentID f) (aNow a) = Some (d', Inr ())" "fileInv d'"
      "list_all2 (recalced ?u) (fcRows ?d1) (fcRows d')" "dirSizesOK d' ?u (\<lambda>q. False)"
    using recalc_run [OF i1 pk p(5,3) ds, of "aSha1 a" "aNow a" "aNow a"] p(2) by auto
  have get: "fcGetByPath (vMeta w) ?u ?p = Inr f" using fcGetByPath_row [OF d(5) f(1)] f(2) by simp
  have del: "DeleteSubtree (vMeta w) ?u ?p = (?d1, Inr ())" using DeleteSubtree_run [OF d(5) f(1,3)] f(2) by simp
  note usr = resolveUser_run [OF i s]
  have "Purge a uid ?p w = Some (?w2\<lparr>vHooks := h2, vMeta := d'\<rparr>, Inr ())"
    using usr np get sk(1) s'(1) s del f(4) h1 l h2 d'(1) conjunct1 [OF c [unfolded cleansUp_def]]
    by (simp add: Purge_def Let_def collectOp_def versionsOp_def op_defs recalcOp_def)
  moreover have "davInv view ok a uid usr (w\<lparr>vStorage := s', vMeta := d', vHooks := h2, vLocks := l\<rparr>)"
  proof (rule davInv_after [OF i s'(2) d'(2,3,4) hasRoot_pruned [OF cp d(6)]])
    have "keyAt uid (fPath r) \<noteq> keyAt uid ?p" if "r \<in> set (fcRows ?d1)" "fUserID r = ?u" for r
      using that keyAt_below [OF cp, of "fPath r" uid] fileInvD(4) [OF d(5), of r] by (auto simp: pruned_def inTree_def atOrBelow_iff)
    then show "agrees (aSha256 a) (view s') uid ?u (fcRows ?d1)"
      using d(8) s'(3) by (auto simp: agrees_def pruned_def)
  qed
  ultimately show ?thesis using s'(3) d'(3) by (intro exI [of _ "w\<lparr>vStorage := s', vMeta := d', vHooks := h2, vLocks := l\<rparr>"]) simp
qed

end

section \<open>Uploads over a local directory\<close>

text \<open>The service of the uploads and the adapter of the files of one server, without versions and locks, for a user who is not called \<open>uploads\<close>.\<close>

definition uploadServer :: "(disk, 'd, 'h) Uploads \<Rightarrow> (disk, 'd, 'h) davAdapter \<Rightarrow> string \<Rightarrow> UserRow \<Rightarrow> bool" where
  "uploadServer u a uid usr \<longleftrightarrow> aStorage a = localfs \<and> aIncoming a = None \<and> aVersions a = None \<and> aLocks a = None
     \<and> wiredUploads u uid usr \<and> upFiles u = Some a \<and> quietPart (upPart u) a \<and> uid \<noteq> ''uploads''"

definition checksumIs :: "bool \<Rightarrow> ('s, 'd, 'h) Uploads \<Rightarrow> string \<Rightarrow> string \<Rightarrow> bool" where
  "checksumIs good u checksum body \<longleftrightarrow> (case splitChecksum checksum of
      None \<Rightarrow> good
    | Some (algo, want) \<Rightarrow> (case checksumHash u algo of None \<Rightarrow> False | Some h \<Rightarrow> equal_fold (h body) want = good))"

lemma lockCheck_none: "aLocks a = None \<Longrightarrow> aIncoming a = None \<Longrightarrow> lockCheck a uid p h w = Some (w, Inr ())"
  by (simp add: lockCheck_def davCheckLock_def lookupIncoming_def checkLockOwned_def lockView_def)

lemma assemble_run:
  assumes i: "davInv map_of diskOK a uid usr w" and v: "uploadServer u a uid usr" and up: "uploadAt u uid usr tid s names cs w" and cs: "cs \<noteq> []"
    and len: "usTotalLength s \<le> 0 \<or> usTotalLength s = wrap64 (int (length (concat cs)))"
    and dest: "NormalizePath (if destPath = [] then usDestination s else destPath) = Inr dest" "writableAt usr uid dest w"
    and free: "occupied usr dest w \<longrightarrow> overwrite" and sum: "checksumIs good u checksum (concat cs)"
  shows "\<exists>w4 e s'. Assemble u muted uid tid uid destPath overwrite mtime checksum [] w =
      (if good then thenOp (uploadRemove u uid (''/'' @ tid)) (\<lambda>_. retOp (e, \<not> occupied usr dest w)) else undoAssemble u a uid dest) w4
    \<and> davInv map_of diskOK a uid usr w4 \<and> uploadAt u uid usr tid s' names cs w4
    \<and> map_of (vStorage w4) = (map_of (vStorage w))(keyAt uid dest \<mapsto> DFile (concat cs)) \<and> occupied usr dest w4"
proof -
  have a: "assemblable u a uid usr tid s names cs w" using v i up cs len by (auto simp: assemblable_def uploadServer_def)
  have l: "lockCheck a uid dest [] w = Some (w, Inr ())" using v by (intro lockCheck_none) (auto simp: uploadServer_def)
  have tags: "ParseIfETags [] = []" by code_simp
  have s1: "case splitChecksum checksum of None \<Rightarrow> True | Some (algo, _) \<Rightarrow> checksumHash u algo \<noteq> None"
    and s2: "(case splitChecksum checksum of None \<Rightarrow> False | Some (algo, want) \<Rightarrow> \<not> equal_fold ((the (checksumHash u algo)) (concat cs)) want) \<longleftrightarrow> \<not> good"
    using sum by (auto simp: checksumIs_def split: option.splits prod.splits)
  show ?thesis using assemble_stored [OF a dest free l tags s1, of muted mtime] unfolding s2 by (cases good) auto
qed

text \<open>The end of an upload: the session and its directory go, the file stays.\<close>

lemma upload_done:
  assumes i: "davInv map_of diskOK a uid usr w" and v: "uploadServer u a uid usr" and up: "uploadAt u uid usr tid s names cs w"
    and dest: "npath dest" "occupied usr dest w" "map_of (vStorage w) (keyAt uid dest) = Some (DFile c)"
  shows "\<exists>w'. uploadRemove u uid (''/'' @ tid) w = Some (w', Inr ()) \<and> davInv map_of diskOK a uid usr w'
    \<and> (\<exists>w2 e. davReadOp a uid dest w' = Some (w2, Inr (c, e))) \<and> upGet (upPart u (vHooks w')) (usrID usr) tid = Inl FErrNotFound
    \<and> map_of (vStorage w') = (\<lambda>q. if q = chunkDir uid tid \<or> (\<exists>x. q = chunkDir uid tid @ [x]) then None else map_of (vStorage w) q)"
proof -
  have p: "wiredUploads u uid usr" "aStorage a = localfs" "uid \<noteq> ''uploads''" using v by (auto simp: uploadServer_def)
  obtain w' where w': "uploadRemove u uid (''/'' @ tid) w = Some (w', Inr ())" "vMeta w' = vMeta w" "vLocks w' = vLocks w" "diskOK (vStorage w')"
      "map_of (vStorage w') = (\<lambda>q. if q = chunkDir uid tid \<or> (\<exists>x. q = chunkDir uid tid @ [x]) then None else map_of (vStorage w) q)"
      "upPart u (vHooks w') = (upPart u (vHooks w))\<lparr>utRows := filter (\<lambda>r. \<not> upKey (usrID usr) tid r) (utRows (upPart u (vHooks w)))\<rparr>"
    using uploadRemove_run [OF p(1) up] by blast
  have fr: "map_of (vStorage w') q = map_of (vStorage w) q" if "hd q = uid" for q using that p(3) w'(5) by (cases q) auto
  have "davInv map_of diskOK a uid usr (w\<lparr>vStorage := vStorage w'\<rparr>)" by (rule lfs.davInv_storage [OF i w'(4) fr])
  then have i': "davInv map_of diskOK a uid usr w'" using w'(2) by (simp add: davInv_def)
  obtain f where f: "f \<in> set (fcRows (vMeta w'))" "fUserID f = usrID usr" "fPath f = dest" using dest(2) w'(2) by auto
  have k: "map_of (vStorage w') (keyAt uid dest) = Some (DFile c)" using dest(3) fr [of "keyAt uid dest"] by (simp add: keyAt_def)
  have "\<not> fIsDir f" using agreesD(1) [OF davInvD(8) [OF i'] f(1,2)] k f(3) by auto
  then have "\<exists>w2 e. davReadOp a uid dest w' = Some (w2, Inr (c, e))"
    using lfs.read_file [OF i' p(2) f(1,2)] f(3) k by auto
  moreover have "find P (filter (\<lambda>r. \<not> P r) xs) = None" for P :: "UploadSession \<Rightarrow> bool" and xs by (induction xs) auto
  then have "upGet (upPart u (vHooks w')) (usrID usr) tid = Inl FErrNotFound"
    using upGet_row [OF uploadAtD(3) [OF up]] w'(6) by (simp add: upGet_def)
  ultimately show ?thesis using w'(1,5) i' by blast
qed

text \<open>A session is opened and its chunks are sent; the home of the user is as before.\<close>

lemma upload_sent:
  assumes i: "davInv map_of diskOK a uid usr w" and p: "wiredUploads u uid usr" "uid \<noteq> ''uploads''" and t: "ValidTransferID tid" and f: "freeSession u usr tid w"
    and ar: "areaOK (map_of (vStorage w)) ''uploads'' uid" and no: "map_of (vStorage w) (chunkDir uid tid) = None"
    and cs: "length names = length cs" "\<forall>i < length cs. parseChunkName (names ! i) = Some (int i + 1)"
  shows "\<exists>w1 w2 e0 s. MkdirMeta u uid (''/'' @ tid) meta w = Some (w1, Inr e0) \<and> sendChunks u uid tid (zip names cs) w1 = Some (w2, Inr ())
    \<and> uploadAt u uid usr tid s names cs w2 \<and> usDestination s = cmDestination meta \<and> usTotalLength s = cmTotalLength meta
    \<and> davInv map_of diskOK a uid usr w2 \<and> vMeta w2 = vMeta w \<and> (\<forall>q. hd q = uid \<longrightarrow> map_of (vStorage w2) q = map_of (vStorage w) q)
    \<and> (\<forall>q. q \<noteq> chunkDir uid tid \<longrightarrow> (\<forall>x. q \<noteq> chunkDir uid tid @ [x]) \<longrightarrow>
        map_of (vStorage w2) q = ((map_of (vStorage w))([''uploads''] \<mapsto> DDir, [''uploads'', uid] \<mapsto> DDir)) q)"
proof -
  have ok: "diskOK (vStorage w)" by (rule davInvD(4) [OF i])
  obtain w1 e0 s where w1: "MkdirMeta u uid (''/'' @ tid) meta w = Some (w1, Inr e0)" "uploadAt u uid usr tid s [] [] w1"
      "usDestination s = cmDestination meta" "usTotalLength s = cmTotalLength meta" "vMeta w1 = vMeta w"
      "map_of (vStorage w1) = (map_of (vStorage w))([''uploads''] \<mapsto> DDir, [''uploads'', uid] \<mapsto> DDir, chunkDir uid tid \<mapsto> DDir)"
    using MkdirMeta_run [OF p(1) ok t f ar no] by blast
  obtain D where D: "sendChunks u uid tid (zip names cs) w1 = Some (w1\<lparr>vStorage := D\<rparr>, Inr ())" "uploadAt u uid usr tid s names cs (w1\<lparr>vStorage := D\<rparr>)"
      "\<And>q. (\<forall>x. q \<noteq> chunkDir uid tid @ [x]) \<Longrightarrow> map_of D q = map_of (vStorage w1) q"
    using sendChunks_run [OF p(1) w1(2) cs(1)] cs(2) by auto
  have fr: "map_of D q = map_of (vStorage w) q" if "hd q = uid" for q using that p(2) w1(6) D(3) [of q] by (cases q) auto
  have "davInv map_of diskOK a uid usr (w\<lparr>vStorage := D\<rparr>)" by (rule lfs.davInv_storage [OF i _ fr]) (use uploadAtD(1) [OF D(2)] in simp_all)
  then have "davInv map_of diskOK a uid usr (w1\<lparr>vStorage := D\<rparr>)" using w1(5) by (simp add: davInv_def)
  then show ?thesis using w1 D fr by (intro exI [of _ w1] exI [of _ "w1\<lparr>vStorage := D\<rparr>"] exI [of _ e0] exI [of _ s]) simp
qed

text \<open>
  C24. A chunked upload end to end, over a local directory, on a server without versions, locks and incoming shares: open a session, send one or more chunks, and assemble them. For a user who is not called \<open>uploads\<close>, a fresh transfer id,
  chunk names that parse to \<open>1, 2, \<dots>\<close> (so no more chunks than the code allows), a declared length that is absent or right, a destination in a directory of the user that is free or
  may be overwritten, and a checksum that is absent, malformed or right, every request succeeds; a read of the destination then gives the
  concatenation of the chunks, the rows and the disk of the user agree, the session is gone, and on the disk nothing else has changed but for
  the two directories of the upload area.
\<close>

theorem chunked_upload_roundtrip:
  assumes i: "davInv map_of diskOK a uid usr w" and v: "uploadServer u a uid usr" and t: "ValidTransferID tid" and f: "freeSession u usr tid w"
    and ar: "areaOK (map_of (vStorage w)) ''uploads'' uid" and no: "map_of (vStorage w) (chunkDir uid tid) = None"
    and cs: "cs \<noteq> []" "length names = length cs" "\<forall>i < length cs. parseChunkName (names ! i) = Some (int i + 1)"
    and len: "cmTotalLength meta \<le> 0 \<or> cmTotalLength meta = wrap64 (int (length (concat cs)))"
    and dest: "NormalizePath (cmDestination meta) = Inr dest" "writableAt usr uid dest w"
    and free: "occupied usr dest w \<longrightarrow> overwrite" and sum: "checksumIs True u checksum (concat cs)"
  shows "\<exists>w1 w2 w' e0 e. MkdirMeta u uid (''/'' @ tid) meta w = Some (w1, Inr e0) \<and> sendChunks u uid tid (zip names cs) w1 = Some (w2, Inr ())
    \<and> Assemble u muted uid tid uid [] overwrite mtime checksum [] w2 = Some (w', Inr (e, \<not> occupied usr dest w))
    \<and> (\<exists>w3 e3. davReadOp a uid dest w' = Some (w3, Inr (concat cs, e3))) \<and> davInv map_of diskOK a uid usr w'
    \<and> upGet (upPart u (vHooks w')) (usrID usr) tid = Inl FErrNotFound
    \<and> map_of (vStorage w') = (map_of (vStorage w))([''uploads''] \<mapsto> DDir, [''uploads'', uid] \<mapsto> DDir, keyAt uid dest \<mapsto> DFile (concat cs))"
proof -
  have p: "wiredUploads u uid usr" "uid \<noteq> ''uploads''" using v by (auto simp: uploadServer_def)
  obtain w1 w2 e0 s where w2: "MkdirMeta u uid (''/'' @ tid) meta w = Some (w1, Inr e0)" "sendChunks u uid tid (zip names cs) w1 = Some (w2, Inr ())"
      and up: "uploadAt u uid usr tid s names cs w2" and s: "usDestination s = cmDestination meta" "usTotalLength s = cmTotalLength meta"
      and i2: "davInv map_of diskOK a uid usr w2" and m2: "vMeta w2 = vMeta w" and fr: "\<And>q. hd q = uid \<Longrightarrow> map_of (vStorage w2) q = map_of (vStorage w) q"
      and o2: "\<And>q. q \<noteq> chunkDir uid tid \<Longrightarrow> (\<forall>x. q \<noteq> chunkDir uid tid @ [x]) \<Longrightarrow>
        map_of (vStorage w2) q = ((map_of (vStorage w))([''uploads''] \<mapsto> DDir, [''uploads'', uid] \<mapsto> DDir)) q"
    using upload_sent [OF i p t f ar no cs(2,3), of meta] by blast
  have d2: "writableAt usr uid dest w2" "occupied usr dest w2 = occupied usr dest w"
    using dest(2) m2 fr [of "keyAt uid dest"] by (auto simp: writableAt_def keyAt_def)
  have len2: "usTotalLength s \<le> 0 \<or> usTotalLength s = wrap64 (int (length (concat cs)))" using len s(2) by simp
  have np: "NormalizePath (if [] = [] then usDestination s else []) = Inr dest" using dest(1) s(1) by simp
  have free2: "occupied usr dest w2 \<longrightarrow> overwrite" using free d2(2) by blast
  obtain w4 e s' where w4: "Assemble u muted uid tid uid [] overwrite mtime checksum [] w2 = thenOp (uploadRemove u uid (''/'' @ tid)) (\<lambda>_. retOp (e, \<not> occupied usr dest w2)) w4"
      "davInv map_of diskOK a uid usr w4" "uploadAt u uid usr tid s' names cs w4" "map_of (vStorage w4) = (map_of (vStorage w2))(keyAt uid dest \<mapsto> DFile (concat cs))" "occupied usr dest w4"
    using assemble_run [OF i2 v up cs(1) len2 np d2(1) free2 sum, of muted mtime] by auto
  have nd: "npath dest" using dest(2) by (simp add: writableAt_def)
  obtain w' where w': "uploadRemove u uid (''/'' @ tid) w4 = Some (w', Inr ())" "davInv map_of diskOK a uid usr w'"
      "\<exists>w3 e3. davReadOp a uid dest w' = Some (w3, Inr (concat cs, e3))" "upGet (upPart u (vHooks w')) (usrID usr) tid = Inl FErrNotFound"
      "map_of (vStorage w') = (\<lambda>q. if q = chunkDir uid tid \<or> (\<exists>x. q = chunkDir uid tid @ [x]) then None else map_of (vStorage w4) q)"
    using upload_done [OF w4(2) v w4(3) nd w4(5), of "concat cs"] w4(4) by auto
  have below: "map_of (vStorage w) (chunkDir uid tid @ [x]) = None" for x
    using lfs.view_parent [OF davInvD(4) [OF i], of "chunkDir uid tid @ [x]"] no by (cases "map_of (vStorage w) (chunkDir uid tid @ [x])") auto
  have "map_of (vStorage w') = (map_of (vStorage w))([''uploads''] \<mapsto> DDir, [''uploads'', uid] \<mapsto> DDir, keyAt uid dest \<mapsto> DFile (concat cs))"
  proof
    fix q
    have k: "keyAt uid dest \<noteq> chunkDir uid tid" "keyAt uid dest \<noteq> chunkDir uid tid @ [x]" for x using p(2) by (auto simp: keyAt_def)
    show "map_of (vStorage w') q = ((map_of (vStorage w))([''uploads''] \<mapsto> DDir, [''uploads'', uid] \<mapsto> DDir, keyAt uid dest \<mapsto> DFile (concat cs))) q"
      using k below no w'(5) w4(4) o2 [of q] by auto
  qed
  moreover have "Assemble u muted uid tid uid [] overwrite mtime checksum [] w2 = Some (w', Inr (e, \<not> occupied usr dest w))"
    using w4(1) w'(1) d2(2) by (simp add: thenOp_def tryOp_def retOp_def)
  ultimately show ?thesis using w2 w'(2-4) by blast
qed

text \<open>
  A checksum that does not match, on a server without versions: \<open>Assemble\<close> answers a bad request and purges the destination. A file that
  was there before, and that the request was to overwrite, is gone as well, row and content.
\<close>

theorem assemble_mismatch_deletes:
  assumes i: "davInv map_of diskOK a uid usr w" and v: "uploadServer u a uid usr" and up: "uploadAt u uid usr tid s names cs w" and cs: "cs \<noteq> []"
    and len: "usTotalLength s \<le> 0 \<or> usTotalLength s = wrap64 (int (length (concat cs)))"
    and dest: "NormalizePath (if destPath = [] then usDestination s else destPath) = Inr dest" "writableAt usr uid dest w"
    and free: "occupied usr dest w \<longrightarrow> overwrite" and sum: "checksumIs False u checksum (concat cs)"
    and roll: "upRollback u = None" "cleansUp a"
  shows "\<exists>w'. Assemble u muted uid tid uid destPath overwrite mtime checksum [] w = Some (w', Inl ErrBadRequest) \<and> davInv map_of diskOK a uid usr w'
    \<and> map_of (vStorage w') = (map_of (vStorage w))(keyAt uid dest := None) \<and> davStatOp a uid dest w' = Some (w', Inl ErrNotFound)"
proof -
  have p: "aStorage a = localfs" "aIncoming a = None" using v by (auto simp: uploadServer_def)
  have np: "npath dest" "dest \<noteq> ''/''" using dest(2) by (auto simp: writableAt_def)
  obtain w4 where w4: "Assemble u muted uid tid uid destPath overwrite mtime checksum [] w = undoAssemble u a uid dest w4"
      "davInv map_of diskOK a uid usr w4" "map_of (vStorage w4) = (map_of (vStorage w))(keyAt uid dest \<mapsto> DFile (concat cs))" "occupied usr dest w4"
    using assemble_run [OF i v up cs len dest free sum, of muted mtime] by auto
  obtain f where f: "f \<in> set (fcRows (vMeta w4))" "fUserID f = usrID usr" "fPath f = dest" using w4(4) by blast
  have "\<not> fIsDir f" using agreesD(1) [OF davInvD(8) [OF w4(2)] f(1,2)] f(3) w4(3) by auto
  then obtain w' where w': "Purge a uid dest w4 = Some (w', Inr ())" "davInv map_of diskOK a uid usr w'" "map_of (vStorage w') = (map_of (vStorage w4))(keyAt uid dest := None)"
      "list_all2 (recalced (usrID usr)) (fcRows (pruned (usrID usr) dest (vMeta w4))) (fcRows (vMeta w'))"
    using lfs.Purge_file [OF w4(2) p(1) roll(2) f(1,2)] f(3) np(2) by auto
  have "\<not> occupied usr dest w'"
  proof
    assume "occupied usr dest w'"
    then obtain g where g: "g \<in> set (fcRows (vMeta w'))" "fUserID g = usrID usr" "fPath g = dest" by blast
    obtain g0 where "g0 \<in> set (fcRows (pruned (usrID usr) dest (vMeta w4)))" "recalced (usrID usr) g0 g" using recalced_member [OF w'(4) g(1)] by blast
    then show False using g(2,3) skeleton_sel(2,3) [of g g0] by (auto simp: recalced_def pruned_def inTree_def)
  qed
  then have "davStatOp a uid dest w' = Some (w', Inl ErrNotFound)" by (rule lfs.statOp_none [OF w'(2) p(1) np(1) p(2)])
  moreover have "Assemble u muted uid tid uid destPath overwrite mtime checksum [] w = Some (w', Inl ErrBadRequest)"
    using w4(1) w'(1) roll(1) by (simp add: undoAssemble_def tryOp_def failOp_def)
  ultimately show ?thesis using w'(2,3) w4(3) by auto
qed

text \<open>
  A chunk upload whose body breaks off answers the error, and the part that came is on the disk as the whole chunk: the session is exactly
  the one of a client that sent that part. Only a declared total length or a checksum can tell the difference when the chunks are assembled.
\<close>

theorem broken_chunk_kept:
  assumes w: "wiredUploads u uid usr" and i: "uploadAt u uid usr tid s names cs w" and x: "parseChunkName x = Some (int (length cs) + 1)"
  shows "\<exists>w'. uploadWrite u uid (''/'' @ tid @ ''/'' @ x) (part, Some e) mtime w = Some (w', Inl (ErrOther e))
    \<and> uploadAt u uid usr tid s (names @ [x]) (cs @ [part]) w'"
proof -
  obtain D where D: "uploadWrite u uid (''/'' @ tid @ ''/'' @ x) (part, Some e) mtime w = Some (w\<lparr>vStorage := D\<rparr>, Inl (ErrOther e))"
      "diskOK D" "map_of D = (map_of (vStorage w))(chunkDir uid tid @ [x] \<mapsto> DFile part)"
    using uploadWrite_run [OF w i x chunksOn_snoc(1) [OF uploadAtD(5) [OF i] x], of part "Some e" mtime] by auto
  then show ?thesis using uploadAt_snoc [OF i x D(2,3)] by blast
qed

section \<open>A server\<close>

definition demoUploadFiles :: "(disk, unit, uploadTable) davAdapter" where
  "demoUploadFiles = \<lparr>aStorage = localfs, aUsers = (\<lambda>u. if u = ''alice'' then Inr demoUser else Inl UErrNotFound),
     aNow = 9, aSha1 = (\<lambda>s. s), aSha256 = (\<lambda>s. s), aLike = (\<lambda>s p. False), aTrash = None, aVersions = None, aProps = None,
     aLocks = None, aShares = None, aIncoming = None, aRemote = None, aLiveProps = None,
     aSetLiveProp = (\<lambda>h _ _ _ _ _. (h, None)), aEvents = None, aActivity = None\<rparr>"

definition demoUploads :: "(disk, unit, uploadTable) Uploads" where
  "demoUploads = \<lparr>upStorage = localfs, upPart = (\<lambda>h. h), upPut = (\<lambda>t h. t), upFiles = Some demoUploadFiles, upRollback = None,
     upUsers = aUsers demoUploadFiles, upNow = 9, upSha1 = (\<lambda>s. s), upSha256 = (\<lambda>s. s), upMd5 = (\<lambda>s. s)\<rparr>"

abbreviation demoSession :: UploadSession where
  "demoSession \<equiv> \<lparr>usID = 1, usUserID = 1, usTransferID = ''t7'', usDestination = ''/x'', usTotalLength = 0, usCreated = 0\<rparr>"

text \<open>The file \<open>/x\<close>; the second state has a session that is to overwrite it, with two chunks.\<close>

definition demoIdle :: "(disk, unit, uploadTable) davState" where
  "demoIdle = \<lparr>vMeta = demoMeta 0, vStorage = [([], DDir), ([''alice''], DDir), ([''alice'', ''x''], DFile ''abc'')], vLocks = (),
     vHooks = \<lparr>utRows = [], utNext = 1, utDown = None\<rparr>\<rparr>"

definition demoUploading :: "(disk, unit, uploadTable) davState" where
  "demoUploading = \<lparr>vMeta = demoMeta 0, vStorage = [([], DDir), ([''alice''], DDir), ([''alice'', ''x''], DFile ''abc''), ([''uploads''], DDir), ([''uploads'', ''alice''], DDir),
       ([''uploads'', ''alice'', ''t7''], DDir), ([''uploads'', ''alice'', ''t7'', ''1''], DFile ''hel''), ([''uploads'', ''alice'', ''t7'', ''2''], DFile ''lo'')], vLocks = (),
     vHooks = \<lparr>utRows = [demoSession], utNext = 2, utDown = None\<rparr>\<rparr>"

lemma demoUploads_server: "uploadServer demoUploads demoUploadFiles ''alice'' demoUser" "cleansUp demoUploadFiles" "upRollback demoUploads = None"
proof -
  have "plain_seg ''alice''" by code_simp
  then show "uploadServer demoUploads demoUploadFiles ''alice'' demoUser" "cleansUp demoUploadFiles" "upRollback demoUploads = None"
    by (simp_all add: uploadServer_def wiredUploads_def demoUploads_def demoUploadFiles_def quietPart_def cleansUp_def)
qed

lemma demoUploads_inv: "davInv map_of diskOK demoUploadFiles ''alice'' demoUser demoIdle" "davInv map_of diskOK demoUploadFiles ''alice'' demoUser demoUploading"
proof -
  have "diskOK (vStorage demoIdle)" "diskOK (vStorage demoUploading)" by (auto simp: demoIdle_def demoUploading_def diskOK_def split: if_splits)
  then show "davInv map_of diskOK demoUploadFiles ''alice'' demoUser demoIdle" "davInv map_of diskOK demoUploadFiles ''alice'' demoUser demoUploading"
    by (intro demoMeta_davInv; simp add: demoIdle_def demoUploading_def demoUploadFiles_def)+
qed

lemma demo_names: "ValidTransferID ''t7''" "parseChunkName ''1'' = Some 1" "parseChunkName ''2'' = Some 2" "parseChunkName ''3'' = Some 3"
  "NormalizePath ''/x'' = Inr ''/x''" "path_dir ''/x'' = ''/''" "keyAt ''alice'' ''/x'' = [''alice'', ''x'']"
  by code_simp+

lemma demoUploads_at: "uploadAt demoUploads ''alice'' demoUser ''t7'' demoSession [''1'', ''2''] [''hel'', ''lo''] demoUploading"
  using demo_names davInvD(4) [OF demoUploads_inv(2)]
  by (auto simp: uploadAt_def chunksOn_def demoUploading_def demoUploads_def upGet_def upKey_def less_Suc_eq split: if_splits)

lemma demo_writable: "writableAt demoUser ''alice'' ''/x'' demoIdle" "writableAt demoUser ''alice'' ''/x'' demoUploading"
  using demo_names by (auto simp: writableAt_def demoIdle_def demoUploading_def demoMeta_rows demoRow_def)

lemma demo_sums: "checksumIs True demoUploads ''sha1:HELLO'' ''hello''" "checksumIs False demoUploads ''sha1:00'' ''hello''"
proof -
  have "splitChecksum ''sha1:HELLO'' = Some (''SHA1'', ''hello'')" "splitChecksum ''sha1:00'' = Some (''SHA1'', ''00'')"
    "equal_fold ''hello'' ''hello''" "\<not> equal_fold ''hello'' ''00''" by code_simp+
  then show "checksumIs True demoUploads ''sha1:HELLO'' ''hello''" "checksumIs False demoUploads ''sha1:00'' ''hello''"
    by (simp_all add: checksumIs_def checksumHash_def demoUploads_def)
qed

theorem chunked_upload_roundtrip_witness:
  "\<exists>w1 w2 w' e0 e. MkdirMeta demoUploads ''alice'' ''/t7'' \<lparr>cmDestination = ''/x'', cmTotalLength = 5\<rparr> demoIdle = Some (w1, Inr e0)
    \<and> sendChunks demoUploads ''alice'' ''t7'' [(''1'', ''hel''), (''2'', ''lo'')] w1 = Some (w2, Inr ())
    \<and> Assemble demoUploads False ''alice'' ''t7'' ''alice'' [] True None ''sha1:HELLO'' [] w2 = Some (w', Inr e)
    \<and> (\<exists>w3 e3. davReadOp demoUploadFiles ''alice'' ''/x'' w' = Some (w3, Inr (''hello'', e3)))"
proof -
  have f: "freeSession demoUploads demoUser ''t7'' demoIdle" "areaOK (map_of (vStorage demoIdle)) ''uploads'' ''alice''"
    "map_of (vStorage demoIdle) (chunkDir ''alice'' ''t7'') = None"
    by (simp_all add: freeSession_def areaOK_def demoIdle_def demoUploads_def)
  have n: "\<forall>i < length [''hel'', ''lo'']. parseChunkName ([''1'', ''2''] ! i) = Some (int i + 1)" using demo_names by (simp add: less_Suc_eq)
  show ?thesis
    using chunked_upload_roundtrip [OF demoUploads_inv(1) demoUploads_server(1) demo_names(1) f _ _ n, of "\<lparr>cmDestination = ''/x'', cmTotalLength = 5\<rparr>" "''/x''" True "''sha1:HELLO''" False None]
      demo_names demo_writable(1) demo_sums(1) by (simp add: wrap64_def) blast
qed

theorem assemble_mismatch_deletes_witness:
  "map_of (vStorage demoUploading) [''alice'', ''x''] = Some (DFile ''abc'')
   \<and> (\<exists>w'. Assemble demoUploads False ''alice'' ''t7'' ''alice'' [] True None ''sha1:00'' [] demoUploading = Some (w', Inl ErrBadRequest)
     \<and> map_of (vStorage w') [''alice'', ''x''] = None)"
proof -
  have "map_of (vStorage demoUploading) [''alice'', ''x''] = Some (DFile ''abc'')" by (simp add: demoUploading_def)
  then show ?thesis
    using assemble_mismatch_deletes [OF demoUploads_inv(2) demoUploads_server(1) demoUploads_at, of "[]" "''/x''" True "''sha1:00''" False None]
      demoUploads_server(2,3) demo_names demo_writable(2) demo_sums(2) by auto
qed

theorem broken_chunk_kept_witness:
  "\<exists>w'. uploadWrite demoUploads ''alice'' ''/t7/3'' (''!'', Some ''unexpected EOF'') None demoUploading = Some (w', Inl (ErrOther ''unexpected EOF''))
    \<and> uploadAt demoUploads ''alice'' demoUser ''t7'' demoSession [''1'', ''2'', ''3''] [''hel'', ''lo'', ''!''] w'"
proof -
  have w: "wiredUploads demoUploads ''alice'' demoUser" using demoUploads_server(1) by (simp add: uploadServer_def)
  show ?thesis using broken_chunk_kept [OF w demoUploads_at, of "''3''" "''!''" "''unexpected EOF''" None] demo_names(4) by simp
qed

end
