(* ===== verification/Sharing_Store.thy ===== *)
theory Sharing_Store
  imports Files_Props
begin

text \<open>
  The table of shares (\<^verbatim>\<open>src/internal/files/sharestore.go\<close>, \<^verbatim>\<open>src/internal/sharing/sqlstore.go\<close>): one function per statement of
  \<open>SQLShareStore\<close>, and the store as the DAV adapter calls it. The token is a unique key; \<open>LIKE\<close> is a parameter, pattern first.
\<close>

section \<open>Rows\<close>

definition ShareTypeUser :: int where "ShareTypeUser = 0"

definition ShareTypeGroup :: int where "ShareTypeGroup = 1"

definition ShareTypeLink :: int where "ShareTypeLink = 3"

definition ShareTypeRemote :: int where "ShareTypeRemote = 6"

lemmas share_type_defs = ShareTypeUser_def ShareTypeGroup_def ShareTypeLink_def ShareTypeRemote_def

record Share =
  srID :: int
  srOwner :: int
  srType :: int
  srPath :: string
  srItemType :: string
  srToken :: string
  srHash :: string
  srPermissions :: int
  srLabel :: string
  srExpireMs :: int
  srStimeMs :: int
  srWith :: string
  srAccepted :: int
  srMountNameEnc :: string
  srAbsPathEnc :: string

record shareTable =
  stRows :: "Share list"
  stNext :: int
  stDown :: "string option"

definition shareQuery :: "string \<Rightarrow> shareTable \<Rightarrow> (Share \<Rightarrow> bool) \<Rightarrow> Share list files_result" where
  "shareQuery op d P = (case stDown d of Some e \<Rightarrow> Inl (dbError op e) | None \<Rightarrow> Inr (sort_key srID (filter P (stRows d))))"

definition shareExec :: "string \<Rightarrow> shareTable \<Rightarrow> (Share list \<Rightarrow> Share list) \<Rightarrow> shareTable \<times> unit files_result" where
  "shareExec op d f = (case stDown d of Some e \<Rightarrow> (d, Inl (dbError op e)) | None \<Rightarrow> (d\<lparr>stRows := f (stRows d)\<rparr>, Inr ()))"

section \<open>Reading\<close>

definition shareRow :: "shareTable \<Rightarrow> (Share \<Rightarrow> bool) \<Rightarrow> Share files_result" where
  "shareRow d P = (case stDown d of
      Some e \<Rightarrow> Inl (dbError ''sharing: scan'' e)
    | None \<Rightarrow> (case find P (stRows d) of None \<Rightarrow> Inl FErrNotFound | Some r \<Rightarrow> Inr r))"

definition shareGetByID :: "shareTable \<Rightarrow> int \<Rightarrow> Share files_result" where
  "shareGetByID d i = (if i = 0 then Inl FErrNotFound else shareRow d (\<lambda>r. srID r = i))"

definition shareGetByToken :: "shareTable \<Rightarrow> string \<Rightarrow> Share files_result" where
  "shareGetByToken d tok = (if tok = [] then Inl FErrNotFound else shareRow d (\<lambda>r. srToken r = tok))"

definition shareListByOwner :: "shareTable \<Rightarrow> int \<Rightarrow> string \<Rightarrow> Share list files_result" where
  "shareListByOwner d owner pathFilter =
     (if owner = 0 then Inr []
      else if pathFilter \<noteq> [] then (case NormalizePath pathFilter of
          Inl e \<Rightarrow> Inl e
        | Inr np \<Rightarrow> shareQuery ''sharing: list'' d (\<lambda>r. srOwner r = owner \<and> srPath r = np))
      else shareQuery ''sharing: list'' d (\<lambda>r. srOwner r = owner))"

definition shareListBySharee :: "shareTable \<Rightarrow> string \<Rightarrow> string list \<Rightarrow> Share list files_result" where
  "shareListBySharee d shareWith gids =
     (if shareWith = [] \<and> gids = [] then Inr []
      else shareQuery ''sharing: list sharee'' d (\<lambda>r. srAccepted r = 1
        \<and> (shareWith \<noteq> [] \<and> srType r = ShareTypeUser \<and> srWith r = shareWith \<or> gids \<noteq> [] \<and> srType r = ShareTypeGroup \<and> srWith r \<in> set gids)))"

text \<open>The path itself and its ancestors, up to the root.\<close>

function ancestorPaths :: "string \<Rightarrow> string list" where
  "ancestorPaths p = (if p = ''/'' then [''/''] else if length (path_dir p) < length p then p # ancestorPaths (path_dir p) else [p])"
  by pat_completeness auto
termination by (relation "measure length") auto

declare ancestorPaths.simps [simp del]

definition Covering :: "shareTable \<Rightarrow> int \<Rightarrow> string \<Rightarrow> Share list files_result" where
  "Covering d owner filePath =
     (if owner = 0 then Inr []
      else case NormalizePath filePath of
          Inl e \<Rightarrow> Inl e
        | Inr np \<Rightarrow> shareQuery ''sharing: list covering'' d (\<lambda>r. srOwner r = owner \<and> (srType r = ShareTypeUser \<or> srType r = ShareTypeGroup) \<and> srPath r \<in> set (ancestorPaths np)))"

definition ForGroup :: "shareTable \<Rightarrow> string \<Rightarrow> Share list files_result" where
  "ForGroup d gid = (if gid = [] then Inr [] else shareQuery ''sharing: list group shares'' d (\<lambda>r. srType r = ShareTypeGroup \<and> srWith r = gid))"

definition expiredAt :: "int \<Rightarrow> Share \<Rightarrow> bool" where
  "expiredAt nowMs r \<longleftrightarrow> srExpireMs r > 0 \<and> srExpireMs r \<le> nowMs"

definition shareListExpired :: "shareTable \<Rightarrow> int \<Rightarrow> Share list files_result" where
  "shareListExpired d nowMs = shareQuery ''sharing: list expired'' d (expiredAt nowMs)"

definition shareBelow :: "(string \<Rightarrow> string \<Rightarrow> bool) \<Rightarrow> int \<Rightarrow> string \<Rightarrow> Share \<Rightarrow> bool" where
  "shareBelow like owner np r \<longleftrightarrow> srOwner r = owner \<and> (srPath r = np \<or> like (likeBelow np) (srPath r))"

definition shareListByPrefix :: "(string \<Rightarrow> string \<Rightarrow> bool) \<Rightarrow> shareTable \<Rightarrow> int \<Rightarrow> string \<Rightarrow> Share list files_result" where
  "shareListByPrefix like d owner filePath = (case NormalizePath filePath of
      Inl e \<Rightarrow> Inl e
    | Inr np \<Rightarrow> (case stDown d of
        Some e \<Rightarrow> Inl (dbError ''sharing: list prefix'' e)
      | None \<Rightarrow> Inr (sort_key srPath (filter (shareBelow like owner np) (stRows d)))))"

section \<open>Changing\<close>

definition shareInsert :: "shareTable \<Rightarrow> Share \<Rightarrow> shareTable \<times> Share files_result" where
  "shareInsert d sh0 =
     (if srOwner sh0 = 0 \<or> srToken sh0 = [] then (d, Inl (FErrOther ''sharing: invalid share''))
      else case NormalizePath (srPath sh0) of
          Inl e \<Rightarrow> (d, Inl e)
        | Inr np \<Rightarrow>
            (let sh = sh0\<lparr>srPath := np, srAccepted := (if srAccepted sh0 = 0 then 1 else srAccepted sh0)\<rparr> in
             case stDown d of
               Some e \<Rightarrow> (d, Inl (dbError ''sharing: insert'' e))
             | None \<Rightarrow>
                 if list_ex (\<lambda>r. srToken r = srToken sh) (stRows d) then (d, Inl FErrExists)
                 else (let d1 = d\<lparr>stRows := stRows d @ [sh\<lparr>srID := stNext d\<rparr>], stNext := stNext d + 1\<rparr> in (d1, shareGetByToken d1 (srToken sh)))))"

definition shareUpdate :: "shareTable \<Rightarrow> Share \<Rightarrow> shareTable \<times> unit files_result" where
  "shareUpdate d sh =
     (if srID sh = 0 then (d, Inl (FErrOther ''sharing: invalid share''))
      else shareExec ''sharing: update'' d (map (\<lambda>r. if srID r = srID sh
        then r\<lparr>srHash := srHash sh, srPermissions := srPermissions sh, srLabel := srLabel sh, srExpireMs := srExpireMs sh\<rparr> else r)))"

definition UpdateEncFields :: "shareTable \<Rightarrow> int \<Rightarrow> string \<Rightarrow> string \<Rightarrow> shareTable \<times> unit files_result" where
  "UpdateEncFields d i mountNameEnc absPathEnc =
     (if i = 0 then (d, Inl (FErrOther ''sharing: invalid share''))
      else shareExec ''sharing: update enc fields'' d (map (\<lambda>r. if srID r = i then r\<lparr>srMountNameEnc := mountNameEnc, srAbsPathEnc := absPathEnc\<rparr> else r)))"

definition shareDelete :: "shareTable \<Rightarrow> int \<Rightarrow> shareTable \<times> unit files_result" where
  "shareDelete d i = (if i = 0 then (d, Inr ()) else shareExec ''sharing: delete'' d (filter (\<lambda>r. srID r \<noteq> i)))"

text \<open>Selection and deletion are one transaction.\<close>

definition shareDeleteExpired :: "shareTable \<Rightarrow> int \<Rightarrow> shareTable \<times> int list files_result" where
  "shareDeleteExpired d nowMs = (case stDown d of
      Some e \<Rightarrow> (d, Inl (dbError ''sharing: expire: begin'' e))
    | None \<Rightarrow> (d\<lparr>stRows := filter (\<lambda>r. \<not> expiredAt nowMs r) (stRows d)\<rparr>, Inr (map srID (filter (expiredAt nowMs) (stRows d)))))"

definition shareDeleteByPath :: "(string \<Rightarrow> string \<Rightarrow> bool) \<Rightarrow> shareTable \<Rightarrow> int \<Rightarrow> string \<Rightarrow> shareTable \<times> unit files_result" where
  "shareDeleteByPath like d owner filePath = (case NormalizePath filePath of
      Inl e \<Rightarrow> (d, Inl e)
    | Inr np \<Rightarrow> shareExec ''sharing: delete path'' d (filter (\<lambda>r. \<not> shareBelow like owner np r)))"

definition shareRenameRows :: "string \<Rightarrow> string \<Rightarrow> Share list \<Rightarrow> Share list \<Rightarrow> Share list" where
  "shareRenameRows src dst items rows = map (\<lambda>r. case find (\<lambda>i. srID i = srID r) items of None \<Rightarrow> r | Some i \<Rightarrow> r\<lparr>srPath := movedPath src dst (srPath i)\<rparr>) rows"

definition shareRenamePath :: "(string \<Rightarrow> string \<Rightarrow> bool) \<Rightarrow> shareTable \<Rightarrow> int \<Rightarrow> string \<Rightarrow> string \<Rightarrow> shareTable \<times> unit files_result" where
  "shareRenamePath like d owner srcPath dstPath = (case NormalizePath srcPath of
      Inl e \<Rightarrow> (d, Inl e)
    | Inr src \<Rightarrow> (case NormalizePath dstPath of
        Inl e \<Rightarrow> (d, Inl e)
      | Inr dst \<Rightarrow> (case shareListByPrefix like d owner src of
          Inl e \<Rightarrow> (d, Inl e)
        | Inr items \<Rightarrow> (d\<lparr>stRows := shareRenameRows src dst items (stRows d)\<rparr>, Inr ()))))"

section \<open>The store of the adapter\<close>

definition NewSQLShareStore :: "(string \<Rightarrow> string \<Rightarrow> bool) \<Rightarrow> ('h \<Rightarrow> shareTable) \<Rightarrow> (shareTable \<Rightarrow> 'h \<Rightarrow> 'h) \<Rightarrow> 'h ShareStore" where
  "NewSQLShareStore like get put = \<lparr>
     shDeleteByPath = (\<lambda>h u p. unitErr (onPart get put (\<lambda>d. shareDeleteByPath like d u p) h)),
     shRenamePath = (\<lambda>h u src dst. unitErr (onPart get put (\<lambda>d. shareRenamePath like d u src dst) h))\<rparr>"

end
