(* ===== verification/Sharing_Date.thy ===== *)
theory Sharing_Date
  imports Go_Base
begin

text \<open>
  The expiry dates of shares (\<open>parseExpireDate\<close> of \<^verbatim>\<open>src/internal/sharing/service.go\<close>): \<open>time.ParseInLocation\<close> in UTC for its two
  layouts, in milliseconds since 1970.
\<close>

section \<open>The calendar\<close>

definition leapYear :: "int \<Rightarrow> bool" where
  "leapYear y \<longleftrightarrow> y mod 4 = 0 \<and> (y mod 100 \<noteq> 0 \<or> y mod 400 = 0)"

definition daysIn :: "int \<Rightarrow> int \<Rightarrow> int" where
  "daysIn y m = (if m = 2 then (if leapYear y then 29 else 28) else if m \<in> {4, 6, 9, 11} then 30 else 31)"

text \<open>Days since the first of January of the year 1, and since 1970.\<close>

definition yearDays :: "int \<Rightarrow> int" where
  "yearDays y = 365 * (y - 1) + (y - 1) div 4 - (y - 1) div 100 + (y - 1) div 400"

definition civilDays :: "int \<Rightarrow> int \<Rightarrow> int \<Rightarrow> int" where
  "civilDays y m d = yearDays y + sum_list (map (daysIn y) [1..m - 1]) + (d - 1) - 719162"

section \<open>Parsing\<close>

definition fixedNum :: "nat \<Rightarrow> string \<Rightarrow> (int \<times> string) option" where
  "fixedNum n s = (if length s \<ge> n \<and> list_all is_digit (take n s) then Some (dec_val (take n s), drop n s) else None)"

definition shortNum :: "string \<Rightarrow> (int \<times> string) option" where
  "shortNum s = (case fixedNum 2 s of Some r \<Rightarrow> Some r | None \<Rightarrow> fixedNum 1 s)"

definition literal :: "char \<Rightarrow> string \<Rightarrow> string option" where
  "literal c s = (case s of [] \<Rightarrow> None | x # xs \<Rightarrow> if x = c then Some xs else None)"

definition parseDay :: "string \<Rightarrow> (int \<times> string) option" where
  "parseDay s =
     Option.bind (fixedNum 4 s) (\<lambda>(y, s). Option.bind (literal (CHR ''-'') s) (\<lambda>s.
     Option.bind (fixedNum 2 s) (\<lambda>(m, s). Option.bind (literal (CHR ''-'') s) (\<lambda>s.
     Option.bind (fixedNum 2 s) (\<lambda>(d, s).
       if 1 \<le> m \<and> m \<le> 12 \<and> 1 \<le> d \<and> d \<le> daysIn y m then Some (civilDays y m d, s) else None)))))"

text \<open>A blank in the layout stands for blanks; a fraction may follow the seconds.\<close>

definition fraction :: "string \<Rightarrow> int \<times> string" where
  "fraction s = (case s of
      c # x # _ \<Rightarrow>
        if (c = CHR ''.'' \<or> c = CHR '','') \<and> is_digit x then
          (let ds = takeWhile is_digit (tl s); v = take 9 ds
           in (dec_val v * 10 ^ (9 - length v), dropWhile is_digit (tl s)))
        else (0, s)
    | _ \<Rightarrow> (0, s))"

definition parseClock :: "string \<Rightarrow> int option" where
  "parseClock s =
     Option.bind (literal (CHR '' '') s) (\<lambda>s.
     Option.bind (shortNum (dropWhile (\<lambda>c. c = CHR '' '') s)) (\<lambda>(h, s). Option.bind (literal (CHR '':'') s) (\<lambda>s.
     Option.bind (fixedNum 2 s) (\<lambda>(mi, s). Option.bind (literal (CHR '':'') s) (\<lambda>s.
     Option.bind (fixedNum 2 s) (\<lambda>(sec, s).
       (case fraction s of (ns, rest) \<Rightarrow>
          if h < 24 \<and> mi < 60 \<and> sec < 60 \<and> rest = [] then Some ((3600 * h + 60 * mi + sec) * 1000 + ns div 1000000) else None)))))))"

definition parseExpireDate :: "string \<Rightarrow> int option" where
  "parseExpireDate raw0 =
     (let raw = trim_space raw0 in
      if raw = [] then Some 0
      else case Option.bind (parseDay raw) (\<lambda>(day, s). map_option (\<lambda>t. day * 86400000 + t) (parseClock s)) of
          Some t \<Rightarrow> Some t
        | None \<Rightarrow> Option.bind (parseDay raw) (\<lambda>(day, s). if s = [] then Some (day * 86400000 + 86399000) else None))"

end
