(* ===== verification/Sharing_Service.thy ===== *)
theory Sharing_Service
  imports Sharing_Store Sharing_Date
begin

text \<open>
  The share service (\<^verbatim>\<open>src/internal/sharing/service.go\<close>, \<^verbatim>\<open>expire.go\<close>, \<^verbatim>\<open>public.go\<close>) without file name encryption, where \<open>NameCodec\<close>
  is nil. The user directory, the password hasher, the client for other servers, the notification store and the hook for file keys
  are fields of the record of the service; what fails in the last two is only logged, so that they change the state of the
  services and return nothing. The table of shares is a part of that state.
\<close>

section \<open>The service\<close>

datatype share_error =
    ErrBadShareType | ErrBadPermissions | ErrBadExpire | ErrBadShareWith | ErrUnauthorized | ErrFederate
  | ShareFiles files_error | ShareDav fs_error | ShareUsers users_error | ShareOther string

record ShareUser =
  suID :: int
  suUID :: string
  suDisplayName :: string

record ShareUsers =
  suGetByUID :: "string \<Rightarrow> users_error + ShareUser"
  suGetByID :: "int \<Rightarrow> users_error + ShareUser"
  suGroupName :: "string \<Rightarrow> users_error + string"
  suGroupGIDs :: "string \<Rightarrow> users_error + string list"
  suGroupMembers :: "string \<Rightarrow> users_error + string list"

record richParam =
  rpType :: string
  rpID :: string
  rpName :: string

record Notification =
  ntUserID :: int
  ntUserUID :: string
  ntObjectID :: string
  ntSubject :: string
  ntSubjectRich :: string
  ntParams :: "(string \<times> richParam) list"
  ntCreated :: int

record 'h ShareNotifier =
  snInsert :: "'h \<Rightarrow> Notification \<Rightarrow> 'h"
  snDeleteByObject :: "'h \<Rightarrow> string \<Rightarrow> string \<Rightarrow> 'h"

record 'h ShareKeys =
  skWrap :: "'h \<Rightarrow> Share \<Rightarrow> 'h"
  skUnwrap :: "'h \<Rightarrow> Share \<Rightarrow> 'h"

record OutgoingNotice =
  onShareWith :: string
  onName :: string
  onProviderID :: string
  onOwner :: string
  onResourceType :: string
  onToken :: string
  onPermissions :: int

record 'h OCMClient =
  ocDiscover :: "'h \<Rightarrow> string \<Rightarrow> string option"
  ocNotifyOutgoing :: "'h \<Rightarrow> string \<Rightarrow> OutgoingNotice \<Rightarrow> 'h \<times> bool"
  ocNotifyUnshare :: "'h \<Rightarrow> string \<Rightarrow> string \<Rightarrow> string \<Rightarrow> 'h"

record PasswordHasher =
  phHash :: "string \<Rightarrow> string + string"
  phVerify :: "string \<Rightarrow> string \<Rightarrow> string + bool"

record ('s, 'd, 'h) Service =
  svPart :: "'h \<Rightarrow> shareTable"
  svPut :: "shareTable \<Rightarrow> 'h \<Rightarrow> 'h"
  svFiles :: "('s, 'd, 'h) davAdapter"
  svUsers :: ShareUsers
  svHasher :: "PasswordHasher option"
  svNow :: int
  svToken :: "string + string"
  svOCM :: "'h OCMClient option"
  svNotifs :: "'h ShareNotifier option"
  svKeys :: "'h ShareKeys option"
  svHost :: "string \<Rightarrow> string option"

type_synonym ('s, 'd, 'h, 'a) share_op = "('s, 'd, 'h) davState \<Rightarrow> (('s, 'd, 'h) davState \<times> (share_error + 'a)) option"

definition retS :: "'a \<Rightarrow> ('s, 'd, 'h, 'a) share_op" where
  "retS x = (\<lambda>w. Some (w, Inr x))"

definition failS :: "share_error \<Rightarrow> ('s, 'd, 'h, 'a) share_op" where
  "failS e = (\<lambda>w. Some (w, Inl e))"

definition liftS :: "share_error + 'a \<Rightarrow> ('s, 'd, 'h, 'a) share_op" where
  "liftS r = (\<lambda>w. Some (w, r))"

definition bindS :: "('s, 'd, 'h, 'a) share_op \<Rightarrow> ('a \<Rightarrow> ('s, 'd, 'h, 'b) share_op) \<Rightarrow> ('s, 'd, 'h, 'b) share_op" where
  "bindS m k = (\<lambda>w. case m w of None \<Rightarrow> None | Some (w', r) \<Rightarrow> (case r of Inl e \<Rightarrow> Some (w', Inl e) | Inr x \<Rightarrow> k x w'))"

definition tableS :: "('s, 'd, 'h) Service \<Rightarrow> (shareTable \<Rightarrow> shareTable \<times> 'a files_result) \<Rightarrow> ('s, 'd, 'h, 'a) share_op" where
  "tableS s f = (\<lambda>w. case onPart (svPart s) (svPut s) f (vHooks w) of (h, r) \<Rightarrow> Some (w\<lparr>vHooks := h\<rparr>, map_sum ShareFiles (\<lambda>x. x) r))"

definition queryS :: "('s, 'd, 'h) Service \<Rightarrow> (shareTable \<Rightarrow> 'a files_result) \<Rightarrow> ('s, 'd, 'h, 'a) share_op" where
  "queryS s f = (\<lambda>w. Some (w, map_sum ShareFiles (\<lambda>x. x) (f (svPart s (vHooks w)))))"

definition effectS :: "('h \<Rightarrow> 'h) \<Rightarrow> ('s, 'd, 'h, unit) share_op" where
  "effectS f = (\<lambda>w. Some (w\<lparr>vHooks := f (vHooks w)\<rparr>, Inr ()))"

definition davS :: "('s, 'd, 'h, 'a) dav_op \<Rightarrow> ('s, 'd, 'h, 'a result) share_op" where
  "davS m = (\<lambda>w. case m w of None \<Rightarrow> None | Some (w', r) \<Rightarrow> Some (w', Inr r))"

definition nowMs :: "('s, 'd, 'h) Service \<Rightarrow> int" where
  "nowMs s = unix_milli (svNow s)"

section \<open>Tokens\<close>

definition tokenAlphabet :: string where
  "tokenAlphabet = ''abcdefghijklmnopqrstuvwxyz0123456789''"

text \<open>The reads of the random source, one byte each or an error.\<close>

fun tokenLoop :: "nat \<Rightarrow> (string + char) list \<Rightarrow> string + string" where
  "tokenLoop 0 reads = Inr []"
| "tokenLoop (Suc n) [] = Inl ''EOF''"
| "tokenLoop (Suc n) (r # reads) = (case r of
      Inl e \<Rightarrow> Inl e
    | Inr b \<Rightarrow> map_sum (\<lambda>e. e) (\<lambda>t. tokenAlphabet ! (of_char b mod 36) # t) (tokenLoop n reads))"

definition randomShareToken :: "(string + char) list \<Rightarrow> string + string" where
  "randomShareToken reads = tokenLoop 15 reads"

section \<open>Expiry, notifications and keys\<close>

definition shareNotifObjectID :: "int \<Rightarrow> string" where
  "shareNotifObjectID i = ''ocinternal:'' @ int_to_dec i"

definition dismissShareNotifications :: "('s, 'd, 'h) Service \<Rightarrow> int \<Rightarrow> ('s, 'd, 'h, unit) share_op" where
  "dismissShareNotifications s i = (case svNotifs s of None \<Rightarrow> retS () | Some n \<Rightarrow> effectS (\<lambda>h. snDeleteByObject n h ''share'' (shareNotifObjectID i)))"

definition wrapShareKeys :: "('s, 'd, 'h) Service \<Rightarrow> Share \<Rightarrow> ('s, 'd, 'h, unit) share_op" where
  "wrapShareKeys s sh = (case svKeys s of None \<Rightarrow> retS () | Some k \<Rightarrow> effectS (\<lambda>h. skWrap k h sh))"

definition unwrapShareKeys :: "('s, 'd, 'h) Service \<Rightarrow> Share \<Rightarrow> ('s, 'd, 'h, unit) share_op" where
  "unwrapShareKeys s sh = (case svKeys s of None \<Rightarrow> retS () | Some k \<Rightarrow> effectS (\<lambda>h. skUnwrap k h sh))"

definition expireIfNeeded :: "('s, 'd, 'h) Service \<Rightarrow> Share \<Rightarrow> ('s, 'd, 'h, bool) share_op" where
  "expireIfNeeded s sh =
     (if srExpireMs sh = 0 \<or> srExpireMs sh > nowMs s then retS False
      else bindS (tableS s (\<lambda>d. shareDelete d (srID sh))) (\<lambda>_.
        bindS (dismissShareNotifications s (srID sh)) (\<lambda>_.
        bindS (unwrapShareKeys s sh) (\<lambda>_. retS True))))"

definition ownerOf :: "('s, 'd, 'h) Service \<Rightarrow> string \<Rightarrow> share_error + ShareUser" where
  "ownerOf s uid = (case suGetByUID (svUsers s) uid of
      Inl e \<Rightarrow> Inl (if e = UErrNotFound then ShareFiles FErrNotFound else ShareUsers e)
    | Inr u \<Rightarrow> Inr u)"

definition userName :: "ShareUser \<Rightarrow> string" where
  "userName u = (if suDisplayName u = [] then suUID u else suDisplayName u)"

primrec notifyAll :: "'h ShareNotifier \<Rightarrow> Notification list \<Rightarrow> ('s, 'd, 'h, unit) share_op" where
  "notifyAll n [] = retS ()"
| "notifyAll n (x # xs) = bindS (effectS (\<lambda>h. snInsert n h x)) (\<lambda>_. notifyAll n xs)"

definition notifyShareCreated :: "('s, 'd, 'h) Service \<Rightarrow> ShareUser \<Rightarrow> Share \<Rightarrow> string \<Rightarrow> ('s, 'd, 'h, unit) share_op" where
  "notifyShareCreated s owner sh plainPath = (case svNotifs s of
      None \<Rightarrow> retS ()
    | Some n \<Rightarrow>
        (let objectID = shareNotifObjectID (srID sh); sharer = userName owner;
             base = [(''share'', \<lparr>rpType = ''highlight'', rpID = objectID, rpName = plainPath\<rparr>), (''user'', \<lparr>rpType = ''user'', rpID = suUID owner, rpName = sharer\<rparr>)];
             note = (\<lambda>subject template params r. \<lparr>ntUserID = suID r, ntUserUID = suUID r, ntObjectID = objectID, ntSubject = subject,
               ntSubjectRich = template, ntParams = params, ntCreated = svNow s\<rparr>) in
         if srType sh = ShareTypeUser then (case suGetByUID (svUsers s) (srWith sh) of
             Inl _ \<Rightarrow> retS ()
           | Inr r \<Rightarrow> notifyAll n [note (''You received '' @ plainPath @ '' as a share by '' @ sharer) ''You received {share} as a share by {user}'' base r])
         else if srType sh = ShareTypeGroup then
           (let gid = srWith sh;
                gname = (case suGroupName (svUsers s) gid of Inl _ \<Rightarrow> gid | Inr g \<Rightarrow> if g = [] then gid else g);
                params = (''group'', \<lparr>rpType = ''user-group'', rpID = gid, rpName = gname\<rparr>) # base in
            case suGroupMembers (svUsers s) gid of
              Inl _ \<Rightarrow> retS ()
            | Inr members \<Rightarrow> notifyAll n (map (note (''You received '' @ plainPath @ '' to group '' @ gid @ '' as a share by '' @ sharer)
                ''You received {share} to group {group} as a share by {user}'' params)
                (concat (map (\<lambda>m. if m = suUID owner then [] else case suGetByUID (svUsers s) m of Inl _ \<Rightarrow> [] | Inr r \<Rightarrow> [r]) members))))
         else retS ()))"

section \<open>Federation\<close>

definition SplitCloudID :: "string \<Rightarrow> string \<times> string" where
  "SplitCloudID cid =
     (let s = trim_space cid in
      case last_index_byte s (CHR ''@'') of
        None \<Rightarrow> ([], [])
      | Some i \<Rightarrow> if i = 0 \<or> i = length s - 1 then ([], []) else (take i s, drop (Suc i) s))"

definition containsSub :: "string \<Rightarrow> string \<Rightarrow> bool" where
  "containsSub s t \<longleftrightarrow> list_ex (\<lambda>i. has_prefix (drop i s) t) [0..<Suc (length s)]"

definition NormalizeOrigin :: "string \<Rightarrow> string" where
  "NormalizeOrigin remote =
     (let r = trim_space (trim_right_set remote ''/'') in
      if r = [] then [] else if containsSub r ''://'' then r else ''https://'' @ r)"

definition sameHTTPHost :: "(string \<Rightarrow> string option) \<Rightarrow> string \<Rightarrow> string \<Rightarrow> bool" where
  "sameHTTPHost host a b = (case (host a, host b) of
      (Some ha, Some hb) \<Rightarrow> ha \<noteq> [] \<and> hb \<noteq> [] \<and> equal_fold ha hb
    | _ \<Rightarrow> False)"

definition notifyRemote :: "('s, 'd, 'h) Service \<Rightarrow> ShareUser \<Rightarrow> Share \<Rightarrow> string \<Rightarrow> string \<Rightarrow> ('s, 'd, 'h, unit) share_op" where
  "notifyRemote s owner sh plainPath origin = (case svOCM s of
      None \<Rightarrow> failS ErrFederate
    | Some oc \<Rightarrow> (\<lambda>w. case ocDiscover oc (vHooks w) (NormalizeOrigin (snd (SplitCloudID (srWith sh)))) of
        None \<Rightarrow> Some (w, Inl ErrFederate)
      | Some endPoint \<Rightarrow>
          (case ocNotifyOutgoing oc (vHooks w) endPoint \<lparr>onShareWith = srWith sh, onName = path_base plainPath, onProviderID = int_to_dec (srID sh),
              onOwner = (if origin \<noteq> [] then suUID owner @ ''@'' @ origin else suUID owner),
              onResourceType = (if srItemType sh = [] then ''file'' else srItemType sh), onToken = srToken sh, onPermissions = srPermissions sh\<rparr> of
             (h, ok) \<Rightarrow> Some (w\<lparr>vHooks := h\<rparr>, if ok then Inr () else Inl ErrFederate))))"

definition notifyUnshare :: "('s, 'd, 'h) Service \<Rightarrow> Share \<Rightarrow> ('s, 'd, 'h, unit) share_op" where
  "notifyUnshare s sh = (case svOCM s of
      None \<Rightarrow> retS ()
    | Some oc \<Rightarrow> (\<lambda>w. case ocDiscover oc (vHooks w) (NormalizeOrigin (snd (SplitCloudID (srWith sh)))) of
        None \<Rightarrow> Some (w, Inr ())
      | Some endPoint \<Rightarrow> Some (w\<lparr>vHooks := ocNotifyUnshare oc (vHooks w) endPoint (int_to_dec (srID sh)) (srToken sh)\<rparr>, Inr ())))"

section \<open>Creating\<close>

text \<open>Permissions as the bits of \<^verbatim>\<open>davutil.go\<close>: of a file only reading, of a directory any but sharing.\<close>

definition validSharePerms :: "string \<Rightarrow> int \<Rightarrow> bool" where
  "validSharePerms itemType perms \<longleftrightarrow>
     (if itemType = ''file'' then perms = PermRead else 0 < perms \<and> perms \<le> PermRead + PermUpdate + PermCreate + PermDelete)"

definition checkSharee :: "('s, 'd, 'h) Service \<Rightarrow> string \<Rightarrow> int \<Rightarrow> string \<Rightarrow> string \<Rightarrow> share_error + unit" where
  "checkSharee s uid shareType shareWith origin =
     (if shareType = ShareTypeUser then
        (if shareWith = [] \<or> shareWith = uid then Inl ErrBadShareWith
         else case suGetByUID (svUsers s) shareWith of Inl _ \<Rightarrow> Inl ErrBadShareWith | Inr _ \<Rightarrow> Inr ())
      else if shareType = ShareTypeGroup then
        (if shareWith = [] then Inl ErrBadShareWith
         else case suGroupName (svUsers s) shareWith of Inl _ \<Rightarrow> Inl ErrBadShareWith | Inr _ \<Rightarrow> Inr ())
      else if shareType = ShareTypeRemote then
        (case SplitCloudID shareWith of (ruid, rhost) \<Rightarrow>
           if ruid = [] \<or> rhost = [] then Inl ErrBadShareWith
           else if origin \<noteq> [] \<and> sameHTTPHost (svHost s) origin (NormalizeOrigin rhost) then Inl ErrBadShareWith
           else Inr ())
      else Inr ())"

definition hashS :: "('s, 'd, 'h) Service \<Rightarrow> string \<Rightarrow> share_error + string" where
  "hashS s password =
     (if password = [] then Inr []
      else case svHasher s of
          None \<Rightarrow> Inl (ShareOther ''sharing: hasher required'')
        | Some h \<Rightarrow> map_sum ShareOther (\<lambda>x. x) (phHash h password))"

definition expireS :: "string \<Rightarrow> share_error + int" where
  "expireS raw = (case parseExpireDate raw of None \<Rightarrow> Inl ErrBadExpire | Some ms \<Rightarrow> Inr ms)"

text \<open>The part of \<open>Create\<close> from the insertion on. When the row of a refused federated share cannot be deleted, the joined error still is \<open>errFederate\<close>.\<close>

definition createCommit :: "('s, 'd, 'h) Service \<Rightarrow> ShareUser \<Rightarrow> Share \<Rightarrow> string \<Rightarrow> string \<Rightarrow> ('s, 'd, 'h, Share) share_op" where
  "createCommit s u sh0 np origin =
     bindS (tableS s (\<lambda>d. shareInsert d sh0)) (\<lambda>sh.
     bindS (if srType sh = ShareTypeRemote then (\<lambda>w. case notifyRemote s u sh np origin w of
         None \<Rightarrow> None
       | Some (w', Inr _) \<Rightarrow> Some (w', Inr ())
       | Some (w', Inl e) \<Rightarrow> (case tableS s (\<lambda>d. shareDelete d (srID sh)) w' of None \<Rightarrow> None | Some (w'', _) \<Rightarrow> Some (w'', Inl e))) else retS ()) (\<lambda>_.
     bindS (if srType sh = ShareTypeUser \<or> srType sh = ShareTypeGroup
       then bindS (notifyShareCreated s u sh np) (\<lambda>_. wrapShareKeys s sh) else retS ()) (\<lambda>_.
     retS sh)))"

definition newShare :: "('s, 'd, 'h) Service \<Rightarrow> ShareUser \<Rightarrow> int \<Rightarrow> string \<Rightarrow> string \<Rightarrow> string \<Rightarrow> string \<Rightarrow> int \<Rightarrow> string \<Rightarrow> int \<Rightarrow> string \<Rightarrow> Share" where
  "newShare s u shareType np itemType tok hash perms label expire shareWith =
     \<lparr>srID = 0, srOwner = suID u, srType = shareType, srPath = np, srItemType = itemType, srToken = tok,
       srHash = (if shareType = ShareTypeLink then hash else []), srPermissions = perms, srLabel = label, srExpireMs = expire, srStimeMs = nowMs s,
       srWith = (if shareType = ShareTypeLink then [] else shareWith), srAccepted = 1, srMountNameEnc = [], srAbsPathEnc = []\<rparr>"

definition shareCreate ::
  "('s, 'd, 'h) Service \<Rightarrow> string \<Rightarrow> string \<Rightarrow> int \<Rightarrow> int \<Rightarrow> string \<Rightarrow> string \<Rightarrow> string \<Rightarrow> string \<Rightarrow> string \<Rightarrow> ('s, 'd, 'h, Share) share_op" where
  "shareCreate s uid pathName shareType permissions shareWith password expireDate label origin =
     (if shareType \<noteq> ShareTypeLink \<and> shareType \<noteq> ShareTypeUser \<and> shareType \<noteq> ShareTypeGroup \<and> shareType \<noteq> ShareTypeRemote then failS ErrBadShareType
      else bindS (liftS (ownerOf s uid)) (\<lambda>u.
        bindS (liftS (checkSharee s uid shareType shareWith origin)) (\<lambda>_.
        case NormalizePath pathName of
          Inl e \<Rightarrow> failS (ShareFiles e)
        | Inr np \<Rightarrow>
            bindS (davS (davStatOp (svFiles s) uid np)) (\<lambda>st. case st of
              Inl e \<Rightarrow> failS (if e = ErrNotFound then ShareFiles FErrNotFound else ShareDav e)
            | Inr ent \<Rightarrow>
                (let itemType = (if eIsDir ent then ''folder'' else ''file''); perms = (if permissions = 0 then PermRead else permissions) in
                 if \<not> validSharePerms itemType perms then failS ErrBadPermissions
                 else bindS (liftS (map_sum ShareOther (\<lambda>x. x) (svToken s))) (\<lambda>tok.
                   bindS (liftS (hashS s password)) (\<lambda>hash.
                   bindS (liftS (expireS expireDate)) (\<lambda>expire.
                   createCommit s u (newShare s u shareType np itemType tok hash perms label expire shareWith) np origin))))))))"

section \<open>The shares of an owner\<close>

definition GetForOwner :: "('s, 'd, 'h) Service \<Rightarrow> string \<Rightarrow> int \<Rightarrow> ('s, 'd, 'h, Share) share_op" where
  "GetForOwner s uid i =
     bindS (liftS (ownerOf s uid)) (\<lambda>u.
     bindS (queryS s (\<lambda>d. shareGetByID d i)) (\<lambda>sh.
     bindS (expireIfNeeded s sh) (\<lambda>expired.
     if expired \<or> srOwner sh \<noteq> suID u then failS (ShareFiles FErrNotFound) else retS sh)))"

primrec liveShares :: "('s, 'd, 'h) Service \<Rightarrow> Share list \<Rightarrow> ('s, 'd, 'h, Share list) share_op" where
  "liveShares s [] = retS []"
| "liveShares s (sh # shs) =
     bindS (expireIfNeeded s sh) (\<lambda>expired. bindS (liveShares s shs) (\<lambda>out. retS (if expired then out else sh # out)))"

definition ListForOwner :: "('s, 'd, 'h) Service \<Rightarrow> string \<Rightarrow> string \<Rightarrow> ('s, 'd, 'h, Share list) share_op" where
  "ListForOwner s uid pathFilter =
     bindS (liftS (ownerOf s uid)) (\<lambda>u. bindS (queryS s (\<lambda>d. shareListByOwner d (suID u) pathFilter)) (liveShares s))"

definition updatePerms :: "int option \<Rightarrow> Share \<Rightarrow> share_error + Share" where
  "updatePerms permissions sh = (case permissions of
      None \<Rightarrow> Inr sh
    | Some p \<Rightarrow> if \<not> validSharePerms (srItemType sh) p then Inl ErrBadPermissions else Inr (sh\<lparr>srPermissions := p\<rparr>))"

definition updateHash :: "('s, 'd, 'h) Service \<Rightarrow> string option \<Rightarrow> Share \<Rightarrow> share_error + Share" where
  "updateHash s password sh = (case password of None \<Rightarrow> Inr sh | Some p \<Rightarrow> map_sum (\<lambda>e. e) (\<lambda>h. sh\<lparr>srHash := h\<rparr>) (hashS s p))"

definition updateExpire :: "string option \<Rightarrow> Share \<Rightarrow> share_error + Share" where
  "updateExpire expireDate sh = (case expireDate of None \<Rightarrow> Inr sh | Some raw \<Rightarrow> map_sum (\<lambda>e. e) (\<lambda>ms. sh\<lparr>srExpireMs := ms\<rparr>) (expireS raw))"

definition ShareUpdate ::
  "('s, 'd, 'h) Service \<Rightarrow> string \<Rightarrow> int \<Rightarrow> int option \<Rightarrow> string option \<Rightarrow> string option \<Rightarrow> string option \<Rightarrow> ('s, 'd, 'h, Share) share_op" where
  "ShareUpdate s uid i permissions password expireDate label =
     bindS (GetForOwner s uid i) (\<lambda>sh.
     bindS (liftS (updatePerms permissions sh)) (\<lambda>sh.
     bindS (liftS (updateHash s password sh)) (\<lambda>sh.
     bindS (liftS (updateExpire expireDate sh)) (\<lambda>sh.
     let sh = (case label of None \<Rightarrow> sh | Some l \<Rightarrow> sh\<lparr>srLabel := l\<rparr>) in
     bindS (tableS s (\<lambda>d. shareUpdate d sh)) (\<lambda>_. retS sh)))))"

definition ShareDelete :: "('s, 'd, 'h) Service \<Rightarrow> string \<Rightarrow> int \<Rightarrow> ('s, 'd, 'h, unit) share_op" where
  "ShareDelete s uid i =
     bindS (GetForOwner s uid i) (\<lambda>sh.
     bindS (if srType sh = ShareTypeRemote then notifyUnshare s sh else retS ()) (\<lambda>_.
     bindS (tableS s (\<lambda>d. shareDelete d (srID sh))) (\<lambda>_.
     bindS (dismissShareNotifications s (srID sh)) (\<lambda>_. unwrapShareKeys s sh))))"

section \<open>Public links\<close>

definition lookupValidShare :: "('s, 'd, 'h) Service \<Rightarrow> string \<Rightarrow> ('s, 'd, 'h, Share \<times> ShareUser) share_op" where
  "lookupValidShare s tok =
     bindS (queryS s (\<lambda>d. shareGetByToken d tok)) (\<lambda>sh.
     bindS (expireIfNeeded s sh) (\<lambda>expired.
     if expired then failS (ShareFiles FErrNotFound)
     else bindS (liftS (map_sum ShareUsers (\<lambda>u. u) (suGetByID (svUsers s) (srOwner sh)))) (\<lambda>owner. retS (sh, owner))))"

definition LookupValid :: "('s, 'd, 'h) Service \<Rightarrow> string \<Rightarrow> ('s, 'd, 'h, Share \<times> ShareUser) share_op" where
  "LookupValid s tok = bindS (lookupValidShare s tok) (\<lambda>(sh, owner).
     if srType sh \<noteq> ShareTypeLink then failS (ShareFiles FErrNotFound) else retS (sh, owner))"

definition LookupValidPublicDAV :: "('s, 'd, 'h) Service \<Rightarrow> string \<Rightarrow> ('s, 'd, 'h, Share \<times> ShareUser) share_op" where
  "LookupValidPublicDAV s tok = bindS (lookupValidShare s tok) (\<lambda>(sh, owner).
     if srType sh \<noteq> ShareTypeLink \<and> srType sh \<noteq> ShareTypeRemote then failS (ShareFiles FErrNotFound) else retS (sh, owner))"

definition resolveWithPassword :: "('s, 'd, 'h) Service \<Rightarrow> Share \<Rightarrow> ShareUser \<Rightarrow> string \<Rightarrow> share_error + (Share \<times> ShareUser)" where
  "resolveWithPassword s sh owner password =
     (if srHash sh = [] then Inr (sh, owner)
      else case svHasher s of
          None \<Rightarrow> Inl ErrUnauthorized
        | Some h \<Rightarrow> if phVerify h (srHash sh) password = Inr True then Inr (sh, owner) else Inl ErrUnauthorized)"

definition ResolvePublic :: "('s, 'd, 'h) Service \<Rightarrow> string \<Rightarrow> string \<Rightarrow> ('s, 'd, 'h, Share \<times> ShareUser) share_op" where
  "ResolvePublic s tok password = bindS (LookupValid s tok) (\<lambda>(sh, owner). liftS (resolveWithPassword s sh owner password))"

definition ResolvePublicDAV :: "('s, 'd, 'h) Service \<Rightarrow> string \<Rightarrow> string \<Rightarrow> ('s, 'd, 'h, Share \<times> ShareUser) share_op" where
  "ResolvePublicDAV s tok password = bindS (LookupValidPublicDAV s tok) (\<lambda>(sh, owner). liftS (resolveWithPassword s sh owner password))"

section \<open>The shares of a recipient\<close>

definition pathBase :: "string \<Rightarrow> string" where
  "pathBase p0 = (let p = trim_suffix p0 ''/'' in case last_index_byte p (CHR ''/'') of None \<Rightarrow> p | Some i \<Rightarrow> drop (Suc i) p)"

definition incomingMount :: "ShareUser \<Rightarrow> Share \<Rightarrow> IncomingMount" where
  "incomingMount owner sh = \<lparr>imOwnerUID = suUID owner, imOwnerPath = srPath sh, imOwnerCipherPath = [], imMount = ''/'' @ pathBase (srPath sh),
     imPermissions = srPermissions sh, imItemType = srItemType sh, imRemote = False, imRemoteOrigin = [], imRemoteToken = []\<rparr>"

primrec mountShares :: "('s, 'd, 'h) Service \<Rightarrow> Share list \<Rightarrow> ('s, 'd, 'h, IncomingMount list) share_op" where
  "mountShares s [] = retS []"
| "mountShares s (sh # shs) =
     bindS (expireIfNeeded s sh) (\<lambda>expired. bindS (mountShares s shs) (\<lambda>out.
       retS (if expired \<or> srPath sh = ''/'' then out
         else case suGetByID (svUsers s) (srOwner sh) of Inl _ \<Rightarrow> out | Inr owner \<Rightarrow> incomingMount owner sh # out)))"

definition ListIncoming :: "('s, 'd, 'h) Service \<Rightarrow> string \<Rightarrow> ('s, 'd, 'h, IncomingMount list) share_op" where
  "ListIncoming s sharee =
     (if sharee = [] then retS []
      else case suGetByUID (svUsers s) sharee of
          Inl e \<Rightarrow> if e = UErrNotFound then retS [] else failS (ShareUsers e)
        | Inr _ \<Rightarrow> bindS (liftS (map_sum ShareUsers (\<lambda>x. x) (suGroupGIDs (svUsers s) sharee))) (\<lambda>gids.
            bindS (queryS s (\<lambda>d. shareListBySharee d sharee gids)) (mountShares s)))"

section \<open>The expiry job\<close>

definition dismissAll :: "'h ShareNotifier \<Rightarrow> int list \<Rightarrow> 'h \<Rightarrow> 'h" where
  "dismissAll n ids h = foldl (\<lambda>h i. snDeleteByObject n h ''share'' (shareNotifObjectID i)) h ids"

definition unwrapAll :: "'h ShareKeys \<Rightarrow> Share list \<Rightarrow> 'h \<Rightarrow> 'h" where
  "unwrapAll k shs h = foldl (\<lambda>h sh. skUnwrap k h sh) h shs"

definition expireJob :: "('s, 'd, 'h) Service \<Rightarrow> ('s, 'd, 'h, unit) share_op" where
  "expireJob s = (\<lambda>w.
     let doomed = (case svKeys s of
         None \<Rightarrow> []
       | Some _ \<Rightarrow> (case shareListExpired (svPart s (vHooks w)) (nowMs s) of Inl _ \<Rightarrow> [] | Inr shs \<Rightarrow> shs)) in
     bindS (tableS s (\<lambda>d. shareDeleteExpired d (nowMs s))) (\<lambda>ids.
     bindS (case svNotifs s of None \<Rightarrow> retS () | Some n \<Rightarrow> effectS (dismissAll n ids)) (\<lambda>_.
     case svKeys s of None \<Rightarrow> retS () | Some k \<Rightarrow> effectS (unwrapAll k (filter (\<lambda>sh. srID sh \<in> set ids) doomed)))) w)"

end
