(* ===== verification/Sharing_Public.thy ===== *)
theory Sharing_Public
  imports Sharing_Service
begin

text \<open>
  Public links: the file system of a share token (\<^verbatim>\<open>src/internal/files/public.go\<close>), the check of its password and the page of a link
  (\<^verbatim>\<open>src/internal/sharing/public.go\<close>), without file name encryption.
\<close>

section \<open>The jail\<close>

definition jailPath :: "Share \<Rightarrow> string \<Rightarrow> string result" where
  "jailPath sh rel = (case NormalizePath rel of
      Inl e \<Rightarrow> Inl (mapMeta e)
    | Inr np \<Rightarrow>
        if srItemType sh = ''file'' then (if np \<noteq> ''/'' then Inl ErrNotFound else Inr (srPath sh))
        else if np = ''/'' then Inr (srPath sh)
        else if srPath sh = ''/'' then Inr np
        else Inr (srPath sh @ np))"

definition publicRel :: "string \<Rightarrow> string \<Rightarrow> string" where
  "publicRel sharePath absPath =
     (if absPath = sharePath then ''/''
      else let rel = trim_prefix absPath (trim_suffix sharePath ''/'')
           in if rel = [] then ''/'' else if \<not> has_prefix rel ''/'' then ''/'' @ rel else rel)"

definition publicize :: "Share \<Rightarrow> Entry \<Rightarrow> Entry" where
  "publicize sh e = e\<lparr>ePath := publicRel (srPath sh) (ePath e), eShareable := False, eShared := True, ePermissions := srPermissions sh\<rparr>"

section \<open>The file system of a token\<close>

record ('s, 'd, 'h) PublicDAV =
  pbFiles :: "('s, 'd, 'h) davAdapter"
  pbResolve :: "string \<Rightarrow> ('s, 'd, 'h, Share \<times> ShareUser) share_op"

definition shareErr :: "share_error \<Rightarrow> fs_error" where
  "shareErr e = (case e of
      ShareFiles f \<Rightarrow> if f = FErrNotFound then ErrNotFound else rawErr f
    | ShareDav d \<Rightarrow> d
    | ShareUsers u \<Rightarrow> ErrOther (case u of UErrNotFound \<Rightarrow> ''users: not found'' | UErrOther t \<Rightarrow> t)
    | ShareOther t \<Rightarrow> ErrOther t
    | ErrBadShareType \<Rightarrow> ErrOther ''sharing: unsupported share type'' | ErrBadPermissions \<Rightarrow> ErrOther ''sharing: invalid permissions''
    | ErrBadExpire \<Rightarrow> ErrOther ''sharing: invalid expire date'' | ErrBadShareWith \<Rightarrow> ErrOther ''sharing: unknown sharee''
    | ErrUnauthorized \<Rightarrow> ErrOther ''sharing: unauthorized'' | ErrFederate \<Rightarrow> ErrOther ''sharing: cannot federate share'')"

definition publicResolve :: "('s, 'd, 'h) PublicDAV \<Rightarrow> string \<Rightarrow> ('s, 'd, 'h, Share \<times> ShareUser) dav_op" where
  "publicResolve p tok =
     (if tok = [] then failOp ErrNotFound
      else thenOp (\<lambda>w. case pbResolve p tok w of None \<Rightarrow> None | Some (w', r) \<Rightarrow> Some (w', map_sum shareErr (\<lambda>x. x) r)) (\<lambda>(sh, owner).
        if srAbsPathEnc sh \<noteq> [] then failOp (ErrOther ''files: sealed share row without the phase-3a name-codec wiring'') else retOp (sh, owner)))"

definition publicAt :: "('s, 'd, 'h) PublicDAV \<Rightarrow> string \<Rightarrow> string \<Rightarrow> (Share \<Rightarrow> string \<Rightarrow> string \<Rightarrow> ('s, 'd, 'h, 'a) dav_op) \<Rightarrow> ('s, 'd, 'h, 'a) dav_op" where
  "publicAt p tok rel f = thenOp (publicResolve p tok) (\<lambda>(sh, owner). thenOp (liftOp (jailPath sh rel)) (f sh (suUID owner)))"

definition publicStat :: "('s, 'd, 'h) PublicDAV \<Rightarrow> string \<Rightarrow> string \<Rightarrow> ('s, 'd, 'h, Entry) dav_op" where
  "publicStat p tok rel = publicAt p tok rel (\<lambda>sh uid q. thenOp (davStatOp (pbFiles p) uid q) (\<lambda>ent. retOp (publicize sh ent)))"

definition publicList :: "('s, 'd, 'h) PublicDAV \<Rightarrow> string \<Rightarrow> string \<Rightarrow> ('s, 'd, 'h, Entry list) dav_op" where
  "publicList p tok rel = publicAt p tok rel (\<lambda>sh uid q. thenOp (davListOp (pbFiles p) uid q) (\<lambda>ents. retOp (map (publicize sh) ents)))"

definition publicRead :: "('s, 'd, 'h) PublicDAV \<Rightarrow> string \<Rightarrow> string \<Rightarrow> ('s, 'd, 'h, string \<times> Entry) dav_op" where
  "publicRead p tok rel = publicAt p tok rel (\<lambda>sh uid q. thenOp (davReadOp (pbFiles p) uid q) (\<lambda>(rc, ent). retOp (rc, publicize sh ent)))"

definition publicWriteIf ::
  "('s, 'd, 'h) PublicDAV \<Rightarrow> bool \<Rightarrow> string \<Rightarrow> string \<Rightarrow> reader \<Rightarrow> int option \<Rightarrow> WriteCond option \<Rightarrow> ('s, 'd, 'h, Entry \<times> bool) dav_op" where
  "publicWriteIf p muted tok rel r mtime cond = publicAt p tok rel (\<lambda>sh uid q. tryOp (davStatOp (pbFiles p) uid q) (\<lambda>st.
     let need = (case st of Inl _ \<Rightarrow> PermCreate | Inr _ \<Rightarrow> PermUpdate) in
     if \<not> has_perm (srPermissions sh) need then failOp ErrForbidden
     else thenOp (davWriteIf (pbFiles p) muted uid q r mtime cond) (\<lambda>(ent, created). retOp (publicize sh ent, created))))"

definition publicWrite :: "('s, 'd, 'h) PublicDAV \<Rightarrow> bool \<Rightarrow> string \<Rightarrow> string \<Rightarrow> reader \<Rightarrow> int option \<Rightarrow> ('s, 'd, 'h, Entry \<times> bool) dav_op" where
  "publicWrite p muted tok rel r mtime = publicWriteIf p muted tok rel r mtime None"

definition publicMkdir :: "('s, 'd, 'h) PublicDAV \<Rightarrow> bool \<Rightarrow> string \<Rightarrow> string \<Rightarrow> ('s, 'd, 'h, Entry) dav_op" where
  "publicMkdir p muted tok rel = thenOp (publicResolve p tok) (\<lambda>(sh, owner).
     if \<not> has_perm (srPermissions sh) PermCreate then failOp ErrForbidden
     else thenOp (liftOp (jailPath sh rel)) (\<lambda>q. thenOp (davMkdir (pbFiles p) muted (suUID owner) q) (\<lambda>ent. retOp (publicize sh ent))))"

definition publicRemove :: "('s, 'd, 'h) PublicDAV \<Rightarrow> string \<Rightarrow> string \<Rightarrow> ('s, 'd, 'h, unit) dav_op" where
  "publicRemove p tok rel = thenOp (publicResolve p tok) (\<lambda>(sh, owner).
     if \<not> has_perm (srPermissions sh) PermDelete then failOp ErrForbidden
     else thenOp (liftOp (jailPath sh rel)) (\<lambda>q. if q = srPath sh then failOp ErrForbidden else davRemove (pbFiles p) (suUID owner) q))"

definition publicCheckLock :: "('s, 'd, 'h) PublicDAV \<Rightarrow> string \<Rightarrow> string \<Rightarrow> string \<Rightarrow> ('s, 'd, 'h, unit) dav_op" where
  "publicCheckLock p tok rel ifHeader = publicAt p tok rel (\<lambda>sh uid q w.
     case davCheckLock (lockView (pbFiles p) w) (vLocks w) uid q ifHeader of (d, r) \<Rightarrow> Some (w\<lparr>vLocks := d\<rparr>, r))"

section \<open>The page of a link\<close>

definition tokenVerify :: "('s, 'd, 'h) Service \<Rightarrow> string \<Rightarrow> string \<Rightarrow> ('s, 'd, 'h, string option) share_op" where
  "tokenVerify s user password =
     (if user = [] then retS None
      else (\<lambda>w. case ResolvePublicDAV s user password w of
          None \<Rightarrow> None
        | Some (w', r) \<Rightarrow> Some (w', Inr (case r of Inl _ \<Rightarrow> None | Inr (sh, _) \<Rightarrow> Some (srToken sh)))))"

record publicResponse =
  prStatus :: int
  prHeaders :: "(string \<times> string) list"
  prBody :: string

definition plainResponse :: "int \<Rightarrow> string \<Rightarrow> publicResponse" where
  "plainResponse code body = \<lparr>prStatus = code, prHeaders = [], prBody = body\<rparr>"

definition challenge :: publicResponse where
  "challenge = \<lparr>prStatus = 401, prHeaders = [(''WWW-Authenticate'', ''Basic realm=\"Authorisation Required\"'')], prBody = ''Unauthorized''\<rparr>"

definition linkPage :: "('s, 'd, 'h) Service \<Rightarrow> bool \<Rightarrow> Share \<times> ShareUser \<Rightarrow> ('s, 'd, 'h, publicResponse) share_op" where
  "linkPage s head = (\<lambda>(sh, owner).
     if srItemType sh = ''folder'' then retS challenge
     else bindS (davS (davReadOp (svFiles s) (suUID owner) (srPath sh))) (\<lambda>r. retS (case r of
         Inl e \<Rightarrow> if e = ErrNotFound then plainResponse 404 ''404 page not found'' else plainResponse 500 ''Internal Server Error''
       | Inr (rc, ent) \<Rightarrow> \<lparr>prStatus = 200,
           prHeaders = (if eContentType ent = [] then [] else [(''Content-Type'', eContentType ent)])
             @ (if eETag ent = [] then [] else [(''ETag'', ''\"'' @ eETag ent @ ''\"'')]),
           prBody = (if head then [] else rc)\<rparr>)))"

text \<open>\<open>basic\<close> is the user and password of the header, when it could be parsed.\<close>

definition PublicLinkHandler :: "('s, 'd, 'h) Service \<Rightarrow> string \<Rightarrow> string \<Rightarrow> (string \<times> string) option \<Rightarrow> ('s, 'd, 'h, publicResponse) share_op" where
  "PublicLinkHandler s method urlPath basic =
     (if method \<noteq> ''GET'' \<and> method \<noteq> ''HEAD'' then retS (plainResponse 405 ''Method Not Allowed'')
      else let tok = trim_set (trim_prefix urlPath ''/s/'') ''/'' in
        if tok = [] \<or> CHR ''/'' \<in> set tok then retS (plainResponse 404 ''404 page not found'')
        else if (case basic of None \<Rightarrow> False | Some (user, _) \<Rightarrow> user \<noteq> tok) then retS challenge
        else (\<lambda>w. case ResolvePublic s tok (case basic of None \<Rightarrow> [] | Some (_, pass) \<Rightarrow> pass) w of
            None \<Rightarrow> None
          | Some (w', Inl e) \<Rightarrow> Some (w', Inr (if e = ErrUnauthorized then challenge else plainResponse 404 ''404 page not found''))
          | Some (w', Inr x) \<Rightarrow> linkPage s (method = ''HEAD'') x w'))"

end
