(* ===== verification/Sharing_Laws.thy ===== *)
theory Sharing_Laws
  imports Sharing_Public Files_TrashLaws
begin

text \<open>
  The share service: who a public token serves, which states of the table of shares can be reached, and what stays well-formed in all of them.
\<close>

lemmas share_op_defs = retS_def failS_def liftS_def bindS_def queryS_def davS_def

section \<open>Expiry\<close>

definition liveShare :: "int \<Rightarrow> Share \<Rightarrow> bool" where
  "liveShare ms sh \<longleftrightarrow> srExpireMs sh = 0 \<or> srExpireMs sh > ms"

lemma expireIfNeeded_live: "liveShare (nowMs s) sh \<Longrightarrow> expireIfNeeded s sh w = Some (w, Inr False)"
  by (simp add: expireIfNeeded_def liveShare_def retS_def)

lemma expireIfNeeded_False:
  assumes "expireIfNeeded s sh w = Some (w', Inr False)" shows "liveShare (nowMs s) sh \<and> w' = w"
  using assms
  by (auto simp: expireIfNeeded_def liveShare_def share_op_defs split: if_splits option.splits prod.splits sum.splits)

lemma bindS_Inr:
  "bindS m k w = Some (w', Inr y) \<longleftrightarrow> (\<exists>w1 x. m w = Some (w1, Inr x) \<and> k x w1 = Some (w', Inr y))"
  by (auto simp: bindS_def split: option.splits sum.splits)

lemma liftS_Inr: "liftS r w = Some (w', Inr x) \<longleftrightarrow> w' = w \<and> r = Inr x"
  by (auto simp: liftS_def)

lemma queryS_Inr: "queryS s f w = Some (w', Inr x) \<longleftrightarrow> w' = w \<and> f (svPart s (vHooks w)) = Inr x"
  by (cases "f (svPart s (vHooks w))") (auto simp: queryS_def)

lemma retS_Inr: "retS y w = Some (w', Inr x) \<longleftrightarrow> w' = w \<and> x = y" and failS_Inr: "failS e w \<noteq> Some (w', Inr x)"
  by (auto simp: retS_def failS_def)

lemmas share_Inr = bindS_Inr liftS_Inr queryS_Inr retS_Inr failS_Inr

lemma lookupValidShare_Inr:
  "lookupValidShare s tok w = Some (w', Inr (sh, owner)) \<longleftrightarrow>
     w' = w \<and> shareGetByToken (svPart s (vHooks w)) tok = Inr sh \<and> liveShare (nowMs s) sh \<and> suGetByID (svUsers s) (srOwner sh) = Inr owner"
proof
  assume "lookupValidShare s tok w = Some (w', Inr (sh, owner))"
  then show "w' = w \<and> shareGetByToken (svPart s (vHooks w)) tok = Inr sh \<and> liveShare (nowMs s) sh \<and> suGetByID (svUsers s) (srOwner sh) = Inr owner"
    by (auto simp: lookupValidShare_def share_Inr split: if_splits dest: expireIfNeeded_False) (cases "suGetByID (svUsers s) (srOwner sh)"; auto)
next
  assume "w' = w \<and> shareGetByToken (svPart s (vHooks w)) tok = Inr sh \<and> liveShare (nowMs s) sh \<and> suGetByID (svUsers s) (srOwner sh) = Inr owner"
  then show "lookupValidShare s tok w = Some (w', Inr (sh, owner))"
    by (auto simp: lookupValidShare_def share_Inr expireIfNeeded_live intro!: exI [of _ False])
qed

section \<open>Who a token serves\<close>

text \<open>
  C27. The decision of \<open>ResolvePublicDAV\<close>, in both directions: a token and a password are accepted exactly when the table has
  a row with this token, the row is a public link or a federated share that has not expired, its owner exists, and the password
  verifies against the stored hash, if there is one. Nothing is changed by an accepted request.
\<close>

theorem public_dav_decision:
  "ResolvePublicDAV s tok password w = Some (w', Inr (sh, owner)) \<longleftrightarrow>
     w' = w \<and> shareGetByToken (svPart s (vHooks w)) tok = Inr sh \<and> (srType sh = ShareTypeLink \<or> srType sh = ShareTypeRemote)
     \<and> liveShare (nowMs s) sh \<and> suGetByID (svUsers s) (srOwner sh) = Inr owner
     \<and> (srHash sh = [] \<or> (\<exists>h. svHasher s = Some h \<and> phVerify h (srHash sh) password = Inr True))"
proof -
  have pw: "resolveWithPassword s x y password = Inr (sh, owner) \<longleftrightarrow>
      x = sh \<and> y = owner \<and> (srHash sh = [] \<or> (\<exists>h. svHasher s = Some h \<and> phVerify h (srHash sh) password = Inr True))" for x y
    by (auto simp: resolveWithPassword_def split: if_splits option.splits)
  have "LookupValidPublicDAV s tok w = Some (w', Inr (sh, owner)) \<longleftrightarrow>
      lookupValidShare s tok w = Some (w', Inr (sh, owner)) \<and> (srType sh = ShareTypeLink \<or> srType sh = ShareTypeRemote)" for w'
    by (auto simp: LookupValidPublicDAV_def share_Inr split: if_splits)
  then show ?thesis by (auto simp: ResolvePublicDAV_def share_Inr pw lookupValidShare_Inr)
qed

section \<open>The jail of a public link\<close>

definition inShare :: "string \<Rightarrow> string \<Rightarrow> bool" where
  "inShare root q \<longleftrightarrow> q = root \<or> root = ''/'' \<or> below root q"

lemma jail_append:
  assumes "npath p" and "npath q" and "p \<noteq> ''/''" and "q \<noteq> ''/''"
  shows "npath (p @ q)" "below p (p @ q)"
proof -
  have c: "clean_path p" "clean_path q" using assms normal_path by blast+
  obtain xs where xs: "xs \<noteq> []" "list_all plain_seg xs" "p = mkpath xs" using c(1) by (auto simp: clean_path_iff)
  obtain ys where ys: "ys \<noteq> []" "list_all plain_seg ys" "q = mkpath ys" using c(2) by (auto simp: clean_path_iff)
  have pq: "p @ q = mkpath (xs @ ys)" using xs ys by simp
  then have "clean_path (p @ q)" using xs ys clean_path_mkpath [of "xs @ ys"] by simp
  then show "npath (p @ q)"
    using NormalizePath_utf8 [OF assms(1)] NormalizePath_utf8 [OF assms(2)] utf8_valid_append_iff [of p q] by (intro NormalizePath_clean) auto
  obtain r where "q = CHR ''/'' # r" using ys by (cases ys) auto
  then show "below p (p @ q)" by (auto simp: below_append)
qed

lemma jailPath_inside:
  assumes "npath (srPath sh)" and "jailPath sh rel = Inr q"
  shows "npath q \<and> inShare (srPath sh) q \<and> (srItemType sh = ''file'' \<longrightarrow> q = srPath sh)"
proof (cases "NormalizePath rel")
  case (Inr np)
  have n: "npath np" by (rule NormalizePath_fixed [OF Inr])
  show ?thesis using assms Inr n jail_append [of "srPath sh" np] by (auto simp: jailPath_def inShare_def split: if_splits)
qed (use assms in \<open>simp add: jailPath_def\<close>)

section \<open>What the services around the table leave alone\<close>

definition wiredShares :: "('s, 'd, 'h) Service \<Rightarrow> bool" where
  "wiredShares s \<longleftrightarrow> (\<forall>t h. svPart s (svPut s t h) = t)
     \<and> (\<forall>n h x o1 o2. svNotifs s = Some n \<longrightarrow> svPart s (snInsert n h x) = svPart s h \<and> svPart s (snDeleteByObject n h o1 o2) = svPart s h)
     \<and> (\<forall>k h x. svKeys s = Some k \<longrightarrow> svPart s (skWrap k h x) = svPart s h \<and> svPart s (skUnwrap k h x) = svPart s h)
     \<and> (\<forall>oc h e x y z. svOCM s = Some oc \<longrightarrow> svPart s (fst (ocNotifyOutgoing oc h e x)) = svPart s h \<and> svPart s (ocNotifyUnshare oc h e y z) = svPart s h)"

abbreviation shTable :: "('s, 'd, 'h) Service \<Rightarrow> ('s, 'd, 'h) davState \<Rightarrow> shareTable" where
  "shTable s w \<equiv> svPart s (vHooks w)"

text \<open>An operation that keeps a property of the table.\<close>

definition keepsT :: "('s, 'd, 'h) Service \<Rightarrow> (shareTable \<Rightarrow> bool) \<Rightarrow> ('s, 'd, 'h, 'a) share_op \<Rightarrow> bool" where
  "keepsT s P m \<longleftrightarrow> (\<forall>w w' r. m w = Some (w', r) \<longrightarrow> P (shTable s w) \<longrightarrow> P (shTable s w'))"

named_theorems keepingT

lemma keepsT_D: "keepsT s P m \<Longrightarrow> m w = Some (w', r) \<Longrightarrow> P (shTable s w) \<Longrightarrow> P (shTable s w')"
  by (auto simp: keepsT_def)

lemma keepsT_basic [keepingT]: "keepsT s P (retS x)" "keepsT s P (failS e)" "keepsT s P (liftS r)" "keepsT s P (queryS s f)"
  by (simp_all add: keepsT_def share_op_defs)

lemma keepsT_bind [keepingT]: "keepsT s P m \<Longrightarrow> (\<And>x. keepsT s P (k x)) \<Longrightarrow> keepsT s P (bindS m k)"
  unfolding keepsT_def bindS_def by (auto split: option.splits sum.splits) blast

lemma keepsT_if [keepingT]: "(b \<Longrightarrow> keepsT s P m) \<Longrightarrow> (\<not> b \<Longrightarrow> keepsT s P n) \<Longrightarrow> keepsT s P (if b then m else n)"
  by simp

lemma keepsT_option [keepingT]: "(x = None \<Longrightarrow> keepsT s P m) \<Longrightarrow> (\<And>y. x = Some y \<Longrightarrow> keepsT s P (f y)) \<Longrightarrow> keepsT s P (case x of None \<Rightarrow> m | Some y \<Rightarrow> f y)"
  by (cases x) auto

lemma keepsT_sum [keepingT]: "(\<And>y. x = Inl y \<Longrightarrow> keepsT s P (g y)) \<Longrightarrow> (\<And>y. x = Inr y \<Longrightarrow> keepsT s P (f y)) \<Longrightarrow> keepsT s P (case x of Inl y \<Rightarrow> g y | Inr y \<Rightarrow> f y)"
  by (cases x) auto

lemma keepsT_prod [keepingT]: "(\<And>y z. x = (y, z) \<Longrightarrow> keepsT s P (f y z)) \<Longrightarrow> keepsT s P (case x of (y, z) \<Rightarrow> f y z)"
  by (cases x) auto

lemma keepsT_table [keepingT]:
  assumes "wiredShares s" and "\<And>d. P d \<Longrightarrow> P (fst (f d))" shows "keepsT s P (tableS s f)"
proof -
  have "P x1" if "f (shTable s w) = (x1, x2)" "P (shTable s w)" for w x1 x2 using assms(2) [OF that(2)] that(1) by simp
  then show ?thesis using assms(1) by (auto simp: keepsT_def tableS_def onPart_def wiredShares_def split: prod.splits)
qed

lemma keepsT_effects [keepingT]:
  assumes "wiredShares s"
  shows "keepsT s P (dismissShareNotifications s i)" "keepsT s P (wrapShareKeys s sh)" "keepsT s P (unwrapShareKeys s sh)" "keepsT s P (notifyUnshare s sh)"
    "keepsT s P (notifyRemote s u sh p origin)"
  using assms
  by (auto simp: keepsT_def dismissShareNotifications_def wrapShareKeys_def unwrapShareKeys_def notifyUnshare_def notifyRemote_def wiredShares_def
      effectS_def retS_def failS_def split: option.splits prod.splits) (metis fst_conv)+

lemma keepsT_notifyAll:
  assumes "wiredShares s" and "svNotifs s = Some n" shows "keepsT s P (notifyAll n xs)"
proof (induction xs)
  case (Cons x xs)
  have "keepsT s P (effectS (\<lambda>h. snInsert n h x))" using assms by (auto simp: keepsT_def effectS_def wiredShares_def)
  then show ?case using Cons by (auto intro: keepsT_bind)
qed (auto intro: keepingT)

lemma keepsT_created [keepingT]:
  assumes "wiredShares s" shows "keepsT s P (notifyShareCreated s u sh p)"
  unfolding notifyShareCreated_def Let_def by (intro keepingT keepsT_notifyAll [OF assms])

text \<open>The file operations of the service do not touch the state of the services.\<close>

lemma keepsT_stat [keepingT]:
  assumes "\<And>w w' r. m w = Some (w', r) \<Longrightarrow> vHooks w' = vHooks w" shows "keepsT s P (davS m)"
  using assms by (auto simp: keepsT_def davS_def split: option.splits prod.splits)

lemma keeps_hooks_stat: "davStatOp a user p w = Some (w', r) \<Longrightarrow> vHooks w' = vHooks w"
proof -
  assume m: "davStatOp a user p w = Some (w', r)"
  have o: "keeps (partIs (\<lambda>h. h) t) (davStatOwned a u q)" for t u q
    unfolding davStatOwned_def davResolveUser_def ensureHome_def by (intro keeping)
  have sr: "keeps (partIs (\<lambda>h. h) t) (statRemote a q mnt)" for t q mnt
    unfolding statRemote_def by (auto simp: keeps_def Let_def op_defs split: option.splits sum.splits prod.splits if_splits list.splits)
  have "keeps (partIs (\<lambda>h. h) t) (davStatOp a user p)" for t
    unfolding davStatOp_def davStatMaybeIncoming_def using o sr
    by (intro keeping) (auto simp: keeps_def incomingOp_def liveOp_def)
  from keepsD [OF this m, of "vHooks w"] show ?thesis by simp
qed

section \<open>The table of shares stays well-formed\<close>

text \<open>
  The permissions of a row are those that the service accepts for its kind, unless the import from Nextcloud inserted the row, which
  takes over the permissions it finds: \<open>I\<close> is the set of the identifiers of imported rows.
\<close>

definition permOK :: "int set \<Rightarrow> Share \<Rightarrow> bool" where
  "permOK I r \<longleftrightarrow> validSharePerms (srItemType r) (srPermissions r) \<or> srID r \<in> I"

lemma permOK_valid: "validSharePerms (srItemType r) (srPermissions r) \<Longrightarrow> permOK I r"
  by (simp add: permOK_def)

definition shareRowOK :: "int set \<Rightarrow> Share \<Rightarrow> bool" where
  "shareRowOK I r \<longleftrightarrow> srToken r \<noteq> [] \<and> srOwner r \<noteq> 0 \<and> npath (srPath r) \<and> (srItemType r = ''file'' \<or> srItemType r = ''folder'')
     \<and> permOK I r \<and> srType r \<in> {ShareTypeUser, ShareTypeGroup, ShareTypeLink, ShareTypeRemote}"

definition shareInv :: "int set \<Rightarrow> shareTable \<Rightarrow> bool" where
  "shareInv I d \<longleftrightarrow> 0 < stNext d \<and> distinct (map srID (stRows d)) \<and> distinct (map srToken (stRows d))
     \<and> (\<forall>r \<in> set (stRows d). 0 < srID r \<and> srID r < stNext d \<and> shareRowOK I r)"

lemma shareInvD:
  assumes "shareInv I d"
  shows "0 < stNext d" "distinct (map srID (stRows d))" "distinct (map srToken (stRows d))"
    "r \<in> set (stRows d) \<Longrightarrow> 0 < srID r \<and> srID r < stNext d \<and> shareRowOK I r"
  using assms by (auto simp: shareInv_def)

lemma shareInv_filter: "shareInv I d \<Longrightarrow> shareInv I (d\<lparr>stRows := filter P (stRows d)\<rparr>)"
  by (auto simp: shareInv_def distinct_map intro: inj_on_subset)

lemma shareInv_map:
  assumes "shareInv I d" and "\<And>r. r \<in> set (stRows d) \<Longrightarrow> srID (f r) = srID r \<and> srToken (f r) = srToken r \<and> shareRowOK I (f r)"
  shows "shareInv I (d\<lparr>stRows := map f (stRows d)\<rparr>)"
proof -
  have "map srID (map f (stRows d)) = map srID (stRows d)" "map srToken (map f (stRows d)) = map srToken (stRows d)" using assms(2) by auto
  then show ?thesis using assms by (auto simp: shareInv_def simp del: map_map)
qed

lemma shareDelete_inv: "shareInv I d \<Longrightarrow> shareInv I (fst (shareDelete d i))"
  by (auto simp: shareDelete_def shareExec_def shareInv_filter split: option.split)

lemma shareInv_append:
  assumes i: "shareInv I d" and sh: "shareRowOK I (sh\<lparr>srID := stNext d\<rparr>)" and fresh: "srToken sh \<notin> srToken ` set (stRows d)"
  shows "shareInv I (d\<lparr>stRows := stRows d @ [sh\<lparr>srID := stNext d\<rparr>], stNext := stNext d + 1\<rparr>)"
proof -
  have "srID r \<noteq> stNext d" if "r \<in> set (stRows d)" for r using shareInvD(4) [OF i that] by simp
  then have "stNext d \<notin> srID ` set (stRows d)" by force
  moreover have old: "0 < srID r \<and> srID r < stNext d + 1 \<and> shareRowOK I r" if "r \<in> set (stRows d)" for r using shareInvD(4) [OF i that] by simp
  ultimately show ?thesis using shareInvD(1-3) [OF i] sh fresh by (simp add: shareInv_def)
qed

lemma shareInsert_inv:
  assumes i: "shareInv I d" and sh: "srItemType sh0 = ''file'' \<or> srItemType sh0 = ''folder''" "validSharePerms (srItemType sh0) (srPermissions sh0) \<or> stNext d \<in> I"
    "srType sh0 \<in> {ShareTypeUser, ShareTypeGroup, ShareTypeLink, ShareTypeRemote}"
  shows "shareInv I (fst (shareInsert d sh0))"
proof (cases "srOwner sh0 = 0 \<or> srToken sh0 = [] \<or> stDown d \<noteq> None \<or> list_ex (\<lambda>r. srToken r = srToken sh0) (stRows d)")
  case True
  then show ?thesis using i by (auto simp: shareInsert_def Let_def split: sum.split option.split)
next
  case False
  show ?thesis
  proof (cases "NormalizePath (srPath sh0)")
    case (Inr np)
    define sh where "sh = sh0\<lparr>srPath := np, srAccepted := (if srAccepted sh0 = 0 then 1 else srAccepted sh0)\<rparr>"
    have "npath np" by (rule NormalizePath_fixed [OF Inr])
    then have "shareRowOK I (sh\<lparr>srID := stNext d\<rparr>)" using False sh by (simp add: shareRowOK_def permOK_def sh_def)
    moreover have "srToken sh \<notin> srToken ` set (stRows d)" using False by (auto simp: sh_def list_ex_iff)
    moreover have "fst (shareInsert d sh0) = d\<lparr>stRows := stRows d @ [sh\<lparr>srID := stNext d\<rparr>], stNext := stNext d + 1\<rparr>"
      using False Inr by (simp add: shareInsert_def Let_def sh_def)
    ultimately show ?thesis using shareInv_append [OF i] by simp
  qed (use i False in \<open>simp add: shareInsert_def\<close>)
qed

lemma expire_keepsT [keepingT]: "wiredShares s \<Longrightarrow> keepsT s (shareInv I) (expireIfNeeded s sh)"
  unfolding expireIfNeeded_def by (intro keepingT shareDelete_inv)

lemma live_keepsT [keepingT]: "wiredShares s \<Longrightarrow> keepsT s (shareInv I) (liveShares s shs)"
  by (induction shs) (auto intro!: keepingT)

lemma mount_keepsT [keepingT]: "wiredShares s \<Longrightarrow> keepsT s (shareInv I) (mountShares s shs)"
  by (induction shs) (auto intro!: keepingT)

lemma create_keepsT:
  assumes w: "wiredShares s" shows "keepsT s (shareInv I) (shareCreate s uid p typ perms sharee password expire label origin)"
proof -
  have commit: "keepsT s (shareInv I) (createCommit s u sh np origin)"
    if "srItemType sh = ''file'' \<or> srItemType sh = ''folder''" "validSharePerms (srItemType sh) (srPermissions sh)"
      "srType sh \<in> {ShareTypeUser, ShareTypeGroup, ShareTypeLink, ShareTypeRemote}" for u sh np
  proof -
    have rem: "keepsT s (shareInv I) (\<lambda>w. case notifyRemote s u x np origin w of None \<Rightarrow> None | Some (w', Inr _) \<Rightarrow> Some (w', Inr ())
        | Some (w', Inl e) \<Rightarrow> (case tableS s (\<lambda>d. shareDelete d (srID x)) w' of None \<Rightarrow> None | Some (w'', _) \<Rightarrow> Some (w'', Inl e)))" for x
      unfolding keepsT_def
    proof (intro allI impI)
      fix v v' r
      assume run: "(case notifyRemote s u x np origin v of None \<Rightarrow> None | Some (w', Inr _) \<Rightarrow> Some (w', Inr ())
        | Some (w', Inl e) \<Rightarrow> (case tableS s (\<lambda>d. shareDelete d (srID x)) w' of None \<Rightarrow> None | Some (w'', _) \<Rightarrow> Some (w'', Inl e))) = Some (v', r)"
        and i: "shareInv I (shTable s v)"
      obtain v1 q where q: "notifyRemote s u x np origin v = Some (v1, q)" using run by (auto split: option.splits)
      have i1: "shareInv I (shTable s v1)" using keepsT_effects(5) [OF w, of "shareInv I" u x np origin] q i by (auto simp: keepsT_def)
      show "shareInv I (shTable s v')"
      proof (cases q)
        case (Inl e)
        then obtain r2 where "tableS s (\<lambda>d. shareDelete d (srID x)) v1 = Some (v', r2)" using run q by (auto split: option.splits prod.splits)
        then show ?thesis using keepsT_table [where P = "shareInv I" and f = "\<lambda>d. shareDelete d (srID x)", OF w shareDelete_inv] i1 by (auto simp: keepsT_def)
      qed (use run q i1 in auto)
    qed
    show ?thesis unfolding createCommit_def by (intro keepingT w rem shareInsert_inv disjI1 that)
  qed
  show ?thesis
    unfolding shareCreate_def Let_def
    by (intro keepingT commit w keeps_hooks_stat) (auto simp: newShare_def)
qed

section \<open>The rows of an owner\<close>

lemma GetForOwner_Inr:
  "GetForOwner s uid i w = Some (w', Inr sh) \<longleftrightarrow>
     w' = w \<and> (\<exists>u. ownerOf s uid = Inr u \<and> srOwner sh = suID u) \<and> shareGetByID (shTable s w) i = Inr sh \<and> liveShare (nowMs s) sh"
proof
  assume "GetForOwner s uid i w = Some (w', Inr sh)"
  then show "w' = w \<and> (\<exists>u. ownerOf s uid = Inr u \<and> srOwner sh = suID u) \<and> shareGetByID (shTable s w) i = Inr sh \<and> liveShare (nowMs s) sh"
    by (auto simp: GetForOwner_def share_Inr split: if_splits dest: expireIfNeeded_False)
next
  assume "w' = w \<and> (\<exists>u. ownerOf s uid = Inr u \<and> srOwner sh = suID u) \<and> shareGetByID (shTable s w) i = Inr sh \<and> liveShare (nowMs s) sh"
  then show "GetForOwner s uid i w = Some (w', Inr sh)"
    by (auto simp: GetForOwner_def share_Inr expireIfNeeded_live intro!: exI [of _ False])
qed

lemma get_keepsT [keepingT]: "wiredShares s \<Longrightarrow> keepsT s (shareInv I) (GetForOwner s uid i)"
  unfolding GetForOwner_def by (intro keepingT)

lemma shareGetByID_row: "shareGetByID d i = Inr sh \<Longrightarrow> sh \<in> set (stRows d) \<and> srID sh = i \<and> i \<noteq> 0 \<and> stDown d = None"
  by (auto simp: shareGetByID_def shareRow_def find_Some_iff split: if_splits option.splits)

text \<open>The record that \<open>Update\<close> stores differs from the row only in what may change.\<close>

definition sameShare :: "Share \<Rightarrow> Share \<Rightarrow> bool" where
  "sameShare a b \<longleftrightarrow> srID a = srID b \<and> srOwner a = srOwner b \<and> srType a = srType b \<and> srPath a = srPath b \<and> srItemType a = srItemType b \<and> srToken a = srToken b
     \<and> srStimeMs a = srStimeMs b \<and> srWith a = srWith b \<and> srAccepted a = srAccepted b \<and> srMountNameEnc a = srMountNameEnc b \<and> srAbsPathEnc a = srAbsPathEnc b"

lemma sameShare_trans: "sameShare a b \<Longrightarrow> sameShare b c \<Longrightarrow> sameShare a c"
  by (simp add: sameShare_def)

lemma sameShare_perm: "sameShare a b \<Longrightarrow> srPermissions a = srPermissions b \<Longrightarrow> permOK I a \<longleftrightarrow> permOK I b"
  by (simp add: sameShare_def permOK_def)

lemma update_parts:
  assumes "updatePerms permissions sh = Inr sh1" and "updateHash s password sh1 = Inr sh2" and "updateExpire expire sh2 = Inr sh3"
    and "permOK I sh"
  shows "sameShare sh3 sh \<and> permOK I sh3 \<and> srLabel sh3 = srLabel sh"
proof -
  have 1: "sameShare sh1 sh \<and> permOK I sh1 \<and> srLabel sh1 = srLabel sh"
    using assms(1,4) by (auto simp: updatePerms_def sameShare_def permOK_def split: option.splits if_splits)
  have 2: "sameShare sh2 sh1 \<and> srPermissions sh2 = srPermissions sh1 \<and> srLabel sh2 = srLabel sh1"
    using assms(2) by (cases password; cases "hashS s (the password)") (auto simp: updateHash_def sameShare_def)
  have 3: "sameShare sh3 sh2 \<and> srPermissions sh3 = srPermissions sh2 \<and> srLabel sh3 = srLabel sh2"
    using assms(3) by (cases expire; cases "expireS (the expire)") (auto simp: updateExpire_def sameShare_def)
  have "permOK I sh3" using 1 sameShare_perm [of sh2 sh1 I] sameShare_perm [of sh3 sh2 I] 2 3 by simp
  moreover have "sameShare sh3 sh" using 1 2 3 sameShare_trans by blast
  ultimately show ?thesis using 1 2 3 by simp
qed

lemma shareUpdate_inv:
  assumes "shareInv I d" and "permOK I sh"
    and "\<And>r. r \<in> set (stRows d) \<Longrightarrow> srID r = srID sh \<Longrightarrow> srItemType r = srItemType sh"
  shows "shareInv I (fst (shareUpdate d sh))"
proof -
  let ?f = "\<lambda>r. if srID r = srID sh
      then r\<lparr>srHash := srHash sh, srPermissions := srPermissions sh, srLabel := srLabel sh, srExpireMs := srExpireMs sh\<rparr> else r"
  have "shareInv I (d\<lparr>stRows := map ?f (stRows d)\<rparr>)"
  proof (rule shareInv_map [OF assms(1)])
    fix r assume r: "r \<in> set (stRows d)"
    note ok = shareInvD(4) [OF assms(1) r]
    show "srID (?f r) = srID r \<and> srToken (?f r) = srToken r \<and> shareRowOK I (?f r)"
    proof (cases "srID r = srID sh")
      case True
      then show ?thesis using ok assms(2) assms(3) [OF r True] by (simp add: shareRowOK_def permOK_def)
    qed (use ok in simp)
  qed
  then show ?thesis using assms(1) by (auto simp: shareUpdate_def shareExec_def split: option.split)
qed

lemma distinct_row: "distinct (map f xs) \<Longrightarrow> x \<in> set xs \<Longrightarrow> y \<in> set xs \<Longrightarrow> f x = f y \<Longrightarrow> x = y"
  by (auto simp: distinct_map dest: inj_onD)

lemma update_keepsT:
  assumes w: "wiredShares s" shows "keepsT s (shareInv I) (ShareUpdate s uid i permissions password expire label)"
  unfolding keepsT_def
proof (intro allI impI)
  fix v v' r
  assume run: "ShareUpdate s uid i permissions password expire label v = Some (v', r)" and inv: "shareInv I (shTable s v)"
  obtain v1 q where q: "GetForOwner s uid i v = Some (v1, q)" using run by (auto simp: ShareUpdate_def bindS_def split: option.splits)
  have i1: "shareInv I (shTable s v1)" by (rule keepsT_D [OF get_keepsT [OF w] q inv])
  show "shareInv I (shTable s v')"
  proof (cases "\<exists>sh sh1 sh2 sh3. q = Inr sh \<and> updatePerms permissions sh = Inr sh1 \<and> updateHash s password sh1 = Inr sh2 \<and> updateExpire expire sh2 = Inr sh3")
    case False
    then have "v' = v1" using run q
      by (cases q) (auto simp: ShareUpdate_def bindS_def liftS_def split: sum.splits)
    then show ?thesis using i1 by simp
  next
    case True
    then obtain sh sh1 sh2 sh3 where sh: "q = Inr sh" "updatePerms permissions sh = Inr sh1" "updateHash s password sh1 = Inr sh2" "updateExpire expire sh2 = Inr sh3"
      by blast
    define n where "n = (case label of None \<Rightarrow> sh3 | Some l \<Rightarrow> sh3\<lparr>srLabel := l\<rparr>)"
    have row: "sh \<in> set (stRows (shTable s v1))" using q sh(1) shareGetByID_row by (auto simp: GetForOwner_Inr)
    have "sameShare sh3 sh \<and> permOK I sh3 \<and> srLabel sh3 = srLabel sh"
      using update_parts [OF sh(2-4), of I] shareInvD(4) [OF i1 row] by (simp add: shareRowOK_def)
    then have n: "srID n = srID sh" "srItemType n = srItemType sh" "permOK I n"
      by (auto simp: n_def sameShare_def permOK_def split: option.split)
    have "shareInv I (fst (shareUpdate (shTable s v1) n))"
      using n distinct_row [OF shareInvD(2) [OF i1] _ row] by (intro shareUpdate_inv [OF i1]) auto
    moreover have "shTable s v' = fst (shareUpdate (shTable s v1) n)"
      using run q sh w
      by (auto simp: ShareUpdate_def bindS_def liftS_def tableS_def onPart_def retS_def n_def [symmetric] Let_def wiredShares_def split: sum.splits prod.splits)
    ultimately show ?thesis by simp
  qed
qed

lemma delete_keepsT: "wiredShares s \<Longrightarrow> keepsT s (shareInv I) (ShareDelete s uid i)"
  unfolding ShareDelete_def by (intro keepingT shareDelete_inv)

lemma resolve_keepsT: "wiredShares s \<Longrightarrow> keepsT s (shareInv I) (ResolvePublic s tok pw)" "wiredShares s \<Longrightarrow> keepsT s (shareInv I) (ResolvePublicDAV s tok pw)"
  unfolding ResolvePublic_def ResolvePublicDAV_def LookupValid_def LookupValidPublicDAV_def lookupValidShare_def by (intro keepingT; assumption)+

lemma lists_keepsT: "wiredShares s \<Longrightarrow> keepsT s (shareInv I) (ListForOwner s uid f)" "wiredShares s \<Longrightarrow> keepsT s (shareInv I) (ListIncoming s sharee)"
  unfolding ListForOwner_def ListIncoming_def by (intro keepingT; assumption)+

lemma expireJob_keepsT:
  assumes w: "wiredShares s" shows "keepsT s (shareInv I) (expireJob s)"
proof -
  have del: "shareInv I d \<Longrightarrow> shareInv I (fst (shareDeleteExpired d t))" for d t
    by (auto simp: shareDeleteExpired_def shareInv_filter split: option.split)
  have "svPart s (dismissAll n ids h) = svPart s h" if "svNotifs s = Some n" for n ids h
    using w that by (induction ids arbitrary: h) (auto simp: dismissAll_def wiredShares_def)
  then have d: "keepsT s (shareInv I) (effectS (dismissAll n ids))" if "svNotifs s = Some n" for n ids
    using that by (auto simp: keepsT_def effectS_def)
  have "svPart s (unwrapAll k shs h) = svPart s h" if "svKeys s = Some k" for k shs h
    using w that by (induction shs arbitrary: h) (auto simp: unwrapAll_def wiredShares_def)
  then have u: "keepsT s (shareInv I) (effectS (unwrapAll k shs))" if "svKeys s = Some k" for k shs
    using that by (auto simp: keepsT_def effectS_def)
  have all: "keepsT s (shareInv I) (bindS (tableS s (\<lambda>d. shareDeleteExpired d (nowMs s))) (\<lambda>ids.
     bindS (case svNotifs s of None \<Rightarrow> retS () | Some n \<Rightarrow> effectS (dismissAll n ids)) (\<lambda>_.
     case svKeys s of None \<Rightarrow> retS () | Some k \<Rightarrow> effectS (unwrapAll k (filter (\<lambda>sh. srID sh \<in> set ids) doomed)))))" for doomed
    by (intro keepingT d u del w)
  show ?thesis unfolding keepsT_def expireJob_def Let_def using all by (auto simp: keepsT_def)
qed

section \<open>What the file operations do to the table\<close>

lemma shareDeleteByPath_inv: "shareInv I d \<Longrightarrow> shareInv I (fst (shareDeleteByPath like d u p))"
  by (auto simp: shareDeleteByPath_def shareExec_def shareInv_filter split: option.split sum.split)

text \<open>
  A path that \<open>RenamePath\<close> writes is in normal form whatever the pattern of the query matched: what follows the source is cut off when the
  row begins with the source, and the whole old path is appended when it does not.
\<close>

lemma mkpath_rest:
  assumes "mkpath qs = src @ t" and "src \<noteq> []" and "list_all plain_seg qs"
  shows "\<exists>x rest. t = x @ mkpath rest \<and> CHR ''/'' \<notin> set x \<and> list_all plain_seg rest"
  using assms
proof (induction qs arbitrary: src)
  case (Cons a qs)
  obtain src' where src: "src = CHR ''/'' # src'" using Cons.prems(1,2) by (cases src) auto
  then have "a @ mkpath qs = src' @ t" using Cons.prems(1) by simp
  then have "\<exists>us. src' = a @ us \<and> us @ t = mkpath qs \<or> a = src' @ us \<and> t = us @ mkpath qs"
    unfolding append_eq_append_conv2 by metis
  then obtain us where "src' = a @ us \<and> us @ t = mkpath qs \<or> a = src' @ us \<and> t = us @ mkpath qs" by (rule exE)
  then show ?case
  proof
    assume u: "src' = a @ us \<and> us @ t = mkpath qs"
    show ?case
    proof (cases "us = []")
      case True
      then show ?thesis using u Cons.prems(3) by (intro exI [of _ "[]"] exI [of _ qs]) auto
    qed (use Cons.IH [of us] u Cons.prems(3) in auto)
  next
    assume "a = src' @ us \<and> t = us @ mkpath qs"
    then show ?case using Cons.prems(3) by (intro exI [of _ us] exI [of _ qs]) (auto simp: plain_seg_def)
  qed
qed simp

lemma plain_seg_append: "plain_seg d \<Longrightarrow> CHR ''/'' \<notin> set x \<Longrightarrow> plain_seg (d @ x)"
  by (auto simp: plain_seg_def append_eq_Cons_conv)

lemma clean_append:
  assumes "clean_path dst" and "clean_path (src @ t)" and "src \<noteq> []" shows "clean_path (dst @ t)"
proof -
  obtain ds d where d: "list_all plain_seg (ds @ [d])" "dst = mkpath (ds @ [d])" using assms(1) by (rule clean_pathE)
  obtain qs where "list_all plain_seg qs" "src @ t = mkpath qs" using assms(2) unfolding clean_path_iff by blast
  then obtain x rest where x: "t = x @ mkpath rest" "CHR ''/'' \<notin> set x" "list_all plain_seg rest"
    using mkpath_rest [of qs src t] assms(3) by auto
  show ?thesis unfolding clean_path_iff
    by (rule exI [of _ "ds @ [d @ x] @ rest"]) (use d x plain_seg_append [of d x] in simp)
qed

lemma npath_nil: "npath p \<Longrightarrow> p \<noteq> []"
  using NormalizePath_result [of p p] by (auto simp: clean_path_def)

lemma npath_append:
  assumes d: "npath dst" "dst \<noteq> ''/''" and s: "npath src \<or> src = []" and q: "npath (src @ t)" "src @ t \<noteq> ''/''"
  shows "npath (dst @ t)"
proof (rule NormalizePath_clean)
  have c: "clean_path dst" "clean_path (src @ t)" using NormalizePath_result d q by auto
  show "clean_path (dst @ t)"
  proof (cases "src = []")
    case True
    then obtain ds qs where "ds \<noteq> []" "list_all plain_seg ds" "dst = mkpath ds" "list_all plain_seg qs" "t = mkpath qs"
      using c unfolding clean_path_iff by auto
    then show ?thesis unfolding clean_path_iff by (intro exI [of _ "ds @ qs"]) simp
  qed (rule clean_append [OF c])
  note u = NormalizePath_utf8 [OF d(1)] and v = NormalizePath_utf8 [OF q(1)]
  have "utf8_valid t" using s v(1) utf8_valid_append_iff [of src t] NormalizePath_utf8(1) [of src src] by auto
  then show "utf8_valid (dst @ t)" using utf8_valid_append_iff [OF u(1)] by simp
  show "CHR 0x00 \<notin> set (dst @ t)" "CHR 0x5C \<notin> set (dst @ t)" using u(2,3) v(2,3) by auto
qed

lemma movedPath_npath:
  assumes "npath src" "npath dst" "dst \<noteq> ''/''" "npath p" and "p = src \<or> p \<noteq> ''/''"
  shows "npath (movedPath src dst p)"
proof (cases "p = src")
  case False
  show ?thesis
  proof (cases "has_prefix p src")
    case True
    then obtain t where t: "p = src @ t" by (auto simp: has_prefix_iff)
    then show ?thesis using npath_append [of dst src t] assms False by (simp add: movedPath_def trim_prefix_append)
  next
    case no: False
    then have "trim_prefix p src = p" by (simp add: trim_prefix_def)
    then show ?thesis using npath_append [of dst "[]" p] assms False by (simp add: movedPath_def)
  qed
qed (use assms in \<open>simp add: movedPath_def\<close>)

lemma shareRenamePath_inv:
  assumes i: "shareInv I d" and p: "NormalizePath sp = Inr src" "NormalizePath dp = Inr dst" "dst \<noteq> ''/''"
    and like: "src \<noteq> ''/'' \<longrightarrow> \<not> like (likeBelow src) ''/''"
  shows "shareInv I (fst (shareRenamePath like d u sp dp))"
proof (cases "shareListByPrefix like d u src")
  case (Inr items)
  have np: "npath src" "npath dst" using NormalizePath_fixed p(1,2) by auto
  have items: "set items \<subseteq> {r \<in> set (stRows d). srPath r = src \<or> srPath r \<noteq> ''/''}"
    using Inr np(1) like by (auto simp: shareListByPrefix_def shareBelow_def split: option.splits)
  have "shareInv I (d\<lparr>stRows := shareRenameRows src dst items (stRows d)\<rparr>)"
    unfolding shareRenameRows_def
  proof (rule shareInv_map [OF i])
    fix r
    assume r: "r \<in> set (stRows d)"
    show "srID (case find (\<lambda>i. srID i = srID r) items of None \<Rightarrow> r | Some i \<Rightarrow> r\<lparr>srPath := movedPath src dst (srPath i)\<rparr>) = srID r
      \<and> srToken (case find (\<lambda>i. srID i = srID r) items of None \<Rightarrow> r | Some i \<Rightarrow> r\<lparr>srPath := movedPath src dst (srPath i)\<rparr>) = srToken r
      \<and> shareRowOK I (case find (\<lambda>i. srID i = srID r) items of None \<Rightarrow> r | Some i \<Rightarrow> r\<lparr>srPath := movedPath src dst (srPath i)\<rparr>)"
    proof (cases "find (\<lambda>i. srID i = srID r) items")
      case (Some x)
      then have x: "x \<in> set items" by (auto simp: find_Some_iff)
      then have "npath (srPath x)" "srPath x = src \<or> srPath x \<noteq> ''/''" using items shareInvD(4) [OF i, of x] by (auto simp: shareRowOK_def)
      then have "npath (movedPath src dst (srPath x))" using movedPath_npath np p(3) by blast
      then show ?thesis using shareInvD(4) [OF i r] Some by (simp add: shareRowOK_def permOK_def)
    qed (use shareInvD(4) [OF i r] in simp)
  qed
  then show ?thesis using Inr p by (simp add: shareRenamePath_def)
qed (use i p in \<open>simp add: shareRenamePath_def\<close>)

section \<open>Histories\<close>

text \<open>The calls that reach the table: the service's own, the expiry job, and what the file operations report to the store.\<close>

datatype share_call =
    CallCreate string string int int string string string string string
  | CallGet string int
  | CallList string string
  | CallUpdate string int "int option" "string option" "string option" "string option"
  | CallDelete string int
  | CallLink string string
  | CallDAV string string
  | CallIncoming string
  | CallExpire

definition shareCall :: "('s, 'd, 'h) Service \<Rightarrow> share_call \<Rightarrow> ('s, 'd, 'h) davState \<Rightarrow> ('s, 'd, 'h) davState option" where
  "shareCall s c w = (case c of
      CallCreate u p t perms sharee pw e l og \<Rightarrow> map_option fst (shareCreate s u p t perms sharee pw e l og w)
    | CallGet u i \<Rightarrow> map_option fst (GetForOwner s u i w)
    | CallList u f \<Rightarrow> map_option fst (ListForOwner s u f w)
    | CallUpdate u i perms pw e l \<Rightarrow> map_option fst (ShareUpdate s u i perms pw e l w)
    | CallDelete u i \<Rightarrow> map_option fst (ShareDelete s u i w)
    | CallLink tok pw \<Rightarrow> map_option fst (ResolvePublic s tok pw w)
    | CallDAV tok pw \<Rightarrow> map_option fst (ResolvePublicDAV s tok pw w)
    | CallIncoming u \<Rightarrow> map_option fst (ListIncoming s u w)
    | CallExpire \<Rightarrow> map_option fst (expireJob s w))"

lemma shareCall_inv:
  assumes "wiredShares s" and "shareCall s c w = Some w'" and "shareInv I (shTable s w)" shows "shareInv I (shTable s w')"
proof -
  note k = create_keepsT get_keepsT lists_keepsT update_keepsT delete_keepsT resolve_keepsT expireJob_keepsT
  show ?thesis using assms(2,3) k [OF assms(1)] by (cases c) (auto simp: shareCall_def keepsT_def)
qed

lemma valid_no_reshare:
  assumes "validSharePerms t perms" shows "\<not> has_perm perms PermShare"
proof -
  have "perms = 1 \<or> perms = 2 \<or> perms = 3 \<or> perms = 4 \<or> perms = 5 \<or> perms = 6 \<or> perms = 7 \<or> perms = 8 \<or> perms = 9 \<or> perms = 10 \<or> perms = 11
    \<or> perms = 12 \<or> perms = 13 \<or> perms = 14 \<or> perms = 15"
    using assms by (simp add: validSharePerms_def perm_defs split: if_splits) presburger
  then show ?thesis by (auto simp: has_perm_def perm_defs)
qed

text \<open>
  A history of the table: a call of the service, at any clock and with any token and directory of users; a row that
  \<open>import-nextcloud shares\<close> inserts (\<^verbatim>\<open>src/cmd/ncgo-cli/importnc_shares.go\<close>) with the permissions of the source, unchecked, under an identifier of \<open>I\<close>; a path
  deleted or renamed by a file operation, where the pattern of the query may match more than it means to; the rows that go with the
  account of their owner; the sealed names of a share rewritten; the database going down or coming back; a change of the other state.
\<close>

definition importedShare :: "Share \<Rightarrow> bool" where
  "importedShare sh \<longleftrightarrow> (srItemType sh = ''file'' \<or> srItemType sh = ''folder'') \<and> srType sh \<in> {ShareTypeUser, ShareTypeGroup, ShareTypeLink}"

definition sealNames :: "int \<Rightarrow> string \<Rightarrow> string \<Rightarrow> Share \<Rightarrow> Share" where
  "sealNames i mnt abspath r = (if srID r = i then r\<lparr>srMountNameEnc := mnt, srAbsPathEnc := abspath\<rparr> else r)"

lemma sealNames_inv: "shareInv I d \<Longrightarrow> shareInv I (d\<lparr>stRows := map (sealNames i mnt abspath) (stRows d)\<rparr>)"
  by (rule shareInv_map) (auto simp: sealNames_def shareRowOK_def permOK_def dest: shareInvD(4))

inductive shareReach :: "int set \<Rightarrow> ('h \<Rightarrow> shareTable) \<Rightarrow> ('s, 'd, 'h) davState \<Rightarrow> bool" for I part where
  sr_start: "part (vHooks w) = \<lparr>stRows = [], stNext = 1, stDown = None\<rparr> \<Longrightarrow> shareReach I part w"
| sr_call: "shareReach I part w \<Longrightarrow> svPart s = part \<Longrightarrow> wiredShares s \<Longrightarrow> shareCall s c w = Some w' \<Longrightarrow> shareReach I part w'"
| sr_import: "shareReach I part w \<Longrightarrow> importedShare sh \<Longrightarrow> stNext (part (vHooks w)) \<in> I
    \<Longrightarrow> part (vHooks w') = fst (shareInsert (part (vHooks w)) sh) \<Longrightarrow> shareReach I part w'"
| sr_delete: "shareReach I part w \<Longrightarrow> part (vHooks w') = fst (shareDeleteByPath like (part (vHooks w)) u p) \<Longrightarrow> shareReach I part w'"
| sr_rename: "shareReach I part w \<Longrightarrow> NormalizePath sp = Inr src \<Longrightarrow> NormalizePath dp = Inr dst \<Longrightarrow> dst \<noteq> ''/''
    \<Longrightarrow> src \<noteq> ''/'' \<longrightarrow> \<not> like (likeBelow src) ''/''
    \<Longrightarrow> part (vHooks w') = fst (shareRenamePath like (part (vHooks w)) u sp dp) \<Longrightarrow> shareReach I part w'"
| sr_owner: "shareReach I part w \<Longrightarrow> part (vHooks w') = (part (vHooks w))\<lparr>stRows := filter (\<lambda>r. srOwner r \<noteq> u) (stRows (part (vHooks w)))\<rparr>
    \<Longrightarrow> shareReach I part w'"
| sr_seal: "shareReach I part w \<Longrightarrow> part (vHooks w') = (part (vHooks w))\<lparr>stRows := map (sealNames i mnt abspath) (stRows (part (vHooks w)))\<rparr>
    \<Longrightarrow> shareReach I part w'"
| sr_down: "shareReach I part w \<Longrightarrow> part (vHooks w') = (part (vHooks w))\<lparr>stDown := x\<rparr> \<Longrightarrow> shareReach I part w'"

inductive_cases shareReachE: "shareReach I part w"

text \<open>
  C29. Every table of shares that is reached from an empty one is well-formed, whatever the calls of the service, the rows the
  import brings, the deleted and renamed paths, deleted owners and rewritten sealed names: identifiers and tokens are unique,
  below the next identifier, tokens are not empty, the path of every row is in normal form and its type is one of the four. The
  permissions of every row that was not imported are valid for its kind, so that it never carries the right to
  share on, and a shared file is read only. The sweep that encrypts or decrypts all names, and rewrites the paths with them, is not a step here.
\<close>

theorem share_table_invariant:
  assumes "shareReach I part w"
  shows "shareInv I (part (vHooks w)) \<and> (\<forall>r \<in> set (stRows (part (vHooks w))). srID r \<notin> I \<longrightarrow>
      \<not> has_perm (srPermissions r) PermShare \<and> (srItemType r = ''file'' \<longrightarrow> srPermissions r = PermRead))"
proof -
  have "shareInv I (part (vHooks w))" using assms
  proof induction
    case (sr_call w s c w')
    then show ?case using shareCall_inv [of s c w w'] by simp
  next
    case (sr_import w sh w')
    then show ?case using shareInsert_inv [of I "part (vHooks w)" sh] by (auto simp: importedShare_def)
  next
    case (sr_delete w w' like u p)
    then show ?case using shareDeleteByPath_inv by simp
  next
    case (sr_rename w sp src dp dst like w' u)
    then show ?case using shareRenamePath_inv [of I "part (vHooks w)" sp src dp dst like u] by simp
  next
    case (sr_seal w w' i mnt abspath)
    then show ?case using sealNames_inv by simp
  qed (simp_all add: shareInv_filter, simp_all add: shareInv_def)
  then show ?thesis using valid_no_reshare by (auto simp: shareInv_def shareRowOK_def permOK_def validSharePerms_def)
qed

section \<open>A server with shares\<close>

definition demoShares :: "Share list \<Rightarrow> shareTable" where
  "demoShares rows = \<lparr>stRows = rows, stNext = 3, stDown = None\<rparr>"

definition demoShareRow :: "int \<Rightarrow> int \<Rightarrow> int \<Rightarrow> string \<Rightarrow> string \<Rightarrow> int \<Rightarrow> string \<Rightarrow> Share" where
  "demoShareRow i owner typ p tok perms sharee = \<lparr>srID = i, srOwner = owner, srType = typ, srPath = p, srItemType = ''folder'', srToken = tok, srHash = [],
     srPermissions = perms, srLabel = [], srExpireMs = 0, srStimeMs = 0, srWith = sharee, srAccepted = 1, srMountNameEnc = [], srAbsPathEnc = []\<rparr>"

definition demoShareUser :: "int \<Rightarrow> string \<Rightarrow> ShareUser" where
  "demoShareUser i u = \<lparr>suID = i, suUID = u, suDisplayName = u\<rparr>"

definition demoShareFiles :: "(disk, unit, shareTable) davAdapter" where
  "demoShareFiles = \<lparr>aStorage = localfs, aUsers = (\<lambda>u. if u = ''alice'' then Inr demoUser else Inl UErrNotFound),
     aNow = 9, aSha1 = (\<lambda>s. s), aSha256 = (\<lambda>s. s), aLike = (\<lambda>s p. False), aTrash = None, aVersions = None, aProps = None,
     aLocks = None, aShares = None, aIncoming = None, aRemote = None, aLiveProps = None,
     aSetLiveProp = (\<lambda>h _ _ _ _ _. (h, None)), aEvents = None, aActivity = None\<rparr>"

definition demoService :: "(disk, unit, shareTable) Service" where
  "demoService = \<lparr>svPart = (\<lambda>h. h), svPut = (\<lambda>t h. t), svFiles = demoShareFiles,
     svUsers = \<lparr>suGetByUID = (\<lambda>u. if u = ''alice'' then Inr (demoShareUser 1 u) else if u = ''carol'' then Inr (demoShareUser 2 u)
         else if u = ''bob'' then Inr (demoShareUser 3 u) else Inl UErrNotFound),
       suGetByID = (\<lambda>i. if i = 1 then Inr (demoShareUser 1 ''alice'') else if i = 2 then Inr (demoShareUser 2 ''carol'') else Inl UErrNotFound),
       suGroupName = (\<lambda>g. Inl UErrNotFound), suGroupGIDs = (\<lambda>u. Inr []), suGroupMembers = (\<lambda>g. Inr [])\<rparr>,
     svHasher = None, svNow = 9000000000, svToken = Inr ''tok'', svOCM = None, svNotifs = None, svKeys = None, svHost = (\<lambda>u. None)\<rparr>"

definition demoShareState :: "Share list \<Rightarrow> (disk, unit, shareTable) davState" where
  "demoShareState rows = \<lparr>vMeta = demoMeta 0, vStorage = [([], DDir), ([''alice''], DDir), ([''alice'', ''x''], DFile ''abc'')], vLocks = (), vHooks = demoShares rows\<rparr>"

lemma demoService_wired: "wiredShares demoService"
  by (simp add: wiredShares_def demoService_def)

lemma demoShare_inv: "davInv map_of diskOK demoShareFiles ''alice'' demoUser (demoShareState rows)"
proof (rule demoMeta_davInv)
  show "diskOK (vStorage (demoShareState rows))" by (auto simp: demoShareState_def diskOK_def split: if_splits)
qed (simp_all add: demoShareState_def demoShareFiles_def)

lemma demo_served: "shTable demoService (demoShareState rows) = demoShares rows"
  by (simp add: demoService_def demoShareState_def)

definition demoShareEmpty :: "(disk, unit, shareTable) davState" where
  "demoShareEmpty = (demoShareState [])\<lparr>vHooks := \<lparr>stRows = [], stNext = 1, stDown = None\<rparr>\<rparr>"

definition demoImported :: Share where
  "demoImported = demoShareRow 0 1 ShareTypeUser ''/x'' ''imp'' 17 ''bob''"

lemma demo_import:
  "map_option (\<lambda>w. (stNext (vHooks w), map srToken (stRows (vHooks w)), map (\<lambda>r. (srID r, srPermissions r)) (stRows (fst (shareInsert (vHooks w) demoImported)))))
     (shareCall demoService (CallCreate ''alice'' ''/x'' 3 0 [] [] [] [] []) demoShareEmpty) = Some (2, [''tok''], [(1, 1), (2, 17)])"
  by code_simp

theorem share_table_invariant_witness:
  "\<exists>w. map (\<lambda>r. (srID r, srPermissions r)) (stRows (vHooks w)) = [(1, 1), (2, 17)] \<and> shareReach {2} (\<lambda>h. h) (w :: (disk, unit, shareTable) davState)
    \<and> shareInv {2} (vHooks w) \<and> (\<forall>r \<in> set (stRows (vHooks w)). srID r \<noteq> 2 \<longrightarrow> \<not> has_perm (srPermissions r) PermShare)"
proof -
  obtain w where w: "shareCall demoService (CallCreate ''alice'' ''/x'' 3 0 [] [] [] [] []) demoShareEmpty = Some w" "stNext (vHooks w) = 2"
      "map (\<lambda>r. (srID r, srPermissions r)) (stRows (fst (shareInsert (vHooks w) demoImported))) = [(1, 1), (2, 17)]"
    using demo_import by (auto simp: map_option_case split: option.splits)
  have "shareReach {2} (\<lambda>h. h) demoShareEmpty" by (rule sr_start) (simp add: demoShareEmpty_def)
  from sr_call [OF this _ demoService_wired w(1)] have r: "shareReach {2} (\<lambda>h. h) w" by (simp add: demoService_def)
  define v where "v = w\<lparr>vHooks := fst (shareInsert (vHooks w) demoImported)\<rparr>"
  have "shareReach {2} (\<lambda>h. h) v"
    by (rule sr_import [OF r, of demoImported]) (simp_all add: v_def w(2) importedShare_def demoImported_def demoShareRow_def)
  from share_table_invariant [OF this] this show ?thesis using w(3) by (intro exI [of _ v]) (simp add: v_def)
qed

end
