(* ===== verification/Sharing_Access.thy ===== *)
theory Sharing_Access
  imports Sharing_Laws
begin

text \<open>
  What a share gives access to: the files that a public token reaches and what it may change there, the paths that a recipient's
  mounts resolve to, whose rows an owner's request can change, and the shares that cover a path.
\<close>

section \<open>What a token reaches\<close>

text \<open>The share that a token stands for, without its password, and its owner.\<close>

definition servedBy :: "('s, 'd, 'h) Service \<Rightarrow> ('s, 'd, 'h) davState \<Rightarrow> string \<Rightarrow> Share \<Rightarrow> ShareUser \<Rightarrow> bool" where
  "servedBy s w tok sh owner \<longleftrightarrow> shareGetByToken (shTable s w) tok = Inr sh \<and> (srType sh = ShareTypeLink \<or> srType sh = ShareTypeRemote)
     \<and> liveShare (nowMs s) sh \<and> suGetByID (svUsers s) (srOwner sh) = Inr owner"

lemma LookupValidPublicDAV_Inr: "LookupValidPublicDAV s tok w = Some (w', Inr (sh, owner)) \<longleftrightarrow> w' = w \<and> servedBy s w tok sh owner"
  by (auto simp: LookupValidPublicDAV_def share_Inr lookupValidShare_Inr servedBy_def split: if_splits)

abbreviation publicOf :: "('s, 'd, 'h) Service \<Rightarrow> ('s, 'd, 'h) PublicDAV" where
  "publicOf s \<equiv> \<lparr>pbFiles = svFiles s, pbResolve = LookupValidPublicDAV s\<rparr>"

lemma thenOp_Inr: "thenOp m k w = Some (w', Inr y) \<longleftrightarrow> (\<exists>w1 x. m w = Some (w1, Inr x) \<and> k x w1 = Some (w', Inr y))"
  by (auto simp: thenOp_def tryOp_def failOp_def split: option.splits sum.splits)

lemma liftOp_Inr: "liftOp r w = Some (w', Inr y) \<longleftrightarrow> w' = w \<and> r = Inr y" and failOp_Inr: "failOp e w \<noteq> Some (w', Inr y)"
  and retOp_Inr: "retOp x w = Some (w', Inr y) \<longleftrightarrow> w' = w \<and> y = x"
  by (auto simp: liftOp_def failOp_def retOp_def)

lemmas dav_Inr = thenOp_Inr liftOp_Inr failOp_Inr retOp_Inr

lemma shareGetByToken_row: "shareGetByToken d tok = Inr sh \<Longrightarrow> sh \<in> set (stRows d) \<and> srToken sh = tok \<and> tok \<noteq> []"
  by (auto simp: shareGetByToken_def shareRow_def find_Some_iff split: if_splits option.splits)

lemma publicResolve_Inr:
  "publicResolve (publicOf s) tok w = Some (w', Inr (sh, owner)) \<longleftrightarrow> w' = w \<and> servedBy s w tok sh owner \<and> srAbsPathEnc sh = []"
proof -
  have step: "(case LookupValidPublicDAV s tok w of None \<Rightarrow> None | Some (w', r) \<Rightarrow> Some (w', map_sum shareErr (\<lambda>x. x) r)) = Some (w1, Inr (sh', owner'))
      \<longleftrightarrow> w1 = w \<and> servedBy s w tok sh' owner'" for w1 sh' owner'
    using LookupValidPublicDAV_Inr [of s tok w w1 sh' owner'] by (auto split: option.splits) (case_tac b; auto)+
  have "servedBy s w tok sh owner \<Longrightarrow> tok \<noteq> []" by (auto simp: servedBy_def dest: shareGetByToken_row)
  then show ?thesis by (auto simp: publicResolve_def dav_Inr step split: if_splits)
qed

lemma served_inside:
  assumes "shareInv I (shTable s w)" and "servedBy s w tok sh owner" and "jailPath sh rel = Inr q"
  shows "npath q \<and> inShare (srPath sh) q \<and> (srItemType sh = ''file'' \<longrightarrow> q = srPath sh)"
  using jailPath_inside [OF _ assms(3)] shareInvD(4) [OF assms(1)] shareGetByToken_row assms(2) by (auto simp: servedBy_def shareRowOK_def)

lemma publicAt_Inr:
  assumes "shareInv I (shTable s w)" and "publicAt (publicOf s) tok rel f w = Some (w', Inr x)"
  obtains sh owner q where "servedBy s w tok sh owner" "npath q" "inShare (srPath sh) q" "srItemType sh = ''file'' \<longrightarrow> q = srPath sh"
    "f sh (suUID owner) q w = Some (w', Inr x)"
proof -
  obtain sh owner q where q: "servedBy s w tok sh owner" "jailPath sh rel = Inr q" "f sh (suUID owner) q w = Some (w', Inr x)"
    using assms(2) by (auto simp: publicAt_def dav_Inr publicResolve_Inr)
  show thesis using that [OF q(1) _ _ _ q(3)] served_inside [OF assms(1) q(1,2)] by blast
qed

text \<open>
  C25. Whatever a public token reads is a file of the owner at a path inside the shared tree (the shared file itself, when a file is
  shared), of an unexpired link or federated share that has this token, and the answer is the owner's own with the entry's path made relative.
\<close>

theorem public_read_jailed:
  assumes "shareInv I (shTable s w)" and "publicRead (publicOf s) tok rel w = Some (w', Inr (content, e))"
  shows "\<exists>sh owner q e0. servedBy s w tok sh owner \<and> inShare (srPath sh) q \<and> (srItemType sh = ''file'' \<longrightarrow> q = srPath sh)
    \<and> davReadOp (svFiles s) (suUID owner) q w = Some (w', Inr (content, e0)) \<and> e = publicize sh e0"
  using assms(2) unfolding publicRead_def
  by (rule publicAt_Inr [OF assms(1)]) (auto simp: dav_Inr)

lemma public_write_permitted:
  assumes i: "shareInv I (shTable s w)" and "publicWriteIf (publicOf s) muted tok rel r mtime cond w = Some (w', Inr (e, created))"
  shows "\<exists>sh owner q w1 st e0. servedBy s w tok sh owner \<and> inShare (srPath sh) q \<and> davStatOp (svFiles s) (suUID owner) q w = Some (w1, st)
        \<and> has_perm (srPermissions sh) (case st of Inl _ \<Rightarrow> PermCreate | Inr _ \<Rightarrow> PermUpdate)
        \<and> davWriteIf (svFiles s) muted (suUID owner) q r mtime cond w1 = Some (w', Inr (e0, created))"
  using assms(2) unfolding publicWriteIf_def
proof (rule publicAt_Inr [OF i])
  fix sh owner q
  assume q: "servedBy s w tok sh owner" "inShare (srPath sh) q"
    and run: "tryOp (davStatOp (pbFiles (publicOf s)) (suUID owner) q) (\<lambda>st.
      let need = (case st of Inl _ \<Rightarrow> PermCreate | Inr _ \<Rightarrow> PermUpdate) in
      if \<not> has_perm (srPermissions sh) need then failOp ErrForbidden
      else thenOp (davWriteIf (pbFiles (publicOf s)) muted (suUID owner) q r mtime cond) (\<lambda>(ent, created). retOp (publicize sh ent, created))) w
      = Some (w', Inr (e, created))"
  obtain w1 st where st: "davStatOp (svFiles s) (suUID owner) q w = Some (w1, st)" using run by (auto simp: tryOp_def split: option.splits)
  then have "has_perm (srPermissions sh) (case st of Inl _ \<Rightarrow> PermCreate | Inr _ \<Rightarrow> PermUpdate)"
    "\<exists>e0. davWriteIf (svFiles s) muted (suUID owner) q r mtime cond w1 = Some (w', Inr (e0, created))"
    using run by (auto simp: tryOp_def Let_def dav_Inr split: if_splits)
  then show ?thesis using q st by blast
qed

lemma public_mkdir_permitted:
  assumes i: "shareInv I (shTable s w)" and "publicMkdir (publicOf s) muted tok rel w = Some (w', Inr e)"
  shows "\<exists>sh owner q e0. servedBy s w tok sh owner \<and> inShare (srPath sh) q \<and> has_perm (srPermissions sh) PermCreate
        \<and> davMkdir (svFiles s) muted (suUID owner) q w = Some (w', Inr e0)"
  using served_inside [OF i] assms(2) unfolding publicMkdir_def
  by (auto simp: dav_Inr publicResolve_Inr split: if_splits) blast

lemma public_remove_permitted:
  assumes i: "shareInv I (shTable s w)" and "publicRemove (publicOf s) tok rel w = Some (w', Inr ())"
  shows "\<exists>sh owner q. servedBy s w tok sh owner \<and> inShare (srPath sh) q \<and> q \<noteq> srPath sh \<and> has_perm (srPermissions sh) PermDelete
        \<and> davRemove (svFiles s) (suUID owner) q w = Some (w', Inr ())"
  using served_inside [OF i] assms(2) unfolding publicRemove_def
  by (auto simp: dav_Inr publicResolve_Inr split: if_splits) blast

text \<open>
  C26. A public token changes only what its share permits: an accepted upload is the owner's upload at a path inside the share, and the
  share has the permission to create, or to update when the owner has something at the path; a new directory needs the permission to
  create; and a removal that of deleting, at a path other than the share itself.
\<close>

theorem public_changes_permitted:
  assumes i: "shareInv I (shTable s w)"
  shows "(publicWriteIf (publicOf s) muted tok rel r mtime cond w = Some (w', Inr (e, created)) \<longrightarrow>
      (\<exists>sh owner q w1 st e0. servedBy s w tok sh owner \<and> inShare (srPath sh) q \<and> davStatOp (svFiles s) (suUID owner) q w = Some (w1, st)
        \<and> has_perm (srPermissions sh) (case st of Inl _ \<Rightarrow> PermCreate | Inr _ \<Rightarrow> PermUpdate)
        \<and> davWriteIf (svFiles s) muted (suUID owner) q r mtime cond w1 = Some (w', Inr (e0, created))))
    \<and> (publicMkdir (publicOf s) muted tok rel w = Some (w', Inr de) \<longrightarrow>
      (\<exists>sh owner q e0. servedBy s w tok sh owner \<and> inShare (srPath sh) q \<and> has_perm (srPermissions sh) PermCreate
        \<and> davMkdir (svFiles s) muted (suUID owner) q w = Some (w', Inr e0)))
    \<and> (publicRemove (publicOf s) tok rel w = Some (w', Inr ()) \<longrightarrow>
      (\<exists>sh owner q. servedBy s w tok sh owner \<and> inShare (srPath sh) q \<and> q \<noteq> srPath sh \<and> has_perm (srPermissions sh) PermDelete
        \<and> davRemove (svFiles s) (suUID owner) q w = Some (w', Inr ())))"
  using public_write_permitted [OF i] public_mkdir_permitted [OF i] public_remove_permitted [OF i] by meson

section \<open>What a recipient is given\<close>

lemma npath_mount:
  assumes "npath p" and "p \<noteq> ''/''"
  shows "npath (''/'' @ pathBase p)" "''/'' @ pathBase p \<noteq> ''/''"
proof -
  obtain segs b where b: "list_all plain_seg (segs @ [b])" "p = mkpath (segs @ [b])" using normal_path [OF assms(1)] assms(2) clean_pathE by blast
  have ns: "CHR ''/'' \<notin> set b" "b \<noteq> []" "plain_seg b" using b(1) by (auto simp: plain_seg_def)
  have p: "p = mkpath segs @ CHR ''/'' # b" using b(2) by simp
  have "\<not> has_suffix p ''/''" unfolding p has_suffix_iff using ns by (metis last_ConsR last_appendR last_in_set last_snoc list.distinct(1))
  then have base: "pathBase p = b" using last_index_mkpath [OF ns(1), of "mkpath segs"] by (simp add: pathBase_def trim_suffix_def p)
  note u = NormalizePath_utf8 [OF assms(1)]
  have "utf8_valid (mkpath segs)" using utf8_valid_prefix [of "mkpath segs" "CHR ''/'' # b"] u(1) by (simp add: p)
  then have "utf8_valid (CHR ''/'' # b)" using utf8_valid_append_iff [of "mkpath segs"] u(1) by (simp add: p)
  moreover have "clean_path (CHR ''/'' # b)" using clean_path_mkpath [of "[b]"] ns(3) by simp
  ultimately show "npath (''/'' @ pathBase p)" using u(2,3) base p by (auto intro: NormalizePath_clean)
  show "''/'' @ pathBase p \<noteq> ''/''" using base ns(2) by simp
qed

text \<open>The mounts that the loop makes, one for each unexpired share of something below the root whose owner exists.\<close>

definition mountsOf :: "('s, 'd, 'h) Service \<Rightarrow> Share \<Rightarrow> IncomingMount list" where
  "mountsOf s sh = (if \<not> liveShare (nowMs s) sh \<or> srPath sh = ''/'' then []
     else case suGetByID (svUsers s) (srOwner sh) of Inl _ \<Rightarrow> [] | Inr owner \<Rightarrow> [incomingMount owner sh])"

lemma expireIfNeeded_Inr: "expireIfNeeded s sh w = Some (w', Inr expired) \<Longrightarrow> expired \<longleftrightarrow> \<not> liveShare (nowMs s) sh"
  by (cases expired) (auto simp: expireIfNeeded_live dest: expireIfNeeded_False)

lemma mountShares_Inr: "mountShares s shs w = Some (w', Inr mounts) \<Longrightarrow> mounts = concat (map (mountsOf s) shs)"
proof (induction shs arbitrary: w mounts)
  case (Cons sh shs)
  then show ?case
    by (auto simp: share_Inr mountsOf_def split: sum.splits dest!: expireIfNeeded_Inr)
qed (simp add: retS_Inr)

text \<open>A share that is given to a user, himself or through a group.\<close>

definition grantedTo :: "('s, 'd, 'h) Service \<Rightarrow> string \<Rightarrow> Share \<Rightarrow> bool" where
  "grantedTo s u sh \<longleftrightarrow> srAccepted sh = 1 \<and> (srType sh = ShareTypeUser \<and> srWith sh = u
     \<or> srType sh = ShareTypeGroup \<and> (\<exists>gids. suGroupGIDs (svUsers s) u = Inr gids \<and> srWith sh \<in> set gids))"

lemma map_sum_Inr: "map_sum f g r = Inr y \<longleftrightarrow> (\<exists>x. r = Inr x \<and> y = g x)"
  by (cases r) auto

lemma ListIncoming_Inr:
  assumes "ListIncoming s u w = Some (w', Inr mounts)"
  shows "mounts = [] \<or> mounts = concat (map (mountsOf s) (sort_key srID (filter (grantedTo s u) (stRows (shTable s w)))))"
proof (cases "u = [] \<or> (\<exists>e. suGetByUID (svUsers s) u = Inl e)")
  case True
  then show ?thesis using assms by (auto simp: ListIncoming_def share_Inr split: if_splits)
next
  case False
  then obtain usr where u: "u \<noteq> []" "suGetByUID (svUsers s) u = Inr usr" by (cases "suGetByUID (svUsers s) u") auto
  obtain gids items where g: "suGroupGIDs (svUsers s) u = Inr gids" "shareListBySharee (shTable s w) u gids = Inr items" "mountShares s items w = Some (w', Inr mounts)"
    using assms u by (auto simp: ListIncoming_def share_Inr map_sum_Inr)
  have "grantedTo s u = (\<lambda>r. srAccepted r = 1 \<and> (u \<noteq> [] \<and> srType r = ShareTypeUser \<and> srWith r = u \<or> gids \<noteq> [] \<and> srType r = ShareTypeGroup \<and> srWith r \<in> set gids))"
    using u g(1) by (auto simp: grantedTo_def fun_eq_iff)
  then have "items = sort_key srID (filter (grantedTo s u) (stRows (shTable s w)))"
    using g(2) u by (auto simp: shareListBySharee_def shareQuery_def split: option.splits)
  then show ?thesis using mountShares_Inr [OF g(3)] by simp
qed

text \<open>
  C28. A recipient reaches only what was shared with him: when the mounts that \<open>ListIncoming\<close> answers resolve a path of
  the recipient to a path of somebody else, an accepted and unexpired share grants that user, himself or as a member of a group,
  the tree that holds the path, the mount carries the permissions of this share, which do not include sharing on unless the share was imported, and a shared file resolves to itself only.
\<close>

theorem incoming_confined:
  assumes i: "shareInv I (shTable s w)" and l: "ListIncoming s u w = Some (w', Inr mounts)"
    and d: "dIncoming dav = Some inc" "inc u = Inr mounts" and look: "lookupIncoming dav u p = Inr (m, q)"
  shows "\<exists>sh owner. sh \<in> set (stRows (shTable s w)) \<and> grantedTo s u sh \<and> liveShare (nowMs s) sh \<and> suGetByID (svUsers s) (srOwner sh) = Inr owner
    \<and> imOwnerUID m = suUID owner \<and> imPermissions m = srPermissions sh \<and> (srID sh \<notin> I \<longrightarrow> \<not> has_perm (imPermissions m) PermShare)
    \<and> npath q \<and> inShare (srPath sh) q \<and> (srItemType sh = ''file'' \<longrightarrow> q = srPath sh)"
proof -
  obtain np where np: "NormalizePath p = Inr np" and m: "m \<in> set mounts" "np = imMount m \<or> imItemType m = ''folder'' \<and> has_prefix np (imMount m @ ''/'')"
      and q: "q = (if np = imMount m then imOwnerPath m else imOwnerPath m @ trim_prefix np (imMount m))"
    using look d by (auto simp: lookupIncoming_def find_Some_iff split: sum.splits option.splits)
  obtain sh where sh: "sh \<in> set (stRows (shTable s w))" "grantedTo s u sh" "m \<in> set (mountsOf s sh)"
    using ListIncoming_Inr [OF l] m(1) by auto
  then obtain owner where o: "liveShare (nowMs s) sh" "srPath sh \<noteq> ''/''" "suGetByID (svUsers s) (srOwner sh) = Inr owner" "m = incomingMount owner sh"
    by (cases "suGetByID (svUsers s) (srOwner sh)") (auto simp: mountsOf_def split: if_splits)
  have row: "shareRowOK I sh" using shareInvD(4) [OF i sh(1)] by simp
  then have perms: "permOK I sh" and sp: "npath (srPath sh)" by (auto simp: shareRowOK_def)
  then have re: "srID sh \<notin> I \<longrightarrow> \<not> has_perm (srPermissions sh) PermShare" using valid_no_reshare by (auto simp: permOK_def)
  note mount = npath_mount [OF sp o(2)]
  have npn: "npath np" by (rule NormalizePath_fixed [OF np])
  have "npath q \<and> inShare (srPath sh) q \<and> (srItemType sh = ''file'' \<longrightarrow> q = srPath sh)"
  proof (cases "np = imMount m")
    case True
    then show ?thesis using q sp o(4) by (simp add: inShare_def incomingMount_def)
  next
    case False
    then have b: "below (''/'' @ pathBase (srPath sh)) np" and f: "srItemType sh = ''folder''" using m(2) o(4) by (auto simp: below_def incomingMount_def)
    have qr: "q = rebase (''/'' @ pathBase (srPath sh)) (srPath sh) np"
      using q False o(4) b trim_prefix_append [of "CHR ''/'' # pathBase (srPath sh)"] by (auto simp: incomingMount_def rebase_def below_append)
    show ?thesis using NormalizePath_rebase [OF mount(1) sp npn mount(2) o(2) b] rebase_below [OF b, of "srPath sh"] f by (simp add: qr inShare_def)
  qed
  then show ?thesis using sh(1,2) o re by (intro exI [of _ sh] exI [of _ owner]) (simp add: incomingMount_def)
qed

section \<open>Two shares of one name\<close>

lemma find_append: "find P (xs @ ys) = (case find P xs of None \<Rightarrow> find P ys | Some x \<Rightarrow> Some x)"
  by (induction xs) auto

lemma find_mount_first:
  assumes "sorted (map srID xs)" and "x1 \<in> set xs" and "m1 \<in> set (mountsOf s x1)" and "P m1"
    and "find P (concat (map (mountsOf s) xs)) = Some m"
  shows "\<exists>x \<in> set xs. m \<in> set (mountsOf s x) \<and> srID x \<le> srID x1"
  using assms(1,2,5)
proof (induction xs)
  case (Cons y ys)
  show ?case
  proof (cases "find P (mountsOf s y)")
    case None
    then have "y \<noteq> x1" using assms(3,4) by (auto simp: find_None_iff)
    moreover have "find P (concat (map (mountsOf s) ys)) = Some m" using Cons.prems(3) None by (simp add: find_append)
    ultimately show ?thesis using Cons by auto
  next
    case (Some m')
    then have "m' = m" using Cons.prems(3) by (simp add: find_append)
    then have "m \<in> set (mountsOf s y)" using Some by (auto simp: find_Some_iff)
    then show ?thesis using Cons.prems(1,2) by auto
  qed
qed simp

lemma mountsOf_live:
  "liveShare (nowMs s) sh \<Longrightarrow> srPath sh \<noteq> ''/'' \<Longrightarrow> suGetByID (svUsers s) (srOwner sh) = Inr owner \<Longrightarrow> mountsOf s sh = [incomingMount owner sh]"
  by (simp add: mountsOf_def)

text \<open>
  Two folders of the same name, shared by two people with one recipient, give two mounts at the same place, and only the older
  share can be reached: no path of the recipient resolves to the newer one, as long as the older one exists.
\<close>

theorem same_name_share_unreachable:
  assumes i: "shareInv I (shTable s w)" and l: "ListIncoming s u w = Some (w', Inr mounts)" "mounts \<noteq> []"
    and d: "dIncoming dav = Some inc" "inc u = Inr mounts"
    and s1: "sh1 \<in> set (stRows (shTable s w))" "grantedTo s u sh1" "liveShare (nowMs s) sh1" "srPath sh1 \<noteq> ''/''" "srItemType sh1 = ''folder''"
      "suGetByID (svUsers s) (srOwner sh1) = Inr o1"
    and s2: "pathBase (srPath sh2) = pathBase (srPath sh1)" "suUID o2 \<noteq> suUID o1"
    and first: "\<And>sh. sh \<in> set (stRows (shTable s w)) \<Longrightarrow> grantedTo s u sh \<Longrightarrow> pathBase (srPath sh) = pathBase (srPath sh1) \<Longrightarrow> srID sh1 \<le> srID sh"
  shows "lookupIncoming dav u p \<noteq> Inr (incomingMount o2 sh2, q)"
proof
  assume look: "lookupIncoming dav u p = Inr (incomingMount o2 sh2, q)"
  define m where "m = incomingMount o2 sh2"
  define m1 where "m1 = incomingMount o1 sh1"
  have same: "imMount m = imMount m1" "imOwnerUID m \<noteq> imOwnerUID m1" "imItemType m1 = ''folder''" using s2 s1(5) by (simp_all add: m_def m1_def incomingMount_def)
  obtain np where np: "find (\<lambda>m. np = imMount m \<or> imItemType m = ''folder'' \<and> has_prefix np (imMount m @ ''/'')) mounts = Some m"
    using look d by (auto simp: lookupIncoming_def m_def split: sum.splits option.splits)
  let ?P = "\<lambda>m. np = imMount m \<or> imItemType m = ''folder'' \<and> has_prefix np (imMount m @ ''/'')"
  let ?xs = "sort_key srID (filter (grantedTo s u) (stRows (shTable s w)))"
  have ms: "mounts = concat (map (mountsOf s) ?xs)" using ListIncoming_Inr [OF l(1)] l(2) by blast
  have "?P m" using np by (auto simp: find_Some_iff)
  then have "?P m1" using same by auto
  moreover have m1: "mountsOf s sh1 = [m1]" using mountsOf_live [OF s1(3,4,6)] by (simp add: m1_def)
  ultimately obtain x where x: "x \<in> set ?xs" "m \<in> set (mountsOf s x)" "srID x \<le> srID sh1"
    using find_mount_first [of ?xs sh1 m1 s ?P m] np s1(1,2) by (auto simp: ms)
  obtain o3 where "m = incomingMount o3 x" using x(2) by (cases "suGetByID (svUsers s) (srOwner x)") (auto simp: mountsOf_def split: if_splits)
  then have "pathBase (srPath x) = pathBase (srPath sh1)" using same(1) by (simp add: m1_def incomingMount_def)
  then have "srID sh1 \<le> srID x" using first x(1) by simp
  then have "x = sh1" using distinct_row [OF shareInvD(2) [OF i], of x sh1] x(1,3) s1(1) by simp
  then show False using x(2) m1 same(2) by simp
qed

section \<open>The shares of others\<close>

lemma tableS_run:
  assumes "wiredShares s" shows "\<exists>w1 r. tableS s f w = Some (w1, r) \<and> shTable s w1 = fst (f (shTable s w))"
  using assms by (cases "f (shTable s w)") (simp add: tableS_def onPart_def wiredShares_def)

lemma GetForOwner_run:
  assumes "wiredShares s" and "GetForOwner s uid i w = Some (w', r)"
  shows "shTable s w' = shTable s w
    \<or> (\<exists>sh. shareGetByID (shTable s w) i = Inr sh \<and> \<not> liveShare (nowMs s) sh \<and> shTable s w' = fst (shareDelete (shTable s w) (srID sh)))"
proof (cases "\<exists>u sh. ownerOf s uid = Inr u \<and> shareGetByID (shTable s w) i = Inr sh")
  case True
  then obtain u sh where u: "ownerOf s uid = Inr u" and sh: "shareGetByID (shTable s w) i = Inr sh" by blast
  show ?thesis
  proof (cases "liveShare (nowMs s) sh")
    case True
    then show ?thesis using assms(2) u sh by (auto simp: GetForOwner_def share_op_defs expireIfNeeded_live split: if_splits)
  next
    case False
    have e: "\<exists>w2 x. expireIfNeeded s sh w = Some (w2, x) \<and> shTable s w2 = fst (shareDelete (shTable s w) (srID sh))"
    proof -
      obtain w1 r1 where t: "tableS s (\<lambda>d. shareDelete d (srID sh)) w = Some (w1, r1)" "shTable s w1 = fst (shareDelete (shTable s w) (srID sh))"
        using tableS_run [OF assms(1)] by blast
      have k: "keepsT s (\<lambda>d. d = fst (shareDelete (shTable s w) (srID sh))) (bindS (dismissShareNotifications s (srID sh)) (\<lambda>_. bindS (unwrapShareKeys s sh) (\<lambda>_. retS True)))"
        by (intro keepingT assms(1))
      obtain w2 r2 where r2: "bindS (dismissShareNotifications s (srID sh)) (\<lambda>_. bindS (unwrapShareKeys s sh) (\<lambda>_. retS True)) w1 = Some (w2, r2)"
        by (cases "svNotifs s"; cases "svKeys s") (auto simp: dismissShareNotifications_def unwrapShareKeys_def share_op_defs effectS_def)
      show ?thesis using t r2 keepsT_D [OF k r2] False
        by (cases r1) (auto simp: expireIfNeeded_def liveShare_def bindS_def)
    qed
    then show ?thesis using assms(2) u sh False
      by (auto simp: GetForOwner_def share_op_defs split: sum.splits if_splits)
  qed
next
  case False
  then show ?thesis using assms(2)
    by (cases "ownerOf s uid"; cases "shareGetByID (shTable s w) i") (auto simp: GetForOwner_def share_op_defs)
qed

text \<open>The rows that one user may not touch: somebody else's, not expired.\<close>

definition foreignLive :: "('s, 'd, 'h) Service \<Rightarrow> string \<Rightarrow> Share \<Rightarrow> bool" where
  "foreignLive s uid r \<longleftrightarrow> liveShare (nowMs s) r \<and> (\<forall>u. ownerOf s uid = Inr u \<longrightarrow> srOwner r \<noteq> suID u)"

abbreviation foreignRows :: "('s, 'd, 'h) Service \<Rightarrow> string \<Rightarrow> shareTable \<Rightarrow> Share list" where
  "foreignRows s uid d \<equiv> filter (foreignLive s uid) (stRows d)"

text \<open>The foreign rows are \<open>F\<close>, and every row with one identifier belongs to the user.\<close>

definition foreignIs :: "('s, 'd, 'h) Service \<Rightarrow> string \<Rightarrow> ShareUser \<Rightarrow> int \<Rightarrow> Share list \<Rightarrow> shareTable \<Rightarrow> bool" where
  "foreignIs s uid u k F d \<longleftrightarrow> foreignRows s uid d = F \<and> (\<forall>r \<in> set (stRows d). srID r = k \<longrightarrow> srOwner r = suID u)"

lemma foreign_filter:
  assumes "\<And>r. r \<in> set rows \<Longrightarrow> srID r = k \<Longrightarrow> \<not> foreignLive s uid r"
  shows "filter (foreignLive s uid) (filter (\<lambda>r. srID r \<noteq> k) rows) = filter (foreignLive s uid) rows"
  using assms unfolding filter_filter by (intro filter_cong) auto

lemma foreign_delete:
  assumes "ownerOf s uid = Inr u" and "foreignIs s uid u k F d" shows "foreignIs s uid u k F (fst (shareDelete d k))"
proof -
  have "r \<in> set (stRows d) \<Longrightarrow> srID r = k \<Longrightarrow> \<not> foreignLive s uid r" for r using assms by (auto simp: foreignIs_def foreignLive_def)
  then show ?thesis using assms(2) foreign_filter [of "stRows d" k s uid] by (auto simp: foreignIs_def shareDelete_def shareExec_def split: option.split)
qed

lemma foreign_map:
  assumes "\<And>r. r \<in> set rows \<Longrightarrow> f r \<noteq> r \<Longrightarrow> \<not> foreignLive s uid r \<and> \<not> foreignLive s uid (f r)"
  shows "filter (foreignLive s uid) (map f rows) = filter (foreignLive s uid) rows"
  using assms
proof (induction rows)
  case (Cons r rows)
  have "filter (foreignLive s uid) (map f rows) = filter (foreignLive s uid) rows" using Cons by simp
  then show ?case using Cons.prems [of r] by (cases "f r = r") simp_all
qed simp

lemma foreign_update:
  assumes o: "ownerOf s uid = Inr u" and f: "foreignIs s uid u (srID n) F d" shows "foreignIs s uid u (srID n) F (fst (shareUpdate d n))"
proof -
  let ?f = "\<lambda>r. if srID r = srID n then r\<lparr>srHash := srHash n, srPermissions := srPermissions n, srLabel := srLabel n, srExpireMs := srExpireMs n\<rparr> else r"
  have "\<not> foreignLive s uid r \<and> \<not> foreignLive s uid (?f r)" if "r \<in> set (stRows d)" "?f r \<noteq> r" for r
    using that o f by (auto simp: foreignIs_def foreignLive_def split: if_splits)
  from foreign_map [OF this] have "foreignRows s uid (d\<lparr>stRows := map ?f (stRows d)\<rparr>) = F" using f by (simp add: foreignIs_def)
  moreover have "srOwner r = suID u" if "r \<in> set (map ?f (stRows d))" "srID r = srID n" for r using that f by (auto simp: foreignIs_def)
  ultimately have "foreignIs s uid u (srID n) F (d\<lparr>stRows := map ?f (stRows d)\<rparr>)" by (simp add: foreignIs_def del: set_map)
  then show ?thesis using f by (auto simp: shareUpdate_def shareExec_def split: option.split)
qed

lemma foreign_get:
  assumes "wiredShares s" and i: "shareInv I (shTable s w)" and "GetForOwner s uid k w = Some (w', r)"
  shows "foreignRows s uid (shTable s w') = foreignRows s uid (shTable s w)"
  using GetForOwner_run [OF assms(1,3)]
proof
  assume "\<exists>sh. shareGetByID (shTable s w) k = Inr sh \<and> \<not> liveShare (nowMs s) sh \<and> shTable s w' = fst (shareDelete (shTable s w) (srID sh))"
  then obtain sh where sh: "shareGetByID (shTable s w) k = Inr sh" "\<not> liveShare (nowMs s) sh" "shTable s w' = fst (shareDelete (shTable s w) (srID sh))" by blast
  have row: "sh \<in> set (stRows (shTable s w))" using shareGetByID_row [OF sh(1)] by simp
  have "\<not> foreignLive s uid r" if "r \<in> set (stRows (shTable s w))" "srID r = srID sh" for r
    using distinct_row [OF shareInvD(2) [OF i] that(1) row that(2)] sh(2) by (simp add: foreignLive_def)
  then show ?thesis using sh(3) foreign_filter [of "stRows (shTable s w)" "srID sh" s uid]
    by (auto simp: shareDelete_def shareExec_def split: option.split)
qed simp

lemma keepsT_lift: "(\<And>x. r = Inr x \<Longrightarrow> keepsT s P (k x)) \<Longrightarrow> keepsT s P (bindS (liftS r) k)"
  unfolding keepsT_def bindS_def liftS_def by (cases r) auto

lemma update_ids:
  "updatePerms p sh = Inr x \<Longrightarrow> srID x = srID sh" "updateHash s pw sh = Inr x \<Longrightarrow> srID x = srID sh" "updateExpire e sh = Inr x \<Longrightarrow> srID x = srID sh"
  by (auto simp: updatePerms_def updateHash_def updateExpire_def map_sum_Inr split: option.splits if_splits)

text \<open>
  C30. Nobody changes the shares of others: whatever the identifier and the arguments, an update or a deletion leaves every
  unexpired share of every other owner as it was, in the order it had, whether the request succeeds or fails.
\<close>

theorem shares_of_others_untouched:
  assumes w: "wiredShares s" and i: "shareInv I (shTable s v)"
    and run: "ShareUpdate s uid k permissions password expire label v = Some (v', r1) \<or> ShareDelete s uid k v = Some (v', r2)"
  shows "foreignRows s uid (shTable s v') = foreignRows s uid (shTable s v)"
proof -
  obtain v1 q where q: "GetForOwner s uid k v = Some (v1, q)" using run by (auto simp: ShareUpdate_def ShareDelete_def bindS_def split: option.splits)
  have f1: "foreignRows s uid (shTable s v1) = foreignRows s uid (shTable s v)" by (rule foreign_get [OF w i q])
  have i1: "shareInv I (shTable s v1)" by (rule keepsT_D [OF get_keepsT [OF w] q i])
  show ?thesis
  proof (cases q)
    case (Inl e)
    then show ?thesis using run q f1 by (auto simp: ShareUpdate_def ShareDelete_def bindS_def)
  next
    case (Inr sh)
    then obtain u where u: "ownerOf s uid = Inr u" "srOwner sh = suID u" "sh \<in> set (stRows (shTable s v1))"
      using q shareGetByID_row by (auto simp: GetForOwner_Inr)
    let ?P = "foreignIs s uid u (srID sh) (foreignRows s uid (shTable s v))"
    have start: "?P (shTable s v1)" using f1 u(2) distinct_row [OF shareInvD(2) [OF i1] _ u(3)] by (auto simp: foreignIs_def)
    have upd: "?P d \<Longrightarrow> srID n = srID sh \<Longrightarrow> ?P (fst (shareUpdate d n))" for d n using foreign_update [OF u(1), of n _ d] by simp
    have del: "keepsT s ?P (bindS (if srType sh = ShareTypeRemote then notifyUnshare s sh else retS ()) (\<lambda>_.
        bindS (tableS s (\<lambda>d. shareDelete d (srID sh))) (\<lambda>_. bindS (dismissShareNotifications s (srID sh)) (\<lambda>_. unwrapShareKeys s sh))))"
      by (intro keepingT w foreign_delete [OF u(1)])
    have up: "keepsT s ?P (bindS (liftS (updatePerms permissions sh)) (\<lambda>sh. bindS (liftS (updateHash s password sh)) (\<lambda>sh. bindS (liftS (updateExpire expire sh)) (\<lambda>sh.
        let sh = (case label of None \<Rightarrow> sh | Some l \<Rightarrow> sh\<lparr>srLabel := l\<rparr>) in bindS (tableS s (\<lambda>d. shareUpdate d sh)) (\<lambda>_. retS sh)))))"
      unfolding Let_def by (intro keepsT_lift keepsT_bind keepsT_table w keepsT_basic upd) (auto dest!: update_ids split: option.split)
    have "?P (shTable s v')" using run
    proof
      assume "ShareDelete s uid k v = Some (v', r2)"
      then show ?thesis using q Inr by (intro keepsT_D [OF del _ start]) (simp add: ShareDelete_def bindS_def)
    next
      assume "ShareUpdate s uid k permissions password expire label v = Some (v', r1)"
      then show ?thesis using q Inr by (intro keepsT_D [OF up _ start]) (simp add: ShareUpdate_def bindS_def)
    qed
    then show ?thesis by (simp add: foreignIs_def)
  qed
qed

section \<open>A file drop\<close>

text \<open>
  The permission to read is not asked of a public token: through a link that grants creating only, as for a folder to drop files
  into, every file below the shared folder can still be downloaded.
\<close>

theorem file_drop_readable:
  assumes "davInv map_of diskOK (svFiles s) (suUID owner) usr w" and "aStorage (svFiles s) = localfs"
    and "servedBy s w tok sh owner" and "srAbsPathEnc sh = []" and "\<not> has_perm (srPermissions sh) PermRead"
    and "f \<in> set (fcRows (vMeta w))" and "fUserID f = usrID usr" and "\<not> fIsDir f" and "jailPath sh rel = Inr (fPath f)"
    and "map_of (vStorage w) (keyAt (suUID owner) (fPath f)) = Some (DFile content)"
  shows "\<exists>w' e. publicRead (publicOf s) tok rel w = Some (w', Inr (content, e))"
proof -
  obtain w' e where "davReadOp (svFiles s) (suUID owner) (fPath f) w = Some (w', Inr (content, e))"
    using lfs.read_file [OF assms(1,2,6,7,8,10)] by blast
  then have "publicRead (publicOf s) tok rel w = Some (w', Inr (content, publicize sh e))"
    using assms(3,4,9) by (auto simp: publicRead_def publicAt_def dav_Inr publicResolve_Inr)
  then show ?thesis by blast
qed

section \<open>The shares that cover a path\<close>

lemma ancestorPaths_mkpath:
  assumes "list_all plain_seg segs" and "segs \<noteq> []"
  shows "q \<in> set (ancestorPaths (mkpath segs)) \<longleftrightarrow> q = ''/'' \<or> (\<exists>n. 0 < n \<and> n \<le> length segs \<and> q = mkpath (take n segs))"
  using assms
proof (induction segs rule: rev_induct)
  case (snoc x xs)
  have c: "clean_path (mkpath (xs @ [x]))" by (rule clean_path_mkpath [OF _ snoc.prems(1)]) simp
  have d: "path_dir (mkpath (xs @ [x])) = (if xs = [] then ''/'' else mkpath xs)" by (rule path_dir_mkpath [OF snoc.prems(1)])
  have a: "ancestorPaths (mkpath (xs @ [x])) = mkpath (xs @ [x]) # ancestorPaths (path_dir (mkpath (xs @ [x])))"
    using path_dir_shorter [OF c] clean_not_root [OF c] by (subst ancestorPaths.simps) simp
  have split: "(\<exists>n. 0 < n \<and> n \<le> length (xs @ [x]) \<and> q = mkpath (take n (xs @ [x])))
      \<longleftrightarrow> q = mkpath (xs @ [x]) \<or> (\<exists>n. 0 < n \<and> n \<le> length xs \<and> q = mkpath (take n xs))"
    by (auto simp: le_Suc_eq)
  show ?case
  proof (cases "xs = []")
    case True
    then show ?thesis unfolding split a d by (subst ancestorPaths.simps) auto
  next
    case False
    then show ?thesis unfolding split using snoc.IH snoc.prems(1) by (auto simp: a d simp del: mkpath_append)
  qed
qed simp

lemma ancestorPaths_inShare:
  assumes "npath p" and "npath q" shows "q \<in> set (ancestorPaths p) \<longleftrightarrow> inShare q p"
proof (cases "p = ''/''")
  case True
  have "\<not> below q ''/''"
  proof
    assume b: "below q ''/''"
    then have "q = []" using below_length [OF b] by simp
    then show False using assms(2) normal_path [OF assms(2)] clean_not_root by blast
  qed
  then show ?thesis using True by (subst ancestorPaths.simps) (auto simp: inShare_def)
next
  case False
  then obtain ps where ps: "ps \<noteq> []" "list_all plain_seg ps" "p = mkpath ps" using normal_path [OF assms(1)] by (auto simp: clean_path_iff)
  show ?thesis
  proof (cases "q = ''/''")
    case False
    then obtain qs where qs: "qs \<noteq> []" "list_all plain_seg qs" "q = mkpath qs" using normal_path [OF assms(2)] by (auto simp: clean_path_iff)
    have inj: "mkpath qs = mkpath (take n ps) \<longleftrightarrow> qs = take n ps" for n
      using qs(2) ps(2) by (intro mkpath_inject) (auto simp: list_all_iff plain_seg_def dest: in_set_takeD)
    have b: "below q p \<longleftrightarrow> (\<exists>r. r \<noteq> [] \<and> ps = qs @ r)" unfolding qs(3) ps(3) by (rule below_mkpath [OF qs(2) ps(2)])
    have "(\<exists>n. 0 < n \<and> n \<le> length ps \<and> qs = take n ps) \<longleftrightarrow> (\<exists>r. ps = qs @ r)"
      using qs(1) by (auto intro: exI [of _ "length qs"]) (metis append_take_drop_id)
    moreover have "p = q \<longleftrightarrow> ps = qs" using mkpath_eq_iff [OF ps(2) qs(2)] qs(3) ps(3) by simp
    ultimately show ?thesis using ancestorPaths_mkpath [OF ps(2,1), of q] False inj b qs(3) ps(3) by (fastforce simp: inShare_def)
  qed (use ancestorPaths_mkpath [OF ps(2,1)] ps in \<open>simp add: inShare_def\<close>)
qed

text \<open>
  \<open>Covering\<close>, which finds the shares through which others reach a file, is right: on a well-formed table it answers exactly
  the user and group shares of this owner whose path is that of the file or of a directory above it, each once, in the order of their identifiers.
\<close>

theorem covering_correct:
  assumes i: "shareInv I d" and c: "Covering d owner p = Inr rows" and o: "owner \<noteq> 0"
  shows "\<exists>np. NormalizePath p = Inr np \<and> sorted (map srID rows) \<and> distinct (map srID rows)
    \<and> set rows = {r \<in> set (stRows d). srOwner r = owner \<and> (srType r = ShareTypeUser \<or> srType r = ShareTypeGroup) \<and> inShare (srPath r) np}"
proof -
  obtain np where np: "NormalizePath p = Inr np" using c o by (auto simp: Covering_def split: sum.splits)
  let ?P = "\<lambda>r. srOwner r = owner \<and> (srType r = ShareTypeUser \<or> srType r = ShareTypeGroup) \<and> srPath r \<in> set (ancestorPaths np)"
  have rows: "rows = sort_key srID (filter ?P (stRows d))" using c o np by (auto simp: Covering_def shareQuery_def split: option.splits)
  have "srPath r \<in> set (ancestorPaths np) \<longleftrightarrow> inShare (srPath r) np" if "r \<in> set (stRows d)" for r
    using ancestorPaths_inShare NormalizePath_fixed [OF np] shareInvD(4) [OF i that] by (simp add: shareRowOK_def)
  then have "set rows = {r \<in> set (stRows d). srOwner r = owner \<and> (srType r = ShareTypeUser \<or> srType r = ShareTypeGroup) \<and> inShare (srPath r) np}"
    by (auto simp: rows)
  moreover have "distinct (map srID rows)"
    using shareInvD(2) [OF i] by (auto simp: rows distinct_map intro: inj_on_subset)
  moreover have "sorted (map srID rows)" by (simp add: rows)
  ultimately show ?thesis using np by blast
qed

abbreviation demoDrop :: Share where
  "demoDrop \<equiv> demoShareRow 1 1 ShareTypeLink ''/'' ''tok'' PermCreate []"

lemma demoDrop_served: "servedBy demoService (demoShareState [demoDrop]) ''tok'' demoDrop (demoShareUser 1 ''alice'')"
  by (simp add: servedBy_def demo_served liveShare_def shareGetByToken_def shareRow_def demoShares_def) (simp add: demoShareRow_def demoService_def)

theorem file_drop_readable_witness:
  "\<exists>w' e. publicRead (publicOf demoService) ''tok'' ''/x'' (demoShareState [demoDrop]) = Some (w', Inr (''abc'', e))"
proof -
  have j: "jailPath demoDrop ''/x'' = Inr ''/x''" "keyAt ''alice'' ''/x'' = [''alice'', ''x'']" "\<not> has_perm PermCreate PermRead" by code_simp+
  show ?thesis
    using file_drop_readable [of demoService "demoShareUser 1 ''alice''" demoUser "demoShareState [demoDrop]" "''tok''" demoDrop "demoFile 0" "''/x''" "''abc''"]
      demoDrop_served demoShare_inv [of "[demoDrop]"] j
    by (simp add: demoService_def demoShareUser_def demoShareFiles_def demoShareState_def demoMeta_rows) (simp add: demoRow_def demoShareRow_def)
qed

lemma demoDrop_inv: "shareInv I (shTable demoService (demoShareState [demoDrop]))"
proof -
  have "npath ''/''" "validSharePerms ''folder'' PermCreate" by code_simp+
  then show ?thesis by (simp add: demo_served) (simp add: shareInv_def shareRowOK_def permOK_def demoShares_def demoShareRow_def)
qed

lemma demo_files [simp]: "svFiles demoService = demoShareFiles" "suUID (demoShareUser i u) = u"
  by (simp_all add: demoService_def demoShareUser_def)

lemma demo_alice: "servedBy demoService (demoShareState [demoDrop]) ''tok'' sh owner \<Longrightarrow> suUID owner = ''alice''"
  using demoDrop_served by (auto simp: servedBy_def)

theorem public_read_jailed_witness:
  "\<exists>w' e q e0. publicRead (publicOf demoService) ''tok'' ''/x'' (demoShareState [demoDrop]) = Some (w', Inr (''abc'', e))
     \<and> davReadOp demoShareFiles ''alice'' q (demoShareState [demoDrop]) = Some (w', Inr (''abc'', e0))"
proof -
  have "case publicRead (publicOf demoService) ''tok'' ''/x'' (demoShareState [demoDrop]) of Some (w', Inr (c, e)) \<Rightarrow> c = ''abc'' | _ \<Rightarrow> False" by code_simp
  then obtain w' e where r: "publicRead (publicOf demoService) ''tok'' ''/x'' (demoShareState [demoDrop]) = Some (w', Inr (''abc'', e))"
    by (auto split: option.splits sum.splits prod.splits) (metis sum.exhaust surj_pair)
  from public_read_jailed [OF demoDrop_inv r] obtain sh owner q e0 where "servedBy demoService (demoShareState [demoDrop]) ''tok'' sh owner"
      "davReadOp demoShareFiles (suUID owner) q (demoShareState [demoDrop]) = Some (w', Inr (''abc'', e0))" by auto
  then show ?thesis using r demo_alice by metis
qed

theorem public_changes_permitted_witness:
  "\<exists>w' e. publicWriteIf (publicOf demoService) False ''tok'' ''/y'' (''new'', None) None None (demoShareState [demoDrop]) = Some (w', Inr (e, True))
     \<and> (\<exists>w1 st e0 q. davWriteIf demoShareFiles False ''alice'' q (''new'', None) None None w1 = Some (w', Inr (e0, True)))"
proof -
  let ?w = "demoShareState [demoDrop]"
  have p: "path_dir ''/y'' = ''/''" "NormalizePath ''/y'' = Inr ''/y''" "map_of (vStorage ?w) (keyAt ''alice'' ''/y'') = None" "has_perm PermCreate PermCreate"
    "jailPath demoDrop ''/y'' = Inr ''/y''" by code_simp+
  have free: "\<not> (\<exists>g \<in> set (fcRows (vMeta ?w)). fUserID g = usrID demoUser \<and> fPath g = ''/y'')" by (simp add: demoShareState_def demoMeta_rows demoRow_def)
  have a: "aStorage demoShareFiles = localfs" "aIncoming demoShareFiles = None" "aVersions demoShareFiles = None" by (simp_all add: demoShareFiles_def)
  have s: "davStatOp demoShareFiles ''alice'' ''/y'' ?w = Some (?w, Inl ErrNotFound)" by (rule lfs.statOp_none [OF demoShare_inv a(1) p(2) a(2) free])
  obtain w' e0 where "davWriteIf demoShareFiles False ''alice'' ''/y'' (''new'', None) None None ?w = Some (w', Inr (e0, True))"
    using lfs.write_correct [OF demoShare_inv a, of "''/y''" "[demoDrop]" None False "''new''" None] p free by (auto simp: Evaluate_def demoShareState_def demoMeta_rows demoRow_def)
  moreover have "publicResolve (publicOf demoService) ''tok'' ?w = Some (?w, Inr (demoDrop, demoShareUser 1 ''alice''))"
    unfolding publicResolve_Inr by (simp add: demoDrop_served) (simp add: demoShareRow_def)
  moreover have "srPermissions demoDrop = PermCreate" by (simp add: demoShareRow_def)
  ultimately have r: "publicWriteIf (publicOf demoService) False ''tok'' ''/y'' (''new'', None) None None ?w = Some (w', Inr (publicize demoDrop e0, True))"
    using s p(4,5) by (simp add: publicWriteIf_def publicAt_def thenOp_def tryOp_def liftOp_def retOp_def)
  from public_changes_permitted [OF demoDrop_inv, THEN conjunct1, rule_format, OF r]
  obtain sh owner q w1 e1 where "servedBy demoService ?w ''tok'' sh owner" "davWriteIf (svFiles demoService) False (suUID owner) q (''new'', None) None None w1 = Some (w', Inr (e1, True))"
    by (elim exE conjE)
  then have "davWriteIf demoShareFiles False ''alice'' q (''new'', None) None None w1 = Some (w', Inr (e1, True))" using demo_alice by simp
  then show ?thesis using r by (intro exI conjI)
qed

abbreviation demoGiven :: "int \<Rightarrow> int \<Rightarrow> Share" where
  "demoGiven i owner \<equiv> demoShareRow i owner ShareTypeUser ''/p'' (int_to_dec i) PermRead ''bob''"

abbreviation demoTwo :: "(disk, unit, shareTable) davState" where
  "demoTwo \<equiv> demoShareState [demoGiven 1 1, demoGiven 2 2]"

lemma demoTwo_inv: "shareInv I (shTable demoService demoTwo)"
proof -
  have "npath ''/p''" "validSharePerms ''folder'' PermRead" "int_to_dec 1 = ''1''" "int_to_dec 2 = ''2''" by code_simp+
  then show ?thesis by (simp add: demo_served) (simp add: shareInv_def shareRowOK_def permOK_def demoShares_def demoShareRow_def)
qed

abbreviation demoMounts :: "IncomingMount list" where
  "demoMounts \<equiv> [incomingMount (demoShareUser 1 ''alice'') (demoGiven 1 1), incomingMount (demoShareUser 2 ''carol'') (demoGiven 2 2)]"

lemma demoTwo_incoming: "ListIncoming demoService ''bob'' demoTwo = Some (demoTwo, Inr demoMounts)"
  by code_simp

definition demoInbox :: "unit DAV" where
  "demoInbox = lockView (demoShareFiles\<lparr>aIncoming := Some (\<lambda>_ _. Inr demoMounts)\<rparr>) demoTwo"

lemma demoInbox_mounts: "dIncoming demoInbox = Some (\<lambda>_. Inr demoMounts)"
  by (simp add: demoInbox_def lockView_def)

lemma demoBob: "lookupIncoming demoInbox ''bob'' ''/p/q'' = Inr (incomingMount (demoShareUser 1 ''alice'') (demoGiven 1 1), ''/p/q'')"
  by code_simp

theorem incoming_confined_witness:
  "\<exists>sh. sh \<in> set (stRows (demoShares [demoGiven 1 1, demoGiven 2 2])) \<and> grantedTo demoService ''bob'' sh \<and> inShare (srPath sh) ''/p/q''"
  using incoming_confined [OF demoTwo_inv demoTwo_incoming demoInbox_mounts _ demoBob] by (auto simp: demo_served)

theorem same_name_share_unreachable_witness:
  "lookupIncoming demoInbox ''bob'' ''/p/q'' \<noteq> Inr (incomingMount (demoShareUser 2 ''carol'') (demoGiven 2 2), ''/p/q'')"
proof -
  have "shTable demoService demoTwo = demoShares [demoGiven 1 1, demoGiven 2 2]" by (rule demo_served)
  then show ?thesis
    by (intro same_name_share_unreachable [OF demoTwo_inv demoTwo_incoming _ demoInbox_mounts, of "demoGiven 1 1" "demoShareUser 1 ''alice''"])
      (auto simp: demoShares_def grantedTo_def liveShare_def demoShareRow_def demoService_def)
qed

lemma demo_delete: "ShareDelete demoService ''alice'' 1 demoTwo = Some (demoShareState [demoGiven 2 2], Inr ())"
  by code_simp

theorem shares_of_others_untouched_witness:
  "ShareDelete demoService ''alice'' 1 demoTwo = Some (demoShareState [demoGiven 2 2], Inr ())
     \<and> foreignRows demoService ''alice'' (shTable demoService (demoShareState [demoGiven 2 2])) = foreignRows demoService ''alice'' (shTable demoService demoTwo)"
  using shares_of_others_untouched [OF demoService_wired demoTwo_inv, of "''alice''" 1 None None None None _ _ "Inr ()", OF disjI2 [OF demo_delete]] demo_delete
  by (intro conjI)

theorem covering_correct_witness:
  "\<exists>rows. Covering (shTable demoService demoTwo) 2 ''/p/q/r'' = Inr rows \<and> set rows = {demoGiven 2 2}"
proof -
  have c: "Covering (demoShares [demoGiven 1 1, demoGiven 2 2]) 2 ''/p/q/r'' = Inr [demoGiven 2 2]" by code_simp
  show ?thesis using covering_correct [OF demoTwo_inv, of 2 "''/p/q/r''" "[demoGiven 2 2]"] c by (simp add: demo_served)
qed

end
