(* ===== verification/Auth_Store.thy ===== *)
theory Auth_Store
  imports Go_Base "HOL-Library.AList"
begin

text \<open>
  App passwords and sessions (\<^verbatim>\<open>src/internal/auth/apppassword.go\<close>, \<^verbatim>\<open>auth/sqlstore.go\<close>, \<^verbatim>\<open>session\<close>): the tokens, the in-memory and the SQL store
  behind one interface, and the table of sessions. SHA-512 and random bytes are inputs.
\<close>

section \<open>Tokens\<close>

datatype token_error = ErrTokenNotFound | ErrTokenInvalid | ErrToken string

record Token =
  tkID :: string
  tkHash :: string
  tkUID :: string
  tkLoginName :: string
  tkName :: string
  tkType :: int
  tkCreatedAt :: int

record 'd TokenStore =
  tsInsert :: "'d \<Rightarrow> Token \<Rightarrow> 'd \<times> (token_error + unit)"
  tsGetByHash :: "'d \<Rightarrow> string \<Rightarrow> token_error + Token"
  tsDeleteByHash :: "'d \<Rightarrow> string \<Rightarrow> 'd \<times> (token_error + unit)"

type_synonym tokenMap = "(string \<times> Token) list"

definition memTokenInsert :: "tokenMap \<Rightarrow> Token \<Rightarrow> tokenMap \<times> (token_error + unit)" where
  "memTokenInsert d t = (if tkHash t = [] then (d, Inl ErrTokenInvalid) else (AList.update (tkHash t) t d, Inr ()))"

definition memTokenGet :: "tokenMap \<Rightarrow> string \<Rightarrow> token_error + Token" where
  "memTokenGet d h = (case map_of d h of None \<Rightarrow> Inl ErrTokenNotFound | Some t \<Rightarrow> Inr t)"

definition memTokenDelete :: "tokenMap \<Rightarrow> string \<Rightarrow> tokenMap \<times> (token_error + unit)" where
  "memTokenDelete d h = (case map_of d h of None \<Rightarrow> (d, Inl ErrTokenNotFound) | Some _ \<Rightarrow> (AList.delete h d, Inr ()))"

definition memTokens :: "tokenMap TokenStore" where
  "memTokens = \<lparr>tsInsert = memTokenInsert, tsGetByHash = memTokenGet, tsDeleteByHash = memTokenDelete\<rparr>"

text \<open>
  The table of app passwords with the accounts it refers to: \<open>id\<close> and \<open>token_hash\<close> are unique keys. A row holds the id of the user. The ids
  that the hook \<open>TokenKeys\<close> was told of are recorded in \<open>ptFired\<close>.
\<close>

record passwordRow =
  prToken :: Token
  prUserID :: int

record passwordTable =
  ptPasswords :: "passwordRow list"
  ptAccounts :: "(int \<times> string) list"
  ptHook :: bool
  ptFired :: "string list"
  ptBroken :: "string option"

definition accountID :: "passwordTable \<Rightarrow> string \<Rightarrow> int option" where
  "accountID d uid = map_option fst (find (\<lambda>a. snd a = uid) (ptAccounts d))"

text \<open>\<open>INSERT \<dots> SELECT\<close>: no row, and no error, when there is no user of that name.\<close>

definition sqlTokenInsert :: "passwordTable \<Rightarrow> Token \<Rightarrow> passwordTable \<times> (token_error + unit)" where
  "sqlTokenInsert d t =
     (if tkHash t = [] \<or> tkID t = [] then (d, Inl ErrTokenInvalid)
      else case ptBroken d of
          Some e \<Rightarrow> (d, Inl (ErrToken (''auth: insert token: '' @ e)))
        | None \<Rightarrow> (case accountID d (tkUID t) of
            None \<Rightarrow> (d, Inr ())
          | Some u \<Rightarrow>
              if list_ex (\<lambda>r. tkID (prToken r) = tkID t \<or> tkHash (prToken r) = tkHash t) (ptPasswords d) then (d, Inl (ErrToken ''auth: insert token: unique constraint''))
              else (d\<lparr>ptPasswords := ptPasswords d @ [\<lparr>prToken = t\<lparr>tkCreatedAt := unix_milli (tkCreatedAt t) * 1000000\<rparr>, prUserID = u\<rparr>]\<rparr>, Inr ())))"

text \<open>The join with the accounts gives the name of the user.\<close>

definition sqlTokenGet :: "passwordTable \<Rightarrow> string \<Rightarrow> token_error + Token" where
  "sqlTokenGet d h = (case ptBroken d of
      Some e \<Rightarrow> Inl (ErrToken (''auth: get token: '' @ e))
    | None \<Rightarrow> (case find (\<lambda>r. tkHash (prToken r) = h \<and> map_of (ptAccounts d) (prUserID r) \<noteq> None) (ptPasswords d) of
        None \<Rightarrow> Inl ErrTokenNotFound
      | Some r \<Rightarrow> Inr ((prToken r)\<lparr>tkUID := the (map_of (ptAccounts d) (prUserID r))\<rparr>)))"

definition sqlTokenDelete :: "passwordTable \<Rightarrow> string \<Rightarrow> passwordTable \<times> (token_error + unit)" where
  "sqlTokenDelete d h = (case ptBroken d of
      Some e \<Rightarrow> (d, Inl (ErrToken (''auth: delete token: '' @ e)))
    | None \<Rightarrow> (case find (\<lambda>r. tkHash (prToken r) = h) (ptPasswords d) of
        None \<Rightarrow> (d, Inl ErrTokenNotFound)
      | Some r \<Rightarrow> (d\<lparr>ptPasswords := filter (\<lambda>r. tkHash (prToken r) \<noteq> h) (ptPasswords d),
            ptFired := (if ptHook d then ptFired d @ [tkID (prToken r)] else ptFired d)\<rparr>, Inr ())))"

definition sqlTokens :: "passwordTable TokenStore" where
  "sqlTokens = \<lparr>tsInsert = sqlTokenInsert, tsGetByHash = sqlTokenGet, tsDeleteByHash = sqlTokenDelete\<rparr>"

section \<open>Issuing and revoking\<close>

definition appTokenAlphabet :: string where
  "appTokenAlphabet = ''ABCDEFGHIJKLMNOPQRSTUVWXYZabcdefghijklmnopqrstuvwxyz0123456789''"

definition appTokenLength :: nat where "appTokenLength = 72"

definition appTokenMinLength :: nat where "appTokenMinLength = 22"

definition appTokenLimit :: nat where "appTokenLimit = 256 - 256 mod length appTokenAlphabet"

fun fillAppToken :: "string \<Rightarrow> nat list \<Rightarrow> string" where
  "fillAppToken out [] = out"
| "fillAppToken out (b # buf) =
     (if b \<ge> appTokenLimit then fillAppToken out buf
      else let out' = out @ [appTokenAlphabet ! (b mod length appTokenAlphabet)] in if length out' = appTokenLength then out' else fillAppToken out' buf)"

text \<open>The reads of the random source; \<^const>\<open>None\<close> when the loop needs another one.\<close>

fun GenerateToken :: "string \<Rightarrow> (string + nat list) list \<Rightarrow> (token_error + string) option" where
  "GenerateToken out reads =
     (if \<not> length out < appTokenLength then Some (Inr out)
      else case reads of
          [] \<Rightarrow> None
        | Inl e # _ \<Rightarrow> Some (Inl (ErrToken (''auth: read random: '' @ e)))
        | Inr buf # rest \<Rightarrow> GenerateToken (fillAppToken out buf) rest)"

declare GenerateToken.simps [simp del]

text \<open>\<open>sha512hex\<close> is the hexadecimal SHA-512.\<close>

definition HashToken :: "(string \<Rightarrow> string) \<Rightarrow> string \<Rightarrow> string \<Rightarrow> string" where
  "HashToken sha512hex token secret = sha512hex (token @ secret)"

definition hashTokenLegacy :: "(string \<Rightarrow> string) \<Rightarrow> string \<Rightarrow> string" where
  "hashTokenLegacy sha512hex token = sha512hex token"

definition IssueAppPassword ::
  "'d TokenStore \<Rightarrow> (string \<Rightarrow> string) \<Rightarrow> string \<Rightarrow> string \<Rightarrow> string \<Rightarrow> string \<Rightarrow> int \<Rightarrow> (string + nat list) list \<Rightarrow> int \<Rightarrow> 'd \<Rightarrow> ('d \<times> (token_error + string \<times> Token)) option" where
  "IssueAppPassword ts sha512hex secret uid loginName name typ reads now d = (case GenerateToken [] reads of
      None \<Rightarrow> None
    | Some (Inl e) \<Rightarrow> Some (d, Inl e)
    | Some (Inr raw) \<Rightarrow>
        (let t = \<lparr>tkID = take 16 raw, tkHash = HashToken sha512hex raw secret, tkUID = uid, tkLoginName = loginName, tkName = name, tkType = typ, tkCreatedAt = now\<rparr>
         in case tsInsert ts d t of (d', Inl e) \<Rightarrow> Some (d', Inl e) | (d', Inr _) \<Rightarrow> Some (d', Inr (raw, t))))"

definition RevokeAppPassword :: "'d TokenStore \<Rightarrow> (string \<Rightarrow> string) \<Rightarrow> string \<Rightarrow> string \<Rightarrow> 'd \<Rightarrow> 'd \<times> (token_error + unit)" where
  "RevokeAppPassword ts sha512hex secret raw d = (case tsDeleteByHash ts d (HashToken sha512hex raw secret) of
      (d', Inr _) \<Rightarrow> (d', Inr ())
    | (d', Inl _) \<Rightarrow> tsDeleteByHash ts d' (hashTokenLegacy sha512hex raw))"

text \<open>The token that a raw app password stands for: the salted hash first, then the one of older installations.\<close>

definition lookupToken :: "'d TokenStore \<Rightarrow> (string \<Rightarrow> string) \<Rightarrow> string \<Rightarrow> string \<Rightarrow> 'd \<Rightarrow> token_error + Token" where
  "lookupToken ts sha512hex secret raw d = (case tsGetByHash ts d (HashToken sha512hex raw secret) of
      Inl e \<Rightarrow> if e = ErrTokenNotFound then tsGetByHash ts d (hashTokenLegacy sha512hex raw) else Inl e
    | Inr t \<Rightarrow> Inr t)"

section \<open>Sessions\<close>

datatype session_error = SesNotFound | SesExpired | SesErr string

record Session =
  ssID :: string
  ssUserID :: int
  ssUserAgent :: string
  ssIP :: string
  ssCreatedAt :: int
  ssLastSeenAt :: int
  ssExpiresAt :: int
  ssSealedUK :: "string option"

record sessionTable =
  seRows :: "Session list"
  seDown :: "string option"

definition hexBytes :: "nat list \<Rightarrow> string" where
  "hexBytes buf = concat (map (\<lambda>b. [''0123456789abcdef'' ! (b div 16 mod 16), ''0123456789abcdef'' ! (b mod 16)]) buf)"

definition NewID :: "string + nat list \<Rightarrow> session_error + string" where
  "NewID rd = (case rd of Inl e \<Rightarrow> Inl (SesErr (''session: id: '' @ e)) | Inr buf \<Rightarrow> Inr (hexBytes buf))"

definition dayTTL :: int where "dayTTL = 24 * 3600 * 1000000000"

definition msTime :: "int \<Rightarrow> int" where "msTime t = unix_milli t * 1000000"

definition sessionCreate ::
  "sessionTable \<Rightarrow> string + nat list \<Rightarrow> int \<Rightarrow> string \<Rightarrow> string \<Rightarrow> int \<Rightarrow> int \<Rightarrow> sessionTable \<times> (session_error + Session)" where
  "sessionCreate d rd userID ua ip ttl now =
     (if userID = 0 then (d, Inl (SesErr ''session: invalid user''))
      else case NewID rd of
          Inl e \<Rightarrow> (d, Inl e)
        | Inr i \<Rightarrow>
            (let s = \<lparr>ssID = i, ssUserID = userID, ssUserAgent = ua, ssIP = ip, ssCreatedAt = now, ssLastSeenAt = now,
                 ssExpiresAt = now + (if ttl \<le> 0 then dayTTL else ttl), ssSealedUK = None\<rparr>
             in case seDown d of
                 Some e \<Rightarrow> (d, Inl (SesErr (''session: create: '' @ e)))
               | None \<Rightarrow>
                   if list_ex (\<lambda>r. ssID r = i) (seRows d) then (d, Inl (SesErr ''session: create: unique constraint''))
                   else (d\<lparr>seRows := seRows d @ [s\<lparr>ssCreatedAt := msTime now, ssLastSeenAt := msTime now, ssExpiresAt := msTime (ssExpiresAt s)\<rparr>]\<rparr>, Inr s)))"

definition sessionGet :: "int \<Rightarrow> sessionTable \<Rightarrow> string \<Rightarrow> session_error + Session" where
  "sessionGet now d i =
     (if i = [] then Inl SesNotFound
      else case seDown d of
          Some e \<Rightarrow> Inl (SesErr (''session: get: '' @ e))
        | None \<Rightarrow> (case find (\<lambda>r. ssID r = i) (seRows d) of
            None \<Rightarrow> Inl SesNotFound
          | Some s \<Rightarrow> if ssExpiresAt s \<le> now then Inl SesExpired else Inr s))"

text \<open>The statements on the row of an id.\<close>

definition sessionChange :: "string \<Rightarrow> sessionTable \<Rightarrow> string \<Rightarrow> (Session list \<Rightarrow> Session list) \<Rightarrow> sessionTable \<times> (session_error + unit)" where
  "sessionChange op d i f = (case seDown d of
      Some e \<Rightarrow> (d, Inl (SesErr (op @ '': '' @ e)))
    | None \<Rightarrow> if list_ex (\<lambda>r. ssID r = i) (seRows d) then (d\<lparr>seRows := f (seRows d)\<rparr>, Inr ()) else (d, Inl SesNotFound))"

definition sessionTouch :: "sessionTable \<Rightarrow> string \<Rightarrow> int \<Rightarrow> int \<Rightarrow> sessionTable \<times> (session_error + unit)" where
  "sessionTouch d i now ttl0 = (let ttl = (if ttl0 \<le> 0 then dayTTL else ttl0) in
     sessionChange ''session: touch'' d i (map (\<lambda>r. if ssID r = i then r\<lparr>ssLastSeenAt := msTime now, ssExpiresAt := msTime (now + ttl)\<rparr> else r)))"

definition sessionSetSealedUK :: "sessionTable \<Rightarrow> string \<Rightarrow> string option \<Rightarrow> sessionTable \<times> (session_error + unit)" where
  "sessionSetSealedUK d i sealed = sessionChange ''session: set sealed uk'' d i (map (\<lambda>r. if ssID r = i then r\<lparr>ssSealedUK := sealed\<rparr> else r))"

definition sessionDelete :: "sessionTable \<Rightarrow> string \<Rightarrow> sessionTable \<times> (session_error + unit)" where
  "sessionDelete d i = sessionChange ''session: delete'' d i (filter (\<lambda>r. ssID r \<noteq> i))"

end
