(* ===== verification/Go_Base64.thy ===== *)
theory Go_Base64
  imports Go_Base
begin

text \<open>
  Go's \<^verbatim>\<open>encoding/base64\<close> and \<^verbatim>\<open>encoding/hex\<close> as the packages use them: encoding without padding, and decoding with and without. The decoder
  skips line breaks and does not look at the bits left over in the last character.
\<close>

section \<open>Base64\<close>

definition stdAlphabet :: string where
  "stdAlphabet = ''ABCDEFGHIJKLMNOPQRSTUVWXYZabcdefghijklmnopqrstuvwxyz0123456789+/''"

definition urlAlphabet :: string where
  "urlAlphabet = ''ABCDEFGHIJKLMNOPQRSTUVWXYZabcdefghijklmnopqrstuvwxyz0123456789-_''"

definition byteVal :: "char \<Rightarrow> nat" where
  "byteVal c = of_char c"

definition byteOf :: "nat \<Rightarrow> char" where
  "byteOf n = char_of n"

fun b64_encode :: "string \<Rightarrow> string \<Rightarrow> string" where
  "b64_encode al (a # b # c # s) = (let x = byteVal a; y = byteVal b; z = byteVal c in
     al ! (x div 4) # al ! ((x mod 4) * 16 + y div 16) # al ! ((y mod 16) * 4 + z div 64) # al ! (z mod 64) # b64_encode al s)"
| "b64_encode al [a, b] = (let x = byteVal a; y = byteVal b in [al ! (x div 4), al ! ((x mod 4) * 16 + y div 16), al ! ((y mod 16) * 4)])"
| "b64_encode al [a] = (let x = byteVal a in [al ! (x div 4), al ! ((x mod 4) * 16)])"
| "b64_encode al [] = []"

text \<open>The bytes of four sextets, of which \<open>n\<close> are there.\<close>

definition b64_bytes :: "nat \<Rightarrow> nat \<Rightarrow> nat \<Rightarrow> nat \<Rightarrow> string" where
  "b64_bytes p q r t = [byteOf (p * 4 + q div 16), byteOf ((q mod 16) * 16 + r div 4), byteOf ((r mod 4) * 64 + t)]"

fun b64_quanta :: "string \<Rightarrow> char option \<Rightarrow> string \<Rightarrow> string option" where
  "b64_quanta al pad [] = Some []"
| "b64_quanta al pad [a] = None"
| "b64_quanta al pad [a, b] = (case (pad, index_byte al a, index_byte al b) of
      (None, Some p, Some q) \<Rightarrow> Some (take 1 (b64_bytes p q 0 0))
    | _ \<Rightarrow> None)"
| "b64_quanta al pad [a, b, c] = (case (pad, index_byte al a, index_byte al b, index_byte al c) of
      (None, Some p, Some q, Some r) \<Rightarrow> Some (take 2 (b64_bytes p q r 0))
    | _ \<Rightarrow> None)"
| "b64_quanta al pad (a # b # c # d # s) = (case (index_byte al a, index_byte al b) of
      (Some p, Some q) \<Rightarrow> (case (index_byte al c, index_byte al d) of
          (Some r, Some t) \<Rightarrow> map_option ((@) (b64_bytes p q r t)) (b64_quanta al pad s)
        | (Some r, None) \<Rightarrow> if pad = Some d \<and> s = [] then Some (take 2 (b64_bytes p q r 0)) else None
        | (None, _) \<Rightarrow> if pad = Some c \<and> pad = Some d \<and> s = [] then Some (take 1 (b64_bytes p q 0 0)) else None)
    | _ \<Rightarrow> None)"

definition b64_decode :: "string \<Rightarrow> char option \<Rightarrow> string \<Rightarrow> string option" where
  "b64_decode al pad s = b64_quanta al pad (filter (\<lambda>c. c \<noteq> byte 10 \<and> c \<noteq> byte 13) s)"

abbreviation rawStdEncode :: "string \<Rightarrow> string" where "rawStdEncode \<equiv> b64_encode stdAlphabet"
abbreviation rawStdDecode :: "string \<Rightarrow> string option" where "rawStdDecode \<equiv> b64_decode stdAlphabet None"
abbreviation stdDecode :: "string \<Rightarrow> string option" where "stdDecode \<equiv> b64_decode stdAlphabet (Some (CHR ''=''))"
abbreviation rawURLEncode :: "string \<Rightarrow> string" where "rawURLEncode \<equiv> b64_encode urlAlphabet"
abbreviation rawURLDecode :: "string \<Rightarrow> string option" where "rawURLDecode \<equiv> b64_decode urlAlphabet None"

section \<open>Round trip\<close>

text \<open>Both alphabets have 64 different characters, none of which is a line break.\<close>

definition alphabet64 :: "string \<Rightarrow> bool" where
  "alphabet64 al \<longleftrightarrow> length al = 64 \<and> (\<forall>i < 64. index_byte al (al ! i) = Some i) \<and> byte 10 \<notin> set al \<and> byte 13 \<notin> set al"

lemma alphabets: "alphabet64 stdAlphabet" "alphabet64 urlAlphabet"
proof -
  have i: "\<forall>i \<in> set [0..<64]. index_byte stdAlphabet (stdAlphabet ! i) = Some i" "\<forall>i \<in> set [0..<64]. index_byte urlAlphabet (urlAlphabet ! i) = Some i" by code_simp+
  have l: "length stdAlphabet = 64" "length urlAlphabet = 64" by code_simp+
  have b: "byte 10 \<notin> set stdAlphabet" "byte 13 \<notin> set stdAlphabet" "byte 10 \<notin> set urlAlphabet" "byte 13 \<notin> set urlAlphabet" by code_simp+
  show "alphabet64 stdAlphabet" "alphabet64 urlAlphabet" using i l b by (auto simp: alphabet64_def)
qed

lemma byteVal_less: "byteVal c < 256"
  by (simp add: byteVal_def)

lemma byteOf_val [simp]: "byteOf (byteVal c) = c"
  by (simp add: byteOf_def byteVal_def)

lemma sextets:
  fixes x y z :: nat
  assumes "x < 256" and "y < 256" and "z < 256"
  shows "x div 4 < 64" "(x mod 4) * 16 + y div 16 < 64" "(y mod 16) * 4 + z div 64 < 64" "z mod 64 < 64" "(x mod 4) * 16 < 64" "(y mod 16) * 4 < 64"
    "x div 4 * 4 + ((x mod 4) * 16 + y div 16) div 16 = x"
    "((x mod 4) * 16 + y div 16) mod 16 * 16 + ((y mod 16) * 4 + z div 64) div 4 = y"
    "((y mod 16) * 4 + z div 64) mod 4 * 64 + z mod 64 = z"
    "x div 4 * 4 + ((x mod 4) * 16) div 16 = x" "((x mod 4) * 16 + y div 16) mod 16 * 16 + ((y mod 16) * 4) div 4 = y"
  using assms by (simp_all add: less_mult_imp_div_less)

lemma alphabet64_index: "alphabet64 al \<Longrightarrow> k < 64 \<Longrightarrow> index_byte al (al ! k) = Some k"
  by (simp add: alphabet64_def)

lemma b64_quanta_encode: "alphabet64 al \<Longrightarrow> b64_quanta al None (b64_encode al s) = Some s"
proof (induction al s rule: b64_encode.induct)
  case (1 al a b c s)
  note x = sextets [OF byteVal_less [of a] byteVal_less [of b] byteVal_less [of c]]
  show ?case using 1 x(1-4) x(7-9) alphabet64_index [OF 1(2)] by (simp add: Let_def b64_bytes_def)
next
  case (2 al a b)
  note x = sextets [OF byteVal_less [of a] byteVal_less [of b] byteVal_less [of b]]
  show ?case using x(1,2,6,7,11) alphabet64_index [OF 2] by (simp add: Let_def b64_bytes_def numeral_2_eq_2)
next
  case (3 al a)
  note x = sextets [OF byteVal_less [of a] byteVal_less [of a] byteVal_less [of a]]
  show ?case using x(1,5,10) alphabet64_index [OF 3] by (simp add: Let_def b64_bytes_def)
qed simp

lemma b64_encode_chars: "alphabet64 al \<Longrightarrow> set (b64_encode al s) \<subseteq> set al"
proof (induction al s rule: b64_encode.induct)
  case (1 al a b c s)
  note x = sextets [OF byteVal_less [of a] byteVal_less [of b] byteVal_less [of c]]
  show ?case using 1 x(1-4) by (auto simp: Let_def alphabet64_def)
next
  case (2 al a b)
  note x = sextets [OF byteVal_less [of a] byteVal_less [of b] byteVal_less [of b]]
  show ?case using 2 x(1,2,6) by (auto simp: Let_def alphabet64_def)
next
  case (3 al a)
  note x = sextets [OF byteVal_less [of a] byteVal_less [of a] byteVal_less [of a]]
  show ?case using 3 x(1,5) by (auto simp: Let_def alphabet64_def)
qed simp

lemma b64_roundtrip:
  assumes "alphabet64 al" shows "b64_decode al None (b64_encode al s) = Some s"
proof -
  have "filter (\<lambda>c. c \<noteq> byte 10 \<and> c \<noteq> byte 13) (b64_encode al s) = b64_encode al s"
    using b64_encode_chars [OF assms, of s] assms by (intro filter_True) (auto simp: alphabet64_def)
  then show ?thesis using b64_quanta_encode [OF assms] by (simp add: b64_decode_def)
qed

lemmas raw_roundtrips = b64_roundtrip [OF alphabets(1)] b64_roundtrip [OF alphabets(2)]

end
