(* ===== verification/Auth_Password.thy ===== *)
theory Auth_Password
  imports Go_Base64
begin

text \<open>
  Password hashes (\<^verbatim>\<open>src/internal/auth/password.go\<close>): Argon2id in the PHC string format. The key derivation of \<^verbatim>\<open>x/crypto/argon2\<close> is a
  parameter, \<open>idKey password salt time memory threads keyLen\<close>; it panics when the time or the threads are 0. The random salt is an input.
\<close>

datatype hash_error = ErrInvalidHash | ErrSalt string

record Argon2idParams =
  a2MemoryKB :: int
  a2Iterations :: int
  a2Parallelism :: int
  a2SaltLen :: int
  a2KeyLen :: int

type_synonym kdf = "string \<Rightarrow> string \<Rightarrow> int \<Rightarrow> int \<Rightarrow> int \<Rightarrow> int \<Rightarrow> string"

definition argon2Version :: int where "argon2Version = 19"

definition NewArgon2id :: "Argon2idParams \<Rightarrow> Argon2idParams" where
  "NewArgon2id p = p\<lparr>a2SaltLen := (if a2SaltLen p = 0 then 16 else a2SaltLen p), a2KeyLen := (if a2KeyLen p = 0 then 32 else a2KeyLen p)\<rparr>"

definition phcString :: "Argon2idParams \<Rightarrow> string \<Rightarrow> string \<Rightarrow> string" where
  "phcString p salt key = ''$argon2id$v='' @ int_to_dec argon2Version @ ''$m='' @ int_to_dec (a2MemoryKB p) @ '',t='' @ int_to_dec (a2Iterations p) @ '',p='' @ int_to_dec (a2Parallelism p)
     @ ''$'' @ rawStdEncode salt @ ''$'' @ rawStdEncode key"

text \<open>\<^const>\<open>None\<close> is the panic.\<close>

definition hashPassword :: "kdf \<Rightarrow> Argon2idParams \<Rightarrow> string + string \<Rightarrow> string \<Rightarrow> (hash_error + string) option" where
  "hashPassword idKey a rd pw = (case rd of
      Inl e \<Rightarrow> Some (Inl (ErrSalt (''auth: salt: '' @ e)))
    | Inr salt \<Rightarrow>
        if a2Iterations a < 1 \<or> a2Parallelism a < 1 then None
        else Some (Inr (phcString a salt (idKey pw salt (a2Iterations a) (a2MemoryKB a) (a2Parallelism a) (a2KeyLen a)))))"

text \<open>\<open>strconv.ParseUint(s, 10, 32)\<close>.\<close>

definition parse_uint32 :: "string \<Rightarrow> int option" where
  "parse_uint32 s = (if s = [] \<or> \<not> list_all is_digit s then None else if dec_val s < 2 ^ 32 then Some (dec_val s) else None)"

definition boundedU32 :: "nat \<Rightarrow> int option" where
  "boundedU32 n = (if n > 1024 * 1024 then None else Some (int n))"

definition phcParam :: "string \<Rightarrow> Argon2idParams \<Rightarrow> Argon2idParams option" where
  "phcParam kv p = (case cut_byte kv (CHR ''='') of (k, v, ok) \<Rightarrow>
     if \<not> ok then None
     else case parse_uint32 v of
         None \<Rightarrow> None
       | Some n \<Rightarrow>
           if k = ''m'' then Some (p\<lparr>a2MemoryKB := n\<rparr>)
           else if k = ''t'' then Some (p\<lparr>a2Iterations := n\<rparr>)
           else if k = ''p'' then (if n > 255 then None else Some (p\<lparr>a2Parallelism := n\<rparr>))
           else None)"

primrec phcParams :: "string list \<Rightarrow> Argon2idParams \<Rightarrow> Argon2idParams option" where
  "phcParams [] p = Some p"
| "phcParams (kv # kvs) p = (case phcParam kv p of None \<Rightarrow> None | Some q \<Rightarrow> phcParams kvs q)"

definition parsePHC :: "string \<Rightarrow> hash_error + Argon2idParams \<times> string \<times> string" where
  "parsePHC h = (let parts = split_byte h (CHR ''$'') in
     if length parts \<noteq> 6 \<or> parts ! 1 \<noteq> ''argon2id'' \<or> \<not> has_prefix (parts ! 2) ''v='' \<or> parse_int64 (trim_prefix (parts ! 2) ''v='') \<noteq> Some argon2Version then Inl ErrInvalidHash
     else case phcParams (split_byte (parts ! 3) (CHR '','')) \<lparr>a2MemoryKB = 0, a2Iterations = 0, a2Parallelism = 0, a2SaltLen = 0, a2KeyLen = 0\<rparr> of
         None \<Rightarrow> Inl ErrInvalidHash
       | Some p \<Rightarrow>
           if a2MemoryKB p = 0 \<or> a2Iterations p = 0 \<or> a2Parallelism p = 0 then Inl ErrInvalidHash
           else case (rawStdDecode (parts ! 4), rawStdDecode (parts ! 5)) of
               (Some salt, Some key) \<Rightarrow>
                 (case (boundedU32 (length salt), boundedU32 (length key)) of
                    (Some sl, Some kl) \<Rightarrow> Inr (p\<lparr>a2SaltLen := sl, a2KeyLen := kl\<rparr>, salt, key)
                  | _ \<Rightarrow> Inl ErrInvalidHash)
             | _ \<Rightarrow> Inl ErrInvalidHash)"

definition verifyPassword :: "kdf \<Rightarrow> string \<Rightarrow> string \<Rightarrow> hash_error + bool" where
  "verifyPassword idKey h pw = (case parsePHC h of
      Inl e \<Rightarrow> Inl e
    | Inr (p, salt, key) \<Rightarrow> (case boundedU32 (length key) of
        None \<Rightarrow> Inl ErrInvalidHash
      | Some kl \<Rightarrow> Inr (idKey pw salt (a2Iterations p) (a2MemoryKB p) (a2Parallelism p) kl = key)))"

definition NeedsRehash :: "Argon2idParams \<Rightarrow> string \<Rightarrow> bool" where
  "NeedsRehash a h = (case parsePHC h of
      Inl _ \<Rightarrow> True
    | Inr (p, _, key) \<Rightarrow> (case boundedU32 (length key) of
        None \<Rightarrow> True
      | Some kl \<Rightarrow> a2MemoryKB p \<noteq> a2MemoryKB a \<or> a2Iterations p \<noteq> a2Iterations a \<or> a2Parallelism p \<noteq> a2Parallelism a \<or> kl \<noteq> a2KeyLen a))"

section \<open>Hashing and verifying\<close>

text \<open>Parameters in range, as the configuration must give them.\<close>

definition argonOK :: "Argon2idParams \<Rightarrow> bool" where
  "argonOK a \<longleftrightarrow> 1 \<le> a2MemoryKB a \<and> a2MemoryKB a < 2 ^ 32 \<and> 1 \<le> a2Iterations a \<and> a2Iterations a < 2 ^ 32 \<and> 1 \<le> a2Parallelism a \<and> a2Parallelism a \<le> 255
     \<and> 0 \<le> a2KeyLen a \<and> a2KeyLen a \<le> 1024 * 1024"

lemma dec_digits:
  assumes "0 \<le> n" shows "list_all is_digit (int_to_dec n)" "int_to_dec n \<noteq> []" "dec_val (int_to_dec n) = n"
  using pos_to_dec_props [OF assms] assms by (auto simp: int_to_dec_def)

lemma dec_free: "0 \<le> n \<Longrightarrow> \<not> is_digit c \<Longrightarrow> c \<notin> set (int_to_dec n)"
  using dec_digits(1) [of n] by (auto simp: list_all_iff)

lemma seps_no_digit: "\<not> is_digit (CHR ''$'')" "\<not> is_digit (CHR '','')" "\<not> is_digit (CHR ''='')"
  by code_simp+

lemma parse_uint32_dec: "0 \<le> n \<Longrightarrow> n < 2 ^ 32 \<Longrightarrow> parse_uint32 (int_to_dec n) = Some n"
  using dec_digits [of n] by (simp add: parse_uint32_def)

lemma phcParams_printed:
  assumes "argonOK a"
  shows "phcParams (split_byte (''m='' @ int_to_dec (a2MemoryKB a) @ '',t='' @ int_to_dec (a2Iterations a) @ '',p='' @ int_to_dec (a2Parallelism a)) (CHR '','')) z
    = Some (z\<lparr>a2MemoryKB := a2MemoryKB a, a2Iterations := a2Iterations a, a2Parallelism := a2Parallelism a\<rparr>)"
proof -
  have r: "0 \<le> a2MemoryKB a" "a2MemoryKB a < 2 ^ 32" "0 \<le> a2Iterations a" "a2Iterations a < 2 ^ 32" "0 \<le> a2Parallelism a" "a2Parallelism a \<le> 255" using assms by (auto simp: argonOK_def)
  have s: "split_byte (''m='' @ int_to_dec (a2MemoryKB a) @ '',t='' @ int_to_dec (a2Iterations a) @ '',p='' @ int_to_dec (a2Parallelism a)) (CHR '','')
      = [''m='' @ int_to_dec (a2MemoryKB a), ''t='' @ int_to_dec (a2Iterations a), ''p='' @ int_to_dec (a2Parallelism a)]"
    using split_byte_append [of "CHR '',''" "''m='' @ int_to_dec (a2MemoryKB a)" "''t='' @ int_to_dec (a2Iterations a) @ '',p='' @ int_to_dec (a2Parallelism a)"]
      split_byte_append [of "CHR '',''" "''t='' @ int_to_dec (a2Iterations a)" "''p='' @ int_to_dec (a2Parallelism a)"]
      split_byte_no_sep [of "CHR '',''" "''p='' @ int_to_dec (a2Parallelism a)"] r(1,3,5) dec_free seps_no_digit(2) by simp
  have c: "cut_byte (k # ''='' @ v) (CHR ''='') = ([k], v, True)" if "k \<noteq> CHR ''=''" for k v
    using cut_byte_append [of "CHR ''=''" "[k]" v] that by simp
  have p: "phcParam (''m='' @ int_to_dec (a2MemoryKB a)) q = Some (q\<lparr>a2MemoryKB := a2MemoryKB a\<rparr>)"
    "phcParam (''t='' @ int_to_dec (a2Iterations a)) q = Some (q\<lparr>a2Iterations := a2Iterations a\<rparr>)"
    "phcParam (''p='' @ int_to_dec (a2Parallelism a)) q = Some (q\<lparr>a2Parallelism := a2Parallelism a\<rparr>)" for q
    using c [of "CHR ''m''"] c [of "CHR ''t''"] c [of "CHR ''p''"] r parse_uint32_dec by (simp_all add: phcParam_def)
  show ?thesis unfolding s by (simp add: p del: append.simps)
qed

lemma split_six:
  assumes "c \<notin> set s1" and "c \<notin> set s2" and "c \<notin> set s3" and "c \<notin> set s4" and "c \<notin> set s5" and "c \<notin> set s6"
  shows "split_byte (s1 @ c # s2 @ c # s3 @ c # s4 @ c # s5 @ c # s6) c = [s1, s2, s3, s4, s5, s6]"
  using split_byte_append [OF assms(1)] split_byte_append [OF assms(2)] split_byte_append [OF assms(3)] split_byte_append [OF assms(4)]
    split_byte_append [OF assms(5)] split_byte_no_sep [OF assms(6)] by simp

lemma parsePHC_printed:
  assumes a: "argonOK a" and "length salt \<le> 1024 * 1024" and "length key \<le> 1024 * 1024"
  shows "parsePHC (phcString a salt key) = Inr (a\<lparr>a2SaltLen := int (length salt), a2KeyLen := int (length key)\<rparr>, salt, key)"
proof -
  let ?ps = "''m='' @ int_to_dec (a2MemoryKB a) @ '',t='' @ int_to_dec (a2Iterations a) @ '',p='' @ int_to_dec (a2Parallelism a)"
  have r: "0 \<le> a2MemoryKB a" "0 \<le> a2Iterations a" "0 \<le> a2Parallelism a" "0 \<le> argon2Version" using a by (auto simp: argonOK_def argon2Version_def)
  have al: "CHR ''$'' \<notin> set stdAlphabet" by code_simp
  have e: "CHR ''$'' \<notin> set (rawStdEncode s)" for s using b64_encode_chars [OF alphabets(1), of s] al by auto
  have d: "CHR ''$'' \<notin> set ?ps" "CHR ''$'' \<notin> set (''v='' @ int_to_dec argon2Version)" using r dec_free seps_no_digit(1) by simp_all
  have f: "phcString a salt key = [] @ CHR ''$'' # ''argon2id'' @ CHR ''$'' # (''v='' @ int_to_dec argon2Version) @ CHR ''$'' # ?ps @ CHR ''$'' # rawStdEncode salt @ CHR ''$'' # rawStdEncode key"
    by (simp add: phcString_def)
  have s: "split_byte (phcString a salt key) (CHR ''$'') = [[], ''argon2id'', ''v='' @ int_to_dec argon2Version, ?ps, rawStdEncode salt, rawStdEncode key]"
    unfolding f by (intro split_six e d) simp_all
  have v: "parse_int64 (int_to_dec argon2Version) = Some argon2Version" by (intro parse_int64_dec) (simp_all add: argon2Version_def)
  have z: "a2MemoryKB a \<noteq> 0" "a2Iterations a \<noteq> 0" "a2Parallelism a \<noteq> 0" using a by (auto simp: argonOK_def)
  have t: "trim_prefix (''v='' @ x) ''v='' = x" for x by (rule trim_prefix_append)
  show ?thesis unfolding parsePHC_def s Let_def
    using phcParams_printed [OF a] raw_roundtrips v z t assms(2,3) by (simp add: boundedU32_def del: append.simps) 
qed

text \<open>
  C17. Hashing and verifying. For parameters in range and a derivation that gives keys of the length asked for, \<open>Hash\<close> returns a string that parses
  back: \<open>Verify\<close> of it accepts exactly the passwords that derive the same key with the same salt and costs, and it needs no new hash.
\<close>

theorem password_hash_verify:
  assumes "argonOK a" and "length salt \<le> 1024 * 1024" and "\<And>pw. int (length (idKey pw salt (a2Iterations a) (a2MemoryKB a) (a2Parallelism a) (a2KeyLen a))) = a2KeyLen a"
  shows "\<exists>h. hashPassword idKey a (Inr salt) pw = Some (Inr h) \<and> \<not> NeedsRehash a h
    \<and> (\<forall>pw'. verifyPassword idKey h pw' = Inr (idKey pw' salt (a2Iterations a) (a2MemoryKB a) (a2Parallelism a) (a2KeyLen a)
        = idKey pw salt (a2Iterations a) (a2MemoryKB a) (a2Parallelism a) (a2KeyLen a)))"
proof -
  let ?key = "idKey pw salt (a2Iterations a) (a2MemoryKB a) (a2Parallelism a) (a2KeyLen a)"
  have k: "int (length ?key) = a2KeyLen a" "length ?key \<le> 1024 * 1024" using assms(3) [of pw] assms(1) by (auto simp: argonOK_def)
  have "\<not> (a2Iterations a < 1 \<or> a2Parallelism a < 1)" using assms(1) by (auto simp: argonOK_def)
  then show ?thesis using parsePHC_printed [OF assms(1,2) k(2)] k
    by (intro exI [of _ "phcString a salt ?key"]) (simp add: hashPassword_def verifyPassword_def NeedsRehash_def boundedU32_def)
qed

text \<open>A toy derivation: the password and the salt, cut and padded to the length.\<close>

definition demoKDF :: kdf where
  "demoKDF pw salt t m p k = take (nat k) (pw @ salt @ replicate (nat k) (CHR ''x''))"

theorem password_hash_verify_witness:
  "\<exists>h. hashPassword demoKDF \<lparr>a2MemoryKB = 65536, a2Iterations = 3, a2Parallelism = 4, a2SaltLen = 4, a2KeyLen = 32\<rparr> (Inr ''salt'') ''secret'' = Some (Inr h)
    \<and> verifyPassword demoKDF h ''secret'' = Inr True \<and> verifyPassword demoKDF h ''guess'' = Inr False"
proof -
  let ?a = "\<lparr>a2MemoryKB = 65536, a2Iterations = 3, a2Parallelism = 4, a2SaltLen = 4, a2KeyLen = 32\<rparr>"
  have "argonOK ?a" by (simp add: argonOK_def)
  moreover have "int (length (demoKDF pw ''salt'' (a2Iterations ?a) (a2MemoryKB ?a) (a2Parallelism ?a) (a2KeyLen ?a))) = a2KeyLen ?a" for pw by (simp add: demoKDF_def)
  moreover have "demoKDF ''guess'' ''salt'' 3 65536 4 32 \<noteq> demoKDF ''secret'' ''salt'' 3 65536 4 32" by (simp add: demoKDF_def)
  ultimately show ?thesis using password_hash_verify [of ?a "''salt''" demoKDF "''secret''"] by auto
qed

end
