(* ===== verification/Cache_Tiered.thy ===== *)
theory Cache_Tiered
  imports Go_Base "HOL-Library.AList"
begin

text \<open>
  The byte caches (\<^verbatim>\<open>src/internal/cache\<close>): the interface as a record of operations on a state, the in-process cache over
  \<^verbatim>\<open>ristretto\<close>, which is a parameter, and the tiered cache over two others. The clock is an argument of the operations that depend on it.
\<close>

datatype cache_error = ErrMiss | ErrEmptyPrefix | ErrRejected string | ErrCache string

record 'c Cache =
  caGet :: "int \<Rightarrow> 'c \<Rightarrow> string \<Rightarrow> 'c \<times> (cache_error + string)"
  caSet :: "int \<Rightarrow> 'c \<Rightarrow> string \<Rightarrow> string \<Rightarrow> int \<Rightarrow> 'c \<times> (cache_error + unit)"
  caDelete :: "'c \<Rightarrow> string \<Rightarrow> 'c \<times> (cache_error + unit)"
  caDeleteByPrefix :: "'c \<Rightarrow> string \<Rightarrow> 'c \<times> int \<times> cache_error option"
  caIncrement :: "int \<Rightarrow> 'c \<Rightarrow> string \<Rightarrow> int \<Rightarrow> 'c \<times> (cache_error + int)"

definition defaultFillTTL :: int where "defaultFillTTL = 30 * 1000000000"

section \<open>The in-process cache\<close>

text \<open>
  What \<open>Memory\<close> uses of \<^verbatim>\<open>ristretto\<close>: \<open>riSet\<close> answers whether the item entered the buffer, and the keys that were reported as evicted or
  rejected by the time \<open>Wait\<close> returns. An entry is the key with the value.
\<close>

record 'r Ristretto =
  riGet :: "int \<Rightarrow> 'r \<Rightarrow> string \<Rightarrow> (string \<times> string) option"
  riSet :: "int \<Rightarrow> 'r \<Rightarrow> string \<Rightarrow> string \<times> string \<Rightarrow> int \<Rightarrow> int \<Rightarrow> 'r \<times> bool \<times> string list"
  riDel :: "'r \<Rightarrow> string \<Rightarrow> 'r"

record 'r Memory =
  mmStore :: 'r
  mmInc :: "(string \<times> int) list"
  mmKeys :: "string list"

definition untrack :: "string \<Rightarrow> 'r Memory \<Rightarrow> 'r Memory" where
  "untrack key m = m\<lparr>mmKeys := removeAll key (mmKeys m)\<rparr>"

definition memoryGet :: "'r Ristretto \<Rightarrow> int \<Rightarrow> 'r Memory \<Rightarrow> string \<Rightarrow> 'r Memory \<times> (cache_error + string)" where
  "memoryGet ri now m key = (m, case riGet ri now (mmStore m) key of None \<Rightarrow> Inl ErrMiss | Some e \<Rightarrow> Inr (snd e))"

definition memorySet :: "'r Ristretto \<Rightarrow> int \<Rightarrow> 'r Memory \<Rightarrow> string \<Rightarrow> string \<Rightarrow> int \<Rightarrow> 'r Memory \<times> (cache_error + unit)" where
  "memorySet ri now m key val ttl =
     (let cost = (if val = [] then 1 else int (length val));
          m1 = m\<lparr>mmKeys := List.insert key (mmKeys m)\<rparr>
      in case riSet ri now (mmStore m1) key (key, val) cost (if ttl > 0 then ttl else 0) of (r, ok, gone) \<Rightarrow>
           (let m2 = fold untrack gone (m1\<lparr>mmStore := r\<rparr>)
            in if \<not> ok then (untrack key m2, Inl (ErrRejected key)) else (m2, Inr ())))"

definition memoryDelete :: "'r Ristretto \<Rightarrow> 'r Memory \<Rightarrow> string \<Rightarrow> 'r Memory \<times> (cache_error + unit)" where
  "memoryDelete ri m key = (m\<lparr>mmStore := riDel ri (mmStore m) key, mmInc := AList.delete key (mmInc m), mmKeys := removeAll key (mmKeys m)\<rparr>, Inr ())"

definition memoryDeleteByPrefix :: "'r Ristretto \<Rightarrow> 'r Memory \<Rightarrow> string \<Rightarrow> 'r Memory \<times> int \<times> cache_error option" where
  "memoryDeleteByPrefix ri m prefix =
     (if prefix = [] then (m, 0, Some ErrEmptyPrefix)
      else let matched = remdups (filter (\<lambda>k. has_prefix k prefix) (mmKeys m @ map fst (mmInc m)))
        in (m\<lparr>mmStore := fold (\<lambda>k r. riDel ri r k) matched (mmStore m), mmInc := filter (\<lambda>e. fst e \<notin> set matched) (mmInc m),
              mmKeys := filter (\<lambda>k. k \<notin> set matched) (mmKeys m)\<rparr>, int (length matched), None))"

definition memoryIncrement :: "int \<Rightarrow> 'r Memory \<Rightarrow> string \<Rightarrow> int \<Rightarrow> 'r Memory \<times> (cache_error + int)" where
  "memoryIncrement now m key delta =
     (let n = wrap64 ((case map_of (mmInc m) key of None \<Rightarrow> 0 | Some v \<Rightarrow> v) + delta)
      in (m\<lparr>mmInc := AList.update key n (mmInc m)\<rparr>, Inr n))"

definition NewMemory :: "'r \<Rightarrow> 'r Memory" where
  "NewMemory r = \<lparr>mmStore = r, mmInc = [], mmKeys = []\<rparr>"

definition memoryCache :: "'r Ristretto \<Rightarrow> 'r Memory Cache" where
  "memoryCache ri = \<lparr>caGet = memoryGet ri, caSet = memorySet ri, caDelete = memoryDelete ri, caDeleteByPrefix = memoryDeleteByPrefix ri, caIncrement = memoryIncrement\<rparr>"

section \<open>The tiered cache\<close>

text \<open>The second layer is optional. The state is that of both layers; a filled first layer is best effort.\<close>

definition setBestEffort :: "'a Cache \<Rightarrow> int \<Rightarrow> 'a \<Rightarrow> string \<Rightarrow> string \<Rightarrow> 'a" where
  "setBestEffort c now s key val = fst (caSet c now s key val defaultFillTTL)"

definition tieredGet :: "'a Cache \<Rightarrow> 'b Cache option \<Rightarrow> int \<Rightarrow> 'a \<times> 'b \<Rightarrow> string \<Rightarrow> ('a \<times> 'b) \<times> (cache_error + string)" where
  "tieredGet c1 c2 now st key = (case st of (s, t) \<Rightarrow> (case caGet c1 now s key of
      (s1, Inr val) \<Rightarrow> ((s1, t), Inr val)
    | (s1, Inl e) \<Rightarrow>
        if e \<noteq> ErrMiss then ((s1, t), Inl e)
        else (case c2 of
            None \<Rightarrow> ((s1, t), Inl ErrMiss)
          | Some c \<Rightarrow> (case caGet c now t key of
              (t1, Inl e) \<Rightarrow> ((s1, t1), Inl e)
            | (t1, Inr val) \<Rightarrow> ((setBestEffort c1 now s1 key val, t1), Inr val)))))"

definition tieredSet :: "'a Cache \<Rightarrow> 'b Cache option \<Rightarrow> int \<Rightarrow> 'a \<times> 'b \<Rightarrow> string \<Rightarrow> string \<Rightarrow> int \<Rightarrow> ('a \<times> 'b) \<times> (cache_error + unit)" where
  "tieredSet c1 c2 now st key val ttl = (case st of (s, t) \<Rightarrow> (case caSet c1 now s key val ttl of
      (s1, Inl e) \<Rightarrow> ((s1, t), Inl e)
    | (s1, Inr _) \<Rightarrow> (case c2 of
          None \<Rightarrow> ((s1, t), Inr ())
        | Some c \<Rightarrow> (case caSet c now t key val ttl of (t1, r) \<Rightarrow> ((s1, t1), r)))))"

definition tieredDelete :: "'a Cache \<Rightarrow> 'b Cache option \<Rightarrow> 'a \<times> 'b \<Rightarrow> string \<Rightarrow> ('a \<times> 'b) \<times> (cache_error + unit)" where
  "tieredDelete c1 c2 st key = (case st of (s, t) \<Rightarrow> (case caDelete c1 s key of (s1, r1) \<Rightarrow> (case c2 of
      None \<Rightarrow> ((s1, t), r1)
    | Some c \<Rightarrow> (case caDelete c t key of (t1, r2) \<Rightarrow> ((s1, t1), case r1 of Inl e \<Rightarrow> Inl e | Inr _ \<Rightarrow> r2)))))"

definition tieredDeleteByPrefix :: "'a Cache \<Rightarrow> 'b Cache option \<Rightarrow> 'a \<times> 'b \<Rightarrow> string \<Rightarrow> ('a \<times> 'b) \<times> int \<times> cache_error option" where
  "tieredDeleteByPrefix c1 c2 st prefix = (case st of (s, t) \<Rightarrow> (case caDeleteByPrefix c1 s prefix of (s1, n1, e1) \<Rightarrow> (case c2 of
      None \<Rightarrow> ((s1, t), n1, e1)
    | Some c \<Rightarrow> (case caDeleteByPrefix c t prefix of (t1, n2, e2) \<Rightarrow> ((s1, t1), if e1 \<noteq> None then (n1, e1) else (n2, e2))))))"

definition tieredIncrement :: "'a Cache \<Rightarrow> 'b Cache option \<Rightarrow> int \<Rightarrow> 'a \<times> 'b \<Rightarrow> string \<Rightarrow> int \<Rightarrow> ('a \<times> 'b) \<times> (cache_error + int)" where
  "tieredIncrement c1 c2 now st key delta = (case st of (s, t) \<Rightarrow> (case c2 of
      Some c \<Rightarrow> (case caIncrement c now t key delta of
          (t1, Inl e) \<Rightarrow> ((s, t1), Inl e)
        | (t1, Inr n) \<Rightarrow> ((setBestEffort c1 now s key (int_to_dec n), t1), Inr n))
    | None \<Rightarrow> (case caIncrement c1 now s key delta of (s1, r) \<Rightarrow> ((s1, t), r))))"

definition tieredCache :: "'a Cache \<Rightarrow> 'b Cache option \<Rightarrow> ('a \<times> 'b) Cache" where
  "tieredCache c1 c2 = \<lparr>caGet = tieredGet c1 c2, caSet = tieredSet c1 c2, caDelete = tieredDelete c1 c2, caDeleteByPrefix = tieredDeleteByPrefix c1 c2,
     caIncrement = tieredIncrement c1 c2\<rparr>"

end
