(* ===== verification/Auth_Middleware.thy ===== *)
theory Auth_Middleware
  imports Auth_Store Auth_Password Cache_Tiered
begin

text \<open>
  Who a request is (\<^verbatim>\<open>src/internal/auth\<close>, \<^verbatim>\<open>users/verifier.go\<close>): the verifiers of passwords, app passwords, bearer tokens and sessions, the
  throttling of failures, the tokens against forged requests, and the middleware that puts them together. The digests are
  inputs, as are the accounts and the keys of the encryption service; \<open>now\<close> is the time of the request.
\<close>

section \<open>Principals\<close>

datatype auth_error = ErrNoCredentials | ErrInvalidCredentials | AuthErr string

datatype auth_method = MethodBasic | MethodAppPassword | MethodBearer | MethodSession

record Principal =
  ppUID :: string
  ppDisplayName :: string
  ppEnabled :: bool
  ppMethod :: auth_method
  ppUnlockedKey :: "string option"

record UserInfo =
  uiID :: int
  uiUID :: string
  uiDisplayName :: string
  uiEnabled :: bool

record UserSource =
  soByUID :: "string \<Rightarrow> UserInfo option"
  soByID :: "int \<Rightarrow> UserInfo option"

record Digests =
  dgSha512 :: "string \<Rightarrow> string"
  dgSha256 :: "string \<Rightarrow> string"
  dgMac :: "string \<Rightarrow> string \<Rightarrow> string"

type_synonym verifier = "string \<Rightarrow> string \<Rightarrow> auth_error + Principal"

section \<open>Verifiers\<close>

definition ParseBasicHeader :: "string \<Rightarrow> (string \<times> string) option" where
  "ParseBasicHeader h =
     (if length h < 6 \<or> \<not> equal_fold (take 6 h) ''Basic '' then None
      else case stdDecode (trim_space (drop 6 h)) of
          None \<Rightarrow> None
        | Some raw \<Rightarrow> (case cut_byte raw (CHR '':'') of (u, p, found) \<Rightarrow> if found then Some (u, p) else None))"

definition staticVerify :: "string \<Rightarrow> string \<Rightarrow> string \<Rightarrow> verifier" where
  "staticVerify uid pw display user password =
     (if user = [] \<or> password = [] then Inl ErrNoCredentials
      else if user \<noteq> uid \<or> password \<noteq> pw then Inl ErrInvalidCredentials
      else Inr \<lparr>ppUID = uid, ppDisplayName = display, ppEnabled = True, ppMethod = MethodBasic, ppUnlockedKey = None\<rparr>)"

text \<open>\<open>PasswordVerifier\<close> of the users: an account with its password hash.\<close>

definition passwordVerify :: "kdf \<Rightarrow> (string \<Rightarrow> (UserInfo \<times> string) option) \<Rightarrow> verifier" where
  "passwordVerify idKey byUID user password =
     (if user = [] \<or> password = [] then Inl ErrNoCredentials
      else case byUID user of
          None \<Rightarrow> Inl ErrInvalidCredentials
        | Some (u, hash) \<Rightarrow>
            if \<not> uiEnabled u then Inl ErrInvalidCredentials
            else if verifyPassword idKey hash password \<noteq> Inr True then Inl ErrInvalidCredentials
            else Inr \<lparr>ppUID = uiUID u, ppDisplayName = uiDisplayName u, ppEnabled = True, ppMethod = MethodBasic, ppUnlockedKey = None\<rparr>)"

text \<open>\<open>Keys\<close> of the verifiers: the hash of a token and the token give an error, no key, or the unlocked key.\<close>

type_synonym unlocker = "string \<Rightarrow> string \<Rightarrow> string + string option"

record 'd AppPasswordVerifier =
  avStore :: "'d TokenStore"
  avSecret :: string
  avKeys :: "unlocker option"

definition appPasswordVerify :: "Digests \<Rightarrow> 'd AppPasswordVerifier \<Rightarrow> 'd \<Rightarrow> verifier" where
  "appPasswordVerify dg v d user password =
     (if password = [] then Inl ErrNoCredentials
      else if length password < appTokenMinLength then Inl ErrInvalidCredentials
      else case lookupToken (avStore v) (dgSha512 dg) (avSecret v) password d of
          Inl _ \<Rightarrow> Inl ErrInvalidCredentials
        | Inr t \<Rightarrow>
            if user \<noteq> [] \<and> user \<noteq> tkUID t \<and> user \<noteq> tkLoginName t then Inl ErrInvalidCredentials
            else let p = \<lparr>ppUID = tkUID t, ppDisplayName = [], ppEnabled = True, ppMethod = MethodAppPassword, ppUnlockedKey = None\<rparr> in
              case avKeys v of
                None \<Rightarrow> Inr p
              | Some unlock \<Rightarrow> (case unlock (tkHash t) password of Inl e \<Rightarrow> Inl (AuthErr e) | Inr k \<Rightarrow> Inr (p\<lparr>ppUnlockedKey := k\<rparr>)))"

fun chainFrom :: "auth_error \<Rightarrow> verifier list \<Rightarrow> verifier" where
  "chainFrom lastErr [] user password = Inl lastErr"
| "chainFrom lastErr (v # vs) user password = (case v user password of Inr p \<Rightarrow> Inr p | Inl e \<Rightarrow> chainFrom e vs user password)"

definition chainVerify :: "verifier list \<Rightarrow> verifier" where
  "chainVerify vs = chainFrom ErrInvalidCredentials vs"

section \<open>Bearer tokens\<close>

record ('d, 'c) BearerVerifier =
  bvStore :: "'d TokenStore option"
  bvUsers :: "UserSource option"
  bvSecret :: string
  bvCache :: "'c Cache option"
  bvKeys :: "unlocker option"

definition tokenCacheTTL :: int where "tokenCacheTTL = 60 * 1000000000"

definition tokenCacheKey :: "Digests \<Rightarrow> string \<Rightarrow> string" where
  "tokenCacheKey dg token = ''auth:apppw:'' @ dgSha256 dg token"

definition cachedUID :: "Digests \<Rightarrow> ('d, 'c) BearerVerifier \<Rightarrow> int \<Rightarrow> string \<Rightarrow> 'c \<Rightarrow> 'c \<times> string option" where
  "cachedUID dg v now token c = (case bvCache v of
      None \<Rightarrow> (c, None)
    | Some ca \<Rightarrow> (case caGet ca now c (tokenCacheKey dg token) of (c', Inl _) \<Rightarrow> (c', None) | (c', Inr b) \<Rightarrow> (c', if b = [] then None else Some b)))"

definition rememberUID :: "Digests \<Rightarrow> ('d, 'c) BearerVerifier \<Rightarrow> int \<Rightarrow> string \<Rightarrow> string \<Rightarrow> 'c \<Rightarrow> 'c" where
  "rememberUID dg v now token uid c = (case bvCache v of
      None \<Rightarrow> c
    | Some ca \<Rightarrow> if uid = [] then c else fst (caSet ca now c (tokenCacheKey dg token) uid tokenCacheTTL))"

definition principalForUID :: "UserSource option \<Rightarrow> string \<Rightarrow> auth_error + Principal" where
  "principalForUID users uid = (case users of
      None \<Rightarrow> Inr \<lparr>ppUID = uid, ppDisplayName = [], ppEnabled = True, ppMethod = MethodBearer, ppUnlockedKey = None\<rparr>
    | Some so \<Rightarrow> (case soByUID so uid of
        None \<Rightarrow> Inl ErrInvalidCredentials
      | Some u \<Rightarrow> if \<not> uiEnabled u then Inl ErrInvalidCredentials
          else Inr \<lparr>ppUID = uiUID u, ppDisplayName = uiDisplayName u, ppEnabled = True, ppMethod = MethodBearer, ppUnlockedKey = None\<rparr>))"

definition attachTokenKey :: "Digests \<Rightarrow> ('d, 'c) BearerVerifier \<Rightarrow> string \<Rightarrow> Principal \<Rightarrow> auth_error + Principal" where
  "attachTokenKey dg v token p = (case bvKeys v of
      None \<Rightarrow> Inr p
    | Some unlock \<Rightarrow> (case unlock (HashToken (dgSha512 dg) token (bvSecret v)) token of
        Inl e \<Rightarrow> Inl (AuthErr e)
      | Inr (Some k) \<Rightarrow> Inr (p\<lparr>ppUnlockedKey := Some k\<rparr>)
      | Inr None \<Rightarrow> (case unlock (hashTokenLegacy (dgSha512 dg) token) token of
          Inl e \<Rightarrow> Inl (AuthErr e)
        | Inr k \<Rightarrow> Inr (p\<lparr>ppUnlockedKey := k\<rparr>))))"

definition withKey :: "Digests \<Rightarrow> ('d, 'c) BearerVerifier \<Rightarrow> string \<Rightarrow> auth_error + Principal \<Rightarrow> auth_error + Principal" where
  "withKey dg v token r = (case r of Inl e \<Rightarrow> Inl e | Inr p \<Rightarrow> attachTokenKey dg v token p)"

definition VerifyToken :: "Digests \<Rightarrow> ('d, 'c) BearerVerifier \<Rightarrow> int \<Rightarrow> string \<Rightarrow> 'd \<Rightarrow> 'c \<Rightarrow> 'c \<times> (auth_error + Principal)" where
  "VerifyToken dg v now token0 d c = (let token = trim_space token0 in case bvStore v of
      None \<Rightarrow> (c, Inl ErrInvalidCredentials)
    | Some ts \<Rightarrow>
        if token = [] then (c, Inl ErrInvalidCredentials)
        else (case cachedUID dg v now token c of
            (c1, Some uid) \<Rightarrow> (c1, withKey dg v token (principalForUID (bvUsers v) uid))
          | (c1, None) \<Rightarrow> (case lookupToken ts (dgSha512 dg) (bvSecret v) token d of
              Inl _ \<Rightarrow> (c1, Inl ErrInvalidCredentials)
            | Inr t \<Rightarrow> (case principalForUID (bvUsers v) (tkUID t) of
                Inl e \<Rightarrow> (c1, Inl e)
              | Inr p \<Rightarrow> (rememberUID dg v now token (tkUID t) c1, attachTokenKey dg v token p)))))"

section \<open>Session cookies\<close>

record SessionVerifier =
  seUsers :: "UserSource option"
  seKeys :: "(string \<Rightarrow> string \<Rightarrow> string + string) option"

definition touchSession :: "int \<Rightarrow> string \<Rightarrow> sessionTable \<Rightarrow> sessionTable" where
  "touchSession now sid d = fst (sessionTouch d sid now dayTTL)"

definition VerifyID :: "SessionVerifier \<Rightarrow> int \<Rightarrow> string \<Rightarrow> sessionTable \<Rightarrow> sessionTable \<times> (auth_error + Principal)" where
  "VerifyID v now sid d =
     (if sid = [] then (d, Inl ErrInvalidCredentials)
      else case (sessionGet now d sid, seUsers v) of
          (Inr s, Some so) \<Rightarrow> (case soByID so (ssUserID s) of
              None \<Rightarrow> (d, Inl ErrInvalidCredentials)
            | Some u \<Rightarrow>
                if \<not> uiEnabled u then (d, Inl ErrInvalidCredentials)
                else let p = \<lparr>ppUID = uiUID u, ppDisplayName = uiDisplayName u, ppEnabled = True, ppMethod = MethodSession, ppUnlockedKey = None\<rparr> in
                  (case (ssSealedUK s, seKeys v) of
                    (Some sealed, Some unseal) \<Rightarrow> (case unseal sid sealed of
                        Inl _ \<Rightarrow> (d, Inl ErrInvalidCredentials)
                      | Inr k \<Rightarrow> (touchSession now sid d, Inr (p\<lparr>ppUnlockedKey := Some k\<rparr>)))
                  | _ \<Rightarrow> (touchSession now sid d, Inr p)))
        | _ \<Rightarrow> (d, Inl ErrInvalidCredentials))"

section \<open>Request tokens\<close>

definition sessionScope :: string where "sessionScope = ''ncgo-requesttoken:''"
definition loginScope :: string where "loginScope = ''ncgo-login:''"

definition deriveToken :: "Digests \<Rightarrow> string \<Rightarrow> string \<Rightarrow> string \<Rightarrow> string" where
  "deriveToken dg secret domain i = rawURLEncode (dgMac dg secret (domain @ i))"

definition verifyRequestToken :: "Digests \<Rightarrow> string \<Rightarrow> string \<Rightarrow> string \<Rightarrow> string \<Rightarrow> bool" where
  "verifyRequestToken dg secret domain i token =
     (if i = [] \<or> token = [] then False
      else case rawURLDecode token of None \<Rightarrow> False | Some got \<Rightarrow> dgMac dg secret (domain @ i) = got)"

section \<open>Throttling\<close>

record 'c CacheThrottler =
  thCache :: "'c Cache option"
  thLimit :: int
  thWindow :: int

definition NewCacheThrottler :: "'c Cache option \<Rightarrow> int \<Rightarrow> int \<Rightarrow> 'c CacheThrottler" where
  "NewCacheThrottler c limit window = \<lparr>thCache = c, thLimit = (if limit \<le> 0 then 8 else limit), thWindow = (if window \<le> 0 then 30 * 1000000000 else window)\<rparr>"

definition windowSecs :: "'c CacheThrottler \<Rightarrow> int" where
  "windowSecs t = (let secs = thWindow t div 1000000000 in if secs \<le> 0 then 30 else secs)"

definition throttleKey :: "'c CacheThrottler \<Rightarrow> string \<Rightarrow> string \<Rightarrow> int \<Rightarrow> string" where
  "throttleKey t ip action now =
     ''bf:'' @ (if ip = [] then ''unknown'' else ip) @ '':'' @ (if action = [] then ''login'' else action) @ '':'' @ int_to_dec (go_div (now div second) (windowSecs t))"

definition Observe :: "'c CacheThrottler \<Rightarrow> int \<Rightarrow> string \<Rightarrow> string \<Rightarrow> 'c \<Rightarrow> 'c \<times> (cache_error + int)" where
  "Observe t now ip action c = (case thCache t of
      None \<Rightarrow> (c, Inr 0)
    | Some ca \<Rightarrow> (case caIncrement ca now c (throttleKey t ip action now) 1 of
        (c', Inl e) \<Rightarrow> (c', Inl e)
      | (c', Inr n) \<Rightarrow> (c', Inr (if n \<le> thLimit t then 0 else wrap64 (wrap64 (n - thLimit t) * 100000000)))))"

section \<open>The middleware\<close>

record AuthRequest =
  aqMethod :: string
  aqAuthorization :: string
  aqCookie :: "string \<Rightarrow> string option"
  aqTokenHeader :: string
  aqRemoteAddr :: string
  aqContentType :: string
  aqBody :: "(string \<times> bool) option"

record ('d, 'c) authState =
  auTokens :: 'd
  auSessions :: sessionTable
  auCache :: 'c

text \<open>
  \<open>mcSplitHost\<close>, \<open>mcMediaType\<close> and \<open>mcParseQuery\<close> are \<open>net.SplitHostPort\<close>, \<open>mime.ParseMediaType\<close> and the field of \<open>url.ParseQuery\<close> of that name.
\<close>

record ('d, 'c) MiddlewareConfig =
  mcVerifier :: "('d \<Rightarrow> verifier) option"
  mcBearer :: "('d, 'c) BearerVerifier option"
  mcSessions :: "SessionVerifier option"
  mcThrottle :: "'c CacheThrottler option"
  mcCookie :: string
  mcAction :: string
  mcRequestToken :: "string option"
  mcSplitHost :: "string \<Rightarrow> string option"
  mcMediaType :: "string \<Rightarrow> string option"
  mcParseQuery :: "string \<Rightarrow> string \<Rightarrow> string option"

definition parseBearerHeader :: "string \<Rightarrow> string option" where
  "parseBearerHeader h =
     (if length h < 7 \<or> \<not> equal_fold (take 7 h) ''Bearer '' then None
      else let tok = trim_space (drop 7 h) in if tok = [] then None else Some tok)"

definition clientIP :: "('d, 'c) MiddlewareConfig \<Rightarrow> AuthRequest \<Rightarrow> string" where
  "clientIP cfg r = (case mcSplitHost cfg (aqRemoteAddr r) of None \<Rightarrow> aqRemoteAddr r | Some host \<Rightarrow> host)"

definition throttleDelay :: "('d, 'c) MiddlewareConfig \<Rightarrow> int \<Rightarrow> AuthRequest \<Rightarrow> 'c \<Rightarrow> 'c \<times> int" where
  "throttleDelay cfg now r c = (case mcThrottle cfg of
      None \<Rightarrow> (c, 0)
    | Some t \<Rightarrow> (case Observe t now (clientIP cfg r) (if mcAction cfg = [] then ''login'' else mcAction cfg) c of
        (c', Inl _) \<Rightarrow> (c', 0)
      | (c', Inr delay) \<Rightarrow> (c', delay)))"

definition cookieName :: "('d, 'c) MiddlewareConfig \<Rightarrow> string" where
  "cookieName cfg = (if mcCookie cfg = [] then ''nc_session_id'' else mcCookie cfg)"

definition authenticate :: "Digests \<Rightarrow> ('d, 'c) MiddlewareConfig \<Rightarrow> int \<Rightarrow> AuthRequest \<Rightarrow> ('d, 'c) authState \<Rightarrow> ('d, 'c) authState \<times> (auth_error + Principal)" where
  "authenticate dg cfg now r s = (case (mcBearer cfg, parseBearerHeader (aqAuthorization r)) of
      (Some v, Some tok) \<Rightarrow> (case VerifyToken dg v now tok (auTokens s) (auCache s) of (c, res) \<Rightarrow> (s\<lparr>auCache := c\<rparr>, res))
    | _ \<Rightarrow> (case (mcVerifier cfg, ParseBasicHeader (aqAuthorization r)) of
        (Some v, Some (user, pass)) \<Rightarrow> (s, v (auTokens s) user pass)
      | _ \<Rightarrow> (case (mcSessions cfg, aqCookie r (cookieName cfg)) of
          (Some v, Some sid) \<Rightarrow>
            if sid = [] then (s, Inl ErrNoCredentials)
            else (case VerifyID v now sid (auSessions s) of (d, res) \<Rightarrow> (s\<lparr>auSessions := d\<rparr>, res))
        | _ \<Rightarrow> (s, Inl ErrNoCredentials))))"

definition csrfSafeMethod :: "string \<Rightarrow> bool" where
  "csrfSafeMethod m \<longleftrightarrow> m \<in> set [''GET'', ''HEAD'', ''OPTIONS'', ''PROPFIND'', ''REPORT'']"

definition maxFormTokenBytes :: nat where "maxFormTokenBytes = 1048576"

text \<open>The flag of a body says that reading it fails; then there is no token in it.\<close>

definition formToken :: "('d, 'c) MiddlewareConfig \<Rightarrow> AuthRequest \<Rightarrow> string" where
  "formToken cfg r = (case aqBody r of
      None \<Rightarrow> []
    | Some (body, failed) \<Rightarrow>
        if mcMediaType cfg (aqContentType r) \<noteq> Some ''application/x-www-form-urlencoded'' then []
        else if failed \<and> length body < maxFormTokenBytes then []
        else case mcParseQuery cfg ''requesttoken'' (take maxFormTokenBytes body) of None \<Rightarrow> [] | Some t \<Rightarrow> t)"

definition checkRequestToken :: "Digests \<Rightarrow> ('d, 'c) MiddlewareConfig \<Rightarrow> AuthRequest \<Rightarrow> Principal \<Rightarrow> bool" where
  "checkRequestToken dg cfg r p = (case mcRequestToken cfg of
      None \<Rightarrow> True
    | Some secret \<Rightarrow>
        if ppMethod p \<noteq> MethodSession \<or> csrfSafeMethod (aqMethod r) then True
        else (case aqCookie r (cookieName cfg) of
            None \<Rightarrow> False
          | Some sid \<Rightarrow>
              if sid = [] then False
              else verifyRequestToken dg secret sessionScope sid (if aqTokenHeader r = [] then formToken cfg r else aqTokenHeader r)))"

text \<open>The answer of the middleware: a refusal after a delay, a failed check of the request token, or the next handler for a principal.\<close>

datatype authOutcome = Refused auth_error int | Forged | Served Principal

definition Middleware :: "Digests \<Rightarrow> ('d, 'c) MiddlewareConfig \<Rightarrow> int \<Rightarrow> AuthRequest \<Rightarrow> ('d, 'c) authState \<Rightarrow> ('d, 'c) authState \<times> authOutcome" where
  "Middleware dg cfg now r s = (case authenticate dg cfg now r s of
      (s1, Inl e) \<Rightarrow> (case throttleDelay cfg now r (auCache s1) of (c, delay) \<Rightarrow> (s1\<lparr>auCache := c\<rparr>, Refused e (max 0 delay)))
    | (s1, Inr p) \<Rightarrow> (s1, if checkRequestToken dg cfg r p then Served p else Forged))"

end
