(* ===== verification/Auth_Laws.thy ===== *)
theory Auth_Laws
  imports Auth_Middleware
begin

text \<open>
  What the authentication guarantees: the contract of a token store as a locale, met by both stores, and over it the life of an app password;
  the guard of requests with a session cookie; the throttling; and two errors, an app password that outlives the
  account and a bearer token that outlives its revocation.
\<close>

section \<open>Token stores\<close>

locale token_store =
  fixes ts :: "'d TokenStore" and tokens :: "'d \<Rightarrow> string \<Rightarrow> Token option" and ok :: "'d \<Rightarrow> bool" and free :: "'d \<Rightarrow> Token \<Rightarrow> bool"
  assumes get: "ok d \<Longrightarrow> tsGetByHash ts d h = (case tokens d h of None \<Rightarrow> Inl ErrTokenNotFound | Some t \<Rightarrow> Inr t)"
    and insert: "ok d \<Longrightarrow> tkHash t \<noteq> [] \<Longrightarrow> tkID t \<noteq> [] \<Longrightarrow> free d t \<Longrightarrow> tokens d (tkHash t) = None \<Longrightarrow>
      \<exists>d' c. tsInsert ts d t = (d', Inr ()) \<and> ok d' \<and> tokens d' = (tokens d)(tkHash t \<mapsto> t\<lparr>tkCreatedAt := c\<rparr>)"
    and delete: "ok d \<Longrightarrow> tokens d h = Some t \<Longrightarrow> \<exists>d'. tsDeleteByHash ts d h = (d', Inr ()) \<and> ok d' \<and> tokens d' = (tokens d)(h := None)"

lemma fillAppToken_length: "length out < appTokenLength \<Longrightarrow> length (fillAppToken out buf) \<le> appTokenLength"
  by (induction buf arbitrary: out) (auto simp: Let_def)

lemma GenerateToken_length: "GenerateToken out reads = Some (Inr raw) \<Longrightarrow> length out \<le> appTokenLength \<Longrightarrow> length raw = appTokenLength"
proof (induction reads arbitrary: out)
  case Nil
  then show ?case by (simp add: GenerateToken.simps [of out] split: if_splits)
next
  case (Cons rd reads)
  show ?case
  proof (cases "length out < appTokenLength")
    case True
    then show ?thesis using Cons fillAppToken_length [of out] by (cases rd) (auto simp: GenerateToken.simps [of out "Inl a # reads" for a] GenerateToken.simps [of out "Inr b # reads" for b])
  next
    case False
    then show ?thesis using Cons.prems by (simp add: GenerateToken.simps [of out "rd # reads"])
  qed
qed

text \<open>The names under which the holder of a token may log in.\<close>

definition loginNames :: "string \<Rightarrow> string \<Rightarrow> string set" where
  "loginNames uid login = {[], uid, login}"

context token_store
begin

lemma lookup_gone:
  assumes "ok d" and "tokens d (HashToken sha raw secret) = None" and "tokens d (hashTokenLegacy sha raw) = None"
  shows "lookupToken ts sha secret raw d = Inl ErrTokenNotFound"
  using assms by (simp add: lookupToken_def get)

lemma app_password_life:
  assumes d: "ok d" and raw: "GenerateToken [] reads = Some (Inr raw)" and sha: "\<And>x. dgSha512 dg x \<noteq> []" and v: "avStore v = ts" "avKeys v = None"
    and fresh: "tokens d (HashToken (dgSha512 dg) raw (avSecret v)) = None" "tokens d (hashTokenLegacy (dgSha512 dg) raw) = None"
    and free: "free d \<lparr>tkID = take 16 raw, tkHash = HashToken (dgSha512 dg) raw (avSecret v), tkUID = uid, tkLoginName = login, tkName = name, tkType = typ, tkCreatedAt = now\<rparr>"
  shows "\<exists>d1 t d2. IssueAppPassword ts (dgSha512 dg) (avSecret v) uid login name typ reads now d = Some (d1, Inr (raw, t))
    \<and> (\<forall>user. appPasswordVerify dg v d1 user raw = (if user \<in> loginNames uid login
        then Inr \<lparr>ppUID = uid, ppDisplayName = [], ppEnabled = True, ppMethod = MethodAppPassword, ppUnlockedKey = None\<rparr> else Inl ErrInvalidCredentials))
    \<and> RevokeAppPassword ts (dgSha512 dg) (avSecret v) raw d1 = (d2, Inr ()) \<and> tokens d2 = tokens d
    \<and> (\<forall>user. appPasswordVerify dg v d2 user raw = Inl ErrInvalidCredentials)"
proof -
  let ?h = "HashToken (dgSha512 dg) raw (avSecret v)"
  let ?t = "\<lparr>tkID = take 16 raw, tkHash = ?h, tkUID = uid, tkLoginName = login, tkName = name, tkType = typ, tkCreatedAt = now\<rparr>"
  have l: "length raw = 72" using GenerateToken_length [OF raw] by (simp add: appTokenLength_def)
  then have r: "raw \<noteq> []" "\<not> length raw < appTokenMinLength" by (auto simp: appTokenMinLength_def)
  have t: "tkHash ?t \<noteq> []" "tkID ?t \<noteq> []" using sha r(1) by (simp_all add: HashToken_def)
  obtain d1 c where d1: "tsInsert ts d ?t = (d1, Inr ())" "ok d1" "tokens d1 = (tokens d)(?h \<mapsto> ?t\<lparr>tkCreatedAt := c\<rparr>)"
    using insert [OF d t free] fresh(1) by auto
  obtain d2 where d2: "tsDeleteByHash ts d1 ?h = (d2, Inr ())" "ok d2" "tokens d2 = (tokens d1)(?h := None)"
    using delete [OF d1(2), of ?h] d1(3) by auto
  have look: "lookupToken ts (dgSha512 dg) (avSecret v) raw d1 = Inr (?t\<lparr>tkCreatedAt := c\<rparr>)" using get [OF d1(2)] d1(3) by (simp add: lookupToken_def)
  have same: "tokens d2 = tokens d" using d1(3) d2(3) fresh(1) by auto
  have gone: "lookupToken ts (dgSha512 dg) (avSecret v) raw d2 = Inl ErrTokenNotFound" using lookup_gone [OF d2(2)] same fresh by simp
  have "IssueAppPassword ts (dgSha512 dg) (avSecret v) uid login name typ reads now d = Some (d1, Inr (raw, ?t))" using raw d1(1) by (simp add: IssueAppPassword_def Let_def)
  moreover have "appPasswordVerify dg v d1 user raw = (if user \<in> loginNames uid login
        then Inr \<lparr>ppUID = uid, ppDisplayName = [], ppEnabled = True, ppMethod = MethodAppPassword, ppUnlockedKey = None\<rparr> else Inl ErrInvalidCredentials)" for user
    using look r v by (auto simp: appPasswordVerify_def loginNames_def)
  moreover have "RevokeAppPassword ts (dgSha512 dg) (avSecret v) raw d1 = (d2, Inr ())" using d2(1) by (simp add: RevokeAppPassword_def)
  moreover have "appPasswordVerify dg v d2 user raw = Inl ErrInvalidCredentials" for user using gone r v by (simp add: appPasswordVerify_def)
  ultimately show ?thesis using same by blast
qed

end

interpretation mem_tokens: token_store memTokens map_of "\<lambda>d. distinct (map fst d)" "\<lambda>d t. True"
proof
  fix d :: tokenMap and h
  show "tsGetByHash memTokens d h = (case map_of d h of None \<Rightarrow> Inl ErrTokenNotFound | Some t \<Rightarrow> Inr t)" by (simp add: memTokens_def memTokenGet_def)
next
  fix d :: tokenMap and t :: Token
  assume "distinct (map fst d)" "tkHash t \<noteq> []"
  then show "\<exists>d' c. tsInsert memTokens d t = (d', Inr ()) \<and> distinct (map fst d') \<and> map_of d' = (map_of d)(tkHash t \<mapsto> t\<lparr>tkCreatedAt := c\<rparr>)"
    by (intro exI [of _ "AList.update (tkHash t) t d"] exI [of _ "tkCreatedAt t"]) (simp add: memTokens_def memTokenInsert_def update_conv' distinct_update)
next
  fix d :: tokenMap and h t
  assume "distinct (map fst d)" "map_of d h = Some t"
  then show "\<exists>d'. tsDeleteByHash memTokens d h = (d', Inr ()) \<and> distinct (map fst d') \<and> map_of d' = (map_of d)(h := None)"
    by (intro exI [of _ "AList.delete h d"]) (simp add: memTokens_def memTokenDelete_def delete_conv' distinct_delete)
qed

text \<open>The tokens in the table; a good table has unique hashes, unique accounts, and no row without an account.\<close>

definition tableTokens :: "passwordTable \<Rightarrow> string \<Rightarrow> Token option" where
  "tableTokens d h = map_option (\<lambda>r. (prToken r)\<lparr>tkUID := the (map_of (ptAccounts d) (prUserID r))\<rparr>) (find (\<lambda>r. tkHash (prToken r) = h) (ptPasswords d))"

definition passwordInv :: "passwordTable \<Rightarrow> bool" where
  "passwordInv d \<longleftrightarrow> ptBroken d = None \<and> distinct (map (tkHash \<circ> prToken) (ptPasswords d)) \<and> distinct (map fst (ptAccounts d))
     \<and> (\<forall>r \<in> set (ptPasswords d). map_of (ptAccounts d) (prUserID r) \<noteq> None)"

definition freeRow :: "passwordTable \<Rightarrow> Token \<Rightarrow> bool" where
  "freeRow d t \<longleftrightarrow> tkUID t \<in> snd ` set (ptAccounts d) \<and> (\<forall>r \<in> set (ptPasswords d). tkID (prToken r) \<noteq> tkID t)"

lemma find_joined:
  assumes "\<forall>r \<in> set rows. Q r" shows "find (\<lambda>r. P r \<and> Q r) rows = find P rows"
  using assms by (induction rows) auto

lemma tableTokens_None: "tableTokens d h = None \<longleftrightarrow> (\<forall>r \<in> set (ptPasswords d). tkHash (prToken r) \<noteq> h)"
  by (auto simp: tableTokens_def find_None_iff)

interpretation sql_tokens: token_store sqlTokens tableTokens passwordInv freeRow
proof
  fix d h
  assume a: "passwordInv d"
  then have "find (\<lambda>r. tkHash (prToken r) = h \<and> map_of (ptAccounts d) (prUserID r) \<noteq> None) (ptPasswords d) = find (\<lambda>r. tkHash (prToken r) = h) (ptPasswords d)"
    unfolding passwordInv_def by (intro find_joined) blast
  then show "tsGetByHash sqlTokens d h = (case tableTokens d h of None \<Rightarrow> Inl ErrTokenNotFound | Some t \<Rightarrow> Inr t)"
    using a by (simp only: sqlTokens_def sqlTokenGet_def passwordInv_def tableTokens_def TokenStore.select_convs) (simp split: option.split)
next
  fix d and t :: Token
  assume a: "passwordInv d" "tkHash t \<noteq> []" "tkID t \<noteq> []" "freeRow d t" "tableTokens d (tkHash t) = None"
  obtain u where u: "find (\<lambda>a. snd a = tkUID t) (ptAccounts d) = Some u"
    using a(4) by (cases "find (\<lambda>a. snd a = tkUID t) (ptAccounts d)") (auto simp: freeRow_def find_None_iff)
  then have m: "u \<in> set (ptAccounts d)" "snd u = tkUID t" by (auto simp: find_Some_iff)
  then have au: "map_of (ptAccounts d) (fst u) = Some (tkUID t)" using a(1) by (metis map_of_is_SomeI passwordInv_def prod.collapse)
  let ?r = "\<lparr>prToken = t\<lparr>tkCreatedAt := unix_milli (tkCreatedAt t) * 1000000\<rparr>, prUserID = fst u\<rparr>"
  let ?d = "d\<lparr>ptPasswords := ptPasswords d @ [?r]\<rparr>"
  have n: "\<forall>r \<in> set (ptPasswords d). tkHash (prToken r) \<noteq> tkHash t" using a(5) by (simp add: tableTokens_None)
  have "\<not> list_ex (\<lambda>r. tkID (prToken r) = tkID t \<or> tkHash (prToken r) = tkHash t) (ptPasswords d)" using a(4) n by (auto simp: list_ex_iff freeRow_def)
  then have "tsInsert sqlTokens d t = (?d, Inr ())" using a(1-3) u by (simp add: sqlTokens_def sqlTokenInsert_def accountID_def passwordInv_def)
  moreover have "passwordInv ?d" using a(1) n au by (auto simp: passwordInv_def)
  moreover have "tableTokens ?d = (tableTokens d)(tkHash t \<mapsto> t\<lparr>tkCreatedAt := unix_milli (tkCreatedAt t) * 1000000\<rparr>)"
  proof
    fix h
    have "find P (xs @ [y]) = (case find P xs of None \<Rightarrow> if P y then Some y else None | Some z \<Rightarrow> Some z)" for P :: "passwordRow \<Rightarrow> bool" and xs y by (induction xs) auto
    moreover have "find (\<lambda>r. tkHash (prToken r) = tkHash t) (ptPasswords d) = None" using n by (simp add: find_None_iff)
    ultimately show "tableTokens ?d h = ((tableTokens d)(tkHash t \<mapsto> t\<lparr>tkCreatedAt := unix_milli (tkCreatedAt t) * 1000000\<rparr>)) h"
      using au by (auto simp: tableTokens_def split: option.splits)
  qed
  ultimately show "\<exists>d' c. tsInsert sqlTokens d t = (d', Inr ()) \<and> passwordInv d' \<and> tableTokens d' = (tableTokens d)(tkHash t \<mapsto> t\<lparr>tkCreatedAt := c\<rparr>)" by blast
next
  fix d h t
  assume a: "passwordInv d" "tableTokens d h = Some t"
  obtain r where r: "find (\<lambda>r. tkHash (prToken r) = h) (ptPasswords d) = Some r" using a(2) by (auto simp: tableTokens_def)
  let ?d = "d\<lparr>ptPasswords := filter (\<lambda>r. tkHash (prToken r) \<noteq> h) (ptPasswords d), ptFired := (if ptHook d then ptFired d @ [tkID (prToken r)] else ptFired d)\<rparr>"
  have "tsDeleteByHash sqlTokens d h = (?d, Inr ())" using a(1) r by (simp add: sqlTokens_def sqlTokenDelete_def passwordInv_def)
  moreover have "passwordInv ?d" using a(1) by (auto simp: passwordInv_def distinct_map_filter)
  moreover have "tableTokens ?d = (tableTokens d)(h := None)"
  proof
    fix k
    have "find (\<lambda>r. tkHash (prToken r) = k) (filter (\<lambda>r. tkHash (prToken r) \<noteq> h) rows) = (if k = h then None else find (\<lambda>r. tkHash (prToken r) = k) rows)" for rows :: "passwordRow list"
      by (induction rows) auto
    then show "tableTokens ?d k = ((tableTokens d)(h := None)) k" by (auto simp: tableTokens_def)
  qed
  ultimately show "\<exists>d'. tsDeleteByHash sqlTokens d h = (d', Inr ()) \<and> passwordInv d' \<and> tableTokens d' = (tableTokens d)(h := None)" by blast
qed

section \<open>The life of an app password\<close>

text \<open>
  C16. The life of an app password over the SQL store. A password issued to a known user is accepted from then on under the user name, the login
  name and without a name, answers that user, and is refused under every other name; revoking it succeeds, gives back the tokens
  there were before, and afterwards it is refused under every name. The random token is new to the store, in both ways of hashing it.
\<close>

theorem app_password_lifecycle:
  assumes "passwordInv d" and "GenerateToken [] reads = Some (Inr raw)" and "\<And>x. dgSha512 dg x \<noteq> []" and "avStore v = sqlTokens" and "avKeys v = None"
    and "tableTokens d (HashToken (dgSha512 dg) raw (avSecret v)) = None" and "tableTokens d (hashTokenLegacy (dgSha512 dg) raw) = None"
    and "uid \<in> snd ` set (ptAccounts d)" and "\<forall>r \<in> set (ptPasswords d). tkID (prToken r) \<noteq> take 16 raw"
  shows "\<exists>d1 t d2. IssueAppPassword sqlTokens (dgSha512 dg) (avSecret v) uid login name typ reads now d = Some (d1, Inr (raw, t))
    \<and> (\<forall>user. appPasswordVerify dg v d1 user raw = (if user \<in> loginNames uid login
        then Inr \<lparr>ppUID = uid, ppDisplayName = [], ppEnabled = True, ppMethod = MethodAppPassword, ppUnlockedKey = None\<rparr> else Inl ErrInvalidCredentials))
    \<and> RevokeAppPassword sqlTokens (dgSha512 dg) (avSecret v) raw d1 = (d2, Inr ()) \<and> tableTokens d2 = tableTokens d
    \<and> (\<forall>user. appPasswordVerify dg v d2 user raw = Inl ErrInvalidCredentials)"
  by (rule sql_tokens.app_password_life [OF assms(1-7)]) (use assms(8,9) in \<open>simp add: freeRow_def\<close>)

section \<open>Requests with a session cookie\<close>

definition sessionUser :: "('d, 'c) MiddlewareConfig \<Rightarrow> Session \<Rightarrow> UserInfo option" where
  "sessionUser cfg ses = (case mcSessions cfg of None \<Rightarrow> None | Some v \<Rightarrow> (case seUsers v of None \<Rightarrow> None | Some so \<Rightarrow> soByID so (ssUserID ses)))"

lemma principal_bearer: "principalForUID users uid = Inr p \<Longrightarrow> ppMethod p = MethodBearer"
  by (auto simp: principalForUID_def split: option.splits if_splits)

lemma attach_method: "attachTokenKey dg v token p = Inr q \<Longrightarrow> ppMethod q = ppMethod p"
  by (auto simp: attachTokenKey_def split: sum.splits option.splits)

lemma VerifyToken_method: "VerifyToken dg v now token d c = (c', Inr p) \<Longrightarrow> ppMethod p = MethodBearer"
  by (auto simp: VerifyToken_def Let_def withKey_def dest!: principal_bearer attach_method split: option.splits if_splits prod.splits sum.splits)

lemma chain_method: "chainVerify [appPasswordVerify dg av d, passwordVerify idKey users] user pw = Inr p \<Longrightarrow> ppMethod p \<noteq> MethodSession"
  by (auto simp: chainVerify_def appPasswordVerify_def passwordVerify_def Let_def split: sum.splits if_splits option.splits)

lemma VerifyID_session:
  assumes "VerifyID v now sid d = (d', Inr p)"
  shows "\<exists>ses so u. sessionGet now d sid = Inr ses \<and> seUsers v = Some so \<and> soByID so (ssUserID ses) = Some u \<and> uiEnabled u \<and> ppUID p = uiUID u \<and> d' = touchSession now sid d"
  using assms by (auto simp: VerifyID_def Let_def split: if_splits sum.splits option.splits)

lemma sessionGet_live: "sessionGet now d sid = Inr ses \<Longrightarrow> ses \<in> set (seRows d) \<and> ssID ses = sid \<and> now < ssExpiresAt ses"
  by (auto simp: sessionGet_def find_Some_iff split: if_splits option.splits)

text \<open>
  C15. Requests with a session cookie, through the whole middleware with the verifiers of the server: when the next handler is called for
  a principal of a session, the cookie names a row that has not expired, its user is enabled and is the one answered, and of all rows only
  that one is touched; if the method is not a safe one, the request carries, in the header or else in the form, a token that decodes to the
  digest of that very session.
\<close>

theorem session_request_guarded:
  assumes "Middleware dg cfg now r s = (s', Served p)" and "ppMethod p = MethodSession"
    and "mcVerifier cfg = Some (\<lambda>d. chainVerify [appPasswordVerify dg av d, passwordVerify idKey users])" and "mcRequestToken cfg = Some secret"
  shows "\<exists>sid ses u. aqCookie r (cookieName cfg) = Some sid \<and> ses \<in> set (seRows (auSessions s)) \<and> ssID ses = sid \<and> now < ssExpiresAt ses
    \<and> sessionUser cfg ses = Some u \<and> uiEnabled u \<and> ppUID p = uiUID u \<and> auSessions s' = touchSession now sid (auSessions s)
    \<and> (\<not> csrfSafeMethod (aqMethod r) \<longrightarrow> rawURLDecode (if aqTokenHeader r = [] then formToken cfg r else aqTokenHeader r) = Some (dgMac dg secret (sessionScope @ sid)))"
proof -
  have a: "authenticate dg cfg now r s = (s', Inr p)" "checkRequestToken dg cfg r p"
    using assms(1) by (auto simp: Middleware_def split: prod.splits sum.splits if_splits)
  have "\<exists>v sid d. mcSessions cfg = Some v \<and> aqCookie r (cookieName cfg) = Some sid \<and> sid \<noteq> [] \<and> VerifyID v now sid (auSessions s) = (d, Inr p) \<and> s' = s\<lparr>auSessions := d\<rparr>"
    using a(1) assms(2,3) VerifyToken_method chain_method
    by (fastforce simp: authenticate_def split: option.splits prod.splits if_splits)
  then obtain v sid d where v: "mcSessions cfg = Some v" "aqCookie r (cookieName cfg) = Some sid" "sid \<noteq> []" "VerifyID v now sid (auSessions s) = (d, Inr p)" "s' = s\<lparr>auSessions := d\<rparr>" by blast
  obtain ses so u where u: "sessionGet now (auSessions s) sid = Inr ses" "seUsers v = Some so" "soByID so (ssUserID ses) = Some u" "uiEnabled u" "ppUID p = uiUID u"
      "d = touchSession now sid (auSessions s)" using VerifyID_session [OF v(4)] by blast
  have "\<not> csrfSafeMethod (aqMethod r) \<Longrightarrow> verifyRequestToken dg secret sessionScope sid (if aqTokenHeader r = [] then formToken cfg r else aqTokenHeader r)"
    using a(2) assms(2,4) v(2,3) by (simp add: checkRequestToken_def)
  then have "\<not> csrfSafeMethod (aqMethod r) \<Longrightarrow> rawURLDecode (if aqTokenHeader r = [] then formToken cfg r else aqTokenHeader r) = Some (dgMac dg secret (sessionScope @ sid))"
    unfolding verifyRequestToken_def by (simp split: option.splits if_split_asm)
  then show ?thesis using v(1,2,5) u sessionGet_live [OF u(1)] by (intro exI [of _ sid] exI [of _ ses] exI [of _ u]) (simp add: sessionUser_def)
qed

text \<open>A derived token is accepted exactly for a message with the same digest; the messages of sessions and of login pages are never equal.\<close>

lemma derived_token_verified:
  assumes "dgMac dg secret (domain' @ j) \<noteq> []"
  shows "verifyRequestToken dg secret domain i (deriveToken dg secret domain' j) \<longleftrightarrow> i \<noteq> [] \<and> dgMac dg secret (domain @ i) = dgMac dg secret (domain' @ j)"
proof -
  obtain x xs where "dgMac dg secret (domain' @ j) = x # xs" using assms by (cases "dgMac dg secret (domain' @ j)") auto
  then have "deriveToken dg secret domain' j \<noteq> []" by (cases xs; cases "tl xs") (auto simp: deriveToken_def Let_def)
  moreover have "rawURLDecode (deriveToken dg secret domain' j) = Some (dgMac dg secret (domain' @ j))" by (simp add: deriveToken_def raw_roundtrips)
  ultimately show ?thesis by (auto simp: verifyRequestToken_def)
qed

lemma scopes_apart: "sessionScope @ sid \<noteq> loginScope @ nonce"
  by (simp add: loginScope_def sessionScope_def)

section \<open>Disabled accounts and revoked tokens\<close>

text \<open>
  An account that is disabled: its password is refused whatever it is, and so is its app password as a bearer token; the same app
  password in Basic authentication, through the chain of verifiers of the server, is accepted and answers an enabled user.
\<close>

theorem disabled_account_app_password:
  assumes "lookupToken (avStore v) (dgSha512 dg) (avSecret v) raw d = Inr t" and "appTokenMinLength \<le> length raw" and "avKeys v = None" and "user = tkUID t \<or> user = tkLoginName t"
    and "byUID (tkUID t) = Some (u, hash)" and "\<not> uiEnabled u"
    and "bvStore b = Some (avStore v)" and "bvSecret b = avSecret v" and "bvCache b = None" and "bvUsers b = Some so" and "soByUID so (tkUID t) = Some u" and "trim_space raw = raw"
  shows "chainVerify [appPasswordVerify dg v d, passwordVerify idKey byUID] user raw
      = Inr \<lparr>ppUID = tkUID t, ppDisplayName = [], ppEnabled = True, ppMethod = MethodAppPassword, ppUnlockedKey = None\<rparr>
    \<and> (\<forall>pw. \<exists>e. passwordVerify idKey byUID (tkUID t) pw = Inl e) \<and> VerifyToken dg b now raw d c = (c, Inl ErrInvalidCredentials)"
proof -
  have r: "raw \<noteq> []" "\<not> length raw < appTokenMinLength" using assms(2) by (auto simp: appTokenMinLength_def)
  have "\<exists>e. passwordVerify idKey byUID (tkUID t) pw = Inl e" for pw using assms(5,6) by (simp add: passwordVerify_def)
  moreover have "VerifyToken dg b now raw d c = (c, Inl ErrInvalidCredentials)"
    using assms(1,6-12) r(1) by (simp add: VerifyToken_def cachedUID_def principalForUID_def)
  moreover have "appPasswordVerify dg v d user raw = Inr \<lparr>ppUID = tkUID t, ppDisplayName = [], ppEnabled = True, ppMethod = MethodAppPassword, ppUnlockedKey = None\<rparr>"
    using assms(1,3,4) r by (auto simp: appPasswordVerify_def)
  ultimately show ?thesis by (simp add: chainVerify_def)
qed

text \<open>
  C19. A bearer token that has been used once is accepted after its revocation: as long as the cache holds the entry, \<open>VerifyToken\<close> answers from
  it and does not ask the store.
\<close>

theorem revoked_bearer_served:
  assumes "bvStore v = Some ts" and "bvCache v = Some ca" and "bvKeys v = None" and "trim_space token = token" and "token \<noteq> []"
    and "caGet ca now c (tokenCacheKey dg token) = (c1, Inl ErrMiss)" and "lookupToken ts (dgSha512 dg) (bvSecret v) token d = Inr t" and "tkUID t \<noteq> []"
    and "principalForUID (bvUsers v) (tkUID t) = Inr p" and "caSet ca now c1 (tokenCacheKey dg token) (tkUID t) tokenCacheTTL = (c2, Inr ())"
    and "caGet ca now' c2 (tokenCacheKey dg token) = (c3, Inr (tkUID t))"
  shows "VerifyToken dg v now token d c = (c2, Inr p)
    \<and> VerifyToken dg v now' token (fst (RevokeAppPassword ts (dgSha512 dg) (bvSecret v) token d)) c2 = (c3, Inr p)"
  using assms by (simp add: VerifyToken_def cachedUID_def rememberUID_def withKey_def attachTokenKey_def)

section \<open>Throttling\<close>

primrec observeAll :: "'c CacheThrottler \<Rightarrow> string \<Rightarrow> string \<Rightarrow> int list \<Rightarrow> 'c \<Rightarrow> (cache_error + int) list" where
  "observeAll t ip action [] c = []"
| "observeAll t ip action (now # nows) c = (case Observe t now ip action c of (c', r) \<Rightarrow> r # observeAll t ip action nows c')"

lemma observe_counts:
  assumes "thCache t = Some (memoryCache ri)" and "0 \<le> thLimit t" and "\<forall>now \<in> set nows. throttleKey t ip action now = key"
    and "(case map_of (mmInc m) key of None \<Rightarrow> 0 | Some v \<Rightarrow> v) = int n" and "n + length nows < 2 ^ 32"
  shows "observeAll t ip action nows m = map (\<lambda>i. Inr (max 0 (int (n + i) + 1 - thLimit t) * 100000000)) [0..<length nows]"
  using assms(3-5)
proof (induction nows arbitrary: m n)
  case (Cons now nows)
  let ?m = "m\<lparr>mmInc := AList.update key (int n + 1) (mmInc m)\<rparr>" and ?f = "\<lambda>i. Inr (max 0 (int (n + i) + 1 - thLimit t) * 100000000) :: cache_error + int"
  have w: "wrap64 (int n + 1) = int n + 1" using Cons.prems(3) by (intro wrap64_id) simp_all
  have d: "wrap64 (wrap64 (int n + 1 - thLimit t) * 100000000) = (int n + 1 - thLimit t) * 100000000" if "thLimit t < int n + 1"
  proof -
    have "wrap64 (int n + 1 - thLimit t) = int n + 1 - thLimit t" using that assms(2) Cons.prems(3) by (intro wrap64_id) simp_all
    moreover have "wrap64 ((int n + 1 - thLimit t) * 100000000) = (int n + 1 - thLimit t) * 100000000" using that assms(2) Cons.prems(3) by (intro wrap64_id) simp_all
    ultimately show ?thesis by simp
  qed
  have "Observe t now ip action m = (?m, Inr (max 0 (int n + 1 - thLimit t) * 100000000))"
    using Cons.prems(1,2) assms(1) w d by (auto simp: Observe_def memoryCache_def memoryIncrement_def Let_def)
  moreover have "observeAll t ip action nows ?m = map (\<lambda>i. Inr (max 0 (int (Suc n + i) + 1 - thLimit t) * 100000000)) [0..<length nows]"
    using Cons.prems(1,3) by (intro Cons.IH) (auto simp: update_conv')
  ultimately have r: "observeAll t ip action (now # nows) m = ?f 0 # map (\<lambda>i. ?f (Suc i)) [0..<length nows]" by (simp add: algebra_simps)
  have "map f [0..<length (now # nows)] = f 0 # map (\<lambda>i. f (Suc i)) [0..<length nows]" for f :: "nat \<Rightarrow> cache_error + int"
    by (simp add: upt_conv_Cons map_Suc_upt [symmetric] o_def del: upt_Suc)
  then show ?case unfolding r by (rule sym)
qed simp

text \<open>
  The delays of failed requests from one address within one window: none up to the limit, and a tenth of a second more for each one after it.
\<close>

theorem throttle_delays:
  assumes "thCache t = Some (memoryCache ri)" and "0 \<le> thLimit t" and "\<forall>now \<in> set nows. go_div (now div second) (windowSecs t) = b"
    and "map_of (mmInc m) (throttleKey t ip action (hd nows)) = None" and "length nows < 2 ^ 32"
  shows "observeAll t ip action nows m = map (\<lambda>i. Inr (max 0 (int i + 1 - thLimit t) * 100000000)) [0..<length nows]"
proof (cases nows)
  case (Cons x xs)
  have k: "\<forall>now \<in> set nows. throttleKey t ip action now = throttleKey t ip action (hd nows)" using assms(3) Cons by (auto simp: throttleKey_def)
  show ?thesis using observe_counts [OF assms(1,2) k, of m 0] assms(4,5) by simp
qed simp

section \<open>A server\<close>

definition demoDigests :: Digests where
  "demoDigests = \<lparr>dgSha512 = (\<lambda>s. CHR ''h'' # s), dgSha256 = (\<lambda>s. s), dgMac = (\<lambda>k m. k @ m)\<rparr>"

definition demoAccount :: "bool \<Rightarrow> UserInfo" where
  "demoAccount enabled = \<lparr>uiID = 1, uiUID = ''alice'', uiDisplayName = ''Alice'', uiEnabled = enabled\<rparr>"

definition demoAccounts :: "bool \<Rightarrow> UserSource" where
  "demoAccounts enabled = \<lparr>soByUID = (\<lambda>u. if u = ''alice'' then Some (demoAccount enabled) else None), soByID = (\<lambda>i. if i = 1 then Some (demoAccount enabled) else None)\<rparr>"

definition demoPasswords :: "passwordRow list \<Rightarrow> passwordTable" where
  "demoPasswords rows = \<lparr>ptPasswords = rows, ptAccounts = [(1, ''alice'')], ptHook = False, ptFired = [], ptBroken = None\<rparr>"

definition demoAppVerifier :: "passwordTable AppPasswordVerifier" where
  "demoAppVerifier = \<lparr>avStore = sqlTokens, avSecret = ''pepper'', avKeys = None\<rparr>"

definition demoRaw :: string where "demoRaw = replicate 72 (CHR ''A'')"

text \<open>The account has one app password.\<close>

definition demoIssued :: passwordTable where
  "demoIssued = demoPasswords [\<lparr>prToken = \<lparr>tkID = take 16 demoRaw, tkHash = CHR ''h'' # demoRaw @ ''pepper'', tkUID = ''alice'', tkLoginName = ''alice'', tkName = ''phone'',
     tkType = 1, tkCreatedAt = 0\<rparr>, prUserID = 1\<rparr>]"

text \<open>A \<open>ristretto\<close> that keeps everything until it expires.\<close>

type_synonym demoItems = "(string \<times> (string \<times> string) \<times> int) list"

definition demoRistretto :: "demoItems Ristretto" where
  "demoRistretto = \<lparr>riGet = (\<lambda>now r k. case map_of r k of None \<Rightarrow> None | Some (e, expiry) \<Rightarrow> if expiry = 0 \<or> now < expiry then Some e else None),
     riSet = (\<lambda>now r k e cost ttl. (AList.update k (e, if ttl = 0 then 0 else now + ttl) r, True, [])), riDel = (\<lambda>r k. AList.delete k r)\<rparr>"

definition demoBearer :: "bool \<Rightarrow> demoItems Memory Cache option \<Rightarrow> (passwordTable, demoItems Memory) BearerVerifier" where
  "demoBearer enabled c = \<lparr>bvStore = Some sqlTokens, bvUsers = Some (demoAccounts enabled), bvSecret = ''pepper'', bvCache = c, bvKeys = None\<rparr>"

lemma demo_lookup: "lookupToken sqlTokens (dgSha512 demoDigests) ''pepper'' demoRaw demoIssued
    = Inr \<lparr>tkID = take 16 demoRaw, tkHash = CHR ''h'' # demoRaw @ ''pepper'', tkUID = ''alice'', tkLoginName = ''alice'', tkName = ''phone'', tkType = 1, tkCreatedAt = 0\<rparr>"
  by (simp add: lookupToken_def sqlTokens_def sqlTokenGet_def demoIssued_def demoPasswords_def HashToken_def demoDigests_def)

lemma demo_raw: "GenerateToken [] [Inr (replicate 144 0)] = Some (Inr demoRaw)" "trim_space demoRaw = demoRaw" "length demoRaw = 72"
  by code_simp+

theorem app_password_lifecycle_witness:
  "\<exists>d1 t d2. IssueAppPassword sqlTokens (dgSha512 demoDigests) ''pepper'' ''alice'' ''alice'' ''phone'' 1 [Inr (replicate 144 0)] 0 (demoPasswords []) = Some (d1, Inr (demoRaw, t))
    \<and> appPasswordVerify demoDigests demoAppVerifier d1 ''alice'' demoRaw
      = Inr \<lparr>ppUID = ''alice'', ppDisplayName = [], ppEnabled = True, ppMethod = MethodAppPassword, ppUnlockedKey = None\<rparr>
    \<and> appPasswordVerify demoDigests demoAppVerifier d1 ''bob'' demoRaw = Inl ErrInvalidCredentials
    \<and> RevokeAppPassword sqlTokens (dgSha512 demoDigests) ''pepper'' demoRaw d1 = (d2, Inr ())
    \<and> appPasswordVerify demoDigests demoAppVerifier d2 ''alice'' demoRaw = Inl ErrInvalidCredentials"
proof -
  have v: "avStore demoAppVerifier = sqlTokens" "avKeys demoAppVerifier = None" "avSecret demoAppVerifier = ''pepper''" by (simp_all add: demoAppVerifier_def)
  have t: "passwordInv (demoPasswords [])" "tableTokens (demoPasswords []) h = None" "''alice'' \<in> snd ` set (ptAccounts (demoPasswords []))"
    "\<forall>r \<in> set (ptPasswords (demoPasswords [])). tkID (prToken r) \<noteq> x" for h x
    by (simp_all add: passwordInv_def tableTokens_def demoPasswords_def)
  have s: "dgSha512 demoDigests x \<noteq> []" for x by (simp add: demoDigests_def)
  show ?thesis
    using app_password_lifecycle [OF t(1) demo_raw(1) s v(1,2) t(2,2) t(3,4), of "''alice''" "''phone''" 1 0] unfolding v(3) by (auto simp: loginNames_def)
qed

definition demoConfig :: "(passwordTable, unit) MiddlewareConfig" where
  "demoConfig = \<lparr>mcVerifier = Some (\<lambda>d. chainVerify [appPasswordVerify demoDigests demoAppVerifier d, passwordVerify demoKDF (\<lambda>u. None)]), mcBearer = None,
     mcSessions = Some \<lparr>seUsers = Some (demoAccounts True), seKeys = None\<rparr>, mcThrottle = None, mcCookie = [], mcAction = [], mcRequestToken = Some ''key'',
     mcSplitHost = (\<lambda>a. None), mcMediaType = (\<lambda>t. None), mcParseQuery = (\<lambda>f q. None)\<rparr>"

definition demoPost :: "string \<Rightarrow> AuthRequest" where
  "demoPost tok = \<lparr>aqMethod = ''POST'', aqAuthorization = [], aqCookie = (\<lambda>n. if n = ''nc_session_id'' then Some ''s1'' else None), aqTokenHeader = tok,
     aqRemoteAddr = [], aqContentType = [], aqBody = None\<rparr>"

definition demoSessions :: "(passwordTable, unit) authState" where
  "demoSessions = \<lparr>auTokens = demoPasswords [], auSessions = \<lparr>seRows = [\<lparr>ssID = ''s1'', ssUserID = 1, ssUserAgent = [], ssIP = [], ssCreatedAt = 0, ssLastSeenAt = 0,
     ssExpiresAt = 9000000, ssSealedUK = None\<rparr>], seDown = None\<rparr>, auCache = ()\<rparr>"

theorem session_request_guarded_witness:
  "snd (Middleware demoDigests demoConfig 5 (demoPost ''x'') demoSessions) = Forged
   \<and> (\<exists>tok s' p. Middleware demoDigests demoConfig 5 (demoPost tok) demoSessions = (s', Served p) \<and> ppUID p = ''alice'' \<and> rawURLDecode tok = Some ''keyncgo-requesttoken:s1'')"
proof -
  let ?tok = "deriveToken demoDigests ''key'' sessionScope ''s1''"
  have f: "snd (Middleware demoDigests demoConfig 5 (demoPost ''x'') demoSessions) = Forged"
    and p: "snd (Middleware demoDigests demoConfig 5 (demoPost ?tok) demoSessions) = Served \<lparr>ppUID = ''alice'', ppDisplayName = ''Alice'', ppEnabled = True, ppMethod = MethodSession, ppUnlockedKey = None\<rparr>"
    by code_simp+
  then obtain s' where m: "Middleware demoDigests demoConfig 5 (demoPost ?tok) demoSessions
      = (s', Served \<lparr>ppUID = ''alice'', ppDisplayName = ''Alice'', ppEnabled = True, ppMethod = MethodSession, ppUnlockedKey = None\<rparr>)" by (metis prod.collapse)
  have t: "?tok \<noteq> []" "\<not> csrfSafeMethod ''POST''" by code_simp+
  have c: "mcVerifier demoConfig = Some (\<lambda>d. chainVerify [appPasswordVerify demoDigests demoAppVerifier d, passwordVerify demoKDF (\<lambda>u. None)])" "mcRequestToken demoConfig = Some ''key''"
    by (simp_all add: demoConfig_def)
  have "rawURLDecode ?tok = Some (dgMac demoDigests ''key'' (sessionScope @ ''s1''))"
    using session_request_guarded [OF m _ c] t by (auto simp: demoPost_def cookieName_def demoConfig_def)
  then show ?thesis using f m by (intro conjI exI [of _ ?tok]) (auto simp: demoDigests_def sessionScope_def)
qed

theorem disabled_account_app_password_witness:
  "chainVerify [appPasswordVerify demoDigests demoAppVerifier demoIssued, passwordVerify demoKDF (\<lambda>u. if u = ''alice'' then Some (demoAccount False, ''hash'') else None)] ''alice'' demoRaw
      = Inr \<lparr>ppUID = ''alice'', ppDisplayName = [], ppEnabled = True, ppMethod = MethodAppPassword, ppUnlockedKey = None\<rparr>
   \<and> VerifyToken demoDigests (demoBearer False None) 0 demoRaw demoIssued (NewMemory ([] :: demoItems)) = (NewMemory [], Inl ErrInvalidCredentials)"
proof -
  have v: "avStore demoAppVerifier = sqlTokens" "avKeys demoAppVerifier = None" "avSecret demoAppVerifier = ''pepper''" by (simp_all add: demoAppVerifier_def)
  have l: "appTokenMinLength \<le> length demoRaw" by (simp add: demo_raw appTokenMinLength_def)
  show ?thesis
    using disabled_account_app_password [OF demo_lookup [folded v(1,3)] l v(2) _ _ _ _ _ _ _ _ demo_raw(2), where user = "''alice''" and u = "demoAccount False" and hash = "''hash''"
      and byUID = "\<lambda>u. if u = ''alice'' then Some (demoAccount False, ''hash'') else None" and idKey = demoKDF and b = "demoBearer False None" and so = "demoAccounts False" and now = 0 and c = "NewMemory ([] :: demoItems)"]
    by (simp add: demoBearer_def demoAccounts_def demoAccount_def v)
qed

theorem revoked_bearer_served_witness:
  "\<exists>c2 c3 d2 p. VerifyToken demoDigests (demoBearer True (Some (memoryCache demoRistretto))) 0 demoRaw demoIssued (NewMemory []) = (c2, Inr p)
     \<and> RevokeAppPassword sqlTokens (dgSha512 demoDigests) ''pepper'' demoRaw demoIssued = (d2, Inr ()) \<and> ptPasswords d2 = []
     \<and> VerifyToken demoDigests (demoBearer True (Some (memoryCache demoRistretto))) 59000000000 demoRaw d2 c2 = (c3, Inr p)"
proof -
  let ?v = "demoBearer True (Some (memoryCache demoRistretto))" and ?k = "tokenCacheKey demoDigests demoRaw"
  let ?c2 = "\<lparr>mmStore = [(?k, (?k, ''alice''), 60000000000)], mmInc = [], mmKeys = [?k]\<rparr> :: demoItems Memory"
  have v: "bvStore ?v = Some sqlTokens" "bvCache ?v = Some (memoryCache demoRistretto)" "bvKeys ?v = None" "bvSecret ?v = ''pepper''" by (simp_all add: demoBearer_def)
  have n: "demoRaw \<noteq> []" using demo_raw(3) by auto
  have p: "principalForUID (bvUsers ?v) ''alice'' = Inr \<lparr>ppUID = ''alice'', ppDisplayName = ''Alice'', ppEnabled = True, ppMethod = MethodBearer, ppUnlockedKey = None\<rparr>"
    by (simp add: demoBearer_def principalForUID_def demoAccounts_def demoAccount_def)
  have c: "caGet (memoryCache demoRistretto) 0 (NewMemory []) ?k = (NewMemory [], Inl ErrMiss)"
    "caSet (memoryCache demoRistretto) 0 (NewMemory []) ?k ''alice'' tokenCacheTTL = (?c2, Inr ())"
    "caGet (memoryCache demoRistretto) 59000000000 ?c2 ?k = (?c2, Inr ''alice'')"
    by (simp_all add: memoryCache_def memoryGet_def memorySet_def demoRistretto_def NewMemory_def tokenCacheTTL_def)
  have r: "snd (RevokeAppPassword sqlTokens (dgSha512 demoDigests) ''pepper'' demoRaw demoIssued) = Inr ()" "ptPasswords (fst (RevokeAppPassword sqlTokens (dgSha512 demoDigests) ''pepper'' demoRaw demoIssued)) = []"
    by (simp_all add: RevokeAppPassword_def sqlTokens_def sqlTokenDelete_def demoIssued_def demoPasswords_def HashToken_def demoDigests_def)
  show ?thesis
    using revoked_bearer_served [OF v(1-3) demo_raw(2) n c(1) demo_lookup [folded v(4)], of _ ?c2 59000000000 ?c2] p c(2,3) r v(4)
    by (metis (no_types, lifting) Token.select_convs(3) list.distinct(1) prod.collapse)
qed

theorem throttle_delays_witness:
  "observeAll (NewCacheThrottler (Some (memoryCache demoRistretto)) 2 0) ''10.0.0.1'' ''login'' [0, 1000000000, 2000000000, 29000000000] (NewMemory [])
     = [Inr 0, Inr 0, Inr 100000000, Inr 200000000]"
proof -
  let ?t = "NewCacheThrottler (Some (memoryCache demoRistretto)) 2 0 :: demoItems Memory CacheThrottler"
  have "\<forall>now \<in> set [0, 1000000000, 2000000000, 29000000000]. go_div (now div second) (windowSecs ?t) = go_div (0 div second) (windowSecs ?t)" by code_simp
  moreover have "thCache ?t = Some (memoryCache demoRistretto)" "thLimit ?t = 2" by (simp_all add: NewCacheThrottler_def)
  ultimately show ?thesis
    using throttle_delays [of ?t demoRistretto "[0, 1000000000, 2000000000, 29000000000]" _ "NewMemory []" "''10.0.0.1''" "''login''"] by (simp add: NewMemory_def upt_rec)
qed

end
