(* ===== verification/Users_Store.thy ===== *)
theory Users_Store
  imports Auth_Middleware "HOL-Library.List_Lexorder" "HOL-Library.Char_ord"
begin

text \<open>
  Accounts and groups (\<^verbatim>\<open>src/internal/users\<close>): the tables \<open>users\<close>, \<open>groups\<close> and \<open>group_members\<close> in the order of their ids, every operation of
  \<open>SQLStore\<close> and the seeding of the first administrator. A statement takes one entry of \<open>udFaults\<close>, the error it ends with, and an
  empty list is a database without faults. The comparison of \<open>LIKE\<close> or \<open>ILIKE\<close> is a parameter, pattern first. The hooks of the keys are
  parameters that may change the database; what the log gets is kept in \<open>udLog\<close>. Times are in nanoseconds, the columns hold milliseconds.
\<close>

section \<open>The tables\<close>

datatype account_error = AccNotFound | AccExists | AccNoUsers | AccErr string

record Account =
  acID :: int
  acUID :: string
  acDisplayName :: string
  acEmail :: string
  acHash :: string
  acQuota :: "int option"
  acEnabled :: bool
  acCreatedAt :: int
  acUpdatedAt :: int

record Group =
  gpID :: int
  gpGID :: string
  gpDisplayName :: string

record accountRow =
  arID :: int
  arUID :: string
  arDisplayName :: string
  arEmail :: "string option"
  arHash :: string
  arQuota :: "int option"
  arEnabled :: int
  arCreated :: int
  arUpdated :: int
  arNameScheme :: int

record groupRow =
  grID :: int
  grGID :: string
  grDisplayName :: string
  grCreated :: int

text \<open>
  \<open>udRefs\<close> holds the rows of the other tables with a column \<open>user_id\<close> that refers to \<open>users(id)\<close> with \<open>ON DELETE CASCADE\<close>: the name of the
  table and the user id. The ids are \<open>AUTOINCREMENT\<close>: an id is not given twice.
\<close>

record UsersDB =
  udUsers :: "accountRow list"
  udNextUser :: int
  udGroups :: "groupRow list"
  udNextGroup :: int
  udMembers :: "(int \<times> int) list"
  udRefs :: "(string \<times> int) list"
  udFaults :: "string option list"
  udLog :: "string list"

type_synonym 'a dbop = "UsersDB \<Rightarrow> UsersDB \<times> (account_error + 'a)"

definition retDB :: "account_error + 'a \<Rightarrow> 'a dbop" where
  "retDB r d = (d, r)"

definition bindDB :: "'a dbop \<Rightarrow> ('a \<Rightarrow> 'b dbop) \<Rightarrow> 'b dbop" where
  "bindDB m k d = (case m d of (d1, Inl e) \<Rightarrow> (d1, Inl e) | (d1, Inr x) \<Rightarrow> k x d1)"

definition statement :: "string \<Rightarrow> 'a dbop \<Rightarrow> 'a dbop" where
  "statement msg f d = (case udFaults d of
      Some e # fs \<Rightarrow> (d\<lparr>udFaults := fs\<rparr>, Inl (AccErr (msg @ e)))
    | fs \<Rightarrow> f (d\<lparr>udFaults := tl fs\<rparr>))"

record UserKeysHook =
  OnUserCreated :: "string \<Rightarrow> UsersDB \<Rightarrow> UsersDB \<times> string option"
  OnUserDeleted :: "string \<Rightarrow> UsersDB \<Rightarrow> UsersDB \<times> string option"

record MemberKeysHook =
  OnGroupMemberAdded :: "string \<Rightarrow> string \<Rightarrow> UsersDB \<Rightarrow> UsersDB \<times> string option"
  OnGroupMemberRemoved :: "string \<Rightarrow> string \<Rightarrow> UsersDB \<Rightarrow> UsersDB \<times> string option"

record AccountStore =
  asMemberKeys :: "MemberKeysHook option"
  asUserKeys :: "UserKeysHook option"
  asLogger :: bool

definition NewAccountStore :: AccountStore where
  "NewAccountStore = \<lparr>asMemberKeys = None, asUserKeys = None, asLogger = False\<rparr>"

section \<open>Reading accounts\<close>

definition scanUserRow :: "accountRow \<Rightarrow> Account" where
  "scanUserRow r = \<lparr>acID = arID r, acUID = arUID r, acDisplayName = arDisplayName r, acEmail = (case arEmail r of None \<Rightarrow> [] | Some e \<Rightarrow> e), acHash = arHash r,
     acQuota = arQuota r, acEnabled = (arEnabled r \<noteq> 0), acCreatedAt = arCreated r * 1000000, acUpdatedAt = arUpdated r * 1000000\<rparr>"

definition nullEmail :: "string \<Rightarrow> string option" where
  "nullEmail s = (if s = [] then None else Some s)"

definition getUser :: "(accountRow \<Rightarrow> bool) \<Rightarrow> Account dbop" where
  "getUser p = statement ''users: get: '' (\<lambda>d. (d, case find p (udUsers d) of None \<Rightarrow> Inl AccNotFound | Some r \<Rightarrow> Inr (scanUserRow r)))"

definition GetByUID :: "string \<Rightarrow> Account dbop" where
  "GetByUID uid = getUser (\<lambda>r. arUID r = uid)"

definition GetByID :: "int \<Rightarrow> Account dbop" where
  "GetByID i = getUser (\<lambda>r. arID r = i)"

definition GetByEmail :: "string \<Rightarrow> Account dbop" where
  "GetByEmail email = getUser (\<lambda>r. arEmail r = Some email)"

text \<open>\<open>ORDER BY\<close> with an optional \<open>LIMIT ? OFFSET ?\<close>; a negative offset counts as 0.\<close>

definition page :: "int \<Rightarrow> int \<Rightarrow> 'a list \<Rightarrow> 'a list" where
  "page limit offset xs = (if limit > 0 then take (nat limit) (drop (nat offset) xs) else xs)"

definition ListUsers :: "int \<Rightarrow> int \<Rightarrow> Account list dbop" where
  "ListUsers limit offset = statement ''users: list: '' (\<lambda>d. (d, Inr (map scanUserRow (page limit offset (sort_key arUID (udUsers d))))))"

definition Count :: "int dbop" where
  "Count = statement ''users: count: '' (\<lambda>d. (d, Inr (int (length (udUsers d)))))"

definition UserNameScheme :: "int \<Rightarrow> int dbop" where
  "UserNameScheme i = statement ''users: name scheme: ''
     (\<lambda>d. (d, case find (\<lambda>r. arID r = i) (udUsers d) of None \<Rightarrow> Inl AccNotFound | Some r \<Rightarrow> Inr (arNameScheme r)))"

definition searchMax :: int where "searchMax = 20"

definition searchLimit :: "int \<Rightarrow> int" where
  "searchLimit limit = (if limit \<le> 0 \<or> limit > searchMax then searchMax else limit)"

definition SearchUsers :: "(string \<Rightarrow> string \<Rightarrow> bool) \<Rightarrow> string \<Rightarrow> int \<Rightarrow> Account list dbop" where
  "SearchUsers like term limit =
     (let t = trim_space term; pat = ''%'' @ t @ ''%'' in
      if t = [] then retDB (Inr [])
      else statement ''users: search: '' (\<lambda>d. (d, Inr (map scanUserRow (take (nat (searchLimit limit))
             (sort_key arUID (filter (\<lambda>r. arEnabled r = 1 \<and> (like pat (arUID r) \<or> like pat (arDisplayName r))) (udUsers d))))))))"

section \<open>Changing accounts\<close>

definition warnKeys :: "AccountStore \<Rightarrow> string \<Rightarrow> UsersDB \<times> string option \<Rightarrow> UsersDB" where
  "warnKeys st msg r = (case r of
      (d, None) \<Rightarrow> d
    | (d, Some e) \<Rightarrow> if asLogger st then d\<lparr>udLog := udLog d @ [msg @ e]\<rparr> else d)"

definition userKeysCreated :: "AccountStore \<Rightarrow> string \<Rightarrow> UsersDB \<Rightarrow> UsersDB" where
  "userKeysCreated st uid d = (case asUserKeys st of None \<Rightarrow> d | Some h \<Rightarrow> warnKeys st ''users: user keys hook failed: '' (OnUserCreated h uid d))"

definition userKeysDeleted :: "AccountStore \<Rightarrow> string \<Rightarrow> UsersDB \<Rightarrow> UsersDB" where
  "userKeysDeleted st uid d = (case asUserKeys st of None \<Rightarrow> d | Some h \<Rightarrow> warnKeys st ''users: user keys hook failed: '' (OnUserDeleted h uid d))"

text \<open>\<open>u.CreatedAt\<close> of a new account is the clock unless the caller gave a time; \<open>UpdatedAt\<close> is the same time.\<close>

definition insertAccount :: "Account \<Rightarrow> int \<Rightarrow> unit dbop" where
  "insertAccount u created = statement ''users: create: '' (\<lambda>d.
     if list_ex (\<lambda>r. arUID r = acUID u) (udUsers d) then (d, Inl AccExists)
     else (d\<lparr>udUsers := udUsers d @ [\<lparr>arID = udNextUser d, arUID = acUID u, arDisplayName = acDisplayName u, arEmail = nullEmail (acEmail u), arHash = acHash u,
               arQuota = acQuota u, arEnabled = (if acEnabled u then 1 else 0), arCreated = created, arUpdated = created, arNameScheme = 0\<rparr>],
             udNextUser := udNextUser d + 1\<rparr>, Inr ()))"

definition CreateUser :: "AccountStore \<Rightarrow> int \<Rightarrow> Account option \<Rightarrow> Account dbop" where
  "CreateUser st now u = (case u of
      None \<Rightarrow> retDB (Inl (AccErr ''users: invalid user''))
    | Some u \<Rightarrow>
        if acUID u = [] then retDB (Inl (AccErr ''users: invalid user''))
        else bindDB (insertAccount u (unix_milli (if acCreatedAt u = zeroTime then unix_milli now * 1000000 else acCreatedAt u)))
          (\<lambda>_. bindDB (GetByUID (acUID u)) (\<lambda>got d. (userKeysCreated st (acUID u) d, Inr got))))"

text \<open>\<open>UPDATE users SET \<dots> WHERE\<close>: \<open>ErrNotFound\<close> when no row was affected.\<close>

definition updateUsers :: "string \<Rightarrow> (accountRow \<Rightarrow> bool) \<Rightarrow> (accountRow \<Rightarrow> accountRow) \<Rightarrow> unit dbop" where
  "updateUsers msg p f = statement msg (\<lambda>d.
     if list_ex p (udUsers d) then (d\<lparr>udUsers := map (\<lambda>r. if p r then f r else r) (udUsers d)\<rparr>, Inr ()) else (d, Inl AccNotFound))"

definition SetEnabled :: "int \<Rightarrow> string \<Rightarrow> bool \<Rightarrow> unit dbop" where
  "SetEnabled now uid enabled = updateUsers ''users: set enabled: '' (\<lambda>r. arUID r = uid)
     (\<lambda>r. r\<lparr>arEnabled := (if enabled then 1 else 0), arUpdated := unix_milli now\<rparr>)"

definition UpdatePasswordHash :: "int \<Rightarrow> int \<Rightarrow> string \<Rightarrow> unit dbop" where
  "UpdatePasswordHash now i hash = updateUsers ''users: update hash: '' (\<lambda>r. arID r = i) (\<lambda>r. r\<lparr>arHash := hash, arUpdated := unix_milli now\<rparr>)"

definition SetNameScheme :: "int \<Rightarrow> string \<Rightarrow> int \<Rightarrow> unit dbop" where
  "SetNameScheme now uid scheme = updateUsers ''users: set name scheme: '' (\<lambda>r. arUID r = uid)
     (\<lambda>r. r\<lparr>arNameScheme := scheme, arUpdated := unix_milli now\<rparr>)"

text \<open>Deleting a row of \<open>users\<close> takes the rows that refer to it, in all tables.\<close>

definition deleteMembers :: "string \<Rightarrow> (int \<times> int \<Rightarrow> bool) \<Rightarrow> unit dbop" where
  "deleteMembers msg p = statement msg (\<lambda>d. (d\<lparr>udMembers := filter (\<lambda>m. \<not> p m) (udMembers d)\<rparr>, Inr ()))"

definition deleteUserRow :: "int \<Rightarrow> unit dbop" where
  "deleteUserRow i = statement ''users: delete: '' (\<lambda>d. (d\<lparr>udUsers := filter (\<lambda>r. arID r \<noteq> i) (udUsers d),
     udMembers := filter (\<lambda>m. snd m \<noteq> i) (udMembers d), udRefs := filter (\<lambda>f. snd f \<noteq> i) (udRefs d)\<rparr>, Inr ()))"

definition DeleteUser :: "AccountStore \<Rightarrow> string \<Rightarrow> unit dbop" where
  "DeleteUser st uid = bindDB (GetByUID uid) (\<lambda>u.
     bindDB (deleteMembers ''users: delete memberships: '' (\<lambda>m. snd m = acID u)) (\<lambda>_ d.
     deleteUserRow (acID u) (userKeysDeleted st uid d)))"

text \<open>\<open>nameSchemeUserKeys\<close> of the server (\<^verbatim>\<open>src/internal/app/app.go\<close>): accounts that are created while file names are encrypted start with scheme 1.\<close>

definition joinErrors :: "string option \<Rightarrow> string option \<Rightarrow> string option" where
  "joinErrors a b = (case (a, b) of (None, _) \<Rightarrow> b | (Some x, None) \<Rightarrow> Some x | (Some x, Some y) \<Rightarrow> Some (x @ [CHR 0x0A] @ y))"

definition accountErrorText :: "account_error \<Rightarrow> string" where
  "accountErrorText e = (case e of
      AccNotFound \<Rightarrow> ''users: not found'' | AccExists \<Rightarrow> ''users: already exists'' | AccNoUsers \<Rightarrow> ''users: no users configured'' | AccErr s \<Rightarrow> s)"

definition nameSchemeUserKeys :: "int \<Rightarrow> UserKeysHook \<Rightarrow> UserKeysHook" where
  "nameSchemeUserKeys now h = h\<lparr>OnUserCreated := (\<lambda>uid d.
     (case OnUserCreated h uid d of (d1, err) \<Rightarrow> (case SetNameScheme now uid 1 d1 of
          (d2, Inl e) \<Rightarrow> (d2, joinErrors err (Some (accountErrorText e)))
        | (d2, Inr _) \<Rightarrow> (d2, joinErrors err None))))\<rparr>"

section \<open>Groups\<close>

definition scanGroup :: "groupRow \<Rightarrow> Group" where
  "scanGroup g = \<lparr>gpID = grID g, gpGID = grGID g, gpDisplayName = grDisplayName g\<rparr>"

definition GetGroupByGID :: "string \<Rightarrow> Group dbop" where
  "GetGroupByGID gid = (if gid = [] then retDB (Inl AccNotFound)
     else statement ''users: get group: '' (\<lambda>d. (d, case find (\<lambda>g. grGID g = gid) (udGroups d) of
        None \<Rightarrow> Inl AccNotFound
      | Some g \<Rightarrow> Inr (scanGroup g))))"

definition insertGroup :: "int \<Rightarrow> Group \<Rightarrow> unit dbop" where
  "insertGroup now g = statement ''users: create group: '' (\<lambda>d.
     if list_ex (\<lambda>r. grGID r = gpGID g) (udGroups d) then (d, Inl AccExists)
     else (d\<lparr>udGroups := udGroups d @ [\<lparr>grID = udNextGroup d, grGID = gpGID g, grDisplayName = (if gpDisplayName g = [] then gpGID g else gpDisplayName g),
               grCreated = unix_milli now\<rparr>], udNextGroup := udNextGroup d + 1\<rparr>, Inr ()))"

definition CreateGroup :: "int \<Rightarrow> Group option \<Rightarrow> Group dbop" where
  "CreateGroup now g = (case g of
      None \<Rightarrow> retDB (Inl (AccErr ''users: invalid group''))
    | Some g \<Rightarrow> if gpGID g = [] then retDB (Inl (AccErr ''users: invalid group'')) else bindDB (insertGroup now g) (\<lambda>_. GetGroupByGID (gpGID g)))"

definition memberKeysAdded :: "AccountStore \<Rightarrow> string \<Rightarrow> string \<Rightarrow> UsersDB \<Rightarrow> UsersDB" where
  "memberKeysAdded st gid uid d = (case asMemberKeys st of None \<Rightarrow> d | Some h \<Rightarrow> warnKeys st ''users: member keys hook failed: '' (OnGroupMemberAdded h gid uid d))"

definition memberKeysRemoved :: "AccountStore \<Rightarrow> string \<Rightarrow> string \<Rightarrow> UsersDB \<Rightarrow> UsersDB" where
  "memberKeysRemoved st gid uid d = (case asMemberKeys st of None \<Rightarrow> d | Some h \<Rightarrow> warnKeys st ''users: member keys hook failed: '' (OnGroupMemberRemoved h gid uid d))"

text \<open>A membership that exists already is a unique violation, which is not an error.\<close>

definition AddGroupMember :: "AccountStore \<Rightarrow> string \<Rightarrow> string \<Rightarrow> unit dbop" where
  "AddGroupMember st gid uid = bindDB (GetGroupByGID gid) (\<lambda>g. bindDB (GetByUID uid) (\<lambda>u.
     bindDB (statement ''users: add member: '' (\<lambda>d.
         if (gpID g, acID u) \<in> set (udMembers d) then (d, Inr ()) else (d\<lparr>udMembers := udMembers d @ [(gpID g, acID u)]\<rparr>, Inr ())))
       (\<lambda>_ d. (memberKeysAdded st gid uid d, Inr ()))))"

definition RemoveGroupMember :: "AccountStore \<Rightarrow> string \<Rightarrow> string \<Rightarrow> unit dbop" where
  "RemoveGroupMember st gid uid = bindDB (GetGroupByGID gid) (\<lambda>g. bindDB (GetByUID uid) (\<lambda>u.
     bindDB (deleteMembers ''users: remove member: '' (\<lambda>m. m = (gpID g, acID u))) (\<lambda>_ d. (memberKeysRemoved st gid uid d, Inr ()))))"

definition DeleteGroup :: "string \<Rightarrow> unit dbop" where
  "DeleteGroup gid = bindDB (GetGroupByGID gid) (\<lambda>g. bindDB (deleteMembers ''users: delete group memberships: '' (\<lambda>m. fst m = gpID g)) (\<lambda>_.
     statement ''users: delete group: '' (\<lambda>d. (d\<lparr>udGroups := filter (\<lambda>r. grID r \<noteq> gpID g) (udGroups d), udMembers := filter (\<lambda>m. fst m \<noteq> gpID g) (udMembers d)\<rparr>, Inr ()))))"

definition UserGroupGIDs :: "string \<Rightarrow> string list dbop" where
  "UserGroupGIDs uid d = (case GetByUID uid d of
      (d1, Inl AccNotFound) \<Rightarrow> (d1, Inr [])
    | (d1, Inl e) \<Rightarrow> (d1, Inl e)
    | (d1, Inr u) \<Rightarrow> statement ''users: group gids: ''
        (\<lambda>d. (d, Inr (sort (map grGID (filter (\<lambda>g. (grID g, acID u) \<in> set (udMembers d)) (udGroups d)))))) d1)"

definition GroupMembers :: "string \<Rightarrow> int \<Rightarrow> string list dbop" where
  "GroupMembers gid limit = bindDB (GetGroupByGID gid) (\<lambda>g. statement ''users: group members: ''
     (\<lambda>d. (d, Inr (page limit 0 (sort (map arUID (filter (\<lambda>r. (gpID g, arID r) \<in> set (udMembers d)) (udUsers d))))))))"

definition ListGroups :: "int \<Rightarrow> int \<Rightarrow> Group list dbop" where
  "ListGroups limit offset = statement ''users: list groups: '' (\<lambda>d. (d, Inr (map scanGroup (page limit offset (sort_key grGID (udGroups d))))))"

definition SearchGroups :: "(string \<Rightarrow> string \<Rightarrow> bool) \<Rightarrow> string \<Rightarrow> int \<Rightarrow> Group list dbop" where
  "SearchGroups like term limit =
     (let t = trim_space term; pat = ''%'' @ t @ ''%'' in
      if t = [] then retDB (Inr [])
      else statement ''users: search groups: '' (\<lambda>d. (d, Inr (map scanGroup (take (nat (searchLimit limit))
             (sort_key grGID (filter (\<lambda>g. like pat (grGID g) \<or> like pat (grDisplayName g)) (udGroups d))))))))"

section \<open>The first administrator\<close>

definition AdminGroupGID :: string where "AdminGroupGID = ''admin''"

record BootstrapAdmin =
  baUID :: string
  baPassword :: string
  baDisplayName :: string

definition createAdminGroup :: "int \<Rightarrow> unit dbop" where
  "createAdminGroup now d = (case CreateGroup now (Some \<lparr>gpID = 0, gpGID = AdminGroupGID, gpDisplayName = AdminGroupGID\<rparr>) d of
      (d1, Inl AccExists) \<Rightarrow> (d1, Inr ())
    | (d1, Inl e) \<Rightarrow> (d1, Inl e)
    | (d1, Inr _) \<Rightarrow> (d1, Inr ()))"

definition ensureAdminMembership :: "AccountStore \<Rightarrow> int \<Rightarrow> string \<Rightarrow> unit dbop" where
  "ensureAdminMembership st now uid =
     bindDB (\<lambda>d. case GetGroupByGID AdminGroupGID d of
         (d1, Inl AccNotFound) \<Rightarrow> createAdminGroup now d1
       | (d1, Inl e) \<Rightarrow> (d1, Inl e)
       | (d1, Inr _) \<Rightarrow> (d1, Inr ()))
     (\<lambda>_. bindDB (UserGroupGIDs uid) (\<lambda>gids. if AdminGroupGID \<in> set gids then retDB (Inr ()) else AddGroupMember st AdminGroupGID uid))"

text \<open>\<open>h.Hash\<close> is the argument \<open>hash\<close>.\<close>

definition EnsureBootstrapAdmin :: "AccountStore \<Rightarrow> int \<Rightarrow> (string \<Rightarrow> string + string) \<Rightarrow> BootstrapAdmin \<Rightarrow> unit dbop" where
  "EnsureBootstrapAdmin st now hash b = bindDB Count (\<lambda>n.
     if n > 0 then retDB (Inr ())
     else if baUID b = [] then retDB (Inl AccNoUsers)
     else case hash (baPassword b) of
         Inl e \<Rightarrow> retDB (Inl (AccErr e))
       | Inr h \<Rightarrow> bindDB (CreateUser st now (Some \<lparr>acID = 0, acUID = baUID b, acDisplayName = (if baDisplayName b = [] then baUID b else baDisplayName b),
                acEmail = [], acHash = h, acQuota = None, acEnabled = True, acCreatedAt = zeroTime, acUpdatedAt = zeroTime\<rparr>))
              (\<lambda>_. ensureAdminMembership st now (baUID b)))"

section \<open>What the authentication sees\<close>

definition userInfo :: "Account \<Rightarrow> UserInfo" where
  "userInfo u = \<lparr>uiID = acID u, uiUID = acUID u, uiDisplayName = acDisplayName u, uiEnabled = acEnabled u\<rparr>"

definition okOption :: "'d \<times> ('e + 'a) \<Rightarrow> 'a option" where
  "okOption r = (case snd r of Inl _ \<Rightarrow> None | Inr x \<Rightarrow> Some x)"

definition authUsers :: "UsersDB \<Rightarrow> UserSource" where
  "authUsers d = \<lparr>soByUID = (\<lambda>uid. map_option userInfo (okOption (GetByUID uid d))), soByID = (\<lambda>i. map_option userInfo (okOption (GetByID i d)))\<rparr>"

definition passwordRows :: "UsersDB \<Rightarrow> string \<Rightarrow> (UserInfo \<times> string) option" where
  "passwordRows d uid = map_option (\<lambda>u. (userInfo u, acHash u)) (okOption (GetByUID uid d))"

end
