(* ===== verification/Users_Invariant.thy ===== *)
theory Users_Invariant
  imports Users_Store
begin

text \<open>
  The tables of accounts and groups stay well formed: ids and names are keys, and every membership and every row of another table refers to
  accounts and groups that exist. The contract of the key hooks is the locale \<open>key_hooks\<close>; the operations are composed by triples. A statement
  may end with a fault at any point.
\<close>

section \<open>The invariant of the tables\<close>

definition usersInv :: "UsersDB \<Rightarrow> bool" where
  "usersInv d \<longleftrightarrow> distinct (map arID (udUsers d)) \<and> distinct (map arUID (udUsers d)) \<and> (\<forall>r \<in> set (udUsers d). arID r < udNextUser d \<and> arUID r \<noteq> [])
     \<and> distinct (map grID (udGroups d)) \<and> distinct (map grGID (udGroups d)) \<and> (\<forall>g \<in> set (udGroups d). grID g < udNextGroup d \<and> grGID g \<noteq> [])
     \<and> distinct (udMembers d) \<and> set (udMembers d) \<subseteq> grID ` set (udGroups d) \<times> arID ` set (udUsers d) \<and> snd ` set (udRefs d) \<subseteq> arID ` set (udUsers d)"

definition accountKey :: "accountRow \<Rightarrow> accountRow" where
  "accountKey r = r\<lparr>arUpdated := 0, arNameScheme := 0\<rparr>"

definition sameAccounts :: "UsersDB \<Rightarrow> UsersDB \<Rightarrow> bool" where
  "sameAccounts d e \<longleftrightarrow> map accountKey (udUsers e) = map accountKey (udUsers d) \<and> udNextUser e = udNextUser d \<and> udGroups e = udGroups d \<and> udNextGroup e = udNextGroup d
     \<and> udMembers e = udMembers d \<and> udRefs e = udRefs d \<and> (udFaults d = [] \<longrightarrow> udFaults e = [])"

lemma accountKey_simps [simp]: "arID (accountKey r) = arID r" "arUID (accountKey r) = arUID r" "arHash (accountKey r) = arHash r" "arEnabled (accountKey r) = arEnabled r"
  by (simp_all add: accountKey_def)

lemma sameAccounts_refl [simp]: "sameAccounts d d"
  by (simp add: sameAccounts_def)

lemma sameAccounts_trans: "sameAccounts d e \<Longrightarrow> sameAccounts e f \<Longrightarrow> sameAccounts d f"
  by (simp add: sameAccounts_def)

lemma sameAccounts_log [simp]: "sameAccounts d (e\<lparr>udLog := l\<rparr>) = sameAccounts d e"
  by (simp add: sameAccounts_def)

lemma sameAccounts_users:
  assumes "sameAccounts d e"
  shows "map arID (udUsers e) = map arID (udUsers d)" "map arUID (udUsers e) = map arUID (udUsers d)" "map (\<lambda>r. (arID r, arUID r)) (udUsers e) = map (\<lambda>r. (arID r, arUID r)) (udUsers d)"
proof -
  have k: "map (\<lambda>r. f (accountKey r)) (udUsers e) = map (\<lambda>r. f (accountKey r)) (udUsers d)" for f :: "accountRow \<Rightarrow> 'x"
    using arg_cong [of _ _ "map f", OF assms [unfolded sameAccounts_def, THEN conjunct1]] by (simp add: comp_def)
  show "map arID (udUsers e) = map arID (udUsers d)" using k [of arID] by simp
  show "map arUID (udUsers e) = map arUID (udUsers d)" using k [of arUID] by simp
  show "map (\<lambda>r. (arID r, arUID r)) (udUsers e) = map (\<lambda>r. (arID r, arUID r)) (udUsers d)" using k [of "\<lambda>r. (arID r, arUID r)"] by simp
qed

lemma ball_accounts: "(\<forall>r \<in> set xs. P (arID r) (arUID r)) \<longleftrightarrow> (\<forall>p \<in> set (map (\<lambda>r. (arID r, arUID r)) xs). P (fst p) (snd p))"
  by simp

lemma usersInv_view:
  assumes u: "map (\<lambda>r. (arID r, arUID r)) (udUsers e) = map (\<lambda>r. (arID r, arUID r)) (udUsers d)"
    and "udNextUser e = udNextUser d" "udGroups e = udGroups d" "udNextGroup e = udNextGroup d" "udMembers e = udMembers d" "udRefs e = udRefs d"
  shows "usersInv e = usersInv d"
proof -
  have m: "map arID (udUsers e) = map arID (udUsers d)" "map arUID (udUsers e) = map arUID (udUsers d)"
    using arg_cong [of _ _ "map fst", OF u] arg_cong [of _ _ "map snd", OF u] by (simp_all add: comp_def)
  then have i: "arID ` set (udUsers e) = arID ` set (udUsers d)" by (metis set_map)
  have n: "(\<forall>r \<in> set (udUsers e). arID r < k \<and> arUID r \<noteq> []) = (\<forall>r \<in> set (udUsers d). arID r < k \<and> arUID r \<noteq> [])" for k
    unfolding ball_accounts [of _ "\<lambda>i u. i < k \<and> u \<noteq> []"] u by simp
  show ?thesis using assms(2-) unfolding usersInv_def i n m by simp
qed

lemma sameAccounts_inv: "sameAccounts d e \<Longrightarrow> usersInv e = usersInv d"
  by (rule usersInv_view) (auto simp: sameAccounts_def sameAccounts_users(3))

text \<open>
  The interface of the key hooks: a hook may set the name scheme and the time of an account and use up faults, and leaves the tables as they
  are otherwise.
\<close>

locale key_hooks =
  fixes st :: AccountStore
  assumes user_created: "asUserKeys st = Some h \<Longrightarrow> sameAccounts d (fst (OnUserCreated h uid d))"
    and user_deleted: "asUserKeys st = Some h \<Longrightarrow> sameAccounts d (fst (OnUserDeleted h uid d))"
    and member_added: "asMemberKeys st = Some m \<Longrightarrow> sameAccounts d (fst (OnGroupMemberAdded m gid uid d))"
    and member_removed: "asMemberKeys st = Some m \<Longrightarrow> sameAccounts d (fst (OnGroupMemberRemoved m gid uid d))"
begin

lemma warnKeys_same: "sameAccounts d (fst r) \<Longrightarrow> sameAccounts d (warnKeys st msg r)"
  by (cases r) (simp add: warnKeys_def split: option.splits)

lemma hooks_same:
  "sameAccounts d (userKeysCreated st uid d)" "sameAccounts d (userKeysDeleted st uid d)"
  "sameAccounts d (memberKeysAdded st gid uid d)" "sameAccounts d (memberKeysRemoved st gid uid d)"
  by (auto simp: userKeysCreated_def userKeysDeleted_def memberKeysAdded_def memberKeysRemoved_def split: option.split
      intro!: warnKeys_same user_created user_deleted member_added member_removed)

end

lemma keyed_update: "(\<And>r. accountKey (f r) = accountKey r) \<Longrightarrow> map accountKey (map (\<lambda>r. if p r then f r else r) xs) = map accountKey xs"
  by (induction xs) auto

lemma SetNameScheme_same: "sameAccounts d (fst (SetNameScheme now uid s d))"
  unfolding SetNameScheme_def updateUsers_def statement_def
  by (auto simp: sameAccounts_def keyed_update accountKey_def simp del: map_map split: list.split option.split)

lemma nameSchemeUserKeys_same:
  assumes "\<And>d uid. sameAccounts d (fst (OnUserCreated h uid d))"
  shows "sameAccounts d (fst (OnUserCreated (nameSchemeUserKeys now h) uid d))"
proof -
  obtain d1 err where c: "OnUserCreated h uid d = (d1, err)" by (cases "OnUserCreated h uid d")
  have "sameAccounts d d1" using assms [of d uid] by (simp add: c)
  moreover have "sameAccounts d1 (fst (SetNameScheme now uid 1 d1))" by (rule SetNameScheme_same)
  ultimately show ?thesis
    by (auto simp: nameSchemeUserKeys_def c intro: sameAccounts_trans split: prod.splits sum.splits)
qed

definition serverStore :: "int \<Rightarrow> UserKeysHook \<Rightarrow> MemberKeysHook \<Rightarrow> AccountStore" where
  "serverStore now h m = \<lparr>asMemberKeys = Some m, asUserKeys = Some (nameSchemeUserKeys now h), asLogger = True\<rparr>"

lemma server_key_hooks:
  assumes "\<And>d uid. sameAccounts d (fst (OnUserCreated h uid d))" and "\<And>d uid. sameAccounts d (fst (OnUserDeleted h uid d))"
    and "\<And>d gid uid. sameAccounts d (fst (OnGroupMemberAdded m gid uid d))" and "\<And>d gid uid. sameAccounts d (fst (OnGroupMemberRemoved m gid uid d))"
  shows "key_hooks (serverStore now h m)"
  by unfold_locales (use assms nameSchemeUserKeys_same [OF assms(1)] in \<open>auto simp: serverStore_def nameSchemeUserKeys_def\<close>)

interpretation cli: key_hooks NewAccountStore
  by unfold_locales (auto simp: NewAccountStore_def)

section \<open>Triples\<close>

text \<open>\<open>triple P m Q\<close>: from a state with \<open>P\<close>, \<open>m\<close> leaves the invariant, and \<open>Q\<close> when it returns no error.\<close>

definition triple :: "(UsersDB \<Rightarrow> bool) \<Rightarrow> 'a dbop \<Rightarrow> ('a \<Rightarrow> UsersDB \<Rightarrow> bool) \<Rightarrow> bool" where
  "triple P m Q \<longleftrightarrow> (\<forall>d. P d \<longrightarrow> usersInv (fst (m d)) \<and> (\<forall>x. snd (m d) = Inr x \<longrightarrow> Q x (fst (m d))))"

lemma tripleD: "triple P m Q \<Longrightarrow> P d \<Longrightarrow> usersInv (fst (m d))"
  by (simp add: triple_def)

lemma inv_faults [simp]: "usersInv (d\<lparr>udFaults := fs\<rparr>) = usersInv d"
  by (simp add: usersInv_def)

lemma triple_bind:
  assumes "triple P m Q" and "\<And>x. triple (Q x) (k x) R"
  shows "triple P (bindDB m k) R"
  using assms unfolding triple_def bindDB_def by (fastforce split: prod.split sum.split)

lemma triple_weaken: "triple P m Q \<Longrightarrow> (\<And>d. P' d \<Longrightarrow> P d) \<Longrightarrow> (\<And>x d. Q x d \<Longrightarrow> Q' x d) \<Longrightarrow> triple P' m Q'"
  unfolding triple_def by blast

lemma triple_ret: "(\<And>d. P d \<Longrightarrow> usersInv d) \<Longrightarrow> (\<And>x d. r = Inr x \<Longrightarrow> P d \<Longrightarrow> Q x d) \<Longrightarrow> triple P (retDB r) Q"
  unfolding triple_def retDB_def by auto

definition stable :: "(UsersDB \<Rightarrow> bool) \<Rightarrow> bool" where
  "stable P \<longleftrightarrow> (\<forall>d. P d \<longrightarrow> usersInv d \<and> (\<forall>fs. P (d\<lparr>udFaults := fs\<rparr>)))"

lemma stableD: "stable P \<Longrightarrow> P d \<Longrightarrow> usersInv d"
  by (simp add: stable_def)

lemma triple_statement:
  assumes "stable P" and "triple P f Q"
  shows "triple P (statement msg f) Q"
  using assms unfolding triple_def stable_def statement_def by (auto split: list.split option.split)

definition accountIs :: "string \<Rightarrow> int \<Rightarrow> UsersDB \<Rightarrow> bool" where
  "accountIs uid i d \<longleftrightarrow> (\<exists>r \<in> set (udUsers d). arUID r = uid \<and> arID r = i)"

definition groupIs :: "string \<Rightarrow> int \<Rightarrow> UsersDB \<Rightarrow> bool" where
  "groupIs gid i d \<longleftrightarrow> (\<exists>g \<in> set (udGroups d). grGID g = gid \<and> grID g = i)"

lemma isFaults [simp]: "accountIs uid i (d\<lparr>udFaults := fs\<rparr>) = accountIs uid i d" "groupIs gid i (d\<lparr>udFaults := fs\<rparr>) = groupIs gid i d"
  by (simp_all add: accountIs_def groupIs_def)

lemma GetByUID_triple:
  assumes "stable P"
  shows "triple P (GetByUID uid) (\<lambda>u d. P d \<and> accountIs uid (acID u) d)"
  unfolding GetByUID_def getUser_def
  by (rule triple_statement [OF assms]) (auto simp: triple_def stableD [OF assms] find_Some_iff accountIs_def scanUserRow_def split: option.splits)

lemma GetGroup_triple:
  assumes "stable P"
  shows "triple P (GetGroupByGID gid) (\<lambda>g d. P d \<and> groupIs gid (gpID g) d)"
proof (cases "gid = []")
  case True
  then show ?thesis by (auto simp: GetGroupByGID_def intro: triple_ret stableD [OF assms])
next
  case False
  show ?thesis unfolding GetGroupByGID_def if_not_P [OF False]
    by (rule triple_statement [OF assms]) (auto simp: triple_def stableD [OF assms] find_Some_iff groupIs_def scanGroup_def split: option.splits)
qed

section \<open>Every operation keeps the invariant\<close>

lemma stable_inv [simp]: "stable usersInv"
  by (simp add: stable_def)

lemma stable_conj: "stable P \<Longrightarrow> (\<And>d fs. Q d \<Longrightarrow> Q (d\<lparr>udFaults := fs\<rparr>)) \<Longrightarrow> stable (\<lambda>d. P d \<and> Q d)"
  by (auto simp: stable_def)

lemma updateUsers_keeps:
  assumes "\<And>r. arID (f r) = arID r \<and> arUID (f r) = arUID r" shows "triple usersInv (updateUsers msg p f) (\<lambda>_. usersInv)"
proof -
  have "map (\<lambda>r. (arID r, arUID r)) (map (\<lambda>r. if p r then f r else r) xs) = map (\<lambda>r. (arID r, arUID r)) xs" for xs using assms by (induction xs) auto
  then have "usersInv (d\<lparr>udUsers := map (\<lambda>r. if p r then f r else r) (udUsers d)\<rparr>) = usersInv d" for d by (intro usersInv_view) simp_all
  then show ?thesis unfolding updateUsers_def by (intro triple_statement) (auto simp: triple_def split: if_splits)
qed

lemma SetEnabled_keeps: "triple usersInv (SetEnabled now uid b) (\<lambda>_. usersInv)"
  and UpdatePasswordHash_keeps: "triple usersInv (UpdatePasswordHash now i h) (\<lambda>_. usersInv)"
  and SetNameScheme_keeps: "triple usersInv (SetNameScheme now uid s) (\<lambda>_. usersInv)"
  unfolding SetEnabled_def UpdatePasswordHash_def SetNameScheme_def by (rule updateUsers_keeps, simp)+

lemma deleteMembers_keeps: "triple usersInv (deleteMembers msg p) (\<lambda>_. usersInv)"
  unfolding deleteMembers_def by (rule triple_statement) (auto simp: triple_def usersInv_def)

lemma deleteUserRow_keeps: "triple usersInv (deleteUserRow i) (\<lambda>_. usersInv)"
proof -
  have "usersInv (d\<lparr>udUsers := filter (\<lambda>r. arID r \<noteq> i) (udUsers d), udMembers := filter (\<lambda>m. snd m \<noteq> i) (udMembers d), udRefs := filter (\<lambda>f. snd f \<noteq> i) (udRefs d)\<rparr>)"
    if inv: "usersInv d" for d
  proof -
    have "arID ` {r \<in> set (udUsers d). arID r \<noteq> i} = arID ` set (udUsers d) - {i}" by auto
    then show ?thesis using inv unfolding usersInv_def by (auto simp: distinct_map_filter)
  qed
  then show ?thesis unfolding deleteUserRow_def by (intro triple_statement) (simp_all add: triple_def)
qed

lemma insertAccount_keeps:
  assumes "acUID u \<noteq> []" shows "triple usersInv (insertAccount u c) (\<lambda>_. usersInv)"
proof -
  have "usersInv (d\<lparr>udUsers := udUsers d @ [r], udNextUser := udNextUser d + 1\<rparr>)"
    if "usersInv d" "arID r = udNextUser d" "arUID r \<noteq> []" "\<forall>x \<in> set (udUsers d). arUID x \<noteq> arUID r" for d r
  proof -
    have "udNextUser d \<notin> arID ` set (udUsers d)" "arUID r \<notin> arUID ` set (udUsers d)" using that by (auto simp: usersInv_def)
    then show ?thesis using that(1-3) unfolding usersInv_def by (force simp: subset_iff)
  qed
  then show ?thesis unfolding insertAccount_def by (intro triple_statement) (simp_all add: triple_def list_ex_iff assms)
qed

lemma insertGroup_keeps:
  assumes "gpGID g \<noteq> []" shows "triple usersInv (insertGroup now g) (\<lambda>_. usersInv)"
proof -
  have "usersInv (d\<lparr>udGroups := udGroups d @ [r], udNextGroup := udNextGroup d + 1\<rparr>)"
    if "usersInv d" "grID r = udNextGroup d" "grGID r \<noteq> []" "\<forall>x \<in> set (udGroups d). grGID x \<noteq> grGID r" for d r
  proof -
    have "udNextGroup d \<notin> grID ` set (udGroups d)" "grGID r \<notin> grGID ` set (udGroups d)" using that by (auto simp: usersInv_def)
    then show ?thesis using that(1-3) unfolding usersInv_def by (force simp: subset_iff)
  qed
  then show ?thesis unfolding insertGroup_def by (intro triple_statement) (simp_all add: triple_def list_ex_iff assms)
qed

lemma CreateGroup_keeps: "triple usersInv (CreateGroup now g) (\<lambda>_. usersInv)"
proof (cases g)
  case None
  then show ?thesis by (auto simp: CreateGroup_def intro: triple_ret)
next
  case (Some g')
  show ?thesis
  proof (cases "gpGID g' = []")
    case True
    then show ?thesis by (auto simp: CreateGroup_def Some intro: triple_ret)
  next
    case False
    have "triple usersInv (GetGroupByGID (gpGID g')) (\<lambda>_. usersInv)" by (rule triple_weaken [OF GetGroup_triple [OF stable_inv]]) auto
    then show ?thesis using triple_bind [OF insertGroup_keeps [OF False]] by (simp add: CreateGroup_def Some False)
  qed
qed

lemma addMember_keeps:
  "triple (\<lambda>d. (usersInv d \<and> groupIs gid g d) \<and> accountIs uid u d)
     (statement msg (\<lambda>d. if (g, u) \<in> set (udMembers d) then (d, Inr ()) else (d\<lparr>udMembers := udMembers d @ [(g, u)]\<rparr>, Inr ()))) (\<lambda>_. usersInv)"
  by (rule triple_statement) (auto simp: stable_def triple_def usersInv_def groupIs_def accountIs_def)

lemma GetByUID_keeps: "triple usersInv (GetByUID uid) (\<lambda>_. usersInv)"
  by (rule triple_weaken [OF GetByUID_triple [OF stable_inv]]) auto

lemma reading_keeps: "stable P \<Longrightarrow> triple P (statement m (\<lambda>d. (d, F d))) (\<lambda>_. P)"
  by (rule triple_statement) (auto simp: triple_def dest: stableD)

lemma UserGroupGIDs_keeps: "triple usersInv (UserGroupGIDs uid) (\<lambda>_. usersInv)"
  unfolding triple_def
proof (intro allI impI conjI)
  fix d assume i: "usersInv d"
  obtain d1 r where g: "GetByUID uid d = (d1, r)" by (cases "GetByUID uid d")
  have i1: "usersInv d1" using tripleD [OF GetByUID_keeps i, of uid] by (simp add: g)
  have s: "usersInv (fst (statement m (\<lambda>d. (d, F d)) d1))" for m and F :: "UsersDB \<Rightarrow> account_error + string list"
    by (rule tripleD [OF reading_keeps [OF stable_inv] i1])
  show "usersInv (fst (UserGroupGIDs uid d))"
    using i1 s by (cases r) (simp_all add: UserGroupGIDs_def g split: account_error.split)
  then show "usersInv (fst (UserGroupGIDs uid d))" .
qed

context key_hooks begin

lemma hooks_inv: "usersInv (userKeysCreated st uid d) = usersInv d" "usersInv (userKeysDeleted st uid d) = usersInv d"
  "usersInv (memberKeysAdded st gid uid d) = usersInv d" "usersInv (memberKeysRemoved st gid uid d) = usersInv d"
  by (rule sameAccounts_inv [OF hooks_same(1)] sameAccounts_inv [OF hooks_same(2)] sameAccounts_inv [OF hooks_same(3)] sameAccounts_inv [OF hooks_same(4)])+

lemma CreateUser_keeps: "triple usersInv (CreateUser st now u) (\<lambda>_. usersInv)"
proof (cases u)
  case None
  then show ?thesis by (auto simp: CreateUser_def intro: triple_ret)
next
  case (Some a)
  have h: "triple usersInv (\<lambda>d. (userKeysCreated st uid d, Inr got)) (\<lambda>_. usersInv)" for uid and got :: Account by (simp add: triple_def hooks_inv)
  show ?thesis
    by (auto simp: CreateUser_def Some intro!: triple_ret triple_bind [OF insertAccount_keeps] triple_bind [OF GetByUID_keeps] h)
qed

lemma DeleteUser_keeps: "triple usersInv (DeleteUser st uid) (\<lambda>_. usersInv)"
proof -
  have "triple usersInv (\<lambda>d. deleteUserRow i (userKeysDeleted st uid d)) (\<lambda>_. usersInv)" for i
    using deleteUserRow_keeps [of i] by (simp add: triple_def hooks_inv)
  then show ?thesis unfolding DeleteUser_def by (intro triple_bind [OF GetByUID_keeps] triple_bind [OF deleteMembers_keeps])
qed

lemma AddGroupMember_keeps: "triple usersInv (AddGroupMember st gid uid) (\<lambda>_. usersInv)"
proof -
  have h: "triple usersInv (\<lambda>d. (memberKeysAdded st gid uid d, Inr ())) (\<lambda>_. usersInv)" by (simp add: triple_def hooks_inv)
  show ?thesis unfolding AddGroupMember_def
    by (rule triple_bind [OF GetGroup_triple [OF stable_inv]], rule triple_bind [OF GetByUID_triple], rule stable_conj, simp, simp, rule triple_bind [OF addMember_keeps h])
qed

lemma RemoveGroupMember_keeps: "triple usersInv (RemoveGroupMember st gid uid) (\<lambda>_. usersInv)"
proof -
  have h: "triple usersInv (\<lambda>d. (memberKeysRemoved st gid uid d, Inr ())) (\<lambda>_. usersInv)" by (simp add: triple_def hooks_inv)
  have g: "triple usersInv (GetGroupByGID gid) (\<lambda>_. usersInv)" by (rule triple_weaken [OF GetGroup_triple [OF stable_inv]]) auto
  show ?thesis unfolding RemoveGroupMember_def by (intro triple_bind [OF g] triple_bind [OF GetByUID_keeps] triple_bind [OF deleteMembers_keeps] h)
qed

end

lemma groupRow_inv:
  assumes inv: "usersInv d"
  shows "usersInv (d\<lparr>udGroups := filter (\<lambda>r. grID r \<noteq> i) (udGroups d), udMembers := filter (\<lambda>m. fst m \<noteq> i) (udMembers d)\<rparr>)"
proof -
  have "grID ` {r \<in> set (udGroups d). grID r \<noteq> i} = grID ` set (udGroups d) - {i}" by auto
  then show ?thesis using inv unfolding usersInv_def by (auto simp: distinct_map_filter)
qed

lemma DeleteGroup_keeps: "triple usersInv (DeleteGroup gid) (\<lambda>_. usersInv)"
proof -
  have g: "triple usersInv (GetGroupByGID gid) (\<lambda>_. usersInv)" by (rule triple_weaken [OF GetGroup_triple [OF stable_inv]]) auto
  have r: "triple usersInv (statement m (\<lambda>d. (d\<lparr>udGroups := filter (\<lambda>r. grID r \<noteq> i) (udGroups d), udMembers := filter (\<lambda>m. fst m \<noteq> i) (udMembers d)\<rparr>, Inr ()))) (\<lambda>_. usersInv)" for m i
    by (rule triple_statement) (auto simp: triple_def intro: groupRow_inv)
  show ?thesis unfolding DeleteGroup_def by (intro triple_bind [OF g] triple_bind [OF deleteMembers_keeps] r)
qed

definition emptyDB :: UsersDB where
  "emptyDB = \<lparr>udUsers = [], udNextUser = 1, udGroups = [], udNextGroup = 1, udMembers = [], udRefs = [], udFaults = [], udLog = []\<rparr>"

lemma ensureAdmin_group_keeps:
  "triple usersInv (\<lambda>d. case GetGroupByGID AdminGroupGID d of (d1, Inl AccNotFound) \<Rightarrow> createAdminGroup now d1 | (d1, Inl e) \<Rightarrow> (d1, Inl e) | (d1, Inr _) \<Rightarrow> (d1, Inr ())) (\<lambda>_. usersInv)"
proof -
  have g: "usersInv d1" if "GetGroupByGID gid d = (d1, r)" "usersInv d" for gid d d1 r
    using tripleD [OF GetGroup_triple [OF stable_inv] that(2), of gid] that(1) by simp
  have c: "usersInv (fst (createAdminGroup now d))" if "usersInv d" for d
    using tripleD [OF CreateGroup_keeps that, of now "Some \<lparr>gpID = 0, gpGID = AdminGroupGID, gpDisplayName = AdminGroupGID\<rparr>"]
    by (auto simp: createAdminGroup_def split: prod.split sum.split account_error.split)
  show ?thesis unfolding triple_def
    using g c by (auto split: prod.split sum.split account_error.split)
qed

context key_hooks begin

lemma ensureAdminMembership_keeps: "triple usersInv (ensureAdminMembership st now uid) (\<lambda>_. usersInv)"
  unfolding ensureAdminMembership_def
  by (intro triple_bind [OF ensureAdmin_group_keeps] triple_bind [OF UserGroupGIDs_keeps]) (simp add: AddGroupMember_keeps triple_ret)

lemma EnsureBootstrapAdmin_keeps: "triple usersInv (EnsureBootstrapAdmin st now hash b) (\<lambda>_. usersInv)"
proof -
  have c: "triple usersInv Count (\<lambda>_. usersInv)" unfolding Count_def by (rule triple_statement) (auto simp: triple_def)
  show ?thesis unfolding EnsureBootstrapAdmin_def
    by (rule triple_bind [OF c]) (auto intro!: triple_ret triple_bind [OF CreateUser_keeps] ensureAdminMembership_keeps split: sum.split)
qed

end

text \<open>
  The steps of the database: the operations of the store, a row of another table for an account that exists, and faults at any time.
\<close>

inductive accountStep :: "AccountStore \<Rightarrow> UsersDB \<Rightarrow> UsersDB \<Rightarrow> bool" for st where
  create: "accountStep st d (fst (CreateUser st now u d))"
| enable: "accountStep st d (fst (SetEnabled now uid b d))"
| hash: "accountStep st d (fst (UpdatePasswordHash now i h d))"
| scheme: "accountStep st d (fst (SetNameScheme now uid s d))"
| delete: "accountStep st d (fst (DeleteUser st uid d))"
| createGroup: "accountStep st d (fst (CreateGroup now g d))"
| addMember: "accountStep st d (fst (AddGroupMember st gid uid d))"
| removeMember: "accountStep st d (fst (RemoveGroupMember st gid uid d))"
| deleteGroup: "accountStep st d (fst (DeleteGroup gid d))"
| bootstrap: "accountStep st d (fst (EnsureBootstrapAdmin st now hash b d))"
| refer: "i \<in> arID ` set (udUsers d) \<Longrightarrow> accountStep st d (d\<lparr>udRefs := (table, i) # udRefs d\<rparr>)"
| fault: "accountStep st d (d\<lparr>udFaults := fs\<rparr>)"

context key_hooks begin

lemma accountStep_inv: "accountStep st d e \<Longrightarrow> usersInv d \<Longrightarrow> usersInv e"
proof (induction rule: accountStep.induct)
  case (refer i d table)
  then show ?case by (simp add: usersInv_def)
qed (simp_all add: tripleD [OF CreateUser_keeps] tripleD [OF SetEnabled_keeps] tripleD [OF UpdatePasswordHash_keeps] tripleD [OF SetNameScheme_keeps]
    tripleD [OF DeleteUser_keeps] tripleD [OF CreateGroup_keeps] tripleD [OF AddGroupMember_keeps] tripleD [OF RemoveGroupMember_keeps]
    tripleD [OF DeleteGroup_keeps] tripleD [OF EnsureBootstrapAdmin_keeps])

end

text \<open>
  C21. In every state that the store reaches from an empty database by its operations and by rows of other tables for accounts that exist, with
  faults of any statement at any time and hooks that keep to their contract, ids and names of accounts and of groups are unique and not empty,
  and every membership and every row of another table refers to an account and a group that exist.
\<close>

theorem accounts_reachable:
  assumes "key_hooks st" and "(accountStep st)\<^sup>*\<^sup>* emptyDB d"
  shows "usersInv d"
  using assms(2)
proof (induction rule: rtranclp_induct)
  case base
  show ?case by (simp add: usersInv_def emptyDB_def)
next
  case (step d e)
  show ?case by (rule key_hooks.accountStep_inv [OF assms(1) step.hyps(2) step.IH])
qed

end
