(* ===== verification/Users_Roster.thy ===== *)
theory Users_Roster
  imports Users_Invariant
begin

text \<open>
  The store implements a roster, sets of names and a relation between them: every call returns what the roster returns, and the reads of
  memberships give the sorted sets of the relation.
\<close>

section \<open>The roster\<close>

text \<open>What the store promises, without ids: who exists, which groups exist, and who is in which group.\<close>

record Roster =
  roUsers :: "string set"
  roGroups :: "string set"
  roMembers :: "(string \<times> string) set"

definition userIDs :: "UsersDB \<Rightarrow> (int \<times> string) set" where
  "userIDs d = (\<lambda>r. (arID r, arUID r)) ` set (udUsers d)"

definition groupIDs :: "UsersDB \<Rightarrow> (int \<times> string) set" where
  "groupIDs d = (\<lambda>g. (grID g, grGID g)) ` set (udGroups d)"

definition roster :: "UsersDB \<Rightarrow> Roster" where
  "roster d = \<lparr>roUsers = snd ` userIDs d, roGroups = snd ` groupIDs d,
     roMembers = {(gid, uid). \<exists>g u. (g, gid) \<in> groupIDs d \<and> (u, uid) \<in> userIDs d \<and> (g, u) \<in> set (udMembers d)}\<rparr>"

datatype accountCall =
    CallCreate int Account | CallDelete string | CallEnable int string bool
  | CallGroup int Group | CallDeleteGroup string | CallAdd string string | CallRemove string string

definition noValue :: "'d \<times> ('e + 'a) \<Rightarrow> 'd \<times> ('e + unit)" where
  "noValue r = (fst r, case snd r of Inl e \<Rightarrow> Inl e | Inr _ \<Rightarrow> Inr ())"

fun runAccount :: "AccountStore \<Rightarrow> accountCall \<Rightarrow> unit dbop" where
  "runAccount st (CallCreate now u) d = noValue (CreateUser st now (Some u) d)"
| "runAccount st (CallDelete uid) d = DeleteUser st uid d"
| "runAccount st (CallEnable now uid b) d = SetEnabled now uid b d"
| "runAccount st (CallGroup now g) d = noValue (CreateGroup now (Some g) d)"
| "runAccount st (CallDeleteGroup gid) d = DeleteGroup gid d"
| "runAccount st (CallAdd gid uid) d = AddGroupMember st gid uid d"
| "runAccount st (CallRemove gid uid) d = RemoveGroupMember st gid uid d"

fun rosterCall :: "accountCall \<Rightarrow> Roster \<Rightarrow> Roster \<times> (account_error + unit)" where
  "rosterCall (CallCreate now u) R =
     (if acUID u = [] then (R, Inl (AccErr ''users: invalid user'')) else if acUID u \<in> roUsers R then (R, Inl AccExists)
      else (R\<lparr>roUsers := insert (acUID u) (roUsers R)\<rparr>, Inr ()))"
| "rosterCall (CallDelete uid) R =
     (if uid \<in> roUsers R then (R\<lparr>roUsers := roUsers R - {uid}, roMembers := {m \<in> roMembers R. snd m \<noteq> uid}\<rparr>, Inr ()) else (R, Inl AccNotFound))"
| "rosterCall (CallEnable now uid b) R = (R, if uid \<in> roUsers R then Inr () else Inl AccNotFound)"
| "rosterCall (CallGroup now g) R =
     (if gpGID g = [] then (R, Inl (AccErr ''users: invalid group'')) else if gpGID g \<in> roGroups R then (R, Inl AccExists)
      else (R\<lparr>roGroups := insert (gpGID g) (roGroups R)\<rparr>, Inr ()))"
| "rosterCall (CallDeleteGroup gid) R =
     (if gid \<in> roGroups R then (R\<lparr>roGroups := roGroups R - {gid}, roMembers := {m \<in> roMembers R. fst m \<noteq> gid}\<rparr>, Inr ()) else (R, Inl AccNotFound))"
| "rosterCall (CallAdd gid uid) R =
     (if gid \<in> roGroups R \<and> uid \<in> roUsers R then (R\<lparr>roMembers := insert (gid, uid) (roMembers R)\<rparr>, Inr ()) else (R, Inl AccNotFound))"
| "rosterCall (CallRemove gid uid) R =
     (if gid \<in> roGroups R \<and> uid \<in> roUsers R then (R\<lparr>roMembers := roMembers R - {(gid, uid)}\<rparr>, Inr ()) else (R, Inl AccNotFound))"

fun runAccounts :: "AccountStore \<Rightarrow> accountCall list \<Rightarrow> UsersDB \<Rightarrow> UsersDB \<times> (account_error + unit) list" where
  "runAccounts st [] d = (d, [])"
| "runAccounts st (c # cs) d = (case runAccount st c d of (d1, r) \<Rightarrow> (case runAccounts st cs d1 of (d2, rs) \<Rightarrow> (d2, r # rs)))"

fun rosterCalls :: "accountCall list \<Rightarrow> Roster \<Rightarrow> Roster \<times> (account_error + unit) list" where
  "rosterCalls [] R = (R, [])"
| "rosterCalls (c # cs) R = (case rosterCall c R of (R1, r) \<Rightarrow> (case rosterCalls cs R1 of (R2, rs) \<Rightarrow> (R2, r # rs)))"

subsection \<open>The database without faults\<close>

definition quiet :: "UsersDB \<Rightarrow> bool" where
  "quiet d \<longleftrightarrow> usersInv d \<and> udFaults d = []"

lemma statement_quiet [simp]: "udFaults d = [] \<Longrightarrow> statement msg f d = f d"
  by (simp add: statement_def) (metis UsersDB.surjective UsersDB.update_convs(7) list.sel(2))

lemma bindDB_simps [simp]: "m d = (d1, Inr x) \<Longrightarrow> bindDB m k d = k x d1" "m d = (d1, Inl e) \<Longrightarrow> bindDB m k d = (d1, Inl e)"
  by (simp_all add: bindDB_def)

lemma find_distinct: "distinct (map f xs) \<Longrightarrow> x \<in> set xs \<Longrightarrow> find (\<lambda>y. f y = f x) xs = Some x"
  by (induction xs) (auto simp: rev_image_eqI)

lemma GetByUID_known: "quiet d \<Longrightarrow> r \<in> set (udUsers d) \<Longrightarrow> GetByUID (arUID r) d = (d, Inr (scanUserRow r))"
  by (simp add: GetByUID_def getUser_def quiet_def usersInv_def find_distinct)

lemma ids_snd [simp]: "snd ` userIDs d = arUID ` set (udUsers d)" "snd ` groupIDs d = grGID ` set (udGroups d)"
  by (simp_all add: userIDs_def groupIDs_def image_image)

lemma GetByUID_unknown: "quiet d \<Longrightarrow> uid \<notin> arUID ` set (udUsers d) \<Longrightarrow> GetByUID uid d = (d, Inl AccNotFound)"
  by (auto simp: GetByUID_def getUser_def quiet_def find_Some_iff split: option.split)

lemma GetGroup_known: "quiet d \<Longrightarrow> g \<in> set (udGroups d) \<Longrightarrow> GetGroupByGID (grGID g) d = (d, Inr (scanGroup g))"
  by (auto simp: GetGroupByGID_def quiet_def usersInv_def find_distinct scanGroup_def)

lemma GetGroup_unknown: "quiet d \<Longrightarrow> gid \<notin> grGID ` set (udGroups d) \<Longrightarrow> GetGroupByGID gid d = (d, Inl AccNotFound)"
  by (auto simp: GetGroupByGID_def quiet_def retDB_def find_Some_iff split: option.split)

lemma scan_simps [simp]: "acID (scanUserRow r) = arID r" "acUID (scanUserRow r) = arUID r" "gpID (scanGroup g) = grID g" "gpGID (scanGroup g) = grGID g"
  by (simp_all add: scanUserRow_def scanGroup_def)

lemma sameAccounts_quiet: "sameAccounts d e \<Longrightarrow> quiet d \<Longrightarrow> quiet e"
  by (simp add: quiet_def sameAccounts_inv) (simp add: sameAccounts_def)

lemma view_userIDs: "map (\<lambda>r. (arID r, arUID r)) (udUsers e) = map (\<lambda>r. (arID r, arUID r)) (udUsers d) \<Longrightarrow> userIDs e = userIDs d"
  unfolding userIDs_def by (metis set_map)

lemmas sameAccounts_userIDs = view_userIDs [OF sameAccounts_users(3)]

lemma sameAccounts_roster: "sameAccounts d e \<Longrightarrow> roster e = roster d"
  using sameAccounts_userIDs [of d e] by (simp add: roster_def groupIDs_def sameAccounts_def)

text \<open>The ids are keys.\<close>

lemma inv_keys:
  assumes "quiet d"
  shows "(i, u) \<in> userIDs d \<Longrightarrow> (i, v) \<in> userIDs d \<Longrightarrow> u = v" "(i, u) \<in> userIDs d \<Longrightarrow> (j, u) \<in> userIDs d \<Longrightarrow> i = j"
    "(g, a) \<in> groupIDs d \<Longrightarrow> (g, b) \<in> groupIDs d \<Longrightarrow> a = b" "(g, a) \<in> groupIDs d \<Longrightarrow> (h, a) \<in> groupIDs d \<Longrightarrow> g = h"
  using assms by (auto simp: quiet_def usersInv_def userIDs_def groupIDs_def distinct_map inj_on_def)

definition refines :: "AccountStore \<Rightarrow> accountCall \<Rightarrow> UsersDB \<Rightarrow> bool" where
  "refines st c d \<longleftrightarrow> (case runAccount st c d of (d1, r) \<Rightarrow> quiet d1 \<and> rosterCall c (roster d) = (roster d1, r))"

lemma quietI: "triple usersInv m Q \<Longrightarrow> quiet d \<Longrightarrow> m d = (d1, r) \<Longrightarrow> udFaults d1 = [] \<Longrightarrow> quiet d1"
  unfolding quiet_def using tripleD by fastforce

lemma member_ids: "quiet d \<Longrightarrow> (g, u) \<in> set (udMembers d) \<Longrightarrow> g \<in> fst ` groupIDs d \<and> u \<in> fst ` userIDs d"
  by (auto simp: quiet_def usersInv_def userIDs_def groupIDs_def image_image)

lemma ids_update [simp]:
  "userIDs (d\<lparr>udGroups := gs\<rparr>) = userIDs d" "userIDs (d\<lparr>udMembers := ms\<rparr>) = userIDs d" "userIDs (d\<lparr>udRefs := rs\<rparr>) = userIDs d" "userIDs (d\<lparr>udNextUser := n\<rparr>) = userIDs d" "userIDs (d\<lparr>udNextGroup := n\<rparr>) = userIDs d"
  "groupIDs (d\<lparr>udUsers := us\<rparr>) = groupIDs d" "groupIDs (d\<lparr>udMembers := ms\<rparr>) = groupIDs d" "groupIDs (d\<lparr>udRefs := rs\<rparr>) = groupIDs d" "groupIDs (d\<lparr>udNextUser := n\<rparr>) = groupIDs d" "groupIDs (d\<lparr>udNextGroup := n\<rparr>) = groupIDs d"
  by (simp_all add: userIDs_def groupIDs_def)

lemma roster_simps: "roUsers (roster d) = arUID ` set (udUsers d)" "roGroups (roster d) = grGID ` set (udGroups d)"
  by (simp_all add: roster_def)

lemma roster_newUser:
  assumes q: "quiet d" and r: "arID r = udNextUser d"
  shows "roster (d\<lparr>udUsers := udUsers d @ [r], udNextUser := n\<rparr>) = (roster d)\<lparr>roUsers := insert (arUID r) (roUsers (roster d))\<rparr>"
proof -
  have "udNextUser d \<notin> fst ` userIDs d" using q by (auto simp: quiet_def usersInv_def userIDs_def)
  then have f: "(g, arID r) \<notin> set (udMembers d)" for g using member_ids [OF q] r by metis
  have i: "userIDs (d\<lparr>udUsers := udUsers d @ [r], udNextUser := n\<rparr>) = insert (arID r, arUID r) (userIDs d)" by (simp add: userIDs_def)
  show ?thesis unfolding roster_def i using f by auto
qed

lemma roster_newGroup:
  assumes q: "quiet d" and r: "grID r = udNextGroup d"
  shows "roster (d\<lparr>udGroups := udGroups d @ [r], udNextGroup := n\<rparr>) = (roster d)\<lparr>roGroups := insert (grGID r) (roGroups (roster d))\<rparr>"
proof -
  have "udNextGroup d \<notin> fst ` groupIDs d" using q by (auto simp: quiet_def usersInv_def groupIDs_def)
  then have f: "(grID r, u) \<notin> set (udMembers d)" for u using member_ids [OF q] r by metis
  have i: "groupIDs (d\<lparr>udGroups := udGroups d @ [r], udNextGroup := n\<rparr>) = insert (grID r, grGID r) (groupIDs d)" by (simp add: groupIDs_def)
  show ?thesis unfolding roster_def i using f by auto
qed

lemma roster_members:
  assumes q: "quiet d" and g: "g \<in> set (udGroups d)" and r: "r \<in> set (udUsers d)"
  shows "roster (d\<lparr>udMembers := udMembers d @ [(grID g, arID r)]\<rparr>) = (roster d)\<lparr>roMembers := insert (grGID g, arUID r) (roMembers (roster d))\<rparr>"
    and "roster (d\<lparr>udMembers := filter (\<lambda>m. m \<noteq> (grID g, arID r)) (udMembers d)\<rparr>) = (roster d)\<lparr>roMembers := roMembers (roster d) - {(grGID g, arUID r)}\<rparr>"
    and "(grID g, arID r) \<in> set (udMembers d) \<longleftrightarrow> (grGID g, arUID r) \<in> roMembers (roster d)"
proof -
  have i: "(grID g, grGID g) \<in> groupIDs d" "(arID r, arUID r) \<in> userIDs d" using g r by (auto simp: groupIDs_def userIDs_def)
  note k = inv_keys [OF q]
  show "roster (d\<lparr>udMembers := udMembers d @ [(grID g, arID r)]\<rparr>) = (roster d)\<lparr>roMembers := insert (grGID g, arUID r) (roMembers (roster d))\<rparr>"
    using i k by (auto simp: roster_def)
  show "roster (d\<lparr>udMembers := filter (\<lambda>m. m \<noteq> (grID g, arID r)) (udMembers d)\<rparr>) = (roster d)\<lparr>roMembers := roMembers (roster d) - {(grGID g, arUID r)}\<rparr>"
    using i k by (auto simp: roster_def)
  show "(grID g, arID r) \<in> set (udMembers d) \<longleftrightarrow> (grGID g, arUID r) \<in> roMembers (roster d)"
    using i by (auto simp: roster_def dest: k(2) [OF _ i(2)] k(4) [OF _ i(1)])
qed

lemma image_keep: "{p \<in> f ` S. P p} = f ` {x \<in> S. P (f x)}"
  by auto

lemma key_minus:
  assumes k: "\<And>i u. (i, u) \<in> S \<Longrightarrow> (i = a) = (u = b)"
  shows "snd ` {p \<in> S. fst p \<noteq> a} = snd ` S - {b}"
proof (intro equalityI subsetI)
  fix x assume "x \<in> snd ` {p \<in> S. fst p \<noteq> a}"
  then obtain i where "(i, x) \<in> S" "i \<noteq> a" by auto
  then show "x \<in> snd ` S - {b}" using k [of i x] by (auto intro: rev_image_eqI)
next
  fix x assume "x \<in> snd ` S - {b}"
  then obtain i where i: "(i, x) \<in> S" "x \<noteq> b" by auto
  then have "(i, x) \<in> {p \<in> S. fst p \<noteq> a}" using k [of i x] by simp
  then show "x \<in> snd ` {p \<in> S. fst p \<noteq> a}" by (rule rev_image_eqI) simp
qed

lemma user_key:
  assumes q: "quiet d" and r: "r \<in> set (udUsers d)" and m: "(i, u) \<in> userIDs d" shows "(i = arID r) = (u = arUID r)"
proof -
  have "(arID r, arUID r) \<in> userIDs d" using r by (simp add: userIDs_def)
  then show ?thesis using inv_keys(1,2) [OF q] m by blast
qed

lemma group_key:
  assumes q: "quiet d" and g: "g \<in> set (udGroups d)" and m: "(i, u) \<in> groupIDs d" shows "(i = grID g) = (u = grGID g)"
proof -
  have "(grID g, grGID g) \<in> groupIDs d" using g by (simp add: groupIDs_def)
  then show ?thesis using inv_keys(3,4) [OF q] m by blast
qed

lemma roster_eq: "roGroups R = roGroups S \<Longrightarrow> R\<lparr>roUsers := a, roMembers := b\<rparr> = (S :: Roster)\<lparr>roUsers := a, roMembers := b\<rparr>"
  by (cases R, cases S) simp

lemma roster_deleteUser:
  assumes q: "quiet d" and r: "r \<in> set (udUsers d)"
  shows "roster (d\<lparr>udUsers := filter (\<lambda>x. arID x \<noteq> arID r) (udUsers d), udMembers := filter (\<lambda>m. snd m \<noteq> arID r) (udMembers d), udRefs := rs\<rparr>)
    = (roster d)\<lparr>roUsers := roUsers (roster d) - {arUID r}, roMembers := {m \<in> roMembers (roster d). snd m \<noteq> arUID r}\<rparr>"
proof -
  have i: "userIDs (d\<lparr>udUsers := filter (\<lambda>x. arID x \<noteq> arID r) (udUsers d), udMembers := ms, udRefs := rs\<rparr>) = {p \<in> userIDs d. fst p \<noteq> arID r}" for ms
    by (simp add: userIDs_def image_keep)
  note k = user_key [OF q r]
  have "{(gid, uid). \<exists>g u. (g, gid) \<in> groupIDs d \<and> (u, uid) \<in> {p \<in> userIDs d. fst p \<noteq> arID r} \<and> (g, u) \<in> set (filter (\<lambda>m. snd m \<noteq> arID r) (udMembers d))}
    = {m. m \<in> {(gid, uid). \<exists>g u. (g, gid) \<in> groupIDs d \<and> (u, uid) \<in> userIDs d \<and> (g, u) \<in> set (udMembers d)} \<and> snd m \<noteq> arUID r}" by (auto dest: k) (use k in blast)+
  then show ?thesis unfolding roster_def i by (simp add: key_minus [OF k, simplified])
qed

lemma roster_deleteGroup:
  assumes q: "quiet d" and g: "g \<in> set (udGroups d)"
  shows "roster (d\<lparr>udMembers := ms, udGroups := filter (\<lambda>x. grID x \<noteq> grID g) (udGroups d), udMembers := filter (\<lambda>m. fst m \<noteq> grID g) (udMembers d)\<rparr>)
    = (roster d)\<lparr>roGroups := roGroups (roster d) - {grGID g}, roMembers := {m \<in> roMembers (roster d). fst m \<noteq> grGID g}\<rparr>"
proof -
  have i: "groupIDs (d\<lparr>udMembers := ms, udGroups := filter (\<lambda>x. grID x \<noteq> grID g) (udGroups d), udMembers := ns\<rparr>) = {p \<in> groupIDs d. fst p \<noteq> grID g}" for ns
    by (simp add: groupIDs_def image_keep)
  note k = group_key [OF q g]
  have "{(gid, uid). \<exists>h u. (h, gid) \<in> {p \<in> groupIDs d. fst p \<noteq> grID g} \<and> (u, uid) \<in> userIDs d \<and> (h, u) \<in> set (filter (\<lambda>m. fst m \<noteq> grID g) (udMembers d))}
    = {m. m \<in> {(gid, uid). \<exists>h u. (h, gid) \<in> groupIDs d \<and> (u, uid) \<in> userIDs d \<and> (h, u) \<in> set (udMembers d)} \<and> fst m \<noteq> grGID g}" by (auto dest: k) (use k in blast)+
  then show ?thesis unfolding roster_def i by (simp add: key_minus [OF k, simplified])
qed

lemma refinesI:
  assumes "runAccount st c d = (d1, r)" and "quiet d1" and "rosterCall c (roster d) = (roster d1, r)"
  shows "refines st c d"
  using assms by (simp add: refines_def)

lemma noValue_simps [simp]: "noValue (d, Inl e) = (d, Inl e)" "noValue (d, Inr x) = (d, Inr ())"
  by (simp_all add: noValue_def)

lemma quietD: "quiet d \<Longrightarrow> usersInv d" "quiet d \<Longrightarrow> udFaults d = []"
  by (simp_all add: quiet_def)

lemma known_uid: "uid \<in> arUID ` set (udUsers d) \<Longrightarrow> (\<And>r. r \<in> set (udUsers d) \<Longrightarrow> uid = arUID r \<Longrightarrow> P) \<Longrightarrow> P"
  and known_gid: "gid \<in> grGID ` set (udGroups d) \<Longrightarrow> (\<And>g. g \<in> set (udGroups d) \<Longrightarrow> gid = grGID g \<Longrightarrow> P) \<Longrightarrow> P"
  by auto

lemma CallEnable_refines:
  assumes q: "quiet d" shows "refines st (CallEnable now uid b) d"
proof -
  define us where "us = map (\<lambda>r. if arUID r = uid then r\<lparr>arEnabled := (if b then 1 else 0), arUpdated := unix_milli now\<rparr> else r) (udUsers d)"
  have v: "map (\<lambda>r. (arID r, arUID r)) us = map (\<lambda>r. (arID r, arUID r)) (udUsers d)" unfolding us_def by (induction "udUsers d") auto
  have "userIDs (d\<lparr>udUsers := us\<rparr>) = userIDs d" by (rule view_userIDs) (simp add: v)
  then have "roster (d\<lparr>udUsers := us\<rparr>) = roster d" by (simp add: roster_def)
  moreover have "usersInv (d\<lparr>udUsers := us\<rparr>) = usersInv d" by (rule usersInv_view) (simp_all add: v)
  ultimately show ?thesis using q
    by (auto simp: refines_def SetEnabled_def updateUsers_def quiet_def list_ex_iff roster_simps us_def split: if_splits)
qed

lemma CallGroup_refines:
  assumes q: "quiet d" shows "refines st (CallGroup now g) d"
proof (cases "gpGID g = [] \<or> gpGID g \<in> grGID ` set (udGroups d)")
  case True
  then show ?thesis using q
    by (auto simp: refines_def CreateGroup_def retDB_def insertGroup_def quietD list_ex_iff roster_simps bindDB_def split: prod.split)
next
  case False
  let ?r = "\<lparr>grID = udNextGroup d, grGID = gpGID g, grDisplayName = (if gpDisplayName g = [] then gpGID g else gpDisplayName g), grCreated = unix_milli now\<rparr>"
  let ?d = "d\<lparr>udGroups := udGroups d @ [?r], udNextGroup := udNextGroup d + 1\<rparr>"
  have i: "insertGroup now g d = (?d, Inr ())" using False q by (auto simp: insertGroup_def quietD list_ex_iff image_iff)
  have q1: "quiet ?d" by (rule quietI [OF insertGroup_keeps q i]) (use False q in \<open>simp_all add: quietD\<close>)
  have "GetGroupByGID (gpGID g) ?d = (?d, Inr (scanGroup ?r))" using GetGroup_known [OF q1, of ?r] by simp
  then have "runAccount st (CallGroup now g) d = (?d, Inr ())" using False i by (simp add: CreateGroup_def)
  then show ?thesis by (rule refinesI [OF _ q1]) (use False q in \<open>simp add: roster_newGroup roster_simps\<close>)
qed

lemma CallDeleteGroup_refines:
  assumes q: "quiet d" shows "refines st (CallDeleteGroup gid) d"
proof (cases "gid \<in> grGID ` set (udGroups d)")
  case False
  then show ?thesis using q GetGroup_unknown [OF q] by (simp add: refines_def DeleteGroup_def bindDB_def roster_simps)
next
  case True
  then obtain g where g: "g \<in> set (udGroups d)" "gid = grGID g" by auto
  let ?d = "d\<lparr>udMembers := filter (\<lambda>m. fst m \<noteq> grID g) (udMembers d), udGroups := filter (\<lambda>r. grID r \<noteq> grID g) (udGroups d),
    udMembers := filter (\<lambda>m. fst m \<noteq> grID g) (udMembers d)\<rparr>"
  have r: "DeleteGroup gid d = (?d, Inr ())"
    using GetGroup_known [OF q g(1)] q g(2) by (simp add: DeleteGroup_def deleteMembers_def quietD)
  have q1: "quiet ?d" by (rule quietI [OF DeleteGroup_keeps q r]) (use q in \<open>simp add: quietD\<close>)
  show ?thesis
    by (rule refinesI [OF _ q1]) (use r True roster_deleteGroup [OF q g(1)] g(2) in \<open>simp_all add: roster_simps\<close>)
qed

lemma unknown_member:
  assumes q: "quiet d" and n: "\<not> (gid \<in> grGID ` set (udGroups d) \<and> uid \<in> arUID ` set (udUsers d))"
  shows "bindDB (GetGroupByGID gid) (\<lambda>g. bindDB (GetByUID uid) (k g)) d = (d, Inl AccNotFound)"
proof (cases "gid \<in> grGID ` set (udGroups d)")
  case True
  then obtain g where g: "g \<in> set (udGroups d)" "gid = grGID g" by auto
  show ?thesis using GetGroup_known [OF q g(1)] GetByUID_unknown [OF q, of uid] n True g(2) by simp
next
  case False
  then show ?thesis using GetGroup_unknown [OF q False] by simp
qed

context key_hooks begin

lemma CallCreate_refines:
  assumes q: "quiet d" shows "refines st (CallCreate now u) d"
proof (cases "acUID u = [] \<or> acUID u \<in> arUID ` set (udUsers d)")
  case True
  then show ?thesis using q
    by (auto simp: refines_def CreateUser_def retDB_def insertAccount_def quietD list_ex_iff roster_simps bindDB_def split: prod.split)
next
  case False
  define c where "c = unix_milli (if acCreatedAt u = zeroTime then unix_milli now * 1000000 else acCreatedAt u)"
  let ?r = "\<lparr>arID = udNextUser d, arUID = acUID u, arDisplayName = acDisplayName u, arEmail = nullEmail (acEmail u), arHash = acHash u,
     arQuota = acQuota u, arEnabled = (if acEnabled u then 1 else 0), arCreated = c, arUpdated = c, arNameScheme = 0\<rparr>"
  let ?d = "d\<lparr>udUsers := udUsers d @ [?r], udNextUser := udNextUser d + 1\<rparr>"
  have i: "insertAccount u c d = (?d, Inr ())" using False q by (auto simp: insertAccount_def quietD list_ex_iff image_iff)
  have q1: "quiet ?d" by (rule quietI [OF insertAccount_keeps q i]) (use False q in \<open>simp_all add: quietD\<close>)
  have "GetByUID (acUID u) ?d = (?d, Inr (scanUserRow ?r))" using GetByUID_known [OF q1, of ?r] by simp
  then have r: "runAccount st (CallCreate now u) d = (userKeysCreated st (acUID u) ?d, Inr ())"
    using False i by (simp add: CreateUser_def c_def)
  show ?thesis
    by (rule refinesI [OF r sameAccounts_quiet [OF hooks_same(1) q1]])
      (use False q in \<open>simp add: sameAccounts_roster [OF hooks_same(1)] roster_newUser roster_simps\<close>)
qed

lemma CallDelete_refines:
  assumes q: "quiet d" shows "refines st (CallDelete uid) d"
proof (cases "uid \<in> arUID ` set (udUsers d)")
  case False
  then show ?thesis using q GetByUID_unknown [OF q] by (simp add: refines_def DeleteUser_def bindDB_def roster_simps)
next
  case True
  then obtain r where r: "r \<in> set (udUsers d)" "uid = arUID r" by auto
  let ?d1 = "d\<lparr>udMembers := filter (\<lambda>m. snd m \<noteq> arID r) (udMembers d)\<rparr>"
  have m: "deleteMembers msg (\<lambda>m. snd m = arID r) d = (?d1, Inr ())" for msg using q by (simp add: deleteMembers_def quietD)
  have q1: "quiet ?d1" by (rule quietI [OF deleteMembers_keeps q m]) (use q in \<open>simp add: quietD\<close>)
  define e where "e = userKeysDeleted st uid ?d1"
  have e: "sameAccounts ?d1 e" unfolding e_def by (rule hooks_same)
  have q2: "quiet e" by (rule sameAccounts_quiet [OF e q1])
  have "(arID r, arUID r) \<in> userIDs e" using r(1) unfolding sameAccounts_userIDs [OF e] by (simp add: userIDs_def)
  then obtain r' where r': "r' \<in> set (udUsers e)" "arID r' = arID r" "arUID r' = arUID r" by (auto simp: userIDs_def)
  let ?d = "e\<lparr>udUsers := filter (\<lambda>x. arID x \<noteq> arID r) (udUsers e), udMembers := filter (\<lambda>m. snd m \<noteq> arID r) (udMembers e), udRefs := filter (\<lambda>f. snd f \<noteq> arID r) (udRefs e)\<rparr>"
  have u: "deleteUserRow (arID r) e = (?d, Inr ())" using quietD(2) [OF q2] by (simp add: deleteUserRow_def)
  have run: "DeleteUser st uid d = (?d, Inr ())"
    using GetByUID_known [OF q r(1)] m u r(2) by (simp add: DeleteUser_def e_def)
  have q3: "quiet ?d" by (rule quietI [OF deleteUserRow_keeps q2 u]) (use q2 in \<open>simp add: quietD\<close>)
  have ro: "roster e = roster ?d1" by (rule sameAccounts_roster [OF e])
  have "roster ?d = (roster e)\<lparr>roUsers := roUsers (roster e) - {uid}, roMembers := {m \<in> roMembers (roster e). snd m \<noteq> uid}\<rparr>"
    using roster_deleteUser [OF q2 r'(1), of "filter (\<lambda>f. snd f \<noteq> arID r) (udRefs e)"] r' r(2) by simp
  moreover have "roMembers (roster ?d1) = {m \<in> roMembers (roster d). snd m \<noteq> uid}"
    unfolding r(2) by (auto simp: roster_def dest: user_key [OF q r(1)]) (use user_key [OF q r(1)] in blast)+
  moreover have g: "roUsers (roster ?d1) = roUsers (roster d)" "roGroups (roster ?d1) = roGroups (roster d)" by (simp_all add: roster_simps)
  ultimately have "roster ?d = (roster d)\<lparr>roUsers := roUsers (roster d) - {uid}, roMembers := {m \<in> {m \<in> roMembers (roster d). snd m \<noteq> uid}. snd m \<noteq> uid}\<rparr>"
    unfolding ro by (simp only: roster_eq [OF g(2)])
  then show ?thesis by (intro refinesI [OF _ q3]) (use run True in \<open>simp_all add: roster_simps\<close>)
qed

lemma CallAdd_refines:
  assumes q: "quiet d" shows "refines st (CallAdd gid uid) d"
proof (cases "gid \<in> grGID ` set (udGroups d) \<and> uid \<in> arUID ` set (udUsers d)")
  case False
  have "AddGroupMember st gid uid d = (d, Inl AccNotFound)" unfolding AddGroupMember_def by (rule unknown_member [OF q False])
  then show ?thesis using q False by (auto simp: refines_def roster_simps)
next
  case True
  then obtain g r where gr: "g \<in> set (udGroups d)" "gid = grGID g" "r \<in> set (udUsers d)" "uid = arUID r" by auto
  let ?m = "(grID g, arID r)"
  define e where "e = (if ?m \<in> set (udMembers d) then d else d\<lparr>udMembers := udMembers d @ [?m]\<rparr>)"
  have q1: "quiet e" using q gr(1,3) by (auto simp: e_def quiet_def usersInv_def)
  have run: "AddGroupMember st gid uid d = (memberKeysAdded st gid uid e, Inr ())"
    using GetGroup_known [OF q gr(1)] GetByUID_known [OF q gr(3)] q gr(2,4) by (simp add: AddGroupMember_def e_def bindDB_def quietD)
  have "roster e = (roster d)\<lparr>roMembers := insert (gid, uid) (roMembers (roster d))\<rparr>"
    using roster_members(1,3) [OF q gr(1,3)] gr(2,4) by (simp add: e_def insert_absorb)
  then show ?thesis
    by (intro refinesI [OF _ sameAccounts_quiet [OF hooks_same(3) q1]]) (use run True in \<open>simp_all add: sameAccounts_roster [OF hooks_same(3)] roster_simps\<close>)
qed

lemma CallRemove_refines:
  assumes q: "quiet d" shows "refines st (CallRemove gid uid) d"
proof (cases "gid \<in> grGID ` set (udGroups d) \<and> uid \<in> arUID ` set (udUsers d)")
  case False
  have "RemoveGroupMember st gid uid d = (d, Inl AccNotFound)" unfolding RemoveGroupMember_def by (rule unknown_member [OF q False])
  then show ?thesis using q False by (auto simp: refines_def roster_simps)
next
  case True
  then obtain g r where gr: "g \<in> set (udGroups d)" "gid = grGID g" "r \<in> set (udUsers d)" "uid = arUID r" by auto
  define e where "e = d\<lparr>udMembers := filter (\<lambda>m. m \<noteq> (grID g, arID r)) (udMembers d)\<rparr>"
  have q1: "quiet e" using q by (auto simp: e_def quiet_def usersInv_def)
  have run: "RemoveGroupMember st gid uid d = (memberKeysRemoved st gid uid e, Inr ())"
    using GetGroup_known [OF q gr(1)] GetByUID_known [OF q gr(3)] q gr(2,4) by (simp add: RemoveGroupMember_def deleteMembers_def e_def bindDB_def quietD)
  have "roster e = (roster d)\<lparr>roMembers := roMembers (roster d) - {(gid, uid)}\<rparr>"
    using roster_members(2) [OF q gr(1,3)] gr(2,4) by (simp add: e_def)
  then show ?thesis
    by (intro refinesI [OF _ sameAccounts_quiet [OF hooks_same(4) q1]]) (use run True in \<open>simp_all add: sameAccounts_roster [OF hooks_same(4)] roster_simps\<close>)
qed

lemma call_refines: "quiet d \<Longrightarrow> refines st c d"
  by (cases c) (simp_all add: CallCreate_refines CallDelete_refines CallEnable_refines CallGroup_refines CallDeleteGroup_refines CallAdd_refines CallRemove_refines)

lemma calls_refine: "quiet d \<Longrightarrow> runAccounts st cs d = (d', rs) \<Longrightarrow> quiet d' \<and> rosterCalls cs (roster d) = (roster d', rs)"
proof (induction cs arbitrary: d rs)
  case (Cons c cs)
  then show ?case using call_refines [OF Cons.prems(1), of c] by (fastforce simp: refines_def split: prod.splits)
qed simp

end

text \<open>What is read about the memberships.\<close>

lemma sorted_keys: "distinct (map f xs) \<Longrightarrow> sort (map f (filter P xs)) = sorted_list_of_set (f ` {x \<in> set xs. P x})" for f :: "'a \<Rightarrow> string"
proof -
  assume "distinct (map f xs)"
  then have "distinct (map f (filter P xs))" by (induction xs) auto
  then show ?thesis using sorted_list_of_set_sort_remdups [of "map f (filter P xs)"] by (simp add: distinct_remdups_id)
qed

lemma UserGroupGIDs_roster:
  assumes q: "quiet d" shows "UserGroupGIDs uid d = (d, Inr (sorted_list_of_set {gid. (gid, uid) \<in> roMembers (roster d)}))"
proof (cases "uid \<in> arUID ` set (udUsers d)")
  case False
  then have "{gid. (gid, uid) \<in> roMembers (roster d)} = {}" by (auto simp: roster_def userIDs_def)
  then show ?thesis using GetByUID_unknown [OF q False] by (simp add: UserGroupGIDs_def)
next
  case True
  then obtain r where r: "r \<in> set (udUsers d)" "uid = arUID r" by auto
  have "grGID ` {g \<in> set (udGroups d). (grID g, arID r) \<in> set (udMembers d)} = {gid. (gid, uid) \<in> roMembers (roster d)}"
    using roster_members(3) [OF q _ r(1)] r(2) by (auto simp: roster_def groupIDs_def image_iff)
  moreover have "distinct (map grGID (udGroups d))" using q by (simp add: quiet_def usersInv_def)
  ultimately show ?thesis using GetByUID_known [OF q r(1)] r(2) q by (simp add: UserGroupGIDs_def quietD sorted_keys)
qed

lemma GroupMembers_roster:
  assumes q: "quiet d" and l: "limit \<le> 0"
  shows "GroupMembers gid limit d = (d, if gid \<in> roGroups (roster d) then Inr (sorted_list_of_set {uid. (gid, uid) \<in> roMembers (roster d)}) else Inl AccNotFound)"
proof (cases "gid \<in> grGID ` set (udGroups d)")
  case False
  then show ?thesis using GetGroup_unknown [OF q False] by (simp add: GroupMembers_def roster_simps)
next
  case True
  then obtain g where g: "g \<in> set (udGroups d)" "gid = grGID g" by auto
  have "uid \<in> arUID ` {r \<in> set (udUsers d). (grID g, arID r) \<in> set (udMembers d)} \<longleftrightarrow> (gid, uid) \<in> roMembers (roster d)" for uid
  proof -
    have "(gid, uid) \<in> roMembers (roster d) \<longleftrightarrow> uid \<in> arUID ` set (udUsers d) \<and> (gid, uid) \<in> roMembers (roster d)" by (auto simp: roster_def userIDs_def)
    also have "\<dots> \<longleftrightarrow> (\<exists>r \<in> set (udUsers d). uid = arUID r \<and> (grID g, arID r) \<in> set (udMembers d))"
      using roster_members(3) [OF q g(1)] g(2) by blast
    finally show ?thesis by auto
  qed
  then have "arUID ` {r \<in> set (udUsers d). (grID g, arID r) \<in> set (udMembers d)} = {uid. (gid, uid) \<in> roMembers (roster d)}" by blast
  moreover have "distinct (map arUID (udUsers d))" using q by (simp add: quiet_def usersInv_def)
  ultimately show ?thesis using GetGroup_known [OF q g(1)] g(2) q l True by (simp add: GroupMembers_def quietD sorted_keys page_def roster_simps)
qed

text \<open>
  C20. From an empty database without faults, every sequence of calls that create and delete accounts and groups, enable accounts and change
  memberships returns what the roster returns, errors included, and leaves the database with the names and memberships of the roster; the groups of
  an account and the members of a group are then the sorted sets of the relation.
\<close>

theorem roster_refinement:
  assumes "key_hooks st" and "runAccounts st cs emptyDB = (d, rs)"
  shows "rosterCalls cs \<lparr>roUsers = {}, roGroups = {}, roMembers = {}\<rparr> = (roster d, rs)
    \<and> UserGroupGIDs uid d = (d, Inr (sorted_list_of_set {gid. (gid, uid) \<in> roMembers (roster d)}))
    \<and> GroupMembers gid 0 d = (d, if gid \<in> roGroups (roster d) then Inr (sorted_list_of_set {uid. (gid, uid) \<in> roMembers (roster d)}) else Inl AccNotFound)"
proof -
  have e: "quiet emptyDB" "roster emptyDB = \<lparr>roUsers = {}, roGroups = {}, roMembers = {}\<rparr>"
    by (simp_all add: quiet_def usersInv_def emptyDB_def roster_def userIDs_def groupIDs_def)
  have "quiet d" "rosterCalls cs (roster emptyDB) = (roster d, rs)" using key_hooks.calls_refine [OF assms(1) e(1) assms(2)] by auto
  then show ?thesis using UserGroupGIDs_roster GroupMembers_roster e(2) by simp
qed

end
