(* ===== verification/Users_Laws.thy ===== *)
theory Users_Laws
  imports Users_Roster
begin

text \<open>
  What deleting, seeding, disabling and searching accounts do, also when statements fail in between.
\<close>

section \<open>Deleting an account\<close>

lemma statement_Inr: "statement msg f d = (d', Inr x) \<Longrightarrow> \<exists>fs. f (d\<lparr>udFaults := fs\<rparr>) = (d', Inr x)"
  by (auto simp: statement_def split: list.splits option.splits)

lemma bindDB_Inr: "bindDB m k d = (d', Inr x) \<Longrightarrow> \<exists>d1 y. m d = (d1, Inr y) \<and> k y d1 = (d', Inr x)"
  by (auto simp: bindDB_def split: prod.splits sum.splits)

lemma GetByUID_Inr:
  assumes "GetByUID uid d = (d1, Inr u)" shows "\<exists>fs r. d1 = d\<lparr>udFaults := fs\<rparr> \<and> r \<in> set (udUsers d) \<and> arUID r = uid \<and> u = scanUserRow r"
proof -
  obtain fs where "d1 = d\<lparr>udFaults := fs\<rparr>" "(case find (\<lambda>r. arUID r = uid) (udUsers d) of None \<Rightarrow> Inl AccNotFound | Some r \<Rightarrow> Inr (scanUserRow r)) = Inr u"
    using statement_Inr [OF assms [unfolded GetByUID_def getUser_def]] by auto
  then show ?thesis by (auto split: option.splits dest: find_SomeD)
qed

lemma GetGroup_Inr:
  assumes "GetGroupByGID gid d = (d1, Inr g)" shows "\<exists>fs r. d1 = d\<lparr>udFaults := fs\<rparr> \<and> r \<in> set (udGroups d) \<and> grGID r = gid \<and> g = scanGroup r"
proof -
  have "gid \<noteq> []" using assms by (auto simp: GetGroupByGID_def retDB_def)
  obtain fs where "d1 = d\<lparr>udFaults := fs\<rparr>" "(case find (\<lambda>g. grGID g = gid) (udGroups d) of None \<Rightarrow> Inl AccNotFound | Some g \<Rightarrow> Inr (scanGroup g)) = Inr g"
    using statement_Inr [OF assms [unfolded GetGroupByGID_def if_not_P [OF \<open>gid \<noteq> []\<close>]]] 
    by auto
  then show ?thesis by (auto split: option.splits dest: find_SomeD)
qed

lemma insertAccount_Inr:
  assumes "insertAccount u c d = (d', Inr ())"
  shows "\<exists>fs. acUID u \<notin> arUID ` set (udUsers d) \<and> d' = d\<lparr>udFaults := fs, udUsers := udUsers d @ [\<lparr>arID = udNextUser d, arUID = acUID u, arDisplayName = acDisplayName u,
      arEmail = nullEmail (acEmail u), arHash = acHash u, arQuota = acQuota u, arEnabled = (if acEnabled u then 1 else 0), arCreated = c, arUpdated = c, arNameScheme = 0\<rparr>],
      udNextUser := udNextUser d + 1\<rparr>"
proof -
  obtain fs where "(\<lambda>d. if list_ex (\<lambda>r. arUID r = acUID u) (udUsers d) then (d, Inl AccExists)
     else (d\<lparr>udUsers := udUsers d @ [\<lparr>arID = udNextUser d, arUID = acUID u, arDisplayName = acDisplayName u, arEmail = nullEmail (acEmail u), arHash = acHash u,
               arQuota = acQuota u, arEnabled = (if acEnabled u then 1 else 0), arCreated = c, arUpdated = c, arNameScheme = 0\<rparr>],
             udNextUser := udNextUser d + 1\<rparr>, Inr ())) (d\<lparr>udFaults := fs\<rparr>) = (d', Inr ())"
    using statement_Inr [OF assms [unfolded insertAccount_def]] by (rule exE)
  then show ?thesis by (intro exI [of _ fs]) (auto simp: list_ex_iff split: if_splits)
qed

lemma deleteUserRow_Inr:
  assumes "deleteUserRow i d = (d', Inr ())"
  shows "\<exists>hs. d' = d\<lparr>udFaults := hs, udUsers := filter (\<lambda>x. arID x \<noteq> i) (udUsers d), udMembers := filter (\<lambda>m. snd m \<noteq> i) (udMembers d), udRefs := filter (\<lambda>f. snd f \<noteq> i) (udRefs d)\<rparr>"
proof -
  obtain fs where "(\<lambda>d. (d\<lparr>udUsers := filter (\<lambda>r. arID r \<noteq> i) (udUsers d), udMembers := filter (\<lambda>m. snd m \<noteq> i) (udMembers d),
      udRefs := filter (\<lambda>f. snd f \<noteq> i) (udRefs d)\<rparr>, Inr () :: account_error + unit)) (d\<lparr>udFaults := fs\<rparr>) = (d', Inr ())"
    using statement_Inr [OF assms [unfolded deleteUserRow_def]] by (rule exE)
  then show ?thesis by (intro exI [of _ fs]) simp
qed

context key_hooks begin

lemma CreateUser_Inr:
  assumes inv: "usersInv d" and c: "CreateUser st now (Some u) d = (d', Inr got)"
  shows "acID got = udNextUser d \<and> acUID got = acUID u \<and> acUID u \<notin> arUID ` set (udUsers d)
    \<and> (\<exists>e r. sameAccounts e d' \<and> udUsers e = udUsers d @ [r] \<and> got = scanUserRow r \<and> arDisplayName r = acDisplayName u \<and> arHash r = acHash u \<and> arEnabled r = (if acEnabled u then 1 else 0)
        \<and> udNextUser e = udNextUser d + 1 \<and> udGroups e = udGroups d \<and> udNextGroup e = udNextGroup d \<and> udMembers e = udMembers d \<and> udRefs e = udRefs d \<and> usersInv e)"
proof -
  have ne: "acUID u \<noteq> []" using c by (auto simp: CreateUser_def retDB_def split: if_splits)
  obtain d1 d2 where d1: "insertAccount u (unix_milli (if acCreatedAt u = zeroTime then unix_milli now * 1000000 else acCreatedAt u)) d = (d1, Inr ())"
      and d2: "GetByUID (acUID u) d1 = (d2, Inr got)" and d': "d' = userKeysCreated st (acUID u) d2"
    using c ne by (auto simp: CreateUser_def dest!: bindDB_Inr)
  obtain fs r where r: "acUID u \<notin> arUID ` set (udUsers d)" "d1 = d\<lparr>udFaults := fs, udUsers := udUsers d @ [r], udNextUser := udNextUser d + 1\<rparr>"
      "arID r = udNextUser d" "arUID r = acUID u" "arDisplayName r = acDisplayName u" "arHash r = acHash u" "arEnabled r = (if acEnabled u then 1 else 0)"
    using insertAccount_Inr [OF d1] by fastforce
  obtain gs x where x: "d2 = d1\<lparr>udFaults := gs\<rparr>" "x \<in> set (udUsers d1)" "arUID x = acUID u" "got = scanUserRow x" using GetByUID_Inr [OF d2] by blast
  have "x = r" using x(2,3) r(1,2) by (auto simp: image_iff)
  moreover have "usersInv d2" using tripleD [OF insertAccount_keeps [OF ne] inv] by (metis d1 fst_conv inv_faults x(1))
  ultimately show ?thesis using r x d'
    by (intro conjI exI [of _ d2] exI [of _ r]) (auto simp: hooks_same(1) scanUserRow_def)
qed

lemma DeleteUser_Inr:
  assumes inv: "usersInv d" and c: "DeleteUser st uid d = (d', Inr ())"
  shows "\<exists>r \<in> set (udUsers d). arUID r = uid \<and> udRefs d' = filter (\<lambda>f. snd f \<noteq> arID r) (udRefs d) \<and> udMembers d' = filter (\<lambda>m. snd m \<noteq> arID r) (udMembers d)
    \<and> uid \<notin> arUID ` set (udUsers d') \<and> arID r < udNextUser d' \<and> usersInv d'
    \<and> map accountKey (udUsers d') = map accountKey (filter (\<lambda>x. arID x \<noteq> arID r) (udUsers d)) \<and> udGroups d' = udGroups d \<and> udNextUser d' = udNextUser d"
proof -
  obtain d1 u d2 where d1: "GetByUID uid d = (d1, Inr u)" and d2: "deleteMembers ''users: delete memberships: '' (\<lambda>m. snd m = acID u) d1 = (d2, Inr ())"
      and d3: "deleteUserRow (acID u) (userKeysDeleted st uid d2) = (d', Inr ())"
    using c unfolding DeleteUser_def by (auto dest!: bindDB_Inr)
  obtain fs r where r: "d1 = d\<lparr>udFaults := fs\<rparr>" "r \<in> set (udUsers d)" "arUID r = uid" "u = scanUserRow r" using GetByUID_Inr [OF d1] by blast
  define e where "e = userKeysDeleted st uid d2"
  obtain gs where gs: "d2 = d1\<lparr>udFaults := gs, udMembers := filter (\<lambda>m. snd m \<noteq> arID r) (udMembers d)\<rparr>"
    using statement_Inr [OF d2 [unfolded deleteMembers_def]] by (auto simp: r(1,4))
  have e: "sameAccounts d2 e" unfolding e_def by (rule hooks_same)
  obtain hs where hs: "d' = e\<lparr>udFaults := hs, udUsers := filter (\<lambda>x. arID x \<noteq> arID r) (udUsers e), udMembers := filter (\<lambda>m. snd m \<noteq> arID r) (udMembers e), udRefs := filter (\<lambda>f. snd f \<noteq> arID r) (udRefs e)\<rparr>"
    using deleteUserRow_Inr [OF d3 [folded e_def]] unfolding r(4) scan_simps by (rule exE)
  have ue: "userIDs e = userIDs d" using sameAccounts_userIDs [OF e] by (simp add: gs r(1) userIDs_def)
  have k: "x \<in> set (udUsers e) \<Longrightarrow> (arID x, arUID x) \<in> userIDs d" for x unfolding ue [symmetric] by (simp add: userIDs_def)
  have "arUID x = uid \<Longrightarrow> (arID x, arUID x) \<in> userIDs d \<Longrightarrow> arID x = arID r" for x
    using inv r(2,3) by (auto simp: usersInv_def userIDs_def distinct_map inj_on_def)
  then have "uid \<notin> arUID ` set (udUsers d')" using k by (auto simp: hs)
  moreover have "udNextUser d' = udNextUser d" and "udGroups d' = udGroups d" using e by (simp_all add: hs gs r(1) sameAccounts_def)
  moreover have "map accountKey (udUsers d') = map accountKey (filter (\<lambda>x. arID x \<noteq> arID r) (udUsers d))"
  proof -
    have f: "map accountKey (filter (\<lambda>x. arID x \<noteq> arID r) us) = filter (\<lambda>x. arID x \<noteq> arID r) (map accountKey us)" for us
      by (simp add: filter_map comp_def)
    show ?thesis using e unfolding f by (simp add: hs gs r(1) sameAccounts_def f)
  qed
  moreover have "arID r < udNextUser d" using inv r(2) by (auto simp: usersInv_def)
  moreover have "usersInv d'" using tripleD [OF DeleteUser_keeps inv, of uid] c by simp
  ultimately show ?thesis using r(2,3) e by (intro bexI [of _ r]) (auto simp: hs gs r(1) sameAccounts_def)
qed

lemma deleted_account:
  assumes inv: "usersInv d" and c: "DeleteUser st uid d = (d', Inr ())"
  shows "\<exists>r \<in> set (udUsers d). arUID r = uid
    \<and> map accountKey (udUsers d') = map accountKey (filter (\<lambda>x. arID x \<noteq> arID r) (udUsers d))
    \<and> udMembers d' = filter (\<lambda>m. snd m \<noteq> arID r) (udMembers d) \<and> udGroups d' = udGroups d
    \<and> uid \<notin> arUID ` set (udUsers d')
    \<and> (\<forall>now u d'' got. CreateUser st now (Some u) d' = (d'', Inr got) \<longrightarrow> acID got \<notin> arID ` set (udUsers d) \<and> acID got \<notin> snd ` set (udMembers d''))"
proof -
  obtain r where r: "r \<in> set (udUsers d)" "arUID r = uid" "udMembers d' = filter (\<lambda>m. snd m \<noteq> arID r) (udMembers d)"
      "uid \<notin> arUID ` set (udUsers d')" "usersInv d'" "udGroups d' = udGroups d" "udNextUser d' = udNextUser d"
      "map accountKey (udUsers d') = map accountKey (filter (\<lambda>x. arID x \<noteq> arID r) (udUsers d))"
    using DeleteUser_Inr [OF inv c] by blast
  have "acID got \<notin> arID ` set (udUsers d) \<and> acID got \<notin> snd ` set (udMembers d'')" if c2: "CreateUser st now (Some u) d' = (d'', Inr got)" for now u d'' got
  proof -
    obtain e where e: "acID got = udNextUser d'" "sameAccounts e d''" "udMembers e = udMembers d'"
      using CreateUser_Inr [OF r(5) c2] by blast
    have "udNextUser d' \<notin> arID ` set (udUsers d')" "udNextUser d \<notin> arID ` set (udUsers d)" using r(5) inv by (auto simp: usersInv_def)
    moreover have "snd ` set (udMembers d') \<subseteq> arID ` set (udUsers d')" using r(5) by (auto simp: usersInv_def)
    ultimately show ?thesis using e r(7) unfolding sameAccounts_def by auto
  qed
  then show ?thesis using r by blast
qed

end


text \<open>
  The comment of \<open>Delete\<close> and ADR-0047 say that files, shares and other owned data stay: the schema decides otherwise. Those tables refer to
  \<open>users(id)\<close> with \<open>ON DELETE CASCADE\<close> and the connection turns foreign keys on, so the delete of the row takes their rows with it.
\<close>

theorem delete_cascades:
  assumes "key_hooks st" and "usersInv d" and "DeleteUser st uid d = (d', Inr ())"
  shows "\<exists>r \<in> set (udUsers d). arUID r = uid \<and> udRefs d' = filter (\<lambda>f. snd f \<noteq> arID r) (udRefs d)"
  using key_hooks.DeleteUser_Inr [OF assms] by blast

section \<open>The first administrator\<close>

lemma accountKey_display [simp]: "arDisplayName (accountKey r) = arDisplayName r"
  by (simp add: accountKey_def)

lemma UserGroupGIDs_Inr:
  assumes "UserGroupGIDs uid d = (d', Inr gs)"
  shows "(\<exists>fs. d' = d\<lparr>udFaults := fs\<rparr>) \<and> (\<forall>gid \<in> set gs. (gid, uid) \<in> roMembers (roster d))"
proof -
  obtain d1 r where g: "GetByUID uid d = (d1, r)" by (cases "GetByUID uid d")
  show ?thesis
  proof (cases r)
    case (Inl e)
    obtain fs where "d1 = d\<lparr>udFaults := fs\<rparr>" using g by (auto simp: GetByUID_def getUser_def statement_def split: list.splits option.splits)
    then show ?thesis using assms g Inl by (auto simp: UserGroupGIDs_def split: account_error.splits)
  next
    case (Inr u)
    obtain fs r where r: "d1 = d\<lparr>udFaults := fs\<rparr>" "r \<in> set (udUsers d)" "arUID r = uid" "u = scanUserRow r" using GetByUID_Inr g Inr by blast
    have st: "statement ''users: group gids: '' (\<lambda>d. (d, Inr (sort (map grGID (filter (\<lambda>g. (grID g, acID u) \<in> set (udMembers d)) (udGroups d)))))) d1 = (d', Inr gs)"
      using assms g Inr by (simp add: UserGroupGIDs_def)
    obtain hs where "d' = d1\<lparr>udFaults := hs\<rparr>" "gs = sort (map grGID (filter (\<lambda>g. (grID g, acID u) \<in> set (udMembers d1)) (udGroups d1)))"
      using statement_Inr [OF st] by auto
    then show ?thesis using r by (auto simp: roster_def groupIDs_def userIDs_def)
  qed
qed

lemma CreateGroup_users: "udUsers (fst (CreateGroup now g d)) = udUsers d"
proof -
  have g: "udUsers d1 = udUsers d" if "GetGroupByGID gid d = (d1, r)" for gid d d1 r
    using that by (auto simp: GetGroupByGID_def retDB_def statement_def split: if_splits list.splits option.splits)
  have i: "udUsers d1 = udUsers d" if "insertGroup now g d = (d1, r)" for g d1 r
    using that by (auto simp: insertGroup_def statement_def split: if_splits list.splits option.splits)
  show ?thesis by (cases g) (auto simp: CreateGroup_def retDB_def bindDB_def g [OF prod.collapse [symmetric]] dest!: i split: prod.split sum.split)
qed

lemma adminGroup_users:
  "udUsers (fst ((\<lambda>d. case GetGroupByGID AdminGroupGID d of (d1, Inl AccNotFound) \<Rightarrow> createAdminGroup now d1 | (d1, Inl e) \<Rightarrow> (d1, Inl e) | (d1, Inr _) \<Rightarrow> (d1, Inr ())) d)) = udUsers d"
proof -
  have g: "udUsers d1 = udUsers d" if "GetGroupByGID gid d = (d1, r)" for gid d1 r
    using that by (auto simp: GetGroupByGID_def retDB_def statement_def split: if_splits list.splits option.splits)
  have c: "udUsers (fst (createAdminGroup now d)) = udUsers d" for d
    using CreateGroup_users [of now "Some \<lparr>gpID = 0, gpGID = AdminGroupGID, gpDisplayName = AdminGroupGID\<rparr>" d]
    by (auto simp: createAdminGroup_def split: prod.split sum.split account_error.split)
  show ?thesis using g c by (auto split: prod.split sum.split account_error.split)
qed

context key_hooks begin

lemma AddGroupMember_Inr:
  assumes "AddGroupMember st gid uid d = (d', Inr ())"
  shows "(gid, uid) \<in> roMembers (roster d') \<and> map accountKey (udUsers d') = map accountKey (udUsers d)"
proof -
  obtain d1 g d2 u d3 where d1: "GetGroupByGID gid d = (d1, Inr g)" and d2: "GetByUID uid d1 = (d2, Inr u)"
      and d3: "statement ''users: add member: '' (\<lambda>d. if (gpID g, acID u) \<in> set (udMembers d) then (d, Inr ()) else (d\<lparr>udMembers := udMembers d @ [(gpID g, acID u)]\<rparr>, Inr ())) d2 = (d3, Inr ())"
      and d': "d' = memberKeysAdded st gid uid d3"
    using assms unfolding AddGroupMember_def by (auto dest!: bindDB_Inr)
  obtain fs x where x: "d1 = d\<lparr>udFaults := fs\<rparr>" "x \<in> set (udGroups d)" "grGID x = gid" "g = scanGroup x" using GetGroup_Inr [OF d1] by blast
  obtain gs r where r: "d2 = d1\<lparr>udFaults := gs\<rparr>" "r \<in> set (udUsers d1)" "arUID r = uid" "u = scanUserRow r" using GetByUID_Inr [OF d2] by blast
  obtain hs where hs: "(\<lambda>d. if (gpID g, acID u) \<in> set (udMembers d) then (d, Inr ()) else (d\<lparr>udMembers := udMembers d @ [(gpID g, acID u)]\<rparr>, Inr () :: account_error + unit)) (d2\<lparr>udFaults := hs\<rparr>) = (d3, Inr ())"
    using statement_Inr [OF d3] by (rule exE)
  have i: "gpID g = grID x" "acID u = arID r" "udMembers d2 = udMembers d" "udUsers d2 = udUsers d" "udGroups d2 = udGroups d" using x(1,4) r(1,4) by simp_all
  have e: "udUsers d3 = udUsers d \<and> udGroups d3 = udGroups d \<and> (grID x, arID r) \<in> set (udMembers d3)"
  proof (cases "(grID x, arID r) \<in> set (udMembers d)")
    case True
    then have "d3 = d2\<lparr>udFaults := hs\<rparr>" using hs i by simp
    then show ?thesis using True i by simp
  next
    case False
    then have "d3 = d2\<lparr>udFaults := hs, udMembers := udMembers d @ [(grID x, arID r)]\<rparr>" using hs i by simp
    then show ?thesis using i by simp
  qed
  have "(gid, uid) \<in> roMembers (roster d3)" using x(1-3) r(2,3) e by (auto simp: roster_def groupIDs_def userIDs_def)
  then show ?thesis using hooks_same(3) [where d = d3 and gid = gid and uid = uid] e sameAccounts_roster [OF hooks_same(3) [where d = d3 and gid = gid and uid = uid]] by (simp add: d' sameAccounts_def)
qed

lemma ensureAdminMembership_Inr:
  assumes "ensureAdminMembership st now uid d = (d', Inr ())"
  shows "(AdminGroupGID, uid) \<in> roMembers (roster d') \<and> map accountKey (udUsers d') = map accountKey (udUsers d)"
proof -
  obtain d1 d2 gids where d1: "(\<lambda>d. case GetGroupByGID AdminGroupGID d of (d1, Inl AccNotFound) \<Rightarrow> createAdminGroup now d1 | (d1, Inl e) \<Rightarrow> (d1, Inl e) | (d1, Inr _) \<Rightarrow> (d1, Inr ())) d = (d1, Inr ())"
      and d2: "UserGroupGIDs uid d1 = (d2, Inr gids)"
      and d3: "(if AdminGroupGID \<in> set gids then retDB (Inr ()) else AddGroupMember st AdminGroupGID uid) d2 = (d', Inr ())"
    using assms unfolding ensureAdminMembership_def by (auto dest!: bindDB_Inr simp del: split_paired_Ex)
  have u: "udUsers d1 = udUsers d" using adminGroup_users [of now d] unfolding d1 by simp
  obtain fs where fs: "d2 = d1\<lparr>udFaults := fs\<rparr>" "\<forall>gid \<in> set gids. (gid, uid) \<in> roMembers (roster d1)" using UserGroupGIDs_Inr [OF d2] by blast
  have "roster d2 = roster d1" by (simp add: fs(1) roster_def userIDs_def groupIDs_def)
  then show ?thesis using d3 fs u AddGroupMember_Inr [of AdminGroupGID uid d2 d'] by (cases "AdminGroupGID \<in> set gids") (auto simp: retDB_def)
qed

lemma bootstrapped:
  assumes inv: "usersInv d" and n: "udUsers d = []" and c: "EnsureBootstrapAdmin st now hash b d = (d', Inr ())"
  shows "\<exists>h. hash (baPassword b) = Inr h \<and> arUID ` set (udUsers d') = {baUID b} \<and> (AdminGroupGID, baUID b) \<in> roMembers (roster d')
    \<and> passwordRows (d'\<lparr>udFaults := []\<rparr>) (baUID b)
      = Some (\<lparr>uiID = udNextUser d, uiUID = baUID b, uiDisplayName = (if baDisplayName b = [] then baUID b else baDisplayName b), uiEnabled = True\<rparr>, h)"
proof -
  let ?u = "\<lambda>h. \<lparr>acID = 0, acUID = baUID b, acDisplayName = (if baDisplayName b = [] then baUID b else baDisplayName b),
                acEmail = [], acHash = h, acQuota = None, acEnabled = True, acCreatedAt = zeroTime, acUpdatedAt = zeroTime\<rparr>"
  obtain d1 k where d1: "Count d = (d1, Inr k)" using bindDB_Inr [OF c [unfolded EnsureBootstrapAdmin_def]] by blast
  obtain fs where fs: "d1 = d\<lparr>udFaults := fs\<rparr>" "k = 0" using statement_Inr [OF d1 [unfolded Count_def]] n by auto
  obtain h d2 got where h: "hash (baPassword b) = Inr h" and d2: "CreateUser st now (Some (?u h)) d1 = (d2, Inr got)" and d3: "ensureAdminMembership st now (baUID b) d2 = (d', Inr ())"
    using c d1 fs(2) unfolding EnsureBootstrapAdmin_def by (auto simp: retDB_def dest!: bindDB_Inr split: if_splits sum.splits)
  have "usersInv d1" using inv by (simp add: fs)
  from CreateUser_Inr [OF this d2] obtain e r where r: "sameAccounts e d2" "udUsers e = [r]" "arID r = udNextUser d" "arUID r = baUID b"
      "arDisplayName r = (if baDisplayName b = [] then baUID b else baDisplayName b)" "arHash r = h" "arEnabled r = 1"
    using n fs by (auto simp: scanUserRow_def)
  have m: "(AdminGroupGID, baUID b) \<in> roMembers (roster d')" "map accountKey (udUsers d') = map accountKey (udUsers d2)" using ensureAdminMembership_Inr [OF d3] by auto
  then have "map accountKey (udUsers d') = [accountKey r]" using r(1,2) by (simp add: sameAccounts_def)
  then obtain x where x: "udUsers d' = [x]" "accountKey x = accountKey r" by auto
  have "arID x = arID r" "arUID x = arUID r" "arDisplayName x = arDisplayName r" "arHash x = arHash r" "arEnabled x = arEnabled r"
    using arg_cong [OF x(2), of arID] arg_cong [OF x(2), of arUID] arg_cong [OF x(2), of arDisplayName] arg_cong [OF x(2), of arHash] arg_cong [OF x(2), of arEnabled] by simp_all
  then show ?thesis using h m(1) r x(1)
    by (simp add: passwordRows_def GetByUID_def getUser_def okOption_def scanUserRow_def userInfo_def)
qed

end

text \<open>
  C23. When the seeding of the first administrator on a table without accounts returns no error, whatever else failed, there is exactly the configured
  account, enabled, with the hash of the configured password and its display name, and it is a member of the group of administrators.
\<close>

theorem bootstrap_admin:
  assumes "key_hooks st" and "usersInv d" and "udUsers d = []" and "EnsureBootstrapAdmin st now hash b d = (d', Inr ())"
  shows "\<exists>h. hash (baPassword b) = Inr h \<and> arUID ` set (udUsers d') = {baUID b} \<and> (AdminGroupGID, baUID b) \<in> roMembers (roster d')
    \<and> passwordRows (d'\<lparr>udFaults := []\<rparr>) (baUID b)
      = Some (\<lparr>uiID = udNextUser d, uiUID = baUID b, uiDisplayName = (if baDisplayName b = [] then baUID b else baDisplayName b), uiEnabled = True\<rparr>, h)"
  by (rule key_hooks.bootstrapped [OF assms])

lemma bootstrap_once: "udUsers d \<noteq> [] \<Longrightarrow> udFaults d = [] \<Longrightarrow> EnsureBootstrapAdmin st now hash b d = (d, Inr ())"
  by (simp add: EnsureBootstrapAdmin_def Count_def retDB_def)

text \<open>
  A database that fails between the account and its membership: the first start ends with the error, and later starts find an account and do
  not add it to the group.
\<close>

theorem bootstrap_half_done:
  assumes "usersInv d" and "udUsers d = []" and "udFaults d = [None, None, None, Some e]" and "baUID b \<noteq> []" and "hash (baPassword b) = Inr h"
  shows "\<exists>d1. EnsureBootstrapAdmin NewAccountStore now hash b d = (d1, Inl (AccErr (''users: get group: '' @ e)))
    \<and> EnsureBootstrapAdmin NewAccountStore now' hash b d1 = (d1, Inr ())
    \<and> arUID ` set (udUsers d1) = {baUID b} \<and> roMembers (roster d1) = {}"
proof -
  obtain d1 where r: "EnsureBootstrapAdmin NewAccountStore now hash b d = (d1, Inl (AccErr (''users: get group: '' @ e)))"
    and u: "udFaults d1 = []" "udMembers d1 = udMembers d" "arUID ` set (udUsers d1) = {baUID b}"
    using assms(2-5)
    by (simp add: EnsureBootstrapAdmin_def Count_def statement_def bindDB_def CreateUser_def insertAccount_def GetByUID_def getUser_def userKeysCreated_def NewAccountStore_def
        ensureAdminMembership_def GetGroupByGID_def AdminGroupGID_def retDB_def)
  have "udMembers d = []" using assms(1,2) by (auto simp: usersInv_def)
  then have "roMembers (roster d1) = {}" using u(2) by (simp add: roster_def)
  moreover have "udUsers d1 \<noteq> []" using u(3) by auto
  ultimately show ?thesis using r u(3) bootstrap_once [OF _ u(1)] by blast
qed

section \<open>Disabled accounts\<close>

theorem disabled_account_refused:
  assumes "usersInv d" and "SetEnabled now uid False d = (d', Inr ())"
  shows "(\<exists>e. passwordVerify idKey (passwordRows d') uid pw = Inl e) \<and> principalForUID (Some (authUsers d')) uid = Inl ErrInvalidCredentials"
proof -
  have fs: "udUsers d' = map (\<lambda>r. if arUID r = uid then r\<lparr>arEnabled := 0, arUpdated := unix_milli now\<rparr> else r) (udUsers d)"
    using statement_Inr [OF assms(2) [unfolded SetEnabled_def updateUsers_def]] by (auto split: if_splits)
  have "\<not> acEnabled u" if "okOption (GetByUID uid d') = Some u" for u
  proof -
    obtain d1 where g: "GetByUID uid d' = (d1, Inr u)" using \<open>okOption (GetByUID uid d') = Some u\<close> by (cases "GetByUID uid d'") (auto simp: okOption_def split: sum.splits)
    obtain r where "r \<in> set (udUsers d')" "arUID r = uid" "u = scanUserRow r" using GetByUID_Inr [OF g] by blast
    moreover have "\<forall>r \<in> set (udUsers d'). arUID r = uid \<longrightarrow> arEnabled r = 0" 
    proof (intro ballI impI)
      fix r assume m: "r \<in> set (udUsers d')" and u: "arUID r = uid"
      from m obtain x where "r = (if arUID x = uid then x\<lparr>arEnabled := 0, arUpdated := unix_milli now\<rparr> else x)" unfolding fs set_map by (rule imageE)
      then show "arEnabled r = 0" using u by (cases "arUID x = uid") simp_all
    qed
    ultimately show ?thesis by (simp add: scanUserRow_def)
  qed
  then show ?thesis
    by (cases "okOption (GetByUID uid d')") (simp_all add: passwordVerify_def passwordRows_def principalForUID_def authUsers_def userInfo_def)
qed

section \<open>Searching\<close>

text \<open>The term is not escaped: \<open>%\<close> is every enabled account.\<close>

theorem search_wildcard:
  assumes "\<And>s. like ''%%%'' s" and "udFaults d = []"
  shows "SearchUsers like ''%'' limit d = (d, Inr (map scanUserRow (take (nat (searchLimit limit)) (sort_key arUID (filter (\<lambda>r. arEnabled r = 1) (udUsers d))))))"
proof -
  have "trim_space ''%'' = ''%''" by code_simp
  then show ?thesis using assms by (simp add: SearchUsers_def)
qed

section \<open>Concrete databases\<close>

definition demoAlice :: Account where
  "demoAlice = \<lparr>acID = 0, acUID = ''alice'', acDisplayName = ''Alice'', acEmail = [], acHash = ''h'', acQuota = None, acEnabled = True, acCreatedAt = 0, acUpdatedAt = 0\<rparr>"

definition demoAccountsDB :: UsersDB where
  "demoAccountsDB = (fst (CreateUser NewAccountStore 0 (Some demoAlice) emptyDB))\<lparr>udRefs := [(''files'', 1), (''shares'', 1)]\<rparr>"

lemma demo_alice_created: "CreateUser NewAccountStore 0 (Some demoAlice) emptyDB = (emptyDB\<lparr>udNextUser := 2, udUsers := [\<lparr>arID = 1, arUID = ''alice'', arDisplayName = ''Alice'', arEmail = None, arHash = ''h'',
    arQuota = None, arEnabled = 1, arCreated = 0, arUpdated = 0, arNameScheme = 0\<rparr>]\<rparr>, Inr (demoAlice\<lparr>acID := 1\<rparr>))"
  by code_simp

lemma demo_accounts_inv: "usersInv demoAccountsDB"
  by (simp add: demoAccountsDB_def demo_alice_created) (simp add: usersInv_def emptyDB_def)

theorem accounts_reachable_witness: "\<exists>d. (accountStep NewAccountStore)\<^sup>*\<^sup>* emptyDB d \<and> udUsers d \<noteq> [] \<and> usersInv d"
proof -
  let ?d = "fst (CreateUser NewAccountStore 0 (Some demoAlice) emptyDB)"
  have s: "(accountStep NewAccountStore)\<^sup>*\<^sup>* emptyDB ?d" by (rule r_into_rtranclp) (rule accountStep.create)
  show ?thesis using s accounts_reachable [OF cli.key_hooks_axioms s] by (intro exI [of _ ?d]) (simp add: demo_alice_created)
qed

theorem roster_refinement_witness:
  "\<exists>d. runAccounts NewAccountStore [CallCreate 0 demoAlice, CallAdd ''admin'' ''alice'', CallGroup 0 \<lparr>gpID = 0, gpGID = ''admin'', gpDisplayName = []\<rparr>, CallAdd ''admin'' ''alice'', CallAdd ''admin'' ''bob''] emptyDB
      = (d, [Inr (), Inl AccNotFound, Inr (), Inr (), Inl AccNotFound])
    \<and> UserGroupGIDs ''alice'' d = (d, Inr [''admin'']) \<and> GroupMembers ''admin'' 0 d = (d, Inr [''alice''])"
proof -
  let ?cs = "[CallCreate 0 demoAlice, CallAdd ''admin'' ''alice'', CallGroup 0 \<lparr>gpID = 0, gpGID = ''admin'', gpDisplayName = []\<rparr>, CallAdd ''admin'' ''alice'', CallAdd ''admin'' ''bob'']"
  obtain d rs where r: "runAccounts NewAccountStore ?cs emptyDB = (d, rs)" by (cases "runAccounts NewAccountStore ?cs emptyDB")
  note t = roster_refinement [OF cli.key_hooks_axioms r, of "''alice''" "''admin''"]
  have e: "rosterCalls ?cs \<lparr>roUsers = {}, roGroups = {}, roMembers = {}\<rparr>
      = (\<lparr>roUsers = {''alice''}, roGroups = {''admin''}, roMembers = {(''admin'', ''alice'')}\<rparr>, [Inr (), Inl AccNotFound, Inr (), Inr (), Inl AccNotFound])"
    by (simp add: demoAlice_def)
  have "rs = [Inr (), Inl AccNotFound, Inr (), Inr (), Inl AccNotFound]" "roster d = \<lparr>roUsers = {''alice''}, roGroups = {''admin''}, roMembers = {(''admin'', ''alice'')}\<rparr>"
    using t e by auto
  then show ?thesis using r t by (intro exI [of _ d]) simp
qed


theorem delete_cascades_witness:
  "\<exists>d'. DeleteUser NewAccountStore ''alice'' demoAccountsDB = (d', Inr ()) \<and> udRefs demoAccountsDB = [(''files'', 1), (''shares'', 1)] \<and> udRefs d' = []"
proof -
  have "snd (DeleteUser NewAccountStore ''alice'' demoAccountsDB) = Inr ()" by code_simp
  then obtain d' where d': "DeleteUser NewAccountStore ''alice'' demoAccountsDB = (d', Inr ())" by (metis prod.collapse)
  show ?thesis using d' delete_cascades [OF cli.key_hooks_axioms demo_accounts_inv d']
    by (simp add: demoAccountsDB_def demo_alice_created)
qed

theorem bootstrap_admin_witness:
  "\<exists>d'. EnsureBootstrapAdmin NewAccountStore 0 (\<lambda>pw. Inr (''h:'' @ pw)) \<lparr>baUID = ''root'', baPassword = ''pw'', baDisplayName = []\<rparr> emptyDB = (d', Inr ())
    \<and> (''admin'', ''root'') \<in> roMembers (roster d') \<and> passwordRows (d'\<lparr>udFaults := []\<rparr>) ''root'' = Some (\<lparr>uiID = 1, uiUID = ''root'', uiDisplayName = ''root'', uiEnabled = True\<rparr>, ''h:pw'')"
proof -
  let ?b = "\<lparr>baUID = ''root'', baPassword = ''pw'', baDisplayName = []\<rparr>" and ?h = "\<lambda>pw. Inr (''h:'' @ pw)"
  have "snd (EnsureBootstrapAdmin NewAccountStore 0 ?h ?b emptyDB) = Inr ()" by code_simp
  then obtain d' where d': "EnsureBootstrapAdmin NewAccountStore 0 ?h ?b emptyDB = (d', Inr ())" by (metis prod.collapse)
  have i: "usersInv emptyDB" "udUsers emptyDB = []" "udNextUser emptyDB = 1" by (simp_all add: usersInv_def emptyDB_def)
  show ?thesis using d' bootstrap_admin [OF cli.key_hooks_axioms i(1,2) d'] by (simp add: i(3) AdminGroupGID_def)
qed

theorem bootstrap_half_done_witness:
  "\<exists>d1. EnsureBootstrapAdmin NewAccountStore 0 (\<lambda>pw. Inr pw) \<lparr>baUID = ''root'', baPassword = ''pw'', baDisplayName = []\<rparr> (emptyDB\<lparr>udFaults := [None, None, None, Some ''busy'']\<rparr>)
      = (d1, Inl (AccErr ''users: get group: busy''))
    \<and> EnsureBootstrapAdmin NewAccountStore 1 (\<lambda>pw. Inr pw) \<lparr>baUID = ''root'', baPassword = ''pw'', baDisplayName = []\<rparr> d1 = (d1, Inr ()) \<and> roMembers (roster d1) = {}"
  using bootstrap_half_done [of "emptyDB\<lparr>udFaults := [None, None, None, Some ''busy'']\<rparr>" "''busy''" "\<lparr>baUID = ''root'', baPassword = ''pw'', baDisplayName = []\<rparr>" "\<lambda>pw. Inr pw" "''pw''" 0 1]
  by (auto simp: usersInv_def emptyDB_def)

theorem disabled_account_refused_witness:
  "\<exists>d'. SetEnabled 0 ''alice'' False demoAccountsDB = (d', Inr ()) \<and> principalForUID (Some (authUsers d')) ''alice'' = Inl ErrInvalidCredentials
     \<and> (\<exists>p. principalForUID (Some (authUsers demoAccountsDB)) ''alice'' = Inr p)"
proof -
  have "snd (SetEnabled 0 ''alice'' False demoAccountsDB) = Inr ()" by code_simp
  then obtain d' where d': "SetEnabled 0 ''alice'' False demoAccountsDB = (d', Inr ())" by (metis prod.collapse)
  have "(case principalForUID (Some (authUsers demoAccountsDB)) ''alice'' of Inl e \<Rightarrow> False | Inr p \<Rightarrow> True)" by code_simp
  then show ?thesis using d' disabled_account_refused [OF demo_accounts_inv d'] by (auto split: sum.splits)
qed

end
