(* ===== verification/Cache_Laws.thy ===== *)
theory Cache_Laws
  imports Cache_Tiered
begin

text \<open>
  The index of keys of the in-process cache: whatever the calls, it knows every key that the cache can answer, so that a deletion by prefix
  leaves nothing behind.
\<close>

text \<open>
  What \<open>ristretto\<close> promises: \<open>Del\<close> removes one key; after a \<open>Set\<close> that entered the buffer, and \<open>Wait\<close>, the cache answers
  no key that it reported as evicted or rejected, and no other key than before but the one that was set; after one that did not, not that one.
\<close>

definition ristrettoOK :: "'r Ristretto \<Rightarrow> bool" where
  "ristrettoOK ri \<longleftrightarrow> (\<forall>t r k k'. riGet ri t (riDel ri r k) k' = (if k' = k then None else riGet ri t r k'))
     \<and> (\<forall>now r k e cost ttl r' b gone t k'. riSet ri now r k e cost ttl = (r', b, gone) \<longrightarrow> riGet ri t r' k' \<noteq> None \<longrightarrow>
          k' \<notin> set gone \<and> (if k' = k then b else (\<exists>t'. riGet ri t' r k' \<noteq> None)))"

lemma ristrettoD:
  assumes "ristrettoOK ri"
  shows "riGet ri t (riDel ri r k) k' = (if k' = k then None else riGet ri t r k')"
    and "riSet ri now r k e cost ttl = (r', b, gone) \<Longrightarrow> riGet ri t r' k' \<noteq> None \<Longrightarrow> k' \<notin> set gone \<and> (if k' = k then b else (\<exists>t'. riGet ri t' r k' \<noteq> None))"
  using assms unfolding ristrettoOK_def by blast+

definition indexed :: "'r Ristretto \<Rightarrow> 'r Memory \<Rightarrow> bool" where
  "indexed ri m \<longleftrightarrow> (\<forall>t k. riGet ri t (mmStore m) k \<noteq> None \<longrightarrow> k \<in> set (mmKeys m))"

text \<open>The calls, and the callback of an eviction in the background, which has removed the item before.\<close>

datatype cacheCall =
  CallSet int string string int | CallDelete string | CallDeleteByPrefix string | CallIncrement int string int | Evicted string

fun cacheStep :: "'r Ristretto \<Rightarrow> cacheCall \<Rightarrow> 'r Memory \<Rightarrow> 'r Memory" where
  "cacheStep ri (CallSet now key val ttl) m = fst (memorySet ri now m key val ttl)"
| "cacheStep ri (CallDelete key) m = fst (memoryDelete ri m key)"
| "cacheStep ri (CallDeleteByPrefix p) m = fst (memoryDeleteByPrefix ri m p)"
| "cacheStep ri (CallIncrement now key delta) m = fst (memoryIncrement now m key delta)"
| "cacheStep ri (Evicted key) m = untrack key (m\<lparr>mmStore := riDel ri (mmStore m) key\<rparr>)"

lemma untrack_sel [simp]: "mmStore (untrack k m) = mmStore m" "mmInc (untrack k m) = mmInc m" "mmKeys (untrack k m) = removeAll k (mmKeys m)"
  by (simp_all add: untrack_def)

lemma fold_untrack: "mmStore (fold untrack ks m) = mmStore m" "set (mmKeys (fold untrack ks m)) = set (mmKeys m) - set ks"
  by (induction ks arbitrary: m) auto

lemma fold_riDel: "ristrettoOK ri \<Longrightarrow> riGet ri t (fold (\<lambda>k r. riDel ri r k) ks r) k' = (if k' \<in> set ks then None else riGet ri t r k')"
  by (induction ks arbitrary: r) (auto simp: ristrettoD(1))

lemma indexed_set:
  assumes ri: "ristrettoOK ri" and i: "indexed ri m" shows "indexed ri (fst (memorySet ri now m key val ttl))"
proof -
  obtain r b gone where s: "riSet ri now (mmStore m) key (key, val) (if val = [] then 1 else int (length val)) (if ttl > 0 then ttl else 0) = (r, b, gone)"
    by (metis prod_cases3)
  have "k \<in> set (mmKeys (fst (memorySet ri now m key val ttl)))" if "riGet ri t r k \<noteq> None" for t k
    using ristrettoD(2) [OF ri s that] i s by (auto simp: memorySet_def Let_def fold_untrack indexed_def split: if_splits)
  moreover have "mmStore (fst (memorySet ri now m key val ttl)) = r" using s by (simp add: memorySet_def Let_def fold_untrack)
  ultimately show ?thesis by (simp add: indexed_def)
qed

definition matchedKeys :: "string \<Rightarrow> 'r Memory \<Rightarrow> string list" where
  "matchedKeys p m = remdups (filter (\<lambda>k. has_prefix k p) (mmKeys m @ map fst (mmInc m)))"

lemma prefix_matched:
  assumes "p \<noteq> []"
  shows "memoryDeleteByPrefix ri m p = (m\<lparr>mmStore := fold (\<lambda>k r. riDel ri r k) (matchedKeys p m) (mmStore m),
      mmInc := filter (\<lambda>e. fst e \<notin> set (matchedKeys p m)) (mmInc m), mmKeys := filter (\<lambda>k. k \<notin> set (matchedKeys p m)) (mmKeys m)\<rparr>, int (length (matchedKeys p m)), None)"
  using assms(1) by (simp add: memoryDeleteByPrefix_def matchedKeys_def Let_def)

lemma cacheStep_indexed:
  assumes ri: "ristrettoOK ri" and i: "indexed ri m" shows "indexed ri (cacheStep ri c m)"
proof (cases c)
  case (CallSet now key val ttl) then show ?thesis using indexed_set [OF ri i] by simp
next
  case (CallDeleteByPrefix p)
  show ?thesis
  proof (cases "p = []")
    case True then show ?thesis using i CallDeleteByPrefix by (simp add: memoryDeleteByPrefix_def)
  next
    case False
    show ?thesis using i CallDeleteByPrefix by (auto simp: prefix_matched [OF False] indexed_def fold_riDel [OF ri] split: if_splits)
  qed
qed (use i ristrettoD(1) [OF ri] in \<open>auto simp: memoryDelete_def memoryIncrement_def indexed_def Let_def split: if_splits\<close>)

lemma calls_indexed: "ristrettoOK ri \<Longrightarrow> indexed ri m \<Longrightarrow> indexed ri (fold (cacheStep ri) calls m)"
  by (induction calls arbitrary: m) (simp_all add: cacheStep_indexed)

lemma map_of_filter_fst: "map_of (filter (\<lambda>e. fst e \<notin> A) xs) k = (if k \<in> A then None else map_of xs k)"
  by (induction xs) auto

text \<open>
  C18. In every state that the calls of the in-process cache and the evictions in the background reach from an empty cache, a deletion by a
  non-empty prefix succeeds; afterwards no key with the prefix has a value or a counter, and every other key is as it was.
\<close>

theorem cache_prefix_purged:
  assumes ri: "ristrettoOK ri" and empty: "\<forall>t k. riGet ri t r k = None" and m: "m = fold (cacheStep ri) calls (NewMemory r)" and p: "p \<noteq> []"
  shows "\<exists>m' n. memoryDeleteByPrefix ri m p = (m', n, None)
    \<and> (\<forall>now k. memoryGet ri now m' k = (m', if has_prefix k p then Inl ErrMiss else snd (memoryGet ri now m k)))
    \<and> (\<forall>k. map_of (mmInc m') k = (if has_prefix k p then None else map_of (mmInc m) k))"
proof -
  let ?ks = "matchedKeys p m"
  have i: "indexed ri m" unfolding m by (rule calls_indexed [OF ri]) (simp add: indexed_def NewMemory_def empty)
  have k: "k \<in> set ?ks \<longleftrightarrow> has_prefix k p \<and> (k \<in> set (mmKeys m) \<or> k \<in> fst ` set (mmInc m))" for k by (auto simp: matchedKeys_def)
  have g: "riGet ri now (fold (\<lambda>k r. riDel ri r k) ?ks (mmStore m)) x = (if has_prefix x p then None else riGet ri now (mmStore m) x)" for now x
    using i k [of x] by (cases "riGet ri now (mmStore m) x") (auto simp: fold_riDel [OF ri] indexed_def)
  have "map_of (filter (\<lambda>e. fst e \<notin> set ?ks) (mmInc m)) x = (if has_prefix x p then None else map_of (mmInc m) x)" for x
    unfolding map_of_filter_fst using k [of x] by (auto simp: map_of_eq_None_iff [symmetric])
  then show ?thesis unfolding prefix_matched [OF p] by (auto simp: memoryGet_def g)
qed

text \<open>A \<open>ristretto\<close> with room for two items, which rejects every other.\<close>

definition tightRistretto :: "(string \<times> string \<times> string) list Ristretto" where
  "tightRistretto = \<lparr>riGet = (\<lambda>now r k. map_of r k),
     riSet = (\<lambda>now r k e cost ttl. if map_of r k = None \<and> length r \<ge> 2 then (r, True, [k]) else (AList.update k e r, True, [])), riDel = (\<lambda>r k. AList.delete k r)\<rparr>"

lemma tight_ok: "ristrettoOK tightRistretto"
  by (auto simp: ristrettoOK_def tightRistretto_def delete_conv' update_conv' split: if_splits)

theorem cache_prefix_purged_witness:
  "\<exists>m' n. memoryDeleteByPrefix tightRistretto (fold (cacheStep tightRistretto) [CallSet 0 ''u:1'' ''a'' 0, CallSet 0 ''v:1'' ''b'' 0, CallSet 0 ''u:2'' ''c'' 0, CallIncrement 0 ''u:n'' 1] (NewMemory [])) ''u:'' = (m', n, None)
    \<and> memoryGet tightRistretto 1 m' ''u:1'' = (m', Inl ErrMiss) \<and> memoryGet tightRistretto 1 m' ''v:1'' = (m', Inr ''b'') \<and> map_of (mmInc m') ''u:n'' = None"
proof -
  let ?calls = "[CallSet 0 ''u:1'' ''a'' 0, CallSet 0 ''v:1'' ''b'' 0, CallSet 0 ''u:2'' ''c'' 0, CallIncrement 0 ''u:n'' 1]"
  have "\<forall>t k. riGet tightRistretto t [] k = None" by (simp add: tightRistretto_def)
  note t = cache_prefix_purged [OF tight_ok this refl, of "''u:''" ?calls]
  have v: "snd (memoryGet tightRistretto 1 (fold (cacheStep tightRistretto) ?calls (NewMemory [])) ''v:1'') = Inr ''b''"
    "has_prefix ''u:1'' ''u:''" "\<not> has_prefix ''v:1'' ''u:''" "has_prefix ''u:n'' ''u:''" by code_simp+
  obtain m' n where "memoryDeleteByPrefix tightRistretto (fold (cacheStep tightRistretto) ?calls (NewMemory [])) ''u:'' = (m', n, None)"
      "\<And>now k. memoryGet tightRistretto now m' k = (m', if has_prefix k ''u:'' then Inl ErrMiss else snd (memoryGet tightRistretto now (fold (cacheStep tightRistretto) ?calls (NewMemory [])) k))"
      "\<And>k. map_of (mmInc m') k = (if has_prefix k ''u:'' then None else map_of (mmInc (fold (cacheStep tightRistretto) ?calls (NewMemory []))) k)"
    using t by blast
  then show ?thesis using v by (intro exI [of _ m'] exI [of _ n]) (simp del: fold_simps)
qed

end
