(* ===== verification/Login_Flow.thy ===== *)
theory Login_Flow
  imports Go_Base "HOL-Library.AList"
begin

text \<open>
  Login flow v2 (\<^verbatim>\<open>src/internal/login/v2.go\<close>, \<^verbatim>\<open>sqlstore.go\<close>): the flow record and its states, the
  store interface with its two implementations, the in-memory maps and the table \<open>login_flows\<close>,
  the service, and the generators of random tokens. Times are nanoseconds since the epoch; what the
  random source delivers is an input. A database that cannot be reached fails every statement
  with its error text; the keys of the table are those of its migration. The background
  goroutine \<open>StartGC\<close> calls \<open>DeleteExpired\<close>, which is a step of the system like any other.
\<close>

section \<open>Flows\<close>

datatype FlowState = StatePending | StateGranted | StateConsumed

datatype login_error =
    ErrFlowNotFound | ErrFlowExpired | ErrFlowPending | ErrFlowConsumed | ErrInvalidState | ErrLogin string

type_synonym 'a login_result = "login_error + 'a"

record Flow =
  flowPollToken :: string
  flowLoginToken :: string
  flowClientName :: string
  flowState :: FlowState
  flowStateToken :: string
  flowServer :: string
  flowLoginName :: string
  flowAppPassword :: string
  flowCreatedAt :: int
  flowExpiresAt :: int

record 'd FlowStore =
  stInsert :: "'d \<Rightarrow> Flow \<Rightarrow> 'd \<times> unit login_result"
  stGetByPoll :: "'d \<Rightarrow> string \<Rightarrow> Flow login_result"
  stGetByLogin :: "'d \<Rightarrow> string \<Rightarrow> Flow login_result"
  stGetByState :: "'d \<Rightarrow> string \<Rightarrow> Flow login_result"
  stUpdate :: "'d \<Rightarrow> Flow \<Rightarrow> 'd \<times> unit login_result"
  stDeleteExpired :: "'d \<Rightarrow> int \<Rightarrow> 'd \<times> int login_result"

definition flowExpired :: "Flow \<Rightarrow> int \<Rightarrow> bool" where
  "flowExpired f now \<longleftrightarrow> flowExpiresAt f \<noteq> zeroTime \<and> now > flowExpiresAt f"

section \<open>MemoryStore\<close>

record FlowMaps =
  byPoll :: "Flow gomap"
  byLogin :: "Flow gomap"
  byState :: "Flow gomap"

definition NewMemoryStore :: FlowMaps where
  "NewMemoryStore = \<lparr>byPoll = [], byLogin = [], byState = []\<rparr>"

definition found :: "Flow gomap \<Rightarrow> string \<Rightarrow> Flow login_result" where
  "found m tok = (case map_of m tok of None \<Rightarrow> Inl ErrFlowNotFound | Some f \<Rightarrow> Inr f)"

definition memInsert :: "FlowMaps \<Rightarrow> Flow \<Rightarrow> FlowMaps \<times> unit login_result" where
  "memInsert d f =
     (if flowPollToken f = [] \<or> flowLoginToken f = [] then (d, Inl (ErrLogin ''login: invalid flow''))
      else (d\<lparr>byPoll := AList.update (flowPollToken f) f (byPoll d),
              byLogin := AList.update (flowLoginToken f) f (byLogin d)\<rparr>, Inr ()))"

definition memUpdate :: "FlowMaps \<Rightarrow> Flow \<Rightarrow> FlowMaps \<times> unit login_result" where
  "memUpdate d f =
     (if flowPollToken f = [] then (d, Inl (ErrLogin ''login: invalid flow''))
      else case map_of (byPoll d) (flowPollToken f) of
          None \<Rightarrow> (d, Inl ErrFlowNotFound)
        | Some cur \<Rightarrow>
            (let st = (if flowStateToken cur \<noteq> [] \<and> flowStateToken cur \<noteq> flowStateToken f
                       then AList.delete (flowStateToken cur) (byState d) else byState d)
             in (d\<lparr>byPoll := AList.update (flowPollToken f) f (byPoll d),
                   byLogin := AList.update (flowLoginToken f) f (byLogin d),
                   byState := (if flowStateToken f \<noteq> [] then AList.update (flowStateToken f) f st else st)\<rparr>, Inr ())))"

definition dropFlow :: "string \<times> Flow \<Rightarrow> FlowMaps \<Rightarrow> FlowMaps" where
  "dropFlow e d = (case e of (tok, f) \<Rightarrow>
     d\<lparr>byPoll := AList.delete tok (byPoll d), byLogin := AList.delete (flowLoginToken f) (byLogin d),
       byState := (if flowStateToken f \<noteq> [] then AList.delete (flowStateToken f) (byState d) else byState d)\<rparr>)"

definition memDeleteExpired :: "FlowMaps \<Rightarrow> int \<Rightarrow> FlowMaps \<times> int login_result" where
  "memDeleteExpired d now =
     (let old = filter (\<lambda>(tok, f). flowExpired f now) (byPoll d)
      in (fold dropFlow old d, Inr (int (length old))))"

definition MemoryStore :: "FlowMaps FlowStore" where
  "MemoryStore = \<lparr>stInsert = memInsert, stGetByPoll = (\<lambda>d. found (byPoll d)), stGetByLogin = (\<lambda>d. found (byLogin d)),
     stGetByState = (\<lambda>d. found (byState d)), stUpdate = memUpdate, stDeleteExpired = memDeleteExpired\<rparr>"

section \<open>SQLStore\<close>

text \<open>A row: \<open>flowStateToken\<close> is the column \<open>state_token\<close>, the times are in milliseconds.\<close>

record flowTable =
  ftRows :: "Flow list"
  ftDown :: "string option"

definition pendingState :: "string \<Rightarrow> string" where
  "pendingState pollToken = ''pending:'' @ pollToken"

definition scanFlow :: "Flow \<Rightarrow> Flow" where
  "scanFlow r =
     (let st = (if has_prefix (flowStateToken r) ''pending:'' then [] else flowStateToken r)
      in r\<lparr>flowStateToken := st, flowCreatedAt := flowCreatedAt r * 1000000, flowExpiresAt := flowExpiresAt r * 1000000\<rparr>)"

definition rowOf :: "Flow \<Rightarrow> Flow" where
  "rowOf f = f\<lparr>flowStateToken := (if flowStateToken f = [] then pendingState (flowPollToken f) else flowStateToken f),
     flowCreatedAt := unix_milli (flowCreatedAt f), flowExpiresAt := unix_milli (flowExpiresAt f)\<rparr>"

definition queryFlow :: "flowTable \<Rightarrow> (Flow \<Rightarrow> bool) \<Rightarrow> Flow login_result" where
  "queryFlow d P = (case ftDown d of
      Some e \<Rightarrow> Inl (ErrLogin e)
    | None \<Rightarrow> (case find P (ftRows d) of None \<Rightarrow> Inl ErrFlowNotFound | Some r \<Rightarrow> Inr (scanFlow r)))"

definition sqlFlowInsert :: "flowTable \<Rightarrow> Flow \<Rightarrow> flowTable \<times> unit login_result" where
  "sqlFlowInsert d f =
     (if flowPollToken f = [] \<or> flowLoginToken f = [] then (d, Inl (ErrLogin ''login: invalid flow''))
      else case ftDown d of
          Some e \<Rightarrow> (d, Inl (ErrLogin (''login: insert: '' @ e)))
        | None \<Rightarrow>
            (let r = rowOf f in
             if list_ex (\<lambda>s. flowPollToken s = flowPollToken r \<or> flowLoginToken s = flowLoginToken r
                  \<or> flowStateToken s = flowStateToken r) (ftRows d)
             then (d, Inl (ErrLogin ''login: insert: unique constraint''))
             else (d\<lparr>ftRows := ftRows d @ [r]\<rparr>, Inr ())))"

text \<open>An update sets every column but the poll token and the creation time.\<close>

definition sqlFlowUpdate :: "flowTable \<Rightarrow> Flow \<Rightarrow> flowTable \<times> unit login_result" where
  "sqlFlowUpdate d f =
     (if flowPollToken f = [] then (d, Inl (ErrLogin ''login: invalid flow''))
      else case ftDown d of
          Some e \<Rightarrow> (d, Inl (ErrLogin (''login: update: '' @ e)))
        | None \<Rightarrow>
            (let r = rowOf f in
             if \<not> list_ex (\<lambda>s. flowPollToken s = flowPollToken f) (ftRows d) then (d, Inl ErrFlowNotFound)
             else if list_ex (\<lambda>s. flowPollToken s \<noteq> flowPollToken f
                  \<and> (flowLoginToken s = flowLoginToken r \<or> flowStateToken s = flowStateToken r)) (ftRows d)
             then (d, Inl (ErrLogin ''login: update: unique constraint''))
             else (d\<lparr>ftRows := map (\<lambda>s. if flowPollToken s = flowPollToken f
                     then r\<lparr>flowCreatedAt := flowCreatedAt s\<rparr> else s) (ftRows d)\<rparr>, Inr ())))"

definition sqlFlowDeleteExpired :: "flowTable \<Rightarrow> int \<Rightarrow> flowTable \<times> int login_result" where
  "sqlFlowDeleteExpired d now = (case ftDown d of
      Some e \<Rightarrow> (d, Inl (ErrLogin (''login: delete expired: '' @ e)))
    | None \<Rightarrow>
        (let old = (\<lambda>r. flowExpiresAt r > 0 \<and> flowExpiresAt r < unix_milli now)
         in (d\<lparr>ftRows := filter (\<lambda>r. \<not> old r) (ftRows d)\<rparr>, Inr (int (length (filter old (ftRows d)))))))"

definition SQLStore :: "flowTable FlowStore" where
  "SQLStore = \<lparr>stInsert = sqlFlowInsert,
     stGetByPoll = (\<lambda>d tok. queryFlow d (\<lambda>r. flowPollToken r = tok)),
     stGetByLogin = (\<lambda>d tok. queryFlow d (\<lambda>r. flowLoginToken r = tok)),
     stGetByState = (\<lambda>d tok. queryFlow d (\<lambda>r. flowStateToken r = tok)),
     stUpdate = sqlFlowUpdate, stDeleteExpired = sqlFlowDeleteExpired\<rparr>"

section \<open>Tokens\<close>

definition TokenLength :: nat where "TokenLength = 128"

definition TokenAlphabet :: string where
  "TokenAlphabet = ''ABCDEFGHIJKLMNOPQRSTUVWXYZabcdefghijklmnopqrstuvwxyz0123456789''"

definition StateTokenLen :: nat where "StateTokenLen = 32"

definition tokenLimit :: nat where
  "tokenLimit = 256 - 256 mod length TokenAlphabet"

text \<open>One buffer of random bytes: the loop body, which ends when the token is full.\<close>

fun fillToken :: "nat \<Rightarrow> string \<Rightarrow> nat list \<Rightarrow> string" where
  "fillToken n out [] = out"
| "fillToken n out (b # buf) =
     (if b \<ge> tokenLimit then fillToken n out buf
      else (let out' = out @ [TokenAlphabet ! (b mod length TokenAlphabet)]
            in if length out' = n then out' else fillToken n out' buf))"

text \<open>
  The reads of the random source, each a buffer of bytes or an error; \<^const>\<open>None\<close> when the loop needs
  another read.
\<close>

fun alphaLoop :: "nat \<Rightarrow> string \<Rightarrow> (string + nat list) list \<Rightarrow> string login_result option" where
  "alphaLoop n out reads =
     (if \<not> length out < n then Some (Inr out)
      else case reads of
          [] \<Rightarrow> None
        | Inl e # _ \<Rightarrow> Some (Inl (ErrLogin (''login: read random: '' @ e)))
        | Inr buf # rest \<Rightarrow> alphaLoop n (fillToken n out buf) rest)"

declare alphaLoop.simps [simp del]

definition generateAlphaToken :: "int \<Rightarrow> (string + nat list) list \<Rightarrow> string login_result option" where
  "generateAlphaToken n reads =
     (if n \<le> 0 then Some (Inl (ErrLogin ''login: token length must be positive''))
      else alphaLoop (nat n) [] reads)"

definition generateHexToken :: "int \<Rightarrow> string + nat list \<Rightarrow> string login_result" where
  "generateHexToken nBytes rd =
     (if nBytes \<le> 0 then Inl (ErrLogin ''login: hex length must be positive'')
      else case rd of
          Inl e \<Rightarrow> Inl (ErrLogin (''login: read random: '' @ e))
        | Inr buf \<Rightarrow> Inr (concat (map (\<lambda>b. [''0123456789abcdef'' ! (b div 16 mod 16), ''0123456789abcdef'' ! (b mod 16)]) buf)))"

section \<open>Service\<close>

definition DefaultTTL :: int where "DefaultTTL = 20 * 60 * 1000000000"

text \<open>\<open>Init\<close> is given the two tokens that the generator returned.\<close>

definition wrapErr :: "string \<Rightarrow> login_error \<Rightarrow> login_error" where
  "wrapErr pre e = (case e of ErrLogin s \<Rightarrow> ErrLogin (pre @ s) | _ \<Rightarrow> e)"

definition Init ::
  "'d FlowStore \<Rightarrow> int \<Rightarrow> string login_result \<Rightarrow> string login_result \<Rightarrow> 'd \<Rightarrow> int \<Rightarrow> string \<Rightarrow> 'd \<times> Flow login_result" where
  "Init st ttl poll login d now clientName = (case poll of
      Inl e \<Rightarrow> (d, Inl (wrapErr ''login: generate poll token: '' e))
    | Inr poll \<Rightarrow> (case login of
        Inl e \<Rightarrow> (d, Inl (wrapErr ''login: generate login token: '' e))
      | Inr login \<Rightarrow>
          (let f = \<lparr>flowPollToken = poll, flowLoginToken = login, flowClientName = clientName,
                    flowState = StatePending, flowStateToken = [], flowServer = [], flowLoginName = [],
                    flowAppPassword = [], flowCreatedAt = now, flowExpiresAt = now + ttl\<rparr>
           in case stInsert st d f of
                (d', Inl e) \<Rightarrow> (d', Inl e)
              | (d', Inr _) \<Rightarrow> (d', Inr f))))"

definition Poll :: "'d FlowStore \<Rightarrow> 'd \<Rightarrow> int \<Rightarrow> string \<Rightarrow> 'd \<times> Flow login_result" where
  "Poll st d now pollToken = (case stGetByPoll st d pollToken of
      Inl e \<Rightarrow> (d, Inl e)
    | Inr f \<Rightarrow>
        if flowExpired f now then (d, Inl ErrFlowExpired)
        else (case flowState f of
            StatePending \<Rightarrow> (d, Inl ErrFlowPending)
          | StateConsumed \<Rightarrow> (d, Inl ErrFlowConsumed)
          | StateGranted \<Rightarrow>
              (let f' = f\<lparr>flowState := StateConsumed\<rparr> in
               case stUpdate st d f' of
                 (d', Inl e) \<Rightarrow> (d', Inl e)
               | (d', Inr _) \<Rightarrow> (d', Inr f'))))"

definition BeginGrant ::
  "'d FlowStore \<Rightarrow> string login_result \<Rightarrow> 'd \<Rightarrow> int \<Rightarrow> string \<Rightarrow> 'd \<times> Flow login_result" where
  "BeginGrant st tok d now loginToken = (case stGetByLogin st d loginToken of
      Inl e \<Rightarrow> (d, Inl e)
    | Inr f \<Rightarrow>
        if flowExpired f now then (d, Inl ErrFlowExpired)
        else if flowState f \<noteq> StatePending then (d, Inl ErrFlowConsumed)
        else (case tok of
            Inl e \<Rightarrow> (d, Inl (wrapErr ''login: generate state token: '' e))
          | Inr t \<Rightarrow>
              (let f' = f\<lparr>flowStateToken := t\<rparr> in
               case stUpdate st d f' of
                 (d', Inl e) \<Rightarrow> (d', Inl e)
               | (d', Inr _) \<Rightarrow> (d', Inr f'))))"

definition LookupState :: "'d FlowStore \<Rightarrow> 'd \<Rightarrow> int \<Rightarrow> string \<Rightarrow> Flow login_result" where
  "LookupState st d now stateToken =
     (if stateToken = [] then Inl ErrInvalidState
      else case stGetByState st d stateToken of
          Inl e \<Rightarrow> Inl e
        | Inr f \<Rightarrow>
            if flowExpired f now then Inl ErrFlowExpired
            else if flowState f \<noteq> StatePending then Inl ErrFlowConsumed
            else Inr f)"

definition Grant ::
  "'d FlowStore \<Rightarrow> 'd \<Rightarrow> int \<Rightarrow> string \<Rightarrow> string \<Rightarrow> string \<Rightarrow> string \<Rightarrow> 'd \<times> Flow login_result" where
  "Grant st d now stateToken server loginName appPassword = (case LookupState st d now stateToken of
      Inl e \<Rightarrow> (d, Inl e)
    | Inr f \<Rightarrow>
        (let f' = f\<lparr>flowState := StateGranted, flowServer := server, flowLoginName := loginName,
                    flowAppPassword := appPassword, flowStateToken := []\<rparr>
         in case stUpdate st d f' of
              (d', Inl e) \<Rightarrow> (d', Inl e)
            | (d', Inr _) \<Rightarrow> (d', Inr f')))"

section \<open>Concurrent calls\<close>

text \<open>
  \<open>Poll\<close>, \<open>BeginGrant\<close> and \<open>Grant\<close> make two calls of the store each, one that reads a flow and one that writes it back, and hold no lock in
  between. What a call has decided after the first: the flow it will write.
\<close>

definition pollGet :: "'d FlowStore \<Rightarrow> 'd \<Rightarrow> int \<Rightarrow> string \<Rightarrow> Flow login_result" where
  "pollGet st d now pollToken = (case stGetByPoll st d pollToken of
      Inl e \<Rightarrow> Inl e
    | Inr f \<Rightarrow>
        if flowExpired f now then Inl ErrFlowExpired
        else (case flowState f of
            StatePending \<Rightarrow> Inl ErrFlowPending
          | StateConsumed \<Rightarrow> Inl ErrFlowConsumed
          | StateGranted \<Rightarrow> Inr (f\<lparr>flowState := StateConsumed\<rparr>)))"

definition beginGet :: "'d FlowStore \<Rightarrow> string login_result \<Rightarrow> 'd \<Rightarrow> int \<Rightarrow> string \<Rightarrow> Flow login_result" where
  "beginGet st tok d now loginToken = (case stGetByLogin st d loginToken of
      Inl e \<Rightarrow> Inl e
    | Inr f \<Rightarrow>
        if flowExpired f now then Inl ErrFlowExpired
        else if flowState f \<noteq> StatePending then Inl ErrFlowConsumed
        else (case tok of
            Inl e \<Rightarrow> Inl (wrapErr ''login: generate state token: '' e)
          | Inr t \<Rightarrow> Inr (f\<lparr>flowStateToken := t\<rparr>)))"

definition grantGet :: "'d FlowStore \<Rightarrow> 'd \<Rightarrow> int \<Rightarrow> string \<Rightarrow> string \<Rightarrow> string \<Rightarrow> string \<Rightarrow> Flow login_result" where
  "grantGet st d now stateToken server loginName appPassword = (case LookupState st d now stateToken of
      Inl e \<Rightarrow> Inl e
    | Inr f \<Rightarrow> Inr (f\<lparr>flowState := StateGranted, flowServer := server, flowLoginName := loginName,
                   flowAppPassword := appPassword, flowStateToken := []\<rparr>))"

definition writeBack :: "'d FlowStore \<Rightarrow> 'd \<Rightarrow> Flow login_result \<Rightarrow> 'd \<times> Flow login_result" where
  "writeBack st d r = (case r of
      Inl e \<Rightarrow> (d, Inl e)
    | Inr f \<Rightarrow> (case stUpdate st d f of (d', Inl e) \<Rightarrow> (d', Inl e) | (d', Inr _) \<Rightarrow> (d', Inr f)))"

text \<open>A call that nothing comes between is the two halves in a row.\<close>

lemma Poll_halves: "Poll st d now tok = writeBack st d (pollGet st d now tok)"
  by (auto simp: Poll_def pollGet_def writeBack_def Let_def split: sum.split FlowState.split)

lemma BeginGrant_halves: "BeginGrant st tok d now l = writeBack st d (beginGet st tok d now l)"
  by (auto simp: BeginGrant_def beginGet_def writeBack_def Let_def split: sum.split)

lemma Grant_halves: "Grant st d now tok server name pw = writeBack st d (grantGet st d now tok server name pw)"
  by (auto simp: Grant_def grantGet_def writeBack_def Let_def split: sum.split)

text \<open>
  The system: the store and the calls between their two halves, each with a mark that says whether it is a \<open>Poll\<close>. The halves of all calls are
  interleaved freely with each other, with \<open>Init\<close> (one call of the store) and with the garbage collector; a call may also end between
  its halves. A step returns the poll tokens of the flows whose credentials it handed out.
\<close>

record 'd loginSystem =
  lgStore :: 'd
  lgCalls :: "(bool \<times> Flow) list"

datatype login_event =
    LgInit int string string int string
  | LgPoll int string
  | LgBeginGrant "string + nat list" int string
  | LgGrant int string string string string
  | LgWrite nat
  | LgAbort nat
  | LgGC int

definition addCall :: "bool \<Rightarrow> Flow login_result \<Rightarrow> 'd loginSystem \<Rightarrow> 'd loginSystem" where
  "addCall isPoll r s = (case r of Inl _ \<Rightarrow> s | Inr f \<Rightarrow> s\<lparr>lgCalls := lgCalls s @ [(isPoll, f)]\<rparr>)"

definition dropCall :: "nat \<Rightarrow> 'd loginSystem \<Rightarrow> 'd loginSystem" where
  "dropCall n s = s\<lparr>lgCalls := take n (lgCalls s) @ drop (Suc n) (lgCalls s)\<rparr>"

definition loginStep :: "'d FlowStore \<Rightarrow> login_event \<Rightarrow> 'd loginSystem \<Rightarrow> 'd loginSystem \<times> string list" where
  "loginStep st e s = (case e of
      LgInit ttl poll login now client \<Rightarrow> (s\<lparr>lgStore := fst (Init st ttl (Inr poll) (Inr login) (lgStore s) now client)\<rparr>, [])
    | LgPoll now tok \<Rightarrow> (addCall True (pollGet st (lgStore s) now tok) s, [])
    | LgBeginGrant rd now tok \<Rightarrow> (addCall False (beginGet st (generateHexToken (int StateTokenLen) rd) (lgStore s) now tok) s, [])
    | LgGrant now tok server name pw \<Rightarrow> (addCall False (grantGet st (lgStore s) now tok server name pw) s, [])
    | LgWrite n \<Rightarrow>
        if n < length (lgCalls s)
        then (case lgCalls s ! n of (isPoll, f) \<Rightarrow> (case writeBack st (lgStore s) (Inr f) of
            (d', r) \<Rightarrow> (dropCall n s\<lparr>lgStore := d'\<rparr>, (case r of Inr g \<Rightarrow> if isPoll then [flowPollToken g] else [] | Inl _ \<Rightarrow> []))))
        else (s, [])
    | LgAbort n \<Rightarrow> (dropCall n s, [])
    | LgGC now \<Rightarrow> (s\<lparr>lgStore := fst (stDeleteExpired st (lgStore s) now)\<rparr>, []))"

fun loginRun :: "'d FlowStore \<Rightarrow> login_event list \<Rightarrow> 'd loginSystem \<Rightarrow> 'd loginSystem \<times> string list" where
  "loginRun st [] s = (s, [])"
| "loginRun st (e # es) s =
     (let (s1, out) = loginStep st e s; (s2, outs) = loginRun st es s1 in (s2, out @ outs))"

end
