(* ===== verification/Login_Laws.thy ===== *)
theory Login_Laws
  imports Login_Flow
begin

text \<open>
  The contract of a flow store as a locale, its interpretations at \<open>MemoryStore\<close> and \<open>SQLStore\<close>, and
  what the service guarantees over any store with the contract: credentials are disclosed once as long as
  calls on one flow do not overlap, and twice when they do.
  A further part shows what \<open>SQLStore\<close> accepts as a state token.
\<close>

section \<open>The contract\<close>

text \<open>\<open>kept f g\<close>: a store keeps everything of a flow but the precision of its times.\<close>

definition kept :: "Flow \<Rightarrow> Flow \<Rightarrow> bool" where
  "kept f g \<longleftrightarrow> g = f\<lparr>flowCreatedAt := flowCreatedAt g, flowExpiresAt := flowExpiresAt g\<rparr>"

lemma kept_sel:
  assumes "kept f g"
  shows "flowPollToken g = flowPollToken f" "flowLoginToken g = flowLoginToken f" "flowState g = flowState f"
    "flowStateToken g = flowStateToken f" "flowAppPassword g = flowAppPassword f" "flowServer g = flowServer f"
    "flowLoginName g = flowLoginName f"
  by (subst assms [unfolded kept_def], simp)+

locale flow_store =
  fixes st :: "'d FlowStore" and inv :: "'d \<Rightarrow> bool" and flows :: "'d \<Rightarrow> string \<Rightarrow> Flow option"
  assumes get_poll: "inv d \<Longrightarrow> stGetByPoll st d t = (case flows d t of None \<Rightarrow> Inl ErrFlowNotFound | Some f \<Rightarrow> Inr f)"
    and poll_key: "inv d \<Longrightarrow> flows d t = Some f \<Longrightarrow> flowPollToken f = t \<and> t \<noteq> []
      \<and> \<not> has_prefix (flowStateToken f) ''pending:''"
    and get_login: "inv d \<Longrightarrow> stGetByLogin st d t = Inr f \<Longrightarrow> flows d (flowPollToken f) = Some f"
    and get_state: "inv d \<Longrightarrow> stGetByState st d t = Inr f \<Longrightarrow> flows d (flowPollToken f) = Some f"
    and insert: "inv d \<Longrightarrow> flows d (flowPollToken f) = None \<Longrightarrow> flowStateToken f = [] \<Longrightarrow> stInsert st d f = (d', r) \<Longrightarrow>
      inv d' \<and> (flows d' = flows d \<or> (\<exists>g. kept f g \<and> flows d' = (flows d)(flowPollToken f \<mapsto> g)))"
    and update: "inv d \<Longrightarrow> flows d (flowPollToken f) = Some cur \<Longrightarrow> flowLoginToken f = flowLoginToken cur \<Longrightarrow>
      \<not> has_prefix (flowStateToken f) ''pending:'' \<Longrightarrow> stUpdate st d f = (d', r) \<Longrightarrow>
      inv d' \<and> (case r of Inl e \<Rightarrow> flows d' = flows d | Inr _ \<Rightarrow> \<exists>g. kept f g \<and> flows d' = (flows d)(flowPollToken f \<mapsto> g))"
    and update_missing: "inv d \<Longrightarrow> flows d (flowPollToken f) = None \<Longrightarrow> stUpdate st d f = (d', r) \<Longrightarrow> d' = d \<and> isl r"
    and delete_expired: "inv d \<Longrightarrow> stDeleteExpired st d now = (d', n) \<Longrightarrow>
      inv d' \<and> (\<forall>t. flows d' t = None \<or> flows d' t = flows d t)"

section \<open>MemoryStore satisfies it\<close>

definition memFlows :: "FlowMaps \<Rightarrow> string \<Rightarrow> Flow option" where
  "memFlows d = map_of (byPoll d)"

text \<open>The three maps index the same flows.\<close>

definition flowIndex :: "(string \<rightharpoonup> Flow) \<Rightarrow> (string \<rightharpoonup> Flow) \<Rightarrow> (string \<rightharpoonup> Flow) \<Rightarrow> bool" where
  "flowIndex P L S \<longleftrightarrow>
     (\<forall>t f. P t = Some f \<longrightarrow> flowPollToken f = t \<and> t \<noteq> [] \<and> \<not> has_prefix (flowStateToken f) ''pending:'')
     \<and> (\<forall>t f. L t = Some f \<longrightarrow> flowLoginToken f = t \<and> P (flowPollToken f) = Some f)
     \<and> (\<forall>t f. S t = Some f \<longrightarrow> flowStateToken f = t \<and> t \<noteq> [] \<and> P (flowPollToken f) = Some f)"

definition memFlowInv :: "FlowMaps \<Rightarrow> bool" where
  "memFlowInv d \<longleftrightarrow> distinct (map fst (byPoll d)) \<and> flowIndex (map_of (byPoll d)) (map_of (byLogin d)) (map_of (byState d))"

lemma kept_refl: "kept f f"
  by (simp add: kept_def)

lemma flowIndexD:
  assumes "flowIndex P L S"
  shows "P t = Some f \<Longrightarrow> flowPollToken f = t \<and> t \<noteq> [] \<and> \<not> has_prefix (flowStateToken f) ''pending:''"
    and "L t = Some f \<Longrightarrow> flowLoginToken f = t \<and> P (flowPollToken f) = Some f"
    and "S t = Some f \<Longrightarrow> flowStateToken f = t \<and> t \<noteq> [] \<and> P (flowPollToken f) = Some f"
  using assms by (auto simp: flowIndex_def)

lemma flowIndexI:
  assumes "\<And>t f. P t = Some f \<Longrightarrow> flowPollToken f = t \<and> t \<noteq> [] \<and> \<not> has_prefix (flowStateToken f) ''pending:''"
    and "\<And>t f. L t = Some f \<Longrightarrow> flowLoginToken f = t \<and> P (flowPollToken f) = Some f"
    and "\<And>t f. S t = Some f \<Longrightarrow> flowStateToken f = t \<and> t \<noteq> [] \<and> P (flowPollToken f) = Some f"
  shows "flowIndex P L S"
  using assms by (simp add: flowIndex_def)

lemma flowIndex_insert:
  assumes "flowIndex P L S" and "P (flowPollToken f) = None" and "flowPollToken f \<noteq> []" and "flowStateToken f = []"
  shows "flowIndex (P(flowPollToken f \<mapsto> f)) (L(flowLoginToken f \<mapsto> f)) S"
proof -
  have "flowPollToken g \<noteq> flowPollToken f" if "L t = Some g \<or> S t = Some g" for t g
    using flowIndexD [OF assms(1)] that assms(2) by (metis option.distinct(1))
  then show ?thesis using flowIndexD [OF assms(1)] assms(3,4)
    unfolding flowIndex_def by (simp add: fun_upd_def) blast
qed

lemma flowIndex_update:
  assumes i: "flowIndex P L S" and c: "P (flowPollToken f) = Some cur" and l: "flowLoginToken f = flowLoginToken cur"
    and s: "\<not> has_prefix (flowStateToken f) ''pending:''"
    and S1: "\<And>t g. S1 t = Some g \<Longrightarrow> S t = Some g \<and> (t = flowStateToken cur \<longrightarrow> t = flowStateToken f)"
  shows "flowIndex (P(flowPollToken f \<mapsto> f)) (L(flowLoginToken f \<mapsto> f))
    (if flowStateToken f \<noteq> [] then S1(flowStateToken f \<mapsto> f) else S1)"
proof -
  let ?p = "flowPollToken f" and ?st = "flowStateToken f"
  have S: "flowStateToken g = t \<and> t \<noteq> [] \<and> P (flowPollToken g) = Some g \<and> flowPollToken g \<noteq> ?p"
    if "S1 t = Some g" "t \<noteq> ?st" for t g
  proof -
    have t: "flowStateToken g = t" "t \<noteq> []" "P (flowPollToken g) = Some g" "t \<noteq> flowStateToken cur"
      using i S1 [OF that(1)] that(2) by (auto simp: flowIndex_def)
    then show ?thesis using c by auto
  qed
  have L: "flowLoginToken g = t \<and> P (flowPollToken g) = Some g \<and> flowPollToken g \<noteq> ?p"
    if "L t = Some g" "t \<noteq> flowLoginToken f" for t g
    using flowIndexD(2) [OF i that(1)] c l that(2) by auto
  have nil: "S1 [] = None" using flowIndexD(3) [OF i, of "[]"] S1 [of "[]"] by (cases "S1 []") auto
  show ?thesis
  proof (rule flowIndexI)
    fix t g
    show "flowPollToken g = t \<and> t \<noteq> [] \<and> \<not> has_prefix (flowStateToken g) ''pending:''" if "(P(?p \<mapsto> f)) t = Some g"
      using i s c that by (auto simp: flowIndex_def split: if_splits)
    show "flowLoginToken g = t \<and> (P(?p \<mapsto> f)) (flowPollToken g) = Some g" if "(L(flowLoginToken f \<mapsto> f)) t = Some g"
      using that L by (auto split: if_splits)
    show "flowStateToken g = t \<and> t \<noteq> [] \<and> (P(?p \<mapsto> f)) (flowPollToken g) = Some g"
      if "(if ?st \<noteq> [] then S1(?st \<mapsto> f) else S1) t = Some g"
      using that S nil by (cases "t = ?st") (auto split: if_splits)
  qed
qed

lemma flowIndex_drop:
  assumes "flowIndex P L S" and "\<And>t f. (t, f) \<in> E \<Longrightarrow> P t = Some f"
  shows "flowIndex (\<lambda>t. if t \<in> fst ` E then None else P t)
    (\<lambda>t. if t \<in> flowLoginToken ` snd ` E then None else L t)
    (\<lambda>t. if t \<in> flowStateToken ` snd ` E \<and> t \<noteq> [] then None else S t)"
proof -
  have key: "f \<in> snd ` E" if "P (flowPollToken f) = Some f" "flowPollToken f \<in> fst ` E" for f
    using that assms(2) by (force simp: image_iff)
  show ?thesis
  proof (rule flowIndexI)
    fix t f
    show "flowPollToken f = t \<and> t \<noteq> [] \<and> \<not> has_prefix (flowStateToken f) ''pending:''"
      if "(if t \<in> fst ` E then None else P t) = Some f"
      using assms(1) that by (simp add: flowIndex_def split: if_splits)
    show "flowLoginToken f = t \<and> (if flowPollToken f \<in> fst ` E then None else P (flowPollToken f)) = Some f"
      if "(if t \<in> flowLoginToken ` snd ` E then None else L t) = Some f"
    proof -
      have t: "t \<notin> flowLoginToken ` snd ` E" "L t = Some f" using that by (simp_all split: if_splits)
      have f: "flowLoginToken f = t" "P (flowPollToken f) = Some f" using flowIndexD(2) [OF assms(1) t(2)] by auto
      then have "flowPollToken f \<notin> fst ` E" using key [OF f(2)] t(1) by blast
      then show ?thesis using f by simp
    qed
    show "flowStateToken f = t \<and> t \<noteq> [] \<and> (if flowPollToken f \<in> fst ` E then None else P (flowPollToken f)) = Some f"
      if "(if t \<in> flowStateToken ` snd ` E \<and> t \<noteq> [] then None else S t) = Some f"
    proof -
      have t: "t \<notin> flowStateToken ` snd ` E \<or> t = []" "S t = Some f" using that by (simp_all split: if_splits)
      have f: "flowStateToken f = t" "t \<noteq> []" "P (flowPollToken f) = Some f" using flowIndexD(3) [OF assms(1) t(2)] by auto
      then have "flowPollToken f \<notin> fst ` E" using key [OF f(3)] t(1) by blast
      then show ?thesis using f by simp
    qed
  qed
qed

lemma memInsert_ok:
  assumes i: "memFlowInv d" and n: "memFlows d (flowPollToken f) = None" and s: "flowStateToken f = []"
    and ins: "memInsert d f = (d', r)"
  shows "memFlowInv d' \<and> (memFlows d' = memFlows d \<or> memFlows d' = (memFlows d)(flowPollToken f \<mapsto> f))"
proof (cases "flowPollToken f = [] \<or> flowLoginToken f = []")
  case True
  then show ?thesis using i ins by (auto simp: memInsert_def)
next
  case False
  then show ?thesis
    using i n s ins flowIndex_insert [of "map_of (byPoll d)" "map_of (byLogin d)" "map_of (byState d)" f]
    by (auto simp: memInsert_def memFlowInv_def memFlows_def update_conv' distinct_update)
qed

lemma memUpdate_ok:
  assumes i: "memFlowInv d" and c: "memFlows d (flowPollToken f) = Some cur"
    and l: "flowLoginToken f = flowLoginToken cur" and s: "\<not> has_prefix (flowStateToken f) ''pending:''"
    and u: "memUpdate d f = (d', r)"
  shows "memFlowInv d' \<and> r = Inr () \<and> memFlows d' = (memFlows d)(flowPollToken f \<mapsto> f)"
proof -
  let ?st = "if flowStateToken cur \<noteq> [] \<and> flowStateToken cur \<noteq> flowStateToken f
      then AList.delete (flowStateToken cur) (byState d) else byState d"
  have x: "flowIndex (map_of (byPoll d)) (map_of (byLogin d)) (map_of (byState d))" using i by (simp add: memFlowInv_def)
  have p: "flowPollToken f \<noteq> []" using x c by (auto simp: flowIndex_def memFlows_def)
  then have d': "d' = d\<lparr>byPoll := AList.update (flowPollToken f) f (byPoll d),
      byLogin := AList.update (flowLoginToken f) f (byLogin d),
      byState := (if flowStateToken f \<noteq> [] then AList.update (flowStateToken f) f ?st else ?st)\<rparr>" and r: "r = Inr ()"
    using u c by (auto simp: memUpdate_def memFlows_def Let_def)
  have st: "map_of ?st t = Some g \<Longrightarrow> map_of (byState d) t = Some g \<and> (t = flowStateToken cur \<longrightarrow> t = flowStateToken f)" for t g
    using x by (auto simp: delete_conv' flowIndex_def split: if_splits)
  have m: "map_of (byState d') = (if flowStateToken f \<noteq> [] then (map_of ?st)(flowStateToken f \<mapsto> f) else map_of ?st)"
    unfolding d' by (cases "flowStateToken f = []") (simp_all add: update_conv')
  have pl: "map_of (byPoll d') = (map_of (byPoll d))(flowPollToken f \<mapsto> f)"
    "map_of (byLogin d') = (map_of (byLogin d))(flowLoginToken f \<mapsto> f)"
    unfolding d' by (simp_all add: update_conv')
  have "flowIndex (map_of (byPoll d')) (map_of (byLogin d')) (map_of (byState d'))"
    unfolding pl m by (rule flowIndex_update [OF x _ l s st]) (use c in \<open>simp_all add: memFlows_def\<close>)
  moreover have "distinct (map fst (byPoll d'))" unfolding d' using i by (simp add: memFlowInv_def distinct_update)
  ultimately show ?thesis using r pl by (simp add: memFlowInv_def memFlows_def)
qed

lemma fold_dropFlow:
  "map_of (byPoll (fold dropFlow es d)) = (\<lambda>t. if t \<in> fst ` set es then None else map_of (byPoll d) t)"
  "map_of (byLogin (fold dropFlow es d)) = (\<lambda>t. if t \<in> flowLoginToken ` snd ` set es then None else map_of (byLogin d) t)"
  "map_of (byState (fold dropFlow es d)) =
     (\<lambda>t. if t \<in> flowStateToken ` snd ` set es \<and> t \<noteq> [] then None else map_of (byState d) t)"
  "distinct (map fst (byPoll d)) \<Longrightarrow> distinct (map fst (byPoll (fold dropFlow es d)))"
  by (induction es arbitrary: d)
    (auto simp: fun_eq_iff dropFlow_def delete_conv' distinct_delete split: prod.splits)

lemma memDeleteExpired_ok:
  assumes i: "memFlowInv d" and del: "memDeleteExpired d now = (d', r)"
  shows "memFlowInv d' \<and> (\<forall>t. memFlows d' t = None \<or> memFlows d' t = memFlows d t)"
proof -
  let ?es = "filter (\<lambda>(tok, f). flowExpired f now) (byPoll d)"
  have d': "d' = fold dropFlow ?es d" using del by (simp add: memDeleteExpired_def Let_def)
  have es: "(t, f) \<in> set ?es \<Longrightarrow> map_of (byPoll d) t = Some f" for t f
    using i by (auto simp: memFlowInv_def)
  have "flowIndex (map_of (byPoll d')) (map_of (byLogin d')) (map_of (byState d'))"
    unfolding d' fold_dropFlow(1-3) by (rule flowIndex_drop) (use i es in \<open>auto simp: memFlowInv_def\<close>)
  then have "memFlowInv d'" using i fold_dropFlow(4) [of d ?es] d' by (simp add: memFlowInv_def)
  then show ?thesis by (simp add: memFlows_def d' fold_dropFlow)
qed

interpretation memflow: flow_store MemoryStore memFlowInv memFlows
proof
  fix d d' :: FlowMaps and t f cur r now and n :: "int login_result"
  assume i: "memFlowInv d"
  show "stGetByPoll MemoryStore d t = (case memFlows d t of None \<Rightarrow> Inl ErrFlowNotFound | Some f \<Rightarrow> Inr f)"
    by (simp add: MemoryStore_def found_def memFlows_def)
  show "memFlows d t = Some f \<Longrightarrow> flowPollToken f = t \<and> t \<noteq> [] \<and> \<not> has_prefix (flowStateToken f) ''pending:''"
    using i by (simp add: memFlowInv_def flowIndex_def memFlows_def)
  show "stGetByLogin MemoryStore d t = Inr f \<Longrightarrow> memFlows d (flowPollToken f) = Some f"
    using i by (simp add: MemoryStore_def found_def memFlowInv_def flowIndex_def memFlows_def split: option.splits)
  show "stGetByState MemoryStore d t = Inr f \<Longrightarrow> memFlows d (flowPollToken f) = Some f"
    using i by (simp add: MemoryStore_def found_def memFlowInv_def flowIndex_def memFlows_def split: option.splits)
  show "memFlows d (flowPollToken f) = None \<Longrightarrow> flowStateToken f = [] \<Longrightarrow> stInsert MemoryStore d f = (d', r) \<Longrightarrow>
      memFlowInv d' \<and> (memFlows d' = memFlows d \<or> (\<exists>g. kept f g \<and> memFlows d' = (memFlows d)(flowPollToken f \<mapsto> g)))"
    using memInsert_ok [OF i] kept_refl by (simp add: MemoryStore_def) blast
  show "memFlows d (flowPollToken f) = Some cur \<Longrightarrow> flowLoginToken f = flowLoginToken cur \<Longrightarrow>
      \<not> has_prefix (flowStateToken f) ''pending:'' \<Longrightarrow> stUpdate MemoryStore d f = (d', r) \<Longrightarrow>
      memFlowInv d' \<and> (case r of Inl e \<Rightarrow> memFlows d' = memFlows d
        | Inr _ \<Rightarrow> \<exists>g. kept f g \<and> memFlows d' = (memFlows d)(flowPollToken f \<mapsto> g))"
    using memUpdate_ok [OF i, of f cur d' r] kept_refl by (auto simp: MemoryStore_def)
  show "memFlows d (flowPollToken f) = None \<Longrightarrow> stUpdate MemoryStore d f = (d', r) \<Longrightarrow> d' = d \<and> isl r"
    by (auto simp: MemoryStore_def memUpdate_def memFlows_def split: if_splits)
  show "stDeleteExpired MemoryStore d now = (d', n) \<Longrightarrow>
      memFlowInv d' \<and> (\<forall>t. memFlows d' t = None \<or> memFlows d' t = memFlows d t)"
    using memDeleteExpired_ok [OF i, of now d' n] by (simp add: MemoryStore_def)
qed

section \<open>SQLStore satisfies it\<close>

definition sqlFlows :: "flowTable \<Rightarrow> string \<Rightarrow> Flow option" where
  "sqlFlows d t = map_option scanFlow (find (\<lambda>r. flowPollToken r = t) (ftRows d))"

definition rowOK :: "Flow \<Rightarrow> bool" where
  "rowOK r \<longleftrightarrow> flowPollToken r \<noteq> []
     \<and> (flowStateToken r = pendingState (flowPollToken r) \<or> \<not> has_prefix (flowStateToken r) ''pending:'')"

definition sqlFlowInv :: "flowTable \<Rightarrow> bool" where
  "sqlFlowInv d \<longleftrightarrow> ftDown d = None \<and> distinct (map flowPollToken (ftRows d)) \<and> list_all rowOK (ftRows d)"

lemma has_prefix_pending: "has_prefix (pendingState t) ''pending:''"
  by (simp add: pendingState_def)

lemma scanFlow_sel [simp]:
  "flowPollToken (scanFlow r) = flowPollToken r" "flowLoginToken (scanFlow r) = flowLoginToken r"
  "flowState (scanFlow r) = flowState r" "\<not> has_prefix (flowStateToken (scanFlow r)) ''pending:''"
  "flowAppPassword (scanFlow r) = flowAppPassword r"
  by (simp_all add: scanFlow_def Let_def)

lemma rowOf_sel [simp]:
  "flowPollToken (rowOf f) = flowPollToken f" "flowLoginToken (rowOf f) = flowLoginToken f"
  by (simp_all add: rowOf_def)

lemma scan_rowOf:
  assumes "\<not> has_prefix (flowStateToken f) ''pending:''"
  shows "kept f (scanFlow ((rowOf f)\<lparr>flowCreatedAt := c\<rparr>))"
  using assms has_prefix_pending [of "flowPollToken f"]
  by (cases f) (simp add: kept_def scanFlow_def rowOf_def Let_def)

lemma rowOK_rowOf:
  assumes "\<not> has_prefix (flowStateToken f) ''pending:''" and "flowPollToken f \<noteq> []"
  shows "rowOK (rowOf f)" and "rowOK ((rowOf f)\<lparr>flowCreatedAt := c\<rparr>)"
  using assms by (simp_all add: rowOK_def rowOf_def)

lemma sqlFlows_Some:
  assumes "sqlFlowInv d"
  shows "sqlFlows d t = Some f \<longleftrightarrow> (\<exists>r \<in> set (ftRows d). flowPollToken r = t \<and> f = scanFlow r)"
  using find_key [of flowPollToken "ftRows d" t] assms
  by (auto simp: sqlFlows_def sqlFlowInv_def)

lemma queryFlow_flow:
  assumes "sqlFlowInv d" and "queryFlow d P = Inr f"
  shows "sqlFlows d (flowPollToken f) = Some f" and "\<exists>r \<in> set (ftRows d). P r \<and> f = scanFlow r"
  using assms sqlFlows_Some [OF assms(1)]
  by (auto simp: queryFlow_def sqlFlowInv_def dest!: find_SomeD split: option.splits)

lemma sqlFlowInsert_ok:
  assumes i: "sqlFlowInv d" and s: "flowStateToken f = []" and ins: "sqlFlowInsert d f = (d', r)"
  shows "sqlFlowInv d' \<and> (sqlFlows d' = sqlFlows d \<or> (\<exists>g. kept f g \<and> sqlFlows d' = (sqlFlows d)(flowPollToken f \<mapsto> g)))"
proof (cases "d' = d")
  case True
  then show ?thesis using i by simp
next
  case False
  then have d': "d' = d\<lparr>ftRows := ftRows d @ [rowOf f]\<rparr>" and p: "flowPollToken f \<noteq> []"
    and new: "\<forall>s \<in> set (ftRows d). flowPollToken s \<noteq> flowPollToken f"
    using ins by (auto simp: sqlFlowInsert_def Let_def list_ex_iff split: option.splits if_splits)
  have "sqlFlowInv d'" using i new rowOK_rowOf(1) [of f] p s by (auto simp: sqlFlowInv_def d')
  moreover have "find (\<lambda>r. flowPollToken r = flowPollToken f) (ftRows d) = None" using new by (simp add: find_None_iff)
  then have "sqlFlows d' = (sqlFlows d)(flowPollToken f \<mapsto> scanFlow (rowOf f))"
    by (auto simp: sqlFlows_def d' find_snoc fun_eq_iff split: option.split)
  moreover have "kept f (scanFlow (rowOf f))" using scan_rowOf [of f "flowCreatedAt (rowOf f)"] s by simp
  ultimately show ?thesis by blast
qed

lemma sqlFlowUpdate_ok:
  assumes i: "sqlFlowInv d" and s: "\<not> has_prefix (flowStateToken f) ''pending:''" and u: "sqlFlowUpdate d f = (d', r)"
  shows "sqlFlowInv d' \<and> (case r of Inl e \<Rightarrow> sqlFlows d' = sqlFlows d
    | Inr _ \<Rightarrow> \<exists>g. kept f g \<and> sqlFlows d' = (sqlFlows d)(flowPollToken f \<mapsto> g))"
proof (cases r)
  case (Inl e)
  then have "d' = d" using u by (auto simp: sqlFlowUpdate_def Let_def split: option.splits if_splits)
  then show ?thesis using i Inl by simp
next
  case (Inr x)
  let ?u = "\<lambda>s. if flowPollToken s = flowPollToken f then (rowOf f)\<lparr>flowCreatedAt := flowCreatedAt s\<rparr> else s"
  have d': "d' = d\<lparr>ftRows := map ?u (ftRows d)\<rparr>" and p: "flowPollToken f \<noteq> []"
    and ex: "\<exists>s \<in> set (ftRows d). flowPollToken s = flowPollToken f"
    using u Inr by (auto simp: sqlFlowUpdate_def Let_def list_ex_iff split: option.splits if_splits)
  have same: "flowPollToken (?u s) = flowPollToken s" for s by simp
  have "sqlFlowInv d'"
    using i rowOK_rowOf(2) [OF s p] same by (auto simp: sqlFlowInv_def d' comp_def list_all_iff)
  moreover obtain s0 where s0: "find (\<lambda>r. flowPollToken r = flowPollToken f) (ftRows d) = Some s0" "flowPollToken s0 = flowPollToken f"
    using ex find_None_iff [of "\<lambda>r. flowPollToken r = flowPollToken f" "ftRows d"]
    by (cases "find (\<lambda>r. flowPollToken r = flowPollToken f) (ftRows d)") (auto dest: find_SomeD)
  have "sqlFlows d' = (sqlFlows d)(flowPollToken f \<mapsto> scanFlow (?u s0))"
  proof
    fix t
    have "sqlFlows d' t = map_option scanFlow (map_option ?u (find (\<lambda>r. flowPollToken r = t) (ftRows d)))"
      unfolding sqlFlows_def d' by (subst find_map_same [symmetric]) (simp_all add: same)
    moreover have "t \<noteq> flowPollToken f \<Longrightarrow> map_option ?u (find (\<lambda>r. flowPollToken r = t) (ftRows d))
        = find (\<lambda>r. flowPollToken r = t) (ftRows d)"
      by (cases "find (\<lambda>r. flowPollToken r = t) (ftRows d)") (auto dest!: find_SomeD)
    ultimately show "sqlFlows d' t = ((sqlFlows d)(flowPollToken f \<mapsto> scanFlow (?u s0))) t"
      using s0 by (cases "t = flowPollToken f") (simp_all add: sqlFlows_def)
  qed
  moreover have "kept f (scanFlow (?u s0))" using scan_rowOf [OF s] s0(2) by simp
  ultimately have "sqlFlowInv d' \<and> (\<exists>g. kept f g \<and> sqlFlows d' = (sqlFlows d)(flowPollToken f \<mapsto> g))" by blast
  then show ?thesis using Inr by simp
qed

lemma sqlFlowDelete_ok:
  assumes i: "sqlFlowInv d" and del: "sqlFlowDeleteExpired d now = (d', n)"
  shows "sqlFlowInv d' \<and> (\<forall>t. sqlFlows d' t = None \<or> sqlFlows d' t = sqlFlows d t)"
proof -
  obtain Q where d': "d' = d\<lparr>ftRows := filter Q (ftRows d)\<rparr>"
    using i del by (auto simp: sqlFlowDeleteExpired_def sqlFlowInv_def Let_def)
  have "sqlFlowInv d'" using i by (auto simp: sqlFlowInv_def d' distinct_map_filter list_all_iff)
  moreover have "sqlFlows d' t = None \<or> sqlFlows d' t = sqlFlows d t" for t
    using find_filter_key [of flowPollToken "ftRows d" t Q] i
    by (cases "find (\<lambda>r. flowPollToken r = t) (ftRows d)") (auto simp: sqlFlows_def d' sqlFlowInv_def)
  ultimately show ?thesis by blast
qed

interpretation sqlflow: flow_store SQLStore sqlFlowInv sqlFlows
proof
  fix d d' :: flowTable and t f cur r now and n :: "int login_result"
  assume i: "sqlFlowInv d"
  show "stGetByPoll SQLStore d t = (case sqlFlows d t of None \<Rightarrow> Inl ErrFlowNotFound | Some f \<Rightarrow> Inr f)"
    using i by (simp add: SQLStore_def queryFlow_def sqlFlows_def sqlFlowInv_def split: option.split)
  show "sqlFlows d t = Some f \<Longrightarrow> flowPollToken f = t \<and> t \<noteq> [] \<and> \<not> has_prefix (flowStateToken f) ''pending:''"
    using i sqlFlows_Some [OF i] by (auto simp: sqlFlowInv_def list_all_iff rowOK_def)
  show "stGetByLogin SQLStore d t = Inr f \<Longrightarrow> sqlFlows d (flowPollToken f) = Some f"
    using queryFlow_flow(1) [OF i] by (simp add: SQLStore_def)
  show "stGetByState SQLStore d t = Inr f \<Longrightarrow> sqlFlows d (flowPollToken f) = Some f"
    using queryFlow_flow(1) [OF i] by (simp add: SQLStore_def)
  show "flowStateToken f = [] \<Longrightarrow> stInsert SQLStore d f = (d', r) \<Longrightarrow>
      sqlFlowInv d' \<and> (sqlFlows d' = sqlFlows d \<or> (\<exists>g. kept f g \<and> sqlFlows d' = (sqlFlows d)(flowPollToken f \<mapsto> g)))"
    using sqlFlowInsert_ok [OF i] by (simp add: SQLStore_def)
  show "\<not> has_prefix (flowStateToken f) ''pending:'' \<Longrightarrow> stUpdate SQLStore d f = (d', r) \<Longrightarrow>
      sqlFlowInv d' \<and> (case r of Inl e \<Rightarrow> sqlFlows d' = sqlFlows d
        | Inr _ \<Rightarrow> \<exists>g. kept f g \<and> sqlFlows d' = (sqlFlows d)(flowPollToken f \<mapsto> g))"
    using sqlFlowUpdate_ok [OF i] by (simp add: SQLStore_def)
  show "sqlFlows d (flowPollToken f) = None \<Longrightarrow> stUpdate SQLStore d f = (d', r) \<Longrightarrow> d' = d \<and> isl r"
    using i by (auto simp: SQLStore_def sqlFlowUpdate_def sqlFlows_def sqlFlowInv_def find_None_iff list_ex_iff split: if_splits)
  show "stDeleteExpired SQLStore d now = (d', n) \<Longrightarrow>
      sqlFlowInv d' \<and> (\<forall>t. sqlFlows d' t = None \<or> sqlFlows d' t = sqlFlows d t)"
    using sqlFlowDelete_ok [OF i] by (simp add: SQLStore_def)
qed

section \<open>Interleaved calls\<close>

text \<open>The poll tokens of the flows that a run of events opens.\<close>

definition initTokens :: "login_event list \<Rightarrow> string list" where
  "initTokens es = concat (map (\<lambda>e. case e of LgInit ttl poll login now client \<Rightarrow> [poll] | _ \<Rightarrow> []) es)"

text \<open>The calls on a flow that have read it and not written it yet, and runs in which there is never more than one of them.\<close>

definition callsOn :: "string \<Rightarrow> 'd loginSystem \<Rightarrow> nat" where
  "callsOn t s = length (filter (\<lambda>c. flowPollToken (snd c) = t) (lgCalls s))"

fun oneAtATime :: "'d FlowStore \<Rightarrow> string \<Rightarrow> login_event list \<Rightarrow> 'd loginSystem \<Rightarrow> bool" where
  "oneAtATime st t [] s \<longleftrightarrow> callsOn t s \<le> 1"
| "oneAtATime st t (e # es) s \<longleftrightarrow> callsOn t s \<le> 1 \<and> oneAtATime st t es (fst (loginStep st e s))"

lemma initTokens_split: "initTokens (e # es) = initTokens [e] @ initTokens es"
  by (simp add: initTokens_def)

lemma hex_token_not_pending:
  assumes "generateHexToken n rd = Inr t" shows "\<not> has_prefix t ''pending:''"
proof -
  have hex: "''0123456789abcdef'' ! k \<noteq> CHR ''p''" if "k < 16" for k
  proof -
    have "''0123456789abcdef'' ! k \<in> set ''0123456789abcdef''" by (rule nth_mem) (use that in simp)
    then show ?thesis by auto
  qed
  show ?thesis
  proof (cases rd)
    case (Inr buf)
    then show ?thesis using assms hex [of "hd buf div 16 mod 16"]
      by (cases buf) (auto simp: generateHexToken_def split: if_splits)
  qed (use assms in \<open>auto simp: generateHexToken_def split: if_splits\<close>)
qed

lemma filter_drop_nth:
  assumes "n < length xs"
  shows "filter P xs = filter P (take n xs) @ (if P (xs ! n) then [xs ! n] else []) @ filter P (drop (Suc n) xs)"
  by (subst id_take_nth_drop [OF assms]) simp

lemma dropCall_set: "set (lgCalls (dropCall n s)) \<subseteq> set (lgCalls s)"
  by (auto simp: dropCall_def dest: in_set_takeD in_set_dropD)

lemma dropCall_on:
  assumes "n < length (lgCalls s)" and "flowPollToken (snd (lgCalls s ! n)) = t" and "callsOn t s \<le> 1"
  shows "c \<in> set (lgCalls (dropCall n s)) \<Longrightarrow> flowPollToken (snd c) \<noteq> t"
proof -
  have "length (filter (\<lambda>c. flowPollToken (snd c) = t) (lgCalls (dropCall n s))) = 0"
    using assms filter_drop_nth [OF assms(1), of "\<lambda>c. flowPollToken (snd c) = t"] by (simp add: callsOn_def dropCall_def)
  then show "c \<in> set (lgCalls (dropCall n s)) \<Longrightarrow> flowPollToken (snd c) \<noteq> t" by (auto simp: filter_empty_conv)
qed

text \<open>A token whose flow is gone or consumed discloses nothing any more.\<close>

definition spent :: "Flow option \<Rightarrow> bool" where
  "spent x \<longleftrightarrow> (case x of None \<Rightarrow> True | Some f \<Rightarrow> flowState f = StateConsumed)"

context flow_store
begin

text \<open>What a call may have read: a flow of the store that is not consumed. It writes it under the same tokens.\<close>

definition reads :: "'d \<Rightarrow> bool \<Rightarrow> Flow \<Rightarrow> bool" where
  "reads d isPoll f \<longleftrightarrow> (\<exists>g. flows d (flowPollToken f) = Some g \<and> flowState g \<noteq> StateConsumed \<and> flowLoginToken f = flowLoginToken g)
     \<and> \<not> has_prefix (flowStateToken f) ''pending:'' \<and> (isPoll \<longrightarrow> flowState f = StateConsumed)"

lemma pollGet_reads: "inv d \<Longrightarrow> pollGet st d now tok = Inr f \<Longrightarrow> reads d True f"
  by (auto simp: pollGet_def get_poll reads_def dest!: poll_key split: option.splits if_splits FlowState.splits)

lemma beginGet_reads:
  assumes "inv d" and "beginGet st (generateHexToken n rd) d now l = Inr f" shows "reads d False f"
proof -
  obtain g t where g: "stGetByLogin st d l = Inr g" "flowState g = StatePending" "generateHexToken n rd = Inr t" "f = g\<lparr>flowStateToken := t\<rparr>"
    using assms(2) by (auto simp: beginGet_def split: sum.splits if_splits)
  then show ?thesis using get_login [OF assms(1) g(1)] hex_token_not_pending [OF g(3)] by (simp add: reads_def)
qed

lemma grantGet_reads:
  assumes "inv d" and "grantGet st d now tok server name pw = Inr f" shows "reads d False f"
proof -
  obtain g where g: "stGetByState st d tok = Inr g" "flowState g = StatePending"
      "f = g\<lparr>flowState := StateGranted, flowServer := server, flowLoginName := name, flowAppPassword := pw, flowStateToken := []\<rparr>"
    using assms(2) by (auto simp: grantGet_def LookupState_def split: sum.splits if_splits)
  then show ?thesis using get_state [OF assms(1) g(1)] by (simp add: reads_def)
qed

lemma Init_change:
  assumes i: "inv d" and n: "flows d poll = None"
  shows "inv (fst (Init st ttl (Inr poll) (Inr login) d now c))
    \<and> (\<forall>t. t \<noteq> poll \<longrightarrow> flows (fst (Init st ttl (Inr poll) (Inr login) d now c)) t = flows d t)"
proof -
  let ?f = "\<lparr>flowPollToken = poll, flowLoginToken = login, flowClientName = c, flowState = StatePending,
      flowStateToken = [], flowServer = [], flowLoginName = [], flowAppPassword = [], flowCreatedAt = now, flowExpiresAt = now + ttl\<rparr>"
  obtain d' r where ins: "stInsert st d ?f = (d', r)" by (cases "stInsert st d ?f")
  then show ?thesis using insert [OF i _ _ ins] n by (auto simp: Init_def split: sum.splits)
qed

text \<open>
  The invariant: tokens of flows that are still to be opened (\<open>T\<close>) are unused, and a call between its halves will write a flow under the
  tokens it was read with.
\<close>

definition callOK :: "string set \<Rightarrow> 'd \<Rightarrow> bool \<times> Flow \<Rightarrow> bool" where
  "callOK T d c \<longleftrightarrow> (case c of (isPoll, f) \<Rightarrow> flowPollToken f \<notin> T \<and> \<not> has_prefix (flowStateToken f) ''pending:''
     \<and> (isPoll \<longrightarrow> flowState f = StateConsumed) \<and> (\<forall>g. flows d (flowPollToken f) = Some g \<longrightarrow> flowLoginToken f = flowLoginToken g))"

definition loginInv :: "string set \<Rightarrow> 'd loginSystem \<Rightarrow> bool" where
  "loginInv T s \<longleftrightarrow> inv (lgStore s) \<and> (\<forall>t \<in> T. flows (lgStore s) t = None) \<and> (\<forall>c \<in> set (lgCalls s). callOK T (lgStore s) c)"

lemma loginInvD:
  assumes "loginInv T s"
  shows "inv (lgStore s)" "t \<in> T \<Longrightarrow> flows (lgStore s) t = None" "c \<in> set (lgCalls s) \<Longrightarrow> callOK T (lgStore s) c"
  using assms by (auto simp: loginInv_def)

text \<open>A token is quiet when its flow is spent and no call on it is under way.\<close>

definition quiet :: "string \<Rightarrow> 'd loginSystem \<Rightarrow> bool" where
  "quiet t s \<longleftrightarrow> spent (flows (lgStore s) t) \<and> (\<forall>c \<in> set (lgCalls s). flowPollToken (snd c) \<noteq> t)"

lemma addCall_inv:
  assumes i: "loginInv T s" and r: "\<And>f. r = Inr f \<Longrightarrow> reads (lgStore s) p f"
  shows "loginInv T (addCall p r s) \<and> (quiet t s \<longrightarrow> quiet t (addCall p r s))"
proof (cases r)
  case (Inr f)
  have "callOK T (lgStore s) (p, f)" and "spent (flows (lgStore s) t) \<longrightarrow> flowPollToken f \<noteq> t"
    using r [OF Inr] loginInvD(2) [OF i] by (auto simp: reads_def callOK_def spent_def)
  then show ?thesis using i Inr by (auto simp: addCall_def loginInv_def quiet_def)
qed (use i in \<open>simp add: addCall_def\<close>)

text \<open>A change of the store that keeps the flows of all tokens but one.\<close>

lemma store_change:
  assumes i: "loginInv T s" and "set cs \<subseteq> set (lgCalls s)" and "T' \<subseteq> T" and d: "inv d'"
    and old: "\<And>u. flows d' u = None \<or> flows d' u = flows (lgStore s) u \<or> u = v" and v: "v \<notin> T'"
    and log: "\<And>c g. c \<in> set cs \<Longrightarrow> flowPollToken (snd c) = v \<Longrightarrow> flows d' v = Some g \<Longrightarrow> flowLoginToken (snd c) = flowLoginToken g"
  shows "loginInv T' (s\<lparr>lgStore := d', lgCalls := cs\<rparr>)"
proof -
  have "flows d' u = None" if "u \<in> T'" for u using old [of u] loginInvD(2) [OF i] that assms(3) v by (metis subsetD)
  moreover have "callOK T' d' c" if c: "c \<in> set cs" for c
  proof -
    obtain p f where pf: "c = (p, f)" by (cases c)
    have k: "callOK T (lgStore s) c" using loginInvD(3) [OF i] c assms(2) by blast
    have "flowLoginToken f = flowLoginToken g" if g: "flows d' (flowPollToken f) = Some g" for g
    proof (cases "flowPollToken f = v")
      case True
      then show ?thesis using log [OF c] g pf by simp
    next
      case False
      then have "flows (lgStore s) (flowPollToken f) = Some g" using old [of "flowPollToken f"] g by auto
      then show ?thesis using k pf by (simp add: callOK_def)
    qed
    then show ?thesis using k assms(3) pf by (auto simp: callOK_def)
  qed
  ultimately show ?thesis using d by (simp add: loginInv_def)
qed

lemma write_change:
  assumes i: "loginInv T s" and c: "(p, f) \<in> set (lgCalls s)" and u: "stUpdate st (lgStore s) f = (d', r)"
  shows "inv d' \<and> (case r of Inl e \<Rightarrow> flows d' = flows (lgStore s)
    | Inr _ \<Rightarrow> \<exists>g cur. flows (lgStore s) (flowPollToken f) = Some cur \<and> kept f g \<and> flows d' = (flows (lgStore s))(flowPollToken f \<mapsto> g))"
proof (cases "flows (lgStore s) (flowPollToken f)")
  case None
  then show ?thesis using update_missing [OF loginInvD(1) [OF i] None u] loginInvD(1) [OF i] by (cases r) auto
next
  case (Some cur)
  have k: "flowLoginToken f = flowLoginToken cur" "\<not> has_prefix (flowStateToken f) ''pending:''"
    using loginInvD(3) [OF i c] Some by (auto simp: callOK_def)
  show ?thesis using update [OF loginInvD(1) [OF i] Some k u] Some by (auto split: sum.splits)
qed

lemma write_step:
  assumes i: "loginInv T s" and n: "n < length (lgCalls s)" and nth: "lgCalls s ! n = (p, f)" and st: "loginStep st (LgWrite n) s = (s', out)"
  shows "loginInv T s'" and "quiet t s \<Longrightarrow> quiet t s' \<and> t \<notin> set out"
    and "t \<in> set out \<Longrightarrow> callsOn t s \<le> 1 \<Longrightarrow> quiet t s' \<and> out = [t] \<and> t \<notin> T"
proof -
  have c: "(p, f) \<in> set (lgCalls s)" using nth_mem [OF n] nth by simp
  obtain d' r where u: "stUpdate st (lgStore s) f = (d', r)" by (cases "stUpdate st (lgStore s) f")
  note w = write_change [OF i c u]
  let ?cs = "lgCalls (dropCall n s)"
  have s': "s' = s\<lparr>lgStore := d', lgCalls := ?cs\<rparr>" and out: "out = (case r of Inl _ \<Rightarrow> [] | Inr _ \<Rightarrow> if p then [flowPollToken f] else [])"
    using st n nth u by (auto simp: loginStep_def writeBack_def dropCall_def split: sum.splits)
  have ok: "callOK T (lgStore s) (p, f)" by (rule loginInvD(3) [OF i c])
  have sub: "set ?cs \<subseteq> set (lgCalls s)" by (rule dropCall_set)
  show "loginInv T s'" unfolding s'
  proof (rule store_change [OF i sub order_refl, where v = "flowPollToken f"])
    show "inv d'" using w by simp
    show "flowPollToken f \<notin> T" using ok by (simp add: callOK_def)
    show "flows d' u = None \<or> flows d' u = flows (lgStore s) u \<or> u = flowPollToken f" for u using w by (auto split: sum.splits)
    fix c g assume cs: "c \<in> set ?cs" "flowPollToken (snd c) = flowPollToken f" "flows d' (flowPollToken f) = Some g"
    have old: "flows (lgStore s) (flowPollToken f) = Some h \<Longrightarrow> flowLoginToken (snd c) = flowLoginToken h" for h
      using loginInvD(3) [OF i, of c] cs(1,2) sub by (cases c) (auto simp: callOK_def)
    then show "flowLoginToken (snd c) = flowLoginToken g"
      using w cs(3) ok by (auto simp: callOK_def kept_sel split: sum.splits)
  qed
  show "quiet t s' \<and> t \<notin> set out" if q: "quiet t s"
  proof -
    have ne: "flowPollToken f \<noteq> t" using q c by (auto simp: quiet_def)
    then have "flows d' t = flows (lgStore s) t" using w by (auto split: sum.splits)
    then show ?thesis using q ne sub by (auto simp: quiet_def s' out split: sum.splits)
  qed
  show "quiet t s' \<and> out = [t] \<and> t \<notin> T" if o: "t \<in> set out" and one: "callsOn t s \<le> 1"
  proof -
    have p: "p" "flowPollToken f = t" "\<exists>x. r = Inr x" "out = [t]" using o by (auto simp: out split: sum.splits if_splits)
    obtain g where "kept f g" "flows d' t = Some g" using w p(2,3) by auto
    moreover have "flowState f = StateConsumed" using ok p(1) by (simp add: callOK_def)
    ultimately have "spent (flows d' t)" using kept_sel(3) by (simp add: spent_def)
    moreover have "flowPollToken (snd c) \<noteq> t" if "c \<in> set ?cs" for c
      using dropCall_on [OF n _ one that] nth p(2) by simp
    ultimately show ?thesis using ok p by (auto simp: quiet_def s' callOK_def)
  qed
qed

lemma loginStep_ok:
  assumes i: "loginInv (set (initTokens (e # es))) s" and dist: "distinct (initTokens (e # es))" and st: "loginStep st e s = (s', out)"
  shows "loginInv (set (initTokens es)) s' \<and> (t \<notin> set (initTokens [e]) \<longrightarrow> quiet t s \<longrightarrow> quiet t s' \<and> t \<notin> set out)
    \<and> (t \<in> set out \<longrightarrow> callsOn t s \<le> 1 \<longrightarrow> quiet t s' \<and> out = [t] \<and> t \<notin> set (initTokens es))"
proof (cases e)
  case (LgInit ttl poll login now c)
  let ?d = "fst (Init st ttl (Inr poll) (Inr login) (lgStore s) now c)"
  have T: "initTokens (e # es) = poll # initTokens es" using LgInit by (simp add: initTokens_def)
  have s': "s' = s\<lparr>lgStore := ?d, lgCalls := lgCalls s\<rparr>" "out = []" using st LgInit by (auto simp: loginStep_def)
  have n: "flows (lgStore s) poll = None" using loginInvD(2) [OF i] by (simp add: T)
  note ch = Init_change [OF loginInvD(1) [OF i] n, of ttl login now c]
  have off: "c \<in> set (lgCalls s) \<Longrightarrow> flowPollToken (snd c) \<noteq> poll" for c
    using loginInvD(3) [OF i, of c] by (cases c) (auto simp: callOK_def T)
  have "loginInv (set (initTokens es)) s'" unfolding s'(1)
    by (rule store_change [OF i, where v = poll]) (use T ch dist off in auto)
  then show ?thesis using ch s' LgInit by (auto simp: quiet_def initTokens_def)
next
  case (LgPoll now tok)
  have T: "initTokens (e # es) = initTokens es" using LgPoll by (simp add: initTokens_def)
  have "s' = addCall True (pollGet st (lgStore s) now tok) s" "out = []" using st LgPoll by (auto simp: loginStep_def)
  moreover note addCall_inv [OF i, of "pollGet st (lgStore s) now tok" True t] pollGet_reads [OF loginInvD(1) [OF i], of now tok]
  ultimately show ?thesis using T by simp
next
  case (LgBeginGrant rd now tok)
  have T: "initTokens (e # es) = initTokens es" using LgBeginGrant by (simp add: initTokens_def)
  let ?g = "beginGet st (generateHexToken (int StateTokenLen) rd) (lgStore s) now tok"
  have "s' = addCall False ?g s" "out = []" using st LgBeginGrant by (auto simp: loginStep_def)
  moreover note addCall_inv [OF i, of ?g False t] beginGet_reads [OF loginInvD(1) [OF i], of "int StateTokenLen" rd now tok]
  ultimately show ?thesis using T by simp
next
  case (LgGrant now tok server name pw)
  have T: "initTokens (e # es) = initTokens es" using LgGrant by (simp add: initTokens_def)
  let ?g = "grantGet st (lgStore s) now tok server name pw"
  have "s' = addCall False ?g s" "out = []" using st LgGrant by (auto simp: loginStep_def)
  moreover note addCall_inv [OF i, of ?g False t] grantGet_reads [OF loginInvD(1) [OF i], of now tok server name pw]
  ultimately show ?thesis using T by simp
next
  case (LgWrite n)
  have T: "initTokens (e # es) = initTokens es" using LgWrite by (simp add: initTokens_def)
  show ?thesis
  proof (cases "n < length (lgCalls s)")
    case True
    obtain p f where nth: "lgCalls s ! n = (p, f)" by (cases "lgCalls s ! n")
    note w = write_step [OF i True nth st [unfolded LgWrite]]
    show ?thesis using w(1) w(2,3) [of t] T by auto
  next
    case False
    then show ?thesis using st i T LgWrite by (auto simp: loginStep_def)
  qed
next
  case (LgAbort n)
  then have "s' = dropCall n s" "out = []" using st by (auto simp: loginStep_def)
  then show ?thesis using i LgAbort dropCall_set [of n s]
    by (auto simp: initTokens_def loginInv_def quiet_def dropCall_def subset_iff)
next
  case (LgGC now)
  let ?d = "fst (stDeleteExpired st (lgStore s) now)"
  have s': "s' = s\<lparr>lgStore := ?d, lgCalls := lgCalls s\<rparr>" "out = []" using st LgGC by (auto simp: loginStep_def)
  have T: "initTokens (e # es) = initTokens es" using LgGC by (simp add: initTokens_def)
  obtain x where x: "stDeleteExpired st (lgStore s) now = (?d, x)" by (cases "stDeleteExpired st (lgStore s) now") simp
  note gc = delete_expired [OF loginInvD(1) [OF i] x]
  obtain v where v: "v \<notin> set (initTokens es) \<union> (\<lambda>c. flowPollToken (snd c)) ` set (lgCalls s)"
    using ex_new_if_finite [OF infinite_UNIV_listI, of "set (initTokens es) \<union> (\<lambda>c. flowPollToken (snd c)) ` set (lgCalls s)"] by auto
  have keep: "flows ?d u = None \<or> flows ?d u = flows (lgStore s) u \<or> u = v" for u using gc by blast
  have "loginInv (set (initTokens es)) s'" unfolding s'(1)
    by (rule store_change [OF i _ _ _ keep]) (use gc v T in auto)
  moreover have "flows ?d t = None \<or> flows ?d t = flows (lgStore s) t" using gc by blast
  ultimately show ?thesis using s' LgGC by (auto simp: quiet_def initTokens_def spent_def)
qed

lemma quiet_run:
  assumes "loginInv (set (initTokens es)) s" and "distinct (initTokens es)" and "quiet t s" and "t \<notin> set (initTokens es)"
  shows "t \<notin> set (snd (loginRun st es s))"
  using assms
proof (induction es arbitrary: s)
  case (Cons e es)
  obtain s1 out where s1: "loginStep st e s = (s1, out)" by (cases "loginStep st e s")
  have n: "t \<notin> set (initTokens [e])" "t \<notin> set (initTokens es)" "distinct (initTokens es)"
    using Cons.prems(2,4) unfolding initTokens_split [of e es] by auto
  have ok: "loginInv (set (initTokens es)) s1" "quiet t s1" "t \<notin> set out"
    using loginStep_ok [OF Cons.prems(1,2) s1, of t] n Cons.prems(3) by auto
  show ?case using Cons.IH [OF ok(1) n(3) ok(2) n(2)] s1 ok(3) by (auto split: prod.split)
qed simp

text \<open>Over any store with the contract, credentials are handed out at most once when calls on the flow do not overlap.\<close>

lemma disclosed_once:
  assumes "loginInv (set (initTokens es)) s" and "distinct (initTokens es)" and "oneAtATime st t es s"
  shows "count_list (snd (loginRun st es s)) t \<le> 1"
  using assms
proof (induction es arbitrary: s)
  case (Cons e es)
  obtain s1 out where s1: "loginStep st e s = (s1, out)" by (cases "loginStep st e s")
  obtain s2 outs where r: "loginRun st es s1 = (s2, outs)" by (cases "loginRun st es s1")
  have n: "distinct (initTokens es)" using Cons.prems(2) unfolding initTokens_split [of e es] by auto
  note ok = loginStep_ok [OF Cons.prems(1,2) s1, of t]
  show ?case
  proof (cases "t \<in> set out")
    case True
    then have q: "quiet t s1" "out = [t]" "t \<notin> set (initTokens es)" using ok Cons.prems(3) by auto
    then have "t \<notin> set outs" using quiet_run [of es s1 t] ok n r by simp
    then show ?thesis using s1 r q(2) by (simp add: count_list_0_iff)
  next
    case False
    then show ?thesis using Cons.IH [of s1] ok n s1 r Cons.prems(3) by (simp add: count_list_0_iff)
  qed
qed simp

lemma start_inv: "inv d \<Longrightarrow> \<forall>t \<in> T. flows d t = None \<Longrightarrow> loginInv T \<lparr>lgStore = d, lgCalls = []\<rparr>"
  by (simp add: loginInv_def)

end

section \<open>Properties\<close>

text \<open>
  C36. Credentials are disclosed once, as long as calls on the same flow do not overlap: in every run of the login service over
  either store, from a state in which the new poll tokens are unused, and in which at each point at most one call on the flow stands between
  its reading and its writing, the app password of the flow is handed out to at most one poll. The halves of calls on
  other flows, inits, aborted calls and garbage collections may come in between anywhere.
\<close>

theorem login_disclosed_once:
  assumes "distinct (initTokens es)"
  shows "(memFlowInv m \<and> (\<forall>t \<in> set (initTokens es). memFlows m t = None) \<and> oneAtATime MemoryStore t es \<lparr>lgStore = m, lgCalls = []\<rparr>
           \<longrightarrow> count_list (snd (loginRun MemoryStore es \<lparr>lgStore = m, lgCalls = []\<rparr>)) t \<le> 1)
    \<and> (sqlFlowInv d \<and> (\<forall>t \<in> set (initTokens es). sqlFlows d t = None) \<and> oneAtATime SQLStore t es \<lparr>lgStore = d, lgCalls = []\<rparr>
           \<longrightarrow> count_list (snd (loginRun SQLStore es \<lparr>lgStore = d, lgCalls = []\<rparr>)) t \<le> 1)"
  using memflow.disclosed_once [OF memflow.start_inv assms, of m t] sqlflow.disclosed_once [OF sqlflow.start_inv assms, of d t] by blast

text \<open>Two flows whose calls interleave; the flow \<open>p\<close> is granted and polled twice.\<close>

definition demoLogin :: "login_event list" where
  "demoLogin = [LgInit 10000000 ''p'' ''l'' 0 ''c'', LgInit 10000000 ''q'' ''m'' 0 ''c'', LgBeginGrant (Inr [1, 2]) 1 ''l'', LgBeginGrant (Inr [3, 4]) 1 ''m'',
     LgWrite 0, LgGrant 2 ''0102'' ''srv'' ''u'' ''pw'', LgWrite 1, LgWrite 0, LgPoll 3 ''p'', LgGC 3]"

theorem login_disclosed_once_witness:
  "count_list (snd (loginRun MemoryStore (demoLogin @ [LgWrite 0, LgPoll 4 ''p'', LgWrite 0]) \<lparr>lgStore = NewMemoryStore, lgCalls = []\<rparr>)) ''p'' \<le> 1
   \<and> snd (loginRun MemoryStore (demoLogin @ [LgWrite 0, LgPoll 4 ''p'', LgWrite 0]) \<lparr>lgStore = NewMemoryStore, lgCalls = []\<rparr>) = [''p'']"
proof -
  let ?es = "demoLogin @ [LgWrite 0, LgPoll 4 ''p'', LgWrite 0]"
  have d: "distinct (initTokens ?es)" by code_simp
  have i: "memFlowInv NewMemoryStore" by (simp add: memFlowInv_def flowIndex_def NewMemoryStore_def)
  have o: "oneAtATime MemoryStore ''p'' ?es \<lparr>lgStore = NewMemoryStore, lgCalls = []\<rparr>" by code_simp
  have "snd (loginRun MemoryStore ?es \<lparr>lgStore = NewMemoryStore, lgCalls = []\<rparr>) = [''p'']" by code_simp
  then show ?thesis
    using login_disclosed_once [OF d, of NewMemoryStore "''p''" "\<lparr>ftRows = [], ftDown = None\<rparr>"] i o
    by (simp add: memFlows_def NewMemoryStore_def)
qed

text \<open>
  Without that condition it fails: two polls that both read the granted flow before either has written it are both answered with the
  credentials, over either store.
\<close>

theorem overlapping_polls_disclose_twice:
  "snd (loginRun MemoryStore (demoLogin @ [LgPoll 3 ''p'', LgWrite 0, LgWrite 0]) \<lparr>lgStore = NewMemoryStore, lgCalls = []\<rparr>) = [''p'', ''p'']"
  "snd (loginRun SQLStore (demoLogin @ [LgPoll 3 ''p'', LgWrite 0, LgWrite 0]) \<lparr>lgStore = \<lparr>ftRows = [], ftDown = None\<rparr>, lgCalls = []\<rparr>) = [''p'', ''p'']"
  by code_simp+

lemma queryFlow_last:
  assumes "ftDown d = None" and "ftRows d = R @ [r]" and "\<forall>s \<in> set R. \<not> P s" and "P r"
  shows "queryFlow d P = Inr (scanFlow r)"
  using assms find_None_iff [of P R] by (simp add: queryFlow_def find_snoc)

lemma sqlFlowUpdate_last:
  assumes "ftDown d = None" and "ftRows d = R @ [r]" and "flowPollToken r = flowPollToken f" and "flowPollToken f \<noteq> []"
    and "\<forall>s \<in> set R. flowPollToken s \<noteq> flowPollToken f \<and> flowLoginToken s \<noteq> flowLoginToken f \<and> flowStateToken s \<noteq> flowStateToken (rowOf f)"
  shows "sqlFlowUpdate d f = (d\<lparr>ftRows := R @ [(rowOf f)\<lparr>flowCreatedAt := flowCreatedAt r\<rparr>]\<rparr>, Inr ())"
proof -
  have "map (\<lambda>s. if flowPollToken s = flowPollToken f then (rowOf f)\<lparr>flowCreatedAt := flowCreatedAt s\<rparr> else s) R = R"
    by (rule map_idI) (use assms(5) in auto)
  moreover have "\<not> list_ex (\<lambda>s. flowPollToken s \<noteq> flowPollToken f
      \<and> (flowLoginToken s = flowLoginToken (rowOf f) \<or> flowStateToken s = flowStateToken (rowOf f))) (ftRows d)"
    using assms(2,3,5) by (auto simp: list_ex_iff)
  ultimately show ?thesis using assms(1-4) by (simp add: sqlFlowUpdate_def Let_def)
qed

lemma memState_no_pending:
  assumes "memFlowInv m" shows "map_of (byState m) (pendingState t) = None"
proof (cases "map_of (byState m) (pendingState t)")
  case (Some f)
  have i: "flowIndex (map_of (byPoll m)) (map_of (byLogin m)) (map_of (byState m))"
    using assms by (simp add: memFlowInv_def)
  note f = flowIndexD(3) [OF i Some]
  show ?thesis using f flowIndexD(1) [OF i, of "flowPollToken f" f] has_prefix_pending [of t] by simp
qed

lemma scanFlow_not_expired:
  assumes "now \<le> flowExpiresAt f div 1000000 * 1000000" shows "\<not> flowExpired (scanFlow ((rowOf f)\<lparr>flowCreatedAt := c\<rparr>)) now"
  using assms by (simp add: flowExpired_def scanFlow_def rowOf_def unix_milli_def Let_def)

text \<open>The last row of the table belongs to a flow without a state token: what \<open>Grant\<close> and then \<open>Poll\<close> do to it.\<close>

lemma sql_Grant_pending:
  assumes "ftDown d = None" and "ftRows d = R @ [rowOf f]" and "flowStateToken f = []" and "flowState f = StatePending"
    and "flowPollToken f \<noteq> []" and "now \<le> flowExpiresAt f div 1000000 * 1000000"
    and "\<forall>s \<in> set R. flowPollToken s \<noteq> flowPollToken f \<and> flowLoginToken s \<noteq> flowLoginToken f \<and> flowStateToken s \<noteq> pendingState (flowPollToken f)"
    and g: "g = (scanFlow (rowOf f))\<lparr>flowState := StateGranted, flowServer := server, flowLoginName := name, flowAppPassword := pw, flowStateToken := []\<rparr>"
  shows "Grant SQLStore d now (pendingState (flowPollToken f)) server name pw =
    (d\<lparr>ftRows := R @ [(rowOf g)\<lparr>flowCreatedAt := flowCreatedAt (rowOf f)\<rparr>]\<rparr>, Inr g)"
proof -
  have pend: "flowStateToken (rowOf f) = pendingState (flowPollToken f)" "pendingState (flowPollToken f) \<noteq> []"
    using assms(3) by (simp_all add: rowOf_def pendingState_def)
  have "queryFlow d (\<lambda>r. flowStateToken r = pendingState (flowPollToken f)) = Inr (scanFlow (rowOf f))"
    by (rule queryFlow_last [OF assms(1,2)]) (use assms(7) pend in auto)
  moreover have "\<not> flowExpired (scanFlow (rowOf f)) now"
    using scanFlow_not_expired [OF assms(6), of "flowCreatedAt (rowOf f)"] by simp
  moreover have "flowState (scanFlow (rowOf f)) = StatePending" using assms(4) by (simp add: rowOf_def)
  ultimately have "LookupState SQLStore d now (pendingState (flowPollToken f)) = Inr (scanFlow (rowOf f))"
    using pend(2) by (simp add: LookupState_def SQLStore_def del: scanFlow_sel)
  moreover have "sqlFlowUpdate d g = (d\<lparr>ftRows := R @ [(rowOf g)\<lparr>flowCreatedAt := flowCreatedAt (rowOf f)\<rparr>]\<rparr>, Inr ())"
    by (rule sqlFlowUpdate_last [OF assms(1,2)]) (use assms(5,7) in \<open>auto simp: g rowOf_def\<close>)
  ultimately show ?thesis by (simp add: Grant_def SQLStore_def Let_def g [symmetric])
qed

lemma sql_Poll_granted:
  assumes "ftDown d = None" and "ftRows d = R @ [(rowOf g)\<lparr>flowCreatedAt := c\<rparr>]" and "flowStateToken g = []" and "flowState g = StateGranted"
    and "flowPollToken g \<noteq> []" and "now \<le> flowExpiresAt g div 1000000 * 1000000"
    and "\<forall>s \<in> set R. flowPollToken s \<noteq> flowPollToken g \<and> flowLoginToken s \<noteq> flowLoginToken g \<and> flowStateToken s \<noteq> pendingState (flowPollToken g)"
  shows "\<exists>d'. Poll SQLStore d now (flowPollToken g) = (d', Inr ((scanFlow ((rowOf g)\<lparr>flowCreatedAt := c\<rparr>))\<lparr>flowState := StateConsumed\<rparr>))"
proof -
  let ?row = "(rowOf g)\<lparr>flowCreatedAt := c\<rparr>"
  have "queryFlow d (\<lambda>r. flowPollToken r = flowPollToken g) = Inr (scanFlow ?row)"
    by (rule queryFlow_last [OF assms(1,2)]) (use assms(7) in auto)
  moreover note scanFlow_not_expired [OF assms(6), of c]
  moreover have "flowState (scanFlow ?row) = StateGranted" using assms(4) by (simp add: rowOf_def)
  moreover have "sqlFlowUpdate d ((scanFlow ?row)\<lparr>flowState := StateConsumed\<rparr>)
      = (d\<lparr>ftRows := R @ [(rowOf ((scanFlow ?row)\<lparr>flowState := StateConsumed\<rparr>))\<lparr>flowCreatedAt := c\<rparr>]\<rparr>, Inr ())"
    by (subst sqlFlowUpdate_last [OF assms(1,2)])
      (use assms(3,5,7) has_prefix_pending in \<open>auto simp: rowOf_def scanFlow_def Let_def\<close>)
  ultimately show ?thesis by (simp add: Poll_def SQLStore_def Let_def del: scanFlow_sel)
qed

text \<open>
  The state token is the proof that the user opened the grant page: it is drawn by \<open>BeginGrant\<close>, and \<open>Grant\<close>
  identifies the flow by it. Over \<open>SQLStore\<close> a flow that has no state token yet is stored under the
  string \<open>pending:\<close> followed by its poll token, and the lookup by state token compares with that
  column as it is: for every fresh flow, \<open>Grant\<close> with \<open>pending:\<close> and the poll token succeeds without
  any \<open>BeginGrant\<close>, and the next poll returns the credentials given in it. \<open>MemoryStore\<close> refuses the
  same call.
\<close>

theorem pending_state_bypass:
  assumes "sqlFlowInv d" and "memFlowInv m" and "poll \<noteq> []" and "login \<noteq> []" and "1000000 \<le> ttl"
    and "\<not> list_ex (\<lambda>r. flowPollToken r = poll \<or> flowLoginToken r = login \<or> flowStateToken r = pendingState poll) (ftRows d)"
  shows "(\<exists>d1 d2 d3 f g h. Init SQLStore ttl (Inr poll) (Inr login) d now client = (d1, Inr f)
      \<and> Grant SQLStore d1 now (pendingState poll) server name pw = (d2, Inr g)
      \<and> Poll SQLStore d2 now poll = (d3, Inr h) \<and> flowAppPassword h = pw \<and> flowLoginName h = name)
    \<and> snd (Grant MemoryStore (fst (Init MemoryStore ttl (Inr poll) (Inr login) m now client)) now
           (pendingState poll) server name pw) = Inl ErrFlowNotFound"
proof
  let ?f = "\<lparr>flowPollToken = poll, flowLoginToken = login, flowClientName = client, flowState = StatePending,
      flowStateToken = [], flowServer = [], flowLoginName = [], flowAppPassword = [], flowCreatedAt = now, flowExpiresAt = now + ttl\<rparr>"
  let ?d1 = "d\<lparr>ftRows := ftRows d @ [rowOf ?f]\<rparr>"
  let ?g = "(scanFlow (rowOf ?f))\<lparr>flowState := StateGranted, flowServer := server, flowLoginName := name, flowAppPassword := pw, flowStateToken := []\<rparr>"
  let ?row = "(rowOf ?g)\<lparr>flowCreatedAt := flowCreatedAt (rowOf ?f)\<rparr>"
  let ?d2 = "?d1\<lparr>ftRows := ftRows d @ [?row]\<rparr>"
  have up: "ftDown d = None" using assms(1) by (simp add: sqlFlowInv_def)
  have fresh: "\<forall>r \<in> set (ftRows d). flowPollToken r \<noteq> poll \<and> flowLoginToken r \<noteq> login \<and> flowStateToken r \<noteq> pendingState poll"
    using assms(6) by (auto simp: list_ex_iff)
  have i: "Init SQLStore ttl (Inr poll) (Inr login) d now client = (?d1, Inr ?f)"
    using assms(3,4,6) up by (simp add: Init_def SQLStore_def sqlFlowInsert_def Let_def rowOf_def)
  have ms: "now \<le> (now + ttl) div 1000000 * 1000000" using assms(5) by linarith
  have g: "Grant SQLStore ?d1 now (pendingState poll) server name pw = (?d2, Inr ?g)"
    by (rule sql_Grant_pending [of ?d1 "ftRows d" ?f, unfolded Flow.select_convs])
      (use up fresh assms(3) ms in simp_all)
  obtain d3 where p: "Poll SQLStore ?d2 now poll = (d3, Inr ((scanFlow ?row)\<lparr>flowState := StateConsumed\<rparr>))"
    using sql_Poll_granted [where d = ?d2 and R = "ftRows d" and g = ?g and now = now] up fresh assms(3) ms
    by (auto simp: scanFlow_def rowOf_def unix_milli_def Let_def)
  have "flowAppPassword (scanFlow ?row) = pw" "flowLoginName (scanFlow ?row) = name"
    by (simp_all add: scanFlow_def rowOf_def Let_def)
  then show "\<exists>d1 d2 d3 f g h. Init SQLStore ttl (Inr poll) (Inr login) d now client = (d1, Inr f)
      \<and> Grant SQLStore d1 now (pendingState poll) server name pw = (d2, Inr g)
      \<and> Poll SQLStore d2 now poll = (d3, Inr h) \<and> flowAppPassword h = pw \<and> flowLoginName h = name"
    using i g p by (intro exI conjI) (assumption | simp)+
next
  show "snd (Grant MemoryStore (fst (Init MemoryStore ttl (Inr poll) (Inr login) m now client)) now
           (pendingState poll) server name pw) = Inl ErrFlowNotFound"
    using assms(3,4) memState_no_pending [OF assms(2), of poll]
    by (simp add: Grant_def LookupState_def Init_def MemoryStore_def memInsert_def found_def pendingState_def Let_def)
qed

definition demoFlowOther :: Flow where
  "demoFlowOther = \<lparr>flowPollToken = ''o'', flowLoginToken = ''k'', flowClientName = [], flowState = StatePending,
     flowStateToken = ''0a'', flowServer = [], flowLoginName = [], flowAppPassword = [], flowCreatedAt = 1, flowExpiresAt = 9\<rparr>"

theorem pending_state_bypass_witness:
  "\<exists>d1 d2 d3 f g h. Init SQLStore DefaultTTL (Inr ''p'') (Inr ''l'') \<lparr>ftRows = [demoFlowOther], ftDown = None\<rparr> 5 ''c'' = (d1, Inr f)
      \<and> Grant SQLStore d1 5 (pendingState ''p'') ''srv'' ''u'' ''pw'' = (d2, Inr g)
      \<and> Poll SQLStore d2 5 ''p'' = (d3, Inr h) \<and> flowAppPassword h = ''pw'' \<and> flowLoginName h = ''u''"
proof -
  have "sqlFlowInv \<lparr>ftRows = [demoFlowOther], ftDown = None\<rparr>"
    by (simp add: sqlFlowInv_def rowOK_def demoFlowOther_def)
  moreover have "memFlowInv NewMemoryStore" by (simp add: memFlowInv_def flowIndex_def NewMemoryStore_def)
  ultimately show ?thesis
    using pending_state_bypass [of "\<lparr>ftRows = [demoFlowOther], ftDown = None\<rparr>" NewMemoryStore "''p''" "''l''" DefaultTTL 5]
    by (simp add: DefaultTTL_def demoFlowOther_def pendingState_def)
qed

end
