(* ===== verification/Login_Token.thy ===== *)
theory Login_Token
  imports Login_Flow
begin

text \<open>
  The random tokens of the login flow: \<open>generateAlphaToken\<close> as a function of what the random source delivers,
  the shape of its result and the end of its loop.
\<close>

section \<open>Tokens\<close>

text \<open>The bytes of the reads up to the first error, and those of them that the generator uses.\<close>

fun goodReads :: "(string + nat list) list \<Rightarrow> nat list" where
  "goodReads (Inr buf # reads) = buf @ goodReads reads"
| "goodReads _ = []"

definition accepted :: "nat list \<Rightarrow> nat list" where
  "accepted bs = filter (\<lambda>b. b < tokenLimit) bs"

definition alphaChar :: "nat \<Rightarrow> char" where
  "alphaChar b = TokenAlphabet ! (b mod length TokenAlphabet)"

lemma accepted_append [simp]: "accepted (xs @ ys) = accepted xs @ accepted ys"
  by (simp add: accepted_def)

lemma fillToken_eq: "length out < n \<Longrightarrow> fillToken n out buf = take n (out @ map alphaChar (accepted buf))"
proof (induction n out buf rule: fillToken.induct)
  case (2 n out b buf)
  show ?case
  proof (cases "b < tokenLimit")
    case True
    then show ?thesis using 2 by (cases "Suc (length out) = n") (auto simp: accepted_def Let_def alphaChar_def)
  next
    case False
    then show ?thesis using 2 by (simp add: accepted_def)
  qed
qed (simp add: accepted_def)

lemma alphaLoop_done: "length out = n \<Longrightarrow> alphaLoop n out reads = Some (Inr out)"
  by (subst alphaLoop.simps) simp

lemma take_take_append: "take n (take n xs @ ys) = take n (xs @ ys)"
  by (auto simp: min_def)

lemma alphaLoop_eq:
  assumes "length out \<le> n"
  shows "n \<le> length out + length (accepted (goodReads reads)) \<Longrightarrow>
      alphaLoop n out reads = Some (Inr (take n (out @ map alphaChar (accepted (goodReads reads)))))"
    and "length out + length (accepted (goodReads reads)) < n \<Longrightarrow>
      alphaLoop n out reads = (case find isl reads of Some (Inl e) \<Rightarrow> Some (Inl (ErrLogin (''login: read random: '' @ e))) | _ \<Rightarrow> None)"
  using assms
proof (induction reads arbitrary: out)
  case Nil
  {
    case 1 then show ?case using alphaLoop_done [of out n] by (auto simp: accepted_def)
  next
    case 2 then show ?case by (subst alphaLoop.simps) (simp add: accepted_def)
  }
next
  case (Cons r reads)
  {
    case 1
    show ?case
    proof (cases "length out = n")
      case False
      then obtain buf where r: "r = Inr buf" using 1 by (cases r) (auto simp: accepted_def)
      let ?out = "take n (out @ map alphaChar (accepted buf))"
      have "alphaLoop n out (r # reads) = alphaLoop n ?out reads"
        using False 1 by (subst alphaLoop.simps) (simp add: r fillToken_eq)
      also have "\<dots> = Some (Inr (take n (?out @ map alphaChar (accepted (goodReads reads)))))"
        by (rule Cons.IH(1)) (use 1 r in auto)
      also have "\<dots> = Some (Inr (take n (out @ map alphaChar (accepted (goodReads (r # reads))))))"
        using take_take_append [of n "out @ map alphaChar (accepted buf)"] by (simp add: r)
      finally show ?thesis .
    qed (simp add: alphaLoop_done)
  next
    case 2
    show ?case
    proof (cases r)
      case (Inl e)
      then show ?thesis using 2 by (subst alphaLoop.simps) simp
    next
      case (Inr buf)
      let ?out = "take n (out @ map alphaChar (accepted buf))"
      have "alphaLoop n out (r # reads) = alphaLoop n ?out reads"
        using 2 by (subst alphaLoop.simps) (simp add: Inr fillToken_eq)
      then show ?thesis using Cons.IH(2) [of ?out] 2 Inr by simp
    qed
  }
qed

lemma generateAlphaToken_eq:
  assumes "0 < n"
  shows "generateAlphaToken n reads =
     (if nat n \<le> length (accepted (goodReads reads)) then Some (Inr (map alphaChar (take (nat n) (accepted (goodReads reads)))))
      else case find isl reads of Some (Inl e) \<Rightarrow> Some (Inl (ErrLogin (''login: read random: '' @ e))) | _ \<Rightarrow> None)"
  using assms alphaLoop_eq [of "[]" "nat n" reads] by (simp add: generateAlphaToken_def take_map)

lemma map_mod_block: "map (\<lambda>b. xs ! (b mod length xs)) [k * length xs ..< Suc k * length xs] = xs"
  by (rule nth_equalityI) auto

lemma map_mod_blocks: "map (\<lambda>b. xs ! (b mod length xs)) [0 ..< k * length xs] = concat (replicate k xs)"
proof (induction k)
  case (Suc k)
  have "[0 ..< Suc k * length xs] = [0 ..< k * length xs] @ [k * length xs ..< Suc k * length xs]"
    using upt_add_eq_append [of 0 "k * length xs" "length xs"] by (simp add: add.commute)
  then show ?case using Suc map_mod_block [of xs k] by (simp add: replicate_append_same [symmetric])
qed simp

lemma count_list_distinct: "distinct xs \<Longrightarrow> x \<in> set xs \<Longrightarrow> count_list xs x = 1"
  by (induction xs) (auto simp: count_list_0_iff)

lemma alphaChar_count:
  assumes "c \<in> set TokenAlphabet"
  shows "length (filter (\<lambda>b. alphaChar b = c) (accepted [0..<256])) = 4"
proof -
  have l: "length TokenAlphabet = 62" "distinct TokenAlphabet" by (simp_all add: TokenAlphabet_def)
  have "accepted [0..<256] = [0..<248]"
  proof -
    have "[0..<256] = [0..<248] @ [248..<256]" using upt_add_eq_append [of 0 248 8] by simp
    then show ?thesis by (simp add: accepted_def tokenLimit_def l filter_empty_conv)
  qed
  then have "length (filter (\<lambda>b. alphaChar b = c) (accepted [0..<256])) = count_list (map alphaChar [0..<4 * length TokenAlphabet]) c"
    by (simp add: l count_list_eq_length_filter filter_map comp_def eq_commute)
  also have "map alphaChar [0..<4 * length TokenAlphabet] = concat (replicate 4 TokenAlphabet)"
    unfolding alphaChar_def by (rule map_mod_blocks)
  also have "count_list (concat (replicate 4 TokenAlphabet)) c = 4 * count_list TokenAlphabet c"
    by (simp add: numeral_eq_Suc)
  also have "count_list TokenAlphabet c = 1" using assms l(2) by (rule count_list_distinct [rotated])
  finally show ?thesis by simp
qed

lemma accepted_reads:
  "list_all (\<lambda>r. case r of Inr buf \<Rightarrow> accepted buf \<noteq> [] | Inl _ \<Rightarrow> False) reads \<Longrightarrow> length reads \<le> length (accepted (goodReads reads))"
proof (induction reads)
  case (Cons r reads)
  then obtain buf where "r = Inr buf" "accepted buf \<noteq> []" by (cases r) auto
  then show ?case using Cons by (cases "accepted buf") auto
qed simp

text \<open>
  C39. A token that \<open>generateAlphaToken\<close> returns has the length asked for and only characters of the token
  alphabet; it is a function of the bytes below the limit, and each character of the alphabet stands for
  exactly four of them, so uniform bytes give uniform characters.
\<close>

theorem alpha_token_type:
  assumes "generateAlphaToken n reads = Some (Inr t)"
  shows "int (length t) = n \<and> set t \<subseteq> set TokenAlphabet
    \<and> t = map alphaChar (take (nat n) (accepted (goodReads reads)))
    \<and> (\<forall>c \<in> set TokenAlphabet. length (filter (\<lambda>b. alphaChar b = c) (accepted [0..<256])) = 4)"
proof -
  have n: "0 < n" using assms by (cases "n \<le> 0") (auto simp: generateAlphaToken_def)
  have t: "nat n \<le> length (accepted (goodReads reads)) \<and> t = map alphaChar (take (nat n) (accepted (goodReads reads)))"
    using assms n by (auto simp: generateAlphaToken_eq split: if_splits option.splits sum.splits)
  have c: "alphaChar b \<in> set TokenAlphabet" for b
    unfolding alphaChar_def by (rule nth_mem) (simp add: TokenAlphabet_def)
  show ?thesis using n t c alphaChar_count by auto
qed

theorem alpha_token_type_witness:
  "generateAlphaToken 3 [Inr [255, 1, 250], Inr [63, 61, 0]] = Some (Inr ''BB9'')
   \<and> int (length ''BB9'') = 3 \<and> set ''BB9'' \<subseteq> set TokenAlphabet"
proof -
  have "generateAlphaToken 3 [Inr [255, 1, 250], Inr [63, 61, 0]] = Some (Inr ''BB9'')" by code_simp
  then show ?thesis using alpha_token_type [of 3 "[Inr [255, 1, 250], Inr [63, 61, 0]]" "''BB9''"] by blast
qed

text \<open>
  C40. The loop of \<open>generateAlphaToken\<close> ends: it returns a token exactly when the reads that succeed hold
  enough accepted bytes, it returns an error exactly when a read fails before that, and it goes on reading
  otherwise; reads that each bring one accepted byte suffice, as many as the token has characters.
\<close>

theorem alpha_token_terminates:
  assumes "0 < n"
  shows "((\<exists>t. generateAlphaToken n reads = Some (Inr t)) \<longleftrightarrow> nat n \<le> length (accepted (goodReads reads)))
    \<and> (generateAlphaToken n reads = None \<longleftrightarrow> length (accepted (goodReads reads)) < nat n \<and> \<not> list_ex isl reads)
    \<and> (list_all (\<lambda>r. case r of Inr buf \<Rightarrow> accepted buf \<noteq> [] | Inl _ \<Rightarrow> False) reads \<and> nat n \<le> length reads \<longrightarrow>
        (\<exists>t. generateAlphaToken n reads = Some (Inr t)))"
proof -
  have "find isl reads = None \<longleftrightarrow> \<not> list_ex isl reads" by (auto simp: find_None_iff list_ex_iff)
  moreover have "find isl reads = Some r \<Longrightarrow> isl r" for r by (drule find_SomeD) simp
  ultimately show ?thesis using accepted_reads [of reads] assms
    by (auto simp: generateAlphaToken_eq split: option.splits sum.splits)
qed

theorem alpha_token_terminates_witness:
  "\<exists>t. generateAlphaToken 2 [Inr [255, 1], Inr [63, 250]] = Some (Inr t)"
  using alpha_token_terminates [of 2 "[Inr [255, 1], Inr [63, 250]]"]
  by (simp add: accepted_def tokenLimit_def TokenAlphabet_def)

end
