(* ===== verification/Jobs_Runner.thy ===== *)
theory Jobs_Runner
  imports Go_Base "HOL-Library.Product_Lexorder"
begin

text \<open>
  The background jobs (\<^verbatim>\<open>src/internal/jobs/store.go\<close>, \<^verbatim>\<open>runner.go\<close>): the table \<open>jobs\<close> with the statements
  of \<open>SQLStore\<close>, and \<open>SQLRunner\<close>, whose goroutines are the steps of a system: the poll loop claims due rows
  and sends them into a channel of capacity \<open>workers\<close>, the workers take rows from it and run them.
  A job is known by its name; what its \<open>Run\<close> returns is an input of the step that runs it. A statement
  fails when its context is done or the database cannot be reached, and changes nothing then. The clock of
  the runner and \<open>time.Now\<close> are one input. \<open>Stop\<close> is the cancellation and the exit of the goroutines it
  waits for; a \<open>Start\<close> comes after the \<open>Stop\<close> before it has returned.
\<close>

section \<open>The table\<close>

datatype job_error = ErrDuplicateJob | ErrUnknownJob | ErrJob string

type_synonym 'a job_result = "job_error + 'a"

record JobRow =
  jrID :: int
  jrName :: string
  jrPayload :: string
  jrRunAt :: int
  jrStartedAt :: "int option"
  jrCompletedAt :: "int option"
  jrLastError :: string
  jrAttempts :: int
  jrCreatedAt :: int

record jobTable =
  jtRows :: "JobRow list"
  jtNext :: int
  jtDown :: "string option"

definition stmtError :: "jobTable \<Rightarrow> bool \<Rightarrow> string option" where
  "stmtError d done = (if done then Some ''context canceled'' else jtDown d)"

definition updateJobs :: "(JobRow \<Rightarrow> bool) \<Rightarrow> (JobRow \<Rightarrow> JobRow) \<Rightarrow> jobTable \<Rightarrow> jobTable" where
  "updateJobs P f d = d\<lparr>jtRows := map (\<lambda>r. if P r then f r else r) (jtRows d)\<rparr>"

definition jobInsert :: "jobTable \<Rightarrow> bool \<Rightarrow> int \<Rightarrow> JobRow \<Rightarrow> jobTable \<times> unit job_result" where
  "jobInsert d done now r =
     (if jrName r = [] then (d, Inl (ErrJob ''jobs: invalid row''))
      else case stmtError d done of
          Some e \<Rightarrow> (d, Inl (ErrJob (''jobs: insert: '' @ e)))
        | None \<Rightarrow>
            (let created = (if jrCreatedAt r = 0 then unix_milli now else jrCreatedAt r)
             in (d\<lparr>jtRows := jtRows d @ [r\<lparr>jrID := jtNext d, jrStartedAt := None, jrCompletedAt := None, jrCreatedAt := created\<rparr>],
                   jtNext := jtNext d + 1\<rparr>, Inr ())))"

definition claimable :: "JobRow \<Rightarrow> bool" where
  "claimable r \<longleftrightarrow> jrStartedAt r = None \<and> jrCompletedAt r = None"

definition jobKey :: "JobRow \<Rightarrow> int \<times> int" where
  "jobKey r = (jrRunAt r, jrID r)"

definition dueRows :: "jobTable \<Rightarrow> int \<Rightarrow> nat \<Rightarrow> JobRow list" where
  "dueRows d nowMs limit = take limit (sort_key jobKey (filter (\<lambda>r. claimable r \<and> jrRunAt r \<le> nowMs) (jtRows d)))"

text \<open>One turn of the claim loop: the update counts the rows it changed, and a claimed row is kept.\<close>

definition claimOne :: "int \<Rightarrow> JobRow \<Rightarrow> jobTable \<times> JobRow list \<Rightarrow> jobTable \<times> JobRow list" where
  "claimOne nowMs c s = (case s of (d, claimed) \<Rightarrow>
     (let hit = (\<lambda>r. jrID r = jrID c \<and> claimable r);
          n = length (filter hit (jtRows d))
      in (updateJobs hit (\<lambda>r. r\<lparr>jrStartedAt := Some nowMs\<rparr>) d,
          if n = 1 then claimed @ [c\<lparr>jrStartedAt := Some nowMs\<rparr>] else claimed)))"

definition ClaimDue :: "jobTable \<Rightarrow> bool \<Rightarrow> int \<Rightarrow> int \<Rightarrow> jobTable \<times> JobRow list job_result" where
  "ClaimDue d done now limit = (case stmtError d done of
      Some e \<Rightarrow> (d, Inl (ErrJob (''jobs: begin: '' @ e)))
    | None \<Rightarrow>
        (let lim = (if limit \<le> 0 then 1 else nat limit);
             (d', claimed) = fold (claimOne (unix_milli now)) (dueRows d (unix_milli now) lim) (d, [])
         in (d', Inr claimed)))"

definition Complete :: "jobTable \<Rightarrow> bool \<Rightarrow> int \<Rightarrow> int \<Rightarrow> jobTable \<times> unit job_result" where
  "Complete d done now i =
     (if i = 0 then (d, Inr ())
      else case stmtError d done of
          Some e \<Rightarrow> (d, Inl (ErrJob (''jobs: complete: '' @ e)))
        | None \<Rightarrow> (updateJobs (\<lambda>r. jrID r = i) (\<lambda>r. r\<lparr>jrCompletedAt := Some (unix_milli now)\<rparr>) d, Inr ()))"

definition Fail :: "jobTable \<Rightarrow> bool \<Rightarrow> int \<Rightarrow> string \<Rightarrow> int \<Rightarrow> jobTable \<times> unit job_result" where
  "Fail d done i errText retryAt =
     (if i = 0 then (d, Inr ())
      else case stmtError d done of
          Some e \<Rightarrow> (d, Inl (ErrJob (''jobs: fail: '' @ e)))
        | None \<Rightarrow> (updateJobs (\<lambda>r. jrID r = i)
            (\<lambda>r. r\<lparr>jrStartedAt := None, jrLastError := errText, jrAttempts := jrAttempts r + 1, jrRunAt := unix_milli retryAt\<rparr>) d, Inr ()))"

definition DeleteByName :: "jobTable \<Rightarrow> bool \<Rightarrow> string \<Rightarrow> jobTable \<times> unit job_result" where
  "DeleteByName d done name = (case stmtError d done of
      Some e \<Rightarrow> (d, Inl (ErrJob (''jobs: delete by name: '' @ e)))
    | None \<Rightarrow> (d\<lparr>jtRows := filter (\<lambda>r. jrName r \<noteq> name) (jtRows d)\<rparr>, Inr ()))"

definition ListRecent :: "jobTable \<Rightarrow> bool \<Rightarrow> int \<Rightarrow> JobRow list job_result" where
  "ListRecent d done limit = (case stmtError d done of
      Some e \<Rightarrow> Inl (ErrJob (''jobs: list recent: '' @ e))
    | None \<Rightarrow> Inr (take (if limit \<le> 0 then 50 else nat limit) (sort_key (\<lambda>r. - jrID r) (jtRows d))))"

section \<open>The runner\<close>

definition JobSharesExpire :: string where "JobSharesExpire = ''shares.expire''"
definition JobLocksExpire :: string where "JobLocksExpire = ''locks.expire''"
definition JobPreviewGC :: string where "JobPreviewGC = ''preview.gc''"
definition JobWOPITokensGC :: string where "JobWOPITokensGC = ''wopi.tokens.gc''"
definition JobMailSync :: string where "JobMailSync = ''mail.sync''"

definition maxUnknownJobAttempts :: int where "maxUnknownJobAttempts = 3"

record SQLRunner =
  rnWorkers :: nat
  rnPoll :: int
  rnJobs :: "string list"
  rnPeriodic :: "string list"
  rnStarted :: bool

definition NewRunner :: "int \<Rightarrow> int \<Rightarrow> SQLRunner" where
  "NewRunner workers poll =
     \<lparr>rnWorkers = (if workers \<le> 0 then 1 else nat workers), rnPoll = (if poll \<le> 0 then 5000000000 else poll), rnJobs = [],
      rnPeriodic = [JobSharesExpire, JobLocksExpire, JobPreviewGC, JobWOPITokensGC, JobMailSync], rnStarted = False\<rparr>"

definition Register :: "SQLRunner \<Rightarrow> string \<Rightarrow> SQLRunner \<times> unit job_result" where
  "Register r name =
     (if name = [] then (r, Inl (ErrJob ''jobs: invalid job''))
      else if List.member (rnJobs r) name then (r, Inl ErrDuplicateJob)
      else (r\<lparr>rnJobs := rnJobs r @ [name]\<rparr>, Inr ()))"

definition Unregister :: "SQLRunner \<Rightarrow> string \<Rightarrow> SQLRunner" where
  "Unregister r name = r\<lparr>rnJobs := filter (\<lambda>n. n \<noteq> name) (rnJobs r)\<rparr>"

definition Enqueue :: "SQLRunner \<Rightarrow> jobTable \<Rightarrow> bool \<Rightarrow> int \<Rightarrow> string \<Rightarrow> string \<Rightarrow> int \<Rightarrow> jobTable \<times> unit job_result" where
  "Enqueue r d done now name payload runAt =
     (if \<not> List.member (rnJobs r) name then (d, Inl ErrUnknownJob)
      else jobInsert d done now \<lparr>jrID = 0, jrName = name, jrPayload = payload, jrRunAt = unix_milli runAt,
             jrStartedAt = None, jrCompletedAt = None, jrLastError = [], jrAttempts = 0, jrCreatedAt = unix_milli now\<rparr>)"

text \<open>The seeding of the periodic jobs in \<open>Start\<close>, which ends at the first error.\<close>

fun seedPeriodic :: "SQLRunner \<Rightarrow> bool \<Rightarrow> int \<Rightarrow> string list \<Rightarrow> jobTable \<Rightarrow> jobTable \<times> unit job_result" where
  "seedPeriodic r done now [] d = (d, Inr ())"
| "seedPeriodic r done now (name # names) d =
     (if \<not> List.member (rnJobs r) name then seedPeriodic r done now names d
      else case Enqueue r d done now name [] (now + rnPoll r) of
          (d', Inl e) \<Rightarrow> (d', Inl e)
        | (d', Inr _) \<Rightarrow> seedPeriodic r done now names d')"

definition Start :: "SQLRunner \<Rightarrow> jobTable \<Rightarrow> bool \<Rightarrow> int \<Rightarrow> SQLRunner \<times> jobTable \<times> unit job_result" where
  "Start r d done now =
     (if rnStarted r then (r, d, Inr ())
      else case seedPeriodic r done now [JobSharesExpire, JobLocksExpire, JobPreviewGC, JobWOPITokensGC, JobMailSync] d of
          (d', Inl e) \<Rightarrow> (r, d', Inl e)
        | (d', Inr _) \<Rightarrow> (r\<lparr>rnStarted := True\<rparr>, d', Inr ()))"

definition runOne :: "SQLRunner \<Rightarrow> bool \<Rightarrow> int \<Rightarrow> string option \<Rightarrow> JobRow \<Rightarrow> jobTable \<Rightarrow> jobTable" where
  "runOne r done now res row d =
     (if \<not> List.member (rnJobs r) (jrName row) then
        (if jrAttempts row \<ge> maxUnknownJobAttempts then fst (Complete d done now (jrID row))
         else fst (Fail d done (jrID row) ''jobs: unknown job'' (now + rnPoll r)))
      else case res of
          Some e \<Rightarrow> fst (Fail d done (jrID row) e (now + rnPoll r))
        | None \<Rightarrow> (case Complete d done now (jrID row) of
              (d', Inl _) \<Rightarrow> d'
            | (d', Inr _) \<Rightarrow> (if List.member (rnPeriodic r) (jrName row)
                then fst (Enqueue r d' done now (jrName row) [] (now + rnPoll r)) else d')))"

section \<open>The system\<close>

text \<open>
  \<open>sysAlive\<close>: the goroutines of a \<open>Start\<close> run. \<open>sysPending\<close>: the rows the poll loop has claimed and not sent
  yet. \<open>sysCh\<close>: the channel. \<open>sysRunning\<close>: the rows that the workers are running. \<open>sysDone\<close>: the context is
  cancelled.
\<close>

record jobSystem =
  sysRunner :: SQLRunner
  sysDB :: jobTable
  sysAlive :: bool
  sysDone :: bool
  sysPending :: "JobRow list"
  sysCh :: "JobRow list"
  sysRunning :: "JobRow list"

datatype job_event =
    EvRegister string
  | EvUnregister string
  | EvEnqueue bool int string string int
  | EvDelete bool string
  | EvStart bool int
  | EvClaim int
  | EvSend
  | EvGiveUp
  | EvTake
  | EvRun int "string option" int
  | EvCancel
  | EvExit

text \<open>\<^const>\<open>None\<close>: the event cannot happen in this state.\<close>

fun jobStep :: "job_event \<Rightarrow> jobSystem \<Rightarrow> jobSystem option" where
  "jobStep (EvRegister name) s = Some (s\<lparr>sysRunner := fst (Register (sysRunner s) name)\<rparr>)"
| "jobStep (EvUnregister name) s = Some (s\<lparr>sysRunner := Unregister (sysRunner s) name\<rparr>)"
| "jobStep (EvEnqueue done now name payload runAt) s =
     Some (s\<lparr>sysDB := fst (Enqueue (sysRunner s) (sysDB s) done now name payload runAt)\<rparr>)"
| "jobStep (EvDelete done name) s = Some (s\<lparr>sysDB := fst (DeleteByName (sysDB s) done name)\<rparr>)"
| "jobStep (EvStart done now) s =
     (if sysAlive s then None
      else case Start (sysRunner s) (sysDB s) done now of
          (r, d, Inl e) \<Rightarrow> Some (s\<lparr>sysRunner := r, sysDB := d\<rparr>)
        | (r, d, Inr _) \<Rightarrow> Some (s\<lparr>sysRunner := r, sysDB := d, sysAlive := True, sysDone := False,
            sysPending := [], sysCh := [], sysRunning := []\<rparr>))"
| "jobStep (EvClaim now) s =
     (if \<not> sysAlive s \<or> sysPending s \<noteq> [] then None
      else case ClaimDue (sysDB s) (sysDone s) now (int (rnWorkers (sysRunner s))) of
          (d, Inl _) \<Rightarrow> Some (s\<lparr>sysDB := d\<rparr>)
        | (d, Inr rows) \<Rightarrow> Some (s\<lparr>sysDB := d, sysPending := rows\<rparr>))"
| "jobStep EvSend s = (case sysPending s of
      [] \<Rightarrow> None
    | row # rest \<Rightarrow> if length (sysCh s) < rnWorkers (sysRunner s)
        then Some (s\<lparr>sysPending := rest, sysCh := sysCh s @ [row]\<rparr>) else None)"
| "jobStep EvGiveUp s = (if sysDone s then Some (s\<lparr>sysPending := []\<rparr>) else None)"
| "jobStep EvTake s = (case sysCh s of
      [] \<Rightarrow> None
    | row # rest \<Rightarrow> if length (sysRunning s) < rnWorkers (sysRunner s)
        then Some (s\<lparr>sysCh := rest, sysRunning := sysRunning s @ [row]\<rparr>) else None)"
| "jobStep (EvRun now res i) s = (case find (\<lambda>r. jrID r = i) (sysRunning s) of
      None \<Rightarrow> None
    | Some row \<Rightarrow> Some (s\<lparr>sysDB := runOne (sysRunner s) (sysDone s) now res row (sysDB s),
        sysRunning := filter (\<lambda>r. jrID r \<noteq> i) (sysRunning s)\<rparr>))"
| "jobStep EvCancel s =
     (if rnStarted (sysRunner s) then Some (s\<lparr>sysRunner := (sysRunner s)\<lparr>rnStarted := False\<rparr>, sysDone := True\<rparr>) else None)"
| "jobStep EvExit s =
     (if sysAlive s \<and> sysDone s \<and> sysPending s = [] \<and> sysRunning s = [] then Some (s\<lparr>sysAlive := False, sysCh := []\<rparr>) else None)"

fun runEvents :: "job_event list \<Rightarrow> jobSystem \<Rightarrow> jobSystem option" where
  "runEvents [] s = Some s"
| "runEvents (e # es) s = (case jobStep e s of None \<Rightarrow> None | Some s' \<Rightarrow> runEvents es s')"

definition NewJobSystem :: "int \<Rightarrow> int \<Rightarrow> jobTable \<Rightarrow> jobSystem" where
  "NewJobSystem workers poll d = \<lparr>sysRunner = NewRunner workers poll, sysDB = d, sysAlive = False, sysDone = False,
     sysPending = [], sysCh = [], sysRunning = []\<rparr>"

inductive jobReach :: "jobSystem \<Rightarrow> jobSystem \<Rightarrow> bool" where
  reach_refl: "jobReach s s"
| reach_step: "jobReach s s' \<Longrightarrow> jobStep e s' = Some s'' \<Longrightarrow> jobReach s s''"

end
