(* ===== verification/Jobs_Laws.thy ===== *)
theory Jobs_Laws
  imports Jobs_Runner
begin

text \<open>
  What the job runner guarantees: no row is with two workers, a due row is claimed after a bounded number of
  claims of the poll loop in every interleaving, and what happens to the rows that are in flight when the runner is stopped.
\<close>

section \<open>Claiming\<close>

definition jobIDs :: "JobRow list \<Rightarrow> int set" where
  "jobIDs rs = jrID ` set rs"

definition tableOK :: "jobTable \<Rightarrow> bool" where
  "tableOK d \<longleftrightarrow> distinct (map jrID (jtRows d)) \<and> (\<forall>i \<in> jobIDs (jtRows d). 0 < i \<and> i < jtNext d) \<and> 0 < jtNext d"

definition markStarted :: "int \<Rightarrow> JobRow list \<Rightarrow> jobTable \<Rightarrow> jobTable" where
  "markStarted ms C = updateJobs (\<lambda>r. jrID r \<in> jobIDs C) (\<lambda>r. r\<lparr>jrStartedAt := Some ms\<rparr>)"

lemma jobIDs_simps [simp]:
  "jobIDs [] = {}" "jobIDs (r # rs) = insert (jrID r) (jobIDs rs)" "jobIDs (xs @ ys) = jobIDs xs \<union> jobIDs ys"
  by (auto simp: jobIDs_def)

lemma filter_key_single:
  "distinct (map k xs) \<Longrightarrow> c \<in> set xs \<Longrightarrow> P c \<Longrightarrow> filter (\<lambda>r. k r = k c \<and> P r) xs = [c]"
proof (induction xs)
  case (Cons x xs)
  show ?case
  proof (cases "x = c")
    case True
    then have "\<forall>r \<in> set xs. k r \<noteq> k c" using Cons.prems(1) by (auto simp: image_iff)
    then show ?thesis using True Cons.prems(3) by (auto simp: filter_empty_conv)
  next
    case False
    then have "c \<in> set xs" "k x \<noteq> k c" using Cons.prems by (auto simp: image_iff)
    then show ?thesis using Cons by simp
  qed
qed simp

lemma key_inj: "distinct (map k xs) \<Longrightarrow> x \<in> set xs \<Longrightarrow> y \<in> set xs \<Longrightarrow> k x = k y \<Longrightarrow> x = y"
  by (auto simp: distinct_map inj_on_def)

lemma claimOne_eq:
  assumes "distinct (map jrID (jtRows d))" and "c \<in> set (jtRows d)" and "claimable c"
  shows "claimOne ms c (d, acc) = (markStarted ms [c] d, acc @ [c\<lparr>jrStartedAt := Some ms\<rparr>])"
proof -
  have "filter (\<lambda>r. jrID r = jrID c \<and> claimable r) (jtRows d) = [c]" by (rule filter_key_single) (fact assms)+
  moreover have "r \<in> set (jtRows d) \<Longrightarrow> (jrID r = jrID c \<and> claimable r) = (jrID r = jrID c)" for r
    using key_inj [OF assms(1) _ assms(2)] assms(3) by blast
  then have "updateJobs (\<lambda>r. jrID r = jrID c \<and> claimable r) f d = updateJobs (\<lambda>r. jrID r = jrID c) f d" for f
    by (auto simp: updateJobs_def cong: map_cong)
  ultimately show ?thesis by (simp add: claimOne_def markStarted_def)
qed

lemma markStarted_append: "markStarted ms (C @ C') d = markStarted ms C' (markStarted ms C d)"
  by (auto simp: markStarted_def updateJobs_def)

lemma markStarted_ids [simp]: "map jrID (jtRows (markStarted ms C d)) = map jrID (jtRows d)"
  by (auto simp: markStarted_def updateJobs_def)

lemma markStarted_nil: "markStarted ms [] d = d"
  by (simp add: markStarted_def updateJobs_def)

lemma fold_claimOne:
  assumes "distinct (map jrID (jtRows d))" and "distinct (map jrID C)" and "\<forall>c \<in> set C. c \<in> set (jtRows d) \<and> claimable c"
  shows "fold (claimOne ms) C (d, acc) = (markStarted ms C d, acc @ map (\<lambda>c. c\<lparr>jrStartedAt := Some ms\<rparr>) C)"
  using assms
proof (induction C arbitrary: d acc)
  case (Cons c C)
  let ?d = "markStarted ms [c] d"
  have "c' \<in> set (jtRows ?d)" if "c' \<in> set C" for c'
  proof -
    have "c' \<in> set (jtRows d)" "jrID c' \<noteq> jrID c" using Cons.prems(2,3) that by (auto simp: image_iff)
    then show ?thesis by (force simp: markStarted_def updateJobs_def)
  qed
  then have "fold (claimOne ms) C (?d, acc @ [c\<lparr>jrStartedAt := Some ms\<rparr>])
      = (markStarted ms C ?d, (acc @ [c\<lparr>jrStartedAt := Some ms\<rparr>]) @ map (\<lambda>c. c\<lparr>jrStartedAt := Some ms\<rparr>) C)"
    by (intro Cons.IH) (use Cons.prems in simp_all)
  then show ?case using claimOne_eq [OF Cons.prems(1), of c ms acc] Cons.prems(3) markStarted_append [of ms "[c]" C d] by simp
qed (simp add: markStarted_nil)

lemma dueRows_props:
  assumes "distinct (map jrID (jtRows d))"
  shows "distinct (map jrID (dueRows d ms n))"
    and "\<forall>c \<in> set (dueRows d ms n). c \<in> set (jtRows d) \<and> claimable c \<and> jrRunAt c \<le> ms"
proof -
  let ?F = "filter (\<lambda>r. claimable r \<and> jrRunAt r \<le> ms) (jtRows d)"
  have "distinct ?F" "inj_on jrID (set ?F)" using assms by (auto simp: distinct_map inj_on_def)
  then have "distinct (map jrID (sort_key jobKey ?F))" by (simp add: distinct_map)
  then show "distinct (map jrID (dueRows d ms n))" by (simp add: dueRows_def take_map [symmetric])
  show "\<forall>c \<in> set (dueRows d ms n). c \<in> set (jtRows d) \<and> claimable c \<and> jrRunAt c \<le> ms"
    by (auto simp: dueRows_def dest: in_set_takeD)
qed

lemma ClaimDue_eq:
  assumes "tableOK d" and "stmtError d done = None"
  shows "ClaimDue d done now limit =
    (let C = dueRows d (unix_milli now) (if limit \<le> 0 then 1 else nat limit)
     in (markStarted (unix_milli now) C d, Inr (map (\<lambda>c. c\<lparr>jrStartedAt := Some (unix_milli now)\<rparr>) C)))"
proof -
  have d: "distinct (map jrID (jtRows d))" using assms(1) by (simp add: tableOK_def)
  show ?thesis
    using assms(2) fold_claimOne [OF d dueRows_props(1) [OF d]] dueRows_props(2) [OF d]
    by (simp add: ClaimDue_def Let_def del: fold.simps)
qed

section \<open>What the statements change\<close>

text \<open>An operation only adds new rows; or it changes the row of one id.\<close>

definition extends :: "jobTable \<Rightarrow> jobTable \<Rightarrow> bool" where
  "extends d d' \<longleftrightarrow> (\<exists>ns. jtRows d' = jtRows d @ ns \<and> (\<forall>r \<in> set ns. jtNext d \<le> jrID r \<and> claimable r))
     \<and> jtNext d \<le> jtNext d' \<and> jtDown d' = jtDown d \<and> (tableOK d \<longrightarrow> tableOK d')"

definition touches :: "int \<Rightarrow> jobTable \<Rightarrow> jobTable \<Rightarrow> bool" where
  "touches i d d' \<longleftrightarrow> (\<exists>g. jtRows d' = map g (jtRows d) \<and> (\<forall>r. jrID (g r) = jrID r) \<and> (\<forall>r. jrID r \<noteq> i \<longrightarrow> g r = r))
     \<and> jtNext d' = jtNext d \<and> jtDown d' = jtDown d"

lemma extends_refl: "extends d d"
  by (simp add: extends_def)

lemma extends_trans: "extends d d1 \<Longrightarrow> extends d1 d2 \<Longrightarrow> extends d d2"
  unfolding extends_def by (fastforce intro: order_trans)

lemma Enqueue_extends: "extends d (fst (Enqueue r d done now name payload runAt))"
proof -
  have "extends d (d\<lparr>jtRows := jtRows d @ [x], jtNext := jtNext d + 1\<rparr>)" if "jrID x = jtNext d" "claimable x" for x
    using that by (force simp: extends_def tableOK_def jobIDs_def)
  then show ?thesis
    using extends_refl [of d] by (auto simp: Enqueue_def jobInsert_def Let_def claimable_def split: option.splits)
qed

lemma seedPeriodic_extends: "extends d (fst (seedPeriodic r done now names d))"
proof (induction names arbitrary: d)
  case (Cons name names)
  show ?case
    using Enqueue_extends [of d r "done" now name "[]" "now + rnPoll r"] Cons.IH extends_trans
    by (force split: prod.splits sum.splits)
qed (simp add: extends_refl)

lemma touches_refl: "touches i d d"
  unfolding touches_def by (intro conjI exI [of _ "\<lambda>r. r"]) simp_all

lemma updateJobs_touches: "(\<And>r. jrID (f r) = jrID r) \<Longrightarrow> touches i d (updateJobs (\<lambda>r. jrID r = i) f d)"
  unfolding touches_def updateJobs_def by (intro conjI exI [of _ "\<lambda>r. if jrID r = i then f r else r"]) simp_all

lemma Complete_touches: "touches i d (fst (Complete d done now i))"
  by (auto simp: Complete_def touches_refl updateJobs_touches split: option.splits)

lemma Fail_touches: "touches i d (fst (Fail d done i e t))"
  by (auto simp: Fail_def touches_refl updateJobs_touches split: option.splits)

lemma runOne_change: "\<exists>d1. touches (jrID row) d d1 \<and> extends d1 (runOne r done now res row d)"
proof -
  note c = Complete_touches [of "jrID row" d "done" now] and f = Fail_touches [of "jrID row" d "done"]
  note e = Enqueue_extends [of _ r "done" now "jrName row" "[]" "now + rnPoll r"]
  show ?thesis unfolding runOne_def
    using c f e extends_refl by (auto split: option.splits sum.splits prod.splits) (metis fst_conv)+
qed

lemma touches_ids: "touches i d d' \<Longrightarrow> map jrID (jtRows d') = map jrID (jtRows d)"
  by (auto simp: touches_def comp_def)

lemma touches_tableOK: "touches i d d' \<Longrightarrow> tableOK d \<Longrightarrow> tableOK d'"
proof -
  assume t: "touches i d d'" and o: "tableOK d"
  have "jobIDs (jtRows d') = jobIDs (jtRows d)" using touches_ids [OF t] by (metis jobIDs_def set_map)
  then show "tableOK d'" using o t touches_ids [OF t] by (simp add: tableOK_def touches_def)
qed

lemma runOne_done: "stmtError d done \<noteq> None \<Longrightarrow> runOne r done now res row d = d"
  by (auto simp: runOne_def Complete_def Fail_def Enqueue_def jobInsert_def split: option.splits)

section \<open>No row is with two workers\<close>

definition flight :: "jobSystem \<Rightarrow> JobRow list" where
  "flight s = sysPending s @ sysCh s @ sysRunning s"

text \<open>A row in flight is marked as started in the table, so that no claim finds it.\<close>

definition held :: "jobTable \<Rightarrow> int \<Rightarrow> bool" where
  "held d i \<longleftrightarrow> i < jtNext d \<and> (\<forall>r \<in> set (jtRows d). jrID r = i \<longrightarrow> jrStartedAt r \<noteq> None)"

definition jobInv :: "jobSystem \<Rightarrow> bool" where
  "jobInv s \<longleftrightarrow> tableOK (sysDB s) \<and> distinct (map jrID (flight s)) \<and> (\<forall>i \<in> jobIDs (flight s). held (sysDB s) i)
     \<and> (\<not> sysAlive s \<longrightarrow> flight s = [])"

lemma held_extends: "extends d d' \<Longrightarrow> held d i \<Longrightarrow> held d' i"
  by (force simp: extends_def held_def)

lemma held_touches: "touches j d d' \<Longrightarrow> i \<noteq> j \<Longrightarrow> held d i \<Longrightarrow> held d' i"
  by (auto simp: touches_def held_def)

lemma held_runOne: "i \<noteq> jrID row \<Longrightarrow> held d i \<Longrightarrow> held (runOne r done now res row d) i"
  using runOne_change [of row d r "done" now res] held_touches held_extends by blast

lemma runOne_tableOK: "tableOK d \<Longrightarrow> tableOK (runOne r done now res row d)"
  using runOne_change [of row d r "done" now res] touches_tableOK by (auto simp: extends_def)

lemma markStarted_tableOK: "tableOK d \<Longrightarrow> tableOK (markStarted ms C d)"
proof -
  assume o: "tableOK d"
  have "jobIDs (jtRows (markStarted ms C d)) = jobIDs (jtRows d)" by (metis jobIDs_def markStarted_ids set_map)
  then show ?thesis using o by (simp add: tableOK_def) (simp add: markStarted_def updateJobs_def)
qed

lemma held_markStarted: "held d i \<Longrightarrow> held (markStarted ms C d) i"
  by (auto simp: held_def markStarted_def updateJobs_def)

lemma held_claimed:
  assumes "tableOK d" and "C = dueRows d ms n" and "i \<in> jobIDs C"
  shows "held (markStarted ms C d) i" and "\<not> held d i"
proof -
  have d: "distinct (map jrID (jtRows d))" using assms(1) by (simp add: tableOK_def)
  obtain c where c: "c \<in> set (jtRows d)" "claimable c" "jrID c = i"
    using dueRows_props(2) [OF d, of ms n] assms(2,3) by (auto simp: jobIDs_def)
  have "i < jtNext d" using c assms(1) by (auto simp: tableOK_def jobIDs_def)
  then show "held (markStarted ms C d) i" using assms(3) by (auto simp: held_def markStarted_def updateJobs_def)
  show "\<not> held d i" using c by (auto simp: held_def claimable_def)
qed

lemma jobInvI:
  assumes "tableOK (sysDB s)" and "distinct (map jrID (flight s))" and "\<And>i. i \<in> jobIDs (flight s) \<Longrightarrow> held (sysDB s) i"
    and "\<not> sysAlive s \<Longrightarrow> flight s = []"
  shows "jobInv s"
  using assms by (simp add: jobInv_def)

lemma jobInvD:
  assumes "jobInv s"
  shows "tableOK (sysDB s)" and "distinct (map jrID (flight s))" and "i \<in> jobIDs (flight s) \<Longrightarrow> held (sysDB s) i"
    and "\<not> sysAlive s \<Longrightarrow> flight s = []"
  using assms by (simp_all add: jobInv_def)

text \<open>A step that only adds rows, or only takes rows out of flight.\<close>

lemma jobInv_extends:
  assumes i: "jobInv s" and "extends (sysDB s) (sysDB s')" and "set (flight s') \<subseteq> set (flight s)" and "distinct (map jrID (flight s'))"
    and "\<not> sysAlive s' \<Longrightarrow> flight s' = []"
  shows "jobInv s'"
proof (rule jobInvI)
  show "tableOK (sysDB s')" using jobInvD(1) [OF i] assms(2) by (simp add: extends_def)
  show "held (sysDB s') j" if "j \<in> jobIDs (flight s')" for j
    using jobInvD(3) [OF i, of j] held_extends [OF assms(2)] that assms(3) by (auto simp: jobIDs_def)
qed (fact assms)+

lemma jobInv_same:
  assumes i: "jobInv s" and d: "sysDB s' = sysDB s" and a: "sysAlive s' = sysAlive s"
    and f: "set (flight s') = set (flight s)" "length (flight s') = length (flight s)"
  shows "jobInv s'"
proof (rule jobInv_extends [OF i])
  have "card (set (map jrID (flight s'))) = length (map jrID (flight s'))"
    using distinct_card [OF jobInvD(2) [OF i]] f by simp
  then show "distinct (map jrID (flight s'))" by (rule card_distinct)
  show "flight s' = []" if "\<not> sysAlive s'" using that jobInvD(4) [OF i] a f(2) by simp
qed (simp_all add: d f extends_refl)

lemma jobInv_claim:
  assumes i: "jobInv s" and st: "jobStep (EvClaim now) s = Some s'"
  shows "jobInv s'"
proof (cases "stmtError (sysDB s) (sysDone s)")
  case None
  let ?ms = "unix_milli now" and ?d = "sysDB s"
  let ?w = "int (rnWorkers (sysRunner s))"
  let ?C = "dueRows ?d ?ms (if ?w \<le> 0 then 1 else nat ?w)"
  let ?R = "map (\<lambda>c. c\<lparr>jrStartedAt := Some ?ms\<rparr>) ?C"
  note t = jobInvD(1) [OF i]
  have s': "s' = s\<lparr>sysDB := markStarted ?ms ?C ?d, sysPending := ?R\<rparr>" and p: "sysPending s = []" "sysAlive s"
    using st ClaimDue_eq [OF t None, of now ?w] by (auto simp: Let_def split: if_splits)
  have f: "flight s' = ?R @ flight s" using p by (simp add: flight_def s')
  have ids: "map jrID ?R = map jrID ?C" by simp
  then have idR: "jobIDs ?R = jobIDs ?C" by (metis jobIDs_def set_map)
  show ?thesis
  proof (rule jobInvI)
    show "tableOK (sysDB s')" using markStarted_tableOK [OF t] by (simp add: s')
    have "jobIDs ?C \<inter> jobIDs (flight s) = {}" using held_claimed(2) [OF t refl] jobInvD(3) [OF i] by blast
    then have "set (map jrID ?R) \<inter> set (map jrID (flight s)) = {}" unfolding ids by (simp add: jobIDs_def)
    moreover have "distinct (map jrID ?R)" using dueRows_props(1) [of ?d] t unfolding ids by (simp add: tableOK_def)
    ultimately show "distinct (map jrID (flight s'))" using jobInvD(2) [OF i] unfolding f map_append distinct_append by blast
    show "held (sysDB s') j" if "j \<in> jobIDs (flight s')" for j
    proof -
      have "j \<in> jobIDs ?C \<or> j \<in> jobIDs (flight s)" using that idR unfolding f by (simp del: map_map)
      then have "held (markStarted ?ms ?C ?d) j" using held_claimed(1) [OF t refl] held_markStarted [OF jobInvD(3) [OF i]] by blast
      then show ?thesis by (simp add: s')
    qed
    show "flight s' = []" if "\<not> sysAlive s'" using that p by (simp add: s')
  qed
next
  case (Some e)
  then have "s' = s" using st by (auto simp: ClaimDue_def split: if_splits)
  then show ?thesis using i by simp
qed

lemma jobInv_run:
  assumes i: "jobInv s" and st: "jobStep (EvRun now res j) s = Some s'"
  shows "jobInv s'"
proof -
  obtain row where row: "find (\<lambda>r. jrID r = j) (sysRunning s) = Some row"
    and s': "s' = s\<lparr>sysDB := runOne (sysRunner s) (sysDone s) now res row (sysDB s),
        sysRunning := filter (\<lambda>r. jrID r \<noteq> j) (sysRunning s)\<rparr>"
    using st by (auto split: option.splits)
  have r: "row \<in> set (sysRunning s)" "jrID row = j" using find_SomeD [OF row] by auto
  have "j \<notin> jobIDs (sysPending s @ sysCh s)" using jobInvD(2) [OF i] r by (auto simp: flight_def jobIDs_def)
  then have nj: "k \<noteq> j \<and> k \<in> jobIDs (flight s)" if "k \<in> jobIDs (flight s')" for k
    using that by (auto simp: flight_def s' jobIDs_def)
  show ?thesis
  proof (rule jobInvI)
    show "tableOK (sysDB s')" using runOne_tableOK [OF jobInvD(1) [OF i]] by (simp add: s')
    show "distinct (map jrID (flight s'))" using jobInvD(2) [OF i] by (auto simp: flight_def s' distinct_map_filter)
    show "held (sysDB s') k" if "k \<in> jobIDs (flight s')" for k
      using held_runOne jobInvD(3) [OF i] nj [OF that] r(2) by (simp add: s')
    show "flight s' = []" if "\<not> sysAlive s'" using that jobInvD(4) [OF i] by (simp add: s' flight_def)
  qed
qed

lemma DeleteByName_held: "held d i \<Longrightarrow> held (fst (DeleteByName d done name)) i"
  by (auto simp: DeleteByName_def held_def split: option.splits)

lemma DeleteByName_tableOK: "tableOK d \<Longrightarrow> tableOK (fst (DeleteByName d done name))"
  by (auto simp: DeleteByName_def tableOK_def jobIDs_def distinct_map_filter split: option.splits)

lemma Start_extends: "Start r d done now = (r', d', x) \<Longrightarrow> extends d d'"
  using seedPeriodic_extends [of d r "done" now "[JobSharesExpire, JobLocksExpire, JobPreviewGC, JobWOPITokensGC, JobMailSync]"]
  by (auto simp: Start_def extends_refl split: if_splits prod.splits sum.splits)

lemma jobStep_inv:
  assumes i: "jobInv s" and st: "jobStep e s = Some s'"
  shows "jobInv s'"
proof (cases e)
  case (EvDelete dn name)
  then have s': "s' = s\<lparr>sysDB := fst (DeleteByName (sysDB s) dn name)\<rparr>" using st by simp
  show ?thesis
    by (rule jobInvI) (use i in \<open>auto simp: s' flight_def jobInv_def DeleteByName_tableOK intro: DeleteByName_held\<close>)
next
  case (EvClaim now)
  then show ?thesis using jobInv_claim i st by blast
next
  case (EvRun now res j)
  then show ?thesis using jobInv_run i st by blast
next
  case (EvStart dn now)
  obtain r d x where S: "Start (sysRunner s) (sysDB s) dn now = (r, d, x)" by (cases "Start (sysRunner s) (sysDB s) dn now")
  have "flight s = []" using jobInvD(4) [OF i] st EvStart by (auto split: if_splits)
  moreover from this have "flight s' = [] \<and> sysDB s' = d"
    using st EvStart S by (auto simp: flight_def split: if_splits sum.splits)
  ultimately show ?thesis using jobInv_extends [OF i, of s'] Start_extends [OF S] by simp
next
  case (EvEnqueue dn now name payload runAt)
  then have s': "s' = s\<lparr>sysDB := fst (Enqueue (sysRunner s) (sysDB s) dn now name payload runAt)\<rparr>" using st by simp
  have "flight s' = flight s" by (simp add: s' flight_def)
  then show ?thesis using jobInv_extends [OF i, of s'] Enqueue_extends jobInvD(2,4) [OF i] by (simp add: s')
next
  case EvGiveUp
  then have s': "s' = s\<lparr>sysPending := []\<rparr>" using st by (simp split: if_splits)
  have "distinct (map jrID (flight s'))" using jobInvD(2) [OF i] by (simp add: flight_def s')
  then show ?thesis using jobInv_extends [OF i, of s'] jobInvD(4) [OF i]
    by (auto simp: s' extends_refl flight_def)
next
  case EvExit
  then show ?thesis using jobInv_extends [OF i, of s'] st i
    by (auto simp: extends_refl jobInv_def flight_def split: if_splits)
qed (use jobInv_same [OF i, of s'] st in \<open>auto simp: flight_def split: if_splits list.splits\<close>)

lemma runEvents_inv: "runEvents es s = Some s' \<Longrightarrow> jobInv s \<Longrightarrow> jobInv s'"
  by (induction es arbitrary: s) (auto split: option.splits dest: jobStep_inv)

lemma jobReach_inv: "jobReach s s' \<Longrightarrow> jobInv s \<Longrightarrow> jobInv s'"
  by (induction rule: jobReach.induct) (auto dest: jobStep_inv)

lemma NewJobSystem_inv: "tableOK d \<Longrightarrow> jobInv (NewJobSystem workers poll d)"
  by (simp add: jobInv_def NewJobSystem_def flight_def)

section \<open>Rows in flight at a stop\<close>

text \<open>Started and not completed: no claim finds the row.\<close>

definition rowStuck :: "jobTable \<Rightarrow> int \<Rightarrow> bool" where
  "rowStuck d i \<longleftrightarrow> list_ex (\<lambda>r. jrID r = i \<and> jrStartedAt r \<noteq> None \<and> jrCompletedAt r = None) (jtRows d)"

definition isDelete :: "job_event \<Rightarrow> bool" where
  "isDelete e \<longleftrightarrow> (case e of EvDelete dn n \<Rightarrow> True | _ \<Rightarrow> False)"

lemma rowStuck_extends: "extends d d' \<Longrightarrow> rowStuck d i \<Longrightarrow> rowStuck d' i"
  by (auto simp: extends_def rowStuck_def)

lemma rowStuck_touches:
  assumes "touches j d d'" and "i \<noteq> j" and "rowStuck d i"
  shows "rowStuck d' i"
proof -
  obtain g where g: "jtRows d' = map g (jtRows d)" "\<And>r. jrID r \<noteq> j \<Longrightarrow> g r = r" using assms(1) by (auto simp: touches_def)
  obtain r where r: "r \<in> set (jtRows d)" "jrID r = i" "jrStartedAt r \<noteq> None" "jrCompletedAt r = None"
    using assms(3) by (auto simp: rowStuck_def list_ex_iff)
  then have "r \<in> set (jtRows d')" using g(1) g(2) [of r] assms(2) by force
  then show ?thesis using r by (auto simp: rowStuck_def list_ex_iff)
qed

lemma rowStuck_runOne: "i \<noteq> jrID row \<Longrightarrow> rowStuck d i \<Longrightarrow> rowStuck (runOne r done now res row d) i"
  using runOne_change [of row d r "done" now res] rowStuck_touches rowStuck_extends by blast

lemma list_ex_map_mono: "(\<And>x. P x \<Longrightarrow> P (f x)) \<Longrightarrow> list_ex P xs \<Longrightarrow> list_ex P (map f xs)"
  by (induction xs) auto

lemma rowStuck_markStarted: "rowStuck d i \<Longrightarrow> rowStuck (markStarted ms C d) i"
  unfolding rowStuck_def markStarted_def updateJobs_def by simp (rule list_ex_map_mono, auto)

lemma stuck_not_claimed:
  assumes "tableOK d" and "rowStuck d i" shows "i \<notin> jobIDs (dueRows d ms n)"
proof
  have d: "distinct (map jrID (jtRows d))" using assms(1) by (simp add: tableOK_def)
  assume "i \<in> jobIDs (dueRows d ms n)"
  then obtain c where c: "c \<in> set (jtRows d)" "claimable c" "jrID c = i"
    using dueRows_props(2) [OF d, of ms n] by (auto simp: jobIDs_def)
  obtain r where r: "r \<in> set (jtRows d)" "jrID r = i" "jrStartedAt r \<noteq> None"
    using assms(2) by (auto simp: rowStuck_def list_ex_iff)
  show False using key_inj [OF d r(1) c(1)] r c by (auto simp: claimable_def)
qed

lemma ClaimDue_stuck:
  assumes "tableOK d" and "rowStuck d i" and "ClaimDue d dn now w = (d', x)"
  shows "rowStuck d' i \<and> (\<forall>rows. x = Inr rows \<longrightarrow> i \<notin> jobIDs rows)"
proof (cases "stmtError d dn")
  case None
  have ids: "jobIDs (map (\<lambda>c. c\<lparr>jrStartedAt := t\<rparr>) C) = jobIDs C" for t C by (simp add: jobIDs_def image_image)
  show ?thesis using assms(3) ClaimDue_eq [OF assms(1) None, of now w] rowStuck_markStarted [OF assms(2)]
      stuck_not_claimed [OF assms(1,2)] by (auto simp: Let_def ids)
qed (use assms(2,3) in \<open>auto simp: ClaimDue_def\<close>)

lemma stuck_step:
  assumes i: "jobInv s" and st: "jobStep e s = Some s'" and ev: "\<not> isDelete e"
    and r: "rowStuck (sysDB s) j" and f: "j \<notin> jobIDs (flight s) \<or> sysDone s"
  shows "rowStuck (sysDB s') j \<and> (j \<notin> jobIDs (flight s) \<longrightarrow> j \<notin> jobIDs (flight s'))
    \<and> (sysDone s \<longrightarrow> sysDone s' \<or> j \<notin> jobIDs (flight s'))"
proof (cases e)
  case (EvClaim now)
  obtain d x where C: "ClaimDue (sysDB s) (sysDone s) now (int (rnWorkers (sysRunner s))) = (d, x)"
    by (cases "ClaimDue (sysDB s) (sysDone s) now (int (rnWorkers (sysRunner s)))")
  show ?thesis using ClaimDue_stuck [OF jobInvD(1) [OF i] r C] st EvClaim C
    by (auto simp: flight_def split: if_splits sum.splits)
next
  case (EvRun now res k)
  obtain row where row: "find (\<lambda>r. jrID r = k) (sysRunning s) = Some row"
    and s': "s' = s\<lparr>sysDB := runOne (sysRunner s) (sysDone s) now res row (sysDB s),
        sysRunning := filter (\<lambda>r. jrID r \<noteq> k) (sysRunning s)\<rparr>"
    using st EvRun by (auto split: option.splits)
  have k: "row \<in> set (sysRunning s)" "jrID row = k" using find_SomeD [OF row] by auto
  have "rowStuck (sysDB s') j"
  proof (cases "sysDone s")
    case True
    then show ?thesis using r runOne_done [of "sysDB s" True] by (simp add: s' stmtError_def)
  next
    case False
    then have "j \<noteq> jrID row" using f k by (auto simp: flight_def jobIDs_def)
    then show ?thesis using rowStuck_runOne r by (simp add: s')
  qed
  moreover have "jobIDs (flight s') \<subseteq> jobIDs (flight s)" by (auto simp: flight_def s' jobIDs_def)
  ultimately show ?thesis using s' by auto
next
  case (EvStart dn now)
  obtain r' d x where S: "Start (sysRunner s) (sysDB s) dn now = (r', d, x)" by (cases "Start (sysRunner s) (sysDB s) dn now")
  have "flight s = []" using jobInvD(4) [OF i] st EvStart by (auto split: if_splits)
  then show ?thesis using st EvStart S rowStuck_extends [OF Start_extends [OF S] r]
    by (auto simp: flight_def split: if_splits sum.splits)
next
  case (EvEnqueue dn now name payload runAt)
  then show ?thesis using st rowStuck_extends [OF Enqueue_extends r] by (auto simp: flight_def)
qed (use st ev r in \<open>auto simp: flight_def isDelete_def split: if_splits list.splits\<close>)

lemma stuck_run:
  assumes "runEvents es s = Some s'" and "jobInv s" and "\<not> list_ex isDelete es"
    and "rowStuck (sysDB s) j" and "j \<notin> jobIDs (flight s) \<or> sysDone s"
  shows "rowStuck (sysDB s') j \<and> (j \<notin> jobIDs (flight s) \<longrightarrow> j \<notin> jobIDs (flight s')) \<and> (j \<notin> jobIDs (flight s') \<or> sysDone s')"
  using assms
proof (induction es arbitrary: s)
  case (Cons e es)
  then obtain s1 where s1: "jobStep e s = Some s1" "runEvents es s1 = Some s'" by (auto split: option.splits)
  have st: "rowStuck (sysDB s1) j \<and> (j \<notin> jobIDs (flight s) \<longrightarrow> j \<notin> jobIDs (flight s1)) \<and> (sysDone s \<longrightarrow> sysDone s1 \<or> j \<notin> jobIDs (flight s1))"
    using stuck_step [OF Cons.prems(2) s1(1) _ Cons.prems(4,5)] Cons.prems(3) by simp
  have "j \<notin> jobIDs (flight s1) \<or> sysDone s1" using st Cons.prems(5) by blast
  then show ?case using Cons.IH [OF s1(2) jobStep_inv [OF Cons.prems(2) s1(1)]] st Cons.prems(3) by auto
qed simp

lemma runEvents_append: "runEvents (es @ es') s = (case runEvents es s of None \<Rightarrow> None | Some s' \<Rightarrow> runEvents es' s')"
  by (induction es arbitrary: s) (auto split: option.splits)

lemma runEvents_reach: "runEvents es s = Some s' \<Longrightarrow> jobReach s0 s \<Longrightarrow> jobReach s0 s'"
  by (induction es arbitrary: s) (auto split: option.splits intro: reach_step)

section \<open>Progress\<close>

definition ahead :: "jobTable \<Rightarrow> JobRow \<Rightarrow> JobRow list" where
  "ahead d x = filter (\<lambda>r. claimable r \<and> jobKey r < jobKey x) (jtRows d)"

lemma runOne_rows:
  assumes "jtDown d = None" and "jrID c \<noteq> 0" and "r' \<in> set (jtRows (runOne r False now res c d))"
  shows "(r' \<in> set (jtRows d) \<and> jrID r' \<noteq> jrID c) \<or> \<not> claimable r' \<or> jrRunAt r' = unix_milli (now + rnPoll r)"
proof -
  have up: "stmtError d False = None" using assms(1) by (simp add: stmtError_def)
  have C: "Complete d False now (jrID c) = (updateJobs (\<lambda>r. jrID r = jrID c) (\<lambda>r. r\<lparr>jrCompletedAt := Some (unix_milli now)\<rparr>) d, Inr ())"
    using up assms(2) by (simp add: Complete_def)
  have F: "fst (Fail d False (jrID c) e (now + rnPoll r)) = updateJobs (\<lambda>r. jrID r = jrID c)
      (\<lambda>x. x\<lparr>jrStartedAt := None, jrLastError := e, jrAttempts := jrAttempts x + 1, jrRunAt := unix_milli (now + rnPoll r)\<rparr>) d" for e
    using up assms(2) by (simp add: Fail_def)
  have E: "y \<in> set (jtRows (fst (Enqueue r d' False now n [] t))) \<Longrightarrow> y \<in> set (jtRows d') \<or> jrRunAt y = unix_milli t" for d' n t y
    by (auto simp: Enqueue_def jobInsert_def Let_def split: option.splits if_splits)
  have comp: "y \<in> set (jtRows (updateJobs (\<lambda>r. jrID r = jrID c) (\<lambda>r. r\<lparr>jrCompletedAt := Some (unix_milli now)\<rparr>) d)) \<Longrightarrow>
      (y \<in> set (jtRows d) \<and> jrID y \<noteq> jrID c) \<or> \<not> claimable y" for y
    by (auto simp: updateJobs_def claimable_def)
  have fail: "y \<in> set (jtRows (updateJobs (\<lambda>r. jrID r = jrID c)
      (\<lambda>x. x\<lparr>jrStartedAt := None, jrLastError := e, jrAttempts := jrAttempts x + 1, jrRunAt := unix_milli (now + rnPoll r)\<rparr>) d)) \<Longrightarrow>
      (y \<in> set (jtRows d) \<and> jrID y \<noteq> jrID c) \<or> jrRunAt y = unix_milli (now + rnPoll r)" for y e
    by (auto simp: updateJobs_def)
  show ?thesis using assms(3) comp fail E
    unfolding runOne_def C F by (simp split: if_splits option.splits) blast+
qed

lemma runOne_down: "jtDown (runOne r dn now res c d) = jtDown d"
  using runOne_change [of c d r dn now res] by (auto simp: touches_def extends_def)

lemma runOne_keeps:
  assumes "x \<in> set (jtRows d)" and "jrID x \<noteq> jrID c" shows "x \<in> set (jtRows (runOne r dn now res c d))"
proof -
  obtain d1 where "touches (jrID c) d d1" and e: "extends d1 (runOne r dn now res c d)" using runOne_change by blast
  then obtain g where "jtRows d1 = map g (jtRows d)" "g x = x" using assms(2) by (auto simp: touches_def)
  then have "x \<in> set (jtRows d1)" using assms(1) by force
  then show ?thesis using e by (auto simp: extends_def)
qed

lemma dueRows_ahead:
  assumes t: "distinct (map jrID (jtRows d))" and x: "x \<in> set (jtRows d)" "claimable x" "jrRunAt x \<le> ms"
    and n: "x \<notin> set (dueRows d ms w)"
  shows "length (dueRows d ms w) = w" and "set (dueRows d ms w) \<subseteq> set (ahead d x)"
proof -
  let ?L = "sort_key jobKey (filter (\<lambda>r. claimable r \<and> jrRunAt r \<le> ms) (jtRows d))"
  have C: "dueRows d ms w = take w ?L" by (simp add: dueRows_def)
  have xL: "x \<in> set ?L" using x by simp
  show "length (dueRows d ms w) = w" using n xL unfolding C by (cases "w \<le> length ?L") (simp_all add: min_def)
  have split: "?L = take w ?L @ drop w ?L" by simp
  have xd: "x \<in> set (drop w ?L)" using n xL unfolding C by (metis UnE append_take_drop_id set_append)
  have "sorted (map jobKey (take w ?L @ drop w ?L))" by (simp add: sorted_sort_key)
  then have le: "c \<in> set (take w ?L) \<Longrightarrow> jobKey c \<le> jobKey x" for c
    using xd unfolding map_append sorted_append by auto
  show "set (dueRows d ms w) \<subseteq> set (ahead d x)"
  proof
    fix c assume c: "c \<in> set (dueRows d ms w)"
    then have c': "c \<in> set (jtRows d)" "claimable c" using dueRows_props(2) [OF t, of ms w] by auto
    have "jrID c \<noteq> jrID x" using key_inj [OF t c'(1) x(1)] c n by auto
    then have "jobKey c < jobKey x" using le c unfolding C by (force simp: jobKey_def less_eq_prod_def less_prod_def)
    then show "c \<in> set (ahead d x)" using c' by (simp add: ahead_def)
  qed
qed

lemma ahead_shrinks:
  assumes "tableOK d" and "tableOK d'" and D: "D \<subseteq> set (ahead d x)"
    and sub: "\<And>y. y \<in> set (jtRows d') \<Longrightarrow> claimable y \<Longrightarrow> jobKey y < jobKey x \<Longrightarrow> y \<in> set (jtRows d) \<and> y \<notin> D"
  shows "length (ahead d' x) + card D \<le> length (ahead d x)"
proof -
  have card: "card (set (ahead z x)) = length (ahead z x)" if "tableOK z" for z
    using that by (intro distinct_card) (auto simp: ahead_def tableOK_def distinct_map)
  have "set (ahead d' x) \<subseteq> set (ahead d x) - D" using sub by (auto simp: ahead_def)
  then have "card (set (ahead d' x)) \<le> card (set (ahead d x) - D)" by (intro card_mono) auto
  also have "\<dots> = card (set (ahead d x)) - card D" by (rule card_Diff_subset) (use D in \<open>auto intro: finite_subset\<close>)
  finally show ?thesis using card [OF assms(1)] card [OF assms(2)] card_mono [OF _ D] by simp
qed

text \<open>A row that waits in the table of a running runner.\<close>

definition waiting :: "JobRow \<Rightarrow> jobSystem \<Rightarrow> bool" where
  "waiting x s \<longleftrightarrow> jobInv s \<and> sysAlive s \<and> \<not> sysDone s \<and> jtDown (sysDB s) = None \<and> x \<in> set (jtRows (sysDB s)) \<and> claimable x"

lemma waitingD:
  assumes "waiting x s"
  shows "jobInv s" "tableOK (sysDB s)" "distinct (map jrID (jtRows (sysDB s)))" "sysAlive s" "\<not> sysDone s" "jtDown (sysDB s) = None"
    "x \<in> set (jtRows (sysDB s))" "claimable x" "jrID x \<notin> jobIDs (flight s)" "jrID x < jtNext (sysDB s)"
proof -
  show w: "jobInv s" "sysAlive s" "\<not> sysDone s" "jtDown (sysDB s) = None" "x \<in> set (jtRows (sysDB s))" "claimable x"
    using assms by (simp_all add: waiting_def)
  show t: "tableOK (sysDB s)" by (rule jobInvD(1) [OF w(1)])
  then show "distinct (map jrID (jtRows (sysDB s)))" by (simp add: tableOK_def)
  show "jrID x < jtNext (sysDB s)" using t w(5) by (auto simp: tableOK_def jobIDs_def)
  show "jrID x \<notin> jobIDs (flight s)" using jobInvD(3) [OF w(1), of "jrID x"] w(5,6) unfolding held_def claimable_def by (metis)
qed

text \<open>
  What may happen while the row waits: anything but a cancellation or the deletion of its job name, with clocks that have
  reached the time of the row, and further rows enqueued for that time or later.
\<close>

definition patient :: "JobRow \<Rightarrow> job_event \<Rightarrow> bool" where
  "patient x e \<longleftrightarrow> (case e of
      EvCancel \<Rightarrow> False
    | EvDelete dn name \<Rightarrow> name \<noteq> jrName x
    | EvEnqueue dn now name payload runAt \<Rightarrow> jrRunAt x \<le> unix_milli runAt
    | EvClaim now \<Rightarrow> jrRunAt x \<le> unix_milli now
    | EvRun now res i \<Rightarrow> jrRunAt x \<le> unix_milli now
    | _ \<Rightarrow> True)"

lemma patient_cancel: "patient x e \<Longrightarrow> e \<noteq> EvCancel"
  by (auto simp: patient_def)

definition isClaim :: "job_event \<Rightarrow> bool" where
  "isClaim e \<longleftrightarrow> (case e of EvClaim now \<Rightarrow> True | _ \<Rightarrow> False)"

lemma waiting_claim:
  assumes w: "waiting x s" and due: "jrRunAt x \<le> unix_milli now" and st: "jobStep (EvClaim now) s = Some s'" and k: "0 < rnWorkers (sysRunner s)"
    and n: "jrID x \<notin> jobIDs (flight s')"
  shows "waiting x s' \<and> length (ahead (sysDB s') x) + rnWorkers (sysRunner s) \<le> length (ahead (sysDB s) x)"
proof -
  note W = waitingD [OF w]
  let ?ms = "unix_milli now" and ?d = "sysDB s" and ?w = "rnWorkers (sysRunner s)"
  let ?C = "dueRows ?d ?ms ?w"
  let ?d1 = "markStarted ?ms ?C ?d"
  have s': "s' = s\<lparr>sysDB := ?d1, sysPending := map (\<lambda>c. c\<lparr>jrStartedAt := Some ?ms\<rparr>) ?C\<rparr>"
    using st ClaimDue_eq [OF W(2), of False now "int ?w"] W(5,6) k by (auto simp: Let_def stmtError_def split: if_splits)
  have "jobIDs (sysPending s') = jobIDs ?C" by (simp add: s' jobIDs_def image_image)
  then have "jobIDs ?C \<subseteq> jobIDs (flight s')" by (auto simp: flight_def)
  then have nC: "jrID x \<notin> jobIDs ?C" using n by blast
  then have "x \<notin> set ?C" by (auto simp: jobIDs_def)
  note due = dueRows_ahead [OF W(3,7,8) due this]
  have inv: "jobInv s'" by (rule jobStep_inv [OF W(1) st])
  have xin: "x \<in> set (jtRows ?d1)" using W(7) nC by (force simp: markStarted_def updateJobs_def)
  have "length (ahead ?d1 x) + card (set ?C) \<le> length (ahead ?d x)"
  proof (rule ahead_shrinks [OF W(2) markStarted_tableOK [OF W(2)] due(2)])
    fix y assume "y \<in> set (jtRows ?d1)" "claimable y"
    then show "y \<in> set (jtRows ?d) \<and> y \<notin> set ?C"
      by (auto simp: markStarted_def updateJobs_def claimable_def jobIDs_def split: if_splits)
  qed
  moreover have "card (set ?C) = ?w" using distinct_card [of ?C] dueRows_props(1) [OF W(3)] due(1) by (simp add: distinct_map)
  ultimately show ?thesis using inv xin W by (simp add: waiting_def s') (simp add: markStarted_def updateJobs_def)
qed

lemma waiting_run:
  assumes w: "waiting x s" and due: "jrRunAt x \<le> unix_milli now" and st: "jobStep (EvRun now res i) s = Some s'" and poll: "1000000 \<le> rnPoll (sysRunner s)"
  shows "waiting x s' \<and> length (ahead (sysDB s') x) \<le> length (ahead (sysDB s) x)"
proof -
  note W = waitingD [OF w]
  obtain row where row: "find (\<lambda>r. jrID r = i) (sysRunning s) = Some row"
    and s': "s' = s\<lparr>sysDB := runOne (sysRunner s) False now res row (sysDB s), sysRunning := filter (\<lambda>r. jrID r \<noteq> i) (sysRunning s)\<rparr>"
    using st W(5) by (auto split: option.splits)
  have fl: "jrID row \<in> jobIDs (flight s)" using find_SomeD [OF row] by (auto simp: flight_def jobIDs_def)
  then have ne: "jrID x \<noteq> jrID row" using W(9) by metis
  let ?d1 = "runOne (sysRunner s) False now res row (sysDB s)"
  have inv: "jobInv s'" by (rule jobStep_inv [OF W(1) st])
  have late: "unix_milli now < unix_milli (now + rnPoll (sysRunner s))" using poll by (simp add: unix_milli_def)
  have old: "y \<in> set (jtRows (sysDB s))" if y: "y \<in> set (jtRows ?d1)" "claimable y" "jobKey y < jobKey x" for y
  proof (cases "jrID row = 0")
    case True
    then show ?thesis
    proof -
      have "r \<in> set (jtRows (sysDB s)) \<or> jrRunAt r = unix_milli (now + rnPoll (sysRunner s))" if "r \<in> set (jtRows ?d1)" for r
        using that True by (auto simp: runOne_def Complete_def Fail_def Enqueue_def jobInsert_def Let_def split: if_splits option.splits)
      then show ?thesis using y late due by (force simp: jobKey_def less_prod_def)
    qed
  next
    case False
    have "jrRunAt y \<noteq> unix_milli (now + rnPoll (sysRunner s))" using y(3) late due by (auto simp: jobKey_def less_prod_def)
    then show ?thesis using runOne_rows [OF W(6) False y(1)] y(2) by blast
  qed
  have "length (ahead ?d1 x) + card ({} :: JobRow set) \<le> length (ahead (sysDB s) x)"
    by (rule ahead_shrinks [OF W(2) runOne_tableOK [OF W(2)]]) (use old in auto)
  then show ?thesis using inv W runOne_down [of "sysRunner s" False now res row] runOne_keeps [OF W(7) ne]
    by (simp add: waiting_def s')
qed

lemma waiting_enqueue:
  assumes w: "waiting x s" and late: "jrRunAt x \<le> unix_milli runAt" and st: "jobStep (EvEnqueue dn now name payload runAt) s = Some s'"
  shows "waiting x s' \<and> length (ahead (sysDB s') x) \<le> length (ahead (sysDB s) x)"
proof -
  note W = waitingD [OF w]
  let ?d1 = "fst (Enqueue (sysRunner s) (sysDB s) dn now name payload runAt)"
  have s': "s' = s\<lparr>sysDB := ?d1\<rparr>" using st by simp
  have inv: "jobInv s'" by (rule jobStep_inv [OF W(1) st])
  note e = Enqueue_extends [of "sysDB s" "sysRunner s" dn now name payload runAt]
  have new: "y \<in> set (jtRows (sysDB s)) \<or> jrRunAt y = unix_milli runAt \<and> jrID y = jtNext (sysDB s)" if "y \<in> set (jtRows ?d1)" for y
    using that by (auto simp: Enqueue_def jobInsert_def Let_def split: option.splits if_splits)
  have "length (ahead ?d1 x) + card ({} :: JobRow set) \<le> length (ahead (sysDB s) x)"
    by (rule ahead_shrinks [OF W(2)]) (use e W(2,10) late new in \<open>auto simp: extends_def jobKey_def less_prod_def\<close>, force+)
  then show ?thesis using inv W e by (auto simp: waiting_def s' extends_def)
qed

lemma waiting_delete:
  assumes w: "waiting x s" and n: "name \<noteq> jrName x" and st: "jobStep (EvDelete dn name) s = Some s'"
  shows "waiting x s' \<and> length (ahead (sysDB s') x) \<le> length (ahead (sysDB s) x)"
proof -
  note W = waitingD [OF w]
  let ?d1 = "fst (DeleteByName (sysDB s) dn name)"
  have s': "s' = s\<lparr>sysDB := ?d1\<rparr>" using st by simp
  have inv: "jobInv s'" by (rule jobStep_inv [OF W(1) st])
  have sub: "set (jtRows ?d1) \<subseteq> set (jtRows (sysDB s))" by (auto simp: DeleteByName_def split: option.splits)
  have "length (ahead ?d1 x) + card ({} :: JobRow set) \<le> length (ahead (sysDB s) x)"
    by (rule ahead_shrinks [OF W(2) DeleteByName_tableOK [OF W(2)]]) (use sub in auto)
  moreover have "x \<in> set (jtRows ?d1) \<and> jtDown ?d1 = None" using W(6,7) n by (auto simp: DeleteByName_def split: option.splits)
  ultimately show ?thesis using inv W by (simp add: waiting_def s')
qed

text \<open>One step: the row is claimed, or it goes on waiting with no more rows ahead of it, and with a batch fewer after a claim.\<close>

lemma waiting_step:
  assumes w: "waiting x s" and p: "patient x e" and st: "jobStep e s = Some s'"
    and k: "0 < rnWorkers (sysRunner s)" "1000000 \<le> rnPoll (sysRunner s)" and n: "jrID x \<notin> jobIDs (flight s')"
  shows "waiting x s' \<and> length (ahead (sysDB s') x) + (if isClaim e then rnWorkers (sysRunner s) else 0) \<le> length (ahead (sysDB s) x)"
proof -
  have other: "waiting x s'" if "sysDB s' = sysDB s" "sysAlive s'" "\<not> sysDone s'"
    using that w jobStep_inv [OF _ st] by (simp add: waiting_def)
  note W = waitingD [OF w]
  show ?thesis
  proof (cases e)
    case (EvClaim now)
    then show ?thesis using waiting_claim [OF w _ _ k(1) n] p st by (simp add: patient_def isClaim_def)
  next
    case (EvRun now res i)
    then show ?thesis using waiting_run [OF w _ _ k(2)] p st by (simp add: patient_def isClaim_def)
  next
    case (EvEnqueue dn now name payload runAt)
    then show ?thesis using waiting_enqueue [OF w] p st by (simp add: patient_def isClaim_def)
  next
    case (EvDelete dn name)
    then show ?thesis using waiting_delete [OF w] p st by (simp add: patient_def isClaim_def)
  qed (use other W p st in \<open>auto simp: patient_def isClaim_def split: if_splits list.splits\<close>)
qed

lemma jobStep_config:
  "jobStep e s = Some s' \<Longrightarrow> rnWorkers (sysRunner s') = rnWorkers (sysRunner s) \<and> rnPoll (sysRunner s') = rnPoll (sysRunner s)"
  by (cases e) (auto simp: Register_def Unregister_def Start_def split: if_splits list.splits option.splits prod.splits sum.splits)

lemma jobReach_config:
  "jobReach s s' \<Longrightarrow> rnWorkers (sysRunner s') = rnWorkers (sysRunner s) \<and> rnPoll (sysRunner s') = rnPoll (sysRunner s)"
  by (induction rule: jobReach.induct) (auto dest: jobStep_config)

text \<open>A claimed row stays with the goroutines until it is run.\<close>

lemma flight_stays:
  assumes "runEvents es s = Some s'" and "i \<in> jobIDs (flight s)" and "sysAlive s" "\<not> sysDone s" and "EvCancel \<notin> set es"
  shows "i \<in> jobIDs (flight s') \<or> (\<exists>now res. EvRun now res i \<in> set es)"
  using assms
proof (induction es arbitrary: s)
  case (Cons e es)
  obtain s1 where s1: "jobStep e s = Some s1" "runEvents es s1 = Some s'" using Cons.prems(1) by (auto split: option.splits)
  have "(i \<in> jobIDs (flight s1) \<or> (\<exists>now res. e = EvRun now res i)) \<and> sysAlive s1 \<and> \<not> sysDone s1"
    using s1(1) Cons.prems(2-5) by (cases e) (auto simp: flight_def jobIDs_def split: if_splits list.splits option.splits prod.splits sum.splits)
  then show ?case using Cons.IH [OF s1(2)] Cons.prems(5) by auto
qed simp

lemma waiting_progress:
  assumes "waiting x s" and "0 < rnWorkers (sysRunner s)" "1000000 \<le> rnPoll (sysRunner s)"
    and "runEvents es s = Some s'" and "\<forall>e \<in> set es. patient x e"
    and "length (ahead (sysDB s) x) < length (filter isClaim es) * rnWorkers (sysRunner s)"
  shows "\<exists>es1 es2 s1. es = es1 @ es2 \<and> runEvents es1 s = Some s1 \<and> runEvents es2 s1 = Some s' \<and> jrID x \<in> jobIDs (flight s1)
    \<and> sysAlive s1 \<and> \<not> sysDone s1"
  using assms
proof (induction es arbitrary: s)
  case (Cons e es)
  obtain s1 where s1: "jobStep e s = Some s1" "runEvents es s1 = Some s'" using Cons.prems(4) by (auto split: option.splits)
  have p: "patient x e" using Cons.prems(5) by simp
  note c = jobStep_config [OF s1(1)]
  show ?case
  proof (cases "jrID x \<in> jobIDs (flight s1)")
    case True
    have "sysAlive s1 \<and> \<not> sysDone s1" using s1(1) p waitingD(4,5) [OF Cons.prems(1)]
      by (cases e) (auto simp: patient_def split: if_splits list.splits option.splits prod.splits sum.splits)
    then show ?thesis using True s1 by (intro exI [of _ "[e]"] exI [of _ es] exI [of _ s1]) simp
  next
    case False
    note st = waiting_step [OF Cons.prems(1) p s1(1) Cons.prems(2,3) False]
    have "length (ahead (sysDB s1) x) < length (filter isClaim es) * rnWorkers (sysRunner s1)"
      using st c Cons.prems(6) by (auto split: if_splits)
    then obtain es1 es2 s2 where "es = es1 @ es2" "runEvents es1 s1 = Some s2" "runEvents es2 s2 = Some s'" "jrID x \<in> jobIDs (flight s2)"
        "sysAlive s2" "\<not> sysDone s2"
      using Cons.IH [of s1] st s1(2) c Cons.prems(2,3,5) by auto
    then show ?thesis using s1(1) by (intro exI [of _ "e # es1"] exI [of _ es2] exI [of _ s2]) simp
  qed
qed simp

section \<open>Properties\<close>

text \<open>
  C37. A due row does not starve behind other rows: on a runner that is running and not cancelled, with a poll interval of at least a millisecond
  (the resolution of the table), a claimable row is claimed by the time the poll loop has claimed as often as the rows ahead of it
  fill batches of the workers, plus once, however claims, sends, takes, runs, registrations, deletions of other jobs and enqueued rows are
  interleaved, and whatever the jobs return: a row that failed and the next row of a periodic job come after it. The clocks have reached the time
  of the row and nothing is enqueued for an earlier one. From then on the row is with the goroutines until it is run. That a job
  returns, so that the poll loop gets to its next claim, and that the runner is not stopped, is not part of the statement.
\<close>

theorem job_progress:
  assumes "tableOK d" and "jobReach (NewJobSystem workers poll d) s" and "poll \<le> 0 \<or> 1000000 \<le> poll"
    and "sysAlive s" "\<not> sysDone s" "jtDown (sysDB s) = None" and "x \<in> set (jtRows (sysDB s))" "claimable x"
    and "runEvents es s = Some s'" and "\<forall>e \<in> set es. patient x e"
    and "length (ahead (sysDB s) x) div rnWorkers (sysRunner s) < length (filter isClaim es)"
  shows "\<exists>es1 es2 s1. es = es1 @ es2 \<and> runEvents es1 s = Some s1 \<and> jrID x \<in> jobIDs (flight s1)
    \<and> (jrID x \<in> jobIDs (flight s') \<or> (\<exists>now res. EvRun now res (jrID x) \<in> set es2))"
proof -
  have w: "waiting x s" using assms jobReach_inv [OF assms(2) NewJobSystem_inv [OF assms(1)]] by (simp add: waiting_def)
  have c: "0 < rnWorkers (sysRunner s)" "1000000 \<le> rnPoll (sysRunner s)"
    using jobReach_config [OF assms(2)] assms(3) by (auto simp: NewJobSystem_def NewRunner_def)
  have l: "length (ahead (sysDB s) x) < length (filter isClaim es) * rnWorkers (sysRunner s)"
    using assms(11) c(1) by (simp add: div_less_iff_less_mult)
  obtain es1 es2 s1 where e: "es = es1 @ es2" "runEvents es1 s = Some s1" "runEvents es2 s1 = Some s'" "jrID x \<in> jobIDs (flight s1)"
      "sysAlive s1" "\<not> sysDone s1"
    using waiting_progress [OF w c assms(9,10) l] by blast
  have "EvCancel \<notin> set es2" using assms(10) e(1) patient_cancel [of x EvCancel] by auto
  from flight_stays [OF e(3-6) this] show ?thesis using e by blast
qed

definition demoJob :: "int \<Rightarrow> int \<Rightarrow> JobRow" where
  "demoJob i t = \<lparr>jrID = i, jrName = ''a'', jrPayload = [], jrRunAt = t, jrStartedAt = None, jrCompletedAt = None,
     jrLastError = [], jrAttempts = 0, jrCreatedAt = 0\<rparr>"

definition demoJobs :: jobTable where
  "demoJobs = \<lparr>jtRows = [demoJob 1 7, demoJob 2 5, demoJob 3 5], jtNext = 4, jtDown = None\<rparr>"

text \<open>One worker, three due rows: the row with the latest time is claimed by the third claim, although every job fails.\<close>

definition demoRounds :: "job_event list" where
  "demoRounds = [EvClaim 8000000, EvSend, EvTake, EvEnqueue False 8000000 ''a'' [] 8000000, EvRun 8000000 (Some ''e'') 2,
     EvClaim 9000000, EvSend, EvTake, EvRun 9000000 (Some ''e'') 3, EvClaim 9000000, EvSend, EvTake]"

theorem job_progress_witness:
  "\<exists>s s' es1 es2 s1. runEvents [EvRegister ''a'', EvStart False 7000000] (NewJobSystem 1 1000000 demoJobs) = Some s
    \<and> runEvents demoRounds s = Some s' \<and> demoRounds = es1 @ es2 \<and> runEvents es1 s = Some s1 \<and> 1 \<in> jobIDs (flight s1)"
proof -
  let ?x = "demoJob 1 7" and ?s0 = "NewJobSystem 1 1000000 demoJobs"
  have "case runEvents [EvRegister ''a'', EvStart False 7000000] ?s0 of None \<Rightarrow> False
      | Some s \<Rightarrow> sysAlive s \<and> \<not> sysDone s \<and> jtDown (sysDB s) = None \<and> jtRows (sysDB s) = jtRows demoJobs \<and> rnWorkers (sysRunner s) = 1
          \<and> runEvents demoRounds s \<noteq> None" by code_simp
  then obtain s s' where s: "runEvents [EvRegister ''a'', EvStart False 7000000] ?s0 = Some s" "sysAlive s" "\<not> sysDone s" "jtDown (sysDB s) = None"
      "jtRows (sysDB s) = jtRows demoJobs" "rnWorkers (sysRunner s) = 1" "runEvents demoRounds s = Some s'"
    by (auto split: option.splits)
  have t: "tableOK demoJobs" by (auto simp: tableOK_def jobIDs_def demoJobs_def demoJob_def)
  have x: "?x \<in> set (jtRows (sysDB s))" "claimable ?x" unfolding s(5) by (simp_all add: demoJobs_def demoJob_def claimable_def)
  have p: "\<forall>e \<in> set demoRounds. patient ?x e" by (simp add: demoRounds_def patient_def demoJob_def unix_milli_def)
  have "length (ahead (sysDB s) ?x) \<le> length (jtRows demoJobs) - 1" 
    by (simp add: ahead_def s(5) demoJobs_def)
  then have l: "length (ahead (sysDB s) ?x) div rnWorkers (sysRunner s) < length (filter isClaim demoRounds)"
    by (simp add: s(6) demoRounds_def isClaim_def demoJobs_def)
  show ?thesis
    using job_progress [OF t runEvents_reach [OF s(1) reach_refl] _ s(2-4) x s(7) p l] s(1,7) by (auto simp: demoJob_def)
qed

text \<open>
  C38. No row is with two workers: in every state that a runner reaches, the rows that the poll loop holds, those in the channel and
  those being run have different ids, and a further claim returns none of them, whichever way claims, sends,
  runs, failures, enqueues, deletions, stops and starts are interleaved.
\<close>

theorem job_single_flight:
  assumes "tableOK d" and "jobReach (NewJobSystem workers poll d) s"
  shows "distinct (map jrID (sysPending s @ sysCh s @ sysRunning s))
    \<and> (\<forall>d' rows. ClaimDue (sysDB s) dn now w = (d', Inr rows) \<longrightarrow> jobIDs rows \<inter> jobIDs (sysPending s @ sysCh s @ sysRunning s) = {})"
proof -
  have i: "jobInv s" using jobReach_inv [OF assms(2) NewJobSystem_inv [OF assms(1)]] .
  have "jobIDs rows \<inter> jobIDs (flight s) = {}" if c: "ClaimDue (sysDB s) dn now w = (d', Inr rows)" for d' rows
  proof (cases "stmtError (sysDB s) dn")
    case None
    then have "jobIDs rows = jobIDs (dueRows (sysDB s) (unix_milli now) (if w \<le> 0 then 1 else nat w))"
      using c ClaimDue_eq [OF jobInvD(1) [OF i] None, of now w] by (auto simp: Let_def jobIDs_def image_image)
    then show ?thesis using held_claimed(2) [OF jobInvD(1) [OF i] refl] jobInvD(3) [OF i] by blast
  qed (use c in \<open>simp add: ClaimDue_def\<close>)
  then show ?thesis using jobInvD(2) [OF i] unfolding flight_def by blast
qed

definition demoClaim :: "job_event list" where
  "demoClaim = [EvRegister ''a'', EvStart False 7000000, EvClaim 7000000, EvSend, EvTake, EvClaim 8000000]"

theorem job_single_flight_witness:
  "\<exists>s. runEvents demoClaim (NewJobSystem 1 1000000 demoJobs) = Some s
     \<and> map jrID (sysPending s) = [3] \<and> map jrID (sysRunning s) = [2]
     \<and> distinct (map jrID (sysPending s @ sysCh s @ sysRunning s))"
proof -
  have "case runEvents demoClaim (NewJobSystem 1 1000000 demoJobs) of None \<Rightarrow> False
      | Some s \<Rightarrow> map jrID (sysPending s) = [3] \<and> map jrID (sysRunning s) = [2]"
    by code_simp
  then obtain s where s: "runEvents demoClaim (NewJobSystem 1 1000000 demoJobs) = Some s"
    "map jrID (sysPending s) = [3] \<and> map jrID (sysRunning s) = [2]" by (auto split: option.splits)
  have "tableOK demoJobs" by (auto simp: tableOK_def jobIDs_def demoJobs_def demoJob_def)
  then have "distinct (map jrID (sysPending s @ sysCh s @ sysRunning s))"
    by (rule conjunct1 [OF job_single_flight [OF _ runEvents_reach [OF s(1) reach_refl]]])
  then show ?thesis using s by (intro exI [of _ s] conjI) simp_all
qed

text \<open>
  A row that is in flight when the runner is stopped is lost: the statements that would record its outcome run
  with the cancelled context and fail, and the row keeps its start mark. In every state after the goroutines have ended,
  further starts included, the row is in the table, started and not completed, and no worker has it; only the
  deletion of its job name removes it.
\<close>

theorem job_lost_on_stop:
  assumes "tableOK d" and "jobReach (NewJobSystem workers poll d) s" and "i \<in> jobIDs (flight s)" and "rowStuck (sysDB s) i"
    and "jobStep EvCancel s = Some s1" and "runEvents (es @ EvExit # es') s1 = Some s2" and "\<not> list_ex isDelete (es @ es')"
  shows "rowStuck (sysDB s2) i \<and> i \<notin> jobIDs (flight s2)"
proof -
  have inv: "jobInv s1" using jobStep_inv [OF jobReach_inv [OF assms(2) NewJobSystem_inv [OF assms(1)]] assms(5)] .
  have s1: "sysDone s1" "rowStuck (sysDB s1) i" using assms(4,5) by (auto split: if_splits)
  obtain s3 where s3: "runEvents es s1 = Some s3" "runEvents (EvExit # es') s3 = Some s2"
    using assms(6) by (auto simp: runEvents_append split: option.splits)
  have r3: "rowStuck (sysDB s3) i" using stuck_run [OF s3(1) inv _ s1(2)] s1(1) assms(7) by simp
  obtain s4 where s4: "jobStep EvExit s3 = Some s4" "runEvents es' s4 = Some s2"
    using s3(2) by (auto split: option.splits simp del: jobStep.simps)
  have f4: "sysDB s4 = sysDB s3" "flight s4 = []" using s4(1) by (auto simp: flight_def split: if_splits)
  have "jobInv s4" using runEvents_inv [OF s3(1) inv] jobStep_inv s4(1) by blast
  then show ?thesis using stuck_run [OF s4(2), of i] assms(7) r3 f4 by simp
qed

definition demoStop :: "job_event list" where
  "demoStop = [EvTake, EvRun 8000000 None 2] @ EvExit # [EvStart False 9000000, EvClaim 9000000]"

theorem job_lost_on_stop_witness:
  "\<exists>s s1 s2. runEvents [EvRegister ''a'', EvStart False 7000000, EvClaim 7000000, EvSend] (NewJobSystem 1 1000000 demoJobs) = Some s
     \<and> jobStep EvCancel s = Some s1 \<and> runEvents demoStop s1 = Some s2 \<and> rowStuck (sysDB s2) 2 \<and> 2 \<notin> jobIDs (flight s2)"
proof -
  let ?es = "[EvRegister ''a'', EvStart False 7000000, EvClaim 7000000, EvSend]"
  have "case runEvents ?es (NewJobSystem 1 1000000 demoJobs) of None \<Rightarrow> False
      | Some s \<Rightarrow> map jrID (flight s) = [2] \<and> rowStuck (sysDB s) 2
          \<and> (case jobStep EvCancel s of None \<Rightarrow> False | Some s1 \<Rightarrow> runEvents demoStop s1 \<noteq> None)"
    by code_simp
  then obtain s s1 s2 where s: "runEvents ?es (NewJobSystem 1 1000000 demoJobs) = Some s" "map jrID (flight s) = [2]"
    "rowStuck (sysDB s) 2" "jobStep EvCancel s = Some s1" "runEvents demoStop s1 = Some s2"
    by (auto split: option.splits simp del: jobStep.simps)
  have "tableOK demoJobs" by (auto simp: tableOK_def jobIDs_def demoJobs_def demoJob_def)
  moreover have "2 \<in> jobIDs (flight s)" using s(2) by (auto simp: jobIDs_def map_eq_Cons_conv)
  moreover have "\<not> list_ex isDelete ([EvTake, EvRun 8000000 None 2] @ [EvStart False 9000000, EvClaim 9000000])"
    by (simp add: isDelete_def)
  ultimately have "rowStuck (sysDB s2) 2 \<and> 2 \<notin> jobIDs (flight s2)"
    using job_lost_on_stop [OF _ runEvents_reach [OF s(1) reach_refl] _ s(3,4) s(5) [unfolded demoStop_def]] by blast
  then show ?thesis using s by blast
qed

end
