(* ===== verification/Spec2Isabelle.thy ===== *)
theory Spec2Isabelle
  imports Webdav_Requests Webdav_MemRun Files_LockLaws Files_TrashLaws Files_UploadLaws Sharing_Access Auth_Laws Users_Laws Cache_Laws Login_Laws Login_Token Jobs_Laws
begin

text \<open>
  Verification development of nextcloud-go, a server that speaks the Nextcloud protocols. The program consists of
  independent packages below \<^verbatim>\<open>src/internal\<close>, wired together in \<^verbatim>\<open>app\<close>: the WebDAV handler (\<^verbatim>\<open>webdav\<close>) over an
  interface of file system operations, the database-backed file system that implements it (\<^verbatim>\<open>files\<close>), the
  login flow that hands app passwords to clients (\<^verbatim>\<open>login\<close>), the authentication of requests (\<^verbatim>\<open>auth\<close>), and the runner of
  background jobs (\<^verbatim>\<open>jobs\<close>), among many services of their own.

  \<^bold>\<open>Prelude.\<close> \<open>Go_Base\<close> holds what the packages use of Go's standard library (\<^verbatim>\<open>strings\<close>, \<^verbatim>\<open>strconv\<close>, \<^verbatim>\<open>path\<close>,
  \<^verbatim>\<open>time\<close>, \<^verbatim>\<open>unicode/utf8\<close>, escapes of \<^verbatim>\<open>encoding/xml\<close> and \<^verbatim>\<open>net/url\<close>) and the lemmas on clean paths, association
  lists and lists of rows. Strings are byte sequences, maps are association lists, times are integers in
  nanoseconds, and 64-bit arithmetic wraps where the code can reach the bound.

  \<^bold>\<open>WebDAV\<close> (\<^verbatim>\<open>src/internal/webdav\<close>).
  \<^item> \<open>Webdav_Types\<close>: entries, errors, permission strings (\<^verbatim>\<open>fs.go\<close>, \<^verbatim>\<open>davutil.go\<close>, \<^verbatim>\<open>etag.go\<close>).
  \<^item> \<open>Webdav_Cond\<close>: the conditional headers and lock headers (\<^verbatim>\<open>cond.go\<close>, \<^verbatim>\<open>lock.go\<close>): round trips of printed headers,
    agreement with their declarative reading, the cap of timeouts and its overflow.
  \<^item> \<open>Webdav_MemFS\<close>: \<open>InMemoryFS\<close> as a record and one function per method (\<^verbatim>\<open>fs.go\<close>, \<^verbatim>\<open>lock.go\<close>); a panic is a value of
    the result. \<open>Webdav_MemTree\<close> and \<open>Webdav_MemCopy\<close> refine it to a tree, a partial map from clean paths: \<open>Mkdir\<close>, \<open>Remove\<close>,
    \<open>Write\<close>, \<open>Move\<close> and \<open>Copy\<close> do to the tree what their specifications say, on every branch.
    \<open>Webdav_MemLock\<close> does the same for locks. \<open>Webdav_MemRun\<close> has the step relation of all methods and
    the invariant of every reachable state.
  \<^item> \<open>Webdav_Xml\<close>: the writers and parsers of the XML bodies (\<^verbatim>\<open>propfind.go\<close>, \<^verbatim>\<open>proppatch.go\<close>, \<^verbatim>\<open>report.go\<close>).
  \<^item> \<open>Webdav_Handler\<close>: \<open>ServeHTTP\<close> and the method handlers (\<^verbatim>\<open>handler.go\<close>) over a record of operations, the interface \<open>FS\<close>.
    \<open>Webdav_Service\<close> states the contract of that interface as locales and interprets them at \<open>InMemoryFS\<close>;
    \<open>Webdav_Requests\<close> has the properties of requests to the handler over \<open>InMemoryFS\<close>, without hooks: access, isolation of users,
    atomicity of errors, lock enforcement, conditional writes, PUT followed by GET. The database-backed file system, which the server uses,
    is the subject of the theories on files, with properties of its own.

  \<^bold>\<open>Files\<close> (\<^verbatim>\<open>src/internal/files\<close>).
  \<^item> \<open>Files_Path\<close>: normalisation of client paths, storage keys, directory entity tags (\<^verbatim>\<open>path.go\<close>).
  \<^item> \<open>Files_LockStore\<close>: the table of locks with the locale \<open>lock_store\<close>, interpreted at the SQL store (\<^verbatim>\<open>lockstore.go\<close>);
    the matching of \<open>LIKE\<close> is a parameter of the store.
  \<^item> \<open>Files_Lock\<close>: LOCK, UNLOCK, the lock check, locks by file id and WOPI locks (\<^verbatim>\<open>lock.go\<close>, \<^verbatim>\<open>wopilock.go\<close>, and what they
    use of \<^verbatim>\<open>dav.go\<close> and \<^verbatim>\<open>incoming.go\<close>). \<open>Files_LockLaws\<close> proves over any lock store that a granted lock is exclusive
    on its path and guards it against the same user, and shows what it misses: locks through shares, the depth, lock ids.
  \<^item> \<open>Files_Store\<close>: the file cache, one function per statement of \<open>SQLStore\<close> (\<^verbatim>\<open>sqlstore.go\<close>). \<open>Files_StoreLaws\<close>,
    \<open>Files_StoreMove\<close> and \<open>Files_StoreInsert\<close> show that its rows stay a tree under insertion, update and renaming of
    subtrees, that \<open>RecalcAncestors\<close> ends and makes the sizes of the directories on its way right, and that renaming a directory
    below itself breaks both.
  \<^item> \<open>Storage_Local\<close>: the storage interface and its back end on a local directory (\<^verbatim>\<open>src/internal/storage\<close>);
    \<open>Storage_Laws\<close> states the contract of a storage as the locale \<open>storage_laws\<close> and interprets it at \<open>localfs\<close>.
  \<^item> \<open>Files_Dav\<close>: the operations of \<open>DAV\<close> over the file cache, the storage, the lock table and the services it calls
    (\<^verbatim>\<open>dav.go\<close>, \<^verbatim>\<open>incoming.go\<close>, \<^verbatim>\<open>condwrite.go\<close>, \<^verbatim>\<open>activity.go\<close>), in the configuration without file name encryption.
    \<open>Files_DavLaws\<close> has the agreement of file cache and storage and, over any storage with the contract, reading and
    storing; \<open>Files_DavWrite\<close> the conditional write as a refinement of a map update, and the two errors that lose content.
  \<^item> \<open>Files_Props\<close>, \<open>Files_Trash\<close>, \<open>Files_Versions\<close>: the services behind the adapter with their tables (\<^verbatim>\<open>propstore.go\<close>;
    \<^verbatim>\<open>trash.go\<close>, \<^verbatim>\<open>trashstore.go\<close>; \<^verbatim>\<open>versions.go\<close>, \<^verbatim>\<open>versionstore.go\<close>). The tables are parts of the state of the services, read and
    written by two functions of the record of the service. \<open>Files_VersionLaws\<close> shows that an overwrite keeps the old bytes
    and that a restore brings them back, \<open>Files_StoreDelete\<close> that \<open>DeleteSubtree\<close> drops exactly a subtree, and \<open>Files_TrashLaws\<close> that
    deleting and restoring a file is a round trip; both show requests that fail or lose data.
  \<^item> \<open>Files_Uploads\<close>: chunked uploads (\<^verbatim>\<open>uploads.go\<close>, \<^verbatim>\<open>uploadstore.go\<close>): the table of sessions, the file system of the chunks, and
    their assembly through the adapter. \<open>Files_UploadChunks\<close> describes the upload area of a user, \<open>Files_UploadLaws\<close> shows that a
    session that is opened, filled and assembled stores the concatenation of its chunks, what \<open>Purge\<close> does to a file, and
    two errors: a wrong checksum deletes the file to be overwritten, and a chunk that breaks off counts as received.

  \<^bold>\<open>Sharing\<close> (\<^verbatim>\<open>src/internal/sharing\<close>, \<^verbatim>\<open>files/public.go\<close>).
  \<^item> \<open>Sharing_Store\<close>: the table of shares, one function per statement (\<^verbatim>\<open>sqlstore.go\<close>). \<open>Sharing_Date\<close>: expiry dates.
    \<open>Sharing_Service\<close>: the service and the expiry job (\<^verbatim>\<open>service.go\<close>, \<^verbatim>\<open>expire.go\<close>), over records for the user directory, the hasher,
    notifications, file keys and the client for other servers.
  \<^item> \<open>Sharing_Public\<close>: the file system of a public token and the page of a link (\<^verbatim>\<open>public.go\<close> of both packages).
  \<^item> \<open>Sharing_Laws\<close>: who a token serves, as an equivalence, and the invariant of every reachable table of shares, with the rows that
    the import from Nextcloud inserts without a check of their permissions.
    \<open>Sharing_Access\<close>: a token and a recipient reach only what is inside a share they hold, changes need the permission for them,
    an owner's requests leave the shares of others alone, and the shares that cover a path are found; and two errors, the
    file drop that can be read and the second share of one name, which cannot be reached.

  \<^bold>\<open>Authentication\<close> (\<^verbatim>\<open>src/internal/auth\<close>, \<^verbatim>\<open>session\<close>, \<^verbatim>\<open>users/verifier.go\<close>). \<open>Go_Base64\<close> adds base64 to the prelude.
  \<^item> \<open>Auth_Password\<close>: password hashes in the PHC format, with their round trip (\<^verbatim>\<open>password.go\<close>).
  \<^item> \<open>Auth_Store\<close>: app passwords with their two stores, issuing and revoking (\<^verbatim>\<open>apppassword.go\<close>, \<^verbatim>\<open>sqlstore.go\<close>), the table of sessions.
  \<^item> \<open>Auth_Middleware\<close>: the verifiers of passwords, app passwords, bearer tokens and session cookies, the tokens against forged requests, the
    throttling of failures, and the middleware that every protocol is behind. \<open>Auth_Laws\<close> states the contract of a token store as the locale
    \<open>token_store\<close>, interprets it at both stores, and shows the life of an app password, what guards a request with a session, and how
    failures are delayed; and two errors, app passwords of disabled accounts and bearer tokens after their revocation.

  \<^bold>\<open>Accounts\<close> (\<^verbatim>\<open>src/internal/users\<close>, \<^verbatim>\<open>src/internal/app/authusers.go\<close>). \<open>Users_Store\<close> has the tables of accounts, groups and memberships, every statement
  on them, the first administrator, and what the authentication sees; a statement can end with a fault, so that operations stop in the middle.
  \<^item> \<open>Users_Invariant\<close>: the contract of the key hooks as the locale \<open>key_hooks\<close>, interpreted at the store of the command line tools and shown for the
    store of the server, and the invariant of every reachable database, composed by triples.
  \<^item> \<open>Users_Roster\<close>: the store refines a roster of names. \<open>Users_Laws\<close>: deleting, seeding, disabling and searching accounts; that the
    schema deletes the files and shares of an account with its row, which the comments deny; and
    that a start that fails between the first account and its membership leaves no administrator.

  \<^bold>\<open>Cache\<close> (\<^verbatim>\<open>src/internal/cache\<close>). \<open>Cache_Tiered\<close> has the interface, the in-process cache over \<^verbatim>\<open>ristretto\<close> (a parameter) and the tiered cache.
  \<open>Cache_Laws\<close> shows that its index of keys is complete in every reachable state, so that a deletion by prefix misses nothing.

  \<^bold>\<open>Login\<close> (\<^verbatim>\<open>src/internal/login\<close>). \<open>Login_Flow\<close> has both stores, the service, the token generators, and
  the system of concurrent calls, each split at the point between its two accesses to the store.
  \<open>Login_Laws\<close> states the contract of a store as the locale \<open>flow_store\<close>, interprets it at both stores, and
  proves over it that credentials are disclosed once in every run in which calls on one flow do not overlap, and that
  overlapping polls disclose them twice; it also shows that the SQL store accepts a string that is not a state token. \<open>Login_Token\<close> describes the random tokens.

  \<^bold>\<open>Jobs\<close> (\<^verbatim>\<open>src/internal/jobs\<close>). \<open>Jobs_Runner\<close> has the job table, the runner, and the goroutines as events of a system
  with an explicit channel. \<open>Jobs_Laws\<close> shows that no row is with two workers, that in every interleaving a due row is claimed
  after a bounded number of claims of the poll loop, and that rows in flight at a stop are lost.

  \<^bold>\<open>Inputs and bounds.\<close> Clocks, random bytes, digests, \<^verbatim>\<open>url.Parse\<close>, the token stream of the XML decoder and the results of jobs are
  arguments of the definitions. The loops of the files package that follow the database or the storage
  (\<open>recalcLoop\<close>, \<open>collectFrom\<close>, \<open>copyAll\<close>, \<open>ingestAll\<close>, \<open>deleteTree\<close>) are partial functions whose value is \<^const>\<open>None\<close> when they do not
  return. No definition needs fuel: loops over paths decrease the length of the path, loops over
  rows and tokens are structural, and the random loop of the token generator recurses over the reads it is given, with
  \<^const>\<open>None\<close> when it needs another one; that enough reads give a token is a theorem. Statements on a database that is
  not reachable fail and change nothing. Mutexes make the operations of a store atomic; where the code drops a mutex
  between two parts of an operation, the parts are separate definitions.

  \<^bold>\<open>Not modelled.\<close> Of the database-backed file system the configuration with encrypted names is
  not reached; nor are the OCS handler of shares, mail, calendar, contacts and plugins. The s3 back end, the Redis client,
  the HTTP server, templates, logging, configuration and the command line tools are input and output or wiring.

  \<^bold>\<open>Plan.\<close> Next come the limits of the plugin host, and the stores of calendars and contacts.
\<close>

end
